(* ===== verification/Prelude.thy ===== *)
theory Prelude
  imports Main "HOL-Library.Word"
begin

unbundle bit_operations_syntax

text \<open>
  Shared vocabulary of the development.

  \<^item> The C integer types of \<^verbatim>\<open>include/kerncompat.h\<close> as machine words.
  \<^item> The outcome of a C call: a value, a negative errno, a failed \<^verbatim>\<open>BUG_ON\<close> assertion,
    an access outside an object, or an integer division by zero.
  \<^item> Sequencing of such calls, checked array access, and counted loops with a rule for
    total correctness.
  \<^item> The named collections the component theories add their facts to, and the generic
    facts on words and lists they share.
\<close>

section \<open>Collections\<close>

named_theorems run_simps \<open>rewriting of the result sequencing\<close>
named_theorems buf_simps \<open>reading back from an updated byte buffer\<close>
named_theorems abi_defs \<open>sizes and field offsets of the on-disk structures\<close>
named_theorems const_defs \<open>numeric constants of the headers\<close>

section \<open>C integers\<close>

type_synonym u8 = "8 word"
type_synonym u16 = "16 word"
type_synonym u32 = "32 word"
type_synonym u64 = "64 word"

abbreviation U8_MAX :: u8 where "U8_MAX \<equiv> - 1"
abbreviation U16_MAX :: u16 where "U16_MAX \<equiv> - 1"
abbreviation U32_MAX :: u32 where "U32_MAX \<equiv> - 1"
abbreviation U64_MAX :: u64 where "U64_MAX \<equiv> - 1"

text \<open>\<^verbatim>\<open>PAGE_CACHE_SIZE\<close> is an \<^verbatim>\<open>int\<close> literal in C; it meets both 32-bit and 64-bit operands.\<close>

abbreviation (input) SSDFS_TRUE :: bool where "SSDFS_TRUE \<equiv> True"
abbreviation (input) SSDFS_FALSE :: bool where "SSDFS_FALSE \<equiv> False"
abbreviation (input) PAGE_CACHE_SIZE :: "'a::len word" where "PAGE_CACHE_SIZE \<equiv> 4096"

section \<open>Outcomes\<close>

datatype errno = EINVAL | ERANGE | ENODATA | E2BIG | ENOMEM | EAGAIN | EOPNOTSUPP | EFAULT | EIO | ENOENT | ENOSPC
  | LIB_CODE int   \<comment> \<open>the code of a library, returned as it is\<close>

datatype fault =
    Errno errno   \<comment> \<open>the function returns the negative error code\<close>
  | Bug           \<comment> \<open>\<^verbatim>\<open>BUG()\<close> or \<^verbatim>\<open>BUG_ON(c)\<close> with \<open>c\<close> true: the process aborts\<close>
  | Oob           \<comment> \<open>an access outside the object, or through a null pointer\<close>
  | DivZero       \<comment> \<open>integer division or modulo by zero\<close>

type_synonym 'a res = "fault + 'a"

definition bnd :: "'a res \<Rightarrow> ('a \<Rightarrow> 'b res) \<Rightarrow> 'b res" where
  "bnd m f = (case m of Inl e \<Rightarrow> Inl e | Inr x \<Rightarrow> f x)"

definition BUG_ON :: "bool \<Rightarrow> unit res" where
  "BUG_ON c = (if c then Inl Bug else Inr ())"

definition fail_if :: "bool \<Rightarrow> errno \<Rightarrow> unit res" where
  "fail_if c e = (if c then Inl (Errno e) else Inr ())"

definition div_chk :: "'a::len word \<Rightarrow> 'a word \<Rightarrow> 'a word res" where
  "div_chk a b = (if b = 0 then Inl DivZero else Inr (a div b))"

definition mod_chk :: "'a::len word \<Rightarrow> 'a word \<Rightarrow> 'a word res" where
  "mod_chk a b = (if b = 0 then Inl DivZero else Inr (a mod b))"

definition nth_chk :: "'a list \<Rightarrow> nat \<Rightarrow> 'a res" where
  "nth_chk xs i = (if i < length xs then Inr (xs ! i) else Inl Oob)"

definition upd_chk :: "'a list \<Rightarrow> nat \<Rightarrow> 'a \<Rightarrow> 'a list res" where
  "upd_chk xs i v = (if i < length xs then Inr (xs[i := v]) else Inl Oob)"

text \<open>A pointer read from memory is \<open>None\<close> when it is \<^verbatim>\<open>NULL\<close>.\<close>

definition deref :: "'a option \<Rightarrow> 'a res" where
  "deref p = (case p of None \<Rightarrow> Inl Oob | Some x \<Rightarrow> Inr x)"

lemma bnd_Inl [simp, run_simps]: "bnd (Inl e) f = Inl e"
  by (simp add: bnd_def)

lemma bnd_Inr [simp, run_simps]: "bnd (Inr x) f = f x"
  by (simp add: bnd_def)

lemma bnd_eq_Inr [run_simps]: "bnd m f = Inr y \<longleftrightarrow> (\<exists>x. m = Inr x \<and> f x = Inr y)"
  by (cases m) auto

lemma bnd_eq_Inl: "bnd m f = Inl e \<longleftrightarrow> m = Inl e \<or> (\<exists>x. m = Inr x \<and> f x = Inl e)"
  by (cases m) auto

lemma bnd_assoc: "bnd (bnd m f) g = bnd m (\<lambda>x. bnd (f x) g)"
  by (cases m) auto

lemma bnd_cong [fundef_cong]:
  "m = m' \<Longrightarrow> (\<And>x. m' = Inr x \<Longrightarrow> f x = g x) \<Longrightarrow> bnd m f = bnd m' g"
  by (cases m') auto

lemma BUG_ON_simps [simp, run_simps]:
  "BUG_ON False = Inr ()" "BUG_ON True = Inl Bug"
  "BUG_ON c = Inr u \<longleftrightarrow> \<not> c" "BUG_ON c = Inl e \<longleftrightarrow> c \<and> e = Bug"
  by (auto simp: BUG_ON_def)

lemma fail_if_simps [simp, run_simps]:
  "fail_if False e = Inr ()" "fail_if True e = Inl (Errno e)"
  "fail_if c e = Inr u \<longleftrightarrow> \<not> c" "fail_if c e = Inl f \<longleftrightarrow> c \<and> f = Errno e"
  by (auto simp: fail_if_def)

lemma div_chk_ok [simp, run_simps]: "b \<noteq> 0 \<Longrightarrow> div_chk a b = Inr (a div b)"
  by (simp add: div_chk_def)

lemma mod_chk_ok [simp, run_simps]: "b \<noteq> 0 \<Longrightarrow> mod_chk a b = Inr (a mod b)"
  by (simp add: mod_chk_def)

lemma div_chk_eq_Inr: "div_chk a b = Inr c \<longleftrightarrow> b \<noteq> 0 \<and> c = a div b"
  by (auto simp: div_chk_def)

lemma mod_chk_eq_Inr: "mod_chk a b = Inr c \<longleftrightarrow> b \<noteq> 0 \<and> c = a mod b"
  by (auto simp: mod_chk_def)

lemma nth_chk_ok [simp, run_simps]: "i < length xs \<Longrightarrow> nth_chk xs i = Inr (xs ! i)"
  by (simp add: nth_chk_def)

lemma nth_chk_eq_Inr: "nth_chk xs i = Inr x \<longleftrightarrow> i < length xs \<and> x = xs ! i"
  by (auto simp: nth_chk_def)

lemma upd_chk_ok [simp, run_simps]: "i < length xs \<Longrightarrow> upd_chk xs i v = Inr (xs[i := v])"
  by (simp add: upd_chk_def)

lemma upd_chk_eq_Inr: "upd_chk xs i v = Inr ys \<longleftrightarrow> i < length xs \<and> ys = xs[i := v]"
  by (auto simp: upd_chk_def)

lemma deref_simps [simp, run_simps]:
  "deref None = Inl Oob" "deref (Some x) = Inr x" "deref p = Inr x \<longleftrightarrow> p = Some x"
  by (auto simp: deref_def split: option.splits)

lemmas guard_defs = fail_if_def BUG_ON_def

lemmas chk_eq_Inr = div_chk_eq_Inr mod_chk_eq_Inr nth_chk_eq_Inr upd_chk_eq_Inr bnd_eq_Inr

section \<open>Counted loops\<close>

primrec fold_res :: "('x \<Rightarrow> 's \<Rightarrow> 's res) \<Rightarrow> 'x list \<Rightarrow> 's \<Rightarrow> 's res" where
  "fold_res f [] s = Inr s"
| "fold_res f (x # xs) s = bnd (f x s) (fold_res f xs)"

definition for_res :: "nat \<Rightarrow> nat \<Rightarrow> (nat \<Rightarrow> 's \<Rightarrow> 's res) \<Rightarrow> 's \<Rightarrow> 's res" where
  "for_res a b f s = fold_res f [a..<b] s"

lemma fold_res_append: "fold_res f (xs @ ys) s = bnd (fold_res f xs s) (fold_res f ys)"
  by (induction xs arbitrary: s) (auto simp: bnd_assoc intro!: bnd_cong)

lemma fold_res_inv:
  assumes "fold_res f xs s = Inr s'" and "P s"
    and "\<And>x t t'. x \<in> set xs \<Longrightarrow> P t \<Longrightarrow> f x t = Inr t' \<Longrightarrow> P t'"
  shows "P s'"
  using assms
proof (induction xs arbitrary: s)
  case Nil
  then show ?case by simp
next
  case (Cons x xs)
  from Cons.prems(1) obtain t where "f x s = Inr t" and "fold_res f xs t = Inr s'"
    by (auto simp: bnd_eq_Inr)
  with Cons show ?case by (metis list.set_intros)
qed

lemma for_res_step:
  "a < b \<Longrightarrow> for_res a b f s = bnd (f a s) (for_res (Suc a) b f)"
  by (simp add: for_res_def upt_conv_Cons bnd_def split: sum.split)

lemma for_res_done [simp]: "b \<le> a \<Longrightarrow> for_res a b f s = Inr s"
  by (simp add: for_res_def)

text \<open>Total correctness of a counted loop from an index-dependent invariant.\<close>

lemma for_res_total:
  assumes "a \<le> b" and "I a s"
    and "\<And>i t. a \<le> i \<Longrightarrow> i < b \<Longrightarrow> I i t \<Longrightarrow> \<exists>t'. f i t = Inr t' \<and> I (Suc i) t'"
  shows "\<exists>s'. for_res a b f s = Inr s' \<and> I b s'"
  using assms
proof (induction "b - a" arbitrary: a s)
  case 0
  then show ?case by simp
next
  case (Suc n)
  then have lt: "a < b" by simp
  from Suc.prems lt obtain t where t: "f a s = Inr t" "I (Suc a) t" by blast
  have "\<exists>s'. for_res (Suc a) b f t = Inr s' \<and> I b s'"
    using Suc.hyps(1)[of "Suc a" t] Suc.hyps(2) Suc.prems(3) lt t(2) by fastforce
  with t(1) lt show ?case by (simp add: for_res_step)
qed

text \<open>Running the first iterations when the states they go through are known.\<close>

lemma for_res_run:
  assumes "\<And>i. a \<le> i \<Longrightarrow> i < k \<Longrightarrow> f i (S i) = Inr (S (Suc i))" and "a \<le> k" and "k \<le> n"
  shows "for_res a n f (S a) = for_res k n f (S k)"
  using assms
proof (induction k)
  case 0
  then show ?case by simp
next
  case (Suc k)
  show ?case
  proof (cases "a = Suc k")
    case False
    with Suc have "for_res a n f (S a) = for_res k n f (S k)" by simp
    also have "\<dots> = for_res (Suc k) n f (S (Suc k))"
      using Suc.prems False by (simp add: for_res_step)
    finally show ?thesis .
  qed simp
qed

text \<open>Partial correctness: what every completed iteration keeps, the result has.\<close>

lemma for_res_inv:
  assumes "for_res a b f s = Inr s'" and "P s"
    and "\<And>i t t'. a \<le> i \<Longrightarrow> i < b \<Longrightarrow> P t \<Longrightarrow> f i t = Inr t' \<Longrightarrow> P t'"
  shows "P s'"
  using assms(1,2) unfolding for_res_def
  by (rule fold_res_inv) (auto intro: assms(3))

lemma for_res_index_inv:
  assumes "for_res a b f s = Inr s'" and "a \<le> b" and "I a s"
    and "\<And>i t t'. a \<le> i \<Longrightarrow> i < b \<Longrightarrow> I i t \<Longrightarrow> f i t = Inr t' \<Longrightarrow> I (Suc i) t'"
  shows "I b s'"
  using assms
proof (induction "b - a" arbitrary: a s)
  case 0
  then show ?case by simp
next
  case (Suc n)
  then have lt: "a < b" by simp
  with Suc.prems obtain t where t: "f a s = Inr t" and rest: "for_res (Suc a) b f t = Inr s'"
    by (auto simp: for_res_step bnd_eq_Inr)
  show ?case
  proof (rule Suc.hyps(1)[OF _ rest])
    show "n = b - Suc a" using Suc.hyps(2) by simp
    show "Suc a \<le> b" using lt by simp
    show "I (Suc a) t" using Suc.prems(3,4) lt t by blast
  qed (use Suc.prems(4) in auto)
qed

section \<open>Words without wrap-around\<close>

lemma unat_add_nw: "unat a + unat b < 2 ^ LENGTH('a) \<Longrightarrow> unat (a + b) = unat a + unat b"
  for a b :: "'a::len word"
  by (simp add: unat_word_ariths)

lemma unat_mult_nw: "unat a * unat b < 2 ^ LENGTH('a) \<Longrightarrow> unat (a * b) = unat a * unat b"
  for a b :: "'a::len word"
  by (simp add: unat_word_ariths)

lemma unat_sub_nw: "b \<le> a \<Longrightarrow> unat (a - b) = unat a - unat b"
  for a b :: "'a::len word"
  by (rule unat_sub)

lemmas unat_nw = unat_add_nw unat_mult_nw unat_sub_nw unat_div unat_mod

lemma unat_ucast_small:
  "unat x < 2 ^ LENGTH('b) \<Longrightarrow> unat (ucast x :: 'b::len word) = unat x"
  for x :: "'a::len word"
  by (simp add: unsigned_ucast_eq take_bit_nat_eq_self)

lemma unat_ucast_up:
  "LENGTH('a) \<le> LENGTH('b) \<Longrightarrow> unat (ucast x :: 'b::len word) = unat x"
  for x :: "'a::len word"
  by (rule unat_ucast_small)
    (meson less_le_trans one_le_numeral power_increasing unsigned_less)

lemma unat_width: "unat w < 2 ^ LENGTH('a)" for w :: "'a::len word"
  by (rule unsigned_less)

lemma unat_min: "unat (min a b) = min (unat a) (unat b)" for a b :: "'a::len word"
  by (simp add: min_def word_le_nat_alt)

lemma unat_minus_one_eq: "unat (- 1 :: 'a::len word) = 2 ^ LENGTH('a) - 1"
  by (simp add: unsigned_minus_1_eq_mask mask_eq_exp_minus_1)

lemma word_unat_eqI: "unat a = unat b \<Longrightarrow> a = b" for a b :: "'a::len word"
  by (metis of_nat_unat ucast_id)

lemma unat_exp: "k < LENGTH('a) \<Longrightarrow> unat (2 ^ k :: 'a::len word) = 2 ^ k"
proof -
  assume k: "k < LENGTH('a)"
  have "(2 ^ k :: 'a word) = of_nat (2 ^ k)" by simp
  moreover have "(2::nat) ^ k < 2 ^ LENGTH('a)" using k by simp
  ultimately show ?thesis by (simp only: unat_of_nat mod_less)
qed

lemma ucast_max:
  "ucast U32_MAX = (0xFFFFFFFF :: u64)" "ucast U16_MAX = (0xFFFF :: u32)" "ucast U16_MAX = (0xFFFF :: u64)"
  by (rule word_unat_eqI; simp add: unat_ucast_up unat_minus_one_eq)+

section \<open>Rounding up a quotient\<close>

lemma ceil_div_mult_ge: "0 < (d::nat) \<Longrightarrow> n \<le> (n + d - 1) div d * d"
proof -
  assume d: "0 < d"
  have "(n + d - 1) div d * d = (n + d - 1) - (n + d - 1) mod d"
    by (simp add: minus_mod_eq_div_mult)
  moreover have "(n + d - 1) mod d < d" using d by simp
  ultimately show ?thesis using d by linarith
qed

lemma ceil_div_le_iff: "0 < (d::nat) \<Longrightarrow> (n + d - 1) div d \<le> k \<longleftrightarrow> n \<le> k * d"
proof
  assume d: "0 < d" and "(n + d - 1) div d \<le> k"
  then have "(n + d - 1) div d * d \<le> k * d" by (rule_tac mult_le_mono1)
  with ceil_div_mult_ge[OF d, of n] show "n \<le> k * d" by linarith
next
  assume d: "0 < d" and "n \<le> k * d"
  then have "n + d - 1 < Suc k * d" by simp
  then have "(n + d - 1) div d < Suc k" using d by (simp add: less_mult_imp_div_less)
  then show "(n + d - 1) div d \<le> k" by simp
qed

section \<open>Calls that may not return\<close>

text \<open>
  The outcome of code that contains a loop without a bound is \<open>None\<close> when it does not return. \<open>obnd\<close> is the
  sequencing and \<open>ofor\<close> the counted loop over such outcomes.
\<close>

definition obnd :: "'a res option \<Rightarrow> ('a \<Rightarrow> 'b res option) \<Rightarrow> 'b res option" where
  "obnd m f = (case m of None \<Rightarrow> None | Some r \<Rightarrow> (case r of Inl e \<Rightarrow> Some (Inl e) | Inr x \<Rightarrow> f x))"

primrec ofold :: "('x \<Rightarrow> 's \<Rightarrow> 's res option) \<Rightarrow> 'x list \<Rightarrow> 's \<Rightarrow> 's res option" where
  "ofold f [] s = Some (Inr s)"
| "ofold f (x # xs) s = obnd (f x s) (ofold f xs)"

definition ofor :: "nat \<Rightarrow> nat \<Rightarrow> (nat \<Rightarrow> 's \<Rightarrow> 's res option) \<Rightarrow> 's \<Rightarrow> 's res option" where
  "ofor a b f s = ofold f [a..<b] s"

lemma obnd_simps [simp, run_simps]:
  "obnd (Some (Inr x)) f = f x" "obnd (Some (Inl e)) f = Some (Inl e)" "obnd None f = None"
  by (simp_all add: obnd_def)

lemma obnd_eq_Inr: "obnd m f = Some (Inr y) \<longleftrightarrow> (\<exists>x. m = Some (Inr x) \<and> f x = Some (Inr y))"
  by (auto simp: obnd_def split: option.splits sum.splits)

lemma ofor_step: "a < b \<Longrightarrow> ofor a b f s = obnd (f a s) (ofor (Suc a) b f)"
  by (simp add: ofor_def upt_conv_Cons obnd_def split: option.split sum.split)

lemma ofor_done [simp]: "b \<le> a \<Longrightarrow> ofor a b f s = Some (Inr s)"
  by (simp add: ofor_def)

lemma ofor_total:
  assumes "a \<le> b" and "I a s"
    and "\<And>i t. a \<le> i \<Longrightarrow> i < b \<Longrightarrow> I i t \<Longrightarrow> \<exists>t'. f i t = Some (Inr t') \<and> I (Suc i) t'"
  shows "\<exists>s'. ofor a b f s = Some (Inr s') \<and> I b s'"
  using assms
proof (induction "b - a" arbitrary: a s)
  case 0
  then show ?case by simp
next
  case (Suc n)
  then have lt: "a < b" by simp
  from Suc.prems lt obtain t where t: "f a s = Some (Inr t)" "I (Suc a) t" by blast
  have "\<exists>s'. ofor (Suc a) b f t = Some (Inr s') \<and> I b s'"
    using Suc.hyps(2) lt t(2) Suc.prems(3) by (intro Suc.hyps(1)) auto
  with t(1) lt show ?case by (simp add: ofor_step)
qed

end
