(* ===== verification/ByteBuf.thy ===== *)
theory ByteBuf
  imports Prelude
begin

text \<open>
  Byte buffers: the memory behind \<^verbatim>\<open>void *\<close> and \<^verbatim>\<open>u8 *\<close> pointers of the tools, through which
  the packed little-endian structures of \<^verbatim>\<open>include/ssdfs_abi.h\<close> are read and written.

  \<^item> \<open>bytes_at\<close> and \<open>overwrite\<close> are the pure accessors, \<open>rd\<close>, \<open>wr\<close>, \<open>memset\<close> and \<open>memmove\<close>
    the checked ones: an access that leaves the buffer is the outcome \<open>Oob\<close>.
  \<^item> The locale \<open>codec\<close> states what the fixed-width field encodings promise; its
    interpretations are the little-endian integers of 1, 2, 4 and 8 bytes
    (\<^verbatim>\<open>cpu_to_le16\<close>, \<^verbatim>\<open>le16_to_cpu\<close> and so on of \<^verbatim>\<open>include/kerncompat.h\<close>, on a little-endian
    64-bit host).
  \<^item> \<open>set_bit_chk\<close> and \<open>test_bit_chk\<close> are \<^verbatim>\<open>__set_bit\<close> and \<^verbatim>\<open>test_bit\<close> over 64-bit longs.
\<close>

type_synonym buf = "u8 list"

section \<open>Reading and overwriting a range\<close>

definition bytes_at :: "buf \<Rightarrow> nat \<Rightarrow> nat \<Rightarrow> buf" where
  "bytes_at b off n = take n (drop off b)"

definition overwrite :: "buf \<Rightarrow> nat \<Rightarrow> buf \<Rightarrow> buf" where
  "overwrite b off d = take off b @ d @ drop (off + length d) b"

definition rd :: "buf \<Rightarrow> nat \<Rightarrow> nat \<Rightarrow> buf res" where
  "rd b off n = (if off + n \<le> length b then Inr (bytes_at b off n) else Inl Oob)"

definition wr :: "buf \<Rightarrow> nat \<Rightarrow> buf \<Rightarrow> buf res" where
  "wr b off d = (if off + length d \<le> length b then Inr (overwrite b off d) else Inl Oob)"

definition memset :: "buf \<Rightarrow> nat \<Rightarrow> u8 \<Rightarrow> nat \<Rightarrow> buf res" where
  "memset b off v n = wr b off (replicate n v)"

text \<open>\<^verbatim>\<open>memmove\<close> reads the whole source range before it writes, so the ranges may overlap.\<close>

definition memmove :: "buf \<Rightarrow> nat \<Rightarrow> nat \<Rightarrow> nat \<Rightarrow> buf res" where
  "memmove b dst src n = bnd (rd b src n) (wr b dst)"

lemma length_bytes_at [simp]: "off + n \<le> length b \<Longrightarrow> length (bytes_at b off n) = n"
  by (simp add: bytes_at_def)

lemma length_overwrite [simp, buf_simps]:
  "off + length d \<le> length b \<Longrightarrow> length (overwrite b off d) = length b"
  by (simp add: overwrite_def)

lemma nth_bytes_at: "i < n \<Longrightarrow> off + n \<le> length b \<Longrightarrow> bytes_at b off n ! i = b ! (off + i)"
  by (simp add: bytes_at_def)

lemma nth_overwrite:
  "off + length d \<le> length b \<Longrightarrow> i < length b \<Longrightarrow>
     overwrite b off d ! i = (if off \<le> i \<and> i < off + length d then d ! (i - off) else b ! i)"
  by (auto simp: overwrite_def nth_append min_def)

lemma bytes_at_overwrite_same [simp, buf_simps]:
  "off + length d \<le> length b \<Longrightarrow> n = length d \<Longrightarrow> bytes_at (overwrite b off d) off n = d"
  by (simp add: bytes_at_def overwrite_def)

lemma bytes_at_overwrite_disj [buf_simps]:
  "off + length d \<le> length b \<Longrightarrow> off' + n \<le> off \<or> off + length d \<le> off' \<Longrightarrow>
     bytes_at (overwrite b off d) off' n = bytes_at b off' n"
  by (rule nth_equalityI) (auto simp: bytes_at_def overwrite_def nth_append)

lemma bytes_at_bytes_at:
  "i + m \<le> n \<Longrightarrow> bytes_at (bytes_at b off n) i m = bytes_at b (off + i) m"
  by (simp add: bytes_at_def drop_take add.commute min_def)

lemma overwrite_bytes_at: "off + n \<le> length b \<Longrightarrow> overwrite b off (bytes_at b off n) = b"
proof (rule nth_equalityI)
  assume a: "off + n \<le> length b"
  then show "length (overwrite b off (bytes_at b off n)) = length b" by simp
  fix i assume "i < length (overwrite b off (bytes_at b off n))"
  with a show "overwrite b off (bytes_at b off n) ! i = b ! i"
    by (auto simp: nth_overwrite nth_bytes_at)
qed

lemma overwrite_overwrite_same:
  "length d' = length d \<Longrightarrow> off + length d \<le> length b \<Longrightarrow>
     overwrite (overwrite b off d) off d' = overwrite b off d'"
  by (simp add: overwrite_def)

lemma rd_ok [simp, run_simps]: "off + n \<le> length b \<Longrightarrow> rd b off n = Inr (bytes_at b off n)"
  by (simp add: rd_def)

lemma wr_ok [simp, run_simps]: "off + length d \<le> length b \<Longrightarrow> wr b off d = Inr (overwrite b off d)"
  by (simp add: wr_def)

lemma wr_eq_Inr: "wr b off d = Inr b' \<longleftrightarrow> off + length d \<le> length b \<and> b' = overwrite b off d"
  by (auto simp: wr_def)

lemma rd_eq_Inr: "rd b off n = Inr x \<longleftrightarrow> off + n \<le> length b \<and> x = bytes_at b off n"
  by (auto simp: rd_def)

section \<open>Fixed-width field encodings\<close>

locale codec =
  fixes enc :: "'v \<Rightarrow> buf" and dec :: "buf \<Rightarrow> 'v" and w :: nat
  assumes length_enc: "length (enc v) = w"
    and dec_enc: "dec (enc v) = v"
    and enc_dec: "length bs = w \<Longrightarrow> enc (dec bs) = bs"
begin

lemma get_put_same:
  "off + w \<le> length b \<Longrightarrow> dec (bytes_at (overwrite b off (enc v)) off w) = v"
  by (simp add: length_enc dec_enc)

lemma put_get_same:
  "off + w \<le> length b \<Longrightarrow> overwrite b off (enc (dec (bytes_at b off w))) = b"
  by (simp add: enc_dec overwrite_bytes_at)

lemma get_overwrite_disj:
  "off + length d \<le> length b \<Longrightarrow> off' + w \<le> off \<or> off + length d \<le> off' \<Longrightarrow>
     dec (bytes_at (overwrite b off d) off' w) = dec (bytes_at b off' w)"
  by (simp add: bytes_at_overwrite_disj)

lemma put_put_same:
  "off + w \<le> length b \<Longrightarrow>
     overwrite (overwrite b off (enc v)) off (enc v') = overwrite b off (enc v')"
  by (simp add: overwrite_overwrite_same length_enc)

lemma enc_inj: "enc v = enc v' \<longleftrightarrow> v = v'"
  by (metis dec_enc)

end

subsection \<open>Little-endian integers\<close>

definition le_enc :: "nat \<Rightarrow> 'a::len word \<Rightarrow> buf" where
  "le_enc n v = map (\<lambda>i. ucast (drop_bit (8 * i) v)) [0..<n]"

primrec le_dec :: "buf \<Rightarrow> 'a::len word" where
  "le_dec [] = 0"
| "le_dec (b # bs) = ucast b OR push_bit 8 (le_dec bs)"

lemma length_le_enc [simp]: "length (le_enc n v) = n"
  by (simp add: le_enc_def)

lemma bit_le_dec:
  "bit (le_dec bs :: 'a::len word) k \<longleftrightarrow>
     k < LENGTH('a) \<and> k div 8 < length bs \<and> bit (bs ! (k div 8)) (k mod 8)"
proof (induction bs arbitrary: k)
  case Nil
  then show ?case by simp
next
  case (Cons b bs)
  show ?case
  proof (cases "k < 8")
    case True
    then show ?thesis by (auto simp: bit_simps)
  next
    case False
    then obtain j where j: "k = j + 8" by (metis add.commute le_iff_add not_less)
    have "\<not> bit b (j + 8)"
      using bit_imp_le_length[of b "j + 8"] by auto
    moreover have "(j + 8) div 8 = Suc (j div 8)" "(j + 8) mod 8 = j mod 8" by simp_all
    ultimately show ?thesis using j by (auto simp: bit_simps Cons.IH simp del: div_add_self2)
  qed
qed

lemma le_dec_enc: "LENGTH('a) = 8 * n \<Longrightarrow> le_dec (le_enc n v) = v" for v :: "'a::len word"
  by (rule bit_word_eqI) (auto simp: bit_le_dec le_enc_def bit_simps)

lemma le_enc_dec: "LENGTH('a) = 8 * n \<Longrightarrow> length bs = n \<Longrightarrow> le_enc n (le_dec bs :: 'a::len word) = bs"
  by (rule nth_equalityI, simp, rule bit_word_eqI)
    (auto simp: bit_le_dec le_enc_def bit_simps)

lemma codec_le: "LENGTH('a) = 8 * n \<Longrightarrow> codec (le_enc n :: 'a::len word \<Rightarrow> buf) le_dec n"
  by unfold_locales (simp_all add: le_dec_enc le_enc_dec)

interpretation le8: codec "le_enc 1 :: u8 \<Rightarrow> buf" le_dec 1
  by (rule codec_le) simp

interpretation le16: codec "le_enc 2 :: u16 \<Rightarrow> buf" le_dec 2
  by (rule codec_le) simp

interpretation le32: codec "le_enc 4 :: u32 \<Rightarrow> buf" le_dec 4
  by (rule codec_le) simp

interpretation le64: codec "le_enc 8 :: u64 \<Rightarrow> buf" le_dec 8
  by (rule codec_le) simp

subsection \<open>Fields of packed structures\<close>

definition get8 :: "buf \<Rightarrow> nat \<Rightarrow> u8" where "get8 b off = le_dec (bytes_at b off 1)"
definition get16 :: "buf \<Rightarrow> nat \<Rightarrow> u16" where "get16 b off = le_dec (bytes_at b off 2)"
definition get32 :: "buf \<Rightarrow> nat \<Rightarrow> u32" where "get32 b off = le_dec (bytes_at b off 4)"
definition get64 :: "buf \<Rightarrow> nat \<Rightarrow> u64" where "get64 b off = le_dec (bytes_at b off 8)"

definition put8 :: "buf \<Rightarrow> nat \<Rightarrow> u8 \<Rightarrow> buf" where "put8 b off v = overwrite b off (le_enc 1 v)"
definition put16 :: "buf \<Rightarrow> nat \<Rightarrow> u16 \<Rightarrow> buf" where "put16 b off v = overwrite b off (le_enc 2 v)"
definition put32 :: "buf \<Rightarrow> nat \<Rightarrow> u32 \<Rightarrow> buf" where "put32 b off v = overwrite b off (le_enc 4 v)"
definition put64 :: "buf \<Rightarrow> nat \<Rightarrow> u64 \<Rightarrow> buf" where "put64 b off v = overwrite b off (le_enc 8 v)"

definition rd8 :: "buf \<Rightarrow> nat \<Rightarrow> u8 res" where
  "rd8 b off = (if off + 1 \<le> length b then Inr (get8 b off) else Inl Oob)"
definition rd16 :: "buf \<Rightarrow> nat \<Rightarrow> u16 res" where
  "rd16 b off = (if off + 2 \<le> length b then Inr (get16 b off) else Inl Oob)"
definition rd32 :: "buf \<Rightarrow> nat \<Rightarrow> u32 res" where
  "rd32 b off = (if off + 4 \<le> length b then Inr (get32 b off) else Inl Oob)"
definition rd64 :: "buf \<Rightarrow> nat \<Rightarrow> u64 res" where
  "rd64 b off = (if off + 8 \<le> length b then Inr (get64 b off) else Inl Oob)"

definition wr8 :: "buf \<Rightarrow> nat \<Rightarrow> u8 \<Rightarrow> buf res" where
  "wr8 b off v = (if off + 1 \<le> length b then Inr (put8 b off v) else Inl Oob)"
definition wr16 :: "buf \<Rightarrow> nat \<Rightarrow> u16 \<Rightarrow> buf res" where
  "wr16 b off v = (if off + 2 \<le> length b then Inr (put16 b off v) else Inl Oob)"
definition wr32 :: "buf \<Rightarrow> nat \<Rightarrow> u32 \<Rightarrow> buf res" where
  "wr32 b off v = (if off + 4 \<le> length b then Inr (put32 b off v) else Inl Oob)"
definition wr64 :: "buf \<Rightarrow> nat \<Rightarrow> u64 \<Rightarrow> buf res" where
  "wr64 b off v = (if off + 8 \<le> length b then Inr (put64 b off v) else Inl Oob)"

lemmas put_defs = put8_def put16_def put32_def put64_def

lemma rd_field_ok [simp, run_simps]:
  "off + 1 \<le> length b \<Longrightarrow> rd8 b off = Inr (get8 b off)"
  "off + 2 \<le> length b \<Longrightarrow> rd16 b off = Inr (get16 b off)"
  "off + 4 \<le> length b \<Longrightarrow> rd32 b off = Inr (get32 b off)"
  "off + 8 \<le> length b \<Longrightarrow> rd64 b off = Inr (get64 b off)"
  by (simp_all add: rd8_def rd16_def rd32_def rd64_def)

lemma wr_field_ok [simp, run_simps]:
  "off + 1 \<le> length b \<Longrightarrow> wr8 b off v8 = Inr (put8 b off v8)"
  "off + 2 \<le> length b \<Longrightarrow> wr16 b off v16 = Inr (put16 b off v16)"
  "off + 4 \<le> length b \<Longrightarrow> wr32 b off v32 = Inr (put32 b off v32)"
  "off + 8 \<le> length b \<Longrightarrow> wr64 b off v64 = Inr (put64 b off v64)"
  by (simp_all add: wr8_def wr16_def wr32_def wr64_def)

lemma field_eq_Inr:
  "rd8 b off = Inr x8 \<longleftrightarrow> off + 1 \<le> length b \<and> x8 = get8 b off"
  "rd16 b off = Inr x16 \<longleftrightarrow> off + 2 \<le> length b \<and> x16 = get16 b off"
  "rd32 b off = Inr x32 \<longleftrightarrow> off + 4 \<le> length b \<and> x32 = get32 b off"
  "rd64 b off = Inr x64 \<longleftrightarrow> off + 8 \<le> length b \<and> x64 = get64 b off"
  "wr8 b off v8 = Inr b' \<longleftrightarrow> off + 1 \<le> length b \<and> b' = put8 b off v8"
  "wr16 b off v16 = Inr b' \<longleftrightarrow> off + 2 \<le> length b \<and> b' = put16 b off v16"
  "wr32 b off v32 = Inr b' \<longleftrightarrow> off + 4 \<le> length b \<and> b' = put32 b off v32"
  "wr64 b off v64 = Inr b' \<longleftrightarrow> off + 8 \<le> length b \<and> b' = put64 b off v64"
  by (auto simp: rd8_def rd16_def rd32_def rd64_def wr8_def wr16_def wr32_def wr64_def)

lemma length_put [simp, buf_simps]:
  "off + 1 \<le> length b \<Longrightarrow> length (put8 b off v8) = length b"
  "off + 2 \<le> length b \<Longrightarrow> length (put16 b off v16) = length b"
  "off + 4 \<le> length b \<Longrightarrow> length (put32 b off v32) = length b"
  "off + 8 \<le> length b \<Longrightarrow> length (put64 b off v64) = length b"
  by (simp_all add: put_defs)

lemma get_put_field [simp, buf_simps]:
  "off + 1 \<le> length b \<Longrightarrow> get8 (put8 b off v8) off = v8"
  "off + 2 \<le> length b \<Longrightarrow> get16 (put16 b off v16) off = v16"
  "off + 4 \<le> length b \<Longrightarrow> get32 (put32 b off v32) off = v32"
  "off + 8 \<le> length b \<Longrightarrow> get64 (put64 b off v64) off = v64"
  unfolding get8_def get16_def get32_def get64_def put_defs
  by (rule le8.get_put_same le16.get_put_same le32.get_put_same le64.get_put_same, assumption)+

lemma put_put_field [simp, buf_simps]:
  "off + 1 \<le> length b \<Longrightarrow> put8 (put8 b off v8) off w8 = put8 b off w8"
  "off + 2 \<le> length b \<Longrightarrow> put16 (put16 b off v16) off w16 = put16 b off w16"
  "off + 4 \<le> length b \<Longrightarrow> put32 (put32 b off v32) off w32 = put32 b off w32"
  "off + 8 \<le> length b \<Longrightarrow> put64 (put64 b off v64) off w64 = put64 b off w64"
  unfolding put_defs
  by (rule le8.put_put_same le16.put_put_same le32.put_put_same le64.put_put_same, assumption)+

lemma put_get_field [simp, buf_simps]:
  "off + 1 \<le> length b \<Longrightarrow> put8 b off (get8 b off) = b"
  "off + 2 \<le> length b \<Longrightarrow> put16 b off (get16 b off) = b"
  "off + 4 \<le> length b \<Longrightarrow> put32 b off (get32 b off) = b"
  "off + 8 \<le> length b \<Longrightarrow> put64 b off (get64 b off) = b"
  unfolding get8_def get16_def get32_def get64_def put_defs
  by (rule le8.put_get_same le16.put_get_same le32.put_get_same le64.put_get_same, assumption)+

lemma get_overwrite_field [buf_simps]:
  "off + length d \<le> length b \<Longrightarrow> o' + 1 \<le> off \<or> off + length d \<le> o' \<Longrightarrow>
     get8 (overwrite b off d) o' = get8 b o'"
  "off + length d \<le> length b \<Longrightarrow> o' + 2 \<le> off \<or> off + length d \<le> o' \<Longrightarrow>
     get16 (overwrite b off d) o' = get16 b o'"
  "off + length d \<le> length b \<Longrightarrow> o' + 4 \<le> off \<or> off + length d \<le> o' \<Longrightarrow>
     get32 (overwrite b off d) o' = get32 b o'"
  "off + length d \<le> length b \<Longrightarrow> o' + 8 \<le> off \<or> off + length d \<le> o' \<Longrightarrow>
     get64 (overwrite b off d) o' = get64 b o'"
  unfolding get8_def get16_def get32_def get64_def
  by (rule le8.get_overwrite_disj le16.get_overwrite_disj le32.get_overwrite_disj
      le64.get_overwrite_disj, assumption, assumption)+

text \<open>The reads after a write of another field, one fact for each pair of widths.\<close>

lemmas get_put8_disj [buf_simps] = get_overwrite_field [where d = "le_enc 1 v", folded put8_def, unfolded length_le_enc]
  for v :: u8
lemmas get_put16_disj [buf_simps] = get_overwrite_field [where d = "le_enc 2 v", folded put16_def, unfolded length_le_enc]
  for v :: u16
lemmas get_put32_disj [buf_simps] = get_overwrite_field [where d = "le_enc 4 v", folded put32_def, unfolded length_le_enc]
  for v :: u32
lemmas get_put64_disj [buf_simps] = get_overwrite_field [where d = "le_enc 8 v", folded put64_def, unfolded length_le_enc]
  for v :: u64

lemma bytes_at_put_disj [buf_simps]:
  "off + 1 \<le> length b \<Longrightarrow> o' + n \<le> off \<or> off + 1 \<le> o' \<Longrightarrow> bytes_at (put8 b off v8) o' n = bytes_at b o' n"
  "off + 2 \<le> length b \<Longrightarrow> o' + n \<le> off \<or> off + 2 \<le> o' \<Longrightarrow> bytes_at (put16 b off v16) o' n = bytes_at b o' n"
  "off + 4 \<le> length b \<Longrightarrow> o' + n \<le> off \<or> off + 4 \<le> o' \<Longrightarrow> bytes_at (put32 b off v32) o' n = bytes_at b o' n"
  "off + 8 \<le> length b \<Longrightarrow> o' + n \<le> off \<or> off + 8 \<le> o' \<Longrightarrow> bytes_at (put64 b off v64) o' n = bytes_at b o' n"
  by (simp_all add: put_defs bytes_at_overwrite_disj)

text \<open>The front of a buffer is not touched by writes behind it.\<close>

lemma take_overwrite: "n \<le> off \<Longrightarrow> off \<le> length b \<Longrightarrow> take n (overwrite b off d) = take n b"
  by (simp add: overwrite_def min_def)

lemma take_put:
  "n \<le> off \<Longrightarrow> off + 1 \<le> length b \<Longrightarrow> take n (put8 b off v8) = take n b"
  "n \<le> off \<Longrightarrow> off + 2 \<le> length b \<Longrightarrow> take n (put16 b off v16) = take n b"
  "n \<le> off \<Longrightarrow> off + 4 \<le> length b \<Longrightarrow> take n (put32 b off v32) = take n b"
  "n \<le> off \<Longrightarrow> off + 8 \<le> length b \<Longrightarrow> take n (put64 b off v64) = take n b"
  by (simp_all add: put_defs take_overwrite)

lemma get_take:
  "off + 2 \<le> n \<Longrightarrow> take n b' = take n b \<Longrightarrow> get16 b' off = get16 b off"
  "off + 4 \<le> n \<Longrightarrow> take n b' = take n b \<Longrightarrow> get32 b' off = get32 b off"
proof -
  have eq: "bytes_at x off k = bytes_at (take n x) off k" if "off + k \<le> n" for x :: buf and k
    using that by (simp add: bytes_at_def drop_take min_def)
  show "get16 b' off = get16 b off" if "off + 2 \<le> n" "take n b' = take n b"
    unfolding get16_def using that by (simp only: eq[of 2 b'] eq[of 2 b])
  show "get32 b' off = get32 b off" if "off + 4 \<le> n" "take n b' = take n b"
    unfolding get32_def using that by (simp only: eq[of 4 b'] eq[of 4 b])
qed

lemma overwrite_absorb:
  "off \<le> o' \<Longrightarrow> o' + length d' \<le> off + length d \<Longrightarrow> off + length d \<le> length b \<Longrightarrow>
     overwrite (overwrite b o' d') off d = overwrite b off d"
  by (simp add: overwrite_def take_overwrite)

section \<open>Sequences of writes\<close>

text \<open>
  \<open>same_outside a b m m'\<close>: only the range from \<open>a\<close> to \<open>b\<close> differs. \<open>writes l a b m w\<close>: the checked
  writes \<open>w\<close>, started in \<open>m\<close> of length \<open>l\<close>, succeed and stay in the range. The rules \<open>writes_intros\<close> take such a
  sequence apart, so that only the bounds of the single writes are left.
\<close>

lemma get_window:
  assumes "bytes_at m' o' n = bytes_at m o' n"
  shows "k + 1 \<le> n \<Longrightarrow> get8 m' (o' + k) = get8 m (o' + k)"
    and "k + 2 \<le> n \<Longrightarrow> get16 m' (o' + k) = get16 m (o' + k)"
    and "k + 4 \<le> n \<Longrightarrow> get32 m' (o' + k) = get32 m (o' + k)"
    and "k + 8 \<le> n \<Longrightarrow> get64 m' (o' + k) = get64 m (o' + k)"
proof -
  have *: "bytes_at m' (o' + k) w = bytes_at m (o' + k) w" if "k + w \<le> n" for w
    using bytes_at_bytes_at[OF that, of m' o'] bytes_at_bytes_at[OF that, of m o'] assms by simp
  show "k + 1 \<le> n \<Longrightarrow> get8 m' (o' + k) = get8 m (o' + k)" "k + 2 \<le> n \<Longrightarrow> get16 m' (o' + k) = get16 m (o' + k)"
    "k + 4 \<le> n \<Longrightarrow> get32 m' (o' + k) = get32 m (o' + k)" "k + 8 \<le> n \<Longrightarrow> get64 m' (o' + k) = get64 m (o' + k)"
    by (simp_all add: get8_def get16_def get32_def get64_def *)
qed

definition same_outside :: "nat \<Rightarrow> nat \<Rightarrow> buf \<Rightarrow> buf \<Rightarrow> bool" where
  "same_outside a b m m' \<longleftrightarrow> length m' = length m \<and>
     (\<forall>o' n. o' + n \<le> a \<or> b \<le> o' \<longrightarrow> bytes_at m' o' n = bytes_at m o' n)"

lemma same_outside_refl [simp]: "same_outside a b m m"
  by (simp add: same_outside_def)

lemma same_outside_trans:
  "same_outside a b m m1 \<Longrightarrow> same_outside c d m1 m2 \<Longrightarrow> a' \<le> a \<Longrightarrow> a' \<le> c \<Longrightarrow> b \<le> b' \<Longrightarrow> d \<le> b' \<Longrightarrow>
     same_outside a' b' m m2"
  by (auto simp: same_outside_def)

lemma same_outside_bytes:
  "same_outside a b m m' \<Longrightarrow> o' + n \<le> a \<or> b \<le> o' \<Longrightarrow> bytes_at m' o' n = bytes_at m o' n"
  by (auto simp: same_outside_def)

lemma same_outside_length: "same_outside a b m m' \<Longrightarrow> length m' = length m"
  by (simp add: same_outside_def)

definition writes :: "nat \<Rightarrow> nat \<Rightarrow> nat \<Rightarrow> buf \<Rightarrow> buf res \<Rightarrow> bool" where
  "writes l a b m w \<longleftrightarrow> (length m = l \<longrightarrow> (\<exists>m'. w = Inr m' \<and> same_outside a b m m'))"

lemma writesD: "writes (length m) a b m w \<Longrightarrow> \<exists>m'. w = Inr m' \<and> same_outside a b m m'"
  by (simp add: writes_def)

lemma writes_bnd:
  assumes "writes l a b m w" and "\<And>m'. writes l a b m' (f m')"
  shows "writes l a b m (bnd w f)"
proof -
  have "\<exists>m'. bnd w f = Inr m' \<and> same_outside a b m m'" if l: "length m = l"
  proof -
    obtain m1 where m1: "w = Inr m1" "same_outside a b m m1" using assms(1) l by (auto simp: writes_def)
    then have "length m1 = l" using l same_outside_length by metis
    then obtain m2 where m2: "f m1 = Inr m2" "same_outside a b m1 m2" using assms(2)[of m1] by (auto simp: writes_def)
    have "same_outside a b m m2" by (rule same_outside_trans[OF m1(2) m2(2)]) simp_all
    then show ?thesis using m1(1) m2(1) by simp
  qed
  then show ?thesis by (simp add: writes_def)
qed

lemma writes_BUG_ON: "\<not> c \<Longrightarrow> writes l a b m (f ()) \<Longrightarrow> writes l a b m (bnd (BUG_ON c) f)"
  by (simp add: BUG_ON_def)

lemma writes_fail_if: "\<not> c \<Longrightarrow> writes l a b m (f ()) \<Longrightarrow> writes l a b m (bnd (fail_if c e) f)"
  by (simp add: fail_if_def)

lemma writes_rd: "off + n \<le> l \<Longrightarrow> (\<And>d. writes l a b m (f d)) \<Longrightarrow> writes l a b m (bnd (rd m off n) f)"
  by (auto simp: writes_def)

lemma writes_Inr: "writes l a b m (Inr m)"
  by (simp add: writes_def)

lemma writes_wr: "a \<le> off \<Longrightarrow> off + length d \<le> b \<Longrightarrow> b \<le> l \<Longrightarrow> writes l a b m (wr m off d)"
  by (auto simp: writes_def same_outside_def bytes_at_overwrite_disj)

lemma writes_field:
  "a \<le> off \<Longrightarrow> off + 1 \<le> b \<Longrightarrow> b \<le> l \<Longrightarrow> writes l a b m (wr8 m off v8)"
  "a \<le> off \<Longrightarrow> off + 2 \<le> b \<Longrightarrow> b \<le> l \<Longrightarrow> writes l a b m (wr16 m off v16)"
  "a \<le> off \<Longrightarrow> off + 4 \<le> b \<Longrightarrow> b \<le> l \<Longrightarrow> writes l a b m (wr32 m off v32)"
  "a \<le> off \<Longrightarrow> off + 8 \<le> b \<Longrightarrow> b \<le> l \<Longrightarrow> writes l a b m (wr64 m off v64)"
  by (auto simp: writes_def same_outside_def bytes_at_put_disj)

lemmas writes_intros = writes_field writes_wr writes_BUG_ON writes_fail_if writes_rd writes_bnd writes_Inr

section \<open>Buffers written as concatenations\<close>

lemma wr_mid: "k = length A \<Longrightarrow> length D = length B \<Longrightarrow> wr (A @ B @ C) k D = Inr (A @ D @ C)"
  by (simp add: wr_def overwrite_def)

lemma rd_mid: "k = length A \<Longrightarrow> n = length B \<Longrightarrow> rd (A @ B @ C) k n = Inr B"
  by (simp add: rd_def bytes_at_def)

lemma memmove_up:
  assumes "src = length A" and "n = length B" and "dst = length A + g" and "g \<le> length C"
  shows "memmove (A @ B @ C) dst src n = Inr (A @ take g (B @ C) @ B @ drop g C)"
proof -
  have "overwrite (A @ B @ C) dst B = A @ take g (B @ C) @ B @ drop g C"
    using assms by (simp add: overwrite_def)
  then show ?thesis using assms by (simp add: memmove_def rd_def bytes_at_def wr_def)
qed

lemma field_rd:
  "rd8 b off = bnd (rd b off 1) (\<lambda>d. Inr (le_dec d))" "rd16 b off = bnd (rd b off 2) (\<lambda>d. Inr (le_dec d))"
  "rd32 b off = bnd (rd b off 4) (\<lambda>d. Inr (le_dec d))" "rd64 b off = bnd (rd b off 8) (\<lambda>d. Inr (le_dec d))"
  by (simp_all add: rd8_def rd16_def rd32_def rd64_def rd_def get8_def get16_def get32_def get64_def)

lemma wr_behind:
  "k = length A \<Longrightarrow> length D \<le> n \<Longrightarrow> wr (A @ replicate n 0) k D = Inr ((A @ D) @ replicate (n - length D) 0)"
  by (simp add: wr_def overwrite_def)

lemma field_wr:
  "wr8 b off v8 = wr b off [v8]" "wr16 b off v16 = wr b off (le_enc 2 v16)"
  "wr32 b off v32 = wr b off (le_enc 4 v32)" "wr64 b off v64 = wr b off (le_enc 8 v64)"
  by (simp_all add: wr8_def wr16_def wr32_def wr64_def wr_def put_defs) (simp add: le_enc_def)

section \<open>Bitmaps over 64-bit longs\<close>

text \<open>\<^verbatim>\<open>__set_bit(nr, addr)\<close>: read the long that holds the bit, set it, write the long back.\<close>

definition set_bit_chk :: "buf \<Rightarrow> nat \<Rightarrow> nat \<Rightarrow> buf res" where
  "set_bit_chk b addr nr =
     bnd (rd64 b (addr + 8 * (nr div 64))) (\<lambda>p.
     wr64 b (addr + 8 * (nr div 64)) (p OR push_bit (nr mod 64) 1))"

definition test_bit_chk :: "buf \<Rightarrow> nat \<Rightarrow> nat \<Rightarrow> bool res" where
  "test_bit_chk b addr nr =
     bnd (rd64 b (addr + 8 * (nr div 64))) (\<lambda>p. Inr (bit p (nr mod 64)))"

definition bmap_bit :: "buf \<Rightarrow> nat \<Rightarrow> nat \<Rightarrow> bool" where
  "bmap_bit b addr nr = bit (get64 b (addr + 8 * (nr div 64))) (nr mod 64)"

definition bmap_set :: "buf \<Rightarrow> nat \<Rightarrow> nat \<Rightarrow> buf" where
  "bmap_set b addr nr =
     put64 b (addr + 8 * (nr div 64))
       (get64 b (addr + 8 * (nr div 64)) OR push_bit (nr mod 64) 1)"

lemma set_bit_chk_ok [simp, run_simps]:
  "addr + 8 * (nr div 64) + 8 \<le> length b \<Longrightarrow> set_bit_chk b addr nr = Inr (bmap_set b addr nr)"
  by (simp add: set_bit_chk_def bmap_set_def)

lemma test_bit_chk_ok [simp, run_simps]:
  "addr + 8 * (nr div 64) + 8 \<le> length b \<Longrightarrow> test_bit_chk b addr nr = Inr (bmap_bit b addr nr)"
  by (simp add: test_bit_chk_def bmap_bit_def)

lemma length_bmap_set [simp, buf_simps]:
  "addr + 8 * (nr div 64) + 8 \<le> length b \<Longrightarrow> length (bmap_set b addr nr) = length b"
  by (simp add: bmap_set_def)

lemma bmap_bit_set:
  assumes "addr + 8 * (nr div 64) + 8 \<le> length b"
  shows "bmap_bit (bmap_set b addr nr) addr k \<longleftrightarrow> k = nr \<or> bmap_bit b addr k"
proof (cases "k div 64 = nr div 64")
  case True
  then have "k = nr \<longleftrightarrow> k mod 64 = nr mod 64"
    by (metis div_mult_mod_eq)
  with True assms show ?thesis
    by (auto simp: bmap_bit_def bmap_set_def bit_simps)
next
  case False
  then have "addr + 8 * (k div 64) + 8 \<le> addr + 8 * (nr div 64) \<or>
             addr + 8 * (nr div 64) + 8 \<le> addr + 8 * (k div 64)" by linarith
  with assms False show ?thesis
    by (auto simp: bmap_bit_def bmap_set_def buf_simps)
qed

lemma get_bmap_set_disj [buf_simps]:
  assumes "addr + 8 * (nr div 64) + 8 \<le> length b"
  shows "o' + 2 \<le> addr \<or> addr + 8 * (nr div 64) + 8 \<le> o' \<Longrightarrow>
           get16 (bmap_set b addr nr) o' = get16 b o'"
    and "o' + 4 \<le> addr \<or> addr + 8 * (nr div 64) + 8 \<le> o' \<Longrightarrow>
           get32 (bmap_set b addr nr) o' = get32 b o'"
    and "o' + 8 \<le> addr \<or> addr + 8 * (nr div 64) + 8 \<le> o' \<Longrightarrow>
           get64 (bmap_set b addr nr) o' = get64 b o'"
    and "o' + 1 \<le> addr \<or> addr + 8 * (nr div 64) + 8 \<le> o' \<Longrightarrow>
           get8 (bmap_set b addr nr) o' = get8 b o'"
  using assms by (auto simp: bmap_set_def get_put64_disj)

end
