(* ===== verification/CommonBitmap.thy ===== *)
theory CommonBitmap
  imports ByteBuf
begin

text \<open>
  \<^verbatim>\<open>include/common_bitmap.h\<close>: items of a few bits packed into bytes. A byte is a \<open>u8\<close>; an item
  state and a state mask are C \<^verbatim>\<open>int\<close>s, modelled by \<open>int\<close>, whose bitwise operations are those
  of two's complement. Offsets and bit counts, \<^verbatim>\<open>u8\<close> values below 256 that the code only adds
  and compares, are \<open>nat\<close>.

  The locale \<open>packed_items\<close> is the contract the two bitmaps of the file system rely on: a
  byte holds \<open>ipb\<close> items of \<open>bits\<close> bits each. It is interpreted for the block bitmap
  (2 bits) and for the segment bitmap (4 bits) in their theories.
\<close>

section \<open>The operations\<close>

definition SSDFS_ITEMS_PER_BYTE :: "nat \<Rightarrow> nat res" where
  "SSDFS_ITEMS_PER_BYTE item_bits =
     bnd (BUG_ON (item_bits > 8)) (\<lambda>_.
     if item_bits = 0 then Inl DivZero else Inr (8 div item_bits))"

definition ALIGNED_START_ITEM :: "'a::len word \<Rightarrow> nat \<Rightarrow> u64" where
  "ALIGNED_START_ITEM item state_bits = ucast (push_bit state_bits (drop_bit state_bits item))"

text \<open>The sum is computed in the type of \<^verbatim>\<open>item\<close> and then stored in a \<^verbatim>\<open>u64\<close>.\<close>

definition ALIGNED_END_ITEM :: "'a::len word \<Rightarrow> nat \<Rightarrow> u64 res" where
  "ALIGNED_END_ITEM item state_bits =
     bnd (SSDFS_ITEMS_PER_BYTE state_bits) (\<lambda>ipb.
     let aligned_end = ucast (item + of_nat ipb - 1) :: u64 in
     Inr (push_bit state_bits (drop_bit state_bits aligned_end)))"

text \<open>The loop of \<^verbatim>\<open>FIRST_STATE_IN_BYTE\<close>; its caller has excluded \<open>state_bits = 0\<close>.\<close>

function first_state_loop :: "u8 \<Rightarrow> int \<Rightarrow> nat \<Rightarrow> nat \<Rightarrow> int \<Rightarrow> nat option" where
  "first_state_loop value state i state_bits state_mask =
     (if i < 8 \<and> state_bits \<noteq> 0 then
        (if drop_bit i (uint value) AND state_mask = state then Some (i div state_bits)
         else first_state_loop value state (i + state_bits) state_bits state_mask)
      else None)"
  by pat_completeness auto
termination
  by (relation "measure (\<lambda>(value, state, i, state_bits, state_mask). 8 - i)") auto

definition FIRST_STATE_IN_BYTE :: "u8 \<Rightarrow> int \<Rightarrow> nat \<Rightarrow> nat \<Rightarrow> int \<Rightarrow> nat res" where
  "FIRST_STATE_IN_BYTE value state start_offset state_bits state_mask =
     bnd (BUG_ON (state_bits > 8)) (\<lambda>_.
     bnd (BUG_ON (state_bits mod 2 \<noteq> 0)) (\<lambda>_.
     bnd (SSDFS_ITEMS_PER_BYTE state_bits) (\<lambda>ipb.
     bnd (BUG_ON (start_offset > ipb)) (\<lambda>_.
     case first_state_loop value state (start_offset * state_bits) state_bits state_mask of
       Some k \<Rightarrow> Inr k
     | None \<Rightarrow> SSDFS_ITEMS_PER_BYTE state_bits))))"

definition FIND_FIRST_ITEM_IN_BYTE ::
  "u8 \<Rightarrow> int \<Rightarrow> nat \<Rightarrow> int \<Rightarrow> nat \<Rightarrow> (u8 \<Rightarrow> bool) \<Rightarrow>
   (u8 \<Rightarrow> int \<Rightarrow> nat \<Rightarrow> nat \<Rightarrow> int \<Rightarrow> nat res) \<Rightarrow> nat res" where
  "FIND_FIRST_ITEM_IN_BYTE value state state_bits state_mask start_offset check op =
     bnd (BUG_ON (state_bits > 8)) (\<lambda>_.
     bnd (BUG_ON (state_bits mod 2 \<noteq> 0)) (\<lambda>_.
     bnd (SSDFS_ITEMS_PER_BYTE state_bits) (\<lambda>ipb.
     bnd (BUG_ON (start_offset > ipb)) (\<lambda>_.
     if check value then
       bnd (op value state start_offset state_bits state_mask) (\<lambda>offset.
       if offset < ipb then Inr offset else Inl (Errno ENODATA))
     else Inl (Errno ENODATA)))))"

definition set_state :: "u8 \<Rightarrow> nat \<Rightarrow> nat \<Rightarrow> int \<Rightarrow> int \<Rightarrow> u8" where
  "set_state byte byte_item state_bits state_mask new_state =
     (let shift = byte_item * state_bits;
          value = push_bit shift (word_of_int (new_state AND state_mask) :: u8)
      in (byte AND word_of_int (NOT (push_bit shift state_mask))) OR value)"

definition SET_STATE_IN_BYTE :: "u8 \<Rightarrow> nat \<Rightarrow> nat \<Rightarrow> int \<Rightarrow> int \<Rightarrow> u8 res" where
  "SET_STATE_IN_BYTE byte byte_item state_bits state_mask new_state =
     bnd (SSDFS_ITEMS_PER_BYTE state_bits) (\<lambda>ipb.
     bnd (BUG_ON (byte_item \<ge> ipb)) (\<lambda>_.
     Inr (set_state byte byte_item state_bits state_mask new_state)))"

declare first_state_loop.simps [simp del]

section \<open>What a packed byte and a packed bitmap hold\<close>

definition item_in_byte :: "nat \<Rightarrow> u8 \<Rightarrow> nat \<Rightarrow> int" where
  "item_in_byte bits v k = drop_bit (k * bits) (uint v) AND mask bits"

definition bmap_item :: "nat \<Rightarrow> buf \<Rightarrow> nat \<Rightarrow> int" where
  "bmap_item bits bm i = item_in_byte bits (bm ! (i div (8 div bits))) (i mod (8 div bits))"

lemma item_in_byte_nat: "item_in_byte bits v k = int (take_bit bits (drop_bit (k * bits) (unat v)))"
  unfolding item_in_byte_def take_bit_eq_mask[symmetric] of_nat_take_bit of_nat_drop_bit
  by simp

text \<open>\<open>area_set\<close>: the items of \<open>[lo, hi)\<close> become \<open>s\<close>, every other item keeps its state.\<close>

definition area_set :: "nat \<Rightarrow> buf \<Rightarrow> buf \<Rightarrow> nat \<Rightarrow> nat \<Rightarrow> int \<Rightarrow> bool" where
  "area_set bits bm bm' lo hi s \<longleftrightarrow>
     length bm' = length bm \<and>
     (\<forall>i < (8 div bits) * length bm.
        bmap_item bits bm' i = (if lo \<le> i \<and> i < hi then s else bmap_item bits bm i))"

lemma area_set_refl [simp]: "area_set bits bm bm lo lo s"
  by (simp add: area_set_def)

lemma area_set_trans:
  "area_set bits bm bm1 lo mid s \<Longrightarrow> area_set bits bm1 bm2 mid hi s \<Longrightarrow> lo \<le> mid \<Longrightarrow> mid \<le> hi \<Longrightarrow>
     area_set bits bm bm2 lo hi s"
  by (auto simp: area_set_def)

lemma unat_align_down: "unat (push_bit n (drop_bit n w)) = unat w div 2 ^ n * 2 ^ n"
  for w :: "'a::len word"
proof -
  have "unat w div 2 ^ n * 2 ^ n < 2 ^ LENGTH('a)"
    by (meson div_times_less_eq_dividend le_less_trans unsigned_less)
  then show ?thesis
    unfolding unsigned_push_bit_eq unsigned_drop_bit_eq
    by (simp add: push_bit_eq_mult drop_bit_eq_div take_bit_nat_eq_self)
qed

lemma unat_ALIGNED_START_ITEM:
  "LENGTH('a) \<le> 64 \<Longrightarrow> unat (ALIGNED_START_ITEM (w :: 'a::len word) n) = unat w div 2 ^ n * 2 ^ n"
  by (simp add: ALIGNED_START_ITEM_def unat_ucast_up unat_align_down)

locale packed_items =
  fixes bits :: nat and ipb :: nat
  assumes fill: "bits * ipb = 8" and even_bits: "even bits"
begin

lemma bits_pos: "0 < bits" and ipb_pos: "0 < ipb"
  using fill by (cases bits; cases ipb; simp)+

lemma bits_le: "bits \<le> 8"
  using fill ipb_pos by (cases ipb) auto

lemma div_bits: "8 div bits = ipb"
  using fill bits_pos by (metis nonzero_mult_div_cancel_left neq0_conv)

lemma items_per_byte: "SSDFS_ITEMS_PER_BYTE bits = Inr ipb"
  using bits_le bits_pos by (simp add: SSDFS_ITEMS_PER_BYTE_def div_bits)

lemma item_bound: "k < ipb \<Longrightarrow> k * bits < 8"
  using fill bits_pos by (metis mult.commute mult_less_mono2)

lemma bit_item:
  "bit (item_in_byte bits v k) n \<longleftrightarrow> n < bits \<and> bit v (k * bits + n)"
  by (auto simp: item_in_byte_def bit_simps dest: bit_imp_le_length)

lemma item_range: "0 \<le> item_in_byte bits v k" "item_in_byte bits v k < 2 ^ bits"
  by (simp_all add: item_in_byte_def and_mask_mod_2p mask_eq_exp_minus_1
      flip: take_bit_eq_mask)

lemma bit_set_state:
  assumes "j < ipb"
  shows "bit (set_state v j bits (mask bits) s) m \<longleftrightarrow>
    m < 8 \<and> (if j * bits \<le> m \<and> m < j * bits + bits then bit s (m - j * bits) else bit v m)"
  by (auto simp: set_state_def Let_def bit_simps dest: bit_imp_le_length)

lemma slot_disjoint:
  assumes "n < bits" "k \<noteq> j"
  shows "\<not> (j * bits \<le> k * bits + n \<and> k * bits + n < j * bits + bits)"
proof (cases "k < j")
  case True
  then have "Suc k * bits \<le> j * bits" by (intro mult_le_mono1) simp
  with assms(1) show ?thesis by simp
next
  case False
  with assms(2) have "Suc j * bits \<le> k * bits" by (intro mult_le_mono1) simp
  then show ?thesis by simp
qed

lemma slot_fits: "k < ipb \<Longrightarrow> n < bits \<Longrightarrow> k * bits + n < 8"
proof -
  assume "k < ipb" "n < bits"
  then have "Suc k * bits \<le> ipb * bits" by (intro mult_le_mono1) simp
  with \<open>n < bits\<close> fill show ?thesis by (simp add: mult.commute)
qed

lemma item_set_state:
  assumes "j < ipb" "k < ipb"
  shows "item_in_byte bits (set_state v j bits (mask bits) s) k =
           (if k = j then s AND mask bits else item_in_byte bits v k)"
proof (rule bit_eqI)
  fix n
  show "bit (item_in_byte bits (set_state v j bits (mask bits) s) k) n \<longleftrightarrow>
        bit (if k = j then s AND mask bits else item_in_byte bits v k) n"
    using assms slot_disjoint[of n k j] slot_fits[of k n]
    by (auto simp: bit_item bit_set_state bit_simps)
qed

lemma SET_STATE_ok:
  "j < ipb \<Longrightarrow> SET_STATE_IN_BYTE v j bits m s = Inr (set_state v j bits m s)"
  by (simp add: SET_STATE_IN_BYTE_def items_per_byte)

lemma first_state_loop_spec:
  "first_state_loop v st (k * bits) bits (mask bits) =
     (if \<exists>j. k \<le> j \<and> j < ipb \<and> item_in_byte bits v j = st
      then Some (LEAST j. k \<le> j \<and> j < ipb \<and> item_in_byte bits v j = st) else None)"
proof (induction "ipb - k" arbitrary: k)
  case 0
  then have "\<not> k * bits < 8" using fill by (metis diff_is_0_eq mult.commute mult_le_mono2 not_less)
  with 0 show ?case by (subst first_state_loop.simps) auto
next
  case (Suc d)
  then have k: "k < ipb" by simp
  let ?P = "\<lambda>k j. k \<le> j \<and> j < ipb \<and> item_in_byte bits v j = st"
  have IH: "first_state_loop v st (Suc k * bits) bits (mask bits) =
     (if \<exists>j. ?P (Suc k) j then Some (LEAST j. ?P (Suc k) j) else None)"
    using Suc.hyps(1)[of "Suc k"] Suc.hyps(2) by simp
  show ?case
  proof (cases "item_in_byte bits v k = st")
    case True
    then have "(LEAST j. ?P k j) = k" using k by (intro Least_equality) auto
    with True k show ?thesis
      by (subst first_state_loop.simps) (auto simp: item_bound bits_pos item_in_byte_def)
  next
    case False
    then have eq: "?P k = ?P (Suc k)"
      by (auto simp: fun_eq_iff) (metis le_antisym not_less_eq_eq)
    have "first_state_loop v st (k * bits) bits (mask bits) =
          first_state_loop v st (Suc k * bits) bits (mask bits)"
      using False k
      by (subst first_state_loop.simps) (auto simp: item_bound bits_pos item_in_byte_def add.commute)
    then show ?thesis unfolding IH using eq by presburger
  qed
qed

lemma FIRST_STATE_ok:
  assumes "start \<le> ipb"
  shows "FIRST_STATE_IN_BYTE v st start bits (mask bits) =
     Inr (if \<exists>j. start \<le> j \<and> j < ipb \<and> item_in_byte bits v j = st
          then LEAST j. start \<le> j \<and> j < ipb \<and> item_in_byte bits v j = st else ipb)"
  using assms bits_le even_bits
  by (auto simp: FIRST_STATE_IN_BYTE_def items_per_byte first_state_loop_spec even_iff_mod_2_eq_zero)

text \<open>
  With a check that is exact, \<^verbatim>\<open>FIND_FIRST_ITEM_IN_BYTE\<close> returns the first matching item at or
  after the start offset, and \<^verbatim>\<open>-ENODATA\<close> exactly when there is none.
\<close>

lemma FIND_FIRST_ok:
  assumes start: "start \<le> ipb"
    and check: "\<And>k. k < ipb \<Longrightarrow> item_in_byte bits v k = st \<Longrightarrow> chk v"
  shows "FIND_FIRST_ITEM_IN_BYTE v st bits (mask bits) start chk FIRST_STATE_IN_BYTE =
     (if \<exists>j. start \<le> j \<and> j < ipb \<and> item_in_byte bits v j = st
      then Inr (LEAST j. start \<le> j \<and> j < ipb \<and> item_in_byte bits v j = st)
      else Inl (Errno ENODATA))" (is "_ = (if ?ex then _ else _)")
proof (cases ?ex)
  case True
  then have "(LEAST j. start \<le> j \<and> j < ipb \<and> item_in_byte bits v j = st) < ipb"
    by (metis (mono_tags, lifting) LeastI_ex)
  moreover from True check have "chk v" by blast
  ultimately show ?thesis using True start bits_le even_bits
    by (simp add: FIND_FIRST_ITEM_IN_BYTE_def items_per_byte FIRST_STATE_ok even_iff_mod_2_eq_zero)
next
  case False
  then show ?thesis using start bits_le even_bits
    by (auto simp: FIND_FIRST_ITEM_IN_BYTE_def items_per_byte FIRST_STATE_ok even_iff_mod_2_eq_zero)
qed

lemma bmap_item_update:
  assumes "i div ipb < length bm" "j div ipb < length bm"
  shows "bmap_item bits (bm[i div ipb := set_state (bm ! (i div ipb)) (i mod ipb) bits (mask bits) s]) j =
           (if j = i then s AND mask bits else bmap_item bits bm j)"
proof (cases "j div ipb = i div ipb")
  case True
  then have "j mod ipb = i mod ipb \<longleftrightarrow> j = i" by (metis div_mult_mod_eq)
  with True assms ipb_pos show ?thesis
    by (simp add: bmap_item_def div_bits item_set_state)
next
  case False
  with assms show ?thesis by (auto simp: bmap_item_def div_bits)
qed

lemma area_set_single:
  assumes "i div ipb < length bm" and "0 \<le> s" and "s < 2 ^ bits"
  shows "area_set bits bm
           (bm[i div ipb := set_state (bm ! (i div ipb)) (i mod ipb) bits (mask bits) s]) i (Suc i) s"
proof -
  have "j div ipb < length bm" if "j < ipb * length bm" for j
    using that ipb_pos by (simp add: less_mult_imp_div_less mult.commute)
  moreover have "s AND mask bits = s"
    using assms(2,3) by (simp add: take_bit_int_eq_self flip: take_bit_eq_mask)
  ultimately show ?thesis
    using assms(1) by (auto simp: area_set_def div_bits bmap_item_update)
qed

lemma ALIGNED_END_ok:
  assumes "unat w + ipb \<le> 2 ^ LENGTH('a)" and "LENGTH('a) \<le> 64"
  shows "\<exists>e. ALIGNED_END_ITEM (w :: 'a::len word) bits = Inr e \<and>
             unat e = (unat w + ipb - 1) div 2 ^ bits * 2 ^ bits"
proof -
  obtain k where k: "ipb = Suc k" using ipb_pos by (cases ipb) auto
  have lt: "k < 2 ^ LENGTH('a)" using assms(1) k by linarith
  have "w + of_nat ipb - 1 = w + of_nat k" by (simp add: k)
  moreover have "unat (w + of_nat k) = unat w + k"
    using assms(1) k lt by (subst unat_add_nw) (simp_all add: unat_of_nat take_bit_nat_eq_self)
  ultimately have "unat (w + of_nat ipb - 1) = unat w + ipb - 1" using k by simp
  then show ?thesis using assms(2)
    by (simp add: ALIGNED_END_ITEM_def items_per_byte unat_align_down unat_ucast_up)
qed

end

end
