(* ===== verification/SegBmap.thy ===== *)
theory SegBmap
  imports CommonBitmap
begin

text \<open>
  \<^verbatim>\<open>include/segbmap.h\<close> and \<^verbatim>\<open>lib/segbmap.c\<close>: the segment bitmap, four bits of state for each
  segment, stored in fragments of a page with a 32-byte header. The size computations
  are modelled at their widths; \<open>SET_FIRST_CLEAN_ITEM_IN_FRAGMENT\<close> is the search mkfs allocates
  segments with. The theory shows when the number of fragments is large enough for the
  number of segments and when it is not, and what the search returns and writes.
\<close>

section \<open>Definitions\<close>

abbreviation (input) SSDFS_SEG_STATE_BITS :: nat where "SSDFS_SEG_STATE_BITS \<equiv> 4"
abbreviation (input) SSDFS_SEG_STATE_MASK :: int where "SSDFS_SEG_STATE_MASK \<equiv> 15"

definition SSDFS_SEG_CLEAN :: int where [const_defs]: "SSDFS_SEG_CLEAN = 0"
definition SSDFS_SEG_DATA_USING :: int where [const_defs]: "SSDFS_SEG_DATA_USING = 1"
definition SSDFS_SEG_LEAF_NODE_USING :: int where [const_defs]: "SSDFS_SEG_LEAF_NODE_USING = 2"
definition SSDFS_SEG_INDEX_NODE_USING :: int where [const_defs]: "SSDFS_SEG_INDEX_NODE_USING = 3"
definition SSDFS_SEG_DIRTY :: int where [const_defs]: "SSDFS_SEG_DIRTY = 4"
definition SSDFS_SEG_HYBRID_NODE_USING :: int where [const_defs]: "SSDFS_SEG_HYBRID_NODE_USING = 5"
definition SSDFS_SEG_PRE_DIRTY :: int where [const_defs]: "SSDFS_SEG_PRE_DIRTY = 6"
definition SSDFS_SEG_USED :: int where [const_defs]: "SSDFS_SEG_USED = 7"
definition SSDFS_SEG_BAD :: int where [const_defs]: "SSDFS_SEG_BAD = 8"
definition SSDFS_SEG_RESERVED :: int where [const_defs]: "SSDFS_SEG_RESERVED = 9"
definition SSDFS_SEG_DATA_USING_INVALIDATED :: int where
  [const_defs]: "SSDFS_SEG_DATA_USING_INVALIDATED = 10"
definition SSDFS_SEG_STATE_MAX :: int where [const_defs]: "SSDFS_SEG_STATE_MAX = 11"

text \<open>\<^verbatim>\<open>sizeof(struct ssdfs_segbmap_fragment_header)\<close> and the two fields the search reads.\<close>

abbreviation (input) segbmap_hdr_size :: "'a::len word" where "segbmap_hdr_size \<equiv> 32"
abbreviation (input) sbf_start_item :: nat where "sbf_start_item \<equiv> 8"
abbreviation (input) sbf_fragment_bytes :: nat where "sbf_fragment_bytes \<equiv> 18"

definition SEG_BMAP_BYTES :: "u64 \<Rightarrow> u32 res" where
  "SEG_BMAP_BYTES items_count =
     bnd (SSDFS_ITEMS_PER_BYTE SSDFS_SEG_STATE_BITS) (\<lambda>ipb.
     let bytes = (items_count + of_nat ipb - 1) div of_nat ipb in
     bnd (BUG_ON (bytes \<ge> ucast U32_MAX)) (\<lambda>_. Inr (ucast bytes)))"

definition SEG_BMAP_FRAGMENTS :: "u64 \<Rightarrow> u32 \<Rightarrow> u16 res" where
  "SEG_BMAP_FRAGMENTS items_count page_size =
     bnd (SEG_BMAP_BYTES items_count) (\<lambda>bytes.
     bnd (div_chk (bytes + page_size - 1) page_size) (\<lambda>pages.
     let bytes' = bytes + pages * segbmap_hdr_size in
     bnd (div_chk (bytes' + page_size - 1) page_size) (\<lambda>fragments.
     bnd (BUG_ON (fragments \<ge> ucast U16_MAX)) (\<lambda>_. Inr (ucast fragments)))))"

definition ssdfs_segbmap_payload_bytes_per_fragment :: "u64 \<Rightarrow> u32 res" where
  "ssdfs_segbmap_payload_bytes_per_fragment fragment_size =
     bnd (BUG_ON (segbmap_hdr_size \<ge> fragment_size)) (\<lambda>_.
     Inr (ucast (fragment_size - segbmap_hdr_size)))"

definition ssdfs_segbmap_items_per_fragment :: "u64 \<Rightarrow> u32 res" where
  "ssdfs_segbmap_items_per_fragment fragment_size =
     bnd (BUG_ON (segbmap_hdr_size \<ge> fragment_size)) (\<lambda>_.
     let payload_bytes = ucast (fragment_size - segbmap_hdr_size) :: u32 in
     bnd (SSDFS_ITEMS_PER_BYTE SSDFS_SEG_STATE_BITS) (\<lambda>ipb.
     let items = ucast (payload_bytes * of_nat ipb) :: u64 in
     bnd (BUG_ON (items \<ge> ucast U32_MAX)) (\<lambda>_. Inr (ucast items))))"

text \<open>The \<^verbatim>\<open>int\<close> argument is converted to \<^verbatim>\<open>u64\<close> before the multiplication.\<close>

definition ssdfs_segbmap_define_first_fragment_item :: "int \<Rightarrow> u64 \<Rightarrow> u64 res" where
  "ssdfs_segbmap_define_first_fragment_item fragment_index fragment_size =
     bnd (ssdfs_segbmap_items_per_fragment fragment_size) (\<lambda>items.
     Inr (word_of_int fragment_index * ucast items))"

definition detect_clean_seg :: "bool list" where
  "detect_clean_seg = [
    SSDFS_TRUE, SSDFS_TRUE, SSDFS_TRUE, SSDFS_TRUE, SSDFS_TRUE, SSDFS_TRUE, SSDFS_TRUE, SSDFS_TRUE,
    SSDFS_TRUE, SSDFS_TRUE, SSDFS_TRUE, SSDFS_TRUE, SSDFS_TRUE, SSDFS_TRUE, SSDFS_TRUE, SSDFS_TRUE,
    SSDFS_TRUE, SSDFS_FALSE, SSDFS_FALSE, SSDFS_FALSE, SSDFS_FALSE, SSDFS_FALSE, SSDFS_FALSE, SSDFS_FALSE,
    SSDFS_FALSE, SSDFS_FALSE, SSDFS_FALSE, SSDFS_FALSE, SSDFS_FALSE, SSDFS_FALSE, SSDFS_FALSE, SSDFS_FALSE,
    SSDFS_TRUE, SSDFS_FALSE, SSDFS_FALSE, SSDFS_FALSE, SSDFS_FALSE, SSDFS_FALSE, SSDFS_FALSE, SSDFS_FALSE,
    SSDFS_FALSE, SSDFS_FALSE, SSDFS_FALSE, SSDFS_FALSE, SSDFS_FALSE, SSDFS_FALSE, SSDFS_FALSE, SSDFS_FALSE,
    SSDFS_TRUE, SSDFS_FALSE, SSDFS_FALSE, SSDFS_FALSE, SSDFS_FALSE, SSDFS_FALSE, SSDFS_FALSE, SSDFS_FALSE,
    SSDFS_FALSE, SSDFS_FALSE, SSDFS_FALSE, SSDFS_FALSE, SSDFS_FALSE, SSDFS_FALSE, SSDFS_FALSE, SSDFS_FALSE,
    SSDFS_TRUE, SSDFS_FALSE, SSDFS_FALSE, SSDFS_FALSE, SSDFS_FALSE, SSDFS_FALSE, SSDFS_FALSE, SSDFS_FALSE,
    SSDFS_FALSE, SSDFS_FALSE, SSDFS_FALSE, SSDFS_FALSE, SSDFS_FALSE, SSDFS_FALSE, SSDFS_FALSE, SSDFS_FALSE,
    SSDFS_TRUE, SSDFS_FALSE, SSDFS_FALSE, SSDFS_FALSE, SSDFS_FALSE, SSDFS_FALSE, SSDFS_FALSE, SSDFS_FALSE,
    SSDFS_FALSE, SSDFS_FALSE, SSDFS_FALSE, SSDFS_FALSE, SSDFS_FALSE, SSDFS_FALSE, SSDFS_FALSE, SSDFS_FALSE,
    SSDFS_TRUE, SSDFS_FALSE, SSDFS_FALSE, SSDFS_FALSE, SSDFS_FALSE, SSDFS_FALSE, SSDFS_FALSE, SSDFS_FALSE,
    SSDFS_FALSE, SSDFS_FALSE, SSDFS_FALSE, SSDFS_FALSE, SSDFS_FALSE, SSDFS_FALSE, SSDFS_FALSE, SSDFS_FALSE,
    SSDFS_TRUE, SSDFS_FALSE, SSDFS_FALSE, SSDFS_FALSE, SSDFS_FALSE, SSDFS_FALSE, SSDFS_FALSE, SSDFS_FALSE,
    SSDFS_FALSE, SSDFS_FALSE, SSDFS_FALSE, SSDFS_FALSE, SSDFS_FALSE, SSDFS_FALSE, SSDFS_FALSE, SSDFS_FALSE,
    SSDFS_TRUE, SSDFS_FALSE, SSDFS_FALSE, SSDFS_FALSE, SSDFS_FALSE, SSDFS_FALSE, SSDFS_FALSE, SSDFS_FALSE,
    SSDFS_FALSE, SSDFS_FALSE, SSDFS_FALSE, SSDFS_FALSE, SSDFS_FALSE, SSDFS_FALSE, SSDFS_FALSE, SSDFS_FALSE,
    SSDFS_TRUE, SSDFS_FALSE, SSDFS_FALSE, SSDFS_FALSE, SSDFS_FALSE, SSDFS_FALSE, SSDFS_FALSE, SSDFS_FALSE,
    SSDFS_FALSE, SSDFS_FALSE, SSDFS_FALSE, SSDFS_FALSE, SSDFS_FALSE, SSDFS_FALSE, SSDFS_FALSE, SSDFS_FALSE,
    SSDFS_TRUE, SSDFS_FALSE, SSDFS_FALSE, SSDFS_FALSE, SSDFS_FALSE, SSDFS_FALSE, SSDFS_FALSE, SSDFS_FALSE,
    SSDFS_FALSE, SSDFS_FALSE, SSDFS_FALSE, SSDFS_FALSE, SSDFS_FALSE, SSDFS_FALSE, SSDFS_FALSE, SSDFS_FALSE,
    SSDFS_TRUE, SSDFS_FALSE, SSDFS_FALSE, SSDFS_FALSE, SSDFS_FALSE, SSDFS_FALSE, SSDFS_FALSE, SSDFS_FALSE,
    SSDFS_FALSE, SSDFS_FALSE, SSDFS_FALSE, SSDFS_FALSE, SSDFS_FALSE, SSDFS_FALSE, SSDFS_FALSE, SSDFS_FALSE,
    SSDFS_TRUE, SSDFS_FALSE, SSDFS_FALSE, SSDFS_FALSE, SSDFS_FALSE, SSDFS_FALSE, SSDFS_FALSE, SSDFS_FALSE,
    SSDFS_FALSE, SSDFS_FALSE, SSDFS_FALSE, SSDFS_FALSE, SSDFS_FALSE, SSDFS_FALSE, SSDFS_FALSE, SSDFS_FALSE,
    SSDFS_TRUE, SSDFS_FALSE, SSDFS_FALSE, SSDFS_FALSE, SSDFS_FALSE, SSDFS_FALSE, SSDFS_FALSE, SSDFS_FALSE,
    SSDFS_FALSE, SSDFS_FALSE, SSDFS_FALSE, SSDFS_FALSE, SSDFS_FALSE, SSDFS_FALSE, SSDFS_FALSE, SSDFS_FALSE,
    SSDFS_TRUE, SSDFS_FALSE, SSDFS_FALSE, SSDFS_FALSE, SSDFS_FALSE, SSDFS_FALSE, SSDFS_FALSE, SSDFS_FALSE,
    SSDFS_FALSE, SSDFS_FALSE, SSDFS_FALSE, SSDFS_FALSE, SSDFS_FALSE, SSDFS_FALSE, SSDFS_FALSE, SSDFS_FALSE,
    SSDFS_TRUE, SSDFS_FALSE, SSDFS_FALSE, SSDFS_FALSE, SSDFS_FALSE, SSDFS_FALSE, SSDFS_FALSE, SSDFS_FALSE,
    SSDFS_FALSE, SSDFS_FALSE, SSDFS_FALSE, SSDFS_FALSE, SSDFS_FALSE, SSDFS_FALSE, SSDFS_FALSE, SSDFS_FALSE
  ]"

definition BYTE_CONTAINS_CLEAN_STATE :: "u8 \<Rightarrow> bool" where
  "BYTE_CONTAINS_CLEAN_STATE v = detect_clean_seg ! unat v"

text \<open>
  The search loop. The result is the byte and the offset of the first clean item, with the
  fragment after the item got its new state, or \<open>None\<close> when the loop ran to its end.
\<close>

function set_first_clean_loop ::
  "buf \<Rightarrow> nat \<Rightarrow> nat \<Rightarrow> nat \<Rightarrow> int \<Rightarrow> (buf \<times> (nat \<times> nat) option) res" where
  "set_first_clean_loop fragment byte_index search_bytes start_offset state =
     (if byte_index < search_bytes then
        bnd (nth_chk fragment byte_index) (\<lambda>value.
        case FIND_FIRST_ITEM_IN_BYTE value SSDFS_SEG_CLEAN SSDFS_SEG_STATE_BITS
               SSDFS_SEG_STATE_MASK start_offset BYTE_CONTAINS_CLEAN_STATE FIRST_STATE_IN_BYTE of
          Inl e \<Rightarrow>
            (if e = Errno ENODATA
             then set_first_clean_loop fragment (Suc byte_index) search_bytes 0 state
             else Inl e)
        | Inr found_offset \<Rightarrow>
            bnd (SET_STATE_IN_BYTE value found_offset SSDFS_SEG_STATE_BITS
                   SSDFS_SEG_STATE_MASK state) (\<lambda>value'.
            bnd (upd_chk fragment byte_index value') (\<lambda>fragment'.
            Inr (fragment', Some (byte_index, found_offset)))))
      else Inr (fragment, None))"
  by pat_completeness auto
termination
  by (relation "measure (\<lambda>(fragment, byte_index, search_bytes, start_offset, state).
        search_bytes - byte_index)") auto

declare set_first_clean_loop.simps [simp del]

text \<open>What follows the search: \<^verbatim>\<open>*found_seg\<close> from the byte and the offset, and the error code.\<close>

definition finish_clean_search ::
  "u64 \<Rightarrow> nat \<Rightarrow> u64 \<Rightarrow> buf \<times> (nat \<times> nat) option \<Rightarrow> (errno option \<times> u64 \<times> buf) res" where
  "finish_clean_search fragment_start_item items_per_byte max_item = (\<lambda>(fragment', found).
     case found of
       None \<Rightarrow> Inr (Some ENODATA, U64_MAX, fragment')
     | Some (byte_index, found_offset) \<Rightarrow>
         let found_seg = fragment_start_item
               + ucast (of_nat byte_index * of_nat items_per_byte :: u32) + of_nat found_offset;
             found_seg' = (if found_seg \<ge> max_item then U64_MAX else found_seg) in
         Inr (if found_seg' = U64_MAX then Some ENODATA else None, found_seg', fragment'))"

text \<open>
  \<open>hdr\<close> is the memory of the fragment header, \<open>fragment\<close> the bitmap behind it. The errors
  that are found before the search are \<open>Inl\<close>; the search returns the error code, \<^verbatim>\<open>*found_seg\<close>
  and the bitmap, which the last case of the source changes even when it returns \<^verbatim>\<open>-ENODATA\<close>.
\<close>

definition SET_FIRST_CLEAN_ITEM_IN_FRAGMENT ::
  "buf \<Rightarrow> buf \<Rightarrow> u64 \<Rightarrow> u64 \<Rightarrow> u32 \<Rightarrow> int \<Rightarrow> (errno option \<times> u64 \<times> buf) res" where
  "SET_FIRST_CLEAN_ITEM_IN_FRAGMENT hdr fragment start_item max_item page_size state =
     bnd (SSDFS_ITEMS_PER_BYTE SSDFS_SEG_STATE_BITS) (\<lambda>items_per_byte.
     bnd (fail_if (start_item \<ge> max_item) EINVAL) (\<lambda>_.
     bnd (rd64 hdr sbf_start_item) (\<lambda>fragment_start_item.
     bnd (fail_if (fragment_start_item = U64_MAX) ERANGE) (\<lambda>_.
     bnd (rd16 hdr sbf_fragment_bytes) (\<lambda>fragment_bytes.
     let search_bytes0 = ucast (ucast fragment_bytes - segbmap_hdr_size :: u64) :: u32 in
     bnd (fail_if (search_bytes0 = 0 \<or> search_bytes0 > page_size) ERANGE) (\<lambda>_.
     let aligned_start = ALIGNED_START_ITEM start_item SSDFS_SEG_STATE_BITS in
     bnd (ALIGNED_END_ITEM max_item SSDFS_SEG_STATE_BITS) (\<lambda>aligned_end.
     let byte_range = (aligned_end - fragment_start_item) div of_nat items_per_byte in
     bnd (BUG_ON (byte_range \<ge> ucast U32_MAX)) (\<lambda>_.
     let search_bytes = min search_bytes0 (ucast byte_range);
         (byte_index, start_offset) =
           (if fragment_start_item \<le> aligned_start then
              let items_range = ucast (aligned_start - fragment_start_item) :: u32 in
              (items_range div of_nat items_per_byte, ucast (start_item - aligned_start) :: u8)
            else (0, 0)) in
     bnd (set_first_clean_loop fragment (unat byte_index) (unat search_bytes)
            (unat start_offset) state)
       (finish_clean_search fragment_start_item items_per_byte max_item)))))))))"

section \<open>The lookup table\<close>

interpretation seg: packed_items SSDFS_SEG_STATE_BITS 2
  by unfold_locales simp_all

lemma seg_mask: "SSDFS_SEG_STATE_MASK = mask SSDFS_SEG_STATE_BITS"
  by (simp add: mask_eq_exp_minus_1)

definition byte_has_clean :: "nat \<Rightarrow> bool" where
  "byte_has_clean n \<longleftrightarrow> n mod 16 = 0 \<or> n div 16 = 0"

lemma detect_clean_seg_exact: "detect_clean_seg = map byte_has_clean [0..<256]"
  by code_simp

lemma ex_less_2: "(\<exists>k < 2. P k) \<longleftrightarrow> P 0 \<or> P (1::nat)"
  by (auto simp: numeral_eq_Suc less_Suc_eq)

lemma clean_table:
  "BYTE_CONTAINS_CLEAN_STATE v \<longleftrightarrow> (\<exists>k < 2. item_in_byte SSDFS_SEG_STATE_BITS v k = SSDFS_SEG_CLEAN)"
proof -
  have "unat v < 256" using unsigned_less[of v] by simp
  then have "BYTE_CONTAINS_CLEAN_STATE v = byte_has_clean (unat v)"
    by (simp add: BYTE_CONTAINS_CLEAN_STATE_def detect_clean_seg_exact)
  moreover have "item_in_byte 4 v k = int (unat v div 16 ^ k mod 16)" for k
    by (simp add: item_in_byte_nat drop_bit_eq_div take_bit_eq_mod power_mult mult.commute[of k])
  ultimately show ?thesis
    using \<open>unat v < 256\<close> by (simp add: byte_has_clean_def const_defs ex_less_2 flip: of_nat_mod)
qed

section \<open>The search loop\<close>

definition first_clean :: "buf \<Rightarrow> nat \<Rightarrow> nat \<Rightarrow> nat \<Rightarrow> bool" where
  "first_clean fragment lo hi i \<longleftrightarrow> lo \<le> i \<and> i < hi \<and>
     bmap_item SSDFS_SEG_STATE_BITS fragment i = SSDFS_SEG_CLEAN \<and>
     (\<forall>j. lo \<le> j \<and> j < i \<longrightarrow> bmap_item SSDFS_SEG_STATE_BITS fragment j \<noteq> SSDFS_SEG_CLEAN)"

definition none_clean :: "buf \<Rightarrow> nat \<Rightarrow> nat \<Rightarrow> bool" where
  "none_clean fragment lo hi \<longleftrightarrow>
     (\<forall>j. lo \<le> j \<and> j < hi \<longrightarrow> bmap_item SSDFS_SEG_STATE_BITS fragment j \<noteq> SSDFS_SEG_CLEAN)"

definition set_seg :: "buf \<Rightarrow> nat \<Rightarrow> int \<Rightarrow> buf" where
  "set_seg fragment i state =
     fragment[i div 2 := set_state (fragment ! (i div 2)) (i mod 2) SSDFS_SEG_STATE_BITS
                           SSDFS_SEG_STATE_MASK state]"

lemma first_clean_cases: "none_clean b lo hi \<or> (\<exists>i. first_clean b lo hi i)"
proof (cases "none_clean b lo hi")
  case False
  let ?P = "\<lambda>j. lo \<le> j \<and> j < hi \<and> bmap_item 4 b j = SSDFS_SEG_CLEAN"
  from False have "\<exists>j. ?P j" by (auto simp: none_clean_def)
  then obtain i where "?P i" "\<forall>j < i. \<not> ?P j" unfolding exists_least_iff[of ?P] by blast
  then have "first_clean b lo hi i" by (auto simp: first_clean_def)
  then show ?thesis by blast
qed simp

lemma bmap_item_byte: "k < 2 \<Longrightarrow> bmap_item 4 b (2 * i + k) = item_in_byte 4 (b ! i) k"
  by (simp add: bmap_item_def)

lemma find_in_byte:
  assumes "so \<le> 2"
  shows "FIND_FIRST_ITEM_IN_BYTE v SSDFS_SEG_CLEAN 4 15 so BYTE_CONTAINS_CLEAN_STATE
           FIRST_STATE_IN_BYTE =
         (if \<exists>j. so \<le> j \<and> j < 2 \<and> item_in_byte 4 v j = SSDFS_SEG_CLEAN
          then Inr (LEAST j. so \<le> j \<and> j < 2 \<and> item_in_byte 4 v j = SSDFS_SEG_CLEAN)
          else Inl (Errno ENODATA))"
  unfolding seg_mask by (rule seg.FIND_FIRST_ok[OF assms]) (auto simp: clean_table)

lemma find_in_byte_none:
  assumes "so \<le> 2" and "none_clean b (2 * i + so) (2 * i + 2)"
  shows "FIND_FIRST_ITEM_IN_BYTE (b ! i) SSDFS_SEG_CLEAN 4 15 so BYTE_CONTAINS_CLEAN_STATE
           FIRST_STATE_IN_BYTE = Inl (Errno ENODATA)"
proof -
  have "bmap_item 4 b (2 * i + k) \<noteq> SSDFS_SEG_CLEAN" if "so \<le> k" "k < 2" for k
    using assms(2) that unfolding none_clean_def by simp
  then show ?thesis using bmap_item_byte[of _ b i] by (auto simp: find_in_byte[OF assms(1)])
qed

lemma find_in_byte_some:
  assumes "so \<le> 2" and "k < 2" and "first_clean b (2 * i + so) hi (2 * i + k)"
  shows "FIND_FIRST_ITEM_IN_BYTE (b ! i) SSDFS_SEG_CLEAN 4 15 so BYTE_CONTAINS_CLEAN_STATE
           FIRST_STATE_IN_BYTE = Inr k"
proof -
  let ?P = "\<lambda>j. so \<le> j \<and> j < 2 \<and> item_in_byte 4 (b ! i) j = SSDFS_SEG_CLEAN"
  have k: "?P k" using assms bmap_item_byte[of k b i] by (simp add: first_clean_def)
  moreover have "(LEAST j. ?P j) = k"
  proof (rule Least_equality)
    fix j assume j: "?P j"
    then have "bmap_item 4 b (2 * i + j) = SSDFS_SEG_CLEAN" using bmap_item_byte[of j b i] by simp
    with j assms(3) show "k \<le> j" unfolding first_clean_def by (meson add_le_cancel_left not_le)
  qed (use k in simp)
  ultimately show ?thesis unfolding find_in_byte[OF assms(1)] by metis
qed

lemma set_first_clean_loop_none:
  "so \<le> 2 \<Longrightarrow> sb \<le> length b \<Longrightarrow> none_clean b (2 * bi + so) (2 * sb) \<Longrightarrow>
     set_first_clean_loop b bi sb so st = Inr (b, None)"
proof (induction "sb - bi" arbitrary: bi so)
  case 0
  then show ?case by (subst set_first_clean_loop.simps) simp
next
  case (Suc d)
  then have "none_clean b (2 * bi + so) (2 * bi + 2)" by (auto simp: none_clean_def)
  then have "FIND_FIRST_ITEM_IN_BYTE (b ! bi) SSDFS_SEG_CLEAN 4 15 so BYTE_CONTAINS_CLEAN_STATE
      FIRST_STATE_IN_BYTE = Inl (Errno ENODATA)"
    using find_in_byte_none[of so b bi] Suc.prems by simp
  moreover have "set_first_clean_loop b (Suc bi) sb 0 st = Inr (b, None)"
    using Suc by (intro Suc.hyps(1)) (auto simp: none_clean_def)
  ultimately show ?case using Suc by (subst set_first_clean_loop.simps) simp
qed

lemma set_first_clean_loop_some:
  "so \<le> 2 \<Longrightarrow> sb \<le> length b \<Longrightarrow> first_clean b (2 * bi + so) (2 * sb) i \<Longrightarrow>
     set_first_clean_loop b bi sb so st = Inr (set_seg b i st, Some (i div 2, i mod 2))"
proof (induction "sb - bi" arbitrary: bi so)
  case 0
  then show ?case by (simp add: first_clean_def)
next
  case (Suc d)
  show ?case
  proof (cases "i < 2 * bi + 2")
    case True
    moreover have "2 * bi \<le> i" using Suc.prems(3) by (simp add: first_clean_def)
    ultimately have k: "i div 2 = bi" "i mod 2 < 2" "2 * bi + i mod 2 = i" by presburger+
    then have "FIND_FIRST_ITEM_IN_BYTE (b ! bi) SSDFS_SEG_CLEAN 4 15 so BYTE_CONTAINS_CLEAN_STATE
        FIRST_STATE_IN_BYTE = Inr (i mod 2)"
      using find_in_byte_some[of so "i mod 2" b bi "2 * sb"] Suc.prems by simp
    with k Suc show ?thesis
      by (subst set_first_clean_loop.simps) (simp add: seg.SET_STATE_ok set_seg_def)
  next
    case False
    then have "none_clean b (2 * bi + so) (2 * bi + 2)"
      using Suc.prems(3) by (auto simp: none_clean_def first_clean_def)
    then have "FIND_FIRST_ITEM_IN_BYTE (b ! bi) SSDFS_SEG_CLEAN 4 15 so BYTE_CONTAINS_CLEAN_STATE
        FIRST_STATE_IN_BYTE = Inl (Errno ENODATA)"
      using find_in_byte_none[of so b bi] Suc.prems by simp
    moreover have "set_first_clean_loop b (Suc bi) sb 0 st = Inr (set_seg b i st, Some (i div 2, i mod 2))"
      using Suc False by (intro Suc.hyps(1)) (auto simp: first_clean_def)
    ultimately show ?thesis using Suc by (subst set_first_clean_loop.simps) simp
  qed
qed

lemma set_seg_area:
  assumes "i div 2 < length b" "0 \<le> st" "st < 16"
  shows "area_set SSDFS_SEG_STATE_BITS b (set_seg b i st) i (Suc i) st"
  using seg.area_set_single[of i b st] assms by (simp add: set_seg_def flip: seg_mask)

section \<open>The search in a fragment\<close>

text \<open>
  The items \<open>[search_from, search_limit)\<close> of the fragment are the ones the loop looks at: the end is
  rounded down to a multiple of 16 because the alignment macros shift by the number of bits of
  an item, and not by the logarithm of the number of items in a byte.
\<close>

definition search_limit :: "buf \<Rightarrow> u64 \<Rightarrow> nat" where
  "search_limit hdr max_item =
     min (2 * (unat (get16 hdr 18) - 32)) ((unat max_item + 1) div 16 * 16 - unat (get64 hdr 8))"

definition search_byte :: "buf \<Rightarrow> u64 \<Rightarrow> nat" where
  "search_byte hdr start_item =
     (if unat (get64 hdr 8) \<le> unat start_item div 16 * 16
      then (unat start_item div 16 * 16 - unat (get64 hdr 8)) div 2 else 0)"

definition search_offset :: "buf \<Rightarrow> u64 \<Rightarrow> nat" where
  "search_offset hdr start_item =
     (if unat (get64 hdr 8) \<le> unat start_item div 16 * 16 then unat start_item mod 16 else 0)"

definition search_from :: "buf \<Rightarrow> u64 \<Rightarrow> nat" where
  "search_from hdr start_item =
     (if unat (get64 hdr 8) \<le> unat start_item div 16 * 16
      then unat start_item - unat (get64 hdr 8) else 0)"

definition search_ready :: "buf \<Rightarrow> buf \<Rightarrow> u64 \<Rightarrow> u64 \<Rightarrow> u32 \<Rightarrow> bool" where
  "search_ready hdr fragment start_item max_item page_size \<longleftrightarrow>
     32 \<le> length hdr \<and> start_item < max_item \<and> unat max_item + 2 \<le> 2 ^ 64 \<and>
     even (unat (get64 hdr 8)) \<and> unat (get64 hdr 8) \<le> (unat max_item + 1) div 16 * 16 \<and>
     unat max_item - unat (get64 hdr 8) < 2 ^ 32 \<and>
     32 < unat (get16 hdr 18) \<and> unat (get16 hdr 18) \<le> unat page_size + 32 \<and>
     unat (get16 hdr 18) \<le> length fragment + 32"

lemma search_bytes_unat:
  assumes "32 < unat fb"
  shows "unat (ucast (ucast (fb :: u16) - 32 :: u64) :: u32) = unat fb - 32"
proof -
  have lt: "unat fb < 65536" using unsigned_less[of fb] by simp
  have "unat (ucast fb - 32 :: u64) = unat fb - 32"
    using assms by (subst unat_sub_nw) (simp_all add: word_le_nat_alt unat_ucast_up)
  then show ?thesis using lt by (simp add: unat_ucast_small)
qed

lemma half_min: "min (2 * a) x div 2 = min a (x div 2)" for a x :: nat
  by (auto simp: min_def)

lemma search_unfold:
  assumes "search_ready hdr fragment start_item max_item page_size"
  shows "SET_FIRST_CLEAN_ITEM_IN_FRAGMENT hdr fragment start_item max_item page_size state =
     bnd (set_first_clean_loop fragment (search_byte hdr start_item)
            (search_limit hdr max_item div 2) (search_offset hdr start_item) state)
       (finish_clean_search (get64 hdr 8) 2 max_item)"
proof -
  let ?fs = "get64 hdr 8" and ?fb = "get16 hdr 18"
  let ?as = "ALIGNED_START_ITEM start_item SSDFS_SEG_STATE_BITS"
  note r = assms[unfolded search_ready_def]
  have lt: "unat start_item < unat max_item" using r by (simp add: word_less_nat_alt)
  have as: "unat ?as = unat start_item div 16 * 16" by (simp add: unat_ALIGNED_START_ITEM)
  obtain e where e: "ALIGNED_END_ITEM max_item SSDFS_SEG_STATE_BITS = Inr e"
    and ue: "unat e = (unat max_item + 1) div 16 * 16"
    using seg.ALIGNED_END_ok[of max_item] r by auto
  have fs_as: "?fs \<le> ?as \<longleftrightarrow> unat ?fs \<le> unat start_item div 16 * 16" by (simp add: word_le_nat_alt as)
  have as_e: "unat start_item div 16 * 16 \<le> unat e" unfolding ue using lt by (simp add: div_le_mono)
  have fs_e: "?fs \<le> e" using r ue by (simp add: word_le_nat_alt)
  have e_le: "unat e \<le> unat max_item + 1" unfolding ue by simp
  have br: "unat ((e - ?fs) div 2) = (unat e - unat ?fs) div 2"
    using fs_e by (simp add: unat_div unat_sub_nw)
  have "unat e - unat ?fs \<le> 2 ^ 32" using r e_le by linarith
  then have br_lt: "(unat e - unat ?fs) div 2 < 2 ^ 32 - 1" by simp
  then have "\<not> (ucast U32_MAX \<le> (e - ?fs) div 2)"
    unfolding word_le_nat_alt br by (simp add: unat_ucast_up unsigned_minus_1_eq_mask mask_eq_exp_minus_1)
  moreover have ub: "unat (ucast ((e - ?fs) div 2) :: u32) = (unat e - unat ?fs) div 2"
    using br br_lt by (simp add: unat_ucast_small)
  have "unat (min (ucast (ucast ?fb - 32 :: u64) :: u32) (ucast ((e - ?fs) div 2)))
      = search_limit hdr max_item div 2"
    using r search_bytes_unat[of ?fb] by (simp add: unat_min ub search_limit_def half_min ue)
  moreover have "unat (if ?fs \<le> ?as then (ucast (?as - ?fs) :: u32) div 2 else 0) = search_byte hdr start_item"
  proof (cases "?fs \<le> ?as")
    case True
    then have "unat (?as - ?fs) = unat start_item div 16 * 16 - unat ?fs"
      by (simp add: unat_sub_nw as)
    moreover have "unat start_item div 16 * 16 - unat ?fs < 2 ^ 32" using r as_e e_le lt by linarith
    ultimately show ?thesis using True fs_as by (simp add: unat_div unat_ucast_small search_byte_def)
  qed (use fs_as in \<open>simp add: search_byte_def\<close>)
  moreover have "unat (if ?fs \<le> ?as then ucast (start_item - ?as) :: u8 else 0) = search_offset hdr start_item"
  proof -
    have "?as \<le> start_item" by (simp add: word_le_nat_alt as)
    then have "unat (start_item - ?as) = unat start_item mod 16"
      by (simp add: unat_sub_nw as minus_div_mult_eq_mod)
    moreover have "unat start_item mod 16 < 16" by simp
    ultimately show ?thesis using fs_as by (simp add: unat_ucast_small search_offset_def)
  qed
  moreover have "?fs \<noteq> U64_MAX"
    using r lt by (auto simp: unsigned_minus_1_eq_mask mask_eq_exp_minus_1)
  moreover have "(ucast (ucast ?fb - 32 :: u64) :: u32) \<noteq> 0" "\<not> (page_size < ucast (ucast ?fb - 32 :: u64))"
    using r search_bytes_unat[of ?fb] by (auto simp: word_less_nat_alt unat_eq_0)
  ultimately show ?thesis
    using r e
    by (cases "?fs \<le> ?as")
      (simp_all add: SET_FIRST_CLEAN_ITEM_IN_FRAGMENT_def seg.items_per_byte not_le[symmetric] Let_def)
qed

text \<open>The segment number of item \<open>i\<close> of a fragment, without wrap-around.\<close>

lemma finish_clean_search_found:
  assumes "unat fs + i < unat max_item" and "i < 2 ^ 32"
  shows "finish_clean_search fs 2 max_item (b, Some (i div 2, i mod 2)) =
           Inr (None, fs + of_nat i, b)"
proof -
  have "unat (of_nat (i div 2) * of_nat 2 :: u32) = i div 2 * 2"
    using assms(2) by (subst unat_mult_nw) (simp_all add: unat_of_nat take_bit_nat_eq_self)
  then have "(ucast (of_nat (i div 2) * of_nat 2 :: u32) :: u64) = of_nat (i div 2 * 2)"
    by (metis of_nat_unat)
  then have eq: "fs + ucast (of_nat (i div 2) * of_nat 2 :: u32) + of_nat (i mod 2) = fs + of_nat i"
    by (metis add.assoc div_mult_mod_eq of_nat_add)
  note finish = finish_clean_search_def[of fs 2 max_item]
  have "unat (fs + of_nat i) = unat fs + i"
    using assms unat_width[of max_item]
    by (subst unat_add_nw) (simp_all add: unat_of_nat take_bit_nat_eq_self)
  then have "fs + of_nat i < max_item" using assms(1) by (simp add: word_less_nat_alt)
  moreover from this have "fs + of_nat i \<noteq> U64_MAX"
    by (metis word_order.extremum_strict)
  ultimately show ?thesis unfolding finish by (simp only: prod.case option.case eq Let_def) simp
qed

lemma finish_clean_search_late:
  assumes "unat max_item \<le> unat fs + i" and "unat fs + i < 2 ^ 64" and "i < 2 ^ 32"
  shows "finish_clean_search fs 2 max_item (b, Some (i div 2, i mod 2)) = Inr (Some ENODATA, U64_MAX, b)"
proof -
  have "unat (of_nat (i div 2) * of_nat 2 :: u32) = i div 2 * 2"
    using assms(3) by (subst unat_mult_nw) (simp_all add: unat_of_nat take_bit_nat_eq_self)
  then have "(ucast (of_nat (i div 2) * of_nat 2 :: u32) :: u64) = of_nat (i div 2 * 2)"
    by (metis of_nat_unat)
  then have eq: "fs + ucast (of_nat (i div 2) * of_nat 2 :: u32) + of_nat (i mod 2) = fs + of_nat i"
    by (metis add.assoc div_mult_mod_eq of_nat_add)
  have "unat (fs + of_nat i) = unat fs + i"
    using assms by (subst unat_add_nw) (simp_all add: unat_of_nat take_bit_nat_eq_self)
  then have "max_item \<le> fs + of_nat i" using assms(1) by (simp add: word_le_nat_alt)
  then show ?thesis
    unfolding finish_clean_search_def[of fs 2 max_item] by (simp only: prod.case option.case eq Let_def) simp
qed

lemma search_range:
  assumes "search_ready hdr fragment start_item max_item page_size"
  shows "2 * search_byte hdr start_item + search_offset hdr start_item = search_from hdr start_item"
    and "2 * (search_limit hdr max_item div 2) = search_limit hdr max_item"
    and "search_limit hdr max_item div 2 \<le> length fragment"
    and "search_limit hdr max_item < 2 ^ 32"
proof -
  note r = assms[unfolded search_ready_def]
  have "even (unat start_item div 16 * 16 - unat (get64 hdr 8))" using r by simp
  then have "2 * ((unat start_item div 16 * 16 - unat (get64 hdr 8)) div 2) =
      unat start_item div 16 * 16 - unat (get64 hdr 8)" by (rule dvd_mult_div_cancel)
  moreover have "unat start_item = unat start_item div 16 * 16 + unat start_item mod 16" by simp
  ultimately show "2 * search_byte hdr start_item + search_offset hdr start_item = search_from hdr start_item"
    unfolding search_byte_def search_offset_def search_from_def by (cases "unat (get64 hdr 8) \<le> unat start_item div 16 * 16") simp_all
  have "even (search_limit hdr max_item)" using r by (auto simp: search_limit_def min_def)
  then show "2 * (search_limit hdr max_item div 2) = search_limit hdr max_item"
    by (rule dvd_mult_div_cancel)
  show "search_limit hdr max_item div 2 \<le> length fragment"
    using r unfolding search_limit_def half_min by linarith
  have "unat (get16 hdr 18) < 65536" using unsigned_less[of "get16 hdr 18"] by simp
  then show "search_limit hdr max_item < 2 ^ 32" unfolding search_limit_def by (intro min.strict_coboundedI1) simp
qed

text \<open>The first clean item of the searched range is found and gets the state.\<close>

lemma clean_item_found:
  assumes "search_ready hdr fragment start_item max_item page_size"
    and "search_offset hdr start_item \<le> 2" and "0 \<le> state" and "state < 16"
    and i: "first_clean fragment (search_from hdr start_item) (search_limit hdr max_item) i"
    and lt: "unat (get64 hdr 8) + i < unat max_item"
  shows "SET_FIRST_CLEAN_ITEM_IN_FRAGMENT hdr fragment start_item max_item page_size state =
      Inr (None, get64 hdr 8 + of_nat i, set_seg fragment i state)"
    and "area_set SSDFS_SEG_STATE_BITS fragment (set_seg fragment i state) i (Suc i) state"
proof -
  note range = search_range[OF assms(1)]
  have i_lt: "i < search_limit hdr max_item" using i by (simp add: first_clean_def)
  have "i div 2 < length fragment" using i_lt range(2,3) by linarith
  then show "area_set SSDFS_SEG_STATE_BITS fragment (set_seg fragment i state) i (Suc i) state"
    using assms(3,4) by (rule set_seg_area)
  have "finish_clean_search (get64 hdr 8) 2 max_item (set_seg fragment i state, Some (i div 2, i mod 2)) =
      Inr (None, get64 hdr 8 + of_nat i, set_seg fragment i state)"
    using finish_clean_search_found[OF lt] i_lt range(4) by simp
  then show "SET_FIRST_CLEAN_ITEM_IN_FRAGMENT hdr fragment start_item max_item page_size state =
      Inr (None, get64 hdr 8 + of_nat i, set_seg fragment i state)"
    using set_first_clean_loop_some[OF assms(2) range(3), of "search_byte hdr start_item" i] i
      search_unfold[OF assms(1)] by (simp add: range(1,2))
qed

text \<open>
  The searched range may end with the item \<^verbatim>\<open>max_item\<close> itself, which is not a segment of the volume: its state is changed, too.
\<close>

lemma clean_item_late:
  assumes "search_ready hdr fragment start_item max_item page_size"
    and "search_offset hdr start_item \<le> 2" and "0 \<le> state" and "state < 16"
    and i: "first_clean fragment (search_from hdr start_item) (search_limit hdr max_item) i"
    and late: "unat max_item \<le> unat (get64 hdr 8) + i"
  shows "unat (get64 hdr 8) + i = unat max_item"
    and "SET_FIRST_CLEAN_ITEM_IN_FRAGMENT hdr fragment start_item max_item page_size state =
      Inr (Some ENODATA, U64_MAX, set_seg fragment i state)"
    and "area_set SSDFS_SEG_STATE_BITS fragment (set_seg fragment i state) i (Suc i) state"
proof -
  note range = search_range[OF assms(1)] and r = assms(1)[unfolded search_ready_def]
  have i_lt: "i < search_limit hdr max_item" using i by (simp add: first_clean_def)
  have "search_limit hdr max_item \<le> (unat max_item + 1) div 16 * 16 - unat (get64 hdr 8)" by (simp add: search_limit_def)
  moreover have "(unat max_item + 1) div 16 * 16 \<le> unat max_item + 1" by simp
  ultimately show eq: "unat (get64 hdr 8) + i = unat max_item" using i_lt late by linarith
  have "i div 2 < length fragment" using i_lt range(2,3) by linarith
  then show "area_set SSDFS_SEG_STATE_BITS fragment (set_seg fragment i state) i (Suc i) state"
    using assms(3,4) by (rule set_seg_area)
  have "finish_clean_search (get64 hdr 8) 2 max_item (set_seg fragment i state, Some (i div 2, i mod 2)) =
      Inr (Some ENODATA, U64_MAX, set_seg fragment i state)"
    using finish_clean_search_late[OF late] i_lt range(4) eq r by simp
  then show "SET_FIRST_CLEAN_ITEM_IN_FRAGMENT hdr fragment start_item max_item page_size state =
      Inr (Some ENODATA, U64_MAX, set_seg fragment i state)"
    using set_first_clean_loop_some[OF assms(2) range(3), of "search_byte hdr start_item" i] i
      search_unfold[OF assms(1)] by (simp add: range(1,2))
qed

lemma no_clean_item:
  assumes "search_ready hdr fragment start_item max_item page_size"
    and "search_offset hdr start_item \<le> 2 \<and> none_clean fragment (search_from hdr start_item) (search_limit hdr max_item) \<or>
      search_limit hdr max_item div 2 \<le> search_byte hdr start_item"
  shows "SET_FIRST_CLEAN_ITEM_IN_FRAGMENT hdr fragment start_item max_item page_size state =
      Inr (Some ENODATA, U64_MAX, fragment)"
proof (cases "search_limit hdr max_item div 2 \<le> search_byte hdr start_item")
  case True
  then show ?thesis unfolding search_unfold[OF assms(1)]
    by (subst set_first_clean_loop.simps) (simp add: finish_clean_search_def)
next
  case False
  note range = search_range[OF assms(1)]
  have a: "search_offset hdr start_item \<le> 2" "none_clean fragment (search_from hdr start_item) (search_limit hdr max_item)"
    using False assms(2) by auto
  show ?thesis
    using set_first_clean_loop_none[OF a(1) range(3), of "search_byte hdr start_item"] a(2) search_unfold[OF assms(1)]
    by (simp add: finish_clean_search_def range(1,2))
qed

text \<open>A searched range has a first clean item or none.\<close>

lemma clean_cases: "none_clean b m n \<or> (\<exists>i. first_clean b m n i)"
proof (cases "none_clean b m n")
  case False
  define P where "P i \<longleftrightarrow> m \<le> i \<and> i < n \<and> bmap_item SSDFS_SEG_STATE_BITS b i = SSDFS_SEG_CLEAN" for i
  have "\<exists>i. P i" using False unfolding none_clean_def P_def by blast
  then obtain i where i: "P i" "\<forall>j < i. \<not> P j" using exists_least_iff[of P] by blast
  have "\<not> P j \<Longrightarrow> m \<le> j \<Longrightarrow> j < i \<Longrightarrow> bmap_item SSDFS_SEG_STATE_BITS b j \<noteq> SSDFS_SEG_CLEAN" for j
    using i(1) unfolding P_def by linarith
  then have "first_clean b m n i" using i unfolding first_clean_def P_def by blast
  then show ?thesis by blast
qed simp

section \<open>Sizes of the bitmap\<close>

lemma SEG_BMAP_BYTES_ok:
  assumes "unat n + 1 < 2 ^ 33 - 2"
  shows "\<exists>b. SEG_BMAP_BYTES n = Inr b \<and> unat b = (unat n + 1) div 2"
proof -
  let ?q = "(n + 1) div 2 :: u64"
  have "unat (n + 1) = unat n + 1" using assms by (subst unat_add_nw) simp_all
  then have q: "unat ?q = (unat n + 1) div 2" by (simp add: unat_div)
  have lt: "(unat n + 1) div 2 < 2 ^ 32 - 1" using assms by simp
  then have "\<not> (ucast U32_MAX \<le> ?q)"
    by (simp add: word_le_nat_alt q unat_ucast_up unat_minus_one_eq)
  moreover have "unat (ucast ?q :: u32) = (unat n + 1) div 2"
    using lt q by (simp add: unat_ucast_small)
  ultimately show ?thesis
    by (simp add: SEG_BMAP_BYTES_def seg.items_per_byte Let_def add.commute[of 1 n])
qed

lemma SEG_BMAP_FRAGMENTS_ok:
  fixes ps :: u32 and n :: u64
  defines "B \<equiv> (unat n + 1) div 2"
  defines "P \<equiv> (B + unat ps - 1) div unat ps"
  defines "F \<equiv> (B + 32 * P + unat ps - 1) div unat ps"
  assumes ps: "0 < unat ps" and fit: "B + 32 * P + unat ps < 2 ^ 32" and F: "F < 65535"
  shows "\<exists>f. SEG_BMAP_FRAGMENTS n ps = Inr f \<and> unat f = F"
proof -
  have "unat n + 1 < 2 ^ 33 - 2" using fit ps by (simp add: B_def)
  then obtain b where b: "SEG_BMAP_BYTES n = Inr b" "unat b = B"
    using SEG_BMAP_BYTES_ok B_def by blast
  have ps0: "ps \<noteq> 0" using ps by auto
  have up: "unat (x + ps - 1) = unat x + unat ps - 1" if "unat x + unat ps < 2 ^ 32" for x :: u32
  proof -
    have "unat (x + ps) = unat x + unat ps" using that by (intro unat_add_nw) simp
    moreover from this ps have "1 \<le> x + ps" by (simp add: word_le_nat_alt)
    ultimately show ?thesis by (simp add: unat_sub_nw)
  qed
  let ?p = "(b + ps - 1) div ps"
  have p: "unat ?p = P" using up[of b] fit b by (simp add: unat_div P_def)
  then have "unat (?p * 32) = P * 32" using fit by (subst unat_mult_nw) simp_all
  then have b': "unat (b + ?p * 32) = B + 32 * P" using fit b by (subst unat_add_nw) simp_all
  let ?f = "(b + ?p * 32 + ps - 1) div ps"
  have f: "unat ?f = F" using up[of "b + ?p * 32"] fit b' by (simp add: unat_div F_def)
  then have "\<not> (ucast U16_MAX \<le> ?f)"
    using F by (simp add: word_le_nat_alt unat_ucast_up unat_minus_one_eq)
  moreover have "unat (ucast ?f :: u16) = F" using f F by (simp add: unat_ucast_small)
  ultimately show ?thesis
    using b ps0 by (simp add: SEG_BMAP_FRAGMENTS_def Let_def)
qed

lemma segbmap_items_per_fragment_ok:
  assumes "32 < fs" and "unat fs < 2 ^ 31"
  shows "\<exists>i. ssdfs_segbmap_items_per_fragment fs = Inr i \<and> unat i = 2 * (unat fs - 32)"
proof -
  have gt: "32 < unat fs" using assms(1) by (simp add: word_less_nat_alt)
  then have "unat (fs - 32) = unat fs - 32" by (subst unat_sub_nw) (simp_all add: word_le_nat_alt)
  then have p: "unat (ucast (fs - 32) :: u32) = unat fs - 32"
    using assms by (simp add: unat_ucast_small)
  then have m: "unat ((ucast (fs - 32) :: u32) * 2) = 2 * (unat fs - 32)"
    using assms by (subst unat_mult_nw) simp_all
  then have "\<not> (ucast U32_MAX \<le> (ucast ((ucast (fs - 32) :: u32) * 2) :: u64))"
    using assms by (simp add: word_le_nat_alt unat_ucast_up unat_minus_one_eq)
  moreover have "unat (ucast (ucast ((ucast (fs - 32) :: u32) * 2) :: u64) :: u32) = 2 * (unat fs - 32)"
    using m assms by (simp add: unat_ucast_small unat_ucast_up)
  moreover have "\<not> fs \<le> 32" using assms(1) by simp
  ultimately show ?thesis
    by (simp add: ssdfs_segbmap_items_per_fragment_def seg.items_per_byte Let_def del: not_le)
qed

section \<open>Properties\<close>

text \<open>
  C33. \<^verbatim>\<open>SET_FIRST_CLEAN_ITEM_IN_FRAGMENT\<close>, called on a well-formed fragment with a start item in
  the first three items of its block of 16, or in a block that begins before the fragment: when the searched range of the fragment holds a clean
  segment, the first one and no other gets the new state; the call returns its number when it is below
  \<^verbatim>\<open>max_item\<close>, and \<^verbatim>\<open>-ENODATA\<close> otherwise, which happens for the item \<^verbatim>\<open>max_item\<close> only; when the range holds
  none, the call returns \<^verbatim>\<open>-ENODATA\<close> and the bitmap is unchanged.
\<close>

theorem set_first_clean_item_exact:
  assumes "search_ready hdr fragment start_item max_item page_size"
    and "search_offset hdr start_item \<le> 2" and "0 \<le> state" and "state < 16"
  shows "(\<forall>i. first_clean fragment (search_from hdr start_item) (search_limit hdr max_item) i \<longrightarrow>
          unat (get64 hdr 8) + i \<le> unat max_item \<and>
          (\<exists>fragment'.
             SET_FIRST_CLEAN_ITEM_IN_FRAGMENT hdr fragment start_item max_item page_size state =
               (if unat (get64 hdr 8) + i < unat max_item then Inr (None, get64 hdr 8 + of_nat i, fragment')
                else Inr (Some ENODATA, U64_MAX, fragment')) \<and>
             area_set SSDFS_SEG_STATE_BITS fragment fragment' i (Suc i) state)) \<and>
         (none_clean fragment (search_from hdr start_item) (search_limit hdr max_item) \<longrightarrow>
          SET_FIRST_CLEAN_ITEM_IN_FRAGMENT hdr fragment start_item max_item page_size state =
            Inr (Some ENODATA, U64_MAX, fragment))"
proof (rule conjI; intro allI impI)
  fix i
  assume i: "first_clean fragment (search_from hdr start_item) (search_limit hdr max_item) i"
  show "unat (get64 hdr 8) + i \<le> unat max_item \<and>
      (\<exists>fragment'.
         SET_FIRST_CLEAN_ITEM_IN_FRAGMENT hdr fragment start_item max_item page_size state =
           (if unat (get64 hdr 8) + i < unat max_item then Inr (None, get64 hdr 8 + of_nat i, fragment')
            else Inr (Some ENODATA, U64_MAX, fragment')) \<and>
         area_set SSDFS_SEG_STATE_BITS fragment fragment' i (Suc i) state)"
  proof (cases "unat (get64 hdr 8) + i < unat max_item")
    case True
    then show ?thesis using clean_item_found[OF assms i] by auto
  next
    case False
    then show ?thesis using clean_item_late[OF assms i] by auto
  qed
next
  assume "none_clean fragment (search_from hdr start_item) (search_limit hdr max_item)"
  then show "SET_FIRST_CLEAN_ITEM_IN_FRAGMENT hdr fragment start_item max_item page_size state =
      Inr (Some ENODATA, U64_MAX, fragment)"
    using no_clean_item[OF assms(1)] assms(2) by blast
qed

theorem set_first_clean_item_exact_witness:
  "\<exists>fragment'. SET_FIRST_CLEAN_ITEM_IN_FRAGMENT
     (put16 (replicate 32 0) 18 40) [0x77, 0x07, 0, 0, 0, 0, 0, 0] 0 15 4096 SSDFS_SEG_RESERVED =
       Inr (None, 3, fragment') \<and>
     area_set SSDFS_SEG_STATE_BITS [0x77, 0x07, 0, 0, 0, 0, 0, 0] fragment' 3 4 SSDFS_SEG_RESERVED"
proof -
  let ?hdr = "put16 (replicate 32 0) 18 40" and ?b = "[0x77, 0x07, 0, 0, 0, 0, 0, 0] :: buf"
  have fs: "get64 ?hdr 8 = 0" and fb: "get16 ?hdr 18 = 40"
    by (simp_all add: buf_simps) (simp add: get64_def bytes_at_def numeral_eq_Suc)
  have "search_ready ?hdr ?b 0 15 4096" by (simp add: search_ready_def fs fb)
  moreover have "search_offset ?hdr 0 = 0" "search_from ?hdr 0 = 0" "search_limit ?hdr 15 = 16"
    by (simp_all add: search_offset_def search_from_def search_limit_def fs fb)
  moreover have "first_clean ?b 0 16 3"
  proof -
    have item: "bmap_item 4 ?b i = int (unat (?b ! (i div 2)) div 16 ^ (i mod 2) mod 16)" for i
      by (simp add: bmap_item_def item_in_byte_nat drop_bit_eq_div take_bit_eq_mod power_mult
          mult.commute[of _ 4])
    have "j = 0 \<or> j = 1 \<or> j = 2" if "j < 3" for j :: nat using that by arith
    then have "bmap_item 4 ?b j \<noteq> 0" if "j < 3" for j using that by (fastforce simp: item)
    then show ?thesis by (simp add: first_clean_def const_defs item)
  qed
  ultimately show ?thesis
    using set_first_clean_item_exact[of ?hdr ?b 0 15 4096 SSDFS_SEG_RESERVED]
    by (auto simp: fs const_defs dest!: spec[of _ 3])
qed

text \<open>
  C39. When \<^verbatim>\<open>SET_FIRST_CLEAN_ITEM_IN_FRAGMENT\<close> fails the assertion on the offset in the byte: exactly when
  the start item is not in the first three items of its block of 16 and this block lies inside the searched
  range, whatever the bitmap holds. The alignment macros take the number of bits for the logarithm of the
  number of items in a byte.
\<close>

theorem set_first_clean_item_unaligned_start:
  assumes "search_ready hdr fragment start_item max_item page_size" and "0 \<le> state" and "state < 16"
  shows "SET_FIRST_CLEAN_ITEM_IN_FRAGMENT hdr fragment start_item max_item page_size state = Inl Bug \<longleftrightarrow>
    2 < search_offset hdr start_item \<and> search_byte hdr start_item < search_limit hdr max_item div 2"
proof
  assume at: "2 < search_offset hdr start_item \<and> search_byte hdr start_item < search_limit hdr max_item div 2"
  then have "search_byte hdr start_item < length fragment" using search_range(3)[OF assms(1)] by linarith
  with at show "SET_FIRST_CLEAN_ITEM_IN_FRAGMENT hdr fragment start_item max_item page_size state = Inl Bug"
    unfolding search_unfold[OF assms(1)]
    by (subst set_first_clean_loop.simps)
      (simp add: FIND_FIRST_ITEM_IN_BYTE_def seg.items_per_byte)
next
  assume bug: "SET_FIRST_CLEAN_ITEM_IN_FRAGMENT hdr fragment start_item max_item page_size state = Inl Bug"
  show "2 < search_offset hdr start_item \<and> search_byte hdr start_item < search_limit hdr max_item div 2"
  proof (rule ccontr)
    assume no: "\<not> (2 < search_offset hdr start_item \<and> search_byte hdr start_item < search_limit hdr max_item div 2)"
    then consider "search_limit hdr max_item div 2 \<le> search_byte hdr start_item" | "search_offset hdr start_item \<le> 2"
      by linarith
    then show False
    proof cases
      case 1
      then show False using bug no_clean_item[OF assms(1)] by simp
    next
      case 2
      from clean_cases show False
        using bug no_clean_item[OF assms(1)] 2 clean_item_found(1)[OF assms(1) 2 assms(2,3)]
          clean_item_late(2)[OF assms(1) 2 assms(2,3)] by (metis Inl_not_Inr linorder_not_less)
    qed
  qed
qed

theorem set_first_clean_item_unaligned_start_witness:
  "SET_FIRST_CLEAN_ITEM_IN_FRAGMENT (put16 (replicate 32 0) 18 40) (replicate 8 0) 3 15 4096
     SSDFS_SEG_RESERVED = Inl Bug"
proof -
  let ?hdr = "put16 (replicate 32 0) 18 40"
  have fs: "get64 ?hdr 8 = 0" and fb: "get16 ?hdr 18 = 40"
    by (simp_all add: buf_simps) (simp add: get64_def bytes_at_def numeral_eq_Suc)
  show ?thesis
    by (rule set_first_clean_item_unaligned_start[THEN iffD2])
      (simp_all add: const_defs search_ready_def search_offset_def search_byte_def search_limit_def fs fb)
qed

text \<open>
  A volume with fewer than 15 segments has no allocatable segment: the rounded end of the
  search is 0, so \<^verbatim>\<open>SET_FIRST_CLEAN_ITEM_IN_FRAGMENT\<close> from segment 0 returns \<^verbatim>\<open>-ENODATA\<close> for every
  content of the first fragment, an all-clean one too.
\<close>

theorem set_first_clean_item_small_volume:
  assumes "search_ready hdr fragment 0 max_item page_size" and "max_item < 15"
  shows "SET_FIRST_CLEAN_ITEM_IN_FRAGMENT hdr fragment 0 max_item page_size state =
           Inr (Some ENODATA, U64_MAX, fragment)"
proof -
  have "(unat max_item + 1) div 16 = 0" using assms(2) by (simp add: word_less_nat_alt)
  then have "search_limit hdr max_item = 0" by (simp add: search_limit_def)
  then show ?thesis
    unfolding search_unfold[OF assms(1)]
    by (subst set_first_clean_loop.simps) (simp add: finish_clean_search_def)
qed

theorem set_first_clean_item_small_volume_witness:
  "SET_FIRST_CLEAN_ITEM_IN_FRAGMENT (put16 (replicate 32 0) 18 39) (replicate 7 0) 0 14 4096
     SSDFS_SEG_RESERVED = Inr (Some ENODATA, U64_MAX, replicate 7 0)"
proof -
  let ?hdr = "put16 (replicate 32 0) 18 39"
  have fs: "get64 ?hdr 8 = 0" and fb: "get16 ?hdr 18 = 39"
    by (simp_all add: buf_simps) (simp add: get64_def bytes_at_def numeral_eq_Suc)
  show ?thesis
    by (rule set_first_clean_item_small_volume) (simp_all add: search_ready_def fs fb)
qed

text \<open>
  The number of fragments \<^verbatim>\<open>SEG_BMAP_FRAGMENTS\<close> reserves is enough for the segments of the
  volume, as long as the headers of the pages of the bare bitmap fit into one more page.
\<close>

theorem seg_bmap_fragments_sufficient:
  fixes page_size :: u32 and items_count :: u64
  defines "B \<equiv> (unat items_count + 1) div 2"
  defines "P \<equiv> (B + unat page_size - 1) div unat page_size"
  assumes "32 < unat page_size" and "unat page_size < 2 ^ 31"
    and "B + 32 * P + unat page_size < 2 ^ 32"
    and "32 * P + 32 \<le> unat page_size" and "P < 65534"
  shows "\<exists>f i. SEG_BMAP_FRAGMENTS items_count page_size = Inr f \<and>
           ssdfs_segbmap_items_per_fragment (ucast page_size) = Inr i \<and>
           unat items_count \<le> unat f * unat i"
proof -
  let ?ps = "unat page_size"
  let ?F = "(B + 32 * P + ?ps - 1) div ?ps"
  have pos: "0 < ?ps" using assms(3) by simp
  have BP: "B \<le> P * ?ps" using ceil_div_mult_ge[OF pos, of B] by (simp add: P_def)
  have F: "?F \<le> P + 1"
    using ceil_div_le_iff[OF pos, of "B + 32 * P" "P + 1"] BP assms(6) by simp
  have F2: "B + 32 * P \<le> ?F * ?ps" using ceil_div_mult_ge[OF pos, of "B + 32 * P"] .
  obtain f where f: "SEG_BMAP_FRAGMENTS items_count page_size = Inr f" "unat f = ?F"
    using SEG_BMAP_FRAGMENTS_ok[of page_size items_count] pos assms(5,7) F
    by (auto simp: B_def P_def)
  obtain i where i: "ssdfs_segbmap_items_per_fragment (ucast page_size) = Inr i" "unat i = 2 * (?ps - 32)"
    using segbmap_items_per_fragment_ok[of "ucast page_size"] assms(3,4)
    by (auto simp: word_less_nat_alt unat_ucast_up)
  have "B \<le> ?F * (?ps - 32)"
  proof (cases "?F \<le> P")
    case True
    then have "?F * (?ps - 32) + 32 * P \<ge> ?F * ?ps" using assms(3) by (simp add: diff_mult_distrib2)
    with F2 show ?thesis by linarith
  next
    case False
    then have "?F = P + 1" using F by simp
    then have "?F * (?ps - 32) = P * ?ps + ?ps - (32 * P + 32)"
      by (simp add: diff_mult_distrib2 algebra_simps)
    with BP assms(6) show ?thesis by linarith
  qed
  then have "2 * B \<le> unat f * unat i" using f i by (simp add: mult.assoc mult.left_commute[of 2])
  moreover have "unat items_count \<le> 2 * B" unfolding B_def by simp
  ultimately show ?thesis using f i by auto
qed

theorem seg_bmap_fragments_sufficient_witness:
  "\<exists>f i. SEG_BMAP_FRAGMENTS 100000 4096 = Inr f \<and>
     ssdfs_segbmap_items_per_fragment (ucast (4096 :: u32)) = Inr i \<and> 100000 \<le> unat f * unat i"
  using seg_bmap_fragments_sufficient[of 4096 100000] by simp

text \<open>
  Beyond that bound the computation is one fragment short: with pages of 4096 bytes a volume
  of 1048576 segments gets 129 fragments, which hold the states of 1048512 segments only.
\<close>

theorem seg_bmap_fragments_short:
  "SEG_BMAP_FRAGMENTS 1048576 4096 = Inr 129 \<and>
   ssdfs_segbmap_items_per_fragment 4096 = Inr 8128 \<and>
   unat (129 :: u16) * unat (8128 :: u32) < 1048576"
  by (simp add: SEG_BMAP_FRAGMENTS_def SEG_BMAP_BYTES_def ssdfs_segbmap_items_per_fragment_def
      seg.items_per_byte Let_def ucast_max)

end
