(* ===== verification/SsdfsCommon.thy ===== *)
theory SsdfsCommon
  imports ByteBuf
begin

text \<open>
  \<^verbatim>\<open>lib/ssdfs_common.c\<close>, with the records and inline functions of \<^verbatim>\<open>include/ssdfs_tools.h\<close> it
  works on: metadata checksums, complete reads and writes over POSIX \<^verbatim>\<open>pread\<close> and \<^verbatim>\<open>pwrite\<close>,
  detection of the device type, the raw buffers of the dump tool, and the search for a valid
  segment header.

  Code outside the repository is a parameter: \<open>crc\<close> is zlib's \<^verbatim>\<open>crc32(0, data, len)\<close>, a list of
  \<open>sys_io\<close> gives the outcomes of successive system calls, \<open>alloc\<close> says which allocations
  succeed, \<open>fresh\<close> is what memory from \<^verbatim>\<open>realloc\<close> holds, and \<open>dev_read\<close> is the \<^verbatim>\<open>read\<close> method of the
  device. The error codes the code takes from \<^verbatim>\<open>errno\<close> are kept as \<open>EIO\<close> or \<open>ENOMEM\<close>.
\<close>

section \<open>Checksums\<close>

text \<open>\<^verbatim>\<open>struct ssdfs_metadata_check\<close>: \<^verbatim>\<open>bytes\<close> at 0, \<^verbatim>\<open>flags\<close> at 2, \<^verbatim>\<open>csum\<close> at 4.\<close>

abbreviation (input) SSDFS_CRC32 :: u16 where "SSDFS_CRC32 \<equiv> 1"

definition ssdfs_crc32_le :: "(buf \<Rightarrow> u32) \<Rightarrow> buf \<Rightarrow> nat \<Rightarrow> nat \<Rightarrow> u32 res" where
  "ssdfs_crc32_le crc mem data len = bnd (rd mem data len) (\<lambda>d. Inr (NOT (crc d)))"

text \<open>
  \<open>check\<close> and \<open>data\<close> are offsets into the same memory \<open>mem\<close>: in every use the checksum is a
  field of the structure it covers, so storing it changes the data.
\<close>

definition ssdfs_calculate_csum :: "(buf \<Rightarrow> u32) \<Rightarrow> buf \<Rightarrow> nat \<Rightarrow> nat \<Rightarrow> u64 \<Rightarrow> buf res" where
  "ssdfs_calculate_csum crc mem check data buf_size =
     bnd (rd16 mem check) (\<lambda>bytes.
     bnd (rd16 mem (check + 2)) (\<lambda>flags.
     bnd (fail_if (ucast bytes > buf_size) EINVAL) (\<lambda>_.
     if flags AND SSDFS_CRC32 \<noteq> 0 then
       bnd (wr32 mem (check + 4) 0) (\<lambda>mem'.
       bnd (ssdfs_crc32_le crc mem' data (unat bytes)) (\<lambda>csum.
       wr32 mem' (check + 4) csum))
     else Inl (Errno EINVAL))))"

definition is_csum_valid :: "(buf \<Rightarrow> u32) \<Rightarrow> buf \<Rightarrow> nat \<Rightarrow> nat \<Rightarrow> u64 \<Rightarrow> (bool \<times> buf) res" where
  "is_csum_valid crc mem check data buf_size =
     bnd (rd32 mem (check + 4)) (\<lambda>old_csum.
     case ssdfs_calculate_csum crc mem check data buf_size of
       Inl (Errno e) \<Rightarrow> Inr (False, mem)
     | Inl f \<Rightarrow> Inl f
     | Inr mem' \<Rightarrow>
         bnd (rd32 mem' (check + 4)) (\<lambda>calc_csum.
         bnd (wr32 mem' (check + 4) old_csum) (\<lambda>mem''.
         Inr (old_csum = calc_csum, mem''))))"

section \<open>Time\<close>

definition ssdfs_current_time_in_nanoseconds :: "u64 \<Rightarrow> u64" where
  "ssdfs_current_time_in_nanoseconds ctime = ctime * 1000000000"

definition ssdfs_nanoseconds_to_time :: "u64 \<Rightarrow> u64" where
  "ssdfs_nanoseconds_to_time nanoseconds = nanoseconds div 1000000000"

section \<open>Complete reads and writes\<close>

text \<open>
  The outcome of one system call: it transfers at most \<open>n\<close> bytes, is interrupted by a signal,
  or fails. A call transfers no more than was asked for, and \<^verbatim>\<open>pread\<close> no more than the file
  holds behind the offset.
\<close>

datatype sys_io = Upto nat | Intr | Fail

definition file_write :: "buf \<Rightarrow> nat \<Rightarrow> buf \<Rightarrow> buf" where
  "file_write file off d =
     (if d = [] then file else overwrite (file @ replicate (off + length d - length file) 0) off d)"

text \<open>
  The loops run once for each outcome of the list. \<open>None\<close>: the outcomes are used up and the
  function has not returned.
\<close>

fun ssdfs_pwrite :: "sys_io list \<Rightarrow> buf \<Rightarrow> u64 \<Rightarrow> buf \<Rightarrow> buf res option" where
  "ssdfs_pwrite outs file offset data =
     (if data = [] then Some (Inr file)
      else case outs of
        [] \<Rightarrow> None
      | Intr # outs' \<Rightarrow> ssdfs_pwrite outs' file offset data
      | Fail # outs' \<Rightarrow> Some (Inl (Errno EIO))
      | Upto n # outs' \<Rightarrow>
          let ret = min n (length data) in
          ssdfs_pwrite outs' (file_write file (unat offset) (take ret data))
            (offset + of_nat ret) (drop ret data))"

fun ssdfs_pread :: "sys_io list \<Rightarrow> buf \<Rightarrow> u64 \<Rightarrow> nat \<Rightarrow> buf res option" where
  "ssdfs_pread outs file offset rest =
     (if rest = 0 then Some (Inr [])
      else case outs of
        [] \<Rightarrow> None
      | Intr # outs' \<Rightarrow> ssdfs_pread outs' file offset rest
      | Fail # outs' \<Rightarrow> Some (Inl (Errno EIO))
      | Upto n # outs' \<Rightarrow>
          let ret = min n (min rest (length file - unat offset)) in
          map_option (map_sum id (append (bytes_at file (unat offset) ret)))
            (ssdfs_pread outs' file (offset + of_nat ret) (rest - ret)))"

declare ssdfs_pwrite.simps [simp del] ssdfs_pread.simps [simp del]

section \<open>The device\<close>

datatype file_type = S_IFSOCK | S_IFLNK | S_IFDIR | S_IFIFO | S_IFCHR | S_IFREG | S_IFBLK | S_IFOTHER

datatype dev_ops = no_ops | mtd_ops | bdev_ops | zns_ops
datatype device_type = SSDFS_MTD_DEVICE | SSDFS_BLK_DEVICE | SSDFS_ZNS_DEVICE | SSDFS_DEVICE_TYPE_MAX

record ssdfs_environment =
  fs_size :: u64
  erase_size :: u32
  open_zones :: u32
  env_page_size :: u32
  env_device_type :: device_type
  env_fd :: int
  env_dev_ops :: dev_ops

record mtd_info_user =
  erasesize :: u32
  writesize :: u32
  mtd_size :: u32

text \<open>
  What the operating system answers: \<^verbatim>\<open>open\<close>, \<^verbatim>\<open>fstat\<close> (the file type, major device number and
  size), the \<^verbatim>\<open>ioctl\<close> requests \<^verbatim>\<open>MEMGETINFO\<close>, \<^verbatim>\<open>BLKGETSIZE64\<close> and \<^verbatim>\<open>BLKGETZONESZ\<close>. \<open>None\<close> is a failed call.
\<close>

record probe =
  p_open :: "int option"
  p_stat :: "(file_type \<times> u32 \<times> u64) option"
  p_memgetinfo :: "mtd_info_user option"
  p_blkgetsize64 :: "u64 option"
  p_blkgetzonesz :: "u32 option"

text \<open>\<^verbatim>\<open>is_zoned_device\<close> returns \<^verbatim>\<open>SSDFS_TRUE\<close>, \<^verbatim>\<open>SSDFS_FALSE\<close> or an error code; \<open>errnum\<close> is \<^verbatim>\<open>errno\<close>.\<close>

definition is_zoned_device :: "int \<Rightarrow> probe \<Rightarrow> int \<Rightarrow> int" where
  "is_zoned_device fd p errnum =
     (if fd < -1 then -22
      else case p_stat p of
        None \<Rightarrow> errnum
      | Some (ty, _, _) \<Rightarrow>
          (case ty of
             S_IFBLK \<Rightarrow>
               (case p_blkgetzonesz p of
                  None \<Rightarrow> 0
                | Some sectors_per_zone \<Rightarrow> if sectors_per_zone = 0 then 0 else 1)
           | _ \<Rightarrow> 0))"

text \<open>
  \<open>is_power_of_2_check\<close> is \<^verbatim>\<open>size != 1 << (ffs(size) - 1)\<close>; for 0 the shift count is negative,
  which C leaves undefined.
\<close>

fun ffs_from :: "u32 \<Rightarrow> nat \<Rightarrow> nat \<Rightarrow> nat" where
  "ffs_from w i 0 = 0"
| "ffs_from w i (Suc n) = (if bit w i then Suc i else ffs_from w (Suc i) n)"

definition ffs :: "u32 \<Rightarrow> nat" where "ffs w = ffs_from w 0 32"

definition check_power_of_2 :: "u32 \<Rightarrow> unit res" where
  "check_power_of_2 sz =
     (if sz = 0 then Inl Oob else fail_if (sz \<noteq> push_bit (ffs sz - 1) 1) EINVAL)"

abbreviation (input) SSDFS_MTD_MAJOR_DEV :: u32 where "SSDFS_MTD_MAJOR_DEV \<equiv> 90"

definition open_device :: "ssdfs_environment \<Rightarrow> probe \<Rightarrow> int \<Rightarrow> ssdfs_environment res" where
  "open_device env p errnum =
     (case p_open p of
        None \<Rightarrow> Inl (Errno EIO)
      | Some fd \<Rightarrow>
        let env = env\<lparr>env_fd := fd\<rparr> in
        (case p_stat p of
           None \<Rightarrow> Inl (Errno EIO)
         | Some (ty, maj, st_size) \<Rightarrow>
           (case ty of
              S_IFSOCK \<Rightarrow> Inl (Errno EOPNOTSUPP)
            | S_IFLNK \<Rightarrow> Inl (Errno EOPNOTSUPP)
            | S_IFDIR \<Rightarrow> Inl (Errno EOPNOTSUPP)
            | S_IFIFO \<Rightarrow> Inl (Errno EOPNOTSUPP)
            | S_IFCHR \<Rightarrow>
                bnd (fail_if (maj \<noteq> SSDFS_MTD_MAJOR_DEV) EOPNOTSUPP) (\<lambda>_.
                case p_memgetinfo p of
                  None \<Rightarrow> Inl (Errno EIO)
                | Some mtd \<Rightarrow>
                    let env = env\<lparr>erase_size := erasesize mtd\<rparr> in
                    bnd (check_power_of_2 (erasesize mtd)) (\<lambda>_.
                    bnd (check_power_of_2 (writesize mtd)) (\<lambda>_.
                    Inr (env\<lparr>fs_size := ucast (mtd_size mtd), env_dev_ops := mtd_ops,
                             env_device_type := SSDFS_MTD_DEVICE\<rparr>))))
            | S_IFREG \<Rightarrow>
                Inr (env\<lparr>fs_size := st_size, env_dev_ops := bdev_ops,
                         env_device_type := SSDFS_BLK_DEVICE\<rparr>)
            | S_IFBLK \<Rightarrow>
                (case p_blkgetsize64 p of
                   None \<Rightarrow> Inl (Errno EIO)
                 | Some dev_bytes \<Rightarrow>
                     let env = env\<lparr>fs_size := dev_bytes\<rparr> in
                     if is_zoned_device (env_fd env) p errnum \<noteq> 0 then
                       Inr (env\<lparr>env_dev_ops := zns_ops, env_device_type := SSDFS_ZNS_DEVICE\<rparr>)
                     else
                       Inr (env\<lparr>env_dev_ops := bdev_ops, env_device_type := SSDFS_BLK_DEVICE\<rparr>))
            | S_IFOTHER \<Rightarrow> Inl Bug)))"

section \<open>Raw buffers\<close>

record ssdfs_raw_buffer =
  rb_ptr :: "buf option"
  rb_size :: u32

definition empty_buffer :: ssdfs_raw_buffer where
  "empty_buffer = \<lparr>rb_ptr = None, rb_size = 0\<rparr>"

definition realloc :: "(nat \<Rightarrow> u8) \<Rightarrow> buf \<Rightarrow> nat \<Rightarrow> buf" where
  "realloc fresh old n = map (\<lambda>i. if i < length old then old ! i else fresh i) [0..<n]"

text \<open>The result is the error code and the buffer, which a failed allocation leaves without memory.\<close>

definition ssdfs_create_raw_buffer ::
  "bool \<Rightarrow> (nat \<Rightarrow> u8) \<Rightarrow> ssdfs_raw_buffer \<Rightarrow> u64 \<Rightarrow> (errno option \<times> ssdfs_raw_buffer) res" where
  "ssdfs_create_raw_buffer alloc_ok fresh rb buf_size =
     (case rb_ptr rb of
        None \<Rightarrow>
          (if buf_size = 0 then Inr (None, rb\<lparr>rb_ptr := None, rb_size := 0\<rparr>)
           else if alloc_ok then
             Inr (None, rb\<lparr>rb_ptr := Some (replicate (unat buf_size) 0), rb_size := ucast buf_size\<rparr>)
           else Inr (Some ENOMEM, rb))
      | Some old \<Rightarrow>
          (if buf_size = 0 then Inr (None, rb\<lparr>rb_ptr := None, rb_size := 0\<rparr>)
           else if ucast (rb_size rb) < buf_size then
             (if alloc_ok then
                let sz = ucast buf_size :: u32 in
                bnd (memset (realloc fresh old (unat buf_size)) 0 0 (unat sz)) (\<lambda>mem.
                Inr (None, rb\<lparr>rb_ptr := Some mem, rb_size := sz\<rparr>))
              else Inr (Some ENOMEM, rb\<lparr>rb_ptr := None\<rparr>))
           else Inr (None, rb)))"

definition ssdfs_destroy_raw_buffer :: "ssdfs_raw_buffer \<Rightarrow> ssdfs_raw_buffer" where
  "ssdfs_destroy_raw_buffer rb =
     (case rb_ptr rb of None \<Rightarrow> rb | Some _ \<Rightarrow> rb\<lparr>rb_ptr := None, rb_size := 0\<rparr>)"

text \<open>\<^verbatim>\<open>struct ssdfs_raw_content_iterator\<close> and its three operations of \<^verbatim>\<open>include/ssdfs_tools.h\<close>.\<close>

datatype content_state = CONTENT_UNKNOWN_STATE | CONTENT_ITERATOR_INITIALIZED | CONTENT_PROCESSED

record ssdfs_raw_content_iterator =
  it_state :: content_state
  it_portion_offset :: u32
  it_portion_size :: u32
  it_fragment_index :: int
  it_fragment_size :: u32
  it_item_offset :: u32
  it_item_size :: u32

definition SSDFS_CREATE_CONTENT_ITERATOR :: ssdfs_raw_content_iterator where
  "SSDFS_CREATE_CONTENT_ITERATOR =
     \<lparr>it_state = CONTENT_UNKNOWN_STATE, it_portion_offset = U32_MAX, it_portion_size = 0,
      it_fragment_index = -1, it_fragment_size = 0, it_item_offset = U32_MAX, it_item_size = 0\<rparr>"

definition SSDFS_INIT_CONTENT_ITERATOR ::
  "u32 \<Rightarrow> u32 \<Rightarrow> int \<Rightarrow> u32 \<Rightarrow> u32 \<Rightarrow> u32 \<Rightarrow> ssdfs_raw_content_iterator" where
  "SSDFS_INIT_CONTENT_ITERATOR p_off p_size f_index f_size i_off i_size =
     \<lparr>it_state = CONTENT_ITERATOR_INITIALIZED, it_portion_offset = p_off, it_portion_size = p_size,
      it_fragment_index = f_index, it_fragment_size = f_size, it_item_offset = i_off, it_item_size = i_size\<rparr>"

definition SSDFS_CONTENT_ITERATOR_INCREMENT ::
  "ssdfs_raw_content_iterator \<Rightarrow> errno option \<times> ssdfs_raw_content_iterator" where
  "SSDFS_CONTENT_ITERATOR_INCREMENT it =
     (case it_state it of
        CONTENT_PROCESSED \<Rightarrow> (Some ENODATA, it)
      | CONTENT_UNKNOWN_STATE \<Rightarrow> (Some EINVAL, it)
      | CONTENT_ITERATOR_INITIALIZED \<Rightarrow>
          (if it_item_offset it + it_item_size it > it_fragment_size it then (Some ERANGE, it)
           else
             let it = it\<lparr>it_item_offset := it_item_offset it + it_item_size it\<rparr> in
             if it_item_offset it \<ge> it_fragment_size it
             then (Some ENODATA, it\<lparr>it_state := CONTENT_PROCESSED\<rparr>)
             else (None, it)))"

definition SSDFS_AREA2BUFFER_SIZE :: "int \<Rightarrow> u32" where
  "SSDFS_AREA2BUFFER_SIZE area_index = 4096"

text \<open>\<open>ar_metadata\<close> is the memory of the union \<^verbatim>\<open>content.metadata\<close>.\<close>

record ssdfs_raw_area =
  ar_offset :: u64
  ar_size :: u32
  ar_iter :: ssdfs_raw_content_iterator
  ar_metadata :: buf
  ar_uncompressed :: ssdfs_raw_buffer
  ar_delta :: ssdfs_raw_buffer

record ssdfs_raw_area_environment =
  ae_area :: ssdfs_raw_area
  ae_buffer :: ssdfs_raw_buffer

record ssdfs_raw_dump_environment =
  dump_peb_offset :: u64
  dump_seg_hdr :: ssdfs_raw_area_environment
  dump_desc :: "ssdfs_raw_area_environment list"
  dump_content :: ssdfs_raw_buffer

abbreviation (input) SSDFS_SEG_HDR_DESC_MAX :: nat where "SSDFS_SEG_HDR_DESC_MAX \<equiv> 9"
abbreviation (input) sizeof_segment_header :: "'a::len word" where "sizeof_segment_header \<equiv> 2048"

definition ssdfs_create_raw_area ::
  "(nat \<Rightarrow> u8) \<Rightarrow> ssdfs_raw_area \<Rightarrow> u64 \<Rightarrow> u32 \<Rightarrow> ssdfs_raw_area res" where
  "ssdfs_create_raw_area fresh area offset sz =
     (let area = area\<lparr>ar_offset := offset, ar_size := sz,
                      ar_iter := SSDFS_CREATE_CONTENT_ITERATOR,
                      ar_metadata := replicate (length (ar_metadata area)) 0\<rparr> in
      bnd (ssdfs_create_raw_buffer True fresh (ar_uncompressed area) 0) (\<lambda>(_, ubuf).
      bnd (ssdfs_create_raw_buffer True fresh (ar_delta area) 0) (\<lambda>(_, dbuf).
      Inr (area\<lparr>ar_uncompressed := ubuf, ar_delta := dbuf\<rparr>))))"

definition ssdfs_create_raw_area_environment ::
  "bool \<Rightarrow> (nat \<Rightarrow> u8) \<Rightarrow> ssdfs_raw_area_environment \<Rightarrow> u64 \<Rightarrow> u32 \<Rightarrow> u64 \<Rightarrow>
   (errno option \<times> ssdfs_raw_area_environment) res" where
  "ssdfs_create_raw_area_environment alloc_ok fresh env area_offset area_size raw_buffer_size =
     bnd (ssdfs_create_raw_area fresh (ae_area env) area_offset area_size) (\<lambda>area.
     bnd (ssdfs_create_raw_buffer alloc_ok fresh (ae_buffer env) raw_buffer_size) (\<lambda>(err, buffer).
     Inr (err, env\<lparr>ae_area := area, ae_buffer := buffer\<rparr>)))"

definition ssdfs_destroy_raw_area :: "ssdfs_raw_area \<Rightarrow> ssdfs_raw_area" where
  "ssdfs_destroy_raw_area area =
     area\<lparr>ar_uncompressed := ssdfs_destroy_raw_buffer (ar_uncompressed area),
          ar_delta := ssdfs_destroy_raw_buffer (ar_delta area),
          ar_iter := SSDFS_CREATE_CONTENT_ITERATOR\<rparr>"

definition ssdfs_destroy_raw_area_environment ::
  "ssdfs_raw_area_environment \<Rightarrow> ssdfs_raw_area_environment" where
  "ssdfs_destroy_raw_area_environment env =
     env\<lparr>ae_area := ssdfs_destroy_raw_area (ae_area env),
         ae_buffer := ssdfs_destroy_raw_buffer (ae_buffer env)\<rparr>"

text \<open>The value \<^verbatim>\<open>memset(..., 0, ...)\<close> gives a record; enumeration constant 0 is the unknown state.\<close>

definition zero_area_env :: "nat \<Rightarrow> ssdfs_raw_area_environment" where
  "zero_area_env meta_size =
     \<lparr>ae_area = \<lparr>ar_offset = 0, ar_size = 0,
        ar_iter = \<lparr>it_state = CONTENT_UNKNOWN_STATE, it_portion_offset = 0, it_portion_size = 0,
                   it_fragment_index = 0, it_fragment_size = 0, it_item_offset = 0, it_item_size = 0\<rparr>,
        ar_metadata = replicate meta_size 0,
        ar_uncompressed = empty_buffer, ar_delta = empty_buffer\<rparr>,
      ae_buffer = empty_buffer\<rparr>"

definition zero_dump_env :: "nat \<Rightarrow> ssdfs_raw_dump_environment" where
  "zero_dump_env meta_size =
     \<lparr>dump_peb_offset = 0, dump_seg_hdr = zero_area_env meta_size,
      dump_desc = replicate SSDFS_SEG_HDR_DESC_MAX (zero_area_env meta_size), dump_content = empty_buffer\<rparr>"

definition env_memory :: "ssdfs_raw_area_environment \<Rightarrow> buf list" where
  "env_memory env =
     concat (map (\<lambda>rb. case rb_ptr rb of None \<Rightarrow> [] | Some m \<Rightarrow> [m])
       [ar_uncompressed (ae_area env), ar_delta (ae_area env), ae_buffer env])"

text \<open>
  Destruction frees every buffer and then clears the structure. The second component is the
  memory that no pointer names any more although it was not freed.
\<close>

definition ssdfs_destroy_raw_dump_environment ::
  "nat \<Rightarrow> ssdfs_raw_dump_environment \<Rightarrow> ssdfs_raw_dump_environment \<times> buf list" where
  "ssdfs_destroy_raw_dump_environment meta_size env =
     (let hdr = ssdfs_destroy_raw_area_environment (dump_seg_hdr env);
          ds = map ssdfs_destroy_raw_area_environment (dump_desc env);
          c = ssdfs_destroy_raw_buffer (dump_content env)
      in (zero_dump_env meta_size,
          concat (map env_memory (hdr # ds)) @ (case rb_ptr c of None \<Rightarrow> [] | Some m \<Rightarrow> [m])))"

text \<open>\<open>alloc i\<close> is the outcome of the \<open>i\<close>-th allocation; the loop stops at the first failure.\<close>

fun create_descs ::
  "(nat \<Rightarrow> bool) \<Rightarrow> (nat \<Rightarrow> u8) \<Rightarrow> nat \<Rightarrow> nat \<Rightarrow> ssdfs_raw_area_environment list \<Rightarrow>
   (errno option \<times> ssdfs_raw_area_environment list) res" where
  "create_descs alloc fresh i 0 ds = Inr (None, ds)"
| "create_descs alloc fresh i (Suc n) ds =
     bnd (nth_chk ds i) (\<lambda>d.
     bnd (ssdfs_create_raw_area_environment (alloc (Suc i)) fresh d U64_MAX U32_MAX
            (ucast (SSDFS_AREA2BUFFER_SIZE (int i)))) (\<lambda>(err, d').
     let ds' = ds[i := d'] in
     (case err of
        Some e \<Rightarrow> Inr (Some e, ds')
      | None \<Rightarrow> create_descs alloc fresh (Suc i) n ds')))"

definition ssdfs_create_raw_dump_environment ::
  "(nat \<Rightarrow> bool) \<Rightarrow> (nat \<Rightarrow> u8) \<Rightarrow> nat \<Rightarrow>
   (errno option \<times> ssdfs_raw_dump_environment \<times> buf list) res" where
  "ssdfs_create_raw_dump_environment alloc fresh meta_size =
     (let env = (zero_dump_env meta_size)\<lparr>dump_peb_offset := U64_MAX\<rparr>;
          free_buffers = (\<lambda>e env. case ssdfs_destroy_raw_dump_environment meta_size env of
                            (env', leak) \<Rightarrow> Inr (Some e, env', leak)) in
      bnd (ssdfs_create_raw_area_environment (alloc 0) fresh (dump_seg_hdr env) 0
             sizeof_segment_header 4096) (\<lambda>(err, hdr).
      let env = env\<lparr>dump_seg_hdr := hdr\<rparr> in
      (case err of
         Some e \<Rightarrow> free_buffers e env
       | None \<Rightarrow>
           bnd (create_descs alloc fresh 0 SSDFS_SEG_HDR_DESC_MAX (dump_desc env)) (\<lambda>(err, ds).
           let env = env\<lparr>dump_desc := ds\<rparr> in
           (case err of
              Some e \<Rightarrow> free_buffers e env
            | None \<Rightarrow>
                bnd (ssdfs_create_raw_buffer True fresh (dump_content env) 0) (\<lambda>(_, c).
                Inr (None, env\<lparr>dump_content := c\<rparr>, [])))))))"

section \<open>Reading the areas of a log\<close>

abbreviation (input) SSDFS_RESERVED_VBR_SIZE :: u64 where "SSDFS_RESERVED_VBR_SIZE \<equiv> 1024"
abbreviation (input) SSDFS_INITIAL_SNAPSHOT_SEG :: u64 where "SSDFS_INITIAL_SNAPSHOT_SEG \<equiv> 0"
abbreviation (input) SSDFS_SUPER_MAGIC :: u32 where "SSDFS_SUPER_MAGIC \<equiv> 0x53734466"
abbreviation (input) SSDFS_SEGMENT_HDR_MAGIC :: u16 where "SSDFS_SEGMENT_HDR_MAGIC \<equiv> 0x5348"

type_synonym dev_read = "u64 \<Rightarrow> u64 \<Rightarrow> buf res"

definition ssdfs_read_area_content :: "dev_read \<Rightarrow> u64 \<Rightarrow> u32 \<Rightarrow> u32 \<Rightarrow> u32 \<Rightarrow> buf res" where
  "ssdfs_read_area_content dev_rd peb_id peb_size area_offset sz =
     dev_rd (peb_id * ucast peb_size + ucast area_offset) (ucast sz)"

definition ssdfs_read_blk_desc_array :: "dev_read \<Rightarrow> u64 \<Rightarrow> u32 \<Rightarrow> u32 \<Rightarrow> u32 \<Rightarrow> buf res" where
  "ssdfs_read_blk_desc_array = ssdfs_read_area_content"

definition ssdfs_read_blk2off_table :: "dev_read \<Rightarrow> u64 \<Rightarrow> u32 \<Rightarrow> u32 \<Rightarrow> u32 \<Rightarrow> buf res" where
  "ssdfs_read_blk2off_table = ssdfs_read_area_content"

definition ssdfs_read_block_bitmap :: "dev_read \<Rightarrow> u64 \<Rightarrow> u32 \<Rightarrow> u32 \<Rightarrow> u32 \<Rightarrow> buf res" where
  "ssdfs_read_block_bitmap = ssdfs_read_area_content"

definition ssdfs_read_mapping_table_cache :: "dev_read \<Rightarrow> u64 \<Rightarrow> u32 \<Rightarrow> u32 \<Rightarrow> u32 \<Rightarrow> buf res" where
  "ssdfs_read_mapping_table_cache = ssdfs_read_area_content"

definition ssdfs_read_log_footer :: "dev_read \<Rightarrow> u64 \<Rightarrow> u32 \<Rightarrow> u32 \<Rightarrow> u32 \<Rightarrow> buf res" where
  "ssdfs_read_log_footer dev_rd peb_id peb_size area_offset sz =
     dev_rd (peb_id * ucast peb_size + ucast area_offset) (ucast sz)"

definition ssdfs_read_partial_log_footer :: "dev_read \<Rightarrow> u64 \<Rightarrow> u32 \<Rightarrow> u32 \<Rightarrow> u32 \<Rightarrow> buf res" where
  "ssdfs_read_partial_log_footer dev_rd peb_id peb_size area_offset sz =
     dev_rd (peb_id * ucast peb_size + ucast area_offset) (ucast sz)"

definition ssdfs_read_segment_header :: "dev_read \<Rightarrow> u64 \<Rightarrow> u32 \<Rightarrow> u32 \<Rightarrow> u32 \<Rightarrow> buf res" where
  "ssdfs_read_segment_header dev_rd peb_id peb_size log_offset sz =
     (let sg_size = max sizeof_segment_header 2048;
          offset = (if peb_id = SSDFS_INITIAL_SNAPSHOT_SEG then
                      (if log_offset = 0 then SSDFS_RESERVED_VBR_SIZE else ucast log_offset)
                    else peb_id * ucast peb_size + ucast log_offset)
      in dev_rd offset sg_size)"

definition ssdfs_read_partial_log_header :: "dev_read \<Rightarrow> u64 \<Rightarrow> u32 \<Rightarrow> u32 \<Rightarrow> u32 \<Rightarrow> buf res" where
  "ssdfs_read_partial_log_header dev_rd peb_id peb_size log_offset sz =
     dev_rd (peb_id * ucast peb_size + ucast log_offset) (ucast sz)"

text \<open>
  The search for a segment header. One unit of fuel for each turn of the \<^verbatim>\<open>do\<close> loop; \<open>None\<close>
  means that the fuel is used up. The magic is at 0 and 4 of the header, the check at 8.
\<close>

definition seg_hdr_valid :: "(buf \<Rightarrow> u32) \<Rightarrow> buf \<Rightarrow> (bool \<times> buf) res" where
  "seg_hdr_valid crc hdr =
     bnd (rd32 hdr 0) (\<lambda>common.
     bnd (rd16 hdr 4) (\<lambda>key.
     if common = SSDFS_SUPER_MAGIC \<and> key = SSDFS_SEGMENT_HDR_MAGIC
     then is_csum_valid crc hdr 8 0 sizeof_segment_header
     else Inr (False, hdr)))"

fun find_peb_loop ::
  "nat \<Rightarrow> (buf \<Rightarrow> u32) \<Rightarrow> dev_read \<Rightarrow> ssdfs_environment \<Rightarrow> u64 \<Rightarrow> u64 \<Rightarrow> buf res option" where
  "find_peb_loop 0 crc dev_rd env offset factor = None"
| "find_peb_loop (Suc fuel) crc dev_rd env offset factor =
     (case bnd (div_chk offset (ucast (erase_size env))) (\<lambda>peb_id.
           bnd (ssdfs_read_segment_header dev_rd peb_id (erase_size env) 0 (erase_size env))
             (seg_hdr_valid crc)) of
        Inl f \<Rightarrow> Some (Inl f)
      | Inr (True, hdr) \<Rightarrow> Some (Inr hdr)
      | Inr (False, hdr) \<Rightarrow>
          let factor' = (if offset = SSDFS_RESERVED_VBR_SIZE then factor else push_bit 1 factor);
              offset' = (if offset = SSDFS_RESERVED_VBR_SIZE then ucast (erase_size env)
                         else offset + factor' * ucast (erase_size env)) in
          if offset' < fs_size env
          then find_peb_loop fuel crc dev_rd env offset' factor'
          else Some (Inl (Errno ENODATA)))"

definition ssdfs_find_any_valid_peb ::
  "nat \<Rightarrow> (buf \<Rightarrow> u32) \<Rightarrow> dev_read \<Rightarrow> ssdfs_environment \<Rightarrow> buf res option" where
  "ssdfs_find_any_valid_peb fuel crc dev_rd env =
     find_peb_loop fuel crc dev_rd env SSDFS_RESERVED_VBR_SIZE 1"

section \<open>Checksums: lemmas\<close>

definition csum_of :: "(buf \<Rightarrow> u32) \<Rightarrow> buf \<Rightarrow> nat \<Rightarrow> nat \<Rightarrow> u32" where
  "csum_of crc mem check data =
     NOT (crc (bytes_at (put32 mem (check + 4) 0) data (unat (get16 mem check))))"

text \<open>When the two functions can compute a checksum at all.\<close>

definition check_ready :: "buf \<Rightarrow> nat \<Rightarrow> nat \<Rightarrow> u64 \<Rightarrow> bool" where
  "check_ready mem check data buf_size \<longleftrightarrow>
     check + 8 \<le> length mem \<and> data + unat (get16 mem check) \<le> length mem \<and>
     ucast (get16 mem check) \<le> buf_size \<and> get16 mem (check + 2) AND SSDFS_CRC32 \<noteq> 0"

lemma calculate_csum_ok:
  "check_ready mem check data n \<Longrightarrow>
     ssdfs_calculate_csum crc mem check data n =
       Inr (put32 mem (check + 4) (csum_of crc mem check data))"
  by (simp add: ssdfs_calculate_csum_def ssdfs_crc32_le_def check_ready_def csum_of_def
      not_less[symmetric])

lemma csum_put:
  assumes "check + 8 \<le> length mem"
  shows "csum_of crc (put32 mem (check + 4) v) check data = csum_of crc mem check data"
    and "check_ready (put32 mem (check + 4) v) check data n = check_ready mem check data n"
  using assms by (simp_all add: csum_of_def check_ready_def buf_simps)

lemma is_csum_valid_ok:
  assumes "check_ready mem check data n"
  shows "is_csum_valid crc mem check data n =
           Inr (get32 mem (check + 4) = csum_of crc mem check data, mem)"
  using assms calculate_csum_ok[OF assms, of crc]
  by (auto simp: is_csum_valid_def check_ready_def buf_simps)

lemma calculate_csum_refused:
  assumes "check + 8 \<le> length mem"
    and "\<not> ucast (get16 mem check) \<le> buf_size \<or> get16 mem (check + 2) AND SSDFS_CRC32 = 0"
  shows "ssdfs_calculate_csum crc mem check data buf_size = Inl (Errno EINVAL)"
  using assms by (simp add: ssdfs_calculate_csum_def fail_if_def)

text \<open>
  C9. \<^verbatim>\<open>ssdfs_calculate_csum\<close> followed by \<^verbatim>\<open>is_csum_valid\<close>: for a structure that holds its own
  check with the CRC32 flag and a length inside the buffer, the checksum is stored, the stored
  structure is valid, and only the four bytes of the checksum have changed.
\<close>

theorem csum_roundtrip:
  assumes "check_ready mem check data buf_size"
  shows "\<exists>mem'. ssdfs_calculate_csum crc mem check data buf_size = Inr mem' \<and>
           is_csum_valid crc mem' check data buf_size = Inr (True, mem') \<and>
           length mem' = length mem \<and> bytes_at mem' 0 (check + 4) = bytes_at mem 0 (check + 4) \<and>
           drop (check + 8) mem' = drop (check + 8) mem"
proof -
  have len: "check + 8 \<le> length mem" using assms by (simp add: check_ready_def)
  let ?mem = "put32 mem (check + 4) (csum_of crc mem check data)"
  have "is_csum_valid crc ?mem check data buf_size = Inr (True, ?mem)"
    using is_csum_valid_ok[of ?mem check data buf_size crc] csum_put[OF len] assms len by simp
  moreover have "drop (check + 8) ?mem = drop (check + 8) mem"
    using len by (simp add: put_defs overwrite_def add.commute)
  ultimately show ?thesis
    using calculate_csum_ok[OF assms, of crc] len by (auto simp: bytes_at_put_disj)
qed

theorem csum_roundtrip_witness:
  "\<exists>mem'. ssdfs_calculate_csum (\<lambda>d. of_nat (length d)) [16, 0, 1, 0, 9, 9, 9, 9, 1, 2, 3, 4, 5, 6, 7, 8] 0 0 16 =
       Inr mem' \<and>
     is_csum_valid (\<lambda>d. of_nat (length d)) mem' 0 0 16 = Inr (True, mem')"
proof -
  let ?mem = "[16, 0, 1, 0, 9, 9, 9, 9, 1, 2, 3, 4, 5, 6, 7, 8] :: buf"
  have "get16 ?mem 0 = 16" "get16 ?mem (0 + 2) = 1" by (simp_all add: get16_def bytes_at_def)
  then have "check_ready ?mem 0 0 16" by (simp add: check_ready_def)
  from csum_roundtrip[OF this, of "\<lambda>d. of_nat (length d)"] show ?thesis by blast
qed

text \<open>
  \<^verbatim>\<open>is_csum_valid\<close> leaves the memory as it found it although it stores a freshly calculated
  checksum on the way. It answers true exactly when the stored value is the complemented CRC
  of the covered bytes with the checksum field zeroed, and false when the check names no CRC32
  or more bytes than the buffer has.
\<close>

theorem is_csum_valid_exact:
  assumes "check + 8 \<le> length mem" and "data + unat (get16 mem check) \<le> length mem"
  shows "is_csum_valid crc mem check data buf_size =
     Inr (ucast (get16 mem check) \<le> buf_size \<and> get16 mem (check + 2) AND SSDFS_CRC32 \<noteq> 0 \<and>
          get32 mem (check + 4) = csum_of crc mem check data, mem)"
proof (cases "check_ready mem check data buf_size")
  case True
  then show ?thesis using is_csum_valid_ok[OF True] by (simp add: check_ready_def)
next
  case False
  with assms have r: "\<not> ucast (get16 mem check) \<le> buf_size \<or> get16 mem (check + 2) AND SSDFS_CRC32 = 0"
    by (auto simp: check_ready_def)
  then show ?thesis
    using assms calculate_csum_refused[OF assms(1) r] by (auto simp: is_csum_valid_def)
qed

theorem is_csum_valid_exact_witness:
  "is_csum_valid (\<lambda>d. 0) [8, 0, 1, 0, 9, 9, 9, 9] 0 0 8 = Inr (False, [8, 0, 1, 0, 9, 9, 9, 9])"
proof -
  let ?mem = "[8, 0, 1, 0, 9, 9, 9, 9] :: buf"
  have g: "get16 ?mem 0 = 8" "get16 ?mem 2 = 1" "get32 ?mem 4 = 0x09090909"
    by (simp_all add: get16_def get32_def bytes_at_def)
  show ?thesis
    using is_csum_valid_exact[of 0 ?mem 0 "\<lambda>d. 0" 8] by (simp add: g csum_of_def)
qed

section \<open>Complete reads and writes: lemmas\<close>

fun progress :: "sys_io \<Rightarrow> bool" where
  "progress (Upto n) = (0 < n)"
| "progress _ = False"

lemma length_file_write:
  "d \<noteq> [] \<Longrightarrow> length (file_write file off d) = max (length file) (off + length d)"
  by (auto simp: file_write_def max_def)

lemma nth_file_write:
  assumes "d \<noteq> []" "i < max (length file) (off + length d)"
  shows "file_write file off d ! i =
    (if off \<le> i \<and> i < off + length d then d ! (i - off) else if i < length file then file ! i else 0)"
  using assms by (auto simp: file_write_def nth_overwrite nth_append max_def split: if_splits)

lemma bytes_at_file_write:
  "bytes_at (file_write f off d) off (length d) = d"
  by (cases "d = []") (simp_all add: file_write_def bytes_at_def overwrite_def)

lemma bytes_at_file_write_other:
  assumes "o' + n \<le> off \<or> off + length d \<le> o'" "o' + n \<le> length f"
  shows "bytes_at (file_write f off d) o' n = bytes_at f o' n"
proof (cases "d = []")
  case False
  show ?thesis
    by (rule nth_equalityI) (use assms False in \<open>auto simp: length_file_write nth_bytes_at nth_file_write\<close>)
qed (simp add: file_write_def)

lemma file_write_split:
  assumes "r \<le> length d"
  shows "file_write (file_write file off (take r d)) (off + r) (drop r d) = file_write file off d"
proof (cases "r = 0 \<or> r = length d")
  case True
  then show ?thesis by (auto simp: file_write_def)
next
  case False
  with assms have ne: "take r d \<noteq> []" "drop r d \<noteq> []" "d \<noteq> []" and r: "r < length d" by auto
  show ?thesis
    by (rule nth_equalityI)
      (use ne r in \<open>auto simp: length_file_write nth_file_write max_def split: if_splits\<close>)
qed

lemma ssdfs_pwrite_complete:
  "Fail \<notin> set outs \<Longrightarrow> length data \<le> length (filter progress outs) \<Longrightarrow>
     unat off + length data < 2 ^ 64 \<Longrightarrow>
     ssdfs_pwrite outs f off data = Some (Inr (file_write f (unat off) data))"
proof (induction outs arbitrary: f off data)
  case Nil
  then show ?case by (subst ssdfs_pwrite.simps) (simp add: file_write_def)
next
  case (Cons x outs)
  show ?case
  proof (cases "data = []")
    case True
    then show ?thesis by (subst ssdfs_pwrite.simps) (simp add: file_write_def)
  next
    case False
    show ?thesis
    proof (cases x)
      case (Upto n)
      let ?r = "min n (length data)"
      have u: "unat (off + of_nat ?r) = unat off + ?r"
        using Cons.prems(3) by (subst unat_add_nw) (simp_all add: unat_of_nat take_bit_nat_eq_self)
      have "ssdfs_pwrite outs (file_write f (unat off) (take ?r data)) (off + of_nat ?r)
              (drop ?r data) =
            Some (Inr (file_write (file_write f (unat off) (take ?r data))
              (unat (off + of_nat ?r)) (drop ?r data)))"
        by (rule Cons.IH) (use Cons.prems Upto False u in \<open>auto simp: min_def split: if_splits\<close>)
      then show ?thesis using Upto False
        by (subst ssdfs_pwrite.simps) (simp only: u file_write_split, simp)
    qed (use Cons False in \<open>subst ssdfs_pwrite.simps, simp\<close>)+
  qed
qed

lemma ssdfs_pread_complete:
  "Fail \<notin> set outs \<Longrightarrow> n \<le> length (filter progress outs) \<Longrightarrow>
     unat off + n \<le> length f \<Longrightarrow> unat off + n < 2 ^ 64 \<Longrightarrow>
     ssdfs_pread outs f off n = Some (Inr (bytes_at f (unat off) n))"
proof (induction outs arbitrary: off n)
  case Nil
  then show ?case by (subst ssdfs_pread.simps) (simp add: bytes_at_def)
next
  case (Cons x outs)
  show ?case
  proof (cases "n = 0")
    case True
    then show ?thesis by (subst ssdfs_pread.simps) (simp add: bytes_at_def)
  next
    case False
    show ?thesis
    proof (cases x)
      case (Upto k)
      let ?r = "min k (min n (length f - unat off))"
      have r: "?r = min k n" using Cons.prems(3) by simp
      have u: "unat (off + of_nat ?r) = unat off + ?r"
        using Cons.prems(4) by (subst unat_add_nw) (simp_all add: unat_of_nat take_bit_nat_eq_self)
      have "ssdfs_pread outs f (off + of_nat ?r) (n - ?r) =
            Some (Inr (bytes_at f (unat (off + of_nat ?r)) (n - ?r)))"
        by (rule Cons.IH) (use Cons.prems Upto False u r in \<open>auto simp: min_def split: if_splits\<close>)
      moreover have "bytes_at f (unat off) ?r @ bytes_at f (unat off + ?r) (n - ?r) =
          bytes_at f (unat off) n"
        unfolding r by (simp add: bytes_at_def add.commute[of "unat off"] min_def take_add[symmetric]
            flip: drop_drop)
      ultimately show ?thesis using Upto False
        by (subst ssdfs_pread.simps) (simp only: u Let_def, simp add: Let_def)
    qed (use Cons False in \<open>subst ssdfs_pread.simps, simp\<close>)+
  qed
qed

lemma ssdfs_pread_past_end:
  "Fail \<notin> set outs \<Longrightarrow> length f < unat off + n \<Longrightarrow> 0 < n \<Longrightarrow> unat off + n < 2 ^ 64 \<Longrightarrow>
     ssdfs_pread outs f off n = None"
proof (induction outs arbitrary: off n)
  case Nil
  then show ?case by (subst ssdfs_pread.simps) simp
next
  case (Cons x outs)
  show ?case
  proof (cases x)
    case (Upto k)
    let ?r = "min k (min n (length f - unat off))"
    have r: "?r < n" using Cons.prems by linarith
    have u: "unat (off + of_nat ?r) = unat off + ?r"
      using Cons.prems(4) by (subst unat_add_nw) (simp_all add: unat_of_nat take_bit_nat_eq_self)
    have "ssdfs_pread outs f (off + of_nat ?r) (n - ?r) = None"
      by (rule Cons.IH) (use Cons.prems Upto u r in auto)
    then show ?thesis using Upto Cons.prems(3)
      by (subst ssdfs_pread.simps) (simp add: Let_def)
  qed (use Cons in \<open>subst ssdfs_pread.simps, simp\<close>)+
qed

text \<open>
  C21. \<^verbatim>\<open>ssdfs_pwrite\<close> puts the whole buffer into the file at the offset and nothing else, however
  the kernel splits the transfer and however often it is interrupted: it returns success once
  enough calls have made progress, provided none failed.
\<close>

theorem ssdfs_pwrite_writes_all:
  assumes "Fail \<notin> set outs" and "length data \<le> length (filter progress outs)"
    and "unat offset + length data < 2 ^ 64"
  shows "ssdfs_pwrite outs file offset data = Some (Inr (file_write file (unat offset) data))"
  using assms by (rule ssdfs_pwrite_complete)

theorem ssdfs_pwrite_writes_all_witness:
  "ssdfs_pwrite [Upto 1, Intr, Upto 0, Upto 1, Upto 7] [9, 9, 9, 9, 9] 1 [1, 2, 3] =
     Some (Inr [9, 1, 2, 3, 9])"
  using ssdfs_pwrite_writes_all[of "[Upto 1, Intr, Upto 0, Upto 1, Upto 7]" "[1, 2, 3]" 1 "[9, 9, 9, 9, 9]"]
  by (simp add: file_write_def overwrite_def)

text \<open>
  C22. \<^verbatim>\<open>ssdfs_pread\<close> of a range inside the file returns exactly its bytes after enough calls made
  progress. Of a range that reaches behind the end of the file it never returns: every
  call transfers 0 bytes there, which the loop does not treat as an end.
\<close>

theorem ssdfs_pread_exact_or_stuck:
  assumes "Fail \<notin> set outs" and "0 < n" and "unat offset + n < 2 ^ 64"
  shows "(unat offset + n \<le> length file \<and> n \<le> length (filter progress outs) \<longrightarrow>
            ssdfs_pread outs file offset n = Some (Inr (bytes_at file (unat offset) n))) \<and>
         (length file < unat offset + n \<longrightarrow> ssdfs_pread outs file offset n = None)"
  using ssdfs_pread_complete[OF assms(1) _ _ assms(3)] ssdfs_pread_past_end[OF assms(1) _ assms(2,3)]
  by blast

theorem ssdfs_pread_exact_or_stuck_witness:
  "ssdfs_pread [Upto 1, Upto 5] [1, 2, 3] 1 2 = Some (Inr [2, 3]) \<and>
   ssdfs_pread [Upto 1, Upto 5, Upto 5] [1, 2, 3] 2 2 = None"
  using ssdfs_pread_exact_or_stuck[of "[Upto 1, Upto 5]" 2 1 "[1, 2, 3]"]
    ssdfs_pread_exact_or_stuck[of "[Upto 1, Upto 5, Upto 5]" 2 2 "[1, 2, 3]"]
  by (simp add: bytes_at_def)

section \<open>Searching a segment header: lemmas\<close>








text \<open>
  With an erase size of 1024, the size of the reserved boot record, the search never ends
  on a readable device that holds no valid header at that place: the next offset is again the
  one that marks the first probe.
\<close>

theorem find_any_valid_peb_stuck:
  assumes "erase_size env = 1024" and "1024 < fs_size env"
    and "dev_rd 1024 2048 = Inr h" and "seg_hdr_valid crc h = Inr (False, h')"
  shows "ssdfs_find_any_valid_peb fuel crc dev_rd env = None"
proof -
  have "find_peb_loop n crc dev_rd env 1024 1 = None" for n
  proof (induction n)
    case (Suc n)
    with assms show ?case by (simp add: ssdfs_read_segment_header_def)
  qed simp
  then show ?thesis by (simp add: ssdfs_find_any_valid_peb_def)
qed

theorem find_any_valid_peb_stuck_witness:
  "ssdfs_find_any_valid_peb 1000 (\<lambda>d. 0) (\<lambda>off n. Inr (replicate (unat n) 0))
     \<lparr>fs_size = 0x100000, erase_size = 1024, open_zones = 0, env_page_size = 4096,
      env_device_type = SSDFS_MTD_DEVICE, env_fd = 3, env_dev_ops = mtd_ops\<rparr> = None"
proof (rule find_any_valid_peb_stuck)
  have "get32 (replicate 2048 0) 0 = 0"
    by (simp add: get32_def bytes_at_def numeral_eq_Suc)
  then show "seg_hdr_valid (\<lambda>d. 0) (replicate 2048 0) = Inr (False, replicate 2048 0)"
    by (simp add: seg_hdr_valid_def)
qed simp_all

section \<open>Raw buffers\<close>

definition raw_buffer_ok :: "ssdfs_raw_buffer \<Rightarrow> bool" where
  "raw_buffer_ok rb \<longleftrightarrow>
     (case rb_ptr rb of None \<Rightarrow> rb_size rb = 0 | Some m \<Rightarrow> length m = unat (rb_size rb))"

lemma length_realloc [simp]: "length (realloc fresh old n) = n"
  by (simp add: realloc_def)

lemma create_raw_buffer_empty [simp]:
  "ssdfs_create_raw_buffer a fresh empty_buffer 0 = Inr (None, empty_buffer)"
  "ssdfs_create_raw_buffer True fresh empty_buffer 4096 =
     Inr (None, \<lparr>rb_ptr = Some (replicate 4096 0), rb_size = 4096\<rparr>)"
  "ssdfs_create_raw_buffer False fresh empty_buffer 4096 = Inr (Some ENOMEM, empty_buffer)"
  by (simp_all add: ssdfs_create_raw_buffer_def empty_buffer_def)

text \<open>
  \<^verbatim>\<open>ssdfs_create_raw_buffer\<close> keeps the size field equal to the size of the memory. When it
  succeeds for a size below 4 GiB other than 0, the buffer has at least that many bytes: the old
  content when it was large enough already, and zeroes otherwise. Size 0 frees the memory.
\<close>

theorem create_raw_buffer_contract:
  assumes "raw_buffer_ok rb" and "buf_size < 2 ^ 32"
    and "ssdfs_create_raw_buffer alloc_ok fresh rb buf_size = Inr (None, rb')"
  shows "raw_buffer_ok rb' \<and>
    (buf_size = 0 \<longrightarrow> rb_ptr rb' = None) \<and>
    (buf_size \<noteq> 0 \<longrightarrow>
       (if rb_ptr rb \<noteq> None \<and> buf_size \<le> ucast (rb_size rb) then rb' = rb
        else rb_ptr rb' = Some (replicate (unat buf_size) 0)))"
proof -
  have lt: "unat buf_size < 2 ^ 32" using assms(2) by (simp add: word_less_nat_alt)
  then have u: "unat (ucast buf_size :: u32) = unat buf_size" by (simp add: unat_ucast_small)
  then have "overwrite (realloc fresh m (unat buf_size)) 0 (replicate (unat (ucast buf_size :: u32)) 0) =
      replicate (unat buf_size) 0" for m
    by (simp add: overwrite_def)
  then show ?thesis
    using assms(1,3) u
    by (auto simp: ssdfs_create_raw_buffer_def raw_buffer_ok_def memset_def Let_def bnd_eq_Inr
        wr_eq_Inr not_less split: option.splits if_splits)
qed

theorem create_raw_buffer_contract_witness:
  "raw_buffer_ok \<lparr>rb_ptr = Some (replicate 8 0), rb_size = 8\<rparr>"
proof -
  let ?rb = "\<lparr>rb_ptr = Some [1, 2], rb_size = 2\<rparr>"
  have "ssdfs_create_raw_buffer True (\<lambda>i. 7) ?rb 8 =
      Inr (None, \<lparr>rb_ptr = Some (replicate 8 0), rb_size = 8\<rparr>)"
    by (simp add: ssdfs_create_raw_buffer_def memset_def overwrite_def)
  then show ?thesis
    using create_raw_buffer_contract[of ?rb 8 True "\<lambda>i. 7"] by (simp add: raw_buffer_ok_def)
qed

subsection \<open>The dump environment\<close>

definition fresh_area_env :: "nat \<Rightarrow> u64 \<Rightarrow> u32 \<Rightarrow> ssdfs_raw_buffer \<Rightarrow> ssdfs_raw_area_environment" where
  "fresh_area_env meta_size off sz rb =
     \<lparr>ae_area = \<lparr>ar_offset = off, ar_size = sz, ar_iter = SSDFS_CREATE_CONTENT_ITERATOR,
        ar_metadata = replicate meta_size 0, ar_uncompressed = empty_buffer, ar_delta = empty_buffer\<rparr>,
      ae_buffer = rb\<rparr>"

abbreviation (input) page_buffer :: ssdfs_raw_buffer where
  "page_buffer \<equiv> \<lparr>rb_ptr = Some (replicate 4096 0), rb_size = 4096\<rparr>"

lemma create_area_env_zero:
  "ssdfs_create_raw_area_environment ok fresh (zero_area_env m) off sz 4096 =
     Inr (if ok then None else Some ENOMEM,
          fresh_area_env m off sz (if ok then page_buffer else empty_buffer))"
  by (cases ok)
    (simp_all add: ssdfs_create_raw_area_environment_def ssdfs_create_raw_area_def zero_area_env_def
      fresh_area_env_def Let_def)

lemma create_descs_ok:
  assumes "i + n = length ds" and "\<forall>j. i \<le> j \<and> j < length ds \<longrightarrow> ds ! j = zero_area_env m"
    and "\<forall>j < i. ds ! j = fresh_area_env m U64_MAX U32_MAX page_buffer"
  shows "\<exists>err ds'. create_descs alloc fresh i n ds = Inr (err, ds') \<and> length ds' = length ds \<and>
           (err = None \<longleftrightarrow> (\<forall>j. i \<le> j \<and> j < length ds \<longrightarrow> alloc (Suc j))) \<and>
           (err = None \<longrightarrow> (\<forall>j < length ds. ds' ! j = fresh_area_env m U64_MAX U32_MAX page_buffer))"
  using assms
proof (induction n arbitrary: i ds)
  case 0
  then show ?case by auto
next
  case (Suc n)
  let ?d = "fresh_area_env m U64_MAX U32_MAX (if alloc (Suc i) then page_buffer else empty_buffer)"
  have i: "i < length ds" "ds ! i = zero_area_env m" using Suc.prems by auto
  show ?case
  proof (cases "alloc (Suc i)")
    case False
    with i show ?thesis by (auto simp: SSDFS_AREA2BUFFER_SIZE_def create_area_env_zero)
  next
    case True
    have "\<exists>err ds'. create_descs alloc fresh (Suc i) n (ds[i := ?d]) = Inr (err, ds') \<and>
        length ds' = length (ds[i := ?d]) \<and>
        (err = None \<longleftrightarrow> (\<forall>j. Suc i \<le> j \<and> j < length (ds[i := ?d]) \<longrightarrow> alloc (Suc j))) \<and>
        (err = None \<longrightarrow> (\<forall>j < length (ds[i := ?d]). ds' ! j = fresh_area_env m U64_MAX U32_MAX page_buffer))"
      by (rule Suc.IH) (use Suc.prems True i in \<open>auto simp: nth_list_update\<close>)
    moreover have "(\<forall>j. Suc i \<le> j \<and> j < length ds \<longrightarrow> alloc (Suc j)) \<longleftrightarrow>
        (\<forall>j. i \<le> j \<and> j < length ds \<longrightarrow> alloc (Suc j))"
      using True by (metis Suc_leD le_antisym not_less_eq_eq)
    ultimately show ?thesis
      using True i by (simp add: SSDFS_AREA2BUFFER_SIZE_def create_area_env_zero)
  qed
qed

lemma env_memory_destroyed [simp]: "env_memory (ssdfs_destroy_raw_area_environment env) = []"
  by (auto simp: env_memory_def ssdfs_destroy_raw_area_environment_def ssdfs_destroy_raw_area_def
      ssdfs_destroy_raw_buffer_def split: option.splits)

lemma destroy_dump_env [simp]:
  "ssdfs_destroy_raw_dump_environment m env = (zero_dump_env m, [])"
proof -
  have "concat (map env_memory (map ssdfs_destroy_raw_area_environment xs)) = []" for xs
    by (induction xs) simp_all
  moreover have "rb_ptr (ssdfs_destroy_raw_buffer rb) = None" for rb
    by (simp add: ssdfs_destroy_raw_buffer_def split: option.split)
  ultimately show ?thesis by (simp add: ssdfs_destroy_raw_dump_environment_def Let_def del: map_map)
qed

text \<open>
  C38. \<^verbatim>\<open>ssdfs_create_raw_dump_environment\<close> needs ten allocations. If all succeed, the segment
  header and each of the nine area descriptors get a zeroed page. If one fails, everything
  allocated so far is freed and the structure is cleared. No memory is lost in either case.
\<close>

theorem create_raw_dump_environment_no_leak:
  "\<exists>err env. ssdfs_create_raw_dump_environment alloc fresh m = Inr (err, env, []) \<and>
     (err = None \<longleftrightarrow> list_all alloc [0..<10]) \<and>
     (if err = None
      then rb_ptr (ae_buffer (dump_seg_hdr env)) = Some (replicate 4096 0) \<and> length (dump_desc env) = 9 \<and>
           list_all (\<lambda>d. rb_ptr (ae_buffer d) = Some (replicate 4096 0)) (dump_desc env)
      else env = zero_dump_env m)"
proof -
  let ?ds = "replicate 9 (zero_area_env m)"
  obtain err ds where c: "create_descs alloc fresh 0 9 ?ds = Inr (err, ds)" "length ds = 9"
    "err = None \<longleftrightarrow> (\<forall>j < 9. alloc (Suc j))"
    "err = None \<Longrightarrow> \<forall>j < 9. ds ! j = fresh_area_env m U64_MAX U32_MAX page_buffer"
    using create_descs_ok[of 0 9 ?ds m alloc fresh] by auto
  have all: "list_all alloc [0..<10] \<longleftrightarrow> alloc 0 \<and> (\<forall>j < 9. alloc (Suc j))"
    using All_less_Suc2[of 9 alloc] by (auto simp: list_all_iff simp del: upt_rec_numeral)
  show ?thesis
  proof (cases "alloc 0")
    case False
    then show ?thesis using all
      by (simp add: ssdfs_create_raw_dump_environment_def Let_def zero_dump_env_def create_area_env_zero)
  next
    case True
    then show ?thesis using c all
      by (cases err) (auto simp: ssdfs_create_raw_dump_environment_def Let_def zero_dump_env_def
          create_area_env_zero fresh_area_env_def list_all_length)
  qed
qed

section \<open>Device types\<close>

lemma ffs_from_lowest:
  "(\<exists>k. i \<le> k \<and> k < i + n \<and> bit w k) \<Longrightarrow> \<exists>k. ffs_from w i n = Suc k \<and> k < i + n \<and> bit w k"
proof (induction n arbitrary: i)
  case 0
  then show ?case by fastforce
next
  case (Suc n)
  show ?case
  proof (cases "bit w i")
    case False
    with Suc.prems have "\<exists>k. Suc i \<le> k \<and> k < Suc i + n \<and> bit w k"
      by (metis Suc_leI add_Suc_right add_Suc le_neq_implies_less)
    from Suc.IH[OF this] False show ?thesis by auto
  qed auto
qed

lemma check_power_of_2_ok:
  "check_power_of_2 w = Inr u \<longleftrightarrow> (\<exists>k < 32. w = 2 ^ k)"
proof (cases "w = 0")
  case True
  have "(0::u32) \<noteq> 2 ^ k" if "k < 32" for k using that unat_exp[where 'a = 32, of k] by fastforce
  with True show ?thesis by (auto simp: check_power_of_2_def)
next
  case False
  then obtain k where "bit w k" by (metis bit_word_eqI bit_0_eq bot_apply bot_bool_def)
  then have "\<exists>k. 0 \<le> k \<and> k < 0 + 32 \<and> bit w k" using bit_imp_le_length[of w k] by auto
  then obtain k where k: "ffs w = Suc k" "k < 32" "bit w k"
    using ffs_from_lowest[of 0 32 w] by (auto simp: ffs_def)
  have "j = k" if "w = 2 ^ j" for j using that k(3) by (simp add: bit_exp_iff)
  with k False show ?thesis
    by (auto simp: check_power_of_2_def push_bit_eq_mult)
qed

text \<open>
  C36. \<^verbatim>\<open>open_device\<close> selects the device operations by the file type: bdev for a regular file and
  for a block device without zones, zns for a zoned one, mtd for a character device, and the
  last only when the erase size and the write size are powers of two.
\<close>

theorem open_device_selects_ops:
  assumes "open_device env p errnum = Inr env'"
  shows "\<exists>ty maj st_size. p_stat p = Some (ty, maj, st_size) \<and>
     (ty = S_IFREG \<and> env_device_type env' = SSDFS_BLK_DEVICE \<and> env_dev_ops env' = bdev_ops \<and>
        fs_size env' = st_size \<or>
      ty = S_IFBLK \<and> Some (fs_size env') = p_blkgetsize64 p \<and>
        (if is_zoned_device (env_fd env') p errnum \<noteq> 0
         then env_device_type env' = SSDFS_ZNS_DEVICE \<and> env_dev_ops env' = zns_ops
         else env_device_type env' = SSDFS_BLK_DEVICE \<and> env_dev_ops env' = bdev_ops) \<or>
      ty = S_IFCHR \<and> env_device_type env' = SSDFS_MTD_DEVICE \<and> env_dev_ops env' = mtd_ops \<and>
        (\<exists>mtd. p_memgetinfo p = Some mtd \<and> erase_size env' = erasesize mtd \<and>
           (\<exists>k < 32. erasesize mtd = 2 ^ k) \<and> (\<exists>k < 32. writesize mtd = 2 ^ k)))"
proof -
  from assms obtain fd ty maj st_size where o: "p_open p = Some fd" "p_stat p = Some (ty, maj, st_size)"
    by (cases "p_open p"; cases "p_stat p") (auto simp: open_device_def)
  with assms show ?thesis
    by (cases ty) (auto simp: open_device_def Let_def bnd_eq_Inr check_power_of_2_ok
        split: option.splits if_splits)
qed

theorem open_device_selects_ops_witness:
  "\<exists>env'. open_device
     \<lparr>fs_size = 0, erase_size = 0, open_zones = 0, env_page_size = 0,
      env_device_type = SSDFS_MTD_DEVICE, env_fd = -1, env_dev_ops = no_ops\<rparr>
     \<lparr>p_open = Some 3, p_stat = Some (S_IFCHR, 90, 0),
      p_memgetinfo = Some \<lparr>erasesize = 0x20000, writesize = 0x800, mtd_size = 0x1000000\<rparr>,
      p_blkgetsize64 = None, p_blkgetzonesz = None\<rparr> 0 = Inr env' \<and> env_dev_ops env' = mtd_ops"
proof -
  let ?p = "\<lparr>p_open = Some 3, p_stat = Some (S_IFCHR, 90, 0),
      p_memgetinfo = Some \<lparr>erasesize = 0x20000, writesize = 0x800, mtd_size = 0x1000000\<rparr>,
      p_blkgetsize64 = None, p_blkgetzonesz = None\<rparr>"
  have "\<exists>k < 32. (0x20000 :: u32) = 2 ^ k" "\<exists>k < 32. (0x800 :: u32) = 2 ^ k"
    by (rule exI[of _ 17], simp) (rule exI[of _ 11], simp)
  then have "check_power_of_2 0x20000 = Inr ()" "check_power_of_2 0x800 = Inr ()"
    by (simp_all add: check_power_of_2_ok)
  then obtain env' where "open_device
     \<lparr>fs_size = 0, erase_size = 0, open_zones = 0, env_page_size = 0,
      env_device_type = SSDFS_MTD_DEVICE, env_fd = -1, env_dev_ops = no_ops\<rparr> ?p 0 = Inr env'"
    by (auto simp: open_device_def Let_def)
  with open_device_selects_ops[OF this] show ?thesis by auto
qed

end
