(* ===== verification/Layout.thy ===== *)
theory Layout
  imports SsdfsCommon SegBmap
begin

text \<open>
  \<^verbatim>\<open>sbin/mkfs.ssdfs/mkfs.h\<close>: the structures mkfs fills before it writes a volume. A segment
  descriptor holds the PEBs of a metadata segment, a PEB holds the extents of its log, an
  extent its memory, offset and size. The superblock parts \<^verbatim>\<open>vh\<close> and \<^verbatim>\<open>vs\<close> (volume header and
  volume state, 1024 bytes each) are byte buffers, because the code copies them as bytes.

  A C array of pointers is a list of options; the array itself is an option, because it is
  allocated and freed. A C \<^verbatim>\<open>int\<close> is an \<open>int\<close>; an index outside the array is the fault \<open>Oob\<close>.
\<close>

section \<open>Indexing by \<^verbatim>\<open>int\<close>\<close>

definition nth_int :: "'a list \<Rightarrow> int \<Rightarrow> 'a res" where
  "nth_int xs i = (if i < 0 then Inl Oob else nth_chk xs (nat i))"

definition upd_int :: "'a list \<Rightarrow> int \<Rightarrow> 'a \<Rightarrow> 'a list res" where
  "upd_int xs i v = (if i < 0 then Inl Oob else upd_chk xs (nat i) v)"

lemma nth_int_ok [simp, run_simps]: "0 \<le> i \<Longrightarrow> nat i < length xs \<Longrightarrow> nth_int xs i = Inr (xs ! nat i)"
  by (simp add: nth_int_def)

lemma upd_int_ok [simp, run_simps]: "0 \<le> i \<Longrightarrow> nat i < length xs \<Longrightarrow> upd_int xs i v = Inr (xs[nat i := v])"
  by (simp add: upd_int_def)

lemma nth_int_eq_Inr: "nth_int xs i = Inr x \<longleftrightarrow> 0 \<le> i \<and> nat i < length xs \<and> x = xs ! nat i"
  by (auto simp: nth_int_def nth_chk_eq_Inr)

lemma upd_int_eq_Inr: "upd_int xs i v = Inr ys \<longleftrightarrow> 0 \<le> i \<and> nat i < length xs \<and> ys = xs[nat i := v]"
  by (auto simp: upd_int_def upd_chk_eq_Inr)

section \<open>Indices and types\<close>

text \<open>The extents of a log.\<close>

abbreviation (input) SSDFS_SEG_HEADER :: int where "SSDFS_SEG_HEADER \<equiv> 0"
abbreviation (input) SSDFS_BLOCK_BITMAP :: int where "SSDFS_BLOCK_BITMAP \<equiv> 1"
abbreviation (input) SSDFS_OFFSET_TABLE :: int where "SSDFS_OFFSET_TABLE \<equiv> 2"
abbreviation (input) SSDFS_BLOCK_DESCRIPTORS :: int where "SSDFS_BLOCK_DESCRIPTORS \<equiv> 3"
abbreviation (input) SSDFS_MAPTBL_CACHE :: int where "SSDFS_MAPTBL_CACHE \<equiv> 4"
abbreviation (input) SSDFS_LOG_PAYLOAD :: int where "SSDFS_LOG_PAYLOAD \<equiv> 5"
abbreviation (input) SSDFS_LOG_FOOTER :: int where "SSDFS_LOG_FOOTER \<equiv> 6"
abbreviation (input) SSDFS_BLOCK_BITMAP_BACKUP :: int where "SSDFS_BLOCK_BITMAP_BACKUP \<equiv> 7"
abbreviation (input) SSDFS_OFFSET_TABLE_BACKUP :: int where "SSDFS_OFFSET_TABLE_BACKUP \<equiv> 8"
abbreviation (input) SSDFS_SEG_LOG_ITEMS_COUNT :: nat where "SSDFS_SEG_LOG_ITEMS_COUNT \<equiv> 9"

text \<open>Whether a segment is dedicated to one kind of metadata.\<close>

abbreviation (input) SSDFS_DEDICATED_SEGMENT :: int where "SSDFS_DEDICATED_SEGMENT \<equiv> 0"
abbreviation (input) SSDFS_SHARED_SEGMENT :: int where "SSDFS_SHARED_SEGMENT \<equiv> 1"

text \<open>The kinds of metadata, which index \<^verbatim>\<open>meta_array\<close> and are the types of segment descriptors.\<close>

abbreviation (input) SSDFS_INITIAL_SNAPSHOT :: int where "SSDFS_INITIAL_SNAPSHOT \<equiv> 0"
abbreviation (input) SSDFS_SUPERBLOCK :: int where "SSDFS_SUPERBLOCK \<equiv> 1"
abbreviation (input) SSDFS_SEGBMAP :: int where "SSDFS_SEGBMAP \<equiv> 2"
abbreviation (input) SSDFS_PEB_MAPPING_TABLE :: int where "SSDFS_PEB_MAPPING_TABLE \<equiv> 3"
abbreviation (input) SSDFS_USER_DATA :: int where "SSDFS_USER_DATA \<equiv> 4"
abbreviation (input) SSDFS_METADATA_ITEMS_MAX :: int where "SSDFS_METADATA_ITEMS_MAX \<equiv> 5"

text \<open>The segment types of \<^verbatim>\<open>include/ssdfs_abi.h\<close>, as they are stored on the volume.\<close>

abbreviation (input) SSDFS_UNKNOWN_SEG_TYPE :: int where "SSDFS_UNKNOWN_SEG_TYPE \<equiv> 0"
abbreviation (input) SSDFS_SB_SEG_TYPE :: int where "SSDFS_SB_SEG_TYPE \<equiv> 1"
abbreviation (input) SSDFS_INITIAL_SNAPSHOT_SEG_TYPE :: int where "SSDFS_INITIAL_SNAPSHOT_SEG_TYPE \<equiv> 2"
abbreviation (input) SSDFS_SEGBMAP_SEG_TYPE :: int where "SSDFS_SEGBMAP_SEG_TYPE \<equiv> 3"
abbreviation (input) SSDFS_MAPTBL_SEG_TYPE :: int where "SSDFS_MAPTBL_SEG_TYPE \<equiv> 4"
abbreviation (input) SSDFS_LAST_KNOWN_SEG_TYPE :: int where "SSDFS_LAST_KNOWN_SEG_TYPE \<equiv> 8"

abbreviation (input) SSDFS_LOG_MAX_PAGES :: u32 where "SSDFS_LOG_MAX_PAGES \<equiv> 256"
abbreviation (input) SSDFS_LOGS_PER_PEB_DEFAULT :: u32 where "SSDFS_LOGS_PER_PEB_DEFAULT \<equiv> 8"

definition META2SEG_TYPE :: "int \<Rightarrow> int" where
  "META2SEG_TYPE meta_index =
     (if meta_index = SSDFS_INITIAL_SNAPSHOT then SSDFS_INITIAL_SNAPSHOT_SEG_TYPE
      else if meta_index = SSDFS_SUPERBLOCK then SSDFS_SB_SEG_TYPE
      else if meta_index = SSDFS_SEGBMAP then SSDFS_SEGBMAP_SEG_TYPE
      else if meta_index = SSDFS_PEB_MAPPING_TABLE then SSDFS_MAPTBL_SEG_TYPE
      else SSDFS_UNKNOWN_SEG_TYPE)"

text \<open>The compression types of \<^verbatim>\<open>include/ssdfs_constants.h\<close>.\<close>

abbreviation (input) SSDFS_UNCOMPRESSED_BLOB :: int where "SSDFS_UNCOMPRESSED_BLOB \<equiv> 0"
abbreviation (input) SSDFS_ZLIB_BLOB :: int where "SSDFS_ZLIB_BLOB \<equiv> 1"
abbreviation (input) SSDFS_LZO_BLOB :: int where "SSDFS_LZO_BLOB \<equiv> 2"
abbreviation (input) SSDFS_LZ4_BLOB :: int where "SSDFS_LZ4_BLOB \<equiv> 3"
abbreviation (input) SSDFS_ZSTD_BLOB :: int where "SSDFS_ZSTD_BLOB \<equiv> 4"
abbreviation (input) SSDFS_UNKNOWN_COMPRESSION :: int where "SSDFS_UNKNOWN_COMPRESSION \<equiv> 5"

section \<open>Structures\<close>

record ssdfs_extent_desc =
  ext_state :: int
  ext_buf :: "buf option"
  ext_compr_buf :: "buf option"
  ext_offset :: u32
  ext_bytes_count :: u32
  ext_compr_bytes :: u32

record ssdfs_peb_content =
  pc_leb_id :: u64
  pc_peb_id :: u64
  pc_extents :: "ssdfs_extent_desc list"

record ssdfs_segment_desc =
  sd_seg_type :: int
  sd_seg_state :: int
  sd_seg_id :: u64
  sd_pebs :: "ssdfs_peb_content list"
  sd_pebs_count :: u16
  sd_pebs_capacity :: u16

record ssdfs_superblock_layout =
  sb_log_pages :: u16
  sb_vh :: buf
  sb_vs :: buf

record ssdfs_blkbmap_layout =
  bb_has_backup_copy :: bool
  bb_compression :: int

record ssdfs_blk2off_table_layout =
  bt_has_backup_copy :: bool
  bt_compression :: int
  bt_pages_per_seg :: u32

record ssdfs_segbmap_layout =
  sg_has_backup_copy :: bool
  sg_segs_per_chain :: u16
  sg_fragments_per_peb :: u16
  sg_pebs_per_seg :: u16
  sg_log_pages :: u16
  sg_migration_threshold :: u16
  sg_compression :: int
  sg_fragments_count :: u32
  sg_fragment_size :: u64
  sg_bmap_bytes :: u32
  sg_fragments_array :: "buf option list option"

record ssdfs_maptbl_layout =
  mt_has_backup_copy :: bool
  mt_stripes_per_portion :: u16
  mt_portions_per_fragment :: u16
  mt_log_pages :: u16
  mt_migration_threshold :: u16
  mt_reserved_pebs_per_fragment :: u16
  mt_compression :: int
  mt_maptbl_pebs :: u32
  mt_lebtbl_portion_bytes :: u32
  mt_lebtbl_portion_mempages :: u32
  mt_pebtbl_portion_bytes :: u32
  mt_pebtbl_portion_mempages :: u32
  mt_lebs_per_portion :: u16
  mt_pebs_per_portion :: u16
  mt_pre_erased_pebs :: u64
  mt_portions_count :: u32
  mt_portion_size :: u64
  mt_fragments_array :: "buf option list option"

record ssdfs_maptbl_cache_layout =
  mc_fragments_count :: u32
  mc_fragment_size :: u64
  mc_bytes_count :: u32
  mc_fragments_array :: "buf option list option"

record ssdfs_btree_layout =
  bl_node_size :: u32
  bl_min_index_area_size :: u16
  bl_lnode_log_pages :: u16
  bl_hnode_log_pages :: u16
  bl_inode_log_pages :: u16

record ssdfs_user_data_layout =
  ud_log_pages :: u16
  ud_migration_threshold :: u16
  ud_compression :: int

text \<open>\<^verbatim>\<open>struct ssdfs_metadata_desc\<close>; its \<^verbatim>\<open>ptr\<close> member is never used.\<close>

record ssdfs_metadata_desc =
  md_start_seg_index :: int
  md_segs_count :: int
  md_seg_state :: int

record ssdfs_write_buffer =
  wb_ptr :: "buf option"
  wb_offset :: u32
  wb_capacity :: u32

text \<open>\<^verbatim>\<open>struct ssdfs_volume_layout\<close> without the threads' environment.\<close>

record ssdfs_volume_layout =
  vl_force_overwrite :: bool
  vl_need_erase_device :: bool
  vl_seg_size :: u64
  vl_page_size :: u32
  vl_nand_dies_count :: u32
  vl_lebs_per_peb_index :: u32
  vl_volume_label :: buf
  vl_create_timestamp :: u64
  vl_create_cno :: u64
  vl_uuid :: buf
  vl_migration_threshold :: u16
  vl_compression :: int
  vl_inode_size :: u16
  vl_sb :: ssdfs_superblock_layout
  vl_blkbmap :: ssdfs_blkbmap_layout
  vl_blk2off_tbl :: ssdfs_blk2off_table_layout
  vl_segbmap :: ssdfs_segbmap_layout
  vl_maptbl :: ssdfs_maptbl_layout
  vl_maptbl_cache :: ssdfs_maptbl_cache_layout
  vl_btree :: ssdfs_btree_layout
  vl_user_data_seg :: ssdfs_user_data_layout
  vl_meta_array :: "ssdfs_metadata_desc list"
  vl_segs :: "ssdfs_segment_desc list"
  vl_segs_capacity :: int
  vl_last_allocated_seg_index :: int
  vl_segs_count :: int
  vl_calculated_open_zones :: u32
  vl_write_buffer :: ssdfs_write_buffer
  vl_env :: ssdfs_environment
  vl_is_volume_erased :: bool

text \<open>
  The initializer of \<^verbatim>\<open>volume_layout\<close> in \<^verbatim>\<open>main\<close> of \<^verbatim>\<open>sbin/mkfs.ssdfs/mkfs.c\<close>; members it does not
  mention are zero.
\<close>

definition mkfs_volume_layout :: ssdfs_volume_layout where
  "mkfs_volume_layout =
     \<lparr>vl_force_overwrite = False, vl_need_erase_device = False,
      vl_seg_size = 8388608, vl_page_size = 4096, vl_nand_dies_count = 1, vl_lebs_per_peb_index = 1,
      vl_volume_label = replicate 16 0, vl_create_timestamp = 0, vl_create_cno = 0, vl_uuid = replicate 16 0,
      vl_migration_threshold = U16_MAX, vl_compression = SSDFS_ZLIB_BLOB, vl_inode_size = 256,
      vl_sb = \<lparr>sb_log_pages = U16_MAX, sb_vh = replicate 1024 0, sb_vs = replicate 1024 0\<rparr>,
      vl_blkbmap = \<lparr>bb_has_backup_copy = False, bb_compression = SSDFS_UNKNOWN_COMPRESSION\<rparr>,
      vl_blk2off_tbl = \<lparr>bt_has_backup_copy = False, bt_compression = SSDFS_UNKNOWN_COMPRESSION,
                     bt_pages_per_seg = U32_MAX\<rparr>,
      vl_segbmap = \<lparr>sg_has_backup_copy = False, sg_segs_per_chain = 1, sg_fragments_per_peb = 1,
                 sg_pebs_per_seg = 0, sg_log_pages = U16_MAX, sg_migration_threshold = U16_MAX,
                 sg_compression = SSDFS_UNKNOWN_COMPRESSION, sg_fragments_count = 0,
                 sg_fragment_size = PAGE_CACHE_SIZE, sg_bmap_bytes = 0, sg_fragments_array = None\<rparr>,
      vl_maptbl = \<lparr>mt_has_backup_copy = False, mt_stripes_per_portion = 1, mt_portions_per_fragment = 1,
                mt_log_pages = U16_MAX, mt_migration_threshold = U16_MAX,
                mt_reserved_pebs_per_fragment = U16_MAX, mt_compression = SSDFS_UNKNOWN_COMPRESSION,
                mt_maptbl_pebs = 0, mt_lebtbl_portion_bytes = 0, mt_lebtbl_portion_mempages = 0,
                mt_pebtbl_portion_bytes = 0, mt_pebtbl_portion_mempages = 0, mt_lebs_per_portion = 0,
                mt_pebs_per_portion = 0, mt_pre_erased_pebs = 0, mt_portions_count = 0,
                mt_portion_size = 0, mt_fragments_array = None\<rparr>,
      vl_maptbl_cache = \<lparr>mc_fragments_count = 0, mc_fragment_size = 0, mc_bytes_count = 0,
                      mc_fragments_array = None\<rparr>,
      vl_btree = \<lparr>bl_node_size = 8192, bl_min_index_area_size = 0, bl_lnode_log_pages = U16_MAX,
               bl_hnode_log_pages = U16_MAX, bl_inode_log_pages = U16_MAX\<rparr>,
      vl_user_data_seg = \<lparr>ud_log_pages = U16_MAX, ud_migration_threshold = U16_MAX,
                       ud_compression = SSDFS_UNKNOWN_COMPRESSION\<rparr>,
      vl_meta_array = replicate 5 \<lparr>md_start_seg_index = 0, md_segs_count = 0, md_seg_state = 0\<rparr>,
      vl_segs = [], vl_segs_capacity = 0, vl_last_allocated_seg_index = 0, vl_segs_count = 0,
      vl_calculated_open_zones = 0,
      vl_write_buffer = \<lparr>wb_ptr = None, wb_offset = 0, wb_capacity = 0\<rparr>,
      vl_env = \<lparr>fs_size = 0, erase_size = 8388608, open_zones = 0, env_page_size = 0,
             env_device_type = SSDFS_DEVICE_TYPE_MAX, env_fd = 0, env_dev_ops = no_ops\<rparr>,
      vl_is_volume_erased = False\<rparr>"

section \<open>Access to a PEB of the layout\<close>

text \<open>\<open>peb_at\<close> is \<^verbatim>\<open>&layout->segs[seg_index].pebs[peb_index]\<close>, \<open>extent_of\<close> one of its extents.\<close>

definition peb_at :: "ssdfs_volume_layout \<Rightarrow> int \<Rightarrow> int \<Rightarrow> ssdfs_peb_content res" where
  "peb_at layout seg_index peb_index =
     bnd (nth_int (vl_segs layout) seg_index) (\<lambda>seg. nth_int (sd_pebs seg) peb_index)"

definition put_peb :: "ssdfs_volume_layout \<Rightarrow> int \<Rightarrow> int \<Rightarrow> ssdfs_peb_content \<Rightarrow> ssdfs_volume_layout res" where
  "put_peb layout seg_index peb_index peb =
     bnd (nth_int (vl_segs layout) seg_index) (\<lambda>seg.
     bnd (upd_int (sd_pebs seg) peb_index peb) (\<lambda>ps.
     bnd (upd_int (vl_segs layout) seg_index (seg\<lparr>sd_pebs := ps\<rparr>)) (\<lambda>ss.
     Inr (layout\<lparr>vl_segs := ss\<rparr>))))"

definition extent_of :: "ssdfs_peb_content \<Rightarrow> int \<Rightarrow> ssdfs_extent_desc" where
  "extent_of peb i = pc_extents peb ! nat i"

definition put_extent :: "ssdfs_peb_content \<Rightarrow> int \<Rightarrow> ssdfs_extent_desc \<Rightarrow> ssdfs_peb_content" where
  "put_extent peb i e = peb\<lparr>pc_extents := (pc_extents peb)[nat i := e]\<rparr>"

definition peb_wf :: "ssdfs_peb_content \<Rightarrow> bool" where
  "peb_wf peb \<longleftrightarrow> length (pc_extents peb) = SSDFS_SEG_LOG_ITEMS_COUNT"

definition peb_in :: "ssdfs_volume_layout \<Rightarrow> int \<Rightarrow> int \<Rightarrow> bool" where
  "peb_in layout s p \<longleftrightarrow>
     0 \<le> s \<and> nat s < length (vl_segs layout) \<and> 0 \<le> p \<and> nat p < length (sd_pebs (vl_segs layout ! nat s))"

lemma extent_of_put_same [simp]:
  "peb_wf peb \<Longrightarrow> 0 \<le> i \<Longrightarrow> i < 9 \<Longrightarrow> extent_of (put_extent peb i e) i = e"
  by (simp add: extent_of_def put_extent_def peb_wf_def nat_less_iff)

lemma extent_of_put_other [simp]:
  "0 \<le> i \<Longrightarrow> 0 \<le> j \<Longrightarrow> i \<noteq> j \<Longrightarrow> extent_of (put_extent peb i e) j = extent_of peb j"
  by (simp add: extent_of_def put_extent_def nat_eq_iff)

lemma put_extent_fields [simp]:
  "pc_leb_id (put_extent peb i e) = pc_leb_id peb" "pc_peb_id (put_extent peb i e) = pc_peb_id peb"
  "peb_wf (put_extent peb i e) = peb_wf peb"
  by (simp_all add: put_extent_def peb_wf_def)

lemma peb_at_ok:
  "peb_in layout s p \<Longrightarrow> peb_at layout s p = Inr (sd_pebs (vl_segs layout ! nat s) ! nat p)"
  by (simp add: peb_at_def peb_in_def)

lemma put_peb_ok:
  "peb_in layout s p \<Longrightarrow> put_peb layout s p peb =
     Inr (layout\<lparr>vl_segs := (vl_segs layout)[nat s :=
        (vl_segs layout ! nat s)\<lparr>sd_pebs := (sd_pebs (vl_segs layout ! nat s))[nat p := peb]\<rparr>]\<rparr>)"
  by (simp add: put_peb_def peb_in_def)

lemma peb_at_put_same:
  assumes "put_peb layout s p peb = Inr layout'"
  shows "peb_at layout' s p = Inr peb"
  using assms by (auto simp: put_peb_def peb_at_def bnd_eq_Inr nth_int_eq_Inr upd_int_eq_Inr)

lemma peb_at_put_other:
  assumes "put_peb layout s p peb = Inr layout'" and "s \<noteq> s' \<or> p \<noteq> p'" and "0 \<le> s'" and "0 \<le> p'"
  shows "peb_at layout' s' p' = peb_at layout s' p'"
proof -
  from assms(1) have wf: "0 \<le> s" "nat s < length (vl_segs layout)" "0 \<le> p"
    "nat p < length (sd_pebs (vl_segs layout ! nat s))"
    by (auto simp: put_peb_def bnd_eq_Inr nth_int_eq_Inr upd_int_eq_Inr)
  with assms show ?thesis
    by (cases "s = s'")
      (auto simp: put_peb_ok peb_in_def peb_at_def nth_int_def nth_chk_def nth_list_update nat_eq_iff)
qed

lemma put_peb_in:
  assumes "put_peb layout s p peb = Inr layout'"
  shows "peb_in layout s p"
  using assms by (auto simp: put_peb_def peb_in_def bnd_eq_Inr nth_int_eq_Inr upd_int_eq_Inr)

lemma put_peb_segs:
  assumes "put_peb layout s p peb = Inr layout'"
  shows "layout' = layout\<lparr>vl_segs := (vl_segs layout)[nat s :=
      (vl_segs layout ! nat s)\<lparr>sd_pebs := (sd_pebs (vl_segs layout ! nat s))[nat p := peb]\<rparr>]\<rparr>"
  using assms put_peb_ok[OF put_peb_in[OF assms], of peb] by simp

lemma peb_in_put_peb:
  assumes "put_peb layout s p peb = Inr layout'"
  shows "peb_in layout' s p"
  using put_peb_in[OF assms] unfolding put_peb_segs[OF assms] peb_in_def by simp

lemma put_peb_put_peb:
  assumes "put_peb layout s p peb = Inr layout'"
  shows "put_peb layout' s p peb' = put_peb layout s p peb'"
proof -
  have "nat s < length (vl_segs layout)" using put_peb_in[OF assms] by (simp add: peb_in_def)
  then show ?thesis
    unfolding put_peb_ok[OF peb_in_put_peb[OF assms]] put_peb_ok[OF put_peb_in[OF assms]]
    unfolding put_peb_segs[OF assms] by simp
qed

lemma put_extent_put_extent [simp]: "put_extent (put_extent peb i e) i e' = put_extent peb i e'"
  by (simp add: put_extent_def)

end
