(* ===== verification/BlkBmap.thy ===== *)
theory BlkBmap
  imports CommonBitmap
begin

text \<open>
  \<^verbatim>\<open>include/blkbmap.h\<close> and \<^verbatim>\<open>lib/blkbmap.c\<close>: the block bitmap of a PEB, two bits of state for each
  logical block. \<open>detect_free_blk\<close> is the lookup table of the source, entry by entry;
  \<open>ssdfs_blkbmap_set_area\<close> is the routine mkfs marks valid and pre-allocated blocks with. The
  theory shows that the table is exact and that the routine sets the requested area and
  nothing else, or leaves the bitmap's memory when the area does not fit.
\<close>

section \<open>Definitions\<close>

abbreviation (input) SSDFS_BLK_STATE_BITS :: nat where "SSDFS_BLK_STATE_BITS \<equiv> 2"
abbreviation (input) SSDFS_BLK_STATE_MASK :: int where "SSDFS_BLK_STATE_MASK \<equiv> 3"

definition SSDFS_BLK_FREE :: int where [const_defs]: "SSDFS_BLK_FREE = 0"
definition SSDFS_BLK_PRE_ALLOCATED :: int where [const_defs]: "SSDFS_BLK_PRE_ALLOCATED = 1"
definition SSDFS_BLK_INVALID :: int where [const_defs]: "SSDFS_BLK_INVALID = 2"
definition SSDFS_BLK_VALID :: int where [const_defs]: "SSDFS_BLK_VALID = 3"
definition SSDFS_BLK_STATE_MAX :: int where [const_defs]: "SSDFS_BLK_STATE_MAX = SSDFS_BLK_VALID + 1"

definition BLK_BMAP_BYTES :: "u32 \<Rightarrow> u32" where
  "BLK_BMAP_BYTES items_count = (items_count + 4 - 1) div 4"

definition detect_free_blk :: "bool list" where
  "detect_free_blk = [
    SSDFS_TRUE, SSDFS_TRUE, SSDFS_TRUE, SSDFS_TRUE, SSDFS_TRUE, SSDFS_TRUE, SSDFS_TRUE, SSDFS_TRUE,
    SSDFS_TRUE, SSDFS_TRUE, SSDFS_TRUE, SSDFS_TRUE, SSDFS_TRUE, SSDFS_TRUE, SSDFS_TRUE, SSDFS_TRUE,
    SSDFS_TRUE, SSDFS_TRUE, SSDFS_TRUE, SSDFS_TRUE, SSDFS_TRUE, SSDFS_TRUE, SSDFS_TRUE, SSDFS_TRUE,
    SSDFS_TRUE, SSDFS_TRUE, SSDFS_TRUE, SSDFS_TRUE, SSDFS_TRUE, SSDFS_TRUE, SSDFS_TRUE, SSDFS_TRUE,
    SSDFS_TRUE, SSDFS_TRUE, SSDFS_TRUE, SSDFS_TRUE, SSDFS_TRUE, SSDFS_TRUE, SSDFS_TRUE, SSDFS_TRUE,
    SSDFS_TRUE, SSDFS_TRUE, SSDFS_TRUE, SSDFS_TRUE, SSDFS_TRUE, SSDFS_TRUE, SSDFS_TRUE, SSDFS_TRUE,
    SSDFS_TRUE, SSDFS_TRUE, SSDFS_TRUE, SSDFS_TRUE, SSDFS_TRUE, SSDFS_TRUE, SSDFS_TRUE, SSDFS_TRUE,
    SSDFS_TRUE, SSDFS_TRUE, SSDFS_TRUE, SSDFS_TRUE, SSDFS_TRUE, SSDFS_TRUE, SSDFS_TRUE, SSDFS_TRUE,
    SSDFS_TRUE, SSDFS_TRUE, SSDFS_TRUE, SSDFS_TRUE, SSDFS_TRUE, SSDFS_TRUE, SSDFS_TRUE, SSDFS_TRUE,
    SSDFS_TRUE, SSDFS_TRUE, SSDFS_TRUE, SSDFS_TRUE, SSDFS_TRUE, SSDFS_TRUE, SSDFS_TRUE, SSDFS_TRUE,
    SSDFS_TRUE, SSDFS_TRUE, SSDFS_TRUE, SSDFS_TRUE, SSDFS_TRUE, SSDFS_FALSE, SSDFS_FALSE, SSDFS_FALSE,
    SSDFS_TRUE, SSDFS_FALSE, SSDFS_FALSE, SSDFS_FALSE, SSDFS_TRUE, SSDFS_FALSE, SSDFS_FALSE, SSDFS_FALSE,
    SSDFS_TRUE, SSDFS_TRUE, SSDFS_TRUE, SSDFS_TRUE, SSDFS_TRUE, SSDFS_FALSE, SSDFS_FALSE, SSDFS_FALSE,
    SSDFS_TRUE, SSDFS_FALSE, SSDFS_FALSE, SSDFS_FALSE, SSDFS_TRUE, SSDFS_FALSE, SSDFS_FALSE, SSDFS_FALSE,
    SSDFS_TRUE, SSDFS_TRUE, SSDFS_TRUE, SSDFS_TRUE, SSDFS_TRUE, SSDFS_FALSE, SSDFS_FALSE, SSDFS_FALSE,
    SSDFS_TRUE, SSDFS_FALSE, SSDFS_FALSE, SSDFS_FALSE, SSDFS_TRUE, SSDFS_FALSE, SSDFS_FALSE, SSDFS_FALSE,
    SSDFS_TRUE, SSDFS_TRUE, SSDFS_TRUE, SSDFS_TRUE, SSDFS_TRUE, SSDFS_TRUE, SSDFS_TRUE, SSDFS_TRUE,
    SSDFS_TRUE, SSDFS_TRUE, SSDFS_TRUE, SSDFS_TRUE, SSDFS_TRUE, SSDFS_TRUE, SSDFS_TRUE, SSDFS_TRUE,
    SSDFS_TRUE, SSDFS_TRUE, SSDFS_TRUE, SSDFS_TRUE, SSDFS_TRUE, SSDFS_FALSE, SSDFS_FALSE, SSDFS_FALSE,
    SSDFS_TRUE, SSDFS_FALSE, SSDFS_FALSE, SSDFS_FALSE, SSDFS_TRUE, SSDFS_FALSE, SSDFS_FALSE, SSDFS_FALSE,
    SSDFS_TRUE, SSDFS_TRUE, SSDFS_TRUE, SSDFS_TRUE, SSDFS_TRUE, SSDFS_FALSE, SSDFS_FALSE, SSDFS_FALSE,
    SSDFS_TRUE, SSDFS_FALSE, SSDFS_FALSE, SSDFS_FALSE, SSDFS_TRUE, SSDFS_FALSE, SSDFS_FALSE, SSDFS_FALSE,
    SSDFS_TRUE, SSDFS_TRUE, SSDFS_TRUE, SSDFS_TRUE, SSDFS_TRUE, SSDFS_FALSE, SSDFS_FALSE, SSDFS_FALSE,
    SSDFS_TRUE, SSDFS_FALSE, SSDFS_FALSE, SSDFS_FALSE, SSDFS_TRUE, SSDFS_FALSE, SSDFS_FALSE, SSDFS_FALSE,
    SSDFS_TRUE, SSDFS_TRUE, SSDFS_TRUE, SSDFS_TRUE, SSDFS_TRUE, SSDFS_TRUE, SSDFS_TRUE, SSDFS_TRUE,
    SSDFS_TRUE, SSDFS_TRUE, SSDFS_TRUE, SSDFS_TRUE, SSDFS_TRUE, SSDFS_TRUE, SSDFS_TRUE, SSDFS_TRUE,
    SSDFS_TRUE, SSDFS_TRUE, SSDFS_TRUE, SSDFS_TRUE, SSDFS_TRUE, SSDFS_FALSE, SSDFS_FALSE, SSDFS_FALSE,
    SSDFS_TRUE, SSDFS_FALSE, SSDFS_FALSE, SSDFS_FALSE, SSDFS_TRUE, SSDFS_FALSE, SSDFS_FALSE, SSDFS_FALSE,
    SSDFS_TRUE, SSDFS_TRUE, SSDFS_TRUE, SSDFS_TRUE, SSDFS_TRUE, SSDFS_FALSE, SSDFS_FALSE, SSDFS_FALSE,
    SSDFS_TRUE, SSDFS_FALSE, SSDFS_FALSE, SSDFS_FALSE, SSDFS_TRUE, SSDFS_FALSE, SSDFS_FALSE, SSDFS_FALSE,
    SSDFS_TRUE, SSDFS_TRUE, SSDFS_TRUE, SSDFS_TRUE, SSDFS_TRUE, SSDFS_FALSE, SSDFS_FALSE, SSDFS_FALSE,
    SSDFS_TRUE, SSDFS_FALSE, SSDFS_FALSE, SSDFS_FALSE, SSDFS_TRUE, SSDFS_FALSE, SSDFS_FALSE, SSDFS_FALSE
  ]"

definition BYTE_CONTAINS_FREE_BLK :: "u8 \<Rightarrow> bool" where
  "BYTE_CONTAINS_FREE_BLK v = detect_free_blk ! unat v"

text \<open>The inner loop over the items of one byte; the flag is the jump to \<^verbatim>\<open>finish_set_blkbmap\<close>.\<close>

function blkbmap_byte_loop ::
  "buf \<Rightarrow> nat \<Rightarrow> nat \<Rightarrow> nat \<Rightarrow> nat \<Rightarrow> int \<Rightarrow> (buf \<times> nat \<times> bool) res" where
  "blkbmap_byte_loop bmap cur_byte j processed_items items_count state =
     (if j < 4 then
        (if processed_items \<ge> items_count then Inr (bmap, processed_items, True)
         else
           bnd (nth_chk bmap cur_byte) (\<lambda>v.
           bnd (SET_STATE_IN_BYTE v j SSDFS_BLK_STATE_BITS SSDFS_BLK_STATE_MASK state) (\<lambda>v'.
           bnd (upd_chk bmap cur_byte v') (\<lambda>bmap'.
           blkbmap_byte_loop bmap' cur_byte (Suc j) (Suc processed_items) items_count state))))
      else Inr (bmap, processed_items, False))"
  by pat_completeness auto
termination
  by (relation "measure (\<lambda>(bmap, cur_byte, j, processed_items, items_count, state). 4 - j)") auto

function blkbmap_area_loop ::
  "buf \<Rightarrow> nat \<Rightarrow> nat \<Rightarrow> nat \<Rightarrow> nat \<Rightarrow> nat \<Rightarrow> nat \<Rightarrow> int \<Rightarrow> buf res" where
  "blkbmap_area_loop bmap cur_byte byte_item i bytes_count processed_items items_count state =
     (if i < bytes_count then
        bnd (blkbmap_byte_loop bmap cur_byte byte_item processed_items items_count state)
          (\<lambda>(bmap', processed_items', finished).
             if finished then Inr bmap'
             else blkbmap_area_loop bmap' (Suc cur_byte) 0 (Suc i) bytes_count
                    processed_items' items_count state)
      else Inr bmap)"
  by pat_completeness auto
termination
  by (relation "measure (\<lambda>(bmap, cur_byte, byte_item, i, bytes_count, p, n, state). bytes_count - i)")
    auto

declare blkbmap_byte_loop.simps [simp del] blkbmap_area_loop.simps [simp del]

definition ssdfs_blkbmap_set_area :: "buf \<Rightarrow> u32 \<Rightarrow> u32 \<Rightarrow> int \<Rightarrow> buf res" where
  "ssdfs_blkbmap_set_area bmap start_item items_count state =
     bnd (fail_if (state < SSDFS_BLK_FREE \<or> state \<ge> SSDFS_BLK_STATE_MAX) EINVAL) (\<lambda>_.
     bnd (SSDFS_ITEMS_PER_BYTE SSDFS_BLK_STATE_BITS) (\<lambda>items_per_byte.
     let aligned_start = ucast (ALIGNED_START_ITEM start_item SSDFS_BLK_STATE_BITS) :: u32 in
     bnd (BUG_ON (items_per_byte = 0)) (\<lambda>_.
     let cur_byte = unat (aligned_start div of_nat items_per_byte);
         byte_item = start_item - aligned_start in
     bnd (ALIGNED_END_ITEM (start_item + items_count) SSDFS_BLK_STATE_BITS) (\<lambda>end_item.
     let aligned_end = ucast end_item :: u32;
         bytes_count = (aligned_end - aligned_start) div of_nat items_per_byte in
     blkbmap_area_loop bmap cur_byte (unat byte_item) 0 (unat bytes_count) 0
       (unat items_count) state))))"

section \<open>The lookup table\<close>

interpretation blk: packed_items SSDFS_BLK_STATE_BITS 4
  by unfold_locales simp_all

lemma blk_mask: "SSDFS_BLK_STATE_MASK = mask SSDFS_BLK_STATE_BITS"
  by (simp add: mask_eq_exp_minus_1)

definition byte_has_free :: "nat \<Rightarrow> bool" where
  "byte_has_free n \<longleftrightarrow> n mod 4 = 0 \<or> n div 4 mod 4 = 0 \<or> n div 16 mod 4 = 0 \<or> n div 64 = 0"

lemma detect_free_blk_exact: "detect_free_blk = map byte_has_free [0..<256]"
  by code_simp

section \<open>Setting an area\<close>

lemma blkbmap_byte_loop_ok:
  assumes "j \<le> 4" and "p \<le> n" and "p < n \<and> j < 4 \<longrightarrow> cur < length bmap"
    and st: "0 \<le> st" "st < 4"
  shows "\<exists>bmap'. blkbmap_byte_loop bmap cur j p n st =
             Inr (bmap', min n (p + (4 - j)), n < p + (4 - j)) \<and>
           area_set 2 bmap bmap' (4 * cur + j) (4 * cur + j + (min n (p + (4 - j)) - p)) st"
  using assms(1-3)
proof (induction "4 - j" arbitrary: j p bmap)
  case 0
  then show ?case by (subst blkbmap_byte_loop.simps) simp
next
  case (Suc d)
  show ?case
  proof (cases "p < n")
    case False
    with Suc show ?thesis by (subst blkbmap_byte_loop.simps) auto
  next
    case True
    let ?b = "bmap[cur := set_state (bmap ! cur) j 2 (mask 2) st]"
    have j: "j < 4" and cur: "cur < length bmap" using Suc True by auto
    from j have "(4 * cur + j) div 4 = cur" "(4 * cur + j) mod 4 = j" by auto
    then have one: "area_set 2 bmap ?b (4 * cur + j) (Suc (4 * cur + j)) st"
      using blk.area_set_single[of "4 * cur + j" bmap st] cur st by simp
    obtain bmap' where
      run: "blkbmap_byte_loop ?b cur (Suc j) (Suc p) n st =
              Inr (bmap', min n (Suc p + (4 - Suc j)), n < Suc p + (4 - Suc j))"
      and rest: "area_set 2 ?b bmap' (4 * cur + Suc j)
              (4 * cur + Suc j + (min n (Suc p + (4 - Suc j)) - Suc p)) st"
      using Suc.hyps(1)[of "Suc j" "Suc p" ?b] Suc.hyps(2) True j cur by atomize_elim simp
    have "blkbmap_byte_loop bmap cur j p n st = blkbmap_byte_loop ?b cur (Suc j) (Suc p) n st"
      using True j cur
      by (subst blkbmap_byte_loop.simps) (simp add: blk.SET_STATE_ok blk_mask)
    moreover have "Suc p + (4 - Suc j) = p + (4 - j)" using j by simp
    moreover have "4 * cur + Suc j + (min n (Suc p + (4 - Suc j)) - Suc p) =
        4 * cur + j + (min n (p + (4 - j)) - p)"
      using True j by simp
    with rest have "area_set 2 bmap bmap' (4 * cur + j) (4 * cur + j + (min n (p + (4 - j)) - p)) st"
      using area_set_trans[OF one, of bmap'] True j by simp
    ultimately show ?thesis using run by auto
  qed
qed

lemma blkbmap_area_loop_ok:
  assumes "byte_item < 4" and "4 * cur + byte_item = start + p" and "p \<le> n"
    and "byte_item + (n - p) \<le> 4 * (bytes - i)" and "start + n \<le> 4 * length bmap"
    and st: "0 \<le> st" "st < 4"
  shows "\<exists>bmap'. blkbmap_area_loop bmap cur byte_item i bytes p n st = Inr bmap' \<and>
           area_set 2 bmap bmap' (start + p) (start + n) st"
  using assms(1-5)
proof (induction "bytes - i" arbitrary: cur byte_item i p bmap)
  case 0
  then have "p = n" by simp
  with 0 show ?case by (subst blkbmap_area_loop.simps) simp
next
  case (Suc d)
  then have i: "i < bytes" by simp
  let ?p = "min n (p + (4 - byte_item))"
  have "p < n \<longrightarrow> cur < length bmap" using Suc.prems by linarith
  then obtain b1 where
    run: "blkbmap_byte_loop bmap cur byte_item p n st = Inr (b1, ?p, n < p + (4 - byte_item))"
    and a1: "area_set 2 bmap b1 (start + p) (start + p + (?p - p)) st"
    using blkbmap_byte_loop_ok[of byte_item p n cur bmap st] Suc.prems st by fastforce
  show ?case
  proof (cases "n < p + (4 - byte_item)")
    case True
    then have "?p = n" by simp
    with a1 Suc.prems have "area_set 2 bmap b1 (start + p) (start + n) st" by simp
    with run True i show ?thesis by (subst blkbmap_area_loop.simps) simp
  next
    case False
    then have p': "?p = p + (4 - byte_item)" by simp
    have len: "length b1 = length bmap" using a1 by (simp add: area_set_def)
    obtain b2 where
      rest: "blkbmap_area_loop b1 (Suc cur) 0 (Suc i) bytes ?p n st = Inr b2"
      and a2: "area_set 2 b1 b2 (start + ?p) (start + n) st"
      using Suc.hyps(1)[of "Suc i" 0 "Suc cur" ?p b1] Suc.hyps(2) Suc.prems False len p' by fastforce
    have "area_set 2 bmap b2 (start + p) (start + n) st"
      using area_set_trans[OF a1, of b2 "start + n"] a2 p' False by (simp add: add.assoc)
    with run rest False i p' show ?thesis by (subst blkbmap_area_loop.simps) simp
  qed
qed

text \<open>The routine computes the byte range of the area; this is that range over the naturals.\<close>

lemma blkbmap_set_area_unfold:
  assumes st: "0 \<le> st" "st < 4" and nw: "unat start + unat count + 4 \<le> 2 ^ 32"
  shows "ssdfs_blkbmap_set_area bm start count st =
    blkbmap_area_loop bm (unat start div 4) (unat start mod 4) 0
      ((unat start + unat count + 3) div 4 - unat start div 4) 0 (unat count) st"
proof -
  let ?s = "ucast (ALIGNED_START_ITEM start SSDFS_BLK_STATE_BITS) :: u32"
  have s4: "unat (ALIGNED_START_ITEM start SSDFS_BLK_STATE_BITS) = unat start div 4 * 4"
    by (simp add: unat_ALIGNED_START_ITEM)
  moreover have "unat start div 4 * 4 < 2 ^ 32" using nw by linarith
  ultimately have s: "unat ?s = unat start div 4 * 4"
    by (simp add: unat_ucast_small)
  have sum: "unat (start + count) = unat start + unat count"
    using nw by (intro unat_add_nw) simp
  obtain e where e: "ALIGNED_END_ITEM (start + count) SSDFS_BLK_STATE_BITS = Inr e"
    and e4: "unat e = (unat start + unat count + 3) div 4 * 4"
    using blk.ALIGNED_END_ok[of "start + count"] nw by (auto simp: sum)
  have "(unat start + unat count + 3) div 4 * 4 < 2 ^ 32" using nw by linarith
  then have ue: "unat (ucast e :: u32) = (unat start + unat count + 3) div 4 * 4"
    using e4 by (simp add: unat_ucast_small)
  have le: "?s \<le> ucast e"
    by (simp add: word_le_nat_alt s ue div_le_mono)
  have le': "?s \<le> start"
    by (simp add: word_le_nat_alt s)
  have "unat (start - ?s) = unat start mod 4"
    using le' by (simp add: unat_sub_nw s minus_div_mult_eq_mod)
  moreover have "unat ((ucast e - ?s) div 4) = (unat start + unat count + 3) div 4 - unat start div 4"
    using le by (simp add: unat_div unat_sub_nw s ue flip: diff_mult_distrib)
  moreover have "unat (?s div 4) = unat start div 4"
    by (simp add: unat_div s)
  ultimately show ?thesis
    using st e by (simp add: ssdfs_blkbmap_set_area_def const_defs blk.items_per_byte Let_def)
qed

lemma blkbmap_area_loop_overrun:
  assumes "byte_item < 4" and "4 * cur + byte_item = start + p" and "p \<le> n"
    and "byte_item + (n - p) \<le> 4 * (bytes - i)" and "4 * length bmap < start + n"
    and "start + p \<le> 4 * length bmap"
    and st: "0 \<le> st" "st < 4"
  shows "blkbmap_area_loop bmap cur byte_item i bytes p n st = Inl Oob"
  using assms(1-6)
proof (induction "bytes - i" arbitrary: cur byte_item i p bmap)
  case 0
  then show ?case by linarith
next
  case (Suc d)
  then have i: "i < bytes" and pn: "p < n" by simp_all
  show ?case
  proof (cases "cur < length bmap")
    case False
    with Suc.prems i pn show ?thesis
      by (subst blkbmap_area_loop.simps, subst blkbmap_byte_loop.simps) (simp add: nth_chk_def)
  next
    case True
    let ?p = "p + (4 - byte_item)"
    have lt: "?p < n" "start + ?p \<le> 4 * length bmap" using Suc.prems True by linarith+
    then obtain b1 where
      run: "blkbmap_byte_loop bmap cur byte_item p n st = Inr (b1, ?p, False)"
      and len: "length b1 = length bmap"
      using blkbmap_byte_loop_ok[of byte_item p n cur bmap st] Suc.prems st True
      by (auto simp: area_set_def)
    have "blkbmap_area_loop b1 (Suc cur) 0 (Suc i) bytes ?p n st = Inl Oob"
      using Suc.hyps(1)[of "Suc i" 0 "Suc cur" ?p b1] Suc.hyps(2) Suc.prems lt len by fastforce
    with run i show ?thesis by (subst blkbmap_area_loop.simps) simp
  qed
qed

lemma byte_range_covers:
  "(s::nat) mod 4 + n \<le> 4 * ((s + n + 3) div 4 - s div 4)"
proof -
  have "s + n \<le> 4 * ((s + n + 3) div 4)" using ceil_div_mult_ge[of 4 "s + n"] by simp
  moreover have "s = 4 * (s div 4) + s mod 4" by simp
  ultimately show ?thesis by linarith
qed

lemma ex_less_4: "(\<exists>k < 4. P k) \<longleftrightarrow> P 0 \<or> P 1 \<or> P 2 \<or> P (3::nat)"
  by (auto simp: numeral_eq_Suc less_Suc_eq)

section \<open>Properties\<close>

text \<open>
  C32. A call of \<^verbatim>\<open>ssdfs_blkbmap_set_area\<close> with a valid state and an area inside the bitmap
  succeeds; afterwards every block of the area has the requested state and every block outside
  it has the state it had, whatever the alignment of the area to the bytes of the bitmap.
\<close>

theorem blkbmap_set_area_exact:
  assumes "SSDFS_BLK_FREE \<le> state" and "state < SSDFS_BLK_STATE_MAX"
    and "unat start_item + unat items_count + 4 \<le> 2 ^ 32"
    and "unat start_item + unat items_count \<le> 4 * length bmap"
  shows "\<exists>bmap'. ssdfs_blkbmap_set_area bmap start_item items_count state = Inr bmap' \<and>
           area_set SSDFS_BLK_STATE_BITS bmap bmap' (unat start_item)
             (unat start_item + unat items_count) state"
proof -
  have st: "0 \<le> state" "state < 4" using assms(1,2) by (simp_all add: const_defs)
  have "\<exists>bmap'. blkbmap_area_loop bmap (unat start_item div 4) (unat start_item mod 4) 0
      ((unat start_item + unat items_count + 3) div 4 - unat start_item div 4) 0
      (unat items_count) state = Inr bmap' \<and>
      area_set 2 bmap bmap' (unat start_item + 0) (unat start_item + unat items_count) state"
    using assms(4) st byte_range_covers[of "unat start_item" "unat items_count"]
    by (intro blkbmap_area_loop_ok) simp_all
  then show ?thesis using blkbmap_set_area_unfold[OF st assms(3)] by simp
qed

theorem blkbmap_set_area_exact_witness:
  "\<exists>bmap'. ssdfs_blkbmap_set_area [0, 0, 0] 3 6 SSDFS_BLK_VALID = Inr bmap' \<and>
     area_set SSDFS_BLK_STATE_BITS [0, 0, 0] bmap' 3 9 SSDFS_BLK_VALID"
  using blkbmap_set_area_exact[of SSDFS_BLK_VALID 3 6 "[0, 0, 0]"] by (simp add: const_defs)

text \<open>
  The two ways \<^verbatim>\<open>ssdfs_blkbmap_set_area\<close> can go wrong: a state outside the four block
  states is refused with \<^verbatim>\<open>-EINVAL\<close> whatever the other arguments; an area that starts inside
  the bitmap and ends behind it is not detected, the routine writes outside the buffer.
\<close>

theorem blkbmap_set_area_failures:
  "(\<not> (SSDFS_BLK_FREE \<le> state \<and> state < SSDFS_BLK_STATE_MAX) \<longrightarrow>
      ssdfs_blkbmap_set_area bmap start_item items_count state = Inl (Errno EINVAL)) \<and>
   (SSDFS_BLK_FREE \<le> state \<and> state < SSDFS_BLK_STATE_MAX \<and>
      unat start_item + unat items_count + 4 \<le> 2 ^ 32 \<and> unat start_item \<le> 4 * length bmap \<and>
      4 * length bmap < unat start_item + unat items_count \<longrightarrow>
      ssdfs_blkbmap_set_area bmap start_item items_count state = Inl Oob)"
proof (intro conjI impI; (elim conjE)?)
  assume "\<not> (SSDFS_BLK_FREE \<le> state \<and> state < SSDFS_BLK_STATE_MAX)"
  then show "ssdfs_blkbmap_set_area bmap start_item items_count state = Inl (Errno EINVAL)"
    by (auto simp: ssdfs_blkbmap_set_area_def)
next
  assume a: "SSDFS_BLK_FREE \<le> state" "state < SSDFS_BLK_STATE_MAX"
    "unat start_item + unat items_count + 4 \<le> 2 ^ 32"
    "unat start_item \<le> 4 * length bmap" "4 * length bmap < unat start_item + unat items_count"
  then have st: "0 \<le> state" "state < 4" by (simp_all add: const_defs)
  show "ssdfs_blkbmap_set_area bmap start_item items_count state = Inl Oob"
    unfolding blkbmap_set_area_unfold[OF st a(3)]
    by (rule blkbmap_area_loop_overrun[where start = "unat start_item"])
      (use a st byte_range_covers[of "unat start_item" "unat items_count"] in simp_all)
qed

theorem blkbmap_set_area_failures_witness:
  "ssdfs_blkbmap_set_area [0] 0 1 4 = Inl (Errno EINVAL) \<and>
   ssdfs_blkbmap_set_area [0] 3 2 SSDFS_BLK_VALID = Inl Oob"
  using blkbmap_set_area_failures[of 4 "[0]" 0 1]
    blkbmap_set_area_failures[of SSDFS_BLK_VALID "[0]" 3 2]
  by (simp add: const_defs)

text \<open>
  C37. The 256-entry table behind \<^verbatim>\<open>BYTE_CONTAINS_FREE_BLK\<close> is exact: it is true for a byte if
  and only if one of the four block states packed into the byte is \<^verbatim>\<open>SSDFS_BLK_FREE\<close>.
\<close>

theorem byte_contains_free_blk_exact:
  "BYTE_CONTAINS_FREE_BLK v \<longleftrightarrow> (\<exists>k < 4. item_in_byte SSDFS_BLK_STATE_BITS v k = SSDFS_BLK_FREE)"
proof -
  have "unat v < 256" using unsigned_less[of v] by simp
  then have "BYTE_CONTAINS_FREE_BLK v = byte_has_free (unat v)"
    by (simp add: BYTE_CONTAINS_FREE_BLK_def detect_free_blk_exact)
  moreover have "item_in_byte 2 v k = int (unat v div 4 ^ k mod 4)" for k
    by (simp add: item_in_byte_nat drop_bit_eq_div take_bit_eq_mod power_mult mult.commute[of k])
  ultimately show ?thesis
    using \<open>unat v < 256\<close> by (simp add: byte_has_free_def const_defs ex_less_4 flip: of_nat_mod)
qed

end
