(* ===== verification/MkfsCommon.thy ===== *)
theory MkfsCommon
  imports Layout BlkBmap
begin

text \<open>
  \<^verbatim>\<open>sbin/mkfs.ssdfs/common.c\<close>, first part: reservation of segment descriptors, placement of the
  extents of a log and the size of a log, and the segment header and log footer of a PEB.
\<close>

section \<open>Reservation of segments\<close>

definition reserve_step ::
  "int \<Rightarrow> int \<Rightarrow> int \<Rightarrow> nat \<Rightarrow> ssdfs_volume_layout \<Rightarrow> ssdfs_volume_layout res" where
  "reserve_step meta_index state index i layout =
     bnd (nth_int (vl_segs layout) (index + int i)) (\<lambda>seg.
     bnd (upd_int (vl_segs layout) (index + int i)
            (seg\<lparr>sd_seg_type := meta_index, sd_seg_state := state\<rparr>)) (\<lambda>ss.
     Inr (layout\<lparr>vl_segs := ss,
                 vl_last_allocated_seg_index := vl_last_allocated_seg_index layout + 1\<rparr>)))"

definition reserve_segments :: "ssdfs_volume_layout \<Rightarrow> int \<Rightarrow> ssdfs_volume_layout res" where
  "reserve_segments layout meta_index =
     (let index = vl_last_allocated_seg_index layout + 1 in
      bnd (fail_if (meta_index \<ge> SSDFS_METADATA_ITEMS_MAX) EINVAL) (\<lambda>_.
      bnd (nth_int (vl_meta_array layout) meta_index) (\<lambda>desc.
      if md_segs_count desc \<le> 0 then Inr layout
      else
        bnd (fail_if (index \<ge> vl_segs_capacity layout) ERANGE) (\<lambda>_.
        bnd (upd_int (vl_meta_array layout) meta_index (desc\<lparr>md_start_seg_index := index\<rparr>)) (\<lambda>arr.
        for_res 0 (nat (md_segs_count desc)) (reserve_step meta_index (md_seg_state desc) index)
          (layout\<lparr>vl_meta_array := arr\<rparr>))))))"

section \<open>Placement of the extents\<close>

text \<open>\<^verbatim>\<open>x += page_size - 1; x = (x / page_size) * page_size;\<close>\<close>

definition round_page :: "u32 \<Rightarrow> u32 \<Rightarrow> u32 res" where
  "round_page x page_size = bnd (div_chk (x + (page_size - 1)) page_size) (\<lambda>q. Inr (q * page_size))"

text \<open>The page size and the room behind the segment header in its page, by segment type.\<close>

definition log_page_size :: "ssdfs_volume_layout \<Rightarrow> int \<Rightarrow> u32" where
  "log_page_size layout st =
     (if st = SSDFS_SB_SEG_TYPE \<or> st = SSDFS_INITIAL_SNAPSHOT_SEG_TYPE then PAGE_CACHE_SIZE
      else vl_page_size layout)"

definition inline_capacity :: "u32 \<Rightarrow> u32" where
  "inline_capacity page_size = ucast (ucast page_size - sizeof_segment_header :: u64)"

abbreviation (input) ext_bytes :: "ssdfs_peb_content \<Rightarrow> int \<Rightarrow> u32" where
  "ext_bytes desc i \<equiv> ext_bytes_count (extent_of desc i)"

definition set_extent_start_offset ::
  "ssdfs_volume_layout \<Rightarrow> int \<Rightarrow> ssdfs_peb_content \<Rightarrow> int \<Rightarrow> ssdfs_peb_content res" where
  "set_extent_start_offset layout st desc extent_index =
     (let page_size = log_page_size layout st;
          cap = inline_capacity page_size;
          set_extent_offset = (\<lambda>offset.
            Inr (put_extent desc extent_index ((extent_of desc extent_index)\<lparr>ext_offset := offset\<rparr>))) in
      bnd (fail_if (extent_index < 0 \<or> extent_index > SSDFS_OFFSET_TABLE_BACKUP) EINVAL) (\<lambda>_.
      let offset = ext_offset (extent_of desc SSDFS_SEG_HEADER)
            + (if extent_index \<ge> SSDFS_MAPTBL_CACHE then ext_bytes desc SSDFS_BLOCK_DESCRIPTORS else 0)
            + (if extent_index \<ge> SSDFS_BLOCK_DESCRIPTORS then ext_bytes desc SSDFS_OFFSET_TABLE else 0)
            + (if extent_index \<ge> SSDFS_OFFSET_TABLE then ext_bytes desc SSDFS_BLOCK_BITMAP else 0)
            + (if extent_index \<ge> SSDFS_BLOCK_BITMAP then ext_bytes desc SSDFS_SEG_HEADER else 0) in
      if extent_index < SSDFS_MAPTBL_CACHE then set_extent_offset offset
      else
        bnd (round_page offset page_size) (\<lambda>offset.
        bnd (if extent_index \<ge> SSDFS_LOG_FOOTER
             then round_page (offset + ext_bytes desc SSDFS_LOG_PAYLOAD) page_size
             else Inr offset) (\<lambda>offset.
        bnd (if extent_index \<ge> SSDFS_LOG_PAYLOAD
             then round_page (if ext_bytes desc SSDFS_MAPTBL_CACHE > cap
                              then offset + ext_bytes desc SSDFS_MAPTBL_CACHE else offset) page_size
             else Inr offset) (\<lambda>offset.
        if extent_index < SSDFS_BLOCK_BITMAP_BACKUP then set_extent_offset offset
        else
          bnd (round_page (offset
                 + (if extent_index = SSDFS_OFFSET_TABLE_BACKUP
                    then ext_bytes desc SSDFS_BLOCK_BITMAP_BACKUP else 0)
                 + ext_bytes desc SSDFS_LOG_FOOTER) page_size) set_extent_offset)))))"

definition calculate_log_pages ::
  "ssdfs_volume_layout \<Rightarrow> int \<Rightarrow> ssdfs_peb_content \<Rightarrow> u32 res" where
  "calculate_log_pages layout st desc =
     (let page_size = log_page_size layout st;
          cap = inline_capacity page_size;
          bytes = ext_bytes desc SSDFS_SEG_HEADER + ext_bytes desc SSDFS_BLOCK_BITMAP
                  + ext_bytes desc SSDFS_OFFSET_TABLE + ext_bytes desc SSDFS_BLOCK_DESCRIPTORS in
      bnd (if ext_bytes desc SSDFS_MAPTBL_CACHE > cap then round_page bytes page_size else Inr bytes)
        (\<lambda>bytes.
      bnd (round_page (bytes + ext_bytes desc SSDFS_MAPTBL_CACHE) page_size) (\<lambda>bytes.
      bnd (round_page (bytes + ext_bytes desc SSDFS_LOG_PAYLOAD) page_size) (\<lambda>bytes.
      bnd (round_page (bytes + ext_bytes desc SSDFS_LOG_FOOTER
             + ext_bytes desc SSDFS_BLOCK_BITMAP_BACKUP
             + ext_bytes desc SSDFS_OFFSET_TABLE_BACKUP) page_size) (\<lambda>bytes.
      bnd (BUG_ON (bytes > erase_size (vl_env layout))) (\<lambda>_.
      div_chk bytes page_size))))))"

definition calculate_metadata_blks ::
  "ssdfs_volume_layout \<Rightarrow> int \<Rightarrow> ssdfs_peb_content \<Rightarrow> u32 res" where
  "calculate_metadata_blks layout st desc =
     (let page_size = log_page_size layout st;
          bytes = ext_bytes desc SSDFS_SEG_HEADER + ext_bytes desc SSDFS_BLOCK_BITMAP
                  + ext_bytes desc SSDFS_OFFSET_TABLE in
      bnd (round_page bytes page_size) (\<lambda>bytes.
      bnd (round_page (bytes + ext_bytes desc SSDFS_MAPTBL_CACHE) page_size) (\<lambda>bytes.
      let bytes = bytes + ext_bytes desc SSDFS_LOG_FOOTER + ext_bytes desc SSDFS_BLOCK_BITMAP_BACKUP
                  + ext_bytes desc SSDFS_OFFSET_TABLE_BACKUP + (page_size - 1) in
      bnd (BUG_ON (bytes > erase_size (vl_env layout))) (\<lambda>_.
      div_chk bytes page_size))))"

section \<open>Placement of extents: lemmas\<close>

definition rup :: "nat \<Rightarrow> nat \<Rightarrow> nat" where
  "rup x p = (x + p - 1) div p * p"

lemma rup_ge: "0 < p \<Longrightarrow> x \<le> rup x p"
  unfolding rup_def by (rule ceil_div_mult_ge)

lemma rup_less: "0 < p \<Longrightarrow> rup x p < x + p"
proof -
  assume "0 < p"
  have "(x + p - 1) div p * p \<le> x + p - 1" by (rule div_times_less_eq_dividend)
  with \<open>0 < p\<close> show ?thesis unfolding rup_def by linarith
qed

lemma rup_dvd: "p dvd rup x p"
  by (simp add: rup_def)

lemma rup_add_dvd: "0 < p \<Longrightarrow> p dvd x \<Longrightarrow> rup (x + y) p = x + rup y p"
proof -
  assume p: "0 < p" and "p dvd x"
  then obtain k where k: "x = p * k" by (elim dvdE)
  then have "x + y + p - 1 = (y + p - 1) + k * p" using p by (simp add: mult.commute)
  then have "(x + y + p - 1) div p = k + (y + p - 1) div p"
    using p by (simp only: div_mult_self1)
  then show ?thesis unfolding rup_def k by (simp only: distrib_right mult.commute[of p k])
qed

lemma rup_0 [simp]: "rup 0 p = 0"
  by (cases p) (simp_all add: rup_def)

lemma rup_le_page: "0 < x \<Longrightarrow> x \<le> p \<Longrightarrow> rup x p = p"
proof -
  assume "0 < x" "x \<le> p"
  then have "(x + p - 1) div p = 1" by (intro div_nat_eqI) simp_all
  then show ?thesis by (simp add: rup_def)
qed

lemma round_page_ok:
  assumes "0 < unat p" and "unat x + unat p < 2 ^ 32"
  shows "\<exists>r. round_page x p = Inr r \<and> unat r = rup (unat x) (unat p)"
proof -
  have "1 \<le> p" using assms(1) by (simp add: word_le_nat_alt)
  then have "unat (x + (p - 1)) = unat x + unat p - 1"
    using assms by (subst unat_add_nw) (simp_all add: unat_sub_nw)
  then have q: "unat ((x + (p - 1)) div p) = (unat x + unat p - 1) div unat p"
    by (simp add: unat_div)
  have "rup (unat x) (unat p) < 2 ^ 32" using rup_less[OF assms(1), of "unat x"] assms(2) by linarith
  then have "unat ((x + (p - 1)) div p * p) = rup (unat x) (unat p)"
    using q by (subst unat_mult_nw) (simp_all add: rup_def)
  moreover have "p \<noteq> 0" using assms(1) by auto
  ultimately show ?thesis by (simp add: round_page_def)
qed

lemma round_page_add:
  assumes "0 < unat p" and "unat x + unat y + unat p < 2 ^ 32"
  obtains r where "round_page (x + y) p = Inr r" "unat r = rup (unat x + unat y) (unat p)"
    "unat r < unat x + unat y + unat p"
proof -
  have "unat (x + y) = unat x + unat y" using assms(2) by (intro unat_add_nw) simp
  with round_page_ok[OF assms(1), of "x + y"] rup_less[OF assms(1), of "unat x + unat y"] assms(2)
  show ?thesis by (auto intro: that)
qed

abbreviation (input) ebytes :: "ssdfs_peb_content \<Rightarrow> int \<Rightarrow> nat" where
  "ebytes desc i \<equiv> unat (ext_bytes desc i)"

text \<open>The placement over the naturals: \<open>H\<close> is the offset of the header, \<open>C\<close> the room for the cache.\<close>

definition cache_room :: "u32 \<Rightarrow> ssdfs_peb_content \<Rightarrow> nat" where
  "cache_room p desc = (if ext_bytes desc SSDFS_MAPTBL_CACHE > inline_capacity p
                        then ebytes desc SSDFS_MAPTBL_CACHE else 0)"

definition front_bytes :: "ssdfs_peb_content \<Rightarrow> int \<Rightarrow> nat" where
  "front_bytes desc i = unat (ext_offset (extent_of desc SSDFS_SEG_HEADER))
     + (if i \<ge> 4 then ebytes desc 3 else 0) + (if i \<ge> 3 then ebytes desc 2 else 0)
     + (if i \<ge> 2 then ebytes desc 1 else 0) + (if i \<ge> 1 then ebytes desc 0 else 0)"

definition footer_place :: "u32 \<Rightarrow> ssdfs_peb_content \<Rightarrow> nat" where
  "footer_place p desc =
     rup (rup (rup (front_bytes desc 4) (unat p) + ebytes desc SSDFS_LOG_PAYLOAD) (unat p)
          + cache_room p desc) (unat p)"

definition extent_place :: "u32 \<Rightarrow> ssdfs_peb_content \<Rightarrow> int \<Rightarrow> nat" where
  "extent_place p desc i =
     (if i < 4 then front_bytes desc i
      else if i = 4 then rup (front_bytes desc 4) (unat p)
      else if i = 5 then rup (rup (front_bytes desc 4) (unat p) + cache_room p desc) (unat p)
      else if i = 6 then footer_place p desc
      else if i = 7 then rup (footer_place p desc + ebytes desc 6) (unat p)
      else rup (footer_place p desc + ebytes desc 7 + ebytes desc 6) (unat p))"

definition log_fits :: "u32 \<Rightarrow> ssdfs_peb_content \<Rightarrow> bool" where
  "log_fits p desc \<longleftrightarrow> 0 < unat p \<and>
     unat (ext_offset (extent_of desc SSDFS_SEG_HEADER)) + ebytes desc 0 + ebytes desc 1 + ebytes desc 2
     + ebytes desc 3 + ebytes desc 4 + ebytes desc 5 + ebytes desc 6 + ebytes desc 7 + ebytes desc 8
     + 6 * unat p < 2 ^ 32"

lemma front_unat:
  assumes "log_fits p desc"
  shows "unat (ext_offset (extent_of desc 0) + (if i \<ge> 4 then ext_bytes desc 3 else 0)
      + (if i \<ge> 3 then ext_bytes desc 2 else 0) + (if i \<ge> 2 then ext_bytes desc 1 else 0)
      + (if i \<ge> 1 then ext_bytes desc 0 else 0)) = front_bytes desc i"
  using assms unfolding log_fits_def front_bytes_def
  by (simp add: unat_add_nw split: if_split)

lemma set_extent_ok:
  assumes fit: "log_fits (log_page_size layout st) desc" and i: "0 \<le> i" "i \<le> 8"
  shows "\<exists>off. set_extent_start_offset layout st desc i =
             Inr (put_extent desc i ((extent_of desc i)\<lparr>ext_offset := off\<rparr>)) \<and>
           unat off = extent_place (log_page_size layout st) desc i"
proof -
  let ?p = "log_page_size layout st"
  note f = fit[unfolded log_fits_def]
  let ?o = "ext_offset (extent_of desc 0) + (if i \<ge> 4 then ext_bytes desc 3 else 0)
      + (if i \<ge> 3 then ext_bytes desc 2 else 0) + (if i \<ge> 2 then ext_bytes desc 1 else 0)
      + (if i \<ge> 1 then ext_bytes desc 0 else 0)"
  let ?B = "front_bytes desc 4"
  have B: "?B = unat (ext_offset (extent_of desc 0)) + ebytes desc 3 + ebytes desc 2 + ebytes desc 1
      + ebytes desc 0"
    by (simp add: front_bytes_def)
  show ?thesis
  proof (cases "i < 4")
    case True
    then show ?thesis using front_unat[OF fit, of i] i
      by (auto simp: set_extent_start_offset_def Let_def extent_place_def simp del: of_int_add)
  next
    case False
    then have o: "unat ?o = ?B" using front_unat[OF fit, of i] by (simp add: front_bytes_def)
    have p: "0 < unat ?p" using f by simp
    obtain r1 where r1: "round_page ?o ?p = Inr r1" "unat r1 = rup ?B (unat ?p)"
      "unat r1 < ?B + unat ?p"
      using round_page_add[of ?p ?o 0] f o B by auto
    obtain r2 where r2: "round_page (r1 + ext_bytes desc 5) ?p = Inr r2"
      "unat r2 = rup (unat r1 + ebytes desc 5) (unat ?p)" "unat r2 < unat r1 + ebytes desc 5 + unat ?p"
      by (rule round_page_add[OF p, of r1 "ext_bytes desc 5"]) (use f r1 B in simp_all)
    let ?c = "if ext_bytes desc 4 > inline_capacity ?p then ext_bytes desc 4 else 0"
    have c: "unat ?c = cache_room ?p desc" and c_le: "cache_room ?p desc \<le> ebytes desc 4"
      by (simp_all add: cache_room_def)
    have add_c: "(if inline_capacity ?p < ext_bytes desc 4 then x + ext_bytes desc 4 else x) = x + ?c" for x
      by simp
    obtain r3 where r3: "round_page (r1 + ?c) ?p = Inr r3"
      "unat r3 = rup (unat r1 + unat ?c) (unat ?p)"
      by (rule round_page_add[OF p, of r1 ?c]) (use f r1 B c_le in \<open>simp_all only: c\<close>, linarith)
    obtain r4 where r4: "round_page (r2 + ?c) ?p = Inr r4"
      "unat r4 = rup (unat r2 + unat ?c) (unat ?p)" "unat r4 < unat r2 + unat ?c + unat ?p"
      by (rule round_page_add[OF p, of r2 ?c]) (use f r1 r2 B c_le in \<open>simp_all only: c\<close>, linarith)
    have foot: "unat r4 = footer_place ?p desc" by (simp only: footer_place_def r4 r2 r1 c)
    obtain r5 where r5: "round_page (r4 + ext_bytes desc 6) ?p = Inr r5"
      "unat r5 = rup (unat r4 + ebytes desc 6) (unat ?p)"
      by (rule round_page_add[OF p, of r4 "ext_bytes desc 6"]) (use f r1 r2 r4 B c c_le in linarith)+
    have "unat r4 + ebytes desc 7 < 2 ^ 32" using f r1 r2 r4 B c c_le by linarith
    then have s: "unat (r4 + ext_bytes desc 7) = unat r4 + ebytes desc 7"
      by (intro unat_add_nw) simp
    obtain r6 where r6: "round_page (r4 + ext_bytes desc 7 + ext_bytes desc 6) ?p = Inr r6"
      "unat r6 = rup (unat (r4 + ext_bytes desc 7) + ebytes desc 6) (unat ?p)"
      by (rule round_page_add[OF p, of "r4 + ext_bytes desc 7" "ext_bytes desc 6"])
        (use f r1 r2 r4 B c c_le s in linarith)+
    note defs = set_extent_start_offset_def Let_def extent_place_def add_c
    consider "i = 4" | "i = 5" | "i = 6" | "i = 7" | "i = 8" using False i by linarith
    then show ?thesis
    proof cases
      case 1
      with r1 show ?thesis by (intro exI[of _ r1]) (simp add: defs)
    next
      case 2
      with r1 r3 c show ?thesis by (intro exI[of _ r3]) (simp add: defs)
    next
      case 3
      with r1 r2 r4 foot show ?thesis by (intro exI[of _ r4]) (simp add: defs)
    next
      case 4
      with r1 r2 r4 r5 foot show ?thesis by (intro exI[of _ r5]) (simp add: defs)
    next
      case 5
      with r1 r2 r4 r6 s foot show ?thesis by (intro exI[of _ r6]) (simp add: defs)
    qed
  qed
qed

lemma footer_place_eq:
  assumes "0 < unat p"
  shows "footer_place p desc = rup (front_bytes desc 4) (unat p)
           + rup (ebytes desc SSDFS_LOG_PAYLOAD) (unat p) + rup (cache_room p desc) (unat p)"
proof -
  have "rup (rup (front_bytes desc 4) (unat p) + ebytes desc SSDFS_LOG_PAYLOAD) (unat p) =
      rup (front_bytes desc 4) (unat p) + rup (ebytes desc SSDFS_LOG_PAYLOAD) (unat p)"
    using assms rup_dvd by (rule rup_add_dvd)
  then show ?thesis unfolding footer_place_def
    using rup_add_dvd[OF assms, of "rup (front_bytes desc 4) (unat p) + rup (ebytes desc 5) (unat p)"]
    by (simp add: rup_dvd)
qed

text \<open>The cache is absent, or too large for the page of the header.\<close>

definition cache_separate :: "u32 \<Rightarrow> ssdfs_peb_content \<Rightarrow> bool" where
  "cache_separate p desc \<longleftrightarrow>
     ext_bytes desc SSDFS_MAPTBL_CACHE = 0 \<or> ext_bytes desc SSDFS_MAPTBL_CACHE > inline_capacity p"

lemma extent_place_mono:
  assumes p: "0 < unat p" and cache: "cache_separate p desc" and ij: "0 \<le> i" "i < j" "j \<le> 6"
  shows "extent_place p desc i + ebytes desc i \<le> extent_place p desc j"
proof -
  let ?R = "rup (front_bytes desc 4) (unat p)"
  have R: "front_bytes desc 4 \<le> ?R" using p by (rule rup_ge)
  have c: "ebytes desc 4 \<le> cache_room p desc" using cache by (auto simp: cache_separate_def cache_room_def)
  have e5: "extent_place p desc 5 = ?R + rup (cache_room p desc) (unat p)"
    using rup_add_dvd[OF p rup_dvd] by (simp add: extent_place_def)
  have e6: "extent_place p desc 6 = ?R + rup (ebytes desc 5) (unat p) + rup (cache_room p desc) (unat p)"
    using footer_place_eq[OF p] by (simp add: extent_place_def)
  note ge = rup_ge[OF p, of "cache_room p desc"] rup_ge[OF p, of "ebytes desc 5"]
  have e: "extent_place p desc 4 = ?R"
    "extent_place p desc 3 + ebytes desc 3 = front_bytes desc 4"
    "extent_place p desc 2 + ebytes desc 2 = extent_place p desc 3"
    "extent_place p desc 1 + ebytes desc 1 = extent_place p desc 2"
    "extent_place p desc 0 + ebytes desc 0 = extent_place p desc 1"
    by (simp_all add: extent_place_def front_bytes_def)
  have chain: "extent_place p desc 3 + ebytes desc 3 \<le> extent_place p desc 4"
    "extent_place p desc 4 + ebytes desc 4 \<le> extent_place p desc 5"
    "extent_place p desc 5 + ebytes desc 5 \<le> extent_place p desc 6"
    using e(1,2) e5 e6 R c ge by linarith+
  have "i = 0 \<or> i = 1 \<or> i = 2 \<or> i = 3 \<or> i = 4 \<or> i = 5"
    "j = 1 \<or> j = 2 \<or> j = 3 \<or> j = 4 \<or> j = 5 \<or> j = 6" using ij by linarith+
  then show ?thesis using ij(2) chain e(3-5) by (elim disjE; hypsubst; linarith)
qed

lemma calculate_log_pages_ok:
  fixes layout st desc
  defines "p \<equiv> log_page_size layout st"
  defines "T \<equiv> rup (footer_place p desc + ebytes desc 6 + ebytes desc 7 + ebytes desc 8) (unat p)"
  assumes fit: "log_fits p desc" and H: "ext_offset (extent_of desc 0) = 0"
    and cache: "cache_separate p desc" and erase: "T \<le> unat (erase_size (vl_env layout))"
  shows "\<exists>n. calculate_log_pages layout st desc = Inr n \<and> unat n * unat p = T"
proof -
  note f = fit[unfolded log_fits_def]
  have p0: "0 < unat p" using f by simp
  let ?B = "ext_bytes desc 0 + ext_bytes desc 1 + ext_bytes desc 2 + ext_bytes desc 3"
  have B: "unat ?B = front_bytes desc 4" using f by (simp add: front_bytes_def H unat_add_nw)
  have B': "front_bytes desc 4 = ebytes desc 3 + ebytes desc 2 + ebytes desc 1 + ebytes desc 0"
    by (simp add: front_bytes_def H)
  let ?R = "rup (front_bytes desc 4) (unat p)"
  obtain r1 where r1: "round_page ?B p = Inr r1" "unat r1 = ?R" "unat r1 < front_bytes desc 4 + unat p"
    using round_page_add[OF p0, of ?B 0] f B B' by auto
  let ?b = "if ext_bytes desc 4 > inline_capacity p then r1 else ?B"
  have b_le: "unat ?b \<le> ?R" using r1 B rup_ge[OF p0, of "front_bytes desc 4"] by simp
  obtain r2 where r2: "round_page (?b + ext_bytes desc 4) p = Inr r2"
    "unat r2 = rup (unat ?b + ebytes desc 4) (unat p)" "unat r2 < unat ?b + ebytes desc 4 + unat p"
    by (rule round_page_add[OF p0, of ?b "ext_bytes desc 4"]) (use f r1 b_le B' in linarith)+
  have "unat r2 = ?R + rup (cache_room p desc) (unat p)"
    using cache r2(2) r1(2) B rup_add_dvd[OF p0 rup_dvd]
    by (auto simp: cache_separate_def cache_room_def)
  note u2 = this
  obtain r3 where r3: "round_page (r2 + ext_bytes desc 5) p = Inr r3"
    "unat r3 = rup (unat r2 + ebytes desc 5) (unat p)" "unat r3 < unat r2 + ebytes desc 5 + unat p"
    by (rule round_page_add[OF p0, of r2 "ext_bytes desc 5"]) (use f r1 r2 b_le B' in linarith)+
  have u3: "unat r3 = footer_place p desc"
    using rup_add_dvd[OF p0, of "?R + rup (cache_room p desc) (unat p)" "ebytes desc 5"]
    by (simp add: r3(2) u2 footer_place_eq[OF p0] rup_dvd)
  have lt: "unat r3 + ebytes desc 6 + ebytes desc 7 + ebytes desc 8 + unat p < 2 ^ 32"
    using f r1 r2 r3 b_le B' by linarith
  have s: "unat (r3 + ext_bytes desc 6 + ext_bytes desc 7) = unat r3 + ebytes desc 6 + ebytes desc 7"
    using lt by (simp add: unat_add_nw)
  obtain r4 where r4: "round_page (r3 + ext_bytes desc 6 + ext_bytes desc 7 + ext_bytes desc 8) p = Inr r4"
    "unat r4 = T"
    by (rule round_page_add[OF p0, of "r3 + ext_bytes desc 6 + ext_bytes desc 7" "ext_bytes desc 8"])
      (use lt s u3 in \<open>simp_all add: T_def\<close>)
  have "\<not> erase_size (vl_env layout) < r4" using erase r4(2) by (simp add: word_less_nat_alt)
  moreover have "unat (r4 div p) * unat p = T"
    using r4(2) rup_dvd[of "unat p"] by (simp add: unat_div T_def)
  moreover have "p \<noteq> 0" using p0 by auto
  ultimately show ?thesis
    using r1 r2 r3 r4 by (auto simp: calculate_log_pages_def Let_def p_def[symmetric] split: if_splits)
qed

section \<open>Reservation: lemmas\<close>

definition mark_segs :: "ssdfs_segment_desc list \<Rightarrow> nat \<Rightarrow> nat \<Rightarrow> int \<Rightarrow> int \<Rightarrow> ssdfs_segment_desc list" where
  "mark_segs ss a n ty state =
     map (\<lambda>j. if a \<le> j \<and> j < a + n then (ss ! j)\<lparr>sd_seg_type := ty, sd_seg_state := state\<rparr> else ss ! j)
       [0..<length ss]"

lemma length_mark_segs [simp]: "length (mark_segs ss a n ty st) = length ss"
  by (simp add: mark_segs_def)

lemma nth_mark_segs:
  "j < length ss \<Longrightarrow> mark_segs ss a n ty st ! j =
     (if a \<le> j \<and> j < a + n then (ss ! j)\<lparr>sd_seg_type := ty, sd_seg_state := st\<rparr> else ss ! j)"
  by (simp add: mark_segs_def)

lemma mark_segs_0 [simp]: "mark_segs ss a 0 ty st = ss"
  by (rule nth_equalityI) (simp_all add: nth_mark_segs)

lemma mark_segs_Suc:
  assumes "a + n < length ss"
  shows "(mark_segs ss a n ty st)[a + n := (mark_segs ss a n ty st ! (a + n))
           \<lparr>sd_seg_type := ty, sd_seg_state := st\<rparr>] = mark_segs ss a (Suc n) ty st"
  by (rule nth_equalityI) (use assms in \<open>auto simp: nth_mark_segs nth_list_update\<close>)

definition reserved :: "ssdfs_volume_layout \<Rightarrow> int \<Rightarrow> ssdfs_metadata_desc \<Rightarrow> nat \<Rightarrow> ssdfs_volume_layout" where
  "reserved layout meta_index desc k =
     (let index = vl_last_allocated_seg_index layout + 1 in
      layout\<lparr>vl_meta_array := (vl_meta_array layout)[nat meta_index := desc\<lparr>md_start_seg_index := index\<rparr>],
             vl_segs := mark_segs (vl_segs layout) (nat index) k meta_index (md_seg_state desc),
             vl_last_allocated_seg_index := vl_last_allocated_seg_index layout + int k\<rparr>)"

lemma reserve_step_ok:
  fixes layout
  defines "index \<equiv> vl_last_allocated_seg_index layout + 1"
  assumes "0 \<le> index" and "nat index + k < length (vl_segs layout)"
  shows "reserve_step meta_index (md_seg_state desc) index k (reserved layout meta_index desc k) =
           Inr (reserved layout meta_index desc (Suc k))"
proof -
  have i: "nat (index + int k) = nat index + k" using assms(2) by simp
  show ?thesis
    using assms(2,3) mark_segs_Suc[OF assms(3), of meta_index "md_seg_state desc"]
    by (simp add: reserve_step_def reserved_def Let_def i flip: index_def)
qed

lemma reserve_segments_run:
  fixes layout meta_index
  defines "desc \<equiv> vl_meta_array layout ! nat meta_index"
  defines "index \<equiv> vl_last_allocated_seg_index layout + 1"
  assumes "0 \<le> meta_index" "meta_index < 5" "nat meta_index < length (vl_meta_array layout)"
    and "0 < md_segs_count desc" "0 \<le> index" "index < vl_segs_capacity layout"
    and "k \<le> nat (md_segs_count desc)" "nat index + k \<le> length (vl_segs layout)"
  shows "reserve_segments layout meta_index =
    for_res k (nat (md_segs_count desc)) (reserve_step meta_index (md_seg_state desc) index)
      (reserved layout meta_index desc k)"
proof -
  have "reserve_segments layout meta_index =
      for_res 0 (nat (md_segs_count desc)) (reserve_step meta_index (md_seg_state desc) index)
        (reserved layout meta_index desc 0)"
    using assms(3-8) by (simp add: reserve_segments_def reserved_def Let_def desc_def index_def)
  also have "\<dots> = for_res k (nat (md_segs_count desc)) (reserve_step meta_index (md_seg_state desc) index)
        (reserved layout meta_index desc k)"
    by (rule for_res_run) (use assms(7,9,10) in \<open>auto intro!: reserve_step_ok simp: index_def\<close>)
  finally show ?thesis .
qed

section \<open>Properties\<close>

lemma footer_before_copies:
  assumes "0 < unat p" and "cache_separate p desc" and "0 \<le> i" "i \<le> 6" "6 < j" "j \<le> 8"
  shows "extent_place p desc i + ebytes desc i \<le> extent_place p desc j"
proof -
  have "extent_place p desc i + ebytes desc i \<le> extent_place p desc 6 + ebytes desc 6"
    using extent_place_mono[OF assms(1,2), of i 6] assms(3,4) by (cases "i = 6") auto
  moreover have "footer_place p desc + ebytes desc 6 \<le> extent_place p desc j"
    using rup_ge[OF assms(1), of "footer_place p desc + ebytes desc 6"]
      rup_ge[OF assms(1), of "footer_place p desc + ebytes desc 7 + ebytes desc 6"] assms(5,6)
    by (auto simp: extent_place_def)
  ultimately show ?thesis by (simp add: extent_place_def)
qed

text \<open>
  C23. Where \<^verbatim>\<open>set_extent_start_offset\<close> places the extents of a log whose header is at offset 0 and whose mapping
  table cache is absent or too large for the page of the header. From the segment header to the log footer
  the extents stand one behind the other without overlap and end inside the log: the last byte of the footer
  lies in the last page of \<^verbatim>\<open>calculate_log_pages\<close> at the latest. The copies of the block bitmap and of the offset
  table stand behind all of these, at the first page boundary behind as many bytes as the footer and the
  extents between it and the copy have. This does not keep the copies apart nor inside the log:
  \<open>backup_extents_misplaced\<close>.
\<close>

theorem log_extents_disjoint:
  assumes "log_fits (log_page_size layout st) desc"
    and "ext_offset (extent_of desc SSDFS_SEG_HEADER) = 0"
    and "cache_separate (log_page_size layout st) desc"
    and "extent_place (log_page_size layout st) desc 6 + unat (ext_bytes_count (extent_of desc 6))
         + unat (ext_bytes_count (extent_of desc 7)) + unat (ext_bytes_count (extent_of desc 8))
         + unat (log_page_size layout st) \<le> unat (erase_size (vl_env layout))"
    and "SSDFS_SEG_HEADER \<le> i" and "i < j" and "j \<le> SSDFS_OFFSET_TABLE_BACKUP"
  shows "\<exists>off off' n.
      set_extent_start_offset layout st desc i =
        Inr (put_extent desc i ((extent_of desc i)\<lparr>ext_offset := off\<rparr>)) \<and>
      set_extent_start_offset layout st desc j =
        Inr (put_extent desc j ((extent_of desc j)\<lparr>ext_offset := off'\<rparr>)) \<and>
      calculate_log_pages layout st desc = Inr n \<and>
      (i \<le> SSDFS_LOG_FOOTER \<longrightarrow> unat off + unat (ext_bytes_count (extent_of desc i)) \<le> unat off') \<and>
      (j \<le> SSDFS_LOG_FOOTER \<longrightarrow>
        unat off' + unat (ext_bytes_count (extent_of desc j)) \<le> unat n * unat (log_page_size layout st)) \<and>
      (i = SSDFS_LOG_FOOTER \<and> j = SSDFS_BLOCK_BITMAP_BACKUP \<longrightarrow>
        unat off' = rup (unat off + unat (ext_bytes_count (extent_of desc 6))) (unat (log_page_size layout st))) \<and>
      (i = SSDFS_LOG_FOOTER \<and> j = SSDFS_OFFSET_TABLE_BACKUP \<longrightarrow>
        unat off' = rup (unat off + unat (ext_bytes_count (extent_of desc 6)) + unat (ext_bytes_count (extent_of desc 7)))
          (unat (log_page_size layout st)))"
proof -
  let ?p = "log_page_size layout st"
  have p: "0 < unat ?p" using assms(1) by (simp add: log_fits_def)
  let ?T = "rup (footer_place ?p desc + ebytes desc 6 + ebytes desc 7 + ebytes desc 8) (unat ?p)"
  have foot: "extent_place ?p desc 6 = footer_place ?p desc" by (simp add: extent_place_def)
  have "?T \<le> unat (erase_size (vl_env layout))"
    using rup_less[OF p, of "footer_place ?p desc + ebytes desc 6 + ebytes desc 7 + ebytes desc 8"]
      assms(4) foot by simp
  then obtain n where n: "calculate_log_pages layout st desc = Inr n" "unat n * unat ?p = ?T"
    using calculate_log_pages_ok[OF assms(1,2,3)] by blast
  have T: "extent_place ?p desc 6 + ebytes desc 6 \<le> ?T"
    using rup_ge[OF p, of "footer_place ?p desc + ebytes desc 6 + ebytes desc 7 + ebytes desc 8"] foot
    by simp
  have inside: "j \<le> 6 \<Longrightarrow> extent_place ?p desc j + ebytes desc j \<le> ?T"
    using extent_place_mono[OF p assms(3), of j 6] assms(5-7) T by (cases "j = 6") auto
  have apart: "i \<le> 6 \<Longrightarrow> extent_place ?p desc i + ebytes desc i \<le> extent_place ?p desc j"
    using extent_place_mono[OF p assms(3), of i j] footer_before_copies[OF p assms(3), of i j] assms(5-7)
    by (cases "j \<le> 6") auto
  obtain off where off: "set_extent_start_offset layout st desc i =
        Inr (put_extent desc i ((extent_of desc i)\<lparr>ext_offset := off\<rparr>))" "unat off = extent_place ?p desc i"
    using set_extent_ok[OF assms(1), of i] assms(5-7) by auto
  obtain off' where off': "set_extent_start_offset layout st desc j =
        Inr (put_extent desc j ((extent_of desc j)\<lparr>ext_offset := off'\<rparr>))" "unat off' = extent_place ?p desc j"
    using set_extent_ok[OF assms(1), of j] assms(5-7) by auto
  have "i = 6 \<and> j = 7 \<longrightarrow> unat off' = rup (unat off + ebytes desc 6) (unat ?p)"
    "i = 6 \<and> j = 8 \<longrightarrow> unat off' = rup (unat off + ebytes desc 6 + ebytes desc 7) (unat ?p)"
    using off(2) off'(2) by (simp_all add: extent_place_def ac_simps)
  then show ?thesis using off off' n apart inside by (intro exI[of _ off] exI[of _ off'] exI[of _ n]) simp
qed

text \<open>A log with a header, a block bitmap, an offset table, block descriptors, a payload, a footer.\<close>

definition sample_extent :: "u32 \<Rightarrow> ssdfs_extent_desc" where
  "sample_extent n = \<lparr>ext_state = 0, ext_buf = None, ext_compr_buf = None, ext_offset = 0,
     ext_bytes_count = n, ext_compr_bytes = 0\<rparr>"

definition sample_log :: "u32 \<Rightarrow> u32 \<Rightarrow> ssdfs_peb_content" where
  "sample_log bmap_backup table_backup = \<lparr>pc_leb_id = 0, pc_peb_id = 0,
     pc_extents = map sample_extent [2048, 600, 700, 800, 0, 5000, 2048, bmap_backup, table_backup]\<rparr>"

lemma sample_log_bytes:
  "ext_bytes_count (extent_of (sample_log a b) i) = [2048, 600, 700, 800, 0, 5000, 2048, a, b] ! nat i"
  "ext_offset (extent_of (sample_log a b) i) = 0" if "0 \<le> i" "i < 9"
  using that by (simp_all add: sample_log_def extent_of_def nat_less_iff nth_map del: list.map)
    (simp_all add: sample_extent_def)

theorem log_extents_disjoint_witness:
  "\<exists>off off' n.
     set_extent_start_offset mkfs_volume_layout SSDFS_MAPTBL_SEG_TYPE (sample_log 0 0) 5 =
       Inr (put_extent (sample_log 0 0) 5 ((extent_of (sample_log 0 0) 5)\<lparr>ext_offset := off\<rparr>)) \<and>
     set_extent_start_offset mkfs_volume_layout SSDFS_MAPTBL_SEG_TYPE (sample_log 0 0) 6 =
       Inr (put_extent (sample_log 0 0) 6 ((extent_of (sample_log 0 0) 6)\<lparr>ext_offset := off'\<rparr>)) \<and>
     calculate_log_pages mkfs_volume_layout SSDFS_MAPTBL_SEG_TYPE (sample_log 0 0) = Inr n \<and>
     unat off + 5000 \<le> unat off' \<and> unat off' + 2048 \<le> unat n * 4096"
proof -
  have p: "log_page_size mkfs_volume_layout SSDFS_MAPTBL_SEG_TYPE = 4096"
    by (simp add: log_page_size_def mkfs_volume_layout_def)
  have e: "erase_size (vl_env mkfs_volume_layout) = 8388608" by (simp add: mkfs_volume_layout_def)
  have place: "extent_place 4096 (sample_log 0 0) 6 = 16384"
    by (simp add: extent_place_def footer_place_def front_bytes_def cache_room_def sample_log_bytes rup_def)
  show ?thesis
    using log_extents_disjoint[of mkfs_volume_layout SSDFS_MAPTBL_SEG_TYPE "sample_log 0 0" 5 6]
    unfolding p e place by (simp add: log_fits_def cache_separate_def sample_log_bytes)
qed

text \<open>
  The backup copies behind the footer are misplaced: when the footer and both copies
  together fit into a page, \<^verbatim>\<open>set_extent_start_offset\<close> gives the copy of the block bitmap and the
  copy of the offset table the same offset, and that offset is the end of the log as
  \<^verbatim>\<open>calculate_log_pages\<close> counts it, so both lie outside the log.
\<close>

theorem backup_extents_misplaced:
  assumes "log_fits (log_page_size layout st) desc"
    and "ext_offset (extent_of desc SSDFS_SEG_HEADER) = 0"
    and "cache_separate (log_page_size layout st) desc"
    and "extent_place (log_page_size layout st) desc 6 + unat (log_page_size layout st)
         \<le> unat (erase_size (vl_env layout))"
    and "0 < unat (ext_bytes_count (extent_of desc 6))"
    and "unat (ext_bytes_count (extent_of desc 6)) + unat (ext_bytes_count (extent_of desc 7))
         + unat (ext_bytes_count (extent_of desc 8)) \<le> unat (log_page_size layout st)"
  shows "\<exists>off n.
      set_extent_start_offset layout st desc SSDFS_BLOCK_BITMAP_BACKUP =
        Inr (put_extent desc 7 ((extent_of desc 7)\<lparr>ext_offset := off\<rparr>)) \<and>
      set_extent_start_offset layout st desc SSDFS_OFFSET_TABLE_BACKUP =
        Inr (put_extent desc 8 ((extent_of desc 8)\<lparr>ext_offset := off\<rparr>)) \<and>
      calculate_log_pages layout st desc = Inr n \<and>
      unat off = unat n * unat (log_page_size layout st)"
proof -
  let ?p = "log_page_size layout st" and ?F = "footer_place (log_page_size layout st) desc"
  have p: "0 < unat ?p" using assms(1) by (simp add: log_fits_def)
  have dvd: "unat ?p dvd ?F" unfolding footer_place_def by (rule rup_dvd)
  note add = rup_add_dvd[OF p dvd] and one = rup_le_page
  have e7: "extent_place ?p desc 7 = ?F + unat ?p"
    using add[of "ebytes desc 6"] one[of "ebytes desc 6" "unat ?p"] assms(5,6)
    by (simp add: extent_place_def)
  have e8: "extent_place ?p desc 8 = ?F + unat ?p"
    using add[of "ebytes desc 7 + ebytes desc 6"] one[of "ebytes desc 7 + ebytes desc 6" "unat ?p"] assms(5,6)
    by (simp add: extent_place_def add.assoc)
  have T: "rup (?F + ebytes desc 6 + ebytes desc 7 + ebytes desc 8) (unat ?p) = ?F + unat ?p"
    using add[of "ebytes desc 6 + ebytes desc 7 + ebytes desc 8"]
      one[of "ebytes desc 6 + ebytes desc 7 + ebytes desc 8" "unat ?p"] assms(5,6)
    by (simp add: add.assoc)
  have "?F + unat ?p \<le> unat (erase_size (vl_env layout))"
    using assms(4) by (simp add: extent_place_def)
  then obtain n where n: "calculate_log_pages layout st desc = Inr n" "unat n * unat ?p = ?F + unat ?p"
    using calculate_log_pages_ok[OF assms(1,2,3)] T by auto
  obtain off where o7: "set_extent_start_offset layout st desc 7 =
      Inr (put_extent desc 7 ((extent_of desc 7)\<lparr>ext_offset := off\<rparr>))" "unat off = ?F + unat ?p"
    using set_extent_ok[OF assms(1), of 7] e7 by auto
  obtain off' where o8: "set_extent_start_offset layout st desc 8 =
      Inr (put_extent desc 8 ((extent_of desc 8)\<lparr>ext_offset := off'\<rparr>))" "unat off' = ?F + unat ?p"
    using set_extent_ok[OF assms(1), of 8] e8 by auto
  have "off' = off" using o7(2) o8(2) by (intro word_unat_eqI) simp
  with n o7 o8 show ?thesis by auto
qed

theorem backup_extents_misplaced_witness:
  "\<exists>off n.
     set_extent_start_offset mkfs_volume_layout SSDFS_MAPTBL_SEG_TYPE (sample_log 600 700) 7 =
       Inr (put_extent (sample_log 600 700) 7 ((extent_of (sample_log 600 700) 7)\<lparr>ext_offset := off\<rparr>)) \<and>
     set_extent_start_offset mkfs_volume_layout SSDFS_MAPTBL_SEG_TYPE (sample_log 600 700) 8 =
       Inr (put_extent (sample_log 600 700) 8 ((extent_of (sample_log 600 700) 8)\<lparr>ext_offset := off\<rparr>)) \<and>
     calculate_log_pages mkfs_volume_layout SSDFS_MAPTBL_SEG_TYPE (sample_log 600 700) = Inr n \<and>
     unat off = unat n * 4096"
proof -
  have p: "log_page_size mkfs_volume_layout SSDFS_MAPTBL_SEG_TYPE = 4096"
    by (simp add: log_page_size_def mkfs_volume_layout_def)
  have e: "erase_size (vl_env mkfs_volume_layout) = 8388608" by (simp add: mkfs_volume_layout_def)
  have place: "extent_place 4096 (sample_log 600 700) 6 = 16384"
    by (simp add: extent_place_def footer_place_def front_bytes_def cache_room_def sample_log_bytes rup_def)
  show ?thesis
    using backup_extents_misplaced[of mkfs_volume_layout SSDFS_MAPTBL_SEG_TYPE "sample_log 600 700"]
    unfolding p e place by (simp add: log_fits_def cache_separate_def sample_log_bytes)
qed

text \<open>
  C35. \<^verbatim>\<open>reserve_segments\<close> takes the descriptors right behind the last allocated one: they get the
  type and state of the metadata item, every other descriptor is unchanged, and the last
  allocated index moves behind them. Only the first index is compared with the capacity; when
  the array ends inside the requested range the function writes outside of it.
\<close>

theorem reserve_segments_contiguous:
  assumes "0 \<le> m" and "m < SSDFS_METADATA_ITEMS_MAX" and "nat m < length (vl_meta_array layout)"
    and "0 < md_segs_count (vl_meta_array layout ! nat m)"
    and "0 \<le> vl_last_allocated_seg_index layout + 1"
    and "vl_last_allocated_seg_index layout + 1 < vl_segs_capacity layout"
    and "vl_segs_capacity layout = int (length (vl_segs layout))"
  shows "if nat (vl_last_allocated_seg_index layout + 1) + nat (md_segs_count (vl_meta_array layout ! nat m))
            \<le> length (vl_segs layout)
         then reserve_segments layout m =
                Inr (reserved layout m (vl_meta_array layout ! nat m)
                       (nat (md_segs_count (vl_meta_array layout ! nat m))))
         else reserve_segments layout m = Inl Oob"
proof -
  let ?d = "vl_meta_array layout ! nat m" and ?i = "vl_last_allocated_seg_index layout + 1"
  note run = reserve_segments_run[OF assms(1-6)]
  show ?thesis
  proof (cases "nat ?i + nat (md_segs_count ?d) \<le> length (vl_segs layout)")
    case True
    then show ?thesis using run[of "nat (md_segs_count ?d)"] by simp
  next
    case False
    let ?k = "length (vl_segs layout) - nat ?i"
    have k: "?k < nat (md_segs_count ?d)" "nat ?i + ?k = length (vl_segs layout)"
      using False assms(5-7) by auto
    have "?i + int ?k = int (length (vl_segs layout))" using k(2) assms(5) by linarith
    then have "reserve_step m (md_seg_state ?d) ?i ?k (reserved layout m ?d ?k) = Inl Oob"
      using assms(5) by (simp add: reserve_step_def reserved_def Let_def nth_int_def nth_chk_def)
    then show ?thesis using run[of ?k] k False by (simp add: for_res_step)
  qed
qed

definition sample_seg :: ssdfs_segment_desc where
  "sample_seg = \<lparr>sd_seg_type = 0, sd_seg_state = 0, sd_seg_id = 0, sd_pebs = [], sd_pebs_count = 0,
     sd_pebs_capacity = 0\<rparr>"

definition sample_layout :: "nat \<Rightarrow> ssdfs_volume_layout" where
  "sample_layout n = mkfs_volume_layout
     \<lparr>vl_segs := replicate n sample_seg, vl_segs_capacity := int n, vl_last_allocated_seg_index := 0,
      vl_meta_array := replicate 5 \<lparr>md_start_seg_index = 0, md_segs_count = 2, md_seg_state = 0\<rparr>\<rparr>"

theorem reserve_segments_contiguous_witness:
  "(\<exists>layout'. reserve_segments (sample_layout 3) SSDFS_SEGBMAP = Inr layout') \<and>
   reserve_segments (sample_layout 2) SSDFS_SEGBMAP = Inl Oob"
  using reserve_segments_contiguous[of SSDFS_SEGBMAP "sample_layout 3"]
    reserve_segments_contiguous[of SSDFS_SEGBMAP "sample_layout 2"]
  by (simp add: sample_layout_def)

end
