(* ===== verification/MkfsHeaders.thy ===== *)
theory MkfsHeaders
  imports MkfsCommon
begin

text \<open>
  \<^verbatim>\<open>sbin/mkfs.ssdfs/common.c\<close>, second part: the segment header at the front of a log and the log
  footer or partial log header at its end, as the bytes mkfs writes.

  The parameter \<open>crc32\<close> is zlib's \<^verbatim>\<open>crc32(crc, data, len)\<close>; a null pointer gives the value 0, as
  zlib documents. The numbers are the offsets of the fields in \<^verbatim>\<open>include/ssdfs_abi.h\<close>:
  the segment header keeps a copy of the volume header in its first 1024 bytes, the footer a
  copy of the volume state. The theory shows that a committed segment header is one that the
  tools' search accepts, and that the migration threshold written into a footer does not survive.
\<close>

type_synonym crc_fun = "u32 \<Rightarrow> buf \<Rightarrow> u32"

section \<open>Metadata descriptors\<close>

text \<open>\<^verbatim>\<open>struct ssdfs_metadata_descriptor\<close>: offset 0, size 4, check (bytes 8, flags 10, csum 12).\<close>

definition crc_of :: "crc_fun \<Rightarrow> buf option \<Rightarrow> nat \<Rightarrow> u32 res" where
  "crc_of crc32 b n = (case b of None \<Rightarrow> Inr (NOT 0) | Some m \<Rightarrow> ssdfs_crc32_le (crc32 0) m 0 n)"

definition desc_place :: "ssdfs_volume_layout \<Rightarrow> ssdfs_extent_desc \<Rightarrow> buf \<Rightarrow> nat \<Rightarrow> buf res" where
  "desc_place layout extent mem d =
     bnd (BUG_ON (ext_bytes_count extent = 0 \<or> ext_bytes_count extent \<ge> erase_size (vl_env layout))) (\<lambda>_.
     bnd (BUG_ON (ext_offset extent = 0 \<or> ext_offset extent \<ge> erase_size (vl_env layout))) (\<lambda>_.
     bnd (wr32 mem d (ext_offset extent)) (\<lambda>mem.
     wr32 mem (d + 4) (ext_bytes_count extent))))"

definition desc_check :: "crc_fun \<Rightarrow> ssdfs_extent_desc \<Rightarrow> buf \<Rightarrow> nat \<Rightarrow> u16 \<Rightarrow> buf res" where
  "desc_check crc32 extent mem d bytes =
     bnd (wr16 mem (d + 8) bytes) (\<lambda>mem.
     bnd (wr16 mem (d + 10) SSDFS_CRC32) (\<lambda>mem.
     bnd (wr32 mem (d + 12) 0) (\<lambda>mem.
     bnd (crc_of crc32 (ext_buf extent) (unat bytes)) (\<lambda>csum.
     wr32 mem (d + 12) csum))))"

definition prepare_blkbmap_metadata_descriptor ::
  "crc_fun \<Rightarrow> ssdfs_volume_layout \<Rightarrow> ssdfs_extent_desc \<Rightarrow> buf \<Rightarrow> nat \<Rightarrow> buf res" where
  "prepare_blkbmap_metadata_descriptor crc32 layout extent mem d =
     bnd (desc_place layout extent mem d) (\<lambda>mem. desc_check crc32 extent mem d 16)"

definition prepare_offset_table_metadata_descriptor ::
  "ssdfs_volume_layout \<Rightarrow> ssdfs_extent_desc \<Rightarrow> buf \<Rightarrow> nat \<Rightarrow> buf res" where
  "prepare_offset_table_metadata_descriptor layout extent mem d =
     bnd (desc_place layout extent mem d) (\<lambda>mem.
     bnd (deref (ext_buf extent)) (\<lambda>hdr.
     bnd (rd hdr 8 8) (\<lambda>check. wr mem (d + 8) check)))"

text \<open>Here the number of checked bytes is cut to 16 bits, but the checksum covers them all.\<close>

definition prepare_blk_desc_table_metadata_descriptor ::
  "crc_fun \<Rightarrow> ssdfs_volume_layout \<Rightarrow> ssdfs_extent_desc \<Rightarrow> buf \<Rightarrow> nat \<Rightarrow> buf res" where
  "prepare_blk_desc_table_metadata_descriptor crc32 layout extent mem d =
     bnd (desc_place layout extent mem d) (\<lambda>mem.
     bnd (wr16 mem (d + 8) (ucast (ext_bytes_count extent))) (\<lambda>mem.
     bnd (wr16 mem (d + 10) SSDFS_CRC32) (\<lambda>mem.
     bnd (wr32 mem (d + 12) 0) (\<lambda>mem.
     bnd (crc_of crc32 (ext_buf extent) (unat (ext_bytes_count extent))) (\<lambda>csum.
     wr32 mem (d + 12) csum)))))"

definition prepare_payload_metadata_descriptor ::
  "crc_fun \<Rightarrow> ssdfs_volume_layout \<Rightarrow> ssdfs_extent_desc \<Rightarrow> buf \<Rightarrow> nat \<Rightarrow> buf res" where
  "prepare_payload_metadata_descriptor crc32 layout extent mem d =
     bnd (desc_place layout extent mem d) (\<lambda>mem.
     desc_check crc32 extent mem d
       (if ext_bytes_count extent \<ge> PAGE_CACHE_SIZE then PAGE_CACHE_SIZE
        else ucast (ext_bytes_count extent)))"

text \<open>The checksum of the cache runs over its fragments; \<^verbatim>\<open>bytes_count\<close> of a fragment header is at 14.\<close>

definition cache_csum_step ::
  "crc_fun \<Rightarrow> buf \<Rightarrow> u64 \<Rightarrow> nat \<Rightarrow> u32 \<times> u32 \<Rightarrow> (u32 \<times> u32) res" where
  "cache_csum_step crc32 mem fragment_size i = (\<lambda>(csum, bytes).
     let ptr = i * unat fragment_size in
     bnd (rd16 mem (ptr + 14)) (\<lambda>sz.
     bnd (rd mem ptr (unat sz)) (\<lambda>frag.
     Inr (crc32 csum frag, bytes + ucast sz))))"

definition prepare_maptbl_cache_metadata_descriptor ::
  "crc_fun \<Rightarrow> ssdfs_volume_layout \<Rightarrow> ssdfs_extent_desc \<Rightarrow> buf \<Rightarrow> nat \<Rightarrow> buf res" where
  "prepare_maptbl_cache_metadata_descriptor crc32 layout extent mem d =
     bnd (BUG_ON (ext_bytes_count extent = 0 \<or> ext_bytes_count extent \<ge> erase_size (vl_env layout))) (\<lambda>_.
     bnd (BUG_ON (ext_offset extent = 0 \<or> ext_offset extent \<ge> erase_size (vl_env layout))) (\<lambda>_.
     bnd (BUG_ON (ext_buf extent = None)) (\<lambda>_.
     bnd (wr32 mem d (ext_offset extent)) (\<lambda>mem.
     bnd (wr32 mem (d + 4) (ext_bytes_count extent)) (\<lambda>mem.
     bnd (BUG_ON (ext_bytes_count extent \<ge> ucast U16_MAX)) (\<lambda>_.
     bnd (deref (ext_buf extent)) (\<lambda>cache.
     bnd (for_res 0 (unat (mc_fragments_count (vl_maptbl_cache layout)))
            (cache_csum_step crc32 cache (mc_fragment_size (vl_maptbl_cache layout))) (0, 0))
       (\<lambda>(csum, bytes).
     bnd (BUG_ON (bytes \<ge> ucast U16_MAX)) (\<lambda>_.
     bnd (wr16 mem (d + 8) (ucast bytes)) (\<lambda>mem.
     bnd (wr16 mem (d + 10) SSDFS_CRC32) (\<lambda>mem.
     wr32 mem (d + 12) (NOT csum))))))))))))"

definition prepare_footer_metadata_descriptor ::
  "ssdfs_volume_layout \<Rightarrow> ssdfs_extent_desc \<Rightarrow> buf \<Rightarrow> nat \<Rightarrow> buf res" where
  "prepare_footer_metadata_descriptor layout extent mem d =
     bnd (desc_place layout extent mem d) (\<lambda>mem.
     bnd (deref (ext_buf extent)) (\<lambda>footer.
     bnd (rd footer 8 8) (\<lambda>check. wr mem (d + 8) check)))"

section \<open>The segment header\<close>

definition define_segment_header_layout ::
  "bool \<Rightarrow> ssdfs_volume_layout \<Rightarrow> int \<Rightarrow> int \<Rightarrow> ssdfs_volume_layout res" where
  "define_segment_header_layout alloc_ok layout seg_index peb_index =
     bnd (fail_if (seg_index \<ge> vl_segs_capacity layout) EINVAL) (\<lambda>_.
     bnd (nth_int (vl_segs layout) seg_index) (\<lambda>seg_desc.
     bnd (fail_if (peb_index \<ge> int (unat (sd_pebs_capacity seg_desc))) EINVAL) (\<lambda>_.
     bnd (nth_int (sd_pebs seg_desc) peb_index) (\<lambda>peb_desc.
     let extent = extent_of peb_desc SSDFS_SEG_HEADER in
     bnd (BUG_ON (ext_buf extent \<noteq> None)) (\<lambda>_.
     bnd (fail_if (\<not> alloc_ok) ENOMEM) (\<lambda>_.
     put_peb layout seg_index peb_index
       (put_extent peb_desc SSDFS_SEG_HEADER
          (extent\<lparr>ext_buf := Some (replicate 2048 0), ext_bytes_count := sizeof_segment_header\<rparr>))))))))"

text \<open>The fields \<^verbatim>\<open>pre_commit_segment_header\<close> writes into the header.\<close>

definition segment_header_fields ::
  "ssdfs_volume_layout \<Rightarrow> ssdfs_segment_desc \<Rightarrow> ssdfs_peb_content \<Rightarrow> u16 \<Rightarrow> buf \<Rightarrow> buf res" where
  "segment_header_fields layout seg_desc peb_desc seg_type hdr =
     bnd (wr hdr 0 (sb_vh (vl_sb layout))) (\<lambda>hdr.
     bnd (wr16 hdr 4 SSDFS_SEGMENT_HDR_MAGIC) (\<lambda>hdr.
     bnd (wr64 hdr 0x400 (vl_create_timestamp layout)) (\<lambda>hdr.
     bnd (wr64 hdr 0x408 (vl_create_cno layout)) (\<lambda>hdr.
     bnd (wr16 hdr 0x412 seg_type) (\<lambda>hdr.
     bnd (wr8 hdr 0x4A8 0) (\<lambda>hdr.
     bnd (wr8 hdr 0x4A9 1) (\<lambda>hdr.
     bnd (wr64 hdr 0x4B0 (vl_create_timestamp layout)) (\<lambda>hdr.
     bnd (wr64 hdr 0x4B8 (sd_seg_id seg_desc)) (\<lambda>hdr.
     bnd (wr64 hdr 0x4C0 (pc_leb_id peb_desc)) (\<lambda>hdr.
     bnd (wr64 hdr 0x4C8 (pc_peb_id peb_desc)) (\<lambda>hdr.
     wr64 hdr 0x4D0 U64_MAX)))))))))))"

definition pre_commit_segment_header ::
  "ssdfs_volume_layout \<Rightarrow> int \<Rightarrow> int \<Rightarrow> u16 \<Rightarrow> ssdfs_volume_layout res" where
  "pre_commit_segment_header layout seg_index peb_index seg_type =
     bnd (fail_if (seg_index \<ge> vl_segs_capacity layout) EINVAL) (\<lambda>_.
     bnd (nth_int (vl_segs layout) seg_index) (\<lambda>seg_desc.
     bnd (fail_if (peb_index \<ge> int (unat (sd_pebs_capacity seg_desc))) EINVAL) (\<lambda>_.
     bnd (nth_int (sd_pebs seg_desc) peb_index) (\<lambda>peb_desc.
     let extent = extent_of peb_desc SSDFS_SEG_HEADER in
     bnd (BUG_ON (ext_buf extent = None)) (\<lambda>_.
     bnd (BUG_ON (seg_type > 8)) (\<lambda>_.
     bnd (deref (ext_buf extent)) (\<lambda>hdr.
     bnd (segment_header_fields layout seg_desc peb_desc seg_type hdr) (\<lambda>hdr.
     put_peb layout seg_index peb_index
       (put_extent peb_desc SSDFS_SEG_HEADER (extent\<lparr>ext_buf := Some hdr\<rparr>))))))))))"

text \<open>The bits of \<^verbatim>\<open>seg_flags\<close>.\<close>

abbreviation (input) SSDFS_SEG_HDR_HAS_BLK_BMAP :: u32 where "SSDFS_SEG_HDR_HAS_BLK_BMAP \<equiv> 0x1"
abbreviation (input) SSDFS_SEG_HDR_HAS_OFFSET_TABLE :: u32 where "SSDFS_SEG_HDR_HAS_OFFSET_TABLE \<equiv> 0x2"
abbreviation (input) SSDFS_LOG_HAS_COLD_PAYLOAD :: u32 where "SSDFS_LOG_HAS_COLD_PAYLOAD \<equiv> 0x4"
abbreviation (input) SSDFS_LOG_HAS_BLK_DESC_CHAIN :: u32 where "SSDFS_LOG_HAS_BLK_DESC_CHAIN \<equiv> 0x20"
abbreviation (input) SSDFS_LOG_HAS_MAPTBL_CACHE :: u32 where "SSDFS_LOG_HAS_MAPTBL_CACHE \<equiv> 0x40"
abbreviation (input) SSDFS_LOG_HAS_FOOTER :: u32 where "SSDFS_LOG_HAS_FOOTER \<equiv> 0x80"
abbreviation (input) SSDFS_LOG_IS_PARTIAL :: u32 where "SSDFS_LOG_IS_PARTIAL \<equiv> 0x100"
abbreviation (input) SSDFS_LOG_HAS_PARTIAL_HEADER :: u32 where "SSDFS_LOG_HAS_PARTIAL_HEADER \<equiv> 0x200"
abbreviation (input) SSDFS_PARTIAL_HEADER_INSTEAD_FOOTER :: u32 where
  "SSDFS_PARTIAL_HEADER_INSTEAD_FOOTER \<equiv> 0x400"

text \<open>
  The length of a full log by type of segment, and whether this log is a partial one. The
  two callers differ in the flags they set for a partial log.
\<close>

definition define_log_pages :: "ssdfs_volume_layout \<Rightarrow> int \<Rightarrow> u32 \<Rightarrow> (u32 \<times> bool) res" where
  "define_log_pages layout seg_type blks_count =
     bnd (div_chk (erase_size (vl_env layout)) (vl_page_size layout)) (\<lambda>pages_per_peb.
     let cap = (\<lambda>n. min n SSDFS_LOG_MAX_PAGES);
         checked = (\<lambda>n partial.
           bnd (BUG_ON (n = 0)) (\<lambda>_. bnd (BUG_ON (n \<ge> ucast U16_MAX)) (\<lambda>_. Inr (n, partial)))) in
     bnd (BUG_ON (cap pages_per_peb \<ge> ucast U16_MAX)) (\<lambda>_.
     bnd (BUG_ON (blks_count \<ge> ucast U16_MAX)) (\<lambda>_.
     if seg_type = SSDFS_INITIAL_SNAPSHOT then checked (cap blks_count) False
     else if seg_type = SSDFS_SUPERBLOCK then checked (cap (ucast (sb_log_pages (vl_sb layout)))) False
     else if seg_type = SSDFS_SEGBMAP then
       let n = cap (ucast (sg_log_pages (vl_segbmap layout))) in checked n (n \<noteq> blks_count)
     else if seg_type = SSDFS_PEB_MAPPING_TABLE then
       let n = cap (ucast (mt_log_pages (vl_maptbl layout))) in checked n (n \<noteq> blks_count)
     else Inr (cap pages_per_peb, False))))"

text \<open>\<open>when_ext\<close>: the descriptor and its flag are written for an extent that has bytes.\<close>

definition when_ext ::
  "ssdfs_peb_content \<Rightarrow> int \<Rightarrow> (ssdfs_extent_desc \<Rightarrow> buf \<Rightarrow> buf res) \<Rightarrow> u32 \<Rightarrow> buf \<times> u32 \<Rightarrow> (buf \<times> u32) res" where
  "when_ext peb_desc i prepare flag = (\<lambda>(hdr, flags).
     if ext_bytes_count (extent_of peb_desc i) > 0
     then bnd (prepare (extent_of peb_desc i) hdr) (\<lambda>hdr. Inr (hdr, flags OR flag))
     else Inr (hdr, flags))"

text \<open>\<open>seal\<close>: the check of a header at 8 over the whole header, computed with a zero checksum.\<close>

definition seal :: "crc_fun \<Rightarrow> buf \<Rightarrow> buf res" where
  "seal crc32 hdr =
     bnd (wr16 hdr 8 2048) (\<lambda>hdr.
     bnd (wr16 hdr 10 SSDFS_CRC32) (\<lambda>hdr.
     bnd (wr32 hdr 12 0) (\<lambda>hdr.
     bnd (ssdfs_crc32_le (crc32 0) hdr 0 2048) (\<lambda>csum.
     wr32 hdr 12 csum))))"

text \<open>The descriptors of the extents the log has; the array is at 0x418.\<close>

definition segment_header_descriptors ::
  "crc_fun \<Rightarrow> ssdfs_volume_layout \<Rightarrow> ssdfs_segment_desc \<Rightarrow> ssdfs_peb_content \<Rightarrow> buf \<times> u32 \<Rightarrow>
   (buf \<times> u32) res" where
  "segment_header_descriptors crc32 layout seg_desc peb_desc st =
     (let d = (\<lambda>i. 0x418 + 16 * i) in
     bnd (when_ext peb_desc SSDFS_BLOCK_BITMAP
            (\<lambda>e h. prepare_blkbmap_metadata_descriptor crc32 layout e h (d 0))
            SSDFS_SEG_HDR_HAS_BLK_BMAP st) (\<lambda>st.
     bnd (when_ext peb_desc SSDFS_OFFSET_TABLE
            (\<lambda>e h. prepare_offset_table_metadata_descriptor layout e h (d 2))
            SSDFS_SEG_HDR_HAS_OFFSET_TABLE st) (\<lambda>st.
     bnd (when_ext peb_desc SSDFS_BLOCK_DESCRIPTORS
            (\<lambda>e h. prepare_blk_desc_table_metadata_descriptor crc32 layout e h (d 6))
            SSDFS_LOG_HAS_BLK_DESC_CHAIN st) (\<lambda>st.
     bnd (when_ext peb_desc SSDFS_MAPTBL_CACHE
            (\<lambda>e h. bnd (BUG_ON (sd_seg_type seg_desc \<noteq> SSDFS_SUPERBLOCK)) (\<lambda>_.
                   prepare_maptbl_cache_metadata_descriptor crc32 layout e h (d 7)))
            SSDFS_LOG_HAS_MAPTBL_CACHE st) (\<lambda>st.
     bnd (when_ext peb_desc SSDFS_LOG_PAYLOAD
            (\<lambda>e h. prepare_payload_metadata_descriptor crc32 layout e h (d 3))
            SSDFS_LOG_HAS_COLD_PAYLOAD st) (\<lambda>st.
     when_ext peb_desc SSDFS_LOG_FOOTER
       (\<lambda>e h. prepare_footer_metadata_descriptor layout e h (d 8))
       (if snd st AND SSDFS_LOG_IS_PARTIAL \<noteq> 0 then SSDFS_PARTIAL_HEADER_INSTEAD_FOOTER
        else SSDFS_LOG_HAS_FOOTER) st))))))"

definition commit_segment_header ::
  "crc_fun \<Rightarrow> ssdfs_volume_layout \<Rightarrow> int \<Rightarrow> int \<Rightarrow> u32 \<Rightarrow> ssdfs_volume_layout res" where
  "commit_segment_header crc32 layout seg_index peb_index blks_count =
     bnd (nth_int (vl_segs layout) seg_index) (\<lambda>seg_desc.
     bnd (nth_int (sd_pebs seg_desc) peb_index) (\<lambda>peb_desc.
     let hdr_ext = extent_of peb_desc SSDFS_SEG_HEADER in
     bnd (define_log_pages layout (sd_seg_type seg_desc) blks_count) (\<lambda>(log_pages, partial).
     bnd (BUG_ON (ext_buf hdr_ext = None)) (\<lambda>_.
     bnd (deref (ext_buf hdr_ext)) (\<lambda>hdr.
     bnd (wr16 hdr 0x410 (ucast log_pages)) (\<lambda>hdr.
     bnd (segment_header_descriptors crc32 layout seg_desc peb_desc
            (hdr, if partial then SSDFS_LOG_IS_PARTIAL else 0)) (\<lambda>(hdr, flags).
     bnd (wr32 hdr 0x414 flags) (\<lambda>hdr.
     bnd (seal crc32 hdr) (\<lambda>hdr.
     put_peb layout seg_index peb_index
       (put_extent peb_desc SSDFS_SEG_HEADER (hdr_ext\<lparr>ext_buf := Some hdr\<rparr>)))))))))))"

section \<open>The log footer\<close>

definition define_log_footer_layout ::
  "bool \<Rightarrow> ssdfs_volume_layout \<Rightarrow> int \<Rightarrow> int \<Rightarrow> ssdfs_volume_layout res" where
  "define_log_footer_layout alloc_ok layout seg_index peb_index =
     bnd (fail_if (seg_index \<ge> vl_segs_capacity layout) EINVAL) (\<lambda>_.
     bnd (nth_int (vl_segs layout) seg_index) (\<lambda>seg_desc.
     bnd (fail_if (peb_index \<ge> int (unat (sd_pebs_capacity seg_desc))) EINVAL) (\<lambda>_.
     bnd (nth_int (sd_pebs seg_desc) peb_index) (\<lambda>peb_desc.
     let extent = extent_of peb_desc SSDFS_LOG_FOOTER in
     bnd (BUG_ON (ext_buf extent \<noteq> None)) (\<lambda>_.
     bnd (BUG_ON (2048 > vl_page_size layout)) (\<lambda>_.
     bnd (fail_if (\<not> alloc_ok) ENOMEM) (\<lambda>_.
     put_peb layout seg_index peb_index
       (put_extent peb_desc SSDFS_LOG_FOOTER
          (extent\<lparr>ext_buf := Some (replicate 2048 0), ext_bytes_count := 2048\<rparr>)))))))))"

definition pre_commit_log_footer :: "ssdfs_volume_layout \<Rightarrow> int \<Rightarrow> int \<Rightarrow> ssdfs_volume_layout res" where
  "pre_commit_log_footer layout seg_index peb_index =
     bnd (fail_if (seg_index \<ge> vl_segs_capacity layout) EINVAL) (\<lambda>_.
     bnd (nth_int (vl_segs layout) seg_index) (\<lambda>seg_desc.
     bnd (fail_if (peb_index \<ge> int (unat (sd_pebs_capacity seg_desc))) EINVAL) (\<lambda>_.
     bnd (nth_int (sd_pebs seg_desc) peb_index) (\<lambda>peb_desc.
     bnd (BUG_ON (ext_buf (extent_of peb_desc SSDFS_LOG_FOOTER) = None)) (\<lambda>_.
     Inr layout)))))"

text \<open>
  The descriptors of the backup copies. \<open>d\<close> is the offset of the descriptor array: in the
  footer and in the partial log header the bits of the two copies are the same.
\<close>

definition backup_descriptors ::
  "crc_fun \<Rightarrow> ssdfs_volume_layout \<Rightarrow> ssdfs_peb_content \<Rightarrow> nat \<Rightarrow> buf \<times> u32 \<Rightarrow> (buf \<times> u32) res" where
  "backup_descriptors crc32 layout peb_desc d st =
     bnd (if bb_has_backup_copy (vl_blkbmap layout) then
            when_ext peb_desc SSDFS_BLOCK_BITMAP_BACKUP
              (\<lambda>e h. prepare_blkbmap_metadata_descriptor crc32 layout e h d) 0x1 st
          else Inr st) (\<lambda>st.
     if bt_has_backup_copy (vl_blk2off_tbl layout) then
       when_ext peb_desc SSDFS_OFFSET_TABLE_BACKUP
         (\<lambda>e h. prepare_offset_table_metadata_descriptor layout e h (d + 32)) 0x2 st
     else Inr st)"

abbreviation (input) SSDFS_LOG_FOOTER_MAGIC :: u16 where "SSDFS_LOG_FOOTER_MAGIC \<equiv> 0x4C46"
abbreviation (input) SSDFS_PARTIAL_LOG_HDR_MAGIC :: u16 where "SSDFS_PARTIAL_LOG_HDR_MAGIC \<equiv> 0x5048"

definition commit_log_footer_full ::
  "crc_fun \<Rightarrow> ssdfs_volume_layout \<Rightarrow> int \<Rightarrow> int \<Rightarrow> int \<Rightarrow> u32 \<Rightarrow> ssdfs_volume_layout res" where
  "commit_log_footer_full crc32 layout seg_type seg_index peb_index blks_count =
     (let page_size = (if seg_type = SSDFS_SUPERBLOCK \<or> seg_type = SSDFS_INITIAL_SNAPSHOT
                       then 4096 else vl_page_size layout) in
      bnd (peb_at layout seg_index peb_index) (\<lambda>peb_desc.
      let extent = extent_of peb_desc SSDFS_LOG_FOOTER in
      bnd (BUG_ON (ext_buf extent = None)) (\<lambda>_.
      bnd (deref (ext_buf extent)) (\<lambda>f.
      bnd (wr f 0 (sb_vs (vl_sb layout))) (\<lambda>f.
      bnd (wr16 f 4 SSDFS_LOG_FOOTER_MAGIC) (\<lambda>f.
      bnd (wr64 f 0x400 (vl_create_timestamp layout)) (\<lambda>f.
      bnd (wr64 f 0x450 (vl_create_timestamp layout)) (\<lambda>f.
      bnd (wr64 f 0x408 (vl_create_cno layout)) (\<lambda>f.
      bnd (wr32 f 0x410 (blks_count * page_size)) (\<lambda>f.
      bnd (backup_descriptors crc32 layout peb_desc 0x420 (f, 0)) (\<lambda>(f, log_flags).
      bnd (wr32 f 0xAC (vl_calculated_open_zones layout)) (\<lambda>f.
      bnd (wr32 f 0x414 log_flags) (\<lambda>f.
      bnd (seal crc32 f) (\<lambda>f.
      put_peb layout seg_index peb_index
        (put_extent peb_desc SSDFS_LOG_FOOTER (extent\<lparr>ext_buf := Some f\<rparr>))))))))))))))))"

text \<open>\<open>copy_from src off n f dst\<close> is \<^verbatim>\<open>memcpy\<close> of \<open>n\<close> bytes of another structure.\<close>

definition copy_from :: "buf \<Rightarrow> nat \<Rightarrow> nat \<Rightarrow> buf \<Rightarrow> nat \<Rightarrow> buf res" where
  "copy_from src off n f dst = bnd (rd src off n) (wr f dst)"

definition commit_partial_log_header ::
  "crc_fun \<Rightarrow> ssdfs_volume_layout \<Rightarrow> int \<Rightarrow> int \<Rightarrow> u32 \<Rightarrow> ssdfs_volume_layout res" where
  "commit_partial_log_header crc32 layout seg_index peb_index blks_count =
     bnd (nth_int (vl_segs layout) seg_index) (\<lambda>seg_desc.
     bnd (nth_int (sd_pebs seg_desc) peb_index) (\<lambda>peb_desc.
     let extent = extent_of peb_desc SSDFS_LOG_FOOTER;
         vs = sb_vs (vl_sb layout); vh = sb_vh (vl_sb layout) in
     bnd (define_log_pages layout (sd_seg_type seg_desc) blks_count) (\<lambda>(log_pages, partial).
     bnd (BUG_ON (ext_buf extent = None)) (\<lambda>_.
     bnd (deref (ext_buf extent)) (\<lambda>f.
     bnd (memset f 0 0 2048) (\<lambda>f.
     bnd (wr32 f 0 SSDFS_SUPER_MAGIC) (\<lambda>f.
     bnd (wr16 f 4 SSDFS_PARTIAL_LOG_HDR_MAGIC) (\<lambda>f.
     bnd (wr8 f 6 1) (\<lambda>f.
     bnd (wr8 f 7 20) (\<lambda>f.
     bnd (wr64 f 0x10 (vl_create_timestamp layout)) (\<lambda>f.
     bnd (wr64 f 0x3E8 (vl_create_timestamp layout)) (\<lambda>f.
     bnd (wr64 f 0x18 (vl_create_cno layout)) (\<lambda>f.
     let log_flags = (if partial then SSDFS_LOG_IS_PARTIAL OR SSDFS_LOG_HAS_PARTIAL_HEADER OR
                                      SSDFS_PARTIAL_HEADER_INSTEAD_FOOTER else 0) in
     bnd (wr16 f 0x20 (ucast log_pages)) (\<lambda>f.
     bnd (wr16 f 0x22 (word_of_int (META2SEG_TYPE (sd_seg_type seg_desc)))) (\<lambda>f.
     bnd (wr32 f 0x28 (blks_count * vl_page_size layout)) (\<lambda>f.
     bnd (copy_from vs 0x30 4 f 0x2C) (\<lambda>f.
     bnd (backup_descriptors crc32 layout peb_desc 0x30 (f, log_flags)) (\<lambda>(f, log_flags).
     bnd (copy_from vs 0x10 8 f 0xC0) (\<lambda>f.
     bnd (copy_from vs 0x18 8 f 0xC8) (\<lambda>f.
     bnd (copy_from vs 0xB0 256 f 0xD0) (\<lambda>f.
     bnd (copy_from vs 0x200 128 f 0x1D0) (\<lambda>f.
     bnd (copy_from vs 0x280 128 f 0x250) (\<lambda>f.
     bnd (copy_from vs 0x300 128 f 0x2D0) (\<lambda>f.
     bnd (wr32 f 0x350 0) (\<lambda>f.
     bnd (copy_from vh 0x10 4 f 0x354) (\<lambda>f.
     bnd (copy_from vh 0x2C 4 f 0x358) (\<lambda>f.
     bnd (copy_from vh 0x1DE 2 f 0x35C) (\<lambda>f.
     bnd (wr32 f 0x3E0 (vl_calculated_open_zones layout)) (\<lambda>f.
     bnd (wr64 f 0x480 (sd_seg_id seg_desc)) (\<lambda>f.
     bnd (wr64 f 0x488 (pc_leb_id peb_desc)) (\<lambda>f.
     bnd (wr64 f 0x490 (pc_peb_id peb_desc)) (\<lambda>f.
     bnd (wr64 f 0x498 U64_MAX) (\<lambda>f.
     bnd (wr64 f 0x4B0 (vl_create_timestamp layout)) (\<lambda>f.
     bnd (wr f 0x4A0 (vl_uuid layout)) (\<lambda>f.
     bnd (wr32 f 0x24 log_flags) (\<lambda>f.
     bnd (seal crc32 f) (\<lambda>f.
     put_peb layout seg_index peb_index
       (put_extent peb_desc SSDFS_LOG_FOOTER
          (extent\<lparr>ext_buf := Some f\<rparr>)))))))))))))))))))))))))))))))))))))))"

text \<open>An unknown type of segment is only reported; \<^verbatim>\<open>UINT_MAX / layout->page_size\<close> bounds the size.\<close>

definition commit_log_footer ::
  "crc_fun \<Rightarrow> ssdfs_volume_layout \<Rightarrow> int \<Rightarrow> int \<Rightarrow> u32 \<Rightarrow> ssdfs_volume_layout res" where
  "commit_log_footer crc32 layout seg_index peb_index blks_count =
     bnd (div_chk U32_MAX (vl_page_size layout)) (\<lambda>max_blks.
     bnd (BUG_ON (blks_count > max_blks)) (\<lambda>_.
     bnd (nth_int (vl_segs layout) seg_index) (\<lambda>seg_desc.
     let ty = sd_seg_type seg_desc;
         full = commit_log_footer_full crc32 layout ty seg_index peb_index blks_count;
         partial = commit_partial_log_header crc32 layout seg_index peb_index blks_count in
     if ty = SSDFS_INITIAL_SNAPSHOT \<or> ty = SSDFS_SUPERBLOCK then full
     else if ty = SSDFS_SEGBMAP then
       (if ucast (sg_log_pages (vl_segbmap layout)) \<noteq> blks_count then partial else full)
     else if ty = SSDFS_PEB_MAPPING_TABLE then
       (if ucast (mt_log_pages (vl_maptbl layout)) \<noteq> blks_count then partial else full)
     else Inr layout)))"

text \<open>\<^verbatim>\<open>segbmap_define_migration_threshold\<close> of \<^verbatim>\<open>segment_bitmap.c\<close>: field 0x98 of the volume state.\<close>

definition segbmap_define_migration_threshold ::
  "ssdfs_volume_layout \<Rightarrow> int \<Rightarrow> int \<Rightarrow> ssdfs_volume_layout res" where
  "segbmap_define_migration_threshold layout seg_index peb_index =
     bnd (peb_at layout seg_index peb_index) (\<lambda>peb_desc.
     let lf_extent = extent_of peb_desc SSDFS_LOG_FOOTER in
     bnd (BUG_ON (ext_buf lf_extent = None)) (\<lambda>_.
     bnd (deref (ext_buf lf_extent)) (\<lambda>footer.
     bnd (wr16 footer 0x98 (sg_migration_threshold (vl_segbmap layout))) (\<lambda>footer.
     put_peb layout seg_index peb_index
       (put_extent peb_desc SSDFS_LOG_FOOTER (lf_extent\<lparr>ext_buf := Some footer\<rparr>))))))"

section \<open>Lemmas\<close>

definition keeps_front :: "nat \<Rightarrow> buf \<Rightarrow> buf \<Rightarrow> bool" where
  "keeps_front n h h' \<longleftrightarrow> length h' = length h \<and> take n h' = take n h"

lemma keeps_front_trans: "keeps_front n a b \<Longrightarrow> keeps_front n b c \<Longrightarrow> keeps_front n a c"
  by (simp add: keeps_front_def)

lemma keeps_front_refl [simp]: "keeps_front n a a"
  by (simp add: keeps_front_def)

lemmas write_eq_Inr = field_eq_Inr wr_eq_Inr rd_eq_Inr bnd_eq_Inr

lemma prepare_keeps:
  assumes "8 \<le> d"
  shows "prepare_blkbmap_metadata_descriptor c layout e h d = Inr h' \<Longrightarrow> keeps_front 8 h h'"
    and "prepare_offset_table_metadata_descriptor layout e h d = Inr h' \<Longrightarrow> keeps_front 8 h h'"
    and "prepare_blk_desc_table_metadata_descriptor c layout e h d = Inr h' \<Longrightarrow> keeps_front 8 h h'"
    and "prepare_payload_metadata_descriptor c layout e h d = Inr h' \<Longrightarrow> keeps_front 8 h h'"
    and "prepare_maptbl_cache_metadata_descriptor c layout e h d = Inr h' \<Longrightarrow> keeps_front 8 h h'"
    and "prepare_footer_metadata_descriptor layout e h d = Inr h' \<Longrightarrow> keeps_front 8 h h'"
  using assms
  by (auto simp: prepare_blkbmap_metadata_descriptor_def prepare_offset_table_metadata_descriptor_def
      prepare_blk_desc_table_metadata_descriptor_def prepare_payload_metadata_descriptor_def
      prepare_maptbl_cache_metadata_descriptor_def prepare_footer_metadata_descriptor_def
      desc_place_def desc_check_def write_eq_Inr keeps_front_def take_put take_overwrite)

lemma when_ext_keeps:
  assumes "when_ext peb i prepare flag st = Inr st'"
    and "\<And>e x y. prepare e x = Inr y \<Longrightarrow> keeps_front 8 x y"
  shows "keeps_front 8 (fst st) (fst st')"
  using assms by (cases st) (auto simp: when_ext_def bnd_eq_Inr split: if_splits)

lemma bnd_keeps:
  assumes "bnd m f = Inr st'" and "\<And>x. m = Inr x \<Longrightarrow> keeps_front 8 (fst st) (fst x)"
    and "\<And>x. f x = Inr st' \<Longrightarrow> keeps_front 8 (fst x) (fst st')"
  shows "keeps_front 8 (fst st) (fst st')"
  using assms by (auto simp: bnd_eq_Inr intro: keeps_front_trans)

lemma descriptors_keep:
  assumes "segment_header_descriptors crc32 layout seg peb st = Inr st'"
  shows "keeps_front 8 (fst st) (fst st')"
  using assms unfolding segment_header_descriptors_def Let_def
  by (elim bnd_keeps when_ext_keeps)
    (auto simp: bnd_eq_Inr dest: prepare_keeps[rotated])

lemma seal_ok:
  assumes "seal crc32 h = Inr h'"
  shows "keeps_front 8 h h' \<and> is_csum_valid (crc32 0) h' 8 0 2048 = Inr (True, h')"
proof -
  let ?h = "put16 (put16 h 8 2048) 10 1"
  have len: "2048 \<le> length h"
    using assms by (auto simp: seal_def ssdfs_crc32_le_def write_eq_Inr)
  then have ready: "check_ready ?h 8 0 2048" by (simp add: check_ready_def buf_simps)
  have "seal crc32 h = ssdfs_calculate_csum (crc32 0) ?h 8 0 2048"
    using len by (simp add: seal_def ssdfs_calculate_csum_def buf_simps)
  then have h': "h' = put32 ?h 12 (csum_of (crc32 0) ?h 8 0)"
    using assms calculate_csum_ok[OF ready, of "crc32 0"] by simp
  have "check_ready h' 8 0 2048" "get32 h' 12 = csum_of (crc32 0) h' 8 0"
    using csum_put[of 8 ?h] ready len by (simp_all add: h' buf_simps)
  then have "is_csum_valid (crc32 0) h' 8 0 2048 = Inr (True, h')"
    using is_csum_valid_ok[of h' 8 0 2048 "crc32 0"] by simp
  moreover have "keeps_front 8 h h'" using len by (simp add: h' keeps_front_def take_put)
  ultimately show ?thesis by simp
qed

lemma header_fields_front:
  assumes "segment_header_fields layout seg peb ty h = Inr h'"
    and "length (sb_vh (vl_sb layout)) = 1024"
  shows "get32 h' 0 = get32 (sb_vh (vl_sb layout)) 0 \<and> get16 h' 4 = SSDFS_SEGMENT_HDR_MAGIC"
proof -
  let ?vh = "sb_vh (vl_sb layout)"
  from assms(1) obtain h1 where h1: "wr h 0 ?vh = Inr h1" and k: "1240 \<le> length h1"
    and k2: "take 6 h' = take 6 (put16 h1 4 SSDFS_SEGMENT_HDR_MAGIC)"
    unfolding segment_header_fields_def by (auto simp: bnd_eq_Inr field_eq_Inr take_put)
  have "take 1024 h1 = take 1024 ?vh" using h1 assms(2) by (auto simp: wr_eq_Inr overwrite_def)
  then have "get32 h1 0 = get32 ?vh 0" by (rule get_take(2)[rotated]) simp
  then show ?thesis using k get_take(1)[OF _ k2, of 4] get_take(2)[OF _ k2, of 0]
    by (simp add: buf_simps)
qed

lemma commit_header_ok:
  assumes "commit_segment_header crc32 layout s p n = Inr layout'"
  shows "\<exists>peb h h'. peb_at layout s p = Inr peb \<and> ext_buf (extent_of peb 0) = Some h \<and>
    put_peb layout s p (put_extent peb 0 ((extent_of peb 0)\<lparr>ext_buf := Some h'\<rparr>)) = Inr layout' \<and>
    keeps_front 8 h h' \<and> is_csum_valid (crc32 0) h' 8 0 2048 = Inr (True, h')"
proof -
  from assms obtain seg peb h lp partial h0 h1 f1 h2 h3 where
    run: "nth_int (vl_segs layout) s = Inr seg" "nth_int (sd_pebs seg) p = Inr peb"
      "ext_buf (extent_of peb 0) = Some h" "wr16 h 0x410 lp = Inr h0"
      "segment_header_descriptors crc32 layout seg peb (h0, if partial then 0x100 else 0) = Inr (h1, f1)"
      "wr32 h1 0x414 f1 = Inr h2" "seal crc32 h2 = Inr h3"
      "put_peb layout s p (put_extent peb 0 ((extent_of peb 0)\<lparr>ext_buf := Some h3\<rparr>)) = Inr layout'"
    unfolding commit_segment_header_def Let_def by (auto simp: bnd_eq_Inr)
  have "keeps_front 8 h h0" "keeps_front 8 h1 h2"
    using run(4,6) by (auto simp: field_eq_Inr keeps_front_def take_put)
  moreover have "keeps_front 8 h0 h1" using descriptors_keep[OF run(5)] by simp
  ultimately have "keeps_front 8 h h3" using seal_ok[OF run(7)] by (blast intro: keeps_front_trans)
  moreover have "peb_at layout s p = Inr peb" using run(1,2) by (simp add: peb_at_def)
  ultimately show ?thesis using run(3,8) seal_ok[OF run(7)] by blast
qed

lemma pre_commit_header_ok:
  assumes "pre_commit_segment_header layout s p ty = Inr layout'" and "peb_at layout s p = Inr peb"
    and "peb_wf peb"
  shows "\<exists>seg h h'. segment_header_fields layout seg peb ty h = Inr h' \<and>
    peb_at layout' s p = Inr (put_extent peb 0 ((extent_of peb 0)\<lparr>ext_buf := Some h'\<rparr>))"
  using assms unfolding pre_commit_segment_header_def Let_def
  by (fastforce simp: bnd_eq_Inr peb_at_def[of layout] dest: peb_at_put_same)

section \<open>Properties of the headers\<close>

text \<open>
  C10. A segment header that mkfs prepares and commits is one the tools find again: when the
  volume header carries the magic of the file system, the committed header has both magics and
  a checksum that the check in \<^verbatim>\<open>ssdfs_find_any_valid_peb\<close> accepts, whatever extents the log has
  and whatever descriptors were written for them.
\<close>

theorem committed_header_accepted:
  assumes "length (sb_vh (vl_sb layout)) = 1024" and "get32 (sb_vh (vl_sb layout)) 0 = SSDFS_SUPER_MAGIC"
    and "peb_at layout s p = Inr peb" and "peb_wf peb"
    and "pre_commit_segment_header layout s p ty = Inr layout1"
    and "commit_segment_header crc32 layout1 s p blks = Inr layout2"
  shows "\<exists>peb2 hdr. peb_at layout2 s p = Inr peb2 \<and> ext_buf (extent_of peb2 SSDFS_SEG_HEADER) = Some hdr \<and>
    seg_hdr_valid (crc32 0) hdr = Inr (True, hdr)"
proof -
  obtain seg h h' where f: "segment_header_fields layout seg peb ty h = Inr h'"
    and at1: "peb_at layout1 s p = Inr (put_extent peb 0 ((extent_of peb 0)\<lparr>ext_buf := Some h'\<rparr>))"
    using pre_commit_header_ok[OF assms(5,3,4)] by blast
  let ?peb = "put_extent peb 0 ((extent_of peb 0)\<lparr>ext_buf := Some h'\<rparr>)"
  obtain hdr where put: "put_peb layout1 s p (put_extent ?peb 0 ((extent_of ?peb 0)\<lparr>ext_buf := Some hdr\<rparr>)) = Inr layout2"
    and k: "keeps_front 8 h' hdr" and v: "is_csum_valid (crc32 0) hdr 8 0 2048 = Inr (True, hdr)"
    using commit_header_ok[OF assms(6)] at1 assms(4) by auto
  have t: "take 8 hdr = take 8 h'" using k by (simp add: keeps_front_def)
  have m: "get32 hdr 0 = SSDFS_SUPER_MAGIC \<and> get16 hdr 4 = SSDFS_SEGMENT_HDR_MAGIC"
    using header_fields_front[OF f assms(1)] assms(2) get_take(1)[OF _ t, of 4] get_take(2)[OF _ t, of 0]
    by simp
  have "16 \<le> length hdr" using v by (auto simp: is_csum_valid_def write_eq_Inr)
  then have "seg_hdr_valid (crc32 0) hdr = Inr (True, hdr)"
    using m v by (simp add: seg_hdr_valid_def buf_simps)
  then show ?thesis using peb_at_put_same[OF put] assms(4) by auto
qed

text \<open>A volume of one log that has nothing but a header and a footer.\<close>

definition sample_peb :: "buf \<Rightarrow> buf \<Rightarrow> ssdfs_peb_content" where
  "sample_peb header footer = \<lparr>pc_leb_id = 7, pc_peb_id = 7,
     pc_extents = [(sample_extent 0)\<lparr>ext_buf := Some header\<rparr>] @ replicate 5 (sample_extent 0) @
       [(sample_extent 0)\<lparr>ext_buf := Some footer\<rparr>] @ replicate 2 (sample_extent 0)\<rparr>"

definition sample_volume :: "u16 \<Rightarrow> ssdfs_peb_content \<Rightarrow> ssdfs_volume_layout" where
  "sample_volume threshold peb = mkfs_volume_layout
     \<lparr>vl_sb := (vl_sb mkfs_volume_layout)\<lparr>sb_vh := put32 (replicate 1024 0) 0 SSDFS_SUPER_MAGIC\<rparr>,
      vl_segbmap := (vl_segbmap mkfs_volume_layout)\<lparr>sg_log_pages := 4, sg_migration_threshold := threshold\<rparr>,
      vl_segs_capacity := 1,
      vl_segs := [\<lparr>sd_seg_type = SSDFS_SEGBMAP, sd_seg_state = 0, sd_seg_id = 7,
        sd_pebs = [peb], sd_pebs_count = 1, sd_pebs_capacity = 1\<rparr>]\<rparr>"

lemma sample_volume_put: "put_peb (sample_volume t peb) 0 0 peb' = Inr (sample_volume t peb')"
  by (simp add: put_peb_def sample_volume_def)

lemma sample_peb_simps:
  "peb_wf (sample_peb h f)" "pc_leb_id (sample_peb h f) = 7" "pc_peb_id (sample_peb h f) = 7"
  "extent_of (sample_peb h f) 0 = (sample_extent 0)\<lparr>ext_buf := Some h\<rparr>"
  "extent_of (sample_peb h f) 6 = (sample_extent 0)\<lparr>ext_buf := Some f\<rparr>"
  "put_extent (sample_peb h f) 0 ((sample_extent 0)\<lparr>ext_buf := Some h'\<rparr>) = sample_peb h' f"
  "put_extent (sample_peb h f) 6 ((sample_extent 0)\<lparr>ext_buf := Some f'\<rparr>) = sample_peb h f'"
  by (simp_all add: peb_wf_def sample_peb_def extent_of_def put_extent_def numeral_eq_Suc)

lemma sample_peb_empty:
  "ext_bytes_count (extent_of (sample_peb h f) i) = 0" if "0 \<le> i" "i < 9"
proof -
  from that have "i \<in> {0, 1, 2, 3, 4, 5, 6, 7, 8}" by auto
  then show ?thesis by (auto simp: sample_peb_def extent_of_def sample_extent_def numeral_eq_Suc)
qed

lemma sample_extent_empty: "ext_bytes_count (sample_extent 0) = 0"
  by (simp add: sample_extent_def)

lemmas sample_simps = sample_extent_empty sample_volume_put sample_peb_simps sample_peb_empty

lemma sample_volume_simps:
  "vl_segs (sample_volume t peb) = [\<lparr>sd_seg_type = SSDFS_SEGBMAP, sd_seg_state = 0, sd_seg_id = 7,
        sd_pebs = [peb], sd_pebs_count = 1, sd_pebs_capacity = 1\<rparr>]"
  "vl_segs_capacity (sample_volume t peb) = 1"
  "sb_vh (vl_sb (sample_volume t peb)) = put32 (replicate 1024 0) 0 SSDFS_SUPER_MAGIC"
  "sg_log_pages (vl_segbmap (sample_volume t peb)) = 4"
  "length (sb_vs (vl_sb (sample_volume t peb))) = 1024"
  "erase_size (vl_env (sample_volume t peb)) = 8388608" "vl_page_size (sample_volume t peb) = 4096"
  by (simp_all add: sample_volume_def mkfs_volume_layout_def)

lemma sample_pre_commit:
  assumes "length h = 2048"
  shows "\<exists>h'. length h' = 2048 \<and>
    pre_commit_segment_header (sample_volume t (sample_peb h f)) 0 0 3 = Inr (sample_volume t (sample_peb h' f))"
  using assms
  by (intro exI conjI[rotated],
      simp add: pre_commit_segment_header_def segment_header_fields_def sample_simps sample_volume_simps
        buf_simps Let_def)
    (simp add: buf_simps)

lemma sample_commit:
  assumes "length h = 2048"
  shows "\<exists>layout2. commit_segment_header crc32 (sample_volume t (sample_peb h f)) 0 0 4 = Inr layout2"
  using assms
  by (simp add: commit_segment_header_def segment_header_descriptors_def when_ext_def define_log_pages_def
      seal_def ssdfs_crc32_le_def sample_simps sample_volume_simps buf_simps ucast_max Let_def)

theorem committed_header_accepted_witness:
  "\<exists>layout1 layout2 peb2 hdr.
     pre_commit_segment_header (sample_volume 0 (sample_peb (replicate 2048 0) [])) 0 0 3 = Inr layout1 \<and>
     commit_segment_header (\<lambda>c b. c + of_nat (length b)) layout1 0 0 4 = Inr layout2 \<and>
     peb_at layout2 0 0 = Inr peb2 \<and> ext_buf (extent_of peb2 SSDFS_SEG_HEADER) = Some hdr \<and>
     seg_hdr_valid (\<lambda>b. 0 + of_nat (length b)) hdr = Inr (True, hdr)"
proof -
  let ?p = "sample_peb (replicate 2048 0) []"
  let ?l = "sample_volume 0 ?p"
  let ?crc = "\<lambda>c b. c + of_nat (length b) :: u32"
  obtain h' where h': "length h' = 2048"
    "pre_commit_segment_header ?l 0 0 3 = Inr (sample_volume 0 (sample_peb h' []))"
    using sample_pre_commit[of "replicate 2048 0"] by auto
  obtain l2 where l2: "commit_segment_header ?crc (sample_volume 0 (sample_peb h' [])) 0 0 4 = Inr l2"
    using sample_commit[OF h'(1)] by blast
  have at: "peb_at ?l 0 0 = Inr ?p" by (simp add: peb_at_def sample_volume_simps)
  show ?thesis
    using committed_header_accepted[OF _ _ at _ h'(2) l2] h' l2
    by (auto simp: sample_simps sample_volume_simps buf_simps)
qed

text \<open>The footer is written anew by a commit: what its buffer held before does not matter.\<close>

text \<open>What the layout keeps when a PEB is replaced.\<close>

lemma vl_segs_frame:
  "vl_env (layout\<lparr>vl_segs := ss\<rparr>) = vl_env layout"
  "vl_blkbmap (layout\<lparr>vl_segs := ss\<rparr>) = vl_blkbmap layout"
  "vl_blk2off_tbl (layout\<lparr>vl_segs := ss\<rparr>) = vl_blk2off_tbl layout"
  "vl_sb (layout\<lparr>vl_segs := ss\<rparr>) = vl_sb layout"
  "vl_segbmap (layout\<lparr>vl_segs := ss\<rparr>) = vl_segbmap layout"
  "vl_maptbl (layout\<lparr>vl_segs := ss\<rparr>) = vl_maptbl layout"
  "vl_page_size (layout\<lparr>vl_segs := ss\<rparr>) = vl_page_size layout"
  "vl_create_timestamp (layout\<lparr>vl_segs := ss\<rparr>) = vl_create_timestamp layout"
  "vl_create_cno (layout\<lparr>vl_segs := ss\<rparr>) = vl_create_cno layout"
  "vl_calculated_open_zones (layout\<lparr>vl_segs := ss\<rparr>) = vl_calculated_open_zones layout"
  "vl_uuid (layout\<lparr>vl_segs := ss\<rparr>) = vl_uuid layout"
  by simp_all

lemma backup_descriptors_footer:
  "backup_descriptors crc32 (layout\<lparr>vl_segs := ss\<rparr>) (put_extent peb 6 e) d st =
   backup_descriptors crc32 layout peb d st"
proof -
  have e: "extent_of (put_extent peb 6 e) 7 = extent_of peb 7" "extent_of (put_extent peb 6 e) 8 = extent_of peb 8"
    by simp_all
  show ?thesis
    unfolding backup_descriptors_def when_ext_def prepare_blkbmap_metadata_descriptor_def
      prepare_offset_table_metadata_descriptor_def desc_place_def e vl_segs_frame ..
qed

lemma define_log_pages_segs: "define_log_pages (layout\<lparr>vl_segs := ss\<rparr>) = define_log_pages layout"
  unfolding define_log_pages_def vl_segs_frame ..

lemma threshold_writes_field:
  assumes "segbmap_define_migration_threshold layout s p = Inr layout1"
    and "peb_at layout s p = Inr peb"
  shows "\<exists>f f'. ext_buf (extent_of peb 6) = Some f \<and>
    f' = put16 f 0x98 (sg_migration_threshold (vl_segbmap layout)) \<and> 0x9A \<le> length f \<and>
    put_peb layout s p (put_extent peb 6 ((extent_of peb 6)\<lparr>ext_buf := Some f'\<rparr>)) = Inr layout1"
  using assms by (auto simp: segbmap_define_migration_threshold_def Let_def bnd_eq_Inr field_eq_Inr)

lemma full_footer_forgets:
  assumes "put_peb layout s p (put_extent peb 6 ((extent_of peb 6)\<lparr>ext_buf := Some (put16 f off v)\<rparr>)) = Inr layout1"
    and "peb_at layout s p = Inr peb" and "peb_wf peb" and "ext_buf (extent_of peb 6) = Some f"
    and "off + 2 \<le> 1024" and "1024 \<le> length f" and "length (sb_vs (vl_sb layout)) = 1024"
  shows "commit_log_footer_full crc32 layout1 ty s p n = commit_log_footer_full crc32 layout ty s p n"
proof -
  obtain ss where l1: "layout1 = layout\<lparr>vl_segs := ss\<rparr>" using put_peb_segs[OF assms(1)] by blast
  have w: "wr (put16 f off v) 0 (sb_vs (vl_sb layout)) = wr f 0 (sb_vs (vl_sb layout))"
    using assms(5-7) by (simp add: wr_def put16_def overwrite_absorb)
  show ?thesis
    unfolding commit_log_footer_full_def peb_at_put_same[OF assms(1)] put_peb_put_peb[OF assms(1)]
    unfolding l1 vl_segs_frame using assms(2-4) by (simp add: w backup_descriptors_footer Let_def)
qed

lemma seg_at_put:
  assumes "put_peb layout s p peb' = Inr layout1" and "nth_int (vl_segs layout) s = Inr seg"
  shows "\<exists>ps. nth_int (vl_segs layout1) s = Inr (seg\<lparr>sd_pebs := ps\<rparr>) \<and> nth_int ps p = Inr peb'"
  using assms by (auto simp: put_peb_def bnd_eq_Inr nth_int_eq_Inr upd_int_eq_Inr)

lemma partial_footer_forgets:
  assumes "put_peb layout s p (put_extent peb 6 ((extent_of peb 6)\<lparr>ext_buf := Some (put16 f off v)\<rparr>)) = Inr layout1"
    and "peb_at layout s p = Inr peb" and "peb_wf peb" and "ext_buf (extent_of peb 6) = Some f"
    and "off + 2 \<le> 1024" and "2048 \<le> length f"
  shows "commit_partial_log_header crc32 layout1 s p n = commit_partial_log_header crc32 layout s p n"
proof -
  obtain ss where l1: "layout1 = layout\<lparr>vl_segs := ss\<rparr>" using put_peb_segs[OF assms(1)] by blast
  have w: "memset (put16 f off v) 0 0 2048 = memset f 0 0 2048"
    using assms(5,6) by (simp add: memset_def wr_def put16_def overwrite_absorb)
  from assms(2) obtain seg where seg: "nth_int (vl_segs layout) s = Inr seg" "nth_int (sd_pebs seg) p = Inr peb"
    by (auto simp: peb_at_def bnd_eq_Inr)
  obtain ps where ps: "nth_int (vl_segs layout1) s = Inr (seg\<lparr>sd_pebs := ps\<rparr>)"
    "nth_int ps p = Inr (put_extent peb 6 ((extent_of peb 6)\<lparr>ext_buf := Some (put16 f off v)\<rparr>))"
    using seg_at_put[OF assms(1) seg(1)] by blast
  show ?thesis
    unfolding commit_partial_log_header_def put_peb_put_peb[OF assms(1)] ps(1) seg(1)
    unfolding l1 vl_segs_frame define_log_pages_segs
    using assms(3,4) by (simp add: seg(2) ps(2) w backup_descriptors_footer Let_def)
qed

text \<open>
  The migration threshold of the segment bitmap is lost: \<^verbatim>\<open>segbmap_define_migration_threshold\<close>
  writes it into the footer of a log before the footer is committed, and
  \<^verbatim>\<open>commit_log_footer\<close> starts by copying the volume state over the footer (or by clearing it, for a
  partial log). Whatever the threshold, the committed layout is the one without the call.
\<close>

theorem migration_threshold_lost:
  assumes "segbmap_define_migration_threshold layout s p = Inr layout1"
    and "peb_at layout s p = Inr peb" and "peb_wf peb" and "ext_buf (extent_of peb SSDFS_LOG_FOOTER) = Some f"
    and "2048 \<le> length f" and "length (sb_vs (vl_sb layout)) = 1024"
    and "nth_int (vl_segs layout) s = Inr seg" and "sd_seg_type seg = SSDFS_SEGBMAP"
  shows "commit_log_footer crc32 layout1 s p blks = commit_log_footer crc32 layout s p blks"
proof -
  let ?v = "sg_migration_threshold (vl_segbmap layout)"
  have put: "put_peb layout s p (put_extent peb 6 ((extent_of peb 6)\<lparr>ext_buf := Some (put16 f 0x98 ?v)\<rparr>)) = Inr layout1"
    using threshold_writes_field[OF assms(1,2)] assms(4) by auto
  obtain ps where ps: "nth_int (vl_segs layout1) s = Inr (seg\<lparr>sd_pebs := ps\<rparr>)"
    using seg_at_put[OF put assms(7)] by blast
  obtain ss where l1: "layout1 = layout\<lparr>vl_segs := ss\<rparr>" using put_peb_segs[OF put] by blast
  have same: "commit_log_footer_full crc32 layout1 ty s p blks = commit_log_footer_full crc32 layout ty s p blks"
    "commit_partial_log_header crc32 layout1 s p blks = commit_partial_log_header crc32 layout s p blks" for ty
    using full_footer_forgets[OF put assms(2-4)] partial_footer_forgets[OF put assms(2-4)] assms(5,6) by simp_all
  show ?thesis
    unfolding commit_log_footer_def ps assms(7) same unfolding l1 vl_segs_frame using assms(8) by simp
qed

theorem migration_threshold_lost_witness:
  "\<exists>layout1.
     segbmap_define_migration_threshold (sample_volume 5 (sample_peb [] (replicate 2048 0))) 0 0 = Inr layout1 \<and>
     commit_log_footer (\<lambda>c b. c) layout1 0 0 4 =
       commit_log_footer (\<lambda>c b. c) (sample_volume 5 (sample_peb [] (replicate 2048 0))) 0 0 4"
proof -
  let ?p = "sample_peb [] (replicate 2048 0)"
  let ?l = "sample_volume 5 ?p"
  have at: "peb_at ?l 0 0 = Inr ?p" by (simp add: peb_at_def sample_volume_simps)
  have run: "segbmap_define_migration_threshold ?l 0 0 =
      Inr (sample_volume 5 (sample_peb [] (put16 (replicate 2048 0) 0x98 (sg_migration_threshold (vl_segbmap ?l)))))"
    unfolding segbmap_define_migration_threshold_def at by (simp add: sample_simps buf_simps)
  show ?thesis
    using migration_threshold_lost[OF run at, of "replicate 2048 0" "vl_segs ?l ! 0"] run
    by (auto simp: sample_simps sample_volume_simps)
qed

end
