(* ===== verification/Compression.thy ===== *)
theory Compression
  imports ByteBuf
begin

text \<open>
  \<^verbatim>\<open>lib/compression.c\<close>: the wrappers of zlib, LZO, LZ4 and Zstandard.

  The libraries are parameters: \<open>codec_libs\<close> holds the calls the wrappers make, with \<open>None\<close> for a
  library that was not found at build time (\<^verbatim>\<open>HAVE_LIBLZO2\<close> and so on). \<open>libs_ok\<close> states what the
  libraries document: decompression inverts compression, and zlib, LZ4 and Zstandard keep to
  the capacity they are given. LZO is not told the capacity; its output can be longer than the
  input. A compressor gets the source, the destination buffer with the offset it writes at,
  and the two lengths it may update.
\<close>

section \<open>The libraries\<close>

record 's zlib_lib =
  deflateInit :: int
  deflate :: "buf \<Rightarrow> nat \<Rightarrow> int \<times> nat \<times> buf"   \<comment> \<open>input, room: code, consumed bytes, output\<close>
  deflateEnd :: int
  inflateInit :: "buf \<Rightarrow> nat \<Rightarrow> int \<times> 's"
  inflate :: "'s \<Rightarrow> int \<times> 's"
  inflated :: "'s \<Rightarrow> buf"                     \<comment> \<open>the output written so far\<close>

record lzo_lib =
  lzo_init :: int
  lzo_malloc_ok :: bool
  lzo1x_1_compress :: "buf \<Rightarrow> int \<times> buf"
  lzo1x_decompress :: "buf \<Rightarrow> nat \<Rightarrow> int \<times> buf"

record lz4_lib =
  LZ4_compress_default :: "buf \<Rightarrow> int \<Rightarrow> int \<Rightarrow> int \<times> buf"
  LZ4_decompress_safe :: "buf \<Rightarrow> int \<Rightarrow> int \<Rightarrow> int \<times> buf"

text \<open>\<open>None\<close> stands for a result for which \<^verbatim>\<open>ZSTD_isError\<close> holds.\<close>

record zstd_lib =
  ZSTD_compress :: "nat \<Rightarrow> buf \<Rightarrow> buf option"
  ZSTD_decompress :: "nat \<Rightarrow> buf \<Rightarrow> buf option"

record 's codec_libs =
  zlib :: "'s zlib_lib"
  lzo :: "lzo_lib option"
  lz4 :: "lz4_lib option"
  zstd :: "zstd_lib option"

abbreviation (input) Z_OK :: int where "Z_OK \<equiv> 0"
abbreviation (input) Z_STREAM_END :: int where "Z_STREAM_END \<equiv> 1"
abbreviation (input) LZO_E_OK :: int where "LZO_E_OK \<equiv> 0"

text \<open>A successful compression gives the destination buffer and the two lengths.\<close>

type_synonym compressed = "buf \<times> u32 \<times> u32"

section \<open>zlib\<close>

definition ssdfs_zlib_compress ::
  "'s zlib_lib \<Rightarrow> buf \<Rightarrow> buf \<Rightarrow> nat \<Rightarrow> u32 \<Rightarrow> u32 \<Rightarrow> compressed res" where
  "ssdfs_zlib_compress z data_in cdata_out off srclen destlen =
     bnd (fail_if (deflateInit z \<noteq> Z_OK) EINVAL) (\<lambda>_.
     bnd (rd data_in 0 (unat srclen)) (\<lambda>src.
     let (err, total_in, out) = deflate z src (unat destlen) in
     bnd (wr cdata_out off out) (\<lambda>cdata_out.
     if err \<noteq> Z_STREAM_END
     then (if err = Z_OK then Inl (Errno E2BIG) else Inl (Errno (LIB_CODE err)))
     else if deflateEnd z \<noteq> Z_OK then Inl (Errno (LIB_CODE (deflateEnd z)))
     else if length out \<ge> total_in then Inl (Errno E2BIG)
     else Inr (cdata_out, of_nat total_in, of_nat (length out)))))"

text \<open>The loop runs while \<^verbatim>\<open>inflate\<close> returns \<^verbatim>\<open>Z_OK\<close>; a loop that does not end is \<open>None\<close>.\<close>

partial_function (option) inflate_loop :: "('s \<Rightarrow> int \<times> 's) \<Rightarrow> 's \<Rightarrow> (int \<times> 's) option" where
  "inflate_loop step s =
     (let r = step s in if fst r = Z_OK then inflate_loop step (snd r) else Some r)"

definition ssdfs_zlib_decompress ::
  "'s zlib_lib \<Rightarrow> buf \<Rightarrow> buf \<Rightarrow> u32 \<Rightarrow> u32 \<Rightarrow> buf res option" where
  "ssdfs_zlib_decompress z cdata_in data_out srclen destlen =
     (case rd cdata_in 0 (unat srclen) of Inl f \<Rightarrow> Some (Inl f) | Inr src \<Rightarrow>
     let (ret, s) = inflateInit z src (unat destlen) in
     if ret \<noteq> Z_OK then Some (Inl (Errno EINVAL))
     else case inflate_loop (inflate z) s of None \<Rightarrow> None | Some (ret, s) \<Rightarrow>
       Some (bnd (wr data_out 0 (inflated z s)) (\<lambda>data_out.
         if ret \<noteq> Z_STREAM_END then Inl (Errno EFAULT) else Inr data_out)))"

section \<open>LZO\<close>

definition ssdfs_lzo_compress ::
  "lzo_lib option \<Rightarrow> buf \<Rightarrow> buf \<Rightarrow> nat \<Rightarrow> u32 \<Rightarrow> u32 \<Rightarrow> compressed res" where
  "ssdfs_lzo_compress lib data_in cdata_out off srclen destlen = (case lib of
     None \<Rightarrow> Inl (Errno EOPNOTSUPP)
   | Some z \<Rightarrow>
     bnd (fail_if (lzo_init z \<noteq> LZO_E_OK) EINVAL) (\<lambda>_.
     bnd (fail_if (\<not> lzo_malloc_ok z) ENOMEM) (\<lambda>_.
     bnd (rd data_in 0 (unat srclen)) (\<lambda>src.
     let (err, out) = lzo1x_1_compress z src in
     bnd (wr cdata_out off out) (\<lambda>cdata_out.
     bnd (fail_if (err \<noteq> LZO_E_OK) EFAULT) (\<lambda>_.
     bnd (fail_if (length out \<ge> unat srclen) E2BIG) (\<lambda>_.
     Inr (cdata_out, srclen, of_nat (length out)))))))))"

definition ssdfs_lzo_decompress ::
  "lzo_lib option \<Rightarrow> buf \<Rightarrow> buf \<Rightarrow> u32 \<Rightarrow> u32 \<Rightarrow> buf res" where
  "ssdfs_lzo_decompress lib cdata_in data_out srclen destlen = (case lib of
     None \<Rightarrow> Inl (Errno EOPNOTSUPP)
   | Some z \<Rightarrow>
     bnd (fail_if (lzo_init z \<noteq> LZO_E_OK) EINVAL) (\<lambda>_.
     bnd (rd cdata_in 0 (unat srclen)) (\<lambda>src.
     let (err, out) = lzo1x_decompress z src (unat destlen) in
     bnd (wr data_out 0 out) (\<lambda>data_out.
     bnd (fail_if (err \<noteq> LZO_E_OK) EFAULT) (\<lambda>_.
     bnd (fail_if (length out \<noteq> unat destlen) EFAULT) (\<lambda>_.
     Inr data_out))))))"

section \<open>LZ4\<close>

text \<open>The lengths are converted to \<^verbatim>\<open>int\<close>.\<close>

definition ssdfs_lz4_compress ::
  "lz4_lib option \<Rightarrow> buf \<Rightarrow> buf \<Rightarrow> nat \<Rightarrow> u32 \<Rightarrow> u32 \<Rightarrow> compressed res" where
  "ssdfs_lz4_compress lib data_in cdata_out off srclen destlen = (case lib of
     None \<Rightarrow> Inl (Errno EOPNOTSUPP)
   | Some z \<Rightarrow>
     bnd (rd data_in 0 (unat srclen)) (\<lambda>src.
     let (out_len, out) = LZ4_compress_default z src (sint srclen) (sint destlen) in
     bnd (wr cdata_out off out) (\<lambda>cdata_out.
     bnd (fail_if (out_len = 0) E2BIG) (\<lambda>_.
     bnd (fail_if ((word_of_int out_len :: u32) \<ge> srclen) E2BIG) (\<lambda>_.
     Inr (cdata_out, srclen, word_of_int out_len))))))"

definition ssdfs_lz4_decompress ::
  "lz4_lib option \<Rightarrow> buf \<Rightarrow> buf \<Rightarrow> u32 \<Rightarrow> u32 \<Rightarrow> buf res" where
  "ssdfs_lz4_decompress lib cdata_in data_out srclen destlen = (case lib of
     None \<Rightarrow> Inl (Errno EOPNOTSUPP)
   | Some z \<Rightarrow>
     bnd (rd cdata_in 0 (unat srclen)) (\<lambda>src.
     let (out_len, out) = LZ4_decompress_safe z src (sint srclen) (sint destlen) in
     bnd (wr data_out 0 out) (\<lambda>data_out.
     bnd (fail_if (out_len < 0) EFAULT) (\<lambda>_.
     bnd (fail_if ((word_of_int out_len :: u32) \<noteq> destlen) EFAULT) (\<lambda>_.
     Inr data_out)))))"

section \<open>Zstandard\<close>

definition ssdfs_zstd_compress ::
  "zstd_lib option \<Rightarrow> buf \<Rightarrow> buf \<Rightarrow> nat \<Rightarrow> u32 \<Rightarrow> u32 \<Rightarrow> compressed res" where
  "ssdfs_zstd_compress lib data_in cdata_out off srclen destlen = (case lib of
     None \<Rightarrow> Inl (Errno EOPNOTSUPP)
   | Some z \<Rightarrow>
     bnd (rd data_in 0 (unat srclen)) (\<lambda>src.
     case ZSTD_compress z (unat destlen) src of
       None \<Rightarrow> Inl (Errno E2BIG)
     | Some out \<Rightarrow>
         bnd (wr cdata_out off out) (\<lambda>cdata_out.
         bnd (fail_if (length out \<ge> unat srclen) E2BIG) (\<lambda>_.
         Inr (cdata_out, srclen, of_nat (length out))))))"

definition ssdfs_zstd_decompress ::
  "zstd_lib option \<Rightarrow> buf \<Rightarrow> buf \<Rightarrow> u32 \<Rightarrow> u32 \<Rightarrow> buf res" where
  "ssdfs_zstd_decompress lib cdata_in data_out srclen destlen = (case lib of
     None \<Rightarrow> Inl (Errno EOPNOTSUPP)
   | Some z \<Rightarrow>
     bnd (rd cdata_in 0 (unat srclen)) (\<lambda>src.
     case ZSTD_decompress z (unat destlen) src of
       None \<Rightarrow> Inl (Errno EFAULT)
     | Some out \<Rightarrow>
         bnd (wr data_out 0 out) (\<lambda>data_out.
         bnd (fail_if (length out \<noteq> unat destlen) EFAULT) (\<lambda>_.
         Inr data_out))))"

section \<open>The choice of the method\<close>

text \<open>The types are those of \<^verbatim>\<open>include/ssdfs_constants.h\<close>: 1 zlib, 2 LZO, 3 LZ4, 4 Zstandard.\<close>

datatype blob = Zlib_blob | Lzo_blob | Lz4_blob | Zstd_blob

definition blob_compress ::
  "'s codec_libs \<Rightarrow> blob \<Rightarrow> buf \<Rightarrow> buf \<Rightarrow> nat \<Rightarrow> u32 \<Rightarrow> u32 \<Rightarrow> compressed res" where
  "blob_compress libs ty = (case ty of
     Zlib_blob \<Rightarrow> ssdfs_zlib_compress (zlib libs)
   | Lzo_blob \<Rightarrow> ssdfs_lzo_compress (lzo libs)
   | Lz4_blob \<Rightarrow> ssdfs_lz4_compress (lz4 libs)
   | Zstd_blob \<Rightarrow> ssdfs_zstd_compress (zstd libs))"

definition blob_decompress ::
  "'s codec_libs \<Rightarrow> blob \<Rightarrow> buf \<Rightarrow> buf \<Rightarrow> u32 \<Rightarrow> u32 \<Rightarrow> buf res option" where
  "blob_decompress libs ty cdata_in data_out srclen destlen = (case ty of
     Zlib_blob \<Rightarrow> ssdfs_zlib_decompress (zlib libs) cdata_in data_out srclen destlen
   | Lzo_blob \<Rightarrow> Some (ssdfs_lzo_decompress (lzo libs) cdata_in data_out srclen destlen)
   | Lz4_blob \<Rightarrow> Some (ssdfs_lz4_decompress (lz4 libs) cdata_in data_out srclen destlen)
   | Zstd_blob \<Rightarrow> Some (ssdfs_zstd_decompress (zstd libs) cdata_in data_out srclen destlen))"

section \<open>What the libraries document\<close>

definition zlib_ok :: "'s zlib_lib \<Rightarrow> bool" where
  "zlib_ok z \<longleftrightarrow>
     (\<forall>src cap. length (snd (snd (deflate z src cap))) \<le> cap) \<and>
     (\<forall>src cap n out. deflate z src cap = (Z_STREAM_END, n, out) \<longrightarrow>
        n = length src \<and>
        (\<forall>room \<ge> length src. \<exists>s s'. inflateInit z out room = (Z_OK, s) \<and>
           inflate z s = (Z_STREAM_END, s') \<and> inflated z s' = src))"

definition lzo_ok :: "lzo_lib \<Rightarrow> bool" where
  "lzo_ok z \<longleftrightarrow> (\<forall>src out. lzo1x_1_compress z src = (LZO_E_OK, out) \<longrightarrow>
     (\<forall>room \<ge> length src. lzo1x_decompress z out room = (LZO_E_OK, src)))"

definition lz4_ok :: "lz4_lib \<Rightarrow> bool" where
  "lz4_ok z \<longleftrightarrow>
     (\<forall>src n cap. length (snd (LZ4_compress_default z src n cap)) \<le> nat cap) \<and>
     (\<forall>src cap n out. LZ4_compress_default z src (int (length src)) cap = (n, out) \<longrightarrow> n \<noteq> 0 \<longrightarrow>
        n = int (length out) \<and>
        (\<forall>room \<ge> int (length src). LZ4_decompress_safe z out n room = (int (length src), src)))"

definition zstd_ok :: "zstd_lib \<Rightarrow> bool" where
  "zstd_ok z \<longleftrightarrow> (\<forall>src cap out. ZSTD_compress z cap src = Some out \<longrightarrow>
     length out \<le> cap \<and> (\<forall>room \<ge> length src. ZSTD_decompress z room out = Some src))"

definition libs_ok :: "'s codec_libs \<Rightarrow> bool" where
  "libs_ok libs \<longleftrightarrow> zlib_ok (zlib libs) \<and> pred_option lzo_ok (lzo libs) \<and> pred_option lz4_ok (lz4 libs) \<and>
     pred_option zstd_ok (zstd libs)"

section \<open>Lemmas\<close>

text \<open>A compressed block: \<open>enc\<close> was written at the offset and is shorter than the source.\<close>

definition encodes :: "buf \<Rightarrow> buf \<Rightarrow> nat \<Rightarrow> u32 \<Rightarrow> buf \<Rightarrow> compressed \<Rightarrow> bool" where
  "encodes data_in cdata_out off srclen enc r \<longleftrightarrow>
     r = (overwrite cdata_out off enc, srclen, of_nat (length enc)) \<and> length enc < unat srclen \<and>
     off + length enc \<le> length cdata_out \<and> unat srclen \<le> length data_in"

lemma unat_of_nat_less: "n < unat (w :: u32) \<Longrightarrow> unat (of_nat n :: u32) = n"
  using unat_width[of w] by (simp add: unat_of_nat)

lemma encodes_len:
  "encodes data_in cdata_out off srclen enc r \<Longrightarrow> unat (snd (snd r)) = length enc"
  by (auto simp: encodes_def unat_of_nat_less)

lemma read_encoded:
  "encodes data_in cdata_out off srclen enc r \<Longrightarrow> rd (drop off (fst r)) 0 (unat (snd (snd r))) = Inr enc"
  by (auto simp: encodes_len encodes_def overwrite_def rd_eq_Inr bytes_at_def unat_of_nat_less)

lemma sint_small: "unat (w :: u32) < 2 ^ 31 \<Longrightarrow> sint w = int (unat w)"
proof -
  assume "unat w < 2 ^ 31"
  then have "int (unat w) < int (2 ^ 31)" by (rule of_nat_less_iff[THEN iffD2])
  then have "uint w < 2 ^ 31" by simp
  then have "signed_take_bit 31 (uint w) = uint w"
    by (intro signed_take_bit_int_eq_self order_trans[OF _ uint_ge_0]) simp_all
  then show ?thesis by (simp add: sint_uint)
qed

lemma nat_sint_le: "nat (sint (w :: u32)) \<le> unat w"
proof -
  have "signed_take_bit 31 (uint w) \<le> uint w"
    using order_trans[OF _ uint_ge_0, of "- (2 ^ 31)" w] by (simp add: signed_take_bit_int_less_eq_self_iff)
  then have "sint w \<le> int (unat w)" by (simp add: sint_uint)
  then show ?thesis by linarith
qed

lemma zlib_encodes:
  assumes "ssdfs_zlib_compress z data_in out off srclen destlen = Inr r" and "zlib_ok z"
  shows "\<exists>enc n. encodes data_in out off srclen enc r \<and>
    deflate z (take (unat srclen) data_in) (unat destlen) = (Z_STREAM_END, n, enc)"
  using assms
  by (fastforce simp: ssdfs_zlib_compress_def zlib_ok_def encodes_def bnd_eq_Inr rd_eq_Inr wr_eq_Inr bytes_at_def
      split: prod.splits if_splits)

lemma lzo_encodes:
  assumes "ssdfs_lzo_compress lib data_in out off srclen destlen = Inr r"
  shows "\<exists>z enc. lib = Some z \<and> encodes data_in out off srclen enc r \<and> lzo_init z = LZO_E_OK \<and>
    lzo1x_1_compress z (take (unat srclen) data_in) = (LZO_E_OK, enc)"
  using assms
  by (fastforce simp: ssdfs_lzo_compress_def encodes_def bnd_eq_Inr rd_eq_Inr wr_eq_Inr bytes_at_def
      split: prod.splits if_splits option.splits)

lemma zstd_encodes:
  assumes "ssdfs_zstd_compress lib data_in out off srclen destlen = Inr r"
  shows "\<exists>z enc. lib = Some z \<and> encodes data_in out off srclen enc r \<and>
    ZSTD_compress z (unat destlen) (take (unat srclen) data_in) = Some enc"
  using assms
  by (fastforce simp: ssdfs_zstd_compress_def encodes_def bnd_eq_Inr rd_eq_Inr wr_eq_Inr bytes_at_def
      split: prod.splits if_splits option.splits)

lemma lz4_ok_inverse:
  "lz4_ok z \<Longrightarrow> LZ4_compress_default z src (int (length src)) cap = (int (length enc), enc) \<Longrightarrow> enc \<noteq> [] \<Longrightarrow>
     LZ4_decompress_safe z enc (int (length enc)) (int (length src)) = (int (length src), src)"
  unfolding lz4_ok_def by (metis length_0_conv of_nat_eq_0_iff order_refl)

lemma lz4_encodes:
  assumes "ssdfs_lz4_compress lib data_in out off srclen destlen = Inr r"
    and "pred_option lz4_ok lib" and "unat srclen < 2 ^ 31"
  shows "\<exists>z enc. lib = Some z \<and> encodes data_in out off srclen enc r \<and>
    LZ4_compress_default z (take (unat srclen) data_in) (int (unat srclen)) (sint destlen) =
      (int (length enc), enc) \<and> enc \<noteq> []"
proof -
  let ?src = "take (unat srclen) data_in"
  obtain z n enc where z: "lib = Some z" "unat srclen \<le> length data_in"
    and run: "LZ4_compress_default z ?src (int (unat srclen)) (sint destlen) = (n, enc)" "n \<noteq> 0"
      "off + length enc \<le> length out" "(word_of_int n :: u32) < srclen"
      "r = (overwrite out off enc, srclen, word_of_int n)"
    using assms(1,3)
    by (auto simp: ssdfs_lz4_compress_def bnd_eq_Inr rd_eq_Inr wr_eq_Inr bytes_at_def sint_small
        split: prod.splits if_splits option.splits)
  have ok: "lz4_ok z" using assms(2) z by simp
  have n: "n = int (length enc)" using ok run(1,2) z(2) unfolding lz4_ok_def by (metis length_take min_absorb2)
  have "length enc \<le> nat (sint destlen)" using ok run(1) unfolding lz4_ok_def by (metis snd_conv)
  also have "\<dots> < 2 ^ 31" using sint_lt[of destlen] by simp
  finally have "unat (of_nat (length enc) :: u32) = length enc" by (simp add: unat_of_nat)
  then show ?thesis using z run n by (auto simp: encodes_def word_less_nat_alt)
qed

lemma decode_into:
  assumes "encodes data_in cdata_out off srclen enc r" and "unat srclen \<le> length data_out"
  shows "wr data_out 0 (take (unat srclen) data_in) = Inr (overwrite data_out 0 (take (unat srclen) data_in))"
    and "length (take (unat srclen) data_in) = unat srclen"
  using assms by (auto simp: encodes_def wr_eq_Inr)

section \<open>Properties\<close>

text \<open>
  C8. What a wrapper compresses, the wrapper of the same library decompresses to the original
  bytes: the compressed block is shorter than the source, nothing else of the destination
  buffer changes, and decompression with the two lengths returns and restores the source. The
  libraries are assumed to invert their own compression.
\<close>

theorem compress_roundtrip:
  assumes "libs_ok libs" and "unat srclen < 2 ^ 31" and "unat srclen \<le> length data_out"
    and "blob_compress libs ty data_in out off srclen destlen = Inr (out', srclen', destlen')"
  shows "srclen' = srclen \<and> destlen' < srclen \<and>
    (\<exists>enc. out' = overwrite out off enc \<and> length enc = unat destlen') \<and>
    blob_decompress libs ty (drop off out') data_out destlen' srclen =
      Some (Inr (overwrite data_out 0 (take (unat srclen) data_in)))"
proof -
  let ?src = "take (unat srclen) data_in" and ?r = "(out', srclen', destlen')"
  have "\<exists>enc. encodes data_in out off srclen enc ?r \<and>
    blob_decompress libs ty (drop off out') data_out destlen' srclen = Some (Inr (overwrite data_out 0 ?src))"
  proof (cases ty)
    case Zlib_blob
    then obtain enc n where e: "encodes data_in out off srclen enc ?r" "deflate (zlib libs) ?src (unat destlen) = (1, n, enc)"
      using zlib_encodes[of "zlib libs" data_in out off srclen destlen ?r] assms
      by (auto simp: blob_compress_def libs_ok_def)
    note d = read_encoded[OF e(1)] decode_into[OF e(1) assms(3)]
    obtain s s' where "inflateInit (zlib libs) enc (unat srclen) = (0, s)" "inflate (zlib libs) s = (1, s')"
      "inflated (zlib libs) s' = ?src"
      using assms(1) e(2) d(3) unfolding libs_ok_def zlib_ok_def by (metis order_refl)
    then show ?thesis using e(1) d Zlib_blob
      by (auto simp: blob_decompress_def ssdfs_zlib_decompress_def inflate_loop.simps)
  next
    case Lzo_blob
    then obtain z enc where e: "encodes data_in out off srclen enc ?r" "lzo libs = Some z" "lzo_init z = 0"
      "lzo1x_1_compress z ?src = (0, enc)"
      using lzo_encodes[of "lzo libs" data_in out off srclen destlen ?r] assms by (auto simp: blob_compress_def)
    note d = read_encoded[OF e(1)] decode_into[OF e(1) assms(3)]
    have "lzo1x_decompress z enc (unat srclen) = (0, ?src)"
      using assms(1) e(2,4) d(3) unfolding libs_ok_def lzo_ok_def by simp
    then show ?thesis using e d Lzo_blob by (auto simp: blob_decompress_def ssdfs_lzo_decompress_def)
  next
    case Lz4_blob
    then obtain z enc where e: "encodes data_in out off srclen enc ?r" "lz4 libs = Some z"
      "LZ4_compress_default z ?src (int (unat srclen)) (sint destlen) = (int (length enc), enc)" "enc \<noteq> []"
      using lz4_encodes[of "lz4 libs" data_in out off srclen destlen ?r] assms by (auto simp: blob_compress_def libs_ok_def)
    note d = read_encoded[OF e(1)] decode_into[OF e(1) assms(3)]
    have len: "unat destlen' = length enc" "length enc < unat srclen"
      using encodes_len[OF e(1)] e(1) by (auto simp: encodes_def)
    have "LZ4_decompress_safe z enc (int (length enc)) (int (unat srclen)) = (int (unat srclen), ?src)"
      using assms(1) e(2-4) d(3) lz4_ok_inverse[of z ?src] by (simp add: libs_ok_def)
    moreover have "sint destlen' = int (length enc)" "sint srclen = int (unat srclen)"
      using len assms(2) by (simp_all add: sint_small)
    ultimately show ?thesis using e d Lz4_blob len by (auto simp: blob_decompress_def ssdfs_lz4_decompress_def)
  next
    case Zstd_blob
    then obtain z enc where e: "encodes data_in out off srclen enc ?r" "zstd libs = Some z"
      "ZSTD_compress z (unat destlen) ?src = Some enc"
      using zstd_encodes[of "zstd libs" data_in out off srclen destlen ?r] assms by (auto simp: blob_compress_def)
    note d = read_encoded[OF e(1)] decode_into[OF e(1) assms(3)]
    have "ZSTD_decompress z (unat srclen) enc = Some ?src"
      using assms(1) e(2,3) d(3) unfolding libs_ok_def zstd_ok_def by auto
    then show ?thesis using e d Zstd_blob by (auto simp: blob_decompress_def ssdfs_zstd_decompress_def)
  qed
  then show ?thesis using encodes_len[of data_in out off srclen _ ?r]
    by (auto simp: encodes_def word_less_nat_alt)
qed

text \<open>A run-length code of one run, to try the wrappers on: a block of equal bytes is stored as one byte
  and its length.\<close>

definition run_encode :: "buf \<Rightarrow> buf option" where
  "run_encode src =
     (if src \<noteq> [] \<and> length src < 256 \<and> src = replicate (length src) (hd src)
      then Some [hd src, of_nat (length src)] else None)"

definition run_decode :: "buf \<Rightarrow> buf" where
  "run_decode enc = (case enc of [b, n] \<Rightarrow> replicate (unat n) b | _ \<Rightarrow> [])"

lemma run_decode_encode: "run_encode src = Some enc \<Longrightarrow> run_decode enc = src \<and> length enc = 2"
  by (auto simp: run_encode_def run_decode_def unat_of_nat split: if_splits)

definition run_libs :: "buf codec_libs" where
  "run_libs =
     \<lparr>zlib = \<lparr>deflateInit = 0,
        deflate = (\<lambda>src cap. case run_encode src of
           Some e \<Rightarrow> if 2 \<le> cap then (1, length src, e) else (0, 0, []) | None \<Rightarrow> (0, 0, [])),
        deflateEnd = 0, inflateInit = (\<lambda>src room. (0, run_decode src)),
        inflate = (\<lambda>s. (1, s)), inflated = id\<rparr>,
      lzo = Some \<lparr>lzo_init = 0, lzo_malloc_ok = True,
        lzo1x_1_compress = (\<lambda>src. case run_encode src of Some e \<Rightarrow> (0, e) | None \<Rightarrow> (-1, replicate (length src + 67) 0)),
        lzo1x_decompress = (\<lambda>src room. (0, run_decode src))\<rparr>,
      lz4 = Some \<lparr>LZ4_compress_default = (\<lambda>src n cap. case run_encode src of
           Some e \<Rightarrow> if 2 \<le> cap then (2, e) else (0, []) | None \<Rightarrow> (0, [])),
        LZ4_decompress_safe = (\<lambda>src n room. (int (length (run_decode src)), run_decode src))\<rparr>,
      zstd = Some \<lparr>ZSTD_compress = (\<lambda>cap src. if 2 \<le> cap then run_encode src else None),
        ZSTD_decompress = (\<lambda>room src. Some (run_decode src))\<rparr>\<rparr>"

lemma run_libs_ok: "libs_ok run_libs"
  unfolding libs_ok_def zlib_ok_def lzo_ok_def lz4_ok_def zstd_ok_def run_libs_def
  by (auto split: option.splits if_splits dest: run_decode_encode)

lemma run_compress:
  "blob_compress run_libs Lz4_blob [7, 7, 7, 7] (replicate 4 0) 1 4 3 = Inr ([0, 7, 4, 0], 4, 2)"
  by code_simp

theorem compress_roundtrip_witness:
  "blob_compress run_libs Lz4_blob [7, 7, 7, 7] (replicate 4 0) 1 4 3 = Inr ([0, 7, 4, 0], 4, 2) \<and>
   blob_decompress run_libs Lz4_blob (drop 1 [0, 7, 4, 0]) (replicate 4 0) 2 4 = Some (Inr [7, 7, 7, 7])"
  using compress_roundtrip[OF run_libs_ok _ _ run_compress, of "replicate 4 0"] run_compress
  by (simp add: overwrite_def)

text \<open>
  C34. The wrappers of zlib, LZ4 and Zstandard never write outside of the room the caller has
  at the offset. The wrapper of LZO does not pass the room on (\<^verbatim>\<open>out_len = *destlen\<close> is not an
  input of \<^verbatim>\<open>lzo1x_1_compress\<close>), so it writes outside exactly when the output of the library is
  longer than the rest of the buffer.
\<close>

theorem compress_capacity:
  assumes "libs_ok libs" and "unat srclen \<le> length data_in" and "off + unat destlen \<le> length out"
  shows "blob_compress libs ty data_in out off srclen destlen = Inl Oob \<longleftrightarrow>
    ty = Lzo_blob \<and> (\<exists>z. lzo libs = Some z \<and> lzo_init z = LZO_E_OK \<and> lzo_malloc_ok z \<and>
      length out < off + length (snd (lzo1x_1_compress z (take (unat srclen) data_in))))"
proof -
  let ?src = "take (unat srclen) data_in"
  have read: "rd data_in 0 (unat srclen) = Inr ?src" using assms(2) by (simp add: rd_eq_Inr bytes_at_def)
  have fits: "wr out off e = Inr (overwrite out off e)" if "length e \<le> unat destlen" for e
    using that assms(3) by (simp add: wr_eq_Inr)
  show ?thesis
  proof (cases ty)
    case Zlib_blob
    have "length (snd (snd (deflate (zlib libs) ?src (unat destlen)))) \<le> unat destlen"
      using assms(1) unfolding libs_ok_def zlib_ok_def by blast
    then show ?thesis using Zlib_blob read
      by (auto simp: blob_compress_def ssdfs_zlib_compress_def fits fail_if_def bnd_def
          split: prod.splits if_splits)
  next
    case Lzo_blob
    then show ?thesis using read
      by (auto simp: blob_compress_def ssdfs_lzo_compress_def fail_if_def bnd_def wr_def split: prod.splits option.splits)
  next
    case Lz4_blob
    have "length (snd (LZ4_compress_default z ?src (sint srclen) (sint destlen))) \<le> unat destlen"
      if "lz4 libs = Some z" for z
    proof -
      have "length (snd (LZ4_compress_default z ?src (sint srclen) (sint destlen))) \<le> nat (sint destlen)"
        using assms(1) that unfolding libs_ok_def lz4_ok_def by simp
      also have "\<dots> \<le> unat destlen" by (rule nat_sint_le)
      finally show ?thesis .
    qed
    then show ?thesis using Lz4_blob read
      by (auto simp: blob_compress_def ssdfs_lz4_compress_def fits fail_if_def bnd_def split: prod.splits option.splits)
  next
    case Zstd_blob
    have "length e \<le> unat destlen" if "zstd libs = Some z" "ZSTD_compress z (unat destlen) ?src = Some e" for z e
      using assms(1) that unfolding libs_ok_def zstd_ok_def by auto
    then show ?thesis using Zstd_blob read
      by (auto simp: blob_compress_def ssdfs_zstd_compress_def fits fail_if_def bnd_def split: prod.splits option.splits)
  qed
qed

theorem compress_capacity_witness:
  "blob_compress run_libs Lzo_blob [1, 2, 3, 4] (replicate 8 0) 0 4 8 = Inl Oob \<and>
   blob_compress run_libs Zstd_blob [1, 2, 3, 4] (replicate 8 0) 0 4 8 \<noteq> Inl Oob"
  using compress_capacity[OF run_libs_ok, of 4 "[1, 2, 3, 4]" 0 8 "replicate 8 0" Lzo_blob]
    compress_capacity[OF run_libs_ok, of 4 "[1, 2, 3, 4]" 0 8 "replicate 8 0" Zstd_blob]
  by (simp add: run_libs_def run_encode_def)

end
