(* ===== verification/MkfsBlkBmap.thy ===== *)
theory MkfsBlkBmap
  imports MkfsHeaders Compression
begin

text \<open>
  \<^verbatim>\<open>sbin/mkfs.ssdfs/common.c\<close>, third part: the block bitmap of a log. The bitmap is built in one
  buffer and stored in fragments of 4 KB, each compressed by the method of the volume, in a
  second one: a header (16 bytes), a fragment header (32 bytes, with the chain header at 0x10),
  one descriptor of 16 bytes per fragment, and the fragments.

  The theory shows that the stored bitmap of an uncompressed volume marks exactly the blocks of
  the log, and where the bounds of the function are.
\<close>

section \<open>Definitions\<close>

abbreviation (input) SSDFS_FRAGMENT_DESC_MAGIC :: u8 where "SSDFS_FRAGMENT_DESC_MAGIC \<equiv> 0x66"
abbreviation (input) SSDFS_CHAIN_HDR_MAGIC :: u8 where "SSDFS_CHAIN_HDR_MAGIC \<equiv> 0x63"
abbreviation (input) SSDFS_FRAGMENT_UNCOMPR_BLOB :: int where "SSDFS_FRAGMENT_UNCOMPR_BLOB \<equiv> 1"
abbreviation (input) SSDFS_BLK2OFF_DESC_ZSTD :: int where "SSDFS_BLK2OFF_DESC_ZSTD \<equiv> 22"
abbreviation (input) SSDFS_FRAGMENT_HAS_CSUM :: int where "SSDFS_FRAGMENT_HAS_CSUM \<equiv> 1"

text \<open>\<open>d\<close> is the place of the descriptor in \<open>mem\<close>, \<open>fragment\<close> the memory the fragment starts at.\<close>

definition ssdfs_fragment_descriptor_init ::
  "crc_fun \<Rightarrow> buf \<Rightarrow> nat \<Rightarrow> buf \<Rightarrow> u32 \<Rightarrow> u16 \<Rightarrow> u16 \<Rightarrow> u8 \<Rightarrow> int \<Rightarrow> int \<Rightarrow> buf res" where
  "ssdfs_fragment_descriptor_init crc32 mem d fragment offset compr_size uncompr_size sequence_id ty flags =
     bnd (fail_if (compr_size = 0 \<or> uncompr_size = 0 \<or> compr_size > uncompr_size) EINVAL) (\<lambda>_.
     bnd (fail_if (ty < SSDFS_FRAGMENT_UNCOMPR_BLOB \<or> ty > SSDFS_BLK2OFF_DESC_ZSTD) EINVAL) (\<lambda>_.
     bnd (fail_if (flags AND NOT 1 \<noteq> 0) EINVAL) (\<lambda>_.
     bnd (wr8 mem (d + 13) SSDFS_FRAGMENT_DESC_MAGIC) (\<lambda>mem.
     bnd (wr8 mem (d + 14) (word_of_int ty)) (\<lambda>mem.
     bnd (wr8 mem (d + 15) (word_of_int flags)) (\<lambda>mem.
     bnd (wr8 mem (d + 12) sequence_id) (\<lambda>mem.
     bnd (wr32 mem d offset) (\<lambda>mem.
     bnd (wr16 mem (d + 4) compr_size) (\<lambda>mem.
     bnd (wr16 mem (d + 6) uncompr_size) (\<lambda>mem.
     if flags AND SSDFS_FRAGMENT_HAS_CSUM \<noteq> 0
     then bnd (ssdfs_crc32_le (crc32 0) fragment 0 (unat uncompr_size)) (\<lambda>csum. wr32 mem (d + 8) csum)
     else Inr mem))))))))))"

text \<open>The method of the volume: the blob type of the header and of the fragments; 0 is no compression.\<close>

definition blkbmap_blob :: "int \<Rightarrow> blob option res" where
  "blkbmap_blob compression =
     (if compression = SSDFS_UNCOMPRESSED_BLOB then Inr None
      else if compression = SSDFS_ZLIB_BLOB then Inr (Some Zlib_blob)
      else if compression = SSDFS_LZO_BLOB then Inr (Some Lzo_blob)
      else if compression = SSDFS_LZ4_BLOB then Inr (Some Lz4_blob)
      else if compression = SSDFS_ZSTD_BLOB then Inr (Some Zstd_blob)
      else Inl Bug)"

definition fragment_type :: "blob option \<Rightarrow> int" where
  "fragment_type m = (case m of None \<Rightarrow> 1 | Some Zlib_blob \<Rightarrow> 2 | Some Lzo_blob \<Rightarrow> 3 | Some Lz4_blob \<Rightarrow> 15
     | Some Zstd_blob \<Rightarrow> 19)"

text \<open>The sizes \<^verbatim>\<open>__pre_commit_block_bitmap\<close> computes: the bitmap, its fragments, the allocation and the
  place of the bitmap behind the headers.\<close>

definition blkbmap_fragments :: "u32 \<Rightarrow> u32" where
  "blkbmap_fragments bmap_bytes = (bmap_bytes + 4096 - 1) div 4096"

definition blkbmap_offset :: "u32 \<Rightarrow> u32" where
  "blkbmap_offset fragments_count = 16 + 32 + fragments_count * 16"

definition blkbmap_allocation :: "u32 \<Rightarrow> u32" where
  "blkbmap_allocation bmap_bytes = bmap_bytes + 16 + 32 + blkbmap_fragments bmap_bytes * 16"

text \<open>The header and the fragment header at the start of \<^verbatim>\<open>compr_buf\<close>.\<close>

definition blkbmap_header :: "bool \<Rightarrow> blob option \<Rightarrow> buf \<Rightarrow> buf res" where
  "blkbmap_header backup m mem =
     bnd (wr32 mem 0 SSDFS_SUPER_MAGIC) (\<lambda>mem.
     bnd (wr16 mem 4 0x424D) (\<lambda>mem.
     bnd (wr8 mem 6 1) (\<lambda>mem.
     bnd (wr8 mem 7 20) (\<lambda>mem.
     bnd (wr16 mem 8 1) (\<lambda>mem.
     bnd (wr8 mem 14 ((if backup then 1 else 0) OR (if m = None then 0 else 2))) (\<lambda>mem.
     wr8 mem 15 (case m of None \<Rightarrow> 0 | Some Zlib_blob \<Rightarrow> 1 | Some Lzo_blob \<Rightarrow> 2 | Some Lz4_blob \<Rightarrow> 3
       | Some Zstd_blob \<Rightarrow> 4)))))))"

definition blkbmap_fragment_header :: "int \<Rightarrow> u16 \<Rightarrow> u32 \<Rightarrow> u32 \<Rightarrow> buf \<Rightarrow> buf res" where
  "blkbmap_fragment_header peb_index blks_count fragments_count bmap_bytes mem =
     bnd (wr16 mem 16 (word_of_int peb_index)) (\<lambda>mem.
     bnd (wr8 mem 18 0) (\<lambda>mem.
     bnd (wr8 mem 19 0) (\<lambda>mem.
     bnd (wr32 mem 20 (ucast blks_count)) (\<lambda>mem.
     bnd (wr32 mem 28 0) (\<lambda>mem.
     bnd (wr8 mem 44 SSDFS_CHAIN_HDR_MAGIC) (\<lambda>mem.
     bnd (wr8 mem 45 9) (\<lambda>mem.
     bnd (wr16 mem 46 0) (\<lambda>mem.
     bnd (wr16 mem 42 16) (\<lambda>mem.
     bnd (wr16 mem 40 (ucast fragments_count)) (\<lambda>mem.
     wr32 mem 36 bmap_bytes))))))))))"

text \<open>
  One fragment: \<open>bmap\<close> is the bitmap that was built, the state holds \<^verbatim>\<open>compr_buf\<close> and the counters
  \<^verbatim>\<open>fragment_offset\<close>, \<^verbatim>\<open>written_bmap_bytes\<close> and \<^verbatim>\<open>written_compr_bytes\<close>.
\<close>

definition blkbmap_fragment_step ::
  "crc_fun \<Rightarrow> 's codec_libs \<Rightarrow> blob option \<Rightarrow> u32 \<Rightarrow> u32 \<Rightarrow> u32 \<Rightarrow> buf \<Rightarrow> nat \<Rightarrow> buf \<times> u32 \<times> u32 \<times> u32 \<Rightarrow>
   (buf \<times> u32 \<times> u32 \<times> u32) res" where
  "blkbmap_fragment_step crc32 libs m allocation_size bmap_bytes bmap_offset bmap i =
     (\<lambda>(mem, fragment_offset, written_bmap, written_compr).
     let compr_size = allocation_size - written_compr;
         desc_offset = 16 + 32 + i * 16;
         fragment = drop (i * 4096) bmap;
         dst = unat bmap_offset + unat written_compr in
     bnd (BUG_ON (bmap_bytes \<le> written_bmap)) (\<lambda>_.
     let fragment_size = min (bmap_bytes - written_bmap) 4096 in
     bnd (BUG_ON (fragment_size \<ge> ucast U16_MAX)) (\<lambda>_.
     bnd (BUG_ON (i \<ge> unat U8_MAX)) (\<lambda>_.
     bnd (if fragment_size < 64 \<or> m = None
          then bnd (rd fragment 0 (unat fragment_size)) (\<lambda>d.
               bnd (wr mem dst d) (\<lambda>mem. Inr (mem, fragment_size, fragment_size, SSDFS_FRAGMENT_UNCOMPR_BLOB)))
          else bnd (blob_compress libs (the m) fragment mem dst fragment_size compr_size)
                 (\<lambda>(mem, fragment_size, compr_size). Inr (mem, fragment_size, compr_size, fragment_type m)))
       (\<lambda>(mem, fragment_size, compr_size, ty).
     bnd (ssdfs_fragment_descriptor_init crc32 mem desc_offset fragment fragment_offset (ucast compr_size)
            (ucast fragment_size) (of_nat i) ty SSDFS_FRAGMENT_HAS_CSUM) (\<lambda>mem.
     Inr (mem, fragment_offset + compr_size, written_bmap + fragment_size, written_compr + compr_size)))))))"

text \<open>The states of the blocks of the log in the bitmap.\<close>

definition blkbmap_mark_blocks :: "u32 \<Rightarrow> u64 \<Rightarrow> u32 \<Rightarrow> u16 \<Rightarrow> buf \<Rightarrow> buf res" where
  "blkbmap_mark_blocks page_size bytes_count start_logical_blk blks_count bmap =
     bnd (div_chk bytes_count (ucast page_size)) (\<lambda>blks.
     let valid_blks = ucast blks :: u32;
         pre_allocated_blks = ucast blks_count - valid_blks in
     bnd (fail_if (pre_allocated_blks > 1) ERANGE) (\<lambda>_.
     bnd (if valid_blks > 0 then ssdfs_blkbmap_set_area bmap start_logical_blk valid_blks SSDFS_BLK_VALID
          else Inr bmap) (\<lambda>bmap.
     if pre_allocated_blks > 0
     then ssdfs_blkbmap_set_area bmap (start_logical_blk + valid_blks) pre_allocated_blks SSDFS_BLK_PRE_ALLOCATED
     else Inr bmap)))"

definition pre_commit_block_bitmap_extent ::
  "crc_fun \<Rightarrow> 's codec_libs \<Rightarrow> bool \<Rightarrow> ssdfs_volume_layout \<Rightarrow> ssdfs_extent_desc \<Rightarrow> int \<Rightarrow> u64 \<Rightarrow> u32 \<Rightarrow> u16 \<Rightarrow>
   ssdfs_extent_desc res" where
  "pre_commit_block_bitmap_extent crc32 libs alloc_ok layout extent peb_index bytes_count start_logical_blk blks_count =
     bnd (BUG_ON (ext_buf extent \<noteq> None)) (\<lambda>_.
     bnd (BUG_ON (ext_compr_buf extent \<noteq> None)) (\<lambda>_.
     bnd (BUG_ON (vl_page_size layout = 0)) (\<lambda>_.
     bnd (BUG_ON (vl_page_size layout > erase_size (vl_env layout))) (\<lambda>_.
     let pages_per_peb = erase_size (vl_env layout) div vl_page_size layout in
     bnd (fail_if (ucast blks_count > pages_per_peb) EINVAL) (\<lambda>_.
     let bmap_bytes = BLK_BMAP_BYTES pages_per_peb;
         fragments_count = blkbmap_fragments bmap_bytes in
     bnd (BUG_ON (fragments_count \<ge> ucast U16_MAX)) (\<lambda>_.
     bnd (BUG_ON (fragments_count > 64)) (\<lambda>_.
     let allocation_size = blkbmap_allocation bmap_bytes;
         bmap_offset = blkbmap_offset fragments_count in
     bnd (fail_if (\<not> alloc_ok) ENOMEM) (\<lambda>_.
     bnd (blkbmap_blob (bb_compression (vl_blkbmap layout))) (\<lambda>m.
     bnd (blkbmap_header (bb_has_backup_copy (vl_blkbmap layout)) m (replicate (unat allocation_size) 0)) (\<lambda>mem.
     bnd (blkbmap_mark_blocks (vl_page_size layout) bytes_count start_logical_blk blks_count
            (drop (unat bmap_offset) (replicate (unat allocation_size) 0))) (\<lambda>bmap.
     bnd (blkbmap_fragment_header peb_index blks_count fragments_count bmap_bytes mem) (\<lambda>mem.
     bnd (for_res 0 (unat fragments_count)
            (blkbmap_fragment_step crc32 libs m allocation_size bmap_bytes bmap_offset bmap)
            (mem, bmap_offset, 0, 0)) (\<lambda>(mem, fragment_offset, written_bmap, written_compr).
     bnd (wr32 mem 32 written_compr) (\<lambda>mem.
     let written = 16 + 32 + fragments_count * 16 + written_compr in
     bnd (wr32 mem 10 written) (\<lambda>mem.
     Inr (extent\<lparr>ext_bytes_count := written, ext_state := bb_compression (vl_blkbmap layout),
                 ext_buf := Some mem, ext_compr_buf := None\<rparr>))))))))))))))))"

text \<open>The two entry points differ in the extent.\<close>

definition with_extent ::
  "ssdfs_volume_layout \<Rightarrow> int \<Rightarrow> int \<Rightarrow> int \<Rightarrow> (ssdfs_extent_desc \<Rightarrow> ssdfs_extent_desc res) \<Rightarrow>
   ssdfs_volume_layout res" where
  "with_extent layout seg_index peb_index i f =
     bnd (fail_if (seg_index \<ge> vl_segs_capacity layout) EINVAL) (\<lambda>_.
     bnd (nth_int (vl_segs layout) seg_index) (\<lambda>seg_desc.
     bnd (fail_if (peb_index \<ge> int (unat (sd_pebs_capacity seg_desc))) EINVAL) (\<lambda>_.
     bnd (nth_int (sd_pebs seg_desc) peb_index) (\<lambda>peb_desc.
     bnd (f (extent_of peb_desc i)) (\<lambda>extent.
     put_peb layout seg_index peb_index (put_extent peb_desc i extent))))))"

definition pre_commit_block_bitmap ::
  "crc_fun \<Rightarrow> 's codec_libs \<Rightarrow> bool \<Rightarrow> ssdfs_volume_layout \<Rightarrow> int \<Rightarrow> int \<Rightarrow> u64 \<Rightarrow> u32 \<Rightarrow> u16 \<Rightarrow>
   ssdfs_volume_layout res" where
  "pre_commit_block_bitmap crc32 libs alloc_ok layout seg_index peb_index bytes_count start_logical_blk blks_count =
     with_extent layout seg_index peb_index SSDFS_BLOCK_BITMAP (\<lambda>extent.
       pre_commit_block_bitmap_extent crc32 libs alloc_ok layout extent peb_index bytes_count start_logical_blk
         blks_count)"

definition pre_commit_block_bitmap_backup ::
  "crc_fun \<Rightarrow> 's codec_libs \<Rightarrow> bool \<Rightarrow> ssdfs_volume_layout \<Rightarrow> int \<Rightarrow> int \<Rightarrow> u64 \<Rightarrow> u32 \<Rightarrow> u16 \<Rightarrow>
   ssdfs_volume_layout res" where
  "pre_commit_block_bitmap_backup crc32 libs alloc_ok layout seg_index peb_index bytes_count start_logical_blk
     blks_count =
     with_extent layout seg_index peb_index SSDFS_BLOCK_BITMAP_BACKUP (\<lambda>extent.
       pre_commit_block_bitmap_extent crc32 libs alloc_ok layout extent peb_index bytes_count start_logical_blk
         blks_count)"

text \<open>The commit adds the number of metadata blocks of the log.\<close>

definition commit_block_bitmap_extent ::
  "ssdfs_volume_layout \<Rightarrow> ssdfs_extent_desc \<Rightarrow> u16 \<Rightarrow> ssdfs_extent_desc res" where
  "commit_block_bitmap_extent layout extent metadata_blks =
     bnd (BUG_ON (ext_buf extent = None)) (\<lambda>_.
     bnd (deref (ext_buf extent)) (\<lambda>mem.
     bnd (div_chk (erase_size (vl_env layout)) (vl_page_size layout)) (\<lambda>pages_per_peb.
     bnd (BUG_ON (ucast metadata_blks \<ge> pages_per_peb)) (\<lambda>_.
     bnd (wr32 mem (16 + 8) (ucast metadata_blks)) (\<lambda>mem.
     Inr (extent\<lparr>ext_buf := Some mem\<rparr>))))))"

definition commit_block_bitmap :: "ssdfs_volume_layout \<Rightarrow> int \<Rightarrow> int \<Rightarrow> u16 \<Rightarrow> ssdfs_volume_layout res" where
  "commit_block_bitmap layout seg_index peb_index metadata_blks =
     bnd (peb_at layout seg_index peb_index) (\<lambda>peb_desc.
     bnd (commit_block_bitmap_extent layout (extent_of peb_desc SSDFS_BLOCK_BITMAP) metadata_blks) (\<lambda>extent.
     put_peb layout seg_index peb_index (put_extent peb_desc SSDFS_BLOCK_BITMAP extent)))"

definition commit_block_bitmap_backup :: "ssdfs_volume_layout \<Rightarrow> int \<Rightarrow> int \<Rightarrow> u16 \<Rightarrow> ssdfs_volume_layout res" where
  "commit_block_bitmap_backup layout seg_index peb_index metadata_blks =
     bnd (peb_at layout seg_index peb_index) (\<lambda>peb_desc.
     bnd (commit_block_bitmap_extent layout (extent_of peb_desc SSDFS_BLOCK_BITMAP_BACKUP) metadata_blks) (\<lambda>extent.
     put_peb layout seg_index peb_index (put_extent peb_desc SSDFS_BLOCK_BITMAP_BACKUP extent)))"

section \<open>Lemmas\<close>

lemma set_area_run:
  assumes "0 \<le> st" and "st < 4" and "unat start + unat n \<le> 4 * length bmap" and "4 * length bmap + 4 \<le> 2 ^ 32"
  shows "\<exists>bmap'. ssdfs_blkbmap_set_area bmap start n st = Inr bmap' \<and>
    area_set 2 bmap bmap' (unat start) (unat start + unat n) st"
  using blkbmap_area_loop_ok[of "unat start mod 4" "unat start div 4" "unat start" 0 "unat n"
      "(unat start + unat n + 3) div 4 - unat start div 4" 0 bmap st] assms
  by (auto simp: blkbmap_set_area_unfold byte_range_covers)

text \<open>The state a block of the log has: the first blocks valid, a last one possibly pre-allocated.\<close>

definition log_blk_state :: "nat \<Rightarrow> nat \<Rightarrow> nat \<Rightarrow> nat \<Rightarrow> int" where
  "log_blk_state start valid blks k =
     (if start \<le> k \<and> k < start + valid then SSDFS_BLK_VALID
      else if start \<le> k \<and> k < start + blks then SSDFS_BLK_PRE_ALLOCATED
      else SSDFS_BLK_FREE)"

lemma bmap_item_zero: "k < 4 * n \<Longrightarrow> bmap_item 2 (replicate n 0) k = 0"
  by (simp add: bmap_item_def item_in_byte_def less_mult_imp_div_less mult.commute)

lemma mark_blocks_ok:
  assumes "p \<noteq> 0" and v: "v = unat bytes_count div unat p" "v \<le> unat blks" "unat blks \<le> v + 1"
    and "unat start + unat blks \<le> 4 * n" and "4 * n + 4 \<le> 2 ^ 32"
  shows "\<exists>bmap. blkbmap_mark_blocks p bytes_count start blks (replicate n 0) = Inr bmap \<and> length bmap = n \<and>
    (\<forall>k < 4 * n. bmap_item 2 bmap k = log_blk_state (unat start) v (unat blks) k)"
proof -
  let ?v = "ucast (bytes_count div ucast p) :: u32" and ?z = "replicate n (0 :: u8)"
  let ?r = "ucast blks - ?v"
  have b: "unat (ucast blks :: u32) = unat blks" "unat blks < 2 ^ 16"
    using unat_width[of blks] by (simp_all add: unat_ucast_up)
  have uv: "unat ?v = v" using v b by (simp add: unat_ucast_small unat_div unat_ucast_up)
  have ur: "unat ?r = unat blks - v" using v(2) b uv by (subst unat_sub_nw) (simp_all add: word_le_nat_alt)
  have up: "unat (ucast p :: u64) = unat p" by (simp add: unat_ucast_up)
  have d: "div_chk bytes_count (ucast p) = Inr (bytes_count div ucast p)"
    using assms(1) up word_unat_eqI[of p 0] by (auto simp: div_chk_def)
  have us: "unat (start + ?v) = unat start + v" using assms(5,6) v(2) uv by (subst unat_add_nw) simp_all
  obtain b1 where b1: "(if 0 < ?v then ssdfs_blkbmap_set_area ?z start ?v SSDFS_BLK_VALID else Inr ?z) = Inr b1"
    "area_set 2 ?z b1 (unat start) (unat start + v) SSDFS_BLK_VALID"
    using set_area_run[of SSDFS_BLK_VALID start ?v ?z] assms(5,6) v(2) uv
    by (cases "0 < ?v") (auto simp: const_defs word_less_nat_alt area_set_def)
  have l1: "length b1 = n" using b1(2) by (simp add: area_set_def)
  obtain b2 where b2: "(if 0 < ?r then ssdfs_blkbmap_set_area b1 (start + ?v) ?r SSDFS_BLK_PRE_ALLOCATED else Inr b1) = Inr b2"
    "area_set 2 b1 b2 (unat start + v) (unat start + unat blks) SSDFS_BLK_PRE_ALLOCATED"
    using set_area_run[of SSDFS_BLK_PRE_ALLOCATED "start + ?v" ?r b1] assms(5,6) v(2) us ur l1
    by (cases "0 < ?r") (auto simp: const_defs word_less_nat_alt area_set_def)
  have "\<not> 1 < ?r" using ur v(3) by (simp add: word_less_nat_alt)
  then have "blkbmap_mark_blocks p bytes_count start blks ?z = Inr b2"
    using b1(1) b2(1) by (simp add: blkbmap_mark_blocks_def d Let_def)
  moreover have "bmap_item 2 b2 k = log_blk_state (unat start) v (unat blks) k" if "k < 4 * n" for k
    using b1(2) b2(2) l1 that by (auto simp: area_set_def log_blk_state_def bmap_item_zero const_defs)
  ultimately show ?thesis using l1 b2(2) by (auto simp: area_set_def)
qed

lemma descriptor_init_run:
  assumes "d + 16 \<le> length mem" and "sz \<noteq> 0" and "unat sz \<le> length fragment"
  shows "\<exists>mem'. ssdfs_fragment_descriptor_init crc32 mem d fragment off sz sz i 1 1 = Inr mem' \<and>
    length mem' = length mem \<and> (\<forall>o' n. o' + n \<le> d \<or> d + 16 \<le> o' \<longrightarrow> bytes_at mem' o' n = bytes_at mem o' n)"
  using assms
  by (simp add: ssdfs_fragment_descriptor_init_def ssdfs_crc32_le_def buf_simps)

lemma bytes_at_add: "bytes_at b off (n + m) = bytes_at b off n @ bytes_at b (off + n) m"
  unfolding bytes_at_def take_add drop_drop by (simp add: add.commute)

text \<open>A fragment that is not compressed is copied to the place it has in the bitmap.\<close>

lemma fragment_step_copies:
  assumes "bytes_at mem (unat off) w = take w bmap" and "length bmap = B" and "unat bb = B" and "unat w32 = w"
    and "w = i * 4096" and "w < B" and "unat off + B \<le> length mem" and "48 + 16 * i + 16 \<le> unat off" and "i < 64"
    and "unat off + B < 2 ^ 32"
  shows "\<exists>mem' w'. blkbmap_fragment_step crc32 libs None alloc bb off bmap i (mem, fo, w32, w32) =
      Inr (mem', fo + (w' - w32), w', w') \<and> unat w' = min B (w + 4096) \<and> length mem' = length mem \<and>
      bytes_at mem' (unat off) (unat w') = take (unat w') bmap"
proof -
  let ?sz = "min (bb - w32) 4096" and ?frag = "drop (i * 4096) bmap"
  have sub: "unat (bb - w32) = B - w" using assms by (subst unat_sub_nw) (simp_all add: word_le_nat_alt)
  have sz: "unat ?sz = min (B - w) 4096" using sub by (simp add: unat_min)
  have lt: "\<not> bb \<le> w32" "\<not> ucast U16_MAX \<le> ?sz" "\<not> unat U8_MAX \<le> i"
    using assms(3,4,6,9) sz by (simp_all add: word_le_nat_alt ucast_max unat_minus_one_eq)
  have sz16: "unat (ucast ?sz :: u16) = unat ?sz" using sz by (simp add: unat_ucast_small)
  have lens: "unat ?sz \<le> length ?frag" "unat off + w + unat ?sz \<le> length mem" using sz assms(2,5-7) by simp_all
  define mem1 where "mem1 = overwrite mem (unat off + w) (bytes_at ?frag 0 (unat ?sz))"
  have l1: "length mem1 = length mem" using lens by (simp add: mem1_def)
  have copy: "bnd (rd ?frag 0 (unat ?sz)) (wr mem (unat off + w)) = Inr mem1" using lens by (simp add: mem1_def)
  have part: "bytes_at mem1 (unat off) (w + unat ?sz) = take (w + unat ?sz) bmap"
    using lens assms(1,5) by (simp add: bytes_at_add mem1_def bytes_at_overwrite_disj take_add) (simp add: bytes_at_def)
  have "(ucast ?sz :: u16) \<noteq> 0" using sz16 sz assms(6) by (metis diff_is_0_eq leD min_def unat_0 zero_neq_numeral)
  then obtain mem2 where m2:
    "ssdfs_fragment_descriptor_init crc32 mem1 (48 + i * 16) ?frag fo (ucast ?sz) (ucast ?sz) (of_nat i) 1 1 = Inr mem2"
    "length mem2 = length mem1" "bytes_at mem2 (unat off) (w + unat ?sz) = bytes_at mem1 (unat off) (w + unat ?sz)"
    using descriptor_init_run[of "48 + i * 16" mem1 "ucast ?sz" ?frag crc32 fo "of_nat i"] lens l1 sz16 assms(7,8) by force
  have w': "unat (w32 + ?sz) = w + unat ?sz" using assms sz by (subst unat_add_nw) simp_all
  have run: "blkbmap_fragment_step crc32 libs None alloc bb off bmap i (mem, fo, w32, w32) =
      Inr (mem2, fo + ?sz, w32 + ?sz, w32 + ?sz)"
    unfolding blkbmap_fragment_step_def Let_def using lt copy m2(1) lens assms(4) by (simp add: mem1_def add.assoc ucast_max)
  show ?thesis using run w' sz m2 l1 part assms(6) by (intro exI[of _ mem2] exI[of _ "w32 + ?sz"]) simp
qed

lemma fragment_loop_copies:
  assumes "length bmap = B" and "unat bb = B" and "F = (B + 4095) div 4096" and "unat off + B \<le> length mem"
    and "48 + 16 * F \<le> unat off" and "F \<le> 64" and "unat off + B < 2 ^ 32"
  shows "\<exists>mem' fo'. for_res 0 F (blkbmap_fragment_step crc32 libs None alloc bb off bmap) (mem, off, 0, 0) =
      Inr (mem', fo', bb, bb) \<and> length mem' = length mem \<and> bytes_at mem' (unat off) B = bmap"
proof -
  let ?I = "\<lambda>i (m, fo :: u32, w :: u32, c). c = w \<and> unat w = min B (i * 4096) \<and> length m = length mem \<and>
    bytes_at m (unat off) (unat w) = take (unat w) bmap"
  have "\<exists>s'. for_res 0 F (blkbmap_fragment_step crc32 libs None alloc bb off bmap) (mem, off, 0, 0) = Inr s' \<and> ?I F s'"
  proof (rule for_res_total[of 0 F ?I])
    show "?I 0 (mem, off, 0, 0)" by (simp add: bytes_at_def)
    fix i t assume i: "0 \<le> i" "i < F" "?I i t"
    obtain m fo w where t: "t = (m, fo, w, w)" using i(3) by (cases t) auto
    have lt: "i * 4096 < B" using i(2) assms(3) by linarith
    then have w: "unat w = i * 4096" using i(3) t by simp
    obtain m' w' where "blkbmap_fragment_step crc32 libs None alloc bb off bmap i (m, fo, w, w) =
        Inr (m', fo + (w' - w), w', w')" "unat w' = min B (i * 4096 + 4096)" "length m' = length m"
        "bytes_at m' (unat off) (unat w') = take (unat w') bmap"
      using fragment_step_copies[of m off "unat w" bmap B bb w i crc32 libs alloc fo] i t w lt assms by auto
    then show "\<exists>t'. blkbmap_fragment_step crc32 libs None alloc bb off bmap i t = Inr t' \<and> ?I (Suc i) t'"
      using i(3) t by (simp add: algebra_simps)
  qed simp
  moreover have "B \<le> F * 4096" using ceil_div_mult_ge[of 4096 B] assms(3) by (simp add: mult.commute)
  ultimately show ?thesis using assms(1,2) by (auto intro!: word_unat_eqI)
qed

lemma header_runs:
  assumes "48 \<le> length mem"
  shows "\<exists>mem'. blkbmap_header backup m mem = Inr mem' \<and> length mem' = length mem"
    and "\<exists>mem'. blkbmap_fragment_header peb blks n bytes mem = Inr mem' \<and> length mem' = length mem"
  using assms by (simp_all add: blkbmap_header_def blkbmap_fragment_header_def buf_simps)

text \<open>The sizes, for a PEB of at most 1048576 pages.\<close>

lemma blkbmap_sizes:
  assumes "unat pages \<le> 1048576" and "B = (unat pages + 3) div 4" and "F = (B + 4095) div 4096"
  shows "unat (BLK_BMAP_BYTES pages) = B" and "unat (blkbmap_fragments (BLK_BMAP_BYTES pages)) = F"
    and "unat (blkbmap_offset (blkbmap_fragments (BLK_BMAP_BYTES pages))) = 48 + 16 * F"
    and "unat (blkbmap_allocation (BLK_BMAP_BYTES pages)) = 48 + 16 * F + B" and "F \<le> 64" and "B \<le> 262144"
proof -
  have "unat (pages + 4 - 1) = unat pages + 3"
  proof -
    have "pages + 4 - 1 = pages + 3" by simp
    then show ?thesis using assms(1) by (simp add: unat_add_nw)
  qed
  then show B: "unat (BLK_BMAP_BYTES pages) = B" using assms(2) by (simp add: BLK_BMAP_BYTES_def unat_div)
  show b: "B \<le> 262144" using assms(1,2) by linarith
  then show f: "F \<le> 64" using assms(3) by linarith
  have "unat (BLK_BMAP_BYTES pages + 4096 - 1) = B + 4095"
  proof -
    have "BLK_BMAP_BYTES pages + 4096 - 1 = BLK_BMAP_BYTES pages + 4095" by simp
    then show ?thesis using B b by (simp add: unat_add_nw)
  qed
  then show F: "unat (blkbmap_fragments (BLK_BMAP_BYTES pages)) = F"
    using assms(3) by (simp add: blkbmap_fragments_def unat_div)
  have m: "unat (blkbmap_fragments (BLK_BMAP_BYTES pages) * 16) = F * 16"
    using F f by (subst unat_mult_nw) simp_all
  then show "unat (blkbmap_offset (blkbmap_fragments (BLK_BMAP_BYTES pages))) = 48 + 16 * F"
    using f by (simp add: blkbmap_offset_def unat_add_nw)
  have "unat (BLK_BMAP_BYTES pages + 16 + 32) = B + 48" using B b by (simp add: unat_add_nw)
  then show "unat (blkbmap_allocation (BLK_BMAP_BYTES pages)) = 48 + 16 * F + B"
    using m f b by (simp add: blkbmap_allocation_def unat_add_nw)
qed

section \<open>Properties\<close>

text \<open>
  C26. On a volume without compression \<^verbatim>\<open>__pre_commit_block_bitmap\<close> returns, and the bitmap it
  stores behind the headers marks exactly the blocks of the log: the blocks that the payload
  fills are valid, the one that it fills partly is pre-allocated, and every other block of the
  PEB is free. The length it records is the length of the extent.
\<close>

theorem pre_commit_block_bitmap_states:
  assumes "ext_buf extent = None" and "ext_compr_buf extent = None" and "vl_page_size layout \<noteq> 0"
    and "bb_compression (vl_blkbmap layout) = SSDFS_UNCOMPRESSED_BLOB"
    and pages: "pages = unat (erase_size (vl_env layout)) div unat (vl_page_size layout)" "0 < pages" "pages \<le> 1048576"
    and valid: "valid = unat bytes_count div unat (vl_page_size layout)" "valid \<le> unat blks" "unat blks \<le> valid + 1"
    and "unat start + unat blks \<le> pages"
  shows "\<exists>extent' mem.
    pre_commit_block_bitmap_extent crc32 libs True layout extent peb_index bytes_count start blks = Inr extent' \<and>
    ext_buf extent' = Some mem \<and> unat (ext_bytes_count extent') = length mem \<and>
    (\<forall>k < pages. bmap_item SSDFS_BLK_STATE_BITS (drop (48 + 16 * (((pages + 3) div 4 + 4095) div 4096)) mem) k =
       log_blk_state (unat start) valid (unat blks) k)"
proof -
  define p32 where "p32 = erase_size (vl_env layout) div vl_page_size layout"
  define B where "B = (pages + 3) div 4"
  define F where "F = (B + 4095) div 4096"
  have p32: "unat p32 = pages" using pages(1) by (simp add: p32_def unat_div)
  let ?bb = "BLK_BMAP_BYTES p32" and ?a = "replicate (unat (blkbmap_allocation (BLK_BMAP_BYTES p32))) (0 :: u8)"
  let ?n = "blkbmap_fragments ?bb" and ?off = "blkbmap_offset (blkbmap_fragments ?bb)"
  note sz = blkbmap_sizes[OF _ _ F_def, of p32, unfolded p32, OF pages(3) B_def]
  have B: "pages \<le> 4 * B" unfolding B_def by linarith
  have la: "48 \<le> length ?a" "length ?a = 48 + 16 * F + B" using sz by simp_all
  obtain mem1 where m1: "blkbmap_header (bb_has_backup_copy (vl_blkbmap layout)) None ?a = Inr mem1" "length mem1 = length ?a"
    using header_runs(1)[OF la(1)] by blast
  obtain bmap where b: "blkbmap_mark_blocks (vl_page_size layout) bytes_count start blks (drop (unat ?off) ?a) = Inr bmap"
    "length bmap = B" "\<forall>k < 4 * B. bmap_item 2 bmap k = log_blk_state (unat start) valid (unat blks) k"
    using mark_blocks_ok[OF assms(3) valid, of start B] assms(11) B sz by auto
  obtain mem2 where m2: "blkbmap_fragment_header peb_index blks ?n ?bb mem1 = Inr mem2" "length mem2 = length ?a"
    using header_runs(2)[of mem1] m1(2) la(1) by metis
  obtain mem3 fo where m3: "for_res 0 F (blkbmap_fragment_step crc32 libs None (blkbmap_allocation ?bb) ?bb ?off bmap)
      (mem2, ?off, 0, 0) = Inr (mem3, fo, ?bb, ?bb)" "length mem3 = length mem2" "bytes_at mem3 (unat ?off) B = bmap"
    using fragment_loop_copies[OF b(2) sz(1) F_def, of ?off mem2 crc32 libs "blkbmap_allocation ?bb"] sz m2(2) la(2)
    by auto
  let ?mem = "put32 (put32 mem3 32 ?bb) 10 (16 + 32 + ?n * 16 + ?bb)"
  have le: "\<not> erase_size (vl_env layout) < vl_page_size layout"
    using pages(1,2) by (simp add: word_less_nat_alt div_greater_zero_iff)
  have blks: "\<not> p32 < ucast blks" using assms(11) p32 by (simp add: word_less_nat_alt unat_ucast_up)
  have few: "\<not> ucast U16_MAX \<le> ?n" "\<not> 64 < ?n" using sz(2,5) by (simp_all add: word_le_nat_alt word_less_nat_alt ucast_max)
  have "16 + 32 + ?n * 16 + ?bb = blkbmap_allocation ?bb" by (simp add: blkbmap_allocation_def)
  then have written: "unat (16 + 32 + ?n * 16 + ?bb) = length ?mem" using m3(2) m2(2) la(1) by simp
  have "bytes_at ?mem (unat ?off) B = bmap" using m3(2,3) m2(2) la sz(3) by (simp add: bytes_at_put_disj)
  then have payload: "drop (unat ?off) ?mem = bmap" using m3(2) m2(2) la sz(3) by (simp add: bytes_at_def)
  have "pre_commit_block_bitmap_extent crc32 libs True layout extent peb_index bytes_count start blks =
    Inr (extent\<lparr>ext_bytes_count := 16 + 32 + ?n * 16 + ?bb, ext_state := 0, ext_buf := Some ?mem, ext_compr_buf := None\<rparr>)"
    unfolding pre_commit_block_bitmap_extent_def blkbmap_blob_def Let_def p32_def[symmetric]
    using assms(1-4) le blks few m1(1) b(1) m2(1) m3(1) sz(2) m3(2) m2(2) la(1) by simp
  then show ?thesis using written payload b(3) B unfolding sz(3) by (auto simp: F_def B_def)
qed

theorem pre_commit_block_bitmap_states_witness:
  "\<exists>extent' mem.
     pre_commit_block_bitmap_extent (\<lambda>c b. c) run_libs True
       (mkfs_volume_layout\<lparr>vl_blkbmap := \<lparr>bb_has_backup_copy = False, bb_compression = SSDFS_UNCOMPRESSED_BLOB\<rparr>\<rparr>)
       (sample_extent 0) 0 10000 7 3 = Inr extent' \<and>
     ext_buf extent' = Some mem \<and> unat (ext_bytes_count extent') = length mem \<and>
     map (bmap_item SSDFS_BLK_STATE_BITS (drop 64 mem)) [6, 7, 8, 9, 10] = [0, 3, 3, 1, 0]"
proof -
  let ?l = "mkfs_volume_layout\<lparr>vl_blkbmap := \<lparr>bb_has_backup_copy = False, bb_compression = SSDFS_UNCOMPRESSED_BLOB\<rparr>\<rparr>"
  have sel: "vl_page_size ?l = 4096" "erase_size (vl_env ?l) = 8388608" by (simp_all add: mkfs_volume_layout_def)
  show ?thesis
    using pre_commit_block_bitmap_states[of "sample_extent 0" ?l 2048 2 10000 3 7 "\<lambda>c b. c" run_libs 0]
    unfolding sel by (fastforce simp: sample_extent_def log_blk_state_def const_defs)
qed

end
