(* ===== verification/MkfsTables.thy ===== *)
theory MkfsTables
  imports MkfsBlkBmap
begin

text \<open>
  \<^verbatim>\<open>sbin/mkfs.ssdfs/common.c\<close>, fourth part: the offset translation table (logical block to the place
  of its block descriptor) and the table of block descriptors of a log.

  Both tables are chains of fragments behind a header; the number of items of the last fragment
  is a remainder, which is 0 when the items fill the fragments exactly. The theory shows that
  the two tables agree on where a descriptor is, and what happens on an exact multiple.
\<close>

section \<open>The offset translation table\<close>

abbreviation (input) OFF_DESC_PER_FRAGMENT :: nat where "OFF_DESC_PER_FRAGMENT \<equiv> 253"
abbreviation (input) BLK_DESC_PER_FRAGMENT :: nat where "BLK_DESC_PER_FRAGMENT \<equiv> 60"
abbreviation (input) SSDFS_FRAGMENTS_CHAIN_MAX :: nat where "SSDFS_FRAGMENTS_CHAIN_MAX \<equiv> 14"
abbreviation (input) SSDFS_BLK2OFF_TBL_MAX :: nat where "SSDFS_BLK2OFF_TBL_MAX \<equiv> 6"

definition BLK_DESC_TABLE_FRAGMENTS :: "u16 \<Rightarrow> u16" where
  "BLK_DESC_TABLE_FRAGMENTS blks_count = ucast ((ucast blks_count + 60 - 1 :: u64) div 60)"

definition portions_of :: "u32 \<Rightarrow> u16" where
  "portions_of fragments = ucast (fragments + 6 - 1) div 6"

definition calculate_offset_table_fragments :: "u16 \<Rightarrow> u16 res" where
  "calculate_offset_table_fragments valid_blks =
     (let fragments_count = (ucast valid_blks + 253 - 1) div 253 :: u32 in
      bnd (BUG_ON (fragments_count \<ge> ucast U16_MAX)) (\<lambda>_.
      Inr (ucast (fragments_count + ucast (portions_of fragments_count)))))"

definition calculate_offset_table_size :: "u16 \<Rightarrow> u16 \<Rightarrow> u64" where
  "calculate_offset_table_size fragments valid_blks =
     (let blks_in_last_fragment = ucast valid_blks mod 253 :: u32;
          portions_count = portions_of (ucast fragments);
          item_fragments = ucast fragments - ucast portions_count :: u32 in
      128 * ucast portions_count + 8 * ucast portions_count + 32 * ucast item_fragments +
      ucast (item_fragments - 1) * (253 * 16) + ucast blks_in_last_fragment * 16)"

definition define_block_descriptor_offset :: "u16 \<Rightarrow> u32" where
  "define_block_descriptor_offset blk_id =
     (let blk_desc_per_area = 60 * 14 :: u32; area_index = ucast blk_id div blk_desc_per_area in
      (area_index + 1) * 256 + ucast blk_id * 64)"

definition offset_descriptor_step ::
  "nat \<Rightarrow> u8 \<Rightarrow> u32 \<Rightarrow> u16 \<Rightarrow> u16 \<Rightarrow> nat \<Rightarrow> buf \<Rightarrow> buf res" where
  "offset_descriptor_step frag area_type logical_start_page logical_blk start_peb_page i mem =
     (let o' = frag + 32 + 16 * i;
          peb_page = ucast start_peb_page + of_nat i :: u32;
          byte_offset = define_block_descriptor_offset (ucast peb_page);
          blk = logical_blk + of_nat i in
      bnd (wr32 mem o' (logical_start_page + of_nat i)) (\<lambda>mem.
      bnd (wr16 mem (o' + 4) blk) (\<lambda>mem.
      bnd (wr16 mem (o' + 6) blk) (\<lambda>mem.
      bnd (wr16 mem (o' + 8) 0) (\<lambda>mem.
      bnd (wr8 mem (o' + 10) area_type) (\<lambda>mem.
      bnd (wr8 mem (o' + 11) 1) (\<lambda>mem.
      wr32 mem (o' + 12) byte_offset)))))))"

text \<open>The header of a fragment, written behind the descriptors, and its checksum.\<close>

definition offsets_fragment_header ::
  "crc_fun \<Rightarrow> nat \<Rightarrow> u32 \<Rightarrow> int \<Rightarrow> u16 \<Rightarrow> u16 \<Rightarrow> u16 \<Rightarrow> u16 \<Rightarrow> u32 \<Rightarrow> u32 \<Rightarrow> buf \<Rightarrow> buf res" where
  "offsets_fragment_header crc32 frag pages_per_seg peb_index sequence_id start_id id_count rest_blks used_logical_blks
     last_allocated_blk mem =
     bnd (wr32 mem (frag + 16) 0x504F5448) (\<lambda>mem.
     bnd (wr16 mem frag start_id) (\<lambda>mem.
     bnd (wr16 mem (frag + 2) id_count) (\<lambda>mem.
     let byte_size = 32 + ucast id_count * 16 :: u32 in
     bnd (wr32 mem (frag + 4) byte_size) (\<lambda>mem.
     bnd (wr16 mem (frag + 8) (word_of_int peb_index)) (\<lambda>mem.
     bnd (wr16 mem (frag + 10) sequence_id) (\<lambda>mem.
     bnd (wr16 mem (frag + 12) 1) (\<lambda>mem.
     let flags = (if id_count < rest_blks then 1 OR 2 else 1) :: u16 in
     bnd (wr16 mem (frag + 14) flags) (\<lambda>mem.
     let free_items = min pages_per_seg 253 in
     bnd (BUG_ON (used_logical_blks > free_items)) (\<lambda>_.
     bnd (wr16 mem (frag + 24) (ucast used_logical_blks)) (\<lambda>mem.
     bnd (wr16 mem (frag + 26) (ucast free_items - ucast used_logical_blks)) (\<lambda>mem.
     bnd (wr16 mem (frag + 28) (ucast last_allocated_blk)) (\<lambda>mem.
     bnd (BUG_ON (byte_size \<ge> ucast U16_MAX)) (\<lambda>_.
     bnd (wr16 mem (frag + 30) (if flags AND 2 \<noteq> 0 then ucast byte_size else U16_MAX)) (\<lambda>mem.
     bnd (wr32 mem (frag + 20) 0) (\<lambda>mem.
     bnd (ssdfs_crc32_le (crc32 0) mem frag (unat byte_size)) (\<lambda>csum.
     wr32 mem (frag + 20) csum))))))))))))))))"

text \<open>The result is the memory and the number of processed blocks.\<close>

definition prepare_offsets_table_fragment ::
  "crc_fun \<Rightarrow> buf \<Rightarrow> nat \<Rightarrow> u32 \<Rightarrow> int \<Rightarrow> u16 \<Rightarrow> u8 \<Rightarrow> u32 \<Rightarrow> u16 \<Rightarrow> u16 \<Rightarrow> u16 \<Rightarrow> u16 \<Rightarrow> u16 \<Rightarrow> u32 \<Rightarrow> u32 \<Rightarrow>
   (buf \<times> u16) res" where
  "prepare_offsets_table_fragment crc32 mem frag pages_per_seg peb_index sequence_id area_type logical_start_page
     logical_blk start_peb_page start_id valid_blks rest_blks used_logical_blks last_allocated_blk =
     bnd (BUG_ON (valid_blks = 0)) (\<lambda>_.
     bnd (BUG_ON (area_type \<ge> 4)) (\<lambda>_.
     bnd (BUG_ON (peb_index \<ge> 65535)) (\<lambda>_.
     bnd (BUG_ON (last_allocated_blk + 1 \<noteq> used_logical_blks)) (\<lambda>_.
     bnd (BUG_ON (used_logical_blks \<ge> ucast U16_MAX)) (\<lambda>_.
     bnd (BUG_ON (last_allocated_blk \<ge> ucast U16_MAX)) (\<lambda>_.
     let id_count = min rest_blks 253 in
     bnd (for_res 0 (unat id_count)
            (offset_descriptor_step frag area_type logical_start_page logical_blk start_peb_page) mem) (\<lambda>mem.
     bnd (offsets_fragment_header crc32 frag pages_per_seg peb_index sequence_id start_id id_count rest_blks
            used_logical_blks last_allocated_blk mem) (\<lambda>mem.
     Inr (mem, id_count)))))))))"

text \<open>The variables of \<^verbatim>\<open>__pre_commit_offset_table\<close> that change in its loops.\<close>

record offset_table_state =
  ot_mem :: buf
  ot_offset :: u32
  ot_start_id :: u16
  ot_rest_blks :: u16
  ot_logical_start_page :: u64
  ot_logical_blk :: u32
  ot_start_peb_page :: u32
  ot_cur_fragment :: u32
  ot_cur_phys_off_tbl_frag :: u32
  ot_fragments_count :: int

text \<open>One physical offset fragment; \<open>tbl\<close> is the header of the portion and \<open>j\<close> the index of the descriptor.\<close>

definition offset_table_fragment ::
  "crc_fun \<Rightarrow> u32 \<Rightarrow> int \<Rightarrow> u16 \<Rightarrow> u32 \<Rightarrow> u32 \<Rightarrow> nat \<Rightarrow> nat \<Rightarrow> offset_table_state \<Rightarrow> offset_table_state res" where
  "offset_table_fragment crc32 pages_per_seg peb_index valid_blks used_logical_blks last_allocated_blk tbl j st =
     bnd (prepare_offsets_table_fragment crc32 (ot_mem st) (unat (ot_offset st)) pages_per_seg peb_index
            (ucast (ot_cur_phys_off_tbl_frag st)) 0 (ucast (ot_logical_start_page st)) (ucast (ot_logical_blk st))
            (ucast (ot_start_peb_page st)) (ot_start_id st) valid_blks (ot_rest_blks st) used_logical_blks
            last_allocated_blk) (\<lambda>(mem, processed_blks).
     let frag_size = 32 + ucast processed_blks * 16 :: u32 in
     bnd (ssdfs_fragment_descriptor_init crc32 mem (tbl + 32 + 16 * j) (drop (unat (ot_offset st)) mem) (ot_offset st)
            (ucast frag_size) (ucast frag_size) (ucast (ot_cur_fragment st)) 11 SSDFS_FRAGMENT_HAS_CSUM) (\<lambda>mem.
     Inr (st\<lparr>ot_mem := mem, ot_start_id := ot_start_id st + processed_blks,
             ot_rest_blks := ot_rest_blks st - processed_blks,
             ot_logical_start_page := ot_logical_start_page st + ucast processed_blks,
             ot_logical_blk := ot_logical_blk st + ucast processed_blks,
             ot_start_peb_page := ot_start_peb_page st + ucast processed_blks,
             ot_offset := ot_offset st + frag_size, ot_cur_fragment := ot_cur_fragment st + 1,
             ot_cur_phys_off_tbl_frag := ot_cur_phys_off_tbl_frag st + 1,
             ot_fragments_count := ot_fragments_count st - 1\<rparr>)))"

text \<open>The fragments of a portion: at most \<open>n\<close> more from index \<open>j\<close> on, until none is left.\<close>

fun offset_table_chain ::
  "(nat \<Rightarrow> offset_table_state \<Rightarrow> offset_table_state res) \<Rightarrow> nat \<Rightarrow> nat \<Rightarrow> offset_table_state \<Rightarrow>
   (nat \<times> offset_table_state) res" where
  "offset_table_chain step 0 j st = Inr (j, st)"
| "offset_table_chain step (Suc n) j st =
     (if ot_fragments_count st < 0 then Inl (Errno ERANGE)
      else if ot_fragments_count st = 0 then Inr (j, st)
      else bnd (step j st) (offset_table_chain step n (Suc j)))"

text \<open>The extent descriptor of the first portion.\<close>

definition offset_table_extent ::
  "crc_fun \<Rightarrow> u32 \<Rightarrow> u16 \<Rightarrow> nat \<Rightarrow> offset_table_state \<Rightarrow> offset_table_state res" where
  "offset_table_extent crc32 start_logical_blk valid_blks tbl st =
     (let off = unat (ot_offset st) in
      bnd (wr16 (ot_mem st) off (ucast start_logical_blk)) (\<lambda>mem.
      bnd (wr16 mem (off + 2) 0) (\<lambda>mem.
      bnd (wr16 mem (off + 4) valid_blks) (\<lambda>mem.
      bnd (wr8 mem (off + 6) 0) (\<lambda>mem.
      bnd (wr8 mem (off + 7) 2) (\<lambda>mem.
      bnd (ssdfs_fragment_descriptor_init crc32 mem (tbl + 32) (drop off mem) (ot_offset st) 8 8
             (ucast (ot_cur_fragment st)) 8 SSDFS_FRAGMENT_HAS_CSUM) (\<lambda>mem.
      Inr (st\<lparr>ot_mem := mem, ot_cur_fragment := ot_cur_fragment st + 1,
              ot_fragments_count := ot_fragments_count st - 1, ot_offset := ot_offset st + 8\<rparr>))))))))"

definition offset_table_portion ::
  "crc_fun \<Rightarrow> u32 \<Rightarrow> int \<Rightarrow> u32 \<Rightarrow> u16 \<Rightarrow> u32 \<Rightarrow> u32 \<Rightarrow> u16 \<Rightarrow> nat \<Rightarrow> offset_table_state \<Rightarrow>
   offset_table_state res" where
  "offset_table_portion crc32 pages_per_seg peb_index start_logical_blk valid_blks used_logical_blks
     last_allocated_blk portions_count i st =
     (let portion_offset = ot_offset st; tbl = unat portion_offset in
      bnd (wr32 (ot_mem st) tbl SSDFS_SUPER_MAGIC) (\<lambda>mem.
      bnd (wr16 mem (tbl + 4) 0x5474) (\<lambda>mem.
      bnd (wr8 mem (tbl + 6) 1) (\<lambda>mem.
      bnd (wr8 mem (tbl + 7) 20) (\<lambda>mem.
      let st = st\<lparr>ot_mem := mem, ot_offset := portion_offset + 128\<rparr> in
      bnd (if i = 0 then bnd (offset_table_extent crc32 start_logical_blk valid_blks tbl st) (\<lambda>st. Inr (1, st))
           else Inr (0, st)) (\<lambda>(j, st).
      bnd (offset_table_chain
             (offset_table_fragment crc32 pages_per_seg peb_index valid_blks used_logical_blks last_allocated_blk tbl)
             (SSDFS_BLK2OFF_TBL_MAX - j) j st) (\<lambda>(j, st).
      bnd (wr8 (ot_mem st) (tbl + 28) SSDFS_CHAIN_HDR_MAGIC) (\<lambda>mem.
      bnd (wr8 mem (tbl + 29) 6) (\<lambda>mem.
      bnd (if Suc i < unat portions_count then wr16 mem (tbl + 30) 1 else Inr mem) (\<lambda>mem.
      bnd (wr16 mem (tbl + 26) 16) (\<lambda>mem.
      bnd (wr16 mem (tbl + 24) (of_nat j)) (\<lambda>mem.
      let portion_size = ot_offset st - portion_offset in
      bnd (wr32 mem (tbl + 16) portion_size) (\<lambda>mem.
      bnd (wr32 mem (tbl + 20) portion_size) (\<lambda>mem.
      Inr (st\<lparr>ot_mem := mem\<rparr>)))))))))))))))"

definition pre_commit_offset_table_extent ::
  "crc_fun \<Rightarrow> bool \<Rightarrow> ssdfs_volume_layout \<Rightarrow> int \<Rightarrow> ssdfs_extent_desc \<Rightarrow> u64 \<Rightarrow> u32 \<Rightarrow> u16 \<Rightarrow> u32 \<Rightarrow> u32 \<Rightarrow>
   ssdfs_extent_desc res" where
  "pre_commit_offset_table_extent crc32 alloc_ok layout peb_index extent logical_byte_offset start_logical_blk valid_blks
     used_logical_blks last_allocated_blk =
     bnd (BUG_ON (ext_buf extent \<noteq> None)) (\<lambda>_.
     bnd (BUG_ON (start_logical_blk \<ge> ucast U16_MAX)) (\<lambda>_.
     bnd (BUG_ON (vl_page_size layout = 0)) (\<lambda>_.
     bnd (BUG_ON (vl_page_size layout > erase_size (vl_env layout))) (\<lambda>_.
     let pages_per_peb = erase_size (vl_env layout) div vl_page_size layout in
     bnd (fail_if (ucast valid_blks > pages_per_peb) EINVAL) (\<lambda>_.
     bnd (calculate_offset_table_fragments valid_blks) (\<lambda>fragments_count.
     let allocation_size = ucast (calculate_offset_table_size fragments_count valid_blks) :: u32;
         portions_count = portions_of (ucast fragments_count) in
     bnd (fail_if (\<not> alloc_ok) ENOMEM) (\<lambda>_.
     let logical_start_page = logical_byte_offset div ucast (vl_page_size layout) in
     bnd (BUG_ON (logical_start_page \<ge> ucast U32_MAX)) (\<lambda>_.
     bnd (for_res 0 (unat portions_count)
            (offset_table_portion crc32 (bt_pages_per_seg (vl_blk2off_tbl layout)) peb_index start_logical_blk
               valid_blks used_logical_blks last_allocated_blk portions_count)
            \<lparr>ot_mem = replicate (unat allocation_size) 0, ot_offset = 0, ot_start_id = 0, ot_rest_blks = valid_blks,
             ot_logical_start_page = logical_start_page, ot_logical_blk = start_logical_blk, ot_start_peb_page = 0,
             ot_cur_fragment = 0, ot_cur_phys_off_tbl_frag = 0, ot_fragments_count = int (unat fragments_count)\<rparr>)
       (\<lambda>st. Inr (extent\<lparr>ext_buf := Some (ot_mem st), ext_bytes_count := allocation_size\<rparr>))))))))))"

definition pre_commit_offset_table ::
  "crc_fun \<Rightarrow> bool \<Rightarrow> ssdfs_volume_layout \<Rightarrow> int \<Rightarrow> int \<Rightarrow> u64 \<Rightarrow> u32 \<Rightarrow> u16 \<Rightarrow> u32 \<Rightarrow> u32 \<Rightarrow>
   ssdfs_volume_layout res" where
  "pre_commit_offset_table crc32 alloc_ok layout seg_index peb_index logical_byte_offset start_logical_blk valid_blks
     used_logical_blks last_allocated_blk =
     with_extent layout seg_index peb_index SSDFS_OFFSET_TABLE (\<lambda>extent.
       pre_commit_offset_table_extent crc32 alloc_ok layout peb_index extent logical_byte_offset start_logical_blk
         valid_blks used_logical_blks last_allocated_blk)"

definition pre_commit_offset_table_backup ::
  "crc_fun \<Rightarrow> bool \<Rightarrow> ssdfs_volume_layout \<Rightarrow> int \<Rightarrow> int \<Rightarrow> u64 \<Rightarrow> u32 \<Rightarrow> u16 \<Rightarrow> u32 \<Rightarrow> u32 \<Rightarrow>
   ssdfs_volume_layout res" where
  "pre_commit_offset_table_backup crc32 alloc_ok layout seg_index peb_index logical_byte_offset start_logical_blk
     valid_blks used_logical_blks last_allocated_blk =
     with_extent layout seg_index peb_index SSDFS_OFFSET_TABLE_BACKUP (\<lambda>extent.
       pre_commit_offset_table_extent crc32 alloc_ok layout peb_index extent logical_byte_offset start_logical_blk
         valid_blks used_logical_blks last_allocated_blk)"

definition commit_offset_table_extent :: "crc_fun \<Rightarrow> ssdfs_extent_desc \<Rightarrow> ssdfs_extent_desc res" where
  "commit_offset_table_extent crc32 extent =
     bnd (BUG_ON (ext_buf extent = None)) (\<lambda>_.
     bnd (deref (ext_buf extent)) (\<lambda>mem.
     bnd (wr16 mem 8 128) (\<lambda>mem.
     bnd (wr16 mem 10 SSDFS_CRC32) (\<lambda>mem.
     bnd (wr32 mem 12 0) (\<lambda>mem.
     bnd (ssdfs_crc32_le (crc32 0) mem 0 128) (\<lambda>csum.
     bnd (wr32 mem 12 csum) (\<lambda>mem.
     Inr (extent\<lparr>ext_buf := Some mem\<rparr>))))))))"

definition commit_offset_table ::
  "crc_fun \<Rightarrow> ssdfs_volume_layout \<Rightarrow> int \<Rightarrow> int \<Rightarrow> ssdfs_volume_layout res" where
  "commit_offset_table crc32 layout seg_index peb_index =
     bnd (peb_at layout seg_index peb_index) (\<lambda>peb_desc.
     bnd (commit_offset_table_extent crc32 (extent_of peb_desc SSDFS_OFFSET_TABLE)) (\<lambda>extent.
     put_peb layout seg_index peb_index (put_extent peb_desc SSDFS_OFFSET_TABLE extent)))"

definition commit_offset_table_backup ::
  "crc_fun \<Rightarrow> ssdfs_volume_layout \<Rightarrow> int \<Rightarrow> int \<Rightarrow> ssdfs_volume_layout res" where
  "commit_offset_table_backup crc32 layout seg_index peb_index =
     bnd (peb_at layout seg_index peb_index) (\<lambda>peb_desc.
     bnd (commit_offset_table_extent crc32 (extent_of peb_desc SSDFS_OFFSET_TABLE_BACKUP)) (\<lambda>extent.
     put_peb layout seg_index peb_index (put_extent peb_desc SSDFS_OFFSET_TABLE_BACKUP extent)))"

section \<open>The table of block descriptors\<close>

definition calculate_blk_desc_table_size :: "u16 \<Rightarrow> u16 \<Rightarrow> u64" where
  "calculate_blk_desc_table_size fragments valid_blks =
     (let blk_desc_in_last_fragment = ucast valid_blks mod 60 :: u32;
          hdrs_count = (ucast fragments + 14 - 1) div 14 :: u64 in
      hdrs_count * 256 + word_of_int (int (unat fragments) - 1) * (60 * 64) + ucast blk_desc_in_last_fragment * 64)"

definition define_area_blk_tbl_hdr_offset :: "u16 \<Rightarrow> u32" where
  "define_area_blk_tbl_hdr_offset area_index =
     (let blk_desc_per_area = 60 * 14 :: u32 in
      ucast area_index * 256 + ucast area_index * (blk_desc_per_area * 64))"

definition area_count :: "u16 \<Rightarrow> u64" where
  "area_count fragments_count = (ucast fragments_count + 14 - 1) div 14"

definition FRAGMENTS_PER_AREA :: "u16 \<Rightarrow> u16 \<Rightarrow> u16" where
  "FRAGMENTS_PER_AREA area_index fragments_count =
     (if ucast area_index \<ge> area_count fragments_count then U16_MAX
      else if ucast area_index + 1 < area_count fragments_count then 14
      else fragments_count mod 14)"

definition BLKS_PER_AREA :: "u16 \<Rightarrow> u16 \<Rightarrow> u16 \<Rightarrow> u16" where
  "BLKS_PER_AREA area_index fragments_count valid_blks =
     (if ucast area_index \<ge> area_count fragments_count then U16_MAX
      else if ucast area_index + 1 < area_count fragments_count then 60 * 14
      else valid_blks mod (60 * 14))"

text \<open>One block descriptor of 64 bytes; the state of the loop is the memory and the byte offset.\<close>

definition block_descriptor_fields ::
  "nat \<Rightarrow> u32 \<Rightarrow> int \<Rightarrow> u64 \<Rightarrow> u32 \<Rightarrow> u32 \<Rightarrow> u32 \<Rightarrow> u32 \<Rightarrow> buf \<Rightarrow> buf res" where
  "block_descriptor_fields o' peb_page peb_index inode_id item_size page_size payload_offset cur_byte_offset mem =
     (let area_type = (if item_size \<ge> page_size then 1 else 3) :: u8 in
     bnd (memset mem o' 0xFF 64) (\<lambda>mem.
     bnd (wr64 mem o' inode_id) (\<lambda>mem.
     bnd (BUG_ON (peb_index \<ge> 65535)) (\<lambda>_.
     bnd (wr16 mem (o' + 12) (word_of_int peb_index)) (\<lambda>mem.
     bnd (div_chk (payload_offset + cur_byte_offset) page_size) (\<lambda>logical_page.
     bnd (wr32 mem (o' + 8) logical_page) (\<lambda>mem.
     bnd (BUG_ON (peb_page \<ge> ucast U16_MAX)) (\<lambda>_.
     bnd (wr16 mem (o' + 14) (ucast peb_page)) (\<lambda>mem.
     bnd (wr16 mem (o' + 16) 0) (\<lambda>mem.
     bnd (wr8 mem (o' + 18) area_type) (\<lambda>mem.
     bnd (wr8 mem (o' + 19) 1) (\<lambda>mem.
     wr32 mem (o' + 20) cur_byte_offset))))))))))))"

definition block_descriptor_step ::
  "nat \<Rightarrow> u32 \<Rightarrow> int \<Rightarrow> u64 \<Rightarrow> u32 \<Rightarrow> u32 \<Rightarrow> u32 \<Rightarrow> nat \<Rightarrow> buf \<times> u32 \<Rightarrow> (buf \<times> u32) res" where
  "block_descriptor_step arr start_logical_blk peb_index inode_id item_size page_size payload_offset i =
     (\<lambda>(mem, cur_byte_offset).
     bnd (block_descriptor_fields (arr + 64 * i) (start_logical_blk + of_nat i) peb_index inode_id item_size page_size
            payload_offset cur_byte_offset mem) (\<lambda>mem.
     Inr (mem, cur_byte_offset + item_size)))"

definition prepare_block_descriptor_fragment ::
  "crc_fun \<Rightarrow> nat \<Rightarrow> nat \<Rightarrow> nat \<Rightarrow> u32 \<Rightarrow> u32 \<Rightarrow> u16 \<Rightarrow> int \<Rightarrow> u64 \<Rightarrow> u32 \<Rightarrow> u32 \<Rightarrow> u32 \<Rightarrow> buf \<times> u32 \<Rightarrow>
   (buf \<times> u32) res" where
  "prepare_block_descriptor_fragment crc32 fragment_index fdesc arr fragment_offset start_logical_blk valid_blks
     peb_index inode_id item_size page_size payload_offset st =
     bnd (fail_if (fragment_index \<ge> SSDFS_FRAGMENTS_CHAIN_MAX) ERANGE) (\<lambda>_.
     bnd (for_res 0 (unat valid_blks)
            (block_descriptor_step arr start_logical_blk peb_index inode_id item_size page_size payload_offset) st)
       (\<lambda>(mem, cur_byte_offset).
     bnd (wr8 mem (fdesc + 13) SSDFS_FRAGMENT_DESC_MAGIC) (\<lambda>mem.
     bnd (wr8 mem (fdesc + 14) 5) (\<lambda>mem.
     bnd (wr8 mem (fdesc + 15) 1) (\<lambda>mem.
     bnd (wr8 mem (fdesc + 12) (of_nat fragment_index)) (\<lambda>mem.
     bnd (wr32 mem fdesc fragment_offset) (\<lambda>mem.
     let bytes_count = 64 * ucast valid_blks :: u32 in
     bnd (BUG_ON (bytes_count \<ge> ucast U16_MAX)) (\<lambda>_.
     bnd (wr16 mem (fdesc + 4) (ucast bytes_count)) (\<lambda>mem.
     bnd (wr16 mem (fdesc + 6) (ucast bytes_count)) (\<lambda>mem.
     bnd (wr32 mem (fdesc + 8) 0) (\<lambda>mem.
     bnd (ssdfs_crc32_le (crc32 0) mem arr (unat bytes_count)) (\<lambda>csum.
     bnd (wr32 mem (fdesc + 8) csum) (\<lambda>mem.
     Inr (mem, cur_byte_offset))))))))))))))"

text \<open>One fragment of an area; the state holds the memory, the byte offset and the next logical block.\<close>

definition area_fragment_step ::
  "crc_fun \<Rightarrow> nat \<Rightarrow> u16 \<Rightarrow> u16 \<Rightarrow> int \<Rightarrow> u64 \<Rightarrow> u32 \<Rightarrow> u32 \<Rightarrow> u32 \<Rightarrow> nat \<Rightarrow> buf \<times> u32 \<times> u32 \<Rightarrow>
   (buf \<times> u32 \<times> u32) res" where
  "area_fragment_step crc32 ptr fragments_count valid_blks peb_index inode_id item_size page_size payload_offset i =
     (\<lambda>(mem, cur_byte_offset, logical_blk).
     let offset = 256 + i * (60 * 64);
         blk_desc_count = (if Suc i < unat fragments_count then 60 else valid_blks mod 60) in
     bnd (prepare_block_descriptor_fragment crc32 i (ptr + 16 + 16 * i) (ptr + offset) (of_nat offset) logical_blk
            blk_desc_count peb_index inode_id item_size page_size payload_offset (mem, cur_byte_offset))
       (\<lambda>(mem, cur_byte_offset). Inr (mem, cur_byte_offset, logical_blk + ucast blk_desc_count)))"

definition prepare_area_block_table ::
  "crc_fun \<Rightarrow> u16 \<Rightarrow> u32 \<Rightarrow> u16 \<Rightarrow> bool \<Rightarrow> u32 \<Rightarrow> u16 \<Rightarrow> int \<Rightarrow> u64 \<Rightarrow> u32 \<Rightarrow> u32 \<Rightarrow> u32 \<Rightarrow> buf \<times> u32 \<Rightarrow>
   (buf \<times> u32) res" where
  "prepare_area_block_table crc32 area_index area_offset fragments_count has_next_area start_logical_blk valid_blks
     peb_index inode_id item_size page_size payload_offset = (\<lambda>(mem, cur_byte_offset).
     let ptr = unat area_offset;
         sequence_id = area_index * 15;
         bytes_count = 256 + ucast valid_blks * 64 :: u32 in
     bnd (fail_if (fragments_count > 14) ERANGE) (\<lambda>_.
     bnd (wr8 mem (ptr + 12) SSDFS_CHAIN_HDR_MAGIC) (\<lambda>mem.
     bnd (wr8 mem (ptr + 13) 3) (\<lambda>mem.
     bnd (wr16 mem (ptr + 14) (if has_next_area then 1 else 0)) (\<lambda>mem.
     bnd (wr16 mem (ptr + 8) fragments_count) (\<lambda>mem.
     bnd (wr16 mem (ptr + 10) 16) (\<lambda>mem.
     bnd (wr32 mem ptr bytes_count) (\<lambda>mem.
     bnd (wr32 mem (ptr + 4) bytes_count) (\<lambda>mem.
     bnd (for_res 0 (unat fragments_count)
            (area_fragment_step crc32 ptr fragments_count valid_blks peb_index inode_id item_size page_size
               payload_offset) (mem, cur_byte_offset, start_logical_blk)) (\<lambda>(mem, cur_byte_offset, logical_blk).
     let fdesc = ptr + 16 + 16 * 14 in
     if has_next_area then
       bnd (wr8 mem (fdesc + 13) SSDFS_FRAGMENT_DESC_MAGIC) (\<lambda>mem.
       bnd (wr8 mem (fdesc + 14) 14) (\<lambda>mem.
       bnd (wr8 mem (fdesc + 15) 0) (\<lambda>mem.
       bnd (wr8 mem (fdesc + 12) (ucast (sequence_id + 14))) (\<lambda>mem.
       bnd (wr32 mem fdesc (area_offset + bytes_count)) (\<lambda>mem.
       bnd (wr16 mem (fdesc + 4) 256) (\<lambda>mem.
       bnd (wr16 mem (fdesc + 6) 256) (\<lambda>mem.
       bnd (wr32 mem (fdesc + 8) 0) (\<lambda>mem.
       Inr (mem, cur_byte_offset)))))))))
     else Inr (mem, cur_byte_offset)))))))))))"

definition area_step ::
  "crc_fun \<Rightarrow> u64 \<Rightarrow> u16 \<Rightarrow> u16 \<Rightarrow> int \<Rightarrow> u64 \<Rightarrow> u32 \<Rightarrow> u32 \<Rightarrow> u32 \<Rightarrow> nat \<Rightarrow> buf \<times> u32 \<times> u32 \<Rightarrow>
   (buf \<times> u32 \<times> u32) res" where
  "area_step crc32 hdrs_count fragments_count valid_blks peb_index inode_id item_size page_size payload_offset i =
     (\<lambda>(mem, cur_byte_offset, logical_blk).
     let fragments_per_area = FRAGMENTS_PER_AREA (of_nat i) fragments_count;
         blks_per_area = BLKS_PER_AREA (of_nat i) fragments_count valid_blks in
     bnd (fail_if (fragments_per_area \<ge> U16_MAX) ERANGE) (\<lambda>_.
     bnd (fail_if (blks_per_area \<ge> U16_MAX) ERANGE) (\<lambda>_.
     bnd (prepare_area_block_table crc32 (of_nat i) (define_area_blk_tbl_hdr_offset (of_nat i)) fragments_per_area
            (Suc i < unat hdrs_count) logical_blk blks_per_area peb_index inode_id item_size page_size payload_offset
            (mem, cur_byte_offset)) (\<lambda>(mem, cur_byte_offset).
     Inr (mem, cur_byte_offset, logical_blk + ucast blks_per_area)))))"

definition pre_commit_block_descriptors ::
  "crc_fun \<Rightarrow> bool \<Rightarrow> ssdfs_volume_layout \<Rightarrow> int \<Rightarrow> int \<Rightarrow> u32 \<Rightarrow> u16 \<Rightarrow> u64 \<Rightarrow> u32 \<Rightarrow> u32 \<Rightarrow>
   ssdfs_volume_layout res" where
  "pre_commit_block_descriptors crc32 alloc_ok layout seg_index peb_index start_logical_blk valid_blks inode_id
     payload_offset item_size =
     with_extent layout seg_index peb_index SSDFS_BLOCK_DESCRIPTORS (\<lambda>extent.
     bnd (BUG_ON (ext_buf extent \<noteq> None)) (\<lambda>_.
     bnd (BUG_ON (vl_page_size layout = 0)) (\<lambda>_.
     bnd (BUG_ON (vl_page_size layout > erase_size (vl_env layout))) (\<lambda>_.
     let pages_per_peb = erase_size (vl_env layout) div vl_page_size layout in
     bnd (fail_if (ucast valid_blks > pages_per_peb) EINVAL) (\<lambda>_.
     let fragments_count = BLK_DESC_TABLE_FRAGMENTS valid_blks;
         allocation_size = ucast (calculate_blk_desc_table_size fragments_count valid_blks) :: u32;
         hdrs_count = area_count fragments_count in
     bnd (fail_if (\<not> alloc_ok) ENOMEM) (\<lambda>_.
     bnd (for_res 0 (unat hdrs_count)
            (area_step crc32 hdrs_count fragments_count valid_blks peb_index inode_id item_size (vl_page_size layout)
               payload_offset) (replicate (unat allocation_size) 0, 0, start_logical_blk))
       (\<lambda>(mem, cur_byte_offset, logical_blk).
     Inr (extent\<lparr>ext_buf := Some mem, ext_bytes_count := allocation_size\<rparr>))))))))"

definition commit_block_descriptors :: "ssdfs_volume_layout \<Rightarrow> int \<Rightarrow> int \<Rightarrow> ssdfs_volume_layout" where
  "commit_block_descriptors layout seg_index peb_index = layout"

section \<open>Lemmas on the offset translation table\<close>

text \<open>Writes seen through a window of the memory.\<close>

definition fits :: "nat \<Rightarrow> nat \<Rightarrow> buf \<Rightarrow> bool" where
  "fits p n m \<longleftrightarrow> p + n \<le> length m"

lemma fits_overwrite: "k + length d \<le> n \<Longrightarrow> fits p n m \<Longrightarrow> fits p n (overwrite m (p + k) d)"
  by (simp add: fits_def)

lemma window_overwrite:
  assumes "k + length d \<le> n" and "fits p n m"
  shows "bytes_at (overwrite m (p + k) d) p n = overwrite (bytes_at m p n) k d"
proof (rule nth_equalityI)
  show l: "length (bytes_at (overwrite m (p + k) d) p n) = length (overwrite (bytes_at m p n) k d)"
    using assms by (simp add: fits_def)
  fix i assume "i < length (bytes_at (overwrite m (p + k) d) p n)"
  then have "i < n" using assms by (simp add: fits_def)
  then show "bytes_at (overwrite m (p + k) d) p n ! i = overwrite (bytes_at m p n) k d ! i"
    using assms by (auto simp: fits_def nth_bytes_at nth_overwrite)
qed

lemma fits_put:
  "k + 1 \<le> n \<Longrightarrow> fits p n m \<Longrightarrow> fits p n (put8 m (p + k) v8)"
  "k + 2 \<le> n \<Longrightarrow> fits p n m \<Longrightarrow> fits p n (put16 m (p + k) v16)"
  "k + 4 \<le> n \<Longrightarrow> fits p n m \<Longrightarrow> fits p n (put32 m (p + k) v32)"
  "k + 8 \<le> n \<Longrightarrow> fits p n m \<Longrightarrow> fits p n (put64 m (p + k) v64)"
  by (simp_all add: put_defs fits_overwrite)

lemma window_put:
  "k + 1 \<le> n \<Longrightarrow> fits p n m \<Longrightarrow> bytes_at (put8 m (p + k) v8) p n = put8 (bytes_at m p n) k v8"
  "k + 2 \<le> n \<Longrightarrow> fits p n m \<Longrightarrow> bytes_at (put16 m (p + k) v16) p n = put16 (bytes_at m p n) k v16"
  "k + 4 \<le> n \<Longrightarrow> fits p n m \<Longrightarrow> bytes_at (put32 m (p + k) v32) p n = put32 (bytes_at m p n) k v32"
  "k + 8 \<le> n \<Longrightarrow> fits p n m \<Longrightarrow> bytes_at (put64 m (p + k) v64) p n = put64 (bytes_at m p n) k v64"
  by (simp_all add: put_defs window_overwrite)

lemma overwrite_whole: "length d = length m \<Longrightarrow> overwrite m 0 d = d"
  by (simp add: overwrite_def)

lemma fits_length: "fits p n m \<Longrightarrow> length (bytes_at m p n) = n"
  by (simp add: fits_def)

lemmas window_start = fits_overwrite [where k = 0, simplified] window_overwrite [where k = 0, simplified]
  fits_put [where k = 0, simplified] window_put [where k = 0, simplified]

lemmas window_simps = fits_overwrite window_overwrite fits_put window_put window_start overwrite_whole fits_length

lemma writes_crc:
  "data + n \<le> l \<Longrightarrow> (\<And>csum. writes l a b m (f csum)) \<Longrightarrow> writes l a b m (bnd (ssdfs_crc32_le crc m data n) f)"
  by (auto simp: ssdfs_crc32_le_def writes_def)

lemma writes_div: "y \<noteq> 0 \<Longrightarrow> writes l a b m (f (x div y)) \<Longrightarrow> writes l a b m (bnd (div_chk x y) f)"
  by (simp add: div_chk_def)

lemmas writes_rules = writes_crc writes_intros

text \<open>The fields of an offset descriptor: logical page, logical block, page of the PEB, area and byte offset.\<close>

definition off_desc :: "buf \<Rightarrow> nat \<Rightarrow> u32 \<times> u16 \<times> u16 \<times> u8 \<times> u32" where
  "off_desc mem o' = (get32 mem o', get16 mem (o' + 4), get16 mem (o' + 6), get8 mem (o' + 10), get32 mem (o' + 12))"

lemma off_desc_window: "bytes_at m' o' 16 = bytes_at m o' 16 \<Longrightarrow> off_desc m' o' = off_desc m o'"
  using get_window[of m' o' 16 m 0] get_window[of m' o' 16 m] by (simp add: off_desc_def)

lemma offset_descriptor_step_ok:
  assumes "frag + 32 + 16 * i + 16 \<le> length mem"
  shows "\<exists>mem'. offset_descriptor_step frag a lsp lb sp i mem = Inr mem' \<and>
    same_outside (frag + 32 + 16 * i) (frag + 32 + 16 * i + 16) mem mem' \<and>
    off_desc mem' (frag + 32 + 16 * i) = (lsp + of_nat i, lb + of_nat i, lb + of_nat i, a,
      define_block_descriptor_offset (ucast (ucast sp + of_nat i :: u32)))"
proof -
  define p where "p = frag + 32 + 16 * i"
  have p: "p + 16 \<le> length mem" using assms by (simp add: p_def)
  have "writes (length mem) p (p + 16) mem (offset_descriptor_step frag a lsp lb sp i mem)"
    unfolding offset_descriptor_step_def Let_def p_def[symmetric]
    by (intro writes_rules) (use p in simp_all)
  then obtain mem' where m: "offset_descriptor_step frag a lsp lb sp i mem = Inr mem'" "same_outside p (p + 16) mem mem'"
    by (auto dest: writesD)
  have "off_desc mem' p = (lsp + of_nat i, lb + of_nat i, lb + of_nat i, a,
      define_block_descriptor_offset (ucast (ucast sp + of_nat i :: u32)))"
    using m(1) unfolding offset_descriptor_step_def Let_def p_def[symmetric]
    by (auto simp: bnd_eq_Inr field_eq_Inr off_desc_def buf_simps)
  then show ?thesis using m by (auto simp: p_def)
qed

lemma offset_loop_ok:
  assumes "frag + 32 + 16 * n \<le> length mem"
  shows "\<exists>mem'. for_res 0 n (offset_descriptor_step frag a lsp lb sp) mem = Inr mem' \<and>
    same_outside (frag + 32) (frag + 32 + 16 * n) mem mem' \<and>
    (\<forall>k < n. off_desc mem' (frag + 32 + 16 * k) = (lsp + of_nat k, lb + of_nat k, lb + of_nat k, a,
      define_block_descriptor_offset (ucast (ucast sp + of_nat k :: u32))))"
proof -
  let ?D = "\<lambda>m k. off_desc m (frag + 32 + 16 * k) = (lsp + of_nat k, lb + of_nat k, lb + of_nat k, a,
      define_block_descriptor_offset (ucast (ucast sp + of_nat k :: u32)))"
  let ?I = "\<lambda>i m. same_outside (frag + 32) (frag + 32 + 16 * n) mem m \<and> (\<forall>k < i. ?D m k)"
  show ?thesis
  proof (rule for_res_total[of 0 n ?I])
    fix i t assume i: "0 \<le> i" "i < n" "?I i t"
    have "frag + 32 + 16 * i + 16 \<le> length t" using i assms same_outside_length[of _ _ mem t] by auto
    then obtain t' where t': "offset_descriptor_step frag a lsp lb sp i t = Inr t'" "?D t' i"
      "same_outside (frag + 32 + 16 * i) (frag + 32 + 16 * i + 16) t t'"
      using offset_descriptor_step_ok by blast
    have "?D t' k" if "k < i" for k
    proof -
      have "off_desc t' (frag + 32 + 16 * k) = off_desc t (frag + 32 + 16 * k)"
        by (rule off_desc_window[OF same_outside_bytes[OF t'(3)]]) (use that in simp)
      then show ?thesis using i(3) that by simp
    qed
    moreover have "same_outside (frag + 32) (frag + 32 + 16 * n) mem t'"
      by (rule same_outside_trans[OF conjunct1[OF i(3)] t'(3)]) (use i(2) in simp_all)
    ultimately show "\<exists>t'. offset_descriptor_step frag a lsp lb sp i t = Inr t' \<and> ?I (Suc i) t'"
      using t'(1,2) by (auto simp: less_Suc_eq)
  qed simp_all
qed

lemma offsets_fragment_ok:
  assumes "valid \<noteq> 0" and "rest \<le> 253" and "peb < 65535" and "lst + 1 = used" and "used \<le> min pages_per_seg 253"
    and "lst < used" and "frag + 32 + 16 * unat rest \<le> length mem" and "a < 4"
  shows "\<exists>mem'. prepare_offsets_table_fragment crc32 mem frag pages_per_seg peb seq a lsp lb sp start_id valid rest used lst =
      Inr (mem', rest) \<and> same_outside frag (frag + 32 + 16 * unat rest) mem mem' \<and>
    (\<forall>k < unat rest. off_desc mem' (frag + 32 + 16 * k) = (lsp + of_nat k, lb + of_nat k, lb + of_nat k, a,
      define_block_descriptor_offset (ucast (ucast sp + of_nat k :: u32))))"
proof -
  obtain m1 where m1: "for_res 0 (unat rest) (offset_descriptor_step frag a lsp lb sp) mem = Inr m1"
    "same_outside (frag + 32) (frag + 32 + 16 * unat rest) mem m1"
    "\<forall>k < unat rest. off_desc m1 (frag + 32 + 16 * k) = (lsp + of_nat k, lb + of_nat k, lb + of_nat k, a,
      define_block_descriptor_offset (ucast (ucast sp + of_nat k :: u32)))"
    using offset_loop_ok[OF assms(7)] by blast
  have l1: "length m1 = length mem" using m1(2) by (rule same_outside_length)
  have r: "unat rest \<le> 253" using assms(2) by (simp add: word_le_nat_alt)
  have u: "unat used \<le> 253" using assms(5) by (simp add: word_le_nat_alt unat_min)
  have bs: "unat (32 + ucast rest * 16 :: u32) = 32 + 16 * unat rest"
    using r by (simp add: unat_add_nw unat_mult_nw unat_ucast_up)
  have lt: "\<not> ucast U16_MAX \<le> used" "\<not> ucast U16_MAX \<le> lst" "\<not> ucast U16_MAX \<le> (32 + ucast rest * 16 :: u32)"
    "\<not> min pages_per_seg 253 < used" "\<not> peb \<ge> 65535" "\<not> 4 \<le> a" "min rest 253 = rest"
    using assms(2-8) bs r u by (simp_all add: ucast_max word_le_nat_alt word_less_nat_alt unat_min min_def not_le)
  have L: "frag + 32 + 16 * unat rest \<le> length m1" using assms(7) l1 by simp
  have header: "writes (length m1) frag (frag + 32) m1 (offsets_fragment_header crc32 frag pages_per_seg peb seq start_id rest rest used lst m1)"
    unfolding offsets_fragment_header_def Let_def
    by (intro writes_rules) (use L in \<open>simp_all add: bs lt(3,4) del: min_less_iff_disj\<close>)
  obtain m2 where m2: "prepare_offsets_table_fragment crc32 mem frag pages_per_seg peb seq a lsp lb sp start_id valid rest
      used lst = Inr (m2, rest)" "same_outside frag (frag + 32) m1 m2"
    using writesD[OF header] lt m1(1) assms(1,4) by (auto simp: prepare_offsets_table_fragment_def Let_def)
  have "off_desc m2 (frag + 32 + 16 * k) = off_desc m1 (frag + 32 + 16 * k)" for k
    by (rule off_desc_window[OF same_outside_bytes[OF m2(2)]]) simp
  moreover have "same_outside frag (frag + 32 + 16 * unat rest) mem m2"
    by (rule same_outside_trans[OF m1(2) m2(2)]) simp_all
  ultimately show ?thesis using m1(3) m2(1) by auto
qed

lemma writes_descriptor_init:
  assumes "sz \<noteq> 0" and "1 \<le> ty" and "ty \<le> 22" and "a \<le> d" and "d + 16 \<le> b" and "b \<le> l" and "o' + unat sz \<le> l"
  shows "writes l a b m (ssdfs_fragment_descriptor_init crc32 m d (drop o' m) off sz sz i ty 1)"
proof (cases "length m = l")
  case True
  then have "ssdfs_crc32_le (crc32 0) (drop o' m) 0 (unat sz) = Inr (NOT (crc32 0 (bytes_at (drop o' m) 0 (unat sz))))"
    using assms(7) by (simp add: ssdfs_crc32_le_def)
  then show ?thesis
    unfolding ssdfs_fragment_descriptor_init_def
    by (intro writes_intros) (use assms in \<open>simp_all add: writes_field\<close>)
qed (simp add: writes_def)

lemma offset_table_extent_ok:
  assumes "tbl + 48 \<le> unat (ot_offset st)" and "unat (ot_offset st) + 8 \<le> length (ot_mem st)"
  shows "\<exists>mem. offset_table_extent crc32 start valid tbl st = Inr (st\<lparr>ot_mem := mem,
      ot_cur_fragment := ot_cur_fragment st + 1, ot_fragments_count := ot_fragments_count st - 1,
      ot_offset := ot_offset st + 8\<rparr>) \<and> same_outside (tbl + 32) (unat (ot_offset st) + 8) (ot_mem st) mem"
proof -
  let ?off = "unat (ot_offset st)"
  have "writes (length (ot_mem st)) (tbl + 32) (?off + 8) (ot_mem st)
    (bnd (wr16 (ot_mem st) ?off (ucast start)) (\<lambda>mem.
      bnd (wr16 mem (?off + 2) 0) (\<lambda>mem.
      bnd (wr16 mem (?off + 4) valid) (\<lambda>mem.
      bnd (wr8 mem (?off + 6) 0) (\<lambda>mem.
      bnd (wr8 mem (?off + 7) 2) (\<lambda>mem.
      ssdfs_fragment_descriptor_init crc32 mem (tbl + 32) (drop ?off mem) (ot_offset st) 8 8
        (ucast (ot_cur_fragment st)) 8 1))))))"
    by (intro writes_intros writes_descriptor_init) (use assms in simp_all)
  from writesD[OF this] show ?thesis
    by (auto simp: offset_table_extent_def Let_def bnd_eq_Inr)
qed

lemma offset_table_fragment_ok:
  assumes "valid \<noteq> 0" and "0 < ot_rest_blks st" and "ot_rest_blks st \<le> 253" and "peb < 65535" and "lst + 1 = used"
    and "used \<le> min pages_per_seg 253" and "lst < used" and "tbl + 48 + 16 * j \<le> unat (ot_offset st)"
    and "unat (ot_offset st) + 32 + 16 * unat (ot_rest_blks st) \<le> length (ot_mem st)"
  shows "\<exists>mem. offset_table_fragment crc32 pages_per_seg peb valid used lst tbl j st = Inr (st\<lparr>ot_mem := mem,
      ot_start_id := ot_start_id st + ot_rest_blks st, ot_rest_blks := 0,
      ot_logical_start_page := ot_logical_start_page st + ucast (ot_rest_blks st),
      ot_logical_blk := ot_logical_blk st + ucast (ot_rest_blks st),
      ot_start_peb_page := ot_start_peb_page st + ucast (ot_rest_blks st),
      ot_offset := ot_offset st + (32 + ucast (ot_rest_blks st) * 16), ot_cur_fragment := ot_cur_fragment st + 1,
      ot_cur_phys_off_tbl_frag := ot_cur_phys_off_tbl_frag st + 1,
      ot_fragments_count := ot_fragments_count st - 1\<rparr>) \<and>
    same_outside (tbl + 32 + 16 * j) (unat (ot_offset st) + 32 + 16 * unat (ot_rest_blks st)) (ot_mem st) mem \<and>
    (\<forall>k < unat (ot_rest_blks st). off_desc mem (unat (ot_offset st) + 32 + 16 * k) =
      (ucast (ot_logical_start_page st) + of_nat k, ucast (ot_logical_blk st) + of_nat k,
       ucast (ot_logical_blk st) + of_nat k, 0,
       define_block_descriptor_offset (ucast (ucast (ucast (ot_start_peb_page st) :: u16) + of_nat k :: u32))))"
proof -
  let ?off = "unat (ot_offset st)" and ?r = "ot_rest_blks st"
  let ?lsp = "ucast (ot_logical_start_page st) :: u32" and ?lb = "ucast (ot_logical_blk st) :: u16"
    and ?sp = "ucast (ot_start_peb_page st) :: u16"
  obtain m1 where m1: "prepare_offsets_table_fragment crc32 (ot_mem st) ?off pages_per_seg peb
      (ucast (ot_cur_phys_off_tbl_frag st)) 0 ?lsp ?lb ?sp (ot_start_id st) valid ?r used lst = Inr (m1, ?r)"
    "same_outside ?off (?off + 32 + 16 * unat ?r) (ot_mem st) m1"
    "\<forall>k < unat ?r. off_desc m1 (?off + 32 + 16 * k) = (?lsp + of_nat k, ?lb + of_nat k, ?lb + of_nat k, 0,
      define_block_descriptor_offset (ucast (ucast ?sp + of_nat k :: u32)))"
    using offsets_fragment_ok[OF assms(1,3-7,9), of 0 crc32 "ucast (ot_cur_phys_off_tbl_frag st)" ?lsp ?lb ?sp "ot_start_id st"]
    by auto
  let ?sz = "ucast (32 + ucast ?r * 16 :: u32) :: u16"
  have r: "unat ?r \<le> 253" using assms(3) by (simp add: word_le_nat_alt)
  have "unat (32 + ucast ?r * 16 :: u32) = 32 + 16 * unat ?r"
    using r by (simp add: unat_add_nw unat_mult_nw unat_ucast_up)
  then have sz: "unat ?sz = 32 + 16 * unat ?r" using r by (simp add: unat_ucast_small)
  then have nz: "?sz \<noteq> 0" by (metis unat_0 add_is_0 zero_neq_numeral)
  have "writes (length m1) (tbl + 32 + 16 * j) (tbl + 48 + 16 * j) m1
    (ssdfs_fragment_descriptor_init crc32 m1 (tbl + 32 + 16 * j) (drop ?off m1) (ot_offset st) ?sz ?sz
      (ucast (ot_cur_fragment st)) 11 1)"
    by (rule writes_descriptor_init[OF nz]) (use assms(8,9) sz same_outside_length[OF m1(2)] in simp_all)
  from writesD[OF this] obtain m2 where m2: "ssdfs_fragment_descriptor_init crc32 m1 (tbl + 32 + 16 * j) (drop ?off m1)
      (ot_offset st) ?sz ?sz (ucast (ot_cur_fragment st)) 11 1 = Inr m2"
    "same_outside (tbl + 32 + 16 * j) (tbl + 48 + 16 * j) m1 m2"
    by blast
  have "off_desc m2 (?off + 32 + 16 * k) = off_desc m1 (?off + 32 + 16 * k)" for k
    by (rule off_desc_window[OF same_outside_bytes[OF m2(2)]]) (use assms(8) in simp)
  moreover have "same_outside (tbl + 32 + 16 * j) (?off + 32 + 16 * unat ?r) (ot_mem st) m2"
    by (rule same_outside_trans[OF m1(2) m2(2)]) (use assms(8) in simp_all)
  ultimately show ?thesis using m1 m2(1) by (intro exI[of _ m2]) (simp add: offset_table_fragment_def Let_def)
qed

lemma ucast_of_nat_16: "(ucast (of_nat k :: u32) :: u16) = of_nat k"
  by (rule bit_word_eqI) (auto simp: bit_simps)

text \<open>A table of a single fragment: the header (128 bytes), the extent (8), the fragment header (32) and the
  descriptors.\<close>

lemma offset_table_single_portion:
  assumes "0 < valid" and "valid \<le> 252" and "peb < 65535" and "lst + 1 = used" and "used \<le> min pages_per_seg 253"
    and "lst < used" and "length mem = 168 + 16 * unat valid"
  shows "\<exists>st. offset_table_portion crc32 pages_per_seg peb start valid used lst 1 0
      \<lparr>ot_mem = mem, ot_offset = 0, ot_start_id = 0, ot_rest_blks = valid, ot_logical_start_page = page,
       ot_logical_blk = start, ot_start_peb_page = 0, ot_cur_fragment = 0, ot_cur_phys_off_tbl_frag = 0,
       ot_fragments_count = 2\<rparr> = Inr st \<and> length (ot_mem st) = length mem \<and>
    (\<forall>k < unat valid. off_desc (ot_mem st) (168 + 16 * k) = (ucast page + of_nat k, ucast start + of_nat k,
      ucast start + of_nat k, 0, define_block_descriptor_offset (of_nat k)))"
proof -
  let ?st = "\<lambda>m. \<lparr>ot_mem = m, ot_offset = 128, ot_start_id = 0, ot_rest_blks = valid, ot_logical_start_page = page,
       ot_logical_blk = start, ot_start_peb_page = 0, ot_cur_fragment = 0, ot_cur_phys_off_tbl_frag = 0,
       ot_fragments_count = 2\<rparr>"
  have v: "unat valid \<le> 252" "valid \<noteq> 0" "valid \<le> 253"
    using assms(1,2) by (auto simp: word_le_nat_alt)
  let ?m0 = "put8 (put8 (put16 (put32 mem 0 SSDFS_SUPER_MAGIC) 4 0x5474) 6 1) 7 20"
  have l0: "length ?m0 = length mem" using assms(7) by simp
  obtain m1 where m1: "offset_table_extent crc32 start valid 0 (?st ?m0) = Inr ((?st m1)\<lparr>ot_cur_fragment := 1,
      ot_fragments_count := 1, ot_offset := 136\<rparr>)" "same_outside 32 136 ?m0 m1"
    using offset_table_extent_ok[of 0 "?st ?m0" crc32 start valid] l0 assms(7) by auto
  have l1: "length m1 = length mem" using same_outside_length[OF m1(2)] l0 by simp
  let ?st1 = "(?st m1)\<lparr>ot_cur_fragment := 1, ot_fragments_count := 1, ot_offset := 136\<rparr>"
  obtain m2 where m2: "offset_table_fragment crc32 pages_per_seg peb valid used lst 0 1 ?st1 = Inr (?st1\<lparr>ot_mem := m2,
      ot_start_id := valid, ot_rest_blks := 0, ot_logical_start_page := page + ucast valid,
      ot_logical_blk := start + ucast valid, ot_start_peb_page := ucast valid, ot_offset := 168 + ucast valid * 16,
      ot_cur_fragment := 2, ot_cur_phys_off_tbl_frag := 1, ot_fragments_count := 0\<rparr>)"
    "same_outside 48 (168 + 16 * unat valid) m1 m2"
    "\<forall>k < unat valid. off_desc m2 (168 + 16 * k) = (ucast page + of_nat k, ucast start + of_nat k,
      ucast start + of_nat k, 0, define_block_descriptor_offset (of_nat k))"
    using offset_table_fragment_ok[OF v(2) _ _ assms(3-6), of ?st1 0 1 crc32] assms(1,7) v l1 by (auto simp: ucast_of_nat_16)
  let ?st2 = "?st1\<lparr>ot_mem := m2, ot_start_id := valid, ot_rest_blks := 0, ot_logical_start_page := page + ucast valid,
      ot_logical_blk := start + ucast valid, ot_start_peb_page := ucast valid, ot_offset := 168 + ucast valid * 16,
      ot_cur_fragment := 2, ot_cur_phys_off_tbl_frag := 1, ot_fragments_count := 0\<rparr>"
  have chain: "offset_table_chain (offset_table_fragment crc32 pages_per_seg peb valid used lst 0) 5 1 ?st1 = Inr (2, ?st2)"
    using m2(1) by (simp add: eval_nat_numeral)
  let ?m3 = "put32 (put32 (put16 (put16 (put8 (put8 m2 28 SSDFS_CHAIN_HDR_MAGIC) 29 6) 26 16) 24 2)
      16 (168 + ucast valid * 16)) 20 (168 + ucast valid * 16)"
  have l2: "length m2 = length mem" using same_outside_length[OF m2(2)] l1 by simp
  have "bytes_at ?m3 (168 + 16 * k) 16 = bytes_at m2 (168 + 16 * k) 16" for k
    using l2 assms(7) by (simp add: bytes_at_put_disj)
  then have d: "off_desc ?m3 (168 + 16 * k) = off_desc m2 (168 + 16 * k)" for k by (rule off_desc_window)
  have "offset_table_portion crc32 pages_per_seg peb start valid used lst 1 0 ((?st mem)\<lparr>ot_offset := 0\<rparr>) =
      Inr (?st2\<lparr>ot_mem := ?m3\<rparr>)"
    using assms(7) l2 m1(1) chain by (simp add: offset_table_portion_def Let_def)
  then show ?thesis using m2(3) d l2 assms(7) by simp
qed

lemma offset_table_sizes:
  assumes "0 < valid" and "valid \<le> 252"
  shows "calculate_offset_table_fragments valid = Inr 2" and "portions_of 2 = 1"
    and "ucast (calculate_offset_table_size 2 valid) = (168 + 16 * ucast valid :: u32)"
    and "unat (168 + 16 * ucast valid :: u32) = 168 + 16 * unat valid"
proof -
  have v: "0 < unat valid" "unat valid \<le> 252" using assms by (simp_all add: word_le_nat_alt word_less_nat_alt)
  have "unat ((ucast valid + 253 - 1) div 253 :: u32) = 1"
  proof -
    have "(ucast valid + 253 - 1 :: u32) = ucast valid + 252" by simp
    moreover have "unat (ucast valid + 252 :: u32) = unat valid + 252" using v by (simp add: unat_add_nw unat_ucast_up)
    moreover have "(unat valid + 252) div 253 = 1" by (rule div_nat_eqI) (use v in simp_all)
    ultimately show ?thesis by (simp only: unat_div) simp
  qed
  then have "(ucast valid + 253 - 1) div 253 = (1 :: u32)" by (intro word_unat_eqI) simp
  then show "calculate_offset_table_fragments valid = Inr 2"
    by (simp add: calculate_offset_table_fragments_def portions_of_def Let_def ucast_max BUG_ON_def word_le_nat_alt)
  show "portions_of 2 = 1" by (simp add: portions_of_def)
  show u: "unat (168 + 16 * ucast valid :: u32) = 168 + 16 * unat valid"
    using v by (simp add: unat_add_nw unat_mult_nw unat_ucast_up)
  have m: "unat (ucast valid mod 253 :: u32) = unat valid" using v by (simp add: unat_mod unat_ucast_up)
  then have "unat (calculate_offset_table_size 2 valid) = 168 + 16 * unat valid"
    using v by (simp add: calculate_offset_table_size_def portions_of_def Let_def unat_add_nw unat_mult_nw unat_ucast_up)
  then show "ucast (calculate_offset_table_size 2 valid) = (168 + 16 * ucast valid :: u32)"
    using u v by (intro word_unat_eqI) (simp add: unat_ucast_small)
qed

section \<open>Properties of the offset translation table\<close>

text \<open>
  C24. For a log of 1 to 252 blocks \<^verbatim>\<open>__pre_commit_offset_table\<close> returns a table of one fragment
  whose k-th descriptor stands for the k-th block: it holds the logical page and the logical
  block of that block, and as byte offset the place where the table of block descriptors keeps
  the descriptor of block k. The caller has to keep to the assertions of the function: the
  number of used blocks is the last allocated block plus one and at most 253.
\<close>

theorem offset_table_exact:
  assumes "ext_buf extent = None" and "0 < valid" and "valid \<le> 252" and "start < ucast U16_MAX"
    and "vl_page_size layout \<noteq> 0" and "ucast valid \<le> erase_size (vl_env layout) div vl_page_size layout"
    and "vl_page_size layout \<le> erase_size (vl_env layout)"
    and "offset div ucast (vl_page_size layout) < ucast U32_MAX" and "peb_index < 65535" and "lst + 1 = used" and "lst < used"
    and "used \<le> min (bt_pages_per_seg (vl_blk2off_tbl layout)) 253"
  shows "\<exists>mem. pre_commit_offset_table_extent crc32 True layout peb_index extent offset start valid used lst =
      Inr (extent\<lparr>ext_buf := Some mem, ext_bytes_count := 168 + 16 * ucast valid\<rparr>) \<and>
    length mem = 168 + 16 * unat valid \<and>
    (\<forall>k < unat valid. off_desc mem (168 + 16 * k) =
      (ucast (offset div ucast (vl_page_size layout)) + of_nat k, ucast start + of_nat k, ucast start + of_nat k, 0,
       define_block_descriptor_offset (of_nat k)))"
proof -
  note sz = offset_table_sizes[OF assms(2,3)]
  obtain st where st: "offset_table_portion crc32 (bt_pages_per_seg (vl_blk2off_tbl layout)) peb_index start valid used lst 1 0
      \<lparr>ot_mem = replicate (unat (168 + 16 * ucast valid :: u32)) 0, ot_offset = 0, ot_start_id = 0, ot_rest_blks = valid,
       ot_logical_start_page = offset div ucast (vl_page_size layout), ot_logical_blk = start, ot_start_peb_page = 0,
       ot_cur_fragment = 0, ot_cur_phys_off_tbl_frag = 0, ot_fragments_count = 2\<rparr> = Inr st"
    "length (ot_mem st) = 168 + 16 * unat valid"
    "\<forall>k < unat valid. off_desc (ot_mem st) (168 + 16 * k) =
      (ucast (offset div ucast (vl_page_size layout)) + of_nat k, ucast start + of_nat k, ucast start + of_nat k, 0,
       define_block_descriptor_offset (of_nat k))"
    using offset_table_single_portion[OF assms(2,3,9,10,12,11), of "replicate (unat (168 + 16 * ucast valid :: u32)) 0"
        crc32 start "offset div ucast (vl_page_size layout)"] sz(4) by auto
  have "\<not> ucast U16_MAX \<le> start" "\<not> erase_size (vl_env layout) < vl_page_size layout"
    "\<not> erase_size (vl_env layout) div vl_page_size layout < ucast valid"
    "\<not> ucast U32_MAX \<le> offset div ucast (vl_page_size layout)"
    using assms(4,6,7,8) by (simp_all add: not_le not_less)
  then have "pre_commit_offset_table_extent crc32 True layout peb_index extent offset start valid used lst =
      Inr (extent\<lparr>ext_buf := Some (ot_mem st), ext_bytes_count := 168 + 16 * ucast valid\<rparr>)"
    using assms(1,5) st(1) sz(1-3) by (simp add: pre_commit_offset_table_extent_def Let_def for_res_step)
  then show ?thesis using st(2,3) by blast
qed

definition sample_blk2off :: ssdfs_volume_layout where
  "sample_blk2off = mkfs_volume_layout\<lparr>vl_blk2off_tbl := (vl_blk2off_tbl mkfs_volume_layout)\<lparr>bt_pages_per_seg := 2048\<rparr>\<rparr>"

lemma sample_blk2off_simps:
  "vl_page_size sample_blk2off = 4096" "erase_size (vl_env sample_blk2off) = 8388608"
  "bt_pages_per_seg (vl_blk2off_tbl sample_blk2off) = 2048"
  by (simp_all add: sample_blk2off_def mkfs_volume_layout_def)

theorem offset_table_exact_witness:
  "\<exists>mem. pre_commit_offset_table_extent (\<lambda>c b. c) True sample_blk2off 0 (sample_extent 0) 8192 5 3 3 2 =
      Inr ((sample_extent 0)\<lparr>ext_buf := Some mem, ext_bytes_count := 216\<rparr>) \<and>
    off_desc mem 200 = (4, 7, 7, 0, 384)"
proof -
  have pre: "ext_buf (sample_extent 0) = None" "(0 :: u16) < 3" "(3 :: u16) \<le> 252" "(5 :: u32) < ucast U16_MAX"
    "(ucast (3 :: u16) :: u32) \<le> 8388608 div 4096" "(8192 :: u64) div ucast (4096 :: u32) < ucast U32_MAX"
    "(3 :: u32) \<le> min 2048 253"
    by (simp_all add: sample_extent_def ucast_max)
  obtain mem where mem: "pre_commit_offset_table_extent (\<lambda>c b. c) True sample_blk2off 0 (sample_extent 0) 8192 5 3 3 2 =
      Inr ((sample_extent 0)\<lparr>ext_buf := Some mem, ext_bytes_count := 168 + 16 * ucast (3 :: u16)\<rparr>)"
    "\<forall>k < unat (3 :: u16). off_desc mem (168 + 16 * k) = (ucast ((8192 :: u64) div ucast (4096 :: u32)) + of_nat k,
      ucast (5 :: u32) + of_nat k, ucast (5 :: u32) + of_nat k, 0, define_block_descriptor_offset (of_nat k))"
    using offset_table_exact[of "sample_extent 0" 3 5 sample_blk2off 8192 0 2 3 "\<lambda>c b. c"] pre
    unfolding sample_blk2off_simps by auto
  have "off_desc mem 200 = (4, 7, 7, 0, 384)" using mem(2)[rule_format, of 2] by (simp add: define_block_descriptor_offset_def)
  then show ?thesis using mem(1) by auto
qed

text \<open>
  C40. A log of exactly 253 blocks breaks the table: \<^verbatim>\<open>calculate_offset_table_size\<close> takes the number
  of descriptors of the last fragment as a remainder, which is 0, so the memory ends behind the
  header of the fragment and the first descriptor is written outside of it.
\<close>

theorem offset_table_full_fragment:
  assumes "ext_buf extent = None" and "start < ucast U16_MAX"
    and "vl_page_size layout \<noteq> 0" and "253 \<le> erase_size (vl_env layout) div vl_page_size layout"
    and "vl_page_size layout \<le> erase_size (vl_env layout)"
    and "offset div ucast (vl_page_size layout) < ucast U32_MAX" and "peb_index < 65535" and "lst + 1 = used"
    and "used < ucast U16_MAX" and "lst < ucast U16_MAX"
  shows "pre_commit_offset_table_extent crc32 True layout peb_index extent offset start 253 used lst = Inl Oob"
proof -
  let ?st = "\<lambda>m. \<lparr>ot_mem = m, ot_offset = 128, ot_start_id = 0, ot_rest_blks = 253,
       ot_logical_start_page = offset div ucast (vl_page_size layout), ot_logical_blk = start, ot_start_peb_page = 0,
       ot_cur_fragment = 0, ot_cur_phys_off_tbl_frag = 0, ot_fragments_count = 2\<rparr>"
  let ?m0 = "put8 (put8 (put16 (put32 (replicate 168 0) 0 SSDFS_SUPER_MAGIC) 4 0x5474) 6 1) 7 20"
  have sz: "calculate_offset_table_fragments 253 = Inr 2" "portions_of 2 = 1" "calculate_offset_table_size 2 253 = 168"
    by (simp_all add: calculate_offset_table_fragments_def calculate_offset_table_size_def portions_of_def Let_def ucast_max
        word_le_nat_alt)
  obtain m1 where m1: "offset_table_extent crc32 start 253 0 (?st ?m0) = Inr ((?st m1)\<lparr>ot_cur_fragment := 1,
      ot_fragments_count := 1, ot_offset := 136\<rparr>)" "same_outside 32 136 ?m0 m1"
    using offset_table_extent_ok[of 0 "?st ?m0" crc32 start 253] by auto
  have l1: "length m1 = 168" using same_outside_length[OF m1(2)] by simp
  have bug: "\<not> peb_index \<ge> 65535" "\<not> ucast U16_MAX \<le> used" "\<not> ucast U16_MAX \<le> lst" "\<not> (4 :: u8) \<le> 0"
    using assms(7,9,10) by (simp_all add: not_le)
  have "offset_descriptor_step 136 0 p lb sp 0 m1 = Inl Oob" for p lb sp
    using l1 by (simp add: offset_descriptor_step_def Let_def wr32_def wr_def)
  then have "offset_table_fragment crc32 (bt_pages_per_seg (vl_blk2off_tbl layout)) peb_index 253 used lst 0 1
      ((?st m1)\<lparr>ot_cur_fragment := 1, ot_fragments_count := 1, ot_offset := 136\<rparr>) = Inl Oob"
    using assms(8) bug by (simp add: offset_table_fragment_def prepare_offsets_table_fragment_def Let_def for_res_step)
  then have "offset_table_chain (offset_table_fragment crc32 (bt_pages_per_seg (vl_blk2off_tbl layout)) peb_index 253 used lst 0)
      5 1 ((?st m1)\<lparr>ot_cur_fragment := 1, ot_fragments_count := 1, ot_offset := 136\<rparr>) = Inl Oob"
    using offset_table_chain.simps(2)[of _ 4 1] by (simp add: numeral_eq_Suc)
  then have "offset_table_portion crc32 (bt_pages_per_seg (vl_blk2off_tbl layout)) peb_index start 253 used lst 1 0
      ((?st (replicate 168 0))\<lparr>ot_offset := 0\<rparr>) = Inl Oob"
    using m1(1) by (simp add: offset_table_portion_def Let_def)
  moreover have "\<not> ucast U16_MAX \<le> start" "\<not> erase_size (vl_env layout) < vl_page_size layout"
    "\<not> erase_size (vl_env layout) div vl_page_size layout < 253"
    "\<not> ucast U32_MAX \<le> offset div ucast (vl_page_size layout)"
    using assms(2,4,5,6) by (simp_all add: not_le not_less)
  ultimately show ?thesis
    using assms(1,3) sz by (simp add: pre_commit_offset_table_extent_def Let_def for_res_step)
qed

theorem offset_table_full_fragment_witness:
  "pre_commit_offset_table_extent (\<lambda>c b. c) True sample_blk2off 0 (sample_extent 0) 0 0 253 253 252 = Inl Oob"
  by (rule offset_table_full_fragment, unfold sample_blk2off_simps)
    (simp_all add: sample_extent_def ucast_max)

section \<open>Lemmas on the table of block descriptors\<close>

text \<open>The fields of a block descriptor: inode, logical page, PEB, page of the PEB, and the state (log start page,
  area, migration id and byte offset); at last the log start page of the second state.\<close>

definition blk_desc :: "buf \<Rightarrow> nat \<Rightarrow> u64 \<times> u32 \<times> u16 \<times> u16 \<times> u16 \<times> u8 \<times> u8 \<times> u32 \<times> u16" where
  "blk_desc mem o' = (get64 mem o', get32 mem (o' + 8), get16 mem (o' + 12), get16 mem (o' + 14), get16 mem (o' + 16),
     get8 mem (o' + 18), get8 mem (o' + 19), get32 mem (o' + 20), get16 mem (o' + 24))"

lemma blk_desc_window: "bytes_at m' o' 64 = bytes_at m o' 64 \<Longrightarrow> blk_desc m' o' = blk_desc m o'"
  using get_window[of m' o' 64 m 0] get_window[of m' o' 64 m] by (simp add: blk_desc_def)

lemma blk_desc_window0: "blk_desc m p = blk_desc (bytes_at m p 64) 0"
  by (simp add: blk_desc_def get8_def get16_def get32_def get64_def bytes_at_bytes_at)

text \<open>What the descriptor of the k-th block of the log holds.\<close>

definition blk_desc_of :: "u32 \<Rightarrow> int \<Rightarrow> u64 \<Rightarrow> u32 \<Rightarrow> u32 \<Rightarrow> u32 \<Rightarrow> nat \<Rightarrow>
    u64 \<times> u32 \<times> u16 \<times> u16 \<times> u16 \<times> u8 \<times> u8 \<times> u32 \<times> u16" where
  "blk_desc_of start peb_index ino item_size page_size payload k =
     (ino, (payload + of_nat k * item_size) div page_size, word_of_int peb_index, ucast (start + of_nat k), 0,
      if item_size \<ge> page_size then 1 else 3, 1, of_nat k * item_size, U16_MAX)"

lemma block_descriptor_values:
  assumes "block_descriptor_fields p pp peb ino item ps payload cur mem = Inr mem'" and "p + 64 \<le> length mem"
  shows "blk_desc mem' p = (ino, (payload + cur) div ps, word_of_int peb, ucast pp, 0, if item \<ge> ps then 1 else 3, 1, cur, U16_MAX)"
proof -
  define t where "t = (if item \<ge> ps then 1 else 3 :: u8)"
  have "mem' = put32 (put8 (put8 (put16 (put16 (put32 (put16 (put64 (overwrite mem (p + 0) (replicate 64 0xFF)) (p + 0) ino)
      (p + 12) (word_of_int peb)) (p + 8) ((payload + cur) div ps)) (p + 14) (ucast pp)) (p + 16) 0) (p + 18) t)
      (p + 19) 1) (p + 20) cur"
    using assms(1) unfolding block_descriptor_fields_def Let_def
    by (auto simp: bnd_eq_Inr field_eq_Inr div_chk_eq_Inr memset_def wr_eq_Inr t_def)
  moreover have "fits p 64 mem" using assms(2) by (simp add: fits_def)
  ultimately have "bytes_at mem' p 64 = put32 (put8 (put8 (put16 (put16 (put32 (put16 (put64 (replicate 64 0xFF) 0 ino)
      12 (word_of_int peb)) 8 ((payload + cur) div ps)) 14 (ucast pp)) 16 0) 18 t) 19 1) 20 cur"
    by (simp add: window_simps)
  then have "blk_desc mem' p = blk_desc (put32 (put8 (put8 (put16 (put16 (put32 (put16 (put64 (replicate 64 0xFF) 0 ino)
      12 (word_of_int peb)) 8 ((payload + cur) div ps)) 14 (ucast pp)) 16 0) 18 t) 19 1) 20 cur) 0"
    by (subst blk_desc_window0) simp
  moreover have "get16 (replicate 64 0xFF) 24 = U16_MAX" by code_simp
  ultimately show ?thesis by (simp add: blk_desc_def buf_simps t_def)
qed

lemma block_descriptor_step_ok:
  assumes "arr + 64 * i + 64 \<le> length mem" and "peb < 65535" and "ps \<noteq> 0" and "start + of_nat i < ucast U16_MAX"
  shows "\<exists>mem'. block_descriptor_step arr start peb ino item ps payload i (mem, cur) = Inr (mem', cur + item) \<and>
    same_outside (arr + 64 * i) (arr + 64 * i + 64) mem mem' \<and>
    blk_desc mem' (arr + 64 * i) = (ino, (payload + cur) div ps, word_of_int peb, ucast (start + of_nat i), 0,
      if item \<ge> ps then 1 else 3, 1, cur, U16_MAX)"
proof -
  define p where "p = arr + 64 * i"
  have p: "p + 64 \<le> length mem" using assms(1) by (simp add: p_def)
  let ?pp = "start + of_nat i" and ?t = "if item \<ge> ps then 1 else 3 :: u8"
  have "writes (length mem) p (p + 64) mem (block_descriptor_fields p ?pp peb ino item ps payload cur mem)"
    unfolding block_descriptor_fields_def Let_def memset_def
    by (intro writes_div writes_rules) (use p assms(2-4) in \<open>simp_all add: not_le\<close>)
  then obtain mem' where m: "block_descriptor_fields p ?pp peb ino item ps payload cur mem = Inr mem'"
    "same_outside p (p + 64) mem mem'" by (auto dest: writesD)
  have "blk_desc mem' p = (ino, (payload + cur) div ps, word_of_int peb, ucast ?pp, 0, ?t, 1, cur, U16_MAX)"
    by (rule block_descriptor_values[OF m(1) p])
  then show ?thesis using m by (auto simp: p_def block_descriptor_step_def)
qed

lemma block_descriptor_loop_ok:
  assumes "arr + 64 * n \<le> length mem" and "peb < 65535" and "ps \<noteq> 0"
    and "\<And>i. i < n \<Longrightarrow> start + of_nat i < ucast U16_MAX"
  shows "\<exists>mem'. for_res 0 n (block_descriptor_step arr start peb ino item ps payload) (mem, cur) =
      Inr (mem', cur + of_nat n * item) \<and> same_outside arr (arr + 64 * n) mem mem' \<and>
    (\<forall>k < n. blk_desc mem' (arr + 64 * k) = (ino, (payload + (cur + of_nat k * item)) div ps, word_of_int peb,
      ucast (start + of_nat k), 0, if item \<ge> ps then 1 else 3, 1, cur + of_nat k * item, U16_MAX))"
proof -
  let ?D = "\<lambda>m k. blk_desc m (arr + 64 * k) = (ino, (payload + (cur + of_nat k * item)) div ps, word_of_int peb,
      ucast (start + of_nat k), 0, if item \<ge> ps then 1 else 3, 1, cur + of_nat k * item, U16_MAX)"
  let ?I = "\<lambda>i (m, c). c = cur + of_nat i * item \<and> same_outside arr (arr + 64 * n) mem m \<and> (\<forall>k < i. ?D m k)"
  have "\<exists>s'. for_res 0 n (block_descriptor_step arr start peb ino item ps payload) (mem, cur) = Inr s' \<and> ?I n s'"
  proof (rule for_res_total[of 0 n ?I])
    fix i t assume i: "0 \<le> i" "i < n" "?I i t"
    obtain m c where t: "t = (m, c)" by (cases t)
    have I: "c = cur + of_nat i * item" "same_outside arr (arr + 64 * n) mem m" "\<forall>k < i. ?D m k" using i(3) t by auto
    have "arr + 64 * i + 64 \<le> length m" using i(2) assms(1) same_outside_length[OF I(2)] by simp
    then obtain m' where m': "block_descriptor_step arr start peb ino item ps payload i (m, c) = Inr (m', c + item)"
      "same_outside (arr + 64 * i) (arr + 64 * i + 64) m m'" "?D m' i"
      using block_descriptor_step_ok[OF _ assms(2,3) assms(4)[OF i(2)], of arr m ino item payload c] I(1) by auto
    have "?D m' k" if "k < i" for k
    proof -
      have "blk_desc m' (arr + 64 * k) = blk_desc m (arr + 64 * k)"
        by (rule blk_desc_window[OF same_outside_bytes[OF m'(2)]]) (use that in simp)
      then show ?thesis using I(3) that by simp
    qed
    moreover have "same_outside arr (arr + 64 * n) mem m'"
      by (rule same_outside_trans[OF I(2) m'(2)]) (use i(2) in simp_all)
    ultimately show "\<exists>t'. block_descriptor_step arr start peb ino item ps payload i t = Inr t' \<and> ?I (Suc i) t'"
      using m'(1,3) t I(1) by (auto simp: less_Suc_eq algebra_simps)
  qed simp_all
  then show ?thesis by auto
qed

lemma descriptor_fragment_ok:
  assumes "i < 14" and "fdesc + 16 \<le> arr" and "arr + 64 * unat n \<le> length mem" and "unat n \<le> 60" and "peb < 65535"
    and "ps \<noteq> 0" and "\<And>k. k < unat n \<Longrightarrow> start + of_nat k < ucast U16_MAX"
  shows "\<exists>mem'. prepare_block_descriptor_fragment crc32 i fdesc arr off start n peb ino item ps payload (mem, cur) =
      Inr (mem', cur + of_nat (unat n) * item) \<and> length mem' = length mem \<and>
    (\<forall>o' l. o' + l \<le> fdesc \<or> fdesc + 16 \<le> o' \<and> o' + l \<le> arr \<or> arr + 64 * unat n \<le> o' \<longrightarrow>
      bytes_at mem' o' l = bytes_at mem o' l) \<and>
    (\<forall>k < unat n. blk_desc mem' (arr + 64 * k) = (ino, (payload + (cur + of_nat k * item)) div ps, word_of_int peb,
      ucast (start + of_nat k), 0, if item \<ge> ps then 1 else 3, 1, cur + of_nat k * item, U16_MAX))"
proof -
  obtain m1 where m1: "for_res 0 (unat n) (block_descriptor_step arr start peb ino item ps payload) (mem, cur) =
      Inr (m1, cur + of_nat (unat n) * item)" "same_outside arr (arr + 64 * unat n) mem m1"
    "\<forall>k < unat n. blk_desc m1 (arr + 64 * k) = (ino, (payload + (cur + of_nat k * item)) div ps, word_of_int peb,
      ucast (start + of_nat k), 0, if item \<ge> ps then 1 else 3, 1, cur + of_nat k * item, U16_MAX)"
    using block_descriptor_loop_ok[OF assms(3,5,6,7)] by blast
  have l1: "length m1 = length mem" using m1(2) by (rule same_outside_length)
  let ?bytes = "64 * ucast n :: u32"
  have b: "unat ?bytes = 64 * unat n" using assms(4) by (simp add: unat_mult_nw unat_ucast_up)
  have bug: "\<not> ucast U16_MAX \<le> ?bytes" using b assms(4) by (simp add: word_le_nat_alt ucast_max)
  have "writes (length m1) fdesc (fdesc + 16) m1
    (bnd (wr8 m1 (fdesc + 13) SSDFS_FRAGMENT_DESC_MAGIC) (\<lambda>mem. bnd (wr8 mem (fdesc + 14) 5) (\<lambda>mem.
     bnd (wr8 mem (fdesc + 15) 1) (\<lambda>mem. bnd (wr8 mem (fdesc + 12) (of_nat i)) (\<lambda>mem.
     bnd (wr32 mem fdesc off) (\<lambda>mem. bnd (BUG_ON (?bytes \<ge> ucast U16_MAX)) (\<lambda>_.
     bnd (wr16 mem (fdesc + 4) (ucast ?bytes)) (\<lambda>mem. bnd (wr16 mem (fdesc + 6) (ucast ?bytes)) (\<lambda>mem.
     bnd (wr32 mem (fdesc + 8) 0) (\<lambda>mem. bnd (ssdfs_crc32_le (crc32 0) mem arr (unat ?bytes)) (\<lambda>csum.
     wr32 mem (fdesc + 8) csum)))))))))))"
    by (intro writes_rules) (use assms(2,3) l1 b bug in simp_all)
  from writesD[OF this] obtain m2 where m2: "prepare_block_descriptor_fragment crc32 i fdesc arr off start n peb ino item ps
      payload (mem, cur) = Inr (m2, cur + of_nat (unat n) * item)" "same_outside fdesc (fdesc + 16) m1 m2"
    using m1(1) assms(1) by (auto simp: prepare_block_descriptor_fragment_def Let_def bnd_eq_Inr)
  have "blk_desc m2 (arr + 64 * k) = blk_desc m1 (arr + 64 * k)" for k
    by (rule blk_desc_window[OF same_outside_bytes[OF m2(2)]]) (use assms(2) in simp)
  moreover have "bytes_at m2 o' l = bytes_at mem o' l"
    if "o' + l \<le> fdesc \<or> fdesc + 16 \<le> o' \<and> o' + l \<le> arr \<or> arr + 64 * unat n \<le> o'" for o' l
  proof -
    have "bytes_at m2 o' l = bytes_at m1 o' l" by (rule same_outside_bytes[OF m2(2)]) (use that assms(2) in auto)
    also have "\<dots> = bytes_at mem o' l" by (rule same_outside_bytes[OF m1(2)]) (use that assms(2) in auto)
    finally show ?thesis .
  qed
  ultimately show ?thesis using m1(3) m2 l1 same_outside_length[OF m2(2)] by auto
qed

text \<open>The descriptors that are written: the last fragment gets the remainder.\<close>

definition written_descs :: "nat \<Rightarrow> nat" where
  "written_descs valid = 60 * ((valid + 59) div 60 - 1) + valid mod 60"

lemma written_descs_eq: "0 < valid \<Longrightarrow> written_descs valid = (if valid mod 60 = 0 then valid - 60 else valid)"
proof -
  assume v: "0 < valid"
  define q r where qr: "q = valid div 60" "r = valid mod 60"
  have split: "valid = 60 * q + r" "r < 60" by (simp_all add: qr)
  show ?thesis
  proof (cases "r = 0")
    case True
    then show ?thesis using split v by (simp add: written_descs_def)
  next
    case False
    then have "(valid + 59) div 60 = Suc q" using split by (intro div_nat_eqI) auto
    then show ?thesis using split False by (simp add: written_descs_def)
  qed
qed

lemma page_below:
  "unat start + n \<le> 65535 \<Longrightarrow> k < n \<Longrightarrow> start + of_nat k < (ucast U16_MAX :: u32)"
proof -
  assume a: "unat start + n \<le> 65535" "k < n"
  then have "unat (of_nat k :: u32) = k" by (simp add: unat_of_nat)
  then have "unat (start + of_nat k) = unat start + k" using a by (subst unat_add_nw) simp_all
  then show ?thesis using a by (simp add: word_less_nat_alt ucast_max)
qed

lemma area_fragment_loop_ok:
  assumes v: "0 < unat valid" "unat valid \<le> 780" and F: "unat F = (unat valid + 59) div 60"
    and c: "c = written_descs (unat valid)" and "length mem = 256 + 64 * c" and "peb < 65535" and "ps \<noteq> 0"
    and "unat start + unat valid \<le> 65535"
  shows "\<exists>mem' cur lb. for_res 0 (unat F) (area_fragment_step crc32 0 F valid peb ino item ps payload) (mem, 0, start) =
      Inr (mem', cur, lb) \<and> length mem' = length mem \<and>
    (\<forall>k < c. blk_desc mem' (256 + 64 * k) = blk_desc_of start peb ino item ps payload k)"
proof -
  let ?d = "\<lambda>i. min c (60 * i)"
  have c': "c = 60 * (unat F - 1) + unat valid mod 60" "0 < unat F" "unat F \<le> 13" "c \<le> unat valid"
    using v F c written_descs_eq[OF v(1)] unfolding written_descs_def by (auto split: if_splits)
  let ?I = "\<lambda>i (m, cur, lb). length m = length mem \<and> cur = of_nat (?d i) * item \<and> lb = start + of_nat (?d i) \<and>
    (\<forall>k < ?d i. blk_desc m (256 + 64 * k) = blk_desc_of start peb ino item ps payload k)"
  have "\<exists>s'. for_res 0 (unat F) (area_fragment_step crc32 0 F valid peb ino item ps payload) (mem, 0, start) = Inr s' \<and>
      ?I (unat F) s'"
  proof (rule for_res_total[of 0 "unat F" ?I])
    fix i t assume i: "0 \<le> i" "i < unat F" "?I i t"
    obtain m cur lb where t: "t = (m, cur, lb)" by (cases t)
    have I: "length m = length mem" "cur = of_nat (?d i) * item" "lb = start + of_nat (?d i)"
      "\<forall>k < ?d i. blk_desc m (256 + 64 * k) = blk_desc_of start peb ino item ps payload k" using i(3) t by auto
    let ?n = "if Suc i < unat F then 60 else valid mod 60"
    have di: "?d i = 60 * i" using c'(1) i(2) by simp
    have n: "?d (Suc i) = 60 * i + unat ?n" "unat ?n \<le> 60" "60 * i + unat ?n \<le> c"
      using c'(1) i(2) by (auto simp: unat_mod)
    have arr: "256 + i * (60 * 64) = 256 + 64 * (60 * i)" by simp
    have "start + of_nat (60 * i) + of_nat k < ucast U16_MAX" if "k < unat ?n" for k
      using page_below[OF assms(8), of "60 * i + k"] that n(3) c'(4) by (simp add: add.assoc)
    then obtain m' where m': "prepare_block_descriptor_fragment crc32 i (16 + 16 * i) (256 + 64 * (60 * i))
        (of_nat (256 + i * (60 * 64))) lb ?n peb ino item ps payload (m, cur) = Inr (m', cur + of_nat (unat ?n) * item)"
        "length m' = length m"
        "\<forall>o' l. o' + l \<le> 16 + 16 * i \<or> 16 + 16 * i + 16 \<le> o' \<and> o' + l \<le> 256 + 64 * (60 * i) \<or>
           256 + 64 * (60 * i) + 64 * unat ?n \<le> o' \<longrightarrow> bytes_at m' o' l = bytes_at m o' l"
        "\<forall>k < unat ?n. blk_desc m' (256 + 64 * (60 * i) + 64 * k) = (ino, (payload + (cur + of_nat k * item)) div ps,
           word_of_int peb, ucast (lb + of_nat k), 0, if item \<ge> ps then 1 else 3, 1, cur + of_nat k * item, U16_MAX)"
      using descriptor_fragment_ok[of i "16 + 16 * i" "256 + 64 * (60 * i)" ?n m peb ps lb crc32
          "of_nat (256 + i * (60 * 64))" ino item payload cur] i(2) c'(3) n I(1,3) di assms(5-7) by auto
    have step: "area_fragment_step crc32 0 F valid peb ino item ps payload i t =
        Inr (m', cur + of_nat (unat ?n) * item, lb + ucast ?n)"
      using m'(1) unfolding t area_fragment_step_def Let_def arr by simp
    have desc: "blk_desc m' (256 + 64 * k) = blk_desc_of start peb ino item ps payload k" if "k < ?d (Suc i)" for k
    proof (cases "k < 60 * i")
      case True
      have "blk_desc m' (256 + 64 * k) = blk_desc m (256 + 64 * k)"
        by (rule blk_desc_window, rule m'(3)[rule_format]) (use True i(2) c'(3) in auto)
      then show ?thesis using I(4) di True by simp
    next
      case False
      moreover have "k < 60 * i + unat ?n" using that n(1) by linarith
      ultimately obtain j where j: "k = 60 * i + j" "j < unat ?n"
        by (metis add_less_cancel_left le_Suc_ex not_less)
      have "cur + of_nat j * item = of_nat k * item" "lb + of_nat j = start + of_nat k"
        using I(2,3) di j(1) by (simp_all add: algebra_simps)
      then show ?thesis using m'(4)[rule_format, OF j(2)] j(1) by (simp add: blk_desc_of_def algebra_simps)
    qed
    have u: "ucast ?n = (of_nat (unat ?n) :: u32)" by (rule word_unat_eqI) (simp add: unat_of_nat unat_ucast_up)
    have cur': "cur + of_nat (unat ?n) * item = of_nat (?d (Suc i)) * item"
      unfolding n(1) by (simp only: I(2) di of_nat_add distrib_right)
    have lb': "lb + ucast ?n = start + of_nat (?d (Suc i))"
      unfolding n(1) by (simp only: I(3) di u of_nat_add add.assoc)
    have "?I (Suc i) (m', cur + of_nat (unat ?n) * item, lb + ucast ?n)"
      unfolding prod.case using trans[OF m'(2) I(1)] cur' lb' desc by blast
    then show "\<exists>t'. area_fragment_step crc32 0 F valid peb ino item ps payload i t = Inr t' \<and> ?I (Suc i) t'"
      using step by blast
  qed simp_all
  moreover have "?d (unat F) = c" using c'(1,2) by (simp add: min_def)
  ultimately show ?thesis by auto
qed

lemma blk_desc_table_sizes:
  assumes v: "0 < unat valid" "unat valid \<le> 780"
  shows "unat (BLK_DESC_TABLE_FRAGMENTS valid) = (unat valid + 59) div 60"
    and "area_count (BLK_DESC_TABLE_FRAGMENTS valid) = 1"
    and "FRAGMENTS_PER_AREA 0 (BLK_DESC_TABLE_FRAGMENTS valid) = BLK_DESC_TABLE_FRAGMENTS valid"
    and "BLKS_PER_AREA 0 (BLK_DESC_TABLE_FRAGMENTS valid) valid = valid"
    and "unat (ucast (calculate_blk_desc_table_size (BLK_DESC_TABLE_FRAGMENTS valid) valid) :: u32) =
      256 + 64 * written_descs (unat valid)"
proof -
  let ?F = "BLK_DESC_TABLE_FRAGMENTS valid" and ?f = "(unat valid + 59) div 60"
  have f: "0 < ?f" "?f \<le> 13" using v by auto
  have "(ucast valid + 60 - 1 :: u64) = ucast valid + 59" by simp
  then have "unat (ucast valid + 60 - 1 :: u64) = unat valid + 59" using v by (simp add: unat_add_nw unat_ucast_up)
  then show F: "unat ?F = ?f" using f by (simp add: BLK_DESC_TABLE_FRAGMENTS_def unat_ucast_small unat_div)
  have "(ucast ?F + 14 - 1 :: u64) = ucast ?F + 13" by simp
  then have "unat (ucast ?F + 14 - 1 :: u64) = ?f + 13" using F f by (simp add: unat_add_nw unat_ucast_up)
  moreover have "(?f + 13) div 14 = 1" using f by (intro div_nat_eqI) simp_all
  ultimately show a: "area_count ?F = 1" by (intro word_unat_eqI) (simp add: area_count_def unat_div)
  show "FRAGMENTS_PER_AREA 0 ?F = ?F"
    using F f by (intro word_unat_eqI) (simp add: FRAGMENTS_PER_AREA_def a unat_mod)
  show "BLKS_PER_AREA 0 ?F valid = valid"
    using v by (intro word_unat_eqI) (simp add: BLKS_PER_AREA_def a unat_mod)
  have w: "(word_of_int (int (unat ?F) - 1) :: u64) = of_nat (?f - 1)" using F f by (simp add: of_nat_diff)
  have "unat (of_nat n :: u64) = n" if "n < 14" for n using that by (simp add: unat_of_nat)
  from this[of "?f - 1"] have "unat (of_nat (?f - 1) :: u64) = ?f - 1" using f by simp
  then have m: "unat (of_nat (?f - 1) * 3840 :: u64) = (?f - 1) * 3840" using f by (subst unat_mult_nw) simp_all
  have r: "unat (ucast valid mod 60 :: u32) = unat valid mod 60" by (simp add: unat_mod unat_ucast_up)
  then have r64: "unat (ucast (ucast valid mod 60 :: u32) * 64 :: u64) = unat valid mod 60 * 64"
    by (subst unat_mult_nw) (simp_all add: unat_ucast_up)
  have "unat (calculate_blk_desc_table_size ?F valid) = 256 + (?f - 1) * 3840 + unat valid mod 60 * 64"
  proof -
    have sum: "unat (1 * 256 + x + y) = 256 + unat x + unat y" if "unat x \<le> 100000" "unat y \<le> 4000" for x y :: u64
      using that by (simp add: unat_add_nw)
    have "calculate_blk_desc_table_size ?F valid =
        1 * 256 + of_nat (?f - 1) * 3840 + ucast (ucast valid mod 60 :: u32) * 64"
      unfolding calculate_blk_desc_table_size_def Let_def area_count_def[symmetric] a w by simp
    moreover have "unat (of_nat (?f - 1) * 3840 :: u64) \<le> 100000" "unat valid mod 60 * 64 \<le> 4000"
      using m f by simp_all
    ultimately show ?thesis using sum[of "of_nat (?f - 1) * 3840"] r64 m by simp
  qed
  then show "unat (ucast (calculate_blk_desc_table_size ?F valid) :: u32) = 256 + 64 * written_descs (unat valid)"
    using f by (simp add: unat_ucast_small written_descs_def)
qed

lemma descriptor_offset_first_area:
  assumes "k < 780"
  shows "unat (define_block_descriptor_offset (of_nat k)) = 256 + 64 * k"
proof -
  have k: "unat (of_nat k :: u16) = k" using assms by (simp add: unat_of_nat)
  then have "(ucast (of_nat k :: u16) div 840 :: u32) = 0"
    using assms by (intro word_unat_eqI) (simp add: unat_div unat_ucast_up)
  moreover have "unat (ucast (of_nat k :: u16) * 64 :: u32) = k * 64"
    using k assms by (subst unat_mult_nw) (simp_all add: unat_ucast_up)
  ultimately show ?thesis using assms by (simp add: define_block_descriptor_offset_def Let_def unat_add_nw)
qed

text \<open>The table of a log of at most 780 blocks has a single area.\<close>

lemma area_block_table_ok:
  assumes v: "0 < unat valid" "unat valid \<le> 780" and F: "unat F = (unat valid + 59) div 60"
    and "length mem = 256 + 64 * written_descs (unat valid)" and "peb < 65535" and "ps \<noteq> 0"
    and "unat start + unat valid \<le> 65535"
  shows "\<exists>mem' cur. prepare_area_block_table crc32 0 0 F False start valid peb ino item ps payload (mem, 0) = Inr (mem', cur) \<and>
    length mem' = length mem \<and>
    (\<forall>k < written_descs (unat valid). blk_desc mem' (256 + 64 * k) = blk_desc_of start peb ino item ps payload k)"
proof -
  have f: "\<not> 14 < F" using v F by (simp add: word_less_nat_alt)
  let ?b = "256 + ucast valid * 64 :: u32"
  let ?m = "put32 (put32 (put16 (put16 (put16 (put8 (put8 mem 12 SSDFS_CHAIN_HDR_MAGIC) 13 3) 14 0) 8 F) 10 16) 0 ?b) 4 ?b"
  have l: "length ?m = 256 + 64 * written_descs (unat valid)" using assms(4) by simp
  obtain mem' cur lb where m: "for_res 0 (unat F) (area_fragment_step crc32 0 F valid peb ino item ps payload) (?m, 0, start) =
      Inr (mem', cur, lb)" "length mem' = length ?m"
    "\<forall>k < written_descs (unat valid). blk_desc mem' (256 + 64 * k) = blk_desc_of start peb ino item ps payload k"
    using area_fragment_loop_ok[OF v F refl l assms(5-7)] by blast
  have "prepare_area_block_table crc32 0 0 F False start valid peb ino item ps payload (mem, 0) = Inr (mem', cur)"
    using m(1) f assms(4) by (simp add: prepare_area_block_table_def Let_def)
  then show ?thesis using m(2,3) l assms(4) by auto
qed

section \<open>Properties of the table of block descriptors\<close>

text \<open>
  C25. For a log of 1 to 780 blocks \<^verbatim>\<open>pre_commit_block_descriptors\<close> returns and fills the extent
  of the block descriptors. The descriptor of block k is where the offset table says
  (\<^verbatim>\<open>define_block_descriptor_offset\<close>) and holds the inode, the logical page, the page of the
  PEB and one state, for every block when the number of blocks is not a multiple of 60. When it is, the last
  fragment gets no descriptor: the extent ends before the offsets of the last 60 blocks.
\<close>

theorem block_descriptors_exact:
  assumes v: "0 < unat valid" "unat valid \<le> 780" and "unat start + unat valid \<le> 65535" and "peb_index < 65535"
    and "vl_page_size layout \<noteq> 0" and "vl_page_size layout \<le> erase_size (vl_env layout)"
    and "ucast valid \<le> erase_size (vl_env layout) div vl_page_size layout"
    and seg: "seg_index < vl_segs_capacity layout" "nth_int (vl_segs layout) seg_index = Inr seg"
      "peb_index < int (unat (sd_pebs_capacity seg))" "nth_int (sd_pebs seg) peb_index = Inr peb" "peb_wf peb"
    and "ext_buf (extent_of peb SSDFS_BLOCK_DESCRIPTORS) = None"
  shows "\<exists>layout' peb' mem.
    pre_commit_block_descriptors crc32 True layout seg_index peb_index start valid ino payload item = Inr layout' \<and>
    peb_at layout' seg_index peb_index = Inr peb' \<and> ext_buf (extent_of peb' SSDFS_BLOCK_DESCRIPTORS) = Some mem \<and>
    unat (ext_bytes_count (extent_of peb' SSDFS_BLOCK_DESCRIPTORS)) = length mem \<and>
    (\<forall>k < unat valid. if unat valid mod 60 = 0 \<and> unat valid - 60 \<le> k
       then length mem \<le> unat (define_block_descriptor_offset (of_nat k))
       else blk_desc mem (unat (define_block_descriptor_offset (of_nat k))) =
         blk_desc_of start peb_index ino item (vl_page_size layout) payload k)"
proof -
  note sz = blk_desc_table_sizes[OF v]
  let ?F = "BLK_DESC_TABLE_FRAGMENTS valid" and ?ps = "vl_page_size layout" and ?e = "extent_of peb 3"
  define a where "a = (ucast (calculate_blk_desc_table_size ?F valid) :: u32)"
  have a: "unat a = 256 + 64 * written_descs (unat valid)" using sz(5) by (simp add: a_def)
  obtain mem cur where m: "prepare_area_block_table crc32 0 0 ?F False start valid peb_index ino item ?ps payload
      (replicate (unat a) 0, 0) = Inr (mem, cur)" "length mem = unat a"
    "\<forall>k < written_descs (unat valid). blk_desc mem (256 + 64 * k) = blk_desc_of start peb_index ino item ?ps payload k"
    using area_block_table_ok[OF v sz(1), of "replicate (unat a) 0" peb_index ?ps start crc32 ino item payload] a assms(3-5)
    by auto
  have fl: "unat ?F < 65535" "unat valid < 65535" using sz(1) v by linarith+
  then have lim: "\<not> U16_MAX \<le> ?F" "\<not> U16_MAX \<le> valid" by (simp_all add: word_le_nat_alt unat_minus_one_eq)
  have off: "define_area_blk_tbl_hdr_offset 0 = 0" by (simp add: define_area_blk_tbl_hdr_offset_def)
  have step: "area_step crc32 1 ?F valid peb_index ino item ?ps payload 0 (replicate (unat a) 0, 0, start) =
      Inr (mem, cur, start + ucast valid)"
    using m(1) lim by (simp add: area_step_def sz(3,4) off Let_def)
  let ?e' = "?e\<lparr>ext_buf := Some mem, ext_bytes_count := a\<rparr>"
  obtain layout' where l': "put_peb layout seg_index peb_index (put_extent peb 3 ?e') = Inr layout'"
    using seg(2,4) by (auto simp: put_peb_def nth_int_eq_Inr)
  have bug: "\<not> erase_size (vl_env layout) < ?ps" "\<not> erase_size (vl_env layout) div ?ps < ucast valid"
    "\<not> vl_segs_capacity layout \<le> seg_index" "\<not> int (unat (sd_pebs_capacity seg)) \<le> peb_index"
    using assms(6,7) seg(1,3) by (simp_all add: not_less)
  have run: "pre_commit_block_descriptors crc32 True layout seg_index peb_index start valid ino payload item = Inr layout'"
    unfolding pre_commit_block_descriptors_def with_extent_def
    using seg(2,4) bug assms(5,13) step l' by (simp add: sz(2) a_def[symmetric] Let_def for_res_step)
  show ?thesis
  proof (intro exI conjI allI impI)
    show "pre_commit_block_descriptors crc32 True layout seg_index peb_index start valid ino payload item = Inr layout'"
      by (rule run)
    show "peb_at layout' seg_index peb_index = Inr (put_extent peb 3 ?e')" by (rule peb_at_put_same[OF l'])
    show "ext_buf (extent_of (put_extent peb 3 ?e') 3) = Some mem" using seg(5) by simp
    show "unat (ext_bytes_count (extent_of (put_extent peb 3 ?e') 3)) = length mem" using seg(5) m(2) by simp
    fix k assume k: "k < unat valid"
    then have o: "unat (define_block_descriptor_offset (of_nat k)) = 256 + 64 * k"
      using descriptor_offset_first_area[of k] v(2) by simp
    show "if unat valid mod 60 = 0 \<and> unat valid - 60 \<le> k
       then length mem \<le> unat (define_block_descriptor_offset (of_nat k))
       else blk_desc mem (unat (define_block_descriptor_offset (of_nat k))) =
         blk_desc_of start peb_index ino item ?ps payload k"
      using o k m(2,3) a written_descs_eq[OF v(1)] by (auto simp: not_le split: if_splits)
  qed
qed

theorem block_descriptors_exact_witness:
  "\<exists>layout' peb' mem.
     pre_commit_block_descriptors (\<lambda>c b. c) True (sample_volume 0 (sample_peb [] [])) 0 0 5 60 9 0 4096 = Inr layout' \<and>
     peb_at layout' 0 0 = Inr peb' \<and> ext_buf (extent_of peb' SSDFS_BLOCK_DESCRIPTORS) = Some mem \<and>
     length mem \<le> unat (define_block_descriptor_offset 7)"
proof -
  let ?p = "sample_peb [] []" and ?l = "sample_volume 0 (sample_peb [] [])"
  have e: "ext_buf (extent_of ?p 3) = None" by (simp add: sample_peb_def extent_of_def sample_extent_def numeral_eq_Suc)
  obtain layout' peb' mem where r: "pre_commit_block_descriptors (\<lambda>c b. c) True ?l 0 0 5 60 9 0 4096 = Inr layout'"
    "peb_at layout' 0 0 = Inr peb'" "ext_buf (extent_of peb' 3) = Some mem"
    "\<forall>k < unat (60 :: u16). if unat (60 :: u16) mod 60 = 0 \<and> unat (60 :: u16) - 60 \<le> k
       then length mem \<le> unat (define_block_descriptor_offset (of_nat k))
       else blk_desc mem (unat (define_block_descriptor_offset (of_nat k))) = blk_desc_of 5 0 9 4096 4096 0 k"
    using block_descriptors_exact[of 60 5 0 ?l 0 "vl_segs ?l ! 0" ?p "\<lambda>c b. c" 9 0 4096] e
    by (auto simp: sample_volume_simps sample_peb_simps)
  show ?thesis using r(1-3) r(4)[rule_format, of 7] by auto
qed

end
