(* ===== verification/MaptblCache.thy ===== *)
theory MaptblCache
  imports MkfsTables
begin

text \<open>
  \<^verbatim>\<open>sbin/mkfs.ssdfs/mapping_table_cache.c\<close>: the cache of the PEB mapping table, which mkfs
  stores in the superblock segments so that a mount can find the metadata before it has read
  the mapping table. The cache is an array of fragments of one page. A fragment holds a
  header, the LEB/PEB pairs in increasing order of the LEB, a magic number, and one state record for
  each pair:

  \<^verbatim>\<open>| header (32) | pairs (16 each) | magic (4) | states (4 each) | free |\<close>

  so that every insertion moves the states to make room for the pair. The first part holds
  the operations of the file, the second an abstract view of a fragment as a list of entries, and the
  third the refinement of sorted insertion.

  A pair and a state are the bytes of the C structures, a fragment the bytes of its page; a pointer into a
  fragment is an offset.
\<close>

section \<open>Constants of \<^verbatim>\<open>include/ssdfs_abi.h\<close>\<close>

abbreviation (input) SSDFS_MAPTBL_CACHE_MAGIC :: u16 where "SSDFS_MAPTBL_CACHE_MAGIC \<equiv> 0x4D63"
abbreviation (input) SSDFS_MAPTBL_CACHE_PEB_STATE_MAGIC :: u32 where
  "SSDFS_MAPTBL_CACHE_PEB_STATE_MAGIC \<equiv> 0x4D635053"
abbreviation (input) SSDFS_PEB_STATE_CONSISTENT :: u8 where "SSDFS_PEB_STATE_CONSISTENT \<equiv> 1"
abbreviation (input) SSDFS_MAPTBL_USING_PEB_STATE :: u8 where "SSDFS_MAPTBL_USING_PEB_STATE \<equiv> 3"

abbreviation (input) MAPTBL_CACHE_HDR_SIZE :: nat where "MAPTBL_CACHE_HDR_SIZE \<equiv> 32"
abbreviation (input) LEB2PEB_PAIR_SIZE :: nat where "LEB2PEB_PAIR_SIZE \<equiv> 16"
abbreviation (input) PEB_STATE_SIZE :: nat where "PEB_STATE_SIZE \<equiv> 4"

definition SSDFS_LEB2PEB_PAIR_PER_FRAGMENT :: "u32 \<Rightarrow> u64" where
  "SSDFS_LEB2PEB_PAIR_PER_FRAGMENT fragment_size = (ucast fragment_size - 32 - 4) div (16 + 4)"

section \<open>Creation of the fragments\<close>

text \<open>The LEBs that mkfs has allocated, counted over all PEBs of all segment descriptors.\<close>

definition count_segment_lebs :: "ssdfs_volume_layout \<Rightarrow> nat \<Rightarrow> u32 \<Rightarrow> u32 res" where
  "count_segment_lebs layout i lebs_count =
     bnd (nth_chk (vl_segs layout) i) (\<lambda>segment.
     for_res 0 (unat (sd_pebs_capacity segment)) (\<lambda>j lebs_count.
       bnd (nth_chk (sd_pebs segment) j) (\<lambda>peb.
       Inr (if pc_leb_id peb \<noteq> U64_MAX then lebs_count + 1 else lebs_count))) lebs_count)"

definition count_lebs :: "ssdfs_volume_layout \<Rightarrow> u32 res" where
  "count_lebs layout =
     for_res 0 (unat (of_int (vl_segs_capacity layout) :: u32)) (count_segment_lebs layout) 0"

text \<open>
  \<open>alloc_ok i\<close> tells whether the \<open>i\<close>-th allocation succeeds. The cleanup \<^verbatim>\<open>for (i--; i >= 0; i--)\<close>
  runs with an unsigned index: the condition always holds, and after index 0 it reads
  \<^verbatim>\<open>fragments_array[U32_MAX]\<close>, so a failed allocation of a fragment ends in an access outside the array.
\<close>

definition maptbl_cache_create_fragments_array ::
  "(nat \<Rightarrow> bool) \<Rightarrow> ssdfs_volume_layout \<Rightarrow> ssdfs_volume_layout res" where
  "maptbl_cache_create_fragments_array alloc_ok layout =
     bnd (count_lebs layout) (\<lambda>lebs_count.
     let fragment_size = (ucast (vl_page_size layout) :: u64);
         leb2peb_pair_per_fragment = (ucast (SSDFS_LEB2PEB_PAIR_PER_FRAGMENT (vl_page_size layout)) :: u32) in
     bnd (div_chk (lebs_count + leb2peb_pair_per_fragment - 1) leb2peb_pair_per_fragment) (\<lambda>fragments_count.
     bnd (fail_if (\<not> alloc_ok 0) ENOMEM) (\<lambda>_.
     if \<forall>i < unat fragments_count. alloc_ok (Suc i) then
       Inr (layout\<lparr>vl_maptbl_cache :=
         \<lparr>mc_fragments_count = fragments_count, mc_fragment_size = fragment_size, mc_bytes_count = 0,
          mc_fragments_array = Some (replicate (unat fragments_count) (Some (replicate (unat fragment_size) 0)))\<rparr>\<rparr>)
     else Inl Oob)))"

definition maptbl_cache_destroy_fragments_array :: "ssdfs_volume_layout \<Rightarrow> ssdfs_volume_layout" where
  "maptbl_cache_destroy_fragments_array layout =
     layout\<lparr>vl_maptbl_cache := (vl_maptbl_cache layout)\<lparr>mc_fragments_array := None\<rparr>\<rparr>"

text \<open>\<open>mc_fragment\<close> is \<^verbatim>\<open>layout->maptbl_cache.fragments_array[index]\<close>.\<close>

definition mc_fragment :: "ssdfs_maptbl_cache_layout \<Rightarrow> nat \<Rightarrow> buf res" where
  "mc_fragment mc i =
     bnd (deref (mc_fragments_array mc)) (\<lambda>fs. bnd (nth_chk fs i) deref)"

definition mc_put_fragment :: "ssdfs_maptbl_cache_layout \<Rightarrow> nat \<Rightarrow> buf \<Rightarrow> ssdfs_maptbl_cache_layout res" where
  "mc_put_fragment mc i b =
     bnd (deref (mc_fragments_array mc)) (\<lambda>fs.
     bnd (upd_chk fs i (Some b)) (\<lambda>fs. Inr (mc\<lparr>mc_fragments_array := Some fs\<rparr>)))"

definition maptbl_cache_prepare_fragment ::
  "ssdfs_volume_layout \<Rightarrow> u16 \<Rightarrow> ssdfs_volume_layout res" where
  "maptbl_cache_prepare_fragment layout sequence_id =
     (let fragments = mc_fragments_count (vl_maptbl_cache layout) in
     bnd (fail_if (fragments \<le> ucast sequence_id) EINVAL) (\<lambda>_.
     bnd (mc_fragment (vl_maptbl_cache layout) (unat sequence_id)) (\<lambda>ptr.
     bnd (memset ptr 0 0 (unat (vl_page_size layout))) (\<lambda>ptr.
     bnd (wr32 ptr 0 SSDFS_SUPER_MAGIC) (\<lambda>ptr.
     bnd (wr16 ptr 4 SSDFS_MAPTBL_CACHE_MAGIC) (\<lambda>ptr.
     bnd (wr8 ptr 6 1) (\<lambda>ptr.
     bnd (wr8 ptr 7 20) (\<lambda>ptr.
     bnd (wr16 ptr 8 sequence_id) (\<lambda>ptr.
     bnd (wr16 ptr 10 0) (\<lambda>ptr.
     bnd (wr16 ptr 12 0) (\<lambda>ptr.
     bnd (wr16 ptr 14 (32 + 4)) (\<lambda>ptr.
     bnd (wr64 ptr 16 U64_MAX) (\<lambda>ptr.
     bnd (wr64 ptr 24 U64_MAX) (\<lambda>ptr.
     bnd (wr32 ptr 32 SSDFS_MAPTBL_CACHE_PEB_STATE_MAGIC) (\<lambda>ptr.
     bnd (mc_put_fragment (vl_maptbl_cache layout) (unat sequence_id) ptr) (\<lambda>mc.
     Inr (layout\<lparr>vl_maptbl_cache := mc\<rparr>)))))))))))))))))"

definition maptbl_cache_mkfs_prepare ::
  "(nat \<Rightarrow> bool) \<Rightarrow> ssdfs_volume_layout \<Rightarrow> ssdfs_volume_layout res" where
  "maptbl_cache_mkfs_prepare alloc_ok layout =
     bnd (maptbl_cache_create_fragments_array alloc_ok layout) (\<lambda>layout.
     let fragments = mc_fragments_count (vl_maptbl_cache layout) in
     bnd (BUG_ON (ucast U16_MAX \<le> fragments)) (\<lambda>_.
     for_res 0 (unat fragments) (\<lambda>i layout. maptbl_cache_prepare_fragment layout (of_nat i)) layout))"

section \<open>Areas of a fragment\<close>

text \<open>
  \<^verbatim>\<open>__ssdfs_maptbl_cache_area_size\<close>: the error code and the two sizes it stores through its
  pointer arguments, which the callers also use when the code is \<^verbatim>\<open>-ENODATA\<close>.
\<close>

definition maptbl_cache_area_size :: "buf \<Rightarrow> (errno option \<times> u64 \<times> u64) res" where
  "maptbl_cache_area_size hdr =
     bnd (rd16 hdr 14) (\<lambda>bytes_count.
     bnd (rd16 hdr 12) (\<lambda>items_count.
     let threshold_size = (32 + 4 :: u64) in
     if (ucast bytes_count :: u64) < threshold_size then Inr (Some ERANGE, 0, 4)
     else if (ucast bytes_count :: u64) = threshold_size then Inr (Some ENODATA, 0, 4)
     else let capacity = (ucast bytes_count - threshold_size) div (16 + 4) in
       if capacity < (ucast items_count :: u64) then Inr (Some ERANGE, 0, 4)
       else Inr (None, capacity * 16, 4 + capacity * 4)))"

definition ssdfs_peb_state_area_size :: "buf \<Rightarrow> int res" where
  "ssdfs_peb_state_area_size hdr =
     bnd (maptbl_cache_area_size hdr) (\<lambda>(err, leb2peb_area_size, peb_state_area_size).
     case err of
       None \<Rightarrow> Inr (sint (ucast peb_state_area_size :: 32 word))
     | Some e \<Rightarrow> if e = ENODATA then Inr (sint (ucast peb_state_area_size :: 32 word)) else Inl (Errno e))"

definition LEB2PEB_PAIR_AREA :: nat where
  "LEB2PEB_PAIR_AREA = MAPTBL_CACHE_HDR_SIZE"

definition PEB_STATE_AREA :: "buf \<Rightarrow> nat res" where
  "PEB_STATE_AREA fragment =
     bnd (maptbl_cache_area_size fragment) (\<lambda>(err, leb2peb_area_size, peb_state_area_size).
     bnd (case err of None \<Rightarrow> Inr () | Some e \<Rightarrow> fail_if (e \<noteq> ENODATA) e) (\<lambda>_.
     let start = MAPTBL_CACHE_HDR_SIZE + unat leb2peb_area_size in
     bnd (rd32 fragment start) (\<lambda>magic.
     bnd (fail_if (magic \<noteq> SSDFS_MAPTBL_CACHE_PEB_STATE_MAGIC) ERANGE) (\<lambda>_.
     Inr start))))"

definition FIRST_PEB_STATE :: "buf \<Rightarrow> nat res" where
  "FIRST_PEB_STATE fragment = bnd (PEB_STATE_AREA fragment) (\<lambda>start. Inr (start + PEB_STATE_SIZE))"

section \<open>Insertion of a pair\<close>

text \<open>The loop \<^verbatim>\<open>for (i = items_count - 1; i >= 0; i--)\<close> with its result \<^verbatim>\<open>item_index = i + 1\<close>.\<close>

fun find_item_index :: "buf \<Rightarrow> u64 \<Rightarrow> nat \<Rightarrow> nat res" where
  "find_item_index fragment leb_id 0 = Inr 0"
| "find_item_index fragment leb_id (Suc i) =
     bnd (rd64 fragment (LEB2PEB_PAIR_AREA + LEB2PEB_PAIR_SIZE * i)) (\<lambda>cur_leb_id.
     bnd (BUG_ON (cur_leb_id = U64_MAX)) (\<lambda>_.
     if cur_leb_id \<le> leb_id then Inr (Suc i) else find_item_index fragment leb_id i))"

text \<open>
  The room for the new pair: a full fragment gives up its last pair and state, which the
  caller moves to the next fragment; otherwise the magic and the states move up by one pair. The result
  is the fragment, the offset of the first state, and what was given up.
\<close>

definition make_room ::
  "u32 \<Rightarrow> buf \<Rightarrow> u16 \<Rightarrow> (buf \<times> nat \<times> (buf \<times> buf) option) res" where
  "make_room page_size fragment items_count =
     (let items_per_fragment = (ucast (SSDFS_LEB2PEB_PAIR_PER_FRAGMENT page_size) :: u16) in
     bnd (FIRST_PEB_STATE fragment) (\<lambda>peb_states.
     if items_count = items_per_fragment then
       (if items_count = 0 then Inl Oob else
       bnd (rd fragment (LEB2PEB_PAIR_AREA + LEB2PEB_PAIR_SIZE * (unat items_count - 1)) LEB2PEB_PAIR_SIZE) (\<lambda>moving_pair.
       bnd (rd fragment (peb_states + PEB_STATE_SIZE * (unat items_count - 1)) PEB_STATE_SIZE) (\<lambda>moving_state.
       Inr (fragment, peb_states, Some (moving_pair, moving_state)))))
     else
       bnd (PEB_STATE_AREA fragment) (\<lambda>area.
       bnd (ssdfs_peb_state_area_size fragment) (\<lambda>area_size.
       if area_size < 0 then Inl (Errno ERANGE)
       else if 0 < area_size then
         bnd (memmove fragment (area + LEB2PEB_PAIR_SIZE) area (nat area_size)) (\<lambda>fragment.
         Inr (fragment, area + PEB_STATE_SIZE + LEB2PEB_PAIR_SIZE, None))
       else Inr (fragment, peb_states, None)))))"

text \<open>The place for the new item, with the items behind it moved up by one.\<close>

definition shift_items :: "u32 \<Rightarrow> buf \<Rightarrow> nat \<Rightarrow> u16 \<Rightarrow> u64 \<Rightarrow> (buf \<times> nat) res" where
  "shift_items page_size fragment peb_states items_count leb_id =
     (let items_per_fragment = (ucast (SSDFS_LEB2PEB_PAIR_PER_FRAGMENT page_size) :: u16) in
     if items_count = 0 then Inr (fragment, 0)
     else
       bnd (find_item_index fragment leb_id (unat items_count)) (\<lambda>item_index.
       if item_index < unat items_count then
         let moving_items = (if items_count = items_per_fragment then unat items_count - 1 - item_index
                             else unat items_count - item_index) in
         bnd (memmove fragment (LEB2PEB_PAIR_AREA + LEB2PEB_PAIR_SIZE * (item_index + 1))
                (LEB2PEB_PAIR_AREA + LEB2PEB_PAIR_SIZE * item_index) (LEB2PEB_PAIR_SIZE * moving_items)) (\<lambda>fragment.
         bnd (memmove fragment (peb_states + PEB_STATE_SIZE * (item_index + 1))
                (peb_states + PEB_STATE_SIZE * item_index) (PEB_STATE_SIZE * moving_items)) (\<lambda>fragment.
         Inr (fragment, item_index)))
       else Inr (fragment, item_index)))"

text \<open>
  \<^verbatim>\<open>add_leb2peb_pair\<close>: the result holds the fragment, the new \<^verbatim>\<open>maptbl_cache.bytes_count\<close> and,
  when the code returns \<^verbatim>\<open>-EAGAIN\<close>, the moved pair and state.
\<close>

definition add_leb2peb_pair ::
  "u32 \<Rightarrow> u32 \<Rightarrow> buf \<Rightarrow> buf \<Rightarrow> buf \<Rightarrow> (buf \<times> u32 \<times> (buf \<times> buf) option) res" where
  "add_leb2peb_pair page_size total_bytes fragment new_pair new_state =
     (let items_per_fragment = (ucast (SSDFS_LEB2PEB_PAIR_PER_FRAGMENT page_size) :: u16) in
     bnd (rd16 fragment 12) (\<lambda>items_count.
     bnd (BUG_ON (items_per_fragment < items_count)) (\<lambda>_.
     bnd (make_room page_size fragment items_count) (\<lambda>(fragment, peb_states, moving).
     bnd (rd64 new_pair 0) (\<lambda>leb_id.
     bnd (shift_items page_size fragment peb_states items_count leb_id) (\<lambda>(fragment, item_index).
     bnd (wr fragment (LEB2PEB_PAIR_AREA + LEB2PEB_PAIR_SIZE * item_index) new_pair) (\<lambda>fragment.
     bnd (wr fragment (peb_states + PEB_STATE_SIZE * item_index) new_state) (\<lambda>fragment.
     bnd (rd fragment LEB2PEB_PAIR_AREA 8) (\<lambda>start_leb.
     bnd (wr fragment 16 start_leb) (\<lambda>fragment.
     bnd (rd fragment (LEB2PEB_PAIR_AREA + LEB2PEB_PAIR_SIZE * unat items_count) 8) (\<lambda>end_leb.
     bnd (wr fragment 24 end_leb) (\<lambda>fragment.
     let total_bytes = (if items_count = 0 then total_bytes + (32 + 4) else total_bytes);
         items_count = items_count + 1 in
     bnd (wr16 fragment 12 items_count) (\<lambda>fragment.
     bnd (wr16 fragment 14 ((32 + 4) + items_count * (16 + 4))) (\<lambda>fragment.
     Inr (fragment, total_bytes + (16 + 4), moving)))))))))))))))"

section \<open>Insertion into the cache\<close>

text \<open>The loop of \<^verbatim>\<open>find_fragment_index\<close>; \<open>n\<close> is the number of fragments not looked at yet.\<close>

fun find_fragment_loop :: "u32 \<Rightarrow> ssdfs_maptbl_cache_layout \<Rightarrow> u64 \<Rightarrow> nat \<Rightarrow> nat \<Rightarrow> nat res" where
  "find_fragment_loop page_size mc leb_id i 0 = Inr i"
| "find_fragment_loop page_size mc leb_id i (Suc n) =
     bnd (mc_fragment mc i) (\<lambda>ptr.
     bnd (rd16 ptr 4) (\<lambda>key.
     bnd (BUG_ON (key \<noteq> SSDFS_MAPTBL_CACHE_MAGIC)) (\<lambda>_.
     bnd (rd64 ptr 16) (\<lambda>start_leb.
     bnd (rd64 ptr 24) (\<lambda>end_leb.
     bnd (rd16 ptr 12) (\<lambda>items_count.
     if start_leb = U64_MAX then Inr i
     else if start_leb \<le> leb_id \<and> leb_id \<le> end_leb then Inr i
     else if end_leb < leb_id \<and>
             items_count < (ucast (SSDFS_LEB2PEB_PAIR_PER_FRAGMENT page_size) :: u16) then Inr i
     else find_fragment_loop page_size mc leb_id (Suc i) n))))))"

definition find_fragment_index :: "ssdfs_volume_layout \<Rightarrow> u64 \<Rightarrow> nat res" where
  "find_fragment_index layout leb_id =
     bnd (BUG_ON (leb_id = U64_MAX)) (\<lambda>_.
     find_fragment_loop (vl_page_size layout) (vl_maptbl_cache layout) leb_id 0
       (unat (mc_fragments_count (vl_maptbl_cache layout))))"

text \<open>
  The \<^verbatim>\<open>do\<close> loop of \<^verbatim>\<open>cache_leb2peb_pair\<close>: \<open>n\<close> fragments are left from \<open>index\<close> on; without one, the
  \<^verbatim>\<open>BUG_ON\<close> at the start of the body stops it.
\<close>

fun cache_pair_loop ::
  "u32 \<Rightarrow> ssdfs_maptbl_cache_layout \<Rightarrow> nat \<Rightarrow> nat \<Rightarrow> buf \<Rightarrow> buf \<Rightarrow> ssdfs_maptbl_cache_layout res" where
  "cache_pair_loop page_size mc index 0 moving_pair moving_state = Inl Bug"
| "cache_pair_loop page_size mc index (Suc n) moving_pair moving_state =
     bnd (mc_fragment mc index) (\<lambda>ptr.
     bnd (add_leb2peb_pair page_size (mc_bytes_count mc) ptr moving_pair moving_state) (\<lambda>(ptr, total_bytes, moving).
     bnd (mc_put_fragment (mc\<lparr>mc_bytes_count := total_bytes\<rparr>) index ptr) (\<lambda>mc.
     case moving of
       Some (moving_pair, moving_state) \<Rightarrow> cache_pair_loop page_size mc (Suc index) n moving_pair moving_state
     | None \<Rightarrow> Inr mc)))"

definition leb2peb_pair :: "u64 \<Rightarrow> u64 \<Rightarrow> buf" where
  "leb2peb_pair leb_id peb_id = le_enc 8 leb_id @ le_enc 8 peb_id"

definition using_peb_state :: buf where
  "using_peb_state = [SSDFS_PEB_STATE_CONSISTENT, SSDFS_MAPTBL_USING_PEB_STATE, 0, U8_MAX]"

definition cache_leb2peb_pair ::
  "ssdfs_volume_layout \<Rightarrow> u64 \<Rightarrow> u64 \<Rightarrow> ssdfs_volume_layout res" where
  "cache_leb2peb_pair layout leb_id peb_id =
     bnd (BUG_ON (leb_id = U64_MAX)) (\<lambda>_.
     bnd (BUG_ON (peb_id = U64_MAX)) (\<lambda>_.
     bnd (find_fragment_index layout leb_id) (\<lambda>index.
     bnd (cache_pair_loop (vl_page_size layout) (vl_maptbl_cache layout) index
           (unat (mc_fragments_count (vl_maptbl_cache layout)) - index)
           (leb2peb_pair leb_id peb_id) using_peb_state) (\<lambda>mc.
     Inr (layout\<lparr>vl_maptbl_cache := mc\<rparr>)))))"

section \<open>A fragment as a list of entries\<close>

text \<open>An entry is a LEB, its PEB, and the four bytes of the PEB state as a little-endian number.\<close>

type_synonym cache_entry = "u64 \<times> u64 \<times> u32"

definition pairs_image :: "cache_entry list \<Rightarrow> buf" where
  "pairs_image es = concat (map (\<lambda>(leb, peb, st). leb2peb_pair leb peb) es)"

definition states_image :: "cache_entry list \<Rightarrow> buf" where
  "states_image es = concat (map (\<lambda>(leb, peb, st). le_enc 4 st) es)"

definition header_image :: "u16 \<Rightarrow> u16 \<Rightarrow> u16 \<Rightarrow> u64 \<Rightarrow> u64 \<Rightarrow> buf" where
  "header_image seq items bytes start_leb end_leb =
     (le_enc 4 SSDFS_SUPER_MAGIC @ le_enc 2 SSDFS_MAPTBL_CACHE_MAGIC @ [1, 20] @ le_enc 2 seq @ le_enc 2 (0::u16)) @
     le_enc 2 items @ le_enc 2 bytes @ le_enc 8 start_leb @ le_enc 8 end_leb"

definition start_leb_of :: "cache_entry list \<Rightarrow> u64" where
  "start_leb_of es = (case es of [] \<Rightarrow> U64_MAX | e # _ \<Rightarrow> fst e)"

definition end_leb_of :: "cache_entry list \<Rightarrow> u64" where
  "end_leb_of es = (if es = [] then U64_MAX else fst (last es))"

definition fragment_items :: "cache_entry list \<Rightarrow> u16" where
  "fragment_items es = of_nat (length es)"

definition fragment_bytes :: "cache_entry list \<Rightarrow> u16" where
  "fragment_bytes es = of_nat (36 + 20 * length es)"

text \<open>The whole page of a fragment with the entries \<open>es\<close>; what lies behind them is zero.\<close>

definition fragment_image :: "nat \<Rightarrow> u16 \<Rightarrow> cache_entry list \<Rightarrow> buf" where
  "fragment_image page_size seq es =
     header_image seq (fragment_items es) (fragment_bytes es) (start_leb_of es) (end_leb_of es) @
     pairs_image es @ le_enc 4 SSDFS_MAPTBL_CACHE_PEB_STATE_MAGIC @ states_image es @
     replicate (page_size - 36 - 20 * length es) 0"

text \<open>Insertion behind the entries with the same or a smaller LEB.\<close>

definition cache_insert :: "cache_entry \<Rightarrow> cache_entry list \<Rightarrow> cache_entry list" where
  "cache_insert e es = filter (\<lambda>x. fst x \<le> fst e) es @ e # filter (\<lambda>x. \<not> fst x \<le> fst e) es"

definition cache_sorted :: "cache_entry list \<Rightarrow> bool" where
  "cache_sorted es \<longleftrightarrow> sorted (map fst es) \<and> (\<forall>e \<in> set es. fst e \<noteq> U64_MAX)"

lemma length_images [simp]:
  "length (leb2peb_pair l p) = 16" "length (pairs_image es) = 16 * length es"
  "length (states_image es) = 4 * length es" "length (header_image seq i b s e) = 32"
proof -
  show [simp]: "length (leb2peb_pair l p) = 16" for l p by (simp add: leb2peb_pair_def)
  show "length (pairs_image es) = 16 * length es" by (induction es) (auto simp: pairs_image_def)
  show "length (states_image es) = 4 * length es" by (induction es) (auto simp: states_image_def)
  show "length (header_image seq i b s e) = 32" by (simp add: header_image_def)
qed

lemma images_append:
  "pairs_image (xs @ ys) = pairs_image xs @ pairs_image ys"
  "states_image (xs @ ys) = states_image xs @ states_image ys"
  "pairs_image (e # ys) = leb2peb_pair (fst e) (fst (snd e)) @ pairs_image ys"
  "states_image (e # ys) = le_enc 4 (snd (snd e)) @ states_image ys"
  "pairs_image [] = []" "states_image [] = []"
  by (simp_all add: pairs_image_def states_image_def case_prod_beta)

lemma length_fragment_image:
  "36 + 20 * length es \<le> page_size \<Longrightarrow> length (fragment_image page_size seq es) = page_size"
  by (simp add: fragment_image_def)

lemma length_cache_insert [simp]: "length (cache_insert e es) = Suc (length es)"
  using sum_length_filter_compl[of "\<lambda>x. fst x \<le> fst e" es] by (simp add: cache_insert_def)

lemma cache_insert_not_Nil: "cache_insert e es \<noteq> []"
  by (simp add: cache_insert_def)

lemma sorted_filter_split:
  "sorted (map fst es) \<Longrightarrow> filter (\<lambda>x. fst x \<le> l) es @ filter (\<lambda>x. \<not> fst x \<le> (l::u64)) es = es"
proof (induction es)
  case (Cons x es)
  show ?case
  proof (cases "fst x \<le> l")
    case False
    have "\<forall>y \<in> set es. \<not> fst y \<le> l" using Cons.prems False by (fastforce dest: order_trans)
    then have "filter (\<lambda>x. fst x \<le> l) es = []" "filter (\<lambda>x. \<not> fst x \<le> l) es = es"
      by (simp_all add: filter_empty_conv)
    then show ?thesis using False by simp
  qed (use Cons in simp)
qed simp

lemma sorted_cache_insert: "cache_sorted es \<Longrightarrow> fst e \<noteq> U64_MAX \<Longrightarrow> cache_sorted (cache_insert e es)"
  by (auto simp: cache_sorted_def cache_insert_def sorted_append sorted_wrt_filter sorted_map)

section \<open>Reading a fragment\<close>

lemma header_fields:
  "rd16 (header_image seq i b s e @ R) 4 = Inr SSDFS_MAPTBL_CACHE_MAGIC"
  "rd16 (header_image seq i b s e @ R) 12 = Inr i" "rd16 (header_image seq i b s e @ R) 14 = Inr b"
  "rd64 (header_image seq i b s e @ R) 16 = Inr s" "rd64 (header_image seq i b s e @ R) 24 = Inr e"
  by (simp_all add: field_rd field_wr header_image_def rd_def bytes_at_def le_dec_enc)

lemma header_writes:
  "wr (header_image seq i b s e @ R) 16 (le_enc 8 s') = Inr (header_image seq i b s' e @ R)"
  "wr (header_image seq i b s e @ R) 24 (le_enc 8 e') = Inr (header_image seq i b s e' @ R)"
  "wr16 (header_image seq i b s e @ R) 12 i' = Inr (header_image seq i' b s e @ R)"
  "wr16 (header_image seq i b s e @ R) 14 b' = Inr (header_image seq i b' s e @ R)"
  by (simp_all add: field_rd field_wr header_image_def wr_def overwrite_def)

text \<open>The areas of a fragment; fewer than 3000 entries fit into a page of 32 KiB.\<close>

lemma unat_fragment:
  assumes "length es < 3000"
  shows "unat (fragment_items es) = length es" and "unat (fragment_bytes es) = 36 + 20 * length es"
  using assms unfolding fragment_items_def fragment_bytes_def unat_of_nat by simp_all

lemma fragment_capacity:
  assumes "length es < 3000"
  shows "(ucast (fragment_bytes es) - (36::u64)) div 20 = of_nat (length es)"
proof (rule word_unat_eqI)
  have u: "unat (ucast (fragment_bytes es) :: u64) = 36 + 20 * length es"
    by (simp add: unat_ucast_up unat_fragment assms)
  have "(36::u64) \<le> ucast (fragment_bytes es)" by (simp add: word_le_nat_alt u)
  then show "unat ((ucast (fragment_bytes es) - (36::u64)) div 20) = unat (of_nat (length es) :: u64)"
    using assms by (simp add: unat_div unat_sub u unat_of_nat)
qed

lemma area_size_image:
  assumes "length es < 3000"
  shows "\<exists>err. maptbl_cache_area_size (fragment_image ps seq es) =
      Inr (err, of_nat (16 * length es), of_nat (4 + 4 * length es)) \<and> (err = None \<or> err = Some ENODATA)"
proof -
  let ?b = "ucast (fragment_bytes es) :: u64"
  have u: "unat ?b = 36 + 20 * length es" by (simp add: unat_ucast_up unat_fragment assms)
  have lt: "\<not> ?b < 36" by (simp add: word_less_nat_alt u)
  have "?b = 36 \<longleftrightarrow> unat ?b = unat (36::u64)" by (metis word_unat_eqI)
  then have eq: "?b = 36 \<longleftrightarrow> es = []" by (simp add: u)
  have fit: "\<not> (of_nat (length es) :: u64) < ucast (fragment_items es)"
    using assms by (simp add: word_less_nat_alt unat_ucast_up unat_fragment unat_of_nat)
  show ?thesis
    using lt eq fit fragment_capacity[OF assms]
    by (simp add: maptbl_cache_area_size_def fragment_image_def header_fields Let_def algebra_simps)
qed

lemma state_area_image:
  assumes "length es < 3000"
  shows "PEB_STATE_AREA (fragment_image ps seq es) = Inr (32 + 16 * length es)"
    and "FIRST_PEB_STATE (fragment_image ps seq es) = Inr (36 + 16 * length es)"
    and "ssdfs_peb_state_area_size (fragment_image ps seq es) = Inr (int (4 + 4 * length es))"
proof -
  obtain err where area: "maptbl_cache_area_size (fragment_image ps seq es) =
      Inr (err, of_nat (16 * length es), of_nat (4 + 4 * length es))" and err: "err = None \<or> err = Some ENODATA"
    using area_size_image[OF assms] by blast
  have u: "unat (of_nat (16 * length es) :: u64) = 16 * length es" using assms by (simp only: unat_of_nat) simp
  have magic: "rd32 (fragment_image ps seq es) (32 + 16 * length es) = Inr SSDFS_MAPTBL_CACHE_PEB_STATE_MAGIC"
    unfolding fragment_image_def field_rd append_assoc[symmetric, of _ "pairs_image es"]
    by (subst rd_mid) (simp_all add: le_dec_enc)
  show a: "PEB_STATE_AREA (fragment_image ps seq es) = Inr (32 + 16 * length es)"
    unfolding PEB_STATE_AREA_def area using err by (auto simp add: u magic simp del: of_nat_mult of_nat_add)
  show "FIRST_PEB_STATE (fragment_image ps seq es) = Inr (36 + 16 * length es)"
    by (simp add: FIRST_PEB_STATE_def a)
  have "unat (of_nat (4 + 4 * length es) :: u64) = 4 + 4 * length es" using assms by (simp only: unat_of_nat) simp
  then have "unat (ucast (of_nat (4 + 4 * length es) :: u64) :: u32) = 4 + 4 * length es"
    using assms by (subst unat_ucast_small) simp_all
  then have "sint (ucast (of_nat (4 + 4 * length es) :: u64) :: u32) = int (4 + 4 * length es)"
    unfolding sint_uint uint_nat by (subst signed_take_bit_int_eq_self) (use assms in simp_all)
  then show "ssdfs_peb_state_area_size (fragment_image ps seq es) = Inr (int (4 + 4 * length es))"
    unfolding ssdfs_peb_state_area_size_def area using err by (auto simp del: of_nat_mult of_nat_add)
qed

section \<open>Sorted insertion\<close>

lemma rd_leb:
  assumes "i < length es" and "length H = 32"
  shows "rd64 (H @ pairs_image es @ R) (32 + 16 * i) = Inr (fst (es ! i))"
    and "rd (H @ pairs_image es @ R) (32 + 16 * i) 8 = Inr (le_enc 8 (fst (es ! i)))"
proof -
  have "es = take i es @ es ! i # drop (Suc i) es" using assms(1) by (simp add: id_take_nth_drop)
  then have eq: "H @ pairs_image es @ R = (H @ pairs_image (take i es)) @ le_enc 8 (fst (es ! i)) @
      (le_enc 8 (fst (snd (es ! i))) @ pairs_image (drop (Suc i) es) @ R)"
    by (metis append.assoc images_append(1,3) leb2peb_pair_def)
  show r: "rd (H @ pairs_image es @ R) (32 + 16 * i) 8 = Inr (le_enc 8 (fst (es ! i)))"
    unfolding eq by (rule rd_mid) (use assms in simp_all)
  show "rd64 (H @ pairs_image es @ R) (32 + 16 * i) = Inr (fst (es ! i))"
    by (simp add: field_rd field_wr r le_dec_enc)
qed

lemma find_item_image:
  assumes "cache_sorted es" and "k \<le> length es" and "length H = 32"
  shows "find_item_index (H @ pairs_image es @ R) leb k = Inr (length (filter (\<lambda>x. fst x \<le> leb) (take k es)))"
  using assms(2)
proof (induction k)
  case (Suc k)
  then have k: "k < length es" by simp
  have rd: "rd64 (H @ pairs_image es @ R) (32 + 16 * k) = Inr (fst (es ! k))" by (rule rd_leb(1)[OF k assms(3)])
  have nm: "fst (es ! k) \<noteq> U64_MAX" using assms(1) k by (simp add: cache_sorted_def)
  have all: "\<forall>x \<in> set (take k es). fst x \<le> leb" if "fst (es ! k) \<le> leb"
  proof
    fix x assume "x \<in> set (take k es)"
    then obtain j where "j < k" "x = es ! j" using k by (auto simp: in_set_conv_nth)
    then have "fst x \<le> fst (es ! k)"
      using assms(1) k sorted_nth_mono[of "map fst es" j k] by (simp add: cache_sorted_def)
    with that show "fst x \<le> leb" by simp
  qed
  have "take (Suc k) es = take k es @ [es ! k]" using k by (simp add: take_Suc_conv_app_nth)
  then show ?case using Suc k rd nm all by (auto simp: LEB2PEB_PAIR_AREA_def filter_id_conv)
qed simp

lemma make_room_image:
  assumes "length es < 3000" and "36 + 20 * Suc (length es) \<le> ps"
    and "fragment_items es \<noteq> ucast (SSDFS_LEB2PEB_PAIR_PER_FRAGMENT page_size)"
  shows "make_room page_size (fragment_image ps seq es) (fragment_items es) =
    Inr (header_image seq (fragment_items es) (fragment_bytes es) (start_leb_of es) (end_leb_of es) @ pairs_image es @
      take 16 (le_enc 4 SSDFS_MAPTBL_CACHE_PEB_STATE_MAGIC @ states_image es @ replicate (ps - 36 - 20 * length es) 0) @
      le_enc 4 SSDFS_MAPTBL_CACHE_PEB_STATE_MAGIC @ states_image es @ replicate (ps - 52 - 20 * length es) 0,
      52 + 16 * length es, None)"
proof -
  let ?H = "header_image seq (fragment_items es) (fragment_bytes es) (start_leb_of es) (end_leb_of es)"
  let ?M = "le_enc 4 SSDFS_MAPTBL_CACHE_PEB_STATE_MAGIC"
  let ?Z = "replicate (ps - 36 - 20 * length es) (0::u8)"
  have "fragment_image ps seq es = (?H @ pairs_image es) @ (?M @ states_image es) @ ?Z"
    by (simp add: fragment_image_def)
  then have "memmove (fragment_image ps seq es) (32 + 16 * length es + 16) (32 + 16 * length es) (nat (int (4 + 4 * length es))) =
      Inr ((?H @ pairs_image es) @ take 16 ((?M @ states_image es) @ ?Z) @ (?M @ states_image es) @ drop 16 ?Z)"
    by (simp only:, intro memmove_up) (use assms(2) in simp_all)
  then show ?thesis using assms(3)
    by (simp add: make_room_def state_area_image[OF assms(1)] Let_def add.commute)
qed

lemma shift_items_image:
  assumes "cache_sorted (xs @ ys)" and "\<forall>x \<in> set xs. fst x \<le> leb" and "\<forall>y \<in> set ys. \<not> fst y \<le> leb"
    and "length H = 32" and "length J = 16" and "length M = 4" and "4 \<le> length Z"
    and items: "unat items = length (xs @ ys)"
    and "items \<noteq> ucast (SSDFS_LEB2PEB_PAIR_PER_FRAGMENT page_size)"
  shows "\<exists>J' j'. length J' = 16 \<and> length j' = 4 \<and>
    shift_items page_size (H @ pairs_image (xs @ ys) @ J @ M @ states_image (xs @ ys) @ Z) (52 + 16 * length (xs @ ys)) items leb =
    Inr (H @ pairs_image xs @ J' @ pairs_image ys @ M @ states_image xs @ j' @ states_image ys @ drop 4 Z, length xs)"
proof -
  let ?frag = "H @ pairs_image (xs @ ys) @ J @ M @ states_image (xs @ ys) @ Z"
  have frag: "?frag = (H @ pairs_image xs) @ pairs_image ys @ (J @ M @ states_image (xs @ ys) @ Z)"
    by (simp add: images_append)
  have find: "find_item_index ?frag leb (length (xs @ ys)) = Inr (length xs)"
    using find_item_image[OF assms(1) order_refl assms(4)] assms(2,3) by (simp add: filter_id_conv)
  show ?thesis
  proof (cases "ys = []")
    case True
    have "?frag = H @ pairs_image xs @ J @ M @ states_image xs @ take 4 Z @ drop 4 Z"
      using True by simp
    then show ?thesis
      using find items assms(5,7) True
      by (intro exI[of _ J] exI[of _ "take 4 Z"]) (auto simp: shift_items_def Let_def images_append unat_eq_0)
  next
    case False
    let ?J = "take 16 (pairs_image ys @ J @ M @ states_image (xs @ ys) @ Z)"
    let ?j = "take 4 (states_image ys @ Z)"
    have m1: "memmove ?frag (32 + 16 * (length xs + 1)) (32 + 16 * length xs) (16 * length ys) =
        Inr ((H @ pairs_image xs @ ?J @ pairs_image ys @ M @ states_image xs) @ states_image ys @ Z)"
      unfolding frag by (subst memmove_up[where g = 16]) (use assms(4-7) in \<open>simp_all add: images_append\<close>)
    have m2: "memmove ((H @ pairs_image xs @ ?J @ pairs_image ys @ M @ states_image xs) @ states_image ys @ Z)
        (52 + 16 * length (xs @ ys) + 4 * (length xs + 1)) (52 + 16 * length (xs @ ys) + 4 * length xs) (4 * length ys) =
        Inr ((H @ pairs_image xs @ ?J @ pairs_image ys @ M @ states_image xs) @ ?j @ states_image ys @ drop 4 Z)"
      by (intro memmove_up) (use assms(4-7) in simp_all)
    have ne: "items \<noteq> 0" using False items by auto
    have lt: "length xs < unat items" using False items by simp
    have "shift_items page_size ?frag (52 + 16 * length (xs @ ys)) items leb =
        Inr ((H @ pairs_image xs @ ?J @ pairs_image ys @ M @ states_image xs) @ ?j @ states_image ys @ drop 4 Z, length xs)"
      using ne lt assms(9) m1 m2 find unfolding shift_items_def items Let_def LEB2PEB_PAIR_AREA_def
      by (simp del: append_assoc)
    moreover have "length ?J = 16" "length ?j = 4" using assms(5,7) by simp_all
    ultimately show ?thesis by (intro exI[of _ ?J] exI[of _ ?j]) (simp only: append_assoc simp_thms)
  qed
qed

text \<open>
  Insertion into a fragment that has room is sorted insertion into its list of entries, up to
  the last byte of the page.
\<close>

lemma add_pair_image:
  assumes sorted: "cache_sorted es" and new: "leb \<noteq> U64_MAX"
    and small: "Suc (length es) < 3000" and room: "36 + 20 * Suc (length es) \<le> ps"
    and free: "fragment_items es < ucast (SSDFS_LEB2PEB_PAIR_PER_FRAGMENT page_size)"
  shows "add_leb2peb_pair page_size tb (fragment_image ps seq es) (leb2peb_pair leb peb) (le_enc 4 st) =
    Inr (fragment_image ps seq (cache_insert (leb, peb, st) es),
         (if es = [] then tb + 36 else tb) + 20, None)"
proof -
  define xs where "xs = filter (\<lambda>x. fst x \<le> leb) es"
  define ys where "ys = filter (\<lambda>x. \<not> fst x \<le> leb) es"
  let ?e = "(leb, peb, st)"
  let ?es = "cache_insert ?e es"
  let ?n = "length es"
  have es: "es = xs @ ys" using sorted sorted_filter_split[of es leb] by (simp add: xs_def ys_def cache_sorted_def)
  have len: "?n = length xs + length ys" using es by (metis length_append)
  have es': "?es = xs @ ?e # ys" by (simp add: cache_insert_def xs_def ys_def)
  define Z where "Z = replicate (ps - 52 - 20 * ?n) (0::u8)"
  define H where "H = header_image seq (fragment_items es) (fragment_bytes es) (start_leb_of es) (end_leb_of es)"
  define M where "M = le_enc 4 SSDFS_MAPTBL_CACHE_PEB_STATE_MAGIC"
  define J where "J = take 16 (M @ states_image es @ replicate (ps - 36 - 20 * ?n) 0)"
  have lens [simp]: "length H = 32" "length M = 4" "length J = 16" "4 \<le> length Z"
    using room by (simp_all add: H_def M_def J_def Z_def)
  have items: "unat (fragment_items es) = ?n" using small by (simp add: unat_fragment)
  have items0: "fragment_items es = 0 \<longleftrightarrow> es = []" using items by (metis length_0_conv unat_eq_zero)
  have hdr: "rd16 (fragment_image ps seq es) 12 = Inr (fragment_items es)"
    by (simp add: fragment_image_def header_fields)
  have room_eq: "make_room page_size (fragment_image ps seq es) (fragment_items es) =
      Inr (H @ pairs_image es @ J @ M @ states_image es @ Z, 52 + 16 * ?n, None)"
    unfolding H_def J_def M_def Z_def by (rule make_room_image) (use small room free in auto)
  have sx: "\<forall>x \<in> set xs. fst x \<le> leb" "\<forall>y \<in> set ys. \<not> fst y \<le> leb" by (simp_all add: xs_def ys_def)
  have ne: "fragment_items es \<noteq> ucast (SSDFS_LEB2PEB_PAIR_PER_FRAGMENT page_size)" using free by simp
  obtain J' j' where j: "length J' = 16" "length j' = 4" and
    shift: "shift_items page_size (H @ pairs_image es @ J @ M @ states_image es @ Z) (52 + 16 * ?n) (fragment_items es) leb =
      Inr (H @ pairs_image xs @ J' @ pairs_image ys @ M @ states_image xs @ j' @ states_image ys @ drop 4 Z, length xs)"
    using shift_items_image[of xs ys leb H J M Z "fragment_items es" page_size, folded es,
        OF sorted sx lens(1,3,2,4) items ne] by blast
  have w1: "wr (H @ pairs_image xs @ J' @ pairs_image ys @ M @ states_image xs @ j' @ states_image ys @ drop 4 Z)
      (32 + 16 * length xs) (leb2peb_pair leb peb) =
      Inr (H @ pairs_image xs @ leb2peb_pair leb peb @ pairs_image ys @ M @ states_image xs @ j' @ states_image ys @ drop 4 Z)"
    unfolding append_assoc[symmetric, of H] by (rule wr_mid) (simp_all add: j)
  have frag': "H @ pairs_image xs @ leb2peb_pair leb peb @ pairs_image ys @ M @ states_image xs @ le_enc 4 st @ states_image ys @ drop 4 Z
      = H @ pairs_image ?es @ M @ states_image ?es @ replicate (ps - 36 - 20 * length ?es) 0"
    by (simp add: es' images_append Z_def len)
  have w2: "wr (H @ pairs_image xs @ leb2peb_pair leb peb @ pairs_image ys @ M @ states_image xs @ j' @ states_image ys @ drop 4 Z)
      (52 + 16 * ?n + 4 * length xs) (le_enc 4 st) =
      Inr (H @ pairs_image ?es @ M @ states_image ?es @ replicate (ps - 36 - 20 * length ?es) 0)"
    unfolding frag'[symmetric]
    using wr_mid[of "52 + 16 * ?n + 4 * length xs" "H @ pairs_image xs @ leb2peb_pair leb peb @ pairs_image ys @ M @ states_image xs"
        "le_enc 4 st" j' "states_image ys @ drop 4 Z"] by (simp add: j len)
  have rd_new: "rd64 (leb2peb_pair leb peb) 0 = Inr leb"
    by (simp add: leb2peb_pair_def field_rd field_wr rd_def bytes_at_def le_dec_enc)
  have first: "fst (?es ! 0) = start_leb_of ?es" and lastl: "fst (?es ! ?n) = end_leb_of ?es"
    using length_cache_insert[of ?e es] cache_insert_not_Nil[of ?e es]
    by (auto simp: start_leb_of_def end_leb_of_def last_conv_nth hd_conv_nth split: list.splits)
  have cnt: "fragment_items es + 1 = fragment_items ?es" "fragment_items ?es * 20 + 36 = fragment_bytes ?es"
    by (simp_all add: fragment_items_def fragment_bytes_def algebra_simps)
  let ?T = "M @ states_image ?es @ replicate (ps - 36 - 20 * length ?es) 0"
  have r0: "rd (header_image seq i b s e @ pairs_image ?es @ ?T) 32 8 = Inr (le_enc 8 (start_leb_of ?es))"
    and rn: "rd (header_image seq i b s e @ pairs_image ?es @ ?T) (32 + 16 * ?n) 8 = Inr (le_enc 8 (end_leb_of ?es))"
    for i b s e
    using rd_leb(2)[of 0 ?es "header_image seq i b s e" ?T] rd_leb(2)[of ?n ?es "header_image seq i b s e" ?T]
    by (simp_all add: first lastl)
  have guard: "BUG_ON (ucast (SSDFS_LEB2PEB_PAIR_PER_FRAGMENT page_size) < fragment_items es) = Inr ()"
    using free by simp
  have "add_leb2peb_pair page_size tb (fragment_image ps seq es) (leb2peb_pair leb peb) (le_enc 4 st) =
      Inr (header_image seq (fragment_items ?es) (36 + fragment_items ?es * 20) (start_leb_of ?es) (end_leb_of ?es) @ pairs_image ?es @ ?T,
         (if fragment_items es = 0 then tb + (32 + 4) else tb) + (16 + 4), None)"
    unfolding add_leb2peb_pair_def Let_def hdr bnd_Inr guard room_eq prod.case rd_new shift LEB2PEB_PAIR_AREA_def w1 w2 items
    unfolding H_def r0 rn header_writes bnd_Inr cnt(1) by simp
  then show ?thesis using cnt(2) items0 by (simp add: fragment_image_def M_def add.commute)
qed

section \<open>The cache as a list of fragments\<close>

definition cache_capacity :: "u32 \<Rightarrow> nat" where
  "cache_capacity page_size = (unat page_size - 36) div 20"

definition cache_image :: "nat \<Rightarrow> cache_entry list list \<Rightarrow> buf option list" where
  "cache_image page_size fs = map (\<lambda>i. Some (fragment_image page_size (of_nat i) (fs ! i))) [0..<length fs]"

definition cache_bytes :: "cache_entry list list \<Rightarrow> nat" where
  "cache_bytes fs = (\<Sum>es \<leftarrow> fs. if es = [] then 0 else 36 + 20 * length es)"

text \<open>
  The layout holds the cache \<open>fs\<close>: every page is the image of its list of entries, the lists are
  sorted and fit, and \<^verbatim>\<open>bytes_count\<close> counts the bytes in use.
\<close>

definition cache_repr :: "ssdfs_volume_layout \<Rightarrow> cache_entry list list \<Rightarrow> bool" where
  "cache_repr layout fs \<longleftrightarrow>
     4096 \<le> unat (vl_page_size layout) \<and> unat (vl_page_size layout) \<le> 32768 \<and>
     unat (mc_fragments_count (vl_maptbl_cache layout)) = length fs \<and>
     mc_fragments_array (vl_maptbl_cache layout) = Some (cache_image (unat (vl_page_size layout)) fs) \<and>
     mc_bytes_count (vl_maptbl_cache layout) = of_nat (cache_bytes fs) \<and>
     (\<forall>es \<in> set fs. cache_sorted es \<and> length es \<le> cache_capacity (vl_page_size layout))"

text \<open>The fragment a LEB goes to.\<close>

primrec cache_find :: "nat \<Rightarrow> u64 \<Rightarrow> cache_entry list list \<Rightarrow> nat" where
  "cache_find cap leb [] = 0"
| "cache_find cap leb (es # fs) =
     (if es = [] \<or> fst (hd es) \<le> leb \<and> leb \<le> fst (last es) \<or> fst (last es) < leb \<and> length es < cap then 0
      else Suc (cache_find cap leb fs))"

lemma pair_per_fragment:
  assumes "4096 \<le> unat ps" and "unat ps \<le> 32768"
  shows "unat (SSDFS_LEB2PEB_PAIR_PER_FRAGMENT ps) = cache_capacity ps"
    and "unat (ucast (SSDFS_LEB2PEB_PAIR_PER_FRAGMENT ps) :: u16) = cache_capacity ps"
    and "unat (ucast (SSDFS_LEB2PEB_PAIR_PER_FRAGMENT ps) :: u32) = cache_capacity ps"
    and "cache_capacity ps < 2000" and "203 \<le> cache_capacity ps" and "36 + 20 * cache_capacity ps \<le> unat ps"
proof -
  have u: "unat (ucast ps :: u64) = unat ps" by (simp add: unat_ucast_up)
  then have "(36::u64) \<le> ucast ps" using assms by (simp add: word_le_nat_alt)
  then show c: "unat (SSDFS_LEB2PEB_PAIR_PER_FRAGMENT ps) = cache_capacity ps"
    by (simp add: SSDFS_LEB2PEB_PAIR_PER_FRAGMENT_def cache_capacity_def unat_div unat_sub u diff_diff_eq)
  show lt: "cache_capacity ps < 2000" and "203 \<le> cache_capacity ps" and "36 + 20 * cache_capacity ps \<le> unat ps"
    using assms by (simp_all add: cache_capacity_def)
  show "unat (ucast (SSDFS_LEB2PEB_PAIR_PER_FRAGMENT ps) :: u16) = cache_capacity ps"
    "unat (ucast (SSDFS_LEB2PEB_PAIR_PER_FRAGMENT ps) :: u32) = cache_capacity ps"
    using lt by (subst unat_ucast_small; simp add: c)+
qed

lemma length_cache_image [simp]: "length (cache_image ps fs) = length fs"
  by (simp add: cache_image_def)

lemma cache_image_update:
  "i < length fs \<Longrightarrow> (cache_image ps fs)[i := Some (fragment_image ps (of_nat i) es)] = cache_image ps (fs[i := es])"
  by (rule nth_equalityI) (auto simp: cache_image_def nth_list_update)

lemma mc_fragment_image:
  "mc_fragments_array mc = Some (cache_image ps fs) \<Longrightarrow> i < length fs \<Longrightarrow>
     mc_fragment mc i = Inr (fragment_image ps (of_nat i) (fs ! i))"
  by (simp add: mc_fragment_def) (simp add: cache_image_def)

lemma find_fragment_image:
  assumes "mc_fragments_array mc = Some (cache_image (unat ps) fs)" and "4096 \<le> unat ps" and "unat ps \<le> 32768"
    and "\<forall>es \<in> set fs. cache_sorted es \<and> length es \<le> cache_capacity ps" and "leb \<noteq> U64_MAX"
    and "i + n = length fs"
  shows "find_fragment_loop ps mc leb i n = Inr (i + cache_find (cache_capacity ps) leb (drop i fs))"
  using assms(6)
proof (induction n arbitrary: i)
  case (Suc n)
  let ?es = "fs ! i"
  have i: "i < length fs" using Suc.prems by simp
  have es: "cache_sorted ?es" "length ?es \<le> cache_capacity ps" using assms(4) i by simp_all
  note cap = pair_per_fragment[OF assms(2,3)]
  have items: "(fragment_items ?es < (ucast (SSDFS_LEB2PEB_PAIR_PER_FRAGMENT ps) :: u16)) \<longleftrightarrow> length ?es < cache_capacity ps"
    using es(2) cap(4) by (simp add: word_less_nat_alt cap(2) unat_fragment)
  have start: "start_leb_of ?es = U64_MAX \<longleftrightarrow> ?es = []" "?es \<noteq> [] \<Longrightarrow> start_leb_of ?es = fst (hd ?es)"
    "?es \<noteq> [] \<Longrightarrow> end_leb_of ?es = fst (last ?es)"
    using es(1) by (auto simp: start_leb_of_def end_leb_of_def cache_sorted_def split: list.splits)
  have frag: "mc_fragment mc i = Inr (fragment_image (unat ps) (of_nat i) ?es)" by (rule mc_fragment_image[OF assms(1) i])
  have ih: "find_fragment_loop ps mc leb (Suc i) n = Inr (Suc i + cache_find (cache_capacity ps) leb (drop (Suc i) fs))"
    using Suc by simp
  have "drop i fs = ?es # drop (Suc i) fs" using i by (simp add: Cons_nth_drop_Suc)
  then show ?case using start items ih
    by (auto simp: frag fragment_image_def header_fields)
qed simp

definition using_state :: u32 where
  "using_state = 0xFF000301"

lemma using_peb_state_enc: "using_peb_state = le_enc 4 using_state"
  by code_simp

lemma cache_bytes_insert:
  assumes "i < length fs"
  shows "cache_bytes (fs[i := cache_insert e (fs ! i)]) = cache_bytes fs + (if fs ! i = [] then 36 else 0) + 20"
proof -
  have split: "cache_bytes (xs @ es # ys) = cache_bytes xs + (if es = [] then 0 else 36 + 20 * length es) + cache_bytes ys" for xs es ys
    by (simp add: cache_bytes_def)
  have fs: "cache_bytes fs = cache_bytes (take i fs @ fs ! i # drop (Suc i) fs)"
    using assms by (metis id_take_nth_drop)
  have upd: "fs[i := cache_insert e (fs ! i)] = take i fs @ cache_insert e (fs ! i) # drop (Suc i) fs"
    using assms by (simp add: upd_conv_take_nth_drop)
  show ?thesis unfolding fs upd split by (simp add: cache_insert_not_Nil)
qed

text \<open>One insertion, into the fragment that \<open>cache_find\<close> selects, when that fragment has room.\<close>

lemma cache_pair_repr:
  assumes repr: "cache_repr layout fs" and leb: "leb \<noteq> U64_MAX" and peb: "peb \<noteq> U64_MAX"
    and i: "i = cache_find (cache_capacity (vl_page_size layout)) leb fs" "i < length fs"
    and free: "length (fs ! i) < cache_capacity (vl_page_size layout)"
  shows "\<exists>layout'. cache_leb2peb_pair layout leb peb = Inr layout' \<and>
    cache_repr layout' (fs[i := cache_insert (leb, peb, using_state) (fs ! i)]) \<and>
    layout' = layout\<lparr>vl_maptbl_cache := vl_maptbl_cache layout'\<rparr>"
proof -
  let ?ps = "vl_page_size layout" and ?mc = "vl_maptbl_cache layout" and ?e = "(leb, peb, using_state)"
  have ps: "4096 \<le> unat ?ps" "unat ?ps \<le> 32768" and cnt: "unat (mc_fragments_count ?mc) = length fs"
    and arr: "mc_fragments_array ?mc = Some (cache_image (unat ?ps) fs)" and bytes: "mc_bytes_count ?mc = of_nat (cache_bytes fs)"
    and all: "\<forall>es \<in> set fs. cache_sorted es \<and> length es \<le> cache_capacity ?ps"
    using repr by (simp_all add: cache_repr_def)
  note cap = pair_per_fragment[OF ps]
  have find: "find_fragment_index layout leb = Inr i"
    using find_fragment_image[OF arr ps all leb, of 0 "length fs"] leb by (simp add: find_fragment_index_def cnt i(1))
  obtain n where n: "length fs - i = Suc n" using i(2) by (metis Suc_diff_Suc)
  have sorted: "cache_sorted (fs ! i)" using all i(2) by simp
  have items: "fragment_items (fs ! i) < ucast (SSDFS_LEB2PEB_PAIR_PER_FRAGMENT ?ps)"
    using free cap(4) by (simp add: word_less_nat_alt cap(2) unat_fragment)
  let ?mc' = "?mc\<lparr>mc_bytes_count := (if fs ! i = [] then mc_bytes_count ?mc + 36 else mc_bytes_count ?mc) + 20,
      mc_fragments_array := Some (cache_image (unat ?ps) (fs[i := cache_insert ?e (fs ! i)]))\<rparr>"
  have add: "add_leb2peb_pair ?ps (mc_bytes_count ?mc) (fragment_image (unat ?ps) (of_nat i) (fs ! i)) (leb2peb_pair leb peb) (le_enc 4 using_state) =
      Inr (fragment_image (unat ?ps) (of_nat i) (cache_insert ?e (fs ! i)), (if fs ! i = [] then mc_bytes_count ?mc + 36 else mc_bytes_count ?mc) + 20, None)"
    by (rule add_pair_image[OF sorted leb _ _ items]) (use free cap(4,6) in simp_all)
  have "cache_pair_loop ?ps ?mc i (Suc n) (leb2peb_pair leb peb) using_peb_state = Inr ?mc'"
    by (simp only: cache_pair_loop.simps mc_fragment_image[OF arr i(2)] using_peb_state_enc bnd_Inr add prod.case)
      (simp add: mc_put_fragment_def arr i(2) cache_image_update)
  then have run: "cache_leb2peb_pair layout leb peb = Inr (layout\<lparr>vl_maptbl_cache := ?mc'\<rparr>)"
    by (simp add: cache_leb2peb_pair_def leb peb find cnt n)
  have "\<forall>es \<in> set (fs[i := cache_insert ?e (fs ! i)]). cache_sorted es \<and> length es \<le> cache_capacity ?ps"
  proof
    fix es assume "es \<in> set (fs[i := cache_insert ?e (fs ! i)])"
    then have "es \<in> set fs \<or> es = cache_insert ?e (fs ! i)" using set_update_subset_insert by fastforce
    then show "cache_sorted es \<and> length es \<le> cache_capacity ?ps"
      using all sorted_cache_insert[OF sorted, of ?e] leb free by auto
  qed
  then have "cache_repr (layout\<lparr>vl_maptbl_cache := ?mc'\<rparr>) (fs[i := cache_insert ?e (fs ! i)])"
    using ps cnt by (auto simp: cache_repr_def bytes cache_bytes_insert[OF i(2)])
  with run show ?thesis by simp
qed

section \<open>Preparation\<close>

lemma prepare_fragment_image:
  assumes "mc_fragment (vl_maptbl_cache layout) (unat seq) = Inr b" and "length b = unat (vl_page_size layout)"
    and "36 \<le> unat (vl_page_size layout)" and "ucast seq < mc_fragments_count (vl_maptbl_cache layout)"
  shows "maptbl_cache_prepare_fragment layout seq =
    bnd (mc_put_fragment (vl_maptbl_cache layout) (unat seq) (fragment_image (unat (vl_page_size layout)) seq [])) (\<lambda>mc.
    Inr (layout\<lparr>vl_maptbl_cache := mc\<rparr>))"
proof -
  let ?n = "unat (vl_page_size layout)"
  have z: "memset b 0 0 ?n = Inr ([] @ replicate ?n 0)" using assms(2) by (simp add: memset_def wr_def overwrite_def)
  have img: "fragment_image ?n seq [] =
      ((((((((((([] @ le_enc 4 SSDFS_SUPER_MAGIC) @ le_enc 2 SSDFS_MAPTBL_CACHE_MAGIC) @ [1]) @ [20]) @ le_enc 2 seq) @ le_enc 2 (0::u16)) @
      le_enc 2 (0::u16)) @ le_enc 2 (32 + 4 :: u16)) @ le_enc 8 U64_MAX) @ le_enc 8 U64_MAX) @ le_enc 4 SSDFS_MAPTBL_CACHE_PEB_STATE_MAGIC) @
      replicate (?n - 4 - 2 - 1 - 1 - 2 - 2 - 2 - 2 - 8 - 8 - 4) 0"
    by (simp add: fragment_image_def header_image_def fragment_items_def fragment_bytes_def images_append start_leb_of_def end_leb_of_def)
  have guard: "fail_if (mc_fragments_count (vl_maptbl_cache layout) \<le> ucast seq) EINVAL = Inr ()"
    using assms(4) by simp
  show ?thesis
    using assms(3) unfolding maptbl_cache_prepare_fragment_def Let_def guard assms(1) bnd_Inr z field_wr img
    by (simp add: wr_behind del: wr_ok append_assoc append.append_Nil append_Nil2)
qed

lemma prepare_fragments:
  assumes ps: "4096 \<le> unat (vl_page_size layout)" "unat (vl_page_size layout) \<le> 32768"
    and cnt: "unat (mc_fragments_count (vl_maptbl_cache layout)) = n" "n < 65535"
    and bytes: "mc_bytes_count (vl_maptbl_cache layout) = 0"
    and arr: "mc_fragments_array (vl_maptbl_cache layout) = Some (replicate n (Some (replicate (unat (vl_page_size layout)) 0)))"
  shows "\<exists>layout'. for_res 0 n (\<lambda>i layout. maptbl_cache_prepare_fragment layout (of_nat i)) layout = Inr layout' \<and>
    cache_repr layout' (replicate n []) \<and> layout' = layout\<lparr>vl_maptbl_cache := vl_maptbl_cache layout'\<rparr>"
proof -
  let ?p = "unat (vl_page_size layout)"
  let ?A = "\<lambda>k. map (\<lambda>i. Some (fragment_image ?p (of_nat i) [])) [0..<k] @ replicate (n - k) (Some (replicate ?p 0))"
  let ?S = "\<lambda>k. layout\<lparr>vl_maptbl_cache := (vl_maptbl_cache layout)\<lparr>mc_fragments_array := Some (?A k)\<rparr>\<rparr>"
  have step: "maptbl_cache_prepare_fragment (?S i) (of_nat i) = Inr (?S (Suc i))" if i: "i < n" for i
  proof -
    have u: "unat (of_nat i :: u16) = i" using i cnt(2) by (simp add: unat_of_nat)
    have get: "?A i ! i = Some (replicate ?p 0)" and upd: "(?A i)[i := Some (fragment_image ?p (of_nat i) [])] = ?A (Suc i)"
      using i by (auto simp: nth_append list_update_append Suc_diff_Suc[symmetric])
    show ?thesis
      by (subst prepare_fragment_image[where b = "replicate ?p 0"])
        (use ps i cnt get upd in \<open>simp_all add: mc_fragment_def mc_put_fragment_def u word_less_nat_alt unat_ucast_up\<close>)
  qed
  have "for_res 0 n (\<lambda>i layout. maptbl_cache_prepare_fragment layout (of_nat i)) (?S 0) = Inr (?S n)"
    using for_res_run[of 0 n "\<lambda>i layout. maptbl_cache_prepare_fragment layout (of_nat i)" ?S n] step by simp
  moreover have "?S 0 = layout" using arr by simp
  moreover have "cache_repr (?S n) (replicate n [])"
    using ps cnt bytes by (auto simp: cache_repr_def cache_image_def cache_bytes_def cache_sorted_def sum_list_replicate)
  ultimately show ?thesis by auto
qed

section \<open>Caching the LEBs in increasing order\<close>

text \<open>The fragments that hold \<open>xs\<close> in order, \<open>cap\<close> entries each.\<close>

definition cache_chunks :: "nat \<Rightarrow> nat \<Rightarrow> cache_entry list \<Rightarrow> cache_entry list list" where
  "cache_chunks cap n xs = map (\<lambda>i. take cap (drop (i * cap) xs)) [0..<n]"

lemma length_cache_chunks [simp]: "length (cache_chunks cap n xs) = n"
  by (simp add: cache_chunks_def)

lemma cache_find_eqI:
  assumes "i < length fs"
    and "\<And>j. j < i \<Longrightarrow> fs ! j \<noteq> [] \<and> fst (last (fs ! j)) < leb \<and> cap \<le> length (fs ! j)"
    and "fs ! i = [] \<or> fst (last (fs ! i)) < leb \<and> length (fs ! i) < cap"
  shows "cache_find cap leb fs = i"
  using assms
proof (induction fs arbitrary: i)
  case (Cons es fs)
  show ?case
  proof (cases i)
    case (Suc k)
    have "cache_find cap leb fs = k"
    proof (rule Cons.IH)
      show "k < length fs" using Cons.prems(1) Suc by simp
      show "fs ! j \<noteq> [] \<and> fst (last (fs ! j)) < leb \<and> cap \<le> length (fs ! j)" if "j < k" for j
        using Cons.prems(2)[of "Suc j"] that Suc by simp
      show "fs ! k = [] \<or> fst (last (fs ! k)) < leb \<and> length (fs ! k) < cap" using Cons.prems(3) Suc by simp
    qed
    then show ?thesis using Suc Cons.prems(2)[of 0] by auto
  qed (use Cons.prems in auto)
qed simp

lemma cache_insert_last:
  "\<forall>x \<in> set es. fst x < fst e \<Longrightarrow> cache_insert e es = es @ [e]"
  by (simp add: cache_insert_def filter_id_conv filter_empty_conv order_less_imp_le)

lemma chunks_snoc:
  assumes "0 < cap" and "length xs < n * cap" and "\<forall>x \<in> set xs. fst x < fst e"
  defines "i \<equiv> length xs div cap"
  shows "i < n" and "cache_find cap (fst e) (cache_chunks cap n xs) = i"
    and "length (cache_chunks cap n xs ! i) < cap"
    and "(cache_chunks cap n xs)[i := cache_insert e (cache_chunks cap n xs ! i)] = cache_chunks cap n (xs @ [e])"
proof -
  show i: "i < n" using assms(2) by (simp add: i_def less_mult_imp_div_less)
  have nth: "cache_chunks cap n ys ! j = take cap (drop (j * cap) ys)" if "j < n" for j ys
    using that by (simp add: cache_chunks_def)
  have below: "j * cap + cap \<le> length xs" if "j < i" for j
  proof -
    have "Suc j * cap \<le> i * cap" using that by (intro mult_le_mono1) simp
    also have "i * cap \<le> length xs" unfolding i_def by (rule div_times_less_eq_dividend)
    finally show ?thesis by simp
  qed
  have above: "length xs < j * cap" if "i < j" for j
    using that assms(1) by (metis i_def div_less_iff_less_mult)
  have mod: "length xs - i * cap = length xs mod cap" by (simp add: i_def modulo_nat_def)
  have "i * cap \<le> length xs" by (simp add: i_def)
  then have len: "length (cache_chunks cap n xs ! i) = length xs mod cap" using i assms(1) by (simp add: nth mod)
  show lt: "length (cache_chunks cap n xs ! i) < cap" using len assms(1) by simp
  have small: "fst x < fst e" if "x \<in> set (cache_chunks cap n xs ! j)" "j < n" for x j
    using that assms(3) by (auto simp: nth dest: in_set_takeD in_set_dropD)
  show "cache_find cap (fst e) (cache_chunks cap n xs) = i"
  proof (rule cache_find_eqI)
    show "i < length (cache_chunks cap n xs)" using i by simp
    show "cache_chunks cap n xs ! j \<noteq> [] \<and> fst (last (cache_chunks cap n xs ! j)) < fst e \<and> cap \<le> length (cache_chunks cap n xs ! j)"
      if "j < i" for j
    proof -
      have j: "j < n" using that i by simp
      have "length (cache_chunks cap n xs ! j) = cap" using below[OF that] j by (simp add: nth)
      moreover from this have "cache_chunks cap n xs ! j \<noteq> []" using assms(1) by auto
      ultimately show ?thesis using small[OF last_in_set j] by simp
    qed
    show "cache_chunks cap n xs ! i = [] \<or> fst (last (cache_chunks cap n xs ! i)) < fst e \<and> length (cache_chunks cap n xs ! i) < cap"
      using small[OF last_in_set i] lt by blast
  qed
  show "(cache_chunks cap n xs)[i := cache_insert e (cache_chunks cap n xs ! i)] = cache_chunks cap n (xs @ [e])"
  proof (rule nth_equalityI)
    fix j assume "j < length ((cache_chunks cap n xs)[i := cache_insert e (cache_chunks cap n xs ! i)])"
    then have j: "j < n" by simp
    consider "j < i" | "j = i" | "i < j" by linarith
    then show "(cache_chunks cap n xs)[i := cache_insert e (cache_chunks cap n xs ! i)] ! j = cache_chunks cap n (xs @ [e]) ! j"
    proof cases
      case 1
      then show ?thesis using below[OF 1] j by (simp add: nth)
    next
      case 2
      have "cache_insert e (cache_chunks cap n xs ! i) = cache_chunks cap n xs ! i @ [e]"
        using small i by (intro cache_insert_last) blast
      then show ?thesis using 2 i lt \<open>i * cap \<le> length xs\<close> by (simp add: nth take_append)
    next
      case 3
      then show ?thesis using above[OF 3] j by (simp add: nth)
    qed
  qed simp
qed

text \<open>Caching a list of pairs, as \<^verbatim>\<open>map_segment_lebs2pebs\<close> does it for the LEBs of the volume.\<close>

definition cache_all :: "(u64 \<times> u64) list \<Rightarrow> ssdfs_volume_layout \<Rightarrow> ssdfs_volume_layout res" where
  "cache_all ps layout = fold_res (\<lambda>(leb, peb) layout. cache_leb2peb_pair layout leb peb) ps layout"

definition entries_of :: "(u64 \<times> u64) list \<Rightarrow> cache_entry list" where
  "entries_of ps = map (\<lambda>(leb, peb). (leb, peb, using_state)) ps"

lemma cache_all_chunks:
  assumes "cache_repr layout (replicate n [])" and "sorted_wrt (<) (map fst ps)"
    and "\<forall>(leb, peb) \<in> set ps. leb \<noteq> U64_MAX \<and> peb \<noteq> U64_MAX"
    and "length ps \<le> n * cache_capacity (vl_page_size layout)"
  shows "\<exists>layout'. cache_all ps layout = Inr layout' \<and>
    cache_repr layout' (cache_chunks (cache_capacity (vl_page_size layout)) n (entries_of ps)) \<and>
    layout' = layout\<lparr>vl_maptbl_cache := vl_maptbl_cache layout'\<rparr>"
  using assms(2-)
proof (induction ps rule: rev_induct)
  case Nil
  have "cache_chunks c n [] = replicate n []" for c by (simp add: cache_chunks_def map_replicate_const)
  then show ?case using assms(1) by (simp add: cache_all_def entries_of_def)
next
  case (snoc p ps)
  let ?cap = "cache_capacity (vl_page_size layout)"
  obtain leb peb where p: "p = (leb, peb)" by force
  from snoc obtain layout1 where l1: "cache_all ps layout = Inr layout1"
    "cache_repr layout1 (cache_chunks ?cap n (entries_of ps))" "layout1 = layout\<lparr>vl_maptbl_cache := vl_maptbl_cache layout1\<rparr>"
    by (auto simp: sorted_wrt_append)
  have page: "vl_page_size layout1 = vl_page_size layout" by (subst l1(3)) simp
  have pos: "0 < ?cap" using pair_per_fragment(5)[of "vl_page_size layout"] assms(1) by (simp add: cache_repr_def)
  have less: "length (entries_of ps) < n * ?cap" using snoc.prems(3) by (simp add: entries_of_def)
  have all: "\<forall>x \<in> set (entries_of ps). fst x < fst (leb, peb, using_state)"
    using snoc.prems(1) by (auto simp: p entries_of_def sorted_wrt_append)
  note ch = chunks_snoc[OF pos less all]
  obtain layout2 where l2: "cache_leb2peb_pair layout1 leb peb = Inr layout2"
    "cache_repr layout2 (cache_chunks ?cap n (entries_of ps @ [(leb, peb, using_state)]))"
    "layout2 = layout1\<lparr>vl_maptbl_cache := vl_maptbl_cache layout2\<rparr>"
    using cache_pair_repr[OF l1(2), of leb peb "length (entries_of ps) div ?cap"] ch snoc.prems(2)
    unfolding page p by auto
  have "cache_all (ps @ [p]) layout = Inr layout2"
    using l1(1) l2(1) by (simp add: cache_all_def fold_res_append p)
  moreover have "layout2 = layout\<lparr>vl_maptbl_cache := vl_maptbl_cache layout2\<rparr>"
    by (subst l2(3), subst l1(3)) simp
  moreover have "entries_of (ps @ [p]) = entries_of ps @ [(leb, peb, using_state)]" by (simp add: entries_of_def p)
  ultimately show ?case using l2(2) by auto
qed

section \<open>Size of the cache\<close>

definition volume_lebs :: "ssdfs_volume_layout \<Rightarrow> u64 list" where
  "volume_lebs layout = filter (\<lambda>leb. leb \<noteq> U64_MAX) (concat (map (\<lambda>seg. map pc_leb_id (sd_pebs seg)) (vl_segs layout)))"

definition capacities_ok :: "ssdfs_volume_layout \<Rightarrow> bool" where
  "capacities_ok layout \<longleftrightarrow> vl_segs_capacity layout = int (length (vl_segs layout)) \<and> length (vl_segs layout) < 2 ^ 31 \<and>
     (\<forall>seg \<in> set (vl_segs layout). unat (sd_pebs_capacity seg) = length (sd_pebs seg))"

lemma count_pebs:
  "for_res 0 (length pebs) (\<lambda>j lebs_count.
     bnd (nth_chk pebs j) (\<lambda>peb. Inr (if pc_leb_id peb \<noteq> U64_MAX then lebs_count + 1 else lebs_count))) c =
   Inr (c + of_nat (length (filter (\<lambda>leb. leb \<noteq> U64_MAX) (map pc_leb_id pebs))) :: u32)"
proof -
  let ?S = "\<lambda>k. c + of_nat (length (filter (\<lambda>leb. leb \<noteq> U64_MAX) (map pc_leb_id (take k pebs)))) :: u32"
  show ?thesis
    using for_res_run[where a = 0 and k = "length pebs" and n = "length pebs" and S = ?S and
        f = "\<lambda>j lebs_count. bnd (nth_chk pebs j) (\<lambda>peb. Inr (if pc_leb_id peb \<noteq> U64_MAX then lebs_count + 1 else lebs_count))"]
    by (simp add: take_Suc_conv_app_nth add.assoc)
qed

lemma count_lebs_eq:
  assumes "capacities_ok layout"
  shows "count_lebs layout = Inr (of_nat (length (volume_lebs layout)))"
proof -
  let ?lebs = "\<lambda>segs. filter (\<lambda>leb. leb \<noteq> U64_MAX) (concat (map (\<lambda>seg. map pc_leb_id (sd_pebs seg)) segs))"
  let ?S = "\<lambda>k. of_nat (length (?lebs (take k (vl_segs layout)))) :: u32"
  let ?n = "length (vl_segs layout)"
  have cap: "unat (of_int (vl_segs_capacity layout) :: u32) = ?n"
    using assms by (simp add: capacities_ok_def unat_of_nat)
  have peb: "unat (sd_pebs_capacity (vl_segs layout ! i)) = length (sd_pebs (vl_segs layout ! i))" if "i < ?n" for i
    using assms that by (simp add: capacities_ok_def)
  have step: "count_segment_lebs layout i (?S i) = Inr (?S (Suc i))" if "i < ?n" for i
    using that by (simp add: count_segment_lebs_def peb count_pebs take_Suc_conv_app_nth)
  show ?thesis
    unfolding count_lebs_def cap volume_lebs_def
    using for_res_run[of 0 ?n "count_segment_lebs layout" ?S ?n] step by simp
qed

lemma cache_prepare_repr:
  assumes wf: "capacities_ok layout" and ps: "4096 \<le> unat (vl_page_size layout)" "unat (vl_page_size layout) \<le> 32768"
    and few: "length (volume_lebs layout) < 1000000" and alloc: "\<And>i. alloc_ok i"
  defines "cap \<equiv> cache_capacity (vl_page_size layout)"
  shows "\<exists>layout'. maptbl_cache_mkfs_prepare alloc_ok layout = Inr layout' \<and>
    cache_repr layout' (replicate ((length (volume_lebs layout) + cap - 1) div cap) []) \<and>
    layout' = layout\<lparr>vl_maptbl_cache := vl_maptbl_cache layout'\<rparr>"
proof -
  let ?N = "length (volume_lebs layout)"
  let ?per = "ucast (SSDFS_LEB2PEB_PAIR_PER_FRAGMENT (vl_page_size layout)) :: u32"
  define fc where "fc = (of_nat ?N + ?per - 1) div ?per"
  let ?f = "(?N + cap - 1) div cap"
  note c = pair_per_fragment[OF ps, folded cap_def]
  have per: "unat ?per = cap" "?per \<noteq> 0" using c(3,5) by auto
  have one: "(1::u32) \<le> of_nat ?N + ?per" and sum: "unat (of_nat ?N + ?per) = ?N + cap"
  proof -
    show s: "unat (of_nat ?N + ?per) = ?N + cap"
      using few c(4) by (subst unat_add_nw) (simp_all add: per unat_of_nat)
    show "(1::u32) \<le> of_nat ?N + ?per" using s c(5) by (simp add: word_le_nat_alt)
  qed
  have f: "unat fc = ?f" using one by (simp add: fc_def unat_div unat_sub sum per)
  have "?f \<le> (?N + cap - 1) div 203" using c(5) by (intro div_le_mono2) simp_all
  also have "\<dots> < 65535" using few c(4) by simp
  finally have lt: "?f < 65535" .
  let ?l = "layout\<lparr>vl_maptbl_cache := \<lparr>mc_fragments_count = fc, mc_fragment_size = ucast (vl_page_size layout), mc_bytes_count = 0,
      mc_fragments_array = Some (replicate (unat fc) (Some (replicate (unat (ucast (vl_page_size layout) :: u64)) 0)))\<rparr>\<rparr>"
  have create: "maptbl_cache_create_fragments_array alloc_ok layout = Inr ?l"
    by (simp add: maptbl_cache_create_fragments_array_def count_lebs_eq[OF wf] per fc_def alloc Let_def)
  obtain l' where l': "for_res 0 (unat fc) (\<lambda>i layout. maptbl_cache_prepare_fragment layout (of_nat i)) ?l = Inr l'"
    "cache_repr l' (replicate (unat fc) [])" "l' = ?l\<lparr>vl_maptbl_cache := vl_maptbl_cache l'\<rparr>"
    using prepare_fragments[of ?l "unat fc"] ps lt f by (auto simp: unat_ucast_up)
  have "\<not> ucast U16_MAX \<le> fc" using lt f by (simp add: word_le_nat_alt ucast_max)
  then have "maptbl_cache_mkfs_prepare alloc_ok layout = Inr l'"
    using l'(1) by (simp add: maptbl_cache_mkfs_prepare_def create)
  moreover have "l' = layout\<lparr>vl_maptbl_cache := vl_maptbl_cache l'\<rparr>" by (subst l'(3)) simp
  ultimately show ?thesis using l'(2) by (auto simp: f)
qed

section \<open>Properties\<close>





text \<open>
  C13. The cache that mkfs prepares is as large as it has to be. Let the layout hold fewer
  than a million allocated LEBs, with a page of 4 to 32 KiB and memory for the fragments. Then the
  preparation succeeds, and caching pairs with increasing LEBs, as many as the volume has LEBs or fewer,
  succeeds for every one of them; the fragments then hold the pairs in order, each fragment full before the
  next one is used.
\<close>

theorem cache_holds_all_lebs:
  assumes "capacities_ok layout" and "4096 \<le> unat (vl_page_size layout)" and "unat (vl_page_size layout) \<le> 32768"
    and "length (volume_lebs layout) < 1000000" and "\<And>i. alloc_ok i"
    and "sorted_wrt (<) (map fst ps)" and "\<forall>(leb, peb) \<in> set ps. leb \<noteq> U64_MAX \<and> peb \<noteq> U64_MAX"
    and "length ps \<le> length (volume_lebs layout)"
  shows "\<exists>layout1 layout2. maptbl_cache_mkfs_prepare alloc_ok layout = Inr layout1 \<and> cache_all ps layout1 = Inr layout2 \<and>
    cache_repr layout2 (cache_chunks (cache_capacity (vl_page_size layout))
      ((length (volume_lebs layout) + cache_capacity (vl_page_size layout) - 1) div cache_capacity (vl_page_size layout)) (entries_of ps))"
proof -
  let ?cap = "cache_capacity (vl_page_size layout)" and ?N = "length (volume_lebs layout)"
  obtain l1 where l1: "maptbl_cache_mkfs_prepare alloc_ok layout = Inr l1"
    "cache_repr l1 (replicate ((?N + ?cap - 1) div ?cap) [])" "l1 = layout\<lparr>vl_maptbl_cache := vl_maptbl_cache l1\<rparr>"
    using cache_prepare_repr[where alloc_ok = alloc_ok, OF assms(1-5)] by blast
  have page: "vl_page_size l1 = vl_page_size layout" by (subst l1(3)) simp
  have "?N \<le> (?N + ?cap - 1) div ?cap * ?cap"
    using ceil_div_mult_ge[of ?cap ?N] pair_per_fragment(5)[OF assms(2,3)] by simp
  then show ?thesis
    using cache_all_chunks[OF l1(2) assms(6,7)] l1(1) assms(8) unfolding page by fastforce
qed

definition sample_two_lebs :: ssdfs_volume_layout where
  "sample_two_lebs = mkfs_volume_layout\<lparr>
     vl_segs := [\<lparr>sd_seg_type = SSDFS_SUPERBLOCK, sd_seg_state = SSDFS_DEDICATED_SEGMENT, sd_seg_id = 0,
       sd_pebs = map (\<lambda>leb. \<lparr>pc_leb_id = leb, pc_peb_id = U64_MAX, pc_extents = []\<rparr>) [0, 1],
       sd_pebs_count = 2, sd_pebs_capacity = 2\<rparr>], vl_segs_capacity := 1\<rparr>"

theorem cache_holds_all_lebs_witness:
  "\<exists>layout1 layout2. maptbl_cache_mkfs_prepare (\<lambda>_. True) sample_two_lebs = Inr layout1 \<and>
     cache_all [(0, 4), (1, 5)] layout1 = Inr layout2 \<and>
     cache_repr layout2 [[(0, 4, using_state), (1, 5, using_state)]]"
proof -
  have v: "volume_lebs sample_two_lebs = [0, 1]" "vl_page_size sample_two_lebs = 4096" "capacities_ok sample_two_lebs"
    by (simp_all add: volume_lebs_def sample_two_lebs_def mkfs_volume_layout_def capacities_ok_def)
  show ?thesis
    using cache_holds_all_lebs[of sample_two_lebs "\<lambda>_. True" "[(0, 4), (1, 5)]"]
    by (simp add: v cache_capacity_def cache_chunks_def entries_of_def)
qed

end
