(* ===== verification/MkfsLog.thy ===== *)
theory MkfsLog
  imports MkfsTables
begin

text \<open>
  The log of a metadata PEB. \<^verbatim>\<open>segbmap_mkfs_define_layout\<close> and \<^verbatim>\<open>maptbl_mkfs_define_layout\<close>, and the two
  \<^verbatim>\<open>_mkfs_commit\<close> and \<^verbatim>\<open>_set_log_pages\<close> functions beside them, are the same code
  for two kinds of metadata. This theory holds that code once, as definitions that take what
  differs as arguments; the theories of the segment bitmap and of the mapping table instantiate
  them.

  \<open>alloc_ok k\<close> tells whether the allocation for the extent \<open>k\<close> of the PEB succeeds.
\<close>

section \<open>Number of pages in a full log\<close>

text \<open>\<^verbatim>\<open>while (erase_size % (log_pages * page_size)) log_pages++;\<close>\<close>

function align_log_pages :: "u32 \<Rightarrow> u32 \<Rightarrow> u32 \<Rightarrow> u32 res" where
  "align_log_pages erase page log_pages =
     (if log_pages * page = 0 then Inl DivZero
      else if erase mod (log_pages * page) \<noteq> 0 then align_log_pages erase page (log_pages + 1)
      else Inr log_pages)"
  by auto

termination
proof (relation "measure (\<lambda>(erase, page, log_pages). if log_pages = 0 then 0 else 2 ^ 32 - unat log_pages)")
  fix erase page log_pages :: u32
  assume "log_pages * page \<noteq> 0"
  then have ne: "log_pages \<noteq> 0" by auto
  show "((erase, page, log_pages + 1), (erase, page, log_pages))
      \<in> measure (\<lambda>(erase, page, log_pages). if log_pages = 0 then 0 else 2 ^ 32 - unat log_pages)"
  proof (cases "log_pages + 1 = 0")
    case True
    then show ?thesis using ne unat_width[of log_pages] by simp
  next
    case False
    then have "unat (log_pages + 1) = unat log_pages + 1" by (metis Suc_eq_plus1 unatSuc add.commute)
    then show ?thesis using ne False unat_width[of "log_pages + 1"] by simp
  qed
qed simp

declare align_log_pages.simps [simp del]

text \<open>
  The loop at \<^verbatim>\<open>try_align_log_pages\<close>. After the first round \<open>log_pages\<close> is at least \<open>blks + 3\<close>, so that a
  second round ends it; \<open>n\<close> bounds the rounds, and running out of them is the value \<open>None\<close>.
\<close>

fun try_align_log_pages :: "nat \<Rightarrow> u32 \<Rightarrow> u32 \<Rightarrow> u32 \<Rightarrow> u32 \<Rightarrow> u32 res option" where
  "try_align_log_pages 0 erase page blks log_pages = None"
| "try_align_log_pages (Suc n) erase page blks log_pages =
     (case align_log_pages erase page log_pages of
        Inl e \<Rightarrow> Some (Inl e)
      | Inr log_pages \<Rightarrow>
          if erase div page < log_pages then Some (Inl Bug)
          else if log_pages = erase div page then Some (Inr log_pages)
          else if log_pages - blks < 3 then try_align_log_pages n erase page blks (log_pages + 3)
          else Some (Inr log_pages))"

text \<open>The number of pages, from the largest log \<open>blks\<close> and the number \<open>requested\<close> by the user.\<close>

definition full_log_pages :: "u32 \<Rightarrow> u32 \<Rightarrow> u16 \<Rightarrow> u32 \<Rightarrow> u32 res" where
  "full_log_pages erase page requested blks =
     bnd (BUG_ON (blks = 0)) (\<lambda>_.
     bnd (BUG_ON (ucast U16_MAX \<le> blks)) (\<lambda>_.
     bnd (div_chk erase page) (\<lambda>pages_per_peb.
     bnd (BUG_ON (pages_per_peb < blks div 2)) (\<lambda>_.
     let blks = min blks SSDFS_LOG_MAX_PAGES;
         log_pages = (if requested = U16_MAX then blks else max (ucast requested) blks) in
     bnd (case try_align_log_pages 3 erase page blks log_pages of Some r \<Rightarrow> r | None \<Rightarrow> Inl Bug) (\<lambda>log_pages.
     let log_pages = min (max log_pages (pages_per_peb div SSDFS_LOGS_PER_PEB_DEFAULT)) SSDFS_LOG_MAX_PAGES in
     bnd (BUG_ON (ucast U16_MAX \<le> log_pages)) (\<lambda>_.
     Inr log_pages))))))"

section \<open>Layout of a log\<close>

text \<open>\<^verbatim>\<open>set_extent_start_offset\<close> on the PEB in the layout.\<close>

definition place_extent :: "ssdfs_volume_layout \<Rightarrow> int \<Rightarrow> int \<Rightarrow> int \<Rightarrow> int \<Rightarrow> ssdfs_volume_layout res" where
  "place_extent layout seg_type seg_index peb_index k =
     bnd (peb_at layout seg_index peb_index) (\<lambda>peb.
     bnd (set_extent_start_offset layout seg_type peb k) (put_peb layout seg_index peb_index))"

text \<open>
  What the two kinds of metadata differ in: the type of the segment, the inode of the blocks,
  the buffer of a fragment, which moves from \<^verbatim>\<open>fragments_array\<close> into the payload extent.
\<close>

record log_kind =
  lk_seg_type :: int
  lk_ino :: u64
  lk_take :: "ssdfs_volume_layout \<Rightarrow> nat \<Rightarrow> (buf option \<times> ssdfs_volume_layout) res"

definition open_peb :: "ssdfs_volume_layout \<Rightarrow> int \<Rightarrow> ssdfs_volume_layout res" where
  "open_peb layout seg_index =
     bnd (nth_int (vl_segs layout) seg_index) (\<lambda>seg.
     let seg = seg\<lparr>sd_pebs_count := sd_pebs_count seg + 1\<rparr> in
     bnd (upd_int (vl_segs layout) seg_index seg) (\<lambda>ss.
     bnd (BUG_ON (sd_pebs_capacity seg < sd_pebs_count seg)) (\<lambda>_.
     Inr (layout\<lparr>vl_calculated_open_zones := vl_calculated_open_zones layout + 1, vl_segs := ss\<rparr>))))"

definition payload_extent ::
  "log_kind \<Rightarrow> ssdfs_volume_layout \<Rightarrow> int \<Rightarrow> int \<Rightarrow> nat \<Rightarrow> u64 \<Rightarrow> ssdfs_volume_layout res" where
  "payload_extent kind layout seg_index peb_index fragment_index peb_buffer_size =
     bnd (peb_at layout seg_index peb_index) (\<lambda>peb.
     let extent = extent_of peb SSDFS_LOG_PAYLOAD in
     bnd (BUG_ON (ext_buf extent \<noteq> None)) (\<lambda>_.
     bnd (lk_take kind layout fragment_index) (\<lambda>(ptr, layout).
     bnd (fail_if (ptr = None) ERANGE) (\<lambda>_.
     put_peb layout seg_index peb_index
       (put_extent peb SSDFS_LOG_PAYLOAD (extent\<lparr>ext_buf := ptr, ext_bytes_count := ucast peb_buffer_size\<rparr>))))))"

text \<open>The blocks of a segment: the values every PEB of the segment gets.\<close>

record log_blocks =
  lb_buffer_size :: u64
  lb_valid :: u32
  lb_used :: u32
  lb_last :: u32

text \<open>The body of the loop over the PEBs of a segment; the result is the layout and the size of the log.\<close>

definition define_peb_log ::
  "crc_fun \<Rightarrow> 's codec_libs \<Rightarrow> (int \<Rightarrow> bool) \<Rightarrow> log_kind \<Rightarrow> log_blocks \<Rightarrow> ssdfs_volume_layout \<Rightarrow> int \<Rightarrow> int \<Rightarrow> nat \<Rightarrow>
   u64 \<Rightarrow> u32 \<Rightarrow> u32 \<Rightarrow> (ssdfs_volume_layout \<times> u32) res" where
  "define_peb_log crc32 libs alloc_ok kind lb layout seg j fragment_index logical_byte_offset payload_offset
     start_logical_blk =
     (let place = (\<lambda>k layout. place_extent layout (lk_seg_type kind) seg j k);
          valid = (ucast (lb_valid lb) :: u16) in
     bnd (open_peb layout seg) (\<lambda>layout.
     bnd (place SSDFS_SEG_HEADER layout) (\<lambda>layout.
     bnd (define_segment_header_layout (alloc_ok SSDFS_SEG_HEADER) layout seg j) (\<lambda>layout.
     bnd (place SSDFS_BLOCK_BITMAP layout) (\<lambda>layout.
     bnd (pre_commit_block_bitmap crc32 libs (alloc_ok SSDFS_BLOCK_BITMAP) layout seg j (lb_buffer_size lb)
            start_logical_blk valid) (\<lambda>layout.
     bnd (place SSDFS_OFFSET_TABLE layout) (\<lambda>layout.
     bnd (pre_commit_offset_table crc32 (alloc_ok SSDFS_OFFSET_TABLE) layout seg j logical_byte_offset start_logical_blk
            valid (lb_used lb) (lb_last lb)) (\<lambda>layout.
     bnd (place SSDFS_BLOCK_DESCRIPTORS layout) (\<lambda>layout.
     bnd (pre_commit_block_descriptors crc32 (alloc_ok SSDFS_BLOCK_DESCRIPTORS) layout seg j start_logical_blk valid
            (lk_ino kind) payload_offset (vl_page_size layout)) (\<lambda>layout.
     bnd (place SSDFS_LOG_PAYLOAD layout) (\<lambda>layout.
     bnd (payload_extent kind layout seg j fragment_index (lb_buffer_size lb)) (\<lambda>layout.
     bnd (place SSDFS_LOG_FOOTER layout) (\<lambda>layout.
     bnd (define_log_footer_layout (alloc_ok SSDFS_LOG_FOOTER) layout seg j) (\<lambda>layout.
     bnd (if bb_has_backup_copy (vl_blkbmap layout) then
            bnd (place SSDFS_BLOCK_BITMAP_BACKUP layout) (\<lambda>layout.
            pre_commit_block_bitmap_backup crc32 libs (alloc_ok SSDFS_BLOCK_BITMAP_BACKUP) layout seg j
              (lb_buffer_size lb) start_logical_blk valid)
          else Inr layout) (\<lambda>layout.
     bnd (if bt_has_backup_copy (vl_blk2off_tbl layout) then
            bnd (place SSDFS_OFFSET_TABLE_BACKUP layout) (\<lambda>layout.
            pre_commit_offset_table_backup crc32 (alloc_ok SSDFS_OFFSET_TABLE_BACKUP) layout seg j logical_byte_offset
              start_logical_blk valid (lb_used lb) (lb_last lb))
          else Inr layout) (\<lambda>layout.
     bnd (peb_at layout seg j) (\<lambda>peb.
     bnd (calculate_log_pages layout (lk_seg_type kind) peb) (\<lambda>blks.
     Inr (layout, blks)))))))))))))))))))"

text \<open>The state of the loops over segments and PEBs.\<close>

record log_loop =
  ll_layout :: ssdfs_volume_layout
  ll_fragment :: nat
  ll_log_pages :: u32
  ll_payload :: u32
  ll_start_blk :: u32

text \<open>\<^verbatim>\<open>used_logical_blks\<close> and \<^verbatim>\<open>last_allocated_blk\<close> of a segment.\<close>

definition segment_blocks :: "nat \<Rightarrow> u32 \<Rightarrow> (u32 \<times> u32) res" where
  "segment_blocks pebs_per_seg valid_blks =
     for_res 0 pebs_per_seg (\<lambda>j (used, last_blk).
       let used = used + valid_blks in
       bnd (fail_if (used = 0) ERANGE) (\<lambda>_. Inr (used, used - 1))) (0, ucast U16_MAX)"

text \<open>
  \<^verbatim>\<open>if (fragment_index >= fragments_count) break;\<close> leaves the state as it is, and the rest of
  the loop over the PEBs would leave it too.
\<close>

definition define_log_step ::
  "crc_fun \<Rightarrow> 's codec_libs \<Rightarrow> (nat \<Rightarrow> int \<Rightarrow> bool) \<Rightarrow> log_kind \<Rightarrow> nat \<Rightarrow> u64 \<Rightarrow> log_blocks \<Rightarrow> int \<Rightarrow> nat \<Rightarrow> log_loop \<Rightarrow>
   log_loop res" where
  "define_log_step crc32 libs alloc_ok kind fragments_count fragment_size lb seg j st =
     (if fragments_count \<le> ll_fragment st then Inr st
      else
        bnd (define_peb_log crc32 libs (alloc_ok (ll_fragment st)) kind lb (ll_layout st) seg (int j) (ll_fragment st)
              (of_nat (ll_fragment st) * fragment_size) (ll_payload st) (ll_start_blk st)) (\<lambda>(layout, blks).
        Inr \<lparr>ll_layout = layout, ll_fragment = Suc (ll_fragment st), ll_log_pages = max blks (ll_log_pages st),
             ll_payload = ll_payload st + ucast (lb_buffer_size lb), ll_start_blk = ll_start_blk st + lb_valid lb\<rparr>))"

definition define_segment_logs ::
  "crc_fun \<Rightarrow> 's codec_libs \<Rightarrow> (nat \<Rightarrow> int \<Rightarrow> bool) \<Rightarrow> log_kind \<Rightarrow> nat \<Rightarrow> u64 \<Rightarrow> u64 \<Rightarrow> u32 \<Rightarrow> nat \<Rightarrow> int \<Rightarrow> nat \<Rightarrow> log_loop \<Rightarrow>
   log_loop res" where
  "define_segment_logs crc32 libs alloc_ok kind fragments_count fragment_size peb_buffer_size valid_blks pebs_per_seg
     start i st =
     bnd (segment_blocks pebs_per_seg valid_blks) (\<lambda>(used, last_blk).
     for_res 0 pebs_per_seg
       (define_log_step crc32 libs alloc_ok kind fragments_count fragment_size
          \<lparr>lb_buffer_size = peb_buffer_size, lb_valid = valid_blks, lb_used = used, lb_last = last_blk\<rparr> (start + int i))
       (st\<lparr>ll_start_blk := 0\<rparr>))"

section \<open>Commit of a log\<close>

text \<open>What the two commit functions differ in.\<close>

record commit_kind =
  ck_seg_type :: u16
  ck_magic :: u16
  ck_checksum :: "ssdfs_volume_layout \<Rightarrow> buf \<Rightarrow> buf res"
  ck_threshold :: "ssdfs_volume_layout \<Rightarrow> int \<Rightarrow> int \<Rightarrow> ssdfs_volume_layout res"

definition checksum_payload :: "commit_kind \<Rightarrow> ssdfs_volume_layout \<Rightarrow> int \<Rightarrow> int \<Rightarrow> ssdfs_volume_layout res" where
  "checksum_payload kind layout seg j =
     bnd (peb_at layout seg j) (\<lambda>peb.
     let extent = extent_of peb SSDFS_LOG_PAYLOAD in
     bnd (deref (ext_buf extent)) (\<lambda>b.
     bnd (ck_checksum kind layout b) (\<lambda>b.
     put_peb layout seg j (put_extent peb SSDFS_LOG_PAYLOAD (extent\<lparr>ext_buf := Some b\<rparr>)))))"

definition commit_peb_log ::
  "crc_fun \<Rightarrow> commit_kind \<Rightarrow> ssdfs_volume_layout \<Rightarrow> int \<Rightarrow> int \<Rightarrow> ssdfs_volume_layout res" where
  "commit_peb_log crc32 kind layout seg j =
     (let seg_type = uint (ck_seg_type kind) in
     bnd (pre_commit_segment_header layout seg j (ck_seg_type kind)) (\<lambda>layout.
     bnd (checksum_payload kind layout seg j) (\<lambda>layout.
     bnd (pre_commit_log_footer layout seg j) (\<lambda>layout.
     bnd (ck_threshold kind layout seg j) (\<lambda>layout.
     bnd (peb_at layout seg j) (\<lambda>peb.
     bnd (calculate_metadata_blks layout seg_type peb) (\<lambda>metadata_blks.
     bnd (commit_block_bitmap layout seg j (ucast metadata_blks)) (\<lambda>layout.
     bnd (commit_offset_table crc32 layout seg j) (\<lambda>layout.
     let layout = commit_block_descriptors layout seg j in
     bnd (if bb_has_backup_copy (vl_blkbmap layout)
          then commit_block_bitmap_backup layout seg j (ucast metadata_blks) else Inr layout) (\<lambda>layout.
     bnd (if bt_has_backup_copy (vl_blk2off_tbl layout)
          then commit_offset_table_backup crc32 layout seg j else Inr layout) (\<lambda>layout.
     bnd (peb_at layout seg j) (\<lambda>peb.
     bnd (calculate_log_pages layout seg_type peb) (\<lambda>blks.
     bnd (commit_log_footer crc32 layout seg j blks) (\<lambda>layout.
     commit_segment_header crc32 layout seg j blks))))))))))))))"

text \<open>The state: the layout, \<^verbatim>\<open>fragment_index\<close>, and whether the loop over the PEBs has been left.\<close>

definition commit_log_step ::
  "crc_fun \<Rightarrow> commit_kind \<Rightarrow> nat \<Rightarrow> int \<Rightarrow> nat \<Rightarrow> ssdfs_volume_layout \<times> nat \<times> bool \<Rightarrow> (ssdfs_volume_layout \<times> nat \<times> bool) res" where
  "commit_log_step crc32 kind fragments_count seg j = (\<lambda>(layout, fragment_index, left).
     if left \<or> fragments_count \<le> fragment_index then Inr (layout, fragment_index, True)
     else
       bnd (nth_int (vl_segs layout) seg) (\<lambda>seg_desc.
       bnd (BUG_ON (unat (sd_pebs_capacity seg_desc) \<le> j)) (\<lambda>_.
       bnd (peb_at layout seg (int j)) (\<lambda>peb.
       bnd (BUG_ON (ext_buf (extent_of peb SSDFS_LOG_PAYLOAD) = None)) (\<lambda>_.
       bnd (deref (ext_buf (extent_of peb SSDFS_LOG_PAYLOAD))) (\<lambda>b.
       bnd (rd16 b 0) (\<lambda>magic.
       if magic \<noteq> ck_magic kind then Inr (layout, fragment_index, True)
       else
         bnd (commit_peb_log crc32 kind layout seg (int j)) (\<lambda>layout.
         Inr (layout, Suc fragment_index, False)))))))))"

definition commit_segment_logs ::
  "crc_fun \<Rightarrow> commit_kind \<Rightarrow> nat \<Rightarrow> nat \<Rightarrow> int \<Rightarrow> nat \<Rightarrow> ssdfs_volume_layout \<times> nat \<Rightarrow> (ssdfs_volume_layout \<times> nat) res" where
  "commit_segment_logs crc32 kind fragments_count pebs_per_seg start i = (\<lambda>(layout, fragment_index).
     bnd (for_res 0 pebs_per_seg (commit_log_step crc32 kind fragments_count (start + int i)) (layout, fragment_index, False))
       (\<lambda>(layout, fragment_index, left). Inr (layout, fragment_index)))"

section \<open>The number of pages: lemmas\<close>

lemma word_plus_one_ge: "x + 1 \<noteq> 0 \<Longrightarrow> x < x + 1" for x :: "'a::len word"
  by (metis Suc_eq_plus1 add.commute lessI unatSuc word_less_nat_alt)

lemma align_log_pages_ge: "align_log_pages erase page log_pages = Inr r \<Longrightarrow> log_pages \<le> r"
proof (induction erase page log_pages rule: align_log_pages.induct)
  case (1 erase page log_pages)
  show ?case
  proof (cases "erase mod (log_pages * page) = 0")
    case True
    then show ?thesis using "1.prems" by (subst (asm) align_log_pages.simps) (auto split: if_splits)
  next
    case False
    have nz: "log_pages * page \<noteq> 0" using "1.prems" by (subst (asm) align_log_pages.simps) (auto split: if_splits)
    have rec: "align_log_pages erase page (log_pages + 1) = Inr r"
      using "1.prems" False nz by (subst (asm) align_log_pages.simps) simp
    then have "log_pages + 1 \<le> r" using "1.IH"[OF nz False] by simp
    moreover have "log_pages + 1 \<noteq> 0" using rec by (auto simp: align_log_pages.simps[of _ _ 0])
    ultimately show ?thesis using word_plus_one_ge[of log_pages] by (meson order.strict_implies_order order_trans)
  qed
qed

text \<open>Two rounds are always enough.\<close>

lemma try_align_enough:
  assumes "blks \<le> 256"
  shows "try_align_log_pages (Suc (Suc n)) erase page blks log_pages \<noteq> None"
proof (cases "align_log_pages erase page log_pages")
  case (Inr r)
  show ?thesis
  proof (cases "r - blks < 3")
    case True
    have r: "unat r < unat blks + 3 \<and> blks \<le> r"
    proof -
      have "unat (blks + (r - blks)) = unat blks + unat (r - blks)"
        using assms True by (intro unat_add_nw) (simp add: word_le_nat_alt word_less_nat_alt)
      then have "unat r = unat blks + unat (r - blks)" by simp
      then show ?thesis using True by (simp add: word_less_nat_alt word_le_nat_alt)
    qed
    have u3: "unat (r + 3) = unat r + 3" using r assms by (subst unat_add_nw) (simp_all add: word_le_nat_alt)
    have "\<not> s - blks < 3" if "align_log_pages erase page (r + 3) = Inr s" for s
    proof -
      have "r + 3 \<le> s" using align_log_pages_ge[OF that] .
      then have "unat r + 3 \<le> unat s" by (simp add: word_le_nat_alt u3)
      then have "unat (s - blks) = unat s - unat blks" "unat blks + 3 \<le> unat s"
        using r by (simp_all add: unat_sub_nw word_le_nat_alt)
      then show ?thesis by (simp add: word_less_nat_alt)
    qed
    then show ?thesis using Inr by (auto split: sum.splits)
  qed (use Inr in auto)
qed simp

text \<open>With a PEB of \<open>P\<close> pages the alignment finds a divisor of \<open>P\<close>.\<close>

lemma align_log_pages_ok:
  assumes "unat erase = P * unat page" and "0 < unat page" and "0 < unat lp" and "unat lp \<le> P"
  shows "\<exists>r. align_log_pages erase page lp = Inr r \<and> unat lp \<le> unat r \<and> unat r \<le> P \<and> unat r dvd P"
  using assms(3,4)
proof (induction "P - unat lp" arbitrary: lp)
  case 0
  then have lp: "unat lp = P" by simp
  then have m: "unat (lp * page) = P * unat page"
    using unat_width[of erase] assms(1) by (subst unat_mult_nw) simp_all
  then have "erase mod (lp * page) = 0" by (intro word_unat_eqI) (simp add: unat_mod assms(1))
  moreover have "lp * page \<noteq> 0" using m assms(2) "0.prems"(1) lp by auto
  ultimately show ?case using lp by (simp add: align_log_pages.simps[of erase page lp])
next
  case (Suc d)
  have bound: "P * unat page < 2 ^ LENGTH(32)" using unat_width[of erase] assms(1) by simp
  have "unat lp * unat page \<le> P * unat page" using Suc.prems(2) by (rule mult_le_mono1)
  then have m: "unat (lp * page) = unat lp * unat page"
    by (intro unat_mult_nw) (rule le_less_trans[OF _ bound])
  then have nz: "lp * page \<noteq> 0" using assms(2) Suc.prems(1) by auto
  show ?case
  proof (cases "unat lp dvd P")
    case True
    then have "erase mod (lp * page) = 0" by (intro word_unat_eqI) (simp add: unat_mod assms(1) m)
    then show ?thesis using nz True Suc.prems by (simp add: align_log_pages.simps[of erase page lp])
  next
    case False
    have "unat (erase mod (lp * page)) \<noteq> 0" using False assms(2) by (simp add: unat_mod assms(1) m mod_eq_0_iff_dvd)
    then have ne: "erase mod (lp * page) \<noteq> 0" by (metis unat_0)
    have "P * 1 \<le> P * unat page" using assms(2) by (intro mult_le_mono2) simp
    then have "P < 2 ^ LENGTH(32)" using bound by linarith
    then have u: "unat (lp + 1) = unat lp + 1" using Suc by (subst unat_add_nw) simp_all
    obtain r where "align_log_pages erase page (lp + 1) = Inr r" "unat lp + 1 \<le> unat r" "unat r \<le> P" "unat r dvd P"
    proof -
      have "d = P - unat (lp + 1)" "0 < unat (lp + 1)" "unat (lp + 1) \<le> P" using Suc.hyps(2) u by linarith+
      from Suc.hyps(1)[OF this] show ?thesis using that unfolding u by blast
    qed
    then show ?thesis using nz ne by (auto simp: align_log_pages.simps[of erase page lp])
  qed
qed

lemma power2_dvd_max: "a dvd 2 ^ k \<Longrightarrow> b dvd 2 ^ k \<Longrightarrow> max a b dvd (2 ^ k :: nat)"
  by (simp add: max_def)

lemma power2_dvd_min:
  assumes "a dvd (2 ^ k :: nat)"
  shows "min a (2 ^ m) dvd 2 ^ k"
proof (cases "2 ^ m \<le> a")
  case True
  moreover have "a \<le> 2 ^ k" using assms by (intro dvd_imp_le) simp_all
  ultimately have "(2::nat) ^ m \<le> 2 ^ k" by (rule order_trans)
  then have "m \<le> k" by (rule power_le_imp_le_exp[rotated]) simp
  then show ?thesis using True by (simp add: le_imp_power_dvd)
qed (use assms in simp)

lemma proper_dvd_half:
  assumes "a dvd (2 * n :: nat)" and "a \<noteq> 2 * n" and "0 < n"
  shows "a \<le> n"
proof -
  obtain q where q: "2 * n = a * q" using assms(1) by (elim dvdE)
  then have "q \<noteq> 0" "q \<noteq> 1" using assms(2,3) by (auto intro: Nat.gr0I)
  then have "a * 2 \<le> a * q" by (intro mult_le_mono2) simp
  then show ?thesis using q by linarith
qed

lemma full_log_pages_pow2:
  assumes "unat erase = 2 ^ k * unat page" and "0 < unat page" and "3 \<le> k"
    and "0 < unat blks" and "unat blks \<le> 2 ^ k" and "unat blks < 65535"
  shows "\<exists>lp. full_log_pages erase page U16_MAX blks = Inr lp \<and> unat lp dvd 2 ^ k \<and>
    min (unat blks) 256 \<le> unat lp \<and> unat lp \<le> 256"
proof -
  let ?P = "2 ^ k :: nat" and ?b = "min blks 256"
  obtain k' where k': "k = Suc k'" "2 \<le> k'" using assms(3) by (cases k) auto
  have b: "unat ?b = min (unat blks) 256" by (simp add: unat_min)
  have b1: "0 < unat ?b" "unat ?b \<le> ?P" using assms(4,5) by (simp_all add: b)
  have ppp: "unat (erase div page) = ?P" using assms(1,2) by (simp add: unat_div)
  have four: "(4::nat) \<le> 2 ^ k'" using power_increasing[OF k'(2), of "2::nat"] by simp
  obtain r1 where r1: "align_log_pages erase page ?b = Inr r1" "unat ?b \<le> unat r1" "unat r1 \<le> ?P" "unat r1 dvd ?P"
    using align_log_pages_ok[OF assms(1,2) b1] by blast
  have "\<exists>lp. try_align_log_pages 3 erase page ?b ?b = Some (Inr lp) \<and> unat lp dvd ?P \<and> unat ?b \<le> unat lp"
  proof (cases "r1 = erase div page \<or> \<not> r1 - ?b < 3")
    case True
    then show ?thesis using r1 by (auto simp: numeral_3_eq_3 word_less_nat_alt ppp)
  next
    case False
    then have "unat r1 \<noteq> ?P" using ppp word_unat_eqI by metis
    then have half: "unat r1 \<le> 2 ^ k'" using proper_dvd_half[of "unat r1" "2 ^ k'"] r1(4) k'(1) by simp
    have "?P < 2 ^ 32"
    proof -
      have "?P * 1 \<le> ?P * unat page" using assms(2) by (intro mult_le_mono2) simp
      moreover have "?P * unat page < 2 ^ 32" using unat_width[of erase] assms(1) by simp
      ultimately show ?thesis by linarith
    qed
    then have u: "unat (r1 + 3) = unat r1 + 3" using half four k'(1) by (subst unat_add_nw) simp_all
    obtain r2 where r2: "align_log_pages erase page (r1 + 3) = Inr r2" "unat r1 + 3 \<le> unat r2" "unat r2 \<le> ?P" "unat r2 dvd ?P"
      using align_log_pages_ok[OF assms(1,2), of "r1 + 3"] half four k'(1) by (auto simp: u)
    have "\<not> r2 - ?b < 3" using r2(2) r1(2)
      by (simp add: word_less_nat_alt unat_sub_nw[of ?b r2] word_le_nat_alt)
    then show ?thesis using False r1 r2 by (auto simp: numeral_3_eq_3 word_less_nat_alt ppp)
  qed
  then obtain lp where lp: "try_align_log_pages 3 erase page ?b ?b = Some (Inr lp)" "unat lp dvd ?P" "unat ?b \<le> unat lp"
    by blast
  let ?r = "min (max lp (erase div page div 8)) 256"
  have r: "unat ?r = min (max (unat lp) (?P div 8)) 256" using ppp by (simp add: unat_min unat_div max_def word_le_nat_alt)
  obtain j where j: "k = j + 3" using assms(3) by (metis add.commute le_iff_add)
  have "?P div 8 dvd ?P" by (simp add: j power_add)
  then have dvd: "unat ?r dvd ?P" using power2_dvd_min[of _ k 8] power2_dvd_max[OF lp(2)] unfolding r by simp
  have run: "full_log_pages erase page U16_MAX blks = Inr ?r"
  proof -
    have "blks \<noteq> 0" "page \<noteq> 0" using assms(2,4) by auto
    moreover have "\<not> ucast U16_MAX \<le> blks" using assms(6) by (simp add: word_le_nat_alt ucast_max)
    moreover have "\<not> erase div page < blks div 2" using assms(5) ppp by (simp add: word_less_nat_alt unat_div)
    moreover have "\<not> ucast U16_MAX \<le> ?r" by (simp add: word_le_nat_alt ucast_max r)
    ultimately show ?thesis using lp(1) by (simp add: full_log_pages_def Let_def del: min_less_iff_conj min.bounded_iff)
  qed
  have "min (unat blks) 256 \<le> unat ?r" "unat ?r \<le> 256" using lp(3) unfolding r b by simp_all
  with run dvd show ?thesis by blast
qed

end
