(* ===== verification/MkfsSegBmap.thy ===== *)
theory MkfsSegBmap
  imports MkfsLog
begin

text \<open>
  \<^verbatim>\<open>sbin/mkfs.ssdfs/segment_bitmap.c\<close>: mkfs sizes the segment bitmap, prepares its fragments,
  uses the bitmap in memory to give every reserved segment its number and every PEB its LEB,
  describes the bitmap in the volume header, and lays out and commits one log for each PEB of
  the bitmap's segments.

  The buffer of a PEB holds \<^verbatim>\<open>fragments_per_peb\<close> fragments of \<^verbatim>\<open>fragment_size\<close> bytes: a header of 32 bytes
  (magic 0, seg_index 2, peb_index 4, flags 6, start_item 8, sequence_id 16, fragment_bytes
  18, checksum 20, total_segs 24, clean_or_using 26, used_or_dirty 28, bad 30) and the bitmap with 4
  bits for each segment.
\<close>

abbreviation (input) SSDFS_SEGBMAP_SEGS :: nat where "SSDFS_SEGBMAP_SEGS \<equiv> 8"
abbreviation (input) SSDFS_SEGBMAP_SEG_COPY_MAX :: nat where "SSDFS_SEGBMAP_SEG_COPY_MAX \<equiv> 2"
abbreviation (input) SSDFS_SEGBMAP_HDR_MAGIC :: u16 where "SSDFS_SEGBMAP_HDR_MAGIC \<equiv> 0x534D"
abbreviation (input) SSDFS_SEG_BMAP_INO :: u64 where "SSDFS_SEG_BMAP_INO \<equiv> 14"
abbreviation (input) SSDFS_LEBS_PER_PEB_INDEX_DEFAULT :: u32 where "SSDFS_LEBS_PER_PEB_INDEX_DEFAULT \<equiv> 1"

text \<open>C division of \<^verbatim>\<open>int\<close>, which rounds towards zero.\<close>

definition c_div :: "int \<Rightarrow> int \<Rightarrow> int res" where
  "c_div a b = (if b = 0 then Inl DivZero else Inr (sgn a * sgn b * (\<bar>a\<bar> div \<bar>b\<bar>)))"

section \<open>Size of the segment bitmap\<close>

text \<open>\<^verbatim>\<open>(u8)((fragments + fragments_per_seg - 1) / fragments_per_seg)\<close>, computed in \<^verbatim>\<open>int\<close>.\<close>

definition segbmap_segs_of :: "u16 \<Rightarrow> u16 \<Rightarrow> u8 res" where
  "segbmap_segs_of fragments fragments_per_seg =
     bnd (c_div (uint fragments + uint fragments_per_seg - 1) (uint fragments_per_seg)) (\<lambda>q.
     Inr (word_of_int q))"

text \<open>\<^verbatim>\<open>x = a / b; if (a % b) x++; if (x == 0) x = 1;\<close>\<close>

definition div_up_or_1 :: "u16 \<Rightarrow> u16 \<Rightarrow> u16 res" where
  "div_up_or_1 a b =
     bnd (div_chk a b) (\<lambda>x.
     let x = (if a mod b \<noteq> 0 then x + 1 else x) in
     Inr (if x = 0 then 1 else x))"

text \<open>\<^verbatim>\<open>fragments_per_peb\<close> of a PEB whose payload is half of what two pages of metadata leave.\<close>

definition half_peb_fragments :: "u32 \<Rightarrow> u32 \<Rightarrow> u16 \<Rightarrow> u16 res" where
  "half_peb_fragments erase page fragments =
     (let payload_bytes = (erase - page * 2) div 2 in
      bnd (div_chk payload_bytes page) (\<lambda>q.
      let fragments_per_peb = (ucast q :: u16) in
      Inr (min (if fragments_per_peb = 0 then 1 else fragments_per_peb) fragments)))"

text \<open>
  The second half of the policy, from \<^verbatim>\<open>fragments_per_seg = fragments / segbmap_segs\<close> on: the fragments are
  spread evenly over the segments of the chain and the PEBs of a segment. The result: the layout, \<^verbatim>\<open>*segs\<close>
  and the returned segment state.
\<close>

definition segbmap_spread_fragments ::
  "ssdfs_volume_layout \<Rightarrow> u32 \<Rightarrow> u16 \<Rightarrow> u16 \<Rightarrow> u8 \<Rightarrow> (ssdfs_volume_layout \<times> int \<times> int) res" where
  "segbmap_spread_fragments layout bmap_bytes fragments pebs_per_seg segbmap_segs =
     bnd (div_up_or_1 fragments (ucast segbmap_segs)) (\<lambda>fragments_per_seg.
     bnd (div_up_or_1 fragments_per_seg pebs_per_seg) (\<lambda>fragments_per_peb.
     bnd (div_up_or_1 fragments_per_seg fragments_per_peb) (\<lambda>pebs_per_seg.
     let segs = (if sg_has_backup_copy (vl_segbmap layout) then uint segbmap_segs * 2 else uint segbmap_segs) in
     bnd (nth_int (vl_meta_array layout) SSDFS_SEGBMAP) (\<lambda>meta.
     bnd (upd_int (vl_meta_array layout) SSDFS_SEGBMAP
           (meta\<lparr>md_segs_count := segs, md_seg_state := SSDFS_DEDICATED_SEGMENT\<rparr>)) (\<lambda>arr.
     Inr (layout\<lparr>vl_segbmap := (vl_segbmap layout)\<lparr>sg_bmap_bytes := bmap_bytes, sg_fragments_per_peb := fragments_per_peb,
             sg_pebs_per_seg := pebs_per_seg,
             sg_segs_per_chain := (if (ucast (sg_segs_per_chain (vl_segbmap layout)) :: u8) \<noteq> segbmap_segs
                                   then ucast segbmap_segs else sg_segs_per_chain (vl_segbmap layout)),
             sg_fragments_count := ucast fragments, sg_fragment_size := ucast (vl_page_size layout)\<rparr>,
           vl_meta_array := arr\<rparr>, segs, SSDFS_DEDICATED_SEGMENT))))))"

definition segbmap_mkfs_allocation_policy ::
  "ssdfs_volume_layout \<Rightarrow> (ssdfs_volume_layout \<times> int \<times> int) res" where
  "segbmap_mkfs_allocation_policy layout =
     (let fragment_size = vl_page_size layout; erase = erase_size (vl_env layout) in
     bnd (div_chk (fs_size (vl_env layout)) (vl_seg_size layout)) (\<lambda>seg_nums.
     bnd (SEG_BMAP_BYTES seg_nums) (\<lambda>bmap_bytes.
     bnd (SEG_BMAP_FRAGMENTS seg_nums PAGE_CACHE_SIZE) (\<lambda>fragments.
     bnd (div_chk (vl_seg_size layout) (ucast erase)) (\<lambda>q.
     let pebs_per_seg = (ucast q :: u16) in
     let fragments_per_peb = sg_fragments_per_peb (vl_segbmap layout) in
     bnd (segbmap_segs_of fragments (fragments_per_peb * pebs_per_seg)) (\<lambda>segbmap_segs.
     bnd (if erase < (ucast fragments_per_peb) * fragment_size \<or> segbmap_segs > 8
          then half_peb_fragments erase fragment_size fragments else Inr fragments_per_peb) (\<lambda>fragments_per_peb.
     bnd (segbmap_segs_of fragments (fragments_per_peb * pebs_per_seg)) (\<lambda>segbmap_segs.
     bnd (fail_if (segbmap_segs > 8) E2BIG) (\<lambda>_.
     segbmap_spread_fragments layout bmap_bytes fragments pebs_per_seg segbmap_segs)))))))))"

section \<open>Fragments\<close>

text \<open>\<open>alloc_ok 0\<close> is the allocation of the array, \<open>alloc_ok (Suc i)\<close> that of the buffer \<open>i\<close>.\<close>

definition segbmap_create_fragments_array ::
  "(nat \<Rightarrow> bool) \<Rightarrow> ssdfs_volume_layout \<Rightarrow> ssdfs_volume_layout res" where
  "segbmap_create_fragments_array alloc_ok layout =
     (let sg = vl_segbmap layout;
          peb_buffer_size = sg_fragment_size sg * ucast (sg_fragments_per_peb sg);
          buffers_count = unat (sg_segs_per_chain sg) * unat (sg_pebs_per_seg sg) in
      bnd (fail_if (\<not> (\<forall>i \<le> buffers_count. alloc_ok i)) ENOMEM) (\<lambda>_.
      Inr (layout\<lparr>vl_segbmap := sg\<lparr>sg_fragments_array :=
        Some (replicate buffers_count (Some (replicate (unat peb_buffer_size) 0)))\<rparr>\<rparr>)))"

definition segbmap_destroy_fragments_array :: "ssdfs_volume_layout \<Rightarrow> ssdfs_volume_layout" where
  "segbmap_destroy_fragments_array layout =
     layout\<lparr>vl_segbmap := (vl_segbmap layout)\<lparr>sg_fragments_array := None\<rparr>\<rparr>"

text \<open>\<open>sg_buffer\<close> is \<^verbatim>\<open>layout->segbmap.fragments_array[i]\<close>.\<close>

definition sg_buffer :: "ssdfs_volume_layout \<Rightarrow> nat \<Rightarrow> buf option res" where
  "sg_buffer layout i = bnd (deref (sg_fragments_array (vl_segbmap layout))) (\<lambda>fs. nth_chk fs i)"

definition sg_put_buffer :: "ssdfs_volume_layout \<Rightarrow> nat \<Rightarrow> buf option \<Rightarrow> ssdfs_volume_layout res" where
  "sg_put_buffer layout i b =
     bnd (deref (sg_fragments_array (vl_segbmap layout))) (\<lambda>fs.
     bnd (upd_chk fs i b) (\<lambda>fs.
     Inr (layout\<lparr>vl_segbmap := (vl_segbmap layout)\<lparr>sg_fragments_array := Some fs\<rparr>\<rparr>)))"

text \<open>The header of a fragment at offset \<open>p\<close> of the buffer of its PEB.\<close>

definition segbmap_fragment_header :: "buf \<Rightarrow> nat \<Rightarrow> u16 \<Rightarrow> u16 \<Rightarrow> u64 \<Rightarrow> u16 \<Rightarrow> u16 \<Rightarrow> u16 \<Rightarrow> buf res" where
  "segbmap_fragment_header b p seg_index peb_index start_item sequence_id frag_bytes items =
     bnd (wr16 b p SSDFS_SEGBMAP_HDR_MAGIC) (\<lambda>b.
     bnd (wr16 b (p + 2) seg_index) (\<lambda>b.
     bnd (wr16 b (p + 4) peb_index) (\<lambda>b.
     bnd (wr8 b (p + 6) 0) (\<lambda>b.
     bnd (wr64 b (p + 8) start_item) (\<lambda>b.
     bnd (wr16 b (p + 16) sequence_id) (\<lambda>b.
     bnd (wr16 b (p + 18) frag_bytes) (\<lambda>b.
     bnd (wr16 b (p + 24) items) (\<lambda>b.
     bnd (wr16 b (p + 26) items) (\<lambda>b.
     bnd (wr16 b (p + 28) 0) (\<lambda>b.
     wr16 b (p + 30) 0))))))))))"

definition segbmap_prepare_fragment :: "ssdfs_volume_layout \<Rightarrow> nat \<Rightarrow> ssdfs_volume_layout res" where
  "segbmap_prepare_fragment layout index =
     (let sg = vl_segbmap layout;
          fragments = (ucast (sg_fragments_count sg) :: u16);
          fpp = sg_fragments_per_peb sg;
          fps = sg_pebs_per_seg sg * fpp in
     bnd (fail_if (unat fragments \<le> index) EINVAL) (\<lambda>_.
     bnd (div_chk (fs_size (vl_env layout)) (vl_seg_size layout)) (\<lambda>seg_nums.
     bnd (c_div (int index) (uint fps)) (\<lambda>q.
     let seg_index = (word_of_int q :: u16) in
     bnd (c_div (uint seg_index * uint fps - int index) (uint fpp)) (\<lambda>q.
     let peb_index = (word_of_int q :: u16) in
     bnd (sg_buffer layout (index div unat fpp)) (\<lambda>ptr.
     bnd (ssdfs_segbmap_define_first_fragment_item (int index) PAGE_CACHE_SIZE) (\<lambda>start_item.
     bnd (fail_if (seg_nums \<le> start_item) ERANGE) (\<lambda>_.
     bnd (ssdfs_segbmap_payload_bytes_per_fragment PAGE_CACHE_SIZE) (\<lambda>payload_bytes.
     let frag_bytes = min (ucast (sg_bmap_bytes sg) + ucast fragments * 32
                           - of_nat index * (ucast payload_bytes + 32)) PAGE_CACHE_SIZE :: u64 in
     bnd (BUG_ON (0xFFFF \<le> frag_bytes)) (\<lambda>_.
     bnd (ssdfs_segbmap_items_per_fragment PAGE_CACHE_SIZE) (\<lambda>items.
     let items = (ucast (min (ucast items) (seg_nums - start_item) :: u64) :: u32) in
     bnd (BUG_ON (0xFFFF \<le> items)) (\<lambda>_.
     bnd (deref ptr) (\<lambda>b.
     bnd (segbmap_fragment_header b (index mod unat fpp * unat (sg_fragment_size sg)) seg_index peb_index start_item
            (of_nat index) (ucast frag_bytes) (ucast items)) (\<lambda>b.
     sg_put_buffer layout (index div unat fpp) (Some b)))))))))))))))"

definition segbmap_mkfs_prepare :: "(nat \<Rightarrow> bool) \<Rightarrow> ssdfs_volume_layout \<Rightarrow> ssdfs_volume_layout res" where
  "segbmap_mkfs_prepare alloc_ok layout =
     (let fragments = (ucast (sg_fragments_count (vl_segbmap layout)) :: u16) in
     bnd (reserve_segments layout SSDFS_SEGBMAP) (\<lambda>layout.
     bnd (segbmap_create_fragments_array alloc_ok layout) (\<lambda>layout.
     for_res 0 (unat fragments) (\<lambda>i layout. segbmap_prepare_fragment layout i) layout)))"

section \<open>Numbers of segments and LEBs\<close>

text \<open>\<^verbatim>\<open>desc->pebs[i].leb_id = leb\<close>\<close>

definition set_leb :: "ssdfs_segment_desc \<Rightarrow> nat \<Rightarrow> u64 \<Rightarrow> ssdfs_segment_desc res" where
  "set_leb desc i leb =
     bnd (nth_chk (sd_pebs desc) i) (\<lambda>peb.
     bnd (upd_chk (sd_pebs desc) i (peb\<lparr>pc_leb_id := leb\<rparr>)) (\<lambda>ps. Inr (desc\<lparr>sd_pebs := ps\<rparr>)))"

definition define_leb_id :: "ssdfs_volume_layout \<Rightarrow> ssdfs_segment_desc \<Rightarrow> ssdfs_segment_desc res" where
  "define_leb_id layout desc =
     (let start_leb_id = (if vl_lebs_per_peb_index layout = SSDFS_LEBS_PER_PEB_INDEX_DEFAULT
                          then sd_seg_id desc * ucast (sd_pebs_capacity desc) else sd_seg_id desc);
          pebs_capacity = (if sd_seg_type desc = SSDFS_INITIAL_SNAPSHOT then 1
                           else if sd_seg_type desc = SSDFS_SEGBMAP then unat (sg_pebs_per_seg (vl_segbmap layout))
                           else unat (sd_pebs_capacity desc)) in
     bnd (for_res 0 (unat (sd_pebs_capacity desc)) (\<lambda>i desc. set_leb desc i U64_MAX) desc) (\<lambda>desc.
     for_res 0 pebs_capacity (\<lambda>i desc.
       set_leb desc i (start_leb_id + ucast (of_nat i * vl_lebs_per_peb_index layout))) desc))"

text \<open>
  The search for a clean segment in the fragments of the first PEB; \<open>n\<close> more fragments can be tried
  after \<open>fragment_index\<close>. An error that the search returns before it stores \<^verbatim>\<open>found_seg\<close>
  leaves \<^verbatim>\<open>found_seg == U64_MAX\<close> and is handled as \<^verbatim>\<open>-ENODATA\<close>. The result is the number and the
  changed buffer.
\<close>

fun try_fragment :: "u64 \<Rightarrow> int \<Rightarrow> nat \<Rightarrow> buf \<Rightarrow> nat \<Rightarrow> nat \<Rightarrow> (u64 \<times> buf) res" where
  "try_fragment nsegs new_state fragment_size buffer fragment_index n =
     (let p = fragment_index * fragment_size;
          next_fragment = (\<lambda>buffer. case n of 0 \<Rightarrow> Inl (Errno ERANGE)
            | Suc n \<Rightarrow> try_fragment nsegs new_state fragment_size buffer (Suc fragment_index) n) in
      case SET_FIRST_CLEAN_ITEM_IN_FRAGMENT (drop p buffer) (drop (p + 32) buffer) 0 nsegs PAGE_CACHE_SIZE new_state of
        Inl (Errno e) \<Rightarrow> next_fragment buffer
      | Inl f \<Rightarrow> Inl f
      | Inr (err, found_seg, bmap) \<Rightarrow>
          let buffer = take (p + 32) buffer @ bmap in
          if err = Some ENODATA \<or> found_seg = U64_MAX then next_fragment buffer
          else case err of Some e \<Rightarrow> Inl (Errno e) | None \<Rightarrow> Inr (found_seg, buffer))"

declare try_fragment.simps [simp del]

text \<open>\<open>seg_at\<close> and \<open>put_seg\<close> access \<^verbatim>\<open>layout->segs[i]\<close>.\<close>

definition seg_at :: "ssdfs_volume_layout \<Rightarrow> int \<Rightarrow> ssdfs_segment_desc res" where
  "seg_at layout i = nth_int (vl_segs layout) i"

definition put_seg :: "ssdfs_volume_layout \<Rightarrow> int \<Rightarrow> ssdfs_segment_desc \<Rightarrow> ssdfs_volume_layout res" where
  "put_seg layout i desc = bnd (upd_int (vl_segs layout) i desc) (\<lambda>ss. Inr (layout\<lparr>vl_segs := ss\<rparr>))"

text \<open>The functions get a pointer into \<^verbatim>\<open>layout->segs\<close>; here it is the index of the descriptor.\<close>

definition define_seg_id :: "ssdfs_volume_layout \<Rightarrow> int \<Rightarrow> int \<Rightarrow> ssdfs_volume_layout res" where
  "define_seg_id layout new_state i =
     bnd (div_chk (fs_size (vl_env layout)) (vl_seg_size layout)) (\<lambda>nsegs.
     bnd (sg_buffer layout 0) (\<lambda>ptr.
     bnd (deref ptr) (\<lambda>buffer.
     bnd (try_fragment nsegs new_state (unat (sg_fragment_size (vl_segbmap layout))) buffer 0
            (unat (sg_fragments_per_peb (vl_segbmap layout)) - 1)) (\<lambda>(found_seg, buffer).
     bnd (sg_put_buffer layout 0 (Some buffer)) (\<lambda>layout.
     bnd (seg_at layout i) (\<lambda>desc.
     bnd (define_leb_id layout (desc\<lparr>sd_seg_id := found_seg\<rparr>)) (\<lambda>desc.
     put_seg layout i desc)))))))"

text \<open>A function of the table \<^verbatim>\<open>define_seg\<close> that checks the type and searches a segment.\<close>

definition define_typed_seg_id :: "int \<Rightarrow> ssdfs_volume_layout \<Rightarrow> int \<Rightarrow> ssdfs_volume_layout res" where
  "define_typed_seg_id ty layout i =
     bnd (seg_at layout i) (\<lambda>desc.
     bnd (fail_if (sd_seg_type desc \<noteq> ty) ERANGE) (\<lambda>_.
     define_seg_id layout SSDFS_SEG_RESERVED i))"

definition define_snap_seg_id :: "ssdfs_volume_layout \<Rightarrow> int \<Rightarrow> ssdfs_volume_layout res" where
  "define_snap_seg_id = define_typed_seg_id SSDFS_INITIAL_SNAPSHOT"

definition define_sb_seg_id :: "ssdfs_volume_layout \<Rightarrow> int \<Rightarrow> ssdfs_volume_layout res" where
  "define_sb_seg_id = define_typed_seg_id SSDFS_SUPERBLOCK"

definition define_segbmap_seg_id :: "ssdfs_volume_layout \<Rightarrow> int \<Rightarrow> ssdfs_volume_layout res" where
  "define_segbmap_seg_id = define_typed_seg_id SSDFS_SEGBMAP"

definition define_maptbl_seg_id :: "ssdfs_volume_layout \<Rightarrow> int \<Rightarrow> ssdfs_volume_layout res" where
  "define_maptbl_seg_id = define_typed_seg_id SSDFS_PEB_MAPPING_TABLE"

definition define_user_data_seg_id :: "ssdfs_volume_layout \<Rightarrow> int \<Rightarrow> ssdfs_volume_layout res" where
  "define_user_data_seg_id layout i =
     bnd (seg_at layout i) (\<lambda>desc.
     bnd (fail_if (sd_seg_type desc \<noteq> SSDFS_USER_DATA) ERANGE) (\<lambda>_. Inr layout))"

definition define_seg :: "(ssdfs_volume_layout \<Rightarrow> int \<Rightarrow> ssdfs_volume_layout res) list" where
  "define_seg = [define_snap_seg_id, define_sb_seg_id, define_segbmap_seg_id, define_maptbl_seg_id,
     define_user_data_seg_id]"

section \<open>Description in the volume header\<close>

definition segbmap_compr_flag :: "int \<Rightarrow> u16 res" where
  "segbmap_compr_flag compression =
     (if compression = SSDFS_UNCOMPRESSED_BLOB then Inr 0
      else if compression = SSDFS_ZLIB_BLOB then Inr 4
      else if compression = SSDFS_LZO_BLOB then Inr 8
      else if compression = SSDFS_LZ4_BLOB then Inr 16
      else if compression = SSDFS_ZSTD_BLOB then Inr 32
      else Inl (Errno ERANGE))"

text \<open>
  The loops over \<^verbatim>\<open>hdr->segs[i][j]\<close> (at 0xC0 of the volume header, 16 bytes for each \<open>i\<close>): the state is the
  volume header and \<^verbatim>\<open>seg_index\<close>. Without a backup copy the inner loop stops after \<open>j = 0\<close>.
\<close>

definition segbmap_chain_entry :: "ssdfs_volume_layout \<Rightarrow> nat \<Rightarrow> nat \<Rightarrow> buf \<times> int \<Rightarrow> (buf \<times> int) res" where
  "segbmap_chain_entry layout i j = (\<lambda>(vh, seg_index).
     bnd (seg_at layout seg_index) (\<lambda>seg.
     bnd (fail_if (sd_seg_type seg \<noteq> SSDFS_SEGBMAP) ERANGE) (\<lambda>_.
     bnd (wr64 vh (0xC0 + 16 * i + 8 * j) (sd_seg_id seg)) (\<lambda>vh.
     Inr (vh, seg_index + 1)))))"

definition segbmap_sb_fields :: "ssdfs_segbmap_layout \<Rightarrow> buf \<Rightarrow> buf res" where
  "segbmap_sb_fields sg vh =
     (let fpp = (ucast (sg_fragments_per_peb sg) :: u32);
          fps = fpp * ucast (sg_pebs_per_seg sg) in
     bnd (BUG_ON (0xFFFF \<le> sg_fragments_count sg)) (\<lambda>_.
     bnd (wr16 vh 0xB0 (ucast (sg_fragments_count sg))) (\<lambda>vh.
     bnd (BUG_ON (0xFFFF \<le> fps)) (\<lambda>_.
     bnd (wr16 vh 0xB2 (ucast fps)) (\<lambda>vh.
     bnd (wr16 vh 0xB4 (ucast fpp)) (\<lambda>vh.
     bnd (BUG_ON (0xFFFF \<le> sg_fragment_size sg)) (\<lambda>_.
     bnd (wr16 vh 0xB6 PAGE_CACHE_SIZE) (\<lambda>vh.
     bnd (wr32 vh 0xB8 (sg_bmap_bytes sg)) (\<lambda>vh.
     bnd (segbmap_compr_flag (sg_compression sg)) (\<lambda>compr.
     bnd (wr16 vh 0xBC ((if sg_has_backup_copy sg then 1 else 0) OR compr)) (\<lambda>vh.
     bnd (wr16 vh 0xBE (sg_segs_per_chain sg)) (\<lambda>vh.
     for_res 0 (SSDFS_SEGBMAP_SEGS * SSDFS_SEGBMAP_SEG_COPY_MAX) (\<lambda>k vh. wr64 vh (0xC0 + 8 * k) U64_MAX) vh))))))))))))"

definition init_segbmap_sb_header :: "ssdfs_volume_layout \<Rightarrow> ssdfs_volume_layout res" where
  "init_segbmap_sb_header layout =
     (let sg = vl_segbmap layout in
     bnd (segbmap_sb_fields sg (sb_vh (vl_sb layout))) (\<lambda>vh.
     bnd (nth_int (vl_meta_array layout) SSDFS_SEGBMAP) (\<lambda>desc.
     bnd (BUG_ON (8 < sg_segs_per_chain sg)) (\<lambda>_.
     bnd (for_res 0 (unat (sg_segs_per_chain sg)) (\<lambda>i.
            for_res 0 (if sg_has_backup_copy sg then SSDFS_SEGBMAP_SEG_COPY_MAX else 1) (segbmap_chain_entry layout i))
          (vh, md_start_seg_index desc)) (\<lambda>(vh, seg_index).
     Inr (layout\<lparr>vl_sb := (vl_sb layout)\<lparr>sb_vh := vh\<rparr>\<rparr>))))))"

definition set_segbmap_presence_flag :: "ssdfs_volume_layout \<Rightarrow> ssdfs_volume_layout res" where
  "set_segbmap_presence_flag layout =
     bnd (rd64 (sb_vs (vl_sb layout)) 0x38) (\<lambda>feature_compat.
     bnd (wr64 (sb_vs (vl_sb layout)) 0x38 (feature_compat OR 1)) (\<lambda>vs.
     Inr (layout\<lparr>vl_sb := (vl_sb layout)\<lparr>sb_vs := vs\<rparr>\<rparr>)))"

definition validate_segment :: "nat \<Rightarrow> ssdfs_volume_layout \<Rightarrow> ssdfs_volume_layout res" where
  "validate_segment i layout =
     bnd (seg_at layout (int i)) (\<lambda>seg.
     bnd (fail_if (sd_seg_type seg < 0 \<or> SSDFS_METADATA_ITEMS_MAX \<le> sd_seg_type seg) ERANGE) (\<lambda>_.
     (define_seg ! nat (sd_seg_type seg)) layout (int i)))"

definition segbmap_mkfs_validate :: "ssdfs_volume_layout \<Rightarrow> ssdfs_volume_layout res" where
  "segbmap_mkfs_validate layout =
     bnd (div_chk (vl_seg_size layout) (ucast (erase_size (vl_env layout)))) (\<lambda>q.
     let pebs_per_seg = (ucast q :: u32) in
     bnd (for_res 0 (nat (vl_segs_capacity layout)) validate_segment layout) (\<lambda>layout.
     bnd (init_segbmap_sb_header layout) (\<lambda>layout.
     let sg = vl_segbmap layout;
         threshold = (if sg_migration_threshold sg = U16_MAX then vl_migration_threshold layout
                      else if pebs_per_seg < ucast (sg_migration_threshold sg) then ucast pebs_per_seg
                      else sg_migration_threshold sg) in
     set_segbmap_presence_flag (layout\<lparr>vl_segbmap := sg\<lparr>sg_migration_threshold := threshold\<rparr>\<rparr>))))"

section \<open>Logs of the segment bitmap\<close>

definition segbmap_set_log_pages :: "ssdfs_volume_layout \<Rightarrow> u32 \<Rightarrow> ssdfs_volume_layout res" where
  "segbmap_set_log_pages layout blks =
     bnd (full_log_pages (erase_size (vl_env layout)) (vl_page_size layout) (sg_log_pages (vl_segbmap layout)) blks)
       (\<lambda>log_pages.
     bnd (wr16 (sb_vh (vl_sb layout)) 0x1D2 (ucast log_pages)) (\<lambda>vh.
     Inr (layout\<lparr>vl_segbmap := (vl_segbmap layout)\<lparr>sg_log_pages := ucast log_pages\<rparr>,
                 vl_sb := (vl_sb layout)\<lparr>sb_vh := vh\<rparr>\<rparr>)))"

definition segbmap_log_kind :: log_kind where
  "segbmap_log_kind =
     \<lparr>lk_seg_type = SSDFS_SEGBMAP_SEG_TYPE, lk_ino = SSDFS_SEG_BMAP_INO,
      lk_take = (\<lambda>layout i. bnd (sg_buffer layout i) (\<lambda>b. bnd (sg_put_buffer layout i None) (\<lambda>layout. Inr (b, layout))))\<rparr>"

definition segbmap_segs_check :: "ssdfs_volume_layout \<Rightarrow> ssdfs_metadata_desc \<Rightarrow> unit res" where
  "segbmap_segs_check layout meta_desc =
     bnd (fail_if (md_segs_count meta_desc \<le> 0 \<or> 16 < md_segs_count meta_desc) ERANGE) (\<lambda>_.
     fail_if (vl_segs_capacity layout \<le> md_start_seg_index meta_desc) ERANGE)"

definition segbmap_mkfs_define_layout ::
  "crc_fun \<Rightarrow> 's codec_libs \<Rightarrow> (nat \<Rightarrow> int \<Rightarrow> bool) \<Rightarrow> ssdfs_volume_layout \<Rightarrow> ssdfs_volume_layout res" where
  "segbmap_mkfs_define_layout crc32 libs alloc_ok layout =
     (let sg = vl_segbmap layout;
          peb_buffer_size = sg_fragment_size sg * ucast (sg_fragments_per_peb sg) in
     bnd (nth_int (vl_meta_array layout) SSDFS_SEGBMAP) (\<lambda>meta_desc.
     bnd (segbmap_segs_check layout meta_desc) (\<lambda>_.
     bnd (fail_if (vl_segs_capacity layout < vl_segs_count layout + md_segs_count meta_desc) E2BIG) (\<lambda>_.
     bnd (div_chk (peb_buffer_size + ucast (vl_page_size layout) - 1) (ucast (vl_page_size layout))) (\<lambda>valid_blks.
     bnd (for_res 0 (nat (md_segs_count meta_desc))
           (define_segment_logs crc32 libs alloc_ok segbmap_log_kind (unat (sg_fragments_count sg)) (sg_fragment_size sg)
              peb_buffer_size (ucast valid_blks) (unat (sg_pebs_per_seg sg)) (md_start_seg_index meta_desc))
           \<lparr>ll_layout = layout, ll_fragment = 0, ll_log_pages = 0, ll_payload = 0, ll_start_blk = 0\<rparr>) (\<lambda>st.
     segbmap_set_log_pages (ll_layout st) (ll_log_pages st)))))))"

text \<open>\<^verbatim>\<open>calculate_peb_fragments_checksum\<close>: the checksum field is 0 while the sum is computed.\<close>

definition segbmap_fragment_checksum :: "crc_fun \<Rightarrow> u64 \<Rightarrow> nat \<Rightarrow> buf \<Rightarrow> buf res" where
  "segbmap_fragment_checksum crc32 fragment_size i b =
     (let ptr = i * unat fragment_size in
     bnd (rd16 b (ptr + 18)) (\<lambda>frag_bytes.
     bnd (wr32 b (ptr + 20) 0) (\<lambda>b.
     bnd (ssdfs_crc32_le (crc32 0) b ptr (unat frag_bytes)) (\<lambda>csum.
     wr32 b (ptr + 20) csum))))"

definition segbmap_peb_fragments_checksum :: "crc_fun \<Rightarrow> ssdfs_volume_layout \<Rightarrow> buf \<Rightarrow> buf res" where
  "segbmap_peb_fragments_checksum crc32 layout fragments =
     for_res 0 (unat (sg_fragments_per_peb (vl_segbmap layout)))
       (segbmap_fragment_checksum crc32 (sg_fragment_size (vl_segbmap layout))) fragments"

definition segbmap_commit_kind :: "crc_fun \<Rightarrow> commit_kind" where
  "segbmap_commit_kind crc32 =
     \<lparr>ck_seg_type = 3, ck_magic = SSDFS_SEGBMAP_HDR_MAGIC, ck_checksum = segbmap_peb_fragments_checksum crc32,
      ck_threshold = segbmap_define_migration_threshold\<rparr>"

definition segbmap_mkfs_commit :: "crc_fun \<Rightarrow> ssdfs_volume_layout \<Rightarrow> ssdfs_volume_layout res" where
  "segbmap_mkfs_commit crc32 layout =
     (let sg = vl_segbmap layout in
     bnd (nth_int (vl_meta_array layout) SSDFS_SEGBMAP) (\<lambda>meta_desc.
     bnd (segbmap_segs_check layout meta_desc) (\<lambda>_.
     bnd (for_res 0 (nat (md_segs_count meta_desc))
           (commit_segment_logs crc32 (segbmap_commit_kind crc32) (unat (sg_fragments_count sg)) (unat (sg_pebs_per_seg sg))
              (md_start_seg_index meta_desc)) (layout, 0)) (\<lambda>(layout, fragment_index).
     Inr (layout\<lparr>vl_segs_count := vl_segs_count layout + md_segs_count meta_desc\<rparr>)))))"

section \<open>Numbering: lemmas\<close>

definition set_lebs :: "(nat \<Rightarrow> u64) \<Rightarrow> nat \<Rightarrow> ssdfs_segment_desc \<Rightarrow> ssdfs_segment_desc" where
  "set_lebs f n desc = desc\<lparr>sd_pebs := map (\<lambda>j. if j < n then (sd_pebs desc ! j)\<lparr>pc_leb_id := f j\<rparr> else sd_pebs desc ! j)
     [0..<length (sd_pebs desc)]\<rparr>"

lemma set_lebs_0 [simp]: "set_lebs f 0 desc = desc"
  by (simp add: set_lebs_def map_nth)

lemma set_leb_step:
  assumes "i < length (sd_pebs desc)"
  shows "set_leb (set_lebs f i desc) i (f i) = Inr (set_lebs f (Suc i) desc)"
proof -
  have "(map (\<lambda>j. if j < i then (sd_pebs desc ! j)\<lparr>pc_leb_id := f j\<rparr> else sd_pebs desc ! j) [0..<length (sd_pebs desc)])
      [i := (sd_pebs desc ! i)\<lparr>pc_leb_id := f i\<rparr>] =
      map (\<lambda>j. if j < Suc i then (sd_pebs desc ! j)\<lparr>pc_leb_id := f j\<rparr> else sd_pebs desc ! j) [0..<length (sd_pebs desc)]"
    by (rule nth_equalityI) (use assms in \<open>auto simp: nth_list_update\<close>)
  then show ?thesis using assms by (simp add: set_leb_def set_lebs_def)
qed

lemma set_leb_run:
  "n \<le> length (sd_pebs desc) \<Longrightarrow> for_res 0 n (\<lambda>i desc. set_leb desc i (f i)) desc = Inr (set_lebs f n desc)"
  using for_res_run[of 0 n "\<lambda>i desc. set_leb desc i (f i)" "\<lambda>k. set_lebs f k desc" n] set_leb_step by simp

text \<open>The PEBs of a segment that get a LEB, and the LEBs they get.\<close>

definition lebs_in_segment :: "ssdfs_volume_layout \<Rightarrow> ssdfs_segment_desc \<Rightarrow> nat" where
  "lebs_in_segment layout desc =
     (if sd_seg_type desc = SSDFS_INITIAL_SNAPSHOT then 1
      else if sd_seg_type desc = SSDFS_SEGBMAP then unat (sg_pebs_per_seg (vl_segbmap layout))
      else unat (sd_pebs_capacity desc))"

definition leb_of_peb :: "ssdfs_volume_layout \<Rightarrow> ssdfs_segment_desc \<Rightarrow> u64 \<Rightarrow> nat \<Rightarrow> u64" where
  "leb_of_peb layout desc seg_id j =
     (if vl_lebs_per_peb_index layout = 1 then seg_id * ucast (sd_pebs_capacity desc) else seg_id) +
     ucast (of_nat j * vl_lebs_per_peb_index layout)"

definition number_segment :: "ssdfs_volume_layout \<Rightarrow> nat \<Rightarrow> ssdfs_segment_desc \<Rightarrow> ssdfs_segment_desc" where
  "number_segment layout m desc =
     set_lebs (leb_of_peb layout desc (of_nat m)) (lebs_in_segment layout desc)
       (set_lebs (\<lambda>_. U64_MAX) (unat (sd_pebs_capacity desc)) (desc\<lparr>sd_seg_id := of_nat m\<rparr>))"

definition segment_wf :: "ssdfs_volume_layout \<Rightarrow> ssdfs_segment_desc \<Rightarrow> bool" where
  "segment_wf layout desc \<longleftrightarrow> 0 \<le> sd_seg_type desc \<and> sd_seg_type desc \<le> SSDFS_PEB_MAPPING_TABLE \<and>
     length (sd_pebs desc) = unat (sd_pebs_capacity desc) \<and> lebs_in_segment layout desc \<le> length (sd_pebs desc)"

lemma define_leb_id_run:
  assumes "segment_wf layout desc"
  shows "define_leb_id layout (desc\<lparr>sd_seg_id := of_nat m\<rparr>) = Inr (number_segment layout m desc)"
proof -
  let ?d = "desc\<lparr>sd_seg_id := of_nat m\<rparr>"
  have len: "length (sd_pebs ?d) = unat (sd_pebs_capacity ?d)" using assms by (simp add: segment_wf_def)
  have first: "for_res 0 (unat (sd_pebs_capacity ?d)) (\<lambda>i desc. set_leb desc i U64_MAX) ?d =
      Inr (set_lebs (\<lambda>_. U64_MAX) (unat (sd_pebs_capacity ?d)) ?d)"
    by (rule set_leb_run) (simp only: len order_refl)
  let ?d' = "set_lebs (\<lambda>_. U64_MAX) (unat (sd_pebs_capacity ?d)) ?d"
  have "for_res 0 (lebs_in_segment layout desc) (\<lambda>i d. set_leb d i (leb_of_peb layout desc (of_nat m) i)) ?d' =
      Inr (number_segment layout m desc)"
    using assms unfolding number_segment_def
    by (subst set_leb_run) (simp_all add: segment_wf_def set_lebs_def)
  moreover have "define_leb_id layout ?d =
      bnd (for_res 0 (unat (sd_pebs_capacity ?d)) (\<lambda>i desc. set_leb desc i U64_MAX) ?d)
        (for_res 0 (lebs_in_segment layout desc) (\<lambda>i d. set_leb d i (leb_of_peb layout desc (of_nat m) i)))"
    unfolding define_leb_id_def leb_of_peb_def lebs_in_segment_def Let_def by simp
  ultimately show ?thesis using first by simp
qed

text \<open>The first fragment of the bitmap with the first \<open>m\<close> segments reserved and the rest clean.\<close>

definition segments_taken :: "u64 \<Rightarrow> nat \<Rightarrow> buf \<Rightarrow> bool" where
  "segments_taken nsegs m b \<longleftrightarrow> search_ready b (drop 32 b) 0 nsegs 4096 \<and> get64 b 8 = 0 \<and>
     (\<forall>i < search_limit b nsegs. bmap_item SSDFS_SEG_STATE_BITS (drop 32 b) i =
        (if i < m then SSDFS_SEG_RESERVED else SSDFS_SEG_CLEAN))"

lemma take_segment:
  assumes "segments_taken nsegs m b" and "m < search_limit b nsegs" and "m < unat nsegs"
  shows "\<exists>b'. try_fragment nsegs SSDFS_SEG_RESERVED fs b 0 n = Inr (of_nat m, b') \<and>
    segments_taken nsegs (Suc m) b' \<and> take 32 b' = take 32 b \<and> length b' = length b"
proof -
  note t = assms(1)[unfolded segments_taken_def]
  have r: "search_ready b (drop 32 b) 0 nsegs 4096" using t by simp
  have off: "search_offset b 0 = 0" "search_from b 0 = 0" using t by (simp_all add: search_offset_def search_from_def)
  have len: "32 \<le> length b" using r by (simp add: search_ready_def)
  have fc: "first_clean (drop 32 b) (search_from b 0) (search_limit b nsegs) m"
    using t assms(2) off by (auto simp: first_clean_def const_defs)
  define bm where "bm = set_seg (drop 32 b) m SSDFS_SEG_RESERVED"
  have found: "SET_FIRST_CLEAN_ITEM_IN_FRAGMENT b (drop 32 b) 0 nsegs 4096 SSDFS_SEG_RESERVED = Inr (None, of_nat m, bm)"
    and area: "area_set SSDFS_SEG_STATE_BITS (drop 32 b) bm m (Suc m) SSDFS_SEG_RESERVED"
    using clean_item_found[OF r _ _ _ fc, of SSDFS_SEG_RESERVED] off t assms(3) by (simp_all add: const_defs bm_def)
  define b' where "b' = take 32 b @ bm"
  have lenb: "length bm = length b - 32" using area by (simp add: area_set_def)
  have props: "take 32 b' = take 32 b" "length b' = length b" "drop 32 b' = bm" using len lenb by (simp_all add: b'_def)
  have hdr: "get64 b' 8 = get64 b 8" "get16 b' 18 = get16 b 18"
  proof -
    have front: "bytes_at x o' k = bytes_at (take 32 x) o' k" if "o' + k \<le> 32" for x :: buf and o' k
      using that by (simp add: bytes_at_def drop_take min_def)
    have "bytes_at b' o' k = bytes_at b o' k" if "o' + k \<le> 32" for o' k
      using front[OF that] props(1) by metis
    then show "get64 b' 8 = get64 b 8" "get16 b' 18 = get16 b 18" by (simp_all add: get64_def get16_def)
  qed
  have lim: "search_limit b' nsegs = search_limit b nsegs" by (simp add: search_limit_def hdr)
  have "search_ready b' (drop 32 b') 0 nsegs 4096" using r props lenb len by (simp add: search_ready_def hdr)
  moreover have "bmap_item SSDFS_SEG_STATE_BITS bm i = (if i < Suc m then SSDFS_SEG_RESERVED else SSDFS_SEG_CLEAN)"
    if "i < search_limit b nsegs" for i
  proof -
    have "i < 2 * length (drop 32 b)" using that search_range(2,3)[OF r] by linarith
    then show ?thesis using area t that by (auto simp: area_set_def less_Suc_eq)
  qed
  ultimately have "segments_taken nsegs (Suc m) b'" using t hdr lim props by (simp add: segments_taken_def)
  moreover have "of_nat m \<noteq> U64_MAX"
  proof
    assume "of_nat m = U64_MAX"
    then have "unat (of_nat m :: u64) = unat U64_MAX" by simp
    then show False using assms(3) r unat_width[of nsegs]
      by (simp add: unat_of_nat unat_minus_one_eq search_ready_def)
  qed
  ultimately show ?thesis using found props(1,2)
    by (subst try_fragment.simps) (auto simp: b'_def[symmetric])
qed

text \<open>The state of the loop over the segment descriptors: the first \<open>k\<close> have their numbers.\<close>

definition numbered_segs :: "ssdfs_volume_layout \<Rightarrow> nat \<Rightarrow> ssdfs_segment_desc list" where
  "numbered_segs layout k = map (\<lambda>i. if i < k then number_segment layout i (vl_segs layout ! i) else vl_segs layout ! i)
     [0..<length (vl_segs layout)]"

definition numbered :: "ssdfs_volume_layout \<Rightarrow> buf option list \<Rightarrow> nat \<Rightarrow> buf \<Rightarrow> ssdfs_volume_layout" where
  "numbered layout rest k b = layout\<lparr>vl_segs := numbered_segs layout k,
     vl_segbmap := (vl_segbmap layout)\<lparr>sg_fragments_array := Some (Some b # rest)\<rparr>\<rparr>"

lemma numbered_segs_step:
  "k < length (vl_segs layout) \<Longrightarrow>
     (numbered_segs layout k)[k := number_segment layout k (vl_segs layout ! k)] = numbered_segs layout (Suc k)"
  by (rule nth_equalityI) (auto simp: numbered_segs_def nth_list_update)

lemma length_numbered_segs [simp]: "length (numbered_segs layout k) = length (vl_segs layout)"
  by (simp add: numbered_segs_def)

lemma define_leb_id_frame:
  "define_leb_id (layout\<lparr>vl_segs := ss, vl_segbmap := (vl_segbmap layout)\<lparr>sg_fragments_array := fa\<rparr>\<rparr>) = define_leb_id layout"
  by (rule ext) (simp add: define_leb_id_def)

lemma validate_segment_step:
  assumes nsegs: "nsegs = fs_size (vl_env layout) div vl_seg_size layout" "vl_seg_size layout \<noteq> 0"
    and wf: "segment_wf layout (vl_segs layout ! k)" and k: "k < length (vl_segs layout)"
    and taken: "segments_taken nsegs k b" and free: "k < search_limit b nsegs" "k < unat nsegs"
  shows "\<exists>b'. validate_segment k (numbered layout rest k b) = Inr (numbered layout rest (Suc k) b') \<and>
    segments_taken nsegs (Suc k) b' \<and> take 32 b' = take 32 b"
proof -
  let ?l = "numbered layout rest k b" and ?d = "vl_segs layout ! k"
  have seg: "seg_at ?l (int k) = Inr ?d" using k by (simp add: seg_at_def numbered_def numbered_segs_def)
  obtain b' where b': "try_fragment nsegs SSDFS_SEG_RESERVED (unat (sg_fragment_size (vl_segbmap layout))) b 0
      (unat (sg_fragments_per_peb (vl_segbmap layout)) - 1) = Inr (of_nat k, b')"
    "segments_taken nsegs (Suc k) b'" "take 32 b' = take 32 b"
    using take_segment[OF taken free] by blast
  have "define_seg_id ?l SSDFS_SEG_RESERVED (int k) = Inr (numbered layout rest (Suc k) b')"
  proof -
    have put: "sg_put_buffer ?l 0 (Some b') = Inr (numbered layout rest k b')"
      by (simp add: sg_put_buffer_def numbered_def)
    have buf: "sg_buffer ?l 0 = Inr (Some b)" by (simp add: sg_buffer_def numbered_def)
    have env: "vl_env ?l = vl_env layout" "vl_seg_size ?l = vl_seg_size layout"
      "sg_fragment_size (vl_segbmap ?l) = sg_fragment_size (vl_segbmap layout)"
      "sg_fragments_per_peb (vl_segbmap ?l) = sg_fragments_per_peb (vl_segbmap layout)" by (simp_all add: numbered_def)
    have seg': "seg_at (numbered layout rest k b') (int k) = Inr ?d" using k by (simp add: seg_at_def numbered_def numbered_segs_def)
    have leb: "define_leb_id (numbered layout rest k b') (?d\<lparr>sd_seg_id := of_nat k\<rparr>) = Inr (number_segment layout k ?d)"
      unfolding numbered_def define_leb_id_frame by (rule define_leb_id_run[OF wf])
    have last_put: "put_seg (numbered layout rest k b') (int k) (number_segment layout k ?d) = Inr (numbered layout rest (Suc k) b')"
      using k by (simp add: put_seg_def numbered_def numbered_segs_step)
    show ?thesis
      using nsegs(2) by (simp add: define_seg_id_def env buf nsegs(1)[symmetric] b'(1)[unfolded One_nat_def] put seg' leb last_put)
  qed
  moreover have "sd_seg_type ?d = 0 \<or> sd_seg_type ?d = 1 \<or> sd_seg_type ?d = 2 \<or> sd_seg_type ?d = 3"
    using wf by (auto simp: segment_wf_def)
  ultimately have "validate_segment k ?l = Inr (numbered layout rest (Suc k) b')"
    by (auto simp: validate_segment_def seg define_seg_def define_typed_seg_id_def define_snap_seg_id_def
        define_sb_seg_id_def define_segbmap_seg_id_def define_maptbl_seg_id_def)
  then show ?thesis using b' by blast
qed

lemma validate_segments_run:
  assumes nsegs: "nsegs = fs_size (vl_env layout) div vl_seg_size layout" "vl_seg_size layout \<noteq> 0"
    and wf: "\<forall>desc \<in> set (vl_segs layout). segment_wf layout desc"
    and arr: "sg_fragments_array (vl_segbmap layout) = Some (Some b # rest)"
    and taken: "segments_taken nsegs 0 b"
    and room: "length (vl_segs layout) \<le> search_limit b nsegs" "length (vl_segs layout) \<le> unat nsegs"
  shows "\<exists>b'. for_res 0 (length (vl_segs layout)) validate_segment layout =
    Inr (numbered layout rest (length (vl_segs layout)) b') \<and> segments_taken nsegs (length (vl_segs layout)) b'"
proof -
  let ?n = "length (vl_segs layout)"
  let ?I = "\<lambda>k l. \<exists>b'. l = numbered layout rest k b' \<and> segments_taken nsegs k b' \<and> take 32 b' = take 32 b"
  have lim: "search_limit b' nsegs = search_limit b nsegs" if "take 32 b' = take 32 b" for b'
  proof -
    have front: "bytes_at x o' k = bytes_at (take 32 x) o' k" if "o' + k \<le> 32" for x :: buf and o' k
      using that by (simp add: bytes_at_def drop_take min_def)
    have "bytes_at b' o' k = bytes_at b o' k" if "o' + k \<le> 32" for o' k
      using front[OF that] \<open>take 32 b' = take 32 b\<close> by metis
    then show ?thesis by (simp add: search_limit_def get64_def get16_def)
  qed
  have "\<exists>l. for_res 0 ?n validate_segment layout = Inr l \<and> ?I ?n l"
  proof (rule for_res_total)
    have "numbered layout rest 0 b = layout" using arr by (simp add: numbered_def numbered_segs_def map_nth)
    then show "?I 0 layout" using taken by metis
    fix k l assume k: "k < ?n" and "?I k l"
    then obtain b' where b': "l = numbered layout rest k b'" "segments_taken nsegs k b'" "take 32 b' = take 32 b" by blast
    obtain b'' where b'': "validate_segment k (numbered layout rest k b') = Inr (numbered layout rest (Suc k) b'')"
      "segments_taken nsegs (Suc k) b''" "take 32 b'' = take 32 b'"
      using validate_segment_step[OF nsegs _ k b'(2)] wf k room lim[OF b'(3)] by force
    then show "\<exists>l'. validate_segment k l = Inr l' \<and> ?I (Suc k) l'" using b' by auto
  qed simp
  then show ?thesis by blast
qed

section \<open>The description in the volume header: lemmas\<close>

lemma same_outside_get64: "same_outside a b m m' \<Longrightarrow> o' + 8 \<le> a \<or> b \<le> o' \<Longrightarrow> get64 m' o' = get64 m o'"
  by (simp add: get64_def same_outside_bytes)

definition segbmap_chain_row :: "ssdfs_volume_layout \<Rightarrow> nat \<Rightarrow> int \<Rightarrow> buf \<Rightarrow> nat \<Rightarrow> bool" where
  "segbmap_chain_row layout c s vh i \<longleftrightarrow>
     (\<forall>j < c. get64 vh (0xC0 + 16 * i + 8 * j) = sd_seg_id (vl_segs layout ! (nat s + c * i + j)))"

lemma chain_row_run:
  assumes "c \<le> 2" and "i < 8" and "length vh = 1024" and "0 \<le> s"
    and segs: "\<And>j. j < c \<Longrightarrow> nat s + j < length (vl_segs layout) \<and> sd_seg_type (vl_segs layout ! (nat s + j)) = SSDFS_SEGBMAP"
  shows "\<exists>vh'. for_res 0 c (segbmap_chain_entry layout i) (vh, s) = Inr (vh', s + int c) \<and>
    same_outside (0xC0 + 16 * i) (0xC0 + 16 * i + 16) vh vh' \<and>
    (\<forall>j < c. get64 vh' (0xC0 + 16 * i + 8 * j) = sd_seg_id (vl_segs layout ! (nat s + j)))"
proof -
  let ?p = "0xC0 + 16 * i"
  let ?I = "\<lambda>k st. \<exists>vh'. st = (vh', s + int k) \<and> same_outside ?p (?p + 16) vh vh' \<and>
      (\<forall>j < k. get64 vh' (?p + 8 * j) = sd_seg_id (vl_segs layout ! (nat s + j)))"
  have "\<exists>st. for_res 0 c (segbmap_chain_entry layout i) (vh, s) = Inr st \<and> ?I c st"
  proof (rule for_res_total)
    show "?I 0 (vh, s)" by simp
    fix k st assume k: "k < c" and "?I k st"
    then obtain v where v: "st = (v, s + int k)" "same_outside ?p (?p + 16) vh v"
      "\<forall>j < k. get64 v (?p + 8 * j) = sd_seg_id (vl_segs layout ! (nat s + j))" by blast
    have len: "length v = 1024" using same_outside_length[OF v(2)] assms(3) by simp
    have nat: "nat (s + int k) = nat s + k" using assms(4) by (simp add: nat_add_distrib)
    let ?v = "put64 v (?p + 8 * k) (sd_seg_id (vl_segs layout ! (nat s + k)))"
    have fit: "?p + 8 * k + 8 \<le> length v" using assms(1,2) k len by simp
    have run: "segbmap_chain_entry layout i k st = Inr (?v, s + int (Suc k))"
      using segs[OF k] fit assms(4) nat by (simp add: segbmap_chain_entry_def v(1) seg_at_def)
    have "same_outside ?p (?p + 16) v ?v"
      using fit k assms(1) by (auto simp: same_outside_def bytes_at_put_disj)
    then have same: "same_outside ?p (?p + 16) vh ?v" by (rule same_outside_trans[OF v(2)]) simp_all
    have "\<forall>j < Suc k. get64 ?v (?p + 8 * j) = sd_seg_id (vl_segs layout ! (nat s + j))"
      using v(3) fit by (auto simp: less_Suc_eq get_put64_disj)
    then show "\<exists>st'. segbmap_chain_entry layout i k st = Inr st' \<and> ?I (Suc k) st'" using run same by blast
  qed simp
  then show ?thesis by blast
qed

lemma chain_run:
  assumes "c \<le> 2" and "n \<le> 8" and "length vh = 1024" and "0 \<le> s"
    and segs: "\<And>j. j < c * n \<Longrightarrow> nat s + j < length (vl_segs layout) \<and> sd_seg_type (vl_segs layout ! (nat s + j)) = SSDFS_SEGBMAP"
  shows "\<exists>vh'. for_res 0 n (\<lambda>i. for_res 0 c (segbmap_chain_entry layout i)) (vh, s) = Inr (vh', s + int (c * n)) \<and>
    same_outside 0xC0 0x140 vh vh' \<and> (\<forall>i < n. segbmap_chain_row layout c s vh' i)"
proof -
  let ?I = "\<lambda>k st. \<exists>vh'. st = (vh', s + int (c * k)) \<and> same_outside 0xC0 0x140 vh vh' \<and> (\<forall>i < k. segbmap_chain_row layout c s vh' i)"
  have "\<exists>st. for_res 0 n (\<lambda>i. for_res 0 c (segbmap_chain_entry layout i)) (vh, s) = Inr st \<and> ?I n st"
  proof (rule for_res_total)
    show "?I 0 (vh, s)" by simp
    fix k st assume k: "k < n" and "?I k st"
    then obtain v where v: "st = (v, s + int (c * k))" "same_outside 0xC0 0x140 vh v" "\<forall>i < k. segbmap_chain_row layout c s v i" by blast
    have nat: "nat (s + int (c * k)) = nat s + c * k" using assms(4) by (simp add: nat_add_distrib nat_mult_distrib)
    have in_range: "c * k + j < c * n" if "j < c" for j
    proof -
      have "c * k + j < c * Suc k" using that by simp
      also have "\<dots> \<le> c * n" using k by (intro mult_le_mono2) simp
      finally show ?thesis .
    qed
    obtain v' where v': "for_res 0 c (segbmap_chain_entry layout k) (v, s + int (c * k)) = Inr (v', s + int (c * k) + int c)"
      "same_outside (0xC0 + 16 * k) (0xC0 + 16 * k + 16) v v'"
      "\<forall>j < c. get64 v' (0xC0 + 16 * k + 8 * j) = sd_seg_id (vl_segs layout ! (nat (s + int (c * k)) + j))"
      using chain_row_run[OF assms(1), of k v "s + int (c * k)" layout] k assms(2-4) same_outside_length[OF v(2)]
        segs[OF in_range] unfolding nat by (auto simp: add.assoc)
    have same: "same_outside 0xC0 0x140 vh v'"
      by (rule same_outside_trans[OF v(2) v'(2)]) (use k assms(2) in simp_all)
    have "segbmap_chain_row layout c s v' i" if "i < Suc k" for i
    proof (cases "i = k")
      case True
      then show ?thesis using v'(3) unfolding nat by (simp add: segbmap_chain_row_def)
    next
      case False
      then have i: "i < k" using that by simp
      have "get64 v' (0xC0 + 16 * i + 8 * j) = get64 v (0xC0 + 16 * i + 8 * j)" if "j < c" for j
        using v'(2) by (rule same_outside_get64) (use i that assms(1) in simp)
      then show ?thesis using v(3) i by (auto simp: segbmap_chain_row_def)
    qed
    then show "\<exists>st'. for_res 0 c (segbmap_chain_entry layout k) st = Inr st' \<and> ?I (Suc k) st'"
      using v(1) v'(1) same by (auto simp: algebra_simps)
  qed simp
  then show ?thesis by blast
qed

text \<open>The geometry fits the fields of the header, and the descriptors of the chain are those of the bitmap.\<close>

definition segbmap_describable :: "ssdfs_volume_layout \<Rightarrow> bool" where
  "segbmap_describable layout \<longleftrightarrow>
     length (sb_vh (vl_sb layout)) = 1024 \<and> length (sb_vs (vl_sb layout)) = 1024 \<and> length (vl_meta_array layout) = 5 \<and>
     sg_fragments_count (vl_segbmap layout) < 0xFFFF \<and>
     unat (sg_fragments_per_peb (vl_segbmap layout)) * unat (sg_pebs_per_seg (vl_segbmap layout)) < 0xFFFF \<and>
     sg_fragment_size (vl_segbmap layout) < 0xFFFF \<and>
     0 \<le> sg_compression (vl_segbmap layout) \<and> sg_compression (vl_segbmap layout) \<le> SSDFS_ZSTD_BLOB \<and>
     unat (sg_segs_per_chain (vl_segbmap layout)) \<le> SSDFS_SEGBMAP_SEGS \<and>
     0 \<le> md_start_seg_index (vl_meta_array layout ! 2) \<and>
     (\<forall>j < (if sg_has_backup_copy (vl_segbmap layout) then 2 else 1) * unat (sg_segs_per_chain (vl_segbmap layout)).
        nat (md_start_seg_index (vl_meta_array layout ! 2)) + j < length (vl_segs layout) \<and>
        sd_seg_type (vl_segs layout ! (nat (md_start_seg_index (vl_meta_array layout ! 2)) + j)) = SSDFS_SEGBMAP)"

lemma writes_compr_flag:
  "0 \<le> c \<Longrightarrow> c \<le> 4 \<Longrightarrow> (\<And>v. writes l a b m (f v)) \<Longrightarrow> writes l a b m (bnd (segbmap_compr_flag c) f)"
  by (simp add: segbmap_compr_flag_def)

lemma writes_for:
  assumes "\<And>i m. i < n \<Longrightarrow> writes l a b m (f i m)"
  shows "writes l a b m (for_res 0 n f m)"
proof -
  have "\<exists>m'. for_res 0 n f m = Inr m' \<and> same_outside a b m m'" if l: "length m = l"
  proof -
    have "\<exists>m'. for_res 0 n f m = Inr m' \<and> (same_outside a b m m' \<and> length m' = l)"
    proof (rule for_res_total)
      fix i t assume i: "i < n" and t: "same_outside a b m t \<and> length t = l"
      then obtain t' where t': "f i t = Inr t'" "same_outside a b t t'"
        using assms[OF i, of t] by (auto simp: writes_def)
      then show "\<exists>t'. f i t = Inr t' \<and> same_outside a b m t' \<and> length t' = l"
        using t same_outside_trans[of a b m t a b t' a b] same_outside_length by fastforce
    qed (use l in simp_all)
    then show ?thesis by blast
  qed
  then show ?thesis by (simp add: writes_def)
qed

lemma init_segbmap_sb_header_run:
  assumes ok: "segbmap_describable layout"
  defines "c \<equiv> if sg_has_backup_copy (vl_segbmap layout) then 2 else 1"
    and "s \<equiv> md_start_seg_index (vl_meta_array layout ! 2)"
  shows "\<exists>vh. init_segbmap_sb_header layout = Inr (layout\<lparr>vl_sb := (vl_sb layout)\<lparr>sb_vh := vh\<rparr>\<rparr>) \<and>
    same_outside 0xB0 0x140 (sb_vh (vl_sb layout)) vh \<and>
    (\<forall>i < unat (sg_segs_per_chain (vl_segbmap layout)). segbmap_chain_row layout c s vh i)"
proof -
  let ?sg = "vl_segbmap layout" and ?vh = "sb_vh (vl_sb layout)"
  note d = ok[unfolded segbmap_describable_def]
  have fps: "unat (ucast (sg_fragments_per_peb ?sg) * ucast (sg_pebs_per_seg ?sg) :: u32) =
      unat (sg_fragments_per_peb ?sg) * unat (sg_pebs_per_seg ?sg)"
    using d by (subst unat_mult_nw) (simp_all add: unat_ucast_up)
  have "writes 1024 0xB0 0x140 ?vh (segbmap_sb_fields ?sg ?vh)"
    unfolding segbmap_sb_fields_def Let_def
    by (intro writes_compr_flag writes_for writes_intros) (use d in \<open>simp_all add: word_le_nat_alt word_less_nat_alt fps\<close>)
  then obtain v where v: "segbmap_sb_fields ?sg ?vh = Inr v" "same_outside 0xB0 0x140 ?vh v"
    using d by (auto simp: writes_def)
  have len: "length v = 1024" using same_outside_length[OF v(2)] d by simp
  have "c \<le> 2" by (simp add: c_def)
  then obtain w where w: "for_res 0 (unat (sg_segs_per_chain ?sg)) (\<lambda>i. for_res 0 c (segbmap_chain_entry layout i)) (v, s) =
      Inr (w, s + int (c * unat (sg_segs_per_chain ?sg)))" "same_outside 0xC0 0x140 v w"
    "\<forall>i < unat (sg_segs_per_chain ?sg). segbmap_chain_row layout c s w i"
    using chain_run[of c "unat (sg_segs_per_chain ?sg)" v s layout] d len unfolding c_def s_def by blast
  have "\<not> 8 < sg_segs_per_chain ?sg" using d by (simp add: word_less_nat_alt)
  then have "init_segbmap_sb_header layout = Inr (layout\<lparr>vl_sb := (vl_sb layout)\<lparr>sb_vh := w\<rparr>\<rparr>)"
    using v(1) w(1) d unfolding c_def s_def by (simp add: init_segbmap_sb_header_def Let_def)
  moreover have "same_outside 0xB0 0x140 ?vh w" by (rule same_outside_trans[OF v(2) w(2)]) simp_all
  ultimately show ?thesis using w(3) by blast
qed

lemma number_segment_fields:
  "sd_seg_type (number_segment layout m desc) = sd_seg_type desc" "sd_seg_id (number_segment layout m desc) = of_nat m"
  "length (sd_pebs (number_segment layout m desc)) = length (sd_pebs desc)"
  by (simp_all add: number_segment_def set_lebs_def)

lemma number_segment_leb:
  "segment_wf layout desc \<Longrightarrow> j < length (sd_pebs desc) \<Longrightarrow>
     pc_leb_id (sd_pebs (number_segment layout m desc) ! j) =
       (if j < lebs_in_segment layout desc then leb_of_peb layout desc (of_nat m) j else U64_MAX)"
  by (simp add: number_segment_def set_lebs_def segment_wf_def)

lemma nth_numbered_segs:
  "i < length (vl_segs layout) \<Longrightarrow> i < k \<Longrightarrow> numbered_segs layout k ! i = number_segment layout i (vl_segs layout ! i)"
  by (simp add: numbered_segs_def)

lemma describable_numbered:
  assumes "segbmap_describable layout"
  shows "segbmap_describable (numbered layout rest (length (vl_segs layout)) b)"
  using assms by (auto simp: segbmap_describable_def numbered_def nth_numbered_segs number_segment_fields)

section \<open>Properties\<close>

text \<open>
  C17. \<open>segbmap_mkfs_validate\<close> numbers the segments in order. When the first fragment of the
  bitmap is clean and large enough, the call succeeds; segment descriptor \<open>i\<close> then has the
  segment number \<open>i\<close>; each of its PEBs that is in use has the LEB of that segment and PEB, the other ones
  none; the volume header lists, for each segment of the chain and each copy, the number
  of its segment; and the presence flag of the bitmap is set.
\<close>

theorem segments_numbered_in_order:
  assumes "nsegs = fs_size (vl_env layout) div vl_seg_size layout" and "vl_seg_size layout \<noteq> 0" and "erase_size (vl_env layout) \<noteq> 0"
    and "vl_segs_capacity layout = int (length (vl_segs layout))"
    and "\<forall>desc \<in> set (vl_segs layout). segment_wf layout desc"
    and "sg_fragments_array (vl_segbmap layout) = Some (Some b # rest)" and "segments_taken nsegs 0 b"
    and "length (vl_segs layout) \<le> search_limit b nsegs" and "length (vl_segs layout) \<le> unat nsegs"
    and "segbmap_describable layout"
  defines "c \<equiv> if sg_has_backup_copy (vl_segbmap layout) then 2 else 1"
    and "s \<equiv> nat (md_start_seg_index (vl_meta_array layout ! 2))"
  shows "\<exists>layout'. segbmap_mkfs_validate layout = Inr layout' \<and>
    (\<forall>i < length (vl_segs layout). sd_seg_id (vl_segs layout' ! i) = of_nat i \<and>
      (\<forall>j < length (sd_pebs (vl_segs layout ! i)). pc_leb_id (sd_pebs (vl_segs layout' ! i) ! j) =
        (if j < lebs_in_segment layout (vl_segs layout ! i) then leb_of_peb layout (vl_segs layout ! i) (of_nat i) j else U64_MAX))) \<and>
    (\<forall>i < unat (sg_segs_per_chain (vl_segbmap layout)). \<forall>j < c.
      get64 (sb_vh (vl_sb layout')) (0xC0 + 16 * i + 8 * j) = of_nat (s + c * i + j)) \<and>
    bit (get64 (sb_vs (vl_sb layout')) 0x38) 0"
proof -
  let ?n = "length (vl_segs layout)"
  obtain b' where num: "for_res 0 ?n validate_segment layout = Inr (numbered layout rest ?n b')"
    using validate_segments_run[OF assms(1,2,5-9)] by blast
  define l1 where "l1 = numbered layout rest ?n b'"
  have l1: "vl_segs l1 = numbered_segs layout ?n" "sb_vs (vl_sb l1) = sb_vs (vl_sb layout)"
    "sg_has_backup_copy (vl_segbmap l1) = sg_has_backup_copy (vl_segbmap layout)"
    "sg_segs_per_chain (vl_segbmap l1) = sg_segs_per_chain (vl_segbmap layout)" "vl_meta_array l1 = vl_meta_array layout"
    by (simp_all add: l1_def numbered_def)
  note desc = describable_numbered[OF assms(10), of rest b', folded l1_def]
  obtain vh where vh: "init_segbmap_sb_header l1 = Inr (l1\<lparr>vl_sb := (vl_sb l1)\<lparr>sb_vh := vh\<rparr>\<rparr>)"
    "\<forall>i < unat (sg_segs_per_chain (vl_segbmap layout)). segbmap_chain_row l1 c (md_start_seg_index (vl_meta_array layout ! 2)) vh i"
    using init_segbmap_sb_header_run[OF desc] unfolding l1 c_def by blast
  have vs: "64 \<le> length (sb_vs (vl_sb layout))" using assms(10) by (simp add: segbmap_describable_def)
  have pos: "(ucast (erase_size (vl_env layout)) :: u64) \<noteq> 0"
  proof
    assume "(ucast (erase_size (vl_env layout)) :: u64) = 0"
    then have "unat (ucast (erase_size (vl_env layout)) :: u64) = 0" by simp
    then show False using assms(3) by (simp add: unat_ucast_up unat_eq_0)
  qed
  let ?vs = "sb_vs (vl_sb layout)"
  obtain sg where run: "segbmap_mkfs_validate layout =
      Inr (l1\<lparr>vl_segbmap := sg, vl_sb := (vl_sb l1)\<lparr>sb_vh := vh, sb_vs := put64 ?vs 0x38 (get64 ?vs 0x38 OR 1)\<rparr>\<rparr>)"
    using pos num vh(1) vs unfolding segbmap_mkfs_validate_def assms(4) l1_def[symmetric]
    by (simp add: l1_def[symmetric] Let_def set_segbmap_presence_flag_def l1(2))
  let ?l = "l1\<lparr>vl_segbmap := sg, vl_sb := (vl_sb l1)\<lparr>sb_vh := vh, sb_vs := put64 ?vs 0x38 (get64 ?vs 0x38 OR 1)\<rparr>\<rparr>"
  have seg: "vl_segs ?l ! i = number_segment layout i (vl_segs layout ! i)" if "i < ?n" for i
    using that by (simp add: l1 nth_numbered_segs)
  have flag: "bit (get64 (sb_vs (vl_sb ?l)) 0x38) 0" using vs by (simp add: bit_simps)
  have table: "get64 (sb_vh (vl_sb ?l)) (0xC0 + 16 * i + 8 * j) = of_nat (s + c * i + j)"
    if ij: "i < unat (sg_segs_per_chain (vl_segbmap layout))" "j < c" for i j
  proof -
    have "c * i + j < c * unat (sg_segs_per_chain (vl_segbmap layout))"
    proof -
      have "c * i + j < c * Suc i" using ij(2) by simp
      also have "\<dots> \<le> c * unat (sg_segs_per_chain (vl_segbmap layout))" using ij(1) by (intro mult_le_mono2) simp
      finally show ?thesis .
    qed
    then have "s + (c * i + j) < ?n" using assms(10) unfolding segbmap_describable_def c_def s_def by blast
    then have "sd_seg_id (numbered_segs layout ?n ! (s + c * i + j)) = of_nat (s + c * i + j)"
      by (simp add: nth_numbered_segs number_segment_fields add.assoc)
    then show ?thesis using vh(2) ij by (simp add: segbmap_chain_row_def l1 s_def)
  qed
  show ?thesis
    using run seg flag table assms(5) by (intro exI[of _ ?l]) (simp add: number_segment_fields number_segment_leb del: select_convs)
qed

lemma bmap_item_clean: "i < 2 * n \<Longrightarrow> bmap_item SSDFS_SEG_STATE_BITS (replicate n 0) i = SSDFS_SEG_CLEAN"
  by (simp add: bmap_item_def item_in_byte_def const_defs)

definition sample_bitmap :: buf where
  "sample_bitmap = put16 (replicate 64 0) 18 40"

lemma sample_bitmap_taken: "segments_taken 15 0 sample_bitmap" "search_limit sample_bitmap 15 = 16"
proof -
  have f: "get64 sample_bitmap 8 = 0" "get16 sample_bitmap 18 = 40" "length sample_bitmap = 64"
    unfolding sample_bitmap_def by (simp_all add: buf_simps) (simp add: get64_def bytes_at_def numeral_eq_Suc)
  have bmap: "drop 32 sample_bitmap = replicate 32 0" by (simp add: sample_bitmap_def put16_def overwrite_def)
  from f show l: "search_limit sample_bitmap 15 = 16" by (simp add: search_limit_def)
  show "segments_taken 15 0 sample_bitmap"
    using bmap_item_clean[of _ 32] by (simp add: segments_taken_def search_ready_def l f bmap)
qed

definition sample_numbering :: ssdfs_volume_layout where
  "sample_numbering = mkfs_volume_layout\<lparr>
     vl_segs := [\<lparr>sd_seg_type = SSDFS_SEGBMAP, sd_seg_state = SSDFS_DEDICATED_SEGMENT, sd_seg_id = 0,
       sd_pebs = [\<lparr>pc_leb_id = 0, pc_peb_id = 0, pc_extents = []\<rparr>], sd_pebs_count = 0, sd_pebs_capacity = 1\<rparr>],
     vl_segs_capacity := 1,
     vl_segbmap := (vl_segbmap mkfs_volume_layout)\<lparr>sg_pebs_per_seg := 1, sg_compression := SSDFS_UNCOMPRESSED_BLOB,
       sg_fragments_count := 1, sg_fragments_array := Some [Some sample_bitmap]\<rparr>,
     vl_env := (vl_env mkfs_volume_layout)\<lparr>fs_size := 125829120\<rparr>\<rparr>"

theorem segments_numbered_in_order_witness:
  "\<exists>layout'. segbmap_mkfs_validate sample_numbering = Inr layout' \<and> sd_seg_id (vl_segs layout' ! 0) = 0 \<and>
     pc_leb_id (sd_pebs (vl_segs layout' ! 0) ! 0) = 0 \<and> get64 (sb_vh (vl_sb layout')) 0xC0 = 0"
proof -
  have "segbmap_describable sample_numbering"
    by (simp add: segbmap_describable_def sample_numbering_def mkfs_volume_layout_def)
  moreover have "\<forall>desc \<in> set (vl_segs sample_numbering). segment_wf sample_numbering desc"
    by (simp add: sample_numbering_def mkfs_volume_layout_def segment_wf_def lebs_in_segment_def)
  ultimately have "\<exists>layout'. segbmap_mkfs_validate sample_numbering = Inr layout' \<and>
    (\<forall>i < length (vl_segs sample_numbering). sd_seg_id (vl_segs layout' ! i) = of_nat i \<and>
      (\<forall>j < length (sd_pebs (vl_segs sample_numbering ! i)). pc_leb_id (sd_pebs (vl_segs layout' ! i) ! j) =
        (if j < lebs_in_segment sample_numbering (vl_segs sample_numbering ! i)
         then leb_of_peb sample_numbering (vl_segs sample_numbering ! i) (of_nat i) j else U64_MAX))) \<and>
    (\<forall>i < unat (sg_segs_per_chain (vl_segbmap sample_numbering)). \<forall>j < (if sg_has_backup_copy (vl_segbmap sample_numbering) then 2 else 1).
      get64 (sb_vh (vl_sb layout')) (0xC0 + 16 * i + 8 * j) =
        of_nat (nat (md_start_seg_index (vl_meta_array sample_numbering ! 2)) + (if sg_has_backup_copy (vl_segbmap sample_numbering) then 2 else 1) * i + j)) \<and>
    bit (get64 (sb_vs (vl_sb layout')) 0x38) 0"
    by (intro segments_numbered_in_order[where b = sample_bitmap and rest = "[]" and nsegs = 15])
      (simp_all add: sample_bitmap_taken, simp_all add: sample_numbering_def mkfs_volume_layout_def)
  then show ?thesis
    by (simp add: sample_numbering_def mkfs_volume_layout_def lebs_in_segment_def leb_of_peb_def) fastforce
qed

section \<open>Prepared fragments: lemmas\<close>

definition segbmap_hdr_image :: "u16 \<Rightarrow> u16 \<Rightarrow> u64 \<Rightarrow> u16 \<Rightarrow> u16 \<Rightarrow> u16 \<Rightarrow> buf" where
  "segbmap_hdr_image seg peb start_item seq frag_bytes items =
     le_enc 2 SSDFS_SEGBMAP_HDR_MAGIC @ le_enc 2 seg @ le_enc 2 peb @ [0, 0] @ le_enc 8 start_item @
     le_enc 2 seq @ le_enc 2 frag_bytes @ replicate 4 0 @ le_enc 2 items @ le_enc 2 items @ replicate 4 0"

lemma length_segbmap_hdr_image [simp]: "length (segbmap_hdr_image seg peb st seq fb it) = 32"
  by (simp add: segbmap_hdr_image_def)

lemma segbmap_hdr_image_fields:
  "get16 (segbmap_hdr_image seg peb st seq fb it @ R) 0 = SSDFS_SEGBMAP_HDR_MAGIC"
  "get16 (segbmap_hdr_image seg peb st seq fb it @ R) 2 = seg"
  "get64 (segbmap_hdr_image seg peb st seq fb it @ R) 8 = st"
  "get16 (segbmap_hdr_image seg peb st seq fb it @ R) 16 = seq"
  "get16 (segbmap_hdr_image seg peb st seq fb it @ R) 18 = fb"
  "get16 (segbmap_hdr_image seg peb st seq fb it @ R) 24 = it"
  "get16 (segbmap_hdr_image seg peb st seq fb it @ R) 26 = it"
  by (simp_all add: segbmap_hdr_image_def get16_def get64_def bytes_at_def le_dec_enc)

lemma le_enc_zero: "le_enc n (0 :: 'a::len word) = replicate n 0"
  by (simp add: le_enc_def map_replicate_const)

lemma segbmap_fragment_header_image:
  "segbmap_fragment_header (A @ replicate 32 0 @ C) (length A) seg peb st seq fb it =
     Inr (A @ segbmap_hdr_image seg peb st seq fb it @ C)"
proof -
  let ?z = "\<lambda>n. replicate n (0 :: u8)"
  have "replicate 32 (0 :: u8) = ?z 2 @ ?z 2 @ ?z 2 @ [0] @ [0] @ ?z 8 @ ?z 2 @ ?z 2 @ ?z 4 @ ?z 2 @ ?z 2 @ ?z 2 @ ?z 2"
    by (simp add: numeral_eq_Suc)
  then show ?thesis unfolding segbmap_fragment_header_def field_wr le_enc_zero segbmap_hdr_image_def
    by (simp add: wr_def overwrite_def) (simp add: numeral_eq_Suc)
qed

text \<open>A bitmap of \<open>F\<close> fragments for \<open>n\<close> segments, in buffers of \<open>fpp\<close> fragments.\<close>

definition segbmap_geometry :: "ssdfs_volume_layout \<Rightarrow> nat \<Rightarrow> nat \<Rightarrow> bool" where
  "segbmap_geometry layout n F \<longleftrightarrow>
     vl_seg_size layout \<noteq> 0 \<and> unat (fs_size (vl_env layout) div vl_seg_size layout) = n \<and>
     unat (sg_bmap_bytes (vl_segbmap layout)) = (n + 1) div 2 \<and> unat (sg_fragments_count (vl_segbmap layout)) = F \<and> F < 65535 \<and>
     (F - 1) * 8128 < n \<and> n \<le> F * 8128 \<and>
     0 < unat (sg_fragments_per_peb (vl_segbmap layout)) \<and> 0 < unat (sg_pebs_per_seg (vl_segbmap layout)) \<and>
     unat (sg_pebs_per_seg (vl_segbmap layout)) * unat (sg_fragments_per_peb (vl_segbmap layout)) < 65536 \<and>
     F \<le> unat (sg_segs_per_chain (vl_segbmap layout)) * unat (sg_pebs_per_seg (vl_segbmap layout)) * unat (sg_fragments_per_peb (vl_segbmap layout)) \<and>
     4096 \<le> unat (sg_fragment_size (vl_segbmap layout)) \<and> unat (sg_fragment_size (vl_segbmap layout)) < 65536"

definition prepared_fragment :: "ssdfs_volume_layout \<Rightarrow> nat \<Rightarrow> nat \<Rightarrow> nat \<Rightarrow> buf" where
  "prepared_fragment layout n F i =
     (let fpp = unat (sg_fragments_per_peb (vl_segbmap layout)); fps = unat (sg_pebs_per_seg (vl_segbmap layout)) * fpp in
     segbmap_hdr_image (of_nat (i div fps)) (word_of_int (- int (i mod fps div fpp))) (of_nat (8128 * i)) (of_nat i)
       (of_nat (min 4096 ((n + 1) div 2 + 32 * F - 4096 * i))) (of_nat (min 8128 (n - 8128 * i))) @
     replicate (unat (sg_fragment_size (vl_segbmap layout)) - 32) 0)"

lemma first_item_value: "ssdfs_segbmap_define_first_fragment_item (int k) 4096 = Inr (of_nat (8128 * k))"
  by (simp add: ssdfs_segbmap_define_first_fragment_item_def ssdfs_segbmap_items_per_fragment_def seg.items_per_byte
      word_le_nat_alt ucast_max)

lemma payload_value: "ssdfs_segbmap_payload_bytes_per_fragment 4096 = Inr 4064" "ssdfs_segbmap_items_per_fragment 4096 = Inr 8128"
  by (simp_all add: ssdfs_segbmap_payload_bytes_per_fragment_def ssdfs_segbmap_items_per_fragment_def seg.items_per_byte
      word_le_nat_alt ucast_max)

lemma c_div_nat: "0 < b \<Longrightarrow> c_div (int a) (int b) = Inr (int (a div b))"
  by (auto simp: c_div_def zdiv_int sgn_if)

lemma c_div_neg: "0 < b \<Longrightarrow> c_div (- int a) (int b) = Inr (- int (a div b))"
  by (auto simp: c_div_def zdiv_int sgn_if)

lemma prepare_fragment_window:
  assumes geo: "segbmap_geometry layout n F" and k: "k < F"
  defines "fpp \<equiv> unat (sg_fragments_per_peb (vl_segbmap layout))" and "fs \<equiv> unat (sg_fragment_size (vl_segbmap layout))"
  defines "q \<equiv> k div fpp" and "p \<equiv> k mod fpp * fs"
  assumes arr: "sg_fragments_array (vl_segbmap layout) = Some bs" and b: "bs ! q = Some b" "q < length bs"
    and len: "p + fs \<le> length b" and zero: "bytes_at b p fs = replicate fs 0"
  shows "\<exists>b'. segbmap_prepare_fragment layout k =
      Inr (layout\<lparr>vl_segbmap := (vl_segbmap layout)\<lparr>sg_fragments_array := Some (bs[q := Some b'])\<rparr>\<rparr>) \<and>
    same_outside p (p + fs) b b' \<and> bytes_at b' p fs = prepared_fragment layout n F k"
proof -
  let ?sg = "vl_segbmap layout"
  note g = geo[unfolded segbmap_geometry_def]
  define pps where "pps = unat (sg_pebs_per_seg ?sg)"
  define fps where "fps = pps * fpp"
  have pos: "0 < fpp" "0 < fps" and fs: "32 \<le> fs" using g by (simp_all add: fpp_def pps_def fps_def fs_def)
  have ufps: "uint (sg_pebs_per_seg ?sg * sg_fragments_per_peb ?sg) = int fps"
    using g unfolding uint_nat fps_def pps_def fpp_def by (subst unat_mult_nw) simp_all
  have ufpp: "uint (sg_fragments_per_peb ?sg) = int fpp" unfolding uint_nat fpp_def ..
  have k16: "k < 65536" using k g by simp
  have seg: "uint (word_of_int (int (k div fps)) :: u16) = int (k div fps)"
  proof -
    have "k div fps < 65536" using k16 by (rule le_less_trans[OF div_le_dividend])
    then have "unat (of_nat (k div fps) :: u16) = k div fps" by (simp only: unat_of_nat) simp
    then show ?thesis unfolding uint_nat by simp
  qed
  have peb: "int (k div fps) * int fps - int k = - int (k mod fps)"
  proof -
    have "int k = int (k div fps * fps + k mod fps)" by simp
    then show ?thesis by (simp only: of_nat_add of_nat_mult)
  qed
  let ?n = "fs_size (vl_env layout) div vl_seg_size layout"
  have n: "unat ?n = n" using g by simp
  have "8128 * k \<le> 8128 * (F - 1)" using k by simp
  then have kn: "8128 * k < n" using g by linarith
  define x where "x = (of_nat (8128 * k) :: u64)"
  have st: "unat x = 8128 * k" unfolding x_def using k16 by (simp only: unat_of_nat) simp
  have first: "ssdfs_segbmap_define_first_fragment_item (int k) 4096 = Inr x" by (simp only: first_item_value x_def)
  have start_ok: "\<not> ?n \<le> x" using kn by (simp only: word_le_nat_alt st n not_le)
  define fb where "fb = min (ucast (sg_bmap_bytes ?sg) + ucast (ucast (sg_fragments_count ?sg) :: u16) * 32 - of_nat k * 4096) (4096 :: u64)"
  have F: "unat (ucast (sg_fragments_count ?sg) :: u16) = F" using g by (subst unat_ucast_small) simp_all
  have u1: "unat (ucast (sg_bmap_bytes ?sg) :: u64) = (n + 1) div 2" using g by (simp add: unat_ucast_up)
  have u2: "unat (ucast (ucast (sg_fragments_count ?sg) :: u16) * 32 :: u64) = 32 * F"
    using F g by (subst unat_mult_nw) (simp_all add: unat_ucast_up)
  have "(n + 1) div 2 + 32 * F < 2 ^ LENGTH(64)"
  proof -
    have "F < 65535" "n \<le> F * 8128" using g by simp_all
    then show ?thesis by simp
  qed
  then have u3: "unat (ucast (sg_bmap_bytes ?sg) + ucast (ucast (sg_fragments_count ?sg) :: u16) * 32 :: u64) = (n + 1) div 2 + 32 * F"
    using u1 u2 by (subst unat_add_nw) simp_all
  have u4: "unat (of_nat k * 4096 :: u64) = 4096 * k" using k16 by (subst unat_mult_nw) (simp_all add: unat_of_nat)
  have "4096 * k \<le> (n + 1) div 2 + 32 * F" using kn k by linarith
  then have fb: "unat fb = min 4096 ((n + 1) div 2 + 32 * F - 4096 * k)"
    using u3 u4 unfolding fb_def by (subst unat_min) (simp add: unat_sub_nw word_le_nat_alt)
  then have fb_ok: "\<not> 0xFFFF \<le> fb" and fbv: "(ucast fb :: u16) = of_nat (min 4096 ((n + 1) div 2 + 32 * F - 4096 * k))"
    by (simp add: word_le_nat_alt) (metis fb of_nat_unat)
  define it where "it = (ucast (min (ucast (8128::u32)) (?n - x) :: u64) :: u32)"
  have d: "unat (?n - x) = n - 8128 * k"
  proof -
    have le: "x \<le> ?n" using start_ok linear by blast
    show ?thesis by (simp only: unat_sub_nw[OF le] st n)
  qed
  have it: "unat it = min 8128 (n - 8128 * k)"
    unfolding it_def by (subst unat_ucast_small) (simp_all add: unat_min d)
  then have it_ok: "\<not> 0xFFFF \<le> it" and itv: "(ucast it :: u16) = of_nat (min 8128 (n - 8128 * k))"
    by (simp add: word_le_nat_alt) (metis it of_nat_unat)
  define h where "h = segbmap_hdr_image (of_nat (k div fps)) (word_of_int (- int (k mod fps div fpp))) (x) (of_nat k)
      (of_nat (min 4096 ((n + 1) div 2 + 32 * F - 4096 * k))) (of_nat (min 8128 (n - 8128 * k)))"
  have z32: "bytes_at b p 32 = replicate 32 0"
  proof -
    have "bytes_at b p 32 = bytes_at (replicate fs 0) 0 32" unfolding zero[symmetric] using fs by (simp add: bytes_at_bytes_at)
    then show ?thesis using fs by (simp add: bytes_at_def[of "replicate fs 0"])
  qed
  have bsplit: "b = take p b @ replicate 32 0 @ drop (p + 32) b"
    using z32 unfolding bytes_at_def by (metis append_take_drop_id drop_drop add.commute)
  have lp: "length (take p b) = p" using len by simp
  have hdr: "segbmap_fragment_header b p (of_nat (k div fps)) (word_of_int (- int (k mod fps div fpp))) (x) (of_nat k)
      (of_nat (min 4096 ((n + 1) div 2 + 32 * F - 4096 * k))) (of_nat (min 8128 (n - 8128 * k))) = Inr (overwrite b p h)"
    using segbmap_fragment_header_image[of "take p b" "drop (p + 32) b", folded bsplit, unfolded lp]
    by (simp add: h_def overwrite_def)
  have buf: "sg_buffer layout q = Inr (Some b)" using arr b by (simp add: sg_buffer_def)
  have kF: "\<not> F \<le> k" using k by simp
  have "segbmap_prepare_fragment layout k =
      Inr (layout\<lparr>vl_segbmap := ?sg\<lparr>sg_fragments_array := Some (bs[q := Some (overwrite b p h)])\<rparr>\<rparr>)"
    unfolding segbmap_prepare_fragment_def Let_def ufps ufpp F c_div_nat[OF pos(2)] bnd_Inr seg peb c_div_neg[OF pos(1)]
      first payload_value fpp_def[symmetric] q_def[symmetric] fs_def[symmetric] p_def[symmetric] buf
    using g kF start_ok fb_ok it_ok hdr arr b(2) fb_def it_def fbv itv
    by (simp add: sg_put_buffer_def)
  moreover have "same_outside p (p + fs) b (overwrite b p h)"
    using len fs by (auto simp: same_outside_def bytes_at_overwrite_disj h_def)
  moreover have "bytes_at (overwrite b p h) p fs = prepared_fragment layout n F k"
  proof -
    have lh: "length h = 32" by (simp add: h_def)
    have "bytes_at (overwrite b (p + 0) h) p fs = overwrite (replicate fs 0) 0 h"
      unfolding zero[symmetric] using len fs lh by (intro window_overwrite) (simp_all add: fits_def)
    then have "bytes_at (overwrite b p h) p fs = h @ replicate (fs - 32) 0" by (simp add: overwrite_def[of "replicate fs 0"] lh)
    then show ?thesis by (simp only: prepared_fragment_def Let_def h_def x_def fps_def pps_def fpp_def fs_def)
  qed
  ultimately show ?thesis by blast
qed

lemma geometry_frame:
  "segbmap_geometry (layout\<lparr>vl_segbmap := (vl_segbmap layout)\<lparr>sg_fragments_array := fa\<rparr>\<rparr>) n F = segbmap_geometry layout n F"
  "prepared_fragment (layout\<lparr>vl_segbmap := (vl_segbmap layout)\<lparr>sg_fragments_array := fa\<rparr>\<rparr>) n F i = prepared_fragment layout n F i"
  by (simp_all add: segbmap_geometry_def prepared_fragment_def)

text \<open>What the buffers hold after the first \<open>k\<close> fragments are prepared.\<close>

definition prepared_buffers :: "ssdfs_volume_layout \<Rightarrow> nat \<Rightarrow> nat \<Rightarrow> nat \<Rightarrow> buf list \<Rightarrow> bool" where
  "prepared_buffers layout n F k bs \<longleftrightarrow>
     (let fpp = unat (sg_fragments_per_peb (vl_segbmap layout)); fs = unat (sg_fragment_size (vl_segbmap layout)) in
      length bs = unat (sg_segs_per_chain (vl_segbmap layout)) * unat (sg_pebs_per_seg (vl_segbmap layout)) \<and>
      (\<forall>b \<in> set bs. length b = fpp * fs) \<and>
      (\<forall>i < length bs * fpp. bytes_at (bs ! (i div fpp)) (i mod fpp * fs) fs =
         (if i < k then prepared_fragment layout n F i else replicate fs 0)))"

lemma div_mod_less: "i < a * (b::nat) \<Longrightarrow> i div b < a \<and> i mod b < b"
  by (cases "b = 0") (simp_all add: less_mult_imp_div_less)

lemma row_fits: "r < c \<Longrightarrow> r * s + s \<le> c * (s::nat)"
proof -
  assume "r < c"
  then have "Suc r * s \<le> c * s" by (intro mult_le_mono1) simp
  then show ?thesis by simp
qed

lemma prepared_step:
  assumes geo: "segbmap_geometry layout n F" and k: "k < F" and P: "prepared_buffers layout n F k bs"
  shows "\<exists>bs'. segbmap_prepare_fragment (layout\<lparr>vl_segbmap := (vl_segbmap layout)\<lparr>sg_fragments_array := Some (map Some bs)\<rparr>\<rparr>) k =
      Inr (layout\<lparr>vl_segbmap := (vl_segbmap layout)\<lparr>sg_fragments_array := Some (map Some bs')\<rparr>\<rparr>) \<and>
    prepared_buffers layout n F (Suc k) bs'"
proof -
  define fpp where "fpp = unat (sg_fragments_per_peb (vl_segbmap layout))"
  define fs where "fs = unat (sg_fragment_size (vl_segbmap layout))"
  let ?l = "layout\<lparr>vl_segbmap := (vl_segbmap layout)\<lparr>sg_fragments_array := Some (map Some bs)\<rparr>\<rparr>"
  note g = geo[unfolded segbmap_geometry_def]
  note p = P[unfolded prepared_buffers_def Let_def, folded fpp_def fs_def]
  have "F \<le> length bs * fpp" using g p by (simp add: fpp_def)
  then have kk: "k < length bs * fpp" using k by simp
  note q = div_mod_less[OF kk]
  let ?q = "k div fpp" and ?p = "k mod fpp * fs"
  have bq: "bs ! ?q \<in> set bs" using q by simp
  have fit: "?p + fs \<le> length (bs ! ?q)" using row_fits[of "k mod fpp" fpp fs] q p bq by simp
  obtain b' where b': "segbmap_prepare_fragment ?l k =
      Inr (?l\<lparr>vl_segbmap := (vl_segbmap ?l)\<lparr>sg_fragments_array := Some ((map Some bs)[?q := Some b'])\<rparr>\<rparr>)"
    "same_outside ?p (?p + fs) (bs ! ?q) b'" "bytes_at b' ?p fs = prepared_fragment layout n F k"
    using prepare_fragment_window[of ?l n F k "map Some bs" "bs ! ?q"] geo k q fit p kk
    unfolding geometry_frame by (auto simp: fpp_def fs_def)
  let ?bs = "bs[?q := b']"
  have "prepared_buffers layout n F (Suc k) ?bs"
    unfolding prepared_buffers_def Let_def fpp_def[symmetric] fs_def[symmetric]
  proof (intro conjI allI impI ballI)
    show "length ?bs = unat (sg_segs_per_chain (vl_segbmap layout)) * unat (sg_pebs_per_seg (vl_segbmap layout))" using p by simp
    show "length b = fpp * fs" if "b \<in> set ?bs" for b
      using that p bq same_outside_length[OF b'(2)] set_update_subset_insert[of bs ?q b'] by auto
    fix i assume "i < length ?bs * fpp"
    then have i: "i < length bs * fpp" by simp
    note iq = div_mod_less[OF i]
    show "bytes_at (?bs ! (i div fpp)) (i mod fpp * fs) fs = (if i < Suc k then prepared_fragment layout n F i else replicate fs 0)"
    proof (cases "i = k")
      case True
      then show ?thesis using b'(3) q by simp
    next
      case False
      then have old: "bytes_at (bs ! (i div fpp)) (i mod fpp * fs) fs = (if i < Suc k then prepared_fragment layout n F i else replicate fs 0)"
        using p i by auto
      show ?thesis
      proof (cases "i div fpp = ?q")
        case True
        then have "i mod fpp \<noteq> k mod fpp" using False by (metis div_mult_mod_eq)
        then have "i mod fpp * fs + fs \<le> ?p \<or> ?p + fs \<le> i mod fpp * fs"
          using row_fits[of "i mod fpp" "k mod fpp" fs] row_fits[of "k mod fpp" "i mod fpp" fs] by linarith
        then show ?thesis using same_outside_bytes[OF b'(2), of "i mod fpp * fs" fs] True old q by simp
      qed (use old in simp)
    qed
  qed
  moreover have "(map Some bs)[?q := Some b'] = map Some ?bs" by (simp add: map_update)
  ultimately show ?thesis using b'(1) by auto
qed

lemma prepared_run:
  assumes geo: "segbmap_geometry layout n F"
    and arr: "sg_fragments_array (vl_segbmap layout) =
      Some (replicate (unat (sg_segs_per_chain (vl_segbmap layout)) * unat (sg_pebs_per_seg (vl_segbmap layout)))
        (Some (replicate (unat (sg_fragments_per_peb (vl_segbmap layout)) * unat (sg_fragment_size (vl_segbmap layout))) 0)))"
  shows "\<exists>bs. for_res 0 F (\<lambda>i layout. segbmap_prepare_fragment layout i) layout =
      Inr (layout\<lparr>vl_segbmap := (vl_segbmap layout)\<lparr>sg_fragments_array := Some (map Some bs)\<rparr>\<rparr>) \<and>
    prepared_buffers layout n F F bs"
proof -
  let ?st = "\<lambda>bs. layout\<lparr>vl_segbmap := (vl_segbmap layout)\<lparr>sg_fragments_array := Some (map Some bs)\<rparr>\<rparr>"
  let ?I = "\<lambda>k l. \<exists>bs. l = ?st bs \<and> prepared_buffers layout n F k bs"
  have "\<exists>l. for_res 0 F (\<lambda>i layout. segbmap_prepare_fragment layout i) layout = Inr l \<and> ?I F l"
  proof (rule for_res_total[where I = ?I])
    define fpp where "fpp = unat (sg_fragments_per_peb (vl_segbmap layout))"
    define fs where "fs = unat (sg_fragment_size (vl_segbmap layout))"
    let ?bs = "replicate (unat (sg_segs_per_chain (vl_segbmap layout)) * unat (sg_pebs_per_seg (vl_segbmap layout))) (replicate (fpp * fs) (0::u8))"
    have "bytes_at (replicate (fpp * fs) (0::u8)) (r * fs) fs = replicate fs 0" if "r < fpp" for r
    proof -
      have "r * fs + fs \<le> fpp * fs" using row_fits[OF that] .
      then show ?thesis by (simp add: bytes_at_def min_def)
    qed
    then have "prepared_buffers layout n F 0 ?bs"
      using div_mod_less by (fastforce simp: prepared_buffers_def Let_def fpp_def[symmetric] fs_def[symmetric])
    moreover have "layout = ?st ?bs" using arr by (simp add: map_replicate fpp_def fs_def)
    ultimately show "?I 0 layout" by blast
    fix i l assume i: "i < F" and "?I i l"
    then show "\<exists>l'. segbmap_prepare_fragment l i = Inr l' \<and> ?I (Suc i) l'"
      using prepared_step[OF geo i] by blast
  qed simp
  then show ?thesis by blast
qed

text \<open>The prepared bitmap has no segment taken.\<close>

lemma first_window: "bytes_at b 0 fs = w \<Longrightarrow> fs \<le> length b \<Longrightarrow> b = w @ drop fs b"
  by (auto simp: bytes_at_def)

lemma prepared_none_taken:
  assumes geo: "segbmap_geometry layout n F" and P: "prepared_buffers layout n F F bs"
  shows "bs \<noteq> [] \<and> segments_taken (fs_size (vl_env layout) div vl_seg_size layout) 0 (hd bs)"
proof -
  define fpp where "fpp = unat (sg_fragments_per_peb (vl_segbmap layout))"
  define fs where "fs = unat (sg_fragment_size (vl_segbmap layout))"
  let ?n = "fs_size (vl_env layout) div vl_seg_size layout"
  note g = geo[unfolded segbmap_geometry_def]
  note p = P[unfolded prepared_buffers_def Let_def, folded fpp_def fs_def]
  have F: "0 < F" using g by (intro Nat.gr0I) auto
  have fs: "4096 \<le> fs" and fpp: "0 < fpp" using g by (simp_all add: fs_def fpp_def)
  have "F \<le> length bs * fpp" using g p by (simp add: fpp_def)
  then have pos: "0 < length bs * fpp" using F by linarith
  then have ne: "bs \<noteq> []" by auto
  then have hd: "hd bs = bs ! 0" "bs ! 0 \<in> set bs" by (simp_all add: hd_conv_nth)
  have len: "length (hd bs) = fpp * fs" using p hd by simp
  have fsle: "fs \<le> length (hd bs)" using fpp by (cases fpp) (simp_all add: len)
  have w: "bytes_at (hd bs) 0 fs = prepared_fragment layout n F 0"
    using p pos F by (auto simp: hd dest: spec[of _ 0])
  define fb where "fb = min 4096 ((n + 1) div 2 + 32 * F)"
  obtain h where h: "hd bs = segbmap_hdr_image 0 0 0 0 (of_nat fb) (of_nat (min 8128 n)) @ replicate (fs - 32) 0 @ drop fs (hd bs)"
    using first_window[OF w fsle] by (simp add: prepared_fragment_def Let_def fs_def fb_def)
  have fb: "32 < fb" "fb \<le> 4096"
  proof -
    have "0 < n" using g by auto
    then have "0 < (n + 1) div 2" by linarith
    then show "32 < fb" "fb \<le> 4096" using F by (simp_all add: fb_def)
  qed
  have ufb: "unat (of_nat fb :: u16) = fb" using fb by (simp only: unat_of_nat) simp
  have hdr: "get64 (hd bs) 8 = 0" "get16 (hd bs) 18 = of_nat fb"
    by (subst h, simp add: segbmap_hdr_image_fields)+
  have dr: "drop 32 (hd bs) = replicate (fs - 32) 0 @ drop fs (hd bs)" by (subst h) simp
  have n: "unat ?n = n" "0 < n" "n < 2 ^ 32"
  proof -
    have "F < 65535" "n \<le> F * 8128" "unat ?n = n" using g by simp_all
    then show "unat ?n = n" "n < 2 ^ 32" by simp_all
    show "0 < n" using g by auto
  qed
  have "search_ready (hd bs) (drop 32 (hd bs)) 0 ?n 4096"
    using n fb ufb fsle fs by (simp add: search_ready_def hdr word_less_nat_alt)
  moreover have "bmap_item SSDFS_SEG_STATE_BITS (drop 32 (hd bs)) i = SSDFS_SEG_CLEAN" if "i < search_limit (hd bs) ?n" for i
  proof -
    have "i < 2 * (fb - 32)" using that by (simp add: search_limit_def hdr ufb)
    then have i: "i div 2 < fs - 32" using fb fs by linarith
    then have "drop 32 (hd bs) ! (i div 2) = replicate (fs - 32) 0 ! (i div 2)" unfolding dr by (simp add: nth_append)
    then show ?thesis using i by (simp add: bmap_item_def item_in_byte_def const_defs)
  qed
  ultimately show ?thesis using ne hdr by (simp add: segments_taken_def)
qed

lemma reserve_frame:
  assumes "reserve_segments layout m = Inr l"
  shows "vl_segbmap l = vl_segbmap layout \<and> vl_env l = vl_env layout \<and> vl_seg_size l = vl_seg_size layout"
proof -
  let ?P = "\<lambda>l. vl_segbmap l = vl_segbmap layout \<and> vl_env l = vl_env layout \<and> vl_seg_size l = vl_seg_size layout"
  have step: "?P t'" if "?P t" "reserve_step a b c i t = Inr t'" for a b c i t t'
    using that by (auto simp: reserve_step_def bnd_eq_Inr)
  have loop: "?P l'" if "for_res 0 k (reserve_step a b c) (layout\<lparr>vl_meta_array := arr\<rparr>) = Inr l'" for a b c k arr l'
    by (rule for_res_inv[where P = ?P, OF that]) (simp, rule step)
  show ?thesis using assms loop
    by (auto simp: reserve_segments_def Let_def bnd_eq_Inr split: if_splits)
qed

lemma geometry_cong:
  assumes "vl_segbmap l = vl_segbmap layout" "vl_env l = vl_env layout" "vl_seg_size l = vl_seg_size layout"
  shows "segbmap_geometry l n F = segbmap_geometry layout n F" "prepared_fragment l n F i = prepared_fragment layout n F i"
    "prepared_buffers l n F k bs = prepared_buffers layout n F k bs"
  using assms by (simp_all add: segbmap_geometry_def prepared_fragment_def prepared_buffers_def)

lemma sum_pieces: "(\<Sum>i < F. min c (n - c * i)) = min n (c * F)" for c n F :: nat
  by (induction F) (auto simp: min_def)

text \<open>
  C18. \<open>segbmap_mkfs_prepare\<close> describes every segment once. For a geometry as the allocation
  policy computes it, and with memory, the call succeeds; the fragment \<open>i\<close> then lies at its place in the buffers, with
  the magic number, its own number, the first segment \<open>8128 * i\<close>, and the number of its
  segments, all of them clean; the numbers of segments add up to the segments of the volume; and no
  segment is taken yet in the bitmap of the first fragment.
\<close>

theorem segbmap_prepared:
  assumes "segbmap_geometry layout n F" and "reserve_segments layout SSDFS_SEGBMAP = Inr layout1" and "\<And>i. alloc_ok i"
  defines "fpp \<equiv> unat (sg_fragments_per_peb (vl_segbmap layout))" and "fs \<equiv> unat (sg_fragment_size (vl_segbmap layout))"
  shows "\<exists>layout' bs. segbmap_mkfs_prepare alloc_ok layout = Inr layout' \<and>
    sg_fragments_array (vl_segbmap layout') = Some (map Some bs) \<and>
    (\<forall>i < F. let w = bytes_at (bs ! (i div fpp)) (i mod fpp * fs) fs in
       get16 w 0 = SSDFS_SEGBMAP_HDR_MAGIC \<and> get16 w 16 = of_nat i \<and> unat (get64 w 8) = 8128 * i \<and>
       unat (get16 w 24) = min 8128 (n - 8128 * i) \<and> get16 w 26 = get16 w 24 \<and> drop 32 w = replicate (fs - 32) 0) \<and>
    (\<Sum>i < F. unat (get16 (bytes_at (bs ! (i div fpp)) (i mod fpp * fs) fs) 24)) = n \<and>
    segments_taken (fs_size (vl_env layout) div vl_seg_size layout) 0 (hd bs)"
proof -
  note g = assms(1)[unfolded segbmap_geometry_def]
  have fr: "vl_segbmap layout1 = vl_segbmap layout" "vl_env layout1 = vl_env layout" "vl_seg_size layout1 = vl_seg_size layout"
    using reserve_frame[OF assms(2)] by simp_all
  let ?sg = "vl_segbmap layout"
  let ?N = "unat (sg_segs_per_chain ?sg) * unat (sg_pebs_per_seg ?sg)"
  let ?l2 = "layout1\<lparr>vl_segbmap := ?sg\<lparr>sg_fragments_array := Some (replicate ?N (Some (replicate (fpp * fs) 0)))\<rparr>\<rparr>"
  have "unat (ucast (sg_fragments_per_peb ?sg) :: u64) = fpp" by (simp add: unat_ucast_up fpp_def)
  moreover have "fpp * fs < 2 ^ LENGTH(64)"
  proof -
    have "fpp < 65536" "fs < 65536" using unat_width[of "sg_fragments_per_peb ?sg"] g by (simp_all add: fpp_def fs_def)
    then have "fpp * fs < 65536 * 65536" by (intro mult_strict_mono) simp_all
    then show ?thesis by simp
  qed
  ultimately have size: "unat (sg_fragment_size ?sg * ucast (sg_fragments_per_peb ?sg)) = fpp * fs"
    by (subst unat_mult_nw) (simp_all add: fs_def mult.commute)
  have create: "segbmap_create_fragments_array alloc_ok layout1 = Inr ?l2"
    using assms(3) by (simp add: segbmap_create_fragments_array_def fr size Let_def)
  have geo2: "segbmap_geometry ?l2 n F" using assms(1) by (simp add: segbmap_geometry_def fr)
  obtain bs where bs: "for_res 0 F (\<lambda>i layout. segbmap_prepare_fragment layout i) ?l2 =
      Inr (?l2\<lparr>vl_segbmap := (vl_segbmap ?l2)\<lparr>sg_fragments_array := Some (map Some bs)\<rparr>\<rparr>)" "prepared_buffers ?l2 n F F bs"
    using prepared_run[OF geo2] by (auto simp: fpp_def fs_def)
  have Fw: "unat (ucast (sg_fragments_count ?sg) :: u16) = F" using g by (subst unat_ucast_small) simp_all
  have run: "segbmap_mkfs_prepare alloc_ok layout = Inr (?l2\<lparr>vl_segbmap := (vl_segbmap ?l2)\<lparr>sg_fragments_array := Some (map Some bs)\<rparr>\<rparr>)"
    using bs(1) by (simp add: segbmap_mkfs_prepare_def Fw assms(2) create Let_def)
  have pb: "prepared_buffers layout n F F bs" 
  proof -
    have "prepared_fragment ?l2 n F i = prepared_fragment layout n F i" for i by (simp add: prepared_fragment_def)
    then show ?thesis using bs(2) unfolding prepared_buffers_def Let_def by simp
  qed
  have win: "bytes_at (bs ! (i div fpp)) (i mod fpp * fs) fs = prepared_fragment layout n F i" if "i < F" for i
  proof -
    have "i < length bs * fpp" using that g pb by (simp add: prepared_buffers_def Let_def fpp_def)
    then show ?thesis using pb that by (simp add: prepared_buffers_def Let_def fpp_def fs_def)
  qed
  have u: "unat (of_nat (8128 * i) :: u64) = 8128 * i" "unat (of_nat (min 8128 (n - 8128 * i)) :: u16) = min 8128 (n - 8128 * i)" if "i < F" for i
    using that g unfolding unat_of_nat by simp_all
  have fields: "get16 (prepared_fragment layout n F i) 0 = SSDFS_SEGBMAP_HDR_MAGIC" "get16 (prepared_fragment layout n F i) 16 = of_nat i"
    "get64 (prepared_fragment layout n F i) 8 = of_nat (8128 * i)" "get16 (prepared_fragment layout n F i) 24 = of_nat (min 8128 (n - 8128 * i))"
    "get16 (prepared_fragment layout n F i) 26 = of_nat (min 8128 (n - 8128 * i))" "drop 32 (prepared_fragment layout n F i) = replicate (fs - 32) 0" for i
    unfolding prepared_fragment_def Let_def fs_def by (simp_all only: segbmap_hdr_image_fields) simp
  have sum: "(\<Sum>i < F. unat (get16 (bytes_at (bs ! (i div fpp)) (i mod fpp * fs) fs) 24)) = n"
  proof -
    have "(\<Sum>i < F. unat (get16 (bytes_at (bs ! (i div fpp)) (i mod fpp * fs) fs) 24)) = (\<Sum>i < F. min 8128 (n - 8128 * i))"
      by (rule sum.cong) (simp_all only: win fields u lessThan_iff)
    also have "\<dots> = n" using g by (simp add: sum_pieces)
    finally show ?thesis .
  qed
  have "segments_taken (fs_size (vl_env layout) div vl_seg_size layout) 0 (hd bs)"
    using prepared_none_taken[OF assms(1) pb] by simp
  with run sum show ?thesis
    by (intro exI[of _ "?l2\<lparr>vl_segbmap := (vl_segbmap ?l2)\<lparr>sg_fragments_array := Some (map Some bs)\<rparr>\<rparr>"] exI[of _ bs])
      (simp add: win fields u Let_def del: of_nat_mult)
qed

definition sample_prepare :: ssdfs_volume_layout where
  "sample_prepare = sample_numbering\<lparr>
     vl_segbmap := (vl_segbmap sample_numbering)\<lparr>sg_bmap_bytes := 8, sg_fragment_size := 4096, sg_fragments_array := None\<rparr>,
     vl_last_allocated_seg_index := - 1,
     vl_meta_array := replicate 5 \<lparr>md_start_seg_index = 0, md_segs_count = 1, md_seg_state = SSDFS_DEDICATED_SEGMENT\<rparr>\<rparr>"

theorem segbmap_prepared_witness:
  "\<exists>layout' bs. segbmap_mkfs_prepare (\<lambda>_. True) sample_prepare = Inr layout' \<and>
     sg_fragments_array (vl_segbmap layout') = Some (map Some bs) \<and>
     (\<Sum>i < 1. unat (get16 (bytes_at (bs ! (i div 1)) (i mod 1 * 4096) 4096) 24)) = 15 \<and> segments_taken 15 0 (hd bs)"
proof -
  have geo: "segbmap_geometry sample_prepare 15 1"
    by (simp add: segbmap_geometry_def sample_prepare_def sample_numbering_def mkfs_volume_layout_def)
  have "\<exists>l. reserve_segments sample_prepare SSDFS_SEGBMAP = Inr l"
    by (simp add: reserve_segments_def reserve_step_def sample_prepare_def sample_numbering_def Let_def for_res_step)
  then obtain l where l: "reserve_segments sample_prepare SSDFS_SEGBMAP = Inr l" by blast
  have v: "sg_fragments_per_peb (vl_segbmap sample_prepare) = 1" "sg_fragment_size (vl_segbmap sample_prepare) = 4096"
    "fs_size (vl_env sample_prepare) div vl_seg_size sample_prepare = 15"
    by (simp_all add: sample_prepare_def sample_numbering_def mkfs_volume_layout_def)
  show ?thesis using segbmap_prepared[OF geo l, of "\<lambda>_. True"] unfolding v by auto
qed

section \<open>Allocation policy: lemmas\<close>

lemma ceil_div_eq: "0 < b \<Longrightarrow> (a + b - 1) div b = a div b + (if a mod b = 0 then 0 else 1)" for a b :: nat
proof -
  assume b: "0 < b"
  have a: "a = a div b * b + a mod b" by simp
  show ?thesis
  proof (cases "a mod b = 0")
    case True
    then have "a + b - 1 = (b - 1) + a div b * b" using a b by linarith
    then have "(a + b - 1) div b = a div b + (b - 1) div b" using b by (simp only: div_mult_self1)
    then show ?thesis using True b by simp
  next
    case False
    have "a + b = a mod b + (a div b + 1) * b" by simp
    then have "a + b - 1 = (a mod b - 1) + (a div b + 1) * b" using False by linarith
    then have "(a + b - 1) div b = (a div b + 1) + (a mod b - 1) div b" using b by (simp only: div_mult_self1)
    moreover have "a mod b - 1 < b" using b by (meson less_imp_diff_less mod_less_divisor)
    ultimately show ?thesis using False by simp
  qed
qed

lemma div_up_or_1_value:
  assumes "div_up_or_1 a b = Inr x"
  shows "b \<noteq> 0" and "unat x = max 1 ((unat a + unat b - 1) div unat b)"
proof -
  show b: "b \<noteq> 0" using assms by (auto simp: div_up_or_1_def div_chk_def)
  then have pos: "0 < unat b" by (simp add: unat_gt_0)
  let ?y = "if a mod b \<noteq> 0 then a div b + 1 else a div b"
  have y: "unat ?y = (unat a + unat b - 1) div unat b"
  proof (cases "a mod b = 0")
    case True
    then have "unat a mod unat b = 0" by (metis unat_0 unat_mod)
    then show ?thesis unfolding ceil_div_eq[OF pos] using True by (simp add: unat_div)
  next
    case False
    then have m: "unat a mod unat b \<noteq> 0" by (metis unat_eq_0 unat_mod)
    then have "unat b \<noteq> 1" by auto
    then have "unat a div unat b \<le> unat a div 2" using pos by (intro div_le_mono2) simp_all
    then have "unat (a div b) + 1 < 2 ^ LENGTH(16)" using unat_width[of a] by (simp add: unat_div)
    then have "unat (a div b + 1) = unat (a div b) + 1" by (subst unat_add_nw) simp_all
    then show ?thesis unfolding ceil_div_eq[OF pos] using False m by (simp add: unat_div)
  qed
  have "x = (if ?y = 0 then 1 else ?y)" using assms b by (simp add: div_up_or_1_def Let_def)
  then show "unat x = max 1 ((unat a + unat b - 1) div unat b)"
    unfolding y[symmetric] by (cases "?y = 0") (auto simp: unat_gt_0 Suc_le_eq max_def)
qed

text \<open>The number of fragments is not larger than the segments need.\<close>

lemma fragments_tight:
  fixes n :: nat
  defines "B \<equiv> (n + 1) div 2"
  defines "P \<equiv> (B + 4095) div 4096"
  defines "F \<equiv> (B + 32 * P + 4095) div 4096"
  assumes "0 < n"
  shows "(F - 1) * 8128 < n"
proof (rule ccontr)
  assume "\<not> (F - 1) * 8128 < n"
  then have "B \<le> (F - 1) * 4064" by (simp add: B_def)
  moreover from this have "P \<le> F - 1" unfolding P_def using ceil_div_le_iff[of 4096 B "F - 1"] by simp
  ultimately have "B + 32 * P \<le> (F - 1) * 4096" by simp
  then have "F \<le> F - 1" using ceil_div_le_iff[of 4096 "B + 32 * P" "F - 1"] by (simp add: F_def)
  moreover have "0 < F" using assms(4) by (simp add: F_def B_def)
  ultimately show False by simp
qed

lemma fragments_value:
  assumes "SEG_BMAP_FRAGMENTS n 4096 = Inr f" and "unat n < 300000000"
  shows "unat f = ((unat n + 1) div 2 + 32 * (((unat n + 1) div 2 + 4095) div 4096) + 4095) div 4096"
    and "\<exists>b. SEG_BMAP_BYTES n = Inr b \<and> unat b = (unat n + 1) div 2"
proof -
  define B where "B = (unat n + 1) div 2"
  define P where "P = (B + 4095) div 4096"
  have u: "unat (4096::u32) = 4096" and m: "x + 4096 - 1 = x + 4095" for x :: nat by simp_all
  have "B \<le> 150000000" "P \<le> 40000" using assms(2) by (simp_all add: B_def P_def)
  then have "B + 32 * P + 4096 < 2 ^ 32" "(B + 32 * P + 4095) div 4096 < 65535" by simp_all
  then show "unat f = ((unat n + 1) div 2 + 32 * (((unat n + 1) div 2 + 4095) div 4096) + 4095) div 4096"
    using SEG_BMAP_FRAGMENTS_ok[of 4096 n, unfolded u m, folded B_def, folded P_def] assms(1)
    unfolding B_def[symmetric] P_def[symmetric] by auto
  show "\<exists>b. SEG_BMAP_BYTES n = Inr b \<and> unat b = (unat n + 1) div 2"
    by (rule SEG_BMAP_BYTES_ok) (use assms(2) in simp)
qed

lemma cover_chain:
  fixes F s pps :: nat
  assumes "0 < s" and "0 < pps"
  defines "fps \<equiv> max 1 ((F + s - 1) div s)"
  defines "fpp \<equiv> max 1 ((fps + pps - 1) div pps)"
  defines "p' \<equiv> max 1 ((fps + fpp - 1) div fpp)"
  shows "F \<le> s * p' * fpp" and "p' \<le> pps" and "p' * fpp < fps + fpp" and "fpp \<le> fps"
proof -
  have fps: "F \<le> fps * s" using ceil_div_mult_ge[OF assms(1), of F]
    by (metis fps_def le_trans max.cobounded2 mult_le_mono1)
  have fpp0: "0 < fpp" "0 < fps" by (simp_all add: fpp_def fps_def)
  then have eq: "p' = (fps + fpp - 1) div fpp" "fpp = (fps + pps - 1) div pps"
    using assms(2) by (auto simp: p'_def fpp_def max_def div_greater_zero_iff not_le less_Suc_eq_0_disj)
  have "fps \<le> p' * fpp" unfolding p'_def using ceil_div_mult_ge[OF fpp0(1), of fps] by (meson le_trans max.cobounded2 mult_le_mono1)
  then have "fps * s \<le> p' * fpp * s" by (rule mult_le_mono1)
  with fps have "F \<le> p' * fpp * s" by (rule le_trans)
  then show "F \<le> s * p' * fpp" by (simp only: ac_simps)
  have "fps \<le> fpp * pps" using ceil_div_mult_ge[OF assms(2), of fps] eq(2) by simp
  then show "p' \<le> pps" unfolding eq(1) using ceil_div_le_iff[OF fpp0(1), of fps pps] by (simp add: mult.commute)
  have "(fps + fpp - 1) div fpp * fpp \<le> fps + fpp - 1" by (rule div_times_less_eq_dividend)
  then show "p' * fpp < fps + fpp" unfolding eq(1) using fpp0 by linarith
  have "fps \<le> fps * pps" using assms(2) by simp
  then show "fpp \<le> fps" unfolding eq(2) using ceil_div_le_iff[OF assms(2), of fps fps] by simp
qed

lemma policy_head:
  assumes "segbmap_mkfs_allocation_policy layout = Inr r"
  shows "\<exists>bb f s. vl_seg_size layout \<noteq> 0 \<and> SEG_BMAP_BYTES (fs_size (vl_env layout) div vl_seg_size layout) = Inr bb \<and>
    SEG_BMAP_FRAGMENTS (fs_size (vl_env layout) div vl_seg_size layout) 4096 = Inr f \<and> \<not> 8 < s \<and>
    segbmap_spread_fragments layout bb f (ucast (vl_seg_size layout div ucast (erase_size (vl_env layout)))) s = Inr r"
  using assms unfolding segbmap_mkfs_allocation_policy_def Let_def
  by (simp only: bnd_eq_Inr div_chk_eq_Inr fail_if_simps) blast

lemma spread_fragments_value:
  assumes run: "segbmap_spread_fragments layout bb f pps0 s = Inr (layout', segs, state)"
    and chain: "unat (sg_segs_per_chain (vl_segbmap layout)) < 256"
  shows "\<exists>fps fpp pps. div_up_or_1 f (ucast s) = Inr fps \<and> div_up_or_1 fps pps0 = Inr fpp \<and> div_up_or_1 fps fpp = Inr pps \<and>
    segs = (if sg_has_backup_copy (vl_segbmap layout) then uint s * 2 else uint s) \<and> 2 < length (vl_meta_array layout) \<and>
    layout' = layout\<lparr>vl_segbmap := (vl_segbmap layout)\<lparr>sg_bmap_bytes := bb, sg_fragments_per_peb := fpp,
             sg_pebs_per_seg := pps, sg_segs_per_chain := ucast s, sg_fragments_count := ucast f,
             sg_fragment_size := ucast (vl_page_size layout)\<rparr>,
             vl_meta_array := (vl_meta_array layout)[2 := (vl_meta_array layout ! 2)\<lparr>md_segs_count := segs, md_seg_state := 0\<rparr>]\<rparr>"
proof -
  have "sg_segs_per_chain (vl_segbmap layout) = ucast s" if "(ucast (sg_segs_per_chain (vl_segbmap layout)) :: u8) = s"
    using that chain by (auto intro!: word_unat_eq_iff[THEN iffD2] simp: unat_ucast_up unat_ucast_small)
  then show ?thesis using run unfolding segbmap_spread_fragments_def Let_def
    by (auto simp: bnd_eq_Inr nth_int_eq_Inr upd_int_eq_Inr)
qed

text \<open>
  C30. Whenever \<open>segbmap_mkfs_allocation_policy\<close> succeeds, for a page of 4 to 32 KiB, a volume with fewer than
  260 million segments and a number of fragments that is enough for them, and a chain length option of one byte, the geometry is one that the
  preparation can work with: the fragments fit into the PEB buffers of the chain, every fragment
  describes at least one segment, the chain has one to eight segments and uses no more PEBs of a
  segment than it has, and the number of reserved segments is that of the chain, doubled when there is a
  backup copy.
\<close>

theorem segbmap_policy_geometry:
  assumes run: "segbmap_mkfs_allocation_policy layout = Inr (layout', segs, state)"
    and "4096 \<le> unat (vl_page_size layout)" and "unat (vl_page_size layout) \<le> 32768"
    and n: "n = unat (fs_size (vl_env layout) div vl_seg_size layout)" "0 < n" "n < 260000000"
    and "n \<le> unat (sg_fragments_count (vl_segbmap layout')) * 8128"
    and pebs: "unat (vl_seg_size layout div ucast (erase_size (vl_env layout))) < 65536"
    and chain: "unat (sg_segs_per_chain (vl_segbmap layout)) < 256"
  shows "segbmap_geometry layout' n (unat (sg_fragments_count (vl_segbmap layout'))) \<and>
    1 \<le> unat (sg_segs_per_chain (vl_segbmap layout')) \<and> unat (sg_segs_per_chain (vl_segbmap layout')) \<le> 8 \<and>
    unat (sg_pebs_per_seg (vl_segbmap layout')) \<le> unat (vl_seg_size layout div ucast (erase_size (vl_env layout))) \<and>
    segs = int (unat (sg_segs_per_chain (vl_segbmap layout'))) * (if sg_has_backup_copy (vl_segbmap layout) then 2 else 1) \<and>
    md_segs_count (vl_meta_array layout' ! 2) = segs"
proof -
  let ?N = "fs_size (vl_env layout) div vl_seg_size layout" and ?pps0 = "ucast (vl_seg_size layout div ucast (erase_size (vl_env layout))) :: u16"
  obtain bb f s where seg: "vl_seg_size layout \<noteq> 0" and bb: "SEG_BMAP_BYTES ?N = Inr bb" and f: "SEG_BMAP_FRAGMENTS ?N 4096 = Inr f"
    and s8: "\<not> 8 < s" and spread: "segbmap_spread_fragments layout bb f ?pps0 s = Inr (layout', segs, state)"
    using policy_head[OF run] by blast
  obtain fps fpp pps where v: "div_up_or_1 f (ucast s) = Inr fps" "div_up_or_1 fps ?pps0 = Inr fpp" "div_up_or_1 fps fpp = Inr pps"
    and segs: "segs = (if sg_has_backup_copy (vl_segbmap layout) then uint s * 2 else uint s)" and len: "2 < length (vl_meta_array layout)"
    and l': "layout' = layout\<lparr>vl_segbmap := (vl_segbmap layout)\<lparr>sg_bmap_bytes := bb, sg_fragments_per_peb := fpp,
             sg_pebs_per_seg := pps, sg_segs_per_chain := ucast s, sg_fragments_count := ucast f,
             sg_fragment_size := ucast (vl_page_size layout)\<rparr>,
             vl_meta_array := (vl_meta_array layout)[2 := (vl_meta_array layout ! 2)\<lparr>md_segs_count := segs, md_seg_state := 0\<rparr>]\<rparr>"
    using spread_fragments_value[OF spread chain] by blast
  let ?F = "unat f" and ?s = "unat s"
  have us: "unat (ucast s :: u16) = ?s" and ps: "0 < ?s" "?s \<le> 8" and upps0: "unat ?pps0 = unat (vl_seg_size layout div ucast (erase_size (vl_env layout)))"
    and pos: "0 < unat ?pps0"
    using div_up_or_1_value(1)[OF v(1)] div_up_or_1_value(1)[OF v(2)] s8 pebs
    by (simp_all add: unat_ucast_up unat_ucast_small unat_gt_0 word_less_nat_alt) (auto simp: unat_gt_0)
  note val = div_up_or_1_value(2)[OF v(1), unfolded us] div_up_or_1_value(2)[OF v(2)] div_up_or_1_value(2)[OF v(3)]
  note cover = cover_chain[OF ps(1) pos, of ?F, folded val(1), folded val(2), folded val(3)]
  have nl: "unat ?N < 300000000" using n by simp
  note frag = fragments_value[OF f nl, folded n(1)]
  have F: "?F < 32768" unfolding frag(1) using n(3) by simp
  have tight: "(?F - 1) * 8128 < n" unfolding frag(1) by (rule fragments_tight[OF n(2)])
  have uF: "unat (sg_fragments_count (vl_segbmap layout')) = ?F" by (simp add: l' unat_ucast_up)
  have fpsF: "unat fps \<le> max 1 ?F" unfolding val(1) using ceil_div_le_iff[OF ps(1), of ?F ?F] ps(1) by (simp add: max_def)
  have small: "unat pps * unat fpp < 65536" using cover(3,4) fpsF F by linarith
  have fpp0: "0 < unat fpp" "0 < unat pps" unfolding val(2,3) by simp_all
  have "segbmap_geometry layout' n ?F"
    unfolding segbmap_geometry_def
    using seg n(1) bb frag(2) uF F tight assms(2,3,7) fpp0 small cover(1) by (simp add: l' unat_ucast_up us)
  moreover have "md_segs_count (vl_meta_array layout' ! 2) = segs" using len by (simp add: l')
  moreover have "segs = int ?s * (if sg_has_backup_copy (vl_segbmap layout) then 2 else 1)" by (simp add: segs)
  ultimately show ?thesis using ps cover(2) upps0 unfolding uF by (simp add: l' us)
qed

definition sample_policy :: ssdfs_volume_layout where
  "sample_policy = mkfs_volume_layout\<lparr>vl_env := (vl_env mkfs_volume_layout)\<lparr>fs_size := 125829120\<rparr>\<rparr>"

definition sample_policy_result :: ssdfs_volume_layout where
  "sample_policy_result = sample_policy\<lparr>
     vl_segbmap := (vl_segbmap mkfs_volume_layout)\<lparr>sg_bmap_bytes := 8, sg_fragments_per_peb := 1, sg_pebs_per_seg := 1,
       sg_segs_per_chain := 1, sg_fragments_count := 1, sg_fragment_size := 4096\<rparr>,
     vl_meta_array := (vl_meta_array mkfs_volume_layout)[2 := \<lparr>md_start_seg_index = 0, md_segs_count = 1, md_seg_state = 0\<rparr>]\<rparr>"

lemma sample_sizes: "SEG_BMAP_BYTES 15 = Inr 8" "SEG_BMAP_FRAGMENTS 15 4096 = Inr 1"
  by code_simp+

lemma sample_policy_run: "segbmap_mkfs_allocation_policy sample_policy = Inr (sample_policy_result, 1, 0)"
  by (simp add: segbmap_mkfs_allocation_policy_def sample_policy_def sample_policy_result_def mkfs_volume_layout_def
      sample_sizes segbmap_spread_fragments_def segbmap_segs_of_def c_div_def div_up_or_1_def div_chk_def nth_int_def upd_int_def)

theorem segbmap_policy_geometry_witness:
  "segbmap_mkfs_allocation_policy sample_policy = Inr (sample_policy_result, 1, 0) \<and>
   segbmap_geometry sample_policy_result 15 1 \<and> md_segs_count (vl_meta_array sample_policy_result ! 2) = 1"
proof -
  have "4096 \<le> unat (vl_page_size sample_policy)" "unat (vl_page_size sample_policy) \<le> 32768"
    "15 = unat (fs_size (vl_env sample_policy) div vl_seg_size sample_policy)" "15 < (260000000::nat)"
    "15 \<le> unat (sg_fragments_count (vl_segbmap sample_policy_result)) * 8128"
    "unat (vl_seg_size sample_policy div ucast (erase_size (vl_env sample_policy))) < 65536"
    "unat (sg_segs_per_chain (vl_segbmap sample_policy)) < 256"
    by (simp_all add: sample_policy_def sample_policy_result_def mkfs_volume_layout_def)
  from segbmap_policy_geometry[OF sample_policy_run this(1-3) _ this(4-7)]
  show ?thesis by (simp add: sample_policy_run sample_policy_result_def)
qed

end
