(* ===== verification/MkfsMaptbl.thy ===== *)
theory MkfsMaptbl
  imports MaptblCache MkfsSegBmap
begin

text \<open>
  The PEB mapping table, \<^verbatim>\<open>sbin/mkfs.ssdfs/mapping_table.c\<close>. The table is an array of portions; a
  portion is a row of pages of LEB descriptors followed by a row of pages of PEB descriptors, one page
  per stripe. mkfs computes the geometry, creates the empty tables, gives every LEB that it has allocated a PEB
  of the stripe the LEB belongs to, marks the rest as pre-erased, and commits the tables as logs.

  A pointer into a table is an offset in the buffer of its PEB (\<^verbatim>\<open>fragments_array[i]\<close>), so that the
  LEB table and the PEB table of a portion share one buffer as they do in the code. The checks of a PEB by the
  device are a parameter with a state of its own.
\<close>

section \<open>Constants of \<^verbatim>\<open>include/ssdfs_abi.h\<close> and \<^verbatim>\<open>include/ssdfs_constants.h\<close>\<close>

abbreviation (input) SSDFS_PEB_TABLE_MAGIC :: u16 where "SSDFS_PEB_TABLE_MAGIC \<equiv> 0x5074"
abbreviation (input) SSDFS_LEB_TABLE_MAGIC :: u16 where "SSDFS_LEB_TABLE_MAGIC \<equiv> 0x4C74"
abbreviation (input) LEBTBL_HDR_SIZE :: nat where "LEBTBL_HDR_SIZE \<equiv> 32"
abbreviation (input) PEBTBL_HDR_SIZE :: nat where "PEBTBL_HDR_SIZE \<equiv> 288"
abbreviation (input) LEB_DESC_SIZE :: nat where "LEB_DESC_SIZE \<equiv> 4"
abbreviation (input) PEB_DESC_SIZE :: nat where "PEB_DESC_SIZE \<equiv> 8"
abbreviation (input) PEBTBL_USED_BMAP :: nat where "PEBTBL_USED_BMAP \<equiv> 32"
abbreviation (input) PEBTBL_DIRTY_BMAP :: nat where "PEBTBL_DIRTY_BMAP \<equiv> 96"
abbreviation (input) PEBTBL_RECOVER_BMAP :: nat where "PEBTBL_RECOVER_BMAP \<equiv> 160"
abbreviation (input) PEBTBL_BADBLK_BMAP :: nat where "PEBTBL_BADBLK_BMAP \<equiv> 224"
abbreviation (input) SSDFS_MAPTBL_UNKNOWN_PEB_STATE :: u8 where "SSDFS_MAPTBL_UNKNOWN_PEB_STATE \<equiv> 0"
abbreviation (input) SSDFS_MAPTBL_BAD_PEB_STATE :: u8 where "SSDFS_MAPTBL_BAD_PEB_STATE \<equiv> 1"
abbreviation (input) SSDFS_MAPTBL_PRE_ERASE_STATE :: u8 where "SSDFS_MAPTBL_PRE_ERASE_STATE \<equiv> 0x10"
abbreviation (input) SSDFS_MAPTBL_RECOVERING_STATE :: u8 where "SSDFS_MAPTBL_RECOVERING_STATE \<equiv> 0x13"
abbreviation (input) SSDFS_MAPTBL_UNKNOWN_PEB_TYPE :: int where "SSDFS_MAPTBL_UNKNOWN_PEB_TYPE \<equiv> 0"
abbreviation (input) SSDFS_MAPTBL_PEB_TYPE_MAX :: int where "SSDFS_MAPTBL_PEB_TYPE_MAX \<equiv> 9"
abbreviation (input) SSDFS_MAPTBL_INO :: u64 where "SSDFS_MAPTBL_INO \<equiv> 12"
abbreviation (input) SSDFS_MAPTBL_RESERVED_EXTENTS :: nat where "SSDFS_MAPTBL_RESERVED_EXTENTS \<equiv> 3"

definition SEG2PEB_TYPE :: "int \<Rightarrow> int" where
  "SEG2PEB_TYPE seg_type =
     (if seg_type = SSDFS_LAST_KNOWN_SEG_TYPE then 1
      else if seg_type = 5 then 2
      else if seg_type = 6 then 3
      else if seg_type = 7 then 4
      else if seg_type = SSDFS_INITIAL_SNAPSHOT_SEG_TYPE then 5
      else if seg_type = SSDFS_SB_SEG_TYPE then 6
      else if seg_type = SSDFS_SEGBMAP_SEG_TYPE then 7
      else if seg_type = SSDFS_MAPTBL_SEG_TYPE then 8
      else SSDFS_MAPTBL_PEB_TYPE_MAX)"

definition SSDFS_LEB_DESC_PER_FRAGMENT :: "u64 \<Rightarrow> u32" where
  "SSDFS_LEB_DESC_PER_FRAGMENT fragment_size = ucast ((fragment_size - 32) div 4)"

definition SSDFS_PEB_DESC_PER_FRAGMENT :: "u64 \<Rightarrow> u32" where
  "SSDFS_PEB_DESC_PER_FRAGMENT fragment_size = ucast ((fragment_size - 288) div 8)"

section \<open>Geometry of the table\<close>

text \<open>The result is the new value of \<^verbatim>\<open>maptbl.stripes_per_portion\<close>.\<close>

definition correct_maptbl_stripes_per_portion :: "u32 \<Rightarrow> u16 \<Rightarrow> u16 res" where
  "correct_maptbl_stripes_per_portion nand_dies stripes =
     (if nand_dies < ucast stripes then
        bnd (mod_chk (ucast stripes) nand_dies) (\<lambda>r. Inr (stripes - ucast r))
      else if ucast stripes < nand_dies then
        bnd (mod_chk nand_dies (ucast stripes)) (\<lambda>r. Inr (stripes - ucast r))
      else Inr stripes)"

text \<open>What a round at the label \<^verbatim>\<open>define_stripes_per_portion\<close> computes.\<close>

record portion_geometry =
  pg_stripes :: u16
  pg_peb_desc :: u32
  pg_lebtbl_mempages :: u32
  pg_lebtbl_bytes :: u32
  pg_pebtbl_bytes :: u32
  pg_size :: u32

text \<open>
  The number of stripes, from the corrected number and the size of the volume: two pages of PEB
  descriptors hold less than one page of LEB descriptors, and the descriptors of a zoned device are spread over
  as many stripes as there would be portions.
\<close>

definition stripes_of_portion :: "device_type \<Rightarrow> u64 \<Rightarrow> u16 \<Rightarrow> u16 res" where
  "stripes_of_portion dev pebs_per_volume stripes =
     (let leb_desc_per_mempage = SSDFS_LEB_DESC_PER_FRAGMENT PAGE_CACHE_SIZE;
          peb_desc_per_stripe = SSDFS_PEB_DESC_PER_FRAGMENT PAGE_CACHE_SIZE in
     bnd (div_chk leb_desc_per_mempage peb_desc_per_stripe) (\<lambda>q.
     bnd (BUG_ON (q \<noteq> 2)) (\<lambda>_.
     let peb_desc_per_portion = peb_desc_per_stripe * ucast stripes;
         stripes = (if peb_desc_per_portion < leb_desc_per_mempage then ucast q
                    else if leb_desc_per_mempage < peb_desc_per_portion
                         then ucast (peb_desc_per_portion div leb_desc_per_mempage)
                    else stripes) in
     case dev of
       SSDFS_MTD_DEVICE \<Rightarrow> Inr stripes
     | SSDFS_BLK_DEVICE \<Rightarrow> Inr stripes
     | SSDFS_ZNS_DEVICE \<Rightarrow>
         bnd (div_chk (pebs_per_volume + ucast peb_desc_per_portion - 1) (ucast peb_desc_per_portion)) (\<lambda>portions.
         bnd (fail_if (ucast U16_MAX < portions) E2BIG) (\<lambda>_. Inr (ucast portions)))
     | SSDFS_DEVICE_TYPE_MAX \<Rightarrow> Inl Bug)))"

definition geometry_of_portion :: "u32 \<Rightarrow> u32 \<Rightarrow> u16 \<Rightarrow> portion_geometry res" where
  "geometry_of_portion page pebs_per_seg stripes =
     (let leb_desc_per_mempage = SSDFS_LEB_DESC_PER_FRAGMENT PAGE_CACHE_SIZE;
          peb_desc_per_stripe = SSDFS_PEB_DESC_PER_FRAGMENT PAGE_CACHE_SIZE in
     bnd (if ucast stripes < pebs_per_seg then
            bnd (div_chk (pebs_per_seg + ucast stripes - 1) (ucast stripes)) (\<lambda>leb_index_per_stripe.
            bnd (div_chk peb_desc_per_stripe leb_index_per_stripe) (\<lambda>q. Inr (q * leb_index_per_stripe)))
          else Inr peb_desc_per_stripe) (\<lambda>peb_desc_per_stripe.
     let peb_desc_per_portion = peb_desc_per_stripe * ucast stripes;
         lebtbl_mempages = (peb_desc_per_portion + leb_desc_per_mempage - 1) div leb_desc_per_mempage;
         lebtbl_bytes = lebtbl_mempages * page;
         pebtbl_bytes = ucast stripes * page in
     Inr \<lparr>pg_stripes = stripes, pg_peb_desc = peb_desc_per_portion, pg_lebtbl_mempages = lebtbl_mempages,
          pg_lebtbl_bytes = lebtbl_bytes, pg_pebtbl_bytes = pebtbl_bytes, pg_size = lebtbl_bytes + pebtbl_bytes\<rparr>))"

text \<open>
  The rounds of \<^verbatim>\<open>goto define_stripes_per_portion\<close>. The difference of the sizes is computed as
  \<^verbatim>\<open>erase_size - portion_size\<close>, which wraps around; \<open>None\<close> stands for a loop that does not end.
\<close>

partial_function (option) define_stripes_per_portion ::
  "ssdfs_volume_layout \<Rightarrow> u64 \<Rightarrow> u32 \<Rightarrow> u16 \<Rightarrow> portion_geometry res option" where
  "define_stripes_per_portion layout pebs_per_volume pebs_per_seg stripes =
     (case bnd (correct_maptbl_stripes_per_portion (vl_nand_dies_count layout) stripes) (\<lambda>stripes.
           bnd (stripes_of_portion (env_device_type (vl_env layout)) pebs_per_volume stripes) (\<lambda>stripes.
           geometry_of_portion (vl_page_size layout) pebs_per_seg stripes)) of
        Inl e \<Rightarrow> Some (Inl e)
      | Inr g \<Rightarrow>
          if erase_size (vl_env layout) < pg_size g then
            let diff_size = erase_size (vl_env layout) - pg_size g;
                diff_stripes = (diff_size + PAGE_CACHE_SIZE - 1) div PAGE_CACHE_SIZE in
            if ucast (pg_stripes g) \<le> diff_stripes then Some (Inl Bug)
            else define_stripes_per_portion layout pebs_per_volume pebs_per_seg (pg_stripes g - ucast diff_stripes)
          else Some (Inr g))"

text \<open>\<^verbatim>\<open>portions_per_fragment\<close>: the requested number as long as a PEB has room for it.\<close>

definition portions_in_fragment :: "u32 \<Rightarrow> u32 \<Rightarrow> u16 \<Rightarrow> (u32 \<times> u16) res" where
  "portions_in_fragment erase portion_size requested =
     bnd (div_chk erase portion_size) (\<lambda>fitting.
     if fitting < ucast requested then
       let bytes_count = ucast requested * portion_size in
       if erase < bytes_count then
         let diff_size = bytes_count - erase;
             diff_fragments = (diff_size + portion_size - 1) div portion_size;
             corrected_value = ucast requested - diff_fragments;
             portions = max fitting corrected_value in
         bnd (BUG_ON (ucast U16_MAX \<le> portions)) (\<lambda>_. Inr (portions, ucast portions))
       else Inr (ucast requested, requested)
     else if ucast requested < fitting then Inr (ucast requested, requested)
     else Inr (fitting, requested))"

definition maptbl_policy_result ::
  "ssdfs_volume_layout \<Rightarrow> u64 \<Rightarrow> u64 \<Rightarrow> u32 \<Rightarrow> portion_geometry \<Rightarrow> (ssdfs_volume_layout \<times> int \<times> int) res" where
  "maptbl_policy_result layout seg_nums pebs_per_volume pebs_per_seg g =
     bnd (div_chk (pebs_per_volume + ucast (pg_peb_desc g) - 1) (ucast (pg_peb_desc g))) (\<lambda>fragments.
     bnd (BUG_ON (ucast U32_MAX \<le> fragments)) (\<lambda>_.
     bnd (portions_in_fragment (erase_size (vl_env layout)) (pg_size g) (mt_portions_per_fragment (vl_maptbl layout)))
       (\<lambda>(portions_per_fragment, stored).
     bnd (div_chk (fragments + ucast portions_per_fragment - 1) (ucast portions_per_fragment)) (\<lambda>pebs.
     bnd (div_chk (ucast pebs + pebs_per_seg - 1) pebs_per_seg) (\<lambda>maptbl_segs.
     let maptbl_pebs = maptbl_segs * pebs_per_seg;
         portions = maptbl_pebs * portions_per_fragment;
         segs = sint (if mt_has_backup_copy (vl_maptbl layout) then maptbl_segs * 2 else maptbl_segs) in
     bnd (fail_if (seg_nums * 10 div 100 < of_int segs) E2BIG) (\<lambda>_.
     bnd (BUG_ON (ucast U16_MAX \<le> pg_peb_desc g)) (\<lambda>_.
     bnd (nth_int (vl_meta_array layout) SSDFS_PEB_MAPPING_TABLE) (\<lambda>meta.
     bnd (upd_int (vl_meta_array layout) SSDFS_PEB_MAPPING_TABLE
           (meta\<lparr>md_segs_count := segs, md_seg_state := SSDFS_DEDICATED_SEGMENT\<rparr>)) (\<lambda>arr.
     Inr (layout\<lparr>vl_maptbl := (vl_maptbl layout)\<lparr>
             mt_stripes_per_portion := pg_stripes g, mt_portions_per_fragment := stored,
             mt_reserved_pebs_per_fragment := (if mt_reserved_pebs_per_fragment (vl_maptbl layout) = U16_MAX then 10
                                               else mt_reserved_pebs_per_fragment (vl_maptbl layout)),
             mt_maptbl_pebs := maptbl_pebs,
             mt_lebtbl_portion_bytes := pg_lebtbl_bytes g, mt_lebtbl_portion_mempages := pg_lebtbl_mempages g,
             mt_pebtbl_portion_bytes := pg_pebtbl_bytes g, mt_pebtbl_portion_mempages := ucast (pg_stripes g),
             mt_lebs_per_portion := ucast (pg_peb_desc g), mt_pebs_per_portion := ucast (pg_peb_desc g),
             mt_portions_count := portions, mt_portion_size := ucast (pg_size g)\<rparr>,
           vl_meta_array := arr\<rparr>, segs, SSDFS_DEDICATED_SEGMENT))))))))))"

definition maptbl_mkfs_allocation_policy ::
  "ssdfs_volume_layout \<Rightarrow> (ssdfs_volume_layout \<times> int \<times> int) res option" where
  "maptbl_mkfs_allocation_policy layout =
     (case bnd (div_chk (fs_size (vl_env layout)) (vl_seg_size layout)) (\<lambda>seg_nums.
           bnd (div_chk (vl_seg_size layout) (ucast (erase_size (vl_env layout)))) (\<lambda>pebs_per_seg.
           bnd (div_chk (fs_size (vl_env layout)) (ucast (erase_size (vl_env layout)))) (\<lambda>pebs_per_volume.
           bnd (BUG_ON (pebs_per_volume < seg_nums)) (\<lambda>_.
           bnd (mod_chk pebs_per_volume seg_nums) (\<lambda>r.
           bnd (BUG_ON (r \<noteq> 0)) (\<lambda>_.
           Inr (seg_nums, (ucast pebs_per_seg :: u32), pebs_per_volume))))))) of
        Inl e \<Rightarrow> Some (Inl e)
      | Inr (seg_nums, pebs_per_seg, pebs_per_volume) \<Rightarrow>
          (case define_stripes_per_portion layout pebs_per_volume pebs_per_seg
                  (mt_stripes_per_portion (vl_maptbl layout)) of
             None \<Rightarrow> None
           | Some (Inl e) \<Rightarrow> Some (Inl e)
           | Some (Inr g) \<Rightarrow> Some (maptbl_policy_result layout seg_nums pebs_per_volume pebs_per_seg g)))"

section \<open>Creation of the tables\<close>

text \<open>
  \<open>alloc_ok 0\<close> is the allocation of the array, \<open>alloc_ok (Suc i)\<close> that of buffer \<open>i\<close>. The cleanup
  counts an unsigned index down to below zero and so ends in an access outside the array.
\<close>

definition maptbl_create_fragments_array ::
  "(nat \<Rightarrow> bool) \<Rightarrow> ssdfs_volume_layout \<Rightarrow> ssdfs_volume_layout res" where
  "maptbl_create_fragments_array alloc_ok layout =
     (let mt = vl_maptbl layout;
          peb_buffer_size = mt_portion_size mt * ucast (mt_portions_per_fragment mt);
          maptbl_pebs = unat (mt_maptbl_pebs mt) in
     bnd (fail_if (\<not> alloc_ok 0) ENOMEM) (\<lambda>_.
     if \<forall>i < maptbl_pebs. alloc_ok (Suc i) then
       Inr (layout\<lparr>vl_maptbl := mt\<lparr>mt_fragments_array :=
         Some (replicate maptbl_pebs (Some (replicate (unat peb_buffer_size) 0)))\<rparr>\<rparr>)
     else Inl Oob))"

definition maptbl_destroy_fragments_array :: "ssdfs_volume_layout \<Rightarrow> ssdfs_volume_layout" where
  "maptbl_destroy_fragments_array layout =
     layout\<lparr>vl_maptbl := (vl_maptbl layout)\<lparr>mt_fragments_array := None\<rparr>\<rparr>"

text \<open>\<open>mt_buffer\<close> is \<^verbatim>\<open>layout->maptbl.fragments_array[i]\<close> as a pointer that is followed.\<close>

definition mt_buffer :: "ssdfs_volume_layout \<Rightarrow> nat \<Rightarrow> buf res" where
  "mt_buffer layout i =
     bnd (deref (mt_fragments_array (vl_maptbl layout))) (\<lambda>fs. bnd (nth_chk fs i) deref)"

definition mt_put_buffer :: "ssdfs_volume_layout \<Rightarrow> nat \<Rightarrow> buf \<Rightarrow> ssdfs_volume_layout res" where
  "mt_put_buffer layout i b =
     bnd (deref (mt_fragments_array (vl_maptbl layout))) (\<lambda>fs.
     bnd (upd_chk fs i (Some b)) (\<lambda>fs.
     Inr (layout\<lparr>vl_maptbl := (vl_maptbl layout)\<lparr>mt_fragments_array := Some fs\<rparr>\<rparr>)))"

text \<open>The number of LEB descriptors of a page of the LEB table, and where they start.\<close>

definition lebtbl_range :: "u64 \<Rightarrow> u16 \<Rightarrow> u16 \<Rightarrow> u16 \<Rightarrow> u64 \<times> u64" where
  "lebtbl_range pebs_per_volume lebs_per_portion portion_index mempage_index =
     (let leb_desc_per_mempage = ucast (SSDFS_LEB_DESC_PER_FRAGMENT PAGE_CACHE_SIZE);
          start_portion_leb = ucast lebs_per_portion * ucast portion_index;
          start_fragment_leb = start_portion_leb + leb_desc_per_mempage * ucast mempage_index in
      (if mempage_index = 0 then start_portion_leb else start_fragment_leb,
       if pebs_per_volume \<le> start_fragment_leb then 0
       else min (min (pebs_per_volume - start_fragment_leb) (ucast lebs_per_portion)) leb_desc_per_mempage))"

definition maptbl_prepare_leb_table :: "ssdfs_volume_layout \<Rightarrow> nat \<Rightarrow> u16 \<Rightarrow> u16 \<Rightarrow> buf \<Rightarrow> buf res" where
  "maptbl_prepare_leb_table layout p portion_index mempage_index b =
     bnd (div_chk (mt_lebtbl_portion_bytes (vl_maptbl layout)) (vl_page_size layout)) (\<lambda>q.
     let lebtbl_mempages = (ucast q :: u16) in
     bnd (BUG_ON (lebtbl_mempages = 0)) (\<lambda>_.
     bnd (BUG_ON (lebtbl_mempages \<le> mempage_index)) (\<lambda>_.
     bnd (div_chk (fs_size (vl_env layout)) (ucast (erase_size (vl_env layout)))) (\<lambda>pebs_per_volume.
     let (start_leb, lebs_count) =
           lebtbl_range pebs_per_volume (mt_lebs_per_portion (vl_maptbl layout)) portion_index mempage_index in
     bnd (wr16 b p SSDFS_LEB_TABLE_MAGIC) (\<lambda>b.
     bnd (wr16 b (p + 2) 0) (\<lambda>b.
     bnd (wr64 b (p + 8) start_leb) (\<lambda>b.
     bnd (BUG_ON (ucast U16_MAX \<le> lebs_count)) (\<lambda>_.
     bnd (wr16 b (p + 16) (ucast lebs_count)) (\<lambda>b.
     bnd (wr16 b (p + 18) 0) (\<lambda>b.
     bnd (wr16 b (p + 20) 0) (\<lambda>b.
     bnd (wr16 b (p + 24) portion_index) (\<lambda>b.
     bnd (wr16 b (p + 26) mempage_index) (\<lambda>b.
     bnd (wr32 b (p + 28) (32 + ucast (lebs_count * 4))) (\<lambda>b.
     memset b (p + LEBTBL_HDR_SIZE) 0xFF (4096 - LEBTBL_HDR_SIZE)))))))))))))))"

text \<open>The first PEB of a stripe and the number of its PEBs.\<close>

definition pebtbl_range :: "u64 \<Rightarrow> u16 \<Rightarrow> u16 \<Rightarrow> u16 \<Rightarrow> u16 \<Rightarrow> (u64 \<times> u64) res" where
  "pebtbl_range pebs_per_volume pebs_per_portion stripes portion_index stripe_index =
     (let start_portion = (ucast pebs_per_portion * ucast portion_index :: u64);
          rest_pebs = min (pebs_per_volume - start_portion) (ucast pebs_per_portion) in
     bnd (div_chk rest_pebs (ucast stripes)) (\<lambda>q.
     let peb_desc_per_stripe = (ucast q :: u32);
         peb_desc_per_stripe = (if rest_pebs mod ucast stripes \<noteq> 0 then peb_desc_per_stripe + 1 else peb_desc_per_stripe);
         start_peb = start_portion + ucast peb_desc_per_stripe * ucast stripe_index in
     if pebs_per_volume \<le> start_peb then Inr (start_peb, 0)
     else
       let pebs_count = (rest_pebs + rest_pebs mod ucast stripes) div ucast stripes in
       Inr (start_peb, if pebs_per_volume < start_peb + pebs_count then pebs_per_volume - start_peb else pebs_count)))"

definition maptbl_prepare_peb_table :: "ssdfs_volume_layout \<Rightarrow> nat \<Rightarrow> u16 \<Rightarrow> u16 \<Rightarrow> buf \<Rightarrow> buf res" where
  "maptbl_prepare_peb_table layout p portion_index stripe_index b =
     (let mt = vl_maptbl layout in
     bnd (div_chk (fs_size (vl_env layout)) (ucast (erase_size (vl_env layout)))) (\<lambda>pebs_per_volume.
     bnd (BUG_ON (mt_stripes_per_portion mt \<le> stripe_index)) (\<lambda>_.
     bnd (pebtbl_range pebs_per_volume (mt_pebs_per_portion mt) (mt_stripes_per_portion mt) portion_index stripe_index)
       (\<lambda>(start_peb, pebs_count).
     bnd (wr16 b p SSDFS_PEB_TABLE_MAGIC) (\<lambda>b.
     bnd (wr8 b (p + 2) 0) (\<lambda>b.
     bnd (wr8 b (p + 3) 1) (\<lambda>b.
     bnd (wr64 b (p + 8) start_peb) (\<lambda>b.
     bnd (BUG_ON (ucast U16_MAX \<le> pebs_count)) (\<lambda>_.
     bnd (wr16 b (p + 16) (ucast pebs_count)) (\<lambda>b.
     let reserved_pebs = pebs_count * ucast (mt_reserved_pebs_per_fragment mt) div 100 in
     bnd (BUG_ON (ucast U16_MAX \<le> reserved_pebs)) (\<lambda>_.
     bnd (wr16 b (p + 18) 0) (\<lambda>b.
     bnd (wr16 b (p + 20) (ucast reserved_pebs)) (\<lambda>b.
     bnd (wr16 b (p + 22) stripe_index) (\<lambda>b.
     bnd (wr16 b (p + 24) portion_index) (\<lambda>b.
     bnd (wr16 b (p + 26) stripe_index) (\<lambda>b.
     wr32 b (p + 28) (288 + ucast (pebs_count * 8))))))))))))))))))"

definition maptbl_prepare_portion :: "ssdfs_volume_layout \<Rightarrow> u16 \<Rightarrow> ssdfs_volume_layout res" where
  "maptbl_prepare_portion layout index =
     (let mt = vl_maptbl layout in
     bnd (fail_if (mt_portions_count mt \<le> ucast index) EINVAL) (\<lambda>_.
     bnd (div_chk index (mt_portions_per_fragment mt)) (\<lambda>i.
     bnd (mt_buffer layout (unat i)) (\<lambda>b.
     let ptr = unat (index mod mt_portions_per_fragment mt) * unat (mt_portion_size mt) in
     bnd (div_chk (mt_lebtbl_portion_bytes mt) (vl_page_size layout)) (\<lambda>q.
     let lebtbl_mempages = (ucast q :: u16) in
     bnd (BUG_ON (lebtbl_mempages = 0)) (\<lambda>_.
     bnd (for_res 0 (unat lebtbl_mempages) (\<lambda>k.
            maptbl_prepare_leb_table layout (ptr + unat (of_nat k * vl_page_size layout)) index (of_nat k)) b) (\<lambda>b.
     bnd (for_res 0 (unat (mt_stripes_per_portion mt)) (\<lambda>k.
            maptbl_prepare_peb_table layout (ptr + unat (mt_lebtbl_portion_bytes mt) + unat (of_nat k * vl_page_size layout))
              index (of_nat k)) b) (\<lambda>b.
     mt_put_buffer layout (unat i) b))))))))"

definition maptbl_mkfs_prepare :: "(nat \<Rightarrow> bool) \<Rightarrow> ssdfs_volume_layout \<Rightarrow> ssdfs_volume_layout res" where
  "maptbl_mkfs_prepare alloc_ok layout =
     bnd (reserve_segments layout SSDFS_PEB_MAPPING_TABLE) (\<lambda>layout.
     bnd (maptbl_create_fragments_array alloc_ok layout) (\<lambda>layout.
     let portions = mt_portions_count (vl_maptbl layout) in
     bnd (BUG_ON (ucast U16_MAX \<le> portions)) (\<lambda>_.
     for_res 0 (unat portions) (\<lambda>i layout. maptbl_prepare_portion layout (of_nat i)) layout)))"

section \<open>Check of the PEBs by the device\<close>

text \<open>
  The operations of the device that mkfs calls: \<open>do_geometry\<close> is the result of \<^verbatim>\<open>check_nand_geometry\<close>,
  \<open>do_check\<close> that of \<^verbatim>\<open>check_peb\<close> for an offset, with the next state of the device.
\<close>

record 'd peb_device =
  do_geometry :: "u32 \<Rightarrow> u32 \<Rightarrow> int"
  do_check :: "'d \<Rightarrow> u64 \<Rightarrow> u32 \<Rightarrow> int \<times> 'd"

text \<open>
  The effect of the result of a check: \<open>hdr\<close> is the offset of the table, \<open>desc\<close> that of the
  descriptor, \<open>i\<close> the bit in the bitmaps.
\<close>

definition mark_peb_in_bmap :: "u8 \<Rightarrow> u8 \<Rightarrow> nat \<Rightarrow> nat \<Rightarrow> nat \<Rightarrow> nat \<Rightarrow> buf \<Rightarrow> buf res" where
  "mark_peb_in_bmap state flag bmap hdr desc i b =
     bnd (wr8 b (desc + 5) state) (\<lambda>b.
     bnd (rd8 b (hdr + 2)) (\<lambda>flags.
     bnd (wr8 b (hdr + 2) (flags OR flag)) (\<lambda>b.
     bnd (set_bit_chk b (hdr + PEBTBL_USED_BMAP) i) (\<lambda>b.
     set_bit_chk b (hdr + bmap) i))))"

definition store_peb_check :: "int \<Rightarrow> nat \<Rightarrow> nat \<Rightarrow> nat \<Rightarrow> buf \<Rightarrow> buf res" where
  "store_peb_check res hdr desc i b =
     (if res = 0 then wr32 b desc 1
      else if res = 1 then
        bnd (wr32 b desc U32_MAX) (mark_peb_in_bmap SSDFS_MAPTBL_BAD_PEB_STATE 8 PEBTBL_BADBLK_BMAP hdr desc i)
      else if res = 2 then
        bnd (wr32 b desc 1) (mark_peb_in_bmap SSDFS_MAPTBL_RECOVERING_STATE 4 PEBTBL_RECOVER_BMAP hdr desc i)
      else Inl Bug)"

text \<open>
  A stripe of \<^verbatim>\<open>check_portion_pebs_validity\<close>. The pointer to the PEB table accumulates the offsets
  (\<^verbatim>\<open>pebtbl += stripe_id * layout->page_size\<close>), and the descriptor is looked up at \<^verbatim>\<open>peb_id\<close>, the number of the PEB
  in the volume. A negative result of a check is returned; \<open>dev_err\<close> carries it.
\<close>

definition check_stripe_pebs ::
  "'d peb_device \<Rightarrow> ssdfs_volume_layout \<Rightarrow> nat \<Rightarrow> nat \<times> buf \<times> 'd \<times> int \<Rightarrow> (nat \<times> buf \<times> 'd \<times> int) res" where
  "check_stripe_pebs dev layout stripe_id = (\<lambda>(pebtbl, b, d, dev_err).
     if dev_err \<noteq> 0 then Inr (pebtbl, b, d, dev_err)
     else
       let pebtbl = pebtbl + unat (of_nat stripe_id * vl_page_size layout); peb_size = erase_size (vl_env layout) in
       bnd (rd16 b (pebtbl + 16)) (\<lambda>pebs_count.
       bnd (rd64 b (pebtbl + 8)) (\<lambda>start_peb.
       bnd (for_res 0 (unat pebs_count) (\<lambda>i (b, d, dev_err).
              if dev_err \<noteq> 0 then Inr (b, d, dev_err)
              else
                let peb_id = start_peb + of_nat i;
                    (res, d) = do_check dev d (peb_id * ucast peb_size) peb_size in
                if res < 0 then Inr (b, d, res)
                else bnd (store_peb_check res pebtbl (pebtbl + PEBTBL_HDR_SIZE + unat peb_id * PEB_DESC_SIZE) i b) (\<lambda>b.
                  Inr (b, d, 0))) (b, d, 0)) (\<lambda>(b, d, dev_err).
       Inr (pebtbl, b, d, dev_err)))))"

definition check_portion_pebs_validity ::
  "'d peb_device \<Rightarrow> ssdfs_volume_layout \<Rightarrow> nat \<Rightarrow> buf \<times> 'd \<times> int \<Rightarrow> (buf \<times> 'd \<times> int) res" where
  "check_portion_pebs_validity dev layout portion = (\<lambda>(b, d, dev_err).
     if dev_err \<noteq> 0 then Inr (b, d, dev_err)
     else
       bnd (for_res 0 (unat (mt_stripes_per_portion (vl_maptbl layout))) (check_stripe_pebs dev layout)
             (portion + unat (mt_lebtbl_portion_bytes (vl_maptbl layout)), b, d, 0)) (\<lambda>(pebtbl, b, d, dev_err).
       Inr (b, d, dev_err)))"

text \<open>The result: the layout, the device and the returned code (0 or the code of the device).\<close>

definition check_pebs_validity ::
  "'d peb_device \<Rightarrow> ssdfs_volume_layout \<Rightarrow> 'd \<Rightarrow> (ssdfs_volume_layout \<times> 'd \<times> int) res" where
  "check_pebs_validity dev layout d =
     (case env_device_type (vl_env layout) of
        SSDFS_ZNS_DEVICE \<Rightarrow> Inr (layout, d, 0)
      | SSDFS_BLK_DEVICE \<Rightarrow> Inr (layout, d, 0)
      | SSDFS_DEVICE_TYPE_MAX \<Rightarrow> Inl Bug
      | SSDFS_MTD_DEVICE \<Rightarrow>
          let res = do_geometry dev (erase_size (vl_env layout)) (vl_page_size layout) in
          if res \<noteq> 0 then Inr (layout, d, res)
          else
            bnd (for_res 0 (unat (mt_maptbl_pebs (vl_maptbl layout))) (\<lambda>findex (layout, d, dev_err).
                  if dev_err \<noteq> 0 then Inr (layout, d, dev_err)
                  else
                    bnd (mt_buffer layout findex) (\<lambda>b.
                    bnd (for_res 0 (unat (mt_portions_per_fragment (vl_maptbl layout))) (\<lambda>pindex.
                           check_portion_pebs_validity dev layout (pindex * unat (mt_portion_size (vl_maptbl layout))))
                         (b, d, 0)) (\<lambda>(b, d, dev_err).
                    bnd (mt_put_buffer layout findex b) (\<lambda>layout. Inr (layout, d, dev_err)))))
                 (layout, d, 0)) (\<lambda>(layout, d, dev_err).
            Inr (if dev_err \<noteq> 0 then layout else layout\<lparr>vl_is_volume_erased := True\<rparr>, d, dev_err)))"

section \<open>Lookup in the tables\<close>

text \<open>
  \<^verbatim>\<open>get_lebtbl_fragment\<close>: the indexes of the fragment, of the portion and of the descriptor that it stores
  through its pointers, and the offset of the LEB table in the buffer of the fragment.
\<close>

definition get_lebtbl_fragment :: "ssdfs_volume_layout \<Rightarrow> u64 \<Rightarrow> (u32 \<times> u32 \<times> u16 \<times> nat) res" where
  "get_lebtbl_fragment layout leb_id =
     (let mt = vl_maptbl layout;
          leb_desc_per_portion = (ucast (mt_lebs_per_portion mt) :: u32);
          leb_desc_per_peb = leb_desc_per_portion * ucast (mt_portions_per_fragment mt);
          leb_desc_per_mempage = (ucast (SSDFS_LEB_DESC_PER_FRAGMENT PAGE_CACHE_SIZE) :: u64) in
     bnd (div_chk leb_id (ucast leb_desc_per_peb)) (\<lambda>q.
     let fragment_index = (ucast q :: u32) in
     bnd (BUG_ON (mt_maptbl_pebs mt \<le> fragment_index)) (\<lambda>_.
     let diff_leb_id = leb_id - ucast (fragment_index * leb_desc_per_peb) in
     bnd (div_chk diff_leb_id (ucast leb_desc_per_portion)) (\<lambda>q.
     let portion_index = (ucast q :: u32) in
     bnd (BUG_ON (ucast (mt_portions_per_fragment mt) \<le> portion_index)) (\<lambda>_.
     let diff_leb_id = diff_leb_id - ucast (portion_index * leb_desc_per_portion);
         mempage_index = (ucast (diff_leb_id div leb_desc_per_mempage) :: u32) in
     bnd (div_chk (mt_lebtbl_portion_bytes mt) (vl_page_size layout)) (\<lambda>lebtbls_per_portion.
     bnd (BUG_ON (lebtbls_per_portion \<le> mempage_index)) (\<lambda>_.
     Inr (fragment_index, portion_index, ucast (diff_leb_id mod leb_desc_per_mempage),
          unat (ucast portion_index * mt_portion_size mt) + unat (mempage_index * vl_page_size layout)))))))))"

definition get_pebtbl_fragment :: "ssdfs_volume_layout \<Rightarrow> u32 \<Rightarrow> u16 \<Rightarrow> nat" where
  "get_pebtbl_fragment layout portion_index stripe_index =
     unat (ucast portion_index * mt_portion_size (vl_maptbl layout)) + unat (mt_lebtbl_portion_bytes (vl_maptbl layout)) +
     unat (ucast stripe_index * vl_page_size layout)"

text \<open>\<^verbatim>\<open>find_unused_peb\<close>: the first word of the bitmap with a zero bit, then the first zero bit from there on.\<close>

fun skip_full_words :: "buf \<Rightarrow> nat \<Rightarrow> nat \<Rightarrow> nat \<Rightarrow> nat res" where
  "skip_full_words b bmap index 0 = Inr index"
| "skip_full_words b bmap index (Suc n) =
     bnd (rd64 b (bmap + 8 * index)) (\<lambda>w.
     if w \<noteq> U64_MAX then Inr index else skip_full_words b bmap (Suc index) n)"

fun find_clear_bit :: "buf \<Rightarrow> nat \<Rightarrow> nat \<Rightarrow> nat \<Rightarrow> nat res" where
  "find_clear_bit b bmap peb_index 0 = Inr peb_index"
| "find_clear_bit b bmap peb_index (Suc n) =
     bnd (test_bit_chk b bmap peb_index) (\<lambda>set.
     if \<not> set then Inr peb_index else find_clear_bit b bmap (Suc peb_index) n)"

definition find_unused_peb :: "buf \<Rightarrow> nat \<Rightarrow> u16 res" where
  "find_unused_peb b hdr =
     bnd (rd16 b (hdr + 16)) (\<lambda>pebs_count.
     let n = unat pebs_count; bmap = hdr + PEBTBL_USED_BMAP in
     bnd (skip_full_words b bmap 0 ((n + 63) div 64)) (\<lambda>index.
     let start = unat (of_nat (index * 64) :: u16) in
     bnd (find_clear_bit b bmap start (n - start)) (\<lambda>peb_index.
     Inr (if n \<le> peb_index then U16_MAX else of_nat peb_index))))"

section \<open>Change of the tables\<close>

text \<open>
  The assertions that \<^verbatim>\<open>define_peb_as_used\<close> and \<^verbatim>\<open>define_peb_as_pre_erased\<close> share, with the offset of
  the descriptor as the result.
\<close>

definition unused_peb_desc :: "buf \<Rightarrow> nat \<Rightarrow> u16 \<Rightarrow> nat res" where
  "unused_peb_desc b pebtbl peb_index =
     bnd (rd16 b pebtbl) (\<lambda>magic.
     bnd (BUG_ON (magic \<noteq> SSDFS_PEB_TABLE_MAGIC)) (\<lambda>_.
     bnd (rd16 b (pebtbl + 16)) (\<lambda>pebs_count.
     bnd (rd16 b (pebtbl + 18)) (\<lambda>last_selected_peb.
     bnd (BUG_ON (pebs_count \<le> last_selected_peb)) (\<lambda>_.
     bnd (BUG_ON (pebs_count \<le> peb_index)) (\<lambda>_.
     bnd (rd32 b (pebtbl + 28)) (\<lambda>bytes_count.
     bnd (BUG_ON (unat bytes_count \<noteq> PEBTBL_HDR_SIZE + unat pebs_count * PEB_DESC_SIZE)) (\<lambda>_.
     let desc = pebtbl + PEBTBL_HDR_SIZE + unat peb_index * PEB_DESC_SIZE in
     bnd (rd8 b (desc + 5)) (\<lambda>state.
     bnd (BUG_ON (state \<noteq> SSDFS_MAPTBL_UNKNOWN_PEB_STATE)) (\<lambda>_.
     bnd (rd8 b (desc + 4)) (\<lambda>ty.
     bnd (BUG_ON (ty \<noteq> 0)) (\<lambda>_. Inr desc))))))))))))"

definition define_peb_as_used :: "nat \<Rightarrow> u16 \<Rightarrow> int \<Rightarrow> buf \<Rightarrow> buf res" where
  "define_peb_as_used pebtbl peb_index meta_index b =
     (let peb_type = SEG2PEB_TYPE (META2SEG_TYPE meta_index) in
     bnd (BUG_ON (SSDFS_METADATA_ITEMS_MAX < meta_index)) (\<lambda>_.
     bnd (BUG_ON (peb_type \<le> SSDFS_MAPTBL_UNKNOWN_PEB_TYPE \<or> SSDFS_MAPTBL_PEB_TYPE_MAX \<le> peb_type)) (\<lambda>_.
     bnd (unused_peb_desc b pebtbl peb_index) (\<lambda>desc.
     bnd (rd16 b (pebtbl + 18)) (\<lambda>last_selected_peb.
     bnd (wr8 b (desc + 4) (of_int peb_type)) (\<lambda>b.
     bnd (wr8 b (desc + 5) SSDFS_MAPTBL_USING_PEB_STATE) (\<lambda>b.
     bnd (wr16 b (pebtbl + 18) last_selected_peb) (\<lambda>b.
     set_bit_chk b (pebtbl + PEBTBL_USED_BMAP) (unat peb_index)))))))))"

definition define_peb_as_pre_erased :: "nat \<Rightarrow> u16 \<Rightarrow> buf \<Rightarrow> buf res" where
  "define_peb_as_pre_erased pebtbl peb_index b =
     bnd (unused_peb_desc b pebtbl peb_index) (\<lambda>desc.
     bnd (wr8 b (desc + 4) 0) (\<lambda>b.
     bnd (wr8 b (desc + 5) SSDFS_MAPTBL_PRE_ERASE_STATE) (\<lambda>b.
     set_bit_chk b (pebtbl + PEBTBL_DIRTY_BMAP) (unat peb_index))))"

definition DEFINE_PEB_INDEX_IN_PORTION :: "u16 \<Rightarrow> u16 \<Rightarrow> u16 res" where
  "DEFINE_PEB_INDEX_IN_PORTION stripe_index item_index =
     (let peb_index = SSDFS_PEB_DESC_PER_FRAGMENT PAGE_CACHE_SIZE * ucast stripe_index + ucast item_index in
     bnd (BUG_ON (ucast U16_MAX \<le> peb_index)) (\<lambda>_. Inr (ucast peb_index)))"

definition define_leb_as_mapped :: "nat \<Rightarrow> u16 \<Rightarrow> u16 \<Rightarrow> buf \<Rightarrow> buf res" where
  "define_leb_as_mapped lebtbl leb_desc_index physical_index b =
     bnd (rd16 b lebtbl) (\<lambda>magic.
     bnd (BUG_ON (magic \<noteq> SSDFS_LEB_TABLE_MAGIC)) (\<lambda>_.
     bnd (rd16 b (lebtbl + 16)) (\<lambda>lebs_count.
     bnd (BUG_ON (lebs_count = 0)) (\<lambda>_.
     bnd (rd16 b (lebtbl + 18)) (\<lambda>mapped_lebs.
     bnd (BUG_ON (lebs_count < mapped_lebs)) (\<lambda>_.
     bnd (rd16 b (lebtbl + 20)) (\<lambda>migrating_lebs.
     bnd (BUG_ON (lebs_count < migrating_lebs)) (\<lambda>_.
     bnd (BUG_ON (unat lebs_count < unat mapped_lebs + unat migrating_lebs)) (\<lambda>_.
     bnd (rd32 b (lebtbl + 28)) (\<lambda>bytes_count.
     bnd (BUG_ON (unat bytes_count \<noteq> LEBTBL_HDR_SIZE + unat lebs_count * LEB_DESC_SIZE)) (\<lambda>_.
     let desc = lebtbl + LEBTBL_HDR_SIZE + unat leb_desc_index * LEB_DESC_SIZE in
     bnd (wr16 b desc physical_index) (\<lambda>b.
     bnd (wr16 b (desc + 2) U16_MAX) (\<lambda>b.
     wr16 b (lebtbl + 18) (mapped_lebs + 1))))))))))))))"

section \<open>Mapping of the allocated LEBs\<close>

definition get_stripe_index :: "ssdfs_volume_layout \<Rightarrow> u64 \<Rightarrow> u64 \<Rightarrow> u16 res" where
  "get_stripe_index layout start_leb leb_id =
     (let stripes_per_portion = mt_stripes_per_portion (vl_maptbl layout) in
     bnd (div_chk (vl_seg_size layout) (ucast (erase_size (vl_env layout)))) (\<lambda>q.
     let pebs_per_seg = (ucast q :: u32) in
     bnd (mod_chk leb_id (ucast pebs_per_seg)) (\<lambda>leb_index.
     if stripes_per_portion = 1 then
       bnd (div_chk (leb_id - start_leb) (ucast (SSDFS_PEB_DESC_PER_FRAGMENT PAGE_CACHE_SIZE))) (\<lambda>i. Inr (ucast i))
     else if ucast stripes_per_portion < pebs_per_seg then
       bnd (div_chk (pebs_per_seg + ucast stripes_per_portion - 1) (ucast stripes_per_portion)) (\<lambda>leb_index_per_stripe.
       bnd (div_chk leb_index (ucast leb_index_per_stripe)) (\<lambda>i.
       bnd (BUG_ON (ucast U16_MAX \<le> i)) (\<lambda>_. Inr (ucast i))))
     else
       bnd (BUG_ON (ucast U16_MAX \<le> pebs_per_seg)) (\<lambda>_.
       bnd (div_chk leb_index (ucast pebs_per_seg)) (\<lambda>i. Inr (ucast i))))))"

text \<open>The LEB table of a LEB, with the assertions that the callers make: the buffer and the values of the header.\<close>

definition lebtbl_of_leb ::
  "ssdfs_volume_layout \<Rightarrow> u64 \<Rightarrow> (u32 \<times> u32 \<times> u16 \<times> nat \<times> buf \<times> u64 \<times> u16) res" where
  "lebtbl_of_leb layout leb_id =
     bnd (get_lebtbl_fragment layout leb_id) (\<lambda>(fragment_index, portion_index, leb_desc_index, lebtbl).
     bnd (mt_buffer layout (unat fragment_index)) (\<lambda>b.
     bnd (rd16 b lebtbl) (\<lambda>magic.
     bnd (BUG_ON (magic \<noteq> SSDFS_LEB_TABLE_MAGIC)) (\<lambda>_.
     bnd (rd64 b (lebtbl + 8)) (\<lambda>start_leb.
     bnd (rd16 b (lebtbl + 16)) (\<lambda>lebs_count.
     bnd (BUG_ON (leb_id < start_leb)) (\<lambda>_.
     bnd (BUG_ON (start_leb + ucast lebs_count \<le> leb_id)) (\<lambda>_.
     Inr (fragment_index, portion_index, leb_desc_index, lebtbl, b, start_leb, lebs_count)))))))))"

definition map_leb2peb :: "ssdfs_volume_layout \<Rightarrow> u64 \<Rightarrow> int \<Rightarrow> (u64 \<times> ssdfs_volume_layout) res" where
  "map_leb2peb layout leb_id meta_index =
     bnd (lebtbl_of_leb layout leb_id) (\<lambda>(fragment_index, portion_index, leb_desc_index, lebtbl, b, start_leb, lebs_count).
     bnd (get_stripe_index layout start_leb leb_id) (\<lambda>stripe_index.
     let pebtbl = get_pebtbl_fragment layout portion_index stripe_index in
     bnd (rd16 b pebtbl) (\<lambda>magic.
     bnd (BUG_ON (magic \<noteq> SSDFS_PEB_TABLE_MAGIC)) (\<lambda>_.
     bnd (find_unused_peb b pebtbl) (\<lambda>peb_index.
     if peb_index = U16_MAX then Inr (U64_MAX, layout)
     else
       bnd (define_peb_as_used pebtbl peb_index meta_index b) (\<lambda>b.
       bnd (DEFINE_PEB_INDEX_IN_PORTION stripe_index peb_index) (\<lambda>physical_index.
       bnd (define_leb_as_mapped lebtbl leb_desc_index physical_index b) (\<lambda>b.
       bnd (rd64 b (pebtbl + 8)) (\<lambda>start_peb.
       bnd (mt_put_buffer layout (unat fragment_index) b) (\<lambda>layout.
       Inr (start_peb + ucast peb_index, layout)))))))))))"

text \<open>A PEB of a segment: nothing for a PEB without a LEB, otherwise its place is looked up, cached and stored.\<close>

definition map_peb :: "int \<Rightarrow> nat \<Rightarrow> ssdfs_volume_layout \<Rightarrow> ssdfs_volume_layout res" where
  "map_peb seg i layout =
     bnd (seg_at layout seg) (\<lambda>segment.
     bnd (nth_chk (sd_pebs segment) i) (\<lambda>peb.
     if pc_leb_id peb = U64_MAX then Inr layout
     else
       bnd (map_leb2peb layout (pc_leb_id peb) (sd_seg_type segment)) (\<lambda>(peb_id, layout).
       bnd (fail_if (peb_id = U64_MAX) ERANGE) (\<lambda>_.
       bnd (cache_leb2peb_pair layout (pc_leb_id peb) peb_id) (\<lambda>layout.
       put_peb layout seg (int i) (peb\<lparr>pc_peb_id := peb_id\<rparr>))))))"

definition map_segment_lebs2pebs :: "int \<Rightarrow> ssdfs_volume_layout \<Rightarrow> ssdfs_volume_layout res" where
  "map_segment_lebs2pebs seg layout =
     bnd (seg_at layout seg) (\<lambda>segment.
     for_res 0 (unat (sd_pebs_capacity segment)) (map_peb seg) layout)"

definition map_allocated_lebs2pebs :: "ssdfs_volume_layout \<Rightarrow> ssdfs_volume_layout res" where
  "map_allocated_lebs2pebs layout =
     for_res 0 (nat SSDFS_METADATA_ITEMS_MAX) (\<lambda>i layout.
       bnd (nth_chk (vl_meta_array layout) i) (\<lambda>desc.
       for_res 0 (nat (md_segs_count desc)) (\<lambda>j. map_segment_lebs2pebs (md_start_seg_index desc + int j)) layout)) layout"

section \<open>PEBs that are not allocated\<close>

text \<open>
  The loop over the stripes of a portion; the state is the buffer and \<^verbatim>\<open>peb_id\<close>. A stripe without PEBs is
  skipped.
\<close>

definition mark_stripe ::
  "ssdfs_volume_layout \<Rightarrow> u32 \<Rightarrow> nat \<Rightarrow> buf \<times> u64 \<Rightarrow> (buf \<times> u64) res" where
  "mark_stripe layout portion_index i = (\<lambda>(b, peb_id).
     let pebtbl = get_pebtbl_fragment layout portion_index (of_nat i) in
     bnd (rd16 b pebtbl) (\<lambda>magic.
     bnd (BUG_ON (magic \<noteq> SSDFS_PEB_TABLE_MAGIC)) (\<lambda>_.
     bnd (rd64 b (pebtbl + 8)) (\<lambda>start_peb.
     bnd (rd16 b (pebtbl + 16)) (\<lambda>pebs_count.
     bnd (BUG_ON (peb_id < start_peb)) (\<lambda>_.
     bnd (if pebs_count = 0 then Inr b
          else
            bnd (BUG_ON (start_peb + ucast pebs_count \<le> peb_id)) (\<lambda>_.
            let peb_index = peb_id - start_peb in
            bnd (BUG_ON (ucast U16_MAX \<le> peb_index \<or> ucast pebs_count \<le> peb_index)) (\<lambda>_.
            for_res (unat peb_index) (unat pebs_count) (\<lambda>j. define_peb_as_pre_erased pebtbl (of_nat j)) b))) (\<lambda>b.
     Inr (b, start_peb + ucast pebs_count))))))))"

text \<open>The body of \<^verbatim>\<open>while (leb_id < total_pebs_count)\<close>.\<close>

definition mark_lebtbl ::
  "ssdfs_volume_layout \<Rightarrow> u64 \<Rightarrow> u64 \<Rightarrow> (ssdfs_volume_layout \<times> u64 \<times> u64) res" where
  "mark_lebtbl layout leb_id peb_id =
     bnd (lebtbl_of_leb layout leb_id) (\<lambda>(fragment_index, portion_index, leb_desc_index, lebtbl, b, start_leb, lebs_count).
     bnd (get_stripe_index layout start_leb leb_id) (\<lambda>stripe_index.
     bnd (for_res (unat stripe_index) (unat (mt_stripes_per_portion (vl_maptbl layout))) (mark_stripe layout portion_index)
           (b, peb_id)) (\<lambda>(b, peb_id).
     bnd (mt_put_buffer layout (unat fragment_index) b) (\<lambda>layout.
     Inr (layout, start_leb + ucast lebs_count, peb_id)))))"

lemma lebtbl_of_leb_range:
  assumes "lebtbl_of_leb layout leb_id = Inr (fi, pi, di, t, b, start_leb, lebs_count)"
  shows "leb_id < start_leb + ucast lebs_count"
  using assms by (auto simp: lebtbl_of_leb_def bnd_eq_Inr BUG_ON_def not_le split: if_splits)

lemma mark_lebtbl_advances:
  assumes "mark_lebtbl layout leb_id peb_id = Inr (layout', leb_id', peb_id')"
  shows "leb_id < leb_id'"
  using assms by (auto simp: mark_lebtbl_def bnd_eq_Inr intro: lebtbl_of_leb_range)

function mark_loop :: "u64 \<Rightarrow> ssdfs_volume_layout \<Rightarrow> u64 \<Rightarrow> u64 \<Rightarrow> ssdfs_volume_layout res" where
  "mark_loop total_pebs_count layout leb_id peb_id =
     (if leb_id < total_pebs_count then
        (case mark_lebtbl layout leb_id peb_id of
           Inl e \<Rightarrow> Inl e
         | Inr (layout', leb_id', peb_id') \<Rightarrow> mark_loop total_pebs_count layout' leb_id' peb_id')
      else Inr layout)"
  by auto

termination
proof (relation "measure (\<lambda>(total_pebs_count, layout, leb_id, peb_id). unat total_pebs_count - unat leb_id)", goal_cases)
  case (2 total_pebs_count layout leb_id peb_id x layout' y leb_id' peb_id')
  then have "mark_lebtbl layout leb_id peb_id = Inr (layout', leb_id', peb_id')" by simp
  from mark_lebtbl_advances[OF this] 2(1) show ?case by (simp add: word_less_nat_alt)
qed simp

declare mark_loop.simps [simp del]

definition mark_unallocated_pebs_as_pre_erased :: "ssdfs_volume_layout \<Rightarrow> ssdfs_volume_layout res" where
  "mark_unallocated_pebs_as_pre_erased layout =
     (if vl_need_erase_device layout then Inr layout
      else
        bnd (div_chk (fs_size (vl_env layout)) (ucast (erase_size (vl_env layout)))) (\<lambda>total_pebs_count.
        bnd (seg_at layout (vl_segs_capacity layout - 1)) (\<lambda>segment.
        bnd (nth_int (sd_pebs segment) (uint (sd_pebs_capacity segment) - 1)) (\<lambda>peb.
        bnd (BUG_ON (total_pebs_count \<le> pc_leb_id peb)) (\<lambda>_.
        bnd (BUG_ON (total_pebs_count \<le> pc_peb_id peb)) (\<lambda>_.
        let leb_id = pc_leb_id peb + 1; unallocated_pebs = total_pebs_count - leb_id in
        bnd (mark_loop total_pebs_count layout leb_id (pc_peb_id peb + 1)) (\<lambda>layout.
        Inr (layout\<lparr>vl_maptbl := (vl_maptbl layout)\<lparr>mt_pre_erased_pebs := unallocated_pebs\<rparr>\<rparr>))))))))"

section \<open>Description in the volume header\<close>

text \<open>\<open>maptbl_extent k c\<close> is \<^verbatim>\<open>hdr->extents[k][c]\<close>; the header is at 0x140 of the volume header.\<close>

definition maptbl_extent :: "nat \<Rightarrow> nat \<Rightarrow> nat" where
  "maptbl_extent k c = 0x170 + 32 * k + 16 * c"

definition store_maptbl_extent :: "nat \<Rightarrow> u64 \<Rightarrow> u32 \<Rightarrow> buf \<Rightarrow> buf res" where
  "store_maptbl_extent p seg_id extent_len vh =
     bnd (wr64 vh p seg_id) (\<lambda>vh.
     bnd (wr32 vh (p + 8) extent_len) (\<lambda>vh.
     bnd (wr16 vh (p + 12) 1) (\<lambda>vh.
     wr16 vh (p + 14) 0)))"

text \<open>The state of the loop over the segments: the volume header, \<^verbatim>\<open>seg_id\<close>, \<^verbatim>\<open>extent_len\<close> and \<^verbatim>\<open>j\<close>.\<close>

definition maptbl_extent_step ::
  "ssdfs_volume_layout \<Rightarrow> nat \<Rightarrow> int \<Rightarrow> nat \<Rightarrow> buf \<times> u64 \<times> u32 \<times> nat \<Rightarrow> (buf \<times> u64 \<times> u32 \<times> nat) res" where
  "maptbl_extent_step layout c seg_index i = (\<lambda>(vh, seg_id, extent_len, j).
     bnd (seg_at layout (seg_index + int i)) (\<lambda>seg.
     let cur_seg_id = sd_seg_id seg in
     if seg_id = U64_MAX then Inr (vh, cur_seg_id, extent_len + 1, j)
     else if seg_id + ucast extent_len \<noteq> cur_seg_id then
       bnd (store_maptbl_extent (maptbl_extent j c) seg_id extent_len vh) (\<lambda>vh.
       bnd (BUG_ON (SSDFS_MAPTBL_RESERVED_EXTENTS \<le> j + 1)) (\<lambda>_.
       Inr (vh, cur_seg_id, 1, j + 1)))
     else Inr (vh, seg_id, extent_len + 1, j)))"

definition maptbl_segs_per_copy :: "ssdfs_volume_layout \<Rightarrow> u32 res" where
  "maptbl_segs_per_copy layout =
     bnd (div_chk (vl_seg_size layout) (ucast (erase_size (vl_env layout)))) (\<lambda>q.
     let portions_per_seg = ucast q * ucast (mt_portions_per_fragment (vl_maptbl layout)) in
     div_chk (mt_portions_count (vl_maptbl layout) + portions_per_seg - 1) portions_per_seg)"

definition define_maptbl_extents :: "nat \<Rightarrow> ssdfs_volume_layout \<Rightarrow> ssdfs_volume_layout res" where
  "define_maptbl_extents c layout =
     bnd (maptbl_segs_per_copy layout) (\<lambda>segs_per_copy.
     bnd (BUG_ON (2 \<le> c)) (\<lambda>_.
     bnd (nth_int (vl_meta_array layout) SSDFS_PEB_MAPPING_TABLE) (\<lambda>meta.
     let seg_index = md_start_seg_index meta + (if c = 1 then uint segs_per_copy else 0) in
     bnd (for_res 0 SSDFS_MAPTBL_RESERVED_EXTENTS (\<lambda>i vh. wr16 vh (maptbl_extent i c + 12) 0) (sb_vh (vl_sb layout))) (\<lambda>vh.
     bnd (for_res 0 (unat segs_per_copy) (maptbl_extent_step layout c seg_index) (vh, U64_MAX, 0, 0))
       (\<lambda>(vh, seg_id, extent_len, j).
     bnd (if extent_len \<noteq> 0 then
            bnd (BUG_ON (seg_id = U64_MAX)) (\<lambda>_.
            bnd (BUG_ON (SSDFS_MAPTBL_RESERVED_EXTENTS \<le> j)) (\<lambda>_.
            store_maptbl_extent (maptbl_extent j c) seg_id extent_len vh))
          else Inr vh) (\<lambda>vh.
     Inr (layout\<lparr>vl_sb := (vl_sb layout)\<lparr>sb_vh := vh\<rparr>\<rparr>)))))))"

definition maptbl_compr_flag :: "int \<Rightarrow> u16 res" where
  "maptbl_compr_flag compression =
     (if compression = SSDFS_UNCOMPRESSED_BLOB then Inr 0
      else if compression = SSDFS_ZLIB_BLOB then Inr 4
      else if compression = SSDFS_LZO_BLOB then Inr 8
      else if compression = SSDFS_LZ4_BLOB then Inr 64
      else if compression = SSDFS_ZSTD_BLOB then Inr 128
      else Inl (Errno ERANGE))"

text \<open>The fields in front of the extents; \<^verbatim>\<open>min_t(u16, ...)\<close> compares the low 16 bits of \<^verbatim>\<open>pebs_count\<close>.\<close>

definition maptbl_sb_fields :: "ssdfs_maptbl_layout \<Rightarrow> u64 \<Rightarrow> u32 \<Rightarrow> buf \<Rightarrow> buf res" where
  "maptbl_sb_fields mt pebs_count portions_per_seg vh =
     (let pebs_per_portion = min (mt_pebs_per_portion mt) (ucast pebs_count);
          stripes = mt_stripes_per_portion mt in
     bnd (wr32 vh 0x140 (mt_portions_count mt)) (\<lambda>vh.
     bnd (wr32 vh 0x144 (ucast (mt_portion_size mt))) (\<lambda>vh.
     bnd (wr64 vh 0x148 U64_MAX) (\<lambda>vh.
     bnd (wr64 vh 0x150 pebs_count) (\<lambda>vh.
     bnd (wr64 vh 0x158 pebs_count) (\<lambda>vh.
     bnd (BUG_ON (ucast U16_MAX \<le> portions_per_seg)) (\<lambda>_.
     bnd (wr16 vh 0x160 (ucast portions_per_seg)) (\<lambda>vh.
     bnd (wr16 vh 0x162 (mt_portions_per_fragment mt)) (\<lambda>vh.
     bnd (maptbl_compr_flag (mt_compression mt)) (\<lambda>compr.
     bnd (wr16 vh 0x164 ((if mt_has_backup_copy mt then 1 else 0) OR compr)) (\<lambda>vh.
     bnd (wr16 vh 0x166 (if ucast U16_MAX \<le> mt_pre_erased_pebs mt then U16_MAX else ucast (mt_pre_erased_pebs mt))) (\<lambda>vh.
     bnd (wr16 vh 0x168 (min (mt_lebs_per_portion mt) (ucast pebs_count))) (\<lambda>vh.
     bnd (wr16 vh 0x16A pebs_per_portion) (\<lambda>vh.
     bnd (div_chk pebs_per_portion stripes) (\<lambda>q.
     bnd (wr16 vh 0x16C (if pebs_per_portion mod stripes \<noteq> 0 then q + 1 else q)) (\<lambda>vh.
     wr16 vh 0x16E stripes))))))))))))))))"

definition init_maptbl_sb_header :: "ssdfs_volume_layout \<Rightarrow> ssdfs_volume_layout res" where
  "init_maptbl_sb_header layout =
     (let mt = vl_maptbl layout in
     bnd (div_chk (fs_size (vl_env layout)) (ucast (erase_size (vl_env layout)))) (\<lambda>pebs_count.
     bnd (div_chk (vl_seg_size layout) (ucast (erase_size (vl_env layout)))) (\<lambda>pebs_per_seg.
     bnd (maptbl_segs_per_copy layout) (\<lambda>segs_per_copy.
     bnd (maptbl_sb_fields mt pebs_count (ucast pebs_per_seg * ucast (mt_portions_per_fragment mt)) (sb_vh (vl_sb layout))) (\<lambda>vh.
     bnd (nth_int (vl_meta_array layout) SSDFS_PEB_MAPPING_TABLE) (\<lambda>meta.
     bnd (memset vh 0x170 0xFF (16 * 3 * 2)) (\<lambda>vh.
     bnd (fail_if (mt_has_backup_copy mt \<and> segs_per_copy * 2 \<noteq> of_int (md_segs_count meta)) ERANGE) (\<lambda>_.
     bnd (fail_if (segs_per_copy \<noteq> of_int (md_segs_count meta)) ERANGE) (\<lambda>_.
     bnd (define_maptbl_extents 0 (layout\<lparr>vl_sb := (vl_sb layout)\<lparr>sb_vh := vh\<rparr>\<rparr>)) (\<lambda>layout.
     if mt_has_backup_copy mt then define_maptbl_extents 1 layout else Inr layout))))))))))"

text \<open>
  \<^verbatim>\<open>init_sb_segs\<close>: the pairs \<^verbatim>\<open>vh->sb_pebs[i][j]\<close> are at 0x30, 16 bytes each. The segment at
  \<^verbatim>\<open>seg_index\<close> is read also for the previous superblock, which has none.
\<close>

definition init_sb_peb :: "ssdfs_volume_layout \<Rightarrow> nat \<Rightarrow> nat \<Rightarrow> buf \<times> int \<Rightarrow> (buf \<times> int) res" where
  "init_sb_peb layout i j = (\<lambda>(vh, seg_index).
     let p = 0x30 + 32 * i + 16 * j in
     bnd (seg_at layout seg_index) (\<lambda>seg.
     bnd (nth_chk (sd_pebs seg) 0) (\<lambda>peb.
     if i = 3 then
       bnd (wr64 vh p U64_MAX) (\<lambda>vh. bnd (wr64 vh (p + 8) U64_MAX) (\<lambda>vh. Inr (vh, seg_index)))
     else
       bnd (fail_if (sd_seg_type seg \<noteq> SSDFS_SUPERBLOCK) ERANGE) (\<lambda>_.
       bnd (wr64 vh p (pc_leb_id peb)) (\<lambda>vh.
       bnd (wr64 vh (p + 8) (pc_peb_id peb)) (\<lambda>vh. Inr (vh, seg_index + 1)))))))"

definition init_sb_segs :: "ssdfs_volume_layout \<Rightarrow> ssdfs_volume_layout res" where
  "init_sb_segs layout =
     bnd (nth_int (vl_meta_array layout) SSDFS_SUPERBLOCK) (\<lambda>desc.
     bnd (for_res 0 4 (\<lambda>i. for_res 0 2 (init_sb_peb layout i)) (sb_vh (vl_sb layout), md_start_seg_index desc))
       (\<lambda>(vh, seg_index).
     Inr (layout\<lparr>vl_sb := (vl_sb layout)\<lparr>sb_vh := vh\<rparr>\<rparr>)))"

definition set_maptbl_presence_flag :: "ssdfs_volume_layout \<Rightarrow> ssdfs_volume_layout res" where
  "set_maptbl_presence_flag layout =
     bnd (rd64 (sb_vs (vl_sb layout)) 0x38) (\<lambda>feature_compat.
     bnd (wr64 (sb_vs (vl_sb layout)) 0x38 (feature_compat OR 2)) (\<lambda>vs.
     Inr (layout\<lparr>vl_sb := (vl_sb layout)\<lparr>sb_vs := vs\<rparr>\<rparr>)))"

text \<open>The result: the layout, the state of the device and the code of the device when a check failed.\<close>

definition maptbl_mkfs_validate ::
  "'d peb_device \<Rightarrow> (nat \<Rightarrow> bool) \<Rightarrow> ssdfs_volume_layout \<Rightarrow> 'd \<Rightarrow> (ssdfs_volume_layout \<times> 'd \<times> int) res" where
  "maptbl_mkfs_validate dev alloc_ok layout d =
     bnd (div_chk (vl_seg_size layout) (ucast (erase_size (vl_env layout)))) (\<lambda>q.
     let pebs_per_seg = (ucast q :: u32) in
     bnd (check_pebs_validity dev layout d) (\<lambda>(layout, d, dev_err).
     if dev_err \<noteq> 0 then Inr (layout, d, dev_err)
     else
       bnd (maptbl_cache_mkfs_prepare alloc_ok layout) (\<lambda>layout.
       bnd (map_allocated_lebs2pebs layout) (\<lambda>layout.
       bnd (mark_unallocated_pebs_as_pre_erased layout) (\<lambda>layout.
       bnd (init_maptbl_sb_header layout) (\<lambda>layout.
       bnd (init_sb_segs layout) (\<lambda>layout.
       let mt = vl_maptbl layout;
           threshold = (if mt_migration_threshold mt = U16_MAX then vl_migration_threshold layout
                        else if pebs_per_seg < ucast (mt_migration_threshold mt) then ucast pebs_per_seg
                        else mt_migration_threshold mt) in
       bnd (set_maptbl_presence_flag (layout\<lparr>vl_maptbl := mt\<lparr>mt_migration_threshold := threshold\<rparr>\<rparr>)) (\<lambda>layout.
       Inr (layout, d, 0)))))))))"

section \<open>Logs of the mapping table\<close>

definition maptbl_set_log_pages :: "ssdfs_volume_layout \<Rightarrow> u32 \<Rightarrow> ssdfs_volume_layout res" where
  "maptbl_set_log_pages layout blks =
     bnd (full_log_pages (erase_size (vl_env layout)) (vl_page_size layout) (mt_log_pages (vl_maptbl layout)) blks) (\<lambda>log_pages.
     bnd (wr16 (sb_vh (vl_sb layout)) 0x1D4 (ucast log_pages)) (\<lambda>vh.
     Inr (layout\<lparr>vl_maptbl := (vl_maptbl layout)\<lparr>mt_log_pages := ucast log_pages\<rparr>,
                 vl_sb := (vl_sb layout)\<lparr>sb_vh := vh\<rparr>\<rparr>)))"

definition maptbl_take_buffer :: "ssdfs_volume_layout \<Rightarrow> nat \<Rightarrow> (buf option \<times> ssdfs_volume_layout) res" where
  "maptbl_take_buffer layout i =
     bnd (deref (mt_fragments_array (vl_maptbl layout))) (\<lambda>fs.
     bnd (nth_chk fs i) (\<lambda>ptr.
     bnd (upd_chk fs i None) (\<lambda>fs.
     Inr (ptr, layout\<lparr>vl_maptbl := (vl_maptbl layout)\<lparr>mt_fragments_array := Some fs\<rparr>\<rparr>))))"

definition maptbl_log_kind :: log_kind where
  "maptbl_log_kind = \<lparr>lk_seg_type = SSDFS_MAPTBL_SEG_TYPE, lk_ino = SSDFS_MAPTBL_INO, lk_take = maptbl_take_buffer\<rparr>"

definition maptbl_segs_check :: "ssdfs_volume_layout \<Rightarrow> u32 \<Rightarrow> ssdfs_metadata_desc \<Rightarrow> unit res" where
  "maptbl_segs_check layout pebs_per_seg meta_desc =
     (if md_segs_count meta_desc \<le> 0 then Inl (Errno ERANGE)
      else
        bnd (div_chk (mt_maptbl_pebs (vl_maptbl layout) + pebs_per_seg - 1) pebs_per_seg) (\<lambda>n.
        bnd (fail_if (n < of_int (md_segs_count meta_desc)) ERANGE) (\<lambda>_.
        fail_if (vl_segs_capacity layout \<le> md_start_seg_index meta_desc) ERANGE)))"

definition maptbl_mkfs_define_layout ::
  "crc_fun \<Rightarrow> 's codec_libs \<Rightarrow> (nat \<Rightarrow> int \<Rightarrow> bool) \<Rightarrow> ssdfs_volume_layout \<Rightarrow> ssdfs_volume_layout res" where
  "maptbl_mkfs_define_layout crc32 libs alloc_ok layout =
     (let mt = vl_maptbl layout; peb_buffer_size = mt_portion_size mt * ucast (mt_portions_per_fragment mt) in
     bnd (nth_int (vl_meta_array layout) SSDFS_PEB_MAPPING_TABLE) (\<lambda>meta_desc.
     bnd (div_chk (vl_seg_size layout) (ucast (erase_size (vl_env layout)))) (\<lambda>q.
     let pebs_per_seg = (ucast q :: u32) in
     bnd (maptbl_segs_check layout pebs_per_seg meta_desc) (\<lambda>_.
     bnd (fail_if (vl_segs_capacity layout < vl_segs_count layout + md_segs_count meta_desc) E2BIG) (\<lambda>_.
     bnd (div_chk (peb_buffer_size + ucast (vl_page_size layout) - 1) (ucast (vl_page_size layout))) (\<lambda>valid_blks.
     bnd (for_res 0 (nat (md_segs_count meta_desc))
           (define_segment_logs crc32 libs alloc_ok maptbl_log_kind (unat (mt_portions_count mt)) (mt_portion_size mt)
              peb_buffer_size (ucast valid_blks) (unat pebs_per_seg) (md_start_seg_index meta_desc))
           \<lparr>ll_layout = layout, ll_fragment = 0, ll_log_pages = 0, ll_payload = 0, ll_start_blk = 0\<rparr>) (\<lambda>st.
     maptbl_set_log_pages (ll_layout st) (ll_log_pages st))))))))"

text \<open>The two checksums differ in the magic and in the size of the header.\<close>

definition table_checksum :: "crc_fun \<Rightarrow> u16 \<Rightarrow> nat \<Rightarrow> nat \<Rightarrow> buf \<Rightarrow> buf res" where
  "table_checksum crc32 expected hdr_size ptr b =
     bnd (rd16 b ptr) (\<lambda>magic.
     bnd (BUG_ON (magic \<noteq> expected)) (\<lambda>_.
     bnd (rd32 b (ptr + 28)) (\<lambda>bytes_count.
     bnd (BUG_ON (unat bytes_count < hdr_size)) (\<lambda>_.
     bnd (wr32 b (ptr + 4) 0) (\<lambda>b.
     bnd (ssdfs_crc32_le (crc32 0) b ptr (unat bytes_count)) (\<lambda>csum.
     wr32 b (ptr + 4) csum))))))"

definition calculate_lebtbl_fragment_checksum :: "crc_fun \<Rightarrow> nat \<Rightarrow> buf \<Rightarrow> buf res" where
  "calculate_lebtbl_fragment_checksum crc32 = table_checksum crc32 SSDFS_LEB_TABLE_MAGIC LEBTBL_HDR_SIZE"

definition calculate_pebtbl_fragment_checksum :: "crc_fun \<Rightarrow> nat \<Rightarrow> buf \<Rightarrow> buf res" where
  "calculate_pebtbl_fragment_checksum crc32 = table_checksum crc32 SSDFS_PEB_TABLE_MAGIC PEBTBL_HDR_SIZE"

definition maptbl_peb_fragments_checksum :: "crc_fun \<Rightarrow> ssdfs_volume_layout \<Rightarrow> buf \<Rightarrow> buf res" where
  "maptbl_peb_fragments_checksum crc32 layout fragments =
     (let mt = vl_maptbl layout; page = (\<lambda>j. unat (of_nat j * vl_page_size layout)) in
     bnd (div_chk (mt_lebtbl_portion_bytes mt) (vl_page_size layout)) (\<lambda>q.
     let lebtbl_mempages = (ucast q :: u16) in
     bnd (BUG_ON (lebtbl_mempages = 0)) (\<lambda>_.
     for_res 0 (unat (mt_portions_per_fragment mt)) (\<lambda>i b.
       let ptr = i * unat (mt_portion_size mt) in
       bnd (for_res 0 (unat lebtbl_mempages) (\<lambda>j. calculate_lebtbl_fragment_checksum crc32 (ptr + page j)) b)
         (for_res 0 (unat (mt_stripes_per_portion mt)) (\<lambda>j.
            calculate_pebtbl_fragment_checksum crc32 (ptr + unat (mt_lebtbl_portion_bytes mt) + page j)))) fragments)))"

definition maptbl_define_migration_threshold ::
  "ssdfs_volume_layout \<Rightarrow> int \<Rightarrow> int \<Rightarrow> ssdfs_volume_layout res" where
  "maptbl_define_migration_threshold layout seg_index peb_index =
     bnd (peb_at layout seg_index peb_index) (\<lambda>peb.
     let lf_extent = extent_of peb SSDFS_LOG_FOOTER in
     bnd (BUG_ON (ext_buf lf_extent = None)) (\<lambda>_.
     bnd (deref (ext_buf lf_extent)) (\<lambda>footer.
     bnd (wr16 footer 0x98 (mt_migration_threshold (vl_maptbl layout))) (\<lambda>footer.
     put_peb layout seg_index peb_index (put_extent peb SSDFS_LOG_FOOTER (lf_extent\<lparr>ext_buf := Some footer\<rparr>))))))"

definition maptbl_commit_kind :: "crc_fun \<Rightarrow> commit_kind" where
  "maptbl_commit_kind crc32 =
     \<lparr>ck_seg_type = 4, ck_magic = SSDFS_LEB_TABLE_MAGIC, ck_checksum = maptbl_peb_fragments_checksum crc32,
      ck_threshold = maptbl_define_migration_threshold\<rparr>"

definition maptbl_mkfs_commit :: "crc_fun \<Rightarrow> ssdfs_volume_layout \<Rightarrow> ssdfs_volume_layout res" where
  "maptbl_mkfs_commit crc32 layout =
     bnd (nth_int (vl_meta_array layout) SSDFS_PEB_MAPPING_TABLE) (\<lambda>meta_desc.
     bnd (div_chk (vl_seg_size layout) (ucast (erase_size (vl_env layout)))) (\<lambda>q.
     let pebs_per_seg = (ucast q :: u32) in
     bnd (maptbl_segs_check layout pebs_per_seg meta_desc) (\<lambda>_.
     bnd (for_res 0 (nat (md_segs_count meta_desc))
           (commit_segment_logs crc32 (maptbl_commit_kind crc32) (unat (mt_portions_count (vl_maptbl layout)))
              (unat pebs_per_seg) (md_start_seg_index meta_desc)) (layout, 0)) (\<lambda>(layout, fragment_index).
     Inr (layout\<lparr>vl_segs_count := vl_segs_count layout + md_segs_count meta_desc\<rparr>)))))"

end
