(* ===== verification/MaptblMapping.thy ===== *)
theory MaptblMapping
  imports MkfsMaptbl
begin

text \<open>
  Properties of the mapping table: the ranges of the PEB tables, the choice of a PEB for a LEB, and the
  mapping of all allocated LEBs.
\<close>

section \<open>Search for an unused PEB\<close>

definition peb_used :: "buf \<Rightarrow> nat \<Rightarrow> nat \<Rightarrow> bool" where
  "peb_used b p j = bmap_bit b (p + PEBTBL_USED_BMAP) j"

definition first_unused :: "buf \<Rightarrow> nat \<Rightarrow> nat \<Rightarrow> nat" where
  "first_unused b p n = (if \<exists>j < n. \<not> peb_used b p j then LEAST j. \<not> peb_used b p j else n)"

lemma skip_full_words_ok:
  assumes "bmap + 8 * (index + n) \<le> length b"
  shows "\<exists>i. skip_full_words b bmap index n = Inr i \<and> index \<le> i \<and> i \<le> index + n \<and>
    (\<forall>k. index * 64 \<le> k \<longrightarrow> k < i * 64 \<longrightarrow> bmap_bit b bmap k)"
  using assms
proof (induction n arbitrary: index)
  case 0
  then show ?case by simp
next
  case (Suc n)
  show ?case
  proof (cases "get64 b (bmap + 8 * index) = U64_MAX")
    case True
    have full: "bmap_bit b bmap k" if "index * 64 \<le> k" "k < Suc index * 64" for k
    proof -
      have "k div 64 = index" using that by (simp add: div_nat_eqI)
      then show ?thesis by (simp add: bmap_bit_def True)
    qed
    obtain i where i: "skip_full_words b bmap (Suc index) n = Inr i" "Suc index \<le> i" "i \<le> Suc index + n"
      "\<forall>k. Suc index * 64 \<le> k \<longrightarrow> k < i * 64 \<longrightarrow> bmap_bit b bmap k"
      using Suc.IH[of "Suc index"] Suc.prems by auto
    have "bmap_bit b bmap k" if "index * 64 \<le> k" "k < i * 64" for k
      using full i(4) that by (meson not_le)
    then show ?thesis using Suc.prems True i(1-3) by auto
  next
    case False
    then show ?thesis using Suc.prems by auto
  qed
qed

lemma find_clear_bit_ok:
  assumes "\<And>k. k < i + n \<Longrightarrow> bmap + 8 * (k div 64) + 8 \<le> length b"
  shows "find_clear_bit b bmap i n =
    Inr (if \<exists>j \<ge> i. j < i + n \<and> \<not> bmap_bit b bmap j then LEAST j. i \<le> j \<and> \<not> bmap_bit b bmap j else i + n)"
  using assms
proof (induction n arbitrary: i)
  case 0
  then show ?case by auto
next
  case (Suc n)
  have step: "test_bit_chk b bmap i = Inr (bmap_bit b bmap i)" using Suc.prems[of i] by simp
  show ?case
  proof (cases "bmap_bit b bmap i")
    case True
    then have ge: "i \<le> j \<and> \<not> bmap_bit b bmap j \<longleftrightarrow> Suc i \<le> j \<and> \<not> bmap_bit b bmap j" for j
      by (metis Suc_leD Suc_leI le_neq_implies_less)
    have "(\<exists>j \<ge> i. j < i + Suc n \<and> \<not> bmap_bit b bmap j) \<longleftrightarrow> (\<exists>j \<ge> Suc i. j < Suc i + n \<and> \<not> bmap_bit b bmap j)"
      using ge by (metis add_Suc_right add_Suc)
    then show ?thesis using step True Suc.IH[of "Suc i"] Suc.prems by (auto simp add: ge)
  next
    case False
    then have "(LEAST j. i \<le> j \<and> \<not> bmap_bit b bmap j) = i" by (intro Least_equality) auto
    moreover have "\<exists>j \<ge> i. j < i + Suc n \<and> \<not> bmap_bit b bmap j" using False by (intro exI[of _ i]) simp
    ultimately show ?thesis using step False by simp
  qed
qed

lemma find_unused_peb_ok:
  assumes n: "unat (get16 b (p + 16)) = n" "n \<le> 512" and fit: "p + 288 \<le> length b"
  shows "find_unused_peb b p = Inr (if first_unused b p n < n then of_nat (first_unused b p n) else U16_MAX)"
proof -
  let ?bm = "p + 32"
  define words where "words = (n + 63) div 64"
  have words: "words \<le> 8" using n(2) by (simp add: words_def)
  then have "?bm + 8 * (0 + words) \<le> length b" using fit by simp
  then obtain i where skip: "skip_full_words b ?bm 0 words = Inr i" "i \<le> words"
    and full: "\<forall>k < i * 64. bmap_bit b ?bm k"
    using skip_full_words_ok[of ?bm 0 words b] by auto
  have i8: "i \<le> 8" using skip(2) words by linarith
  then have start: "unat (of_nat (i * 64) :: u16) = i * 64" by (simp add: unat_of_nat del: of_nat_mult)
  have bnd: "?bm + 8 * (k div 64) + 8 \<le> length b" if "k < i * 64 + (n - i * 64)" for k
  proof -
    have "k < 512" using that i8 n(2) by linarith
    then have "k div 64 < 8" by (simp add: less_mult_imp_div_less)
    then show ?thesis using fit by linarith
  qed
  have least: "(LEAST j. i * 64 \<le> j \<and> \<not> bmap_bit b ?bm j) = (LEAST j. \<not> bmap_bit b ?bm j)"
    by (rule arg_cong[where f = Least]) (use full in \<open>auto simp: not_le[symmetric]\<close>)
  have ex: "(\<exists>j \<ge> i * 64. j < i * 64 + (n - i * 64) \<and> \<not> bmap_bit b ?bm j) \<longleftrightarrow> (\<exists>j < n. \<not> bmap_bit b ?bm j)"
  proof
    assume "\<exists>j \<ge> i * 64. j < i * 64 + (n - i * 64) \<and> \<not> bmap_bit b ?bm j"
    then obtain j where "i * 64 \<le> j" "j < i * 64 + (n - i * 64)" "\<not> bmap_bit b ?bm j" by blast
    then show "\<exists>j < n. \<not> bmap_bit b ?bm j" by (intro exI[of _ j]) simp
  next
    assume "\<exists>j < n. \<not> bmap_bit b ?bm j"
    then obtain j where j: "j < n" "\<not> bmap_bit b ?bm j" by blast
    then have "i * 64 \<le> j" using full by (meson not_le)
    then show "\<exists>j \<ge> i * 64. j < i * 64 + (n - i * 64) \<and> \<not> bmap_bit b ?bm j" using j by (intro exI[of _ j]) simp
  qed
  have lt: "(LEAST j. \<not> bmap_bit b ?bm j) < n" if "\<exists>j < n. \<not> bmap_bit b ?bm j"
    using that by (meson Least_le le_less_trans)
  note found = find_clear_bit_ok[of "i * 64" "n - i * 64", OF bnd, unfolded least ex]
  have "find_unused_peb b p = bnd (find_clear_bit b ?bm (i * 64) (n - i * 64)) (\<lambda>j. Inr (if n \<le> j then U16_MAX else of_nat j))"
    using fit skip(1)[unfolded words_def] start n(1) by (simp add: find_unused_peb_def Let_def del: of_nat_mult)
  then show ?thesis using lt by (auto simp: found first_unused_def peb_used_def not_le[symmetric])
qed

section \<open>A pair of tables\<close>

text \<open>
  \<open>pebtbl_ok b p n start\<close>: at \<open>p\<close> there is a PEB table of \<open>n\<close> PEBs from \<open>start\<close> on; \<open>lebtbl_ok b t m start
  mapped\<close>: at \<open>t\<close> there is a LEB table of \<open>m\<close> LEBs, of which \<open>mapped\<close> are mapped.
\<close>

definition pebtbl_ok :: "buf \<Rightarrow> nat \<Rightarrow> nat \<Rightarrow> u64 \<Rightarrow> bool" where
  "pebtbl_ok b p n start \<longleftrightarrow> p + 4096 \<le> length b \<and> n \<le> 476 \<and> get16 b p = SSDFS_PEB_TABLE_MAGIC \<and>
     get64 b (p + 8) = start \<and> get16 b (p + 16) = of_nat n \<and> get16 b (p + 18) = 0 \<and> get32 b (p + 28) = of_nat (288 + 8 * n)"

definition lebtbl_ok :: "buf \<Rightarrow> nat \<Rightarrow> nat \<Rightarrow> u64 \<Rightarrow> nat \<Rightarrow> bool" where
  "lebtbl_ok b t m start mapped \<longleftrightarrow> t + 4096 \<le> length b \<and> m \<le> 1016 \<and> mapped \<le> m \<and> get16 b t = SSDFS_LEB_TABLE_MAGIC \<and>
     get64 b (t + 8) = start \<and> get16 b (t + 16) = of_nat m \<and> get16 b (t + 18) = of_nat mapped \<and> get16 b (t + 20) = 0 \<and>
     get32 b (t + 28) = of_nat (32 + 4 * m)"

definition peb_type_of :: "buf \<Rightarrow> nat \<Rightarrow> nat \<Rightarrow> u8" where
  "peb_type_of b p j = get8 b (p + 292 + 8 * j)"

definition peb_state_of :: "buf \<Rightarrow> nat \<Rightarrow> nat \<Rightarrow> u8" where
  "peb_state_of b p j = get8 b (p + 293 + 8 * j)"

definition leb_physical :: "buf \<Rightarrow> nat \<Rightarrow> nat \<Rightarrow> u16" where
  "leb_physical b t i = get16 b (t + 32 + 4 * i)"

text \<open>The buffers after the two changes.\<close>

definition peb_taken :: "buf \<Rightarrow> nat \<Rightarrow> nat \<Rightarrow> u8 \<Rightarrow> buf" where
  "peb_taken b p j ty =
     bmap_set (put16 (put8 (put8 b (p + 292 + 8 * j) ty) (p + 293 + 8 * j) SSDFS_MAPTBL_USING_PEB_STATE) (p + 18) (get16 b (p + 18)))
       (p + 32) j"

definition leb_mapped :: "buf \<Rightarrow> nat \<Rightarrow> nat \<Rightarrow> u16 \<Rightarrow> buf" where
  "leb_mapped b t i ph =
     put16 (put16 (put16 b (t + 32 + 4 * i) ph) (t + 34 + 4 * i) U16_MAX) (t + 18) (get16 b (t + 18) + 1)"

lemma unused_peb_desc_ok:
  assumes "pebtbl_ok b p n start" and "j < n" and "peb_type_of b p j = 0" and "peb_state_of b p j = 0"
  shows "unused_peb_desc b p (of_nat j) = Inr (p + 288 + 8 * j)"
proof -
  have j: "unat (of_nat j :: u16) = j" "unat (of_nat n :: u16) = n" "unat (of_nat (288 + 8 * n) :: u32) = 288 + 8 * n"
    using assms(1,2) by (simp_all add: pebtbl_ok_def unat_of_nat del: of_nat_mult of_nat_add)
  have "p + 293 + 8 * j < length b" using assms(1,2) by (simp add: pebtbl_ok_def)
  then show ?thesis using assms j
    by (simp add: unused_peb_desc_def pebtbl_ok_def peb_type_of_def peb_state_of_def word_less_nat_alt word_le_nat_alt
        algebra_simps del: of_nat_mult of_nat_add)
qed

lemma bit_word_bound: "j < 512 \<Longrightarrow> p + 4096 \<le> length b \<Longrightarrow> p + 32 + 8 * (j div 64) + 8 \<le> length b" for j p :: nat
  by (rule order_trans[of _ "p + 96"]) (simp_all add: less_mult_imp_div_less Suc_le_eq[symmetric])

lemma define_peb_as_used_ok:
  assumes tbl: "pebtbl_ok b p n start" and j: "j < n" and free: "peb_type_of b p j = 0" "peb_state_of b p j = 0"
    and meta: "0 \<le> meta" "meta \<le> 3"
  shows "define_peb_as_used p (of_nat j) meta b = Inr (peb_taken b p j (of_int (SEG2PEB_TYPE (META2SEG_TYPE meta))))"
proof -
  have meta4: "meta = 0 \<or> meta = 1 \<or> meta = 2 \<or> meta = 3" using meta by auto
  have j': "unat (of_nat j :: u16) = j" using tbl j by (simp add: pebtbl_ok_def unat_of_nat)
  have len: "p + 293 + 8 * j < length b" "p + 20 \<le> length b" using tbl j by (simp_all add: pebtbl_ok_def)
  have bw: "p + 32 + 8 * (j div 64) + 8 \<le> length b" using tbl j by (intro bit_word_bound) (simp_all add: pebtbl_ok_def)
  show ?thesis using unused_peb_desc_ok[OF tbl j free] meta4 len bw
    by (auto simp: define_peb_as_used_def META2SEG_TYPE_def SEG2PEB_TYPE_def j' peb_taken_def algebra_simps)
qed

lemma define_leb_as_mapped_ok:
  assumes tbl: "lebtbl_ok b t m start mapped" and i: "i < m"
  shows "define_leb_as_mapped t (of_nat i) ph b = Inr (leb_mapped b t i ph)"
proof -
  have num: "unat (of_nat i :: u16) = i" "unat (of_nat m :: u16) = m" "unat (of_nat mapped :: u16) = mapped"
    "unat (of_nat (32 + 4 * m) :: u32) = 32 + 4 * m"
    using assms by (simp_all add: lebtbl_ok_def unat_of_nat del: of_nat_mult of_nat_add)
  have m0: "(of_nat m :: u16) \<noteq> 0" using num(2) i by auto
  have len: "t + 36 + 4 * i \<le> length b" "t + 32 \<le> length b" using tbl i by (simp_all add: lebtbl_ok_def)
  show ?thesis using tbl num m0 len
    by (simp add: define_leb_as_mapped_def lebtbl_ok_def leb_mapped_def word_less_nat_alt algebra_simps
        del: of_nat_mult of_nat_add)
qed

lemma length_table_change [simp]:
  "pebtbl_ok b p n start \<Longrightarrow> j < n \<Longrightarrow> length (peb_taken b p j ty) = length b"
  "lebtbl_ok b t m start' mapped \<Longrightarrow> i < m \<Longrightarrow> length (leb_mapped b t i ph) = length b"
proof -
  show "length (peb_taken b p j ty) = length b" if "pebtbl_ok b p n start" "j < n"
    using that bit_word_bound[of j p b] by (simp add: peb_taken_def pebtbl_ok_def)
  show "length (leb_mapped b t i ph) = length b" if "lebtbl_ok b t m start' mapped" "i < m"
    using that by (simp add: leb_mapped_def lebtbl_ok_def)
qed

text \<open>A change of one table stays inside its page.\<close>

lemma peb_taken_frame:
  assumes tbl: "pebtbl_ok b p n start" and j: "j < n"
  shows "same_outside p (p + 4096) b (peb_taken b p j ty)"
proof -
  have "j < 512" using tbl j by (simp add: pebtbl_ok_def)
  then have "8 * (j div 64) + 40 \<le> 4096" by (simp add: less_mult_imp_div_less)
  then show ?thesis using tbl j bit_word_bound[of j p b] \<open>j < 512\<close>
    by (auto simp: same_outside_def peb_taken_def bmap_set_def pebtbl_ok_def bytes_at_put_disj)
qed

lemma leb_mapped_frame: "lebtbl_ok b t m start mapped \<Longrightarrow> i < m \<Longrightarrow> same_outside t (t + 4096) b (leb_mapped b t i ph)"
  by (auto simp: same_outside_def leb_mapped_def lebtbl_ok_def bytes_at_put_disj)

lemma same_outside_get:
  assumes "same_outside a e m m'"
  shows "o' + 1 \<le> a \<or> e \<le> o' \<Longrightarrow> get8 m' o' = get8 m o'" and "o' + 2 \<le> a \<or> e \<le> o' \<Longrightarrow> get16 m' o' = get16 m o'"
    and "o' + 4 \<le> a \<or> e \<le> o' \<Longrightarrow> get32 m' o' = get32 m o'" and "o' + 8 \<le> a \<or> e \<le> o' \<Longrightarrow> get64 m' o' = get64 m o'"
  using assms by (simp_all add: get8_def get16_def get32_def get64_def same_outside_bytes)

lemma pebtbl_ok_frame:
  assumes "same_outside a e b b'" and "p + 4096 \<le> a \<or> e \<le> p" and "p + 4096 \<le> length b"
  shows "pebtbl_ok b' p n start = pebtbl_ok b p n start"
    and "j < 512 \<Longrightarrow> peb_used b' p j = peb_used b p j"
    and "j < 476 \<Longrightarrow> peb_type_of b' p j = peb_type_of b p j" and "j < 476 \<Longrightarrow> peb_state_of b' p j = peb_state_of b p j"
proof -
  note get = same_outside_get[OF assms(1)]
  show "pebtbl_ok b' p n start = pebtbl_ok b p n start"
    unfolding pebtbl_ok_def same_outside_length[OF assms(1)] using assms(2) by (auto simp: get)
  show "peb_type_of b' p j = peb_type_of b p j" "peb_state_of b' p j = peb_state_of b p j" if "j < 476"
    unfolding peb_type_of_def peb_state_of_def using assms(2) that by (auto intro!: get)
  show "peb_used b' p j = peb_used b p j" if "j < 512"
  proof -
    have "p + 32 + 8 * (j div 64) + 8 \<le> p + 4096" using that by (simp add: less_mult_imp_div_less)
    then show ?thesis unfolding peb_used_def bmap_bit_def using assms(2) by (subst get(4)) auto
  qed
qed

lemma lebtbl_ok_frame:
  assumes "same_outside a e b b'" and "t + 4096 \<le> a \<or> e \<le> t"
  shows "lebtbl_ok b' t m start mapped = lebtbl_ok b t m start mapped"
    and "i < 1016 \<Longrightarrow> leb_physical b' t i = leb_physical b t i"
proof -
  note get = same_outside_get[OF assms(1)]
  show "lebtbl_ok b' t m start mapped = lebtbl_ok b t m start mapped"
    unfolding lebtbl_ok_def same_outside_length[OF assms(1)] using assms(2) by (auto simp: get)
  show "leb_physical b' t i = leb_physical b t i" if "i < 1016"
    unfolding leb_physical_def using assms(2) that by (auto intro!: get)
qed

lemma peb_taken_effect:
  fixes ty :: u8
  assumes tbl: "pebtbl_ok b p n start" and j: "j < n"
  defines "b' \<equiv> peb_taken b p j ty"
  shows "pebtbl_ok b' p n start"
    and "k < 512 \<Longrightarrow> peb_used b' p k \<longleftrightarrow> k = j \<or> peb_used b p k"
    and "k < n \<Longrightarrow> peb_type_of b' p k = (if k = j then ty else peb_type_of b p k)"
    and "k < n \<Longrightarrow> peb_state_of b' p k = (if k = j then SSDFS_MAPTBL_USING_PEB_STATE else peb_state_of b p k)"
proof -
  define c where "c = put16 (put8 (put8 b (p + 292 + 8 * j) ty) (p + 293 + 8 * j) SSDFS_MAPTBL_USING_PEB_STATE) (p + 18) (get16 b (p + 18))"
  have b': "b' = bmap_set c (p + 32) j" by (simp add: b'_def peb_taken_def c_def)
  have n: "n \<le> 476" and len: "p + 4096 \<le> length b" using tbl by (simp_all add: pebtbl_ok_def)
  have lc: "length c = length b" using j n len by (simp add: c_def)
  have j64: "j div 64 < 8" using j n by (simp add: less_mult_imp_div_less)
  have bw: "p + 32 + 8 * (j div 64) + 8 \<le> length c" using lc len j64 by linarith
  note get = get_bmap_set_disj[OF bw]
  have front: "get16 b' (p + k) = get16 c (p + k)" "get32 b' (p + 28) = get32 c (p + 28)" "get64 b' (p + 8) = get64 c (p + 8)"
    if "k + 2 \<le> 32" for k
    unfolding b' using that by (simp_all add: get)
  show "pebtbl_ok b' p n start"
    unfolding pebtbl_ok_def using tbl front[of 0] front[of 16] front[of 18] lc j n len
    by (simp add: c_def buf_simps pebtbl_ok_def b')
  show "peb_used b' p k \<longleftrightarrow> k = j \<or> peb_used b p k" if "k < 512"
  proof -
    have "k div 64 < 8" using that by (simp add: less_mult_imp_div_less)
    then have "peb_used c p k = peb_used b p k" using j n len by (simp add: peb_used_def bmap_bit_def c_def buf_simps)
    then show ?thesis using bmap_bit_set[OF bw, of k] by (simp add: peb_used_def b')
  qed
  have desc: "get8 b' (p + 292 + i) = get8 c (p + 292 + i)" "get8 b' (p + 293 + i) = get8 c (p + 293 + i)" for i
    unfolding b' using j64 by (simp_all add: get)
  show "peb_type_of b' p k = (if k = j then ty else peb_type_of b p k)" if "k < n"
    unfolding peb_type_of_def desc using j n len that by (cases k j rule: linorder_cases) (auto simp: c_def buf_simps)
  show "peb_state_of b' p k = (if k = j then SSDFS_MAPTBL_USING_PEB_STATE else peb_state_of b p k)" if "k < n"
    unfolding peb_state_of_def desc using j n len that
    by (cases k j rule: linorder_cases) (auto simp: c_def buf_simps)
qed

lemma leb_mapped_effect:
  fixes ph :: u16
  assumes tbl: "lebtbl_ok b t m start mapped" and i: "i < m" and lt: "mapped < m"
  defines "b' \<equiv> leb_mapped b t i ph"
  shows "lebtbl_ok b' t m start (Suc mapped)"
    and "k < m \<Longrightarrow> leb_physical b' t k = (if k = i then ph else leb_physical b t k)"
proof -
  show "lebtbl_ok b' t m start (Suc mapped)"
    using tbl i lt by (simp add: b'_def lebtbl_ok_def leb_mapped_def buf_simps add.commute)
  show "leb_physical b' t k = (if k = i then ph else leb_physical b t k)" if "k < m"
    unfolding b'_def using tbl i that
    by (cases k i rule: linorder_cases) (auto simp: lebtbl_ok_def leb_physical_def leb_mapped_def buf_simps)
qed

section \<open>Mapping of a LEB\<close>

text \<open>
  Where a LEB is described: fragment \<open>fi\<close> and its buffer \<open>b\<close>, the LEB table at \<open>t\<close> with the LEB at index \<open>i\<close>,
  the PEB table of stripe \<open>s\<close> at \<open>p\<close>.
\<close>

record leb_place =
  lp_fragment :: u32
  lp_portion :: u32
  lp_buffer :: buf
  lp_lebtbl :: nat
  lp_index :: nat
  lp_lebs :: nat
  lp_start_leb :: u64
  lp_mapped :: nat
  lp_stripe :: u16
  lp_pebtbl :: nat
  lp_pebs :: nat
  lp_start_peb :: u64

definition leb_at :: "ssdfs_volume_layout \<Rightarrow> u64 \<Rightarrow> leb_place \<Rightarrow> bool" where
  "leb_at layout leb q \<longleftrightarrow>
     get_lebtbl_fragment layout leb = Inr (lp_fragment q, lp_portion q, of_nat (lp_index q), lp_lebtbl q) \<and>
     mt_buffer layout (unat (lp_fragment q)) = Inr (lp_buffer q) \<and>
     lebtbl_ok (lp_buffer q) (lp_lebtbl q) (lp_lebs q) (lp_start_leb q) (lp_mapped q) \<and> lp_mapped q < lp_lebs q \<and>
     lp_index q < lp_lebs q \<and> lp_start_leb q \<le> leb \<and> unat leb < unat (lp_start_leb q) + lp_lebs q \<and>
     unat (lp_start_leb q) + lp_lebs q < 2 ^ 64 \<and>
     get_stripe_index layout (lp_start_leb q) leb = Inr (lp_stripe q) \<and>
     lp_pebtbl q = get_pebtbl_fragment layout (lp_portion q) (lp_stripe q) \<and>
     pebtbl_ok (lp_buffer q) (lp_pebtbl q) (lp_pebs q) (lp_start_peb q) \<and>
     lp_lebtbl q + 4096 \<le> lp_pebtbl q \<and> 476 * unat (lp_stripe q) + lp_pebs q \<le> 65535"

text \<open>The buffer after the LEB got the PEB \<open>j\<close> of its stripe.\<close>

definition leb_peb_buffer :: "leb_place \<Rightarrow> nat \<Rightarrow> int \<Rightarrow> buf" where
  "leb_peb_buffer q j meta =
     leb_mapped (peb_taken (lp_buffer q) (lp_pebtbl q) j (of_int (SEG2PEB_TYPE (META2SEG_TYPE meta)))) (lp_lebtbl q) (lp_index q)
       (of_nat (476 * unat (lp_stripe q) + j))"

lemma lebtbl_of_leb_ok:
  assumes "leb_at layout leb q"
  shows "lebtbl_of_leb layout leb =
    Inr (lp_fragment q, lp_portion q, of_nat (lp_index q), lp_lebtbl q, lp_buffer q, lp_start_leb q, of_nat (lp_lebs q))"
proof -
  have m: "unat (ucast (of_nat (lp_lebs q) :: u16) :: u64) = lp_lebs q"
    using assms by (simp add: leb_at_def lebtbl_ok_def unat_ucast_up unat_of_nat)
  have "unat (lp_start_leb q + ucast (of_nat (lp_lebs q) :: u16)) = unat (lp_start_leb q) + lp_lebs q"
    using assms m by (simp add: leb_at_def unat_add_nw)
  then have "\<not> lp_start_leb q + ucast (of_nat (lp_lebs q) :: u16) \<le> leb"
    using assms by (simp add: leb_at_def word_le_nat_alt)
  then show ?thesis using assms by (auto simp: lebtbl_of_leb_def leb_at_def lebtbl_ok_def not_less[symmetric])
qed

lemma peb_index_in_portion:
  assumes "476 * unat s + n \<le> 65535" and "j < n" and "n \<le> 476"
  shows "DEFINE_PEB_INDEX_IN_PORTION s (of_nat j) = Inr (of_nat (476 * unat s + j))"
proof -
  have u: "unat (476 * ucast s + ucast (of_nat j :: u16) :: u32) = 476 * unat s + j"
    using assms by (subst unat_add_nw; (subst unat_mult_nw)?) (simp_all add: unat_ucast_up unat_of_nat)
  then have "unat (ucast (476 * ucast s + ucast (of_nat j :: u16) :: u32) :: u16) = unat (of_nat (476 * unat s + j) :: u16)"
    using assms by (simp add: unat_ucast_small unat_of_nat del: of_nat_add of_nat_mult)
  then have "ucast (476 * ucast s + ucast (of_nat j :: u16) :: u32) = (of_nat (476 * unat s + j) :: u16)"
    by (rule word_unat_eqI)
  moreover have "\<not> ucast U16_MAX \<le> (476 * ucast s + ucast (of_nat j :: u16) :: u32)"
    unfolding ucast_max word_le_nat_alt u using assms by simp
  ultimately show ?thesis
    by (simp add: DEFINE_PEB_INDEX_IN_PORTION_def SSDFS_PEB_DESC_PER_FRAGMENT_def del: of_nat_add of_nat_mult)
qed

lemma map_leb2peb_run:
  assumes at: "leb_at layout leb q" and j: "first_unused (lp_buffer q) (lp_pebtbl q) (lp_pebs q) = j" "j < lp_pebs q"
    and free: "peb_type_of (lp_buffer q) (lp_pebtbl q) j = 0" "peb_state_of (lp_buffer q) (lp_pebtbl q) j = 0"
    and meta: "0 \<le> meta" "meta \<le> 3"
  shows "map_leb2peb layout leb meta =
    bnd (mt_put_buffer layout (unat (lp_fragment q)) (leb_peb_buffer q j meta)) (\<lambda>layout'. Inr (lp_start_peb q + of_nat j, layout'))"
proof -
  let ?b = "lp_buffer q" and ?p = "lp_pebtbl q" and ?t = "lp_lebtbl q" and ?n = "lp_pebs q"
  let ?b1 = "peb_taken ?b ?p j (of_int (SEG2PEB_TYPE (META2SEG_TYPE meta)))"
  have pt: "pebtbl_ok ?b ?p ?n (lp_start_peb q)" and lt: "lebtbl_ok ?b ?t (lp_lebs q) (lp_start_leb q) (lp_mapped q)"
    and i: "lp_index q < lp_lebs q" and apart: "?t + 4096 \<le> ?p" and n: "?n \<le> 476"
    using at unfolding leb_at_def pebtbl_ok_def by blast+
  have ju: "unat (of_nat j :: u16) = j" "of_nat j \<noteq> U16_MAX" "ucast (of_nat j :: u16) = (of_nat j :: u64)"
  proof -
    show u: "unat (of_nat j :: u16) = j" using j(2) n by (simp add: unat_of_nat)
    show "of_nat j \<noteq> U16_MAX"
    proof
      assume "of_nat j = U16_MAX"
      then have "unat (of_nat j :: u16) = 65535" by (simp add: unat_minus_one_eq)
      then show False using u j(2) n by simp
    qed
    show "ucast (of_nat j :: u16) = (of_nat j :: u64)" using j(2) n by (intro word_unat_eqI) (simp add: unat_ucast_up unat_of_nat)
  qed
  have find: "find_unused_peb ?b ?p = Inr (of_nat j)"
    using pt n j by (subst find_unused_peb_ok[of _ _ ?n]) (simp_all add: pebtbl_ok_def unat_of_nat)
  have lt1: "lebtbl_ok ?b1 ?t (lp_lebs q) (lp_start_leb q) (lp_mapped q)"
    using lebtbl_ok_frame(1)[OF peb_taken_frame[OF pt j(2)]] apart lt by simp
  have "get64 (leb_peb_buffer q j meta) (?p + 8) = lp_start_peb q"
    using same_outside_get(4)[OF leb_mapped_frame[OF lt1 i], of "?p + 8"] apart peb_taken_effect(1)[OF pt j(2)]
    by (simp add: leb_peb_buffer_def pebtbl_ok_def)
  moreover have "?p + 16 \<le> length (leb_peb_buffer q j meta)" 
    using length_table_change(1)[OF pt j(2)] length_table_change(2)[OF lt1 i] pt by (simp add: leb_peb_buffer_def pebtbl_ok_def)
  moreover have "get_stripe_index layout (lp_start_leb q) leb = Inr (lp_stripe q)"
    "?p = get_pebtbl_fragment layout (lp_portion q) (lp_stripe q)" "476 * unat (lp_stripe q) + ?n \<le> 65535"
    using at unfolding leb_at_def by blast+
  ultimately show ?thesis
    using pt lebtbl_of_leb_ok[OF at] find ju define_peb_as_used_ok[OF pt j(2) free meta]
      peb_index_in_portion[of "lp_stripe q" ?n j] define_leb_as_mapped_ok[OF lt1 i] j(2) n
    by (simp add: map_leb2peb_def pebtbl_ok_def leb_peb_buffer_def del: of_nat_add of_nat_mult)
qed

section \<open>Choice of the PEB\<close>

lemma first_unused_props:
  assumes "\<exists>k < n. \<not> peb_used b p k"
  shows "first_unused b p n < n" and "\<not> peb_used b p (first_unused b p n)" and "k < first_unused b p n \<Longrightarrow> peb_used b p k"
proof -
  have f: "first_unused b p n = (LEAST j. \<not> peb_used b p j)" using assms by (simp add: first_unused_def)
  show "first_unused b p n < n" unfolding f using assms by (meson Least_le le_less_trans)
  show "\<not> peb_used b p (first_unused b p n)" unfolding f using assms by (metis (mono_tags, lifting) LeastI)
  show "peb_used b p k" if "k < first_unused b p n" using that not_less_Least unfolding f by blast
qed

text \<open>What the buffer of the fragment is after the LEB of place \<open>q\<close> got the PEB \<open>j\<close>.\<close>

definition leb_given :: "leb_place \<Rightarrow> nat \<Rightarrow> int \<Rightarrow> buf \<Rightarrow> bool" where
  "leb_given q j meta b' \<longleftrightarrow>
     (let b = lp_buffer q; p = lp_pebtbl q; t = lp_lebtbl q in
      lebtbl_ok b' t (lp_lebs q) (lp_start_leb q) (Suc (lp_mapped q)) \<and> pebtbl_ok b' p (lp_pebs q) (lp_start_peb q) \<and>
      (\<forall>k < lp_pebs q. (peb_used b' p k \<longleftrightarrow> k = j \<or> peb_used b p k) \<and>
         peb_type_of b' p k = (if k = j then of_int (SEG2PEB_TYPE (META2SEG_TYPE meta)) else peb_type_of b p k) \<and>
         peb_state_of b' p k = (if k = j then SSDFS_MAPTBL_USING_PEB_STATE else peb_state_of b p k)) \<and>
      (\<forall>i < lp_lebs q. leb_physical b' t i =
         (if i = lp_index q then of_nat (476 * unat (lp_stripe q) + j) else leb_physical b t i)) \<and>
      length b' = length b \<and>
      (\<forall>i < length b. b' ! i \<noteq> b ! i \<longrightarrow> (t \<le> i \<and> i < t + 4096) \<or> (p \<le> i \<and> i < p + 4096)))"

lemma same_outside_nth:
  assumes "same_outside a e m m'" and "i < a \<or> e \<le> i" and "i < length m"
  shows "m' ! i = m ! i"
proof -
  have "bytes_at m' i 1 = bytes_at m i 1" by (rule same_outside_bytes[OF assms(1)]) (use assms(2) in auto)
  then show ?thesis using assms(3) same_outside_length[OF assms(1)] by (simp add: bytes_at_def take_Suc_conv_app_nth hd_drop_conv_nth take_Suc)
qed

lemma leb_peb_buffer_given:
  assumes at: "leb_at layout leb q" and j: "j < lp_pebs q"
  shows "leb_given q j meta (leb_peb_buffer q j meta)"
proof -
  let ?b = "lp_buffer q" and ?p = "lp_pebtbl q" and ?t = "lp_lebtbl q" and ?n = "lp_pebs q"
  define b1 where "b1 = peb_taken ?b ?p j (of_int (SEG2PEB_TYPE (META2SEG_TYPE meta)))"
  have pt: "pebtbl_ok ?b ?p ?n (lp_start_peb q)" and lt: "lebtbl_ok ?b ?t (lp_lebs q) (lp_start_leb q) (lp_mapped q)"
    and i: "lp_index q < lp_lebs q" and apart: "?t + 4096 \<le> ?p" and n: "?n \<le> 476" and room: "lp_mapped q < lp_lebs q"
    and lebs: "lp_lebs q \<le> 1016"
    using at unfolding leb_at_def pebtbl_ok_def lebtbl_ok_def by blast+
  note f1 = peb_taken_frame[OF pt j, where ty = "of_int (SEG2PEB_TYPE (META2SEG_TYPE meta))", folded b1_def]
  note e1 = peb_taken_effect[OF pt j, where ty = "of_int (SEG2PEB_TYPE (META2SEG_TYPE meta))", folded b1_def]
  have lt1: "lebtbl_ok b1 ?t (lp_lebs q) (lp_start_leb q) (lp_mapped q)" using lebtbl_ok_frame(1)[OF f1] apart lt by simp
  let ?ph = "of_nat (476 * unat (lp_stripe q) + j)"
  have b': "leb_peb_buffer q j meta = leb_mapped b1 ?t (lp_index q) ?ph" by (simp add: leb_peb_buffer_def b1_def)
  note f2 = leb_mapped_frame[OF lt1 i, where ph = ?ph]
  note e2 = leb_mapped_effect[OF lt1 i room, where ph = ?ph]
  have len1: "length b1 = length ?b" by (rule same_outside_length[OF f1])
  have "?p + 4096 \<le> length b1" using pt len1 by (simp add: pebtbl_ok_def)
  note pf = pebtbl_ok_frame[OF f2 _ this]
  have used: "(peb_used (leb_mapped b1 ?t (lp_index q) ?ph) ?p k \<longleftrightarrow> k = j \<or> peb_used ?b ?p k) \<and>
      peb_type_of (leb_mapped b1 ?t (lp_index q) ?ph) ?p k = (if k = j then of_int (SEG2PEB_TYPE (META2SEG_TYPE meta)) else peb_type_of ?b ?p k) \<and>
      peb_state_of (leb_mapped b1 ?t (lp_index q) ?ph) ?p k = (if k = j then SSDFS_MAPTBL_USING_PEB_STATE else peb_state_of ?b ?p k)"
    if k: "k < ?n" for k
    using k n apart pf(2,3,4)[of k] e1(2,3,4)[of k] by simp
  have leb: "leb_physical (leb_mapped b1 ?t (lp_index q) ?ph) ?t k = (if k = lp_index q then ?ph else leb_physical ?b ?t k)"
    if k: "k < lp_lebs q" for k
    using e2(2)[OF k] lebtbl_ok_frame(2)[OF f1, of ?t k] k lebs apart by simp
  have len2: "length (leb_mapped b1 ?t (lp_index q) ?ph) = length ?b" using same_outside_length[OF f2] len1 by simp
  have out: "(?t \<le> i \<and> i < ?t + 4096) \<or> (?p \<le> i \<and> i < ?p + 4096)"
    if "i < length ?b" "leb_mapped b1 ?t (lp_index q) ?ph ! i \<noteq> ?b ! i" for i
    using that same_outside_nth[OF f1, of i] same_outside_nth[OF f2, of i] len1 by (metis not_le)
  show ?thesis unfolding leb_given_def Let_def b' using e2(1) pf(1) apart e1(1) used leb len2 out by simp
qed

text \<open>
  C15. Mapping a LEB takes the first PEB of its stripe that no LEB uses. The result is the id of this PEB; in the
  tables it becomes used, gets the type of the segment and the state USING, and the descriptor of the LEB points to it;
  every other descriptor and every byte outside the two tables stays as it was. When all PEBs of the stripe are used,
  the result is \<^verbatim>\<open>U64_MAX\<close> and nothing changes.
\<close>

theorem map_leb2peb_takes_first_unused:
  assumes at: "leb_at layout leb q" and meta: "0 \<le> meta" "meta \<le> 3"
    and fresh: "\<forall>k < lp_pebs q. \<not> peb_used (lp_buffer q) (lp_pebtbl q) k \<longrightarrow>
      peb_type_of (lp_buffer q) (lp_pebtbl q) k = 0 \<and> peb_state_of (lp_buffer q) (lp_pebtbl q) k = 0"
  shows "if \<exists>k < lp_pebs q. \<not> peb_used (lp_buffer q) (lp_pebtbl q) k
    then \<exists>j b' layout'. j < lp_pebs q \<and> \<not> peb_used (lp_buffer q) (lp_pebtbl q) j \<and>
      (\<forall>k < j. peb_used (lp_buffer q) (lp_pebtbl q) k) \<and> leb_given q j meta b' \<and>
      mt_put_buffer layout (unat (lp_fragment q)) b' = Inr layout' \<and>
      map_leb2peb layout leb meta = Inr (lp_start_peb q + of_nat j, layout')
    else map_leb2peb layout leb meta = Inr (U64_MAX, layout)"
proof (cases "\<exists>k < lp_pebs q. \<not> peb_used (lp_buffer q) (lp_pebtbl q) k")
  case True
  let ?j = "first_unused (lp_buffer q) (lp_pebtbl q) (lp_pebs q)"
  note first = first_unused_props[OF True]
  have "mt_buffer layout (unat (lp_fragment q)) = Inr (lp_buffer q)" using at unfolding leb_at_def by blast
  then obtain layout' where "mt_put_buffer layout (unat (lp_fragment q)) (leb_peb_buffer q ?j meta) = Inr layout'"
    by (auto simp: mt_buffer_def mt_put_buffer_def bnd_eq_Inr nth_chk_eq_Inr upd_chk_def)
  then show ?thesis
    using True first leb_peb_buffer_given[OF at first(1)] map_leb2peb_run[OF at refl first(1)] fresh meta by auto
next
  case False
  let ?b = "lp_buffer q" and ?p = "lp_pebtbl q"
  have pt: "pebtbl_ok ?b ?p (lp_pebs q) (lp_start_peb q)" and st: "get_stripe_index layout (lp_start_leb q) leb = Inr (lp_stripe q)"
    and p: "?p = get_pebtbl_fragment layout (lp_portion q) (lp_stripe q)"
    using at unfolding leb_at_def by blast+
  have "first_unused ?b ?p (lp_pebs q) = lp_pebs q" using False by (auto simp: first_unused_def)
  then have "find_unused_peb ?b ?p = Inr U16_MAX"
    using pt by (subst find_unused_peb_ok[of _ _ "lp_pebs q"]) (simp_all add: pebtbl_ok_def unat_of_nat)
  then have "map_leb2peb layout leb meta = Inr (U64_MAX, layout)"
    using pt lebtbl_of_leb_ok[OF at] st p by (simp add: map_leb2peb_def pebtbl_ok_def)
  then show ?thesis unfolding if_not_P[OF False] .
qed

section \<open>Ranges of the PEB tables\<close>

text \<open>The range of a stripe over natural numbers: the first PEB and the number of PEBs.\<close>

definition stripe_start :: "nat \<Rightarrow> nat \<Rightarrow> nat \<Rightarrow> nat \<Rightarrow> nat \<Rightarrow> nat" where
  "stripe_start n pp s k i = k * pp + (min (n - k * pp) pp + s - 1) div s * i"

definition stripe_pebs :: "nat \<Rightarrow> nat \<Rightarrow> nat \<Rightarrow> nat \<Rightarrow> nat \<Rightarrow> nat" where
  "stripe_pebs n pp s k i =
     (let r = min (n - k * pp) pp in min ((r + r mod s) div s) (n - stripe_start n pp s k i))"

lemma ceil_div_mod: "0 < s \<Longrightarrow> (r + s - 1) div s = (if r mod s \<noteq> 0 then r div s + 1 else r div s)" for r s :: nat
  using ceil_div_eq[of s r] by simp

lemma pebtbl_range_value:
  fixes vol :: u64 and pp s k i :: u16
  assumes n: "unat vol < 2 ^ 48" and s: "0 < unat s" and in_vol: "unat k * unat pp \<le> unat vol"
  shows "\<exists>start cnt. pebtbl_range vol pp s k i = Inr (start, cnt) \<and>
    unat start = stripe_start (unat vol) (unat pp) (unat s) (unat k) (unat i) \<and>
    unat cnt = stripe_pebs (unat vol) (unat pp) (unat s) (unat k) (unat i)"
proof -
  let ?base = "ucast pp * ucast k :: u64" and ?N = "unat vol" and ?P = "unat pp" and ?S = "unat s" and ?K = "unat k" and ?I = "unat i"
  have P: "?P < 65536" "?K < 65536" "?I < 65536" "?S < 65536" using unat_width[of pp] unat_width[of k] unat_width[of i] unat_width[of s] by simp_all
  have "?P * ?K < 65536 * 65536" using P by (intro mult_strict_mono) simp_all
  then have base: "unat ?base = ?K * ?P" by (subst unat_mult_nw) (simp_all add: unat_ucast_up mult.commute)
  have le: "?base \<le> vol" using in_vol by (simp add: word_le_nat_alt base)
  define rest :: u64 where "rest = min (vol - ?base) (ucast pp)"
  define R where "R = min (?N - ?K * ?P) ?P"
  have rest: "unat rest = R" by (simp add: rest_def R_def unat_min unat_sub_nw[OF le] base unat_ucast_up)
  have R: "R < 65536" using P by (simp add: R_def)
  have us: "unat (ucast s :: u64) = ?S" by (simp add: unat_ucast_up)
  then have s0: "(ucast s :: u64) \<noteq> 0" using s by auto
  define c :: u32 where "c = (if rest mod ucast s \<noteq> 0 then ucast (rest div ucast s) + 1 else ucast (rest div ucast s))"
  have q: "unat (ucast (rest div ucast s) :: u32) = R div ?S" "R div ?S \<le> R"
    using R by (simp_all add: unat_ucast_small unat_div rest us order_le_less_trans[OF div_le_dividend])
  have m: "rest mod ucast s = 0 \<longleftrightarrow> R mod ?S = 0" by (simp add: unat_eq_0[symmetric] unat_mod rest us)
  have "R div ?S < 65536" using q(2) R by linarith
  then have inc: "unat (ucast (rest div ucast s) + 1 :: u32) = R div ?S + 1" using q(1) by (subst unat_add_nw) simp_all
  have c: "unat c = (R + ?S - 1) div ?S"
    unfolding c_def ceil_div_mod[OF s] using m q(1) inc by auto
  have cR: "unat c \<le> R + 1" using div_le_dividend[of R ?S] unfolding c ceil_div_mod[OF s] by (simp add: le_SucI)
  define start where "start = ?base + ucast c * ucast i"
  have "unat c * ?I < 65537 * 65536" using cR R P by (intro mult_strict_mono) simp_all
  then have ci: "unat (ucast c * ucast i :: u64) = unat c * ?I" by (subst unat_mult_nw) (simp_all add: unat_ucast_up)
  then have start: "unat start = stripe_start ?N ?P ?S ?K ?I"
    unfolding start_def using base in_vol n \<open>unat c * ?I < 65537 * 65536\<close>
    by (subst unat_add_nw) (simp_all add: stripe_start_def c R_def)
  have small: "unat start < 2 ^ 60" unfolding start_def using base in_vol n ci \<open>unat c * ?I < 65537 * 65536\<close>
    by (subst unat_add_nw) simp_all
  define cnt0 where "cnt0 = (rest + rest mod ucast s) div ucast s"
  have "R mod ?S < 65536" using P(4) s mod_less_divisor[OF s, of R] by linarith
  then have cnt0: "unat cnt0 = (R + R mod ?S) div ?S" unfolding cnt0_def unat_div
    using R rest us by (subst unat_add_nw) (simp_all add: unat_mod)
  have c0: "unat cnt0 < 131072" unfolding cnt0 using R \<open>R mod ?S < 65536\<close> by (intro order_le_less_trans[OF div_le_dividend]) simp
  have add: "unat (start + cnt0) = unat start + unat cnt0" using small c0 by (subst unat_add_nw) simp_all
  have run: "pebtbl_range vol pp s k i =
     (if vol \<le> start then Inr (start, 0) else Inr (start, if vol < start + cnt0 then vol - start else cnt0))"
    unfolding pebtbl_range_def Let_def rest_def[symmetric] div_chk_ok[OF s0] bnd_Inr c_def[symmetric] start_def[symmetric]
      cnt0_def[symmetric] by (rule refl)
  have pebs: "stripe_pebs ?N ?P ?S ?K ?I = min (unat cnt0) (?N - unat start)"
    by (simp only: stripe_pebs_def Let_def R_def[symmetric] cnt0 start)
  have "unat (if vol < start + cnt0 then vol - start else cnt0) = min (unat cnt0) (?N - unat start)" if "\<not> vol \<le> start"
    using that add by (auto simp: word_less_nat_alt word_le_nat_alt unat_sub_nw not_le)
  then show ?thesis unfolding run pebs start[symmetric] by (auto simp: word_le_nat_alt)
qed

lemma stripe_quotient:
  fixes r s :: nat
  assumes "0 < s"
  shows "(r + r mod s) div s = r div s + (if s \<le> 2 * (r mod s) then 1 else 0)"
proof -
  have "r + r mod s = r div s * s + 2 * (r mod s)" by (metis add.assoc div_mult_mod_eq mult_2)
  then have "(r + r mod s) div s = (2 * (r mod s) + r div s * s) div s" by (simp only: add.commute)
  also have "\<dots> = r div s + 2 * (r mod s) div s" using assms by (subst div_mult_self1) simp_all
  finally have "(r + r mod s) div s = r div s + 2 * (r mod s) div s" .
  moreover have "2 * (r mod s) div s = (if s \<le> 2 * (r mod s) then 1 else 0)"
  proof (cases "s \<le> 2 * (r mod s)")
    case True
    have "2 * (r mod s) < 2 * s" using assms by simp
    then have "2 * (r mod s) div s = 1" using True by (intro div_nat_eqI) simp_all
    then show ?thesis using True by simp
  qed simp
  ultimately show ?thesis by simp
qed

lemma stripes_cover_iff:
  fixes n pp s k :: nat
  assumes s: "0 < s" and pp: "0 < pp" and in_vol: "k * pp < n"
  defines "r \<equiv> min (n - k * pp) pp"
  shows "(\<forall>x. k * pp \<le> x \<and> x < k * pp + r \<longrightarrow>
      (\<exists>!i. i < s \<and> stripe_start n pp s k i \<le> x \<and> x < stripe_start n pp s k i + stripe_pebs n pp s k i)) \<longleftrightarrow>
    r mod s = 0 \<or> s \<le> 2 * (r mod s)" (is "?cover \<longleftrightarrow> ?ok")
proof -
  define c where "c = (r + s - 1) div s"
  have start: "stripe_start n pp s k i = k * pp + c * i" for i by (simp add: stripe_start_def c_def r_def)
  have pebs: "stripe_pebs n pp s k i = min ((r + r mod s) div s) (n - (k * pp + c * i))" for i
    by (simp only: stripe_pebs_def Let_def r_def[symmetric] start)
  have r0: "0 < r" "k * pp + r \<le> n" using pp in_vol by (simp_all add: r_def)
  have cs: "r \<le> c * s" unfolding c_def by (rule ceil_div_mult_ge[OF s])
  then have c0: "0 < c" using r0(1) by (cases c) simp_all
  show ?thesis
  proof
    assume ok: ?ok
    then have cnt: "(r + r mod s) div s = c"
      unfolding stripe_quotient[OF s] c_def ceil_div_mod[OF s] using s by (auto split: if_splits)
    have "\<exists>!i. i < s \<and> k * pp + c * i \<le> x \<and> x < k * pp + c * i + min c (n - (k * pp + c * i))"
      if x: "k * pp \<le> x" "x < k * pp + r" for x
    proof (rule ex1I)
      let ?i = "(x - k * pp) div c"
      have "x - k * pp < s * c" using x cs by (simp add: mult.commute)
      then have "?i < s" by (rule less_mult_imp_div_less)
      moreover have "c * ?i \<le> x - k * pp" "x - k * pp < c * ?i + c"
        using c0 by (simp, metis add.commute dividend_less_times_div mult.commute)
      moreover define y where "y = c * ?i"
      ultimately have y: "?i < s" "y \<le> x - k * pp" "x - k * pp < y + c" by simp_all
      have "k * pp + y \<le> x" "x < k * pp + y + min c (n - (k * pp + y))" using x r0(2) y(2,3) by linarith+
      then show "?i < s \<and> k * pp + c * ?i \<le> x \<and> x < k * pp + c * ?i + min c (n - (k * pp + c * ?i))"
        using y(1) by (simp add: y_def)
      fix i assume "i < s \<and> k * pp + c * i \<le> x \<and> x < k * pp + c * i + min c (n - (k * pp + c * i))"
      then have "c * i \<le> x - k * pp" "x - k * pp < c * i + c" using x by auto
      then show "i = ?i" using c0 by (metis div_nat_eqI mult.commute add.commute mult_Suc_right) 
    qed
    then show ?cover unfolding start pebs cnt by blast
  next
    assume cover: ?cover
    show ?ok
    proof (rule ccontr)
      assume "\<not> ?ok"
      then have m: "0 < r mod s" "2 * (r mod s) < s" by simp_all
      have q: "(r + r mod s) div s = r div s" "c = r div s + 1"
        unfolding stripe_quotient[OF s] c_def ceil_div_mod[OF s] using m by simp_all
      have "r div s * s + r mod s = r" by simp
      moreover have "r div s \<le> r div s * s" using s by simp
      ultimately have "r div s < r" using m(1) by linarith
      then obtain i where i: "k * pp + c * i \<le> k * pp + r div s"
        "k * pp + r div s < k * pp + c * i + min (r div s) (n - (k * pp + c * i))"
        using cover[rule_format, of "k * pp + r div s"] unfolding start pebs q(1) by auto
      then have "c * i < c * 1" using q(2) by simp
      then have "i = 0" using c0 by simp
      then show False using i(2) by simp
    qed
  qed
qed

definition stripe_holds :: "u64 \<Rightarrow> u16 \<Rightarrow> u16 \<Rightarrow> u16 \<Rightarrow> u16 \<Rightarrow> nat \<Rightarrow> bool" where
  "stripe_holds vol pp s k i peb =
     (case pebtbl_range vol pp s k i of
        Inl e \<Rightarrow> False
      | Inr (start, cnt) \<Rightarrow> unat start \<le> peb \<and> peb < unat start + unat cnt)"

text \<open>
  C31. The PEB tables of a portion describe the PEBs of the portion: every PEB of the portion belongs to exactly
  one stripe if and only if the number of PEBs leaves no remainder over the stripes or a remainder of at least half of
  them. (With two stripes this is always so. Otherwise \<^verbatim>\<open>pebs_count += pebs_count % stripes_per_portion\<close> does not
  round up and PEBs at the ends of the stripes are in no table.)
\<close>

theorem pebtbl_stripes_cover:
  fixes vol :: u64 and pp s k :: u16
  assumes "unat vol < 2 ^ 48" and "0 < unat s" and "0 < unat pp" and "unat k * unat pp < unat vol"
  defines "r \<equiv> min (unat vol - unat k * unat pp) (unat pp)"
  shows "(\<forall>peb. unat k * unat pp \<le> peb \<and> peb < unat k * unat pp + r \<longrightarrow>
      (\<exists>!i. i < unat s \<and> stripe_holds vol pp s k (of_nat i) peb)) \<longleftrightarrow>
    r mod unat s = 0 \<or> unat s \<le> 2 * (r mod unat s)"
proof -
  have holds: "stripe_holds vol pp s k (of_nat i) peb \<longleftrightarrow>
      stripe_start (unat vol) (unat pp) (unat s) (unat k) i \<le> peb \<and>
      peb < stripe_start (unat vol) (unat pp) (unat s) (unat k) i + stripe_pebs (unat vol) (unat pp) (unat s) (unat k) i"
    if "i < unat s" for i peb
  proof -
    have "unat (of_nat i :: u16) = i" using that unat_width[of s] by (simp add: unat_of_nat)
    then show ?thesis using pebtbl_range_value[of vol s k pp "of_nat i"] assms by (auto simp: stripe_holds_def)
  qed
  have "(i < unat s \<and> stripe_holds vol pp s k (of_nat i) peb) \<longleftrightarrow>
      (i < unat s \<and> stripe_start (unat vol) (unat pp) (unat s) (unat k) i \<le> peb \<and>
       peb < stripe_start (unat vol) (unat pp) (unat s) (unat k) i + stripe_pebs (unat vol) (unat pp) (unat s) (unat k) i)" for i peb
    using holds by blast
  then show ?thesis unfolding r_def using stripes_cover_iff[of "unat s" "unat pp" "unat k" "unat vol"] assms by simp
qed

theorem pebtbl_stripes_cover_witness: "\<exists>!i. i < 2 \<and> stripe_holds 1001 1000 2 0 (of_nat i) 999"
  using pebtbl_stripes_cover[where vol = 1001 and s = 2 and pp = 1000 and k = 0] by simp

section \<open>Prepared tables\<close>

text \<open>A page of PEB descriptors that no LEB uses yet.\<close>

definition pebtbl_blank :: "buf \<Rightarrow> nat \<Rightarrow> bool" where
  "pebtbl_blank b p \<longleftrightarrow> bytes_at b (p + 32) 4064 = replicate 4064 0"

lemma blank_fields:
  assumes "pebtbl_blank b p"
  shows "j < 512 \<Longrightarrow> \<not> peb_used b p j" and "j < 476 \<Longrightarrow> peb_type_of b p j = 0" and "j < 476 \<Longrightarrow> peb_state_of b p j = 0"
proof -
  have z: "bytes_at b (p + 32 + k) w = replicate w 0" if "k + w \<le> 4064" for k w
    using bytes_at_bytes_at[OF that, of b "p + 32"] assms that by (simp add: pebtbl_blank_def bytes_at_def)
  have z8: "get8 b (p + 32 + k) = 0" if "k + 1 \<le> 4064" for k using z[OF that] by (simp add: get8_def)
  show "peb_type_of b p j = 0" "peb_state_of b p j = 0" if "j < 476"
    using that z8[of "260 + 8 * j"] z8[of "261 + 8 * j"] by (simp_all add: peb_type_of_def peb_state_of_def algebra_simps)
  show "\<not> peb_used b p j" if "j < 512"
  proof -
    have "8 * (j div 64) + 8 \<le> 4064" using that by (simp add: less_mult_imp_div_less)
    then have "get64 b (p + 32 + 8 * (j div 64)) = le_dec (replicate 8 0)" using z[of "8 * (j div 64)" 8] by (simp add: get64_def)
    moreover have "le_dec (replicate 8 0) = (0 :: u64)" by (simp add: numeral_eq_Suc)
    ultimately show ?thesis by (simp add: peb_used_def bmap_bit_def)
  qed
qed

lemma lebtbl_range_bound: "unat (snd (lebtbl_range vol lpp k i)) \<le> 1016"
  by (auto simp: lebtbl_range_def Let_def unat_min SSDFS_LEB_DESC_PER_FRAGMENT_def)

lemma wide_eq_0: "(ucast x :: u64) = 0 \<longleftrightarrow> x = 0" for x :: u32
proof
  assume "(ucast x :: u64) = 0"
  then have "unat (ucast x :: u64) = 0" by simp
  then have "unat x = 0" using unat_ucast_up[where 'a = 32 and 'b = 64, of x] by simp
  then show "x = 0" by (simp add: unat_eq_0)
qed simp

text \<open>The headers that are written into a zeroed page.\<close>

definition leb_hdr_image :: "u64 \<Rightarrow> u16 \<Rightarrow> u16 \<Rightarrow> u16 \<Rightarrow> u32 \<Rightarrow> buf" where
  "leb_hdr_image start cnt portion i bytes =
     le_enc 2 SSDFS_LEB_TABLE_MAGIC @ replicate 6 0 @ le_enc 8 start @ le_enc 2 cnt @ replicate 6 0 @ le_enc 2 portion @
     le_enc 2 i @ le_enc 4 bytes"

definition peb_hdr_image :: "u64 \<Rightarrow> u16 \<Rightarrow> u16 \<Rightarrow> u16 \<Rightarrow> u16 \<Rightarrow> u32 \<Rightarrow> buf" where
  "peb_hdr_image start cnt resv portion i bytes =
     le_enc 2 SSDFS_PEB_TABLE_MAGIC @ [0, 1] @ replicate 4 0 @ le_enc 8 start @ le_enc 2 cnt @ replicate 2 0 @ le_enc 2 resv @
     le_enc 2 i @ le_enc 2 portion @ le_enc 2 i @ le_enc 4 bytes"

lemma length_hdr_images [simp]:
  "length (leb_hdr_image start cnt portion i bytes) = 32" "length (peb_hdr_image start cnt resv portion i bytes) = 32"
  by (simp_all add: leb_hdr_image_def peb_hdr_image_def)

lemma leb_hdr_fields:
  "get16 (leb_hdr_image start cnt portion i bytes @ R) 0 = SSDFS_LEB_TABLE_MAGIC"
  "get64 (leb_hdr_image start cnt portion i bytes @ R) 8 = start" "get16 (leb_hdr_image start cnt portion i bytes @ R) 16 = cnt"
  "get16 (leb_hdr_image start cnt portion i bytes @ R) 18 = 0" "get16 (leb_hdr_image start cnt portion i bytes @ R) 20 = 0"
  "get32 (leb_hdr_image start cnt portion i bytes @ R) 28 = bytes"
  by (simp_all add: leb_hdr_image_def get16_def get32_def get64_def bytes_at_def le_dec_enc) (simp_all add: numeral_eq_Suc)

lemma peb_hdr_fields:
  "get16 (peb_hdr_image start cnt resv portion i bytes @ R) 0 = SSDFS_PEB_TABLE_MAGIC"
  "get64 (peb_hdr_image start cnt resv portion i bytes @ R) 8 = start" "get16 (peb_hdr_image start cnt resv portion i bytes @ R) 16 = cnt"
  "get16 (peb_hdr_image start cnt resv portion i bytes @ R) 18 = 0" "get32 (peb_hdr_image start cnt resv portion i bytes @ R) 28 = bytes"
  by (simp_all add: peb_hdr_image_def get16_def get32_def get64_def bytes_at_def le_dec_enc) (simp_all add: numeral_eq_Suc)

lemma zero_page:
  assumes "p + 4096 \<le> length b" and "bytes_at b p 4096 = replicate 4096 0"
  shows "b = take p b @ replicate 32 0 @ replicate 4064 0 @ drop (p + 4096) b"
proof -
  have "b = overwrite b p (bytes_at b p 4096)" using assms(1) by (simp add: overwrite_bytes_at)
  also have "\<dots> = take p b @ replicate (32 + 4064) 0 @ drop (p + 4096) b" by (simp add: assms(2) overwrite_def)
  finally show ?thesis unfolding replicate_add by (simp only: append_assoc)
qed

lemma page_fields:
  assumes "bytes_at m p n = w"
  shows "j + 1 \<le> n \<Longrightarrow> get8 m (p + j) = get8 w j" and "j + 2 \<le> n \<Longrightarrow> get16 m (p + j) = get16 w j"
    and "j + 4 \<le> n \<Longrightarrow> get32 m (p + j) = get32 w j" and "j + 8 \<le> n \<Longrightarrow> get64 m (p + j) = get64 w j"
  by (simp_all add: get8_def get16_def get32_def get64_def assms[symmetric] bytes_at_bytes_at)

lemma leb_header_writes:
  "bnd (wr16 (A @ replicate 32 0 @ C) (length A) SSDFS_LEB_TABLE_MAGIC) (\<lambda>b.
   bnd (wr16 b (length A + 2) 0) (\<lambda>b. bnd (wr64 b (length A + 8) start) (\<lambda>b. bnd (wr16 b (length A + 16) cnt) (\<lambda>b.
   bnd (wr16 b (length A + 18) 0) (\<lambda>b. bnd (wr16 b (length A + 20) 0) (\<lambda>b. bnd (wr16 b (length A + 24) portion) (\<lambda>b.
   bnd (wr16 b (length A + 26) i) (\<lambda>b. bnd (wr32 b (length A + 28) bytes) f)))))))) =
   f (A @ leb_hdr_image start cnt portion i bytes @ C)"
proof -
  let ?z = "\<lambda>n. replicate n (0 :: u8)"
  have "replicate 32 (0 :: u8) = ?z 2 @ ?z 2 @ ?z 4 @ ?z 8 @ ?z 2 @ ?z 2 @ ?z 2 @ ?z 2 @ ?z 2 @ ?z 2 @ ?z 4"
    by (simp add: numeral_eq_Suc)
  then show ?thesis unfolding field_wr le_enc_zero leb_hdr_image_def
    by (simp add: wr_def overwrite_def) (simp add: numeral_eq_Suc)
qed

lemma prepare_leb_table_ok:
  assumes er: "erase_size (vl_env layout) \<noteq> 0" and "vl_page_size layout \<noteq> 0"
    and i: "i < (ucast (mt_lebtbl_portion_bytes (vl_maptbl layout) div vl_page_size layout) :: u16)"
    and len: "p + 4096 \<le> length b" and zero: "bytes_at b p 4096 = replicate 4096 0"
    and range: "lebtbl_range (fs_size (vl_env layout) div ucast (erase_size (vl_env layout)))
        (mt_lebs_per_portion (vl_maptbl layout)) k i = (start, cnt)"
  shows "\<exists>b'. maptbl_prepare_leb_table layout p k i b = Inr b' \<and> same_outside p (p + 4096) b b' \<and> lebtbl_ok b' p (unat cnt) start 0"
proof -
  let ?m = "ucast (mt_lebtbl_portion_bytes (vl_maptbl layout) div vl_page_size layout) :: u16"
  let ?H = "leb_hdr_image start (ucast cnt) k i (32 + ucast (cnt * 4))" and ?F = "replicate 4064 (0xFF :: u8)"
  define A where "A = take p b"
  define C where "C = drop (p + 4096) b"
  have b: "b = A @ replicate 32 0 @ replicate 4064 0 @ C" unfolding A_def C_def by (rule zero_page[OF len zero])
  have lA: "length A = p" using len by (simp add: A_def)
  have cnt: "unat cnt \<le> 1016" using lebtbl_range_bound[of _ _ k i] range by (metis snd_conv)
  have c16: "\<not> ucast U16_MAX \<le> cnt" unfolding ucast_max using cnt by (simp add: word_le_nat_alt)
  have u16: "(ucast cnt :: u16) = of_nat (unat cnt)" using cnt by (intro word_unat_eqI) (simp add: unat_ucast_small unat_of_nat)
  have "unat (cnt * 4) = unat cnt * 4" using cnt by (subst unat_mult_nw) simp_all
  then have u32: "(32 + ucast (cnt * 4) :: u32) = of_nat (32 + 4 * unat cnt)"
    using cnt by (intro word_unat_eqI, subst unat_add_nw) (simp_all add: unat_ucast_small unat_of_nat del: of_nat_add of_nat_mult)
  have m: "?m \<noteq> 0" "\<not> ?m \<le> i" using i by auto
  have "maptbl_prepare_leb_table layout p k i b = memset (A @ ?H @ replicate 4064 0 @ C) (p + 32) 0xFF 4064"
    unfolding b maptbl_prepare_leb_table_def range Let_def prod.case
    using assms(2) er m c16 leb_header_writes[of A "replicate 4064 0 @ C" start "ucast cnt" k i "32 + ucast (cnt * 4)"] lA
    by (simp add: wide_eq_0 range)
  also have "\<dots> = Inr (overwrite b p (?H @ ?F))"
    unfolding b memset_def using lA wr_mid[of "p + 32" "A @ ?H" ?F "replicate 4064 0" C] by (simp add: overwrite_def)
  finally have run: "maptbl_prepare_leb_table layout p k i b = Inr (overwrite b p (?H @ ?F))" .
  have page: "bytes_at (overwrite b p (?H @ ?F)) p 4096 = ?H @ ?F"
    using bytes_at_overwrite_same[of p "?H @ ?F" b] len by simp
  note get = page_fields[OF page]
  have "lebtbl_ok (overwrite b p (?H @ ?F)) p (unat cnt) start 0"
    unfolding lebtbl_ok_def using get(2)[of 0] get(2)[of 16] get(2)[of 18] get(2)[of 20] get(3)[of 28] get(4)[of 8] len cnt
    by (simp add: leb_hdr_fields u16 u32 del: of_nat_add of_nat_mult of_nat_unat)
  moreover have "same_outside p (p + 4096) b (overwrite b p (?H @ ?F))"
    using len by (auto simp: same_outside_def bytes_at_overwrite_disj)
  ultimately show ?thesis using run by blast
qed

lemma peb_header_writes:
  "bnd (wr16 (A @ replicate 32 0 @ C) (length A) SSDFS_PEB_TABLE_MAGIC) (\<lambda>b.
   bnd (wr8 b (length A + 2) 0) (\<lambda>b. bnd (wr8 b (length A + 3) 1) (\<lambda>b. bnd (wr64 b (length A + 8) start) (\<lambda>b.
   bnd (wr16 b (length A + 16) cnt) (\<lambda>b. bnd (wr16 b (length A + 18) 0) (\<lambda>b. bnd (wr16 b (length A + 20) resv) (\<lambda>b.
   bnd (wr16 b (length A + 22) i) (\<lambda>b. bnd (wr16 b (length A + 24) portion) (\<lambda>b. bnd (wr16 b (length A + 26) i) (\<lambda>b.
   wr32 b (length A + 28) bytes)))))))))) =
   Inr (A @ peb_hdr_image start cnt resv portion i bytes @ C)"
proof -
  let ?z = "\<lambda>n. replicate n (0 :: u8)"
  have "replicate 32 (0 :: u8) = ?z 2 @ [0] @ [0] @ ?z 4 @ ?z 8 @ ?z 2 @ ?z 2 @ ?z 2 @ ?z 2 @ ?z 2 @ ?z 2 @ ?z 4"
    by (simp add: numeral_eq_Suc)
  then show ?thesis unfolding field_wr le_enc_zero peb_hdr_image_def
    by (simp add: wr_def overwrite_def)
qed

lemma prepare_peb_table_ok:
  assumes er: "erase_size (vl_env layout) \<noteq> 0" and i: "i < mt_stripes_per_portion (vl_maptbl layout)"
    and len: "p + 4096 \<le> length b" and zero: "bytes_at b p 4096 = replicate 4096 0"
    and range: "pebtbl_range (fs_size (vl_env layout) div ucast (erase_size (vl_env layout)))
        (mt_pebs_per_portion (vl_maptbl layout)) (mt_stripes_per_portion (vl_maptbl layout)) k i = Inr (start, cnt)"
    and cnt: "unat cnt \<le> 476" and pct: "mt_reserved_pebs_per_fragment (vl_maptbl layout) \<le> 100"
  shows "\<exists>b'. maptbl_prepare_peb_table layout p k i b = Inr b' \<and> same_outside p (p + 4096) b b' \<and>
    pebtbl_ok b' p (unat cnt) start \<and> pebtbl_blank b' p"
proof -
  let ?res = "cnt * ucast (mt_reserved_pebs_per_fragment (vl_maptbl layout)) div 100"
  let ?H = "peb_hdr_image start (ucast cnt) (ucast ?res) k i (288 + ucast (cnt * 8))" and ?F = "replicate 4064 (0 :: u8)"
  define A where "A = take p b"
  define C where "C = drop (p + 4096) b"
  have b: "b = A @ replicate 32 0 @ ?F @ C" unfolding A_def C_def by (rule zero_page[OF len zero])
  have lA: "length A = p" using len by (simp add: A_def)
  have c16: "\<not> ucast U16_MAX \<le> cnt" unfolding ucast_max using cnt by (simp add: word_le_nat_alt)
  have u16: "(ucast cnt :: u16) = of_nat (unat cnt)" using cnt by (intro word_unat_eqI) (simp add: unat_ucast_small unat_of_nat)
  have "unat (cnt * 8) = unat cnt * 8" using cnt by (subst unat_mult_nw) simp_all
  then have u32: "(288 + ucast (cnt * 8) :: u32) = of_nat (288 + 8 * unat cnt)"
    using cnt by (intro word_unat_eqI, subst unat_add_nw) (simp_all add: unat_ucast_small unat_of_nat del: of_nat_add of_nat_mult)
  have pc: "unat (mt_reserved_pebs_per_fragment (vl_maptbl layout)) \<le> 100" using pct by (simp add: word_le_nat_alt)
  have prod: "unat cnt * unat (mt_reserved_pebs_per_fragment (vl_maptbl layout)) \<le> 476 * 100" by (rule mult_le_mono[OF cnt pc])
  then have "unat ?res \<le> 476" by (simp add: unat_div unat_mult_nw unat_ucast_up div_le_mono)
  then have r16: "\<not> ucast U16_MAX \<le> ?res" unfolding ucast_max by (simp add: word_le_nat_alt)
  have "maptbl_prepare_peb_table layout p k i b = Inr (A @ ?H @ ?F @ C)"
    unfolding b maptbl_prepare_peb_table_def Let_def
    using er i[unfolded not_le[symmetric]] c16 r16 peb_header_writes[of A "?F @ C" start "ucast cnt" "ucast ?res" i k "288 + ucast (cnt * 8)"] lA
    by (simp add: wide_eq_0 range)
  also have "A @ ?H @ ?F @ C = overwrite b p (?H @ ?F)" unfolding b using lA by (simp add: overwrite_def)
  finally have run: "maptbl_prepare_peb_table layout p k i b = Inr (overwrite b p (?H @ ?F))" .
  have page: "bytes_at (overwrite b p (?H @ ?F)) p 4096 = ?H @ ?F"
    using bytes_at_overwrite_same[of p "?H @ ?F" b] len by simp
  note get = page_fields[OF page]
  have "pebtbl_ok (overwrite b p (?H @ ?F)) p (unat cnt) start"
    unfolding pebtbl_ok_def using get(2)[of 0] get(2)[of 16] get(2)[of 18] get(3)[of 28] get(4)[of 8] len cnt
    by (simp add: peb_hdr_fields u16 u32 del: of_nat_add of_nat_mult of_nat_unat)
  moreover have "pebtbl_blank (overwrite b p (?H @ ?F)) p"
    using page bytes_at_bytes_at[of 32 4064 4096 "overwrite b p (?H @ ?F)" p] by (simp add: pebtbl_blank_def bytes_at_def)
  moreover have "same_outside p (p + 4096) b (overwrite b p (?H @ ?F))"
    using len by (auto simp: same_outside_def bytes_at_overwrite_disj)
  ultimately show ?thesis using run by blast
qed

section \<open>Mapping of all allocated LEBs\<close>

text \<open>
  A volume whose segments have one PEB each, numbered like the segments, which is how \<open>segbmap_mkfs_validate\<close>
  leaves them: \<open>N\<close> segments with the LEBs \<open>0\<close> to \<open>N - 1\<close>, in the order of the metadata.
\<close>

definition single_peb_segments :: "ssdfs_volume_layout \<Rightarrow> nat \<Rightarrow> bool" where
  "single_peb_segments layout N \<longleftrightarrow>
     length (vl_segs layout) = N \<and> vl_segs_capacity layout = int N \<and>
     (\<forall>j < N. length (sd_pebs (vl_segs layout ! j)) = 1 \<and> sd_pebs_capacity (vl_segs layout ! j) = 1 \<and>
        pc_leb_id (sd_pebs (vl_segs layout ! j) ! 0) = of_nat j \<and>
        0 \<le> sd_seg_type (vl_segs layout ! j) \<and> sd_seg_type (vl_segs layout ! j) \<le> 3)"

definition meta_in_order :: "ssdfs_volume_layout \<Rightarrow> nat \<Rightarrow> bool" where
  "meta_in_order layout N \<longleftrightarrow> length (vl_meta_array layout) = 5 \<and>
     (\<forall>i < 5. 0 \<le> md_segs_count (vl_meta_array layout ! i) \<and>
        md_start_seg_index (vl_meta_array layout ! i) = (\<Sum>k < i. md_segs_count (vl_meta_array layout ! k))) \<and>
     (\<Sum>k < 5. md_segs_count (vl_meta_array layout ! k)) = int N"

text \<open>The tables of the first portion: at 0 the LEB table, at \<open>p\<close> the PEB table of the first stripe.\<close>

definition tables_mapped :: "nat \<Rightarrow> nat \<Rightarrow> nat \<Rightarrow> nat \<Rightarrow> buf \<Rightarrow> bool" where
  "tables_mapped p m n k b \<longleftrightarrow> lebtbl_ok b 0 m 0 k \<and> pebtbl_ok b p n 0 \<and>
     (\<forall>j < n. peb_used b p j \<longleftrightarrow> j < k) \<and> (\<forall>j < n. k \<le> j \<longrightarrow> peb_type_of b p j = 0 \<and> peb_state_of b p j = 0) \<and>
     (\<forall>j < k. peb_state_of b p j = SSDFS_MAPTBL_USING_PEB_STATE) \<and> (\<forall>i < k. leb_physical b 0 i = of_nat i)"

definition mapped_seg :: "nat \<Rightarrow> ssdfs_segment_desc \<Rightarrow> ssdfs_segment_desc" where
  "mapped_seg j seg = seg\<lparr>sd_pebs := [(sd_pebs seg ! 0)\<lparr>pc_peb_id := of_nat j\<rparr>]\<rparr>"

definition mapped_segs :: "nat \<Rightarrow> ssdfs_segment_desc list \<Rightarrow> ssdfs_segment_desc list" where
  "mapped_segs k segs = map (\<lambda>j. if j < k then mapped_seg j (segs ! j) else segs ! j) [0..<length segs]"

definition identity_pairs :: "nat \<Rightarrow> (u64 \<times> u64) list" where
  "identity_pairs k = map (\<lambda>i. (of_nat i, of_nat i)) [0..<k]"

definition portion_words :: "ssdfs_volume_layout \<Rightarrow> nat \<Rightarrow> nat \<Rightarrow> bool" where
  "portion_words layout p N \<longleftrightarrow>
     vl_seg_size layout = ucast (erase_size (vl_env layout)) \<and> erase_size (vl_env layout) \<noteq> 0 \<and>
     vl_page_size layout \<noteq> 0 \<and> unat (mt_lebtbl_portion_bytes (vl_maptbl layout)) = p \<and>
     0 < mt_lebtbl_portion_bytes (vl_maptbl layout) div vl_page_size layout \<and>
     0 < mt_maptbl_pebs (vl_maptbl layout) \<and> 0 < mt_portions_per_fragment (vl_maptbl layout) \<and>
     0 < mt_stripes_per_portion (vl_maptbl layout) \<and>
     N \<le> unat (mt_lebs_per_portion (vl_maptbl layout)) \<and> 4096 \<le> p"

text \<open>The layout after the first \<open>k\<close> LEBs have been mapped.\<close>

definition mapped_upto :: "ssdfs_volume_layout \<Rightarrow> nat \<Rightarrow> nat \<Rightarrow> nat \<Rightarrow> nat \<Rightarrow> nat \<Rightarrow> ssdfs_volume_layout \<Rightarrow> bool" where
  "mapped_upto l0 p m n nf k l \<longleftrightarrow>
     (\<exists>b mc. l = l0\<lparr>vl_maptbl := (vl_maptbl l0)\<lparr>mt_fragments_array := Some (Some b # tl (the (mt_fragments_array (vl_maptbl l0))))\<rparr>,
                      vl_maptbl_cache := mc, vl_segs := mapped_segs k (vl_segs l0)\<rparr> \<and> tables_mapped p m n k b) \<and>
     cache_repr l (cache_chunks (cache_capacity (vl_page_size l0)) nf (entries_of (identity_pairs k)))"

lemma length_mapped_segs [simp]: "length (mapped_segs k segs) = length segs"
  by (simp add: mapped_segs_def)

lemma mapped_segs_step:
  "k < length segs \<Longrightarrow> mapped_segs (Suc k) segs = (mapped_segs k segs)[k := mapped_seg k (segs ! k)]"
  by (rule nth_equalityI) (auto simp: mapped_segs_def nth_list_update less_Suc_eq)

lemma first_unused_eqI:
  assumes "\<And>j. j < n \<Longrightarrow> peb_used b p j \<longleftrightarrow> j < k" and "k < n"
  shows "first_unused b p n = k"
proof -
  have "(LEAST j. \<not> peb_used b p j) = k"
  proof (rule Least_equality)
    show "\<not> peb_used b p k" using assms by simp
    show "k \<le> j" if "\<not> peb_used b p j" for j using that assms by (metis less_trans not_le)
  qed
  then show ?thesis using assms by (auto simp: first_unused_def)
qed

lemma first_portion_lookup:
  assumes w: "portion_words layout p N" and k: "k < N" "k < 1016"
  shows "get_lebtbl_fragment layout (of_nat k) = Inr (0, 0, of_nat k, 0)"
proof -
  let ?mt = "vl_maptbl layout"
  define per where "per = (ucast (mt_lebs_per_portion ?mt) * ucast (mt_portions_per_fragment ?mt) :: u32)"
  have L: "N \<le> unat (mt_lebs_per_portion ?mt)" "0 < mt_portions_per_fragment ?mt" using w by (simp_all add: portion_words_def)
  have k64: "unat (of_nat k :: u64) = k" using k(2) by (simp add: unat_of_nat)
  have bound: "unat (mt_lebs_per_portion ?mt) < 65536" "unat (mt_portions_per_fragment ?mt) < 65536"
    using unat_width[of "mt_lebs_per_portion ?mt"] unat_width[of "mt_portions_per_fragment ?mt"] by simp_all
  have "unat (mt_lebs_per_portion ?mt) * unat (mt_portions_per_fragment ?mt) \<le> 65535 * 65535"
    using bound by (intro mult_le_mono) simp_all
  then have per: "unat per = unat (mt_lebs_per_portion ?mt) * unat (mt_portions_per_fragment ?mt)"
    unfolding per_def by (subst unat_mult_nw) (simp_all add: unat_ucast_up)
  have pf: "1 \<le> unat (mt_portions_per_fragment ?mt)" using L(2) by (simp add: word_less_nat_alt)
  have "unat (mt_lebs_per_portion ?mt) * 1 \<le> unat per" unfolding per by (rule mult_le_mono2[OF pf])
  then have kper: "k < unat per" using k(1) L(1) by linarith
  have pos: "(ucast per :: u64) \<noteq> 0" "(ucast (ucast (mt_lebs_per_portion ?mt) :: u32) :: u64) \<noteq> 0"
    using kper k(1) L(1) by (auto simp: wide_eq_0 unat_eq_0[symmetric] unat_ucast_up)
  have d1: "of_nat k div (ucast per :: u64) = 0" "of_nat k div (ucast (ucast (mt_lebs_per_portion ?mt) :: u32) :: u64) = 0"
    "of_nat k div (1016 :: u64) = 0" "of_nat k mod (1016 :: u64) = of_nat k"
    using kper k L(1) by (auto simp: word_arith_nat_div word_arith_nat_mod k64 unat_ucast_up)
  have guards: "\<not> mt_maptbl_pebs ?mt \<le> 0" "\<not> (ucast (mt_portions_per_fragment ?mt) :: u32) \<le> 0"
    "\<not> mt_lebtbl_portion_bytes ?mt div vl_page_size layout \<le> 0" "vl_page_size layout \<noteq> 0"
    using w by (auto simp: portion_words_def word_le_nat_alt unat_ucast_up word_less_nat_alt)
  have c16: "(ucast (of_nat k :: u64) :: u16) = of_nat k" using k(2) by (intro word_unat_eqI) (simp add: unat_ucast_small k64 unat_of_nat)
  show ?thesis
    using pos d1 guards c16
    by (simp add: get_lebtbl_fragment_def Let_def per_def[symmetric] SSDFS_LEB_DESC_PER_FRAGMENT_def)
qed

lemma single_peb_stripe:
  assumes w: "portion_words layout p N" and k: "k < 476"
  shows "get_stripe_index layout 0 (of_nat k) = Inr 0"
proof -
  have er: "(ucast (erase_size (vl_env layout)) :: u64) \<noteq> 0" using w by (auto simp: portion_words_def wide_eq_0)
  then have q: "ucast (erase_size (vl_env layout)) div ucast (erase_size (vl_env layout)) = (1 :: u64)"
    by (simp add: word_arith_nat_div unat_eq_0)
  have k64: "unat (of_nat k :: u64) = k" using k by (simp add: unat_of_nat)
  have "of_nat k div (476 :: u64) = 0" using k by (simp add: word_arith_nat_div k64)
  moreover have "\<not> ucast (mt_stripes_per_portion (vl_maptbl layout)) < (1 :: u32)"
    using w by (simp add: portion_words_def word_less_nat_alt unat_ucast_up)
  moreover have "\<not> ucast U16_MAX \<le> (1 :: u32)" unfolding ucast_max by (simp add: word_le_nat_alt)
  ultimately show ?thesis using er w
    by (simp add: get_stripe_index_def Let_def q portion_words_def SSDFS_PEB_DESC_PER_FRAGMENT_def)
qed

lemma first_pebtbl: "portion_words layout p N \<Longrightarrow> get_pebtbl_fragment layout 0 0 = p"
  by (simp add: get_pebtbl_fragment_def portion_words_def)

definition first_place :: "nat \<Rightarrow> nat \<Rightarrow> nat \<Rightarrow> nat \<Rightarrow> buf \<Rightarrow> leb_place" where
  "first_place p m n k b =
     \<lparr>lp_fragment = 0, lp_portion = 0, lp_buffer = b, lp_lebtbl = 0, lp_index = k, lp_lebs = m, lp_start_leb = 0,
      lp_mapped = k, lp_stripe = 0, lp_pebtbl = p, lp_pebs = n, lp_start_peb = 0\<rparr>"

lemma first_place_at:
  assumes w: "portion_words layout p N" and arr: "mt_fragments_array (vl_maptbl layout) = Some (Some b # fs)"
    and tbl: "tables_mapped p m n k b" and k: "k < N" "k < m" "k < n"
  shows "leb_at layout (of_nat k) (first_place p m n k b)" and "first_unused b p n = k"
proof -
  have n: "n \<le> 476" and m: "m \<le> 1016" using tbl by (simp_all add: tables_mapped_def pebtbl_ok_def lebtbl_ok_def)
  have k64: "unat (of_nat k :: u64) = k" using k n by (simp add: unat_of_nat)
  show "leb_at layout (of_nat k) (first_place p m n k b)"
    unfolding leb_at_def first_place_def
    using first_portion_lookup[OF w k(1)] single_peb_stripe[OF w, of k] first_pebtbl[OF w] tbl arr k n m w
    by (simp add: tables_mapped_def mt_buffer_def k64 portion_words_def)
  show "first_unused b p n = k" using tbl k by (intro first_unused_eqI) (simp_all add: tables_mapped_def)
qed

lemma tables_mapped_step:
  assumes tbl: "tables_mapped p m n k b" and k: "k < m" "k < n" and p: "4096 \<le> p"
  shows "tables_mapped p m n (Suc k) (leb_peb_buffer (first_place p m n k b) k meta)"
proof -
  define b1 where "b1 = peb_taken b p k (of_int (SEG2PEB_TYPE (META2SEG_TYPE meta)))"
  have pt: "pebtbl_ok b p n 0" and lt: "lebtbl_ok b 0 m 0 k" using tbl by (simp_all add: tables_mapped_def)
  have n: "n \<le> 476" and m: "m \<le> 1016" using pt lt by (simp_all add: pebtbl_ok_def lebtbl_ok_def)
  note f1 = peb_taken_frame[OF pt k(2), where ty = "of_int (SEG2PEB_TYPE (META2SEG_TYPE meta))", folded b1_def]
  note e1 = peb_taken_effect[OF pt k(2), where ty = "of_int (SEG2PEB_TYPE (META2SEG_TYPE meta))", folded b1_def]
  have lt1: "lebtbl_ok b1 0 m 0 k" using lebtbl_ok_frame(1)[OF f1] p lt by simp
  note f2 = leb_mapped_frame[OF lt1 k(1), where ph = "of_nat k"]
  note e2 = leb_mapped_effect[OF lt1 k(1) k(1), where ph = "of_nat k"]
  have "p + 4096 \<le> length b1" using pt same_outside_length[OF f1] by (simp add: pebtbl_ok_def)
  note pf = pebtbl_ok_frame[OF f2 _ this]
  have "leb_peb_buffer (first_place p m n k b) k meta = leb_mapped b1 0 k (of_nat k)"
    by (simp add: leb_peb_buffer_def first_place_def b1_def)
  moreover have "leb_physical b1 0 i = leb_physical b 0 i" if "i < m" for i
    using lebtbl_ok_frame(2)[OF f1, of 0 i] p that m by simp
  ultimately show ?thesis using tbl e1 e2 pf k n p by (auto simp: tables_mapped_def less_Suc_eq)
qed

lemma for_res_one: "for_res 0 (Suc 0) f s = f 0 s"
  by (cases "f 0 s") (simp_all add: for_res_step)

lemma identity_pairs_Suc: "entries_of (identity_pairs (Suc k)) = entries_of (identity_pairs k) @ [(of_nat k, of_nat k, using_state)]"
  by (simp add: identity_pairs_def entries_of_def)

lemma identity_below:
  assumes "x \<in> set (entries_of (identity_pairs k))" and "k < 2 ^ 64"
  shows "fst x < of_nat k"
proof -
  from assms(1) obtain i where i: "i < k" "fst x = of_nat i" by (auto simp: entries_of_def identity_pairs_def)
  then have "unat (of_nat i :: u64) < unat (of_nat k :: u64)" using assms(2) by (simp add: unat_of_nat)
  then show ?thesis using i(2) by (simp add: word_less_nat_alt)
qed

lemma cache_identity_step:
  assumes repr: "cache_repr layout (cache_chunks (cache_capacity (vl_page_size layout)) nf (entries_of (identity_pairs k)))"
    and k: "k < 476" "k < nf * cache_capacity (vl_page_size layout)"
  shows "\<exists>layout'. cache_leb2peb_pair layout (of_nat k) (of_nat k) = Inr layout' \<and>
    cache_repr layout' (cache_chunks (cache_capacity (vl_page_size layout)) nf (entries_of (identity_pairs (Suc k)))) \<and>
    layout' = layout\<lparr>vl_maptbl_cache := vl_maptbl_cache layout'\<rparr>"
proof -
  let ?cap = "cache_capacity (vl_page_size layout)"
  have len: "length (entries_of (identity_pairs k)) < nf * ?cap" using k by (simp add: entries_of_def identity_pairs_def)
  have pos: "0 < ?cap" using k by (cases ?cap) auto
  have less: "\<forall>x \<in> set (entries_of (identity_pairs k)). fst x < fst (of_nat k :: u64, of_nat k :: u64, using_state)"
    using identity_below[of _ k] k by simp
  note ch = chunks_snoc[OF pos len less]
  have max: "(of_nat k :: u64) \<noteq> U64_MAX"
  proof
    assume "(of_nat k :: u64) = U64_MAX"
    then have "unat (of_nat k :: u64) = 2 ^ 64 - 1" by (simp add: unat_minus_one_eq)
    then show False using k by (simp add: unat_of_nat)
  qed
  show ?thesis
    using cache_pair_repr[OF repr max max, of "length (entries_of (identity_pairs k)) div ?cap"] ch
    by (simp add: identity_pairs_Suc)
qed

lemma map_segment_step:
  assumes upto: "mapped_upto l0 p m n nf k l" and segs: "single_peb_segments l0 N" and w: "portion_words l0 p N"
    and k: "k < N" "N \<le> m" "N \<le> n" and cap: "N \<le> nf * cache_capacity (vl_page_size l0)"
  shows "\<exists>l'. map_segment_lebs2pebs (int k) l = Inr l' \<and> mapped_upto l0 p m n nf (Suc k) l'"
proof -
  define fs where "fs = tl (the (mt_fragments_array (vl_maptbl l0)))"
  from upto obtain b mc where l: "l = l0\<lparr>vl_maptbl := (vl_maptbl l0)\<lparr>mt_fragments_array := Some (Some b # fs)\<rparr>,
      vl_maptbl_cache := mc, vl_segs := mapped_segs k (vl_segs l0)\<rparr>" and tbl: "tables_mapped p m n k b"
    and repr: "cache_repr l (cache_chunks (cache_capacity (vl_page_size l0)) nf (entries_of (identity_pairs k)))"
    unfolding mapped_upto_def fs_def by blast
  have n: "n \<le> 476" using tbl by (simp add: tables_mapped_def pebtbl_ok_def)
  have km: "k < m" "k < n" "k < 476" using k n by simp_all
  let ?seg = "vl_segs l0 ! k" and ?peb = "sd_pebs (vl_segs l0 ! k) ! 0"
  have len: "length (vl_segs l0) = N" and one: "length (sd_pebs ?seg) = 1" "sd_pebs_capacity ?seg = 1"
    and leb: "pc_leb_id ?peb = of_nat k" and ty: "0 \<le> sd_seg_type ?seg" "sd_seg_type ?seg \<le> 3"
    using segs k(1) by (simp_all add: single_peb_segments_def)
  have pebs: "sd_pebs ?seg \<noteq> []" "(sd_pebs ?seg)[0 := x] = [x]" for x using one(1) by (cases "sd_pebs ?seg"; simp)+
  have wl: "portion_words l p N" using w by (simp add: l portion_words_def)
  have arr: "mt_fragments_array (vl_maptbl l) = Some (Some b # fs)" by (simp add: l)
  note place = first_place_at[OF wl arr tbl k(1) km(1,2)]
  define b' where "b' = leb_peb_buffer (first_place p m n k b) k (sd_seg_type ?seg)"
  define l1 where "l1 = l\<lparr>vl_maptbl := (vl_maptbl l)\<lparr>mt_fragments_array := Some (Some b' # fs)\<rparr>\<rparr>"
  have fresh: "peb_type_of b p k = 0" "peb_state_of b p k = 0" using tbl km by (simp_all add: tables_mapped_def)
  have map: "map_leb2peb l (of_nat k) (sd_seg_type ?seg) = Inr (of_nat k, l1)"
    using map_leb2peb_run[OF place(1), of k "sd_seg_type ?seg"] place(2) km fresh ty arr
    by (simp add: first_place_def mt_put_buffer_def l1_def b'_def[unfolded first_place_def])
  have repr1: "cache_repr l1 (cache_chunks (cache_capacity (vl_page_size l1)) nf (entries_of (identity_pairs k)))"
    using repr by (simp add: l1_def cache_repr_def l)
  have page: "vl_page_size l1 = vl_page_size l0" by (simp add: l1_def l)
  obtain l2 where l2: "cache_leb2peb_pair l1 (of_nat k) (of_nat k) = Inr l2"
    "cache_repr l2 (cache_chunks (cache_capacity (vl_page_size l0)) nf (entries_of (identity_pairs (Suc k))))"
    "l2 = l1\<lparr>vl_maptbl_cache := vl_maptbl_cache l2\<rparr>"
    using cache_identity_step[OF repr1 km(3)] k cap unfolding page by auto
  define l3 where "l3 = l2\<lparr>vl_segs := mapped_segs (Suc k) (vl_segs l0)\<rparr>"
  have nth: "mapped_segs k (vl_segs l0) ! k = ?seg" using k(1) len by (simp add: mapped_segs_def)
  have l2segs: "vl_segs l2 = mapped_segs k (vl_segs l0)" by (subst l2(3)) (simp add: l1_def l)
  have put: "put_peb l2 (int k) 0 (?peb\<lparr>pc_peb_id := of_nat k\<rparr>) = Inr l3"
    using k(1) len pebs
    by (simp add: put_peb_def l2segs nth l3_def mapped_segs_step mapped_seg_def nth_int_def upd_int_def nth_chk_def upd_chk_def)
  have max: "(of_nat k :: u64) \<noteq> U64_MAX" "unat (of_nat k :: u64) = k"
  proof -
    show u: "unat (of_nat k :: u64) = k" using km by (simp add: unat_of_nat)
    show "(of_nat k :: u64) \<noteq> U64_MAX"
    proof
      assume "(of_nat k :: u64) = U64_MAX"
      then have "unat (of_nat k :: u64) = 2 ^ 64 - 1" by (simp add: unat_minus_one_eq)
      then show False using km u by simp
    qed
  qed
  have at: "seg_at l (int k) = Inr ?seg" using k(1) len by (simp add: seg_at_def l nth nth_int_def nth_chk_def)
  have "map_segment_lebs2pebs (int k) l = Inr l3"
    using one pebs leb map l2(1) put max at
    by (simp add: map_segment_lebs2pebs_def for_res_one map_peb_def nth_chk_def)
  moreover have "mapped_upto l0 p m n nf (Suc k) l3"
    unfolding mapped_upto_def fs_def[symmetric]
  proof (intro conjI exI)
    show "l3 = l0\<lparr>vl_maptbl := (vl_maptbl l0)\<lparr>mt_fragments_array := Some (Some b' # fs)\<rparr>, vl_maptbl_cache := vl_maptbl_cache l2,
        vl_segs := mapped_segs (Suc k) (vl_segs l0)\<rparr>"
      unfolding l3_def by (subst l2(3)) (simp add: l1_def l)
    show "tables_mapped p m n (Suc k) b'" unfolding b'_def using w by (intro tables_mapped_step[OF tbl km(1,2)]) (simp add: portion_words_def)
    show "cache_repr l3 (cache_chunks (cache_capacity (vl_page_size l0)) nf (entries_of (identity_pairs (Suc k))))"
      using l2(2) by (simp add: l3_def cache_repr_def)
  qed
  ultimately show ?thesis by blast
qed

lemma map_allocated_steps:
  assumes upto: "mapped_upto l0 p m n nf 0 l" and segs: "single_peb_segments l0 N" and meta: "meta_in_order l0 N"
    and w: "portion_words l0 p N" and N: "N \<le> m" "N \<le> n" and cap: "N \<le> nf * cache_capacity (vl_page_size l0)"
  shows "\<exists>l'. map_allocated_lebs2pebs l = Inr l' \<and> mapped_upto l0 p m n nf N l'"
proof -
  let ?cnt = "\<lambda>i. md_segs_count (vl_meta_array l0 ! i)"
  define S where "S i = nat (\<Sum>k < i. ?cnt k)" for i :: nat
  have pos: "0 \<le> ?cnt i" if "i < 5" for i using meta that by (simp add: meta_in_order_def)
  have sum0: "0 \<le> (\<Sum>k < i. ?cnt k)" if "i \<le> 5" for i using that pos by (intro sum_nonneg) simp
  have S_Suc: "S (Suc i) = S i + nat (?cnt i)" if "i < 5" for i
    using sum0[of i] pos[OF that] that by (simp add: S_def nat_add_distrib)
  have S5: "S 5 = N" using meta by (simp add: S_def meta_in_order_def)
  have mono: "S i \<le> N" if "i \<le> 5" for i
  proof -
    have "(\<Sum>k < i. ?cnt k) \<le> (\<Sum>k < 5. ?cnt k)" using that pos by (intro sum_mono2) auto
    then show ?thesis unfolding S5[symmetric] S_def by (rule nat_mono)
  qed
  have start: "md_start_seg_index (vl_meta_array l0 ! i) = int (S i)" if "i < 5" for i
    using meta sum0[of i] that by (simp add: meta_in_order_def S_def)
  have keep: "vl_meta_array t = vl_meta_array l0" if "mapped_upto l0 p m n nf k t" for k t
    using that by (auto simp: mapped_upto_def)
  have step: "\<exists>t'. bnd (nth_chk (vl_meta_array t) i) (\<lambda>desc. for_res 0 (nat (md_segs_count desc))
        (\<lambda>j. map_segment_lebs2pebs (md_start_seg_index desc + int j)) t) = Inr t' \<and> mapped_upto l0 p m n nf (S (Suc i)) t'"
    if i: "i < 5" and t: "mapped_upto l0 p m n nf (S i) t" for i t
  proof -
    have "\<exists>t'. for_res 0 (nat (?cnt i)) (\<lambda>j. map_segment_lebs2pebs (int (S i) + int j)) t = Inr t' \<and>
        mapped_upto l0 p m n nf (S i + nat (?cnt i)) t'"
    proof (rule for_res_total[where I = "\<lambda>j. mapped_upto l0 p m n nf (S i + j)"])
      fix j t assume j: "j < nat (?cnt i)" and t: "mapped_upto l0 p m n nf (S i + j) t"
      have "S i + j < N" using mono[of "Suc i"] S_Suc[OF i] i j by simp
      from map_segment_step[OF t segs w this N cap]
      show "\<exists>t'. map_segment_lebs2pebs (int (S i) + int j) t = Inr t' \<and> mapped_upto l0 p m n nf (S i + Suc j) t'" by simp
    qed (use t in simp_all)
    then show ?thesis using keep[OF t] meta i S_Suc[OF i] by (simp add: start nth_chk_def meta_in_order_def)
  qed
  have "\<exists>l'. map_allocated_lebs2pebs l = Inr l' \<and> mapped_upto l0 p m n nf (S 5) l'"
    unfolding map_allocated_lebs2pebs_def
    using for_res_total[of 0 5 "\<lambda>i. mapped_upto l0 p m n nf (S i)", OF _ _ step] upto by (simp add: S_def)
  then show ?thesis by (simp add: S5)
qed

lemma single_peb_lebs:
  assumes "single_peb_segments l N" and "N < 2 ^ 31"
  shows "capacities_ok l" and "length (volume_lebs l) \<le> N" and "N < 476 \<Longrightarrow> length (volume_lebs l) = N"
proof -
  have one: "length (sd_pebs seg) = 1 \<and> sd_pebs_capacity seg = 1" if "seg \<in> set (vl_segs l)" for seg
    using assms(1) that by (auto simp: single_peb_segments_def in_set_conv_nth)
  show "capacities_ok l" using assms one by (auto simp: capacities_ok_def single_peb_segments_def)
  have "map (\<lambda>seg. map pc_leb_id (sd_pebs seg)) (vl_segs l) = map (\<lambda>j. [of_nat j]) [0..<N]"
  proof (rule nth_equalityI)
    show "length (map (\<lambda>seg. map pc_leb_id (sd_pebs seg)) (vl_segs l)) = length (map (\<lambda>j. [of_nat j :: u64]) [0..<N])"
      using assms(1) by (simp add: single_peb_segments_def)
  next
    fix j assume "j < length (map (\<lambda>seg. map pc_leb_id (sd_pebs seg)) (vl_segs l))"
    then have j: "j < N" using assms(1) by (simp add: single_peb_segments_def)
    then have "length (sd_pebs (vl_segs l ! j)) = 1" "pc_leb_id (sd_pebs (vl_segs l ! j) ! 0) = of_nat j" "j < length (vl_segs l)"
      using assms(1) by (simp_all add: single_peb_segments_def)
    then show "map (\<lambda>seg. map pc_leb_id (sd_pebs seg)) (vl_segs l) ! j = map (\<lambda>j. [of_nat j]) [0..<N] ! j"
      using j by (cases "sd_pebs (vl_segs l ! j)") auto
  qed
  then have lebs: "concat (map (\<lambda>seg. map pc_leb_id (sd_pebs seg)) (vl_segs l)) = map (\<lambda>j. of_nat j) [0..<N]"
    by (simp add: concat_map_singleton)
  show "length (volume_lebs l) \<le> N" unfolding volume_lebs_def lebs by (rule le_trans[OF length_filter_le]) simp
  show "length (volume_lebs l) = N" if "N < 476"
  proof -
    have "(of_nat j :: u64) \<noteq> U64_MAX" if "j < N" for j
    proof
      assume "(of_nat j :: u64) = U64_MAX"
      then have "unat (of_nat j :: u64) = 2 ^ 64 - 1" by (simp add: unat_minus_one_eq)
      then show False using that \<open>N < 476\<close> by (simp add: unat_of_nat)
    qed
    then show ?thesis unfolding volume_lebs_def lebs by (subst filter_True) auto
  qed
qed

text \<open>
  C3. The mapping table, its cache and the segment descriptors agree after \<^verbatim>\<open>mkfs\<close> has mapped the LEBs of a
  volume of fewer than 476 segments with one PEB each, whose LEBs are in the first portion and whose PEBs are in the
  first stripe of a mapping table in which nothing is mapped yet: the cache is created with room for every LEB,
  LEB \<open>j\<close> is mapped to PEB \<open>j\<close>, exactly the first \<open>N\<close> PEBs of the table are used, the cache holds the pairs \<open>(j, j)\<close>
  in order and the descriptor of segment \<open>j\<close> holds the PEB id \<open>j\<close>; no other member of the layout changes. With several
  PEBs in a segment the numbers need not agree, because the segment of the initial snapshot has one LEB only; there
  \<open>map_leb2peb_takes_first_unused\<close> says which PEB a LEB gets.
\<close>

theorem single_peb_lebs_mapped_to_equal_pebs:
  assumes segs: "single_peb_segments layout N" and meta: "meta_in_order layout N" and w: "portion_words layout p N"
    and arr: "mt_fragments_array (vl_maptbl layout) = Some (Some b # fs)" and tbl: "tables_mapped p m n 0 b"
    and N: "N \<le> m" "N \<le> n" "N < 476" and page: "4096 \<le> unat (vl_page_size layout)" "unat (vl_page_size layout) \<le> 32768"
    and alloc: "\<And>i. alloc_ok i"
  defines "cap \<equiv> cache_capacity (vl_page_size layout)"
  shows "\<exists>layout' b'. bnd (maptbl_cache_mkfs_prepare alloc_ok layout) map_allocated_lebs2pebs = Inr layout' \<and>
    layout' = layout\<lparr>vl_maptbl := (vl_maptbl layout)\<lparr>mt_fragments_array := Some (Some b' # fs)\<rparr>,
      vl_maptbl_cache := vl_maptbl_cache layout', vl_segs := mapped_segs N (vl_segs layout)\<rparr> \<and>
    tables_mapped p m n N b' \<and>
    cache_repr layout' (cache_chunks cap ((N + cap - 1) div cap) (entries_of (identity_pairs N)))"
proof -
  note v = single_peb_lebs[OF segs]
  have few: "length (volume_lebs layout) < 1000000" "length (volume_lebs layout) = N" "capacities_ok layout" using v N by simp_all
  obtain l1 where l1: "maptbl_cache_mkfs_prepare alloc_ok layout = Inr l1"
    "cache_repr l1 (replicate ((N + cap - 1) div cap) [])" "l1 = layout\<lparr>vl_maptbl_cache := vl_maptbl_cache l1\<rparr>"
    using cache_prepare_repr[where alloc_ok = alloc_ok, OF few(3) page few(1) alloc] unfolding few(2) cap_def by blast
  let ?nf = "(N + cap - 1) div cap"
  have "0 < cap" using page by (simp add: cap_def cache_capacity_def div_greater_zero_iff)
  then have fit: "N \<le> ?nf * cap" by (rule ceil_div_mult_ge)
  have tl: "tl (the (mt_fragments_array (vl_maptbl layout))) = fs" using arr by simp
  have "mapped_upto layout p m n ?nf 0 l1"
    unfolding mapped_upto_def tl
  proof (intro conjI exI)
    have "mapped_segs 0 (vl_segs layout) = vl_segs layout" by (simp add: mapped_segs_def map_nth)
    then show "l1 = layout\<lparr>vl_maptbl := (vl_maptbl layout)\<lparr>mt_fragments_array := Some (Some b # fs)\<rparr>,
        vl_maptbl_cache := vl_maptbl_cache l1, vl_segs := mapped_segs 0 (vl_segs layout)\<rparr>"
      using arr by (subst l1(3)) simp
    have "cache_chunks cap ?nf (entries_of (identity_pairs 0)) = replicate ?nf []"
      by (simp add: cache_chunks_def entries_of_def identity_pairs_def map_replicate_const)
    then show "cache_repr l1 (cache_chunks (cache_capacity (vl_page_size layout)) ?nf (entries_of (identity_pairs 0)))"
      using l1(2) by (simp add: cap_def[symmetric])
  qed (rule tbl)
  moreover have "N \<le> ?nf * cache_capacity (vl_page_size layout)" using fit by (simp add: cap_def)
  ultimately obtain l2 where l2: "map_allocated_lebs2pebs l1 = Inr l2" "mapped_upto layout p m n ?nf N l2"
    using map_allocated_steps[OF _ segs meta w N(1,2)] by blast
  from l2(2) obtain b' mc where r: "l2 = layout\<lparr>vl_maptbl := (vl_maptbl layout)\<lparr>mt_fragments_array := Some (Some b' # fs)\<rparr>,
      vl_maptbl_cache := mc, vl_segs := mapped_segs N (vl_segs layout)\<rparr>" "tables_mapped p m n N b'"
    "cache_repr l2 (cache_chunks cap ?nf (entries_of (identity_pairs N)))"
    unfolding mapped_upto_def cap_def tl by blast
  have "bnd (maptbl_cache_mkfs_prepare alloc_ok layout) map_allocated_lebs2pebs = Inr l2" using l1(1) l2(1) by simp
  moreover have "l2 = layout\<lparr>vl_maptbl := (vl_maptbl layout)\<lparr>mt_fragments_array := Some (Some b' # fs)\<rparr>,
      vl_maptbl_cache := vl_maptbl_cache l2, vl_segs := mapped_segs N (vl_segs layout)\<rparr>"
    by (subst r(1))+ simp
  ultimately show ?thesis using r(2,3) by blast
qed

section \<open>A small volume\<close>

definition sample_tables :: buf where
  "sample_tables = leb_hdr_image 0 2 0 0 40 @ replicate 4064 0xFF @ peb_hdr_image 0 2 0 0 0 304 @ replicate 4064 0"

definition mapping_seg :: "nat \<Rightarrow> ssdfs_segment_desc" where
  "mapping_seg j = \<lparr>sd_seg_type = int j, sd_seg_state = 0, sd_seg_id = of_nat j,
     sd_pebs = [\<lparr>pc_leb_id = of_nat j, pc_peb_id = U64_MAX, pc_extents = []\<rparr>], sd_pebs_count = 1, sd_pebs_capacity = 1\<rparr>"

definition mapping_volume :: ssdfs_volume_layout where
  "mapping_volume = mkfs_volume_layout\<lparr>
     vl_segs := [mapping_seg 0, mapping_seg 1], vl_segs_capacity := 2,
     vl_meta_array := [\<lparr>md_start_seg_index = 0, md_segs_count = 1, md_seg_state = 0\<rparr>,
       \<lparr>md_start_seg_index = 1, md_segs_count = 1, md_seg_state = 0\<rparr>, \<lparr>md_start_seg_index = 2, md_segs_count = 0, md_seg_state = 0\<rparr>,
       \<lparr>md_start_seg_index = 2, md_segs_count = 0, md_seg_state = 0\<rparr>, \<lparr>md_start_seg_index = 2, md_segs_count = 0, md_seg_state = 0\<rparr>],
     vl_maptbl := (vl_maptbl mkfs_volume_layout)\<lparr>mt_maptbl_pebs := 1, mt_lebtbl_portion_bytes := 4096,
       mt_lebs_per_portion := 2, mt_pebs_per_portion := 2, mt_fragments_array := Some [Some sample_tables]\<rparr>\<rparr>"

lemmas mapping_defs = mapping_volume_def mapping_seg_def mkfs_volume_layout_def

lemma sample_tables_mapped: "tables_mapped 4096 2 2 0 sample_tables"
proof -
  have page: "bytes_at sample_tables 4096 4096 = peb_hdr_image 0 2 0 0 0 304 @ replicate 4064 0"
    by (simp add: sample_tables_def bytes_at_def)
  note get = page_fields[OF page]
  have "lebtbl_ok sample_tables 0 2 0 0" by (simp add: lebtbl_ok_def sample_tables_def leb_hdr_fields)
  moreover have "pebtbl_ok sample_tables 4096 2 0"
    unfolding pebtbl_ok_def using get(2)[of 0] get(2)[of 16] get(2)[of 18] get(3)[of 28] get(4)[of 8]
    by (simp add: peb_hdr_fields) (simp add: sample_tables_def)
  moreover have "pebtbl_blank sample_tables 4096"
    using page bytes_at_bytes_at[of 32 4064 4096 sample_tables 4096] by (simp add: pebtbl_blank_def bytes_at_def)
  ultimately show ?thesis using blank_fields by (simp add: tables_mapped_def)
qed

lemma sample_portion: "portion_words mapping_volume 4096 2"
  by (simp add: portion_words_def mapping_defs)

lemma sample_segments: "single_peb_segments mapping_volume 2" "meta_in_order mapping_volume 2"
  by (simp_all add: single_peb_segments_def meta_in_order_def mapping_defs All_less_Suc numeral_eq_Suc lessThan_Suc)

lemma sample_array: "mt_fragments_array (vl_maptbl mapping_volume) = Some [Some sample_tables]"
  by (simp add: mapping_volume_def)

theorem map_leb2peb_takes_first_unused_witness:
  "\<exists>layout'. map_leb2peb mapping_volume 0 SSDFS_SEGBMAP = Inr (0, layout')"
proof -
  note tbl = sample_tables_mapped
  have at: "leb_at mapping_volume 0 (first_place 4096 2 2 0 sample_tables)"
    using first_place_at(1)[OF sample_portion sample_array tbl, of] by simp
  have free: "\<not> peb_used sample_tables 4096 k" "peb_type_of sample_tables 4096 k = 0" "peb_state_of sample_tables 4096 k = 0"
    if "k < 2" for k using tbl that by (simp_all add: tables_mapped_def)
  have fresh: "\<forall>k < lp_pebs (first_place 4096 2 2 0 sample_tables).
      \<not> peb_used (lp_buffer (first_place 4096 2 2 0 sample_tables)) (lp_pebtbl (first_place 4096 2 2 0 sample_tables)) k \<longrightarrow>
      peb_type_of (lp_buffer (first_place 4096 2 2 0 sample_tables)) (lp_pebtbl (first_place 4096 2 2 0 sample_tables)) k = 0 \<and>
      peb_state_of (lp_buffer (first_place 4096 2 2 0 sample_tables)) (lp_pebtbl (first_place 4096 2 2 0 sample_tables)) k = 0"
    using free by (simp add: first_place_def)
  obtain j where "j < 2" "\<forall>k < j. peb_used sample_tables 4096 k"
    "\<exists>layout'. map_leb2peb mapping_volume 0 SSDFS_SEGBMAP = Inr (of_nat j, layout')"
    using map_leb2peb_takes_first_unused[OF at _ _ fresh, of SSDFS_SEGBMAP] free(1)[of 0]
    by (auto simp: first_place_def split: if_splits)
  moreover have "j = 0" using calculation(2) free(1)[of 0] by (cases j) auto
  ultimately show ?thesis by simp
qed

theorem single_peb_lebs_mapped_to_equal_pebs_witness:
  "\<exists>layout' b'. bnd (maptbl_cache_mkfs_prepare (\<lambda>i. True) mapping_volume) map_allocated_lebs2pebs = Inr layout' \<and>
     tables_mapped 4096 2 2 2 b' \<and> map (\<lambda>seg. pc_peb_id (sd_pebs seg ! 0)) (vl_segs layout') = [0, 1]"
proof -
  have page: "4096 \<le> unat (vl_page_size mapping_volume)" "unat (vl_page_size mapping_volume) \<le> 32768"
    by (simp_all add: mapping_defs)
  obtain layout' b' where r: "bnd (maptbl_cache_mkfs_prepare (\<lambda>i. True) mapping_volume) map_allocated_lebs2pebs = Inr layout'"
    "layout' = mapping_volume\<lparr>vl_maptbl := (vl_maptbl mapping_volume)\<lparr>mt_fragments_array := Some [Some b']\<rparr>,
      vl_maptbl_cache := vl_maptbl_cache layout', vl_segs := mapped_segs 2 (vl_segs mapping_volume)\<rparr>" "tables_mapped 4096 2 2 2 b'"
    using single_peb_lebs_mapped_to_equal_pebs[OF sample_segments sample_portion sample_array sample_tables_mapped _ _ _ page, of "\<lambda>i. True"]
    by auto
  have "map (\<lambda>seg. pc_peb_id (sd_pebs seg ! 0)) (vl_segs layout') = [0, 1]"
    by (subst r(2)) (simp add: mapped_segs_def mapped_seg_def mapping_defs numeral_eq_Suc)
  with r(1,3) show ?thesis by (intro exI conjI)
qed

end
