(* ===== verification/DeviceOps.thy ===== *)
theory DeviceOps
  imports SsdfsCommon
begin

text \<open>
  The device operations of the three kinds of devices: \<^verbatim>\<open>lib/bdev_readwrite.c\<close>, \<^verbatim>\<open>lib/mtd_readwrite.c\<close> and
  \<^verbatim>\<open>lib/zns_readwrite.c\<close>, and their selection by \<^verbatim>\<open>struct ssdfs_device_ops\<close>.

  The device is the memory behind the file descriptor and a count of the complete reads and writes so far; what
  the kernel answers is the parameter \<open>os\<close>: the outcomes of the system calls of the \<open>k\<close>-th read or write, and the effect of
  an \<^verbatim>\<open>ioctl\<close> on the memory, \<open>None\<close> for a call that fails. The result of an operation is \<open>None\<close> when it does not return.
\<close>

record device =
  dv_file :: buf
  dv_calls :: nat

record os =
  os_io :: "nat \<Rightarrow> sys_io list"
  os_discard :: "buf \<Rightarrow> u64 \<Rightarrow> u64 \<Rightarrow> buf option"
  os_zeroout :: "buf \<Rightarrow> u64 \<Rightarrow> u64 \<Rightarrow> buf option"
  os_memerase :: "buf \<Rightarrow> u64 \<Rightarrow> u64 \<Rightarrow> buf option"
  os_memgetinfo :: "mtd_info_user option"
  os_bad_block :: "u64 \<Rightarrow> int"
  os_open_zone :: "u64 \<Rightarrow> u64 \<Rightarrow> bool"
  os_finish_zone :: "u64 \<Rightarrow> u64 \<Rightarrow> bool"
  os_reset_zone :: "buf \<Rightarrow> u64 \<Rightarrow> u64 \<Rightarrow> buf option"
  os_zone_sectors :: "u32 option"

record ssdfs_nand_geometry =
  ng_erasesize :: u32
  ng_writesize :: u32

abbreviation (input) SSDFS_PEB_ERASURE_OK :: int where "SSDFS_PEB_ERASURE_OK \<equiv> 0"
abbreviation (input) SSDFS_PEB_IS_BAD :: int where "SSDFS_PEB_IS_BAD \<equiv> 1"
abbreviation (input) SSDFS_RECOVERING_PEB :: int where "SSDFS_RECOVERING_PEB \<equiv> 2"

text \<open>A complete read or write of the device.\<close>

definition dev_pread :: "os \<Rightarrow> device \<Rightarrow> u64 \<Rightarrow> nat \<Rightarrow> (buf \<times> device) res option" where
  "dev_pread os dev offset n =
     obnd (ssdfs_pread (os_io os (dv_calls dev)) (dv_file dev) offset n) (\<lambda>data.
     Some (Inr (data, dev\<lparr>dv_calls := dv_calls dev + 1\<rparr>)))"

definition dev_pwrite :: "os \<Rightarrow> device \<Rightarrow> u64 \<Rightarrow> buf \<Rightarrow> device res option" where
  "dev_pwrite os dev offset data =
     obnd (ssdfs_pwrite (os_io os (dv_calls dev)) (dv_file dev) offset data) (\<lambda>file.
     Some (Inr (dev\<lparr>dv_file := file, dv_calls := dv_calls dev + 1\<rparr>)))"

section \<open>Block devices\<close>

definition bdev_read :: "os \<Rightarrow> device \<Rightarrow> u64 \<Rightarrow> nat \<Rightarrow> (buf \<times> device) res option" where
  "bdev_read = dev_pread"

definition bdev_write ::
  "os \<Rightarrow> device \<Rightarrow> ssdfs_nand_geometry \<Rightarrow> u64 \<Rightarrow> buf \<Rightarrow> u32 \<Rightarrow> (device \<times> u32) res option" where
  "bdev_write os dev info offset data zones =
     obnd (dev_pwrite os dev offset data) (\<lambda>dev. Some (Inr (dev, zones)))"

text \<open>The loop that writes the buffer until \<open>sz\<close> bytes are erased.\<close>

partial_function (option) bdev_erase_loop :: "os \<Rightarrow> device \<Rightarrow> u64 \<Rightarrow> u64 \<Rightarrow> buf \<Rightarrow> u64 \<Rightarrow> device res option" where
  "bdev_erase_loop os dev offset sz data erased_bytes =
     (case dev_pwrite os dev (offset + erased_bytes) data of
        None \<Rightarrow> None
      | Some r \<Rightarrow> (case r of
          Inl e \<Rightarrow> Some (Inl e)
        | Inr dev \<Rightarrow>
            if erased_bytes + of_nat (length data) < sz
            then bdev_erase_loop os dev offset sz data (erased_bytes + of_nat (length data))
            else Some (Inr dev)))"

definition bdev_erase :: "os \<Rightarrow> device \<Rightarrow> u64 \<Rightarrow> u64 \<Rightarrow> buf \<Rightarrow> device res option" where
  "bdev_erase os dev offset sz data =
     (case os_discard os (dv_file dev) offset sz of
        Some file \<Rightarrow> Some (Inr (dev\<lparr>dv_file := file\<rparr>))
      | None \<Rightarrow>
          (case os_zeroout os (dv_file dev) offset sz of
             Some file \<Rightarrow> Some (Inr (dev\<lparr>dv_file := file\<rparr>))
           | None \<Rightarrow> bdev_erase_loop os dev offset sz data 0))"

definition bdev_check_nand_geometry :: "ssdfs_nand_geometry \<Rightarrow> ssdfs_nand_geometry \<times> unit res" where
  "bdev_check_nand_geometry info = (info, Inl (Errno EOPNOTSUPP))"

definition bdev_check_peb :: "u64 \<Rightarrow> u32 \<Rightarrow> bool \<Rightarrow> int res" where
  "bdev_check_peb offset erase_bytes need_close_zone = Inl (Errno EOPNOTSUPP)"

section \<open>Raw flash\<close>

definition mtd_read :: "os \<Rightarrow> device \<Rightarrow> u64 \<Rightarrow> nat \<Rightarrow> (buf \<times> device) res option" where
  "mtd_read = dev_pread"

definition mtd_write ::
  "os \<Rightarrow> device \<Rightarrow> ssdfs_nand_geometry \<Rightarrow> u64 \<Rightarrow> buf \<Rightarrow> u32 \<Rightarrow> (device \<times> u32) res option" where
  "mtd_write os dev info offset data zones =
     obnd (dev_pwrite os dev offset data) (\<lambda>dev. Some (Inr (dev, zones)))"

text \<open>Below 4 GiB the request has 32-bit members; a failed request gives -1, which is -EPERM for the callers.\<close>

definition mtd_erase :: "os \<Rightarrow> device \<Rightarrow> u64 \<Rightarrow> u64 \<Rightarrow> device res" where
  "mtd_erase os dev offset sz =
     (let (start, len) =
        (if 0x100000000 \<le> offset then (offset, sz) else (ucast (ucast offset :: u32), ucast (ucast sz :: u32))) in
      case os_memerase os (dv_file dev) start len of
        None \<Rightarrow> Inl (Errno (LIB_CODE (- 1)))
      | Some file \<Rightarrow> Inr (dev\<lparr>dv_file := file\<rparr>))"

definition mtd_check_nand_geometry :: "os \<Rightarrow> ssdfs_nand_geometry \<Rightarrow> ssdfs_nand_geometry \<times> unit res" where
  "mtd_check_nand_geometry os info =
     (info,
      case os_memgetinfo os of
        None \<Rightarrow> Inl (Errno (LIB_CODE (- 1)))
      | Some meminfo \<Rightarrow>
          if erasesize meminfo \<noteq> ng_erasesize info then Inl (Errno EINVAL)
          else if writesize meminfo \<noteq> ng_writesize info then Inl (Errno EINVAL)
          else Inr ())"

definition mtd_check_peb :: "os \<Rightarrow> device \<Rightarrow> u64 \<Rightarrow> u32 \<Rightarrow> bool \<Rightarrow> (int \<times> device) res" where
  "mtd_check_peb os dev offset erase_bytes need_close_zone =
     (let r = os_bad_block os offset in
      if r < 0 then Inl (Errno (LIB_CODE r))
      else if 0 < r then Inr (SSDFS_PEB_IS_BAD, dev)
      else
        (case mtd_erase os dev offset (ucast erase_bytes) of
           Inl e \<Rightarrow> Inr (SSDFS_RECOVERING_PEB, dev)
         | Inr dev \<Rightarrow> Inr (SSDFS_PEB_ERASURE_OK, dev)))"

section \<open>Zoned devices\<close>

definition zns_read :: "os \<Rightarrow> device \<Rightarrow> u64 \<Rightarrow> nat \<Rightarrow> (buf \<times> device) res option" where
  "zns_read = dev_pread"

definition zns_write ::
  "os \<Rightarrow> device \<Rightarrow> ssdfs_nand_geometry \<Rightarrow> u64 \<Rightarrow> buf \<Rightarrow> u32 \<Rightarrow> (device \<times> u32) res option" where
  "zns_write os dev info offset data zones =
     obnd (Some (div_chk offset (ucast (ng_erasesize info)))) (\<lambda>q.
     let zone_start = q * ucast (ng_erasesize info) in
     obnd (if zone_start = offset \<or> offset = 1024 then
             if os_open_zone os (zone_start div 512) (ucast (ng_erasesize info div 512)) then Some (Inr (zones + 1))
             else Some (Inl (Errno EIO))
           else Some (Inr zones)) (\<lambda>zones.
     if zone_start + ucast (ng_erasesize info) < offset + of_nat (length data) then Some (Inl (Errno ERANGE))
     else obnd (dev_pwrite os dev offset data) (\<lambda>dev. Some (Inr (dev, zones)))))"

definition zns_erase :: "os \<Rightarrow> device \<Rightarrow> u64 \<Rightarrow> u64 \<Rightarrow> device res" where
  "zns_erase os dev offset sz =
     (case os_reset_zone os (dv_file dev) (offset div 512) ((sz + 512 - 1) div 512) of
        None \<Rightarrow> Inl (Errno EIO)
      | Some file \<Rightarrow> Inr (dev\<lparr>dv_file := file\<rparr>))"

text \<open>The geometry is corrected and -ENOENT is returned when it does not fit; \<^verbatim>\<open>sectors_per_zone * SSDFS_512B\<close> is a product of 32 bits.\<close>

definition zns_check_nand_geometry :: "os \<Rightarrow> ssdfs_nand_geometry \<Rightarrow> ssdfs_nand_geometry \<times> unit res" where
  "zns_check_nand_geometry os info =
     (case os_zone_sectors os of
        None \<Rightarrow> (info, Inl (Errno ERANGE))
      | Some sectors_per_zone \<Rightarrow>
          if sectors_per_zone = 0 then (info, Inl (Errno ERANGE))
          else
            let zone_size = (ucast (sectors_per_zone * 512 :: u32) :: u64) in
            if ucast U32_MAX \<le> zone_size then (info, Inl (Errno EOPNOTSUPP))
            else
              let bad = zone_size \<noteq> ucast (ng_erasesize info);
                  info = (if bad then info\<lparr>ng_erasesize := ucast zone_size\<rparr> else info) in
              case mod_chk zone_size (ucast (ng_writesize info)) of
                Inl e \<Rightarrow> (info, Inl e)
              | Inr r \<Rightarrow>
                  if r \<noteq> 0 then
                    (info\<lparr>ng_writesize :=
                       (if ng_writesize info \<le> 4096 then 4096 else if ng_writesize info \<le> 8192 then 8192
                        else if ng_writesize info \<le> 16384 then 16384 else 32768)\<rparr>, Inl (Errno ENOENT))
                  else (info, if bad then Inl (Errno ENOENT) else Inr ()))"

text \<open>The report of the zone that \<^verbatim>\<open>zns_check_peb\<close> prints in debug mode has no effect.\<close>

definition zns_check_peb :: "os \<Rightarrow> u64 \<Rightarrow> u32 \<Rightarrow> bool \<Rightarrow> int res" where
  "zns_check_peb os offset erase_bytes need_close_zone =
     (if need_close_zone \<and> \<not> os_finish_zone os (offset div 512) (ucast ((erase_bytes + 512 - 1) div 512)) then Inl (Errno EIO)
      else Inr 0)"

section \<open>Selection\<close>

text \<open>The calls through \<^verbatim>\<open>env->dev_ops\<close>; a missing table is a null pointer.\<close>

definition dev_write ::
  "os \<Rightarrow> dev_ops \<Rightarrow> device \<Rightarrow> ssdfs_nand_geometry \<Rightarrow> u64 \<Rightarrow> buf \<Rightarrow> u32 \<Rightarrow> (device \<times> u32) res option" where
  "dev_write os ops =
     (case ops of bdev_ops \<Rightarrow> bdev_write os | mtd_ops \<Rightarrow> mtd_write os | zns_ops \<Rightarrow> zns_write os
      | no_ops \<Rightarrow> (\<lambda>dev info offset data zones. Some (Inl Oob)))"

definition dev_erase :: "os \<Rightarrow> dev_ops \<Rightarrow> device \<Rightarrow> u64 \<Rightarrow> u64 \<Rightarrow> buf \<Rightarrow> device res option" where
  "dev_erase os ops dev offset sz data =
     (case ops of bdev_ops \<Rightarrow> bdev_erase os dev offset sz data | mtd_ops \<Rightarrow> Some (mtd_erase os dev offset sz)
      | zns_ops \<Rightarrow> Some (zns_erase os dev offset sz) | no_ops \<Rightarrow> Some (Inl Oob))"

definition dev_check_nand_geometry :: "os \<Rightarrow> dev_ops \<Rightarrow> ssdfs_nand_geometry \<Rightarrow> ssdfs_nand_geometry \<times> unit res" where
  "dev_check_nand_geometry os ops info =
     (case ops of bdev_ops \<Rightarrow> bdev_check_nand_geometry info | mtd_ops \<Rightarrow> mtd_check_nand_geometry os info
      | zns_ops \<Rightarrow> zns_check_nand_geometry os info | no_ops \<Rightarrow> (info, Inl Oob))"

definition dev_check_peb :: "os \<Rightarrow> dev_ops \<Rightarrow> device \<Rightarrow> u64 \<Rightarrow> u32 \<Rightarrow> bool \<Rightarrow> (int \<times> device) res" where
  "dev_check_peb os ops dev offset erase_bytes need_close_zone =
     (case ops of
        bdev_ops \<Rightarrow> bnd (bdev_check_peb offset erase_bytes need_close_zone) (\<lambda>r. Inr (r, dev))
      | mtd_ops \<Rightarrow> mtd_check_peb os dev offset erase_bytes need_close_zone
      | zns_ops \<Rightarrow> bnd (zns_check_peb os offset erase_bytes need_close_zone) (\<lambda>r. Inr (r, dev))
      | no_ops \<Rightarrow> Inl Oob)"

end
