(* ===== verification/MkfsSuperblock.thy ===== *)
theory MkfsSuperblock
  imports MkfsLog
begin

text \<open>
  \<^verbatim>\<open>sbin/mkfs.ssdfs/superblock_segment.c\<close> and \<^verbatim>\<open>sbin/mkfs.ssdfs/initial_snapshot.c\<close>: the static part of the
  superblock (the volume header), the changeable part (the volume state), the roots of the b-trees in
  both, the root folder, and the layout and commit of the superblock segments and of the snapshot
  segment.

  The two parts are the buffers \<open>sb_vh\<close> and \<open>sb_vs\<close> of the layout; \<open>F16 off v\<close> is the assignment of
  \<open>v\<close> to the 16-bit field at offset \<open>off\<close>.
\<close>

section \<open>Fields\<close>

datatype field = F8 nat u8 | F16 nat u16 | F32 nat u32 | F64 nat u64 | FB nat buf

primrec store_field :: "field \<Rightarrow> buf \<Rightarrow> buf res" where
  "store_field (F8 off v) b = wr8 b off v"
| "store_field (F16 off v) b = wr16 b off v"
| "store_field (F32 off v) b = wr32 b off v"
| "store_field (F64 off v) b = wr64 b off v"
| "store_field (FB off v) b = wr b off v"

definition store_fields :: "field list \<Rightarrow> buf \<Rightarrow> buf res" where
  "store_fields = fold_res store_field"

definition put_vh :: "ssdfs_volume_layout \<Rightarrow> buf \<Rightarrow> ssdfs_volume_layout" where
  "put_vh layout b = layout\<lparr>vl_sb := (vl_sb layout)\<lparr>sb_vh := b\<rparr>\<rparr>"

definition put_vs :: "ssdfs_volume_layout \<Rightarrow> buf \<Rightarrow> ssdfs_volume_layout" where
  "put_vs layout b = layout\<lparr>vl_sb := (vl_sb layout)\<lparr>sb_vs := b\<rparr>\<rparr>"

definition vh_fields :: "field list \<Rightarrow> ssdfs_volume_layout \<Rightarrow> ssdfs_volume_layout res" where
  "vh_fields fs layout = bnd (store_fields fs (sb_vh (vl_sb layout))) (\<lambda>b. Inr (put_vh layout b))"

definition vs_fields :: "field list \<Rightarrow> ssdfs_volume_layout \<Rightarrow> ssdfs_volume_layout res" where
  "vs_fields fs layout = bnd (store_fields fs (sb_vs (vl_sb layout))) (\<lambda>b. Inr (put_vs layout b))"

text \<open>
  \<^verbatim>\<open>ilog2\<close> of \<^verbatim>\<open>include/kerncompat.h\<close> is \<^verbatim>\<open>ffs(n) - 1\<close>: the index of the lowest bit that is set, -1 for zero. Its argument is
  an \<^verbatim>\<open>int\<close>.
\<close>

definition ilog2 :: "u32 \<Rightarrow> int" where
  "ilog2 n = int (ffs n) - 1"

definition feature_flag :: "nat \<Rightarrow> u64 \<Rightarrow> ssdfs_volume_layout \<Rightarrow> ssdfs_volume_layout res" where
  "feature_flag off flag layout =
     bnd (rd64 (sb_vs (vl_sb layout)) off) (\<lambda>flags. vs_fields [F64 off (flags OR flag)] layout)"

section \<open>Options of the volume\<close>

definition sb_mkfs_allocation_policy :: "ssdfs_volume_layout \<Rightarrow> (ssdfs_volume_layout \<times> int \<times> int) res" where
  "sb_mkfs_allocation_policy layout =
     (let segs = (2 + 1) * 2 in
      bnd (nth_int (vl_meta_array layout) SSDFS_SUPERBLOCK) (\<lambda>desc.
      bnd (upd_int (vl_meta_array layout) SSDFS_SUPERBLOCK
             (desc\<lparr>md_segs_count := segs, md_seg_state := SSDFS_DEDICATED_SEGMENT\<rparr>)) (\<lambda>arr.
      Inr (layout\<lparr>vl_meta_array := arr\<rparr>, segs, SSDFS_DEDICATED_SEGMENT))))"

definition define_compression_option :: "ssdfs_volume_layout \<Rightarrow> ssdfs_volume_layout res" where
  "define_compression_option layout =
     feature_flag 0x40
       (if vl_compression layout = SSDFS_ZLIB_BLOB then 1
        else if vl_compression layout = SSDFS_LZO_BLOB then 2
        else if vl_compression layout = SSDFS_LZ4_BLOB then 4
        else if vl_compression layout = SSDFS_ZSTD_BLOB then 8
        else 0) layout"

text \<open>The flags and the compression type of an area: the two functions differ in the place of the result.\<close>

definition area_options :: "bool \<Rightarrow> int \<Rightarrow> (u16 \<times> u8) res" where
  "area_options has_backup_copy compression =
     (let flags = (if has_backup_copy then 1 else 0) in
      if compression = SSDFS_UNCOMPRESSED_BLOB then Inr (flags, 0)
      else if compression = SSDFS_ZLIB_BLOB then Inr (flags OR 2, 1)
      else if compression = SSDFS_LZO_BLOB then Inr (flags OR 2, 2)
      else if compression = SSDFS_LZ4_BLOB then Inr (flags OR 2, 3)
      else if compression = SSDFS_ZSTD_BLOB then Inr (flags OR 2, 4)
      else Inl (Errno ERANGE))"

definition prepare_block_bitmap_options :: "ssdfs_volume_layout \<Rightarrow> ssdfs_volume_layout res" where
  "prepare_block_bitmap_options layout =
     bnd (area_options (bb_has_backup_copy (vl_blkbmap layout)) (bb_compression (vl_blkbmap layout))) (\<lambda>(flags, compression).
     vs_fields [F16 0x9C flags, F8 0x9E compression] layout)"

definition prepare_blk2off_table_options :: "ssdfs_volume_layout \<Rightarrow> ssdfs_volume_layout res" where
  "prepare_blk2off_table_options layout =
     bnd (area_options (bt_has_backup_copy (vl_blk2off_tbl layout)) (bt_compression (vl_blk2off_tbl layout))) (\<lambda>(flags, compression).
     vs_fields [F16 0xA0 flags, F8 0xA2 compression] layout)"

text \<open>
  The size of the logs of b-tree nodes. The three functions differ in the member of the layout and in the field
  of the volume header. The remainder is computed for a warning only, but it fails for zero.
\<close>

definition node_log_pages :: "u32 \<Rightarrow> u32 \<Rightarrow> u16 \<Rightarrow> u16 res" where
  "node_log_pages erase_bytes page_bytes requested =
     bnd (div_chk erase_bytes page_bytes) (\<lambda>pages_per_peb.
     let log_pages = min pages_per_peb SSDFS_LOG_MAX_PAGES in
     bnd (BUG_ON (ucast U16_MAX \<le> log_pages)) (\<lambda>_.
     bnd (if requested = U16_MAX then Inr (ucast log_pages)
          else
            let node_pages = (if pages_per_peb < ucast requested then ucast log_pages else requested) in
            bnd (mod_chk pages_per_peb (ucast node_pages)) (\<lambda>_. Inr node_pages)) (\<lambda>node_pages.
     let log_pages = min (max (ucast node_pages) (pages_per_peb div SSDFS_LOGS_PER_PEB_DEFAULT)) SSDFS_LOG_MAX_PAGES in
     bnd (BUG_ON (ucast U16_MAX \<le> log_pages)) (\<lambda>_.
     Inr (ucast log_pages)))))"

definition sb_set_lnodes_log_pages :: "ssdfs_volume_layout \<Rightarrow> ssdfs_volume_layout res" where
  "sb_set_lnodes_log_pages layout =
     bnd (node_log_pages (erase_size (vl_env layout)) (vl_page_size layout) (bl_lnode_log_pages (vl_btree layout))) (\<lambda>n.
     vh_fields [F16 0x1D6 n] (layout\<lparr>vl_btree := (vl_btree layout)\<lparr>bl_lnode_log_pages := n\<rparr>\<rparr>))"

definition sb_set_hnodes_log_pages :: "ssdfs_volume_layout \<Rightarrow> ssdfs_volume_layout res" where
  "sb_set_hnodes_log_pages layout =
     bnd (node_log_pages (erase_size (vl_env layout)) (vl_page_size layout) (bl_hnode_log_pages (vl_btree layout))) (\<lambda>n.
     vh_fields [F16 0x1D8 n] (layout\<lparr>vl_btree := (vl_btree layout)\<lparr>bl_hnode_log_pages := n\<rparr>\<rparr>))"

definition sb_set_inodes_log_pages :: "ssdfs_volume_layout \<Rightarrow> ssdfs_volume_layout res" where
  "sb_set_inodes_log_pages layout =
     bnd (node_log_pages (erase_size (vl_env layout)) (vl_page_size layout) (bl_inode_log_pages (vl_btree layout))) (\<lambda>n.
     vh_fields [F16 0x1DA n] (layout\<lparr>vl_btree := (vl_btree layout)\<lparr>bl_inode_log_pages := n\<rparr>\<rparr>))"

section \<open>Descriptors of the b-trees\<close>

text \<open>
  The functions that prepare a descriptor differ in where it lies (\<open>bp_state\<close>: in the volume state, \<open>bp_off\<close>), in
  the values below and in what they do with a node size that is no multiple of the page size: only the tree of invalidated
  extents refuses it (\<open>bp_refuse\<close>), the others correct it in the layout.
\<close>

record btree_kind =
  bp_state :: bool
  bp_off :: nat
  bp_magic :: u32
  bp_flags :: u16
  bp_type :: u8
  bp_item_size :: u16
  bp_min_area :: u16
  bp_refuse :: bool

definition tree_fields :: "btree_kind \<Rightarrow> field list \<Rightarrow> ssdfs_volume_layout \<Rightarrow> ssdfs_volume_layout res" where
  "tree_fields kind = (if bp_state kind then vs_fields else vh_fields)"

definition correct_node_size :: "btree_kind \<Rightarrow> ssdfs_volume_layout \<Rightarrow> ssdfs_volume_layout res" where
  "correct_node_size kind layout =
     (let node_size = bl_node_size (vl_btree layout); pagesize = vl_page_size layout in
     bnd (if node_size < pagesize then Inr True else bnd (mod_chk node_size pagesize) (\<lambda>r. Inr (r \<noteq> 0))) (\<lambda>bad.
     if \<not> bad then Inr layout
     else if bp_refuse kind then Inl (Errno ERANGE)
     else Inr (layout\<lparr>vl_btree := (vl_btree layout)\<lparr>bl_node_size := pagesize\<rparr>\<rparr>)))"

definition btree_desc_prepare :: "btree_kind \<Rightarrow> ssdfs_volume_layout \<Rightarrow> ssdfs_volume_layout res" where
  "btree_desc_prepare kind layout =
     (let d = bp_off kind; node_ptr_size = (32 :: u16) in
     bnd (tree_fields kind [F32 d (bp_magic kind), F16 (d + 4) (bp_flags kind), F8 (d + 6) (bp_type kind)] layout) (\<lambda>layout.
     bnd (fail_if (bl_node_size (vl_btree layout) \<le> 0 \<or> ucast U16_MAX \<le> bl_node_size (vl_btree layout)) ERANGE) (\<lambda>_.
     bnd (correct_node_size kind layout) (\<lambda>layout.
     let node_size = bl_node_size (vl_btree layout); erase_bytes = erase_size (vl_env layout) in
     bnd (if erase_bytes \<le> node_size then Inr True else bnd (mod_chk erase_bytes node_size) (\<lambda>r. Inr (r \<noteq> 0))) (\<lambda>bad.
     bnd (fail_if bad ERANGE) (\<lambda>_.
     bnd (div_chk node_size (vl_page_size layout)) (\<lambda>pages.
     bnd (tree_fields kind
           [F8 (d + 7) (of_int (ilog2 node_size)), F8 (d + 8) (ucast pages), F8 (d + 9) (ucast node_ptr_size),
            F16 (d + 10) 32, F16 (d + 12) (bp_item_size kind)] layout) (\<lambda>layout.
     let min_area = (if bl_min_index_area_size (vl_btree layout) = 0 then bp_min_area kind
                     else bl_min_index_area_size (vl_btree layout)) in
     bnd (fail_if (min_area \<le> node_ptr_size \<or> min_area mod node_ptr_size \<noteq> 0) ERANGE) (\<lambda>_.
     bnd (fail_if (node_size div 2 \<le> ucast min_area) ERANGE) (\<lambda>_.
     tree_fields kind [F16 (d + 14) min_area] layout))))))))))"

definition dentries_kind :: btree_kind where
  "dentries_kind = \<lparr>bp_state = False, bp_off = 0x1E0, bp_magic = 0x44654274, bp_flags = 1, bp_type = 2, bp_item_size = 32,
     bp_min_area = 256, bp_refuse = False\<rparr>"

definition extents_kind :: btree_kind where
  "extents_kind = \<lparr>bp_state = False, bp_off = 0x200, bp_magic = 0x45784274, bp_flags = 1, bp_type = 3, bp_item_size = 64,
     bp_min_area = 256, bp_refuse = False\<rparr>"

definition xattrs_kind :: btree_kind where
  "xattrs_kind = \<lparr>bp_state = False, bp_off = 0x220, bp_magic = 0x45414274, bp_flags = 1, bp_type = 5, bp_item_size = 64,
     bp_min_area = 256, bp_refuse = False\<rparr>"

definition inodes_kind :: btree_kind where
  "inodes_kind = \<lparr>bp_state = True, bp_off = 0x200, bp_magic = 0x496E4274, bp_flags = 0, bp_type = 1, bp_item_size = 256,
     bp_min_area = 256, bp_refuse = False\<rparr>"

definition shared_extents_kind :: btree_kind where
  "shared_extents_kind = \<lparr>bp_state = True, bp_off = 0x280, bp_magic = 0x53454274, bp_flags = 1, bp_type = 4, bp_item_size = 64,
     bp_min_area = 256, bp_refuse = False\<rparr>"

definition shared_dict_kind :: btree_kind where
  "shared_dict_kind = \<lparr>bp_state = True, bp_off = 0x300, bp_magic = 0x53446963, bp_flags = 1, bp_type = 7, bp_item_size = 255,
     bp_min_area = 256, bp_refuse = False\<rparr>"

definition snapshots_kind :: btree_kind where
  "snapshots_kind = \<lparr>bp_state = True, bp_off = 0x380, bp_magic = 0x536E4274, bp_flags = 1, bp_type = 8, bp_item_size = 64,
     bp_min_area = 256, bp_refuse = False\<rparr>"

definition invext_kind :: btree_kind where
  "invext_kind = \<lparr>bp_state = False, bp_off = 0x240, bp_magic = 0x49784274, bp_flags = 1, bp_type = 9, bp_item_size = 16,
     bp_min_area = 256, bp_refuse = True\<rparr>"

text \<open>The descriptors in the volume header are cleared first; the trees with a root are filled with 0xFF by their callers.\<close>

definition sb_dentries_btree_desc_prepare :: "ssdfs_volume_layout \<Rightarrow> ssdfs_volume_layout res" where
  "sb_dentries_btree_desc_prepare layout = bnd (vh_fields [FB 0x1E0 (replicate 32 0)] layout) (btree_desc_prepare dentries_kind)"

definition sb_extents_btree_desc_prepare :: "ssdfs_volume_layout \<Rightarrow> ssdfs_volume_layout res" where
  "sb_extents_btree_desc_prepare layout = bnd (vh_fields [FB 0x200 (replicate 32 0)] layout) (btree_desc_prepare extents_kind)"

definition sb_xattrs_btree_desc_prepare :: "ssdfs_volume_layout \<Rightarrow> ssdfs_volume_layout res" where
  "sb_xattrs_btree_desc_prepare layout = bnd (vh_fields [FB 0x220 (replicate 32 0)] layout) (btree_desc_prepare xattrs_kind)"

definition sb_inodes_btree_desc_prepare :: "ssdfs_volume_layout \<Rightarrow> ssdfs_volume_layout res" where
  "sb_inodes_btree_desc_prepare = btree_desc_prepare inodes_kind"

definition sb_shared_extents_btree_desc_prepare :: "ssdfs_volume_layout \<Rightarrow> ssdfs_volume_layout res" where
  "sb_shared_extents_btree_desc_prepare = btree_desc_prepare shared_extents_kind"

definition sb_shared_dict_btree_desc_prepare :: "ssdfs_volume_layout \<Rightarrow> ssdfs_volume_layout res" where
  "sb_shared_dict_btree_desc_prepare = btree_desc_prepare shared_dict_kind"

definition sb_snapshots_btree_desc_prepare :: "ssdfs_volume_layout \<Rightarrow> ssdfs_volume_layout res" where
  "sb_snapshots_btree_desc_prepare = btree_desc_prepare snapshots_kind"

definition sb_invext_btree_desc_prepare :: "ssdfs_volume_layout \<Rightarrow> ssdfs_volume_layout res" where
  "sb_invext_btree_desc_prepare = btree_desc_prepare invext_kind"

section \<open>Roots of the b-trees\<close>

text \<open>The header of \<^verbatim>\<open>struct ssdfs_btree_inline_root_node\<close> at 0x40 of a tree.\<close>

definition root_node :: "btree_kind \<Rightarrow> ssdfs_volume_layout \<Rightarrow> ssdfs_volume_layout res" where
  "root_node kind =
     (let r = bp_off kind + 0x40 in
      tree_fields kind [F8 r 0, F8 (r + 1) 0, F8 (r + 2) 0, F8 (r + 3) 1, F32 (r + 4) 0, F32 (r + 8) U32_MAX, F32 (r + 12) U32_MAX])"

definition sb_inodes_btree_prepare_root_node :: "ssdfs_volume_layout \<Rightarrow> ssdfs_volume_layout res" where
  "sb_inodes_btree_prepare_root_node = root_node inodes_kind"

definition sb_shared_extents_btree_prepare_root_node :: "ssdfs_volume_layout \<Rightarrow> ssdfs_volume_layout res" where
  "sb_shared_extents_btree_prepare_root_node = root_node shared_extents_kind"

definition sb_shared_dict_btree_prepare_root_node :: "ssdfs_volume_layout \<Rightarrow> ssdfs_volume_layout res" where
  "sb_shared_dict_btree_prepare_root_node = root_node shared_dict_kind"

definition sb_snapshots_btree_prepare_root_node :: "ssdfs_volume_layout \<Rightarrow> ssdfs_volume_layout res" where
  "sb_snapshots_btree_prepare_root_node = root_node snapshots_kind"

definition sb_invext_btree_prepare_root_node :: "ssdfs_volume_layout \<Rightarrow> ssdfs_volume_layout res" where
  "sb_invext_btree_prepare_root_node = root_node invext_kind"

section \<open>The root folder and the trees\<close>

text \<open>What the process gets from the system: the ids of the user, the times, a generated UUID.\<close>

record host_env =
  he_uid :: u32
  he_gid :: u32
  he_time :: u64
  he_ctime :: u64
  he_uuid :: buf

text \<open>The two entries of the root folder, at 0x80 and 0xA0 of its inode.\<close>

definition dot_entry :: "nat \<Rightarrow> nat \<Rightarrow> field list" where
  "dot_entry de dots =
     [F64 de 16, F64 (de + 8) 0, F8 (de + 16) (of_nat dots), F8 (de + 17) 1, F8 (de + 18) 2, F8 (de + 19) 0,
      FB (de + 20) (replicate dots 0x2E @ replicate (12 - dots) 0)]"

definition root_folder_fields :: "host_env \<Rightarrow> u32 \<Rightarrow> field list" where
  "root_folder_fields env page_bytes =
     [F16 0xB0 0x6469, F16 0xB2 0x41ED, F32 0xB4 0, F32 0xB8 (he_uid env), F32 0xBC (he_gid env),
      F64 0xC0 (he_time env), F64 0xC8 (he_time env), F64 0xD0 (he_time env), F64 0xD8 (he_time env),
      F32 0xE0 0, F32 0xE4 0, F32 0xE8 0, F32 0xEC 0,
      F64 0xF0 0, F64 0xF8 (ucast page_bytes), F64 0x100 1, F64 0x108 16, F32 0x110 2,
      F64 0x118 16, F64 0x120 0, F16 0x128 0, F16 0x12A 4, F32 0x12C 2] @ dot_entry 0x130 1 @ dot_entry 0x150 2"

definition sb_prepare_root_folder :: "crc_fun \<Rightarrow> host_env \<Rightarrow> ssdfs_volume_layout \<Rightarrow> ssdfs_volume_layout res" where
  "sb_prepare_root_folder crc32 env layout =
     bnd (vs_fields (root_folder_fields env (vl_page_size layout)) layout) (\<lambda>layout.
     bnd (vs_fields [F32 0x114 0] layout) (\<lambda>layout.
     bnd (ssdfs_crc32_le (crc32 0) (sb_vs (vl_sb layout)) 0xB0 256) (\<lambda>csum.
     vs_fields [F32 0x114 csum] layout)))"

definition SSDFS_HAS_SHARED_EXTENTS_COMPAT_FLAG :: u64 where "SSDFS_HAS_SHARED_EXTENTS_COMPAT_FLAG = 4"
definition SSDFS_HAS_SHARED_DICT_COMPAT_FLAG :: u64 where "SSDFS_HAS_SHARED_DICT_COMPAT_FLAG = 16"
definition SSDFS_HAS_INODES_TREE_COMPAT_FLAG :: u64 where "SSDFS_HAS_INODES_TREE_COMPAT_FLAG = 32"
definition SSDFS_HAS_SNAPSHOTS_TREE_COMPAT_FLAG :: u64 where "SSDFS_HAS_SNAPSHOTS_TREE_COMPAT_FLAG = 64"
definition SSDFS_HAS_INVALID_EXTENTS_TREE_COMPAT_FLAG :: u64 where "SSDFS_HAS_INVALID_EXTENTS_TREE_COMPAT_FLAG = 128"

definition sb_prepare_inodes_btree :: "crc_fun \<Rightarrow> host_env \<Rightarrow> ssdfs_volume_layout \<Rightarrow> ssdfs_volume_layout res" where
  "sb_prepare_inodes_btree crc32 env layout =
     bnd (vs_fields [FB 0x200 (replicate 128 0xFF)] layout) (\<lambda>layout.
     bnd (sb_inodes_btree_desc_prepare layout) (\<lambda>layout.
     bnd (vs_fields [F64 0x210 1, F64 0x218 0, F64 0x220 1, F32 0x228 0, F32 0x22C 1, F64 0x230 16] layout) (\<lambda>layout.
     bnd (sb_inodes_btree_prepare_root_node layout) (\<lambda>layout.
     bnd (sb_prepare_root_folder crc32 env layout)
       (feature_flag 0x38 SSDFS_HAS_INODES_TREE_COMPAT_FLAG)))))"

definition sb_prepare_shared_extents_btree :: "ssdfs_volume_layout \<Rightarrow> ssdfs_volume_layout res" where
  "sb_prepare_shared_extents_btree layout =
     bnd (vs_fields [FB 0x280 (replicate 128 0xFF)] layout) (\<lambda>layout.
     bnd (sb_shared_extents_btree_desc_prepare layout) (\<lambda>layout.
     bnd (sb_shared_extents_btree_prepare_root_node layout)
       (feature_flag 0x38 SSDFS_HAS_SHARED_EXTENTS_COMPAT_FLAG)))"

definition sb_prepare_shared_dict_btree :: "ssdfs_volume_layout \<Rightarrow> ssdfs_volume_layout res" where
  "sb_prepare_shared_dict_btree layout =
     bnd (vs_fields [FB 0x300 (replicate 128 0xFF)] layout) (\<lambda>layout.
     bnd (sb_shared_dict_btree_desc_prepare layout) (\<lambda>layout.
     bnd (sb_shared_dict_btree_prepare_root_node layout)
       (feature_flag 0x38 SSDFS_HAS_SHARED_DICT_COMPAT_FLAG)))"

definition sb_prepare_snapshots_btree :: "ssdfs_volume_layout \<Rightarrow> ssdfs_volume_layout res" where
  "sb_prepare_snapshots_btree layout =
     bnd (vs_fields [FB 0x380 (replicate 128 0xFF)] layout) (\<lambda>layout.
     bnd (sb_snapshots_btree_desc_prepare layout) (\<lambda>layout.
     bnd (sb_snapshots_btree_prepare_root_node layout)
       (feature_flag 0x38 SSDFS_HAS_SNAPSHOTS_TREE_COMPAT_FLAG)))"

definition sb_prepare_invext_btree :: "ssdfs_volume_layout \<Rightarrow> ssdfs_volume_layout res" where
  "sb_prepare_invext_btree layout =
     bnd (vh_fields [FB 0x240 (replicate 128 0xFF)] layout) (\<lambda>layout.
     bnd (sb_invext_btree_desc_prepare layout) (\<lambda>layout.
     bnd (sb_invext_btree_prepare_root_node layout)
       (feature_flag 0x38 SSDFS_HAS_INVALID_EXTENTS_TREE_COMPAT_FLAG)))"

section \<open>The volume header and the volume state\<close>

text \<open>The geometry of the volume header: the fields that depend on the kind of the device and the flags.\<close>

definition device_geometry :: "device_type \<Rightarrow> u32 \<Rightarrow> u32 \<Rightarrow> u32 \<Rightarrow> (field list \<times> u32) res" where
  "device_geometry dev erase_bytes megabytes_per_peb pebs_per_seg =
     (let log_erasesize = (of_int (ilog2 erase_bytes) :: u8);
          fields = [F8 0x11 log_erasesize, F16 0x14 (ucast megabytes_per_peb), F16 0x16 (ucast pebs_per_seg)] in
      case dev of
        SSDFS_MTD_DEVICE \<Rightarrow> Inr (fields, 0)
      | SSDFS_BLK_DEVICE \<Rightarrow> Inr (fields, 0)
      | SSDFS_ZNS_DEVICE \<Rightarrow>
          Inr (fields, if 0 < megabytes_per_peb \<and> push_bit (unat log_erasesize) 1 \<noteq> erase_bytes then 3 else 1)
      | SSDFS_DEVICE_TYPE_MAX \<Rightarrow> Inl Bug)"

definition signature_fields :: "field list" where
  "signature_fields = [F32 0 0x53734466, F8 6 1, F8 7 20]"

definition volume_header_fields :: "host_env \<Rightarrow> ssdfs_volume_layout \<Rightarrow> (field list) res" where
  "volume_header_fields env layout =
     (let erase_bytes = erase_size (vl_env layout) in
     bnd (div_chk (vl_seg_size layout) (ucast erase_bytes)) (\<lambda>q.
     let pebs_per_seg = (ucast q :: u32); megabytes_per_peb = erase_bytes div 1048576 in
     bnd (fail_if (ucast U16_MAX \<le> pebs_per_seg) ERANGE) (\<lambda>_.
     bnd (fail_if (ucast U16_MAX \<le> megabytes_per_peb) ERANGE) (\<lambda>_.
     bnd (device_geometry (env_device_type (vl_env layout)) erase_bytes megabytes_per_peb pebs_per_seg) (\<lambda>(geometry, flags).
     let create_threads_per_seg = min (vl_nand_dies_count layout) pebs_per_seg in
     bnd (BUG_ON (ucast U16_MAX \<le> create_threads_per_seg)) (\<lambda>_.
     Inr (signature_fields @
          [F8 0x10 (of_int (ilog2 (vl_page_size layout))), F8 0x12 (of_int (ilog2 (ucast (vl_seg_size layout)))),
           F8 0x13 (of_int (ilog2 pebs_per_seg))] @ geometry @
          [F32 0x28 flags, F32 0x2C (vl_lebs_per_peb_index layout), F16 0x1DE (ucast create_threads_per_seg),
           F64 0x18 (vl_create_timestamp layout), F64 0x20 (vl_create_cno layout), FB 0x2C0 (vl_uuid layout)])))))))"

definition volume_state_fields :: "ssdfs_volume_layout \<Rightarrow> (field list) res" where
  "volume_state_fields layout =
     bnd (div_chk (fs_size (vl_env layout)) (vl_seg_size layout)) (\<lambda>segs_count.
     Inr (signature_fields @
          [F64 0x10 segs_count, F64 0x20 (vl_create_timestamp layout), F64 0x28 (vl_create_cno layout),
           F32 0x30 1, F16 0x34 1, F16 0x36 1, FB 0x50 (vl_uuid layout), FB 0x60 (vl_volume_label layout),
           FB 0x70 (replicate 40 0xFF), F16 0x98 (vl_migration_threshold layout)]))"

definition sb_mkfs_prepare :: "crc_fun \<Rightarrow> host_env \<Rightarrow> ssdfs_volume_layout \<Rightarrow> ssdfs_volume_layout res" where
  "sb_mkfs_prepare crc32 env layout =
     bnd (reserve_segments layout SSDFS_SUPERBLOCK) (\<lambda>layout.
     let layout = layout\<lparr>vl_create_timestamp := ssdfs_current_time_in_nanoseconds (he_ctime env), vl_create_cno := 0,
                         vl_uuid := he_uuid env\<rparr> in
     bnd (volume_header_fields env layout) (\<lambda>fields.
     bnd (vh_fields fields layout) (\<lambda>layout.
     bnd (sb_set_lnodes_log_pages layout) (\<lambda>layout.
     bnd (sb_set_hnodes_log_pages layout) (\<lambda>layout.
     bnd (sb_set_inodes_log_pages layout) (\<lambda>layout.
     bnd (sb_dentries_btree_desc_prepare layout) (\<lambda>layout.
     bnd (sb_extents_btree_desc_prepare layout) (\<lambda>layout.
     bnd (sb_xattrs_btree_desc_prepare layout) (\<lambda>layout.
     bnd (volume_state_fields layout) (\<lambda>fields.
     bnd (vs_fields fields layout) (\<lambda>layout.
     bnd (define_compression_option layout) (\<lambda>layout.
     bnd (prepare_block_bitmap_options layout) (\<lambda>layout.
     bnd (prepare_blk2off_table_options layout) (\<lambda>layout.
     bnd (sb_prepare_inodes_btree crc32 env layout) (\<lambda>layout.
     bnd (sb_prepare_shared_extents_btree layout) (\<lambda>layout.
     bnd (sb_prepare_shared_dict_btree layout) (\<lambda>layout.
     bnd (sb_prepare_snapshots_btree layout)
       sb_prepare_invext_btree)))))))))))))))))"

definition sb_mkfs_validate :: "ssdfs_volume_layout \<Rightarrow> ssdfs_volume_layout res" where
  "sb_mkfs_validate layout =
     bnd (div_chk (fs_size (vl_env layout)) (vl_seg_size layout)) (\<lambda>segs_count.
     let free_segs = segs_count - of_int (vl_segs_capacity layout) in
     bnd (div_chk (vl_seg_size layout) (ucast (vl_page_size layout))) (\<lambda>q.
     let pages_per_seg = (ucast q :: u32) in
     vs_fields [F64 0x18 (free_segs * ucast pages_per_seg)] layout))"

definition sb_set_log_pages :: "ssdfs_volume_layout \<Rightarrow> u32 \<Rightarrow> ssdfs_volume_layout res" where
  "sb_set_log_pages layout blks =
     bnd (BUG_ON (blks = 0)) (\<lambda>_.
     bnd (BUG_ON (blks = ucast U16_MAX)) (\<lambda>_.
     bnd (div_chk (erase_size (vl_env layout)) (vl_page_size layout)) (\<lambda>pages_per_peb.
     let blks = min blks SSDFS_LOG_MAX_PAGES in
     bnd (BUG_ON (pages_per_peb < blks div 2)) (\<lambda>_.
     bnd (BUG_ON (ucast U16_MAX \<le> blks)) (\<lambda>_.
     vh_fields [F16 0x1D0 (ucast blks)] (layout\<lparr>vl_sb := (vl_sb layout)\<lparr>sb_log_pages := ucast blks\<rparr>\<rparr>))))))"

section \<open>Layout of the superblock segments\<close>

text \<open>The loop that copies the pages of the mapping table cache into the memory of the extent.\<close>

definition copy_cache_page :: "ssdfs_volume_layout \<Rightarrow> nat \<Rightarrow> buf \<Rightarrow> buf res" where
  "copy_cache_page layout k mem =
     bnd (deref (mc_fragments_array (vl_maptbl_cache layout))) (\<lambda>fs.
     bnd (nth_chk fs k) (\<lambda>sptr.
     bnd (BUG_ON (sptr = None)) (\<lambda>_.
     bnd (deref sptr) (\<lambda>src.
     bnd (rd src 0 (unat (vl_page_size layout))) (\<lambda>page.
     wr mem (unat (of_nat k * vl_page_size layout)) page)))))"

text \<open>
  The extent of the cache. What \<^verbatim>\<open>malloc\<close> returns is written as zeros; the copies overwrite all of it as long as
  its size does not wrap around.
\<close>

definition place_maptbl_cache :: "(nat \<Rightarrow> bool) \<Rightarrow> ssdfs_volume_layout \<Rightarrow> int \<Rightarrow> ssdfs_volume_layout res" where
  "place_maptbl_cache alloc_ok layout seg_index =
     (let cache = vl_maptbl_cache layout; fragments = mc_fragments_count cache in
     bnd (peb_at layout seg_index 0) (\<lambda>peb.
     let extent = extent_of peb SSDFS_MAPTBL_CACHE in
     bnd (BUG_ON (ext_buf extent \<noteq> None)) (\<lambda>_.
     bnd (BUG_ON (mc_fragment_size cache \<noteq> ucast (vl_page_size layout))) (\<lambda>_.
     bnd (fail_if (\<not> alloc_ok 4) ENOMEM) (\<lambda>_.
     bnd (for_res 0 (unat fragments) (copy_cache_page layout) (replicate (unat (fragments * vl_page_size layout)) 0)) (\<lambda>mem.
     let extent = extent\<lparr>ext_buf := Some mem, ext_bytes_count := mc_bytes_count cache\<rparr>;
         header = extent_of peb SSDFS_SEG_HEADER;
         extent = (if mc_bytes_count cache \<le> inline_capacity (vl_page_size layout)
                   then extent\<lparr>ext_offset := ext_offset header + ext_bytes_count header\<rparr> else extent) in
     put_peb layout seg_index 0 (put_extent peb SSDFS_MAPTBL_CACHE extent)))))))"

definition open_single_peb :: "ssdfs_volume_layout \<Rightarrow> int \<Rightarrow> ssdfs_volume_layout res" where
  "open_single_peb layout seg_index =
     bnd (nth_int (vl_segs layout) seg_index) (\<lambda>seg.
     bnd (upd_int (vl_segs layout) seg_index (seg\<lparr>sd_pebs_count := 1\<rparr>)) (\<lambda>ss.
     bnd (BUG_ON (sd_pebs_capacity seg < 1)) (\<lambda>_.
     Inr (layout\<lparr>vl_segs := ss\<rparr>))))"

definition define_sb_log :: "(nat \<Rightarrow> bool) \<Rightarrow> int \<Rightarrow> ssdfs_volume_layout \<times> u32 \<Rightarrow> (ssdfs_volume_layout \<times> u32) res" where
  "define_sb_log alloc_ok seg_index = (\<lambda>(layout, log_pages).
     let layout = layout\<lparr>vl_calculated_open_zones := vl_calculated_open_zones layout + 1\<rparr>; st = SSDFS_SB_SEG_TYPE in
     bnd (open_single_peb layout seg_index) (\<lambda>layout.
     bnd (place_extent layout st seg_index 0 SSDFS_SEG_HEADER) (\<lambda>layout.
     bnd (define_segment_header_layout (alloc_ok 0) layout seg_index 0) (\<lambda>layout.
     bnd (place_extent layout st seg_index 0 SSDFS_MAPTBL_CACHE) (\<lambda>layout.
     bnd (place_maptbl_cache alloc_ok layout seg_index) (\<lambda>layout.
     bnd (place_extent layout st seg_index 0 SSDFS_LOG_FOOTER) (\<lambda>layout.
     bnd (define_log_footer_layout (alloc_ok 6) layout seg_index 0) (\<lambda>layout.
     bnd (peb_at layout seg_index 0) (\<lambda>peb.
     bnd (calculate_log_pages layout st peb) (\<lambda>blks.
     Inr (layout, max blks log_pages)))))))))))"

text \<open>Only the segments of phase 0 (\<^verbatim>\<open>SSDFS_CUR_SB_SEG\<close>) get a log; \<^verbatim>\<open>seg_index\<close> counts all of them.\<close>

definition define_sb_phase ::
  "(int \<Rightarrow> nat \<Rightarrow> bool) \<Rightarrow> nat \<Rightarrow> ssdfs_volume_layout \<times> u32 \<times> int \<Rightarrow> (ssdfs_volume_layout \<times> u32 \<times> int) res" where
  "define_sb_phase alloc_ok i =
     for_res 0 2 (\<lambda>j (layout, log_pages, seg_index).
       if i \<noteq> 0 then Inr (layout, log_pages, seg_index + 1)
       else bnd (define_sb_log (alloc_ok seg_index) seg_index (layout, log_pages)) (\<lambda>(layout, log_pages).
         Inr (layout, log_pages, seg_index + 1)))"

definition sb_segs_check :: "ssdfs_volume_layout \<Rightarrow> ssdfs_metadata_desc \<Rightarrow> unit res" where
  "sb_segs_check layout desc =
     bnd (fail_if (md_segs_count desc \<le> 0 \<or> 4 * 2 < md_segs_count desc) ERANGE) (\<lambda>_.
     fail_if (vl_segs_capacity layout \<le> md_start_seg_index desc) ERANGE)"

definition drop_cache_page :: "nat \<Rightarrow> ssdfs_volume_layout \<Rightarrow> ssdfs_volume_layout res" where
  "drop_cache_page k layout =
     bnd (deref (mc_fragments_array (vl_maptbl_cache layout))) (\<lambda>fs.
     bnd (upd_chk fs k None) (\<lambda>fs.
     Inr (layout\<lparr>vl_maptbl_cache := (vl_maptbl_cache layout)\<lparr>mc_fragments_array := Some fs\<rparr>\<rparr>)))"

definition sb_mkfs_define_layout :: "(int \<Rightarrow> nat \<Rightarrow> bool) \<Rightarrow> ssdfs_volume_layout \<Rightarrow> ssdfs_volume_layout res" where
  "sb_mkfs_define_layout alloc_ok layout =
     bnd (nth_int (vl_meta_array layout) SSDFS_SUPERBLOCK) (\<lambda>desc.
     bnd (sb_segs_check layout desc) (\<lambda>_.
     bnd (fail_if (vl_segs_capacity layout < vl_segs_count layout + md_segs_count desc) E2BIG) (\<lambda>_.
     bnd (for_res 0 3 (define_sb_phase alloc_ok) (layout, 0, md_start_seg_index desc)) (\<lambda>(layout, log_pages, seg_index).
     bnd (for_res 0 (unat (mc_fragments_count (vl_maptbl_cache layout))) drop_cache_page layout) (\<lambda>layout.
     sb_set_log_pages layout log_pages)))))"

definition commit_sb_log :: "crc_fun \<Rightarrow> int \<Rightarrow> u16 \<Rightarrow> ssdfs_volume_layout \<Rightarrow> ssdfs_volume_layout res" where
  "commit_sb_log crc32 seg_index seg_type layout =
     bnd (pre_commit_segment_header layout seg_index 0 seg_type) (\<lambda>layout.
     bnd (pre_commit_log_footer layout seg_index 0) (\<lambda>layout.
     bnd (peb_at layout seg_index 0) (\<lambda>peb.
     bnd (calculate_log_pages layout (uint seg_type) peb) (\<lambda>blks.
     bnd (commit_log_footer crc32 layout seg_index 0 blks) (\<lambda>layout.
     commit_segment_header crc32 layout seg_index 0 blks)))))"

definition commit_sb_phase :: "crc_fun \<Rightarrow> nat \<Rightarrow> ssdfs_volume_layout \<times> int \<Rightarrow> (ssdfs_volume_layout \<times> int) res" where
  "commit_sb_phase crc32 i =
     for_res 0 2 (\<lambda>j (layout, seg_index).
       if i \<noteq> 0 then Inr (layout, seg_index + 1)
       else bnd (commit_sb_log crc32 seg_index 1 layout) (\<lambda>layout. Inr (layout, seg_index + 1)))"

definition sb_mkfs_commit :: "crc_fun \<Rightarrow> ssdfs_volume_layout \<Rightarrow> ssdfs_volume_layout res" where
  "sb_mkfs_commit crc32 layout =
     bnd (nth_int (vl_meta_array layout) SSDFS_SUPERBLOCK) (\<lambda>desc.
     bnd (sb_segs_check layout desc) (\<lambda>_.
     bnd (for_res 0 3 (commit_sb_phase crc32) (layout, md_start_seg_index desc)) (\<lambda>(layout, seg_index).
     Inr (layout\<lparr>vl_segs_count := vl_segs_count layout + md_segs_count desc\<rparr>))))"

section \<open>The snapshot segment\<close>

definition snap_mkfs_allocation_policy :: "ssdfs_volume_layout \<Rightarrow> (ssdfs_volume_layout \<times> int \<times> int) res" where
  "snap_mkfs_allocation_policy layout =
     bnd (nth_int (vl_meta_array layout) SSDFS_INITIAL_SNAPSHOT) (\<lambda>desc.
     bnd (upd_int (vl_meta_array layout) SSDFS_INITIAL_SNAPSHOT
            (desc\<lparr>md_segs_count := 1, md_seg_state := SSDFS_DEDICATED_SEGMENT\<rparr>)) (\<lambda>arr.
     Inr (layout\<lparr>vl_meta_array := arr\<rparr>, 1, SSDFS_DEDICATED_SEGMENT)))"

definition snap_mkfs_prepare :: "ssdfs_volume_layout \<Rightarrow> ssdfs_volume_layout res" where
  "snap_mkfs_prepare layout = reserve_segments layout SSDFS_INITIAL_SNAPSHOT"

definition snap_segs_check :: "ssdfs_volume_layout \<Rightarrow> ssdfs_metadata_desc \<Rightarrow> unit res" where
  "snap_segs_check layout desc =
     bnd (fail_if (md_segs_count desc \<le> 0 \<or> 1 < md_segs_count desc) ERANGE) (\<lambda>_.
     fail_if (vl_segs_capacity layout \<le> md_start_seg_index desc) ERANGE)"

text \<open>The header of the first segment of the volume lies behind the reserved boot record.\<close>

definition skip_boot_record :: "ssdfs_volume_layout \<Rightarrow> int \<Rightarrow> ssdfs_volume_layout res" where
  "skip_boot_record layout seg_index =
     bnd (peb_at layout seg_index 0) (\<lambda>peb.
     let extent = extent_of peb SSDFS_SEG_HEADER in
     put_peb layout seg_index 0 (put_extent peb SSDFS_SEG_HEADER (extent\<lparr>ext_offset := ext_offset extent + 1024\<rparr>)))"

definition snap_mkfs_define_layout :: "(nat \<Rightarrow> bool) \<Rightarrow> ssdfs_volume_layout \<Rightarrow> ssdfs_volume_layout res" where
  "snap_mkfs_define_layout alloc_ok layout =
     bnd (nth_int (vl_meta_array layout) SSDFS_INITIAL_SNAPSHOT) (\<lambda>desc.
     bnd (snap_segs_check layout desc) (\<lambda>_.
     bnd (fail_if (vl_segs_capacity layout < vl_segs_count layout + md_segs_count desc) E2BIG) (\<lambda>_.
     let seg_index = md_start_seg_index desc; st = SSDFS_INITIAL_SNAPSHOT_SEG_TYPE in
     bnd (open_single_peb layout seg_index) (\<lambda>layout.
     bnd (place_extent layout st seg_index 0 SSDFS_SEG_HEADER) (\<lambda>layout.
     bnd (skip_boot_record layout seg_index) (\<lambda>layout.
     bnd (define_segment_header_layout (alloc_ok 0) layout seg_index 0) (\<lambda>layout.
     bnd (place_extent layout st seg_index 0 SSDFS_LOG_FOOTER) (\<lambda>layout.
     define_log_footer_layout (alloc_ok 6) layout seg_index 0))))))))"

definition snap_mkfs_commit :: "crc_fun \<Rightarrow> ssdfs_volume_layout \<Rightarrow> ssdfs_volume_layout res" where
  "snap_mkfs_commit crc32 layout =
     bnd (nth_int (vl_meta_array layout) SSDFS_INITIAL_SNAPSHOT) (\<lambda>desc.
     bnd (snap_segs_check layout desc) (\<lambda>_.
     bnd (commit_sb_log crc32 (md_start_seg_index desc) 2 layout) (\<lambda>layout.
     Inr (layout\<lparr>vl_segs_count := vl_segs_count layout + md_segs_count desc\<rparr>))))"

end
