(* ===== verification/Options.thy ===== *)
theory Options
  imports Prelude "HOL-Library.Char_ord"
begin

text \<open>
  Parsing of command lines. The first part is what the programs use of the C library: \<^verbatim>\<open>getopt_long\<close> of glibc with its
  permutation of the operands, \<^verbatim>\<open>getsubopt\<close>, \<^verbatim>\<open>atoi\<close>, \<^verbatim>\<open>atol\<close> and \<^verbatim>\<open>strncasecmp\<close>. The second part is the helpers of
  \<^verbatim>\<open>include/ssdfs_tools.h\<close>: the granularity of a size and the admissible page, segment and erase block sizes.

  A string is a list of characters without its terminating zero; the null pointer is \<open>None\<close>.
\<close>

section \<open>Exits\<close>

text \<open>
  A parser returns or ends the program. \<open>ABORTED\<close> is the end by a signal: an assertion, or an access through a null pointer.
\<close>

datatype exit_status = EXIT_SUCCESS | EXIT_FAILURE | ABORTED fault

type_synonym 'a parsed = "exit_status + 'a"

definition pbnd :: "'a parsed \<Rightarrow> ('a \<Rightarrow> 'b parsed) \<Rightarrow> 'b parsed" where
  "pbnd m f = (case m of Inl e \<Rightarrow> Inl e | Inr x \<Rightarrow> f x)"

lemma pbnd_simps [simp]: "pbnd (Inl e) f = Inl e" "pbnd (Inr x) f = f x"
  by (simp_all add: pbnd_def)

lemma pbnd_eq_Inr: "pbnd m f = Inr y \<longleftrightarrow> (\<exists>x. m = Inr x \<and> f x = Inr y)"
  by (cases m) simp_all

text \<open>\<^verbatim>\<open>print_usage(); exit(EXIT_FAILURE);\<close>\<close>

definition usage_if :: "bool \<Rightarrow> unit parsed" where
  "usage_if c = (if c then Inl EXIT_FAILURE else Inr ())"

lemma usage_if_eq_Inr [simp]: "usage_if c = Inr u \<longleftrightarrow> \<not> c"
  by (simp add: usage_if_def)

text \<open>A string the program dereferences without looking.\<close>

definition argument :: "string option \<Rightarrow> string parsed" where
  "argument s = (case s of None \<Rightarrow> Inl (ABORTED Oob) | Some s \<Rightarrow> Inr s)"

lemma argument_eq_Inr [simp]: "argument s = Inr x \<longleftrightarrow> s = Some x"
  by (cases s) (simp_all add: argument_def)

fun parse_all :: "('a \<Rightarrow> 's \<Rightarrow> 's parsed) \<Rightarrow> 'a list \<Rightarrow> 's \<Rightarrow> 's parsed" where
  "parse_all f [] s = Inr s"
| "parse_all f (x # xs) s = pbnd (f x s) (parse_all f xs)"

lemma parse_all_inv:
  assumes "parse_all f xs s = Inr s'" and "I s" and "\<And>x s s'. x \<in> set xs \<Longrightarrow> f x s = Inr s' \<Longrightarrow> I s \<Longrightarrow> I s'"
  shows "I s'"
  using assms by (induction xs arbitrary: s) (auto simp: pbnd_eq_Inr)

section \<open>Numbers\<close>

definition isspace :: "char \<Rightarrow> bool" where
  "isspace c \<longleftrightarrow> c = CHR '' '' \<or> (9 \<le> (of_char c :: nat) \<and> (of_char c :: nat) \<le> 13)"

definition isdigit :: "char \<Rightarrow> bool" where
  "isdigit c \<longleftrightarrow> 48 \<le> (of_char c :: nat) \<and> (of_char c :: nat) \<le> 57"

definition digits_value :: "string \<Rightarrow> int" where
  "digits_value s = foldl (\<lambda>v c. 10 * v + (of_char c - 48)) 0 (takeWhile isdigit s)"

text \<open>\<^verbatim>\<open>strtol(s, NULL, 10)\<close>, which \<^verbatim>\<open>atoi\<close>, \<^verbatim>\<open>atol\<close> and \<^verbatim>\<open>atoll\<close> of glibc call; \<^verbatim>\<open>long\<close> has 64 bits.\<close>

definition strtol :: "string \<Rightarrow> int" where
  "strtol s =
     (let s = dropWhile isspace s;
          v = (case s of
                 [] \<Rightarrow> 0
               | c # cs \<Rightarrow>
                   if c = CHR ''-'' then - digits_value cs else if c = CHR ''+'' then digits_value cs else digits_value s) in
      max (- (2 ^ 63)) (min (2 ^ 63 - 1) v))"

definition atol :: "string \<Rightarrow> int" where
  "atol s = strtol s"

definition atoi :: "string \<Rightarrow> int" where
  "atoi s = signed_take_bit 31 (strtol s)"

definition numeric :: "string option \<Rightarrow> int parsed" where
  "numeric s = pbnd (argument s) (\<lambda>s. Inr (atoi s))"

lemma numeric_eq_Inr: "numeric s = Inr v \<longleftrightarrow> (\<exists>x. s = Some x \<and> v = atoi x)"
  by (auto simp: numeric_def pbnd_eq_Inr)

lemma atoi_range: "- (2 ^ 31) \<le> atoi s" "atoi s < 2 ^ 31"
  unfolding atoi_def by (rule signed_take_bit_int_greater_eq_minus_exp, rule signed_take_bit_int_less_exp)

section \<open>Options\<close>

text \<open>
  The description of the short options is the string of \<^verbatim>\<open>getopt\<close>: a letter, followed by a colon when it takes an argument.
  A long option is its name, whether it takes an argument, and the letter it stands for. The result of a call of
  \<^verbatim>\<open>getopt_long\<close> is the letter, a question mark for an error, and \<^verbatim>\<open>optarg\<close>.
\<close>

fun takes_arg :: "string \<Rightarrow> char \<Rightarrow> bool option" where
  "takes_arg [] c = None"
| "takes_arg (x # xs) c = (if x = c \<and> c \<noteq> CHR '':'' then Some (take 1 xs = '':'') else takes_arg xs c)"

type_synonym getopt_event = "char \<times> string option"

fun short_options :: "string \<Rightarrow> string \<Rightarrow> string list \<Rightarrow> getopt_event list \<times> string list" where
  "short_options sopts [] args = ([], args)"
| "short_options sopts (c # cs) args =
     (case takes_arg sopts c of
        None \<Rightarrow> (let (es, r) = short_options sopts cs args in ((CHR ''?'', None) # es, r))
      | Some False \<Rightarrow> (let (es, r) = short_options sopts cs args in ((c, None) # es, r))
      | Some True \<Rightarrow>
          if cs \<noteq> [] then ([(c, Some cs)], args)
          else (case args of [] \<Rightarrow> ([(CHR ''?'', None)], []) | a # args \<Rightarrow> ([(c, Some a)], args)))"

type_synonym long_opt = "string \<times> bool \<times> char"

text \<open>A name that is not complete has to be the start of one option only.\<close>

definition find_long :: "long_opt list \<Rightarrow> string \<Rightarrow> (bool \<times> char) option" where
  "find_long lopts n =
     (case find (\<lambda>opt. fst opt = n) lopts of
        Some opt \<Rightarrow> Some (snd opt)
      | None \<Rightarrow> (case filter (\<lambda>opt. take (length n) (fst opt) = n) lopts of [opt] \<Rightarrow> Some (snd opt) | _ \<Rightarrow> None))"

definition long_option :: "long_opt list \<Rightarrow> string \<Rightarrow> string list \<Rightarrow> getopt_event \<times> string list" where
  "long_option lopts s args =
     (let n = takeWhile (\<lambda>c. c \<noteq> CHR ''='') s; v = dropWhile (\<lambda>c. c \<noteq> CHR ''='') s in
      case find_long lopts n of
        None \<Rightarrow> ((CHR ''?'', None), args)
      | Some (False, c) \<Rightarrow> (if v = [] then (c, None) else (CHR ''?'', None), args)
      | Some (True, c) \<Rightarrow>
          if v \<noteq> [] then ((c, Some (tl v)), args)
          else (case args of [] \<Rightarrow> ((CHR ''?'', None), []) | a # args \<Rightarrow> ((c, Some a), args)))"

lemma short_options_rest: "length (snd (short_options sopts cs args)) \<le> length args"
  by (induction sopts cs args rule: short_options.induct) (auto split: option.splits list.splits prod.splits bool.splits)

lemma long_option_rest: "length (snd (long_option lopts s args)) \<le> length args"
  by (auto simp: long_option_def Let_def split: option.splits list.splits prod.splits bool.splits)

text \<open>The results of all calls until the end of the options, and the operands in their order.\<close>

function getopt_long :: "string \<Rightarrow> long_opt list \<Rightarrow> string list \<Rightarrow> getopt_event list \<times> string list" where
  "getopt_long sopts lopts [] = ([], [])"
| "getopt_long sopts lopts (a # args) =
     (if a = ''--'' then ([], args)
      else if take 2 a = ''--'' then
        (let p = long_option lopts (drop 2 a) args; q = getopt_long sopts lopts (snd p) in (fst p # fst q, snd q))
      else if take 1 a = ''-'' \<and> 1 < length a then
        (let p = short_options sopts (tl a) args; q = getopt_long sopts lopts (snd p) in (fst p @ fst q, snd q))
      else (let q = getopt_long sopts lopts args in (fst q, a # snd q)))"
  by pat_completeness auto
termination
  by (relation "measure (\<lambda>(s, l, args). length args)") (auto simp: less_Suc_eq_le short_options_rest long_option_rest)

section \<open>Suboptions\<close>

fun token_index :: "string list \<Rightarrow> string \<Rightarrow> nat option" where
  "token_index [] n = None"
| "token_index (t # ts) n = (if t = n then Some 0 else map_option Suc (token_index ts n))"

text \<open>\<^verbatim>\<open>getsubopt\<close> on a string that is not empty: the index of the token, its value and the rest of the string.\<close>

definition getsubopt :: "string list \<Rightarrow> string \<Rightarrow> nat option \<times> string option \<times> string" where
  "getsubopt tokens p =
     (let sub = takeWhile (\<lambda>c. c \<noteq> CHR '','') p; n = takeWhile (\<lambda>c. c \<noteq> CHR ''='') sub;
          v = dropWhile (\<lambda>c. c \<noteq> CHR ''='') sub in
      (token_index tokens n, if v = [] then None else Some (tl v), drop (Suc (length sub)) p))"

lemma getsubopt_rest: "p \<noteq> [] \<Longrightarrow> getsubopt tokens p = (i, v, r) \<Longrightarrow> length r < length p"
  by (auto simp: getsubopt_def Let_def)

text \<open>The loop over the suboptions of an argument; an unknown one shows the usage and ends the program.\<close>

function suboptions :: "string list \<Rightarrow> (nat \<Rightarrow> string option \<Rightarrow> 's \<Rightarrow> 's parsed) \<Rightarrow> string \<Rightarrow> 's \<Rightarrow> 's parsed" where
  "suboptions tokens f p s =
     (if p = [] then Inr s
      else case getsubopt tokens p of
        (None, v, r) \<Rightarrow> Inl EXIT_FAILURE
      | (Some i, v, r) \<Rightarrow> pbnd (f i v s) (suboptions tokens f r))"
  by pat_completeness auto
termination
  by (relation "measure (\<lambda>(t, f, p, s). length p)") (auto dest: getsubopt_rest[OF _ sym])

declare suboptions.simps [simp del]

lemma suboptions_inv:
  assumes "suboptions tokens f p s = Inr s'" and "I s" and "\<And>i v s s'. f i v s = Inr s' \<Longrightarrow> I s \<Longrightarrow> I s'"
  shows "I s'"
  using assms
proof (induction tokens f p s rule: suboptions.induct)
  case (1 tokens f p s)
  show ?case
  proof (cases "p = []")
    case True
    with 1(2,3) show ?thesis by (simp add: suboptions.simps[of _ _ "[]"])
  next
    case False
    obtain i v r where g: "getsubopt tokens p = (i, v, r)" by (cases "getsubopt tokens p")
    obtain j where j: "i = Some j" using 1(2) False g by (cases i) (simp_all add: suboptions.simps[of _ _ p])
    obtain s1 where "f j v s = Inr s1" "suboptions tokens f r s1 = Inr s'"
      using 1(2) False g j by (auto simp: suboptions.simps[of _ _ p] pbnd_eq_Inr)
    with 1(1)[OF False g[symmetric]] 1(3,4) j show ?thesis by blast
  qed
qed

section \<open>Sizes\<close>

definition tolower :: "char \<Rightarrow> char" where
  "tolower c = (if 65 \<le> (of_char c :: nat) \<and> (of_char c :: nat) \<le> 90 then char_of ((of_char c :: nat) + 32) else c)"

text \<open>Whether \<^verbatim>\<open>check_string\<close> returns 0: the first string starts with the second one, in any case of the letters.\<close>

definition check_string :: "string \<Rightarrow> string \<Rightarrow> bool" where
  "check_string str1 str2 \<longleftrightarrow> map tolower (take (length str2) str1) = map tolower str2"

text \<open>The string of 256 bytes is \<^verbatim>\<open>265B\<close> in \<^verbatim>\<open>include/ssdfs_constants.h\<close>; 4 GiB is not in the chain of comparisons.\<close>

definition granularities :: "(string \<times> u64) list" where
  "granularities =
     [(''265B'', 256), (''512B'', 512), (''1KB'', 1024), (''2KB'', 2048), (''4KB'', 4096), (''8KB'', 8192),
      (''16KB'', 16384), (''32KB'', 32768), (''64KB'', 65536), (''128KB'', 131072), (''256KB'', 262144),
      (''512KB'', 524288), (''1MB'', 1048576), (''2MB'', 2097152), (''4MB'', 4194304), (''8MB'', 8388608),
      (''16MB'', 16777216), (''32MB'', 33554432), (''64MB'', 67108864), (''128MB'', 134217728),
      (''256MB'', 268435456), (''512MB'', 536870912), (''1GB'', 1073741824), (''2GB'', 2147483648),
      (''8GB'', 8589934592), (''16GB'', 17179869184), (''32GB'', 34359738368), (''64GB'', 68719476736)]"

definition detect_granularity :: "string \<Rightarrow> u64" where
  "detect_granularity str =
     (case find (\<lambda>g. check_string str (fst g)) granularities of Some g \<Rightarrow> snd g | None \<Rightarrow> U64_MAX)"

definition page_sizes :: "int list" where
  "page_sizes = [4096, 8192, 16384, 32768]"

definition erase_sizes :: "u64 list" where
  "erase_sizes =
     [131072, 262144, 524288, 1048576, 2097152, 4194304, 8388608, 16777216, 33554432, 67108864, 134217728, 268435456,
      536870912, 1073741824, 2147483648]"

definition seg_sizes :: "u64 list" where
  "seg_sizes = erase_sizes @ [4294967296, 8589934592, 17179869184, 34359738368, 68719476736]"

text \<open>\<^verbatim>\<open>__check_pagesize\<close>, \<^verbatim>\<open>__check_segsize\<close> and \<^verbatim>\<open>__check_erasesize\<close>.\<close>

definition known_pagesize :: "int \<Rightarrow> unit res" where
  "known_pagesize pagesize = fail_if (pagesize \<notin> set page_sizes) EOPNOTSUPP"

definition known_segsize :: "u64 \<Rightarrow> unit res" where
  "known_segsize segsize = fail_if (segsize \<notin> set seg_sizes) EOPNOTSUPP"

definition known_erasesize :: "u64 \<Rightarrow> unit res" where
  "known_erasesize erasesize = fail_if (erasesize \<notin> set erase_sizes) EOPNOTSUPP"

text \<open>The same checks in the front ends, which end the program.\<close>

definition check_pagesize :: "int \<Rightarrow> unit parsed" where
  "check_pagesize pagesize = usage_if (known_pagesize pagesize \<noteq> Inr ())"

definition check_segsize :: "u64 \<Rightarrow> unit parsed" where
  "check_segsize segsize = usage_if (known_segsize segsize \<noteq> Inr ())"

definition check_erasesize :: "u64 \<Rightarrow> unit parsed" where
  "check_erasesize erasesize = usage_if (known_erasesize erasesize \<noteq> Inr ())"

lemma checked_sizes:
  "check_pagesize p = Inr u \<longleftrightarrow> p \<in> set page_sizes" "check_segsize s = Inr u \<longleftrightarrow> s \<in> set seg_sizes"
  "check_erasesize s = Inr u \<longleftrightarrow> s \<in> set erase_sizes"
  by (simp_all add: check_pagesize_def check_segsize_def check_erasesize_def known_pagesize_def known_segsize_def
      known_erasesize_def fail_if_def)

text \<open>The status of a program that ends because of a fault.\<close>

definition exit_of :: "fault \<Rightarrow> exit_status" where
  "exit_of e = (case e of Errno _ \<Rightarrow> EXIT_FAILURE | _ \<Rightarrow> ABORTED e)"

text \<open>A size: by its name when it has one, by its number otherwise.\<close>

definition granularity_or :: "string option \<Rightarrow> (u64 \<Rightarrow> 's parsed) \<Rightarrow> (string \<Rightarrow> 's parsed) \<Rightarrow> 's parsed" where
  "granularity_or optarg named plain = pbnd (argument optarg) (\<lambda>s.
     let granularity = detect_granularity s in if U64_MAX \<le> granularity then plain s else named granularity)"

end
