(* ===== verification/MkfsDriver.thy ===== *)
theory MkfsDriver
  imports DeviceOps MkfsSuperblock MkfsMaptbl Options
begin

text \<open>
  \<^verbatim>\<open>sbin/mkfs.ssdfs/mkfs.c\<close>: checks of the options, the array of segments, the phases of the creation in the order of
  the kinds of metadata, the checks before writing, erasure of the device and the writing of the logs, and \<^verbatim>\<open>main\<close>.
\<close>

section \<open>The environment of the program\<close>

text \<open>
  What the program gets from outside: the CRC and compression libraries, the host, the kernel, the outcomes of the
  allocations, the number of CPU cores, the option for the number of threads and the order in which the scheduler lets the
  threads of the erasure run.
\<close>

record 's mkfs_env =
  me_crc :: crc_fun
  me_libs :: "'s codec_libs"
  me_host :: host_env
  me_os :: os
  me_alloc :: "nat \<Rightarrow> bool"
  me_alloc_extent :: "int \<Rightarrow> int \<Rightarrow> nat \<Rightarrow> bool"
  me_alloc_log :: "nat \<Rightarrow> int \<Rightarrow> bool"
  me_cpu_cores :: int
  me_threads :: u32
  me_schedule :: "nat list"
  me_torn :: "device \<Rightarrow> u64 \<Rightarrow> device"

section \<open>User data\<close>

definition user_data_mkfs_validate :: "ssdfs_volume_layout \<Rightarrow> ssdfs_volume_layout res" where
  "user_data_mkfs_validate layout =
     bnd (div_chk (vl_seg_size layout) (ucast (erase_size (vl_env layout)))) (\<lambda>q.
     let pebs_per_seg = (ucast q :: u32); ud = vl_user_data_seg layout in
     Inr (layout\<lparr>vl_user_data_seg := ud\<lparr>ud_migration_threshold :=
       (if ud_migration_threshold ud = U16_MAX then vl_migration_threshold layout
        else if pebs_per_seg < ucast (ud_migration_threshold ud) then ucast pebs_per_seg
        else ud_migration_threshold ud)\<rparr>\<rparr>))"

definition prepare_user_data_options :: "ssdfs_volume_layout \<Rightarrow> ssdfs_volume_layout res" where
  "prepare_user_data_options layout =
     (let compression = ud_compression (vl_user_data_seg layout) in
     bnd (if compression = SSDFS_UNCOMPRESSED_BLOB then Inr (0, 0)
          else if compression = SSDFS_ZLIB_BLOB then Inr (1, 1)
          else if compression = SSDFS_LZO_BLOB then Inr (1, 2)
          else if compression = SSDFS_LZ4_BLOB then Inr (1, 3)
          else if compression = SSDFS_ZSTD_BLOB then Inr (1, 4)
          else Inl (Errno ERANGE)) (\<lambda>(flags, ty).
     vs_fields [F16 0xA4 flags, F8 0xA6 ty, F16 0xA8 (ud_migration_threshold (vl_user_data_seg layout))] layout))"

definition user_data_log_pages :: "u32 \<Rightarrow> u32 \<Rightarrow> u32 \<Rightarrow> (u32 \<times> bool) res" where
  "user_data_log_pages erase_bytes pages_per_peb log_pages =
     (let (log_pages, changed) =
        (if ucast U16_MAX \<le> log_pages then
           (if erase_bytes < 1048576 then pages_per_peb
            else min (pages_per_peb div SSDFS_LOGS_PER_PEB_DEFAULT) SSDFS_LOG_MAX_PAGES, True)
         else (log_pages, False));
        (log_pages, changed) =
        (if pages_per_peb < log_pages then (min pages_per_peb SSDFS_LOG_MAX_PAGES, True) else (log_pages, changed)) in
     bnd (mod_chk pages_per_peb log_pages) (\<lambda>r.
     bnd (if r \<noteq> 0 then
            let corrected_value = (push_bit (nat (ilog2 log_pages)) 1 :: u16) in
            bnd (mod_chk pages_per_peb (ucast corrected_value)) (\<lambda>r.
            bnd (BUG_ON (r \<noteq> 0)) (\<lambda>_. Inr (min (ucast corrected_value) SSDFS_LOG_MAX_PAGES, True)))
          else Inr (log_pages, changed)) (\<lambda>(log_pages, changed).
     bnd (BUG_ON (ucast U16_MAX \<le> log_pages)) (\<lambda>_.
     Inr (log_pages, changed)))))"

definition user_data_mkfs_define_layout :: "ssdfs_volume_layout \<Rightarrow> ssdfs_volume_layout res" where
  "user_data_mkfs_define_layout layout =
     (let ud = vl_user_data_seg layout in
     bnd (BUG_ON (ud_log_pages ud = 0)) (\<lambda>_.
     bnd (div_chk (erase_size (vl_env layout)) (vl_page_size layout)) (\<lambda>pages_per_peb.
     bnd (user_data_log_pages (erase_size (vl_env layout)) pages_per_peb (ucast (ud_log_pages ud))) (\<lambda>(log_pages, changed).
     bnd (vh_fields [F16 0x1DC (ucast log_pages)]
           (layout\<lparr>vl_user_data_seg := (if changed then ud\<lparr>ud_log_pages := ucast log_pages\<rparr> else ud)\<rparr>))
       prepare_user_data_options))))"

section \<open>Options\<close>

text \<open>
  \<^verbatim>\<open>validate_key_creation_options\<close>: the checks of the sizes, the correction of the geometry of a zoned device and the
  values that depend on the geometry.
\<close>

definition check_key_sizes :: "ssdfs_volume_layout \<Rightarrow> unit res" where
  "check_key_sizes layout =
     (let erase_bytes = erase_size (vl_env layout); page_bytes = vl_page_size layout; seg_bytes = vl_seg_size layout in
     bnd (fail_if (erase_bytes \<le> page_bytes) EINVAL) (\<lambda>_.
     bnd (mod_chk erase_bytes page_bytes) (\<lambda>r.
     bnd (fail_if (r \<noteq> 0) EINVAL) (\<lambda>_.
     bnd (fail_if (seg_bytes < ucast erase_bytes) EINVAL) (\<lambda>_.
     bnd (mod_chk seg_bytes (ucast erase_bytes)) (\<lambda>r.
     bnd (fail_if (r \<noteq> 0) EINVAL) (\<lambda>_.
     bnd (fail_if (fs_size (vl_env layout) \<le> seg_bytes) EINVAL) (\<lambda>_.
     fail_if (erase_bytes = 131072 \<and> (page_bytes = 32768 \<or> page_bytes = 65536 \<or> page_bytes = 131072)) EINVAL))))))))"

definition correct_zone_geometry :: "os \<Rightarrow> ssdfs_volume_layout \<Rightarrow> ssdfs_volume_layout res" where
  "correct_zone_geometry os layout =
     (if env_device_type (vl_env layout) \<noteq> SSDFS_ZNS_DEVICE then Inr layout
      else
        let env = vl_env layout;
            (info, res) = dev_check_nand_geometry os (env_dev_ops env)
              \<lparr>ng_erasesize = erase_size env, ng_writesize = vl_page_size layout\<rparr> in
        bnd (case res of
               Inr _ \<Rightarrow> Inr layout
             | Inl e \<Rightarrow>
                 if e = Errno ENOENT
                 then Inr (layout\<lparr>vl_env := env\<lparr>erase_size := ng_erasesize info\<rparr>, vl_page_size := ng_writesize info\<rparr>)
                 else Inl e) (\<lambda>layout.
        Inr (if vl_seg_size layout \<noteq> ucast (erase_size (vl_env layout))
             then layout\<lparr>vl_seg_size := ucast (erase_size (vl_env layout))\<rparr> else layout)))"

definition default_compression :: "int \<Rightarrow> int \<Rightarrow> int" where
  "default_compression volume option = (if option = SSDFS_UNKNOWN_COMPRESSION then volume else option)"

definition default_compressions :: "ssdfs_volume_layout \<Rightarrow> ssdfs_volume_layout" where
  "default_compressions layout =
     (let c = default_compression (vl_compression layout) in
      layout\<lparr>vl_blkbmap := (vl_blkbmap layout)\<lparr>bb_compression := c (bb_compression (vl_blkbmap layout))\<rparr>,
             vl_blk2off_tbl := (vl_blk2off_tbl layout)\<lparr>bt_compression := c (bt_compression (vl_blk2off_tbl layout))\<rparr>,
             vl_segbmap := (vl_segbmap layout)\<lparr>sg_compression := c (sg_compression (vl_segbmap layout))\<rparr>,
             vl_maptbl := (vl_maptbl layout)\<lparr>mt_compression := c (mt_compression (vl_maptbl layout))\<rparr>,
             vl_user_data_seg := (vl_user_data_seg layout)\<lparr>ud_compression := c (ud_compression (vl_user_data_seg layout))\<rparr>\<rparr>)"

definition validate_key_creation_options :: "os \<Rightarrow> ssdfs_volume_layout \<Rightarrow> ssdfs_volume_layout res" where
  "validate_key_creation_options os layout =
     (let fs_bytes = fs_size (vl_env layout) in
     bnd (check_key_sizes layout) (\<lambda>_.
     bnd (correct_zone_geometry os layout) (\<lambda>layout.
     let seg_bytes = vl_seg_size layout; erase_bytes = erase_size (vl_env layout) in
     bnd (div_chk fs_bytes seg_bytes) (\<lambda>segs_count.
     let layout = layout\<lparr>vl_env := (vl_env layout)\<lparr>fs_size := segs_count * seg_bytes\<rparr>\<rparr> in
     bnd (div_chk seg_bytes (ucast erase_bytes)) (\<lambda>q.
     let pebs_per_seg = (ucast q :: u32) in
     bnd (if 1 < pebs_per_seg \<and> 1 < vl_nand_dies_count layout then
            bnd (div_chk fs_bytes (ucast erase_bytes)) (\<lambda>pebs_count.
            bnd (div_chk pebs_count (ucast (vl_nand_dies_count layout))) (\<lambda>pebs_per_nand_die.
            bnd (BUG_ON (ucast U32_MAX \<le> pebs_per_nand_die)) (\<lambda>_.
            Inr (layout\<lparr>vl_lebs_per_peb_index := ucast pebs_per_nand_die\<rparr>))))
          else Inr layout) (\<lambda>layout.
     let threshold = (if vl_migration_threshold layout = U16_MAX \<or> pebs_per_seg < ucast (vl_migration_threshold layout)
                      then ucast pebs_per_seg else vl_migration_threshold layout) in
     bnd (div_chk seg_bytes (ucast (vl_page_size layout))) (\<lambda>q.
     let pages_per_seg = (ucast q :: u32) in
     bnd (fail_if (U32_MAX \<le> pages_per_seg) EINVAL) (\<lambda>_.
     Inr (default_compressions
       (layout\<lparr>vl_migration_threshold := threshold,
               vl_blk2off_tbl := (vl_blk2off_tbl layout)\<lparr>bt_pages_per_seg := pages_per_seg\<rparr>\<rparr>))))))))))"

text \<open>
  \<^verbatim>\<open>is_device_mounted\<close>: the lines are what \<^verbatim>\<open>fgets\<close> returns for the table of mounts, \<open>None\<close> when it cannot be opened;
  only the first \<^verbatim>\<open>strlen(device)\<close> characters of the first word are compared. A line without a word makes \<^verbatim>\<open>strtok\<close>
  return \<^verbatim>\<open>NULL\<close>.
\<close>

definition first_word :: "string \<Rightarrow> string" where
  "first_word line = takeWhile (\<lambda>c. c \<noteq> CHR '' '') (dropWhile (\<lambda>c. c = CHR '' '') line)"

fun any_mounted :: "string list \<Rightarrow> string \<Rightarrow> bool res" where
  "any_mounted [] dev = Inr False"
| "any_mounted (line # lines) dev =
     (if first_word line = [] then Inl Oob
      else if take (length dev) (first_word line) = dev then Inr True
      else any_mounted lines dev)"

definition is_device_mounted :: "string list option \<Rightarrow> string \<Rightarrow> bool res" where
  "is_device_mounted mounts dev = (case mounts of None \<Rightarrow> Inr True | Some lines \<Rightarrow> any_mounted lines dev)"

text \<open>
  \<^verbatim>\<open>is_safe_overwrite_device\<close>: what libblkid reports and the dialogue on the standard input. \<open>pr_result\<close> is the
  result of the full probe; \<open>pr_known\<close> tells that it names a file system or a partition table.
\<close>

record blkid_probe =
  pr_open :: bool
  pr_size :: int
  pr_partitions :: int
  pr_result :: int
  pr_known :: bool

definition skip_line :: "string \<Rightarrow> string" where
  "skip_line input = drop 1 (dropWhile (\<lambda>c. c \<noteq> CHR ''\<newline>'') input)"

function confirm_format :: "string \<Rightarrow> bool" where
  "confirm_format input =
     (case input of
        [] \<Rightarrow> False
      | c # rest \<Rightarrow>
          if c = CHR ''\<newline>'' then False
          else
            let single = (rest = [] \<or> hd rest = CHR ''\<newline>'') in
            if single \<and> (c = CHR ''n'' \<or> c = CHR ''N'') then False
            else if c = CHR ''y'' \<or> c = CHR ''Y'' then True
            else confirm_format (skip_line rest))"
  by auto

termination
proof (relation "measure length")
  fix input rest :: string and c
  assume "input = c # rest"
  moreover have "length (skip_line rest) \<le> length rest"
    unfolding skip_line_def using length_dropWhile_le[of "\<lambda>c. c \<noteq> CHR ''\<newline>''" rest] by simp
  ultimately show "(skip_line rest, input) \<in> measure length" by simp
qed simp

declare confirm_format.simps [simp del]

definition is_safe_overwrite_device :: "bool \<Rightarrow> blkid_probe \<Rightarrow> string \<Rightarrow> bool" where
  "is_safe_overwrite_device force_overwrite pr input =
     (if force_overwrite \<or> \<not> pr_open pr \<or> pr_size pr \<le> 0 \<or> pr_partitions pr < 0 \<or> pr_result pr \<noteq> 0 \<or> \<not> pr_known pr
      then True
      else confirm_format input)"

section \<open>The array of segments\<close>

definition init_meta_array_item :: "int \<Rightarrow> ssdfs_volume_layout \<Rightarrow> ssdfs_volume_layout res" where
  "init_meta_array_item index layout =
     bnd (BUG_ON (SSDFS_METADATA_ITEMS_MAX \<le> index)) (\<lambda>_.
     bnd (upd_int (vl_meta_array layout) index \<lparr>md_start_seg_index = -1, md_segs_count = -1, md_seg_state = 2\<rparr>) (\<lambda>arr.
     Inr (layout\<lparr>vl_meta_array := arr\<rparr>)))"

text \<open>The policy of a kind of metadata; a negative result becomes -EINVAL.\<close>

definition allocation_policy :: "nat \<Rightarrow> ssdfs_volume_layout \<Rightarrow> (ssdfs_volume_layout \<times> int \<times> int) res option" where
  "allocation_policy i layout =
     (case (if i = 0 then Some (snap_mkfs_allocation_policy layout)
            else if i = 1 then Some (sb_mkfs_allocation_policy layout)
            else if i = 2 then Some (segbmap_mkfs_allocation_policy layout)
            else maptbl_mkfs_allocation_policy layout) of
        None \<Rightarrow> None
      | Some (Inl (Errno e)) \<Rightarrow> Some (Inl (Errno EINVAL))
      | Some r \<Rightarrow> Some r)"

text \<open>The state is the layout and the two sums \<^verbatim>\<open>segs\<close>.\<close>

definition alloc_policy_step ::
  "nat \<Rightarrow> ssdfs_volume_layout \<times> int \<times> int \<Rightarrow> (ssdfs_volume_layout \<times> int \<times> int) res option" where
  "alloc_policy_step i = (\<lambda>(layout, dedicated, shared).
     if int i = SSDFS_USER_DATA then Some (Inr (layout, dedicated, shared))
     else
       obnd (Some (init_meta_array_item (int i) layout)) (\<lambda>layout.
       obnd (allocation_policy i layout) (\<lambda>(layout, count, policy).
       if policy < 0 \<or> 2 \<le> policy \<or> count < 1 then Some (Inl (Errno EINVAL))
       else if policy = SSDFS_DEDICATED_SEGMENT then Some (Inr (layout, dedicated + count, shared))
       else Some (Inr (layout, dedicated, max shared count)))))"

definition empty_peb :: ssdfs_peb_content where
  "empty_peb = \<lparr>pc_leb_id = U64_MAX, pc_peb_id = U64_MAX,
     pc_extents = replicate SSDFS_SEG_LOG_ITEMS_COUNT
       \<lparr>ext_state = SSDFS_UNCOMPRESSED_BLOB, ext_buf = None, ext_compr_buf = None, ext_offset = 0, ext_bytes_count = 0,
        ext_compr_bytes = 0\<rparr>\<rparr>"

definition empty_segment :: "u32 \<Rightarrow> ssdfs_segment_desc" where
  "empty_segment pebs_per_seg =
     \<lparr>sd_seg_type = SSDFS_METADATA_ITEMS_MAX, sd_seg_state = 2, sd_seg_id = U64_MAX,
      sd_pebs = replicate (unat pebs_per_seg) empty_peb, sd_pebs_count = 0, sd_pebs_capacity = ucast pebs_per_seg\<rparr>"

text \<open>\<open>alloc_ok\<close>: 0 the array of segments, 1 the write buffer, \<open>i + 2\<close> the PEBs of segment \<open>i\<close>.\<close>

definition alloc_segs_array :: "(nat \<Rightarrow> bool) \<Rightarrow> ssdfs_volume_layout \<Rightarrow> ssdfs_volume_layout res option" where
  "alloc_segs_array alloc_ok layout =
     obnd (Some (div_chk (vl_seg_size layout) (ucast (erase_size (vl_env layout))))) (\<lambda>q.
     let pebs_per_seg = (ucast q :: u32) in
     obnd (Some (BUG_ON (vl_segs layout \<noteq> []))) (\<lambda>_.
     let layout = layout\<lparr>vl_segs_capacity := 0, vl_last_allocated_seg_index := -1, vl_segs_count := 0\<rparr> in
     obnd (ofor 0 (nat SSDFS_METADATA_ITEMS_MAX) alloc_policy_step (layout, 0, 0)) (\<lambda>(layout, dedicated, shared).
     let segs_capacity = dedicated + shared in
     obnd (Some (div_chk (fs_size (vl_env layout)) (vl_seg_size layout))) (\<lambda>q.
     let fs_segs_count = (ucast q :: u32) in
     obnd (Some (fail_if (fs_segs_count div 2 < of_int segs_capacity) E2BIG)) (\<lambda>_.
     obnd (Some (fail_if (\<not> (\<forall>i < nat segs_capacity + 2. alloc_ok i)) ENOMEM)) (\<lambda>_.
     Some (Inr (layout\<lparr>vl_segs_capacity := segs_capacity,
       vl_segs := replicate (nat segs_capacity) (empty_segment pebs_per_seg),
       vl_write_buffer := \<lparr>wb_ptr = Some (replicate (unat (vl_page_size layout)) 0), wb_offset = 0,
                           wb_capacity = vl_page_size layout\<rparr>\<rparr>))))))))"

text \<open>\<^verbatim>\<open>free_segs_array\<close> ends without the array, whatever the buffers in it; the memory of segments behind \<^verbatim>\<open>segs_count\<close> is not freed.\<close>

definition free_segs_array :: "ssdfs_volume_layout \<Rightarrow> ssdfs_volume_layout" where
  "free_segs_array layout =
     (maptbl_cache_destroy_fragments_array (maptbl_destroy_fragments_array (segbmap_destroy_fragments_array
       (layout\<lparr>vl_write_buffer := \<lparr>wb_ptr = None, wb_offset = 0, wb_capacity = 0\<rparr>\<rparr>))))\<lparr>vl_segs := []\<rparr>"

section \<open>Phases of the creation\<close>

text \<open>
  The table \<^verbatim>\<open>mkfs_ops\<close>: the operations of every kind of metadata, in the order of the loops of \<^verbatim>\<open>mkfs_create\<close>;
  a missing operation leaves the layout as it is. The validation of the mapping table checks the PEBs of raw flash.
\<close>

definition errno_code :: "errno \<Rightarrow> int" where
  "errno_code e = (case e of EINVAL \<Rightarrow> -22 | ERANGE \<Rightarrow> -34 | ENODATA \<Rightarrow> -61 | E2BIG \<Rightarrow> -7 | ENOMEM \<Rightarrow> -12 | EAGAIN \<Rightarrow> -11
     | EOPNOTSUPP \<Rightarrow> -95 | EFAULT \<Rightarrow> -14 | EIO \<Rightarrow> -5 | ENOENT \<Rightarrow> -2 | ENOSPC \<Rightarrow> -28 | LIB_CODE c \<Rightarrow> c)"

definition flash_device :: "os \<Rightarrow> dev_ops \<Rightarrow> device peb_device" where
  "flash_device os ops =
     \<lparr>do_geometry = (\<lambda>erase_bytes write_bytes.
        case snd (dev_check_nand_geometry os ops \<lparr>ng_erasesize = erase_bytes, ng_writesize = write_bytes\<rparr>) of
          Inl (Errno e) \<Rightarrow> errno_code e | Inl _ \<Rightarrow> -1 | Inr _ \<Rightarrow> 0),
      do_check = (\<lambda>dev offset erase_bytes.
        case dev_check_peb os ops dev offset erase_bytes False of
          Inl (Errno e) \<Rightarrow> (errno_code e, dev) | Inl _ \<Rightarrow> (-1, dev) | Inr (r, dev) \<Rightarrow> (r, dev))\<rparr>"

definition mkfs_prepare_op :: "'s mkfs_env \<Rightarrow> nat \<Rightarrow> ssdfs_volume_layout \<Rightarrow> ssdfs_volume_layout res" where
  "mkfs_prepare_op env i layout =
     (if i = 0 then snap_mkfs_prepare layout
      else if i = 1 then sb_mkfs_prepare (me_crc env) (me_host env) layout
      else if i = 2 then segbmap_mkfs_prepare (me_alloc env) layout
      else if i = 3 then maptbl_mkfs_prepare (me_alloc env) layout
      else Inr layout)"

definition mkfs_validate_op ::
  "'s mkfs_env \<Rightarrow> nat \<Rightarrow> ssdfs_volume_layout \<times> device \<Rightarrow> (ssdfs_volume_layout \<times> device) res" where
  "mkfs_validate_op env i = (\<lambda>(layout, dev).
     if i = 0 then Inr (layout, dev)
     else if i = 1 then bnd (sb_mkfs_validate layout) (\<lambda>layout. Inr (layout, dev))
     else if i = 2 then bnd (segbmap_mkfs_validate layout) (\<lambda>layout. Inr (layout, dev))
     else if i = 3 then
       bnd (maptbl_mkfs_validate (flash_device (me_os env) (env_dev_ops (vl_env layout))) (me_alloc env) layout dev) (\<lambda>(layout, dev, err).
       if err \<noteq> 0 then Inl (Errno (LIB_CODE err)) else Inr (layout, dev))
     else bnd (user_data_mkfs_validate layout) (\<lambda>layout. Inr (layout, dev)))"

definition mkfs_define_layout_op :: "'s mkfs_env \<Rightarrow> nat \<Rightarrow> ssdfs_volume_layout \<Rightarrow> ssdfs_volume_layout res" where
  "mkfs_define_layout_op env i layout =
     (if i = 0 then snap_mkfs_define_layout (me_alloc_extent env 0 0) layout
      else if i = 1 then sb_mkfs_define_layout (me_alloc_extent env 1) layout
      else if i = 2 then segbmap_mkfs_define_layout (me_crc env) (me_libs env) (me_alloc_log env) layout
      else if i = 3 then maptbl_mkfs_define_layout (me_crc env) (me_libs env) (me_alloc_log env) layout
      else user_data_mkfs_define_layout layout)"

definition mkfs_commit_op :: "'s mkfs_env \<Rightarrow> nat \<Rightarrow> ssdfs_volume_layout \<Rightarrow> ssdfs_volume_layout res" where
  "mkfs_commit_op env i layout =
     (if i = 0 then snap_mkfs_commit (me_crc env) layout
      else if i = 1 then sb_mkfs_commit (me_crc env) layout
      else if i = 2 then segbmap_mkfs_commit (me_crc env) layout
      else if i = 3 then maptbl_mkfs_commit (me_crc env) layout
      else Inr layout)"

definition mkfs_create :: "'s mkfs_env \<Rightarrow> ssdfs_volume_layout \<Rightarrow> device \<Rightarrow> (ssdfs_volume_layout \<times> device) res" where
  "mkfs_create env layout dev =
     bnd (for_res 0 (nat SSDFS_METADATA_ITEMS_MAX) (mkfs_prepare_op env) layout) (\<lambda>layout.
     bnd (for_res 0 (nat SSDFS_METADATA_ITEMS_MAX) (mkfs_validate_op env) (layout, dev)) (\<lambda>(layout, dev).
     bnd (for_res 0 (nat SSDFS_METADATA_ITEMS_MAX) (mkfs_define_layout_op env) layout) (\<lambda>layout.
     bnd (for_res 0 (nat SSDFS_METADATA_ITEMS_MAX) (mkfs_commit_op env) layout) (\<lambda>layout.
     Inr (layout, dev)))))"

section \<open>Checks before writing\<close>

definition check_extent_before_write :: "ssdfs_volume_layout \<Rightarrow> u64 \<Rightarrow> ssdfs_extent_desc \<Rightarrow> unit res" where
  "check_extent_before_write layout peb_id desc =
     (let fs_bytes = fs_size (vl_env layout); erase_bytes = (ucast (erase_size (vl_env layout)) :: u64);
          extent_offset = (ucast (ext_offset desc) :: u64); extent_size = (ucast (ext_bytes_count desc) :: u64) in
      if ext_buf desc = None then Inr ()
      else
        bnd (div_chk U64_MAX erase_bytes) (\<lambda>q.
        bnd (BUG_ON (q \<le> peb_id)) (\<lambda>_.
        let peb_start = peb_id * erase_bytes in
        bnd (fail_if (fs_bytes \<le> peb_start) E2BIG) (\<lambda>_.
        bnd (BUG_ON (U64_MAX - extent_offset \<le> peb_start)) (\<lambda>_.
        bnd (fail_if (fs_bytes \<le> peb_start + extent_offset) E2BIG) (\<lambda>_.
        bnd (BUG_ON (extent_size = 0)) (\<lambda>_.
        bnd (BUG_ON (U64_MAX - extent_size \<le> peb_start + extent_offset)) (\<lambda>_.
        bnd (fail_if (fs_bytes < peb_start + extent_offset + extent_size) E2BIG) (\<lambda>_.
        fail_if (erase_bytes < extent_offset + extent_size) ERANGE)))))))))"

text \<open>The state of the loop over the extents: \<^verbatim>\<open>start_offset\<close> and \<^verbatim>\<open>payload_size\<close>.\<close>

definition check_extent_order ::
  "ssdfs_volume_layout \<Rightarrow> ssdfs_peb_content \<Rightarrow> nat \<Rightarrow> u32 \<times> u32 \<Rightarrow> (u32 \<times> u32) res" where
  "check_extent_order layout peb i = (\<lambda>(start_offset, payload_size).
     let desc = extent_of peb (int i) in
     if ext_buf desc = None then Inr (start_offset, payload_size)
     else
       bnd (check_extent_before_write layout (pc_peb_id peb) desc) (\<lambda>_.
       if start_offset = U32_MAX \<and> payload_size = U32_MAX then Inr (ext_offset desc, ext_bytes_count desc)
       else
         let cur_offset = start_offset + payload_size in
         bnd (fail_if (ext_offset desc < cur_offset) ERANGE) (\<lambda>_.
         bnd (fail_if (vl_page_size layout \<le> ext_offset desc - cur_offset) ERANGE) (\<lambda>_.
         Inr (start_offset, payload_size + (ext_offset desc - cur_offset) + ext_bytes_count desc)))))"

definition mark_block :: "u64 \<Rightarrow> nat \<Rightarrow> buf \<Rightarrow> buf res" where
  "mark_block start_blk i bmap =
     (let cur_blk = unat (start_blk + of_nat i) in
     bnd (test_bit_chk bmap 0 cur_blk) (\<lambda>used.
     bnd (fail_if used EINVAL) (\<lambda>_.
     set_bit_chk bmap 0 cur_blk)))"

definition check_peb_before_write :: "ssdfs_volume_layout \<Rightarrow> ssdfs_peb_content \<Rightarrow> buf \<Rightarrow> (buf \<times> u32) res" where
  "check_peb_before_write layout peb bmap =
     (let page_bytes = vl_page_size layout in
     bnd (for_res 0 SSDFS_SEG_LOG_ITEMS_COUNT (check_extent_order layout peb) (U32_MAX, U32_MAX)) (\<lambda>(start_offset, payload_size).
     bnd (BUG_ON (start_offset = U32_MAX)) (\<lambda>_.
     bnd (BUG_ON (payload_size = U32_MAX)) (\<lambda>_.
     bnd (BUG_ON (payload_size = 0)) (\<lambda>_.
     bnd (div_chk start_offset page_bytes) (\<lambda>q.
     let aligned_offset = q * page_bytes in
     bnd (BUG_ON (start_offset < aligned_offset)) (\<lambda>_.
     let aligned_size = payload_size + (start_offset - aligned_offset) in
     bnd (div_chk (pc_peb_id peb * ucast (erase_size (vl_env layout)) + ucast aligned_offset) (ucast page_bytes)) (\<lambda>start_blk.
     bnd (div_chk (aligned_size + page_bytes - 1) page_bytes) (\<lambda>blks.
     bnd (for_res 0 (unat blks) (mark_block start_blk) bmap) (\<lambda>bmap.
     Inr (bmap, blks)))))))))))"

definition check_segment_before_write :: "ssdfs_volume_layout \<Rightarrow> u64 \<Rightarrow> nat \<Rightarrow> buf \<Rightarrow> buf res" where
  "check_segment_before_write layout seg_blks_capacity i bmap =
     bnd (nth_chk (vl_segs layout) i) (\<lambda>seg.
     bnd (for_res 0 (unat (sd_pebs_count seg)) (\<lambda>j (bmap, seg_blks).
            bnd (nth_chk (sd_pebs seg) j) (\<lambda>peb.
            bnd (check_peb_before_write layout peb bmap) (\<lambda>(bmap, blks).
            Inr (bmap, seg_blks + ucast blks)))) (bmap, 0 :: u64)) (\<lambda>(bmap, seg_blks).
     bnd (fail_if (seg_blks_capacity < seg_blks) E2BIG) (\<lambda>_.
     Inr bmap)))"

definition check_layout_before_write :: "bool \<Rightarrow> ssdfs_volume_layout \<Rightarrow> unit res" where
  "check_layout_before_write alloc_ok layout =
     (let page_bytes = (ucast (vl_page_size layout) :: u64) in
     bnd (div_chk (fs_size (vl_env layout)) page_bytes) (\<lambda>fs_blks.
     bnd (div_chk (vl_seg_size layout) page_bytes) (\<lambda>seg_blks_capacity.
     bnd (fail_if (\<not> alloc_ok) ENOMEM) (\<lambda>_.
     bnd (for_res 0 (nat (vl_segs_count layout)) (check_segment_before_write layout seg_blks_capacity)
           (replicate (unat ((fs_blks + 8 - 1) div 8)) 0)) (\<lambda>_.
     Inr ())))))"

section \<open>Erasure of the device\<close>

abbreviation (input) erase_buffer :: buf where "erase_buffer \<equiv> replicate 131072 0xFF"

definition erase_segment_at :: "os \<Rightarrow> ssdfs_volume_layout \<Rightarrow> u64 \<Rightarrow> device \<Rightarrow> device res option" where
  "erase_segment_at os layout offset dev =
     dev_erase os (env_dev_ops (vl_env layout)) dev offset (vl_seg_size layout) erase_buffer"

definition erase_allocated_segments_only :: "os \<Rightarrow> bool \<Rightarrow> ssdfs_volume_layout \<Rightarrow> device \<Rightarrow> device res option" where
  "erase_allocated_segments_only os alloc_ok layout dev =
     obnd (Some (fail_if (\<not> alloc_ok) ENOMEM)) (\<lambda>_.
     ofor 0 (nat (vl_segs_count layout)) (\<lambda>i dev.
       obnd (Some (nth_chk (vl_segs layout) i)) (\<lambda>seg. erase_segment_at os layout (sd_seg_id seg * vl_seg_size layout) dev)) dev)"

definition erase_all_segments :: "os \<Rightarrow> bool \<Rightarrow> ssdfs_volume_layout \<Rightarrow> device \<Rightarrow> device res option" where
  "erase_all_segments os alloc_ok layout dev =
     obnd (Some (div_chk (fs_size (vl_env layout)) (vl_seg_size layout))) (\<lambda>fs_segs_count.
     obnd (Some (fail_if (\<not> alloc_ok) ENOMEM)) (\<lambda>_.
     ofor 0 (unat fs_segs_count) (\<lambda>i dev. erase_segment_at os layout (of_nat i * vl_seg_size layout) dev) dev))"

text \<open>
  The PEBs a thread erases, in its order: \<^verbatim>\<open>ssdfs_init_peb_environment\<close> gives it the first PEB and the number,
  \<^verbatim>\<open>erase_device_peb_range\<close> stops at the end of the volume.
\<close>

definition ssdfs_init_peb_environment :: "nat \<Rightarrow> u64 \<Rightarrow> u64 \<Rightarrow> u64 \<times> u64" where
  "ssdfs_init_peb_environment thread_id pebs_per_thread pebs_count =
     (let pid = of_nat thread_id * pebs_per_thread in (pid, min (pebs_count - pid) pebs_per_thread))"

definition thread_pebs :: "u64 \<Rightarrow> u64 \<times> u64 \<Rightarrow> u64 list" where
  "thread_pebs pebs_per_volume = (\<lambda>(start_peb_id, pebs_count).
     takeWhile (\<lambda>pid. pid < pebs_per_volume) (map (\<lambda>i. start_peb_id + of_nat i) [0..<unat pebs_count]))"

definition erase_jobs :: "u32 \<Rightarrow> u64 \<Rightarrow> u64 list list res" where
  "erase_jobs capacity pebs_count =
     bnd (div_chk (pebs_count + ucast capacity - 1) (ucast capacity)) (\<lambda>pebs_per_thread.
     Inr (map (\<lambda>i. thread_pebs pebs_count (ssdfs_init_peb_environment i pebs_per_thread pebs_count)) [0..<unat capacity]))"

text \<open>
  The threads run interleaved: each entry of the schedule lets a thread erase its next PEB, and when the schedule ends
  the rest is done in order. A thread whose erasure fails ends (\<open>torn\<close> is the device after a failed erasure); nobody
  looks at its result.
\<close>

definition erase_peb :: "os \<Rightarrow> (device \<Rightarrow> u64 \<Rightarrow> device) \<Rightarrow> ssdfs_volume_layout \<Rightarrow> u64 \<Rightarrow> device \<Rightarrow> (bool \<times> device) option" where
  "erase_peb os torn layout pid dev =
     (let peb_bytes = ucast (erase_size (vl_env layout)) in
      case dev_erase os (env_dev_ops (vl_env layout)) dev (pid * peb_bytes) peb_bytes erase_buffer of
        None \<Rightarrow> None
      | Some (Inl e) \<Rightarrow> Some (False, torn dev pid)
      | Some (Inr dev) \<Rightarrow> Some (True, dev))"

fun run_job :: "(u64 \<Rightarrow> device \<Rightarrow> (bool \<times> device) option) \<Rightarrow> u64 list \<Rightarrow> device \<Rightarrow> device option" where
  "run_job erase [] dev = Some dev"
| "run_job erase (pid # ids) dev =
     (case erase pid dev of None \<Rightarrow> None | Some (ok, dev) \<Rightarrow> if ok then run_job erase ids dev else Some dev)"

fun run_jobs :: "(u64 \<Rightarrow> device \<Rightarrow> (bool \<times> device) option) \<Rightarrow> nat list \<Rightarrow> u64 list list \<Rightarrow> device \<Rightarrow> device option" where
  "run_jobs erase [] jobs dev = foldl (\<lambda>d job. Option.bind d (run_job erase job)) (Some dev) jobs"
| "run_jobs erase (t # ts) jobs dev =
     (if t < length jobs \<and> jobs ! t \<noteq> [] then
        (case erase (hd (jobs ! t)) dev of
           None \<Rightarrow> None
         | Some (ok, dev) \<Rightarrow> run_jobs erase ts (jobs[t := (if ok then tl (jobs ! t) else [])]) dev)
      else run_jobs erase ts jobs dev)"

definition erase_device :: "'s mkfs_env \<Rightarrow> ssdfs_volume_layout \<Rightarrow> device \<Rightarrow> device res option" where
  "erase_device env layout dev =
     (let os = me_os env; alloc_ok = me_alloc env 0;
          cpu_cores = (if me_cpu_cores env \<le> 0 then 1 else me_cpu_cores env);
          capacity = (if me_threads env = 0 then of_int cpu_cores else me_threads env) in
      if vl_is_volume_erased layout then Some (Inr dev)
      else if \<not> vl_need_erase_device layout then erase_allocated_segments_only os alloc_ok layout dev
      else if capacity = 1 then erase_all_segments os alloc_ok layout dev
      else
        obnd (Some (div_chk (fs_size (vl_env layout)) (ucast (erase_size (vl_env layout))))) (\<lambda>pebs_count.
        obnd (Some (erase_jobs capacity pebs_count)) (\<lambda>jobs.
        if \<not> me_alloc env 1 then erase_all_segments os alloc_ok layout dev
        else map_option Inr (run_jobs (erase_peb os (me_torn env) layout) (me_schedule env) jobs dev))))"

section \<open>Writing of the logs\<close>

definition put_wb :: "ssdfs_volume_layout \<Rightarrow> buf \<Rightarrow> u32 \<Rightarrow> ssdfs_volume_layout" where
  "put_wb layout p offset = layout\<lparr>vl_write_buffer := (vl_write_buffer layout)\<lparr>wb_ptr := Some p, wb_offset := offset\<rparr>\<rparr>"

definition flush_write_buffer ::
  "os \<Rightarrow> u64 \<Rightarrow> u32 \<Rightarrow> ssdfs_volume_layout \<times> device \<Rightarrow> (ssdfs_volume_layout \<times> device) res option" where
  "flush_write_buffer os offset sz = (\<lambda>(layout, dev).
     let wb = vl_write_buffer layout; env = vl_env layout;
         info = \<lparr>ng_erasesize = erase_size env, ng_writesize = vl_page_size layout\<rparr> in
     case wb_ptr wb of
       None \<Rightarrow> Some (Inl (Errno ERANGE))
     | Some p \<Rightarrow>
         obnd (Some (fail_if (wb_capacity wb = 0) ERANGE)) (\<lambda>_.
         obnd (Some (fail_if (sz = 0 \<or> wb_capacity wb < sz) ERANGE)) (\<lambda>_.
         obnd (Some (mod_chk offset (ucast (vl_page_size layout)))) (\<lambda>r.
         obnd (Some (fail_if (r \<noteq> 0) ERANGE)) (\<lambda>_.
         obnd (Some (rd p 0 (unat sz))) (\<lambda>data.
         obnd (dev_write os (env_dev_ops env) dev info offset data (open_zones env)) (\<lambda>(dev, zones).
         obnd (Some (memset p 0 0xFF (unat (wb_capacity wb)))) (\<lambda>p.
         Some (Inr (put_wb (layout\<lparr>vl_env := env\<lparr>open_zones := zones\<rparr>\<rparr>) p 0, dev))))))))))"

text \<open>\<open>prepare_write_buffer\<close> gives whether the code is -ENOSPC, and the number of copied bytes.\<close>

definition prepare_write_buffer ::
  "ssdfs_volume_layout \<Rightarrow> u32 \<Rightarrow> buf \<Rightarrow> nat \<Rightarrow> u32 \<Rightarrow> (bool \<times> ssdfs_volume_layout \<times> u32) res" where
  "prepare_write_buffer layout offset mem pos sz =
     (let wb = vl_write_buffer layout in
      case wb_ptr wb of
        None \<Rightarrow> Inl (Errno ERANGE)
      | Some p \<Rightarrow>
          bnd (fail_if (wb_capacity wb = 0) ERANGE) (\<lambda>_.
          if offset < wb_offset wb \<or> wb_capacity wb \<le> offset then Inr (True, layout, 0)
          else
            let bytes_count = min sz (wb_capacity wb - offset) in
            bnd (rd mem pos (unat bytes_count)) (\<lambda>data.
            bnd (wr p (unat offset) data) (\<lambda>p.
            Inr (bytes_count \<noteq> sz \<or> offset + bytes_count = wb_capacity wb, put_wb layout p (offset + bytes_count), bytes_count)))))"

record write_state =
  ws_layout :: ssdfs_volume_layout
  ws_dev :: device
  ws_volume_offset :: u64
  ws_peb_offset :: u32
  ws_flushed :: u32

text \<open>One round of the loop over the bytes of an extent; the result is the number of copied bytes.\<close>

definition write_extent_step :: "os \<Rightarrow> buf \<Rightarrow> nat \<Rightarrow> u32 \<Rightarrow> write_state \<Rightarrow> (u32 \<times> write_state) res option" where
  "write_extent_step os mem pos sz st =
     (let capacity = wb_capacity (vl_write_buffer (ws_layout st)) in
     obnd (Some (mod_chk (ws_peb_offset st) capacity)) (\<lambda>offset.
     obnd (Some (prepare_write_buffer (ws_layout st) offset mem pos sz)) (\<lambda>(nospc, layout, copied_bytes).
     obnd (if nospc then
             obnd (flush_write_buffer os (ws_volume_offset st) capacity (layout, ws_dev st)) (\<lambda>(layout, dev).
             Some (Inr (st\<lparr>ws_layout := layout, ws_dev := dev, ws_volume_offset := ws_volume_offset st + ucast capacity,
                           ws_flushed := ws_flushed st + capacity\<rparr>)))
           else Some (Inr (st\<lparr>ws_layout := layout\<rparr>))) (\<lambda>st.
     obnd (Some (fail_if (sz < copied_bytes) ERANGE)) (\<lambda>_.
     Some (Inr (copied_bytes, st\<lparr>ws_peb_offset := ws_peb_offset st + copied_bytes\<rparr>)))))))"

partial_function (option) write_extent_loop :: "os \<Rightarrow> buf \<Rightarrow> nat \<Rightarrow> u32 \<Rightarrow> write_state \<Rightarrow> write_state res option" where
  "write_extent_loop os mem pos sz st =
     (if sz = 0 then Some (Inr st)
      else case write_extent_step os mem pos sz st of
        None \<Rightarrow> None
      | Some r \<Rightarrow> (case r of
          Inl e \<Rightarrow> Some (Inl e)
        | Inr (copied_bytes, st) \<Rightarrow> write_extent_loop os mem (pos + unat copied_bytes) (sz - copied_bytes) st))"

definition write_extent :: "os \<Rightarrow> ssdfs_peb_content \<Rightarrow> nat \<Rightarrow> write_state \<Rightarrow> write_state res option" where
  "write_extent os peb i st =
     (let desc = extent_of peb (int i) in
      case ext_buf desc of
        None \<Rightarrow> Some (Inr st)
      | Some mem \<Rightarrow>
          obnd (Some (fail_if (ext_offset desc < ws_peb_offset st) ERANGE)) (\<lambda>_.
          write_extent_loop os mem 0 (ext_bytes_count desc) (st\<lparr>ws_peb_offset := ext_offset desc\<rparr>)))"

text \<open>The bytes that are still in the write buffer.\<close>

definition flush_rest :: "os \<Rightarrow> write_state \<Rightarrow> write_state res option" where
  "flush_rest os st =
     (let page_bytes = vl_page_size (ws_layout st) in
      if ws_peb_offset st \<le> ws_flushed st then Some (Inr st)
      else
        obnd (Some (div_chk (ws_peb_offset st - ws_flushed st + (page_bytes - 1)) page_bytes)) (\<lambda>q.
        obnd (flush_write_buffer os (ws_volume_offset st) (q * page_bytes) (ws_layout st, ws_dev st)) (\<lambda>(layout, dev).
        Some (Inr (st\<lparr>ws_layout := layout, ws_dev := dev\<rparr>)))))"

text \<open>The zone of the snapshot segment is closed after writing.\<close>

definition finish_peb ::
  "os \<Rightarrow> ssdfs_segment_desc \<Rightarrow> u64 \<Rightarrow> ssdfs_volume_layout \<times> device \<Rightarrow> (ssdfs_volume_layout \<times> device) res" where
  "finish_peb os seg_desc volume_offset = (\<lambda>(layout, dev).
     let env = vl_env layout in
     case env_device_type env of
       SSDFS_BLK_DEVICE \<Rightarrow> Inr (layout, dev)
     | SSDFS_MTD_DEVICE \<Rightarrow> Inr (layout, dev)
     | SSDFS_DEVICE_TYPE_MAX \<Rightarrow> Inl Bug
     | SSDFS_ZNS_DEVICE \<Rightarrow>
         let need_close_zone = (sd_seg_type seg_desc = SSDFS_INITIAL_SNAPSHOT);
             layout = (if need_close_zone then layout\<lparr>vl_env := env\<lparr>open_zones := open_zones env - 1\<rparr>\<rparr> else layout) in
         bnd (dev_check_peb os (env_dev_ops env) dev volume_offset (erase_size env) need_close_zone) (\<lambda>(r, dev).
         if r \<noteq> 0 then Inl (Errno (LIB_CODE r)) else Inr (layout, dev)))"

definition write_peb ::
  "os \<Rightarrow> nat \<Rightarrow> nat \<Rightarrow> ssdfs_volume_layout \<times> device \<Rightarrow> (ssdfs_volume_layout \<times> device) res option" where
  "write_peb os seg_index peb_index = (\<lambda>(layout, dev).
     obnd (Some (fail_if (vl_segs_capacity layout \<le> int seg_index) EINVAL)) (\<lambda>_.
     obnd (Some (nth_chk (vl_segs layout) seg_index)) (\<lambda>seg_desc.
     obnd (Some (fail_if (unat (sd_pebs_count seg_desc) \<le> peb_index) EINVAL)) (\<lambda>_.
     obnd (Some (deref (wb_ptr (vl_write_buffer layout)))) (\<lambda>p.
     obnd (Some (memset p 0 0xFF (unat (wb_capacity (vl_write_buffer layout))))) (\<lambda>p.
     obnd (Some (nth_chk (sd_pebs seg_desc) peb_index)) (\<lambda>peb.
     let volume_offset = pc_peb_id peb * ucast (erase_size (vl_env layout));
         st = \<lparr>ws_layout = put_wb layout p (wb_offset (vl_write_buffer layout)), ws_dev = dev,
               ws_volume_offset = volume_offset, ws_peb_offset = 0, ws_flushed = 0\<rparr> in
     obnd (ofor 0 SSDFS_SEG_LOG_ITEMS_COUNT (write_extent os peb) st) (\<lambda>st.
     obnd (flush_rest os st) (\<lambda>st.
     Some (finish_peb os seg_desc volume_offset (ws_layout st, ws_dev st)))))))))))"

definition write_segments :: "os \<Rightarrow> ssdfs_volume_layout \<times> device \<Rightarrow> (ssdfs_volume_layout \<times> device) res option" where
  "write_segments os st =
     ofor 0 (nat (vl_segs_count (fst st))) (\<lambda>i st.
       obnd (Some (nth_chk (vl_segs (fst st)) i)) (\<lambda>seg.
       ofor 0 (unat (sd_pebs_count seg)) (write_peb os i) st)) st"

text \<open>\<open>fsync_ok\<close> is the outcome of \<^verbatim>\<open>fsync\<close>.\<close>

definition write_device ::
  "'s mkfs_env \<Rightarrow> bool \<Rightarrow> ssdfs_volume_layout \<times> device \<Rightarrow> (ssdfs_volume_layout \<times> device) res option" where
  "write_device env fsync_ok = (\<lambda>(layout, dev).
     obnd (Some (BUG_ON (vl_segs layout = []))) (\<lambda>_.
     obnd (Some (BUG_ON (vl_segs_capacity layout = 0 \<or> vl_segs_count layout = 0))) (\<lambda>_.
     obnd (Some (BUG_ON (env_dev_ops (vl_env layout) = no_ops))) (\<lambda>_.
     obnd (Some (fail_if (vl_segs_capacity layout \<noteq> vl_segs_count layout) EINVAL)) (\<lambda>_.
     obnd (Some (check_layout_before_write (me_alloc env 0) layout)) (\<lambda>_.
     obnd (erase_device env layout dev) (\<lambda>dev.
     obnd (write_segments (me_os env) (layout, dev)) (\<lambda>(layout, dev).
     obnd (Some (fail_if (\<not> fsync_ok) EIO)) (\<lambda>_.
     obnd (Some (fail_if (env_device_type (vl_env layout) = SSDFS_ZNS_DEVICE \<and>
                   open_zones (vl_env layout) \<noteq> vl_calculated_open_zones layout) ERANGE)) (\<lambda>_.
     Some (Inr (layout, dev))))))))))))"

section \<open>The program\<close>

text \<open>What \<^verbatim>\<open>main\<close> learns before it creates the volume.\<close>

record mkfs_world =
  mw_probe :: probe
  mw_errno :: int
  mw_mounts :: "string list option"
  mw_dev_name :: string
  mw_blkid :: blkid_probe
  mw_input :: string
  mw_fsync_ok :: bool

text \<open>
  \<^verbatim>\<open>main\<close> behind \<^verbatim>\<open>parse_options\<close>: the exit status and the device, for the outcomes that leave the device
  in a state the model knows.
\<close>

definition mkfs_main ::
  "'s mkfs_env \<Rightarrow> mkfs_world \<Rightarrow> ssdfs_volume_layout \<Rightarrow> device \<Rightarrow> (exit_status \<times> device option) option" where
  "mkfs_main env w layout dev =
     (case open_device (vl_env layout) (mw_probe w) (mw_errno w) of
        Inl e \<Rightarrow> Some (exit_of e, Some dev)
      | Inr denv \<Rightarrow>
          (case validate_key_creation_options (me_os env) (layout\<lparr>vl_env := denv\<rparr>) of
             Inl e \<Rightarrow> Some (exit_of e, Some dev)
           | Inr layout \<Rightarrow>
               (case is_device_mounted (mw_mounts w) (mw_dev_name w) of
                  Inl e \<Rightarrow> Some (exit_of e, Some dev)
                | Inr mounted \<Rightarrow>
                    if mounted \<or> \<not> is_safe_overwrite_device (vl_force_overwrite layout) (mw_blkid w) (mw_input w)
                    then Some (EXIT_SUCCESS, Some dev)
                    else
                      (case alloc_segs_array (me_alloc env) layout of
                         None \<Rightarrow> None
                       | Some (Inl e) \<Rightarrow> Some (exit_of e, Some dev)
                       | Some (Inr layout) \<Rightarrow>
                           (case mkfs_create env layout dev of
                              Inl e \<Rightarrow> Some (exit_of e, None)
                            | Inr (layout, dev) \<Rightarrow>
                                (case write_device env (mw_fsync_ok w) (layout, dev) of
                                   None \<Rightarrow> None
                                 | Some (Inl e) \<Rightarrow> Some (exit_of e, None)
                                 | Some (Inr (layout, dev)) \<Rightarrow> Some (EXIT_SUCCESS, Some dev)))))))"

end
