(* ===== verification/LogWrite.thy ===== *)
theory LogWrite
  imports MkfsDriver
begin

text \<open>
  What \<^verbatim>\<open>write_peb\<close> of \<^verbatim>\<open>sbin/mkfs.ssdfs/mkfs.c\<close> leaves on the device. The image of a log is the sequence of
  its extents at their offsets with 0xFF in the gaps; the loop over the extents keeps its full pages on the device and its last,
  partial page in the write buffer.

  The contract of a table of device operations is the locale \<open>page_device\<close>; the tables of the block device, of raw flash
  and of the zoned device are its interpretations, for kernels whose answers let every transfer finish.
\<close>

section \<open>Images\<close>

definition fill_to :: "nat \<Rightarrow> buf \<Rightarrow> buf" where
  "fill_to n im = im @ replicate (n - length im) 0xFF"

definition add_extent :: "ssdfs_peb_content \<Rightarrow> nat \<Rightarrow> buf \<Rightarrow> buf" where
  "add_extent peb i im =
     (let desc = extent_of peb (int i) in
      case ext_buf desc of
        None \<Rightarrow> im
      | Some mem \<Rightarrow> fill_to (unat (ext_offset desc)) im @ take (unat (ext_bytes_count desc)) mem)"

definition log_image :: "ssdfs_peb_content \<Rightarrow> nat \<Rightarrow> buf" where
  "log_image peb n = fold (add_extent peb) [0..<n] []"

definition whole_pages :: "nat \<Rightarrow> buf \<Rightarrow> buf" where
  "whole_pages p im = fill_to (p * ((length im + p - 1) div p)) im"

text \<open>The order that \<^verbatim>\<open>check_peb_before_write\<close> enforces, and the memory behind the extents.\<close>

definition extent_fits :: "nat \<Rightarrow> nat \<Rightarrow> ssdfs_peb_content \<Rightarrow> nat \<Rightarrow> bool" where
  "extent_fits p e peb i =
     (let desc = extent_of peb (int i); at = unat (ext_offset desc); n = unat (ext_bytes_count desc);
          im = log_image peb i in
      case ext_buf desc of
        None \<Rightarrow> True
      | Some mem \<Rightarrow> 0 < n \<and> n \<le> length mem \<and> length im \<le> at \<and> at - length im < p \<and> at + n \<le> e)"

definition same_volume :: "ssdfs_volume_layout \<Rightarrow> ssdfs_volume_layout \<Rightarrow> bool" where
  "same_volume l l' = (\<exists>wb zones. l' = l\<lparr>vl_write_buffer := wb, vl_env := (vl_env l)\<lparr>open_zones := zones\<rparr>\<rparr>)"

lemma length_fill_to [simp]: "length (fill_to n im) = max n (length im)"
  by (simp add: fill_to_def)

lemma fill_to_self [simp]: "n \<le> length im \<Longrightarrow> fill_to n im = im"
  by (simp add: fill_to_def)

lemma fill_to_fill_to: "m \<le> n \<Longrightarrow> fill_to n (fill_to m im) = fill_to n im"
  by (auto simp: fill_to_def max_def simp flip: replicate_add)

lemma drop_fill_to: "k \<le> length im \<Longrightarrow> drop k (fill_to n im) = fill_to (n - k) (drop k im)"
  by (simp add: fill_to_def)

lemma take_fill_to: "k \<le> length im \<Longrightarrow> take k (fill_to n im) = take k im"
  by (simp add: fill_to_def)

lemma overwrite_fill:
  "length a \<le> off \<Longrightarrow> off + length b \<le> p \<Longrightarrow> overwrite (fill_to p a) off b = fill_to p (fill_to off a @ b)"
  by (rule nth_equalityI) (auto simp: fill_to_def nth_append nth_overwrite overwrite_def)

lemma log_image_Suc: "log_image peb (Suc i) = add_extent peb i (log_image peb i)"
  by (simp add: log_image_def)

lemma same_volume_refl: "same_volume l l"
  unfolding same_volume_def by (rule exI[of _ "vl_write_buffer l"], rule exI[of _ "open_zones (vl_env l)"]) simp

lemma same_volume_trans: "same_volume l l' \<Longrightarrow> same_volume l' l'' \<Longrightarrow> same_volume l l''"
  unfolding same_volume_def by fastforce

lemma same_volume_fields:
  assumes "same_volume l l'"
  shows "vl_segs l' = vl_segs l" "vl_page_size l' = vl_page_size l" "vl_segs_capacity l' = vl_segs_capacity l"
    "vl_segs_count l' = vl_segs_count l" "erase_size (vl_env l') = erase_size (vl_env l)"
    "env_dev_ops (vl_env l') = env_dev_ops (vl_env l)" "env_device_type (vl_env l') = env_device_type (vl_env l)"
    "fs_size (vl_env l') = fs_size (vl_env l)"
  using assms by (auto simp: same_volume_def)

lemma same_volume_put_wb: "same_volume l (put_wb l b n)"
  unfolding same_volume_def put_wb_def
  by (rule exI[of _ "(vl_write_buffer l)\<lparr>wb_ptr := Some b, wb_offset := n\<rparr>"], rule exI[of _ "open_zones (vl_env l)"]) simp

lemma same_volume_zones: "same_volume l (l\<lparr>vl_env := (vl_env l)\<lparr>open_zones := z\<rparr>\<rparr>)"
  unfolding same_volume_def by (rule exI[of _ "vl_write_buffer l"], rule exI[of _ z]) simp

section \<open>The state of the loop\<close>

text \<open>
  The loop has produced the bytes \<open>im\<close> of a log that starts at \<open>base\<close>: its full pages are on the device, the
  rest is in the write buffer with 0xFF behind it.
\<close>

definition log_state :: "nat \<Rightarrow> ssdfs_volume_layout \<Rightarrow> buf \<Rightarrow> buf \<Rightarrow> write_state \<Rightarrow> bool" where
  "log_state base l f im st \<longleftrightarrow>
     (let p = unat (vl_page_size l); k = p * (length im div p); wb = vl_write_buffer (ws_layout st) in
      same_volume l (ws_layout st) \<and> wb_capacity wb = vl_page_size l \<and> wb_ptr wb = Some (fill_to p (drop k im)) \<and>
      unat (wb_offset wb) = length im mod p \<and> unat (ws_flushed st) = k \<and> unat (ws_volume_offset st) = base + k \<and>
      dv_file (ws_dev st) = file_write f base (take k im))"

text \<open>The PEB starts at \<open>base\<close> and has a whole number of pages, more than one of them.\<close>

definition peb_geometry :: "ssdfs_volume_layout \<Rightarrow> nat \<Rightarrow> bool" where
  "peb_geometry l base \<longleftrightarrow>
     (let p = unat (vl_page_size l); e = unat (erase_size (vl_env l)) in
      0 < p \<and> p < e \<and> p dvd e \<and> e dvd base \<and> base + e < 2 ^ 64)"

lemma memset_whole: "length b = n \<Longrightarrow> memset b 0 0xFF n = Inr (fill_to n [])"
  by (simp add: memset_def wr_def overwrite_def fill_to_def)

lemma file_write_append:
  "k = length a \<Longrightarrow> file_write (file_write f base a) (base + k) b = file_write f base (a @ b)"
  using file_write_split[of k "a @ b" f base] by simp

locale page_device =
  fixes ops :: dev_ops and steady :: "os \<Rightarrow> nat \<Rightarrow> bool"
  assumes write_law: "steady os n \<Longrightarrow> length data \<le> n \<Longrightarrow> ng_erasesize info \<noteq> 0 \<Longrightarrow>
      unat off mod unat (ng_erasesize info) + length data \<le> unat (ng_erasesize info) \<Longrightarrow>
      unat off - unat off mod unat (ng_erasesize info) + unat (ng_erasesize info) < 2 ^ 64 \<Longrightarrow>
      \<exists>dev' zones'. dev_write os ops dev info off data zones = Some (Inr (dev', zones')) \<and>
        dv_file dev' = file_write (dv_file dev) (unat off) data"
begin

lemma flush_ok:
  assumes "steady os p" and p: "p = unat (vl_page_size l)" "0 < p"
    and wb: "wb_ptr (vl_write_buffer l) = Some b" "length b = p" "wb_capacity (vl_write_buffer l) = vl_page_size l"
    and ops: "env_dev_ops (vl_env l) = ops" and sz: "0 < unat sz" "unat sz \<le> p"
    and off: "p dvd unat off" "unat off - unat off mod unat (erase_size (vl_env l)) + unat (erase_size (vl_env l)) < 2 ^ 64" "erase_size (vl_env l) \<noteq> 0"
      "unat off mod unat (erase_size (vl_env l)) + unat sz \<le> unat (erase_size (vl_env l))"
  shows "\<exists>l' dev'. flush_write_buffer os off sz (l, dev) = Some (Inr (l', dev')) \<and> same_volume l l' \<and>
      wb_ptr (vl_write_buffer l') = Some (fill_to p []) \<and> wb_offset (vl_write_buffer l') = 0 \<and>
      wb_capacity (vl_write_buffer l') = vl_page_size l \<and>
      dv_file dev' = file_write (dv_file dev) (unat off) (take (unat sz) b)"
proof -
  let ?info = "\<lparr>ng_erasesize = erase_size (vl_env l), ng_writesize = vl_page_size l\<rparr>"
  have len: "length (take (unat sz) b) = unat sz" using sz(2) wb(2) by simp
  obtain dev' z where w: "dev_write os ops dev ?info off (take (unat sz) b) (open_zones (vl_env l)) = Some (Inr (dev', z))"
      "dv_file dev' = file_write (dv_file dev) (unat off) (take (unat sz) b)"
    using write_law[OF assms(1), of "take (unat sz) b" ?info off dev "open_zones (vl_env l)"] sz(2) off len by auto
  have c: "vl_page_size l \<noteq> 0" "sz \<noteq> 0" "\<not> vl_page_size l < sz" "(ucast (vl_page_size l) :: u64) \<noteq> 0"
    using p sz by (auto simp: word_less_nat_alt word_unat_eq_iff[of "ucast _ :: u64"] unat_ucast_up)
  have m: "off mod ucast (vl_page_size l) = 0"
    using off(1) p(1) by (simp add: word_unat_eq_iff unat_mod unat_ucast_up mod_eq_0_iff_dvd)
  have run: "flush_write_buffer os off sz (l, dev) =
      Some (Inr (put_wb (l\<lparr>vl_env := (vl_env l)\<lparr>open_zones := z\<rparr>\<rparr>) (fill_to p []) 0, dev'))"
    using wb ops sz(2) w(1) c m p by (simp add: flush_write_buffer_def Let_def bytes_at_def memset_whole)
  let ?l = "put_wb (l\<lparr>vl_env := (vl_env l)\<lparr>open_zones := z\<rparr>\<rparr>) (fill_to p []) 0"
  have "same_volume l ?l" by (rule same_volume_trans[OF same_volume_zones same_volume_put_wb])
  then have "same_volume l ?l \<and> wb_ptr (vl_write_buffer ?l) = Some (fill_to p []) \<and>
      wb_offset (vl_write_buffer ?l) = 0 \<and> wb_capacity (vl_write_buffer ?l) = vl_page_size l"
    using wb(3) by (simp add: put_wb_def)
  then show ?thesis unfolding run using w(2) by blast
qed

end

context page_device begin
text \<open>A page that has become full goes to the device.\<close>

lemma flush_page:
  assumes "steady os p" and p: "p = unat (vl_page_size l)" and geo: "peb_geometry l base" and ops: "env_dev_ops (vl_env l) = ops"
    and sv: "same_volume l l'"
    and im: "length im mod p = 0" "0 < length im" "length im \<le> unat (erase_size (vl_env l))"
    and wb: "wb_ptr (vl_write_buffer l') = Some (drop (length im - p) im)" "wb_capacity (vl_write_buffer l') = vl_page_size l"
    and st: "unat (ws_flushed st) = length im - p" "unat (ws_volume_offset st) = base + (length im - p)"
      "dv_file dev = file_write f base (take (length im - p) im)"
  shows "\<exists>l'' dev''. flush_write_buffer os (ws_volume_offset st) (vl_page_size l) (l', dev) = Some (Inr (l'', dev'')) \<and>
      log_state base l f im (st\<lparr>ws_layout := l'', ws_dev := dev'', ws_volume_offset := ws_volume_offset st + ucast (vl_page_size l),
        ws_flushed := ws_flushed st + vl_page_size l\<rparr>)"
proof -
  note f = same_volume_fields[OF sv]
  let ?e = "unat (erase_size (vl_env l))" let ?k = "length im - p"
  from geo p have g: "0 < p" "0 < ?e" "p dvd ?e" "?e dvd base" "base + ?e < 2 ^ 64" by (simp_all add: peb_geometry_def Let_def)
  from im g(1) have kp: "?k + p = length im" "p dvd ?k" "p \<le> length im"
    by (auto simp: mod_eq_0_iff_dvd dvd_imp_le intro: dvd_diff_nat)
  have km: "(base + ?k) mod ?e = ?k"
  proof -
    from g(4) obtain c where "base = ?e * c" ..
    then have "(base + ?k) mod ?e = ?k mod ?e" by simp
    then show ?thesis using im(3) kp(1) g(1) by simp
  qed
  have bd: "p dvd base + ?k" using dvd_trans[OF g(3,4)] kp(2) by (rule dvd_add)
  have "\<exists>l'' dev''. flush_write_buffer os (ws_volume_offset st) (vl_page_size l) (l', dev) = Some (Inr (l'', dev'')) \<and> same_volume l' l'' \<and>
      wb_ptr (vl_write_buffer l'') = Some (fill_to p []) \<and> wb_offset (vl_write_buffer l'') = 0 \<and>
      wb_capacity (vl_write_buffer l'') = vl_page_size l' \<and>
      dv_file dev'' = file_write (dv_file dev) (unat (ws_volume_offset st)) (take (unat (vl_page_size l)) (drop ?k im))"
    by (rule flush_ok[OF assms(1)])
      (use f p g wb ops kp km im(3) st bd in \<open>auto simp: word_unat_eq_iff\<close>)
  then obtain l'' dev'' where run: "flush_write_buffer os (ws_volume_offset st) (vl_page_size l) (l', dev) = Some (Inr (l'', dev''))"
    and r: "same_volume l' l''" "wb_ptr (vl_write_buffer l'') = Some (fill_to p [])" "wb_offset (vl_write_buffer l'') = 0"
      "wb_capacity (vl_write_buffer l'') = vl_page_size l'"
      "dv_file dev'' = file_write (dv_file dev) (unat (ws_volume_offset st)) (take (unat (vl_page_size l)) (drop ?k im))"
    by blast
  have fw: "dv_file dev'' = file_write f base im"
    unfolding r(5) st(2,3) p[symmetric] using kp file_write_split[of ?k im f base] by simp
  have fl: "unat (ws_flushed st + vl_page_size l) = length im"
    using st(1) p kp(1) im(3) unat_width[of "erase_size (vl_env l)"] by (subst unat_add_nw) simp_all
  have vo: "unat (ws_volume_offset st + ucast (vl_page_size l)) = base + length im"
    using st(2) p kp(1) im(3) g(5) by (subst unat_add_nw) (simp_all add: unat_ucast_up)
  have "p * (length im div p) = length im" using im(1) by (metis mod_mult_div_eq add_0)
  then have "log_state base l f im (st\<lparr>ws_layout := l'', ws_dev := dev'', ws_volume_offset := ws_volume_offset st + ucast (vl_page_size l),
        ws_flushed := ws_flushed st + vl_page_size l\<rparr>)"
    using same_volume_trans[OF sv r(1)] r(2-4) f fw fl vo im(1)
    unfolding log_state_def Let_def p[symmetric] by simp
  with run show ?thesis by blast
qed

end

context page_device begin
text \<open>One call of \<^verbatim>\<open>prepare_write_buffer\<close> on a position of the page in the write buffer.\<close>

lemma prepare_copies:
  assumes p: "p = unat (vl_page_size l)" "0 < p" and wb: "wb_ptr (vl_write_buffer l) = Some (fill_to p a)"
    "wb_capacity (vl_write_buffer l) = vl_page_size l" "unat (wb_offset (vl_write_buffer l)) = length a"
    and o: "length a \<le> unat off" "unat off < p"
    and n: "n = min (unat sz) (p - unat off)" and mem: "pos + unat sz \<le> length mem"
  shows "\<exists>b. unat b = n \<and> prepare_write_buffer l off mem pos sz =
      Inr (unat off + n = p, put_wb l (fill_to p (fill_to (unat off) a @ bytes_at mem pos n)) (off + b), b) \<and>
      unat (off + b) = unat off + n"
proof -
  let ?b = "min sz (vl_page_size l - off)"
  have ol: "off < vl_page_size l" using o(2) p(1) by (simp add: word_less_nat_alt)
  then have b: "unat ?b = n" using n p(1) by (simp add: unat_min unat_sub_nw)
  have s: "unat (off + ?b) = unat off + n"
    using b n p(1) unat_width[of "vl_page_size l"] o(2) by (subst unat_add_nw) auto
  have c: "\<not> off < wb_offset (vl_write_buffer l)" "\<not> vl_page_size l \<le> off" "vl_page_size l \<noteq> 0"
    using o wb(3) p ol by (auto simp: word_less_nat_alt word_le_nat_alt)
  have q: "(?b \<noteq> sz \<or> off + ?b = vl_page_size l) = (unat off + n = p)"
    using b s n o(2) p(1) by (auto simp: word_unat_eq_iff)
  have m: "pos + n \<le> length mem" using mem n by simp
  have w: "unat off + n \<le> p" using n o(2) by simp
  have wr: "wr (fill_to p a) (unat off) (bytes_at mem pos n) = Inr (fill_to p (fill_to (unat off) a @ bytes_at mem pos n))"
    using w o m by (simp add: overwrite_fill)
  have "prepare_write_buffer l off mem pos sz =
      Inr (?b \<noteq> sz \<or> off + ?b = vl_page_size l, put_wb l (fill_to p (fill_to (unat off) a @ bytes_at mem pos n)) (off + ?b), ?b)"
    using wb c m wr by (simp add: prepare_write_buffer_def Let_def b)
  then show ?thesis using b s unfolding q by blast
qed

lemma write_step_same_page:
  assumes "steady os p" and p: "p = unat (vl_page_size l)" and geo: "peb_geometry l base" and ops: "env_dev_ops (vl_env l) = ops"
    and ls: "log_state base l f im st"
    and d: "d = unat (ws_peb_offset st)" "length im \<le> d" "d div p = length im div p"
    and sz: "0 < unat sz" "d + unat sz \<le> unat (erase_size (vl_env l))" and mem: "pos + unat sz \<le> length mem"
    and n: "n = min (unat sz) (p - d mod p)"
  shows "\<exists>b st'. write_extent_step os mem pos sz st = Some (Inr (b, st')) \<and> unat b = n \<and>
      log_state base l f (fill_to d im @ bytes_at mem pos n) st' \<and> unat (ws_peb_offset st') = d + n"
proof -
  let ?k = "p * (length im div p)" let ?im = "fill_to d im @ bytes_at mem pos n" let ?L = "ws_layout st"
  from geo p have p0: "0 < p" by (simp add: peb_geometry_def Let_def)
  note s = ls[unfolded log_state_def Let_def p[symmetric]]
  note f = same_volume_fields[OF s[THEN conjunct1]]
  have k: "?k + d mod p = d" "?k + length im mod p = length im" "?k \<le> length im"
    using d(3) by (metis mult_div_mod_eq) (simp_all add: p0)
  have bytes: "length (bytes_at mem pos n) = n" using mem n by simp
  let ?off = "ws_peb_offset st mod vl_page_size l"
  have off: "unat ?off = d mod p" using d(1) p by (simp add: unat_mod)
  have kd: "?k \<le> d" using k(3) d(2) by (rule le_trans)
  have dk: "d - ?k = d mod p" using k(1) by linarith
  have al: "length (drop ?k im) = length im mod p" by (simp add: minus_mult_div_eq_mod)
  have "\<exists>b. unat b = n \<and> prepare_write_buffer ?L ?off mem pos sz =
      Inr (unat ?off + n = p, put_wb ?L (fill_to p (fill_to (unat ?off) (drop ?k im) @ bytes_at mem pos n)) (?off + b), b) \<and>
      unat (?off + b) = unat ?off + n"
  proof (rule prepare_copies)
    show "length (drop ?k im) \<le> unat ?off" unfolding al off using k d(2) by linarith
  qed (use s f p p0 off n mem al in simp_all)
  then obtain b where b: "unat b = n" "unat (?off + b) = d mod p + n"
    and prep: "prepare_write_buffer ?L ?off mem pos sz =
      Inr (d mod p + n = p, put_wb ?L (fill_to p (fill_to (d mod p) (drop ?k im) @ bytes_at mem pos n)) (?off + b), b)"
    unfolding off by blast
  have im': "fill_to (d mod p) (drop ?k im) @ bytes_at mem pos n = drop ?k ?im"
    using k(3) d(2) dk le_trans[OF k(3) d(2)] by (simp add: drop_fill_to)
  have np: "n + d mod p \<le> p" "n \<le> unat sz" using n mod_less_divisor[OF p0, of d] by simp_all
  have po: "unat (ws_peb_offset st + b) = d + n"
    using b(1) d(1) np(2) sz(2) unat_width[of "erase_size (vl_env l)"] by (subst unat_add_nw) simp_all
  have bs: "\<not> sz < b" using b(1) np(2) by (simp add: word_less_nat_alt)
  have cap: "wb_capacity (vl_write_buffer ?L) = vl_page_size l" "vl_page_size l \<noteq> 0" using s p0 p by auto
  let ?L' = "put_wb ?L (fill_to p (drop ?k ?im)) (?off + b)"
  have sv: "same_volume l ?L'" using s same_volume_trans[OF _ same_volume_put_wb] by blast
  show ?thesis
  proof (cases "d mod p + n = p")
    case True
    then have len: "length ?im = ?k + p" using k kd d(2) bytes by simp
    have full: "fill_to p (drop ?k ?im) = drop ?k ?im" using len by simp
    have tk: "take ?k ?im = take ?k im" using k(3) d(2) kd by (simp add: take_fill_to)
    have lk: "length ?im - p = ?k" using len by simp
    have m0: "length ?im mod p = 0" unfolding len by simp
    have e0: "length ?im \<le> unat (erase_size (vl_env l))" using bytes np(2) sz(2) d(2) by simp
    have "\<exists>l'' dev''. flush_write_buffer os (ws_volume_offset st) (vl_page_size l) (?L', ws_dev st) = Some (Inr (l'', dev'')) \<and>
      log_state base l f ?im (st\<lparr>ws_layout := l'', ws_dev := dev'', ws_volume_offset := ws_volume_offset st + ucast (vl_page_size l),
        ws_flushed := ws_flushed st + vl_page_size l\<rparr>)"
    proof (rule flush_page[OF assms(1) p geo ops sv m0 _ e0], unfold lk tk)
      show "wb_ptr (vl_write_buffer ?L') = Some (drop ?k ?im)" unfolding full by (simp add: put_wb_def)
    qed (use s len p0 cap in \<open>simp_all add: put_wb_def\<close>)
    then obtain l'' dev'' where fl: "flush_write_buffer os (ws_volume_offset st) (vl_page_size l) (?L', ws_dev st) = Some (Inr (l'', dev''))"
      and ls': "log_state base l f ?im (st\<lparr>ws_layout := l'', ws_dev := dev'', ws_volume_offset := ws_volume_offset st + ucast (vl_page_size l),
        ws_flushed := ws_flushed st + vl_page_size l\<rparr>)" by blast
    have "write_extent_step os mem pos sz st = Some (Inr (b, st\<lparr>ws_layout := l'', ws_dev := dev'',
        ws_volume_offset := ws_volume_offset st + ucast (vl_page_size l), ws_flushed := ws_flushed st + vl_page_size l,
        ws_peb_offset := ws_peb_offset st + b\<rparr>))"
      using prep[unfolded im'] True fl cap bs by (simp add: write_extent_step_def Let_def)
    moreover have "log_state base l f ?im (st\<lparr>ws_layout := l'', ws_dev := dev'',
        ws_volume_offset := ws_volume_offset st + ucast (vl_page_size l), ws_flushed := ws_flushed st + vl_page_size l,
        ws_peb_offset := ws_peb_offset st + b\<rparr>)"
      using ls' by (simp add: log_state_def Let_def)
    ultimately show ?thesis using b(1) po by (intro exI conjI) (assumption | simp)+
  next
    case False
    with np have lt: "d mod p + n < p" by simp
    have len: "length ?im = ?k + (d mod p + n)" using k kd d(2) bytes by simp
    have q: "length ?im div p = length im div p" "length ?im mod p = d mod p + n"
      unfolding len using lt p0 by simp_all
    have "write_extent_step os mem pos sz st = Some (Inr (b, st\<lparr>ws_layout := ?L', ws_peb_offset := ws_peb_offset st + b\<rparr>))"
      using prep[unfolded im'] False cap bs by (simp add: write_extent_step_def Let_def)
    moreover have "log_state base l f ?im (st\<lparr>ws_layout := ?L', ws_peb_offset := ws_peb_offset st + b\<rparr>)"
      unfolding log_state_def Let_def p[symmetric] q using s sv b(2) cap(1) k kd d(2)
      by (auto simp: put_wb_def take_fill_to)
    ultimately show ?thesis using b(1) po by (intro exI conjI) (assumption | simp)+
  qed
qed

end

context page_device begin
lemma write_step_next_page:
  assumes "steady os p" and p: "p = unat (vl_page_size l)" and geo: "peb_geometry l base" and ops: "env_dev_ops (vl_env l) = ops"
    and ls: "log_state base l f im st"
    and d: "d = unat (ws_peb_offset st)" "length im \<le> d" "d - length im < p" "d div p \<noteq> length im div p"
      "d \<le> unat (erase_size (vl_env l))"
  shows "\<exists>st'. write_extent_step os mem pos sz st = Some (Inr (0, st')) \<and>
      log_state base l f (fill_to (p * (d div p)) im) st' \<and> ws_peb_offset st' = ws_peb_offset st"
proof -
  let ?k = "p * (length im div p)" let ?im = "fill_to (p * (d div p)) im" let ?L = "ws_layout st"
  from geo p have p0: "0 < p" by (simp add: peb_geometry_def Let_def)
  note s = ls[unfolded log_state_def Let_def p[symmetric]]
  note f = same_volume_fields[OF s[THEN conjunct1]]
  have "d < length im + p" using d(2,3) by linarith
  then have "d < (length im div p + 2) * p" using dividend_less_div_times[OF p0, of "length im"] by (simp add: algebra_simps)
  then have "d div p < length im div p + 2" using p0 by (simp add: div_less_iff_less_mult)
  moreover have "length im div p \<le> d div p" using d(2) by (rule div_le_mono)
  ultimately have q: "d div p = Suc (length im div p)" using d(4) by linarith
  have k: "?k + length im mod p = length im" "?k + p + d mod p = d"
    using mult_div_mod_eq[of p d, unfolded q] by (simp_all add: algebra_simps)
  have lt: "d mod p < length im mod p" using k d(3) by linarith
  have "length im \<le> ?k + p" using k(1) mod_less_divisor[OF p0, of "length im"] by linarith
  then have len: "length ?im = ?k + p" using q by simp
  let ?off = "ws_peb_offset st mod vl_page_size l"
  have off: "unat ?off = d mod p" using d(1) p by (simp add: unat_mod)
  have ol: "?off < wb_offset (vl_write_buffer ?L)" using s off lt by (simp add: word_less_nat_alt)
  have cap: "wb_capacity (vl_write_buffer ?L) = vl_page_size l" "vl_page_size l \<noteq> 0" using s p0 p by auto
  have prep: "prepare_write_buffer ?L ?off mem pos sz = Inr (True, ?L, 0)"
    using s cap ol by (simp add: prepare_write_buffer_def Let_def)
  have buf: "fill_to p (drop ?k im) = drop ?k ?im" using k(1) q by (simp add: drop_fill_to)
  have tk: "take ?k ?im = take ?k im" using k(1) by (simp add: take_fill_to)
  have lk: "length ?im - p = ?k" using len by simp
  have m0: "length ?im mod p = 0" unfolding len by simp
  have e0: "length ?im \<le> unat (erase_size (vl_env l))" using len k(2) d(5) by linarith
  have "\<exists>l'' dev''. flush_write_buffer os (ws_volume_offset st) (vl_page_size l) (?L, ws_dev st) = Some (Inr (l'', dev'')) \<and>
      log_state base l f ?im (st\<lparr>ws_layout := l'', ws_dev := dev'', ws_volume_offset := ws_volume_offset st + ucast (vl_page_size l),
        ws_flushed := ws_flushed st + vl_page_size l\<rparr>)"
    by (rule flush_page[OF assms(1) p geo ops s[THEN conjunct1] m0 _ e0], unfold lk tk) (use s len p0 cap buf in simp_all)
  then obtain l'' dev'' where fl: "flush_write_buffer os (ws_volume_offset st) (vl_page_size l) (?L, ws_dev st) = Some (Inr (l'', dev''))"
    and ls': "log_state base l f ?im (st\<lparr>ws_layout := l'', ws_dev := dev'', ws_volume_offset := ws_volume_offset st + ucast (vl_page_size l),
      ws_flushed := ws_flushed st + vl_page_size l\<rparr>)" by blast
  have "write_extent_step os mem pos sz st = Some (Inr (0, st\<lparr>ws_layout := l'', ws_dev := dev'',
      ws_volume_offset := ws_volume_offset st + ucast (vl_page_size l), ws_flushed := ws_flushed st + vl_page_size l\<rparr>))"
    using prep fl cap by (simp add: write_extent_step_def Let_def)
  with ls' show ?thesis by (intro exI conjI) (assumption | simp)+
qed

lemma write_loop_same_page:
  assumes "steady os p" and p: "p = unat (vl_page_size l)" and geo: "peb_geometry l base" and ops: "env_dev_ops (vl_env l) = ops"
  shows "log_state base l f im st \<Longrightarrow> d = unat (ws_peb_offset st) \<Longrightarrow> length im \<le> d \<Longrightarrow> d div p = length im div p \<Longrightarrow>
    0 < unat sz \<Longrightarrow> d + unat sz \<le> unat (erase_size (vl_env l)) \<Longrightarrow> pos + unat sz \<le> length mem \<Longrightarrow>
    \<exists>st'. write_extent_loop os mem pos sz st = Some (Inr st') \<and>
      log_state base l f (fill_to d im @ bytes_at mem pos (unat sz)) st' \<and> unat (ws_peb_offset st') = d + unat sz"
proof (induction "unat sz" arbitrary: sz pos im st d rule: less_induct)
  case less
  from geo p have p0: "0 < p" by (simp add: peb_geometry_def Let_def)
  define n where "n = min (unat sz) (p - d mod p)"
  have n0: "0 < n" "n \<le> unat sz" using less.prems(5) p0 by (simp_all add: n_def)
  obtain b st' where step: "write_extent_step os mem pos sz st = Some (Inr (b, st'))" "unat b = n"
    and ls: "log_state base l f (fill_to d im @ bytes_at mem pos n) st'" and po: "unat (ws_peb_offset st') = d + n"
    using write_step_same_page[OF assms less.prems(1-7) n_def] by blast
  have sz: "sz \<noteq> 0" "unat (sz - b) = unat sz - n"
    using less.prems(5) step(2) n0 by (auto simp: unat_sub_nw word_le_nat_alt)
  have loop: "write_extent_loop os mem pos sz st = write_extent_loop os mem (pos + n) (sz - b) st'"
    using sz step by (subst write_extent_loop.simps) simp
  let ?im = "fill_to d im @ bytes_at mem pos n"
  have len: "length ?im = d + n" using less.prems(3,7) n0 by simp
  show ?case
  proof (cases "n = unat sz")
    case True
    with sz(2) have "sz - b = 0" by (simp add: word_unat_eq_iff)
    then have "write_extent_loop os mem pos sz st = Some (Inr st')"
      unfolding loop by (subst write_extent_loop.simps) simp
    then show ?thesis using ls po True by blast
  next
    case False
    with n0 have lt: "n < unat sz" by simp
    have "\<exists>st''. write_extent_loop os mem (pos + n) (sz - b) st' = Some (Inr st'') \<and>
        log_state base l f (fill_to (d + n) ?im @ bytes_at mem (pos + n) (unat (sz - b))) st'' \<and>
        unat (ws_peb_offset st'') = d + n + unat (sz - b)"
      by (rule less.hyps) (use lt n0 sz ls po len less.prems in auto)
    moreover have "fill_to (d + n) ?im @ bytes_at mem (pos + n) (unat (sz - b)) = fill_to d im @ bytes_at mem pos (unat sz)"
      using len sz(2) lt by (simp add: bytes_at_def take_add[symmetric] add.commute[of pos] flip: drop_drop)
    ultimately show ?thesis unfolding loop using sz(2) lt by simp
  qed
qed

end

context page_device begin
lemma write_loop_ok:
  assumes "steady os p" and p: "p = unat (vl_page_size l)" and geo: "peb_geometry l base" and ops: "env_dev_ops (vl_env l) = ops"
    and ls: "log_state base l f im st" and d: "d = unat (ws_peb_offset st)" "length im \<le> d" "d - length im < p"
    and sz: "0 < unat sz" "d + unat sz \<le> unat (erase_size (vl_env l))" "pos + unat sz \<le> length mem"
  shows "\<exists>st'. write_extent_loop os mem pos sz st = Some (Inr st') \<and>
      log_state base l f (fill_to d im @ bytes_at mem pos (unat sz)) st' \<and> unat (ws_peb_offset st') = d + unat sz"
proof (cases "d div p = length im div p")
  case True
  then show ?thesis using write_loop_same_page[OF assms(1-5)] d sz by blast
next
  case False
  from geo p have p0: "0 < p" by (simp add: peb_geometry_def Let_def)
  let ?im = "fill_to (p * (d div p)) im"
  obtain st' where step: "write_extent_step os mem pos sz st = Some (Inr (0, st'))"
    and ls': "log_state base l f ?im st'" and po: "ws_peb_offset st' = ws_peb_offset st"
    using write_step_next_page[OF assms(1-5) d False] sz by (metis add_leD1)
  have "sz \<noteq> 0" using sz(1) by auto
  then have loop: "write_extent_loop os mem pos sz st = write_extent_loop os mem pos sz st'"
    using step by (subst write_extent_loop.simps) simp
  have below: "p * (d div p) \<le> d" by (simp add: times_div_less_eq_dividend)
  then have len: "length ?im \<le> d" using d(2) by simp
  have "length im div p \<le> d div p" using d(2) by (rule div_le_mono)
  with False have "Suc (length im div p) \<le> d div p" by simp
  then have "p * Suc (length im div p) \<le> p * (d div p)" by (rule mult_le_mono2)
  then have "length im \<le> p * (d div p)"
    using mod_less_divisor[OF p0, of "length im"] mult_div_mod_eq[of p "length im"] unfolding mult_Suc_right by linarith
  then have "length ?im = p * (d div p)" by simp
  then have "d div p = length ?im div p" using p0 by simp
  moreover have "fill_to d ?im = fill_to d im" using below by (rule fill_to_fill_to)
  ultimately show ?thesis
    using write_loop_same_page[OF assms(1-4) ls' d(1)[folded po] len _ sz(1,2) sz(3)] unfolding loop by simp
qed

lemma write_extent_ok:
  assumes "steady os p" and p: "p = unat (vl_page_size l)" and geo: "peb_geometry l base" and ops: "env_dev_ops (vl_env l) = ops"
    and fits: "extent_fits p (unat (erase_size (vl_env l))) peb i"
    and ls: "log_state base l f (log_image peb i) st \<and> unat (ws_peb_offset st) = length (log_image peb i)"
  shows "\<exists>st'. write_extent os peb i st = Some (Inr st') \<and>
      log_state base l f (log_image peb (Suc i)) st' \<and> unat (ws_peb_offset st') = length (log_image peb (Suc i))"
proof (cases "ext_buf (extent_of peb (int i))")
  case None
  then show ?thesis using ls by (simp add: write_extent_def log_image_Suc add_extent_def Let_def)
next
  case (Some mem)
  let ?d = "extent_of peb (int i)" let ?im = "log_image peb i"
  let ?st = "st\<lparr>ws_peb_offset := ext_offset ?d\<rparr>"
  have e: "0 < unat (ext_bytes_count ?d)" "unat (ext_bytes_count ?d) \<le> length mem" "length ?im \<le> unat (ext_offset ?d)"
      "unat (ext_offset ?d) - length ?im < p"
      "unat (ext_offset ?d) + unat (ext_bytes_count ?d) \<le> unat (erase_size (vl_env l))"
    using fits Some by (simp_all add: extent_fits_def Let_def)
  have "log_state base l f ?im ?st" using ls by (simp add: log_state_def Let_def)
  then obtain st' where run: "write_extent_loop os mem 0 (ext_bytes_count ?d) ?st = Some (Inr st')"
    and r: "log_state base l f (fill_to (unat (ext_offset ?d)) ?im @ bytes_at mem 0 (unat (ext_bytes_count ?d))) st'"
      "unat (ws_peb_offset st') = unat (ext_offset ?d) + unat (ext_bytes_count ?d)"
    using write_loop_ok[OF assms(1-4), of f ?im ?st "unat (ext_offset ?d)" "ext_bytes_count ?d" 0 mem] e by auto
  have "\<not> ext_offset ?d < ws_peb_offset st" using ls e(3) by (simp add: word_less_nat_alt)
  then have "write_extent os peb i st = Some (Inr st')" using Some run by (simp add: write_extent_def Let_def)
  moreover have "log_image peb (Suc i) = fill_to (unat (ext_offset ?d)) ?im @ bytes_at mem 0 (unat (ext_bytes_count ?d))"
    using Some by (simp add: log_image_Suc add_extent_def Let_def bytes_at_def)
  moreover from this have "length (log_image peb (Suc i)) = unat (ext_offset ?d) + unat (ext_bytes_count ?d)"
    using e by simp
  ultimately show ?thesis using r by simp
qed

lemma flush_rest_ok:
  assumes "steady os p" and p: "p = unat (vl_page_size l)" and geo: "peb_geometry l base" and ops: "env_dev_ops (vl_env l) = ops"
    and ls: "log_state base l f im st" and po: "unat (ws_peb_offset st) = length im" and len: "length im \<le> unat (erase_size (vl_env l))"
  shows "\<exists>st'. flush_rest os st = Some (Inr st') \<and> same_volume l (ws_layout st') \<and>
      wb_ptr (vl_write_buffer (ws_layout st')) = Some (fill_to p []) \<and> wb_offset (vl_write_buffer (ws_layout st')) = 0 \<and>
      wb_capacity (vl_write_buffer (ws_layout st')) = vl_page_size l \<and>
      dv_file (ws_dev st') = file_write f base (whole_pages p im)"
proof -
  let ?k = "p * (length im div p)" let ?r = "length im mod p" let ?L = "ws_layout st"
  from geo p have g: "0 < p" "0 < unat (erase_size (vl_env l))" "p dvd unat (erase_size (vl_env l))"
    "unat (erase_size (vl_env l)) dvd base" "base + unat (erase_size (vl_env l)) < 2 ^ 64" by (simp_all add: peb_geometry_def Let_def)
  note s = ls[unfolded log_state_def Let_def p[symmetric]]
  note f = same_volume_fields[OF s[THEN conjunct1]]
  have k: "?k + ?r = length im" by simp
  show ?thesis
  proof (cases "?r = 0")
    case True
    with k have im: "?k = length im" by simp
    have "ws_peb_offset st \<le> ws_flushed st" using s po im by (simp add: word_le_nat_alt)
    then have "flush_rest os st = Some (Inr st)" by (simp add: flush_rest_def)
    moreover have "(length im + p - 1) div p = length im div p"
      by (rule div_nat_eqI) (use im g(1) in \<open>simp_all add: mult_Suc_right\<close>)
    then have "whole_pages p im = im" by (simp add: whole_pages_def im)
    ultimately show ?thesis using s True im by (simp add: word_unat_eq_iff)
  next
    case False
    then have r: "0 < ?r" "?r < p" using g(1) by simp_all
    have kl: "?k < length im" using k r by linarith
    have below: "?k + p \<le> unat (erase_size (vl_env l))"
    proof -
      obtain c where c: "unat (erase_size (vl_env l)) = p * c" using g(3) ..
      with len k r have "p * (length im div p) < p * c" by linarith
      then have "Suc (length im div p) \<le> c" by (simp add: Suc_le_eq)
      then have "p * Suc (length im div p) \<le> p * c" by (rule mult_le_mono2)
      then show ?thesis using c by simp
    qed
    have diff: "unat (ws_peb_offset st - ws_flushed st) = ?r"
      using s po k by (subst unat_sub_nw) (auto simp: word_le_nat_alt minus_mult_div_eq_mod)
    have gt: "\<not> ws_peb_offset st \<le> ws_flushed st" using s po kl by (simp add: word_le_nat_alt)
    have pm: "unat (vl_page_size l - 1) = p - 1" using g(1) p by (simp add: unat_sub_nw word_le_nat_alt)
    have twice: "?r + p < 2 ^ 32"
    proof -
      obtain c where c: "unat (erase_size (vl_env l)) = p * c" using g(3) ..
      have "p < unat (erase_size (vl_env l))" using geo p by (simp add: peb_geometry_def Let_def)
      then have "p * 1 < p * c" unfolding c by simp
      then have "2 \<le> c" by simp
      then have "p * 2 \<le> p * c" by (rule mult_le_mono2)
      moreover have "p * c < 2 ^ 32" using c unat_width[of "erase_size (vl_env l)"] by simp
      ultimately show ?thesis using r by linarith
    qed
    have up: "unat (ws_peb_offset st - ws_flushed st + (vl_page_size l - 1)) = ?r + (p - 1)"
      using diff pm twice by (subst unat_add_nw) simp_all
    have "(?r + (p - 1)) div p = 1" using r by (simp add: div_nat_eqI)
    then have q: "(ws_peb_offset st - ws_flushed st + (vl_page_size l - 1)) div vl_page_size l = 1"
      using up p by (simp add: word_unat_eq_iff unat_div)
    have km: "(base + ?k) mod unat (erase_size (vl_env l)) = ?k"
    proof -
      from g(4) obtain c where "base = unat (erase_size (vl_env l)) * c" ..
      then have "(base + ?k) mod unat (erase_size (vl_env l)) = ?k mod unat (erase_size (vl_env l))" by simp
      then show ?thesis using below g(1) by simp
    qed
    have bd: "p dvd base + ?k" using dvd_trans[OF g(3,4)] by (simp add: dvd_add)
    have lr: "length (drop ?k im) = ?r" by (simp add: minus_mult_div_eq_mod)
    have "\<exists>l' dev'. flush_write_buffer os (ws_volume_offset st) (vl_page_size l) (?L, ws_dev st) = Some (Inr (l', dev')) \<and>
        same_volume ?L l' \<and> wb_ptr (vl_write_buffer l') = Some (fill_to p []) \<and> wb_offset (vl_write_buffer l') = 0 \<and>
        wb_capacity (vl_write_buffer l') = vl_page_size ?L \<and>
        dv_file dev' = file_write (dv_file (ws_dev st)) (unat (ws_volume_offset st))
          (take (unat (vl_page_size l)) (fill_to p (drop ?k im)))"
    proof (rule flush_ok[OF assms(1)])
      show "length (fill_to p (drop ?k im)) = p" unfolding length_fill_to lr using r by simp
      show "unat (ws_volume_offset st) mod unat (erase_size (vl_env ?L)) + unat (vl_page_size l) \<le> unat (erase_size (vl_env ?L))"
        using s f km below p by simp
    qed (use s f p g ops bd below in \<open>auto simp: word_unat_eq_iff\<close>)
    then obtain l' dev' where run: "flush_write_buffer os (ws_volume_offset st) (vl_page_size l) (?L, ws_dev st) = Some (Inr (l', dev'))"
      and w: "same_volume ?L l'" "wb_ptr (vl_write_buffer l') = Some (fill_to p [])" "wb_offset (vl_write_buffer l') = 0"
        "wb_capacity (vl_write_buffer l') = vl_page_size ?L"
        "dv_file dev' = file_write (dv_file (ws_dev st)) (unat (ws_volume_offset st))
          (take (unat (vl_page_size l)) (fill_to p (drop ?k im)))" by blast
    have nz: "vl_page_size l \<noteq> 0" using p g(1) by auto
    have "flush_rest os st = Some (Inr (st\<lparr>ws_layout := l', ws_dev := dev'\<rparr>))"
      using run gt q f(2) nz by (simp add: flush_rest_def Let_def)
    moreover have "dv_file dev' = file_write f base (whole_pages p im)"
    proof -
      have "take (unat (vl_page_size l)) (fill_to p (drop ?k im)) = fill_to p (drop ?k im)"
        using lr r by (intro take_all) (simp add: p[symmetric])
      moreover have "take ?k im @ fill_to p (drop ?k im) = whole_pages p im"
      proof -
        have "(length im + p - 1) div p = Suc (length im div p)"
        proof -
          have "p * Suc (length im div p) \<le> length im + p - 1" "length im + p - 1 < p * Suc (Suc (length im div p))"
            unfolding mult_Suc_right using k r by linarith+
          then show ?thesis by (rule div_nat_eqI)
        qed
        moreover have rest: "p * Suc (length im div p) - length im = p - ?r" unfolding mult_Suc_right using k r by linarith
        ultimately have "whole_pages p im = im @ replicate (p - ?r) 0xFF"
          by (simp add: whole_pages_def fill_to_def del: mult_Suc_right)
        also have "im = take ?k im @ drop ?k im" by simp
        finally show ?thesis by (simp add: fill_to_def minus_mult_div_eq_mod)
      qed
      ultimately show ?thesis unfolding w(5) using s file_write_append[of ?k "take ?k im" f base] k by simp
    qed
    ultimately show ?thesis using w same_volume_trans[OF s[THEN conjunct1] w(1)] f by auto
  qed
qed

end

context page_device begin
lemma write_peb_run:
  assumes "steady os p" and p: "p = unat (vl_page_size l)" and ops: "env_dev_ops (vl_env l) = ops"
    and geo: "peb_geometry l base" "base = unat (pc_peb_id peb) * unat (erase_size (vl_env l))"
    and seg: "int i < vl_segs_capacity l" "i < length (vl_segs l)" "seg = vl_segs l ! i"
      "j < unat (sd_pebs_count seg)" "j < length (sd_pebs seg)" "peb = sd_pebs seg ! j"
    and wb: "wb_ptr (vl_write_buffer l) = Some b" "length b = p" "wb_capacity (vl_write_buffer l) = vl_page_size l"
      "wb_offset (vl_write_buffer l) = 0"
    and fits: "\<And>k. k < SSDFS_SEG_LOG_ITEMS_COUNT \<Longrightarrow> extent_fits p (unat (erase_size (vl_env l))) peb k"
  shows "\<exists>l' dev' off. write_peb os i j (l, dev) = Some (finish_peb os seg off (l', dev')) \<and> unat off = base \<and> same_volume l l' \<and>
      wb_ptr (vl_write_buffer l') = Some (fill_to p []) \<and> wb_offset (vl_write_buffer l') = 0 \<and>
      wb_capacity (vl_write_buffer l') = vl_page_size l \<and>
      dv_file dev' = file_write (dv_file dev) base (whole_pages p (log_image peb SSDFS_SEG_LOG_ITEMS_COUNT))"
proof -
  let ?e = "unat (erase_size (vl_env l))" let ?off = "pc_peb_id peb * ucast (erase_size (vl_env l))"
  let ?l = "put_wb l (fill_to p []) 0"
  let ?st = "\<lparr>ws_layout = ?l, ws_dev = dev, ws_volume_offset = ?off, ws_peb_offset = 0, ws_flushed = 0\<rparr>"
  have off: "unat ?off = base"
    using geo by (subst unat_mult_nw) (simp_all add: unat_ucast_up peb_geometry_def Let_def)
  have len: "length (log_image peb k) \<le> ?e" if "k \<le> SSDFS_SEG_LOG_ITEMS_COUNT" for k
    using that
  proof (induction k)
    case (Suc k)
    then show ?case using fits[of k]
      by (auto simp: log_image_Suc add_extent_def extent_fits_def Let_def split: option.splits)
  qed (simp add: log_image_def)
  have "log_state base l (dv_file dev) (log_image peb 0) ?st"
    using wb off by (simp add: log_state_def Let_def log_image_def p[symmetric] same_volume_put_wb[unfolded put_wb_def] put_wb_def file_write_def)
  then obtain st where run: "ofor 0 SSDFS_SEG_LOG_ITEMS_COUNT (write_extent os peb) ?st = Some (Inr st)"
    and ls: "log_state base l (dv_file dev) (log_image peb SSDFS_SEG_LOG_ITEMS_COUNT) st"
      "unat (ws_peb_offset st) = length (log_image peb SSDFS_SEG_LOG_ITEMS_COUNT)"
    using ofor_total[where a = 0 and b = SSDFS_SEG_LOG_ITEMS_COUNT and f = "write_extent os peb" and s = ?st
        and I = "\<lambda>k st. log_state base l (dv_file dev) (log_image peb k) st \<and> unat (ws_peb_offset st) = length (log_image peb k)"]
      write_extent_ok[OF assms(1,2) geo(1) ops fits] by (auto simp: log_image_def)
  obtain st' where rest: "flush_rest os st = Some (Inr st')"
    and r: "same_volume l (ws_layout st')" "wb_ptr (vl_write_buffer (ws_layout st')) = Some (fill_to p [])"
      "wb_offset (vl_write_buffer (ws_layout st')) = 0" "wb_capacity (vl_write_buffer (ws_layout st')) = vl_page_size l"
      "dv_file (ws_dev st') = file_write (dv_file dev) base (whole_pages p (log_image peb SSDFS_SEG_LOG_ITEMS_COUNT))"
    using flush_rest_ok[OF assms(1,2) geo(1) ops ls len] by blast
  have "write_peb os i j (l, dev) = Some (finish_peb os seg ?off (ws_layout st', ws_dev st'))"
    using seg wb run rest by (simp add: write_peb_def Let_def memset_whole p[symmetric])
  with off r show ?thesis by blast
qed

end

section \<open>The tables of device operations keep the contract\<close>

text \<open>Every transfer of at most \<open>n\<close> bytes finishes, and zones can be opened.\<close>

definition steady_io :: "os \<Rightarrow> nat \<Rightarrow> bool" where
  "steady_io os n \<longleftrightarrow> (\<forall>k. Fail \<notin> set (os_io os k) \<and> n \<le> length (filter progress (os_io os k)))"

definition steady_zones :: "os \<Rightarrow> nat \<Rightarrow> bool" where
  "steady_zones os n \<longleftrightarrow> steady_io os n \<and> (\<forall>start len. os_open_zone os start len)"

lemma zone_bound:
  fixes off :: u64
  assumes "unat off mod e + n \<le> e" "unat off - unat off mod e + e < 2 ^ 64"
  shows "unat off + n < 2 ^ 64"
  using assms mod_less_eq_dividend[of "unat off" e] by linarith

lemma dev_pwrite_steady:
  assumes "steady_io os n" "length data \<le> n" "unat off + length data < 2 ^ 64"
  shows "dev_pwrite os dev off data =
    Some (Inr (dev\<lparr>dv_file := file_write (dv_file dev) (unat off) data, dv_calls := dv_calls dev + 1\<rparr>))"
proof -
  have "ssdfs_pwrite (os_io os (dv_calls dev)) (dv_file dev) off data = Some (Inr (file_write (dv_file dev) (unat off) data))"
    by (rule ssdfs_pwrite_complete) (use assms in \<open>auto simp: steady_io_def intro: le_trans\<close>)
  then show ?thesis by (simp add: dev_pwrite_def)
qed

interpretation bdev: page_device bdev_ops steady_io
  by unfold_locales (simp add: dev_write_def bdev_write_def dev_pwrite_steady zone_bound)

interpretation mtd: page_device mtd_ops steady_io
  by unfold_locales (simp add: dev_write_def mtd_write_def dev_pwrite_steady zone_bound)

interpretation zns: page_device zns_ops steady_zones
proof
  fix os n and data :: buf and info :: ssdfs_nand_geometry and off :: u64 and dev zones
  assume a: "steady_zones os n" "length data \<le> n" "ng_erasesize info \<noteq> 0"
    "unat off mod unat (ng_erasesize info) + length data \<le> unat (ng_erasesize info)"
    "unat off - unat off mod unat (ng_erasesize info) + unat (ng_erasesize info) < 2 ^ 64"
  let ?e = "unat (ng_erasesize info)" let ?z = "off div ucast (ng_erasesize info) * ucast (ng_erasesize info)"
  have zb: "unat off div ?e * ?e < 2 ^ 64"
    by (rule le_less_trans[OF div_times_less_eq_dividend]) (use unat_width[of off] in simp)
  have z: "unat ?z = unat off - unat off mod ?e"
    using zb by (subst unat_mult_nw) (simp_all add: unat_div unat_ucast_up minus_mod_eq_div_mult)
  have end_of_zone: "unat (?z + ucast (ng_erasesize info)) = unat off - unat off mod ?e + ?e"
    using a(5) z by (subst unat_add_nw) (simp_all add: unat_ucast_up)
  have b: "unat off + length data < 2 ^ 64" using a(4,5) by (rule zone_bound)
  have "unat (off + of_nat (length data)) = unat off + length data"
    using b by (subst unat_add_nw) (simp_all add: unat_of_nat take_bit_nat_eq_self)
  then have inside: "\<not> ?z + ucast (ng_erasesize info) < off + of_nat (length data)"
    using a(4) end_of_zone mod_less_eq_dividend[of "unat off" ?e] by (simp add: word_less_nat_alt)
  have nz: "(ucast (ng_erasesize info) :: u64) \<noteq> 0" using a(3) by (simp add: word_unat_eq_iff unat_ucast_up)
  show "\<exists>dev' zones'. dev_write os zns_ops dev info off data zones = Some (Inr (dev', zones')) \<and>
      dv_file dev' = file_write (dv_file dev) (unat off) data"
    using a(1,2) b inside nz dev_pwrite_steady[of os n data off dev]
    by (simp add: dev_write_def zns_write_def steady_zones_def Let_def)
qed

section \<open>What the check before writing guarantees\<close>

text \<open>
  What \<^verbatim>\<open>check_peb_before_write\<close> does not look at: the extents lie in their memory, and the first one starts in the
  first page of the PEB.
\<close>

definition extents_backed :: "nat \<Rightarrow> ssdfs_peb_content \<Rightarrow> bool" where
  "extents_backed p peb \<longleftrightarrow>
     (\<forall>k<9. case ext_buf (extent_of peb (int k)) of
        None \<Rightarrow> True
      | Some mem \<Rightarrow> unat (ext_bytes_count (extent_of peb (int k))) \<le> length mem \<and>
          (log_image peb k = [] \<longrightarrow> unat (ext_offset (extent_of peb (int k))) < p))"

lemma check_extent_accepts:
  assumes "check_extent_before_write l pid desc = Inr ()" "ext_buf desc \<noteq> None"
  shows "0 < unat (ext_bytes_count desc)"
    "unat (ext_offset desc) + unat (ext_bytes_count desc) \<le> unat (erase_size (vl_env l))"
    "unat pid * unat (erase_size (vl_env l)) + unat (erase_size (vl_env l)) < 2 ^ 64"
proof -
  let ?e = "unat (erase_size (vl_env l))" let ?E = "ucast (erase_size (vl_env l)) :: u64"
  have c: "\<not> U64_MAX div ?E \<le> pid" "(ucast (ext_bytes_count desc) :: u64) \<noteq> 0"
    "\<not> ?E < ucast (ext_offset desc) + ucast (ext_bytes_count desc)"
    using assms by (auto simp: check_extent_before_write_def Let_def chk_eq_Inr guard_defs split: if_splits)
  show "0 < unat (ext_bytes_count desc)" using c(2) by (simp add: word_unat_eq_iff unat_ucast_up)
  have "unat (ucast (ext_offset desc) + ucast (ext_bytes_count desc) :: u64) = unat (ext_offset desc) + unat (ext_bytes_count desc)"
    using unat_width[of "ext_offset desc"] unat_width[of "ext_bytes_count desc"]
    by (subst unat_add_nw) (simp_all add: unat_ucast_up)
  then show "unat (ext_offset desc) + unat (ext_bytes_count desc) \<le> ?e"
    using c(3) by (simp add: word_less_nat_alt unat_ucast_up)
  have "unat pid < unat (U64_MAX :: u64) div ?e"
    using c(1) by (simp add: word_le_nat_alt unat_div unat_ucast_up)
  then have "Suc (unat pid) * ?e \<le> (unat (U64_MAX :: u64) div ?e) * ?e" by (intro mult_le_mono1) simp
  also have "\<dots> \<le> unat (U64_MAX :: u64)" by (rule div_times_less_eq_dividend)
  also have "\<dots> < 2 ^ 64" using unat_width[of "U64_MAX :: u64"] by simp
  finally show "unat pid * ?e + ?e < 2 ^ 64" by simp
qed

text \<open>The two variables of the loop describe the image.\<close>

definition order_state :: "ssdfs_volume_layout \<Rightarrow> ssdfs_peb_content \<Rightarrow> nat \<Rightarrow> u32 \<times> u32 \<Rightarrow> bool" where
  "order_state l peb k = (\<lambda>(start_offset, payload_size).
     let e = unat (erase_size (vl_env l)); im = log_image peb k in
     (\<forall>i<k. extent_fits (unat (vl_page_size l)) e peb i) \<and>
     (if im = [] then start_offset = U32_MAX \<and> payload_size = U32_MAX
      else unat start_offset + unat payload_size = length im \<and> 0 < unat payload_size \<and> length im \<le> e \<and>
           unat start_offset < unat (vl_page_size l) \<and>
           unat (pc_peb_id peb) * e + e < 2 ^ 64))"

lemma check_extent_order_step:
  assumes ord: "order_state l peb k (s, n)" and run: "check_extent_order l peb k (s, n) = Inr t"
    and backed: "extents_backed (unat (vl_page_size l)) peb" "k < 9"
  shows "order_state l peb (Suc k) t"
proof (cases "ext_buf (extent_of peb (int k))")
  case None
  then show ?thesis using ord run
    by (auto simp: check_extent_order_def order_state_def Let_def log_image_Suc add_extent_def extent_fits_def less_Suc_eq)
next
  case (Some mem)
  let ?d = "extent_of peb (int k)" let ?im = "log_image peb k" let ?e = "unat (erase_size (vl_env l))"
  have chk: "check_extent_before_write l (pc_peb_id peb) ?d = Inr ()"
    using run Some by (auto simp: check_extent_order_def Let_def bnd_eq_Inr)
  note a = check_extent_accepts[OF chk]
  have mem: "unat (ext_bytes_count ?d) \<le> length mem" "?im = [] \<Longrightarrow> unat (ext_offset ?d) < unat (vl_page_size l)"
    using backed Some by (auto simp: extents_backed_def)
  have im': "log_image peb (Suc k) = fill_to (unat (ext_offset ?d)) ?im @ take (unat (ext_bytes_count ?d)) mem"
    using Some by (simp add: log_image_Suc add_extent_def Let_def)
  have e32: "?e < 2 ^ 32" using unat_width[of "erase_size (vl_env l)"] by simp
  show ?thesis
  proof (cases "?im = []")
    case True
    then have sn: "s = U32_MAX" "n = U32_MAX" using ord by (simp_all add: order_state_def Let_def)
    then have "t = (ext_offset ?d, ext_bytes_count ?d)"
      using run Some chk by (simp add: check_extent_order_def Let_def)
    then show ?thesis using ord a True mem Some im'
      by (auto simp: order_state_def Let_def extent_fits_def less_Suc_eq)
  next
    case False
    then have o: "unat s + unat n = length ?im" "0 < unat n" "length ?im \<le> ?e" "unat s < unat (vl_page_size l)"
      using ord by (auto simp: order_state_def Let_def)
    have ns: "\<not> (s = U32_MAX \<and> n = U32_MAX)" using o e32 by (auto simp: unat_minus_one_eq)
    have cur: "unat (s + n) = length ?im" using o e32 by (subst unat_add_nw) simp_all
    have t: "\<not> ext_offset ?d < s + n" "\<not> vl_page_size l \<le> ext_offset ?d - (s + n)"
        "t = (s, n + (ext_offset ?d - (s + n)) + ext_bytes_count ?d)"
      using run Some chk ns by (auto simp: check_extent_order_def Let_def bnd_eq_Inr guard_defs split: if_splits)
    have at: "length ?im \<le> unat (ext_offset ?d)" using t(1) cur by (simp add: word_less_nat_alt)
    have gap: "unat (ext_offset ?d - (s + n)) = unat (ext_offset ?d) - length ?im"
      using t(1) cur by (subst unat_sub_nw) (simp_all add: not_less)
    have pl: "unat (n + (ext_offset ?d - (s + n)) + ext_bytes_count ?d) =
        unat n + (unat (ext_offset ?d) - length ?im) + unat (ext_bytes_count ?d)"
    proof -
      have "unat (ext_offset ?d - s) = unat (ext_offset ?d) - unat s"
        using o(1) at by (subst unat_sub_nw) (simp_all add: word_le_nat_alt)
      then have "unat (ext_offset ?d - s + ext_bytes_count ?d) = unat (ext_offset ?d) - unat s + unat (ext_bytes_count ?d)"
        using a(2) Some e32 by (subst unat_add_nw) simp_all
      then show ?thesis using o(1) at by simp
    qed
    have fits: "extent_fits (unat (vl_page_size l)) ?e peb k"
      using Some a at gap t(2) mem by (simp add: extent_fits_def Let_def word_le_nat_alt)
    have len: "length (log_image peb (Suc k)) = unat (ext_offset ?d) + unat (ext_bytes_count ?d)"
      unfolding im' using at mem(1) by simp
    have ne: "log_image peb (Suc k) \<noteq> []" using len a(1) Some by auto
    have all: "\<forall>i<Suc k. extent_fits (unat (vl_page_size l)) ?e peb i"
      using ord fits by (auto simp: order_state_def Let_def less_Suc_eq)
    show ?thesis unfolding order_state_def Let_def t(3) prod.case
      using all ne len pl at o a Some by simp
  qed
qed

text \<open>The blocks of a log, and what a run of the check over some PEBs has established.\<close>

definition peb_base :: "ssdfs_volume_layout \<Rightarrow> ssdfs_peb_content \<Rightarrow> nat" where
  "peb_base l peb = unat (pc_peb_id peb) * unat (erase_size (vl_env l))"

definition peb_log :: "ssdfs_volume_layout \<Rightarrow> ssdfs_peb_content \<Rightarrow> buf" where
  "peb_log l peb = whole_pages (unat (vl_page_size l)) (log_image peb SSDFS_SEG_LOG_ITEMS_COUNT)"

definition log_blocks :: "ssdfs_volume_layout \<Rightarrow> ssdfs_peb_content \<Rightarrow> nat set" where
  "log_blocks l peb =
     (let p = unat (vl_page_size l) in {peb_base l peb div p ..< peb_base l peb div p + length (peb_log l peb) div p})"

definition log_accepted :: "ssdfs_volume_layout \<Rightarrow> ssdfs_peb_content \<Rightarrow> bool" where
  "log_accepted l peb \<longleftrightarrow>
     (let e = unat (erase_size (vl_env l)) in
      (\<forall>k<SSDFS_SEG_LOG_ITEMS_COUNT. extent_fits (unat (vl_page_size l)) e peb k) \<and>
      log_image peb SSDFS_SEG_LOG_ITEMS_COUNT \<noteq> [] \<and> length (log_image peb SSDFS_SEG_LOG_ITEMS_COUNT) \<le> e \<and>
      peb_base l peb + e < 2 ^ 64)"

definition disjoint_logs :: "ssdfs_volume_layout \<Rightarrow> ssdfs_peb_content \<Rightarrow> ssdfs_peb_content \<Rightarrow> bool" where
  "disjoint_logs l a b \<longleftrightarrow>
     peb_base l a + length (peb_log l a) \<le> peb_base l b \<or> peb_base l b + length (peb_log l b) \<le> peb_base l a"

definition pebs_accepted :: "ssdfs_volume_layout \<Rightarrow> ssdfs_peb_content list \<Rightarrow> buf \<Rightarrow> bool" where
  "pebs_accepted l pebs bmap \<longleftrightarrow>
     (\<forall>peb\<in>set pebs. log_accepted l peb) \<and> sorted_wrt (disjoint_logs l) pebs \<and>
     (\<forall>k. bmap_bit bmap 0 k \<longleftrightarrow> (\<exists>peb\<in>set pebs. k \<in> log_blocks l peb))"

definition page_geometry :: "ssdfs_volume_layout \<Rightarrow> bool" where
  "page_geometry l \<longleftrightarrow>
     0 < vl_page_size l \<and> vl_page_size l < erase_size (vl_env l) \<and> erase_size (vl_env l) mod vl_page_size l = 0 \<and>
     erase_size (vl_env l) \<le> 0x80000000"

lemma page_geometry_nat:
  assumes "page_geometry l"
  shows "0 < unat (vl_page_size l)" "unat (vl_page_size l) < unat (erase_size (vl_env l))"
    "unat (vl_page_size l) dvd unat (erase_size (vl_env l))"
    "unat (erase_size (vl_env l)) \<le> 2 ^ 31"
proof -
  show "0 < unat (vl_page_size l)" and "unat (vl_page_size l) < unat (erase_size (vl_env l))"
    using assms by (simp_all add: page_geometry_def word_less_nat_alt)
  show "unat (vl_page_size l) dvd unat (erase_size (vl_env l))"
    using assms by (auto simp: page_geometry_def word_unat_eq_iff unat_mod)
  show "unat (erase_size (vl_env l)) \<le> 2 ^ 31"
    using assms by (simp add: page_geometry_def word_le_nat_alt)
qed

lemma mark_blocks_run:
  assumes "for_res 0 n (mark_block start) bmap = Inr bmap'" "unat start + n < 2 ^ 64"
  shows "(\<forall>j<n. \<not> bmap_bit bmap 0 (unat start + j)) \<and>
    (\<forall>k. bmap_bit bmap' 0 k \<longleftrightarrow> bmap_bit bmap 0 k \<or> (unat start \<le> k \<and> k < unat start + n))"
proof (rule for_res_index_inv[OF assms(1), where I = "\<lambda>n t. (\<forall>j<n. \<not> bmap_bit bmap 0 (unat start + j)) \<and>
    (\<forall>k. bmap_bit t 0 k \<longleftrightarrow> bmap_bit bmap 0 k \<or> (unat start \<le> k \<and> k < unat start + n))"])
  fix i t t'
  assume i: "i < n" and I: "(\<forall>j<i. \<not> bmap_bit bmap 0 (unat start + j)) \<and>
      (\<forall>k. bmap_bit t 0 k \<longleftrightarrow> bmap_bit bmap 0 k \<or> (unat start \<le> k \<and> k < unat start + i))"
    and run: "mark_block start i t = Inr t'"
  have u: "unat (start + of_nat i) = unat start + i"
    using i assms(2) by (subst unat_add_nw) (simp_all add: unat_of_nat take_bit_nat_eq_self)
  have room: "8 * ((unat start + i) div 64) + 8 \<le> length t"
    using run by (auto simp: mark_block_def Let_def u test_bit_chk_def rd64_def bnd_def split: if_splits sum.splits)
  then have "t' = bmap_set t 0 (unat start + i)" "\<not> bmap_bit t 0 (unat start + i)"
    using run by (auto simp: mark_block_def Let_def u guard_defs split: if_splits)
  moreover from this have "bmap_bit t' 0 k \<longleftrightarrow> k = unat start + i \<or> bmap_bit t 0 k" for k
    using room bmap_bit_set[of 0 "unat start + i" t k] by simp
  ultimately show "(\<forall>j<Suc i. \<not> bmap_bit bmap 0 (unat start + j)) \<and>
      (\<forall>k. bmap_bit t' 0 k \<longleftrightarrow> bmap_bit bmap 0 k \<or> (unat start \<le> k \<and> k < unat start + Suc i))"
    using I by (auto simp: less_Suc_eq)
qed auto

lemma length_peb_log:
  "length (peb_log l peb) =
     (let p = unat (vl_page_size l); n = length (log_image peb SSDFS_SEG_LOG_ITEMS_COUNT) in max (p * ((n + p - 1) div p)) n)"
  by (simp add: peb_log_def whole_pages_def Let_def)

lemma peb_log_pages:
  assumes "page_geometry l" "log_accepted l peb"
  obtains a m where "peb_base l peb = unat (vl_page_size l) * a" "length (peb_log l peb) = unat (vl_page_size l) * m" "0 < m"
    "log_blocks l peb = {a ..< a + m}"
    "m = (length (log_image peb SSDFS_SEG_LOG_ITEMS_COUNT) + unat (vl_page_size l) - 1) div unat (vl_page_size l)"
proof -
  let ?p = "unat (vl_page_size l)" let ?n = "length (log_image peb SSDFS_SEG_LOG_ITEMS_COUNT)"
  note g = page_geometry_nat[OF assms(1)]
  define m where "m = (?n + ?p - 1) div ?p"
  have n: "0 < ?n" using assms(2) by (auto simp: log_accepted_def Let_def)
  have "?p dvd peb_base l peb" unfolding peb_base_def using g(3) by (rule dvd_mult)
  then obtain a where a: "peb_base l peb = ?p * a" ..
  have "?n \<le> m * ?p" unfolding m_def using g(1) by (rule ceil_div_mult_ge)
  then have len: "length (peb_log l peb) = ?p * m"
    by (simp add: length_peb_log Let_def m_def mult.commute)
  have "0 < m" using \<open>?n \<le> m * ?p\<close> n by (cases m) auto
  moreover have "log_blocks l peb = {a ..< a + m}"
    using a len g(1) by (simp add: log_blocks_def Let_def)
  ultimately show thesis using that a len m_def by blast
qed

lemma disjoint_blocks_logs:
  assumes "page_geometry l" "log_accepted l a" "log_accepted l b" "log_blocks l a \<inter> log_blocks l b = {}"
  shows "disjoint_logs l a b"
proof -
  let ?p = "unat (vl_page_size l)"
  obtain x m where a: "peb_base l a = ?p * x" "length (peb_log l a) = ?p * m" "0 < m" "log_blocks l a = {x ..< x + m}"
    using assms(1,2) by (rule peb_log_pages)
  obtain y n where b: "peb_base l b = ?p * y" "length (peb_log l b) = ?p * n" "0 < n" "log_blocks l b = {y ..< y + n}"
    using assms(1,3) by (rule peb_log_pages)
  have "x + m \<le> y \<or> y + n \<le> x"
  proof (rule ccontr)
    assume "\<not> (x + m \<le> y \<or> y + n \<le> x)"
    with a(3) b(3) have "max x y \<in> log_blocks l a \<inter> log_blocks l b" unfolding a(4) b(4) by auto
    with assms(4) show False by blast
  qed
  then have "?p * (x + m) \<le> ?p * y \<or> ?p * (y + n) \<le> ?p * x" by (auto intro: mult_le_mono2)
  then show ?thesis unfolding disjoint_logs_def a b by (simp add: distrib_left)
qed

lemma check_peb_accepts:
  assumes geo: "page_geometry l" and run: "check_peb_before_write l peb bmap = Inr (bmap', blks)"
    and backed: "extents_backed (unat (vl_page_size l)) peb"
  shows "log_accepted l peb" "\<And>k. k \<in> log_blocks l peb \<Longrightarrow> \<not> bmap_bit bmap 0 k"
    "\<And>k. bmap_bit bmap' 0 k \<longleftrightarrow> bmap_bit bmap 0 k \<or> k \<in> log_blocks l peb"
proof -
  let ?p = "unat (vl_page_size l)" let ?e = "unat (erase_size (vl_env l))"
  let ?n = "length (log_image peb SSDFS_SEG_LOG_ITEMS_COUNT)"
  note g = page_geometry_nat[OF geo]
  obtain s n where ord: "for_res 0 SSDFS_SEG_LOG_ITEMS_COUNT (check_extent_order l peb) (U32_MAX, U32_MAX) = Inr (s, n)"
    and c: "s \<noteq> U32_MAX" "n \<noteq> U32_MAX" "n \<noteq> 0"
    using run by (auto simp: check_peb_before_write_def Let_def bnd_eq_Inr guard_defs split: if_splits prod.splits)
  have "order_state l peb SSDFS_SEG_LOG_ITEMS_COUNT (s, n)"
  proof (rule for_res_index_inv[OF ord, where I = "order_state l peb"])
    show "order_state l peb 0 (U32_MAX, U32_MAX)" by (simp add: order_state_def log_image_def)
    fix i t t'
    assume "i < SSDFS_SEG_LOG_ITEMS_COUNT" "order_state l peb i t" "check_extent_order l peb i t = Inr t'"
    then show "order_state l peb (Suc i) t'"
      using check_extent_order_step[of l peb i "fst t" "snd t" t'] backed by simp
  qed simp
  then have o: "\<forall>i<SSDFS_SEG_LOG_ITEMS_COUNT. extent_fits ?p ?e peb i" "log_image peb SSDFS_SEG_LOG_ITEMS_COUNT \<noteq> []"
      "unat s + unat n = ?n" "?n \<le> ?e" "unat s < ?p" "peb_base l peb + ?e < 2 ^ 64"
    using c(1) by (auto simp: order_state_def Let_def peb_base_def split: if_splits)
  then show acc: "log_accepted l peb" by (simp add: log_accepted_def Let_def)
  have nz: "vl_page_size l \<noteq> 0" "(ucast (vl_page_size l) :: u64) \<noteq> 0" using g(1) by (auto simp: word_unat_eq_iff unat_ucast_up)
  have q: "s div vl_page_size l = 0" using o(5) by (simp add: word_unat_eq_iff unat_div)
  let ?start = "pc_peb_id peb * ucast (erase_size (vl_env l)) div ucast (vl_page_size l)"
  have mark: "for_res 0 (unat blks) (mark_block ?start) bmap = Inr bmap'" "blks = (n + s + vl_page_size l - 1) div vl_page_size l"
    using run ord c nz q by (auto simp: check_peb_before_write_def Let_def bnd_eq_Inr)
  have "unat (pc_peb_id peb * ucast (erase_size (vl_env l))) = peb_base l peb"
    using o(6) g(2) by (subst unat_mult_nw) (simp_all add: unat_ucast_up peb_base_def)
  then have start: "unat ?start = peb_base l peb div ?p" by (simp add: unat_div unat_ucast_up)
  obtain c where ce: "?e = ?p * c" using g(3) ..
  obtain a m where log: "peb_base l peb = ?p * a" "length (peb_log l peb) = ?p * m" "0 < m" "log_blocks l peb = {a ..< a + m}"
      "m = (?n + ?p - 1) div ?p"
    using geo acc by (rule peb_log_pages)
  have sum: "unat (n + s) = ?n" using o(3,4) g(4) by (subst unat_add_nw) simp_all
  have "unat (n + s + vl_page_size l) = ?n + ?p" using sum o(4) g(2,4) by (subst unat_add_nw) simp_all
  then have "unat (n + s + vl_page_size l - 1) = ?n + ?p - 1"
    using g(1) by (subst unat_sub_nw) (simp_all add: word_le_nat_alt)
  then have blks: "unat blks = m" unfolding mark(2) log(5) by (simp add: unat_div)
  have a: "unat ?start = a" using start log(1) g(1) by simp
  have "m \<le> c" unfolding log(5) using o(4) ce g(1) by (simp only: ceil_div_le_iff mult.commute)
  then have "a + m \<le> ?p * (a + c)" using g(1) by (metis add_le_mono1 add_left_mono le_trans mult_le_mono1 nat_mult_1 Suc_leI One_nat_def)
  also have "\<dots> < 2 ^ 64" using o(6) log(1) ce by (simp add: distrib_left)
  finally have "a + m < 2 ^ 64" .
  from mark_blocks_run[OF mark(1), unfolded a blks, OF this]
  show "\<And>k. k \<in> log_blocks l peb \<Longrightarrow> \<not> bmap_bit bmap 0 k"
    "\<And>k. bmap_bit bmap' 0 k \<longleftrightarrow> bmap_bit bmap 0 k \<or> k \<in> log_blocks l peb"
    unfolding log(4) by (auto dest: le_Suc_ex)
qed

lemma pebs_accepted_step:
  assumes geo: "page_geometry l" and acc: "pebs_accepted l pebs bmap"
    and run: "check_peb_before_write l peb bmap = Inr (bmap', blks)" and backed: "extents_backed (unat (vl_page_size l)) peb"
  shows "pebs_accepted l (pebs @ [peb]) bmap'"
proof -
  note c = check_peb_accepts[OF geo run backed]
  have "disjoint_logs l a peb" if "a \<in> set pebs" for a
    using that acc c(1,2) by (intro disjoint_blocks_logs[OF geo]) (auto simp: pebs_accepted_def)
  then show ?thesis using acc c by (auto simp: pebs_accepted_def sorted_wrt_append)
qed

definition seg_pebs :: "ssdfs_segment_desc \<Rightarrow> ssdfs_peb_content list" where
  "seg_pebs seg = take (unat (sd_pebs_count seg)) (sd_pebs seg)"

definition volume_pebs :: "ssdfs_volume_layout \<Rightarrow> nat \<Rightarrow> ssdfs_peb_content list" where
  "volume_pebs l n = concat (map seg_pebs (take n (vl_segs l)))"

lemma volume_pebs_Suc:
  "i < length (vl_segs l) \<Longrightarrow> volume_pebs l (Suc i) = volume_pebs l i @ seg_pebs (vl_segs l ! i)"
  by (simp add: volume_pebs_def take_Suc_conv_app_nth)

lemma check_segment_accepts:
  assumes geo: "page_geometry l" and run: "check_segment_before_write l cap i bmap = Inr bmap'"
    and acc: "pebs_accepted l (volume_pebs l i) bmap"
    and backed: "\<forall>peb\<in>set (volume_pebs l (Suc i)). extents_backed (unat (vl_page_size l)) peb"
  shows "pebs_accepted l (volume_pebs l (Suc i)) bmap' \<and> i < length (vl_segs l) \<and>
      unat (sd_pebs_count (vl_segs l ! i)) \<le> length (sd_pebs (vl_segs l ! i))"
proof -
  let ?seg = "vl_segs l ! i" let ?n = "unat (sd_pebs_count ?seg)"
  have i: "i < length (vl_segs l)" using run by (auto simp: check_segment_before_write_def bnd_eq_Inr chk_eq_Inr)
  obtain blks where loop: "for_res 0 ?n (\<lambda>j (bmap, seg_blks).
            bnd (nth_chk (sd_pebs ?seg) j) (\<lambda>peb.
            bnd (check_peb_before_write l peb bmap) (\<lambda>(bmap, blks).
            Inr (bmap, seg_blks + ucast blks)))) (bmap, 0 :: u64) = Inr (bmap', blks)"
    using run i by (auto simp: check_segment_before_write_def bnd_eq_Inr split: prod.splits)
  have "?n \<le> length (sd_pebs ?seg) \<and> pebs_accepted l (volume_pebs l i @ take ?n (sd_pebs ?seg)) (fst (bmap', blks))"
  proof (rule for_res_index_inv[OF loop, where I = "\<lambda>j t. j \<le> length (sd_pebs ?seg) \<and>
        pebs_accepted l (volume_pebs l i @ take j (sd_pebs ?seg)) (fst t)"])
    fix j t t'
    assume j: "j < ?n" and I: "j \<le> length (sd_pebs ?seg) \<and> pebs_accepted l (volume_pebs l i @ take j (sd_pebs ?seg)) (fst t)"
      and step: "(\<lambda>j (bmap, seg_blks).
            bnd (nth_chk (sd_pebs ?seg) j) (\<lambda>peb.
            bnd (check_peb_before_write l peb bmap) (\<lambda>(bmap, blks).
            Inr (bmap, seg_blks + ucast blks)))) j t = Inr t'"
    obtain b where lt: "j < length (sd_pebs ?seg)" and chk: "check_peb_before_write l (sd_pebs ?seg ! j) (fst t) = Inr (fst t', b)"
      using step by (auto simp: bnd_eq_Inr chk_eq_Inr split: prod.splits)
    have "sd_pebs ?seg ! j \<in> set (seg_pebs ?seg)" using j lt by (auto simp: seg_pebs_def in_set_conv_nth)
    then have "extents_backed (unat (vl_page_size l)) (sd_pebs ?seg ! j)" using backed i by (auto simp: volume_pebs_Suc)
    from pebs_accepted_step[OF geo conjunct2[OF I] chk this] lt
    show "Suc j \<le> length (sd_pebs ?seg) \<and> pebs_accepted l (volume_pebs l i @ take (Suc j) (sd_pebs ?seg)) (fst t')"
      by (simp add: take_Suc_conv_app_nth)
  qed (use acc in simp_all)
  then show ?thesis using i by (simp add: volume_pebs_Suc seg_pebs_def)
qed

lemma bmap_bit_zero: "\<not> bmap_bit (replicate n 0) a k"
  by (simp add: bmap_bit_def get64_def bytes_at_def bit_le_dec nth_replicate)

lemma volume_pebs_mono: "i \<le> n \<Longrightarrow> set (volume_pebs l i) \<subseteq> set (volume_pebs l n)"
  using set_take_subset_set_take[of i n "vl_segs l"] by (auto simp: volume_pebs_def)

lemma check_layout_accepts:
  assumes geo: "page_geometry l" and run: "check_layout_before_write ok l = Inr ()"
    and backed: "\<forall>peb\<in>set (volume_pebs l (nat (vl_segs_count l))). extents_backed (unat (vl_page_size l)) peb"
  shows "\<exists>bmap. pebs_accepted l (volume_pebs l (nat (vl_segs_count l))) bmap"
    "\<And>i. i < nat (vl_segs_count l) \<Longrightarrow> i < length (vl_segs l) \<and>
      unat (sd_pebs_count (vl_segs l ! i)) \<le> length (sd_pebs (vl_segs l ! i))"
proof -
  obtain n cap bmap where loop: "for_res 0 (nat (vl_segs_count l)) (check_segment_before_write l cap) (replicate n 0) = Inr bmap"
    using run by (auto simp: check_layout_before_write_def Let_def bnd_eq_Inr)
  let ?I = "\<lambda>i t. pebs_accepted l (volume_pebs l i) t \<and> (\<forall>j<i. j < length (vl_segs l) \<and>
      unat (sd_pebs_count (vl_segs l ! j)) \<le> length (sd_pebs (vl_segs l ! j)))"
  have "?I (nat (vl_segs_count l)) bmap"
  proof (rule for_res_index_inv[OF loop, where I = ?I])
    fix i t t'
    assume i: "i < nat (vl_segs_count l)" and I: "?I i t" and step: "check_segment_before_write l cap i t = Inr t'"
    have "\<forall>peb\<in>set (volume_pebs l (Suc i)). extents_backed (unat (vl_page_size l)) peb"
      using backed volume_pebs_mono[of "Suc i" "nat (vl_segs_count l)" l] i by auto
    from check_segment_accepts[OF geo step _ this] I show "?I (Suc i) t'" by (auto simp: less_Suc_eq)
  qed (auto simp: pebs_accepted_def volume_pebs_def bmap_bit_zero)
  then show "\<exists>bmap. pebs_accepted l (volume_pebs l (nat (vl_segs_count l))) bmap"
    "\<And>i. i < nat (vl_segs_count l) \<Longrightarrow> i < length (vl_segs l) \<and>
      unat (sd_pebs_count (vl_segs l ! i)) \<le> length (sd_pebs (vl_segs l ! i))" by blast+
qed

section \<open>Writing of checked PEBs\<close>

text \<open>The kernel answers every request, and the write buffer is as \<^verbatim>\<open>alloc_segs_array\<close> and every written PEB leave it.\<close>

definition device_ready :: "os \<Rightarrow> ssdfs_volume_layout \<Rightarrow> bool" where
  "device_ready os l \<longleftrightarrow>
     (let p = unat (vl_page_size l); ops = env_dev_ops (vl_env l) in
      case env_device_type (vl_env l) of
        SSDFS_BLK_DEVICE \<Rightarrow> ops = bdev_ops \<and> steady_io os p
      | SSDFS_MTD_DEVICE \<Rightarrow> ops = mtd_ops \<and> steady_io os p
      | SSDFS_ZNS_DEVICE \<Rightarrow> ops = zns_ops \<and> steady_zones os p \<and> (\<forall>start len. os_finish_zone os start len)
      | SSDFS_DEVICE_TYPE_MAX \<Rightarrow> False)"

definition buffer_ready :: "ssdfs_volume_layout \<Rightarrow> bool" where
  "buffer_ready l \<longleftrightarrow>
     (let wb = vl_write_buffer l in
      (case wb_ptr wb of None \<Rightarrow> False | Some b \<Rightarrow> length b = unat (vl_page_size l)) \<and>
      wb_capacity wb = vl_page_size l \<and> wb_offset wb = 0)"

definition put_log :: "ssdfs_volume_layout \<Rightarrow> ssdfs_peb_content \<Rightarrow> buf \<Rightarrow> buf" where
  "put_log l peb f = file_write f (peb_base l peb) (peb_log l peb)"

lemma peb_geometry_accepted: "page_geometry l \<Longrightarrow> log_accepted l peb \<Longrightarrow> peb_geometry l (peb_base l peb)"
  using page_geometry_nat[of l] by (simp add: peb_geometry_def Let_def log_accepted_def peb_base_def)

lemma write_peb_ready:
  assumes geo: "page_geometry l" and dev: "device_ready os l" and buf: "buffer_ready l"
    and seg: "int i < vl_segs_capacity l" "i < length (vl_segs l)" "j < unat (sd_pebs_count (vl_segs l ! i))"
      "j < length (sd_pebs (vl_segs l ! i))" "peb = sd_pebs (vl_segs l ! i) ! j"
    and acc: "log_accepted l peb"
  shows "\<exists>l' dev'. write_peb os i j (l, dev) = Some (Inr (l', dev')) \<and> same_volume l l' \<and> buffer_ready l' \<and>
      dv_file dev' = put_log l peb (dv_file dev)"
proof -
  let ?p = "unat (vl_page_size l)" let ?seg = "vl_segs l ! i"
  note g = peb_geometry_accepted[OF geo acc]
  obtain b where wb: "wb_ptr (vl_write_buffer l) = Some b" "length b = ?p" "wb_capacity (vl_write_buffer l) = vl_page_size l"
      "wb_offset (vl_write_buffer l) = 0"
    using buf by (auto simp: buffer_ready_def Let_def split: option.splits)
  have fits: "extent_fits ?p (unat (erase_size (vl_env l))) peb k" if "k < SSDFS_SEG_LOG_ITEMS_COUNT" for k
    using acc that by (simp add: log_accepted_def Let_def)
  have "\<exists>l' dev' off. write_peb os i j (l, dev) = Some (finish_peb os ?seg off (l', dev')) \<and> unat off = peb_base l peb \<and>
      same_volume l l' \<and> wb_ptr (vl_write_buffer l') = Some (fill_to ?p []) \<and> wb_offset (vl_write_buffer l') = 0 \<and>
      wb_capacity (vl_write_buffer l') = vl_page_size l \<and>
      dv_file dev' = file_write (dv_file dev) (peb_base l peb) (whole_pages ?p (log_image peb SSDFS_SEG_LOG_ITEMS_COUNT))"
  proof (cases "env_device_type (vl_env l)")
    case SSDFS_BLK_DEVICE
    then show ?thesis using dev
      by (intro bdev.write_peb_run[OF _ refl _ g peb_base_def seg(1,2) refl seg(3,4,5) wb fits]) (simp_all add: device_ready_def Let_def)
  next
    case SSDFS_MTD_DEVICE
    then show ?thesis using dev
      by (intro mtd.write_peb_run[OF _ refl _ g peb_base_def seg(1,2) refl seg(3,4,5) wb fits]) (simp_all add: device_ready_def Let_def)
  next
    case SSDFS_ZNS_DEVICE
    then show ?thesis using dev
      by (intro zns.write_peb_run[OF _ refl _ g peb_base_def seg(1,2) refl seg(3,4,5) wb fits]) (simp_all add: device_ready_def Let_def)
  qed (use dev in \<open>simp add: device_ready_def Let_def\<close>)
  then obtain l' dev' off where run: "write_peb os i j (l, dev) = Some (finish_peb os ?seg off (l', dev'))"
    and r: "same_volume l l'" "wb_ptr (vl_write_buffer l') = Some (fill_to ?p [])" "wb_offset (vl_write_buffer l') = 0"
      "wb_capacity (vl_write_buffer l') = vl_page_size l" "dv_file dev' = put_log l peb (dv_file dev)"
    unfolding put_log_def peb_log_def by blast
  note f = same_volume_fields[OF r(1)]
  have "\<exists>l''. finish_peb os ?seg off (l', dev') = Inr (l'', dev') \<and> same_volume l' l'' \<and> vl_write_buffer l'' = vl_write_buffer l'"
    using dev f same_volume_refl[of l'] same_volume_zones[of l']
    by (cases "env_device_type (vl_env l)")
      (auto simp: device_ready_def finish_peb_def Let_def dev_check_peb_def zns_check_peb_def)
  then obtain l'' where fin: "finish_peb os ?seg off (l', dev') = Inr (l'', dev')" "same_volume l' l''"
      "vl_write_buffer l'' = vl_write_buffer l'" by blast
  have "buffer_ready l''"
    using r(2-4) fin(3) same_volume_fields(2)[OF fin(2)] f(2) by (simp add: buffer_ready_def Let_def)
  then show ?thesis using run fin(1) same_volume_trans[OF r(1) fin(2)] r(5) by (intro exI[of _ l''] exI[of _ dev']) simp
qed

lemma write_segments_ready:
  assumes geo: "page_geometry l" and dev: "device_ready os l" and buf: "buffer_ready l"
    and cap: "vl_segs_count l \<le> vl_segs_capacity l"
    and segs: "\<And>i. i < nat (vl_segs_count l) \<Longrightarrow> i < length (vl_segs l) \<and>
      unat (sd_pebs_count (vl_segs l ! i)) \<le> length (sd_pebs (vl_segs l ! i))"
    and acc: "\<forall>peb\<in>set (volume_pebs l (nat (vl_segs_count l))). log_accepted l peb"
  shows "\<exists>l' dev'. write_segments os (l, dev) = Some (Inr (l', dev')) \<and> same_volume l l' \<and> buffer_ready l' \<and>
      dv_file dev' = fold (put_log l) (volume_pebs l (nat (vl_segs_count l))) (dv_file dev)"
proof -
  let ?S = "\<lambda>pebs st. same_volume l (fst st) \<and> buffer_ready (fst st) \<and> dv_file (snd st) = fold (put_log l) pebs (dv_file dev)"
  have inner: "\<exists>t'. ofor 0 (unat (sd_pebs_count (vl_segs l ! i))) (write_peb os i) t = Some (Inr t') \<and> ?S (volume_pebs l (Suc i)) t'"
    if i: "i < nat (vl_segs_count l)" and I: "?S (volume_pebs l i) t" for i and t :: "ssdfs_volume_layout \<times> device"
  proof -
    let ?seg = "vl_segs l ! i" let ?n = "unat (sd_pebs_count ?seg)"
    note si = segs[OF i]
    have "\<exists>t'. ofor 0 ?n (write_peb os i) t = Some (Inr t') \<and> ?S (volume_pebs l i @ take ?n (sd_pebs ?seg)) t'"
    proof (rule ofor_total[where I = "\<lambda>j. ?S (volume_pebs l i @ take j (sd_pebs ?seg))"])
      fix j and u :: "ssdfs_volume_layout \<times> device"
      assume j: "j < ?n" and J: "?S (volume_pebs l i @ take j (sd_pebs ?seg)) u"
      let ?peb = "sd_pebs ?seg ! j"
      note f = same_volume_fields[OF J[THEN conjunct1]]
      have lt: "j < length (sd_pebs ?seg)" using j si by simp
      have "?peb \<in> set (volume_pebs l (Suc i))" using j lt si by (auto simp: volume_pebs_Suc seg_pebs_def in_set_conv_nth)
      then have a: "log_accepted l ?peb" using acc volume_pebs_mono[of "Suc i" "nat (vl_segs_count l)" l] i by auto
      have same: "log_accepted (fst u) ?peb = log_accepted l ?peb" "put_log (fst u) ?peb = put_log l ?peb"
          "page_geometry (fst u) = page_geometry l" "device_ready os (fst u) = device_ready os l"
        using f by (simp_all add: log_accepted_def put_log_def peb_log_def peb_base_def page_geometry_def device_ready_def fun_eq_iff)
      have "\<exists>l' dev'. write_peb os i j (fst u, snd u) = Some (Inr (l', dev')) \<and> same_volume (fst u) l' \<and> buffer_ready l' \<and>
          dv_file dev' = put_log (fst u) ?peb (dv_file (snd u))"
        by (rule write_peb_ready) (use a same geo dev J f si j lt i cap in auto)
      then show "\<exists>u'. write_peb os i j u = Some (Inr u') \<and> ?S (volume_pebs l i @ take (Suc j) (sd_pebs ?seg)) u'"
        using J lt same(2) same_volume_trans[OF J[THEN conjunct1]] by (fastforce simp: take_Suc_conv_app_nth)
    qed (use I in simp_all)
    then show ?thesis using si by (simp add: volume_pebs_Suc seg_pebs_def)
  qed
  have "\<exists>st. write_segments os (l, dev) = Some (Inr st) \<and> ?S (volume_pebs l (nat (vl_segs_count l))) st"
    unfolding write_segments_def fst_conv
  proof (rule ofor_total[where I = "\<lambda>i. ?S (volume_pebs l i)"])
    fix i and t :: "ssdfs_volume_layout \<times> device"
    assume i: "i < nat (vl_segs_count l)" and I: "?S (volume_pebs l i) t"
    have "vl_segs (fst t) = vl_segs l" using same_volume_fields(1) I by blast
    then show "\<exists>t'. obnd (Some (nth_chk (vl_segs (fst t)) i)) (\<lambda>seg. ofor 0 (unat (sd_pebs_count seg)) (write_peb os i) t) =
        Some (Inr t') \<and> ?S (volume_pebs l (Suc i)) t'"
      using inner[OF i I] segs[OF i] by simp
  qed (use same_volume_refl buf in \<open>simp_all add: volume_pebs_def\<close>)
  then show ?thesis by auto
qed

lemma logs_read_back:
  assumes "sorted_wrt (disjoint_logs l) pebs" "\<forall>peb\<in>set pebs. peb_log l peb \<noteq> []"
  shows "\<forall>peb\<in>set pebs. bytes_at (fold (put_log l) pebs f) (peb_base l peb) (length (peb_log l peb)) = peb_log l peb \<and>
    peb_base l peb + length (peb_log l peb) \<le> length (fold (put_log l) pebs f)"
  using assms
proof (induction pebs rule: rev_induct)
  case (snoc x xs)
  let ?f = "fold (put_log l) xs f"
  have IH: "\<forall>peb\<in>set xs. bytes_at ?f (peb_base l peb) (length (peb_log l peb)) = peb_log l peb \<and>
      peb_base l peb + length (peb_log l peb) \<le> length ?f"
    using snoc by (simp add: sorted_wrt_append)
  have d: "\<forall>peb\<in>set xs. disjoint_logs l peb x" using snoc.prems(1) by (simp add: sorted_wrt_append)
  have len: "length (put_log l x ?f) = max (length ?f) (peb_base l x + length (peb_log l x))"
    using snoc.prems(2) by (simp add: put_log_def length_file_write)
  have new: "bytes_at (put_log l x ?f) (peb_base l x) (length (peb_log l x)) = peb_log l x"
    by (simp add: put_log_def bytes_at_file_write)
  have old: "bytes_at (put_log l x ?f) (peb_base l peb) (length (peb_log l peb)) = peb_log l peb" if "peb \<in> set xs" for peb
    using IH d that by (auto simp: put_log_def disjoint_logs_def intro!: bytes_at_file_write_other[THEN trans])
  show ?case using IH new old len by auto
qed simp

lemma logs_frame:
  assumes "\<forall>peb\<in>set pebs. peb_log l peb \<noteq> []" "a < length f"
    "\<forall>peb\<in>set pebs. a < peb_base l peb \<or> peb_base l peb + length (peb_log l peb) \<le> a"
  shows "a < length (fold (put_log l) pebs f) \<and> fold (put_log l) pebs f ! a = f ! a"
  using assms
proof (induction pebs rule: rev_induct)
  case (snoc x xs)
  define g where "g = fold (put_log l) xs f"
  have "a < length g \<and> g ! a = f ! a" using snoc by (simp add: g_def)
  then have "a < length (put_log l x g) \<and> put_log l x g ! a = f ! a"
    using snoc.prems by (auto simp: put_log_def length_file_write nth_file_write)
  then show ?case by (simp add: g_def)
qed simp

lemma accepted_log_nonempty: "log_accepted l peb \<Longrightarrow> peb_log l peb \<noteq> []"
  by (auto simp: log_accepted_def Let_def peb_log_def whole_pages_def fill_to_def)

text \<open>
  C2. What \<^verbatim>\<open>check_peb_before_write\<close> accepts, \<^verbatim>\<open>write_peb\<close> writes: on a device of any of the three kinds
  that finishes its transfers, it returns, whatever pieces the kernel splits a transfer into, and the device has at the
  start of the PEB the extents at their offsets with 0xFF in the gaps up to the end of the last page, and is otherwise as it was.
  The check does not look at the memory of the extents and at the page of the first one (\<open>extents_backed\<close>).
\<close>

theorem checked_peb_written:
  assumes "page_geometry l" and "device_ready os l" and "buffer_ready l"
    and "int i < vl_segs_capacity l" and "i < length (vl_segs l)" and "j < unat (sd_pebs_count (vl_segs l ! i))"
    and "j < length (sd_pebs (vl_segs l ! i))" and "peb = sd_pebs (vl_segs l ! i) ! j"
    and "check_peb_before_write l peb bmap = Inr (bmap', blks)" and "extents_backed (unat (vl_page_size l)) peb"
  shows "\<exists>l' dev'. write_peb os i j (l, dev) = Some (Inr (l', dev')) \<and> same_volume l l' \<and> buffer_ready l' \<and>
      dv_file dev' = file_write (dv_file dev) (unat (pc_peb_id peb) * unat (erase_size (vl_env l)))
        (whole_pages (unat (vl_page_size l)) (log_image peb SSDFS_SEG_LOG_ITEMS_COUNT))"
  using write_peb_ready[OF assms(1-8) check_peb_accepts(1)[OF assms(1,9,10)]]
  unfolding put_log_def peb_log_def peb_base_def .

text \<open>
  C1. A layout that \<^verbatim>\<open>check_layout_before_write\<close> accepts is written completely and without a conflict: when
  the erasure succeeds, \<^verbatim>\<open>write_device\<close> succeeds, afterwards every PEB of the volume has its own log at its own
  place on the device, and no byte outside of the logs differs from the erased device.
\<close>

theorem checked_volume_written:
  assumes "page_geometry l" and "device_ready (me_os env) l" and "buffer_ready l"
    and "env_device_type (vl_env l) \<noteq> SSDFS_ZNS_DEVICE"
    and "vl_segs_capacity l = vl_segs_count l" and "0 < vl_segs_count l"
    and "check_layout_before_write (me_alloc env 0) l = Inr ()"
    and "\<forall>peb\<in>set (volume_pebs l (nat (vl_segs_count l))). extents_backed (unat (vl_page_size l)) peb"
    and "erase_device env l dev = Some (Inr erased)"
  shows "\<exists>l' dev'. write_device env True (l, dev) = Some (Inr (l', dev')) \<and>
      (\<forall>peb\<in>set (volume_pebs l (nat (vl_segs_count l))).
         bytes_at (dv_file dev') (peb_base l peb) (length (peb_log l peb)) = peb_log l peb) \<and>
      (\<forall>a<length (dv_file erased).
         (\<forall>peb\<in>set (volume_pebs l (nat (vl_segs_count l))). a < peb_base l peb \<or> peb_base l peb + length (peb_log l peb) \<le> a) \<longrightarrow>
         dv_file dev' ! a = dv_file erased ! a)"
proof -
  let ?pebs = "volume_pebs l (nat (vl_segs_count l))"
  obtain bmap where acc: "pebs_accepted l ?pebs bmap" using check_layout_accepts(1)[OF assms(1,7,8)] by blast
  have all: "\<forall>peb\<in>set ?pebs. log_accepted l peb" "sorted_wrt (disjoint_logs l) ?pebs" "\<forall>peb\<in>set ?pebs. peb_log l peb \<noteq> []"
    using acc accepted_log_nonempty by (auto simp: pebs_accepted_def)
  obtain l' dev' where run: "write_segments (me_os env) (l, erased) = Some (Inr (l', dev'))" "same_volume l l'"
      "dv_file dev' = fold (put_log l) ?pebs (dv_file erased)"
    using write_segments_ready[OF assms(1-3) _ check_layout_accepts(2)[OF assms(1,7,8)] all(1)] assms(5) by (metis order_refl)
  have "vl_segs l \<noteq> []" using check_layout_accepts(2)[OF assms(1,7,8), of 0] assms(6) by auto
  moreover have "env_dev_ops (vl_env l) \<noteq> no_ops"
    using assms(2) by (auto simp: device_ready_def Let_def split: device_type.splits)
  ultimately have "write_device env True (l, dev) = Some (Inr (l', dev'))"
    using assms(4-7,9) run(1) same_volume_fields(7)[OF run(2)] by (simp add: write_device_def)
  then show ?thesis using logs_read_back[OF all(2,3)] logs_frame[OF all(3)] run(3) by auto
qed

section \<open>A volume with two PEBs\<close>

text \<open>Pages of 4 bytes, PEBs of 8 bytes; the kernel transfers a byte at a time and interrupts once.\<close>

definition sample_log_peb :: "u64 \<Rightarrow> (u32 \<times> buf) option \<Rightarrow> (u32 \<times> buf) option \<Rightarrow> ssdfs_peb_content" where
  "sample_log_peb pid a b =
     (let extent = (\<lambda>x. case x of
          None \<Rightarrow> \<lparr>ext_state = 0, ext_buf = None, ext_compr_buf = None, ext_offset = 0, ext_bytes_count = 0, ext_compr_bytes = 0\<rparr>
        | Some (at, mem) \<Rightarrow> \<lparr>ext_state = 0, ext_buf = Some mem, ext_compr_buf = None, ext_offset = at,
            ext_bytes_count = of_nat (length mem), ext_compr_bytes = 0\<rparr>) in
      \<lparr>pc_leb_id = pid, pc_peb_id = pid, pc_extents = [extent a] @ replicate 7 (extent None) @ [extent b]\<rparr>)"

definition sample_log_segment :: "ssdfs_peb_content \<Rightarrow> ssdfs_segment_desc" where
  "sample_log_segment peb = \<lparr>sd_seg_type = 2, sd_seg_state = 0, sd_seg_id = 0, sd_pebs = [peb], sd_pebs_count = 1, sd_pebs_capacity = 1\<rparr>"

definition sample_log_volume :: ssdfs_volume_layout where
  "sample_log_volume = mkfs_volume_layout
     \<lparr>vl_page_size := 4, vl_seg_size := 8, vl_is_volume_erased := True,
      vl_segs := [sample_log_segment (sample_log_peb 0 (Some (1, [1, 2])) (Some (5, [3]))),
                  sample_log_segment (sample_log_peb 3 (Some (0, [9, 9, 9, 9, 9])) None)],
      vl_segs_capacity := 2, vl_segs_count := 2,
      vl_write_buffer := \<lparr>wb_ptr = Some [0, 0, 0, 0], wb_offset = 0, wb_capacity = 4\<rparr>,
      vl_env := \<lparr>fs_size = 256, erase_size = 8, open_zones = 0, env_page_size = 0,
        env_device_type = SSDFS_BLK_DEVICE, env_fd = 3, env_dev_ops = bdev_ops\<rparr>\<rparr>"

definition sample_log_env :: "buf mkfs_env" where
  "sample_log_env =
     \<lparr>me_crc = (\<lambda>seed data. 0), me_libs = run_libs,
      me_host = \<lparr>he_uid = 0, he_gid = 0, he_time = 0, he_ctime = 0, he_uuid = replicate 16 0\<rparr>,
      me_os = \<lparr>os_io = (\<lambda>k. Intr # replicate 4 (Upto 1)), os_discard = (\<lambda>f off sz. None), os_zeroout = (\<lambda>f off sz. None),
        os_memerase = (\<lambda>f off sz. None), os_memgetinfo = None, os_bad_block = (\<lambda>off. 0), os_open_zone = (\<lambda>s n. False),
        os_finish_zone = (\<lambda>s n. False), os_reset_zone = (\<lambda>f off sz. None), os_zone_sectors = None\<rparr>,
      me_alloc = (\<lambda>k. True), me_alloc_extent = (\<lambda>a b c. True), me_alloc_log = (\<lambda>a b. True),
      me_cpu_cores = 1, me_threads = 0, me_schedule = [], me_torn = (\<lambda>dev pid. dev)\<rparr>"

lemma sample_log_images:
  "log_image (sample_log_peb 0 (Some (1, [1, 2])) (Some (5, [3]))) 9 = [0xFF, 1, 2, 0xFF, 0xFF, 3]"
  "log_image (sample_log_peb 3 (Some (0, [9, 9, 9, 9, 9])) None) 9 = [9, 9, 9, 9, 9]"
  by code_simp+

lemma sample_layout_checked: "check_layout_before_write True sample_log_volume = Inr ()"
  by code_simp

lemma sample_log_ready:
  "page_geometry sample_log_volume" "device_ready (me_os sample_log_env) sample_log_volume" "buffer_ready sample_log_volume"
proof -
  show "page_geometry sample_log_volume" by code_simp
  show "buffer_ready sample_log_volume" by code_simp
  show "device_ready (me_os sample_log_env) sample_log_volume"
    by (simp add: device_ready_def sample_log_volume_def sample_log_env_def steady_io_def numeral_eq_Suc)
qed

lemma sample_log_backed:
  "extents_backed 4 (sample_log_peb 0 (Some (1, [1, 2])) (Some (5, [3])))"
  "extents_backed 4 (sample_log_peb 3 (Some (0, [9, 9, 9, 9, 9])) None)"
  by code_simp+

lemma sample_log_simps:
  "vl_page_size sample_log_volume = 4" "erase_size (vl_env sample_log_volume) = 8" "vl_segs_capacity sample_log_volume = 2"
  "vl_segs_count sample_log_volume = 2" "env_device_type (vl_env sample_log_volume) = SSDFS_BLK_DEVICE"
  "vl_segs sample_log_volume = [sample_log_segment (sample_log_peb 0 (Some (1, [1, 2])) (Some (5, [3]))),
     sample_log_segment (sample_log_peb 3 (Some (0, [9, 9, 9, 9, 9])) None)]"
  "sd_pebs (sample_log_segment peb) = [peb]" "sd_pebs_count (sample_log_segment peb) = 1"
  "erase_device sample_log_env sample_log_volume dev = Some (Inr dev)" "me_alloc sample_log_env 0"
  "pc_peb_id (sample_log_peb pid a b) = pid"
  by (simp_all add: sample_log_volume_def sample_log_segment_def erase_device_def Let_def sample_log_env_def sample_log_peb_def)

theorem checked_peb_written_witness:
  "\<exists>l' dev'. write_peb (me_os sample_log_env) 0 0 (sample_log_volume, \<lparr>dv_file = [7, 7], dv_calls = 0\<rparr>) = Some (Inr (l', dev')) \<and>
     dv_file dev' = [0xFF, 1, 2, 0xFF, 0xFF, 3, 0xFF, 0xFF]"
proof -
  let ?peb = "sample_log_peb 0 (Some (1, [1, 2])) (Some (5, [3]))" let ?d = "\<lparr>dv_file = [7, 7], dv_calls = 0\<rparr>"
  have "\<not> isl (check_peb_before_write sample_log_volume ?peb (replicate 8 0))" by code_simp
  then obtain bmap blks where chk: "check_peb_before_write sample_log_volume ?peb (replicate 8 0) = Inr (bmap, blks)"
    by (cases "check_peb_before_write sample_log_volume ?peb (replicate 8 0)") auto
  have "\<exists>l' dev'. write_peb (me_os sample_log_env) 0 0 (sample_log_volume, ?d) = Some (Inr (l', dev')) \<and>
      same_volume sample_log_volume l' \<and> buffer_ready l' \<and>
      dv_file dev' = file_write (dv_file ?d) (unat (pc_peb_id ?peb) * unat (erase_size (vl_env sample_log_volume)))
        (whole_pages (unat (vl_page_size sample_log_volume)) (log_image ?peb SSDFS_SEG_LOG_ITEMS_COUNT))"
    by (rule checked_peb_written[OF sample_log_ready _ _ _ _ _ chk]) (simp_all add: sample_log_simps sample_log_backed)
  then obtain l' dev' where "write_peb (me_os sample_log_env) 0 0 (sample_log_volume, ?d) = Some (Inr (l', dev'))"
    "dv_file dev' = file_write [7, 7] 0 (whole_pages 4 (log_image ?peb 9))"
    unfolding sample_log_simps(1,2,11) by auto
  moreover have "file_write [7, 7] 0 (whole_pages 4 (log_image ?peb 9)) = [0xFF, 1, 2, 0xFF, 0xFF, 3, 0xFF, 0xFF]"
    unfolding sample_log_images by code_simp
  ultimately show ?thesis by simp
qed

theorem checked_volume_written_witness:
  "\<exists>l' dev'. write_device sample_log_env True (sample_log_volume, \<lparr>dv_file = replicate 40 7, dv_calls = 0\<rparr>) = Some (Inr (l', dev')) \<and>
     bytes_at (dv_file dev') 0 8 = [0xFF, 1, 2, 0xFF, 0xFF, 3, 0xFF, 0xFF] \<and>
     bytes_at (dv_file dev') 24 8 = [9, 9, 9, 9, 9, 0xFF, 0xFF, 0xFF] \<and> dv_file dev' ! 8 = 7 \<and> dv_file dev' ! 39 = 7"
proof -
  let ?d = "\<lparr>dv_file = replicate 40 7, dv_calls = 0\<rparr>" let ?l = sample_log_volume
  let ?a = "sample_log_peb 0 (Some (1, [1, 2])) (Some (5, [3]))" let ?b = "sample_log_peb 3 (Some (0, [9, 9, 9, 9, 9])) None"
  have pebs: "volume_pebs ?l 2 = [?a, ?b]" by (simp add: volume_pebs_def seg_pebs_def sample_log_simps)
  have pages: "whole_pages 4 [0xFF, 1, 2, 0xFF, 0xFF, 3] = [0xFF, 1, 2, 0xFF, 0xFF, 3, 0xFF, 0xFF]"
    "whole_pages 4 [9, 9, 9, 9, 9] = [9, 9, 9, 9, 9, 0xFF, 0xFF, 0xFF]" by code_simp+
  have logs: "peb_log ?l ?a = [0xFF, 1, 2, 0xFF, 0xFF, 3, 0xFF, 0xFF]" "peb_log ?l ?b = [9, 9, 9, 9, 9, 0xFF, 0xFF, 0xFF]"
      "peb_base ?l ?a = 0" "peb_base ?l ?b = 24"
    by (simp_all add: peb_log_def peb_base_def sample_log_simps sample_log_images pages)
  have chk: "check_layout_before_write (me_alloc sample_log_env 0) ?l = Inr ()"
    using sample_layout_checked by (simp add: sample_log_simps)
  obtain l' dev' where "write_device sample_log_env True (?l, ?d) = Some (Inr (l', dev'))"
    and logs': "\<forall>peb\<in>set (volume_pebs ?l (nat (vl_segs_count ?l))). bytes_at (dv_file dev') (peb_base ?l peb) (length (peb_log ?l peb)) = peb_log ?l peb"
    and frame: "\<forall>a<length (dv_file ?d). (\<forall>peb\<in>set (volume_pebs ?l (nat (vl_segs_count ?l))). a < peb_base ?l peb \<or> peb_base ?l peb + length (peb_log ?l peb) \<le> a) \<longrightarrow>
         dv_file dev' ! a = dv_file ?d ! a"
    using checked_volume_written[OF sample_log_ready _ _ _ chk, of ?d ?d] by (auto simp: sample_log_simps sample_log_backed pebs)
  moreover have "dv_file dev' ! 8 = 7" "dv_file dev' ! 39 = 7"
    using frame[THEN spec, of 8] frame[THEN spec, of 39] by (simp_all add: sample_log_simps pebs logs)
  moreover have r: "bytes_at (dv_file dev') (peb_base ?l ?a) (length (peb_log ?l ?a)) = peb_log ?l ?a"
      "bytes_at (dv_file dev') (peb_base ?l ?b) (length (peb_log ?l ?b)) = peb_log ?l ?b"
    using logs' by (simp_all add: sample_log_simps pebs)
  have "length [0xFF, 1, 2, 0xFF, 0xFF, 3, 0xFF, 0xFF :: u8] = 8" "length [9, 9, 9, 9, 9, 0xFF, 0xFF, 0xFF :: u8] = 8" by simp_all
  note r[unfolded logs this]
  ultimately show ?thesis by blast
qed

end
