(* ===== verification/SuperblockHeader.thy ===== *)
theory SuperblockHeader
  imports MkfsSuperblock
begin

text \<open>
  What \<^verbatim>\<open>sb_mkfs_prepare\<close> of \<^verbatim>\<open>sbin/mkfs.ssdfs/superblock_segment.c\<close> leaves in the volume header and the volume
  state. Its steps write behind the geometry of the header and behind the counters of the state (\<open>front_kept\<close>), so
  the first fields can be read back at the end.
\<close>

section \<open>Steps that keep the front of the superblock\<close>

definition front_kept :: "ssdfs_volume_layout \<Rightarrow> ssdfs_volume_layout \<Rightarrow> bool" where
  "front_kept l l' \<longleftrightarrow>
     length (sb_vh (vl_sb l')) = length (sb_vh (vl_sb l)) \<and> length (sb_vs (vl_sb l')) = length (sb_vs (vl_sb l)) \<and>
     take 0x30 (sb_vh (vl_sb l')) = take 0x30 (sb_vh (vl_sb l)) \<and> take 0x38 (sb_vs (vl_sb l')) = take 0x38 (sb_vs (vl_sb l)) \<and>
     vl_page_size l' = vl_page_size l \<and> vl_seg_size l' = vl_seg_size l \<and> vl_env l' = vl_env l \<and>
     vl_create_timestamp l' = vl_create_timestamp l"

definition keeps_superblock_front :: "(ssdfs_volume_layout \<Rightarrow> ssdfs_volume_layout res) \<Rightarrow> bool" where
  "keeps_superblock_front f \<longleftrightarrow> (\<forall>l l'. f l = Inr l' \<longrightarrow> front_kept l l')"

primrec field_off :: "field \<Rightarrow> nat" where
  "field_off (F8 off v) = off"
| "field_off (F16 off v) = off"
| "field_off (F32 off v) = off"
| "field_off (F64 off v) = off"
| "field_off (FB off v) = off"

lemma front_kept_refl: "front_kept l l"
  by (simp add: front_kept_def)

lemma front_kept_trans: "front_kept l l' \<Longrightarrow> front_kept l' l'' \<Longrightarrow> front_kept l l''"
  by (simp add: front_kept_def)

lemma store_field_keeps:
  "store_field f b = Inr b' \<Longrightarrow> length b' = length b \<and> (n \<le> field_off f \<longrightarrow> take n b' = take n b)"
  by (cases f) (auto simp: field_eq_Inr wr_eq_Inr take_put take_overwrite)

lemma store_fields_keeps:
  assumes "store_fields fs b = Inr b'" "\<forall>f\<in>set fs. n \<le> field_off f"
  shows "length b' = length b \<and> take n b' = take n b"
  using assms(1) unfolding store_fields_def
  by (rule fold_res_inv) (use assms(2) store_field_keeps in auto)

lemma store_fields_length: "store_fields fs b = Inr b' \<Longrightarrow> length b' = length b"
  using store_fields_keeps[of fs b b' 0] by simp

lemma vh_fields_kept: "vh_fields fs l = Inr l' \<Longrightarrow> \<forall>f\<in>set fs. 0x30 \<le> field_off f \<Longrightarrow> front_kept l l'"
  using store_fields_keeps[of fs "sb_vh (vl_sb l)" _ "0x30"] by (auto simp: vh_fields_def bnd_eq_Inr front_kept_def put_vh_def)

lemma vs_fields_kept: "vs_fields fs l = Inr l' \<Longrightarrow> \<forall>f\<in>set fs. 0x38 \<le> field_off f \<Longrightarrow> front_kept l l'"
  using store_fields_keeps[of fs "sb_vs (vl_sb l)" _ "0x38"] by (auto simp: vs_fields_def bnd_eq_Inr front_kept_def put_vs_def)

lemma keeps_vh_fields: "\<forall>f\<in>set fs. 0x30 \<le> field_off f \<Longrightarrow> keeps_superblock_front (vh_fields fs)"
  using vh_fields_kept by (auto simp: keeps_superblock_front_def)

lemma keeps_vs_fields: "\<forall>f\<in>set fs. 0x38 \<le> field_off f \<Longrightarrow> keeps_superblock_front (vs_fields fs)"
  using vs_fields_kept by (auto simp: keeps_superblock_front_def)

lemma keeps_then:
  assumes "keeps_superblock_front f" "keeps_superblock_front g"
  shows "keeps_superblock_front (\<lambda>l. bnd (f l) g)"
  using assms front_kept_trans unfolding keeps_superblock_front_def bnd_eq_Inr by blast

lemma keeps_after:
  assumes "\<And>x. keeps_superblock_front (g x)"
  shows "keeps_superblock_front (\<lambda>l. bnd (m l) (\<lambda>x. g x l))"
  using assms unfolding keeps_superblock_front_def bnd_eq_Inr by blast

lemma keeps_feature_flag: "0x38 \<le> off \<Longrightarrow> keeps_superblock_front (feature_flag off flag)"
  unfolding feature_flag_def by (intro keeps_after keeps_vs_fields) simp

lemma keepsD: "keeps_superblock_front f \<Longrightarrow> f l = Inr l' \<Longrightarrow> front_kept l l'"
  by (simp add: keeps_superblock_front_def)

lemma front_kept_btree [simp]: "front_kept (l\<lparr>vl_btree := b\<rparr>) l' = front_kept l l'"
  by (simp add: front_kept_def)

lemma keeps_log_pages:
  "keeps_superblock_front sb_set_lnodes_log_pages" "keeps_superblock_front sb_set_hnodes_log_pages"
  "keeps_superblock_front sb_set_inodes_log_pages"
  by (auto simp: keeps_superblock_front_def sb_set_lnodes_log_pages_def sb_set_hnodes_log_pages_def sb_set_inodes_log_pages_def
      bnd_eq_Inr dest: vh_fields_kept)

lemma keeps_correct_node_size: "keeps_superblock_front (correct_node_size kind)"
  by (auto simp: keeps_superblock_front_def correct_node_size_def Let_def bnd_eq_Inr front_kept_def split: if_splits)

lemma keeps_tree_fields: "\<forall>f\<in>set fs. 0x38 \<le> field_off f \<Longrightarrow> keeps_superblock_front (tree_fields kind fs)"
  unfolding tree_fields_def using keeps_vh_fields[of fs] keeps_vs_fields[of fs] by fastforce

lemma keeps_btree_desc:
  assumes "0x38 \<le> bp_off kind"
  shows "keeps_superblock_front (btree_desc_prepare kind)"
  unfolding keeps_superblock_front_def
proof (intro allI impI)
  fix l l'
  assume "btree_desc_prepare kind l = Inr l'"
  then obtain fs1 l1 l2 fs2 l3 fs3 where "tree_fields kind fs1 l = Inr l1" "\<forall>f\<in>set fs1. bp_off kind \<le> field_off f"
    "correct_node_size kind l1 = Inr l2" "tree_fields kind fs2 l2 = Inr l3" "\<forall>f\<in>set fs2. bp_off kind \<le> field_off f"
    "tree_fields kind fs3 l3 = Inr l'" "\<forall>f\<in>set fs3. bp_off kind \<le> field_off f"
    unfolding btree_desc_prepare_def Let_def bnd_eq_Inr by fastforce
  moreover from this assms have "\<forall>f\<in>set fs1. 0x38 \<le> field_off f" "\<forall>f\<in>set fs2. 0x38 \<le> field_off f" "\<forall>f\<in>set fs3. 0x38 \<le> field_off f"
    by (meson le_trans)+
  ultimately show "front_kept l l'"
    using keepsD[OF keeps_tree_fields] keepsD[OF keeps_correct_node_size] front_kept_trans by metis
qed

lemmas tree_kinds = dentries_kind_def extents_kind_def xattrs_kind_def inodes_kind_def shared_extents_kind_def shared_dict_kind_def
  snapshots_kind_def invext_kind_def

lemma keeps_desc_prepare:
  "keeps_superblock_front sb_dentries_btree_desc_prepare" "keeps_superblock_front sb_extents_btree_desc_prepare"
  "keeps_superblock_front sb_xattrs_btree_desc_prepare" "keeps_superblock_front sb_inodes_btree_desc_prepare"
  "keeps_superblock_front sb_shared_extents_btree_desc_prepare" "keeps_superblock_front sb_shared_dict_btree_desc_prepare"
  "keeps_superblock_front sb_snapshots_btree_desc_prepare" "keeps_superblock_front sb_invext_btree_desc_prepare"
  unfolding sb_dentries_btree_desc_prepare_def sb_extents_btree_desc_prepare_def sb_xattrs_btree_desc_prepare_def
    sb_inodes_btree_desc_prepare_def sb_shared_extents_btree_desc_prepare_def sb_shared_dict_btree_desc_prepare_def
    sb_snapshots_btree_desc_prepare_def sb_invext_btree_desc_prepare_def
  by (intro keeps_then keeps_vh_fields keeps_btree_desc; simp add: tree_kinds)+

lemma keeps_root_node: "0x38 \<le> bp_off kind \<Longrightarrow> keeps_superblock_front (root_node kind)"
  unfolding root_node_def Let_def by (rule keeps_tree_fields) simp

lemma keeps_root_nodes:
  "keeps_superblock_front sb_inodes_btree_prepare_root_node" "keeps_superblock_front sb_shared_extents_btree_prepare_root_node"
  "keeps_superblock_front sb_shared_dict_btree_prepare_root_node" "keeps_superblock_front sb_snapshots_btree_prepare_root_node"
  "keeps_superblock_front sb_invext_btree_prepare_root_node"
  unfolding sb_inodes_btree_prepare_root_node_def sb_shared_extents_btree_prepare_root_node_def
    sb_shared_dict_btree_prepare_root_node_def sb_snapshots_btree_prepare_root_node_def sb_invext_btree_prepare_root_node_def
  by (rule keeps_root_node; simp add: tree_kinds)+

lemma keeps_root_folder: "keeps_superblock_front (sb_prepare_root_folder crc env)"
  unfolding keeps_superblock_front_def sb_prepare_root_folder_def bnd_eq_Inr
proof (intro allI impI, elim exE conjE)
  fix l l1 l2 csum l'
  assume "vs_fields (root_folder_fields env (vl_page_size l)) l = Inr l1" "vs_fields [F32 0x114 0] l1 = Inr l2"
    "vs_fields [F32 0x114 csum] l2 = Inr l'"
  then have "front_kept l l1" "front_kept l1 l2" "front_kept l2 l'"
    by (auto dest!: vs_fields_kept simp: root_folder_fields_def dot_entry_def)
  then show "front_kept l l'" using front_kept_trans by blast
qed

lemma keeps_trees:
  "keeps_superblock_front (sb_prepare_inodes_btree crc env)" "keeps_superblock_front sb_prepare_shared_extents_btree"
  "keeps_superblock_front sb_prepare_shared_dict_btree" "keeps_superblock_front sb_prepare_snapshots_btree"
  "keeps_superblock_front sb_prepare_invext_btree"
  unfolding sb_prepare_inodes_btree_def sb_prepare_shared_extents_btree_def sb_prepare_shared_dict_btree_def
    sb_prepare_snapshots_btree_def sb_prepare_invext_btree_def
  by (intro keeps_then keeps_desc_prepare keeps_root_nodes keeps_root_folder keeps_feature_flag keeps_vs_fields keeps_vh_fields; simp)+

lemma keeps_options:
  "keeps_superblock_front define_compression_option" "keeps_superblock_front prepare_block_bitmap_options"
  "keeps_superblock_front prepare_blk2off_table_options"
proof -
  show "keeps_superblock_front define_compression_option"
    unfolding define_compression_option_def keeps_superblock_front_def
    by (intro allI impI, rule keepsD[OF keeps_feature_flag, rotated], assumption) simp
qed (auto simp: keeps_superblock_front_def prepare_block_bitmap_options_def prepare_blk2off_table_options_def bnd_eq_Inr
    dest!: vs_fields_kept)

section \<open>The first fields after the preparation\<close>

lemma ffs_power2: "k < 32 \<Longrightarrow> ffs (2 ^ k) = Suc k"
proof -
  assume k: "k < 32"
  have "bit (2 ^ k :: u32) j \<longleftrightarrow> j = k" for j using k by (auto simp: bit_simps)
  note only = this
  have "\<exists>j. 0 \<le> j \<and> j < 0 + 32 \<and> bit (2 ^ k :: u32) j" using k only by (intro exI[of _ k]) simp
  from ffs_from_lowest[OF this] show ?thesis using only by (auto simp: ffs_def)
qed

lemma ffs_zero: "ffs 0 = 0"
  by (simp add: ffs_def numeral_eq_Suc)

lemma ilog2_power2: "ilog2 (2 ^ k) = (if k < 32 then int k else -1)"
proof (cases "k < 32")
  case True
  then show ?thesis by (simp add: ilog2_def ffs_power2)
next
  case False
  then have "(2 ^ k :: u32) = 0" by (intro bit_word_eqI) (simp add: bit_simps)
  then show ?thesis using False by (simp only: ilog2_def ffs_zero) simp
qed

lemma ucast_power2: "k < 64 \<Longrightarrow> (ucast (2 ^ k :: u64) :: u32) = 2 ^ k"
  by (rule bit_word_eqI) (auto simp: bit_simps)

lemma prepare_parts:
  assumes "sb_mkfs_prepare crc env l = Inr l'"
  obtains l1 vf l2 l3 sf l4 where "reserve_segments l SSDFS_SUPERBLOCK = Inr l1"
    "volume_header_fields env (l1\<lparr>vl_create_timestamp := ssdfs_current_time_in_nanoseconds (he_ctime env), vl_create_cno := 0,
        vl_uuid := he_uuid env\<rparr>) = Inr vf"
    "vh_fields vf (l1\<lparr>vl_create_timestamp := ssdfs_current_time_in_nanoseconds (he_ctime env), vl_create_cno := 0,
        vl_uuid := he_uuid env\<rparr>) = Inr l2"
    "front_kept l2 l3" "volume_state_fields l3 = Inr sf" "vs_fields sf l3 = Inr l4" "front_kept l4 l'"
proof -
  from assms obtain l1 vf l2 l3 sf l4 a1 a2 a3 a4 a5 b1 b2 b3 b4 b5 b6 b7 where
    first: "reserve_segments l SSDFS_SUPERBLOCK = Inr l1"
      "volume_header_fields env (l1\<lparr>vl_create_timestamp := ssdfs_current_time_in_nanoseconds (he_ctime env), vl_create_cno := 0,
        vl_uuid := he_uuid env\<rparr>) = Inr vf"
      "vh_fields vf (l1\<lparr>vl_create_timestamp := ssdfs_current_time_in_nanoseconds (he_ctime env), vl_create_cno := 0,
        vl_uuid := he_uuid env\<rparr>) = Inr l2" and
    heads: "sb_set_lnodes_log_pages l2 = Inr a1" "sb_set_hnodes_log_pages a1 = Inr a2" "sb_set_inodes_log_pages a2 = Inr a3"
      "sb_dentries_btree_desc_prepare a3 = Inr a4" "sb_extents_btree_desc_prepare a4 = Inr a5" "sb_xattrs_btree_desc_prepare a5 = Inr l3" and
    state: "volume_state_fields l3 = Inr sf" "vs_fields sf l3 = Inr l4" and
    tails: "define_compression_option l4 = Inr b1" "prepare_block_bitmap_options b1 = Inr b2" "prepare_blk2off_table_options b2 = Inr b3"
      "sb_prepare_inodes_btree crc env b3 = Inr b4" "sb_prepare_shared_extents_btree b4 = Inr b5" "sb_prepare_shared_dict_btree b5 = Inr b6"
      "sb_prepare_snapshots_btree b6 = Inr b7" "sb_prepare_invext_btree b7 = Inr l'"
    unfolding sb_mkfs_prepare_def Let_def bnd_eq_Inr by blast
  have "front_kept l2 l3"
    using keepsD[OF keeps_log_pages(1) heads(1)] keepsD[OF keeps_log_pages(2) heads(2)] keepsD[OF keeps_log_pages(3) heads(3)]
      keepsD[OF keeps_desc_prepare(1) heads(4)] keepsD[OF keeps_desc_prepare(2) heads(5)] keepsD[OF keeps_desc_prepare(3) heads(6)]
    by (simp add: front_kept_def)
  moreover have "front_kept l4 l'"
    using keepsD[OF keeps_options(1) tails(1)] keepsD[OF keeps_options(2) tails(2)] keepsD[OF keeps_options(3) tails(3)]
      keepsD[OF keeps_trees(1) tails(4)] keepsD[OF keeps_trees(2) tails(5)] keepsD[OF keeps_trees(3) tails(6)]
      keepsD[OF keeps_trees(4) tails(7)] keepsD[OF keeps_trees(5) tails(8)]
    by (simp add: front_kept_def)
  ultimately show thesis using that first state by blast
qed

lemma reserve_superblock_frame:
  assumes "reserve_segments l m = Inr l1"
  shows "vl_sb l1 = vl_sb l \<and> vl_env l1 = vl_env l \<and> vl_seg_size l1 = vl_seg_size l \<and> vl_page_size l1 = vl_page_size l"
proof -
  let ?P = "\<lambda>l1. vl_sb l1 = vl_sb l \<and> vl_env l1 = vl_env l \<and> vl_seg_size l1 = vl_seg_size l \<and> vl_page_size l1 = vl_page_size l"
  have step: "?P t'" if "?P t" "reserve_step a b c i t = Inr t'" for a b c i t t'
    using that by (auto simp: reserve_step_def bnd_eq_Inr)
  have loop: "?P l'" if "for_res 0 k (reserve_step a b c) (l\<lparr>vl_meta_array := arr\<rparr>) = Inr l'" for a b c k arr l'
    by (rule for_res_inv[where P = ?P, OF that]) (simp, rule step)
  show ?thesis using assms loop by (auto simp: reserve_segments_def Let_def bnd_eq_Inr split: if_splits)
qed

lemma store_fields_Cons:
  "store_fields [] b = Inr b' \<longleftrightarrow> b' = b"
  "store_fields (f # fs) b = Inr b' \<longleftrightarrow> (\<exists>c. store_field f b = Inr c \<and> store_fields fs c = Inr b')"
  by (auto simp: store_fields_def bnd_eq_Inr)

text \<open>A field that no later field of the list touches can be read back.\<close>

primrec field_size :: "field \<Rightarrow> nat" where
  "field_size (F8 off v) = 1"
| "field_size (F16 off v) = 2"
| "field_size (F32 off v) = 4"
| "field_size (F64 off v) = 8"
| "field_size (FB off v) = length v"

definition apart :: "nat \<Rightarrow> nat \<Rightarrow> field \<Rightarrow> bool" where
  "apart off n f \<longleftrightarrow> off + n \<le> field_off f \<or> field_off f + field_size f \<le> off"

lemma store_field_apart: "store_field f b = Inr b' \<Longrightarrow> apart off n f \<Longrightarrow> bytes_at b' off n = bytes_at b off n"
  by (cases f) (auto simp: apart_def field_eq_Inr wr_eq_Inr bytes_at_put_disj bytes_at_overwrite_disj)

lemma store_fields_apart:
  assumes "store_fields fs b = Inr b'" "\<forall>f\<in>set fs. apart off n f"
  shows "bytes_at b' off n = bytes_at b off n"
  using assms(1) unfolding store_fields_def
  by (rule fold_res_inv) (use assms(2) store_field_apart in auto)

lemma store_fields_nth:
  assumes "store_fields fs b = Inr b'" "k < length fs" "\<forall>f\<in>set (drop (Suc k) fs). apart off n f"
  obtains c d where "store_field (fs ! k) c = Inr d" "length c = length b" "bytes_at b' off n = bytes_at d off n"
proof -
  have "fs = take k fs @ fs ! k # drop (Suc k) fs" using assms(2) by (rule id_take_nth_drop)
  then have "fold_res store_field (take k fs @ fs ! k # drop (Suc k) fs) b = Inr b'"
    using assms(1) by (simp add: store_fields_def)
  then obtain c d where "store_fields (take k fs) b = Inr c" "store_field (fs ! k) c = Inr d" "store_fields (drop (Suc k) fs) d = Inr b'"
    unfolding fold_res_append by (auto simp: bnd_eq_Inr store_fields_def)
  with that assms(3) show thesis using store_fields_length store_fields_apart by metis
qed

lemma stored_field:
  assumes "store_fields fs b = Inr b'" "k < length fs"
  shows "fs ! k = F8 off v8 \<Longrightarrow> \<forall>f\<in>set (drop (Suc k) fs). apart off 1 f \<Longrightarrow> get8 b' off = v8"
    "fs ! k = F16 off v16 \<Longrightarrow> \<forall>f\<in>set (drop (Suc k) fs). apart off 2 f \<Longrightarrow> get16 b' off = v16"
    "fs ! k = F32 off v32 \<Longrightarrow> \<forall>f\<in>set (drop (Suc k) fs). apart off 4 f \<Longrightarrow> get32 b' off = v32"
    "fs ! k = F64 off v64 \<Longrightarrow> \<forall>f\<in>set (drop (Suc k) fs). apart off 8 f \<Longrightarrow> get64 b' off = v64"
proof -
  show "get8 b' off = v8" if f: "fs ! k = F8 off v8" and rest: "\<forall>f\<in>set (drop (Suc k) fs). apart off 1 f"
  proof -
    obtain c d where "store_field (fs ! k) c = Inr d" "bytes_at b' off 1 = bytes_at d off 1"
      using store_fields_nth[OF assms rest] by blast
    then have "off + 1 \<le> length c" "get8 b' off = get8 (put8 c off v8) off"
      using f by (auto simp: field_eq_Inr get8_def)
    then show ?thesis by simp
  qed
  show "get16 b' off = v16" if f: "fs ! k = F16 off v16" and rest: "\<forall>f\<in>set (drop (Suc k) fs). apart off 2 f"
  proof -
    obtain c d where "store_field (fs ! k) c = Inr d" "bytes_at b' off 2 = bytes_at d off 2"
      using store_fields_nth[OF assms rest] by blast
    then have "off + 2 \<le> length c" "get16 b' off = get16 (put16 c off v16) off"
      using f by (auto simp: field_eq_Inr get16_def)
    then show ?thesis by simp
  qed
  show "get32 b' off = v32" if f: "fs ! k = F32 off v32" and rest: "\<forall>f\<in>set (drop (Suc k) fs). apart off 4 f"
  proof -
    obtain c d where "store_field (fs ! k) c = Inr d" "bytes_at b' off 4 = bytes_at d off 4"
      using store_fields_nth[OF assms rest] by blast
    then have "off + 4 \<le> length c" "get32 b' off = get32 (put32 c off v32) off"
      using f by (auto simp: field_eq_Inr get32_def)
    then show ?thesis by simp
  qed
  show "get64 b' off = v64" if f: "fs ! k = F64 off v64" and rest: "\<forall>f\<in>set (drop (Suc k) fs). apart off 8 f"
  proof -
    obtain c d where "store_field (fs ! k) c = Inr d" "bytes_at b' off 8 = bytes_at d off 8"
      using store_fields_nth[OF assms rest] by blast
    then have "off + 8 \<le> length c" "get64 b' off = get64 (put64 c off v64) off"
      using f by (auto simp: field_eq_Inr get64_def)
    then show ?thesis by simp
  qed
qed

lemma volume_header_stored:
  fixes l :: ssdfs_volume_layout
  defines "pps \<equiv> ucast (vl_seg_size l div ucast (erase_size (vl_env l))) :: u32"
  assumes vf: "volume_header_fields env l = Inr vf" and run: "store_fields vf b = Inr b'" and len: "length b = 1024"
  shows "length b' = 1024" "get32 b' 0 = 0x53734466" "get8 b' 0x10 = of_int (ilog2 (vl_page_size l))"
    "get8 b' 0x11 = of_int (ilog2 (erase_size (vl_env l)))" "get8 b' 0x12 = of_int (ilog2 (ucast (vl_seg_size l)))"
    "get16 b' 0x14 = ucast (erase_size (vl_env l) div 1048576)" "get16 b' 0x16 = ucast pps"
    "get64 b' 0x18 = vl_create_timestamp l" "pps < ucast U16_MAX" "erase_size (vl_env l) div 1048576 < ucast U16_MAX"
proof -
  obtain geometry flags where g: "device_geometry (env_device_type (vl_env l)) (erase_size (vl_env l)) (erase_size (vl_env l) div 1048576)
      pps = Inr (geometry, flags)"
    and small: "pps < ucast U16_MAX" "erase_size (vl_env l) div 1048576 < ucast U16_MAX"
    and vf': "vf = signature_fields @
          [F8 0x10 (of_int (ilog2 (vl_page_size l))), F8 0x12 (of_int (ilog2 (ucast (vl_seg_size l)))),
           F8 0x13 (of_int (ilog2 pps))] @ geometry @
          [F32 0x28 flags, F32 0x2C (vl_lebs_per_peb_index l),
           F16 0x1DE (ucast (min (vl_nand_dies_count l) pps)),
           F64 0x18 (vl_create_timestamp l), F64 0x20 (vl_create_cno l), FB 0x2C0 (vl_uuid l)]"
    using vf unfolding pps_def
    by (auto simp: volume_header_fields_def Let_def bnd_eq_Inr chk_eq_Inr guard_defs not_le split: if_splits prod.splits)
  have geo: "geometry = [F8 0x11 (of_int (ilog2 (erase_size (vl_env l)))), F16 0x14 (ucast (erase_size (vl_env l) div 1048576)),
      F16 0x16 (ucast pps)]"
    using g by (cases "env_device_type (vl_env l)") (auto simp: device_geometry_def Let_def)
  note r = stored_field[OF run]
  from store_fields_length[OF run] len small
    r(1)[of 3 "0x10"] r(1)[of 6 "0x11"] r(1)[of 4 "0x12"] r(2)[of 7 "0x14"] r(2)[of 8 "0x16"] r(3)[of 0 0] r(4)[of 12 "0x18"]
  show "length b' = 1024" "get32 b' 0 = 0x53734466" "get8 b' 0x10 = of_int (ilog2 (vl_page_size l))"
    "get8 b' 0x11 = of_int (ilog2 (erase_size (vl_env l)))" "get8 b' 0x12 = of_int (ilog2 (ucast (vl_seg_size l)))"
    "get16 b' 0x14 = ucast (erase_size (vl_env l) div 1048576)" "get16 b' 0x16 = ucast pps"
    "get64 b' 0x18 = vl_create_timestamp l" "pps < ucast U16_MAX" "erase_size (vl_env l) div 1048576 < ucast U16_MAX"
    by (simp_all add: vf' geo signature_fields_def apart_def)
qed

lemma volume_state_stored:
  assumes sf: "volume_state_fields l = Inr sf" and run: "store_fields sf b = Inr b'"
  shows "length b' = length b" "get32 b' 0 = 0x53734466" "get64 b' 0x10 = fs_size (vl_env l) div vl_seg_size l"
    "get64 b' 0x20 = vl_create_timestamp l"
proof -
  have sf': "sf = signature_fields @
          [F64 0x10 (fs_size (vl_env l) div vl_seg_size l), F64 0x20 (vl_create_timestamp l), F64 0x28 (vl_create_cno l),
           F32 0x30 1, F16 0x34 1, F16 0x36 1, FB 0x50 (vl_uuid l), FB 0x60 (vl_volume_label l),
           FB 0x70 (replicate 40 0xFF), F16 0x98 (vl_migration_threshold l)]"
    using sf by (auto simp: volume_state_fields_def bnd_eq_Inr chk_eq_Inr)
  note r = stored_field[OF run]
  from store_fields_length[OF run] r(3)[of 0 0] r(4)[of 3 "0x10"] r(4)[of 4 "0x20"]
  show "length b' = length b" "get32 b' 0 = 0x53734466" "get64 b' 0x10 = fs_size (vl_env l) div vl_seg_size l"
    "get64 b' 0x20 = vl_create_timestamp l"
    by (simp_all add: sf' signature_fields_def apart_def)
qed

lemma get_front:
  assumes "take n b' = take n b"
  shows "off + 1 \<le> n \<Longrightarrow> get8 b' off = get8 b off" "off + 2 \<le> n \<Longrightarrow> get16 b' off = get16 b off"
    "off + 4 \<le> n \<Longrightarrow> get32 b' off = get32 b off" "off + 8 \<le> n \<Longrightarrow> get64 b' off = get64 b off"
proof -
  have eq: "bytes_at b' off k = bytes_at b off k" if "off + k \<le> n" for k
  proof -
    have "k \<le> n - off" using that by simp
    then show ?thesis using arg_cong[OF assms, of "\<lambda>x. bytes_at x off k"] by (simp add: bytes_at_def drop_take min_absorb1)
  qed
  show "off + 1 \<le> n \<Longrightarrow> get8 b' off = get8 b off" "off + 2 \<le> n \<Longrightarrow> get16 b' off = get16 b off"
    "off + 4 \<le> n \<Longrightarrow> get32 b' off = get32 b off" "off + 8 \<le> n \<Longrightarrow> get64 b' off = get64 b off"
    by (simp_all add: get8_def get16_def get32_def get64_def eq)
qed

text \<open>
  C11. After \<^verbatim>\<open>sb_mkfs_prepare\<close> the volume header and the volume state are still 1024 bytes long and describe the
  volume: both have the signature and the same creation time, the logarithms of the page size and of the erase block
  size, the number of megabytes of an erase block and of erase blocks of a segment and the number of segments can be read
  back. The logarithm of the segment size can be read back below 4 GiB only: \<^verbatim>\<open>ilog2\<close> takes an \<^verbatim>\<open>int\<close>, so the
  header has 255 for every larger segment, although the options allow segments of up to 64 GiB.
\<close>

theorem superblock_describes_geometry:
  assumes "sb_mkfs_prepare crc env l = Inr l'"
    and "length (sb_vh (vl_sb l)) = 1024" and "length (sb_vs (vl_sb l)) = 1024"
    and "vl_page_size l = 2 ^ a" and "a < 32" and "erase_size (vl_env l) = 2 ^ b" and "b < 32"
    and "vl_seg_size l = 2 ^ c" and "c < 64" and "c < b + 32"
  shows "length (sb_vh (vl_sb l')) = 1024 \<and> length (sb_vs (vl_sb l')) = 1024 \<and>
    get32 (sb_vh (vl_sb l')) 0 = 0x53734466 \<and> get32 (sb_vs (vl_sb l')) 0 = 0x53734466 \<and>
    unat (get8 (sb_vh (vl_sb l')) 0x10) = a \<and> unat (get8 (sb_vh (vl_sb l')) 0x11) = b \<and>
    unat (get8 (sb_vh (vl_sb l')) 0x12) = (if c < 32 then c else 255) \<and>
    unat (get16 (sb_vh (vl_sb l')) 0x14) = 2 ^ b div 2 ^ 20 \<and> unat (get16 (sb_vh (vl_sb l')) 0x16) = 2 ^ c div 2 ^ b \<and>
    unat (get64 (sb_vs (vl_sb l')) 0x10) = unat (fs_size (vl_env l)) div 2 ^ c \<and>
    get64 (sb_vs (vl_sb l')) 0x20 = get64 (sb_vh (vl_sb l')) 0x18"
proof -
  let ?t = "\<lambda>l1. l1\<lparr>vl_create_timestamp := ssdfs_current_time_in_nanoseconds (he_ctime env), vl_create_cno := 0,
        vl_uuid := he_uuid env\<rparr>"
  obtain l1 vf l2 l3 sf l4 where p: "reserve_segments l SSDFS_SUPERBLOCK = Inr l1" "volume_header_fields env (?t l1) = Inr vf"
    "vh_fields vf (?t l1) = Inr l2" "front_kept l2 l3" "volume_state_fields l3 = Inr sf" "vs_fields sf l3 = Inr l4" "front_kept l4 l'"
    using assms(1) by (rule prepare_parts)
  note f = reserve_superblock_frame[OF p(1)]
  obtain vh where vh: "store_fields vf (sb_vh (vl_sb l)) = Inr vh" "l2 = put_vh (?t l1) vh"
    using p(3) f by (auto simp: vh_fields_def bnd_eq_Inr)
  obtain vs where vs: "store_fields sf (sb_vs (vl_sb l3)) = Inr vs" "l4 = put_vs l3 vs"
    using p(6) by (auto simp: vs_fields_def bnd_eq_Inr)
  note h = volume_header_stored[OF p(2) vh(1) assms(2)]
  note s = volume_state_stored[OF p(5) vs(1)]
  have front: "take 0x30 (sb_vh (vl_sb l')) = take 0x30 vh" "take 0x38 (sb_vs (vl_sb l')) = take 0x38 vs"
    "length (sb_vh (vl_sb l')) = length vh" "length (sb_vs (vl_sb l')) = length vs"
    "length (sb_vs (vl_sb l3)) = 1024"
    using p(4,7) vh(2) vs(2) f assms(3) by (simp_all add: front_kept_def put_vh_def put_vs_def)
  have same: "vl_env l3 = vl_env l" "vl_seg_size l3 = vl_seg_size l" "vl_create_timestamp l3 = vl_create_timestamp (?t l1)"
    using p(4) vh(2) f by (simp_all add: front_kept_def put_vh_def)
  note g = get_front[OF front(1)] get_front[OF front(2)]
  have log: "unat (of_int (ilog2 (2 ^ k)) :: u8) = k" if "k < 32" for k
    using that by (simp add: ilog2_power2 unat_of_nat)
  have seg: "unat (of_int (ilog2 (ucast (vl_seg_size l))) :: u8) = (if c < 32 then c else 255)"
    using assms(8,9) log[of c] by (simp add: ucast_power2 ilog2_power2 unat_minus_one_eq)
  have q: "unat (vl_seg_size l div ucast (erase_size (vl_env l))) = 2 ^ c div 2 ^ b"
    using assms(6-9) by (simp add: unat_div unat_ucast_up unat_exp)
  have small: "(2 :: nat) ^ c div 2 ^ b < 2 ^ 32"
  proof -
    have "(2 :: nat) ^ c < 2 ^ (32 + b)" using assms(10) by (intro power_strict_increasing) simp_all
    then show ?thesis by (simp add: div_less_iff_less_mult power_add)
  qed
  have u: "unat (ucast (vl_seg_size l div ucast (erase_size (vl_env l))) :: u32) = 2 ^ c div 2 ^ b"
    using small by (subst unat_ucast_small) (simp_all add: q)
  have pps: "unat (ucast (ucast (vl_seg_size l div ucast (erase_size (vl_env l))) :: u32) :: u16) = 2 ^ c div 2 ^ b"
    using h(9) f u by (subst unat_ucast_small) (simp_all add: ucast_max word_less_nat_alt)
  have mb: "unat (ucast (erase_size (vl_env l) div 1048576) :: u16) = 2 ^ b div 2 ^ 20"
    using h(10) f assms(6,7) by (subst unat_ucast_small) (simp_all add: ucast_max word_less_nat_alt unat_div unat_exp)
  have ns: "unat (fs_size (vl_env l) div vl_seg_size l) = unat (fs_size (vl_env l)) div 2 ^ c"
    using assms(8,9) by (simp add: unat_div unat_exp)
  show ?thesis using h(1-8) s front(3-5) same f assms(4-7) g log[of a] log[of b] seg pps mb ns by simp
qed

section \<open>A prepared volume\<close>

text \<open>The steps succeed on the volume below; \<open>sample_ready\<close> is what they need of it and keep.\<close>

definition sample_superblock_volume :: ssdfs_volume_layout where
  "sample_superblock_volume = mkfs_volume_layout
     \<lparr>vl_seg_size := 0x100000000, vl_blkbmap := \<lparr>bb_has_backup_copy = False, bb_compression = SSDFS_ZLIB_BLOB\<rparr>,
      vl_blk2off_tbl := \<lparr>bt_has_backup_copy = False, bt_compression = SSDFS_ZLIB_BLOB, bt_pages_per_seg = 0x100000\<rparr>,
      vl_env := \<lparr>fs_size = 0x1000000000, erase_size = 0x800000, open_zones = 0, env_page_size = 0,
        env_device_type = SSDFS_BLK_DEVICE, env_fd = 3, env_dev_ops = bdev_ops\<rparr>\<rparr>"

definition sample_host :: host_env where
  "sample_host = \<lparr>he_uid = 0, he_gid = 0, he_time = 5, he_ctime = 5, he_uuid = replicate 16 0\<rparr>"

definition sample_ready :: "ssdfs_volume_layout \<Rightarrow> bool" where
  "sample_ready l \<longleftrightarrow>
     length (sb_vh (vl_sb l)) = 1024 \<and> length (sb_vs (vl_sb l)) = 1024 \<and> length (vl_uuid l) = 16 \<and>
     length (vl_volume_label l) = 16 \<and> vl_page_size l = 4096 \<and> vl_seg_size l = 0x100000000 \<and>
     vl_env l = vl_env sample_superblock_volume \<and> bl_node_size (vl_btree l) = 8192 \<and> bl_min_index_area_size (vl_btree l) = 0 \<and>
     vl_nand_dies_count l = 1 \<and> vl_compression l = SSDFS_ZLIB_BLOB \<and> bb_compression (vl_blkbmap l) = SSDFS_ZLIB_BLOB \<and>
     bt_compression (vl_blk2off_tbl l) = SSDFS_ZLIB_BLOB \<and>
     bl_lnode_log_pages (vl_btree l) \<in> {U16_MAX, 256} \<and> bl_hnode_log_pages (vl_btree l) \<in> {U16_MAX, 256} \<and>
     bl_inode_log_pages (vl_btree l) \<in> {U16_MAX, 256}"

definition sample_runs :: "(ssdfs_volume_layout \<Rightarrow> ssdfs_volume_layout res) \<Rightarrow> bool" where
  "sample_runs f \<longleftrightarrow> (\<forall>l. sample_ready l \<longrightarrow> (\<exists>l'. f l = Inr l' \<and> sample_ready l'))"

lemma store_field_total: "field_off f + field_size f \<le> length b \<Longrightarrow> \<exists>b'. store_field f b = Inr b'"
  by (cases f) auto

lemma store_fields_total:
  "\<forall>f\<in>set fs. field_off f + field_size f \<le> length b \<Longrightarrow> \<exists>b'. store_fields fs b = Inr b'"
proof (induction fs arbitrary: b)
  case (Cons f fs)
  then obtain c where c: "store_field f b = Inr c" using store_field_total[of f b] by auto
  then have "length c = length b" using store_field_keeps by blast
  with Cons obtain b' where "store_fields fs c = Inr b'" by fastforce
  with c show ?case by (auto simp: store_fields_Cons)
qed (simp add: store_fields_Cons)

lemma vh_runs: "\<forall>f\<in>set fs. field_off f + field_size f \<le> 1024 \<Longrightarrow> sample_ready l \<Longrightarrow> \<exists>l'. vh_fields fs l = Inr l' \<and> sample_ready l'"
  using store_fields_total[of fs "sb_vh (vl_sb l)"] store_fields_length[of fs "sb_vh (vl_sb l)"]
  by (auto simp: sample_ready_def vh_fields_def put_vh_def)

lemma vs_runs: "\<forall>f\<in>set fs. field_off f + field_size f \<le> 1024 \<Longrightarrow> sample_ready l \<Longrightarrow> \<exists>l'. vs_fields fs l = Inr l' \<and> sample_ready l'"
  using store_fields_total[of fs "sb_vs (vl_sb l)"] store_fields_length[of fs "sb_vs (vl_sb l)"]
  by (auto simp: sample_ready_def vs_fields_def put_vs_def)

lemma sample_then: "sample_runs f \<Longrightarrow> sample_runs g \<Longrightarrow> sample_runs (\<lambda>l. bnd (f l) g)"
  unfolding sample_runs_def by fastforce

lemma sample_runsI: "(\<And>l. sample_ready l \<Longrightarrow> \<exists>l'. f l = Inr l' \<and> sample_ready l') \<Longrightarrow> sample_runs f"
  by (simp add: sample_runs_def)

lemma sample_runsD: "sample_runs f \<Longrightarrow> sample_ready l \<Longrightarrow> \<exists>l'. f l = Inr l' \<and> sample_ready l'"
  by (simp add: sample_runs_def)

lemma sample_fields:
  "\<forall>f\<in>set fs. field_off f + field_size f \<le> 1024 \<Longrightarrow> sample_runs (vh_fields fs)"
  "\<forall>f\<in>set fs. field_off f + field_size f \<le> 1024 \<Longrightarrow> sample_runs (vs_fields fs)"
  "\<forall>f\<in>set fs. field_off f + field_size f \<le> 1024 \<Longrightarrow> sample_runs (tree_fields kind fs)"
  using vh_runs vs_runs by (auto simp: sample_runs_def tree_fields_def)

lemma sample_feature_flag: "off + 8 \<le> 1024 \<Longrightarrow> sample_runs (feature_flag off flag)"
proof (rule sample_runsI)
  fix l
  assume off: "off + 8 \<le> 1024" and l: "sample_ready l"
  then have "rd64 (sb_vs (vl_sb l)) off = Inr (get64 (sb_vs (vl_sb l)) off)" by (simp add: sample_ready_def)
  then show "\<exists>l'. feature_flag off flag l = Inr l' \<and> sample_ready l'"
    using vs_runs[OF _ l, of "[F64 off (get64 (sb_vs (vl_sb l)) off OR flag)]"] off by (simp add: feature_flag_def)
qed

lemma sample_node_log_pages:
  "node_log_pages 0x800000 4096 U16_MAX = Inr 256" "node_log_pages 0x800000 4096 256 = Inr 256"
  by (simp_all add: node_log_pages_def ucast_max min_def max_def)

lemma sample_btree:
  assumes "sample_ready l"
  shows "n = 256 \<Longrightarrow> sample_ready (l\<lparr>vl_btree := (vl_btree l)\<lparr>bl_lnode_log_pages := n\<rparr>\<rparr>)"
    "n = 256 \<Longrightarrow> sample_ready (l\<lparr>vl_btree := (vl_btree l)\<lparr>bl_hnode_log_pages := n\<rparr>\<rparr>)"
    "n = 256 \<Longrightarrow> sample_ready (l\<lparr>vl_btree := (vl_btree l)\<lparr>bl_inode_log_pages := n\<rparr>\<rparr>)"
  using assms by (auto simp: sample_ready_def)

lemma sample_log_page_steps:
  "sample_runs sb_set_lnodes_log_pages" "sample_runs sb_set_hnodes_log_pages" "sample_runs sb_set_inodes_log_pages"
proof -
  have v: "vl_page_size l = 4096 \<and> erase_size (vl_env l) = 0x800000 \<and>
      node_log_pages 0x800000 4096 (bl_lnode_log_pages (vl_btree l)) = Inr 256 \<and>
      node_log_pages 0x800000 4096 (bl_hnode_log_pages (vl_btree l)) = Inr 256 \<and>
      node_log_pages 0x800000 4096 (bl_inode_log_pages (vl_btree l)) = Inr 256" if "sample_ready l" for l
    using that sample_node_log_pages by (auto simp: sample_ready_def sample_superblock_volume_def)
  show "sample_runs sb_set_lnodes_log_pages" "sample_runs sb_set_hnodes_log_pages" "sample_runs sb_set_inodes_log_pages"
    by (rule sample_runsI, use v vh_runs sample_btree in \<open>simp add: sb_set_lnodes_log_pages_def sb_set_hnodes_log_pages_def
        sb_set_inodes_log_pages_def\<close>)+
qed

lemma sample_desc:
  assumes "bp_off kind + 32 \<le> 1024" "bp_min_area kind = 256"
  shows "sample_runs (btree_desc_prepare kind)"
proof (rule sample_runsI)
  fix l
  assume l: "sample_ready l"
  let ?f1 = "[F32 (bp_off kind) (bp_magic kind), F16 (bp_off kind + 4) (bp_flags kind), F8 (bp_off kind + 6) (bp_type kind)]"
  let ?f2 = "[F8 (bp_off kind + 7) (of_int (ilog2 8192)), F8 (bp_off kind + 8) 2, F8 (bp_off kind + 9) (ucast (32 :: u16)),
            F16 (bp_off kind + 10) 32, F16 (bp_off kind + 12) (bp_item_size kind)]"
  let ?f3 = "[F16 (bp_off kind + 14) 256]"
  obtain l1 where l1: "tree_fields kind ?f1 l = Inr l1" "sample_ready l1"
    using sample_runsD[OF sample_fields(3) l, of ?f1 kind] assms by auto
  have v1: "bl_node_size (vl_btree l1) = 8192" "vl_page_size l1 = 4096" "erase_size (vl_env l1) = 0x800000"
    "bl_min_index_area_size (vl_btree l1) = 0" using l1(2) by (simp_all add: sample_ready_def sample_superblock_volume_def)
  obtain l2 where l2: "tree_fields kind ?f2 l1 = Inr l2" "sample_ready l2"
    using sample_runsD[OF sample_fields(3) l1(2), of ?f2 kind] assms by auto
  have v2: "bl_min_index_area_size (vl_btree l2) = 0" using l2(2) by (simp add: sample_ready_def)
  obtain l3 where l3: "tree_fields kind ?f3 l2 = Inr l3" "sample_ready l3"
    using sample_runsD[OF sample_fields(3) l2(2), of ?f3 kind] assms by auto
  have "correct_node_size kind l1 = Inr l1" using v1 by (simp add: correct_node_size_def)
  then have "btree_desc_prepare kind l = Inr l3"
    using l1(1) l2(1) l3(1) v1 v2 assms(2) by (simp add: btree_desc_prepare_def Let_def ucast_max)
  with l3(2) show "\<exists>l'. btree_desc_prepare kind l = Inr l' \<and> sample_ready l'" by blast
qed

lemma sample_desc_steps:
  "sample_runs sb_dentries_btree_desc_prepare" "sample_runs sb_extents_btree_desc_prepare" "sample_runs sb_xattrs_btree_desc_prepare"
  "sample_runs sb_inodes_btree_desc_prepare" "sample_runs sb_shared_extents_btree_desc_prepare"
  "sample_runs sb_shared_dict_btree_desc_prepare" "sample_runs sb_snapshots_btree_desc_prepare" "sample_runs sb_invext_btree_desc_prepare"
  unfolding sb_dentries_btree_desc_prepare_def sb_extents_btree_desc_prepare_def sb_xattrs_btree_desc_prepare_def
    sb_inodes_btree_desc_prepare_def sb_shared_extents_btree_desc_prepare_def sb_shared_dict_btree_desc_prepare_def
    sb_snapshots_btree_desc_prepare_def sb_invext_btree_desc_prepare_def
  by (intro sample_then sample_fields sample_desc; simp add: tree_kinds)+

lemma sample_root_nodes:
  "sample_runs sb_inodes_btree_prepare_root_node" "sample_runs sb_shared_extents_btree_prepare_root_node"
  "sample_runs sb_shared_dict_btree_prepare_root_node" "sample_runs sb_snapshots_btree_prepare_root_node"
  "sample_runs sb_invext_btree_prepare_root_node"
  unfolding sb_inodes_btree_prepare_root_node_def sb_shared_extents_btree_prepare_root_node_def
    sb_shared_dict_btree_prepare_root_node_def sb_snapshots_btree_prepare_root_node_def sb_invext_btree_prepare_root_node_def
    root_node_def Let_def
  by (rule sample_fields; simp add: tree_kinds)+

lemma sample_root_folder: "sample_runs (sb_prepare_root_folder crc env)"
proof (rule sample_runsI)
  fix l
  assume l: "sample_ready l"
  obtain l1 where l1: "vs_fields (root_folder_fields env (vl_page_size l)) l = Inr l1" "sample_ready l1"
    using vs_runs[OF _ l, of "root_folder_fields env (vl_page_size l)"] by (auto simp: root_folder_fields_def dot_entry_def)
  obtain l2 where l2: "vs_fields [F32 0x114 0] l1 = Inr l2" "sample_ready l2" using vs_runs[OF _ l1(2), of "[F32 0x114 0]"] by auto
  have "0xB0 + 256 \<le> length (sb_vs (vl_sb l2))" using l2(2) by (simp add: sample_ready_def)
  then obtain csum where csum: "ssdfs_crc32_le (crc 0) (sb_vs (vl_sb l2)) 0xB0 256 = Inr csum" by (simp add: ssdfs_crc32_le_def)
  obtain l3 where l3: "vs_fields [F32 0x114 csum] l2 = Inr l3" "sample_ready l3" using vs_runs[OF _ l2(2), of "[F32 0x114 csum]"] by auto
  show "\<exists>l'. sb_prepare_root_folder crc env l = Inr l' \<and> sample_ready l'"
    using l1(1) l2(1) csum l3 by (simp add: sb_prepare_root_folder_def)
qed

lemma sample_trees:
  "sample_runs (sb_prepare_inodes_btree crc env)" "sample_runs sb_prepare_shared_extents_btree"
  "sample_runs sb_prepare_shared_dict_btree" "sample_runs sb_prepare_snapshots_btree" "sample_runs sb_prepare_invext_btree"
  unfolding sb_prepare_inodes_btree_def sb_prepare_shared_extents_btree_def sb_prepare_shared_dict_btree_def
    sb_prepare_snapshots_btree_def sb_prepare_invext_btree_def
  by (intro sample_then sample_desc_steps sample_root_nodes sample_root_folder sample_feature_flag sample_fields; simp)+

lemma sample_options:
  "sample_runs define_compression_option" "sample_runs prepare_block_bitmap_options" "sample_runs prepare_blk2off_table_options"
proof -
  show "sample_runs define_compression_option"
    by (rule sample_runsI) (unfold define_compression_option_def, rule sample_runsD[OF sample_feature_flag], simp_all)
  have zlib: "\<exists>flags ty. area_options backup SSDFS_ZLIB_BLOB = Inr (flags, ty)" for backup by (simp add: area_options_def Let_def)
  show "sample_runs prepare_block_bitmap_options"
  proof (rule sample_runsI)
    fix l
    assume l: "sample_ready l"
    then have c: "bb_compression (vl_blkbmap l) = SSDFS_ZLIB_BLOB" by (simp add: sample_ready_def)
    obtain flags ty where "area_options (bb_has_backup_copy (vl_blkbmap l)) SSDFS_ZLIB_BLOB = Inr (flags, ty)" using zlib by blast
    then show "\<exists>l'. prepare_block_bitmap_options l = Inr l' \<and> sample_ready l'"
      using c vs_runs[OF _ l, of "[F16 0x9C flags, F8 0x9E ty]"] by (simp add: prepare_block_bitmap_options_def)
  qed
  show "sample_runs prepare_blk2off_table_options"
  proof (rule sample_runsI)
    fix l
    assume l: "sample_ready l"
    then have c: "bt_compression (vl_blk2off_tbl l) = SSDFS_ZLIB_BLOB" by (simp add: sample_ready_def)
    obtain flags ty where "area_options (bt_has_backup_copy (vl_blk2off_tbl l)) SSDFS_ZLIB_BLOB = Inr (flags, ty)" using zlib by blast
    then show "\<exists>l'. prepare_blk2off_table_options l = Inr l' \<and> sample_ready l'"
      using c vs_runs[OF _ l, of "[F16 0xA0 flags, F8 0xA2 ty]"] by (simp add: prepare_blk2off_table_options_def)
  qed
qed

lemma sample_header:
  assumes l: "sample_ready l"
  shows "\<exists>fs l'. volume_header_fields env l = Inr fs \<and> vh_fields fs l = Inr l' \<and> sample_ready l'"
proof -
  have v: "vl_seg_size l = 0x100000000" "vl_page_size l = 4096" "erase_size (vl_env l) = 0x800000" "vl_nand_dies_count l = 1"
    "env_device_type (vl_env l) = SSDFS_BLK_DEVICE" "length (vl_uuid l) = 16"
    using l by (simp_all add: sample_ready_def sample_superblock_volume_def)
  obtain fs where fs: "volume_header_fields env l = Inr fs" "\<forall>f\<in>set fs. field_off f + field_size f \<le> 1024"
    by (simp add: volume_header_fields_def v device_geometry_def signature_fields_def Let_def ucast_max min_def
        BUG_ON_def word_le_nat_alt)
  with vh_runs[OF fs(2) l] show ?thesis by blast
qed

lemma sample_state:
  assumes l: "sample_ready l"
  shows "\<exists>fs l'. volume_state_fields l = Inr fs \<and> vs_fields fs l = Inr l' \<and> sample_ready l'"
proof -
  have v: "vl_seg_size l = 0x100000000" "length (vl_uuid l) = 16" "length (vl_volume_label l) = 16"
    using l by (simp_all add: sample_ready_def)
  obtain fs where fs: "volume_state_fields l = Inr fs" "\<forall>f\<in>set fs. field_off f + field_size f \<le> 1024"
    by (simp add: volume_state_fields_def v signature_fields_def)
  with vs_runs[OF fs(2) l] show ?thesis by blast
qed

lemma sample_prepared: "\<exists>l'. sb_mkfs_prepare crc sample_host sample_superblock_volume = Inr l'"
proof -
  let ?l = "sample_superblock_volume\<lparr>vl_create_timestamp := ssdfs_current_time_in_nanoseconds (he_ctime sample_host),
      vl_create_cno := 0, vl_uuid := he_uuid sample_host\<rparr>"
  have reserve: "reserve_segments sample_superblock_volume SSDFS_SUPERBLOCK = Inr sample_superblock_volume"
    by (simp add: reserve_segments_def sample_superblock_volume_def mkfs_volume_layout_def Let_def)
  have "sample_ready ?l"
    by (simp add: sample_ready_def sample_superblock_volume_def mkfs_volume_layout_def sample_host_def)
  then obtain fs l1 where l1: "volume_header_fields sample_host ?l = Inr fs" "vh_fields fs ?l = Inr l1" "sample_ready l1"
    using sample_header by blast
  obtain l2 where l2: "sb_set_lnodes_log_pages l1 = Inr l2" "sample_ready l2" using sample_runsD[OF sample_log_page_steps(1) l1(3)] by blast
  obtain l3 where l3: "sb_set_hnodes_log_pages l2 = Inr l3" "sample_ready l3" using sample_runsD[OF sample_log_page_steps(2) l2(2)] by blast
  obtain l4 where l4: "sb_set_inodes_log_pages l3 = Inr l4" "sample_ready l4" using sample_runsD[OF sample_log_page_steps(3) l3(2)] by blast
  obtain l5 where l5: "sb_dentries_btree_desc_prepare l4 = Inr l5" "sample_ready l5" using sample_runsD[OF sample_desc_steps(1) l4(2)] by blast
  obtain l6 where l6: "sb_extents_btree_desc_prepare l5 = Inr l6" "sample_ready l6" using sample_runsD[OF sample_desc_steps(2) l5(2)] by blast
  obtain l7 where l7: "sb_xattrs_btree_desc_prepare l6 = Inr l7" "sample_ready l7" using sample_runsD[OF sample_desc_steps(3) l6(2)] by blast
  obtain fs' l8 where l8: "volume_state_fields l7 = Inr fs'" "vs_fields fs' l7 = Inr l8" "sample_ready l8" using sample_state l7(2) by blast
  have "sample_runs (\<lambda>l. bnd (define_compression_option l) (\<lambda>l. bnd (prepare_block_bitmap_options l) (\<lambda>l.
      bnd (prepare_blk2off_table_options l) (\<lambda>l. bnd (sb_prepare_inodes_btree crc sample_host l) (\<lambda>l.
      bnd (sb_prepare_shared_extents_btree l) (\<lambda>l. bnd (sb_prepare_shared_dict_btree l) (\<lambda>l.
      bnd (sb_prepare_snapshots_btree l) sb_prepare_invext_btree)))))))"
    by (intro sample_then sample_options sample_trees)
  from sample_runsD[OF this l8(3)] show ?thesis
    using reserve l1 l2(1) l3(1) l4(1) l5(1) l6(1) l7(1) l8(1,2) by (auto simp: sb_mkfs_prepare_def Let_def)
qed

theorem superblock_describes_geometry_witness:
  "\<exists>l'. sb_mkfs_prepare (\<lambda>seed data. 0) sample_host sample_superblock_volume = Inr l' \<and> length (sb_vh (vl_sb l')) = 1024 \<and>
    unat (get8 (sb_vh (vl_sb l')) 0x10) = 12 \<and> unat (get8 (sb_vh (vl_sb l')) 0x11) = 23 \<and>
    unat (get8 (sb_vh (vl_sb l')) 0x12) = 255 \<and> unat (get16 (sb_vh (vl_sb l')) 0x16) = 512 \<and>
    unat (get64 (sb_vs (vl_sb l')) 0x10) = 16"
proof -
  let ?l = sample_superblock_volume
  obtain l' where run: "sb_mkfs_prepare (\<lambda>seed data. 0) sample_host ?l = Inr l'" using sample_prepared by blast
  have v: "length (sb_vh (vl_sb ?l)) = 1024" "length (sb_vs (vl_sb ?l)) = 1024" "vl_page_size ?l = 2 ^ 12" "erase_size (vl_env ?l) = 2 ^ 23"
    "vl_seg_size ?l = 2 ^ 32" "unat (fs_size (vl_env ?l)) = 2 ^ 36"
    by (simp_all add: sample_superblock_volume_def mkfs_volume_layout_def)
  show ?thesis using superblock_describes_geometry[OF run v(1,2,3) _ v(4) _ v(5)] run v(6) by simp
qed

end
