(* ===== verification/MkfsOptions.thy ===== *)
theory MkfsOptions
  imports MkfsDriver
begin

text \<open>
  \<^verbatim>\<open>sbin/mkfs.ssdfs/options.c\<close>: the command line of \<^verbatim>\<open>mkfs.ssdfs\<close>. The parser changes the layout of the volume and the
  number of the erasing threads; the switches of the messages (\<^verbatim>\<open>-d\<close> and \<^verbatim>\<open>-q\<close>) have no state in the model. Values are
  converted as the assignments of the code convert them.
\<close>

record mkfs_config =
  oc_layout :: ssdfs_volume_layout
  oc_threads :: u32

section \<open>Checks of the values\<close>

abbreviation (input) USHRT_MAX :: int where "USHRT_MAX \<equiv> 65535"

text \<open>The number of segments in a chain is corrected instead of refused.\<close>

definition check_segbmap_segs_per_chain :: "int \<Rightarrow> int" where
  "check_segbmap_segs_per_chain v = (if v \<le> 0 then 1 else if 8 < v then 8 else v)"

definition check_nand_dies_count :: "int \<Rightarrow> unit parsed" where
  "check_nand_dies_count v = usage_if (v mod 2 \<noteq> 0)"

text \<open>
  \<^verbatim>\<open>check_segbmap_fragments_per_peb\<close>, \<^verbatim>\<open>check_maptbl_stripes_per_fragment\<close> and \<^verbatim>\<open>check_maptbl_fragments_per_peb\<close>
  are the same check, as are those of the number of pages in a log.
\<close>

definition check_fragments :: "int \<Rightarrow> unit parsed" where
  "check_fragments v = usage_if (USHRT_MAX \<le> v)"

definition check_log_pages :: "int \<Rightarrow> unit parsed" where
  "check_log_pages v = usage_if (v = 0 \<or> USHRT_MAX \<le> v)"

definition check_migration_threshold :: "int \<Rightarrow> unit parsed" where
  "check_migration_threshold v = usage_if (v = 0 \<or> 65535 \<le> v)"

definition check_reserved_pebs_per_fragment :: "int \<Rightarrow> unit parsed" where
  "check_reserved_pebs_per_fragment v = usage_if (v = 0 \<or> 80 < v)"

definition get_compression_id :: "string option \<Rightarrow> int parsed" where
  "get_compression_id v = pbnd (argument v) (\<lambda>v.
     if v = ''none'' then Inr SSDFS_UNCOMPRESSED_BLOB
     else if v = ''zlib'' then Inr SSDFS_ZLIB_BLOB
     else if v = ''lzo'' then Inr SSDFS_LZO_BLOB
     else if v = ''lz4'' then Inr SSDFS_LZ4_BLOB
     else if v = ''zstd'' then Inr SSDFS_ZSTD_BLOB
     else Inl EXIT_FAILURE)"

definition node_sizes :: "int list" where
  "node_sizes = [4096, 8192, 16384, 32768, 65536]"

definition check_btree_node_size :: "int \<Rightarrow> unit parsed" where
  "check_btree_node_size v = usage_if (v \<notin> set node_sizes)"

text \<open>The size of an index key is 32; the remainder is taken in \<^verbatim>\<open>u32\<close>.\<close>

definition check_btree_min_index_area_size :: "int \<Rightarrow> unit parsed" where
  "check_btree_min_index_area_size v = usage_if ((word_of_int v :: u32) mod 32 \<noteq> 0)"

definition inode_sizes :: "u16 list" where
  "inode_sizes = [256, 512, 1024, 2048, 4096]"

definition check_inode_size :: "u16 \<Rightarrow> unit parsed" where
  "check_inode_size v = usage_if (v \<notin> set inode_sizes)"

section \<open>Suboptions\<close>

text \<open>An option with a number: its conversion, its check and its assignment.\<close>

definition with_number :: "string option \<Rightarrow> (int \<Rightarrow> unit parsed) \<Rightarrow> (int \<Rightarrow> 's) \<Rightarrow> 's parsed" where
  "with_number v check put = pbnd (numeric v) (\<lambda>count. pbnd (check count) (\<lambda>_. Inr (put count)))"

lemma with_number_eq_Inr:
  "with_number v check put = Inr s \<longleftrightarrow> (\<exists>x. v = Some x \<and> check (atoi x) = Inr () \<and> s = put (atoi x))"
  by (auto simp: with_number_def pbnd_eq_Inr numeric_eq_Inr)

definition blkbmap_tokens :: "string list" where
  "blkbmap_tokens = [''has_copy'', ''compression'']"

definition blkbmap_option :: "nat \<Rightarrow> string option \<Rightarrow> ssdfs_blkbmap_layout \<Rightarrow> ssdfs_blkbmap_layout parsed" where
  "blkbmap_option i v b =
     (if i = 0 then Inr (b\<lparr>bb_has_backup_copy := True\<rparr>)
      else pbnd (get_compression_id v) (\<lambda>c. Inr (b\<lparr>bb_compression := c\<rparr>)))"

definition blk2off_tbl_tokens :: "string list" where
  "blk2off_tbl_tokens = [''has_copy'', ''compression'']"

definition blk2off_tbl_option :: "nat \<Rightarrow> string option \<Rightarrow> ssdfs_blk2off_table_layout \<Rightarrow> ssdfs_blk2off_table_layout parsed" where
  "blk2off_tbl_option i v b =
     (if i = 0 then Inr (b\<lparr>bt_has_backup_copy := True\<rparr>)
      else pbnd (get_compression_id v) (\<lambda>c. Inr (b\<lparr>bt_compression := c\<rparr>)))"

definition maptbl_tokens :: "string list" where
  "maptbl_tokens =
     [''has_copy'', ''stripes_per_fragment'', ''fragments_per_peb'', ''log_pages'', ''migration_threshold'',
      ''reserved_pebs_per_fragment'', ''compression'']"

definition maptbl_option :: "nat \<Rightarrow> string option \<Rightarrow> ssdfs_maptbl_layout \<Rightarrow> ssdfs_maptbl_layout parsed" where
  "maptbl_option i v m =
     (if i = 0 then Inr (m\<lparr>mt_has_backup_copy := True\<rparr>)
      else if i = 1 then with_number v check_fragments (\<lambda>n. m\<lparr>mt_stripes_per_portion := word_of_int n\<rparr>)
      else if i = 2 then with_number v check_fragments (\<lambda>n. m\<lparr>mt_portions_per_fragment := word_of_int n\<rparr>)
      else if i = 3 then with_number v check_log_pages (\<lambda>n. m\<lparr>mt_log_pages := word_of_int n\<rparr>)
      else if i = 4 then with_number v check_migration_threshold (\<lambda>n. m\<lparr>mt_migration_threshold := word_of_int n\<rparr>)
      else if i = 5 then with_number v check_reserved_pebs_per_fragment (\<lambda>n. m\<lparr>mt_reserved_pebs_per_fragment := word_of_int n\<rparr>)
      else pbnd (get_compression_id v) (\<lambda>c. Inr (m\<lparr>mt_compression := c\<rparr>)))"

definition segbmap_tokens :: "string list" where
  "segbmap_tokens =
     [''has_copy'', ''segs_per_chain'', ''fragments_per_peb'', ''log_pages'', ''migration_threshold'', ''compression'']"

text \<open>The number of segments in a chain is stored through \<^verbatim>\<open>u8\<close>.\<close>

definition segbmap_option :: "nat \<Rightarrow> string option \<Rightarrow> ssdfs_segbmap_layout \<Rightarrow> ssdfs_segbmap_layout parsed" where
  "segbmap_option i v s =
     (if i = 0 then Inr (s\<lparr>sg_has_backup_copy := True\<rparr>)
      else if i = 1 then
        with_number v (\<lambda>_. Inr ())
          (\<lambda>n. s\<lparr>sg_segs_per_chain := ucast (word_of_int (check_segbmap_segs_per_chain n) :: u8)\<rparr>)
      else if i = 2 then with_number v check_fragments (\<lambda>n. s\<lparr>sg_fragments_per_peb := word_of_int n\<rparr>)
      else if i = 3 then with_number v check_log_pages (\<lambda>n. s\<lparr>sg_log_pages := word_of_int n\<rparr>)
      else if i = 4 then with_number v check_migration_threshold (\<lambda>n. s\<lparr>sg_migration_threshold := word_of_int n\<rparr>)
      else pbnd (get_compression_id v) (\<lambda>c. Inr (s\<lparr>sg_compression := c\<rparr>)))"

definition btree_tokens :: "string list" where
  "btree_tokens =
     [''node_size'', ''min_index_area_size'', ''leaf_node_log_pages'', ''hybrid_node_log_pages'', ''index_node_log_pages'']"

definition btree_option :: "nat \<Rightarrow> string option \<Rightarrow> ssdfs_btree_layout \<Rightarrow> ssdfs_btree_layout parsed" where
  "btree_option i v b =
     (if i = 0 then with_number v check_btree_node_size (\<lambda>n. b\<lparr>bl_node_size := word_of_int n\<rparr>)
      else if i = 1 then with_number v check_btree_min_index_area_size (\<lambda>n. b\<lparr>bl_min_index_area_size := word_of_int n\<rparr>)
      else if i = 2 then with_number v check_log_pages (\<lambda>n. b\<lparr>bl_lnode_log_pages := word_of_int n\<rparr>)
      else if i = 3 then with_number v check_log_pages (\<lambda>n. b\<lparr>bl_hnode_log_pages := word_of_int n\<rparr>)
      else with_number v check_log_pages (\<lambda>n. b\<lparr>bl_inode_log_pages := word_of_int n\<rparr>))"

definition dataseg_tokens :: "string list" where
  "dataseg_tokens = [''log_pages'', ''migration_threshold'', ''compression'']"

definition dataseg_option :: "nat \<Rightarrow> string option \<Rightarrow> ssdfs_user_data_layout \<Rightarrow> ssdfs_user_data_layout parsed" where
  "dataseg_option i v d =
     (if i = 0 then with_number v check_log_pages (\<lambda>n. d\<lparr>ud_log_pages := word_of_int n\<rparr>)
      else if i = 1 then with_number v check_migration_threshold (\<lambda>n. d\<lparr>ud_migration_threshold := word_of_int n\<rparr>)
      else pbnd (get_compression_id v) (\<lambda>c. Inr (d\<lparr>ud_compression := c\<rparr>)))"

section \<open>Options\<close>

definition mkfs_sopts :: string where
  "mkfs_sopts = ''B:C:D:de:fhi:j:L:M:m:O:p:qRS:s:T:U:V''"

definition mkfs_lopts :: "long_opt list" where
  "mkfs_lopts =
     [(''blkbmap'', True, CHR ''B''), (''compression'', True, CHR ''C''), (''nand-dies'', True, CHR ''D''),
      (''debug'', False, CHR ''d''), (''erasesize'', True, CHR ''e''), (''force'', False, CHR ''f''),
      (''help'', False, CHR ''h''), (''inode_size'', True, CHR ''i''), (''threads'', True, CHR ''j''),
      (''label'', True, CHR ''L''), (''maptbl'', True, CHR ''M''), (''migration-threshold'', True, CHR ''m''),
      (''offsets_table'', True, CHR ''O''), (''pagesize'', True, CHR ''p''), (''quiet'', False, CHR ''q''),
      (''erase-device'', False, CHR ''R''), (''segbmap'', True, CHR ''S''), (''segsize'', True, CHR ''s''),
      (''btree'', True, CHR ''T''), (''user_data_segment'', True, CHR ''U''), (''version'', False, CHR ''V'')]"

text \<open>\<^verbatim>\<open>strncpy\<close> into the label without its last byte.\<close>

definition put_label :: "string \<Rightarrow> buf \<Rightarrow> buf" where
  "put_label s b = take 15 (map (\<lambda>c. of_nat (of_char c)) s @ replicate 15 0) @ drop 15 b"

definition put_env :: "ssdfs_environment \<Rightarrow> ssdfs_volume_layout \<Rightarrow> ssdfs_volume_layout" where
  "put_env e l = l\<lparr>vl_env := e\<rparr>"

definition layout_option :: "char \<Rightarrow> string option \<Rightarrow> ssdfs_volume_layout \<Rightarrow> ssdfs_volume_layout parsed" where
  "layout_option c optarg l =
     (if c = CHR ''B'' then
        pbnd (argument optarg) (\<lambda>p. pbnd (suboptions blkbmap_tokens blkbmap_option p (vl_blkbmap l)) (\<lambda>b.
        Inr (l\<lparr>vl_blkbmap := b\<rparr>)))
      else if c = CHR ''C'' then pbnd (get_compression_id optarg) (\<lambda>i. Inr (l\<lparr>vl_compression := i\<rparr>))
      else if c = CHR ''D'' then
        with_number optarg (\<lambda>n. check_nand_dies_count n) (\<lambda>n. l\<lparr>vl_nand_dies_count := word_of_int n\<rparr>)
      else if c = CHR ''e'' then
        granularity_or optarg
          (\<lambda>g. pbnd (check_erasesize g) (\<lambda>_. Inr (put_env ((vl_env l)\<lparr>erase_size := ucast g\<rparr>) l)))
          (\<lambda>s. let n = word_of_int (atol s) :: u32 in
               pbnd (check_erasesize (ucast n)) (\<lambda>_. Inr (put_env ((vl_env l)\<lparr>erase_size := n\<rparr>) l)))
      else if c = CHR ''f'' then Inr (l\<lparr>vl_force_overwrite := True\<rparr>)
      else if c = CHR ''i'' then
        granularity_or optarg
          (\<lambda>g. pbnd (check_inode_size (ucast g)) (\<lambda>_. Inr (l\<lparr>vl_inode_size := ucast g\<rparr>)))
          (\<lambda>s. let n = word_of_int (atoi s) in pbnd (check_inode_size n) (\<lambda>_. Inr (l\<lparr>vl_inode_size := n\<rparr>)))
      else if c = CHR ''L'' then
        pbnd (argument optarg) (\<lambda>s. Inr (l\<lparr>vl_volume_label := put_label s (vl_volume_label l)\<rparr>))
      else if c = CHR ''M'' then
        pbnd (argument optarg) (\<lambda>p. pbnd (suboptions maptbl_tokens maptbl_option p (vl_maptbl l)) (\<lambda>m.
        Inr (l\<lparr>vl_maptbl := m\<rparr>)))
      else if c = CHR ''m'' then
        with_number optarg (\<lambda>n. check_migration_threshold (uint (word_of_int n :: u16)))
          (\<lambda>n. l\<lparr>vl_migration_threshold := word_of_int n\<rparr>)
      else if c = CHR ''O'' then
        pbnd (argument optarg) (\<lambda>p. pbnd (suboptions blk2off_tbl_tokens blk2off_tbl_option p (vl_blk2off_tbl l)) (\<lambda>b.
        Inr (l\<lparr>vl_blk2off_tbl := b\<rparr>)))
      else if c = CHR ''p'' then
        granularity_or optarg
          (\<lambda>g. pbnd (check_pagesize (sint (ucast g :: 32 word))) (\<lambda>_. Inr (l\<lparr>vl_page_size := ucast g\<rparr>)))
          (\<lambda>s. pbnd (check_pagesize (atoi s)) (\<lambda>_. Inr (l\<lparr>vl_page_size := word_of_int (atoi s)\<rparr>)))
      else if c = CHR ''R'' then Inr (l\<lparr>vl_need_erase_device := True\<rparr>)
      else if c = CHR ''S'' then
        pbnd (argument optarg) (\<lambda>p. pbnd (suboptions segbmap_tokens segbmap_option p (vl_segbmap l)) (\<lambda>s.
        Inr (l\<lparr>vl_segbmap := s\<rparr>)))
      else if c = CHR ''s'' then
        granularity_or optarg
          (\<lambda>g. pbnd (check_segsize g) (\<lambda>_. Inr (l\<lparr>vl_seg_size := g\<rparr>)))
          (\<lambda>s. let n = word_of_int (atol s) in pbnd (check_segsize n) (\<lambda>_. Inr (l\<lparr>vl_seg_size := n\<rparr>)))
      else if c = CHR ''T'' then
        pbnd (argument optarg) (\<lambda>p. pbnd (suboptions btree_tokens btree_option p (vl_btree l)) (\<lambda>b.
        Inr (l\<lparr>vl_btree := b\<rparr>)))
      else if c = CHR ''U'' then
        pbnd (argument optarg) (\<lambda>p. pbnd (suboptions dataseg_tokens dataseg_option p (vl_user_data_seg l)) (\<lambda>d.
        Inr (l\<lparr>vl_user_data_seg := d\<rparr>)))
      else Inl EXIT_FAILURE)"

text \<open>The options that end the program, those without state, the threads, and the options of the layout.\<close>

definition mkfs_option :: "getopt_event \<Rightarrow> mkfs_config \<Rightarrow> mkfs_config parsed" where
  "mkfs_option ev cfg =
     (let c = fst ev in
      if c = CHR ''h'' \<or> c = CHR ''V'' then Inl EXIT_SUCCESS
      else if c = CHR ''d'' \<or> c = CHR ''q'' then Inr cfg
      else if c = CHR ''j'' then pbnd (numeric (snd ev)) (\<lambda>n. Inr (cfg\<lparr>oc_threads := word_of_int n\<rparr>))
      else pbnd (layout_option c (snd ev) (oc_layout cfg)) (\<lambda>l. Inr (cfg\<lparr>oc_layout := l\<rparr>)))"

text \<open>\<open>args\<close> is \<^verbatim>\<open>argv\<close> behind the name of the program; the result has the only operand, the name of the device.\<close>

definition mkfs_parse_options :: "string list \<Rightarrow> mkfs_config \<Rightarrow> (mkfs_config \<times> string) parsed" where
  "mkfs_parse_options args cfg =
     (let (events, operands) = getopt_long mkfs_sopts mkfs_lopts args in
      pbnd (parse_all mkfs_option events cfg) (\<lambda>cfg.
      pbnd (usage_if (length operands \<noteq> 1)) (\<lambda>_. Inr (cfg, hd operands))))"

text \<open>The program from its command line on. \<open>w\<close> is the world as it is for the device of that name.\<close>

definition mkfs_ssdfs ::
  "'s mkfs_env \<Rightarrow> (string \<Rightarrow> mkfs_world) \<Rightarrow> string list \<Rightarrow> device \<Rightarrow> (exit_status \<times> device option) option" where
  "mkfs_ssdfs env w args dev =
     (case mkfs_parse_options args \<lparr>oc_layout = mkfs_volume_layout, oc_threads = 0\<rparr> of
        Inl e \<Rightarrow> Some (e, Some dev)
      | Inr (cfg, name) \<Rightarrow>
          mkfs_main (env\<lparr>me_threads := oc_threads cfg\<rparr>) ((w name)\<lparr>mw_dev_name := name\<rparr>) (oc_layout cfg) dev)"

section \<open>What the parser guarantees\<close>

text \<open>
  The values a layout may have: sizes of the lists, a migration threshold of the volume that is not zero, a label that is
  terminated, a known compression of the volume. The parts of the layout may leave their compression open (\<open>5\<close>). Their
  thresholds and numbers of pages are not restricted, because the parser does not keep them from zero.
\<close>

definition known_compression :: "int \<Rightarrow> bool" where
  "known_compression c \<longleftrightarrow> 0 \<le> c \<and> c < SSDFS_UNKNOWN_COMPRESSION"

definition part_compression :: "int \<Rightarrow> bool" where
  "part_compression c \<longleftrightarrow> known_compression c \<or> c = SSDFS_UNKNOWN_COMPRESSION"

definition btree_options_wf :: "ssdfs_btree_layout \<Rightarrow> bool" where
  "btree_options_wf b \<longleftrightarrow>
     uint (bl_node_size b) \<in> set node_sizes \<and> unat (bl_min_index_area_size b) mod 32 = 0"

definition segbmap_options_wf :: "ssdfs_segbmap_layout \<Rightarrow> bool" where
  "segbmap_options_wf s \<longleftrightarrow>
     1 \<le> unat (sg_segs_per_chain s) \<and> unat (sg_segs_per_chain s) \<le> 8 \<and> part_compression (sg_compression s)"

definition options_wf :: "ssdfs_volume_layout \<Rightarrow> bool" where
  "options_wf l \<longleftrightarrow>
     uint (vl_page_size l) \<in> set page_sizes \<and> ucast (erase_size (vl_env l)) \<in> set erase_sizes \<and>
     vl_seg_size l \<in> set seg_sizes \<and> vl_inode_size l \<in> set inode_sizes \<and>
     (vl_nand_dies_count l = 1 \<or> even (uint (vl_nand_dies_count l))) \<and> vl_migration_threshold l \<noteq> 0 \<and>
     known_compression (vl_compression l) \<and> length (vl_volume_label l) = 16 \<and> vl_volume_label l ! 15 = 0 \<and>
     part_compression (bb_compression (vl_blkbmap l)) \<and> part_compression (bt_compression (vl_blk2off_tbl l)) \<and>
     part_compression (mt_compression (vl_maptbl l)) \<and> part_compression (ud_compression (vl_user_data_seg l)) \<and>
     segbmap_options_wf (vl_segbmap l) \<and> btree_options_wf (vl_btree l)"

lemma compression_known: "get_compression_id v = Inr c \<Longrightarrow> known_compression c"
  by (auto simp: get_compression_id_def pbnd_eq_Inr known_compression_def split: if_splits)

lemma part_compression_known: "get_compression_id v = Inr c \<Longrightarrow> part_compression c"
  by (simp add: part_compression_def compression_known)

lemma blkbmap_option_wf:
  "blkbmap_option i v b = Inr b' \<Longrightarrow> part_compression (bb_compression b) \<Longrightarrow> part_compression (bb_compression b')"
  by (auto simp: blkbmap_option_def pbnd_eq_Inr part_compression_known split: if_splits)

lemma blk2off_tbl_option_wf:
  "blk2off_tbl_option i v b = Inr b' \<Longrightarrow> part_compression (bt_compression b) \<Longrightarrow> part_compression (bt_compression b')"
  by (auto simp: blk2off_tbl_option_def pbnd_eq_Inr part_compression_known split: if_splits)

lemma maptbl_option_wf:
  "maptbl_option i v m = Inr m' \<Longrightarrow> part_compression (mt_compression m) \<Longrightarrow> part_compression (mt_compression m')"
  by (auto simp: maptbl_option_def pbnd_eq_Inr with_number_eq_Inr part_compression_known split: if_splits)

lemma dataseg_option_wf:
  "dataseg_option i v d = Inr d' \<Longrightarrow> part_compression (ud_compression d) \<Longrightarrow> part_compression (ud_compression d')"
  by (auto simp: dataseg_option_def pbnd_eq_Inr with_number_eq_Inr part_compression_known split: if_splits)

lemma segs_per_chain_range:
  "1 \<le> unat (ucast (word_of_int (check_segbmap_segs_per_chain n) :: u8) :: u16) \<and>
   unat (ucast (word_of_int (check_segbmap_segs_per_chain n) :: u8) :: u16) \<le> 8"
proof -
  define k where "k = nat (check_segbmap_segs_per_chain n)"
  have k: "check_segbmap_segs_per_chain n = int k" "1 \<le> k" "k \<le> 8"
    by (auto simp: check_segbmap_segs_per_chain_def k_def)
  have "unat (ucast (word_of_int (int k) :: u8) :: u16) = k"
    using k by (simp add: unat_ucast_up unat_of_nat)
  with k show ?thesis by simp
qed

lemma segbmap_option_wf: "segbmap_option i v s = Inr s' \<Longrightarrow> segbmap_options_wf s \<Longrightarrow> segbmap_options_wf s'"
  using segs_per_chain_range
  by (auto simp: segbmap_option_def segbmap_options_wf_def pbnd_eq_Inr with_number_eq_Inr part_compression_known split: if_splits)

text \<open>The conversion to \<^verbatim>\<open>u16\<close> keeps multiples of the size of an index key.\<close>

lemma index_area_aligned:
  assumes "check_btree_min_index_area_size v = Inr u"
  shows "unat (word_of_int v :: u16) mod 32 = 0"
proof -
  have "(word_of_int v :: u32) mod 32 = 0" using assms by (simp add: check_btree_min_index_area_size_def)
  then have "uint ((word_of_int v :: u32) mod 32) = 0" by simp
  then have "v mod 32 = 0" by (simp add: uint_mod uint_word_of_int mod_mod_cancel)
  then have "uint (word_of_int v :: u16) mod 32 = 0" by (simp add: uint_word_of_int mod_mod_cancel)
  then have "int (unat (word_of_int v :: u16) mod 32) = 0" by (simp only: zmod_int uint_nat of_nat_numeral)
  then show ?thesis by (simp only: of_nat_eq_0_iff)
qed

lemma narrowed_node_size: "n \<in> set node_sizes \<Longrightarrow> uint (word_of_int n :: u32) \<in> set node_sizes"
  by (auto simp: node_sizes_def)

lemma btree_option_wf:
  assumes "btree_option i v b = Inr b'" and "btree_options_wf b"
  shows "btree_options_wf b'"
  using assms
  by (auto simp: btree_option_def btree_options_wf_def with_number_eq_Inr check_btree_node_size_def narrowed_node_size
      simp del: mod_0_imp_dvd dest: index_area_aligned split: if_splits)

lemmas suboptions_wf =
  suboptions_inv[of _ blkbmap_option _ _ _ "\<lambda>b. part_compression (bb_compression b)", OF _ _ blkbmap_option_wf]
  suboptions_inv[of _ blk2off_tbl_option _ _ _ "\<lambda>b. part_compression (bt_compression b)", OF _ _ blk2off_tbl_option_wf]
  suboptions_inv[of _ maptbl_option _ _ _ "\<lambda>m. part_compression (mt_compression m)", OF _ _ maptbl_option_wf]
  suboptions_inv[of _ dataseg_option _ _ _ "\<lambda>d. part_compression (ud_compression d)", OF _ _ dataseg_option_wf]
  suboptions_inv[of _ segbmap_option _ _ _ segbmap_options_wf, OF _ _ segbmap_option_wf]
  suboptions_inv[of _ btree_option _ _ _ btree_options_wf, OF _ _ btree_option_wf]

lemma put_label_terminated:
  assumes "length b = 16" and "b ! 15 = 0"
  shows "length (put_label s b) = 16" "put_label s b ! 15 = 0"
  using assms by (simp_all add: put_label_def nth_append min_def)

lemma narrowed_erasesize: "g \<in> set erase_sizes \<Longrightarrow> ucast (ucast g :: u32) = g"
  by (auto simp: erase_sizes_def)

lemma narrowed_pagesize: "sint w \<in> set page_sizes \<Longrightarrow> uint w \<in> set page_sizes" for w :: u32
  by (auto simp: page_sizes_def uint_sint)

lemma narrowed_number: "n \<in> set page_sizes \<Longrightarrow> uint (word_of_int n :: u32) \<in> set page_sizes"
  by (auto simp: page_sizes_def)

lemma even_dies:
  assumes "check_nand_dies_count n = Inr u"
  shows "even (uint (word_of_int n :: u32))"
  using assms by (auto simp: check_nand_dies_count_def uint_word_of_int even_iff_mod_2_eq_zero mod_mod_cancel)

lemma threshold_nonzero: "check_migration_threshold (uint w) = Inr u \<Longrightarrow> w \<noteq> 0" for w :: u16
  by (auto simp: check_migration_threshold_def)

lemma granularity_or_Inr:
  assumes "granularity_or a f g = Inr l"
  obtains n where "f n = Inr l" | s where "g s = Inr l"
  using assms by (auto simp: granularity_or_def pbnd_eq_Inr Let_def split: if_splits)

text \<open>Every option keeps the layout well formed.\<close>

lemma layout_option_wf:
  assumes "layout_option c a l = Inr l'" and "options_wf l"
  shows "options_wf l'"
proof -
  have step: "(if b then x else y) = Inr l' \<Longrightarrow> (b \<Longrightarrow> x = Inr l' \<Longrightarrow> options_wf l') \<Longrightarrow> (\<not> b \<Longrightarrow> y = Inr l' \<Longrightarrow> options_wf l') \<Longrightarrow> options_wf l'"
    for b and x y :: "ssdfs_volume_layout parsed"
    by (simp split: if_splits)
  show ?thesis
    using assms(1) unfolding layout_option_def
    apply (elim step granularity_or_Inr, insert assms(2))
    apply (simp_all add: pbnd_eq_Inr with_number_eq_Inr Let_def put_env_def checked_sizes check_inode_size_def)
    apply safe
    apply (auto simp: options_wf_def narrowed_erasesize narrowed_pagesize narrowed_number even_dies threshold_nonzero compression_known
        put_label_terminated dest: suboptions_wf)
    done
qed

lemma mkfs_option_wf:
  assumes "mkfs_option ev cfg = Inr cfg'" and "options_wf (oc_layout cfg)"
  shows "options_wf (oc_layout cfg')"
  using assms by (auto simp: mkfs_option_def Let_def pbnd_eq_Inr layout_option_wf split: if_splits)

lemma mkfs_volume_layout_wf: "options_wf mkfs_volume_layout"
  by (simp add: options_wf_def mkfs_volume_layout_def page_sizes_def seg_sizes_def erase_sizes_def inode_sizes_def
      known_compression_def part_compression_def segbmap_options_wf_def btree_options_wf_def node_sizes_def)

text \<open>
  Values the checks of the code treat in another way than its tables suggest: a segment of 4 GiB is admissible, but its
  name is not known, so \<^verbatim>\<open>4GB\<close> is read as 4 and refused; and a negative number of pages in a log or a negative threshold of
  a table passes the check, because only zero and large values are refused before the conversion, and can become 0 in \<^verbatim>\<open>u16\<close>.
\<close>

lemma four_gib_refused: "layout_option CHR ''s'' (Some ''4GB'') l = Inl EXIT_FAILURE"
proof -
  have "detect_granularity ''4GB'' = U64_MAX" "(word_of_int (atol ''4GB'') :: u64) = 4" by code_simp+
  moreover have "(4 :: u64) \<notin> set seg_sizes" by code_simp
  ultimately show ?thesis
    by (simp add: layout_option_def granularity_or_def argument_def check_segsize_def known_segsize_def usage_if_def fail_if_def
        pbnd_def)
qed

lemma four_gib_known: "4294967296 \<in> set seg_sizes"
  by (simp add: seg_sizes_def)

lemma negative_log_pages_accepted:
  "maptbl_option 3 (Some ''-65536'') m = Inr (m\<lparr>mt_log_pages := 0\<rparr>)"
proof -
  have "atoi ''-65536'' = - 65536" by code_simp
  then show ?thesis by (simp add: maptbl_option_def with_number_def numeric_def argument_def check_log_pages_def usage_if_def)
qed

lemma negative_threshold_accepted:
  "maptbl_option 4 (Some ''-65536'') m = Inr (m\<lparr>mt_migration_threshold := 0\<rparr>)"
  "segbmap_option 4 (Some ''-65536'') s = Inr (s\<lparr>sg_migration_threshold := 0\<rparr>)"
  "dataseg_option 1 (Some ''-65536'') d = Inr (d\<lparr>ud_migration_threshold := 0\<rparr>)"
proof -
  have "atoi ''-65536'' = - 65536" by code_simp
  then show "maptbl_option 4 (Some ''-65536'') m = Inr (m\<lparr>mt_migration_threshold := 0\<rparr>)"
    "segbmap_option 4 (Some ''-65536'') s = Inr (s\<lparr>sg_migration_threshold := 0\<rparr>)"
    "dataseg_option 1 (Some ''-65536'') d = Inr (d\<lparr>ud_migration_threshold := 0\<rparr>)"
    by (simp_all add: maptbl_option_def segbmap_option_def dataseg_option_def with_number_def numeric_def argument_def
        check_migration_threshold_def usage_if_def)
qed

text \<open>
  C16. \<^verbatim>\<open>parse_options\<close> of \<^verbatim>\<open>mkfs.ssdfs\<close>, for every command line: when the program does not end in the parser and the layout
  was well formed before, it is afterwards: its page, erase block, segment, inode and b-tree node sizes are of the tables,
  also behind the narrowing conversions; the minimal index area of a b-tree is a multiple of 32 bytes; the chain of the
  segment bitmap has 1 to 8 segments; the number of dies is even or 1; the migration threshold of the volume is not zero;
  the compression of the volume is a known one, and that of each table is known or left open; the label is terminated. And
  there is exactly one operand, the name of the device. The thresholds of the single tables are not in it:
  \<open>negative_threshold_accepted\<close>.
\<close>

theorem parsed_options_wf:
  assumes "mkfs_parse_options args cfg = Inr (cfg', name)" and "options_wf (oc_layout cfg)"
  shows "options_wf (oc_layout cfg') \<and> snd (getopt_long mkfs_sopts mkfs_lopts args) = [name]"
proof -
  obtain events operands where g: "getopt_long mkfs_sopts mkfs_lopts args = (events, operands)" by (cases "getopt_long mkfs_sopts mkfs_lopts args")
  with assms(1) have run: "parse_all mkfs_option events cfg = Inr cfg'" and one: "length operands = 1" "name = hd operands"
    by (auto simp: mkfs_parse_options_def pbnd_eq_Inr)
  have "options_wf (oc_layout cfg')"
    by (rule parse_all_inv[OF run, where I = "\<lambda>c. options_wf (oc_layout c)"]) (auto intro: assms(2) mkfs_option_wf)
  with one g show ?thesis by (cases operands) auto
qed

definition sample_config :: mkfs_config where
  "sample_config = \<lparr>oc_layout = mkfs_volume_layout, oc_threads = 0\<rparr>"

definition sample_args :: "string list" where
  "sample_args = [''/dev/sdb'', ''-fp16kb'', ''--segb=segs_per_chain=40,has_copy'', ''--segs'', ''4294967296'']"

lemma sample_events:
  "getopt_long mkfs_sopts mkfs_lopts sample_args =
     ([(CHR ''f'', None), (CHR ''p'', Some ''16kb''), (CHR ''S'', Some ''segs_per_chain=40,has_copy''),
       (CHR ''s'', Some ''4294967296'')], [''/dev/sdb''])"
  by code_simp

lemma sample_granularities: "detect_granularity ''16kb'' = 16384"
  by code_simp

lemma sample_plain_number: "detect_granularity ''4294967296'' = U64_MAX"
  by code_simp

lemma sample_numbers: "atol ''4294967296'' = 4294967296" "atoi ''40'' = 40"
  by code_simp+

lemma sample_suboptions:
  "getsubopt segbmap_tokens ''segs_per_chain=40,has_copy'' = (Some 1, Some ''40'', ''has_copy'')"
  "getsubopt segbmap_tokens ''has_copy'' = (Some 0, None, [])"
  by code_simp+

lemma sample_parsed:
  "\<exists>cfg'. mkfs_parse_options sample_args sample_config = Inr (cfg', ''/dev/sdb'') \<and> vl_seg_size (oc_layout cfg') = 2 ^ 32 \<and>
     sg_segs_per_chain (vl_segbmap (oc_layout cfg')) = 8 \<and> vl_page_size (oc_layout cfg') = 16384"
  by (simp add: mkfs_parse_options_def sample_events mkfs_option_def layout_option_def granularity_or_def argument_def
      sample_granularities sample_plain_number sample_numbers checked_sizes page_sizes_def seg_sizes_def erase_sizes_def
      suboptions.simps sample_suboptions segbmap_option_def with_number_def numeric_def check_segbmap_segs_per_chain_def
      usage_if_def check_pagesize_def known_pagesize_def check_segsize_def known_segsize_def fail_if_def word_le_nat_alt unat_minus_one_eq)

theorem parsed_options_wf_witness:
  "\<exists>cfg'. mkfs_parse_options sample_args sample_config = Inr (cfg', ''/dev/sdb'') \<and> options_wf (oc_layout cfg') \<and>
     vl_seg_size (oc_layout cfg') = 2 ^ 32"
proof -
  obtain cfg' where run: "mkfs_parse_options sample_args sample_config = Inr (cfg', ''/dev/sdb'')" "vl_seg_size (oc_layout cfg') = 2 ^ 32"
    using sample_parsed by blast
  have "options_wf (oc_layout sample_config)" by (simp add: sample_config_def mkfs_volume_layout_wf)
  from parsed_options_wf[OF run(1) this] run show ?thesis by blast
qed

end
