(* ===== verification/FsckDetect.thy ===== *)
theory FsckDetect
  imports SsdfsCommon Compression
begin

text \<open>
  \<^verbatim>\<open>sbin/fsck.ssdfs/detect_file_system.c\<close> and \<^verbatim>\<open>.h\<close>: the detection of a volume. Four searches follow the chain of the
  metadata (snapshot segment, superblock segments with the cache of the mapping table, segment bitmap, mapping table); when
  one of them does not find its structure, or when it is forced, threads read the first header of every PEB of the volume
  and the result is ordered by the time of creation of the volume the header names.

  The device is read through the parameter \<open>rd\<close> of type \<open>dev_read\<close>, an error of which is the error of the read function.
  A structure read from the device is a buffer of the 2048 bytes of its C type; its fields are at the offsets of
  \<^verbatim>\<open>include/ssdfs_abi.h\<close>. A read of more bytes than the structure has is the fault \<open>Oob\<close>.
\<close>

section \<open>Structures\<close>

datatype fsck_code = SEARCH_SUCCESS | SEARCH_NOT_FOUND | SEARCH_FAILURE

record fsck_found_log =
  fl_peb_id :: u64
  fl_start_page :: u32
  fl_header :: buf
  fl_footer :: buf

text \<open>The pairs are a list of two logs each, main log first.\<close>

record fsck_logs_pair_array =
  lp_pairs :: "fsck_found_log list list option"
  lp_count :: u32
  lp_capacity :: u32

record fsck_segbmap_detection =
  fs_array :: fsck_logs_pair_array
  fs_sb_hdr :: buf
  fs_segs_count :: u32

record fsck_maptbl_detection =
  fm_array :: fsck_logs_pair_array
  fm_sb_hdr :: buf
  fm_segs_count :: u32
  fm_found_segs :: u32
  fm_extents_count :: u32

record fsck_maptbl_cache =
  fc_hdr :: buf
  fc_data :: "buf option"
  fc_bytes_count :: u32

record metadata_peb_item =
  pi_seg_id :: u64
  pi_leb_id :: u64
  pi_peb_id :: u64
  pi_type :: int
  pi_peb_timestamp :: u64
  pi_volume_timestamp :: u64

text \<open>The memory of a map holds \<open>mm_capacity\<close> items, of which \<open>mm_count\<close> are in use.\<close>

record metadata_map =
  mm_array :: "metadata_peb_item list option"
  mm_capacity :: int
  mm_count :: int

record creation_point =
  cp_found_metadata :: u64
  cp_timestamp :: u64
  cp_base_snapshot_log :: fsck_found_log
  cp_superblock_logs :: "fsck_found_log list"
  cp_segbmap :: fsck_segbmap_detection
  cp_maptbl :: fsck_maptbl_detection
  cp_maptbl_cache :: fsck_maptbl_cache
  cp_metadata_map :: "metadata_map list"

datatype creation_array_state = ARRAY_NOT_INITIALIZED | ARRAY_USE_BUFFER | ARRAY_ALLOCATED

text \<open>While the array uses its buffer, the list holds the one point of the buffer.\<close>

record creation_array =
  ca_state :: creation_array_state
  ca_count :: int
  ca_points :: "creation_point list"

datatype detection_state =
  DEVICE_HAS_FILE_SYSTEM | DEVICE_HAS_SOME_METADATA | NO_FILE_SYSTEM_DETECTED | FAILED_DETECT_FILE_SYSTEM |
  UNKNOWN_DETECTION_RESULT

record fsck_environment =
  fe_force_checking :: bool
  fe_seg_size :: u32
  fe_base :: ssdfs_environment
  fe_threads :: u32
  fe_state :: detection_state
  fe_array :: creation_array
  fe_found_peb :: buf

text \<open>
  What the program gets from outside: the device, the CRC and compression libraries, the contents of fresh memory, the
  outcomes of the allocations (by place in the code and number of items) and of the creation of the threads.
\<close>

record 's fsck_world =
  fw_rd :: dev_read
  fw_crc :: "buf \<Rightarrow> u32"
  fw_libs :: "'s codec_libs"
  fw_fresh_buf :: "nat \<Rightarrow> u8"
  fw_fresh_item :: metadata_peb_item
  fw_fresh_point :: creation_point
  fw_alloc :: "nat \<Rightarrow> nat \<Rightarrow> bool"
  fw_thread :: "nat \<Rightarrow> bool"

definition fresh_mem :: "'s fsck_world \<Rightarrow> nat \<Rightarrow> buf" where
  "fresh_mem w n = map (fw_fresh_buf w) [0..<n]"

text \<open>The fields of the headers.\<close>

abbreviation (input) SSDFS_LOG_FOOTER_MAGIC :: u16 where "SSDFS_LOG_FOOTER_MAGIC \<equiv> 0x4C46"
abbreviation (input) SSDFS_PARTIAL_LOG_HDR_MAGIC :: u16 where "SSDFS_PARTIAL_LOG_HDR_MAGIC \<equiv> 0x5048"

definition is_ssdfs_segment_header :: "buf \<Rightarrow> bool" where
  "is_ssdfs_segment_header magic \<longleftrightarrow> get32 magic 0 = SSDFS_SUPER_MAGIC \<and> get16 magic 4 = SSDFS_SEGMENT_HDR_MAGIC"

definition is_ssdfs_partial_log_header :: "buf \<Rightarrow> bool" where
  "is_ssdfs_partial_log_header magic \<longleftrightarrow> get32 magic 0 = SSDFS_SUPER_MAGIC \<and> get16 magic 4 = SSDFS_PARTIAL_LOG_HDR_MAGIC"

definition is_ssdfs_log_footer :: "buf \<Rightarrow> bool" where
  "is_ssdfs_log_footer magic \<longleftrightarrow> get32 magic 0 = SSDFS_SUPER_MAGIC \<and> get16 magic 4 = SSDFS_LOG_FOOTER_MAGIC"

text \<open>\<^verbatim>\<open>hdr->desc_array[i]\<close> of a header whose array starts at \<open>base\<close>: its offset and its size.\<close>

definition area_desc :: "buf \<Rightarrow> nat \<Rightarrow> nat \<Rightarrow> u32 \<times> u32" where
  "area_desc hdr base i = (get32 hdr (base + 16 * i), get32 hdr (base + 16 * i + 4))"

definition sb_peb_id :: "buf \<Rightarrow> nat \<Rightarrow> nat \<Rightarrow> u64" where
  "sb_peb_id hdr i j = get64 hdr (0x30 + 16 * (2 * i + j) + 8)"

text \<open>\<^verbatim>\<open>1 << hdr->volume_hdr.log_pagesize\<close>; a shift by 32 or more has no defined result.\<close>

definition shift_1 :: "u8 \<Rightarrow> u32 res" where
  "shift_1 n = (if unat n < 32 then Inr (push_bit (unat n) 1) else Inl Oob)"

section \<open>Reads\<close>

text \<open>
  A read whose error the caller looks at, and a read into a structure: the bytes behind the data keep their contents.
\<close>

definition attempt :: "'a res \<Rightarrow> 'a option res" where
  "attempt m = (case m of Inr x \<Rightarrow> Inr (Some x) | Inl (Errno e) \<Rightarrow> Inr None | Inl f \<Rightarrow> Inl f)"

definition read_into :: "buf \<Rightarrow> buf res \<Rightarrow> buf option res" where
  "read_into mem r = bnd (attempt r) (\<lambda>x. case x of
     None \<Rightarrow> Inr None
   | Some d \<Rightarrow> if length mem < length d then Inl Oob else Inr (Some (overwrite mem 0 d)))"

definition stack_struct :: "'s fsck_world \<Rightarrow> buf" where
  "stack_struct w = fresh_mem w 2048"

section \<open>Initialization\<close>

definition init_found_log :: "fsck_found_log \<Rightarrow> fsck_found_log" where
  "init_found_log log = log\<lparr>fl_peb_id := U64_MAX, fl_start_page := U32_MAX\<rparr>"

definition init_base_snapshot_seg :: "creation_point \<Rightarrow> creation_point" where
  "init_base_snapshot_seg p = p\<lparr>cp_base_snapshot_log := init_found_log (cp_base_snapshot_log p)\<rparr>"

definition init_superblock_seg :: "creation_point \<Rightarrow> creation_point" where
  "init_superblock_seg p = p\<lparr>cp_superblock_logs := map init_found_log (cp_superblock_logs p)\<rparr>"

definition init_logs_pair_array :: "fsck_logs_pair_array \<Rightarrow> fsck_logs_pair_array" where
  "init_logs_pair_array a = a\<lparr>lp_pairs := None, lp_count := 0, lp_capacity := 0\<rparr>"

definition init_segbmap :: "creation_point \<Rightarrow> creation_point" where
  "init_segbmap p =
     (let s = cp_segbmap p in p\<lparr>cp_segbmap := s\<lparr>fs_segs_count := 0, fs_array := init_logs_pair_array (fs_array s)\<rparr>\<rparr>)"

definition init_maptbl :: "creation_point \<Rightarrow> creation_point" where
  "init_maptbl p =
     (let m = cp_maptbl p in
      p\<lparr>cp_maptbl := m\<lparr>fm_segs_count := 0, fm_found_segs := 0, fm_extents_count := 0,
                         fm_array := init_logs_pair_array (fm_array m)\<rparr>\<rparr>)"

definition init_maptbl_cache :: "creation_point \<Rightarrow> creation_point" where
  "init_maptbl_cache p = p\<lparr>cp_maptbl_cache := (cp_maptbl_cache p)\<lparr>fc_data := None, fc_bytes_count := 0\<rparr>\<rparr>"

definition empty_map :: metadata_map where
  "empty_map = \<lparr>mm_array = None, mm_capacity = 0, mm_count = 0\<rparr>"

definition init_metadata_map :: "creation_point \<Rightarrow> creation_point" where
  "init_metadata_map p = p\<lparr>cp_metadata_map := map (\<lambda>m. empty_map) (cp_metadata_map p)\<rparr>"

definition init_creation_point :: "creation_point \<Rightarrow> creation_point" where
  "init_creation_point p =
     init_metadata_map (init_maptbl_cache (init_maptbl (init_segbmap (init_superblock_seg (init_base_snapshot_seg
       (p\<lparr>cp_found_metadata := 0, cp_timestamp := U64_MAX\<rparr>))))))"

text \<open>A point whose memory is zero.\<close>

definition zero_log :: fsck_found_log where
  "zero_log = \<lparr>fl_peb_id = 0, fl_start_page = 0, fl_header = replicate 2048 0, fl_footer = replicate 2048 0\<rparr>"

definition zero_pairs :: fsck_logs_pair_array where
  "zero_pairs = \<lparr>lp_pairs = None, lp_count = 0, lp_capacity = 0\<rparr>"

definition zero_point :: creation_point where
  "zero_point =
     \<lparr>cp_found_metadata = 0, cp_timestamp = 0, cp_base_snapshot_log = zero_log, cp_superblock_logs = [zero_log, zero_log],
      cp_segbmap = \<lparr>fs_array = zero_pairs, fs_sb_hdr = replicate 0x90 0, fs_segs_count = 0\<rparr>,
      cp_maptbl = \<lparr>fm_array = zero_pairs, fm_sb_hdr = replicate 0x90 0, fm_segs_count = 0, fm_found_segs = 0, fm_extents_count = 0\<rparr>,
      cp_maptbl_cache = \<lparr>fc_hdr = replicate 32 0, fc_data = None, fc_bytes_count = 0\<rparr>,
      cp_metadata_map = replicate 8 empty_map\<rparr>"

definition fsck_init_detection_result :: "fsck_environment \<Rightarrow> fsck_environment" where
  "fsck_init_detection_result env =
     env\<lparr>fe_array := \<lparr>ca_state = ARRAY_USE_BUFFER, ca_count = 1, ca_points = [init_creation_point zero_point]\<rparr>\<rparr>"

text \<open>\<^verbatim>\<open>ssdfs_fsck_destroy_detection_result\<close> frees what the points hold and the array.\<close>

definition fsck_destroy_detection_result :: "fsck_environment \<Rightarrow> fsck_environment" where
  "fsck_destroy_detection_result env =
     (case ca_state (fe_array env) of
        ARRAY_NOT_INITIALIZED \<Rightarrow> env
      | _ \<Rightarrow> env\<lparr>fe_array := \<lparr>ca_state = ARRAY_NOT_INITIALIZED, ca_count = 0, ca_points = []\<rparr>\<rparr>)"

text \<open>The index of the creation point, or \<^verbatim>\<open>NULL\<close>.\<close>

definition get_creation_point :: "fsck_environment \<Rightarrow> nat \<Rightarrow> creation_point option" where
  "get_creation_point env index =
     (let array = fe_array env in
      if ca_state array = ARRAY_NOT_INITIALIZED \<or> ca_count array \<le> int index then None
      else Some (ca_points array ! index))"

definition put_point :: "fsck_environment \<Rightarrow> nat \<Rightarrow> creation_point \<Rightarrow> fsck_environment" where
  "put_point env i p = env\<lparr>fe_array := (fe_array env)\<lparr>ca_points := (ca_points (fe_array env))[i := p]\<rparr>\<rparr>"

text \<open>The search functions start with the first creation point; without it they fail.\<close>

definition with_point ::
  "fsck_environment \<Rightarrow> (creation_point \<Rightarrow> (fsck_code \<times> fsck_environment) res option) \<Rightarrow>
   (fsck_code \<times> fsck_environment) res option" where
  "with_point env f = (case get_creation_point env 0 of None \<Rightarrow> Some (Inr (SEARCH_FAILURE, env)) | Some p \<Rightarrow> f p)"

text \<open>Sequencing: the next step runs after a success.\<close>

definition and_then ::
  "(fsck_code \<times> 's) res option \<Rightarrow> ('s \<Rightarrow> (fsck_code \<times> 's) res option) \<Rightarrow> (fsck_code \<times> 's) res option" where
  "and_then m f = obnd m (\<lambda>(c, s). if c = SEARCH_SUCCESS then f s else Some (Inr (c, s)))"

section \<open>Logs of a PEB\<close>

text \<open>The header at the start of a log of the wanted segment type; \<open>hdr\<close> is the memory it is read into.\<close>

definition find_metadata_segment ::
  "'s fsck_world \<Rightarrow> ssdfs_environment \<Rightarrow> u64 \<Rightarrow> int \<Rightarrow> u32 \<Rightarrow> buf \<Rightarrow> (fsck_code \<times> buf) res" where
  "find_metadata_segment w base peb_id seg_type log_offset hdr =
     bnd (read_into hdr (ssdfs_read_segment_header (fw_rd w) peb_id (erase_size base) log_offset 2048)) (\<lambda>r. case r of
       None \<Rightarrow> Inr (SEARCH_FAILURE, hdr)
     | Some hdr \<Rightarrow>
         if \<not> is_ssdfs_segment_header hdr then Inr (SEARCH_NOT_FOUND, hdr)
         else if int (unat (get16 hdr 0x412)) \<noteq> seg_type then Inr (SEARCH_NOT_FOUND, hdr)
         else Inr (SEARCH_SUCCESS, hdr))"

text \<open>The size of a page and the number of pages in a PEB.\<close>

definition peb_geometry :: "ssdfs_environment \<Rightarrow> buf \<Rightarrow> (u32 \<times> u32) res" where
  "peb_geometry base hdr =
     bnd (shift_1 (get8 hdr 0x10)) (\<lambda>page_size.
     bnd (BUG_ON (page_size = 0)) (\<lambda>_.
     let pages_per_peb = erase_size base div page_size in
     bnd (BUG_ON (pages_per_peb = 0)) (\<lambda>_. Inr (page_size, pages_per_peb))))"

definition full_pages :: "buf \<Rightarrow> u32 res" where
  "full_pages hdr =
     (let full_log_pages = get16 hdr 0x410 in
      bnd (BUG_ON (full_log_pages = 0 \<or> U16_MAX \<le> full_log_pages)) (\<lambda>_. Inr (ucast full_log_pages)))"

partial_function (option) last_full_log_loop ::
  "'s fsck_world \<Rightarrow> ssdfs_environment \<Rightarrow> u32 \<Rightarrow> u32 \<Rightarrow> u32 \<Rightarrow> u32 \<Rightarrow> fsck_found_log \<Rightarrow> (fsck_code \<times> fsck_found_log) res option" where
  "last_full_log_loop w base page_size pages_per_peb full_log_pages cur_page log =
     (case read_into (stack_struct w)
             (ssdfs_read_segment_header (fw_rd w) (fl_peb_id log) (erase_size base) (cur_page * page_size) 2048) of
        Inl e \<Rightarrow> Some (Inl e)
      | Inr r \<Rightarrow> (case r of
          None \<Rightarrow> Some (Inr (SEARCH_FAILURE, log))
        | Some cur_hdr \<Rightarrow>
            if \<not> is_ssdfs_segment_header cur_hdr then Some (Inr (SEARCH_SUCCESS, log))
            else
              if cur_page + full_log_pages < pages_per_peb
              then last_full_log_loop w base page_size pages_per_peb full_log_pages (cur_page + full_log_pages)
                     (log\<lparr>fl_header := cur_hdr, fl_start_page := cur_page\<rparr>)
              else Some (Inr (SEARCH_SUCCESS, log\<lparr>fl_header := cur_hdr, fl_start_page := cur_page\<rparr>))))"

definition find_last_full_log ::
  "'s fsck_world \<Rightarrow> ssdfs_environment \<Rightarrow> fsck_found_log \<Rightarrow> (fsck_code \<times> fsck_found_log) res option" where
  "find_last_full_log w base log =
     (if \<not> is_ssdfs_segment_header (fl_header log) then Some (Inr (SEARCH_FAILURE, log))
      else
        obnd (Some (peb_geometry base (fl_header log))) (\<lambda>(page_size, pages_per_peb).
        if pages_per_peb \<le> fl_start_page log then Some (Inr (SEARCH_FAILURE, log))
        else
          obnd (Some (full_pages (fl_header log))) (\<lambda>full_log_pages.
          let cur_page = fl_start_page log + full_log_pages in
          if pages_per_peb < cur_page then Some (Inr (SEARCH_FAILURE, log))
          else if cur_page = pages_per_peb then Some (Inr (SEARCH_SUCCESS, log))
          else last_full_log_loop w base page_size pages_per_peb full_log_pages cur_page log)))"

abbreviation (input) SSDFS_LOG_HAS_FOOTER :: u32 where "SSDFS_LOG_HAS_FOOTER \<equiv> 0x80"
abbreviation (input) SSDFS_PARTIAL_HEADER_INSTEAD_FOOTER :: u32 where "SSDFS_PARTIAL_HEADER_INSTEAD_FOOTER \<equiv> 0x400"
abbreviation (input) SSDFS_MAPTBL_CACHE_INDEX :: nat where "SSDFS_MAPTBL_CACHE_INDEX \<equiv> 7"
abbreviation (input) SSDFS_LOG_FOOTER_INDEX :: nat where "SSDFS_LOG_FOOTER_INDEX \<equiv> 8"

text \<open>
  The partial logs behind a full one. The footer of a partial log is read into the found log, and an error of this read
  is only printed.
\<close>

definition read_partial_footer :: "'s fsck_world \<Rightarrow> ssdfs_environment \<Rightarrow> buf \<Rightarrow> fsck_found_log \<Rightarrow> fsck_found_log res" where
  "read_partial_footer w base pl_hdr log =
     (if get32 pl_hdr 0x24 AND SSDFS_LOG_HAS_FOOTER = 0 then Inr log
      else
        let (area_offset, area_size) = area_desc pl_hdr 0x30 SSDFS_LOG_FOOTER_INDEX in
        bnd (read_into (fl_footer log)
               (ssdfs_read_log_footer (fw_rd w) (fl_peb_id log) (erase_size base) area_offset area_size)) (\<lambda>r. case r of
          None \<Rightarrow> Inr log
        | Some footer \<Rightarrow> Inr (log\<lparr>fl_footer := footer\<rparr>)))"

definition next_partial_page :: "u32 \<Rightarrow> u32 \<Rightarrow> u32 \<Rightarrow> u32" where
  "next_partial_page page_size cur_page log_bytes =
     (if log_bytes div page_size = 0 then cur_page + 1 else cur_page + log_bytes div page_size)"

partial_function (option) partial_log_loop ::
  "'s fsck_world \<Rightarrow> ssdfs_environment \<Rightarrow> u32 \<Rightarrow> u32 \<Rightarrow> u32 \<Rightarrow> fsck_found_log \<Rightarrow> (fsck_code \<times> fsck_found_log) res option" where
  "partial_log_loop w base page_size upper_page cur_page log =
     (case read_into (stack_struct w)
             (ssdfs_read_partial_log_header (fw_rd w) (fl_peb_id log) (erase_size base) (cur_page * page_size) 2048) of
        Inl e \<Rightarrow> Some (Inl e)
      | Inr r \<Rightarrow> (case r of
          None \<Rightarrow> Some (Inr (SEARCH_FAILURE, log))
        | Some pl_hdr \<Rightarrow>
            if \<not> is_ssdfs_partial_log_header pl_hdr then Some (Inr (SEARCH_SUCCESS, log))
            else (case read_partial_footer w base pl_hdr (log\<lparr>fl_header := pl_hdr, fl_start_page := cur_page\<rparr>) of
              Inl e \<Rightarrow> Some (Inl e)
            | Inr log \<Rightarrow>
                if next_partial_page page_size cur_page (get32 pl_hdr 0x28) < upper_page
                then partial_log_loop w base page_size upper_page (next_partial_page page_size cur_page (get32 pl_hdr 0x28)) log
                else Some (Inr (SEARCH_SUCCESS, log)))))"

text \<open>The footer of the full log, which is a partial log header or a log footer: its memory and the bytes of the log.\<close>

definition read_full_footer :: "'s fsck_world \<Rightarrow> ssdfs_environment \<Rightarrow> fsck_found_log \<Rightarrow> (buf \<times> u32) option res" where
  "read_full_footer w base log =
     (let hdr = fl_header log; (area_offset, area_size) = area_desc hdr 0x418 SSDFS_LOG_FOOTER_INDEX;
          seg_flags = get32 hdr 0x414 in
      if seg_flags AND SSDFS_PARTIAL_HEADER_INSTEAD_FOOTER \<noteq> 0 then
        bnd (read_into (stack_struct w)
               (ssdfs_read_partial_log_footer (fw_rd w) (fl_peb_id log) (erase_size base) area_offset area_size))
          (\<lambda>r. Inr (map_option (\<lambda>m. (m, get32 m 0x28)) r))
      else if seg_flags AND SSDFS_LOG_HAS_FOOTER \<noteq> 0 then
        bnd (read_into (stack_struct w)
               (ssdfs_read_log_footer (fw_rd w) (fl_peb_id log) (erase_size base) area_offset area_size))
          (\<lambda>r. Inr (map_option (\<lambda>m. (m, get32 m 0x410)) r))
      else Inr None)"

definition find_last_partial_log ::
  "'s fsck_world \<Rightarrow> ssdfs_environment \<Rightarrow> fsck_found_log \<Rightarrow> (fsck_code \<times> fsck_found_log) res option" where
  "find_last_partial_log w base log =
     (if \<not> is_ssdfs_segment_header (fl_header log) then Some (Inr (SEARCH_FAILURE, log))
      else
        obnd (Some (peb_geometry base (fl_header log))) (\<lambda>(page_size, pages_per_peb).
        obnd (Some (full_pages (fl_header log))) (\<lambda>full_log_pages.
        obnd (Some (read_full_footer w base log)) (\<lambda>r. case r of
          None \<Rightarrow> Some (Inr (SEARCH_FAILURE, log))
        | Some (footer, log_bytes) \<Rightarrow>
            if full_log_pages \<le> log_bytes div page_size then Some (Inr (SEARCH_SUCCESS, log\<lparr>fl_footer := footer\<rparr>))
            else
              partial_log_loop w base page_size (fl_start_page log + full_log_pages)
                (fl_start_page log + log_bytes div page_size) log))))"

section \<open>Snapshot and superblock segments\<close>

abbreviation (input) SSDFS_FSCK_BASE_SNAPSHOT_SEG_FOUND :: u64 where "SSDFS_FSCK_BASE_SNAPSHOT_SEG_FOUND \<equiv> 1"
abbreviation (input) SSDFS_FSCK_SB_SEGS_FOUND :: u64 where "SSDFS_FSCK_SB_SEGS_FOUND \<equiv> 2"
abbreviation (input) SSDFS_FSCK_MAPPING_TBL_FOUND :: u64 where "SSDFS_FSCK_MAPPING_TBL_FOUND \<equiv> 4"
abbreviation (input) SSDFS_FSCK_SEGMENT_BITMAP_FOUND :: u64 where "SSDFS_FSCK_SEGMENT_BITMAP_FOUND \<equiv> 8"
abbreviation (input) SSDFS_FSCK_MAPTBL_CACHE_FOUND :: u64 where "SSDFS_FSCK_MAPTBL_CACHE_FOUND \<equiv> 16"
abbreviation (input) SSDFS_FSCK_METADATA_PEB_MAP_PREPARED :: u64 where "SSDFS_FSCK_METADATA_PEB_MAP_PREPARED \<equiv> 32"
abbreviation (input) SSDFS_FSCK_ALL_CRITICAL_METADATA_FOUND_MASK :: u64 where "SSDFS_FSCK_ALL_CRITICAL_METADATA_FOUND_MASK \<equiv> 0x1F"

definition mark_found :: "u64 \<Rightarrow> fsck_environment \<Rightarrow> fsck_environment" where
  "mark_found flag env =
     (let p = ca_points (fe_array env) ! 0 in put_point env 0 (p\<lparr>cp_found_metadata := cp_found_metadata p OR flag\<rparr>))"

definition is_base_snapshot_segment_found ::
  "'s fsck_world \<Rightarrow> fsck_environment \<Rightarrow> (fsck_code \<times> fsck_environment) res option" where
  "is_base_snapshot_segment_found w env =
     obnd (Some (div_chk (0 :: u64) (ucast (erase_size (fe_base env))))) (\<lambda>peb_id.
     with_point env (\<lambda>p.
     let base = fe_base env; log = init_found_log (cp_base_snapshot_log p) in
     obnd (Some (find_metadata_segment w base peb_id 2 0 (fl_header log))) (\<lambda>(c, hdr).
     let log = log\<lparr>fl_header := hdr\<rparr> in
     if c \<noteq> SEARCH_SUCCESS then Some (Inr (c, put_point env 0 (p\<lparr>cp_base_snapshot_log := log\<rparr>)))
     else
       let p = p\<lparr>cp_timestamp := get64 hdr 0x18\<rparr> in
       obnd (find_last_full_log w base (log\<lparr>fl_peb_id := peb_id, fl_start_page := 0\<rparr>)) (\<lambda>(c, log).
       let env = put_point env 0 (p\<lparr>cp_base_snapshot_log := log\<rparr>) in
       if c = SEARCH_FAILURE then Some (Inr (SEARCH_FAILURE, env))
       else
         obnd (Some (shift_1 (get8 (fl_header log) 0x12))) (\<lambda>sz.
         Some (Inr (SEARCH_SUCCESS, mark_found SSDFS_FSCK_BASE_SNAPSHOT_SEG_FOUND (env\<lparr>fe_seg_size := sz\<rparr>))))))))"

text \<open>The first of the current, next and reserved superblock segments of a copy that has a superblock header.\<close>

fun try_sb_pebs :: "'s fsck_world \<Rightarrow> ssdfs_environment \<Rightarrow> buf \<Rightarrow> nat \<Rightarrow> nat list \<Rightarrow> buf \<Rightarrow> (fsck_code \<times> u64 \<times> buf) res" where
  "try_sb_pebs w base hdr copy [] cur_hdr = Inr (SEARCH_NOT_FOUND, U64_MAX, cur_hdr)"
| "try_sb_pebs w base hdr copy (i # is) cur_hdr =
     bnd (find_metadata_segment w base (sb_peb_id hdr i copy) 1 0 cur_hdr) (\<lambda>(c, cur_hdr).
     if c = SEARCH_NOT_FOUND then try_sb_pebs w base hdr copy is cur_hdr
     else Inr (c, sb_peb_id hdr i copy, cur_hdr))"

text \<open>The chain of the next superblock segments, at most one step for every PEB of the volume.\<close>

partial_function (option) sb_chain_loop ::
  "'s fsck_world \<Rightarrow> ssdfs_environment \<Rightarrow> nat \<Rightarrow> u64 \<Rightarrow> u64 \<Rightarrow> buf \<Rightarrow> fsck_found_log \<Rightarrow> (fsck_code \<times> fsck_found_log) res option" where
  "sb_chain_loop w base copy pebs_per_volume number_of_tries cur_hdr log =
     (case find_metadata_segment w base (sb_peb_id (fl_header log) 1 copy) 1 0 cur_hdr of
        Inl e \<Rightarrow> Some (Inl e)
      | Inr (c, cur_hdr) \<Rightarrow>
          if c \<noteq> SEARCH_SUCCESS
          then Some (Inr (if pebs_per_volume \<le> number_of_tries + 1 then SEARCH_FAILURE else SEARCH_SUCCESS, log))
          else if pebs_per_volume \<le> number_of_tries + 1
          then Some (Inr (SEARCH_FAILURE,
                 log\<lparr>fl_peb_id := sb_peb_id (fl_header log) 1 copy, fl_start_page := 0, fl_header := cur_hdr\<rparr>))
          else sb_chain_loop w base copy pebs_per_volume (number_of_tries + 1) cur_hdr
                 (log\<lparr>fl_peb_id := sb_peb_id (fl_header log) 1 copy, fl_start_page := 0, fl_header := cur_hdr\<rparr>))"

text \<open>\<^verbatim>\<open>__is_superblock_segment_found\<close>\<close>

definition is_superblock_copy_found ::
  "'s fsck_world \<Rightarrow> nat \<Rightarrow> fsck_environment \<Rightarrow> (fsck_code \<times> fsck_environment) res option" where
  "is_superblock_copy_found w copy env =
     obnd (Some (div_chk (fs_size (fe_base env)) (ucast (erase_size (fe_base env))))) (\<lambda>pebs_per_volume.
     with_point env (\<lambda>p.
     let base = fe_base env; hdr = fl_header (cp_base_snapshot_log p) in
     if cp_found_metadata p AND SSDFS_FSCK_BASE_SNAPSHOT_SEG_FOUND = 0 then Some (Inr (SEARCH_FAILURE, env))
     else if \<not> is_ssdfs_segment_header hdr then Some (Inr (SEARCH_FAILURE, env))
     else
       obnd (Some (try_sb_pebs w base hdr copy [0, 1, 2] (stack_struct w))) (\<lambda>(c, peb_id, cur_hdr).
       if c \<noteq> SEARCH_SUCCESS then Some (Inr (c, env))
       else
         obnd (Some (nth_chk (cp_superblock_logs p) copy)) (\<lambda>log.
         obnd (sb_chain_loop w base copy pebs_per_volume 0 cur_hdr
                 (log\<lparr>fl_header := cur_hdr, fl_peb_id := peb_id, fl_start_page := 0\<rparr>)) (\<lambda>(c, log).
         let put = (\<lambda>log. put_point env 0 (p\<lparr>cp_superblock_logs := (cp_superblock_logs p)[copy := log]\<rparr>)) in
         if c \<noteq> SEARCH_SUCCESS then Some (Inr (c, put log))
         else
           obnd (find_last_full_log w base log) (\<lambda>(c, log).
           Some (Inr (if c = SEARCH_FAILURE then SEARCH_FAILURE else SEARCH_SUCCESS, put log))))))))"

section \<open>The cache of the mapping table\<close>

definition is_ssdfs_fsck_area_valid :: "u32 \<times> u32 \<Rightarrow> bool" where
  "is_ssdfs_fsck_area_valid = (\<lambda>(area_offset, area_size).
     \<not> (area_size = 0 \<or> U32_MAX \<le> area_size) \<and> \<not> (area_offset = 0 \<or> U32_MAX \<le> area_offset))"

definition cache_codec :: "u16 \<Rightarrow> blob option" where
  "cache_codec flags =
     (if flags AND 1 \<noteq> 0 then Some Zlib_blob
      else if flags AND 2 \<noteq> 0 then Some Lzo_blob
      else if flags AND 4 \<noteq> 0 then Some Lz4_blob
      else if flags AND 8 \<noteq> 0 then Some Zstd_blob
      else None)"

text \<open>
  What is done with the area of the cache in memory: \<open>mem\<close> holds its \<open>area_size\<close> bytes, the header first. The
  compressed data start behind the header, but the size handed to the library is that of the area.
\<close>

definition unpack_cache ::
  "'s fsck_world \<Rightarrow> u32 \<Rightarrow> buf \<Rightarrow> fsck_maptbl_cache \<Rightarrow> (fsck_code \<times> fsck_maptbl_cache) res option" where
  "unpack_cache w area_size mem cache =
     obnd (Some (rd mem 0 32)) (\<lambda>hdr.
     let cache = cache\<lparr>fc_hdr := hdr\<rparr>; flags = get16 hdr 0x0A; uncompr_size = ucast (get16 hdr 0x0E) :: u32 in
     if uncompr_size < area_size then Some (Inr (SEARCH_NOT_FOUND, cache))
     else if \<not> fw_alloc w 2 (unat uncompr_size) then Some (Inr (SEARCH_FAILURE, cache))
     else
       let data = drop 32 mem; uncompr_data = fresh_mem w (unat uncompr_size) in
       case cache_codec flags of
         Some ty \<Rightarrow>
           (case blob_decompress (fw_libs w) ty data uncompr_data area_size uncompr_size of
              None \<Rightarrow> None
            | Some r \<Rightarrow>
                obnd (Some (attempt r)) (\<lambda>x. case x of
                  None \<Rightarrow> Some (Inr (SEARCH_FAILURE, cache))
                | Some m \<Rightarrow> Some (Inr (SEARCH_SUCCESS, cache\<lparr>fc_data := Some m, fc_bytes_count := uncompr_size\<rparr>))))
       | None \<Rightarrow>
           obnd (Some (rd data 0 (unat (area_size - 32)))) (\<lambda>d.
           obnd (Some (wr uncompr_data 0 d)) (\<lambda>m.
           Some (Inr (SEARCH_SUCCESS, cache\<lparr>fc_data := Some m, fc_bytes_count := area_size - 32\<rparr>)))))"

definition is_mapping_table_cache_found ::
  "'s fsck_world \<Rightarrow> fsck_environment \<Rightarrow> (fsck_code \<times> fsck_environment) res option" where
  "is_mapping_table_cache_found w env = with_point env (\<lambda>p.
     if cp_found_metadata p AND SSDFS_FSCK_SB_SEGS_FOUND = 0 then Some (Inr (SEARCH_FAILURE, env))
     else
       obnd (Some (nth_chk (cp_superblock_logs p) 0)) (\<lambda>log.
       let desc = area_desc (fl_header log) 0x418 SSDFS_MAPTBL_CACHE_INDEX; (area_offset, area_size) = desc in
       if \<not> is_ssdfs_fsck_area_valid desc then Some (Inr (SEARCH_NOT_FOUND, env))
       else
         obnd (Some (BUG_ON (fc_data (cp_maptbl_cache p) \<noteq> None))) (\<lambda>_.
         if \<not> fw_alloc w 1 (unat area_size) then Some (Inr (SEARCH_FAILURE, env))
         else
           obnd (Some (read_into (replicate (unat area_size) 0)
                         (ssdfs_read_mapping_table_cache (fw_rd w) (fl_peb_id log) (erase_size (fe_base env))
                            area_offset area_size))) (\<lambda>r. case r of
             None \<Rightarrow> Some (Inr (SEARCH_FAILURE, env))
           | Some mem \<Rightarrow>
               obnd (unpack_cache w area_size mem (cp_maptbl_cache p)) (\<lambda>(c, cache).
               Some (Inr (c, put_point env 0 (p\<lparr>cp_maptbl_cache := cache\<rparr>))))))))"

definition is_superblock_segments_found ::
  "'s fsck_world \<Rightarrow> fsck_environment \<Rightarrow> (fsck_code \<times> fsck_environment) res option" where
  "is_superblock_segments_found w env = with_point env (\<lambda>_.
     and_then (is_superblock_copy_found w 0 env) (\<lambda>env.
     and_then (is_superblock_copy_found w 1 env) (\<lambda>env.
     and_then (is_mapping_table_cache_found w (mark_found SSDFS_FSCK_SB_SEGS_FOUND env)) (\<lambda>env.
     Some (Inr (SEARCH_SUCCESS, mark_found SSDFS_FSCK_MAPTBL_CACHE_FOUND env))))))"

text \<open>
  The PEB of a LEB in the pairs of the cache. The code reads the 64-bit limits of the cache with \<^verbatim>\<open>le16_to_cpu\<close>, counts
  the bytes in \<^verbatim>\<open>u16\<close>, and returns the code of a failed search (\<open>3\<close>) when there is no cache. The loop runs over the
  items; \<open>i\<close> is the index of the item and twice the index of its first word.
\<close>

definition leb2peb_step ::
  "buf \<Rightarrow> u16 \<Rightarrow> u64 \<Rightarrow> nat \<Rightarrow> u16 \<Rightarrow> (u64 option \<times> u16) res" where
  "leb2peb_step data bytes_count leb_id i processed_bytes =
     bnd (rd64 data (16 * i)) (\<lambda>cur_leb_id.
     if bytes_count \<le> processed_bytes + 8 then Inr (Some U64_MAX, processed_bytes + 8)
     else
       bnd (rd64 data (16 * i + 8)) (\<lambda>cur_peb_id.
       if cur_leb_id = leb_id then Inr (Some cur_peb_id, processed_bytes + 8)
       else if bytes_count \<le> processed_bytes + 16 then Inr (Some U64_MAX, processed_bytes + 16)
       else Inr (None, processed_bytes + 16)))"

fun leb2peb_loop :: "buf \<Rightarrow> u16 \<Rightarrow> u64 \<Rightarrow> nat list \<Rightarrow> u16 \<Rightarrow> u64 res" where
  "leb2peb_loop data bytes_count leb_id [] processed_bytes = Inr U64_MAX"
| "leb2peb_loop data bytes_count leb_id (i # is) processed_bytes =
     bnd (leb2peb_step data bytes_count leb_id i processed_bytes) (\<lambda>(found, processed_bytes). case found of
       Some peb_id \<Rightarrow> Inr peb_id
     | None \<Rightarrow> leb2peb_loop data bytes_count leb_id is processed_bytes)"

definition maptbl_cache_convert_leb2peb :: "fsck_environment \<Rightarrow> u64 \<Rightarrow> u64 res" where
  "maptbl_cache_convert_leb2peb env leb_id =
     (case get_creation_point env 0 of
        None \<Rightarrow> Inr 3
      | Some p \<Rightarrow>
          if cp_found_metadata p AND SSDFS_FSCK_MAPTBL_CACHE_FOUND = 0 then Inr 3
          else
            let hdr = fc_hdr (cp_maptbl_cache p); items_count = get16 hdr 0x0C; bytes_count = get16 hdr 0x0E;
                start_leb = ucast (get16 hdr 0x10) :: u64; end_leb = ucast (get16 hdr 0x18) :: u64 in
            if leb_id < start_leb \<or> end_leb < leb_id then Inr U64_MAX
            else if bytes_count < 8 then Inr U64_MAX
            else if items_count = 0 then Inr U64_MAX
            else
              bnd (deref (fc_data (cp_maptbl_cache p))) (\<lambda>data.
              leb2peb_loop data bytes_count leb_id [0..<unat items_count] 0))"

section \<open>Segment bitmap\<close>

definition lebs_per_seg :: "fsck_environment \<Rightarrow> u32 res" where
  "lebs_per_seg env =
     bnd (div_chk (fe_seg_size env) (erase_size (fe_base env))) (\<lambda>n. bnd (BUG_ON (n = 0)) (\<lambda>_. Inr n))"

text \<open>\<^verbatim>\<open>calloc\<close> of pairs of logs.\<close>

definition calloc_pairs :: "'s fsck_world \<Rightarrow> nat \<Rightarrow> u32 \<Rightarrow> fsck_logs_pair_array option" where
  "calloc_pairs w site n =
     (if fw_alloc w site (unat n)
      then Some \<lparr>lp_pairs = Some (replicate (unat n) [zero_log, zero_log]), lp_count = 0, lp_capacity = n\<rparr> else None)"

definition allocate_segbmap_logs_array ::
  "'s fsck_world \<Rightarrow> fsck_environment \<Rightarrow> (fsck_code \<times> fsck_environment) res option" where
  "allocate_segbmap_logs_array w env = with_point env (\<lambda>p.
     if cp_found_metadata p AND SSDFS_FSCK_SB_SEGS_FOUND = 0 then Some (Inr (SEARCH_FAILURE, env))
     else
       obnd (Some (nth_chk (cp_superblock_logs p) 0)) (\<lambda>log.
       let segbmap_hdr = bytes_at (fl_header log) 0xB0 0x90; segs_count = get16 segbmap_hdr 0x0E in
       if segs_count = 0 \<or> 8 < segs_count then Some (Inr (SEARCH_NOT_FOUND, env))
       else
         obnd (Some (lebs_per_seg env)) (\<lambda>lebs.
         let lebs_count = ucast segs_count * lebs in
         obnd (Some (BUG_ON (lebs_count = 0))) (\<lambda>_.
         obnd (Some (BUG_ON (8 * lebs < lebs_count))) (\<lambda>_.
         let segbmap = (cp_segbmap p)\<lparr>fs_segs_count := ucast segs_count, fs_sb_hdr := segbmap_hdr\<rparr> in
         case calloc_pairs w 3 lebs_count of
           None \<Rightarrow> Some (Inr (SEARCH_NOT_FOUND, put_point env 0 (p\<lparr>cp_segbmap := segbmap\<rparr>)))
         | Some array \<Rightarrow> Some (Inr (SEARCH_SUCCESS, put_point env 0 (p\<lparr>cp_segbmap := segbmap\<lparr>fs_array := array\<rparr>\<rparr>))))))))"

text \<open>
  The last logs of a PEB of a metadata segment of a type: \<^verbatim>\<open>ssdfs_fsck_find_segbmap_peb\<close> (type 3) and
  \<^verbatim>\<open>__ssdfs_fsck_find_maptbl_peb\<close> (type 4).
\<close>

definition find_metadata_peb ::
  "'s fsck_world \<Rightarrow> ssdfs_environment \<Rightarrow> int \<Rightarrow> u64 \<Rightarrow> fsck_found_log \<Rightarrow> (fsck_code \<times> fsck_found_log) res option" where
  "find_metadata_peb w base seg_type peb_id log =
     (let log = init_found_log log in
      obnd (Some (find_metadata_segment w base peb_id seg_type 0 (fl_header log))) (\<lambda>(c, hdr).
      let log = log\<lparr>fl_header := hdr\<rparr> in
      if c \<noteq> SEARCH_SUCCESS then Some (Inr (c, log))
      else
        obnd (find_last_full_log w base (log\<lparr>fl_peb_id := peb_id, fl_start_page := 0\<rparr>)) (\<lambda>(c, log).
        if c = SEARCH_FAILURE then Some (Inr (SEARCH_FAILURE, log))
        else
          obnd (find_last_partial_log w base log) (\<lambda>(c, log).
          Some (Inr (if c = SEARCH_FAILURE then SEARCH_FAILURE else SEARCH_SUCCESS, log))))))"

text \<open>\<^verbatim>\<open>&array.pairs[array.count].logs[copy_index]\<close>\<close>

definition pair_log :: "fsck_logs_pair_array \<Rightarrow> nat \<Rightarrow> fsck_found_log res" where
  "pair_log a copy = bnd (deref (lp_pairs a)) (\<lambda>ps. bnd (nth_chk ps (unat (lp_count a))) (\<lambda>pair. nth_chk pair copy))"

definition put_pair_log :: "nat \<Rightarrow> fsck_found_log \<Rightarrow> fsck_logs_pair_array \<Rightarrow> fsck_logs_pair_array" where
  "put_pair_log copy log a =
     a\<lparr>lp_pairs := map_option (\<lambda>ps. ps[unat (lp_count a) := (ps ! unat (lp_count a))[copy := log]]) (lp_pairs a)\<rparr>"

definition put_segbmap_array ::
  "(fsck_logs_pair_array \<Rightarrow> fsck_logs_pair_array) \<Rightarrow> fsck_environment \<Rightarrow> fsck_environment" where
  "put_segbmap_array f env =
     (let p = ca_points (fe_array env) ! 0; s = cp_segbmap p in
      put_point env 0 (p\<lparr>cp_segbmap := s\<lparr>fs_array := f (fs_array s)\<rparr>\<rparr>))"

definition segbmap_leb ::
  "'s fsck_world \<Rightarrow> nat \<Rightarrow> u64 \<Rightarrow> fsck_environment \<Rightarrow> (fsck_code \<times> fsck_environment) res option" where
  "segbmap_leb w copy leb_id env =
     obnd (Some (maptbl_cache_convert_leb2peb env leb_id)) (\<lambda>peb_id.
     if U64_MAX \<le> peb_id then Some (Inr (SEARCH_NOT_FOUND, env))
     else
       obnd (Some (pair_log (fs_array (cp_segbmap (ca_points (fe_array env) ! 0))) copy)) (\<lambda>log.
       obnd (find_metadata_peb w (fe_base env) 3 peb_id log) (\<lambda>(c, log).
       Some (Inr (c, put_segbmap_array (put_pair_log copy log) env)))))"

text \<open>The LEBs of a segment, until all fragments of a segment are processed.\<close>

fun segbmap_leb_loop ::
  "'s fsck_world \<Rightarrow> nat \<Rightarrow> u64 \<Rightarrow> u16 \<Rightarrow> u16 \<Rightarrow> nat list \<Rightarrow> u16 \<Rightarrow> fsck_environment \<Rightarrow> (fsck_code \<times> fsck_environment) res option" where
  "segbmap_leb_loop w copy start_leb per_seg per_peb [] processed env = Some (Inr (SEARCH_SUCCESS, env))"
| "segbmap_leb_loop w copy start_leb per_seg per_peb (i # is) processed env =
     (if per_seg \<le> processed then Some (Inr (SEARCH_SUCCESS, env))
      else
        and_then (segbmap_leb w copy (start_leb + of_nat i) env)
          (segbmap_leb_loop w copy start_leb per_seg per_peb is (processed + per_peb)))"

text \<open>\<^verbatim>\<open>__ssdfs_fsck_find_segbmap_segment\<close>\<close>

definition find_segbmap_segment_copy ::
  "'s fsck_world \<Rightarrow> nat \<Rightarrow> nat \<Rightarrow> fsck_environment \<Rightarrow> (fsck_code \<times> fsck_environment) res option" where
  "find_segbmap_segment_copy w seg_index copy env = with_point env (\<lambda>p.
     let segbmap = cp_segbmap p; h = fs_sb_hdr segbmap in
     if fs_segs_count segbmap = 0 \<or> 8 < fs_segs_count segbmap then Some (Inr (SEARCH_FAILURE, env))
     else if unat (fs_segs_count segbmap) \<le> seg_index then Some (Inr (SEARCH_FAILURE, env))
     else if 2 \<le> copy then Some (Inr (SEARCH_FAILURE, env))
     else if copy = 1 \<and> get16 h 0x0C AND 1 = 0 then Some (Inr (SEARCH_SUCCESS, env))
     else
       let seg_id = get64 h (0x10 + 8 * (2 * seg_index + copy)); per_seg = get16 h 2; per_peb = get16 h 4 in
       if U64_MAX \<le> seg_id then Some (Inr (SEARCH_NOT_FOUND, env))
       else if per_seg = 0 \<or> U16_MAX \<le> per_seg then Some (Inr (SEARCH_NOT_FOUND, env))
       else if per_peb = 0 \<or> U16_MAX \<le> per_peb then Some (Inr (SEARCH_NOT_FOUND, env))
       else
         obnd (Some (lebs_per_seg env)) (\<lambda>lebs.
         if per_seg mod per_peb \<noteq> 0 \<or> lebs < ucast (per_seg div per_peb) then Some (Inr (SEARCH_NOT_FOUND, env))
         else segbmap_leb_loop w copy (seg_id * ucast lebs) per_seg per_peb [0..<unat lebs] 0 env))"

definition find_segbmap_segment ::
  "'s fsck_world \<Rightarrow> nat \<Rightarrow> fsck_environment \<Rightarrow> (fsck_code \<times> fsck_environment) res option" where
  "find_segbmap_segment w seg_index env = with_point env (\<lambda>_.
     and_then (find_segbmap_segment_copy w seg_index 0 env) (\<lambda>env.
     and_then (find_segbmap_segment_copy w seg_index 1 env) (\<lambda>env.
     Some (Inr (SEARCH_SUCCESS, put_segbmap_array (\<lambda>a. a\<lparr>lp_count := lp_count a + 1\<rparr>) env)))))"

text \<open>A loop of searches that ends with the first one that does not succeed.\<close>

fun search_all ::
  "(nat \<Rightarrow> 'e \<Rightarrow> (fsck_code \<times> 'e) res option) \<Rightarrow> nat list \<Rightarrow> 'e \<Rightarrow> (fsck_code \<times> 'e) res option" where
  "search_all f [] env = Some (Inr (SEARCH_SUCCESS, env))"
| "search_all f (i # is) env = and_then (f i env) (search_all f is)"

definition is_segment_bitmap_found ::
  "'s fsck_world \<Rightarrow> fsck_environment \<Rightarrow> (fsck_code \<times> fsck_environment) res option" where
  "is_segment_bitmap_found w env = with_point env (\<lambda>_.
     and_then (allocate_segbmap_logs_array w env) (\<lambda>env.
     let segs_count = fs_segs_count (cp_segbmap (ca_points (fe_array env) ! 0)) in
     if segs_count = 0 \<or> U32_MAX \<le> segs_count then Some (Inr (SEARCH_FAILURE, env))
     else
       and_then (search_all (find_segbmap_segment w) [0..<unat segs_count] env) (\<lambda>env.
       Some (Inr (SEARCH_SUCCESS, mark_found SSDFS_FSCK_SEGMENT_BITMAP_FOUND env)))))"

section \<open>Mapping table\<close>

abbreviation (input) SSDFS_EMPTY_EXTENT_TYPE :: u16 where "SSDFS_EMPTY_EXTENT_TYPE \<equiv> 0"
abbreviation (input) SSDFS_SEG_EXTENT_TYPE :: u16 where "SSDFS_SEG_EXTENT_TYPE \<equiv> 1"
abbreviation (input) SSDFS_PEB_EXTENT_TYPE :: u16 where "SSDFS_PEB_EXTENT_TYPE \<equiv> 2"
abbreviation (input) SSDFS_BLK_EXTENT_TYPE :: u16 where "SSDFS_BLK_EXTENT_TYPE \<equiv> 3"

text \<open>\<^verbatim>\<open>maptbl_hdr->extents[i][j]\<close>: start, length and type.\<close>

definition meta_extent :: "buf \<Rightarrow> nat \<Rightarrow> nat \<Rightarrow> u64 \<times> u32 \<times> u16" where
  "meta_extent h i j = (let k = 0x30 + 16 * (2 * i + j) in (get64 h k, get32 h (k + 8), get16 h (k + 12)))"

text \<open>The count of the segments and extents; \<open>None\<close> for an extent that ends the search.\<close>

definition count_extent :: "buf \<Rightarrow> u32 \<Rightarrow> nat \<Rightarrow> nat \<Rightarrow> u16 \<times> u32 \<Rightarrow> (u16 \<times> u32) option res" where
  "count_extent h lebs i j = (\<lambda>(segs_count, extents_count).
     let (start_id, len, ty) = meta_extent h i j in
     if ty = SSDFS_EMPTY_EXTENT_TYPE then Inr (Some (segs_count, extents_count))
     else if ty = SSDFS_SEG_EXTENT_TYPE then Inr (Some (ucast (ucast segs_count + len), extents_count + 1))
     else if ty = SSDFS_PEB_EXTENT_TYPE then
       bnd (BUG_ON (len mod lebs \<noteq> 0)) (\<lambda>_.
       Inr (Some (ucast (ucast segs_count + len div lebs), extents_count + 1)))
     else if ty = SSDFS_BLK_EXTENT_TYPE then Inr None
     else if 0 < extents_count then Inr (Some (segs_count, extents_count))
     else Inr None)"

fun count_extents :: "buf \<Rightarrow> u32 \<Rightarrow> (nat \<times> nat) list \<Rightarrow> u16 \<times> u32 \<Rightarrow> (u16 \<times> u32) option res" where
  "count_extents h lebs [] st = Inr (Some st)"
| "count_extents h lebs ((i, j) # ijs) st =
     bnd (count_extent h lebs i j st) (\<lambda>r. case r of None \<Rightarrow> Inr None | Some st \<Rightarrow> count_extents h lebs ijs st)"

definition allocate_maptbl_logs_array ::
  "'s fsck_world \<Rightarrow> fsck_environment \<Rightarrow> (fsck_code \<times> fsck_environment) res option" where
  "allocate_maptbl_logs_array w env = with_point env (\<lambda>p.
     if cp_found_metadata p AND SSDFS_FSCK_SB_SEGS_FOUND = 0 then Some (Inr (SEARCH_FAILURE, env))
     else
       obnd (Some (nth_chk (cp_superblock_logs p) 0)) (\<lambda>log.
       let maptbl_hdr = bytes_at (fl_header log) 0x140 0x90 in
       obnd (Some (lebs_per_seg env)) (\<lambda>lebs.
       obnd (Some (count_extents maptbl_hdr lebs [(0, 0), (0, 1), (1, 0), (1, 1), (2, 0), (2, 1)] (0, 0))) (\<lambda>r. case r of
         None \<Rightarrow> Some (Inr (SEARCH_NOT_FOUND, env))
       | Some (segs_count, extents_count) \<Rightarrow>
           obnd (Some (div_chk (fs_size (fe_base env)) (ucast (fe_seg_size env)))) (\<lambda>volume_segs.
           let threshold = volume_segs * 25 div 100 in
           if segs_count = 0 \<or> threshold < ucast segs_count then Some (Inr (SEARCH_NOT_FOUND, env))
           else if extents_count = 0 \<or> 3 < extents_count then Some (Inr (SEARCH_NOT_FOUND, env))
           else
             let lebs_count = ucast segs_count * lebs in
             obnd (Some (BUG_ON (lebs_count = 0))) (\<lambda>_.
             obnd (Some (BUG_ON (threshold * ucast lebs < ucast lebs_count))) (\<lambda>_.
             let maptbl = (cp_maptbl p)\<lparr>fm_segs_count := ucast segs_count, fm_found_segs := 0,
                              fm_extents_count := extents_count, fm_sb_hdr := maptbl_hdr\<rparr> in
             case calloc_pairs w 4 lebs_count of
               None \<Rightarrow> Some (Inr (SEARCH_NOT_FOUND, put_point env 0 (p\<lparr>cp_maptbl := maptbl\<rparr>)))
             | Some array \<Rightarrow>
                 Some (Inr (SEARCH_SUCCESS, put_point env 0 (p\<lparr>cp_maptbl := maptbl\<lparr>fm_array := array\<rparr>\<rparr>))))))))))"

definition put_maptbl :: "(fsck_maptbl_detection \<Rightarrow> fsck_maptbl_detection) \<Rightarrow> fsck_environment \<Rightarrow> fsck_environment" where
  "put_maptbl f env =
     (let p = ca_points (fe_array env) ! 0 in put_point env 0 (p\<lparr>cp_maptbl := f (cp_maptbl p)\<rparr>))"

definition put_maptbl_array ::
  "(fsck_logs_pair_array \<Rightarrow> fsck_logs_pair_array) \<Rightarrow> fsck_environment \<Rightarrow> fsck_environment" where
  "put_maptbl_array f = put_maptbl (\<lambda>m. m\<lparr>fm_array := f (fm_array m)\<rparr>)"

text \<open>A LEB of the mapping table; both kinds of extents come here.\<close>

definition maptbl_leb ::
  "'s fsck_world \<Rightarrow> nat \<Rightarrow> u64 \<Rightarrow> fsck_environment \<Rightarrow> (fsck_code \<times> fsck_environment) res option" where
  "maptbl_leb w copy leb_id env =
     obnd (Some (maptbl_cache_convert_leb2peb env leb_id)) (\<lambda>peb_id.
     if U64_MAX \<le> peb_id then Some (Inr (SEARCH_NOT_FOUND, env))
     else
       obnd (Some (pair_log (fm_array (cp_maptbl (ca_points (fe_array env) ! 0))) copy)) (\<lambda>log.
       obnd (find_metadata_peb w (fe_base env) 4 peb_id log) (\<lambda>(c, log).
       Some (Inr (c, put_maptbl_array (put_pair_log copy log) env)))))"

definition find_maptbl_peb ::
  "'s fsck_world \<Rightarrow> nat \<Rightarrow> u64 \<Rightarrow> fsck_environment \<Rightarrow> (fsck_code \<times> fsck_environment) res option" where
  "find_maptbl_peb w copy leb_id env =
     (if U64_MAX \<le> leb_id then Some (Inr (SEARCH_NOT_FOUND, env))
      else if 2 \<le> copy then Some (Inr (SEARCH_FAILURE, env))
      else with_point env (\<lambda>_. maptbl_leb w copy leb_id env))"

definition find_maptbl_segment ::
  "'s fsck_world \<Rightarrow> nat \<Rightarrow> u64 \<Rightarrow> fsck_environment \<Rightarrow> (fsck_code \<times> fsck_environment) res option" where
  "find_maptbl_segment w copy seg_id env =
     (if U64_MAX \<le> seg_id then Some (Inr (SEARCH_NOT_FOUND, env))
      else if 2 \<le> copy then Some (Inr (SEARCH_FAILURE, env))
      else with_point env (\<lambda>_.
        obnd (Some (lebs_per_seg env)) (\<lambda>lebs.
        search_all (\<lambda>i. maptbl_leb w copy (seg_id * ucast lebs + of_nat i)) [0..<unat lebs] env)))"

text \<open>
  The extent of a copy, for the types of segments and of PEBs, and the two copies of an extent: a missing backup copy is
  an error only when the header announces it.
\<close>

definition find_extent_copy ::
  "'s fsck_world \<Rightarrow> u32 \<Rightarrow> nat \<Rightarrow> u64 \<times> u32 \<times> u16 \<Rightarrow> fsck_environment \<Rightarrow> (fsck_code \<times> fsck_environment) res option" where
  "find_extent_copy w lebs copy = (\<lambda>(start_id, len, ty) env.
     if ty = SSDFS_SEG_EXTENT_TYPE then
       and_then (search_all (\<lambda>i. find_maptbl_segment w copy (start_id + of_nat i)) [0..<unat len] env) (\<lambda>env.
       Some (Inr (SEARCH_SUCCESS, put_maptbl (\<lambda>m. m\<lparr>fm_found_segs := fm_found_segs m + len\<rparr>) env)))
     else
       and_then (search_all (\<lambda>i. find_maptbl_peb w copy (start_id + of_nat i)) [0..<unat len] env) (\<lambda>env.
       obnd (Some (BUG_ON (len mod lebs \<noteq> 0))) (\<lambda>_.
       Some (Inr (SEARCH_SUCCESS, put_maptbl (\<lambda>m. m\<lparr>fm_found_segs := fm_found_segs m + len div lebs\<rparr>) env)))))"

definition find_maptbl_extent ::
  "'s fsck_world \<Rightarrow> nat \<Rightarrow> fsck_environment \<Rightarrow> (fsck_code \<times> fsck_environment) res option" where
  "find_maptbl_extent w extent_index env = with_point env (\<lambda>p.
     let h = fm_sb_hdr (cp_maptbl p); has_copy = (get16 h 0x24 AND 1 \<noteq> 0);
         extent_ty = (\<lambda>e. snd (snd e)); is_extent = (\<lambda>e. extent_ty e \<in> {SSDFS_SEG_EXTENT_TYPE, SSDFS_PEB_EXTENT_TYPE}) in
     obnd (Some (lebs_per_seg env)) (\<lambda>lebs.
     if 3 \<le> extent_index then Some (Inr (SEARCH_FAILURE, env))
     else
       let main = meta_extent h extent_index 0; copy = meta_extent h extent_index 1 in
       if \<not> is_extent main then Some (Inr (SEARCH_NOT_FOUND, env))
       else
         and_then (find_extent_copy w lebs 0 main env) (\<lambda>env.
         if is_extent copy then find_extent_copy w lebs 1 copy env
         else if extent_ty copy = SSDFS_BLK_EXTENT_TYPE \<or> has_copy then Some (Inr (SEARCH_NOT_FOUND, env))
         else Some (Inr (SEARCH_SUCCESS, env)))))"

definition is_mapping_table_found ::
  "'s fsck_world \<Rightarrow> fsck_environment \<Rightarrow> (fsck_code \<times> fsck_environment) res option" where
  "is_mapping_table_found w env = with_point env (\<lambda>_.
     and_then (allocate_maptbl_logs_array w env) (\<lambda>env.
     let extents_count = fm_extents_count (cp_maptbl (ca_points (fe_array env) ! 0)) in
     if extents_count = 0 \<or> 3 < extents_count then Some (Inr (SEARCH_FAILURE, env))
     else
       and_then (search_all (find_maptbl_extent w) [0..<unat extents_count] env) (\<lambda>env.
       Some (Inr (SEARCH_SUCCESS, mark_found SSDFS_FSCK_MAPPING_TBL_FOUND env)))))"

definition detect_actions :: "'s fsck_world \<Rightarrow> nat \<Rightarrow> fsck_environment \<Rightarrow> (fsck_code \<times> fsck_environment) res option" where
  "detect_actions w i =
     (if i = 0 then is_base_snapshot_segment_found w
      else if i = 1 then is_superblock_segments_found w
      else if i = 2 then is_segment_bitmap_found w
      else is_mapping_table_found w)"

section \<open>Metadata maps\<close>

definition is_ssdfs_metadata_map_exhausted :: "metadata_map \<Rightarrow> bool" where
  "is_ssdfs_metadata_map_exhausted m \<longleftrightarrow> mm_capacity m = 0 \<or> mm_capacity m \<le> mm_count m"

text \<open>
  A map grows from 8 items by doubling. A failed \<^verbatim>\<open>realloc\<close> loses the items, because its result replaces the pointer;
  the capacity is an \<^verbatim>\<open>int\<close>, whose overflow is a fault. The flag of the result is a failed allocation.
\<close>

definition resize_metadata_map :: "'s fsck_world \<Rightarrow> metadata_map \<Rightarrow> (bool \<times> metadata_map) res" where
  "resize_metadata_map w m =
     (if \<not> is_ssdfs_metadata_map_exhausted m then Inr (True, m)
      else if mm_capacity m = 0 then
        if \<not> fw_alloc w 5 8 then Inr (False, m\<lparr>mm_array := None\<rparr>)
        else
          Inr (True, m\<lparr>mm_array := Some (replicate 8 \<lparr>pi_seg_id = 0, pi_leb_id = 0, pi_peb_id = 0, pi_type = 0,
                  pi_peb_timestamp = 0, pi_volume_timestamp = 0\<rparr>), mm_capacity := 8\<rparr>)
      else
        let capacity = mm_capacity m * 2 in
        if 2 ^ 31 \<le> capacity then Inl Oob
        else if \<not> fw_alloc w 6 (nat capacity) then Inr (False, m\<lparr>mm_array := None\<rparr>)
        else
          let items = (case mm_array m of None \<Rightarrow> [] | Some xs \<Rightarrow> xs) in
          Inr (True, m\<lparr>mm_array := Some (items @ replicate (nat capacity - length items) (fw_fresh_item w)),
                  mm_capacity := capacity\<rparr>))"

text \<open>Room for one more item and the item; \<open>False\<close> when there is no memory.\<close>

definition map_append :: "'s fsck_world \<Rightarrow> metadata_peb_item \<Rightarrow> metadata_map \<Rightarrow> (bool \<times> metadata_map) res" where
  "map_append w item m =
     bnd (resize_metadata_map w m) (\<lambda>(ok, m).
     if \<not> ok then Inr (False, m)
     else
       bnd (deref (mm_array m)) (\<lambda>xs.
       bnd (upd_chk xs (nat (mm_count m)) item) (\<lambda>xs.
       Inr (True, m\<lparr>mm_array := Some xs, mm_count := mm_count m + 1\<rparr>))))"

text \<open>The PEB type of a segment type, and back.\<close>

definition metadata_peb_type :: "u16 \<Rightarrow> int option" where
  "metadata_peb_type seg_type =
     (if seg_type = 2 then Some 5 else if seg_type = 1 then Some 6 else if seg_type = 3 then Some 7
      else if seg_type = 4 then Some 8 else if seg_type = 5 then Some 2 else if seg_type = 6 then Some 3
      else if seg_type = 7 then Some 4 else None)"

definition metadata_map_index :: "int \<Rightarrow> nat option" where
  "metadata_map_index peb_type =
     (if peb_type = 5 then Some 2 else if peb_type = 6 then Some 1 else if peb_type = 7 then Some 3
      else if peb_type = 8 then Some 4 else if peb_type = 2 then Some 5 else if peb_type = 3 then Some 6
      else if peb_type = 4 then Some 7 else None)"

definition peb_item :: "u64 \<Rightarrow> buf \<Rightarrow> int \<Rightarrow> metadata_peb_item" where
  "peb_item peb_id hdr ty =
     \<lparr>pi_seg_id = get64 hdr 0x4B8, pi_leb_id = get64 hdr 0x4C0, pi_peb_id = peb_id, pi_type = ty,
      pi_peb_timestamp = get64 hdr 0x4B0, pi_volume_timestamp = get64 hdr 0x18\<rparr>"

text \<open>
  A PEB of the range of a thread; an error is printed and the next PEB is processed. The state of the thread is its map.
\<close>

definition fsck_process_peb :: "'s fsck_world \<Rightarrow> u32 \<Rightarrow> u64 \<Rightarrow> metadata_map \<Rightarrow> metadata_map res" where
  "fsck_process_peb w peb_size peb_id m =
     bnd (read_into (stack_struct w) (ssdfs_read_segment_header (fw_rd w) peb_id peb_size 0 2048)) (\<lambda>r. case r of
       None \<Rightarrow> Inr m
     | Some hdr \<Rightarrow>
         if \<not> is_ssdfs_segment_header hdr then Inr m
         else
           (case metadata_peb_type (get16 hdr 0x412) of
              None \<Rightarrow> Inr m
            | Some ty \<Rightarrow> bnd (map_append w (peb_item peb_id hdr ty) m) (\<lambda>(ok, m). Inr m)))"

text \<open>
  The range of a thread: the start, and the number of PEBs as \<^verbatim>\<open>ssdfs_init_peb_environment\<close> of \<^verbatim>\<open>fsck.h\<close> computes it. The
  threads share nothing but the device, which they only read, so their maps do not depend on the schedule.
\<close>

definition fsck_peb_environment :: "nat \<Rightarrow> u64 \<Rightarrow> u64 \<Rightarrow> u64 \<times> u64" where
  "fsck_peb_environment thread_id pebs_per_thread pebs_count =
     (let pid = of_nat thread_id * pebs_per_thread in (pid, min (pebs_count - pid) pebs_per_thread))"

definition fsck_thread_pebs :: "u64 \<times> u64 \<Rightarrow> u64 list" where
  "fsck_thread_pebs = (\<lambda>(start_peb_id, pebs_count). map (\<lambda>i. start_peb_id + of_nat i) [0..<unat pebs_count])"

definition fsck_process_peb_range :: "'s fsck_world \<Rightarrow> u32 \<Rightarrow> u64 \<times> u64 \<Rightarrow> metadata_map res" where
  "fsck_process_peb_range w peb_size r = fold_res (fsck_process_peb w peb_size) (fsck_thread_pebs r) empty_map"

section \<open>Creation points\<close>

fun index_where :: "('a \<Rightarrow> bool) \<Rightarrow> 'a list \<Rightarrow> nat option" where
  "index_where P [] = None"
| "index_where P (x # xs) = (if P x then Some 0 else map_option Suc (index_where P xs))"

definition find_creation_point :: "creation_array \<Rightarrow> u64 \<Rightarrow> nat option" where
  "find_creation_point array create_time =
     (if ca_state array = ARRAY_NOT_INITIALIZED then None
      else index_where (\<lambda>p. cp_timestamp p = create_time) (take (nat (ca_count array)) (ca_points array)))"

definition new_point :: "u64 \<Rightarrow> creation_point \<Rightarrow> creation_point" where
  "new_point create_time p = (init_creation_point p)\<lparr>cp_timestamp := create_time\<rparr>"

text \<open>
  The insertion in front of the first younger point. \<open>points\<close> is the memory of one more point than there are; the points
  behind the place are moved by one.
\<close>

definition insert_point :: "u64 \<Rightarrow> nat \<Rightarrow> creation_point list \<Rightarrow> creation_point list" where
  "insert_point create_time count points =
     (let i = (case index_where (\<lambda>p. create_time < cp_timestamp p) (take count points) of None \<Rightarrow> count | Some i \<Rightarrow> i);
          points = (if i < count then take (i + 1) points @ take (count - i) (drop i points) else points) in
      points[i := new_point create_time (points ! i)])"

text \<open>
  \<open>False\<close> is an error. The changes made before it stay; a failed allocation leaves no points (\<^verbatim>\<open>NULL\<close>), with the old count.
\<close>

definition add_creation_point :: "'s fsck_world \<Rightarrow> creation_array \<Rightarrow> u64 \<Rightarrow> (bool \<times> creation_array) res" where
  "add_creation_point w array create_time =
     (let count = nat (ca_count array); points = ca_points array in
      if ca_count array \<le> 0 then Inr (False, array)
      else
        case ca_state array of
          ARRAY_USE_BUFFER \<Rightarrow>
            bnd (nth_chk points (count - 1)) (\<lambda>p.
            if U64_MAX \<le> cp_timestamp p then
              Inr (True, array\<lparr>ca_points := points[count - 1 := new_point create_time p]\<rparr>)
            else if \<not> fw_alloc w 7 (count + 1) then Inr (False, array\<lparr>ca_points := []\<rparr>)
            else
              bnd (upd_chk (replicate (count + 1) zero_point) (count - 1) (hd points)) (\<lambda>new.
              Inr (True, array\<lparr>ca_points := insert_point create_time count (new[count := init_creation_point (new ! count)]),
                             ca_state := ARRAY_ALLOCATED, ca_count := ca_count array + 1\<rparr>)))
        | ARRAY_ALLOCATED \<Rightarrow>
            if \<not> fw_alloc w 8 (count + 1) then Inr (False, array\<lparr>ca_points := []\<rparr>)
            else
              Inr (True, array\<lparr>ca_points := insert_point create_time count (take count points @ [init_creation_point (fw_fresh_point w)]),
                             ca_count := ca_count array + 1\<rparr>)
        | ARRAY_NOT_INITIALIZED \<Rightarrow> Inr (False, array))"

text \<open>An item of the map of a thread goes into the map of its type at its creation point.\<close>

definition process_metadata_map_item ::
  "'s fsck_world \<Rightarrow> metadata_peb_item \<Rightarrow> creation_array \<Rightarrow> (bool \<times> creation_array) res" where
  "process_metadata_map_item w item array =
     (let create_time = pi_volume_timestamp item in
      bnd (if find_creation_point array create_time = None then add_creation_point w array create_time else Inr (True, array)) (\<lambda>(ok, array).
      if \<not> ok then Inr (False, array)
      else
        case find_creation_point array create_time of
          None \<Rightarrow> Inr (False, array)
        | Some k \<Rightarrow>
            (case metadata_map_index (pi_type item) of
               None \<Rightarrow> Inr (False, array)
             | Some index \<Rightarrow>
                 let p = ca_points array ! k in
                 bnd (nth_chk (cp_metadata_map p) index) (\<lambda>m.
                 bnd (map_append w item m) (\<lambda>(ok, m).
                 Inr (ok, array\<lparr>ca_points := (ca_points array)[k := p\<lparr>
                   cp_metadata_map := (cp_metadata_map p)[index := m],
                   cp_found_metadata :=
                     (if ok then cp_found_metadata p OR SSDFS_FSCK_METADATA_PEB_MAP_PREPARED else cp_found_metadata p)\<rparr>]\<rparr>))))))"

fun process_items :: "'s fsck_world \<Rightarrow> metadata_peb_item list \<Rightarrow> creation_array \<Rightarrow> (bool \<times> creation_array) res" where
  "process_items w [] array = Inr (True, array)"
| "process_items w (item # items) array =
     bnd (process_metadata_map_item w item array) (\<lambda>(ok, array).
     if ok then process_items w items array else Inr (False, array))"

definition process_thread_metadata_map :: "'s fsck_world \<Rightarrow> metadata_map \<Rightarrow> creation_array \<Rightarrow> (bool \<times> creation_array) res" where
  "process_thread_metadata_map w m array =
     (if mm_count m \<le> 0 then Inr (True, array)
      else
        bnd (deref (mm_array m)) (\<lambda>xs.
        if length xs < nat (mm_count m) then Inl Oob else process_items w (take (nat (mm_count m)) xs) array))"

fun process_thread_maps :: "'s fsck_world \<Rightarrow> metadata_map list \<Rightarrow> creation_array \<Rightarrow> (bool \<times> creation_array) res" where
  "process_thread_maps w [] array = Inr (True, array)"
| "process_thread_maps w (m # ms) array =
     bnd (process_thread_metadata_map w m array) (\<lambda>(ok, array).
     if ok then process_thread_maps w ms array else Inr (False, array))"

fun run_fsck_threads :: "'s fsck_world \<Rightarrow> u32 \<Rightarrow> (u64 \<times> u64) list \<Rightarrow> metadata_map list res" where
  "run_fsck_threads w peb_size [] = Inr []"
| "run_fsck_threads w peb_size (r # rs) =
     bnd (fsck_process_peb_range w peb_size r) (\<lambda>m. bnd (run_fsck_threads w peb_size rs) (\<lambda>ms. Inr (m # ms)))"

definition execute_whole_volume_search ::
  "'s fsck_world \<Rightarrow> fsck_environment \<Rightarrow> (fsck_code \<times> fsck_environment) res" where
  "execute_whole_volume_search w env =
     (let capacity = ucast (fe_threads env) :: u64 in
      bnd (div_chk (fs_size (fe_base env)) (ucast (erase_size (fe_base env)))) (\<lambda>pebs_count.
      bnd (div_chk (pebs_count + capacity - 1) capacity) (\<lambda>pebs_per_thread.
      if \<not> fw_alloc w 9 (unat (fe_threads env)) then Inr (SEARCH_FAILURE, env)
      else if \<not> (\<forall>i \<in> set [0..<unat (fe_threads env)]. fw_thread w i) then Inr (SEARCH_FAILURE, env)
      else
        bnd (run_fsck_threads w (erase_size (fe_base env))
               (map (\<lambda>i. fsck_peb_environment i pebs_per_thread pebs_count) [0..<unat (fe_threads env)])) (\<lambda>maps.
        bnd (process_thread_maps w maps (fe_array env)) (\<lambda>(ok, array).
        Inr (if ok then SEARCH_SUCCESS else SEARCH_FAILURE, env\<lparr>fe_array := array\<rparr>))))))"

section \<open>Detection\<close>

text \<open>The result of the detection from the last creation point.\<close>

definition detection_result :: "fsck_environment \<Rightarrow> fsck_environment res" where
  "detection_result env =
     bnd (BUG_ON (ca_count (fe_array env) \<le> 0)) (\<lambda>_.
     bnd (nth_chk (ca_points (fe_array env)) (nat (ca_count (fe_array env) - 1))) (\<lambda>p.
     Inr (env\<lparr>fe_state :=
       (if cp_found_metadata p = 0 then NO_FILE_SYSTEM_DETECTED
        else if cp_found_metadata p = SSDFS_FSCK_ALL_CRITICAL_METADATA_FOUND_MASK then DEVICE_HAS_FILE_SYSTEM
        else DEVICE_HAS_SOME_METADATA)\<rparr>)))"

definition whole_volume_search :: "'s fsck_world \<Rightarrow> fsck_environment \<Rightarrow> fsck_environment res" where
  "whole_volume_search w env =
     bnd (execute_whole_volume_search w env) (\<lambda>(c, env).
     if c = SEARCH_FAILURE then Inr (env\<lparr>fe_state := FAILED_DETECT_FILE_SYSTEM\<rparr>) else detection_result env)"

text \<open>\<open>fuel\<close> bounds the search for any header (65 turns are enough).\<close>

definition is_device_contains_ssdfs_volume :: "nat \<Rightarrow> 's fsck_world \<Rightarrow> fsck_environment \<Rightarrow> fsck_environment res option" where
  "is_device_contains_ssdfs_volume fuel w env =
     (let env = env\<lparr>fe_state := UNKNOWN_DETECTION_RESULT\<rparr> in
      case ssdfs_find_any_valid_peb fuel (fw_crc w) (fw_rd w) (fe_base env) of
        None \<Rightarrow> None
      | Some (Inl (Errno e)) \<Rightarrow>
          Some (Inr (env\<lparr>fe_state := (if e = ENODATA then NO_FILE_SYSTEM_DETECTED else FAILED_DETECT_FILE_SYSTEM)\<rparr>))
      | Some (Inl f) \<Rightarrow> Some (Inl f)
      | Some (Inr hdr) \<Rightarrow>
          obnd (Some (shift_1 (get8 hdr 0x11))) (\<lambda>erase_bytes.
          obnd (Some (shift_1 (get8 hdr 0x10))) (\<lambda>page_bytes.
          let env = env\<lparr>fe_found_peb := hdr,
                      fe_base := (fe_base env)\<lparr>erase_size := erase_bytes, env_page_size := page_bytes\<rparr>\<rparr> in
          obnd (search_all (detect_actions w) [0..<4] env) (\<lambda>(c, env).
          if c = SEARCH_FAILURE then Some (Inr (env\<lparr>fe_state := FAILED_DETECT_FILE_SYSTEM\<rparr>))
          else if c = SEARCH_NOT_FOUND \<or> fe_force_checking env then Some (whole_volume_search w env)
          else Some (detection_result env)))))"

section \<open>Sample inputs\<close>

text \<open>A device, libraries and allocations that succeed, and a small volume of 16 erase blocks of 64 KiB with 3 threads.\<close>

definition sample_fsck_world :: "dev_read \<Rightarrow> buf fsck_world" where
  "sample_fsck_world dev =
     \<lparr>fw_rd = dev, fw_crc = (\<lambda>b. 0), fw_libs = run_libs, fw_fresh_buf = (\<lambda>i. 0),
      fw_fresh_item = \<lparr>pi_seg_id = 0, pi_leb_id = 0, pi_peb_id = 0, pi_type = 0, pi_peb_timestamp = 0, pi_volume_timestamp = 0\<rparr>,
      fw_fresh_point = zero_point, fw_alloc = (\<lambda>i n. True), fw_thread = (\<lambda>i. True)\<rparr>"

definition sample_fsck_env :: fsck_environment where
  "sample_fsck_env = fsck_init_detection_result
     \<lparr>fe_force_checking = False, fe_seg_size = 0,
      fe_base = \<lparr>fs_size = 0x100000, erase_size = 0x10000, open_zones = 0, env_page_size = 4096,
        env_device_type = SSDFS_BLK_DEVICE, env_fd = 3, env_dev_ops = bdev_ops\<rparr>,
      fe_threads = 3, fe_state = UNKNOWN_DETECTION_RESULT,
      fe_array = \<lparr>ca_state = ARRAY_NOT_INITIALIZED, ca_count = 0, ca_points = []\<rparr>, fe_found_peb = []\<rparr>"

end
