(* ===== verification/FsckCache.thy ===== *)
theory FsckCache
  imports FsckDetect MaptblCache
begin

text \<open>
  The cache of the mapping table between the two programs: \<^verbatim>\<open>mkfs.ssdfs\<close> builds a fragment of it, \<^verbatim>\<open>fsck.ssdfs\<close> reads
  the area of the log, keeps the pairs and answers which PEB a LEB has.
\<close>

section \<open>The lookup in the pairs of a fragment\<close>

definition peb_of :: "cache_entry list \<Rightarrow> u64 \<Rightarrow> u64" where
  "peb_of es leb = (case map_of (map (\<lambda>(l, peb, st). (l, peb)) es) leb of None \<Rightarrow> U64_MAX | Some peb \<Rightarrow> peb)"

lemma peb_of_simps [simp]:
  "peb_of [] leb = U64_MAX" "peb_of (e # es) leb = (if leb = fst e then fst (snd e) else peb_of es leb)"
  by (auto simp: peb_of_def split: prod.split)

lemma rd_pair:
  assumes "i < length es"
  shows "rd64 (pairs_image es @ R) (16 * i) = Inr (fst (es ! i))"
    and "rd64 (pairs_image es @ R) (16 * i + 8) = Inr (fst (snd (es ! i)))"
proof -
  have "es = take i es @ es ! i # drop (Suc i) es" using assms by (simp add: id_take_nth_drop)
  then have eq: "pairs_image es @ R = pairs_image (take i es) @ le_enc 8 (fst (es ! i)) @
      le_enc 8 (fst (snd (es ! i))) @ pairs_image (drop (Suc i) es) @ R"
    by (metis append.assoc images_append(1,3) leb2peb_pair_def)
  show "rd64 (pairs_image es @ R) (16 * i) = Inr (fst (es ! i))"
    unfolding eq field_rd by (subst rd_mid) (use assms in \<open>simp_all add: le_dec_enc\<close>)
  show "rd64 (pairs_image es @ R) (16 * i + 8) = Inr (fst (snd (es ! i)))"
    unfolding eq field_rd append_assoc[symmetric, of "pairs_image (take i es)"]
    by (subst rd_mid) (use assms in \<open>simp_all add: le_dec_enc\<close>)
qed

lemma leb2peb_loop_finds:
  assumes "16 * length es \<le> unat bytes" and "k \<le> length es"
  shows "leb2peb_loop (pairs_image es @ R) bytes leb [k..<length es] (of_nat (16 * k)) = Inr (peb_of (drop k es) leb)"
  using assms(2)
proof (induction k rule: inc_induct)
  case base
  show ?case by simp
next
  case (step k)
  have B: "unat bytes < 65536" using unsigned_less[of bytes] by simp
  have le: "16 * k + 16 \<le> unat bytes" using step.hyps assms(1) by linarith
  have n8: "(of_nat (16 * k) :: u16) + 8 = of_nat (16 * k + 8)" and n16: "(of_nat (16 * k) :: u16) + 16 = of_nat (16 * Suc k)"
    by simp_all
  have u8: "\<not> bytes \<le> (of_nat (16 * k + 8) :: u16)" unfolding word_le_nat_alt unat_of_nat using B le by simp
  have u16: "bytes \<le> (of_nat (16 * Suc k) :: u16) \<longleftrightarrow> Suc k = length es \<and> unat bytes = 16 * length es"
  proof -
    have "unat (of_nat (16 * Suc k) :: u16) = (16 * Suc k) mod 65536" by (simp only: unat_of_nat) simp
    then show ?thesis unfolding word_le_nat_alt using B le assms(1) step.hyps by (cases "16 * Suc k = 65536") auto
  qed
  have "leb2peb_step (pairs_image es @ R) bytes leb k (of_nat (16 * k)) =
      Inr (if fst (es ! k) = leb then (Some (fst (snd (es ! k))), of_nat (16 * k + 8))
           else if Suc k = length es \<and> unat bytes = 16 * length es then (Some U64_MAX, of_nat (16 * Suc k))
           else (None, of_nat (16 * Suc k)))"
    unfolding leb2peb_step_def n8 n16 using u8 u16 rd_pair[OF step.hyps(2)] by (simp del: of_nat_mult of_nat_add of_nat_Suc)
  moreover have "drop k es = es ! k # drop (Suc k) es" using step.hyps(2) by (simp add: Cons_nth_drop_Suc)
  moreover have "[k..<length es] = k # [Suc k..<length es]" using step.hyps(2) by (simp add: upt_conv_Cons)
  ultimately show ?case using step.IH by (auto simp del: of_nat_mult of_nat_add of_nat_Suc)
qed

section \<open>What mkfs caches, fsck finds\<close>

lemma get_header_image:
  "get16 (header_image seq i b s e) 0x0A = 0" "get16 (header_image seq i b s e) 0x0C = i"
  "get16 (header_image seq i b s e) 0x0E = b" "get16 (header_image seq i b s e) 0x10 = ucast s"
  "get16 (header_image seq i b s e) 0x18 = ucast e"
proof -
  have low: "le_dec (take 2 (le_enc 8 v)) = (ucast v :: u16)" for v :: u64
  proof -
    have "take 2 (le_enc 8 v) = le_enc 2 (ucast v :: u16)"
      by (simp add: le_enc_def take_map) (auto intro!: bit_word_eqI simp: bit_simps upt_rec)
    then show ?thesis by (simp add: le_dec_enc)
  qed
  show "get16 (header_image seq i b s e) 0x0A = 0" "get16 (header_image seq i b s e) 0x0C = i"
    "get16 (header_image seq i b s e) 0x0E = b" "get16 (header_image seq i b s e) 0x10 = ucast s"
    "get16 (header_image seq i b s e) 0x18 = ucast e"
    by (simp_all add: get16_def header_image_def bytes_at_def le_dec_enc low)
qed

lemma unpack_mkfs_cache:
  assumes "length es < 3000" and "fw_alloc w 2 (36 + 20 * length es)"
  shows "\<exists>tail. unpack_cache w (of_nat (36 + 20 * length es)) (fragment_image (36 + 20 * length es) seq es) cache =
    Some (Inr (SEARCH_SUCCESS, cache\<lparr>
      fc_hdr := header_image seq (fragment_items es) (fragment_bytes es) (start_leb_of es) (end_leb_of es),
      fc_data := Some (pairs_image es @ tail), fc_bytes_count := of_nat (4 + 20 * length es)\<rparr>))"
proof -
  let ?n = "36 + 20 * length es"
  define H where "H = header_image seq (fragment_items es) (fragment_bytes es) (start_leb_of es) (end_leb_of es)"
  define S where "S = le_enc 4 SSDFS_MAPTBL_CACHE_PEB_STATE_MAGIC @ states_image es"
  have image: "fragment_image ?n seq es = H @ pairs_image es @ S" and len: "length H = 32" "length S = 4 + 4 * length es"
    by (simp_all add: fragment_image_def H_def S_def)
  have un: "unat (of_nat ?n :: u32) = ?n" using assms(1) by (simp only: unat_of_nat) simp
  have uu: "unat (ucast (fragment_bytes es) :: u32) = ?n" by (simp add: unat_ucast_up unat_fragment assms(1))
  have sub: "(of_nat ?n - 32 :: u32) = of_nat (4 + 20 * length es)" by simp
  have us: "unat (of_nat (4 + 20 * length es) :: u32) = 4 + 20 * length es" using assms(1) by (simp only: unat_of_nat) simp
  have lt: "\<not> (ucast (fragment_bytes es) :: u32) < of_nat ?n" unfolding word_less_nat_alt un uu by simp
  have codec: "cache_codec 0 = None" by (simp add: cache_codec_def)
  have hdr: "rd (H @ pairs_image es @ S) 0 32 = Inr H" using rd_mid[of 0 "[]" 32 H "pairs_image es @ S"] len by simp
  have data: "rd (pairs_image es @ S) 0 (4 + 20 * length es) = Inr (pairs_image es @ S)"
    using len by (simp add: rd_def bytes_at_def)
  have "wr (fresh_mem w ?n) 0 (pairs_image es @ S) = Inr (pairs_image es @ S @ drop (4 + 20 * length es) (fresh_mem w ?n))"
    using len by (simp add: wr_def overwrite_def fresh_mem_def add.commute)
  moreover have "get16 H 0x0A = 0" "get16 H 0x0E = fragment_bytes es" by (simp_all add: H_def get_header_image)
  moreover have "drop 32 (H @ pairs_image es @ S) = pairs_image es @ S" using len by simp
  ultimately have "unpack_cache w (of_nat ?n) (H @ pairs_image es @ S) cache = Some (Inr (SEARCH_SUCCESS, cache\<lparr>fc_hdr := H,
      fc_data := Some (pairs_image es @ S @ drop (4 + 20 * length es) (fresh_mem w ?n)),
      fc_bytes_count := of_nat (4 + 20 * length es)\<rparr>))"
    using data assms(2) lt
    by (simp add: unpack_cache_def hdr Let_def codec sub us uu del: of_nat_add of_nat_mult)
  then show ?thesis unfolding image H_def by blast
qed

text \<open>
  C14. The PEB search of the segment bitmap and the mapping table in fsck answers from the cache as mkfs wrote it: when the
  area of the log holds a fragment with the pairs \<open>es\<close>, the area is unpacked, and the lookup returns the PEB of the
  first pair of the LEB, or all ones without one. The limits of the fragment are read with 16 bits, so that a
  LEB between the limits of the fragment is found only when it lies between the truncated ones, too.
\<close>

theorem fsck_finds_cached_peb:
  assumes "0 < length es" and "length es < 3000" and "fw_alloc w 2 (36 + 20 * length es)"
    and "get_creation_point env 0 = Some p" and "ca_points (fe_array env) \<noteq> []"
  shows "\<exists>cache. unpack_cache w (of_nat (36 + 20 * length es)) (fragment_image (36 + 20 * length es) seq es) (cp_maptbl_cache p) =
      Some (Inr (SEARCH_SUCCESS, cache)) \<and>
    maptbl_cache_convert_leb2peb (mark_found SSDFS_FSCK_MAPTBL_CACHE_FOUND (put_point env 0 (p\<lparr>cp_maptbl_cache := cache\<rparr>))) leb =
      Inr (if uint leb < uint (start_leb_of es) mod 2 ^ 16 \<or> uint (end_leb_of es) mod 2 ^ 16 < uint leb then U64_MAX
           else peb_of es leb)"
proof -
  obtain tail where unpack: "unpack_cache w (of_nat (36 + 20 * length es)) (fragment_image (36 + 20 * length es) seq es) (cp_maptbl_cache p) =
    Some (Inr (SEARCH_SUCCESS, (cp_maptbl_cache p)\<lparr>
      fc_hdr := header_image seq (fragment_items es) (fragment_bytes es) (start_leb_of es) (end_leb_of es),
      fc_data := Some (pairs_image es @ tail), fc_bytes_count := of_nat (4 + 20 * length es)\<rparr>))"
    using unpack_mkfs_cache[where cache = "cp_maptbl_cache p", OF assms(2,3)] by blast
  define env' where "env' = mark_found SSDFS_FSCK_MAPTBL_CACHE_FOUND (put_point env 0 (p\<lparr>cp_maptbl_cache := (cp_maptbl_cache p)\<lparr>
      fc_hdr := header_image seq (fragment_items es) (fragment_bytes es) (start_leb_of es) (end_leb_of es),
      fc_data := Some (pairs_image es @ tail), fc_bytes_count := of_nat (4 + 20 * length es)\<rparr>\<rparr>))"
  have absorb: "(x OR y) AND y = y" for x y :: u64 by (rule bit_word_eqI) (auto simp: bit_simps)
  have flag: "(x OR 16) AND 16 \<noteq> 0" for x :: u64 using absorb[of x 16] by simp
  have u: "unat (fragment_items es) = length es" "unat (fragment_bytes es) = 36 + 20 * length es"
    using unat_fragment[OF assms(2)] by simp_all
  have n: "\<not> fragment_bytes es < 8" "fragment_items es \<noteq> 0"
    using u assms(1) by (auto simp: word_less_nat_alt unat_eq_0[symmetric])
  have loop: "leb2peb_loop (pairs_image es @ tail) (fragment_bytes es) leb [0..<length es] 0 = Inr (peb_of es leb)"
    using leb2peb_loop_finds[of es "fragment_bytes es" 0 tail leb] u(2) by simp
  have limit: "uint (ucast (ucast v :: u16) :: u64) = uint v mod 2 ^ 16" for v :: u64
    by (simp add: unsigned_ucast_eq take_bit_eq_mod uint_word_of_int_eq unsigned_take_bit_eq uint_mod)
  obtain p' where p': "get_creation_point env' 0 = Some p'" "cp_found_metadata p' AND SSDFS_FSCK_MAPTBL_CACHE_FOUND \<noteq> 0"
    "fc_hdr (cp_maptbl_cache p') = header_image seq (fragment_items es) (fragment_bytes es) (start_leb_of es) (end_leb_of es)"
    "fc_data (cp_maptbl_cache p') = Some (pairs_image es @ tail)"
    using assms(4,5) flag unfolding env'_def
    by (auto simp: get_creation_point_def mark_found_def put_point_def Let_def split: if_splits)
  have "maptbl_cache_convert_leb2peb env' leb =
      Inr (if uint leb < uint (start_leb_of es) mod 2 ^ 16 \<or> uint (end_leb_of es) mod 2 ^ 16 < uint leb then U64_MAX
           else peb_of es leb)"
    using n unfolding maptbl_cache_convert_leb2peb_def p'(1) option.case p'(3,4) get_header_image Let_def if_not_P[OF p'(2)]
    by (simp add: word_less_def limit u(1) loop)
  with unpack show ?thesis unfolding env'_def by blast
qed

text \<open>LEB 65544 lies between the limits 5 and 65544, but not between their low halves 5 and 8.\<close>

theorem fsck_finds_cached_peb_witness:
  "(\<exists>cache. unpack_cache (sample_fsck_world (\<lambda>a b. Inl Oob)) 76
      (fragment_image 76 0 [(5, 70, 0), (65544, 81, 0)]) (cp_maptbl_cache (init_creation_point zero_point)) = Some (Inr (SEARCH_SUCCESS, cache)) \<and>
    maptbl_cache_convert_leb2peb (mark_found SSDFS_FSCK_MAPTBL_CACHE_FOUND (put_point sample_fsck_env 0
      ((init_creation_point zero_point)\<lparr>cp_maptbl_cache := cache\<rparr>))) 5 = Inr 70) \<and>
   (\<exists>cache. unpack_cache (sample_fsck_world (\<lambda>a b. Inl Oob)) 76
      (fragment_image 76 0 [(5, 70, 0), (65544, 81, 0)]) (cp_maptbl_cache (init_creation_point zero_point)) = Some (Inr (SEARCH_SUCCESS, cache)) \<and>
    maptbl_cache_convert_leb2peb (mark_found SSDFS_FSCK_MAPTBL_CACHE_FOUND (put_point sample_fsck_env 0
      ((init_creation_point zero_point)\<lparr>cp_maptbl_cache := cache\<rparr>))) 65544 = Inr U64_MAX)"
proof -
  have env: "get_creation_point sample_fsck_env 0 = Some (init_creation_point zero_point)" "ca_points (fe_array sample_fsck_env) \<noteq> []"
    by (simp_all add: sample_fsck_env_def fsck_init_detection_result_def get_creation_point_def)
  have alloc: "fw_alloc (sample_fsck_world dev) i n" for dev i n by (simp add: sample_fsck_world_def)
  note fsck_finds_cached_peb[of "[(5, 70, 0), (65544, 81, 0)]" "sample_fsck_world (\<lambda>a b. Inl Oob)" sample_fsck_env
      "init_creation_point zero_point" 0]
  from this[of 5] this[of 65544] show ?thesis by (simp add: env alloc start_leb_of_def end_leb_of_def)
qed

end
