(* ===== verification/FsckSearch.thy ===== *)
theory FsckSearch
  imports FsckDetect
begin

text \<open>
  What the detection of \<^verbatim>\<open>fsck.ssdfs\<close> computes: the ranges of its threads, the lookup in the cache of the mapping table, the
  last log of a PEB and the snapshot segment, and the creation points of the search of the whole volume.
\<close>

section \<open>The ranges of the threads\<close>

lemma unat_thread_start:
  assumes "i < t" and "p + t < 2 ^ 63" and "q = (p + t - 1) div t"
  shows "unat (of_nat i * of_nat q :: u64) = i * q" "unat (of_nat q :: u64) = q" "i * q + q \<le> p + t" "i * q < 2 ^ 63"
proof -
  have "i * q + q = (i + 1) * q" by simp
  also have "\<dots> \<le> t * q" using assms(1) by (intro mult_le_mono1) simp
  also have "\<dots> \<le> p + t" using assms(3) by (metis diff_le_self dual_order.trans times_div_less_eq_dividend)
  finally show le: "i * q + q \<le> p + t" .
  then show "i * q < 2 ^ 63" using assms(2) by linarith
  with le assms(2) show "unat (of_nat q :: u64) = q" "unat (of_nat i * of_nat q :: u64) = i * q"
    by (simp_all add: unat_of_nat flip: of_nat_mult)
qed

text \<open>A thread that starts inside the volume gets the PEBs of its share up to the end, one behind it a whole share.\<close>

lemma thread_pebs_of_share:
  assumes "i < t" and "p + t < 2 ^ 63" and "q = (p + t - 1) div t"
  shows "map unat (fsck_thread_pebs (fsck_peb_environment i (of_nat q) (of_nat p))) =
    (if i * q \<le> p then [i * q ..< min p (i * q + q)] else [i * q ..< i * q + q])"
proof -
  note u = unat_thread_start[OF assms]
  have p: "unat (of_nat p :: u64) = p" using assms(2) by (simp add: unat_of_nat)
  define n where "n = (if i * q \<le> p then min (p - i * q) q else q)"
  have n: "unat (min (of_nat p - of_nat i * of_nat q) (of_nat q) :: u64) = n"
  proof (cases "i * q \<le> p")
    case True
    then have "unat (of_nat p - of_nat i * of_nat q :: u64) = p - i * q"
      using p u(1) by (simp add: unat_sub_if')
    then show ?thesis using True u(2) by (simp add: n_def unat_min)
  next
    case False
    have "unat (of_nat p - of_nat i * of_nat q :: u64) = 2 ^ 64 + p - i * q"
      using False p u(1) by (simp add: unat_sub_if' unat_word_ariths)
    then show ?thesis using False u p assms(2) by (simp add: n_def unat_min)
  qed
  have lt: "i * q + k < 2 ^ 64" if "k < n" for k using that u(3,4) assms(2) by (auto simp: n_def split: if_splits)
  have lt': "k mod 2 ^ 64 = k" if "k < n" for k using lt[OF that] by simp
  have "map unat (fsck_thread_pebs (fsck_peb_environment i (of_nat q) (of_nat p))) = map (\<lambda>k. i * q + k) [0..<n]"
    unfolding fsck_thread_pebs_def fsck_peb_environment_def Let_def prod.case n
    using lt lt' u(1) by (auto simp: unat_add_nw unat_of_nat)
  also have "\<dots> = [i * q ..< i * q + n]" by (simp add: map_add_upt[symmetric] add.commute)
  also have "\<dots> = (if i * q \<le> p then [i * q ..< min p (i * q + q)] else [i * q ..< i * q + q])"
    by (auto simp: n_def min_def)
  finally show ?thesis .
qed

lemma concat_shares: "concat (map (\<lambda>i. [min p (i * q) ..< min p (i * q + q)]) [0..<t]) = [0 ..< min p (t * q)]" for p q t :: nat
proof (induction t)
  case (Suc t)
  have "min p (t * q + q) = min p (t * q) + (min p (t * q + q) - min p (t * q))" by simp
  then have "[0 ..< min p (t * q + q)] = [0 ..< min p (t * q)] @ [min p (t * q) ..< min p (t * q + q)]"
    by (metis le0 upt_add_eq_append)
  with Suc show ?case by (simp add: add.commute)
qed simp


lemma unat_pebs_per_thread:
  assumes "0 < t" and "p + t < 2 ^ 63"
  shows "unat ((of_nat p + of_nat t - 1) div of_nat t :: u64) = (p + t - 1) div t"
proof -
  have "unat (of_nat p + of_nat t - 1 :: u64) = p + t - 1"
    using assms by (simp add: unat_of_nat unat_sub_if' flip: of_nat_add)
  then show ?thesis using assms by (simp add: unat_div unat_of_nat)
qed

lemma threads_read_volume_iff:
  assumes "0 < t" and "p + t < 2 ^ 63"
  shows "concat (map (\<lambda>i. map unat (fsck_thread_pebs (fsck_peb_environment i ((of_nat p + of_nat t - 1) div of_nat t) (of_nat p)))) [0..<t]) =
    [0..<p] \<longleftrightarrow> (t - 1) * ((p + t - 1) div t) \<le> p"
proof -
  define q where "q = (p + t - 1) div t"
  have q: "(of_nat p + of_nat t - 1) div of_nat t = (of_nat q :: u64)"
    using unat_pebs_per_thread[OF assms] unfolding q_def by (metis of_nat_unat ucast_id)
  define pebs where "pebs i = (if i * q \<le> p then [i * q ..< min p (i * q + q)] else [i * q ..< i * q + q])" for i
  have pebs: "map unat (fsck_thread_pebs (fsck_peb_environment i (of_nat q) (of_nat p))) = pebs i" if "i < t" for i
    using thread_pebs_of_share[OF that assms(2) q_def] by (simp add: pebs_def)
  have "p \<le> t * q"
  proof -
    have "p + t - 1 = t * q + (p + t - 1) mod t" by (simp add: q_def)
    moreover have "(p + t - 1) mod t < t" using assms(1) by simp
    ultimately show ?thesis by linarith
  qed
  have "concat (map pebs [0..<t]) = [0..<p] \<longleftrightarrow> (t - 1) * q \<le> p"
  proof
    assume le: "(t - 1) * q \<le> p"
    have "pebs i = [min p (i * q) ..< min p (i * q + q)]" if "i < t" for i
    proof -
      have "i * q \<le> (t - 1) * q" using that by (intro mult_le_mono1) simp
      with le have "i * q \<le> p" by linarith
      then show ?thesis by (simp add: pebs_def min_def)
    qed
    then have "map pebs [0..<t] = map (\<lambda>i. [min p (i * q) ..< min p (i * q + q)]) [0..<t]" by simp
    then have "concat (map pebs [0..<t]) = [0 ..< min p (t * q)]" by (simp only: concat_shares)
    with \<open>p \<le> t * q\<close> show "concat (map pebs [0..<t]) = [0..<p]" by simp
  next
    assume all: "concat (map pebs [0..<t]) = [0..<p]"
    show "(t - 1) * q \<le> p"
    proof (rule ccontr)
      assume "\<not> (t - 1) * q \<le> p"
      moreover have "q \<noteq> 0" using calculation by (metis mult_0_right zero_le)
      ultimately have "(t - 1) * q \<in> set (pebs (t - 1))" unfolding pebs_def if_not_P[OF \<open>\<not> (t - 1) * q \<le> p\<close>] by simp
      then have "(t - 1) * q \<in> set (concat (map pebs [0..<t]))" using assms(1) by force
      with all \<open>\<not> (t - 1) * q \<le> p\<close> show False by simp
    qed
  qed
  moreover have "map (\<lambda>i. map unat (fsck_thread_pebs (fsck_peb_environment i (of_nat q) (of_nat p)))) [0..<t] = map pebs [0..<t]"
    using pebs by simp
  ultimately show ?thesis by (simp only: q q_def[symmetric])
qed

text \<open>
  C28. The threads of the search of the whole volume read every PEB once, in the order of the volume and nothing else,
  exactly when the last thread starts inside the volume. Otherwise the number of PEBs left wraps around, the last threads
  get a whole share behind the end of the volume.
\<close>

theorem fsck_threads_read_volume_once:
  assumes "0 < t" and "p + t < 2 ^ 63"
  shows "concat (map (\<lambda>i. map unat (fsck_thread_pebs (fsck_peb_environment i ((of_nat p + of_nat t - 1) div of_nat t) (of_nat p)))) [0..<t]) =
    [0..<p] \<longleftrightarrow> (t - 1) * ((p + t - 1) div t) \<le> p"
  by (rule threads_read_volume_iff[OF assms])

theorem fsck_threads_read_volume_once_witness:
  "concat (map (\<lambda>i. map unat (fsck_thread_pebs (fsck_peb_environment i ((of_nat 10 + of_nat 3 - 1) div of_nat 3) (of_nat 10)))) [0..<3]) = [0..<10]
   \<and> concat (map (\<lambda>i. map unat (fsck_thread_pebs (fsck_peb_environment i ((of_nat 12 + of_nat 10 - 1) div of_nat 10) (of_nat 12)))) [0..<10]) \<noteq> [0..<12]"
  using fsck_threads_read_volume_once[of 3 10] fsck_threads_read_volume_once[of 10 12] by simp

section \<open>The last log of a PEB\<close>

text \<open>The pages where the logs of \<open>f\<close> pages of a PEB of \<open>n\<close> pages start.\<close>

function log_pages :: "nat \<Rightarrow> nat \<Rightarrow> nat \<Rightarrow> nat list" where
  "log_pages f n cur = (if f = 0 \<or> n \<le> cur then [] else cur # log_pages f n (cur + f))"
  by auto
termination by (relation "measure (\<lambda>(f, n, cur). n - cur)") auto

declare log_pages.simps [simp del]

lemma log_pages_less: "p \<in> set (log_pages f n cur) \<Longrightarrow> cur \<le> p \<and> p < n"
  by (induction f n cur rule: log_pages.induct) (subst (asm) (2) log_pages.simps, fastforce split: if_splits)

lemma last_full_log_loop_scans:
  assumes "\<And>p. p < unat n \<Longrightarrow>
      read_into (stack_struct w) (ssdfs_read_segment_header (fw_rd w) peb (erase_size base) (of_nat p * page_size) 2048) = Inr (Some (H p))"
    and "0 < f" and "unat n + unat f < 2 ^ 32" and "fl_peb_id log = peb" and "cur < unat n"
  shows "last_full_log_loop w base page_size n f (of_nat cur) log =
    Some (Inr (SEARCH_SUCCESS,
      (let ps = takeWhile (\<lambda>p. is_ssdfs_segment_header (H p)) (log_pages (unat f) (unat n) cur) in
       if ps = [] then log else log\<lparr>fl_header := H (last ps), fl_start_page := of_nat (last ps)\<rparr>)))"
  using assms(4,5)
proof (induction "unat f" "unat n" cur arbitrary: log rule: log_pages.induct)
  case (1 cur)
  have f: "unat f \<noteq> 0" using assms(2) by (simp add: unat_gt_0 word_gt_0 unat_eq_0)
  have next_page: "(of_nat cur + f :: u32) = of_nat (cur + unat f)" by simp
  have less: "(of_nat (cur + unat f) :: u32) < n \<longleftrightarrow> cur + unat f < unat n"
    using assms(3) 1(3) unfolding word_less_nat_alt unat_of_nat by simp
  note pages = log_pages.simps[of "unat f" "unat n" cur]
  show ?case
  proof (cases "is_ssdfs_segment_header (H cur)")
    case False
    then show ?thesis using assms(1)[OF 1(3)] 1(2,3) f by (subst last_full_log_loop.simps) (simp add: pages)
  next
    case hdr: True
    show ?thesis
    proof (cases "cur + unat f < unat n")
      case False
      then have "log_pages (unat f) (unat n) (cur + unat f) = []" by (simp add: log_pages.simps)
      then show ?thesis
        using False assms(1)[OF 1(3)] 1(2,3) f hdr less
        by (subst last_full_log_loop.simps) (simp add: pages next_page Let_def del: of_nat_add)
    next
      case True
      have "\<not> (unat f = 0 \<or> unat n \<le> cur)" using f 1(3) by simp
      note IH = 1(1)[OF this _ True, of "log\<lparr>fl_header := H cur, fl_start_page := of_nat cur\<rparr>"]
      show ?thesis
        using True assms(1)[OF 1(3)] 1(2,3) f hdr less IH
        by (subst last_full_log_loop.simps) (simp add: pages next_page Let_def del: of_nat_add)
    qed
  qed
qed

lemma read_into_2048:
  "length mem = 2048 \<Longrightarrow> length d = 2048 \<Longrightarrow> read_into mem (Inr d) = Inr (Some d)"
  by (simp add: read_into_def attempt_def overwrite_def)

lemma length_stack_struct [simp]: "length (stack_struct w) = 2048"
  by (simp add: stack_struct_def fresh_mem_def)

text \<open>
  C19. The search for the initial snapshot returns for every PEB that can be read, and finds its last log: the last of the
  pages that carry a segment header in an unbroken row, one log of the first header behind the other. The header there
  becomes the snapshot log and gives the size of a segment, except that a segment of 4 GiB or more shifts an
  \<^verbatim>\<open>int\<close> by 32 or more bits, which has no defined result.
\<close>

theorem fsck_finds_base_snapshot:
  assumes "get_creation_point env 0 = Some p" and "ca_points (fe_array env) \<noteq> []"
    and "length (fl_header (cp_base_snapshot_log p)) = 2048"
    and "\<And>i. i < unat n \<Longrightarrow> ssdfs_read_segment_header (fw_rd w) 0 (erase_size (fe_base env)) (of_nat i * page_size) 2048 = Inr (H i)"
    and "\<And>i. length (H i) = 2048"
    and "is_ssdfs_segment_header (H 0)" and "get16 (H 0) 0x412 = 2"
    and "0 < unat (get8 (H 0) 0x10)" and "unat (get8 (H 0) 0x10) < 32" and "page_size = push_bit (unat (get8 (H 0) 0x10)) 1"
    and "n = erase_size (fe_base env) div page_size"
    and "0 < f" and "f < 65535" and "f \<le> unat n" and "get16 (H 0) 0x410 = of_nat f"
    and "k = last (0 # takeWhile (\<lambda>i. is_ssdfs_segment_header (H i)) (log_pages f (unat n) f))"
  shows "is_base_snapshot_segment_found w env = Some
    (if unat (get8 (H k) 0x12) < 32 then
       Inr (SEARCH_SUCCESS, mark_found SSDFS_FSCK_BASE_SNAPSHOT_SEG_FOUND (put_point env 0 (p\<lparr>cp_timestamp := get64 (H 0) 0x18,
         cp_base_snapshot_log := (cp_base_snapshot_log p)\<lparr>fl_peb_id := 0, fl_start_page := of_nat k, fl_header := H k\<rparr>\<rparr>)
         \<lparr>fe_seg_size := push_bit (unat (get8 (H k) 0x12)) 1\<rparr>))
     else Inl Oob)"
proof -
  let ?E = "erase_size (fe_base env)" and ?f = "of_nat f :: u32"
  have f: "unat ?f = f" using assms(13) by (simp add: unat_of_nat)
  have f16: "unat (of_nat f :: u16) = f" using assms(13) by (simp add: unat_of_nat)
  have uf: "(ucast (of_nat f :: u16) :: u32) = ?f" by (rule word_unat_eqI) (simp add: unat_ucast_up f f16)
  have n0: "n \<noteq> 0" "\<not> n < ?f" "n = ?f \<longleftrightarrow> unat n = f"
    using assms(12,14) f by (auto simp: word_less_nat_alt)
  have page: "unat page_size = 2 ^ unat (get8 (H 0) 0x10)"
    unfolding assms(10) using assms(9) by (simp add: push_bit_eq_mult unat_exp)
  then have p0: "page_size \<noteq> 0" "2 \<le> unat page_size" using assms(8) by (auto simp: self_le_power)
  have E0: "?E \<noteq> 0" using n0(1) assms(11) by auto
  have "unat n \<le> unat ?E div 2" unfolding assms(11) unat_div using p0(2) by (simp add: div_le_mono2)
  then have small: "unat n + unat ?f < 2 ^ 32" using f assms(13) unat_width[of ?E] by simp
  have read: "read_into mem (ssdfs_read_segment_header (fw_rd w) 0 ?E (of_nat i * page_size) 2048) = Inr (Some (H i))"
    if "i < unat n" "length mem = 2048" for i mem
    using assms(4)[OF that(1)] read_into_2048[OF that(2) assms(5)] by simp
  have first: "find_metadata_segment w (fe_base env) 0 2 0 (fl_header (init_found_log (cp_base_snapshot_log p))) = Inr (SEARCH_SUCCESS, H 0)"
    using read[of 0] assms(3,6,7,12,14) by (simp add: find_metadata_segment_def init_found_log_def)
  have geo: "peb_geometry (fe_base env) (H 0) = Inr (page_size, n)"
    using p0(1) n0(1) assms(9,10,11) by (simp add: peb_geometry_def shift_1_def Let_def)
  have full: "full_pages (H 0) = Inr ?f"
    using assms(12,13,15) f16 uf by (auto simp: full_pages_def Let_def word_le_nat_alt unat_eq_0[symmetric] unat_minus_one_eq)
  define log where "log = (cp_base_snapshot_log p)\<lparr>fl_peb_id := 0, fl_start_page := 0, fl_header := H 0\<rparr>"
  have "find_last_full_log w (fe_base env) log = Some (Inr (SEARCH_SUCCESS, log\<lparr>fl_header := H k, fl_start_page := of_nat k\<rparr>))"
  proof (cases "unat n = f")
    case True
    then have "k = 0" using assms(16) by (simp add: log_pages.simps)
    then show ?thesis using True n0 assms(6) by (simp add: find_last_full_log_def geo full log_def)
  next
    case False
    have "find_last_full_log w (fe_base env) log = last_full_log_loop w (fe_base env) page_size n ?f (of_nat f) log"
      using False n0 assms(6) by (simp add: find_last_full_log_def geo full log_def)
    also have "\<dots> = Some (Inr (SEARCH_SUCCESS,
      (let ps = takeWhile (\<lambda>p. is_ssdfs_segment_header (H p)) (log_pages (unat ?f) (unat n) f) in
       if ps = [] then log else log\<lparr>fl_header := H (last ps), fl_start_page := of_nat (last ps)\<rparr>)))"
      using False n0 assms(12,14) f small
      by (intro last_full_log_loop_scans[where peb = 0] read) (auto simp: log_def word_gt_0 unat_eq_0[symmetric])
    also have "\<dots> = Some (Inr (SEARCH_SUCCESS, log\<lparr>fl_header := H k, fl_start_page := of_nat k\<rparr>))"
      using f assms(16) by (simp add: Let_def) (simp add: log_def)
    finally show ?thesis .
  qed
  moreover have "log = (init_found_log (cp_base_snapshot_log p))\<lparr>fl_header := H 0, fl_peb_id := 0, fl_start_page := 0\<rparr>"
    by (simp add: log_def init_found_log_def)
  moreover have "log\<lparr>fl_header := H k, fl_start_page := of_nat k\<rparr> =
      (cp_base_snapshot_log p)\<lparr>fl_peb_id := 0, fl_start_page := of_nat k, fl_header := H k\<rparr>" by (simp add: log_def)
  moreover have "(ucast ?E :: u64) \<noteq> 0"
  proof
    assume "(ucast ?E :: u64) = 0"
    then have "unat (ucast ?E :: u64) = 0" by simp
    then show False using E0 by (simp add: unat_ucast_up unat_eq_0)
  qed
  ultimately show ?thesis
    using first assms(1,2) by (simp add: is_base_snapshot_segment_found_def with_point_def div_chk_def Let_def shift_1_def)
qed

lemma initial_point:
  "cp_timestamp (init_creation_point p) = U64_MAX" "cp_base_snapshot_log (init_creation_point p) = init_found_log (cp_base_snapshot_log p)"
  "cp_metadata_map (init_creation_point p) = map (\<lambda>m. empty_map) (cp_metadata_map p)"
  "cp_metadata_map zero_point = replicate 8 empty_map" "cp_base_snapshot_log zero_point = zero_log"
  "length (fl_header zero_log) = 2048" "fl_header (init_found_log log) = fl_header log"
  by (simp_all add: init_creation_point_def init_metadata_map_def init_maptbl_cache_def init_maptbl_def init_segbmap_def
      init_superblock_seg_def init_base_snapshot_seg_def zero_point_def init_found_log_def zero_log_def Let_def)

text \<open>A PEB of 16 pages with logs of 4 pages at the pages 0, 4 and 8; a segment has \<open>2 ^ log_segsize\<close> bytes.\<close>

definition sample_log_header :: "u8 \<Rightarrow> buf" where
  "sample_log_header log_segsize =
     put16 (put16 (put64 (put8 (put8 (put16 (put32 (replicate 2048 0) 0 SSDFS_SUPER_MAGIC) 4 SSDFS_SEGMENT_HDR_MAGIC)
       0x10 12) 0x12 log_segsize) 0x18 77) 0x410 4) 0x412 2"

definition sample_page :: "u8 \<Rightarrow> nat \<Rightarrow> buf" where
  "sample_page log_segsize i = (if i < 9 then sample_log_header log_segsize else replicate 2048 0)"

definition sample_snapshot_dev :: "u8 \<Rightarrow> dev_read" where
  "sample_snapshot_dev log_segsize offset len = Inr (sample_page log_segsize (unat (offset div 4096)))"

lemma sample_header_fields:
  "length (sample_page n i) = 2048" "is_ssdfs_segment_header (sample_page n i) \<longleftrightarrow> i < 9" "get16 (sample_log_header n) 0x412 = 2"
  "get8 (sample_log_header n) 0x10 = 12" "get8 (sample_log_header n) 0x12 = n" "get16 (sample_log_header n) 0x410 = 4"
  "get64 (sample_log_header n) 0x18 = 77"
proof -
  have "le_dec (replicate k 0) = (0 :: u32)" for k by (induction k) simp_all
  then have zero: "get32 (replicate 2048 0) 0 = 0" by (simp add: get32_def bytes_at_def)
  show "length (sample_page n i) = 2048" "is_ssdfs_segment_header (sample_page n i) \<longleftrightarrow> i < 9" "get16 (sample_log_header n) 0x412 = 2"
  "get8 (sample_log_header n) 0x10 = 12" "get8 (sample_log_header n) 0x12 = n" "get16 (sample_log_header n) 0x410 = 4"
  "get64 (sample_log_header n) 0x18 = 77"
    by (simp_all add: sample_page_def sample_log_header_def is_ssdfs_segment_header_def zero buf_simps)
qed

theorem fsck_finds_base_snapshot_witness:
  "is_base_snapshot_segment_found (sample_fsck_world (sample_snapshot_dev 20)) sample_fsck_env = Some (Inr (SEARCH_SUCCESS,
     mark_found SSDFS_FSCK_BASE_SNAPSHOT_SEG_FOUND (put_point sample_fsck_env 0
       ((init_creation_point zero_point)\<lparr>cp_timestamp := 77,
          cp_base_snapshot_log := zero_log\<lparr>fl_peb_id := 0, fl_start_page := 8, fl_header := sample_page 20 8\<rparr>\<rparr>)
       \<lparr>fe_seg_size := 0x100000\<rparr>))) \<and>
   is_base_snapshot_segment_found (sample_fsck_world (sample_snapshot_dev 32)) sample_fsck_env = Some (Inl Oob)"
proof -
  let ?p = "init_creation_point zero_point"
  have p: "get_creation_point sample_fsck_env 0 = Some ?p" "ca_points (fe_array sample_fsck_env) \<noteq> []"
    "length (fl_header (cp_base_snapshot_log ?p)) = 2048" "erase_size (fe_base sample_fsck_env) = 0x10000"
    "cp_base_snapshot_log ?p = init_found_log zero_log"
    by (simp_all add: sample_fsck_env_def fsck_init_detection_result_def get_creation_point_def initial_point)
  have page: "ssdfs_read_segment_header (fw_rd (sample_fsck_world (sample_snapshot_dev s))) 0 (erase_size (fe_base sample_fsck_env))
      (of_nat i * 4096) 2048 = Inr (sample_page s i)" if "i < unat (16 :: u32)" for s i
  proof -
    have "i \<in> set [0..<16]" using that by simp
    then show ?thesis
      by (simp add: p ssdfs_read_segment_header_def sample_fsck_world_def sample_snapshot_dev_def upt_rec sample_page_def) auto
  qed
  have pages: "log_pages 4 16 4 = [4, 8, 12]" by (simp add: log_pages.simps)
  have h: "sample_page s 0 = sample_log_header s" "sample_page s 8 = sample_log_header s" for s by (simp_all add: sample_page_def)
  have hdr: "is_ssdfs_segment_header (sample_log_header s)" for s using sample_header_fields(2)[of s 0] by (simp add: h)
  have eq: "is_base_snapshot_segment_found (sample_fsck_world (sample_snapshot_dev s)) sample_fsck_env = Some
    (if unat (get8 (sample_page s 8) 0x12) < 32 then
       Inr (SEARCH_SUCCESS, mark_found SSDFS_FSCK_BASE_SNAPSHOT_SEG_FOUND (put_point sample_fsck_env 0
         (?p\<lparr>cp_timestamp := get64 (sample_page s 0) 0x18,
           cp_base_snapshot_log := (cp_base_snapshot_log ?p)\<lparr>fl_peb_id := 0, fl_start_page := of_nat 8, fl_header := sample_page s 8\<rparr>\<rparr>)
         \<lparr>fe_seg_size := push_bit (unat (get8 (sample_page s 8) 0x12)) 1\<rparr>))
     else Inl Oob)" for s
    by (rule fsck_finds_base_snapshot[where page_size = 4096 and n = 16 and f = 4 and H = "sample_page s"])
      (use p(1-3) page in \<open>simp_all add: h hdr p(4) sample_header_fields pages push_bit_of_1\<close>)
  from eq[of 20] eq[of 32] show ?thesis using p(5) by (simp add: init_found_log_def h sample_header_fields)
qed

end
