(* ===== verification/FsckVolume.thy ===== *)
theory FsckVolume
  imports FsckSearch
begin

text \<open>
  The search of the whole volume of \<^verbatim>\<open>fsck.ssdfs\<close>: every item that the threads collect goes into the map of its type at
  the creation point of its time. A map represents a list of items, an array of creation points the items processed so
  far; both representations are kept by every step.
\<close>

section \<open>Maps as lists of items\<close>

definition map_repr :: "metadata_map \<Rightarrow> metadata_peb_item list \<Rightarrow> bool" where
  "map_repr m xs \<longleftrightarrow> mm_count m = int (length xs) \<and> (case mm_array m of
     None \<Rightarrow> mm_capacity m = 0 \<and> xs = []
   | Some arr \<Rightarrow> mm_capacity m = int (length arr) \<and> take (length xs) arr = xs \<and> 8 \<le> length arr \<and>
       (length arr = 8 \<or> length arr < 2 * length xs))"

definition map_items :: "metadata_map \<Rightarrow> metadata_peb_item list" where
  "map_items m = (case mm_array m of None \<Rightarrow> [] | Some arr \<Rightarrow> take (nat (mm_count m)) arr)"

lemma map_repr_items: "map_repr m xs \<Longrightarrow> map_items m = xs"
  by (auto simp: map_repr_def map_items_def split: option.splits)

lemma map_repr_empty: "map_repr empty_map []"
  by (simp add: map_repr_def empty_map_def)

lemma take_append_update: "take (length xs) arr = xs \<Longrightarrow> length xs < length arr \<Longrightarrow>
    take (Suc (length xs)) (arr[length xs := x]) = xs @ [x]"
  by (simp add: take_Suc_conv_app_nth)

lemma map_append_repr:
  assumes repr: "map_repr m xs" and "length xs < 2 ^ 29" and alloc: "\<And>i n. fw_alloc w i n"
  shows "\<exists>m'. map_append w item m = Inr (True, m') \<and> map_repr m' (xs @ [item])"
proof (cases "mm_array m")
  case None
  have "take (Suc 0) ((replicate 8 y)[0 := item]) = [item]" for y
    using take_append_update[of "[]" "replicate 8 y" item] by simp
  then show ?thesis
    using None repr alloc by (auto simp: map_repr_def map_append_def resize_metadata_map_def is_ssdfs_metadata_map_exhausted_def upd_chk_def deref_def)
next
  case (Some arr)
  then have r: "mm_count m = int (length xs)" "mm_capacity m = int (length arr)" "take (length xs) arr = xs" "8 \<le> length arr"
    "length arr = 8 \<or> length arr < 2 * length xs"
    using repr by (auto simp: map_repr_def)
  then have le: "length xs \<le> length arr" by (metis length_take min.absorb_iff2 min.commute)
  show ?thesis
  proof (cases "length xs < length arr")
    case True
    then show ?thesis
      using Some r take_append_update[OF r(3) True]
      by (auto simp: map_repr_def map_append_def resize_metadata_map_def is_ssdfs_metadata_map_exhausted_def upd_chk_def deref_def)
  next
    case False
    then have eq: "length arr = length xs" "arr = xs" using le r(3) by simp_all
    have "take (Suc (length xs)) ((xs @ replicate (length xs) y)[length xs := item]) = xs @ [item]" for y
      using r(4) eq by (intro take_append_update) auto
    then show ?thesis
      using Some r eq alloc assms(2)
      by (auto simp: map_repr_def map_append_def resize_metadata_map_def is_ssdfs_metadata_map_exhausted_def upd_chk_def deref_def
          nat_mult_distrib mult_2_right)
  qed
qed

section \<open>The place of a point\<close>

lemma index_where_append:
  "\<forall>x \<in> set xs. \<not> P x \<Longrightarrow> ys = [] \<or> P (hd ys) \<Longrightarrow>
   index_where P (xs @ ys) = (if ys = [] then None else Some (length xs))"
proof (induction xs)
  case Nil
  then show ?case by (cases ys) auto
qed auto

lemma index_where_None: "index_where P xs = None \<longleftrightarrow> (\<forall>x \<in> set xs. \<not> P x)"
  by (induction xs) auto

lemma index_where_SomeD: "index_where P xs = Some i \<Longrightarrow> i < length xs \<and> P (xs ! i)"
  by (induction xs arbitrary: i) (auto split: if_splits)

lemma insert_point_split:
  assumes "\<forall>q \<in> set xs. \<not> t < cp_timestamp q" and "ys = [] \<or> t < cp_timestamp (hd ys)"
  shows "insert_point t (length (xs @ ys)) (xs @ ys @ [x]) = xs @ new_point t (hd (ys @ [x])) # ys"
proof (cases ys)
  case Nil
  then show ?thesis using assms index_where_append[of xs _ "[]"] by (simp add: insert_point_def Let_def)
next
  case (Cons y zs)
  have "index_where (\<lambda>q. t < cp_timestamp q) (xs @ y # zs) = Some (length xs)"
    using assms Cons by (subst index_where_append) auto
  then show ?thesis using Cons by (simp add: insert_point_def Let_def)
qed

section \<open>Creation points as groups of items\<close>

definition items_of :: "u64 \<Rightarrow> nat \<Rightarrow> metadata_peb_item list \<Rightarrow> metadata_peb_item list" where
  "items_of t k items = filter (\<lambda>it. pi_volume_timestamp it = t \<and> metadata_map_index (pi_type it) = Some k) items"

definition times_of :: "metadata_peb_item list \<Rightarrow> u64 set" where
  "times_of items = set (map pi_volume_timestamp items)"

definition point_repr :: "metadata_peb_item list \<Rightarrow> creation_point \<Rightarrow> bool" where
  "point_repr items p \<longleftrightarrow> length (cp_metadata_map p) = 8 \<and>
     (\<forall>k < 8. map_repr (cp_metadata_map p ! k) (items_of (cp_timestamp p) k items)) \<and>
     (cp_timestamp p \<in> times_of items \<longrightarrow> cp_found_metadata p AND SSDFS_FSCK_METADATA_PEB_MAP_PREPARED \<noteq> 0)"

text \<open>\<open>base\<close> holds the times of the points that were there before the items.\<close>

definition array_repr :: "u64 set \<Rightarrow> metadata_peb_item list \<Rightarrow> creation_array \<Rightarrow> bool" where
  "array_repr base items a \<longleftrightarrow>
     ca_state a \<noteq> ARRAY_NOT_INITIALIZED \<and> ca_count a = int (length (ca_points a)) \<and> ca_points a \<noteq> [] \<and>
     (ca_state a = ARRAY_USE_BUFFER \<longrightarrow> length (ca_points a) = 1) \<and> U64_MAX \<notin> base \<union> times_of items \<and>
     (\<forall>p \<in> set (ca_points a). point_repr items p) \<and>
     (if base \<union> times_of items = {} then ca_state a = ARRAY_USE_BUFFER \<and> cp_timestamp (hd (ca_points a)) = U64_MAX
      else sorted_wrt (<) (map cp_timestamp (ca_points a)) \<and> cp_timestamp ` set (ca_points a) = base \<union> times_of items)"

lemma times_of_simps [simp]:
  "times_of [] = {}" "times_of (xs @ [x]) = insert (pi_volume_timestamp x) (times_of xs)"
  "times_of (x # xs) = insert (pi_volume_timestamp x) (times_of xs)"
  by (auto simp: times_of_def)

lemma new_point_fields:
  "cp_timestamp (new_point t p) = t" "cp_metadata_map (new_point t p) = map (\<lambda>m. empty_map) (cp_metadata_map p)"
  by (simp_all add: new_point_def initial_point)

lemma new_point_repr:
  assumes "length (cp_metadata_map p) = 8" and "t \<notin> times_of items"
  shows "point_repr items (new_point t p)"
proof -
  have "items_of t k items = []" for k using assms(2) by (auto simp: items_of_def times_of_def filter_empty_conv)
  then show ?thesis using assms by (simp add: point_repr_def new_point_fields map_repr_empty)
qed

lemma insert_point_repr:
  assumes "sorted_wrt (<) (map cp_timestamp pts)" and "t \<notin> cp_timestamp ` set pts" and "t \<notin> times_of items"
    and "\<forall>p \<in> set pts. point_repr items p" and "length (cp_metadata_map x) = 8"
  shows "sorted_wrt (<) (map cp_timestamp (insert_point t (length pts) (pts @ [x])))"
    and "set (map cp_timestamp (insert_point t (length pts) (pts @ [x]))) = insert t (cp_timestamp ` set pts)"
    and "\<forall>p \<in> set (insert_point t (length pts) (pts @ [x])). point_repr items p"
    and "length (insert_point t (length pts) (pts @ [x])) = Suc (length pts)"
proof -
  define xs where "xs = takeWhile (\<lambda>q. cp_timestamp q < t) pts"
  define ys where "ys = dropWhile (\<lambda>q. cp_timestamp q < t) pts"
  have pts: "pts = xs @ ys" by (simp add: xs_def ys_def)
  have xs: "\<forall>q \<in> set xs. cp_timestamp q < t" by (auto simp: xs_def dest: set_takeWhileD)
  have hd: "t < cp_timestamp (hd ys)" if "ys \<noteq> []"
  proof -
    have "\<not> cp_timestamp (hd ys) < t" using that hd_dropWhile[of "\<lambda>q. cp_timestamp q < t" pts] by (simp add: ys_def)
    moreover have "cp_timestamp (hd ys) \<noteq> t" using that assms(2) by (auto simp: pts)
    ultimately show ?thesis by simp
  qed
  have ys: "\<forall>q \<in> set ys. t < cp_timestamp q"
  proof (cases ys)
    case (Cons y zs)
    then have "\<forall>q \<in> set zs. cp_timestamp y < cp_timestamp q" using assms(1) by (simp add: pts sorted_wrt_append)
    then show ?thesis using hd Cons by (auto intro: less_trans)
  qed simp
  have ins: "insert_point t (length pts) (pts @ [x]) = xs @ new_point t (hd (ys @ [x])) # ys"
  proof -
    have "\<forall>q \<in> set xs. \<not> t < cp_timestamp q" using xs by auto
    moreover have "ys = [] \<or> t < cp_timestamp (hd ys)" using hd by blast
    ultimately show ?thesis unfolding pts using insert_point_split[of xs t ys x] by simp
  qed
  have "length (cp_metadata_map (hd (ys @ [x]))) = 8"
    using assms(4,5) by (cases ys) (auto simp: pts point_repr_def)
  note new = new_point_repr[OF this assms(3)]
  show "sorted_wrt (<) (map cp_timestamp (insert_point t (length pts) (pts @ [x])))"
    using assms(1) xs ys unfolding ins by (auto simp: pts sorted_wrt_append new_point_fields)
  show "set (map cp_timestamp (insert_point t (length pts) (pts @ [x]))) = insert t (cp_timestamp ` set pts)"
    unfolding ins by (auto simp: pts new_point_fields)
  show "\<forall>p \<in> set (insert_point t (length pts) (pts @ [x])). point_repr items p"
    using assms(4) new unfolding ins by (auto simp: pts)
  show "length (insert_point t (length pts) (pts @ [x])) = Suc (length pts)" unfolding ins by (simp add: pts)
qed

lemma add_point_repr:
  assumes repr: "array_repr base items a" and new: "t \<notin> base \<union> times_of items" "t \<noteq> U64_MAX"
    and alloc: "\<And>i n. fw_alloc w i n" and fresh: "length (cp_metadata_map (fw_fresh_point w)) = 8"
  shows "\<exists>a'. add_creation_point w a t = Inr (True, a') \<and> array_repr (insert t base) items a'"
proof -
  let ?pts = "ca_points a"
  have r: "ca_count a = int (length ?pts)" "?pts \<noteq> []" "U64_MAX \<notin> base \<union> times_of items" "\<forall>p \<in> set ?pts. point_repr items p"
    using repr by (auto simp: array_repr_def)
  have t: "t \<notin> times_of items" using new by blast
  have max: "U64_MAX \<le> x \<longleftrightarrow> x = U64_MAX" for x :: u64 by (metis word_order.extremum_unique)
  show ?thesis
  proof (cases "base \<union> times_of items = {}")
    case True
    then have b: "ca_state a = ARRAY_USE_BUFFER" "cp_timestamp (hd ?pts) = U64_MAX" "length ?pts = 1"
      using repr by (auto simp: array_repr_def)
    then obtain p where p: "?pts = [p]" by (metis One_nat_def length_0_conv length_Suc_conv)
    have "length (cp_metadata_map p) = 8" using r(4) p by (simp add: point_repr_def)
    then have "point_repr items (new_point t p)" using new_point_repr t by blast
    then show ?thesis
      using True b p r new(2) by (auto simp: add_creation_point_def array_repr_def nth_chk_def new_point_fields)
  next
    case False
    then have s: "sorted_wrt (<) (map cp_timestamp ?pts)" "cp_timestamp ` set ?pts = base \<union> times_of items"
      using repr by (auto simp: array_repr_def)
    have t': "t \<notin> cp_timestamp ` set ?pts" using s(2) new(1) by simp
    note ins = insert_point_repr[OF s(1) t' t r(4)]
    have step: "array_repr (insert t base) items (a\<lparr>ca_points := insert_point t (length ?pts) (?pts @ [x]),
        ca_state := ARRAY_ALLOCATED, ca_count := ca_count a + 1\<rparr>)" if "length (cp_metadata_map x) = 8" for x
    proof -
      define new_pts where "new_pts = insert_point t (length ?pts) (?pts @ [x])"
      note ins = ins[OF that, folded new_pts_def]
      have times: "cp_timestamp ` set new_pts = insert t base \<union> times_of items" using ins(2) s(2) by simp
      have "new_pts \<noteq> []" using ins(4) by auto
      moreover have "U64_MAX \<notin> insert t base \<union> times_of items" using r(3) new(2) by auto
      moreover have "insert t base \<union> times_of items \<noteq> {}" by simp
      moreover have "ca_count a + 1 = int (length new_pts)" using r(1) ins(4) by simp
      ultimately show ?thesis
        using ins(1,3) times unfolding new_pts_def[symmetric] array_repr_def
        by (simp only: if_False simp_thms) simp
    qed
    have z: "length (cp_metadata_map (init_creation_point zero_point)) = 8"
      "length (cp_metadata_map (init_creation_point (fw_fresh_point w))) = 8"
      using fresh by (simp_all add: initial_point)
    show ?thesis
    proof (cases "ca_state a")
      case ARRAY_NOT_INITIALIZED
      then show ?thesis using repr by (simp add: array_repr_def)
    next
      case ARRAY_USE_BUFFER
      then have "length ?pts = 1" using repr by (simp add: array_repr_def)
      then obtain p where p: "?pts = [p]" by (metis One_nat_def length_0_conv length_Suc_conv)
      then have "cp_timestamp p \<in> base \<union> times_of items" unfolding s(2)[symmetric] by simp
      with r(3) have "cp_timestamp p \<noteq> U64_MAX" by metis
      then have "add_creation_point w a t = Inr (True, a\<lparr>ca_points := insert_point t (length ?pts) (?pts @ [init_creation_point zero_point]),
          ca_state := ARRAY_ALLOCATED, ca_count := ca_count a + 1\<rparr>)"
        using p r(1) alloc ARRAY_USE_BUFFER max by (simp add: add_creation_point_def nth_chk_def upd_chk_def numeral_2_eq_2)
      with step[OF z(1)] show ?thesis by blast
    next
      case ARRAY_ALLOCATED
      then have "add_creation_point w a t = Inr (True, a\<lparr>ca_points := insert_point t (length ?pts) (?pts @ [init_creation_point (fw_fresh_point w)]),
          ca_state := ARRAY_ALLOCATED, ca_count := ca_count a + 1\<rparr>)"
        using r(1,2) alloc by (cases a) (simp add: add_creation_point_def Let_def)
      with step[OF z(2)] show ?thesis by blast
    qed
  qed
qed

lemma items_of_snoc:
  "items_of t k (xs @ [x]) = items_of t k xs @ (if pi_volume_timestamp x = t \<and> metadata_map_index (pi_type x) = Some k then [x] else [])"
  by (simp add: items_of_def)

lemma point_repr_snoc_other:
  "point_repr items p \<Longrightarrow> cp_timestamp p \<noteq> pi_volume_timestamp item \<Longrightarrow> point_repr (items @ [item]) p"
  by (auto simp: point_repr_def items_of_snoc)

lemma metadata_map_index_less: "metadata_map_index ty = Some k \<Longrightarrow> k < 8"
  by (auto simp: metadata_map_index_def split: if_splits)

lemma point_repr_snoc:
  assumes "point_repr items p" and "cp_timestamp p = pi_volume_timestamp item" and "metadata_map_index (pi_type item) = Some k"
    and "map_repr m (items_of (cp_timestamp p) k items @ [item])"
  shows "point_repr (items @ [item]) (p\<lparr>cp_metadata_map := (cp_metadata_map p)[k := m],
    cp_found_metadata := cp_found_metadata p OR SSDFS_FSCK_METADATA_PEB_MAP_PREPARED\<rparr>)"
proof -
  have "(x OR y) AND y = y" for x y :: u64 by (rule bit_word_eqI) (auto simp: bit_simps)
  then have "(cp_found_metadata p OR 32) AND 32 \<noteq> 0" by simp
  then show ?thesis
    using assms metadata_map_index_less[OF assms(3)] by (auto simp: point_repr_def items_of_snoc nth_list_update)
qed

lemma find_point:
  assumes "array_repr base items a" and "base \<union> times_of items \<noteq> {}" and "t \<in> base \<union> times_of items"
  shows "\<exists>k. find_creation_point a t = Some k \<and> k < length (ca_points a) \<and> cp_timestamp (ca_points a ! k) = t \<and>
    (\<forall>j < length (ca_points a). j \<noteq> k \<longrightarrow> cp_timestamp (ca_points a ! j) \<noteq> t)"
proof -
  let ?pts = "ca_points a"
  have s: "sorted_wrt (<) (map cp_timestamp ?pts)" "cp_timestamp ` set ?pts = base \<union> times_of items"
    "ca_state a \<noteq> ARRAY_NOT_INITIALIZED" "ca_count a = int (length ?pts)"
    using assms(1,2) by (auto simp: array_repr_def)
  have eq: "find_creation_point a t = index_where (\<lambda>p. cp_timestamp p = t) ?pts"
    using s(3,4) by (simp add: find_creation_point_def)
  have "t \<in> cp_timestamp ` set ?pts" unfolding s(2) by (rule assms(3))
  then have "index_where (\<lambda>p. cp_timestamp p = t) ?pts \<noteq> None" by (auto simp: index_where_None)
  then obtain k where k: "index_where (\<lambda>p. cp_timestamp p = t) ?pts = Some k" by blast
  have d: "distinct (map cp_timestamp ?pts)" using s(1) by (simp add: strict_sorted_iff)
  note kk = index_where_SomeD[OF k]
  have "cp_timestamp (?pts ! j) \<noteq> t" if "j < length ?pts" "j \<noteq> k" for j
    using nth_eq_iff_index_eq[OF d, of j k] kk that by simp
  then show ?thesis using eq k kk by (intro exI[of _ k]) simp
qed

lemma fill_point_repr:
  assumes repr: "array_repr base items a" and t: "pi_volume_timestamp item \<in> base"
    and ty: "metadata_map_index (pi_type item) = Some k" and "length items < 2 ^ 29" and alloc: "\<And>i n. fw_alloc w i n"
  shows "\<exists>a'. process_metadata_map_item w item a = Inr (True, a') \<and> array_repr base (items @ [item]) a'"
proof -
  let ?t = "pi_volume_timestamp item" and ?pts = "ca_points a"
  obtain i where i: "find_creation_point a ?t = Some i" "i < length ?pts" "cp_timestamp (?pts ! i) = ?t"
    "\<forall>j < length ?pts. j \<noteq> i \<longrightarrow> cp_timestamp (?pts ! j) \<noteq> ?t"
    using find_point[OF repr, of ?t] t by blast
  define p where "p = ?pts ! i"
  have p: "point_repr items p" using repr i(2) by (simp add: array_repr_def p_def)
  have "length (items_of ?t k items) \<le> length items" by (simp add: items_of_def)
  then have "length (items_of ?t k items) < 2 ^ 29" using assms(4) by linarith
  moreover have "map_repr (cp_metadata_map p ! k) (items_of ?t k items)"
    using p metadata_map_index_less[OF ty] i(3) by (simp add: point_repr_def p_def)
  ultimately obtain m where m: "map_append w item (cp_metadata_map p ! k) = Inr (True, m)" "map_repr m (items_of ?t k items @ [item])"
    using map_append_repr[where w = w and item = item, OF _ _ alloc] by blast
  define q where "q = p\<lparr>cp_metadata_map := (cp_metadata_map p)[k := m],
    cp_found_metadata := cp_found_metadata p OR SSDFS_FSCK_METADATA_PEB_MAP_PREPARED\<rparr>"
  have tq: "cp_timestamp q = cp_timestamp p" by (simp add: q_def)
  have q: "point_repr (items @ [item]) q"
    using point_repr_snoc[OF p _ ty, of m] m(2) i(3) by (simp add: q_def p_def)
  have run: "process_metadata_map_item w item a = Inr (True, a\<lparr>ca_points := ?pts[i := q]\<rparr>)"
    using i(1) ty m(1) p metadata_map_index_less[OF ty]
    by (simp add: process_metadata_map_item_def Let_def p_def[symmetric] q_def nth_chk_def point_repr_def)
  have times: "map cp_timestamp (?pts[i := q]) = map cp_timestamp ?pts"
    using i(2) tq by (simp add: map_update p_def) (metis length_map list_update_id nth_map)
  have "point_repr (items @ [item]) (?pts[i := q] ! j)" if "j < length ?pts" for j
  proof (cases "j = i")
    case False
    have "point_repr items (?pts ! j)" using repr that by (simp add: array_repr_def)
    then show ?thesis using False that i(4) by (simp add: point_repr_snoc_other)
  qed (use q that in simp)
  then have all: "\<forall>x \<in> set (?pts[i := q]). point_repr (items @ [item]) x" by (simp add: all_set_conv_all_nth)
  have un: "base \<union> times_of (items @ [item]) = base \<union> times_of items" using t by auto
  have "base \<union> times_of items \<noteq> {}" using t by blast
  note rr = repr[unfolded array_repr_def if_not_P[OF this]]
  then have s: "ca_state a \<noteq> ARRAY_NOT_INITIALIZED" "ca_count a = int (length ?pts)" "?pts \<noteq> []"
    "ca_state a = ARRAY_USE_BUFFER \<longrightarrow> length ?pts = 1" "U64_MAX \<notin> base \<union> times_of items"
    "sorted_wrt (<) (map cp_timestamp ?pts)" "set (map cp_timestamp ?pts) = base \<union> times_of items"
    unfolding set_map by blast+
  have "array_repr base (items @ [item]) (a\<lparr>ca_points := ?pts[i := q]\<rparr>)"
    unfolding array_repr_def un if_not_P[OF \<open>base \<union> times_of items \<noteq> {}\<close>] set_map[symmetric]
    using s all times by simp
  with run show ?thesis by blast
qed

lemma process_item_repr:
  assumes repr: "array_repr base items a" and ts: "pi_volume_timestamp item \<noteq> U64_MAX"
    and ty: "metadata_map_index (pi_type item) \<noteq> None" and len: "length items < 2 ^ 29" and alloc: "\<And>i n. fw_alloc w i n"
    and fresh: "length (cp_metadata_map (fw_fresh_point w)) = 8"
  shows "\<exists>a'. process_metadata_map_item w item a = Inr (True, a') \<and> array_repr base (items @ [item]) a'"
proof -
  let ?t = "pi_volume_timestamp item"
  obtain k where k: "metadata_map_index (pi_type item) = Some k" using ty by blast
  have same: "array_repr (insert ?t base) (items @ [item]) = array_repr base (items @ [item])"
    by (rule ext) (simp add: array_repr_def)
  have known: "\<exists>a'. process_metadata_map_item w item b = Inr (True, a') \<and> array_repr base (items @ [item]) a'"
    if "array_repr (insert ?t base) items b" for b
    using fill_point_repr[where w = w, OF that _ k len alloc] same by simp
  show ?thesis
  proof (cases "?t \<in> base \<union> times_of items")
    case True
    have "array_repr (insert ?t base) items a = array_repr base items a" using True by (simp add: array_repr_def insert_absorb)
    then show ?thesis using known repr by simp
  next
    case False
    obtain b where b: "add_creation_point w a ?t = Inr (True, b)" "array_repr (insert ?t base) items b"
      using add_point_repr[where w = w, OF repr False ts alloc fresh] by blast
    obtain a' where a': "process_metadata_map_item w item b = Inr (True, a')" "array_repr base (items @ [item]) a'"
      using known[OF b(2)] by blast
    obtain c where "find_creation_point b ?t = Some c" using find_point[OF b(2), of ?t] by auto
    moreover have "find_creation_point a ?t = None"
    proof -
      have "?t \<notin> cp_timestamp ` set (ca_points a)"
      proof (cases "base \<union> times_of items = {}")
        case True
        then have "length (ca_points a) = 1" "cp_timestamp (hd (ca_points a)) = U64_MAX" using repr by (auto simp: array_repr_def)
        then show ?thesis using ts by (cases "ca_points a") auto
      next
        case nonempty: False
        then have "cp_timestamp ` set (ca_points a) = base \<union> times_of items" using repr by (simp add: array_repr_def)
        with False show ?thesis by metis
      qed
      then have "index_where (\<lambda>p. cp_timestamp p = ?t) (ca_points a) = None"
        unfolding index_where_None by (metis image_eqI)
      then show ?thesis using repr by (simp add: array_repr_def find_creation_point_def)
    qed
    ultimately have "process_metadata_map_item w item a = process_metadata_map_item w item b"
      using b(1) by (simp add: process_metadata_map_item_def Let_def)
    with a' show ?thesis by simp
  qed
qed

section \<open>The search of the whole volume\<close>

lemma process_items_repr:
  assumes "array_repr base done a" and "\<forall>it \<in> set items. pi_volume_timestamp it \<noteq> U64_MAX \<and> metadata_map_index (pi_type it) \<noteq> None"
    and "length done + length items < 2 ^ 29" and alloc: "\<And>i n. fw_alloc w i n"
    and fresh: "length (cp_metadata_map (fw_fresh_point w)) = 8"
  shows "\<exists>a'. process_items w items a = Inr (True, a') \<and> array_repr base (done @ items) a'"
  using assms(1-3)
proof (induction items arbitrary: "done" a)
  case (Cons it items)
  obtain b where b: "process_metadata_map_item w it a = Inr (True, b)" "array_repr base (done @ [it]) b"
    using process_item_repr[where w = w and item = it, OF Cons.prems(1) _ _ _ alloc fresh] Cons.prems(2,3) by auto
  then show ?case using Cons.IH[OF b(2)] Cons.prems by simp
qed simp

lemma process_items_append:
  "process_items w (xs @ ys) a =
     bnd (process_items w xs a) (\<lambda>(ok, a). if ok then process_items w ys a else Inr (False, a))"
  by (induction xs arbitrary: a) (auto simp: bnd_def split: sum.splits option.splits)

lemma process_thread_map:
  assumes "map_repr m xs"
  shows "process_thread_metadata_map w m a = process_items w xs a"
proof (cases "mm_array m")
  case None
  then show ?thesis using assms by (simp add: map_repr_def process_thread_metadata_map_def)
next
  case (Some arr)
  then have r: "mm_count m = int (length xs)" "take (length xs) arr = xs" using assms by (simp_all add: map_repr_def)
  then have "\<not> length arr < length xs" by (metis length_take min_less_iff_conj less_irrefl)
  with Some r show ?thesis by (cases "xs = []") (simp_all add: process_thread_metadata_map_def deref_def)
qed

lemma process_thread_maps_items:
  "list_all2 map_repr ms xss \<Longrightarrow> process_thread_maps w ms a = process_items w (concat xss) a"
proof (induction arbitrary: a rule: list_all2_induct)
  case (Cons m ms xs xss)
  have "process_thread_maps w ms = process_items w (concat xss)" by (rule ext) (rule Cons.IH)
  with Cons.hyps show ?case by (simp add: process_thread_map process_items_append cong: if_cong)
qed simp

text \<open>What a readable first header contributes.\<close>

definition found_items :: "u64 \<Rightarrow> buf \<Rightarrow> metadata_peb_item list" where
  "found_items peb_id hdr =
     (if is_ssdfs_segment_header hdr
      then (case metadata_peb_type (get16 hdr 0x412) of None \<Rightarrow> [] | Some ty \<Rightarrow> [peb_item peb_id hdr ty]) else [])"

lemma metadata_types: "metadata_peb_type seg_type = Some ty \<Longrightarrow> metadata_map_index ty \<noteq> None"
  unfolding metadata_peb_type_def by (simp split: if_split_asm) (auto simp: metadata_map_index_def)

lemma found_items_type:
  assumes "it \<in> set (found_items peb hdr)"
  shows "metadata_map_index (pi_type it) \<noteq> None"
proof (cases "metadata_peb_type (get16 hdr 0x412)")
  case None
  then have "found_items peb hdr = []" by (simp add: found_items_def)
  with assms show ?thesis by simp
next
  case (Some ty)
  have "found_items peb hdr = (if is_ssdfs_segment_header hdr then [peb_item peb hdr ty] else [])"
    unfolding found_items_def Some option.case ..
  then have "set (found_items peb hdr) \<subseteq> {peb_item peb hdr ty}" by (metis empty_subsetI list.set order_refl)
  with assms have "it = peb_item peb hdr ty" by blast
  then have "pi_type it = ty" by (simp add: peb_item_def)
  with metadata_types[OF Some] show ?thesis by simp
qed

lemma length_found_items: "length (found_items peb hdr) \<le> 1"
  by (auto simp: found_items_def split: option.splits)

lemma process_peb_repr:
  assumes "map_repr m xs" and "length xs < 2 ^ 29" and "\<And>i n. fw_alloc w i n"
    and "ssdfs_read_segment_header (fw_rd w) peb peb_size 0 2048 = Inr hdr" and "length hdr = 2048"
  shows "\<exists>m'. fsck_process_peb w peb_size peb m = Inr m' \<and> map_repr m' (xs @ found_items peb hdr)"
proof -
  have read: "read_into (stack_struct w) (ssdfs_read_segment_header (fw_rd w) peb peb_size 0 2048) = Inr (Some hdr)"
    using assms(4,5) by (simp add: read_into_2048)
  show ?thesis
  proof (cases "is_ssdfs_segment_header hdr \<and> metadata_peb_type (get16 hdr 0x412) \<noteq> None")
    case True
    then obtain ty where ty: "metadata_peb_type (get16 hdr 0x412) = Some ty" by blast
    obtain m' where "map_append w (peb_item peb hdr ty) m = Inr (True, m')" "map_repr m' (xs @ [peb_item peb hdr ty])"
      using map_append_repr[where w = w, OF assms(1-3)] by blast
    then show ?thesis using True ty by (simp add: fsck_process_peb_def read found_items_def)
  next
    case False
    then show ?thesis using assms(1) by (auto simp: fsck_process_peb_def read found_items_def split: option.splits)
  qed
qed

lemma length_concat_found:
  "length (concat (map (\<lambda>peb. found_items (f peb) (H peb)) pebs)) \<le> length pebs"
proof (induction pebs)
  case (Cons peb pebs)
  then show ?case using length_found_items[of "f peb" "H peb"] by simp
qed simp

text \<open>A header function \<open>H\<close> tells what the first page of every PEB holds.\<close>

definition headers_readable :: "'s fsck_world \<Rightarrow> u32 \<Rightarrow> (u64 \<Rightarrow> buf) \<Rightarrow> u64 list \<Rightarrow> bool" where
  "headers_readable w peb_size H pebs \<longleftrightarrow>
     (\<forall>peb \<in> set pebs. ssdfs_read_segment_header (fw_rd w) peb peb_size 0 2048 = Inr (H peb) \<and> length (H peb) = 2048)"

definition volume_items :: "(u64 \<Rightarrow> buf) \<Rightarrow> u64 list \<Rightarrow> metadata_peb_item list" where
  "volume_items H pebs = concat (map (\<lambda>peb. found_items peb (H peb)) pebs)"

lemma volume_items_append: "volume_items H (xs @ ys) = volume_items H xs @ volume_items H ys"
  by (simp add: volume_items_def)

lemma length_volume_items: "length (volume_items H pebs) \<le> length pebs"
  unfolding volume_items_def by (rule length_concat_found[of "\<lambda>p. p"])

lemma volume_items_type: "\<forall>it \<in> set (volume_items H pebs). metadata_map_index (pi_type it) \<noteq> None"
  unfolding volume_items_def using found_items_type by fastforce

lemma process_pebs_repr:
  assumes "headers_readable w peb_size H pebs" and "\<And>i n. fw_alloc w i n" and "map_repr m xs" and "length xs + length pebs < 2 ^ 29"
  shows "\<exists>m'. fold_res (fsck_process_peb w peb_size) pebs m = Inr m' \<and> map_repr m' (xs @ volume_items H pebs)"
  using assms(1,3,4)
proof (induction pebs arbitrary: m xs)
  case Nil
  then show ?case by (simp add: volume_items_def)
next
  case (Cons peb pebs)
  have hdr: "ssdfs_read_segment_header (fw_rd w) peb peb_size 0 2048 = Inr (H peb)" "length (H peb) = 2048"
    using Cons.prems(1) by (simp_all add: headers_readable_def)
  have "length xs < 2 ^ 29" using Cons.prems(3) by simp
  then obtain m' where m': "fsck_process_peb w peb_size peb m = Inr m'" "map_repr m' (xs @ found_items peb (H peb))"
    using process_peb_repr[where w = w, OF Cons.prems(2) _ assms(2) hdr] by blast
  have "headers_readable w peb_size H pebs" using Cons.prems(1) by (simp add: headers_readable_def)
  moreover have "length (xs @ found_items peb (H peb)) + length pebs < 2 ^ 29"
    using Cons.prems(3) length_found_items[of peb "H peb"] by simp
  ultimately obtain m'' where "fold_res (fsck_process_peb w peb_size) pebs m' = Inr m''"
    "map_repr m'' ((xs @ found_items peb (H peb)) @ volume_items H pebs)"
    using Cons.IH[OF _ m'(2)] by blast
  then show ?case using m'(1) by (auto simp: volume_items_def)
qed

lemma run_threads_repr:
  assumes "\<And>i n. fw_alloc w i n" and "\<forall>r \<in> set rs. headers_readable w peb_size H (fsck_thread_pebs r)"
    and "\<forall>r \<in> set rs. length (fsck_thread_pebs r) < 2 ^ 29"
  shows "\<exists>ms. run_fsck_threads w peb_size rs = Inr ms \<and> list_all2 map_repr ms (map (volume_items H \<circ> fsck_thread_pebs) rs)"
  using assms(2,3)
proof (induction rs)
  case (Cons r rs)
  then obtain m where "fsck_process_peb_range w peb_size r = Inr m" "map_repr m (volume_items H (fsck_thread_pebs r))"
    using process_pebs_repr[OF _ assms(1) map_repr_empty, of peb_size H "fsck_thread_pebs r"]
    by (auto simp: fsck_process_peb_range_def)
  then show ?case using Cons by auto
qed simp

lemma concat_volume_items: "concat (map (volume_items H \<circ> g) rs) = volume_items H (concat (map g rs))"
  by (induction rs) (simp_all add: volume_items_append, simp add: volume_items_def)

lemma array_repr_start:
  assumes "cp_metadata_map p = replicate 8 empty_map"
  shows "array_repr (if cp_timestamp p = U64_MAX then {} else {cp_timestamp p}) []
    \<lparr>ca_state = ARRAY_USE_BUFFER, ca_count = 1, ca_points = [p]\<rparr>"
  using assms by (simp add: array_repr_def point_repr_def items_of_def map_repr_empty)

lemma execute_search_repr:
  assumes alloc: "\<And>i n. fw_alloc w i n" and threads: "\<And>i. fw_thread w i"
    and fresh: "length (cp_metadata_map (fw_fresh_point w)) = 8"
    and size: "p = unat (fs_size (fe_base env) div ucast (erase_size (fe_base env)))" "erase_size (fe_base env) \<noteq> 0"
    and t: "t = unat (fe_threads env)" "0 < t" "p + t < 2 ^ 29" "(t - 1) * ((p + t - 1) div t) \<le> p"
    and read: "headers_readable w (erase_size (fe_base env)) H (map of_nat [0..<p])"
    and start: "fe_array env = \<lparr>ca_state = ARRAY_USE_BUFFER, ca_count = 1, ca_points = [q]\<rparr>" "cp_metadata_map q = replicate 8 empty_map"
    and times: "U64_MAX \<notin> times_of (volume_items H (map of_nat [0..<p]))"
  shows "\<exists>a. execute_whole_volume_search w env = Inr (SEARCH_SUCCESS, env\<lparr>fe_array := a\<rparr>) \<and>
    array_repr (if cp_timestamp q = U64_MAX then {} else {cp_timestamp q}) (volume_items H (map of_nat [0..<p])) a"
proof -
  define n where "n = fs_size (fe_base env) div ucast (erase_size (fe_base env))"
  define share where "share = (of_nat p + of_nat t - 1) div (of_nat t :: u64)"
  define rs where "rs = map (\<lambda>i. fsck_peb_environment i share n) [0..<t]"
  let ?pebs = "map of_nat [0..<p] :: u64 list"
  have n: "n = of_nat p" by (simp add: n_def size(1))
  have ct: "(ucast (fe_threads env) :: u64) = of_nat t" by (simp add: t(1))
  have E: "(ucast (erase_size (fe_base env)) :: u64) \<noteq> 0"
  proof
    assume "(ucast (erase_size (fe_base env)) :: u64) = 0"
    then have "unat (ucast (erase_size (fe_base env)) :: u64) = 0" by simp
    then show False using size(2) by (simp add: unat_ucast_up unat_eq_0)
  qed
  have "unat (of_nat t :: u64) = t" using t(3) by (simp add: unat_of_nat)
  then have tn: "(of_nat t :: u64) \<noteq> 0" using t(2) by auto
  have "concat (map (\<lambda>i. map unat (fsck_thread_pebs (fsck_peb_environment i share (of_nat p)))) [0..<t]) = [0..<p]"
    unfolding share_def using threads_read_volume_iff[of t p] t by simp
  then have "map unat (concat (map fsck_thread_pebs rs)) = [0..<p]"
    by (simp add: rs_def n map_concat comp_def)
  then have "map of_nat (map unat (concat (map fsck_thread_pebs rs))) = ?pebs" by simp
  then have pebs: "concat (map fsck_thread_pebs rs) = ?pebs" by (simp only: map_map comp_def of_nat_unat ucast_id map_ident)
  have sub: "set (fsck_thread_pebs r) \<subseteq> set ?pebs" if "r \<in> set rs" for r
    unfolding pebs[symmetric] using that by auto
  have len: "length (fsck_thread_pebs r) < 2 ^ 29" if "r \<in> set rs" for r
  proof -
    have "length (fsck_thread_pebs r) \<le> length (concat (map fsck_thread_pebs rs))"
      using that by (induction rs) auto
    then show ?thesis using t(3) by (simp add: pebs)
  qed
  obtain ms where ms: "run_fsck_threads w (erase_size (fe_base env)) rs = Inr ms"
    "list_all2 map_repr ms (map (volume_items H \<circ> fsck_thread_pebs) rs)"
    using run_threads_repr[where w = w and rs = rs and H = H, OF alloc] read sub len unfolding headers_readable_def by blast
  have items: "process_thread_maps w ms a = process_items w (volume_items H ?pebs) a" for a
    unfolding process_thread_maps_items[OF ms(2)] concat_volume_items pebs ..
  have "\<forall>it \<in> set (volume_items H ?pebs). pi_volume_timestamp it \<noteq> U64_MAX \<and> metadata_map_index (pi_type it) \<noteq> None"
    using times volume_items_type[of H ?pebs] unfolding times_of_def by (metis image_eqI set_map)
  moreover have "length ([] :: metadata_peb_item list) + length (volume_items H ?pebs) < 2 ^ 29"
    using length_volume_items[of H ?pebs] t(3) by simp
  ultimately obtain a where "process_items w (volume_items H ?pebs) (fe_array env) = Inr (True, a)"
    "array_repr (if cp_timestamp q = U64_MAX then {} else {cp_timestamp q}) ([] @ volume_items H ?pebs) a"
    unfolding start(1) using process_items_repr[where w = w, OF array_repr_start[OF start(2)] _ _ alloc fresh] by blast
  moreover from this have "execute_whole_volume_search w env = Inr (SEARCH_SUCCESS, env\<lparr>fe_array := a\<rparr>)"
    using ms(1) items E tn alloc threads
    by (simp add: execute_whole_volume_search_def Let_def div_chk_def ct n_def[symmetric] n share_def[symmetric]
        rs_def[unfolded n, symmetric] t(1)[symmetric])
  ultimately show ?thesis by auto
qed

section \<open>The result\<close>

text \<open>The specification: the items grouped by time and type, the times in increasing order.\<close>

definition creation_groups :: "metadata_peb_item list \<Rightarrow> (u64 \<times> metadata_peb_item list list) list" where
  "creation_groups items =
     map (\<lambda>t. (t, map (\<lambda>k. items_of t k items) [0..<8])) (sorted_list_of_set (times_of items))"

definition array_groups :: "creation_array \<Rightarrow> (u64 \<times> metadata_peb_item list list) list" where
  "array_groups a = map (\<lambda>p. (cp_timestamp p, map map_items (cp_metadata_map p))) (ca_points a)"

lemma array_repr_groups:
  assumes repr: "array_repr base items a" and "base \<subseteq> times_of items" and "items \<noteq> []"
  shows "array_groups a = creation_groups items"
proof -
  have un: "base \<union> times_of items = times_of items" using assms(2) by blast
  have ne: "times_of items \<noteq> {}" using assms(3) by (simp add: times_of_def)
  have s: "sorted_wrt (<) (map cp_timestamp (ca_points a))" "set (map cp_timestamp (ca_points a)) = times_of items"
    using repr ne unfolding array_repr_def un by (simp_all add: un)
  have fin: "finite (times_of items)" by (simp add: times_of_def)
  have times: "map cp_timestamp (ca_points a) = sorted_list_of_set (times_of items)"
    using s fin by (intro strict_sorted_equal) (simp_all only: set_sorted_list_of_set strict_sorted_list_of_set)
  have maps: "map map_items (cp_metadata_map p) = map (\<lambda>k. items_of (cp_timestamp p) k items) [0..<8]" if "p \<in> set (ca_points a)" for p
  proof -
    have "point_repr items p" using repr that by (simp add: array_repr_def)
    then have "length (cp_metadata_map p) = 8" and "\<And>k. k < 8 \<Longrightarrow> map_items (cp_metadata_map p ! k) = items_of (cp_timestamp p) k items"
      using map_repr_items by (auto simp: point_repr_def)
    then show ?thesis by (intro nth_equalityI) simp_all
  qed
  have "array_groups a = map (\<lambda>p. (cp_timestamp p, map (\<lambda>k. items_of (cp_timestamp p) k items) [0..<8])) (ca_points a)"
    unfolding array_groups_def using maps by simp
  also have "\<dots> = map (\<lambda>t. (t, map (\<lambda>k. items_of t k items) [0..<8])) (map cp_timestamp (ca_points a))" by simp
  finally show ?thesis unfolding creation_groups_def times .
qed

lemma array_repr_result:
  assumes repr: "array_repr base items a" and "base \<subseteq> times_of items" and "items \<noteq> []"
  shows "detection_result (env\<lparr>fe_array := a\<rparr>) = Inr (env\<lparr>fe_array := a, fe_state := DEVICE_HAS_SOME_METADATA\<rparr>)"
proof -
  let ?p = "last (ca_points a)"
  have un: "base \<union> times_of items = times_of items" using assms(2) by blast
  have ne: "times_of items \<noteq> {}" using assms(3) by (simp add: times_of_def)
  have r: "ca_count a = int (length (ca_points a))" "ca_points a \<noteq> []" "cp_timestamp ` set (ca_points a) = times_of items"
    "\<forall>p \<in> set (ca_points a). point_repr items p"
    using repr ne unfolding array_repr_def un by (simp_all add: un)
  have "cp_timestamp ?p \<in> times_of items" unfolding r(3)[symmetric] using r(2) by simp
  then have flag: "cp_found_metadata ?p AND 32 \<noteq> 0" using r(2,4) by (simp add: point_repr_def)
  have "cp_found_metadata ?p \<noteq> 0" using flag by auto
  moreover have "cp_found_metadata ?p \<noteq> 0x1F" using flag by auto
  moreover have "nat (ca_count a - 1) = length (ca_points a) - 1" using r(1) by simp
  moreover have "ca_points a ! (length (ca_points a) - 1) = ?p" using r(2) by (simp add: last_conv_nth)
  ultimately show ?thesis using r(1,2) by (simp add: detection_result_def nth_chk_def BUG_ON_def)
qed

text \<open>
  C7. The search of the whole volume orders the volumes that were ever created on the device. For a device whose PEBs
  can be read and ranges of the threads that cover the volume once, the creation points are the times of creation that the
  segment headers of the volume name, in increasing order, and the map of a type at a point holds exactly the PEBs
  with this type and time, in the order of the volume. Then the result of the detection is never a file system, but only
  some metadata: the flag of the prepared maps is not a part of the mask for critical metadata.
\<close>

theorem fsck_volume_search_groups:
  assumes "\<And>i n. fw_alloc w i n" and "\<And>i. fw_thread w i" and "length (cp_metadata_map (fw_fresh_point w)) = 8"
    and "p = unat (fs_size (fe_base env) div ucast (erase_size (fe_base env)))" and "erase_size (fe_base env) \<noteq> 0"
    and "t = unat (fe_threads env)" and "0 < t" and "p + t < 2 ^ 29" and "(t - 1) * ((p + t - 1) div t) \<le> p"
    and "headers_readable w (erase_size (fe_base env)) H (map of_nat [0..<p])"
    and "fe_array env = \<lparr>ca_state = ARRAY_USE_BUFFER, ca_count = 1, ca_points = [q]\<rparr>"
    and "cp_metadata_map q = replicate 8 empty_map"
    and "items = volume_items H (map of_nat [0..<p])" and "items \<noteq> []" and "U64_MAX \<notin> times_of items"
    and "cp_timestamp q \<in> insert U64_MAX (times_of items)"
  shows "\<exists>a. whole_volume_search w env = Inr (env\<lparr>fe_array := a, fe_state := DEVICE_HAS_SOME_METADATA\<rparr>) \<and>
    array_groups a = creation_groups items"
proof -
  let ?base = "if cp_timestamp q = U64_MAX then {} else {cp_timestamp q}"
  obtain a where a: "execute_whole_volume_search w env = Inr (SEARCH_SUCCESS, env\<lparr>fe_array := a\<rparr>)" "array_repr ?base items a"
    using execute_search_repr[OF assms(1-12) assms(15)[unfolded assms(13)]] unfolding assms(13) by blast
  have base: "?base \<subseteq> times_of items" using assms(16) by auto
  have "whole_volume_search w env = Inr (env\<lparr>fe_array := a, fe_state := DEVICE_HAS_SOME_METADATA\<rparr>)"
    using a(1) array_repr_result[OF a(2) base assms(14), of env] by (simp add: whole_volume_search_def)
  with array_repr_groups[OF a(2) base assms(14)] show ?thesis by blast
qed

text \<open>A volume of 16 PEBs: PEB 0 is from the time 77, PEB 9 holds a superblock log from the time 50.\<close>

definition sample_first_page :: "u64 \<Rightarrow> buf" where
  "sample_first_page peb =
     (if peb = 0 then sample_log_header 20
      else if peb = 9 then put64 (put16 (sample_log_header 20) 0x412 1) 0x18 50 else replicate 2048 0)"

definition sample_volume_dev :: dev_read where
  "sample_volume_dev offset len = Inr (sample_first_page (offset div 0x10000))"

theorem fsck_volume_search_groups_witness:
  "\<exists>a. whole_volume_search (sample_fsck_world sample_volume_dev) sample_fsck_env =
      Inr (sample_fsck_env\<lparr>fe_array := a, fe_state := DEVICE_HAS_SOME_METADATA\<rparr>) \<and> map fst (array_groups a) = [50, 77]"
proof -
  let ?w = "sample_fsck_world sample_volume_dev" and ?pebs = "map of_nat [0..<16] :: u64 list"
  let ?A = "sample_log_header 20" and ?B = "put64 (put16 (sample_log_header 20) 0x412 1) 0x18 50"
  have lenA: "length ?A = 2048" using sample_header_fields(1)[of 20 0] by (simp add: sample_page_def)
  have hdrA: "is_ssdfs_segment_header ?A" using sample_header_fields(2)[of 20 0] by (simp add: sample_page_def)
  have hdrB: "is_ssdfs_segment_header ?B" using hdrA lenA by (simp add: is_ssdfs_segment_header_def buf_simps)
  have zero: "\<not> is_ssdfs_segment_header (replicate 2048 0)" using sample_header_fields(2)[of 20 9] by (simp add: sample_page_def)
  have B: "get16 ?B 0x412 = 1" "get64 ?B 0x18 = 50" using lenA by (simp_all add: buf_simps)
  have ty: "metadata_peb_type 2 = Some 5" "metadata_peb_type 1 = Some 6" by (simp_all add: metadata_peb_type_def)
  have pebs: "?pebs = [0, 1, 2, 3, 4, 5, 6, 7, 8, 9, 10, 11, 12, 13, 14, 15]" by (simp add: upt_rec)
  have none: "found_items peb (replicate 2048 0) = []" for peb using zero by (simp add: found_items_def)
  have items: "volume_items sample_first_page ?pebs = [peb_item 0 ?A 5, peb_item 9 ?B 6]"
    unfolding pebs using hdrA hdrB B(1) ty none sample_header_fields(3)[of 20]
    by (simp add: volume_items_def sample_first_page_def) (simp add: found_items_def)
  have times: "times_of (volume_items sample_first_page ?pebs) = {77, 50}"
    unfolding items using B(2) sample_header_fields(7)[of 20] by (simp add: peb_item_def)
  have len: "length (sample_first_page peb) = 2048" for peb using lenA by (simp add: sample_first_page_def)
  have read: "headers_readable ?w 0x10000 sample_first_page ?pebs"
    unfolding headers_readable_def pebs using len
    by (simp add: ssdfs_read_segment_header_def sample_fsck_world_def sample_volume_dev_def)
  have p0: "cp_metadata_map (init_creation_point zero_point) = replicate 8 empty_map" "cp_timestamp (init_creation_point zero_point) = U64_MAX"
    by (simp_all add: initial_point map_replicate_const)
  have env: "fe_array sample_fsck_env = \<lparr>ca_state = ARRAY_USE_BUFFER, ca_count = 1, ca_points = [init_creation_point zero_point]\<rparr>"
    "erase_size (fe_base sample_fsck_env) = 0x10000" "fs_size (fe_base sample_fsck_env) = 0x100000" "fe_threads sample_fsck_env = 3"
    by (simp_all add: sample_fsck_env_def fsck_init_detection_result_def)
  have world: "fw_alloc ?w i n" "fw_thread ?w i" "length (cp_metadata_map (fw_fresh_point ?w)) = 8" for i n
    by (simp_all add: sample_fsck_world_def zero_point_def)
  have ne: "volume_items sample_first_page ?pebs \<noteq> []" by (simp add: items)
  have max: "U64_MAX \<notin> times_of (volume_items sample_first_page ?pebs)" unfolding times by simp
  have p: "(16 :: nat) = unat (fs_size (fe_base sample_fsck_env) div ucast (erase_size (fe_base sample_fsck_env)))"
    "erase_size (fe_base sample_fsck_env) \<noteq> 0" "(3 :: nat) = unat (fe_threads sample_fsck_env)"
    by (simp_all add: env)
  have start: "cp_timestamp (init_creation_point zero_point) \<in> insert U64_MAX (times_of (volume_items sample_first_page ?pebs))"
    by (simp add: p0)
  have "\<exists>a. whole_volume_search ?w sample_fsck_env = Inr (sample_fsck_env\<lparr>fe_array := a, fe_state := DEVICE_HAS_SOME_METADATA\<rparr>) \<and>
      array_groups a = creation_groups (volume_items sample_first_page ?pebs)"
    by (rule fsck_volume_search_groups[OF world p _ _ _ read[folded env(2)] env(1) p0(1) refl ne max start]) simp_all
  then obtain a where a: "whole_volume_search ?w sample_fsck_env = Inr (sample_fsck_env\<lparr>fe_array := a, fe_state := DEVICE_HAS_SOME_METADATA\<rparr>)"
    "array_groups a = creation_groups (volume_items sample_first_page ?pebs)" by blast
  have sorted: "sorted_list_of_set {77, 50 :: u64} = [50, 77]"
    by (rule strict_sorted_equal) (simp_all only: strict_sorted_list_of_set set_sorted_list_of_set finite.intros, simp_all add: insert_commute)
  have "map fst (array_groups a) = sorted_list_of_set {77, 50}"
    unfolding a(2) creation_groups_def times by (simp only: map_map comp_def fst_conv map_ident)
  then have "map fst (array_groups a) = [50, 77]" unfolding sorted .
  with a(1) show ?thesis by (intro exI[of _ a] conjI)
qed

end
