(* ===== verification/FsckMain.thy ===== *)
theory FsckMain
  imports FsckVolume Options
begin

text \<open>
  \<^verbatim>\<open>fsck.ssdfs\<close> around the detection: its options (\<^verbatim>\<open>options.c\<close>), the check and the recovery of the volume
  (\<^verbatim>\<open>check_file_system.c\<close> and \<^verbatim>\<open>recover_file_system.c\<close>, whose actions are not implemented in the program: they
  report what is modelled here), the dialogue with the user and \<^verbatim>\<open>main\<close> (\<^verbatim>\<open>fsck.c\<close>).
\<close>

section \<open>Options\<close>

record fsck_config =
  fo_env :: fsck_environment
  fo_no_change :: bool
  fo_auto_repair :: bool
  fo_yes_all_questions :: bool
  fo_show_info :: bool

definition fsck_sopts :: string where
  "fsck_sopts = ''B:de:fhj:npqs:yvV''"

definition fsck_lopts :: "long_opt list" where
  "fsck_lopts =
     [(''pagesize'', True, CHR ''B''), (''debug'', False, CHR ''d''), (''erasesize'', True, CHR ''e''),
      (''force'', False, CHR ''f''), (''help'', False, CHR ''h''), (''threads'', True, CHR ''j''),
      (''no-change'', False, CHR ''n''), (''auto-repair'', False, CHR ''p''), (''quiet'', False, CHR ''q''),
      (''segsize'', True, CHR ''s''), (''yes-all-questions'', False, CHR ''y''), (''be-verbose'', False, CHR ''v''),
      (''version'', False, CHR ''V'')]"

text \<open>The sizes. The size of a segment is narrowed to 32 bits, after the check when it is given by its name.\<close>

definition fsck_env_option :: "char \<Rightarrow> string option \<Rightarrow> fsck_environment \<Rightarrow> fsck_environment parsed" where
  "fsck_env_option c optarg env =
     (let base = fe_base env in
      if c = CHR ''B'' then
        granularity_or optarg
          (\<lambda>g. pbnd (check_pagesize (sint (ucast g :: 32 word))) (\<lambda>_. Inr (env\<lparr>fe_base := base\<lparr>env_page_size := ucast g\<rparr>\<rparr>)))
          (\<lambda>s. let n = word_of_int (atoi s) :: u32 in
               pbnd (check_pagesize (sint n)) (\<lambda>_. Inr (env\<lparr>fe_base := base\<lparr>env_page_size := n\<rparr>\<rparr>)))
      else if c = CHR ''e'' then
        granularity_or optarg
          (\<lambda>g. pbnd (check_erasesize g) (\<lambda>_. Inr (env\<lparr>fe_base := base\<lparr>erase_size := ucast g\<rparr>\<rparr>)))
          (\<lambda>s. let n = word_of_int (atol s) :: u32 in
               pbnd (check_erasesize (ucast n)) (\<lambda>_. Inr (env\<lparr>fe_base := base\<lparr>erase_size := n\<rparr>\<rparr>)))
      else if c = CHR ''f'' then Inr (env\<lparr>fe_force_checking := True\<rparr>)
      else if c = CHR ''j'' then pbnd (numeric optarg) (\<lambda>n. Inr (env\<lparr>fe_threads := word_of_int n\<rparr>))
      else if c = CHR ''s'' then
        granularity_or optarg
          (\<lambda>g. pbnd (check_segsize g) (\<lambda>_. Inr (env\<lparr>fe_seg_size := ucast g\<rparr>)))
          (\<lambda>s. let n = word_of_int (atol s) :: u32 in pbnd (check_segsize (ucast n)) (\<lambda>_. Inr (env\<lparr>fe_seg_size := n\<rparr>)))
      else Inl EXIT_FAILURE)"

definition fsck_option :: "getopt_event \<Rightarrow> fsck_config \<Rightarrow> fsck_config parsed" where
  "fsck_option ev cfg =
     (let c = fst ev in
      if c = CHR ''h'' \<or> c = CHR ''V'' then Inl EXIT_SUCCESS
      else if c = CHR ''d'' \<or> c = CHR ''v'' then Inr cfg
      else if c = CHR ''n'' then Inr (cfg\<lparr>fo_no_change := True\<rparr>)
      else if c = CHR ''p'' then Inr (cfg\<lparr>fo_auto_repair := True\<rparr>)
      else if c = CHR ''q'' then Inr (cfg\<lparr>fo_show_info := False\<rparr>)
      else if c = CHR ''y'' then Inr (cfg\<lparr>fo_yes_all_questions := True\<rparr>)
      else pbnd (fsck_env_option c (snd ev) (fo_env cfg)) (\<lambda>env. Inr (cfg\<lparr>fo_env := env\<rparr>)))"

definition fsck_parse_options :: "string list \<Rightarrow> fsck_config \<Rightarrow> (fsck_config \<times> string) parsed" where
  "fsck_parse_options args cfg =
     (let (events, operands) = getopt_long fsck_sopts fsck_lopts args in
      pbnd (parse_all fsck_option events cfg) (\<lambda>cfg.
      pbnd (usage_if (length operands \<noteq> 1)) (\<lambda>_. Inr (cfg, hd operands))))"

section \<open>Check\<close>

datatype check_state =
  VOLUME_COMPLETELY_DESTROYED | VOLUME_HEAVILY_CORRUPTED | VOLUME_SLIGHTLY_CORRUPTED | VOLUME_UNCLEAN_UMOUNT |
  VOLUME_HEALTHY | VOLUME_CHECK_FAILED | VOLUME_UNKNOWN_CHECK_RESULT

datatype check_code = CHECK_RESULT_UNKNOWN | CHECK_RESULT_SUCCESS | CHECK_RESULT_CORRUPTION | CHECK_RESULT_FAILURE

text \<open>The state of the check: its result and the mask of the corruptions.\<close>

record check_result =
  cr_state :: check_state
  cr_mask :: u64

text \<open>The flags of the check functions, in the order of \<^verbatim>\<open>check_actions\<close>; every function reports a corruption.\<close>

definition check_flags :: "u64 list" where
  "check_flags = [1, 2, 8, 4, 16, 32, 0x200, 0x400]"

definition check_action :: "u64 \<Rightarrow> check_result \<Rightarrow> check_code \<times> check_result" where
  "check_action flag r = (CHECK_RESULT_CORRUPTION, r\<lparr>cr_mask := cr_mask r OR flag\<rparr>)"

fun check_loop :: "u64 list \<Rightarrow> check_result \<Rightarrow> bool \<times> check_result" where
  "check_loop [] r = (True, r)"
| "check_loop (flag # flags) r =
     (case check_action flag r of (c, r) \<Rightarrow> if c \<in> {CHECK_RESULT_SUCCESS, CHECK_RESULT_CORRUPTION} then check_loop flags r else (False, r))"

definition finish_check :: "check_result \<Rightarrow> check_result" where
  "finish_check r =
     (if cr_state r \<in> {VOLUME_COMPLETELY_DESTROYED, VOLUME_HEAVILY_CORRUPTED, VOLUME_SLIGHTLY_CORRUPTED, VOLUME_UNCLEAN_UMOUNT,
          VOLUME_HEALTHY} then r
      else r\<lparr>cr_state := VOLUME_CHECK_FAILED\<rparr>)"

definition is_ssdfs_volume_corrupted :: "detection_state \<Rightarrow> check_result \<Rightarrow> check_result" where
  "is_ssdfs_volume_corrupted detected r =
     (let r = r\<lparr>cr_state := VOLUME_UNKNOWN_CHECK_RESULT\<rparr> in
      case detected of
        DEVICE_HAS_FILE_SYSTEM \<Rightarrow>
          (case check_loop check_flags r of
             (ok, r) \<Rightarrow> if ok then finish_check r else r\<lparr>cr_state := VOLUME_CHECK_FAILED\<rparr>)
      | DEVICE_HAS_SOME_METADATA \<Rightarrow> finish_check (r\<lparr>cr_state := VOLUME_HEAVILY_CORRUPTED\<rparr>)
      | NO_FILE_SYSTEM_DETECTED \<Rightarrow> finish_check (r\<lparr>cr_state := VOLUME_COMPLETELY_DESTROYED\<rparr>)
      | _ \<Rightarrow> r\<lparr>cr_state := VOLUME_CHECK_FAILED\<rparr>)"

section \<open>Recovery\<close>

datatype recovery_state =
  NO_RECOVERY_NECCESSARY | UNABLE_RECOVER | COMPLETE_METADATA_REBUILD | METADATA_PARTIALLY_LOST |
  USER_DATA_PARTIALLY_LOST | RECOVERY_NAND_DEGRADED | RECOVERY_DEVICE_MALFUNCTION | RECOVERY_INTERRUPTED |
  RECOVERY_SUCCESS | RECOVERY_FAILED | UNKNOWN_RECOVERY_RESULT

datatype recover_code =
  RECOVER_RESULT_UNKNOWN | RECOVER_RESULT_SUCCESS | PARTIAL_RECOVER_RESULT | UNABLE_RECOVER_RESULT | RECOVER_RESULT_FAILURE

text \<open>The flags of the structures, in the order of \<^verbatim>\<open>recover_actions\<close>; only what is not corrupted is recovered.\<close>

definition recover_flags :: "u64 list" where
  "recover_flags = [4, 8, 16, 0x400, 32, 0x200, 2, 1]"

definition recover_action :: "u64 \<Rightarrow> check_result \<Rightarrow> recover_code" where
  "recover_action flag r = (if cr_mask r AND flag = 0 then RECOVER_RESULT_SUCCESS else RECOVER_RESULT_FAILURE)"

definition explain_action :: "u64 \<Rightarrow> check_result \<Rightarrow> recover_code" where
  "explain_action flag r = RECOVER_RESULT_FAILURE"

definition summarize_recovery_result :: "check_result \<Rightarrow> recovery_state" where
  "summarize_recovery_result r = RECOVERY_FAILED"

definition write_action :: "u64 \<Rightarrow> check_result \<Rightarrow> recover_code" where
  "write_action flag r = RECOVER_RESULT_FAILURE"

text \<open>The sets of states are those of the two switches of the code.\<close>

definition recover_corrupted_ssdfs_volume :: "check_result \<Rightarrow> recovery_state" where
  "recover_corrupted_ssdfs_volume r =
     (if cr_state r = VOLUME_HEALTHY then NO_RECOVERY_NECCESSARY
      else if cr_state r \<notin> {VOLUME_COMPLETELY_DESTROYED, VOLUME_HEAVILY_CORRUPTED, VOLUME_SLIGHTLY_CORRUPTED, VOLUME_UNCLEAN_UMOUNT}
      then RECOVERY_FAILED
      else if \<exists>flag \<in> set recover_flags. recover_action flag r \<notin> {RECOVER_RESULT_SUCCESS, PARTIAL_RECOVER_RESULT, UNABLE_RECOVER_RESULT}
      then RECOVERY_FAILED
      else if \<exists>flag \<in> set recover_flags. explain_action flag r \<noteq> RECOVER_RESULT_SUCCESS then RECOVERY_FAILED
      else
        let state = summarize_recovery_result r in
        if state \<in> {UNABLE_RECOVER, RECOVERY_NAND_DEGRADED, RECOVERY_DEVICE_MALFUNCTION, RECOVERY_INTERRUPTED} then state
        else if state \<notin> {COMPLETE_METADATA_REBUILD, METADATA_PARTIALLY_LOST, USER_DATA_PARTIALLY_LOST, RECOVERY_SUCCESS}
        then RECOVERY_FAILED
        else if \<exists>flag \<in> set recover_flags. write_action flag r \<noteq> RECOVER_RESULT_SUCCESS then RECOVERY_FAILED
        else state)"

section \<open>The dialogue\<close>

datatype user_answer = YES_USER_ANSWER | NO_USER_ANSWER | UNKNOWN_USER_ANSWER

text \<open>The bytes up to the end of the line, at most \<open>n\<close>, and the input behind; the end of the line is dropped.\<close>

fun read_answer :: "nat \<Rightarrow> string \<Rightarrow> string \<times> string" where
  "read_answer n [] = ([], [])"
| "read_answer n (c # cs) =
     (if c = CHR ''\<newline>'' then ([], cs)
      else if n \<le> 1 then ([c], cs)
      else case read_answer (n - 1) cs of (line, rest) \<Rightarrow> (c # line, rest))"

text \<open>\<^verbatim>\<open>strcmp\<close> sees the bytes up to the first zero.\<close>

definition answer_of :: "string \<Rightarrow> user_answer" where
  "answer_of buf =
     (let s = takeWhile (\<lambda>c. c \<noteq> CHR 0x00) buf in
      if s \<in> set [''y'', ''Y'', ''yes'', ''Yes'', ''YES''] then YES_USER_ANSWER
      else if s \<in> set [''n'', ''N'', ''no'', ''No'', ''NO''] then NO_USER_ANSWER
      else UNKNOWN_USER_ANSWER)"

abbreviation (input) SSDFS_MAX_NAME_LEN :: nat where "SSDFS_MAX_NAME_LEN \<equiv> 255"

text \<open>\<open>None\<close> stands for a dialogue that never ends.\<close>

partial_function (option) get_user_answer :: "string \<Rightarrow> user_answer option" where
  "get_user_answer input =
     (case read_answer SSDFS_MAX_NAME_LEN input of
        (buf, rest) \<Rightarrow> if answer_of buf = UNKNOWN_USER_ANSWER then get_user_answer rest else Some (answer_of buf))"

section \<open>The program\<close>

text \<open>The phases behind the opening of the device: the results of detection, check and recovery.\<close>

record fsck_outcome =
  out_detection :: detection_state
  out_check :: "check_state option"
  out_recovery :: "recovery_state option"

text \<open>All results behind the opening of the device end with the same status, because \<^verbatim>\<open>err\<close> stays zero.\<close>

definition fsck_finish :: "detection_state \<Rightarrow> check_state option \<Rightarrow> recovery_state option \<Rightarrow> (exit_status \<times> fsck_outcome option) option" where
  "fsck_finish d c r = Some (EXIT_SUCCESS, Some \<lparr>out_detection = d, out_check = c, out_recovery = r\<rparr>)"

definition try_recover_volume :: "detection_state \<Rightarrow> check_result \<Rightarrow> (exit_status \<times> fsck_outcome option) option" where
  "try_recover_volume d r = fsck_finish d (Some (cr_state r)) (Some (recover_corrupted_ssdfs_volume r))"

definition fsck_check :: "fsck_config \<Rightarrow> string \<Rightarrow> detection_state \<Rightarrow> (exit_status \<times> fsck_outcome option) option" where
  "fsck_check cfg input d =
     (let r = is_ssdfs_volume_corrupted d \<lparr>cr_state = VOLUME_UNKNOWN_CHECK_RESULT, cr_mask = 0\<rparr>; c = cr_state r;
          finish = fsck_finish d (Some c) None in
      if c \<in> {VOLUME_CHECK_FAILED, VOLUME_UNKNOWN_CHECK_RESULT} then finish
      else if c = VOLUME_HEALTHY then finish
      else if fo_no_change cfg then finish
      else if fo_auto_repair cfg \<or> fo_yes_all_questions cfg then try_recover_volume d r
      else if \<not> fo_show_info cfg then finish
      else
        (case get_user_answer input of
           None \<Rightarrow> None
         | Some YES_USER_ANSWER \<Rightarrow> try_recover_volume d r
         | Some _ \<Rightarrow> finish))"

text \<open>\<^verbatim>\<open>main\<close> behind \<^verbatim>\<open>parse_options\<close>; \<open>None\<close> as the whole result is a run that does not end.\<close>

definition fsck_main ::
  "nat \<Rightarrow> 's fsck_world \<Rightarrow> probe \<Rightarrow> int \<Rightarrow> fsck_config \<Rightarrow> string \<Rightarrow> (exit_status \<times> fsck_outcome option) option" where
  "fsck_main fuel w pr errnum cfg input =
     (case open_device (fe_base (fo_env cfg)) pr errnum of
        Inl e \<Rightarrow> Some (exit_of e, None)
      | Inr base \<Rightarrow>
          (case is_device_contains_ssdfs_volume fuel w ((fo_env cfg)\<lparr>fe_base := base\<rparr>) of
             None \<Rightarrow> None
           | Some (Inl f) \<Rightarrow> Some (ABORTED f, None)
           | Some (Inr env) \<Rightarrow>
               if fe_state env \<in> {FAILED_DETECT_FILE_SYSTEM, UNKNOWN_DETECTION_RESULT, NO_FILE_SYSTEM_DETECTED}
               then fsck_finish (fe_state env) None None
               else fsck_check cfg input (fe_state env)))"

definition fsck_initial_config :: fsck_config where
  "fsck_initial_config =
     \<lparr>fo_env = fsck_init_detection_result
        \<lparr>fe_force_checking = False, fe_seg_size = 0x20000,
         fe_base = \<lparr>fs_size = 0, erase_size = 0x20000, open_zones = 0, env_page_size = 0x1000,
           env_device_type = SSDFS_DEVICE_TYPE_MAX, env_fd = 0, env_dev_ops = no_ops\<rparr>,
         fe_threads = 1, fe_state = UNKNOWN_DETECTION_RESULT,
         fe_array = \<lparr>ca_state = ARRAY_NOT_INITIALIZED, ca_count = 0, ca_points = []\<rparr>, fe_found_peb = replicate 2048 0\<rparr>,
      fo_no_change = False, fo_auto_repair = False, fo_yes_all_questions = False, fo_show_info = True\<rparr>"

text \<open>The program from its command line on; \<open>pr\<close> tells what the device of a name is, \<open>w\<close> what it holds.\<close>

definition fsck_ssdfs ::
  "nat \<Rightarrow> (string \<Rightarrow> 's fsck_world) \<Rightarrow> (string \<Rightarrow> probe) \<Rightarrow> int \<Rightarrow> string list \<Rightarrow> string \<Rightarrow>
   (exit_status \<times> fsck_outcome option) option" where
  "fsck_ssdfs fuel w pr errnum args input =
     (case fsck_parse_options args fsck_initial_config of
        Inl e \<Rightarrow> Some (e, None)
      | Inr (cfg, name) \<Rightarrow> fsck_main fuel (w name) (pr name) errnum cfg input)"

section \<open>What the dialogue and the program do\<close>

text \<open>The answers an input holds: its lines, lines of more than 255 bytes in pieces.\<close>

lemma read_answer_less: "input \<noteq> [] \<Longrightarrow> length (snd (read_answer n input)) < length input"
proof (induction n input rule: read_answer.induct)
  case (2 n c cs)
  show ?case
  proof (cases "cs = []")
    case False
    with 2 show ?thesis by (auto simp: case_prod_beta intro: less_SucI)
  qed (auto split: prod.split)
qed simp

function user_lines :: "string \<Rightarrow> string list" where
  "user_lines input =
     (if input = [] then [] else fst (read_answer 255 input) # user_lines (snd (read_answer 255 input)))"
  by auto

termination by (relation "measure length") (auto simp: read_answer_less)

declare user_lines.simps [simp del]

lemma get_user_answer_not_eof:
  assumes "get_user_answer input = Some a"
  shows "input \<noteq> []"
proof (rule get_user_answer.raw_induct[where P = "\<lambda>input a. input \<noteq> []", OF _ assms])
  fix f :: "string \<Rightarrow> user_answer option" and input a
  assume IH: "\<And>input a. f input = Some a \<Longrightarrow> input \<noteq> []"
    and run: "(case read_answer 255 input of
      (buf, rest) \<Rightarrow> if answer_of buf = UNKNOWN_USER_ANSWER then f rest else Some (answer_of buf)) = Some a"
  show "input \<noteq> []"
  proof
    assume "input = []"
    with run have "f [] = Some a" by (simp add: answer_of_def)
    from IH[OF this] show False by simp
  qed
qed

lemma get_user_answer_eof: "get_user_answer [] = None"
  using get_user_answer_not_eof by fastforce

lemma get_user_answer_find:
  "get_user_answer input = List.find (\<lambda>a. a \<noteq> UNKNOWN_USER_ANSWER) (map answer_of (user_lines input))"
proof (induction input rule: user_lines.induct)
  case (1 input)
  show ?case
  proof (cases "input = []")
    case True
    then show ?thesis by (simp add: get_user_answer_eof user_lines.simps)
  next
    case False
    with 1 show ?thesis
      by (subst get_user_answer.simps) (simp add: user_lines.simps[of input] case_prod_beta)
  qed
qed

lemma recovery_fails: "cr_state r \<noteq> VOLUME_HEALTHY \<Longrightarrow> recover_corrupted_ssdfs_volume r = RECOVERY_FAILED"
  by (simp add: recover_corrupted_ssdfs_volume_def summarize_recovery_result_def Let_def)

lemma check_loop_succeeds: "\<exists>mask. check_loop flags r = (True, r\<lparr>cr_mask := mask\<rparr>)"
proof (induction flags arbitrary: r)
  case Nil
  then show ?case by (intro exI[of _ "cr_mask r"]) simp
next
  case (Cons flag flags)
  from Cons[of "r\<lparr>cr_mask := cr_mask r OR flag\<rparr>"] show ?case by (auto simp: check_action_def)
qed

lemma check_states:
  "cr_state (is_ssdfs_volume_corrupted d r) =
     (case d of DEVICE_HAS_SOME_METADATA \<Rightarrow> VOLUME_HEAVILY_CORRUPTED | NO_FILE_SYSTEM_DETECTED \<Rightarrow> VOLUME_COMPLETELY_DESTROYED
      | _ \<Rightarrow> VOLUME_CHECK_FAILED)"
proof -
  obtain mask where "check_loop check_flags (r\<lparr>cr_state := VOLUME_UNKNOWN_CHECK_RESULT\<rparr>) =
      (True, r\<lparr>cr_state := VOLUME_UNKNOWN_CHECK_RESULT\<rparr>\<lparr>cr_mask := mask\<rparr>)"
    using check_loop_succeeds by blast
  then show ?thesis by (cases d) (simp_all add: is_ssdfs_volume_corrupted_def finish_check_def)
qed

text \<open>The answer of the user, when the program asks.\<close>

definition user_says_yes :: "fsck_config \<Rightarrow> string \<Rightarrow> bool option" where
  "user_says_yes cfg input =
     (if fo_no_change cfg then Some False
      else if fo_auto_repair cfg \<or> fo_yes_all_questions cfg then Some True
      else if \<not> fo_show_info cfg then Some False
      else map_option (\<lambda>a. a = YES_USER_ANSWER) (List.find (\<lambda>a. a \<noteq> UNKNOWN_USER_ANSWER) (map answer_of (user_lines input))))"

lemma fsck_check_outcome:
  "fsck_check cfg input d =
     (if d = DEVICE_HAS_SOME_METADATA \<or> d = NO_FILE_SYSTEM_DETECTED then
        map_option (\<lambda>yes. (EXIT_SUCCESS, Some \<lparr>out_detection = d, out_check = Some (cr_state (is_ssdfs_volume_corrupted d
            \<lparr>cr_state = VOLUME_UNKNOWN_CHECK_RESULT, cr_mask = 0\<rparr>)), out_recovery = (if yes then Some RECOVERY_FAILED else None)\<rparr>))
          (user_says_yes cfg input)
      else fsck_finish d (Some VOLUME_CHECK_FAILED) None)"
proof -
  define r where "r = is_ssdfs_volume_corrupted d \<lparr>cr_state = VOLUME_UNKNOWN_CHECK_RESULT, cr_mask = 0\<rparr>"
  have state: "cr_state r = (case d of DEVICE_HAS_SOME_METADATA \<Rightarrow> VOLUME_HEAVILY_CORRUPTED
      | NO_FILE_SYSTEM_DETECTED \<Rightarrow> VOLUME_COMPLETELY_DESTROYED | _ \<Rightarrow> VOLUME_CHECK_FAILED)"
    unfolding r_def by (rule check_states)
  have rec: "recover_corrupted_ssdfs_volume r = RECOVERY_FAILED"
    by (rule recovery_fails) (simp add: state split: detection_state.split)
  show ?thesis
    unfolding fsck_check_def r_def[symmetric] Let_def get_user_answer_find user_says_yes_def
    by (cases d) (auto simp: state try_recover_volume_def rec fsck_finish_def split: option.split user_answer.split)
qed

text \<open>
  C29. What a run of fsck on a device that can be opened does, when the detection ends. No run reports a failure in its exit
  status, whatever happened. A volume with a complete file system always ends with a failed check, one with some metadata
  is heavily corrupted, and its recovery, when the user wants it, always fails. When the program has to ask the user, it
  takes the first line of the input that is an answer, and does not end when the input ends without one.
\<close>

theorem fsck_main_outcome:
  assumes "open_device (fe_base (fo_env cfg)) pr errnum = Inr base"
    and "is_device_contains_ssdfs_volume fuel w ((fo_env cfg)\<lparr>fe_base := base\<rparr>) = Some (Inr env)"
  shows "fsck_main fuel w pr errnum cfg input =
    (case fe_state env of
       DEVICE_HAS_FILE_SYSTEM \<Rightarrow> Some (EXIT_SUCCESS, Some \<lparr>out_detection = DEVICE_HAS_FILE_SYSTEM,
         out_check = Some VOLUME_CHECK_FAILED, out_recovery = None\<rparr>)
     | DEVICE_HAS_SOME_METADATA \<Rightarrow>
         map_option (\<lambda>yes. (EXIT_SUCCESS, Some \<lparr>out_detection = DEVICE_HAS_SOME_METADATA,
           out_check = Some VOLUME_HEAVILY_CORRUPTED, out_recovery = (if yes then Some RECOVERY_FAILED else None)\<rparr>))
           (user_says_yes cfg input)
     | d \<Rightarrow> Some (EXIT_SUCCESS, Some \<lparr>out_detection = d, out_check = None, out_recovery = None\<rparr>))"
  using assms by (cases "fe_state env") (simp_all add: fsck_main_def fsck_check_outcome check_states fsck_finish_def)

text \<open>A device all reads of which give the same header of a superblock segment, in a volume of 16 PEBs.\<close>

definition sample_sb_header :: buf where
  "sample_sb_header = put32 (put16 (put8 (put16 (sample_log_header 20) 0x412 1) 0x11 16) 10 1) 12 0xFFFFFFFF"

definition sample_file :: probe where
  "sample_file = \<lparr>p_open = Some 3, p_stat = Some (S_IFREG, 0, 0x100000), p_memgetinfo = None, p_blkgetsize64 = None, p_blkgetzonesz = None\<rparr>"

lemma sample_sb_fields:
  "length sample_sb_header = 2048" "is_ssdfs_segment_header sample_sb_header" "get16 sample_sb_header 0x412 = 1"
  "get8 sample_sb_header 0x11 = 16" "get8 sample_sb_header 0x10 = 12" "get64 sample_sb_header 0x18 = 77"
  "seg_hdr_valid (\<lambda>d. 0) sample_sb_header = Inr (True, sample_sb_header)"
proof -
  have len: "length (sample_log_header 20) = 2048" using sample_header_fields(1)[of 20 0] by (simp add: sample_page_def)
  show l: "length sample_sb_header = 2048" by (simp add: sample_sb_header_def len)
  show hdr: "is_ssdfs_segment_header sample_sb_header"
    using sample_header_fields(2)[of 20 0] len by (simp add: sample_page_def sample_sb_header_def is_ssdfs_segment_header_def buf_simps)
  show "get16 sample_sb_header 0x412 = 1" "get8 sample_sb_header 0x11 = 16" "get8 sample_sb_header 0x10 = 12"
    "get64 sample_sb_header 0x18 = 77"
    using len sample_header_fields by (simp_all add: sample_sb_header_def buf_simps)
  have "le_dec (replicate 2 0) = (0 :: u16)" by (simp add: numeral_2_eq_2)
  then have zero: "get16 (replicate 2048 0) 8 = 0" by (simp add: get16_def bytes_at_def)
  have f: "get16 sample_sb_header 8 = 0" "get16 sample_sb_header 10 = 1" "get32 sample_sb_header 12 = 0xFFFFFFFF"
    by (simp_all add: sample_sb_header_def len buf_simps) (simp add: sample_log_header_def zero buf_simps)
  then have "check_ready sample_sb_header 8 0 sizeof_segment_header" by (simp add: check_ready_def l)
  from is_csum_valid_ok[OF this, of "\<lambda>d. 0"] f have "is_csum_valid (\<lambda>d. 0) sample_sb_header 8 0 sizeof_segment_header = Inr (True, sample_sb_header)"
    by (simp add: csum_of_def)
  then show "seg_hdr_valid (\<lambda>d. 0) sample_sb_header = Inr (True, sample_sb_header)"
    using hdr by (simp add: seg_hdr_valid_def l is_ssdfs_segment_header_def)
qed

lemma sample_detection:
  "\<exists>base env. open_device (fe_base (fo_env fsck_initial_config)) sample_file 0 = Inr base \<and>
     is_device_contains_ssdfs_volume 65 (sample_fsck_world (\<lambda>offset len. Inr sample_sb_header))
       ((fo_env fsck_initial_config)\<lparr>fe_base := base\<rparr>) = Some (Inr env) \<and> fe_state env = DEVICE_HAS_SOME_METADATA"
proof -
  let ?w = "sample_fsck_world (\<lambda>offset len. Inr sample_sb_header)" and ?H = sample_sb_header
  let ?p = "init_creation_point zero_point"
  let ?env0 = "fo_env fsck_initial_config"
  obtain base where base: "open_device (fe_base ?env0) sample_file 0 = Inr base" "fs_size base = 0x100000" "erase_size base = 0x20000"
    by (simp add: open_device_def sample_file_def fsck_initial_config_def fsck_init_detection_result_def)
  have w: "fw_rd ?w = (\<lambda>offset len. Inr ?H)" "fw_crc ?w = (\<lambda>d. 0)" "fw_alloc ?w i n" "fw_thread ?w i"
    "length (cp_metadata_map (fw_fresh_point ?w)) = 8" for i n
    by (simp_all add: sample_fsck_world_def zero_point_def)
  have read: "ssdfs_read_segment_header (fw_rd ?w) peb size0 off sz = Inr ?H" for peb size0 off sz
    by (simp add: ssdfs_read_segment_header_def w)
  have "ssdfs_find_any_valid_peb (Suc 64) (fw_crc ?w) (fw_rd ?w) base = Some (Inr ?H)"
    unfolding ssdfs_find_any_valid_peb_def find_peb_loop.simps(2)[of 64]
    using read base(3) sample_sb_fields(7) by (simp add: w(2) div_chk_def)
  then have found: "ssdfs_find_any_valid_peb 65 (fw_crc ?w) (fw_rd ?w) base = Some (Inr ?H)" by simp
  define env1 where "env1 = ?env0\<lparr>fe_state := UNKNOWN_DETECTION_RESULT, fe_found_peb := ?H,
    fe_base := base\<lparr>erase_size := 0x10000, env_page_size := 0x1000\<rparr>\<rparr>"
  have arr: "fe_array env1 = \<lparr>ca_state = ARRAY_USE_BUFFER, ca_count = 1, ca_points = [?p]\<rparr>" "erase_size (fe_base env1) = 0x10000"
    "fs_size (fe_base env1) = 0x100000" "fe_threads env1 = 1" "\<not> fe_force_checking env1"
    by (simp_all add: env1_def fsck_initial_config_def fsck_init_detection_result_def base)
  define q where "q = ?p\<lparr>cp_base_snapshot_log := (init_found_log (cp_base_snapshot_log ?p))\<lparr>fl_header := ?H\<rparr>\<rparr>"
  have len: "length (fl_header (init_found_log (cp_base_snapshot_log ?p))) = 2048"
    by (simp add: initial_point)
  have seg: "find_metadata_segment ?w (fe_base env1) 0 2 0 (fl_header (init_found_log (cp_base_snapshot_log ?p))) = Inr (SEARCH_NOT_FOUND, ?H)"
    using sample_sb_fields(1-3) read len by (simp add: find_metadata_segment_def read_into_2048)
  have "is_base_snapshot_segment_found ?w env1 = Some (Inr (SEARCH_NOT_FOUND, put_point env1 0 q))"
    using seg by (simp add: is_base_snapshot_segment_found_def with_point_def get_creation_point_def arr div_chk_def Let_def q_def)
  then have search: "search_all (detect_actions ?w) [0..<4] env1 = Some (Inr (SEARCH_NOT_FOUND, put_point env1 0 q))"
    by (simp add: upt_rec detect_actions_def and_then_def)
  have det: "is_device_contains_ssdfs_volume 65 ?w (?env0\<lparr>fe_base := base\<rparr>) = Some (whole_volume_search ?w (put_point env1 0 q))"
    using found search sample_sb_fields(4,5) by (simp add: is_device_contains_ssdfs_volume_def shift_1_def env1_def)
  let ?items = "volume_items (\<lambda>peb. ?H) (map of_nat [0..<16])"
  have ty: "metadata_peb_type 1 = Some 6" by (simp add: metadata_peb_type_def)
  have item: "found_items peb ?H = [peb_item peb ?H 6]" for peb
    using sample_sb_fields(2,3) ty by (simp add: found_items_def)
  have "pi_volume_timestamp (peb_item peb ?H 6) = 77" for peb using sample_sb_fields(6) by (simp add: peb_item_def)
  then have times: "times_of ?items = {77}" and ne: "?items \<noteq> []"
    by (auto simp: times_of_def volume_items_def item image_Un upt_rec)
  have readable: "headers_readable ?w (erase_size (fe_base (put_point env1 0 q))) (\<lambda>peb. ?H) (map of_nat [0..<16])"
    using read sample_sb_fields(1) by (simp add: headers_readable_def)
  have q: "fe_array (put_point env1 0 q) = \<lparr>ca_state = ARRAY_USE_BUFFER, ca_count = 1, ca_points = [q]\<rparr>"
    "cp_metadata_map q = replicate 8 empty_map" "cp_timestamp q = U64_MAX"
    by (simp_all add: put_point_def arr q_def initial_point map_replicate_const)
  have p: "(16 :: nat) = unat (fs_size (fe_base (put_point env1 0 q)) div ucast (erase_size (fe_base (put_point env1 0 q))))"
    "erase_size (fe_base (put_point env1 0 q)) \<noteq> 0" "(1 :: nat) = unat (fe_threads (put_point env1 0 q))"
    by (simp_all add: put_point_def arr)
  have max: "U64_MAX \<notin> times_of ?items" unfolding times by simp
  have "\<exists>a. execute_whole_volume_search ?w (put_point env1 0 q) = Inr (SEARCH_SUCCESS, (put_point env1 0 q)\<lparr>fe_array := a\<rparr>) \<and>
    array_repr (if cp_timestamp q = U64_MAX then {} else {cp_timestamp q}) ?items a"
    by (rule execute_search_repr[OF w(3-5) p(1,2,3) _ _ _ readable q(1,2) max]) simp_all
  then obtain a where a: "execute_whole_volume_search ?w (put_point env1 0 q) = Inr (SEARCH_SUCCESS, (put_point env1 0 q)\<lparr>fe_array := a\<rparr>)"
    "array_repr {} ?items a"
    using q(3) by auto
  have "whole_volume_search ?w (put_point env1 0 q) = Inr ((put_point env1 0 q)\<lparr>fe_array := a, fe_state := DEVICE_HAS_SOME_METADATA\<rparr>)"
    using a(1) array_repr_result[OF a(2) empty_subsetI ne] by (simp add: whole_volume_search_def)
  with base(1) det show ?thesis by auto
qed

text \<open>The first answer is not one.\<close>

theorem fsck_main_outcome_witness:
  "fsck_main 65 (sample_fsck_world (\<lambda>offset len. Inr sample_sb_header)) sample_file 0 fsck_initial_config
     (''what'' @ CHR ''\<newline>'' # ''y'' @ [CHR ''\<newline>'']) =
   Some (EXIT_SUCCESS, Some \<lparr>out_detection = DEVICE_HAS_SOME_METADATA, out_check = Some VOLUME_HEAVILY_CORRUPTED,
     out_recovery = Some RECOVERY_FAILED\<rparr>)"
proof -
  obtain base env where d: "open_device (fe_base (fo_env fsck_initial_config)) sample_file 0 = Inr base"
    "is_device_contains_ssdfs_volume 65 (sample_fsck_world (\<lambda>offset len. Inr sample_sb_header))
       ((fo_env fsck_initial_config)\<lparr>fe_base := base\<rparr>) = Some (Inr env)" "fe_state env = DEVICE_HAS_SOME_METADATA"
    using sample_detection by blast
  have "user_lines (''what'' @ CHR ''\<newline>'' # ''y'' @ [CHR ''\<newline>'']) = [''what'', ''y'']"
    by (simp add: user_lines.simps)
  then have "user_says_yes fsck_initial_config (''what'' @ CHR ''\<newline>'' # ''y'' @ [CHR ''\<newline>'']) = Some True"
    by (simp add: user_says_yes_def fsck_initial_config_def answer_of_def)
  then show ?thesis using fsck_main_outcome[OF d(1,2)] d(3) by simp
qed

end
