(* ===== verification/StateRun.thy ===== *)
theory StateRun
  imports SsdfsCommon
begin

text \<open>
  Functions that change a state and return an error code. A run from a state may not return; when it does, it ends with a
  fault that kills the program, or with an error code or a value together with the state it leaves. The state of a failed
  call is kept, because the programs go on after most errors.

  \<open>sbnd\<close> goes on after a success, \<open>attempt_run\<close> lets the caller look at the error, \<open>zoom\<close> runs a function on a part of the
  state, and \<open>lift_res\<close> takes a result that changes nothing.
\<close>

type_synonym ('s, 'a) run = "'s \<Rightarrow> ((errno + 'a) \<times> 's) res option"

definition ret :: "'a \<Rightarrow> ('s, 'a) run" where
  "ret x s = Some (Inr (Inr x, s))"

definition throw :: "errno \<Rightarrow> ('s, 'a) run" where
  "throw e s = Some (Inr (Inl e, s))"

definition sbnd :: "('s, 'a) run \<Rightarrow> ('a \<Rightarrow> ('s, 'b) run) \<Rightarrow> ('s, 'b) run" where
  "sbnd m f s = obnd (m s) (\<lambda>(r, s'). case r of Inl e \<Rightarrow> throw e s' | Inr x \<Rightarrow> f x s')"

definition attempt_run :: "('s, 'a) run \<Rightarrow> (errno + 'a \<Rightarrow> ('s, 'b) run) \<Rightarrow> ('s, 'b) run" where
  "attempt_run m f s = obnd (m s) (\<lambda>(r, s'). f r s')"

definition lift_res :: "'a res \<Rightarrow> ('s, 'a) run" where
  "lift_res r s = (case r of Inl (Errno e) \<Rightarrow> throw e s | Inl f \<Rightarrow> Some (Inl f) | Inr x \<Rightarrow> ret x s)"

definition throw_if :: "bool \<Rightarrow> errno \<Rightarrow> ('s, unit) run" where
  "throw_if c e = (if c then throw e else ret ())"

definition get_state :: "('s \<Rightarrow> 'a) \<Rightarrow> ('s, 'a) run" where
  "get_state g s = ret (g s) s"

definition modify :: "('s \<Rightarrow> 's) \<Rightarrow> ('s, unit) run" where
  "modify g s = ret () (g s)"

definition zoom :: "('s \<Rightarrow> 'p) \<Rightarrow> ('p \<Rightarrow> 's \<Rightarrow> 's) \<Rightarrow> ('p, 'a) run \<Rightarrow> ('s, 'a) run" where
  "zoom g put m s = obnd (m (g s)) (\<lambda>(r, p). Some (Inr (r, put p s)))"

named_theorems srun \<open>running the functions on a state\<close>

lemma srun_simps [srun]:
  "sbnd (ret x) f s = f x s" "sbnd (throw e) f s = throw e s"
  "attempt_run (ret x) k s = k (Inr x) s" "attempt_run (throw e) k s = k (Inl e) s"
  "sbnd (get_state g) f s = f (g s) s" "sbnd (lift_res (Inr x)) f s = f x s"
  by (auto simp: sbnd_def attempt_run_def ret_def throw_def get_state_def lift_res_def)

lemma srun_unit_simps [srun]:
  "throw_if False e = ret ()" "throw_if True e = throw e" "sbnd (modify h) f s = f () (h s)"
  by (auto simp: sbnd_def ret_def throw_if_def modify_def)

lemma lift_res_simps [srun]:
  "lift_res (Inr x) = ret x" "lift_res (Inl (Errno e)) = throw e"
  by (auto simp: lift_res_def)

lemma sbnd_run: "m s = ret x s' \<Longrightarrow> sbnd m f s = f x s'"
  by (simp add: sbnd_def ret_def)

lemma sbnd_at: "m s = Some (Inr (Inr x, s')) \<Longrightarrow> sbnd m f s = f x s'"
  by (simp add: sbnd_def)

lemma sbnd_throw_at: "m s = Some (Inr (Inl e, s')) \<Longrightarrow> sbnd m f s = throw e s'"
  by (simp add: sbnd_def)

lemma attempt_at: "m s = Some (Inr (r, s')) \<Longrightarrow> attempt_run m f s = f r s'"
  by (simp add: attempt_run_def)

lemma sbnd_assoc: "sbnd (sbnd m f) g = sbnd m (\<lambda>x. sbnd (f x) g)"
  by (rule ext) (auto simp: sbnd_def obnd_def throw_def split: option.splits sum.splits)

lemma sbnd_eq_Inr:
  "sbnd m f s = Some (Inr (Inr y, t)) \<longleftrightarrow> (\<exists>x s'. m s = Some (Inr (Inr x, s')) \<and> f x s' = Some (Inr (Inr y, t)))"
  by (auto simp: sbnd_def obnd_def throw_def split: option.splits sum.splits)

lemma ret_eq [simp]: "ret x s = Some (Inr r) \<longleftrightarrow> r = (Inr x, s)" "throw e s = Some (Inr r) \<longleftrightarrow> r = (Inl e, s)"
  by (auto simp: ret_def throw_def)

lemma lift_res_eq_Inr: "lift_res r s = Some (Inr (Inr x, t)) \<longleftrightarrow> r = Inr x \<and> t = s"
  by (auto simp: lift_res_def ret_def throw_def split: sum.splits fault.splits)

text \<open>A loop without a bound may contain these combinators.\<close>

lemma obnd_mono [partial_function_mono]:
  assumes "mono_option m" and "\<And>x. mono_option (\<lambda>g. f x g)"
  shows "mono_option (\<lambda>g. obnd (m g) (\<lambda>x. f x g))"
proof -
  have "(\<lambda>g. obnd (m g) (\<lambda>x. f x g)) =
      (\<lambda>g. Option.bind (m g) (\<lambda>r. case r of Inl e \<Rightarrow> Some (Inl e) | Inr x \<Rightarrow> f x g))"
    by (rule ext) (simp add: obnd_def split: option.split)
  then show ?thesis
  proof (rule ssubst)
    have "mono_option (\<lambda>g. case r of Inl e \<Rightarrow> Some (Inl e) | Inr x \<Rightarrow> f x g)" for r
      using assms(2) by (cases r) (auto simp: monotone_def option.leq_refl)
    then show "mono_option (\<lambda>g. Option.bind (m g) (\<lambda>r. case r of Inl e \<Rightarrow> Some (Inl e) | Inr x \<Rightarrow> f x g))"
      by (rule bind_mono[OF assms(1)])
  qed
qed

lemma sbnd_mono [partial_function_mono]:
  assumes "\<And>t. mono_option (\<lambda>g. m g t)" and "\<And>x t. mono_option (\<lambda>g. f x g t)"
  shows "mono_option (\<lambda>g. sbnd (m g) (\<lambda>x. f x g) s)"
  unfolding sbnd_def
proof (rule obnd_mono[OF assms(1)])
  fix p
  show "mono_option (\<lambda>g. case p of (r, s') \<Rightarrow> (case r of Inl e \<Rightarrow> throw e s' | Inr x \<Rightarrow> f x g s'))"
    using assms(2) by (cases p; cases "fst p") (auto simp: monotone_def option.leq_refl)
qed

lemma attempt_mono [partial_function_mono]:
  assumes "\<And>t. mono_option (\<lambda>g. m g t)" and "\<And>r t. mono_option (\<lambda>g. f r g t)"
  shows "mono_option (\<lambda>g. attempt_run (m g) (\<lambda>r. f r g) s)"
  unfolding attempt_run_def
proof (rule obnd_mono[OF assms(1)])
  fix p
  show "mono_option (\<lambda>g. case p of (r, s') \<Rightarrow> f r g s')" using assms(2) by (cases p) simp
qed

lemma if_run_mono [partial_function_mono]:
  assumes "mono_option (\<lambda>g. f g s)" and "mono_option (\<lambda>g. h g s)"
  shows "mono_option (\<lambda>g. (if c then f g else h g) s)"
  by (cases c) (simp_all add: assms)

end
