(* ===== verification/FolderStore.thy ===== *)
theory FolderStore
  imports StateRun Options "HOL-Library.List_Lexorder" "HOL-Library.AList"
begin

text \<open>
  What the tools use of POSIX to keep files: the output folder, the folders in it and their files. The content of the output
  folder is an association list from names to files and folders; every call of the system has a number, and the parameter
  \<open>sys\<close> gives its outcome, so that any call may fail, and a write may be short. Descriptors of open files and folders are
  their names; a descriptor that is not open is \<open>None\<close>. The descriptors 0 to 2 are taken by the standard streams, and the path
  of the output folder is short enough for the buffers of the programs.

  The names are decimal numbers, printed with \<^verbatim>\<open>%llu\<close> and read with \<^verbatim>\<open>atoll\<close>.
\<close>

section \<open>Decimal numbers\<close>

definition digit :: "nat \<Rightarrow> char" where
  "digit d = char_of (48 + d)"

fun decimal :: "nat \<Rightarrow> string" where
  "decimal n = (if n < 10 then [digit n] else decimal (n div 10) @ [digit (n mod 10)])"

declare decimal.simps [simp del]

lemma of_char_digit: "d < 10 \<Longrightarrow> (of_char (digit d) :: nat) = 48 + d"
  by (simp add: digit_def)

lemma of_char_digit_int: "d < 10 \<Longrightarrow> (of_char (digit d) :: int) = 48 + int d"
  by (metis of_char_digit of_nat_add of_nat_numeral of_nat_of_char)

lemma isdigit_digit [simp]: "d < 10 \<Longrightarrow> isdigit (digit d)"
  by (simp add: isdigit_def of_char_digit)

lemma decimal_isdigit: "c \<in> set (decimal n) \<Longrightarrow> isdigit c"
proof (induction n rule: decimal.induct)
  case (1 n)
  then show ?case by (cases "n < 10") (auto simp: decimal.simps[of n])
qed

lemma decimal_not_Nil [simp]: "decimal n \<noteq> []"
  by (simp add: decimal.simps[of n])

lemma foldl_decimal: "foldl (\<lambda>v c. 10 * v + (of_char c - 48)) 0 (decimal n) = int n"
proof (induction n rule: decimal.induct)
  case (1 n)
  show ?case
  proof (cases "n < 10")
    case True
    then show ?thesis by (simp add: decimal.simps[of n] of_char_digit_int)
  next
    case False
    then have "foldl (\<lambda>v c. 10 * v + (of_char c - 48)) 0 (decimal n) = 10 * int (n div 10) + int (n mod 10)"
      using 1 by (simp add: decimal.simps[of n] of_char_digit_int)
    then show ?thesis by presburger
  qed
qed

text \<open>A number behind which the string ends or goes on with another character is read back.\<close>

lemma strtol_decimal:
  assumes "rest = [] \<or> \<not> isdigit (hd rest)" and "n < 2 ^ 63"
  shows "strtol (decimal n @ rest) = int n"
proof -
  have v: "digits_value (decimal n @ rest) = int n"
    using assms(1) decimal_isdigit[of _ n] foldl_decimal[of n]
    by (cases rest) (auto simp: digits_value_def takeWhile_append2 takeWhile_eq_all_conv[THEN iffD2])
  obtain c cs where c: "decimal n = c # cs" "isdigit c"
    using decimal_isdigit[of _ n] by (cases "decimal n") auto
  then have "\<not> isspace c" "c \<noteq> CHR ''-''" "c \<noteq> CHR ''+''" by (auto simp: isdigit_def isspace_def)
  then show ?thesis using v c assms(2) by (simp add: strtol_def Let_def)
qed

section \<open>Files and folders\<close>

abbreviation (input) ENOENT_NR :: int where "ENOENT_NR \<equiv> 2"
abbreviation (input) EBADF_NR :: int where "EBADF_NR \<equiv> 9"
abbreviation (input) EEXIST_NR :: int where "EEXIST_NR \<equiv> 17"
abbreviation (input) ENOTDIR_NR :: int where "ENOTDIR_NR \<equiv> 20"
abbreviation (input) EISDIR_NR :: int where "EISDIR_NR \<equiv> 21"
abbreviation (input) EINVAL_NR :: int where "EINVAL_NR \<equiv> 22"
abbreviation (input) ENOTEMPTY_NR :: int where "ENOTEMPTY_NR \<equiv> 39"

text \<open>The outcome of a call: it works, it transfers at most that many bytes, or it fails with an error number.\<close>

datatype sys_out = Works | Short nat | Fails int

datatype node = Folder "(string \<times> buf) list" | File buf

record folder_store =
  st_items :: "(string \<times> node) list"
  st_calls :: nat

type_synonym 'a sys = "folder_store \<Rightarrow> (int + 'a) \<times> folder_store"

definition sys_call :: "(nat \<Rightarrow> sys_out) \<Rightarrow> (folder_store \<Rightarrow> nat option \<Rightarrow> (int + 'a) \<times> folder_store) \<Rightarrow> 'a sys" where
  "sys_call sys f st =
     (let st' = st\<lparr>st_calls := Suc (st_calls st)\<rparr> in
      case sys (st_calls st) of Fails e \<Rightarrow> (Inl e, st') | Works \<Rightarrow> f st' None | Short n \<Rightarrow> f st' (Some n))"

text \<open>The files of an open folder.\<close>

definition folder_files :: "folder_store \<Rightarrow> string option \<Rightarrow> int + (string \<times> buf) list" where
  "folder_files st fd =
     (case fd of None \<Rightarrow> Inl EBADF_NR
      | Some name \<Rightarrow>
          (case map_of (st_items st) name of
             None \<Rightarrow> Inl ENOENT_NR | Some (File b) \<Rightarrow> Inl ENOTDIR_NR | Some (Folder files) \<Rightarrow> Inr files))"

definition put_item :: "string \<Rightarrow> node \<Rightarrow> folder_store \<Rightarrow> folder_store" where
  "put_item name n st = st\<lparr>st_items := AList.update name n (st_items st)\<rparr>"

definition on_files ::
  "string option \<Rightarrow> ((string \<times> buf) list \<Rightarrow> int + 'a \<times> (string \<times> buf) list) \<Rightarrow> folder_store \<Rightarrow> (int + 'a) \<times> folder_store" where
  "on_files fd f st =
     (case folder_files st fd of
        Inl e \<Rightarrow> (Inl e, st)
      | Inr files \<Rightarrow>
          (case f files of Inl e \<Rightarrow> (Inl e, st) | Inr (x, files') \<Rightarrow> (Inr x, put_item (the fd) (Folder files') st)))"

text \<open>\<^verbatim>\<open>mkdirat\<close>, \<^verbatim>\<open>openat\<close> of a folder and \<^verbatim>\<open>rmdir\<close> in the output folder.\<close>

definition sys_mkdir :: "(nat \<Rightarrow> sys_out) \<Rightarrow> string \<Rightarrow> unit sys" where
  "sys_mkdir sys name = sys_call sys (\<lambda>st _.
     if map_of (st_items st) name \<noteq> None then (Inl EEXIST_NR, st) else (Inr (), put_item name (Folder []) st))"

definition sys_open_folder :: "(nat \<Rightarrow> sys_out) \<Rightarrow> string \<Rightarrow> string sys" where
  "sys_open_folder sys name = sys_call sys (\<lambda>st _.
     (case folder_files st (Some name) of Inl e \<Rightarrow> Inl e | Inr _ \<Rightarrow> Inr name, st))"

definition sys_rmdir :: "(nat \<Rightarrow> sys_out) \<Rightarrow> string \<Rightarrow> unit sys" where
  "sys_rmdir sys name = sys_call sys (\<lambda>st _.
     case folder_files st (Some name) of
       Inl e \<Rightarrow> (Inl e, st)
     | Inr files \<Rightarrow>
         if files \<noteq> [] then (Inl ENOTEMPTY_NR, st) else (Inr (), st\<lparr>st_items := AList.delete name (st_items st)\<rparr>))"

text \<open>\<^verbatim>\<open>openat\<close> of a file, with \<^verbatim>\<open>O_CREAT\<close> or without, in an open folder and in the output folder.\<close>

definition sys_openat :: "(nat \<Rightarrow> sys_out) \<Rightarrow> bool \<Rightarrow> string option \<Rightarrow> string \<Rightarrow> unit sys" where
  "sys_openat sys create fd name = sys_call sys (\<lambda>st _. on_files fd (\<lambda>files.
     if map_of files name \<noteq> None then Inr ((), files)
     else if create then Inr ((), AList.update name [] files) else Inl ENOENT_NR) st)"

definition sys_open_file :: "(nat \<Rightarrow> sys_out) \<Rightarrow> bool \<Rightarrow> string \<Rightarrow> unit sys" where
  "sys_open_file sys create name = sys_call sys (\<lambda>st _.
     case map_of (st_items st) name of
       None \<Rightarrow> if create then (Inr (), put_item name (File []) st) else (Inl ENOENT_NR, st)
     | Some (Folder _) \<Rightarrow> (Inl EISDIR_NR, st)
     | Some (File _) \<Rightarrow> (Inr (), st))"

text \<open>
  \<^verbatim>\<open>write\<close> at an offset: the number of written bytes. \<^verbatim>\<open>read\<close> of a whole file: the bytes. \<^verbatim>\<open>fsync\<close> and the
  creation of a thread only fail or not; \<^verbatim>\<open>close\<close> changes nothing. \<^verbatim>\<open>lseek\<close> takes no negative offset.
\<close>

definition transferred :: "nat option \<Rightarrow> nat \<Rightarrow> nat" where
  "transferred limit n = (case limit of None \<Rightarrow> n | Some m \<Rightarrow> min m n)"

definition sys_write :: "(nat \<Rightarrow> sys_out) \<Rightarrow> string option \<Rightarrow> string \<Rightarrow> nat \<Rightarrow> buf \<Rightarrow> nat sys" where
  "sys_write sys fd name off d = sys_call sys (\<lambda>st limit. on_files fd (\<lambda>files.
     case map_of files name of
       None \<Rightarrow> Inl EBADF_NR
     | Some b \<Rightarrow>
         let n = transferred limit (length d) in Inr (n, AList.update name (file_write b off (take n d)) files)) st)"

definition sys_write_file :: "(nat \<Rightarrow> sys_out) \<Rightarrow> string \<Rightarrow> nat \<Rightarrow> buf \<Rightarrow> nat sys" where
  "sys_write_file sys name off d = sys_call sys (\<lambda>st limit.
     case map_of (st_items st) name of
       Some (File b) \<Rightarrow>
         let n = transferred limit (length d) in (Inr n, put_item name (File (file_write b off (take n d))) st)
     | _ \<Rightarrow> (Inl EBADF_NR, st))"

definition sys_read :: "(nat \<Rightarrow> sys_out) \<Rightarrow> string option \<Rightarrow> string \<Rightarrow> nat \<Rightarrow> buf sys" where
  "sys_read sys fd name n = sys_call sys (\<lambda>st limit. on_files fd (\<lambda>files.
     case map_of files name of
       None \<Rightarrow> Inl EBADF_NR | Some b \<Rightarrow> Inr (take (transferred limit (min n (length b))) b, files)) st)"

definition sys_stat_size :: "(nat \<Rightarrow> sys_out) \<Rightarrow> string option \<Rightarrow> string \<Rightarrow> nat sys" where
  "sys_stat_size sys fd name = sys_call sys (\<lambda>st _. on_files fd (\<lambda>files.
     case map_of files name of None \<Rightarrow> Inl EBADF_NR | Some b \<Rightarrow> Inr (length b, files)) st)"

definition sys_read_file :: "(nat \<Rightarrow> sys_out) \<Rightarrow> string \<Rightarrow> nat \<Rightarrow> nat \<Rightarrow> buf sys" where
  "sys_read_file sys name off n = sys_call sys (\<lambda>st limit.
     case map_of (st_items st) name of
       Some (File b) \<Rightarrow> (Inr (take (transferred limit (min n (length b - off))) (drop off b)), st)
     | _ \<Rightarrow> (Inl EBADF_NR, st))"

definition sys_sync :: "(nat \<Rightarrow> sys_out) \<Rightarrow> unit sys" where
  "sys_sync sys = sys_call sys (\<lambda>st _. (Inr (), st))"

definition sys_lseek :: "(nat \<Rightarrow> sys_out) \<Rightarrow> u64 \<Rightarrow> unit sys" where
  "sys_lseek sys off = sys_call sys (\<lambda>st _. (if sint off < 0 then Inl EINVAL_NR else Inr (), st))"

definition sys_file_size :: "(nat \<Rightarrow> sys_out) \<Rightarrow> string \<Rightarrow> nat sys" where
  "sys_file_size sys name = sys_call sys (\<lambda>st _.
     case map_of (st_items st) name of Some (File b) \<Rightarrow> (Inr (length b), st) | _ \<Rightarrow> (Inl EBADF_NR, st))"

definition sys_unlink :: "(nat \<Rightarrow> sys_out) \<Rightarrow> string option \<Rightarrow> string \<Rightarrow> unit sys" where
  "sys_unlink sys fd name = sys_call sys (\<lambda>st _. on_files fd (\<lambda>files.
     if map_of files name = None then Inl ENOENT_NR else Inr ((), AList.delete name files)) st)"

text \<open>
  \<^verbatim>\<open>scandir\<close> with \<^verbatim>\<open>alphasort\<close>: the names in the order of their bytes, with \<open>.\<close> and \<open>..\<close>; the flag is \<^verbatim>\<open>d_type == DT_DIR\<close>.
\<close>

definition dirents :: "(string \<times> bool) list \<Rightarrow> (string \<times> bool) list" where
  "dirents items = sort_key fst ((''.'', True) # (''..'', True) # items)"

definition sys_scan_output :: "(nat \<Rightarrow> sys_out) \<Rightarrow> (string \<times> bool) list sys" where
  "sys_scan_output sys = sys_call sys (\<lambda>st _.
     (Inr (dirents (map (\<lambda>(name, n). (name, case n of Folder _ \<Rightarrow> True | File _ \<Rightarrow> False)) (st_items st))), st))"

definition sys_scan_folder :: "(nat \<Rightarrow> sys_out) \<Rightarrow> string \<Rightarrow> (string \<times> bool) list sys" where
  "sys_scan_folder sys name = sys_call sys (\<lambda>st _. on_files (Some name) (\<lambda>files.
     Inr (dirents (map (\<lambda>(name, _). (name, False)) files), files)) st)"

end
