(* ===== verification/RecoverTime.thy ===== *)
theory RecoverTime
  imports Prelude
begin

text \<open>
  \<^verbatim>\<open>sbin/recoverfs.ssdfs/snapshot.h\<close>: whether the time of creation of a log is inside the range the user asked for. The
  comparison fills the parts of the range the user did not give from the current time, so it returns the range, too.
\<close>

record ssdfs_time_range =
  tr_minute :: u32
  tr_hour :: u32
  tr_day :: u32
  tr_month :: u32
  tr_year :: u32

text \<open>\<^verbatim>\<open>struct tm\<close> of the C library: years since 1900, months since January.\<close>

record tm =
  tm_min :: int
  tm_hour :: int
  tm_mday :: int
  tm_mon :: int
  tm_year :: int

abbreviation (input) SSDFS_ANY :: u32 where "SSDFS_ANY \<equiv> U32_MAX"

datatype time_granularity =
  SSDFS_YEAR_GRANULARITY | SSDFS_MONTH_GRANULARITY | SSDFS_DAY_GRANULARITY | SSDFS_HOUR_GRANULARITY |
  SSDFS_MINUTE_GRANULARITY | SSDFS_CURRENT_TIMESTAMP_GRANULARITY

definition check_hour_granularity :: "ssdfs_time_range \<Rightarrow> time_granularity" where
  "check_hour_granularity snapshot =
     (if tr_hour snapshot \<noteq> SSDFS_ANY
      then (if tr_minute snapshot \<noteq> SSDFS_ANY then SSDFS_MINUTE_GRANULARITY else SSDFS_HOUR_GRANULARITY)
      else SSDFS_DAY_GRANULARITY)"

definition check_day_granularity :: "ssdfs_time_range \<Rightarrow> time_granularity" where
  "check_day_granularity snapshot =
     (if tr_day snapshot \<noteq> SSDFS_ANY then check_hour_granularity snapshot else SSDFS_MONTH_GRANULARITY)"

definition check_month_granularity :: "ssdfs_time_range \<Rightarrow> time_granularity" where
  "check_month_granularity snapshot =
     (if tr_month snapshot \<noteq> SSDFS_ANY then check_day_granularity snapshot else SSDFS_YEAR_GRANULARITY)"

definition ssdfs_recoverfs_timestamp_granularity :: "ssdfs_time_range \<Rightarrow> time_granularity" where
  "ssdfs_recoverfs_timestamp_granularity snapshot =
     (if tr_year snapshot \<noteq> SSDFS_ANY then check_month_granularity snapshot
      else if tr_month snapshot \<noteq> SSDFS_ANY then check_day_granularity snapshot
      else if tr_day snapshot \<noteq> SSDFS_ANY then check_hour_granularity snapshot
      else if tr_hour snapshot \<noteq> SSDFS_ANY
      then (if tr_minute snapshot \<noteq> SSDFS_ANY then SSDFS_MINUTE_GRANULARITY else SSDFS_HOUR_GRANULARITY)
      else SSDFS_CURRENT_TIMESTAMP_GRANULARITY)"

definition is_year_inside_range :: "ssdfs_time_range \<Rightarrow> tm \<Rightarrow> tm \<Rightarrow> bool \<times> ssdfs_time_range" where
  "is_year_inside_range snapshot current_time time =
     (let snapshot = (if tr_year snapshot = SSDFS_ANY
                      then snapshot\<lparr>tr_year := 1900 + word_of_int (tm_year current_time)\<rparr> else snapshot);
          calculated_year = 1900 + word_of_int (tm_year time) in
      (\<not> tr_year snapshot < calculated_year, snapshot))"

definition is_month_inside_range :: "ssdfs_time_range \<Rightarrow> tm \<Rightarrow> tm \<Rightarrow> bool \<times> ssdfs_time_range" where
  "is_month_inside_range snapshot current_time time =
     (case is_year_inside_range snapshot current_time time of
        (False, snapshot) \<Rightarrow> (False, snapshot)
      | (True, snapshot) \<Rightarrow>
          let snapshot = (if tr_month snapshot = SSDFS_ANY
                          then snapshot\<lparr>tr_month := word_of_int (tm_mon current_time + 1)\<rparr> else snapshot);
              calculated_month = word_of_int (tm_mon time + 1) in
          (\<not> tr_month snapshot < calculated_month, snapshot))"

text \<open>The comparison of an \<^verbatim>\<open>int\<close> with a \<^verbatim>\<open>u32\<close> converts the \<^verbatim>\<open>int\<close>.\<close>

definition is_day_inside_range :: "ssdfs_time_range \<Rightarrow> tm \<Rightarrow> tm \<Rightarrow> bool \<times> ssdfs_time_range" where
  "is_day_inside_range snapshot current_time time =
     (case is_month_inside_range snapshot current_time time of
        (False, snapshot) \<Rightarrow> (False, snapshot)
      | (True, snapshot) \<Rightarrow>
          let snapshot = (if tr_day snapshot = SSDFS_ANY
                          then snapshot\<lparr>tr_day := word_of_int (tm_mday current_time)\<rparr> else snapshot) in
          (\<not> tr_day snapshot < word_of_int (tm_mday time), snapshot))"

definition is_hour_inside_range :: "ssdfs_time_range \<Rightarrow> tm \<Rightarrow> tm \<Rightarrow> bool \<times> ssdfs_time_range" where
  "is_hour_inside_range snapshot current_time time =
     (case is_day_inside_range snapshot current_time time of
        (False, snapshot) \<Rightarrow> (False, snapshot)
      | (True, snapshot) \<Rightarrow>
          let snapshot = (if tr_hour snapshot = SSDFS_ANY
                          then snapshot\<lparr>tr_hour := word_of_int (tm_hour current_time)\<rparr> else snapshot) in
          (\<not> tr_hour snapshot < word_of_int (tm_hour time), snapshot))"

definition is_minute_inside_range :: "ssdfs_time_range \<Rightarrow> tm \<Rightarrow> bool" where
  "is_minute_inside_range snapshot time =
     (if tr_year snapshot = SSDFS_ANY \<or> tr_month snapshot = SSDFS_ANY \<or> tr_day snapshot = SSDFS_ANY \<or>
         tr_hour snapshot = SSDFS_ANY \<or> tr_minute snapshot = SSDFS_ANY then True
      else
        \<not> (tr_year snapshot < word_of_int (tm_year time) \<or> tr_month snapshot < word_of_int (tm_mon time) \<or>
           tr_day snapshot < word_of_int (tm_mday time) \<or> tr_hour snapshot < word_of_int (tm_hour time) \<or>
           tr_minute snapshot < word_of_int (tm_min time)))"

text \<open>\<open>localtime\<close> is \<^verbatim>\<open>ssdfs_nanoseconds_to_localtime\<close>, which depends on the time zone, and \<open>now\<close> the current time.\<close>

definition is_timestamp_inside_range ::
  "(u64 \<Rightarrow> tm) \<Rightarrow> u64 \<Rightarrow> ssdfs_time_range \<Rightarrow> u64 \<Rightarrow> bool \<times> ssdfs_time_range" where
  "is_timestamp_inside_range localtime now snapshot timestamp =
     (let current_time = localtime now; time = localtime timestamp in
      case ssdfs_recoverfs_timestamp_granularity snapshot of
        SSDFS_YEAR_GRANULARITY \<Rightarrow> is_year_inside_range snapshot current_time time
      | SSDFS_MONTH_GRANULARITY \<Rightarrow> is_month_inside_range snapshot current_time time
      | SSDFS_DAY_GRANULARITY \<Rightarrow> is_day_inside_range snapshot current_time time
      | SSDFS_HOUR_GRANULARITY \<Rightarrow> is_hour_inside_range snapshot current_time time
      | SSDFS_MINUTE_GRANULARITY \<Rightarrow> (is_minute_inside_range snapshot time, snapshot)
      | SSDFS_CURRENT_TIMESTAMP_GRANULARITY \<Rightarrow> (True, snapshot))"

end
