(* ===== verification/RecoverPeb.thy ===== *)
theory RecoverPeb
  imports FsckDetect FolderStore RecoverTime
begin

text \<open>
  \<^verbatim>\<open>sbin/recoverfs.ssdfs/peb_processing.c\<close>: a thread of the recovery goes over the logs of a PEB. For every log it creates a
  folder with the time of the log as its name, reads the table of block descriptors fragment by fragment, reads and
  decompresses the state of every block the table names, and writes it to a file in the folder, with the number of the inode
  and the page in the file as its name.

  The state of the thread is \<open>ssdfs_thread_state\<close>, with the folders it writes to. A failed read leaves the memory it would
  have filled as it is; no later code looks at that memory before it is cleared or filled.
\<close>

section \<open>The state of a thread\<close>

record ssdfs_peb_environment =
  pe_id :: u64
  pe_count :: u64
  pe_size :: u32
  pe_log_offset :: u32
  pe_log_size :: u32
  pe_log_index :: u32
  pe_logs_count :: u32

text \<open>\<open>ts_content\<close> is the buffer of the data file and \<open>ts_inode\<close> its inode number.\<close>

record ssdfs_thread_state =
  ts_base :: ssdfs_environment
  ts_peb :: ssdfs_peb_environment
  ts_dump :: ssdfs_raw_dump_environment
  ts_checkpoint :: "string option"
  ts_inode :: u64
  ts_content :: "buf option"
  ts_store :: folder_store

text \<open>
  What the program gets from outside: the device, the CRC and compression libraries, the contents of memory from \<^verbatim>\<open>realloc\<close>,
  the outcomes of the allocations (by place in the code and size) and of the calls of the system, the local time of a time
  in nanoseconds, and the current time behind a number of calls of the system.
\<close>

record 's recover_world =
  rw_rd :: dev_read
  rw_crc :: "buf \<Rightarrow> u32"
  rw_libs :: "'s codec_libs"
  rw_fresh :: "nat \<Rightarrow> u8"
  rw_alloc :: "nat \<Rightarrow> nat \<Rightarrow> bool"
  rw_sys :: "nat \<Rightarrow> sys_out"
  rw_localtime :: "u64 \<Rightarrow> tm"
  rw_now :: "nat \<Rightarrow> u64"

type_synonym 'a thread_run = "(ssdfs_thread_state, 'a) run"

abbreviation (input) SSDFS_4KB :: u32 where "SSDFS_4KB \<equiv> 4096"
abbreviation (input) SSDFS_COLD_PAYLOAD_AREA_INDEX :: nat where "SSDFS_COLD_PAYLOAD_AREA_INDEX \<equiv> 3"
abbreviation (input) SSDFS_WARM_PAYLOAD_AREA_INDEX :: nat where "SSDFS_WARM_PAYLOAD_AREA_INDEX \<equiv> 4"
abbreviation (input) SSDFS_HOT_PAYLOAD_AREA_INDEX :: nat where "SSDFS_HOT_PAYLOAD_AREA_INDEX \<equiv> 5"
abbreviation (input) SSDFS_BLK_DESC_AREA_INDEX :: nat where "SSDFS_BLK_DESC_AREA_INDEX \<equiv> 6"

definition area_env :: "nat \<Rightarrow> ssdfs_thread_state \<Rightarrow> ssdfs_raw_area_environment" where
  "area_env i s = dump_desc (ts_dump s) ! i"

definition put_area_env :: "nat \<Rightarrow> ssdfs_raw_area_environment \<Rightarrow> ssdfs_thread_state \<Rightarrow> ssdfs_thread_state" where
  "put_area_env i e s = s\<lparr>ts_dump := (ts_dump s)\<lparr>dump_desc := (dump_desc (ts_dump s))[i := e]\<rparr>\<rparr>"

definition seg_hdr_env :: "ssdfs_thread_state \<Rightarrow> ssdfs_raw_area_environment" where
  "seg_hdr_env s = dump_seg_hdr (ts_dump s)"

definition put_seg_hdr_env :: "ssdfs_raw_area_environment \<Rightarrow> ssdfs_thread_state \<Rightarrow> ssdfs_thread_state" where
  "put_seg_hdr_env e s = s\<lparr>ts_dump := (ts_dump s)\<lparr>dump_seg_hdr := e\<rparr>\<rparr>"

definition modify_peb :: "(ssdfs_peb_environment \<Rightarrow> ssdfs_peb_environment) \<Rightarrow> unit thread_run" where
  "modify_peb f = modify (\<lambda>s. s\<lparr>ts_peb := f (ts_peb s)\<rparr>)"

text \<open>The buffers of a thread, as parts of its state.\<close>

definition area_buffer :: "nat \<Rightarrow> (ssdfs_raw_buffer, 'a) run \<Rightarrow> 'a thread_run" where
  "area_buffer i = zoom (\<lambda>s. ae_buffer (area_env i s)) (\<lambda>b s. put_area_env i ((area_env i s)\<lparr>ae_buffer := b\<rparr>) s)"

definition uncompr_buffer :: "nat \<Rightarrow> (ssdfs_raw_buffer, 'a) run \<Rightarrow> 'a thread_run" where
  "uncompr_buffer i =
     zoom (\<lambda>s. ar_uncompressed (ae_area (area_env i s)))
       (\<lambda>b s. put_area_env i ((area_env i s)\<lparr>ae_area := (ae_area (area_env i s))\<lparr>ar_uncompressed := b\<rparr>\<rparr>) s)"

definition dump_data :: "(ssdfs_raw_buffer, 'a) run \<Rightarrow> 'a thread_run" where
  "dump_data = zoom (\<lambda>s. dump_content (ts_dump s)) (\<lambda>b s. s\<lparr>ts_dump := (ts_dump s)\<lparr>dump_content := b\<rparr>\<rparr>)"

definition seg_hdr_buffer :: "(ssdfs_raw_buffer, 'a) run \<Rightarrow> 'a thread_run" where
  "seg_hdr_buffer = zoom (\<lambda>s. ae_buffer (seg_hdr_env s)) (\<lambda>b s. put_seg_hdr_env ((seg_hdr_env s)\<lparr>ae_buffer := b\<rparr>) s)"

text \<open>The memory of a buffer, and what is written to it.\<close>

definition memory_of :: "ssdfs_raw_buffer \<Rightarrow> buf res" where
  "memory_of rb = deref (rb_ptr rb)"

definition fill_buffer :: "nat \<Rightarrow> buf \<Rightarrow> (ssdfs_raw_buffer, unit) run" where
  "fill_buffer off d rb =
     (case bnd (memory_of rb) (\<lambda>mem. wr mem off d) of
        Inl f \<Rightarrow> Some (Inl f) | Inr mem \<Rightarrow> ret () (rb\<lparr>rb_ptr := Some mem\<rparr>))"

section \<open>Logs of a PEB\<close>

text \<open>\<^verbatim>\<open>errno\<close> of a failed call of the system is returned as it is.\<close>

definition sys_run :: "'a sys \<Rightarrow> 'a thread_run" where
  "sys_run m s = (case m (ts_store s) of
     (Inl e, st) \<Rightarrow> throw (LIB_CODE e) (s\<lparr>ts_store := st\<rparr>)
   | (Inr x, st) \<Rightarrow> ret x (s\<lparr>ts_store := st\<rparr>))"

definition ssdfs_recoverfs_create_folder :: "'s recover_world \<Rightarrow> u64 \<Rightarrow> unit thread_run" where
  "ssdfs_recoverfs_create_folder w timestamp =
     (let name = decimal (unat timestamp) in
      attempt_run (sys_run (sys_mkdir (rw_sys w) name)) (\<lambda>r.
      sbnd (case r of Inl e \<Rightarrow> throw_if (e \<noteq> LIB_CODE EEXIST_NR) e | Inr _ \<Rightarrow> ret ()) (\<lambda>_.
      attempt_run (sys_run (sys_open_folder (rw_sys w) name)) (\<lambda>r. case r of
        Inl e \<Rightarrow> sbnd (modify (\<lambda>s. s\<lparr>ts_checkpoint := None\<rparr>)) (\<lambda>_. throw e)
      | Inr fd \<Rightarrow> modify (\<lambda>s. s\<lparr>ts_checkpoint := Some fd\<rparr>)))))"

text \<open>The search for the next header, in steps of 4 KiB.\<close>

definition read_peb_header :: "'s recover_world \<Rightarrow> u32 \<Rightarrow> buf thread_run" where
  "read_peb_header w offset s =
     sbnd (lift_res (ssdfs_read_segment_header (rw_rd w) (pe_id (ts_peb s)) (pe_size (ts_peb s)) offset
             (rb_size (ae_buffer (seg_hdr_env s))))) (\<lambda>d.
     sbnd (seg_hdr_buffer (fill_buffer 0 d)) (\<lambda>_.
     sbnd (get_state (\<lambda>s. memory_of (ae_buffer (seg_hdr_env s)))) lift_res)) s"

fun find_valid_log_from :: "'s recover_world \<Rightarrow> nat list \<Rightarrow> unit thread_run" where
  "find_valid_log_from w [] = throw ENODATA"
| "find_valid_log_from w (i # is) =
     (let offset = of_nat i * SSDFS_4KB in
      sbnd (read_peb_header w offset) (\<lambda>hdr.
      if get32 hdr 0 = SSDFS_SUPER_MAGIC then
        sbnd (modify (\<lambda>s. put_seg_hdr_env
                ((seg_hdr_env s)\<lparr>ae_area := (ae_area (seg_hdr_env s))\<lparr>ar_offset := ucast offset\<rparr>\<rparr>) s)) (\<lambda>_.
        modify_peb (\<lambda>peb. peb\<lparr>pe_log_offset := offset, pe_log_size := SSDFS_4KB, pe_log_index := of_nat i\<rparr>))
      else find_valid_log_from w is))"

definition ssdfs_recoverfs_find_valid_log :: "'s recover_world \<Rightarrow> unit thread_run" where
  "ssdfs_recoverfs_find_valid_log w s =
     find_valid_log_from w [unat (pe_log_index (ts_peb s))..<unat (pe_logs_count (ts_peb s))] s"

text \<open>\<open>place\<close> is the call in the code. The memory of a buffer is cleared over its whole size.\<close>

definition ssdfs_recoverfs_prepare_raw_buffer :: "'s recover_world \<Rightarrow> nat \<Rightarrow> u32 \<Rightarrow> (ssdfs_raw_buffer, unit) run" where
  "ssdfs_recoverfs_prepare_raw_buffer w place buf_size rb =
     (let fresh = rb\<lparr>rb_ptr := Some (replicate (unat buf_size) 0), rb_size := buf_size\<rparr> in
      case rb_ptr rb of
        None \<Rightarrow> if rw_alloc w place (unat buf_size) then ret () fresh else throw ENOMEM rb
      | Some old \<Rightarrow>
          if rb_size rb < buf_size then
            (if rw_alloc w place (unat buf_size) then ret () fresh else throw ENOMEM (rb\<lparr>rb_ptr := None\<rparr>))
          else
            (case memset old 0 0 (unat (rb_size rb)) of
               Inl f \<Rightarrow> Some (Inl f) | Inr mem \<Rightarrow> ret () (rb\<lparr>rb_ptr := Some mem\<rparr>)))"

text \<open>The header in memory: the size of the log, and the offset and size of its table of block descriptors.\<close>

definition blk_desc_area :: "buf \<Rightarrow> (u32 \<times> u32 \<times> u32) res" where
  "blk_desc_area hdr =
     (if is_ssdfs_segment_header hdr then
        bnd (shift_1 (get8 hdr 0x10)) (\<lambda>pagesize.
        Inr (ucast (get16 hdr 0x410) * pagesize, area_desc hdr 0x418 SSDFS_BLK_DESC_AREA_INDEX))
      else if is_ssdfs_partial_log_header hdr then Inr (get32 hdr 0x28, area_desc hdr 0x30 SSDFS_BLK_DESC_AREA_INDEX)
      else Inl (Errno ERANGE))"

definition ssdfs_recoverfs_prefetch_blk_desc_table :: "'s recover_world \<Rightarrow> unit thread_run" where
  "ssdfs_recoverfs_prefetch_blk_desc_table w =
     sbnd (sbnd (get_state (\<lambda>s. memory_of (ae_buffer (seg_hdr_env s)))) lift_res) (\<lambda>hdr.
     sbnd (lift_res (blk_desc_area hdr)) (\<lambda>(log_size, offset, size').
     sbnd (modify_peb (\<lambda>peb. peb\<lparr>pe_log_size := log_size\<rparr>)) (\<lambda>_.
     sbnd (area_buffer SSDFS_BLK_DESC_AREA_INDEX (ssdfs_recoverfs_prepare_raw_buffer w 1 size')) (\<lambda>_.
     sbnd (get_state ts_peb) (\<lambda>peb.
     sbnd (lift_res (ssdfs_read_blk_desc_array (rw_rd w) (pe_id peb) (pe_size peb) offset size')) (\<lambda>d.
     area_buffer SSDFS_BLK_DESC_AREA_INDEX (fill_buffer 0 d)))))))"

definition ssdfs_recoverfs_define_next_log_index :: "u32 \<Rightarrow> u32 \<Rightarrow> ssdfs_peb_environment \<Rightarrow> u32 \<times> ssdfs_peb_environment" where
  "ssdfs_recoverfs_define_next_log_index latest_area_offset latest_area_size peb =
     (if 0 < latest_area_offset \<and> 0 < latest_area_size then
        let log_size = latest_area_offset + latest_area_size;
            log_size = (if pe_log_offset peb < log_size then log_size - pe_log_offset peb else SSDFS_4KB) in
        ((log_size + SSDFS_4KB - 1) div SSDFS_4KB + pe_log_index peb, peb\<lparr>pe_log_size := log_size\<rparr>)
      else (pe_log_index peb + 1, peb))"

section \<open>The table of block descriptors\<close>

text \<open>
  The functions here work on the environment of the area: its buffer holds the table as it is on the device, the metadata the
  header of the current portion, and the uncompressed buffer the current fragment.
\<close>

type_synonym 'a area_run = "(ssdfs_raw_area_environment, 'a) run"

abbreviation (input) SSDFS_CHAIN_HDR_MAGIC :: u8 where "SSDFS_CHAIN_HDR_MAGIC \<equiv> 0x63"
abbreviation (input) SSDFS_FRAGMENT_DESC_MAGIC :: u8 where "SSDFS_FRAGMENT_DESC_MAGIC \<equiv> 0x66"
abbreviation (input) sizeof_area_block_table :: nat where "sizeof_area_block_table \<equiv> 256"
abbreviation (input) sizeof_block_descriptor :: nat where "sizeof_block_descriptor \<equiv> 64"

definition content_buffer :: "(ssdfs_raw_buffer, 'a) run \<Rightarrow> 'a area_run" where
  "content_buffer = zoom (\<lambda>e. ar_uncompressed (ae_area e)) (\<lambda>b e. e\<lparr>ae_area := (ae_area e)\<lparr>ar_uncompressed := b\<rparr>\<rparr>)"

definition ssdfs_read_portion_header :: "u32 \<Rightarrow> unit area_run" where
  "ssdfs_read_portion_header offset env =
     sbnd (lift_res (bnd (memory_of (ae_buffer env)) (\<lambda>mem.
             bnd (rd mem (unat offset) sizeof_area_block_table) (wr (ar_metadata (ae_area env)) 0)))) (\<lambda>m.
     modify (\<lambda>e. e\<lparr>ae_area := (ae_area e)\<lparr>ar_metadata := m\<rparr>\<rparr>)) env"

text \<open>
  The contents of a fragment: copied (\<open>bytes\<close> of them) when it is not compressed, or through the wrapper of its library.
\<close>

definition unpack_fragment ::
  "'s recover_world \<Rightarrow> blob option \<Rightarrow> buf \<Rightarrow> nat \<Rightarrow> u32 \<Rightarrow> u32 \<Rightarrow> nat \<Rightarrow> (ssdfs_raw_buffer, unit) run" where
  "unpack_fragment w method src off compr_size uncompr_size bytes rb =
     (case method of
        None \<Rightarrow> (case rd src off bytes of Inl f \<Rightarrow> Some (Inl f) | Inr d \<Rightarrow> fill_buffer 0 d rb)
      | Some blob \<Rightarrow>
          obnd (Some (memory_of rb)) (\<lambda>dst.
          case blob_decompress (rw_libs w) blob (drop off src) dst compr_size uncompr_size of
            None \<Rightarrow> None
          | Some (Inl (Errno e)) \<Rightarrow> throw e rb
          | Some (Inl f) \<Rightarrow> Some (Inl f)
          | Some (Inr d) \<Rightarrow> ret () (rb\<lparr>rb_ptr := Some d\<rparr>)))"

definition check_fragment_csum :: "'s recover_world \<Rightarrow> u8 \<Rightarrow> u32 \<Rightarrow> u32 \<Rightarrow> (ssdfs_raw_buffer, unit) run" where
  "check_fragment_csum w flags checksum uncompr_size rb =
     (if flags AND 1 = 0 then ret () rb
      else
        sbnd (lift_res (bnd (memory_of rb) (\<lambda>mem. ssdfs_crc32_le (rw_crc w) mem 0 (unat uncompr_size)))) (\<lambda>csum.
        throw_if (csum \<noteq> checksum) EIO) rb)"

text \<open>The types of the fragments of descriptors: 5 plain, 6 zlib, 7 LZO, 0x10 LZ4, 0x14 Zstandard.\<close>

definition blk_desc_codec :: "u8 \<Rightarrow> blob option res" where
  "blk_desc_codec ty =
     (if ty = 5 then Inr None else if ty = 6 then Inr (Some Zlib_blob) else if ty = 7 then Inr (Some Lzo_blob)
      else if ty = 0x10 then Inr (Some Lz4_blob) else if ty = 0x14 then Inr (Some Zstd_blob) else Inl (Errno ERANGE))"

definition ssdfs_copy_blk_desc_fragment :: "'s recover_world \<Rightarrow> nat \<Rightarrow> unit area_run" where
  "ssdfs_copy_blk_desc_fragment w fragment_index env =
     (let tbl = ar_metadata (ae_area env); desc = 16 + 16 * fragment_index; offset = get32 tbl desc;
          compr_size = ucast (get16 tbl (desc + 4)); uncompr_size = ucast (get16 tbl (desc + 6)) in
      sbnd (throw_if (get8 tbl 12 \<noteq> SSDFS_CHAIN_HDR_MAGIC) EIO) (\<lambda>_.
      sbnd (throw_if (get8 tbl 13 \<notin> {3, 4, 5, 0xA, 0xC}) ERANGE) (\<lambda>_.
      sbnd (throw_if (15 \<le> fragment_index) ERANGE) (\<lambda>_.
      sbnd (throw_if (get8 tbl (desc + 13) \<noteq> SSDFS_FRAGMENT_DESC_MAGIC) ENODATA) (\<lambda>_.
      sbnd (throw_if (rb_size (ae_buffer env) < offset + compr_size) EIO) (\<lambda>_.
      sbnd (content_buffer (ssdfs_recoverfs_prepare_raw_buffer w 2 uncompr_size)) (\<lambda>_.
      sbnd (lift_res (blk_desc_codec (get8 tbl (desc + 14)))) (\<lambda>method.
      sbnd (lift_res (memory_of (ae_buffer env))) (\<lambda>src.
      sbnd (content_buffer (unpack_fragment w method src (unat offset) compr_size uncompr_size (unat compr_size))) (\<lambda>_.
      sbnd (content_buffer (check_fragment_csum w (get8 tbl (desc + 15)) (get32 tbl (desc + 8)) uncompr_size)) (\<lambda>_.
      modify (\<lambda>e. e\<lparr>ae_area := (ae_area e)\<lparr>ar_iter :=
        SSDFS_INIT_CONTENT_ITERATOR (of_nat sizeof_area_block_table) (get32 tbl 4) (int fragment_index) uncompr_size 0
          (of_nat sizeof_block_descriptor)\<rparr>\<rparr>))))))))))) env)"

fun extract_fragment_from :: "'s recover_world \<Rightarrow> nat list \<Rightarrow> unit area_run" where
  "extract_fragment_from w [] = throw ENODATA"
| "extract_fragment_from w (i # is) =
     attempt_run (ssdfs_copy_blk_desc_fragment w i) (\<lambda>r. case r of
       Inr u \<Rightarrow> ret u | Inl e \<Rightarrow> if e = ENODATA then extract_fragment_from w is else throw e)"

definition ssdfs_extract_valid_blk_desc_fragment :: "'s recover_world \<Rightarrow> nat \<Rightarrow> unit area_run" where
  "ssdfs_extract_valid_blk_desc_fragment w start_fragment env =
     (let tbl = ar_metadata (ae_area env); fragments_count = get16 tbl 8;
          count = (if fragments_count = 0 then 14 else min fragments_count 14) in
      sbnd (throw_if (get8 tbl 12 \<noteq> SSDFS_CHAIN_HDR_MAGIC) EIO) (\<lambda>_.
      extract_fragment_from w [start_fragment..<unat count]) env)"

definition is_ssdfs_recoverfs_content_buffer_ready :: "ssdfs_raw_area_environment \<Rightarrow> bool" where
  "is_ssdfs_recoverfs_content_buffer_ready env \<longleftrightarrow> it_state (ar_iter (ae_area env)) \<noteq> CONTENT_UNKNOWN_STATE"

definition is_ssdfs_recoverfs_content_buffer_processed :: "ssdfs_raw_area_environment \<Rightarrow> bool" where
  "is_ssdfs_recoverfs_content_buffer_processed env \<longleftrightarrow> it_state (ar_iter (ae_area env)) = CONTENT_PROCESSED"

text \<open>Both functions are called for the area of the block descriptors only.\<close>

definition ssdfs_recoverfs_prepare_first_content_buffer :: "'s recover_world \<Rightarrow> unit area_run" where
  "ssdfs_recoverfs_prepare_first_content_buffer w env =
     sbnd (throw_if (rb_ptr (ae_buffer env) = None) ERANGE) (\<lambda>_.
     sbnd (ssdfs_read_portion_header 0) (\<lambda>_.
     ssdfs_extract_valid_blk_desc_fragment w 0)) env"

definition ssdfs_recoverfs_prepare_next_content_buffer :: "'s recover_world \<Rightarrow> unit area_run" where
  "ssdfs_recoverfs_prepare_next_content_buffer w env =
     (let tbl = ar_metadata (ae_area env); fragments_count = get16 tbl 8;
          start_fragment = word_of_int (it_fragment_index (ar_iter (ae_area env))) :: u16 in
      sbnd (throw_if (rb_ptr (ae_buffer env) = None) ERANGE) (\<lambda>_.
      sbnd (throw_if (get8 tbl 12 \<noteq> SSDFS_CHAIN_HDR_MAGIC) EIO) (\<lambda>_.
      sbnd (throw_if (fragments_count \<le> start_fragment) ERANGE) (\<lambda>_.
      sbnd (throw_if (start_fragment + 1 = fragments_count) ENODATA) (\<lambda>_.
      attempt_run (ssdfs_extract_valid_blk_desc_fragment w (unat (start_fragment + 1))) (\<lambda>r. case r of
        Inr u \<Rightarrow> ret u
      | Inl e \<Rightarrow>
          if e \<noteq> ENODATA then throw e
          else
            sbnd (get_state (\<lambda>e. ar_iter (ae_area e))) (\<lambda>iter.
            sbnd (ssdfs_read_portion_header (it_portion_offset iter + it_portion_size iter)) (\<lambda>_.
            ssdfs_extract_valid_blk_desc_fragment w 0))))))) env)"

text \<open>The next descriptor. The error of the increment is not returned.\<close>

definition next_content_buffer :: "'s recover_world \<Rightarrow> unit area_run" where
  "next_content_buffer w env =
     (if \<not> is_ssdfs_recoverfs_content_buffer_ready env then ssdfs_recoverfs_prepare_first_content_buffer w env
      else if is_ssdfs_recoverfs_content_buffer_processed env then ssdfs_recoverfs_prepare_next_content_buffer w env
      else ret () env)"

definition current_blk_desc :: "buf area_run" where
  "current_blk_desc env =
     (let iter = ar_iter (ae_area env); uncompressed = ar_uncompressed (ae_area env) in
      sbnd (throw_if (it_state iter \<noteq> CONTENT_ITERATOR_INITIALIZED) ERANGE) (\<lambda>_.
      sbnd (throw_if (rb_ptr uncompressed = None) ERANGE) (\<lambda>_.
      sbnd (throw_if (it_item_size iter \<noteq> of_nat sizeof_block_descriptor) ERANGE) (\<lambda>_.
      sbnd (throw_if (rb_size uncompressed < it_item_offset iter + it_item_size iter) ERANGE) (\<lambda>_.
      sbnd (lift_res (bnd (memory_of uncompressed) (\<lambda>mem. rd mem (unat (it_item_offset iter)) sizeof_block_descriptor))) (\<lambda>d.
      sbnd (modify (\<lambda>e. e\<lparr>ae_area := (ae_area e)\<lparr>ar_iter := snd (SSDFS_CONTENT_ITERATOR_INCREMENT iter)\<rparr>\<rparr>)) (\<lambda>_.
      ret d)))))) env)"

definition ssdfs_recoverfs_get_next_blk_desc :: "'s recover_world \<Rightarrow> buf area_run" where
  "ssdfs_recoverfs_get_next_blk_desc w = sbnd (next_content_buffer w) (\<lambda>_. current_blk_desc)"

section \<open>The state of a block\<close>

text \<open>A descriptor of the state of a block: its area, and the byte offset in the area.\<close>

definition IS_BLK_STATE_INVALID :: "buf \<Rightarrow> bool" where
  "IS_BLK_STATE_INVALID blk_state \<longleftrightarrow>
     U16_MAX \<le> get16 blk_state 0 \<or> U8_MAX \<le> get8 blk_state 2 \<or> U8_MAX \<le> get8 blk_state 3 \<or> U32_MAX \<le> get32 blk_state 4"

definition SSDFS_AREA_TYPE2INDEX :: "u8 \<Rightarrow> nat res" where
  "SSDFS_AREA_TYPE2INDEX ty =
     (if ty = 0 then Inr SSDFS_BLK_DESC_AREA_INDEX else if ty = 1 then Inr SSDFS_COLD_PAYLOAD_AREA_INDEX
      else if ty = 2 then Inr SSDFS_WARM_PAYLOAD_AREA_INDEX else if ty = 3 then Inr SSDFS_HOT_PAYLOAD_AREA_INDEX
      else Inl Bug)"

definition is_pagesize_valid :: "u32 \<Rightarrow> bool" where
  "is_pagesize_valid pagesize \<longleftrightarrow> pagesize \<in> {4096, 8192, 16384, 32768, 65536, 131072}"

definition ssdfs_recoverfs_read_raw_block_state :: "'s recover_world \<Rightarrow> buf \<Rightarrow> unit thread_run" where
  "ssdfs_recoverfs_read_raw_block_state w blk_state s =
     sbnd (lift_res (SSDFS_AREA_TYPE2INDEX (get8 blk_state 2))) (\<lambda>area_index.
     sbnd (get_state (\<lambda>s. ae_area (area_env area_index s))) (\<lambda>area.
     let offset = ar_offset area + ucast (get32 blk_state 4); block_size = env_page_size (ts_base s) in
     sbnd (throw_if (U64_MAX \<le> ar_offset area) ERANGE) (\<lambda>_.
     sbnd (throw_if (ar_offset area + ucast (ar_size area) \<le> offset) ERANGE) (\<lambda>_.
     sbnd (lift_res (BUG_ON (ucast U32_MAX \<le> offset))) (\<lambda>_.
     sbnd (throw_if (\<not> is_pagesize_valid block_size) ERANGE) (\<lambda>_.
     sbnd (area_buffer area_index (ssdfs_recoverfs_prepare_raw_buffer w 3 block_size)) (\<lambda>_.
     sbnd (lift_res (ssdfs_read_area_content (rw_rd w) (pe_id (ts_peb s)) (erase_size (ts_base s)) (ucast offset) block_size)) (\<lambda>d.
     area_buffer area_index (fill_buffer 0 d))))))))) s"

text \<open>The types of the fragments of a block: 1 plain, 2 zlib, 3 LZO, 15 LZ4, 19 Zstandard.\<close>

definition blk_state_codec :: "u8 \<Rightarrow> blob option res" where
  "blk_state_codec ty =
     (if ty = 1 then Inr None else if ty = 2 then Inr (Some Zlib_blob) else if ty = 3 then Inr (Some Lzo_blob)
      else if ty = 15 then Inr (Some Lz4_blob) else if ty = 19 then Inr (Some Zstd_blob) else Inl (Errno EIO))"

text \<open>The checksum is taken from the first descriptor, whatever the fragment is.\<close>

definition ssdfs_recoverfs_parse_block_fragment :: "'s recover_world \<Rightarrow> buf \<Rightarrow> nat \<Rightarrow> unit thread_run" where
  "ssdfs_recoverfs_parse_block_fragment w blk_state fragment_index s =
     sbnd (throw_if (\<not> is_pagesize_valid (env_page_size (ts_base s))) ERANGE) (\<lambda>_.
     sbnd (lift_res (SSDFS_AREA_TYPE2INDEX (get8 blk_state 2))) (\<lambda>area_index.
     sbnd (sbnd (get_state (\<lambda>s. memory_of (ae_buffer (area_env area_index s)))) lift_res) (\<lambda>compr.
     sbnd (lift_res (rd compr 0 32)) (\<lambda>state_desc.
     sbnd (throw_if (get8 state_desc 0x1C \<noteq> SSDFS_CHAIN_HDR_MAGIC) EIO) (\<lambda>_.
     if unat (get16 state_desc 0x18) \<le> fragment_index then ret ()
     else
       sbnd (lift_res (rd compr (32 + 16 * fragment_index) 16)) (\<lambda>frag_desc.
       sbnd (lift_res (rd compr 32 16)) (\<lambda>first_desc.
       let compr_size = ucast (get16 frag_desc 4); uncompr_size = ucast (get16 frag_desc 6);
           src_offset = get32 frag_desc 0 - get32 blk_state 4 in
       sbnd (throw_if (get8 frag_desc 13 \<noteq> SSDFS_FRAGMENT_DESC_MAGIC) ENODATA) (\<lambda>_.
       sbnd (throw_if (get32 frag_desc 0 < get32 blk_state 4) EIO) (\<lambda>_.
       sbnd (throw_if (SSDFS_4KB < compr_size) EIO) (\<lambda>_.
       sbnd (throw_if (SSDFS_4KB < uncompr_size) EIO) (\<lambda>_.
       sbnd (get_state (\<lambda>s. rb_size (ae_buffer (area_env area_index s)))) (\<lambda>buffer_size.
       sbnd (throw_if (buffer_size < src_offset + compr_size) EIO) (\<lambda>_.
       sbnd (uncompr_buffer area_index (ssdfs_recoverfs_prepare_raw_buffer w 4 SSDFS_4KB)) (\<lambda>_.
       sbnd (lift_res (blk_state_codec (get8 frag_desc 14))) (\<lambda>method.
       sbnd (uncompr_buffer area_index
               (unpack_fragment w method compr (unat src_offset) compr_size uncompr_size (unat uncompr_size))) (\<lambda>_.
       sbnd (uncompr_buffer area_index (check_fragment_csum w (get8 first_desc 15) (get32 first_desc 8) uncompr_size)) (\<lambda>_.
       sbnd (sbnd (get_state (\<lambda>s. bnd (memory_of (ar_uncompressed (ae_area (area_env area_index s)))) (\<lambda>mem. rd mem 0 4096)))
               lift_res) (\<lambda>d.
       dump_data (\<lambda>rb. if rb_ptr rb = None then Some (Inl Bug) else fill_buffer (fragment_index * 4096) d rb))))))))))))))))))) s"

definition parse_block_fragments :: "'s recover_world \<Rightarrow> buf \<Rightarrow> nat list \<Rightarrow> unit thread_run" where
  "parse_block_fragments w blk_state is = foldr (\<lambda>i k. sbnd (ssdfs_recoverfs_parse_block_fragment w blk_state i) (\<lambda>_. k)) is (ret ())"

definition ssdfs_recoverfs_parse_and_decompress_block_state :: "'s recover_world \<Rightarrow> buf \<Rightarrow> unit thread_run" where
  "ssdfs_recoverfs_parse_and_decompress_block_state w blk_state s =
     (let block_size = env_page_size (ts_base s); log_area = get8 blk_state 2 in
      sbnd (lift_res (SSDFS_AREA_TYPE2INDEX log_area)) (\<lambda>area_index.
      sbnd (throw_if (\<not> is_pagesize_valid block_size) ERANGE) (\<lambda>_.
      sbnd (dump_data (ssdfs_recoverfs_prepare_raw_buffer w 5 block_size)) (\<lambda>_.
      if log_area = 1 then
        sbnd (sbnd (get_state (\<lambda>s. rb_ptr (ae_buffer (area_env area_index s)))) (\<lambda>p.
               lift_res (case p of None \<Rightarrow> Inl Bug | Some mem \<Rightarrow> rd mem 0 (unat block_size)))) (\<lambda>d.
        dump_data (fill_buffer 0 d))
      else if log_area = 2 \<or> log_area = 3 then
        sbnd (throw_if (block_size div SSDFS_4KB = 0) ERANGE) (\<lambda>_.
        parse_block_fragments w blk_state [0..<unat (block_size div SSDFS_4KB)])
      else throw ERANGE))) s)"

text \<open>The deltas are not implemented in the program.\<close>

definition ssdfs_recoverfs_read_raw_block_delta :: "buf \<Rightarrow> unit thread_run" where
  "ssdfs_recoverfs_read_raw_block_delta blk_state = throw EOPNOTSUPP"

definition ssdfs_recoverfs_parse_and_decompress_delta :: "buf \<Rightarrow> unit thread_run" where
  "ssdfs_recoverfs_parse_and_decompress_delta blk_state = throw EOPNOTSUPP"

definition ssdfs_recoverfs_apply_delta :: "buf \<Rightarrow> unit thread_run" where
  "ssdfs_recoverfs_apply_delta blk_state = throw EOPNOTSUPP"

definition ssdfs_recoverfs_read_block_state :: "'s recover_world \<Rightarrow> nat \<Rightarrow> buf \<Rightarrow> unit thread_run" where
  "ssdfs_recoverfs_read_block_state w index blk_state =
     (if index = 0 then
        sbnd (ssdfs_recoverfs_read_raw_block_state w blk_state) (\<lambda>_.
        ssdfs_recoverfs_parse_and_decompress_block_state w blk_state)
      else
        sbnd (ssdfs_recoverfs_read_raw_block_delta blk_state) (\<lambda>_.
        sbnd (ssdfs_recoverfs_parse_and_decompress_delta blk_state) (\<lambda>_.
        ssdfs_recoverfs_apply_delta blk_state)))"

text \<open>The states of a descriptor up to the first invalid one; \<open>last_ok\<close> says whether one was read.\<close>

fun read_block_states :: "'s recover_world \<Rightarrow> buf \<Rightarrow> bool \<Rightarrow> nat list \<Rightarrow> unit thread_run" where
  "read_block_states w blk_desc last_ok [] = throw_if (\<not> last_ok) ENODATA"
| "read_block_states w blk_desc last_ok (i # is) =
     (let blk_state = bytes_at blk_desc (16 + 8 * i) 8 in
      if IS_BLK_STATE_INVALID blk_state then throw_if (\<not> last_ok) ENODATA
      else sbnd (ssdfs_recoverfs_read_block_state w i blk_state) (\<lambda>_. read_block_states w blk_desc True is))"

definition ssdfs_recoverfs_extract_block_state :: "'s recover_world \<Rightarrow> buf \<Rightarrow> unit thread_run" where
  "ssdfs_recoverfs_extract_block_state w blk_desc = read_block_states w blk_desc False [0..<6]"

text \<open>The name of the file of a block: the inode and the page in the file.\<close>

definition block_file_name :: "buf \<Rightarrow> string" where
  "block_file_name blk_desc = decimal (unat (get64 blk_desc 0)) @ ''-'' @ decimal (unat (get32 blk_desc 8))"

text \<open>A file that exists is written over. The number of the written bytes is not looked at.\<close>

definition ssdfs_recoverfs_copy_block_state :: "'s recover_world \<Rightarrow> buf \<Rightarrow> unit thread_run" where
  "ssdfs_recoverfs_copy_block_state w blk_desc s =
     (let name = block_file_name blk_desc; fd = ts_checkpoint s in
      attempt_run (sys_run (sys_openat (rw_sys w) False fd name)) (\<lambda>r.
      sbnd (case r of Inr _ \<Rightarrow> ret () | Inl _ \<Rightarrow> sys_run (sys_openat (rw_sys w) True fd name)) (\<lambda>_.
      sbnd (get_state (\<lambda>s. dump_content (ts_dump s))) (\<lambda>content.
      sbnd (lift_res (BUG_ON (rb_ptr content = None))) (\<lambda>_.
      sbnd (lift_res (bnd (memory_of content) (\<lambda>mem. rd mem 0 (unat (rb_size content))))) (\<lambda>d.
      sbnd (sys_run (sys_write (rw_sys w) fd name 0 d)) (\<lambda>_.
      sys_run (sys_sync (rw_sys w)))))))) s)"

section \<open>A log\<close>

text \<open>The loop over the descriptors; the error of the last block is the result.\<close>

definition recover_block :: "'s recover_world \<Rightarrow> buf \<Rightarrow> unit thread_run" where
  "recover_block w blk_desc =
     sbnd (ssdfs_recoverfs_extract_block_state w blk_desc) (\<lambda>_. ssdfs_recoverfs_copy_block_state w blk_desc)"

definition next_blk_desc :: "'s recover_world \<Rightarrow> buf thread_run" where
  "next_blk_desc w =
     zoom (area_env SSDFS_BLK_DESC_AREA_INDEX) (put_area_env SSDFS_BLK_DESC_AREA_INDEX) (ssdfs_recoverfs_get_next_blk_desc w)"

partial_function (option) recover_blocks ::
  "'s recover_world \<Rightarrow> errno option \<Rightarrow> ssdfs_thread_state \<Rightarrow> ((errno + unit) \<times> ssdfs_thread_state) res option" where
  "recover_blocks w err s =
     attempt_run (next_blk_desc w) (\<lambda>r. case r of
       Inl _ \<Rightarrow> (case err of None \<Rightarrow> ret () | Some e \<Rightarrow> throw e)
     | Inr blk_desc \<Rightarrow>
         attempt_run (recover_block w blk_desc) (\<lambda>r.
         recover_blocks w (case r of Inl e \<Rightarrow> Some e | Inr _ \<Rightarrow> None))) s"

text \<open>The areas of the log, from the descriptors of its header; the result is the last area of the log.\<close>

definition create_area :: "'s recover_world \<Rightarrow> (u32 \<times> u32) \<Rightarrow> nat \<Rightarrow> unit area_run" where
  "create_area w desc i env =
     (let offset = fst desc; size' = snd desc in
      case ssdfs_create_raw_area_environment (rw_alloc w 6 4096) (rw_fresh w) env (ucast offset) size'
             (ucast (SSDFS_AREA2BUFFER_SIZE (int i))) of
        Inl f \<Rightarrow> Some (Inl f)
      | Inr (Some e, env) \<Rightarrow> throw e env
      | Inr (None, env) \<Rightarrow>
          ret () (if size' \<noteq> 0 then env\<lparr>ae_area := (ae_area env)\<lparr>ar_offset := ucast offset, ar_size := size'\<rparr>\<rparr> else env))"

definition later_area :: "u32 \<Rightarrow> u32 \<times> u32 \<Rightarrow> u32 \<times> u32 \<Rightarrow> u32 \<times> u32" where
  "later_area peb_size desc latest =
     (if snd desc \<noteq> 0 \<and> fst latest < fst desc \<and> (ucast (fst desc) + ucast (snd desc) :: u64) < ucast peb_size
      then desc else latest)"

fun create_areas :: "'s recover_world \<Rightarrow> u32 \<Rightarrow> (nat \<Rightarrow> u32 \<times> u32) \<Rightarrow> nat list \<Rightarrow> u32 \<times> u32 \<Rightarrow> (u32 \<times> u32) thread_run" where
  "create_areas w peb_size desc [] latest = ret latest"
| "create_areas w peb_size desc (i # is) latest =
     sbnd (zoom (area_env i) (put_area_env i) (create_area w (desc i) i)) (\<lambda>_.
     create_areas w peb_size desc is (later_area peb_size (desc i) latest))"

text \<open>No folder is created for the logs of a superblock segment.\<close>

definition create_log_folder :: "'s recover_world \<Rightarrow> u16 \<Rightarrow> u64 \<Rightarrow> unit thread_run" where
  "create_log_folder w seg_type timestamp =
     (if seg_type = 0 \<or> seg_type = 1 then ret () else ssdfs_recoverfs_create_folder w timestamp)"

definition set_log_index :: "u32 \<Rightarrow> unit thread_run" where
  "set_log_index i = modify_peb (\<lambda>peb. peb\<lparr>pe_log_index := i\<rparr>)"

text \<open>
  The steps behind the creation of the areas: the table of block descriptors is read and its blocks are recovered. At the end
  the folder is closed and the index of the log becomes \<open>next_log_index\<close>, also after an error.
\<close>

definition recover_log_blocks :: "'s recover_world \<Rightarrow> unit thread_run" where
  "recover_log_blocks w s =
     (let area = ae_area (area_env SSDFS_BLK_DESC_AREA_INDEX s) in
      sbnd (throw_if (ucast (pe_size (ts_peb s)) \<le> ar_offset area \<or> ar_size area = 0) ERANGE) (\<lambda>_.
      sbnd (ssdfs_recoverfs_prefetch_blk_desc_table w) (\<lambda>_.
      recover_blocks w None)) s)"

definition finish_log :: "unit thread_run \<Rightarrow> u32 \<Rightarrow> unit thread_run" where
  "finish_log m next_log_index =
     attempt_run m (\<lambda>r.
     sbnd (modify (\<lambda>s. s\<lparr>ts_checkpoint := None\<rparr>)) (\<lambda>_.
     sbnd (set_log_index next_log_index) (\<lambda>_.
     case r of Inl e \<Rightarrow> throw e | Inr u \<Rightarrow> ret u)))"

text \<open>The index of the log behind a full log, from its footer, or from its last area when there is no footer.\<close>

definition read_full_log_footer :: "'s recover_world \<Rightarrow> u32 \<times> u32 \<Rightarrow> u32 thread_run" where
  "read_full_log_footer w latest s =
     (let area = ae_area (area_env SSDFS_LOG_FOOTER_INDEX s);
          by_area = (\<lambda>s. case ssdfs_recoverfs_define_next_log_index (fst latest) (snd latest) (ts_peb s) of
                       (i, peb) \<Rightarrow> ret i (s\<lparr>ts_peb := peb\<rparr>)) in
      if U64_MAX \<le> ar_offset area then by_area s
      else
        sbnd (get_state (\<lambda>s. rb_size (ae_buffer (area_env SSDFS_LOG_FOOTER_INDEX s)))) (\<lambda>buffer_size.
        sbnd (area_buffer SSDFS_LOG_FOOTER_INDEX (ssdfs_recoverfs_prepare_raw_buffer w 7 SSDFS_4KB)) (\<lambda>_.
        sbnd (lift_res (ssdfs_read_log_footer (rw_rd w) (pe_id (ts_peb s)) (pe_size (ts_peb s)) (ucast (ar_offset area))
                (min (ar_size area) buffer_size))) (\<lambda>d.
        sbnd (area_buffer SSDFS_LOG_FOOTER_INDEX (fill_buffer 0 d)) (\<lambda>_.
        sbnd (sbnd (get_state (\<lambda>s. memory_of (ae_buffer (area_env SSDFS_LOG_FOOTER_INDEX s)))) lift_res) (\<lambda>footer.
        if is_ssdfs_log_footer footer then
          (\<lambda>s. let log_bytes = get32 footer 0x410 in
               ret ((log_bytes + SSDFS_4KB - 1) div SSDFS_4KB + pe_log_index (ts_peb s))
                 (s\<lparr>ts_peb := (ts_peb s)\<lparr>pe_log_size := log_bytes\<rparr>\<rparr>))
        else by_area))))) s)"

definition ssdfs_recoverfs_parse_full_log :: "'s recover_world \<Rightarrow> buf \<Rightarrow> unit thread_run" where
  "ssdfs_recoverfs_parse_full_log w hdr s =
     (let next_log_index = pe_log_index (ts_peb s) + 1 in
      attempt_run (sbnd (create_log_folder w (get16 hdr 0x412) (get64 hdr 0x400)) (\<lambda>_.
                   create_areas w (pe_size (ts_peb s)) (area_desc hdr 0x418) [0..<SSDFS_SEG_HDR_DESC_MAX] (0, 0))) (\<lambda>r. case r of
        Inl e \<Rightarrow> sbnd (set_log_index next_log_index) (\<lambda>_. throw e)
      | Inr latest \<Rightarrow>
          attempt_run (read_full_log_footer w latest) (\<lambda>r. case r of
            Inl e \<Rightarrow> finish_log (throw e) next_log_index
          | Inr next_log_index \<Rightarrow> finish_log (recover_log_blocks w) next_log_index)) s)"

definition ssdfs_recoverfs_parse_partial_log :: "'s recover_world \<Rightarrow> buf \<Rightarrow> unit thread_run" where
  "ssdfs_recoverfs_parse_partial_log w hdr s =
     (let log_bytes = get32 hdr 0x28; next_log_index = pe_log_index (ts_peb s) + 1 in
      attempt_run (sbnd (create_log_folder w (get16 hdr 0x22) (get64 hdr 0x10)) (\<lambda>_.
                   create_areas w (pe_size (ts_peb s)) (area_desc hdr 0x30) [0..<SSDFS_SEG_HDR_DESC_MAX] (0, 0))) (\<lambda>r. case r of
        Inl e \<Rightarrow> sbnd (set_log_index next_log_index) (\<lambda>_. throw e)
      | Inr _ \<Rightarrow>
          sbnd (modify_peb (\<lambda>peb. peb\<lparr>pe_log_size := log_bytes\<rparr>)) (\<lambda>_.
          finish_log (recover_log_blocks w)
            ((log_bytes + SSDFS_4KB - 1) div SSDFS_4KB + pe_log_index (ts_peb s)))) s)"

section \<open>A PEB\<close>

text \<open>One turn of the loop over the logs: whether the loop is over.\<close>

definition create_header_area :: "'s recover_world \<Rightarrow> unit thread_run" where
  "create_header_area w s =
     (case ssdfs_create_raw_area_environment (rw_alloc w 8 4096) (rw_fresh w) (seg_hdr_env s)
             (ucast (pe_log_offset (ts_peb s))) sizeof_segment_header 4096 of
        Inl f \<Rightarrow> Some (Inl f)
      | Inr (Some e, env) \<Rightarrow> throw e (put_seg_hdr_env env s)
      | Inr (None, env) \<Rightarrow> ret () (put_seg_hdr_env env s))"

definition recover_log :: "'s recover_world \<Rightarrow> bool thread_run" where
  "recover_log w =
     sbnd (create_header_area w) (\<lambda>_.
     attempt_run (ssdfs_recoverfs_find_valid_log w) (\<lambda>r. case r of
       Inl e \<Rightarrow> if e = ENODATA then ret True else throw e
     | Inr _ \<Rightarrow>
         sbnd (sbnd (get_state (\<lambda>s. memory_of (ae_buffer (seg_hdr_env s)))) lift_res) (\<lambda>hdr.
         if is_ssdfs_segment_header hdr then attempt_run (ssdfs_recoverfs_parse_full_log w hdr) (\<lambda>_. ret False)
         else if is_ssdfs_partial_log_header hdr then attempt_run (ssdfs_recoverfs_parse_partial_log w hdr) (\<lambda>_. ret False)
         else if is_ssdfs_log_footer hdr then
           sbnd (modify_peb (\<lambda>peb. peb\<lparr>pe_log_index := pe_log_index peb + 1\<rparr>)) (\<lambda>_. ret False)
         else throw ERANGE)))"

partial_function (option) recover_logs ::
  "'s recover_world \<Rightarrow> u32 \<Rightarrow> ssdfs_thread_state \<Rightarrow> ((errno + unit) \<times> ssdfs_thread_state) res option" where
  "recover_logs w logs_count s =
     sbnd (recover_log w) (\<lambda>finished.
     sbnd (get_state (\<lambda>s. pe_log_index (ts_peb s))) (\<lambda>log_index.
     if finished \<or> \<not> log_index < logs_count then ret () else recover_logs w logs_count)) s"

definition ssdfs_recoverfs_process_peb :: "'s recover_world \<Rightarrow> unit thread_run" where
  "ssdfs_recoverfs_process_peb w s =
     sbnd (set_log_index 0) (\<lambda>_.
     sbnd (lift_res (BUG_ON (rb_ptr (ae_buffer (seg_hdr_env s)) = None))) (\<lambda>_.
     recover_logs w (erase_size (ts_base s) div SSDFS_4KB))) s"

end
