(* ===== verification/RecoverFiles.thy ===== *)
theory RecoverFiles
  imports RecoverPeb
begin

text \<open>
  \<^verbatim>\<open>sbin/recoverfs.ssdfs/file_synthesis.c\<close>, \<^verbatim>\<open>delete_folder.c\<close> and \<^verbatim>\<open>inline_files.c\<close>: the files of the volume are put together
  from the files of the blocks, folder by folder in the order of their times; the folders are deleted, and the files kept
  inside the inodes are written.

  A thread of the synthesis works for one inode. Threads of one round work on the files of different inodes, so the model
  runs each of them when it is created. The folders that a thread scans are those of the program's scan of the output folder.
\<close>

section \<open>Names of files\<close>

definition atoll :: "string \<Rightarrow> u64" where
  "atoll s = word_of_int (strtol s)"

definition has_delimiter :: "string \<Rightarrow> bool" where
  "has_delimiter file_name \<longleftrightarrow> CHR ''-'' \<in> set file_name \<and> hd file_name \<noteq> CHR ''-''"

definition ssdfs_recoverfs_extract_inode_id :: "string \<Rightarrow> u64" where
  "ssdfs_recoverfs_extract_inode_id file_name =
     (if has_delimiter file_name then atoll (takeWhile (\<lambda>c. c \<noteq> CHR ''-'') file_name) else U64_MAX)"

definition ssdfs_recoverfs_extract_offset :: "u32 \<Rightarrow> string \<Rightarrow> u64" where
  "ssdfs_recoverfs_extract_offset page_size file_name =
     (if has_delimiter file_name then atoll (tl (dropWhile (\<lambda>c. c \<noteq> CHR ''-'') file_name)) * ucast page_size else U64_MAX)"

section \<open>Files from blocks\<close>

text \<open>The buffer of a thread for the contents of one block.\<close>

definition ssdfs_recoverfs_prepare_file_buffer :: "'s recover_world \<Rightarrow> u32 \<Rightarrow> unit thread_run" where
  "ssdfs_recoverfs_prepare_file_buffer w buf_size s =
     (let n = unat buf_size; fresh = modify (\<lambda>s. s\<lparr>ts_content := Some (replicate n 0)\<rparr>) in
      (case ts_content s of
         None \<Rightarrow> if rw_alloc w 9 n then fresh else throw ENOMEM
       | Some old \<Rightarrow>
           if length old < n then
             (if rw_alloc w 9 n then fresh else sbnd (modify (\<lambda>s. s\<lparr>ts_content := None\<rparr>)) (\<lambda>_. throw ENOMEM))
           else modify (\<lambda>s. s\<lparr>ts_content := Some (replicate (length old) 0)\<rparr>)) s)"

definition ssdfs_recoverfs_create_data_file :: "'s recover_world \<Rightarrow> string thread_run" where
  "ssdfs_recoverfs_create_data_file w s =
     (let name = decimal (unat (ts_inode s)) in
      attempt_run (sys_run (sys_open_file (rw_sys w) False name)) (\<lambda>r.
      sbnd (case r of Inr _ \<Rightarrow> ret () | Inl _ \<Rightarrow> sys_run (sys_open_file (rw_sys w) True name)) (\<lambda>_.
      ret name)) s)"

text \<open>The contents of the file of a block go to the file of the inode, at the offset of the block.\<close>

definition move_block :: "'s recover_world \<Rightarrow> string \<Rightarrow> string \<Rightarrow> string \<Rightarrow> u64 \<Rightarrow> unit thread_run" where
  "move_block w folder name data_file off =
     sbnd (sys_run (sys_stat_size (rw_sys w) (Some folder) name)) (\<lambda>st_size.
     sbnd (throw_if (st_size = 0) ENODATA) (\<lambda>_.
     sbnd (ssdfs_recoverfs_prepare_file_buffer w (of_nat st_size)) (\<lambda>_.
     sbnd (sys_run (sys_read (rw_sys w) (Some folder) name st_size)) (\<lambda>d.
     sbnd (sbnd (get_state (\<lambda>s. bnd (deref (ts_content s)) (\<lambda>mem. wr mem 0 d))) lift_res) (\<lambda>mem.
     sbnd (modify (\<lambda>s. s\<lparr>ts_content := Some mem\<rparr>)) (\<lambda>_.
     sbnd (lift_res (rd mem 0 (length d))) (\<lambda>d.
     sbnd (sys_run (sys_write_file (rw_sys w) data_file (unat off) d)) (\<lambda>_. ret ()))))))))"

text \<open>One entry of the folder: whether the loop goes on, and the error so far. A block is deleted when it was opened.\<close>

definition synthesize_block ::
  "'s recover_world \<Rightarrow> string \<Rightarrow> string \<Rightarrow> string \<Rightarrow> errno option \<Rightarrow> (bool \<times> errno option) thread_run" where
  "synthesize_block w folder data_file name err s =
     (let inode_id = ssdfs_recoverfs_extract_inode_id name;
          byte_offset = ssdfs_recoverfs_extract_offset (env_page_size (ts_base s)) name in
      if U64_MAX \<le> inode_id \<or> inode_id \<noteq> ts_inode s then ret (True, err) s
      else if U64_MAX \<le> byte_offset then ret (True, err) s
      else
        attempt_run (sys_run (sys_lseek (rw_sys w) byte_offset)) (\<lambda>r. case r of
          Inl e \<Rightarrow> ret (False, Some e)
        | Inr _ \<Rightarrow>
            attempt_run (sys_run (sys_openat (rw_sys w) False (Some folder) name)) (\<lambda>r. case r of
              Inl e \<Rightarrow> ret (True, Some e)
            | Inr _ \<Rightarrow>
                attempt_run (move_block w folder name data_file byte_offset) (\<lambda>_.
                attempt_run (sys_run (sys_unlink (rw_sys w) (Some folder) name)) (\<lambda>r.
                ret (True, case r of Inl e \<Rightarrow> Some e | Inr _ \<Rightarrow> None))))) s)"

fun synthesize_entries ::
  "'s recover_world \<Rightarrow> string \<Rightarrow> string \<Rightarrow> (string \<times> bool) list \<Rightarrow> errno option \<Rightarrow> errno option thread_run" where
  "synthesize_entries w folder data_file [] err = ret err"
| "synthesize_entries w folder data_file ((name, is_dir) # entries) err =
     (if is_dir then synthesize_entries w folder data_file entries err
      else
        sbnd (synthesize_block w folder data_file name err) (\<lambda>(go_on, err).
        if go_on then synthesize_entries w folder data_file entries err else ret err))"

definition ssdfs_recoverfs_synthesize_blocks :: "'s recover_world \<Rightarrow> string \<Rightarrow> unit thread_run" where
  "ssdfs_recoverfs_synthesize_blocks w folder_name =
     sbnd (ssdfs_recoverfs_create_data_file w) (\<lambda>data_file.
     sbnd (sys_run (sys_open_folder (rw_sys w) folder_name)) (\<lambda>_.
     sbnd (sys_run (sys_scan_folder (rw_sys w) folder_name)) (\<lambda>entries.
     sbnd (synthesize_entries w folder_name data_file entries None) (\<lambda>err.
     sbnd (sys_run (sys_sync (rw_sys w))) (\<lambda>_.
     case err of Some e \<Rightarrow> throw e | None \<Rightarrow> ret ())))))"

text \<open>The folders of the output folder whose time is inside the range; the range is filled by the first comparison.\<close>

definition is_folder_entry :: "string \<times> bool \<Rightarrow> bool" where
  "is_folder_entry entry \<longleftrightarrow> fst entry \<notin> {''.'', ''..''} \<and> snd entry"

fun build_file_folders :: "'s recover_world \<Rightarrow> ssdfs_time_range \<Rightarrow> (string \<times> bool) list \<Rightarrow> unit thread_run" where
  "build_file_folders w timestamp [] s = ret () s"
| "build_file_folders w timestamp (entry # entries) s =
     (if \<not> is_folder_entry entry then build_file_folders w timestamp entries s
      else
        case is_timestamp_inside_range (rw_localtime w) (rw_now w (st_calls (ts_store s))) timestamp (atoll (fst entry)) of
          (inside, timestamp) \<Rightarrow>
            if inside then
              attempt_run (ssdfs_recoverfs_synthesize_blocks w (fst entry)) (\<lambda>_. build_file_folders w timestamp entries) s
            else build_file_folders w timestamp entries s)"

text \<open>The name of the file of a block is read back: its inode and its offset in the file.\<close>

lemma name_parts:
  "takeWhile (\<lambda>c. c \<noteq> CHR ''-'') (decimal a @ ''-'' @ decimal b) = decimal a"
  "dropWhile (\<lambda>c. c \<noteq> CHR ''-'') (decimal a @ ''-'' @ decimal b) = CHR ''-'' # decimal b"
  "has_delimiter (decimal a @ ''-'' @ decimal b)"
proof -
  have digit: "c \<noteq> CHR ''-''" if "c \<in> set (decimal n)" for c n
    using decimal_isdigit[OF that] by (auto simp: isdigit_def)
  then have "hd (decimal n) \<noteq> CHR ''-''" for n using hd_in_set[OF decimal_not_Nil] by blast
  with digit show "takeWhile (\<lambda>c. c \<noteq> CHR ''-'') (decimal a @ ''-'' @ decimal b) = decimal a"
    "dropWhile (\<lambda>c. c \<noteq> CHR ''-'') (decimal a @ ''-'' @ decimal b) = CHR ''-'' # decimal b"
    "has_delimiter (decimal a @ ''-'' @ decimal b)"
    by (auto simp: has_delimiter_def takeWhile_append2 dropWhile_append2)
qed

lemma name_read_back:
  assumes "a < 2 ^ 63" and "b < 2 ^ 63"
  shows "ssdfs_recoverfs_extract_inode_id (decimal a @ ''-'' @ decimal b) = of_nat a"
    and "ssdfs_recoverfs_extract_offset ps (decimal a @ ''-'' @ decimal b) = of_nat b * ucast ps"
  using strtol_decimal[of "[]" a] strtol_decimal[of "[]" b] assms
  by (simp_all add: ssdfs_recoverfs_extract_inode_id_def ssdfs_recoverfs_extract_offset_def name_parts atoll_def del: append.simps)

lemma block_name_read_back:
  assumes "unat (get64 d 0) < 2 ^ 63"
  shows "ssdfs_recoverfs_extract_inode_id (block_file_name d) = get64 d 0"
    and "ssdfs_recoverfs_extract_offset ps (block_file_name d) = ucast (get32 d 8) * ucast ps"
  using name_read_back[of "unat (get64 d 0)" "unat (get32 d 8)"] assms unat_width[of "get32 d 8"]
  by (simp_all add: block_file_name_def word_unat_eq_iff unat_ucast_up unat_of_nat)

section \<open>The environment of the program\<close>

record ssdfs_recoverfs_environment =
  rf_base :: ssdfs_environment
  rf_capacity :: u32
  rf_timestamp :: ssdfs_time_range
  rf_store :: folder_store

type_synonym 'a env_run = "(ssdfs_recoverfs_environment, 'a) run"

definition env_sys :: "'a sys \<Rightarrow> 'a env_run" where
  "env_sys m env = (case m (rf_store env) of
     (Inl e, st) \<Rightarrow> throw (LIB_CODE e) (env\<lparr>rf_store := st\<rparr>)
   | (Inr x, st) \<Rightarrow> ret x (env\<lparr>rf_store := st\<rparr>))"

text \<open>The share of a thread starts at its number times the size of a share. The subtraction may wrap around.\<close>

definition recoverfs_peb_environment :: "nat \<Rightarrow> u64 \<Rightarrow> u64 \<Rightarrow> u32 \<Rightarrow> u32 \<Rightarrow> ssdfs_peb_environment" where
  "recoverfs_peb_environment thread_id pebs_per_thread pebs_count erase_size' logs_count =
     (let start = of_nat thread_id * pebs_per_thread in
      \<lparr>pe_id = start, pe_count = min (pebs_count - start) pebs_per_thread, pe_size = erase_size', pe_log_offset = U32_MAX,
       pe_log_size = U32_MAX, pe_log_index = 0, pe_logs_count = logs_count\<rparr>)"

definition ssdfs_init_raw_dump_environment :: "'s recover_world \<Rightarrow> ssdfs_raw_dump_environment res" where
  "ssdfs_init_raw_dump_environment w =
     bnd (ssdfs_create_raw_dump_environment (\<lambda>i. rw_alloc w (10 + i) 4096) (rw_fresh w) sizeof_area_block_table) (\<lambda>(err, dump, _).
     case err of Some e \<Rightarrow> Inl (Errno e) | None \<Rightarrow> Inr dump)"

definition ssdfs_init_thread_state ::
  "'s recover_world \<Rightarrow> nat \<Rightarrow> ssdfs_environment \<Rightarrow> u64 \<Rightarrow> u64 \<Rightarrow> ssdfs_thread_state res" where
  "ssdfs_init_thread_state w thread_id base pebs_per_thread pebs_count =
     bnd (ssdfs_init_raw_dump_environment w) (\<lambda>dump.
     Inr \<lparr>ts_base = base,
          ts_peb = recoverfs_peb_environment thread_id pebs_per_thread pebs_count (erase_size base) (erase_size base div SSDFS_4KB),
          ts_dump = dump, ts_checkpoint = None, ts_inode = U64_MAX, ts_content = None, ts_store = \<lparr>st_items = [], st_calls = 0\<rparr>\<rparr>)"

text \<open>A thread works on the output folder; its result is not looked at.\<close>

definition run_thread :: "unit thread_run \<Rightarrow> ssdfs_thread_state \<Rightarrow> unit env_run" where
  "run_thread m t env =
     obnd (m (t\<lparr>ts_store := rf_store env\<rparr>)) (\<lambda>(_, t). ret () (env\<lparr>rf_store := ts_store t\<rparr>))"

section \<open>Rounds of the synthesis\<close>

text \<open>
  A thread is created for an inode behind the one of the last thread; the result says whether it was. \<open>jobs\<close> is the number of
  threads of the round.
\<close>

definition ssdfs_recoverfs_add_inode_id_job ::
  "'s recover_world \<Rightarrow> (string \<times> bool) list \<Rightarrow> nat \<Rightarrow> u64 \<Rightarrow> u64 \<Rightarrow> bool env_run" where
  "ssdfs_recoverfs_add_inode_id_job w folders jobs last_inode inode_id env =
     (let base = rf_base env in
      sbnd (throw_if (unat (rf_capacity env) \<le> jobs) EAGAIN) (\<lambda>_.
      sbnd (lift_res (div_chk (fs_size base) (ucast (erase_size base)))) (\<lambda>pebs_count.
      sbnd (lift_res (div_chk pebs_count (ucast (rf_capacity env)))) (\<lambda>pebs_per_thread.
      if jobs = 0 \<or> last_inode < inode_id then
        sbnd (lift_res (ssdfs_init_thread_state w jobs base pebs_per_thread pebs_count)) (\<lambda>t.
        sbnd (env_sys (sys_sync (rw_sys w))) (\<lambda>_.
        sbnd (run_thread (build_file_folders w (rf_timestamp env) folders) (t\<lparr>ts_inode := inode_id\<rparr>)) (\<lambda>_.
        ret True)))
      else ret False))) env)"

fun build_round :: "'s recover_world \<Rightarrow> (string \<times> bool) list \<Rightarrow> (string \<times> bool) list \<Rightarrow> nat \<Rightarrow> u64 \<Rightarrow> unit env_run" where
  "build_round w folders [] jobs last_inode = ret ()"
| "build_round w folders ((name, is_dir) # entries) jobs last_inode =
     (if is_dir then build_round w folders entries jobs last_inode
      else
        sbnd (get_state rf_capacity) (\<lambda>capacity.
        if unat capacity \<le> jobs then ret ()
        else
          attempt_run (ssdfs_recoverfs_add_inode_id_job w folders jobs last_inode (ssdfs_recoverfs_extract_inode_id name)) (\<lambda>r.
          case r of
            Inl _ \<Rightarrow> build_round w folders entries 0 last_inode
          | Inr started \<Rightarrow>
              if started then build_round w folders entries (Suc jobs) (ssdfs_recoverfs_extract_inode_id name)
              else build_round w folders entries jobs last_inode)))"

text \<open>The rounds go on until nothing but the two standard entries is left in the folder.\<close>

abbreviation (input) SSDFS_EMPTY_FOLDER_DEFAULT_ITEMS_COUNT :: nat where "SSDFS_EMPTY_FOLDER_DEFAULT_ITEMS_COUNT \<equiv> 2"

partial_function (option) ssdfs_recoverfs_build_files_in_folder ::
  "'s recover_world \<Rightarrow> (string \<times> bool) list \<Rightarrow> string \<Rightarrow> ssdfs_recoverfs_environment \<Rightarrow>
     ((errno + unit) \<times> ssdfs_recoverfs_environment) res option" where
  "ssdfs_recoverfs_build_files_in_folder w folders folder_name env =
     sbnd (env_sys (sys_scan_folder (rw_sys w) folder_name)) (\<lambda>entries.
     if length entries \<le> SSDFS_EMPTY_FOLDER_DEFAULT_ITEMS_COUNT then ret ()
     else
       sbnd (build_round w folders entries 0 0) (\<lambda>_.
       ssdfs_recoverfs_build_files_in_folder w folders folder_name)) env"

section \<open>The folders\<close>

text \<open>All files are tried; the error of the last one is the result, and then the folder stays.\<close>

fun unlink_entries :: "'s recover_world \<Rightarrow> string \<Rightarrow> (string \<times> bool) list \<Rightarrow> errno option \<Rightarrow> errno option env_run" where
  "unlink_entries w path [] err = ret err"
| "unlink_entries w path ((name, is_dir) # entries) err =
     (if is_dir then unlink_entries w path entries err
      else
        attempt_run (env_sys (sys_unlink (rw_sys w) (Some path) name)) (\<lambda>r.
        unlink_entries w path entries (case r of Inl e \<Rightarrow> Some e | Inr _ \<Rightarrow> None)))"

definition ssdfs_delete_non_empty_folder :: "'s recover_world \<Rightarrow> string \<Rightarrow> unit env_run" where
  "ssdfs_delete_non_empty_folder w path =
     sbnd (env_sys (sys_open_folder (rw_sys w) path)) (\<lambda>_.
     sbnd (env_sys (sys_scan_folder (rw_sys w) path)) (\<lambda>entries.
     sbnd (unlink_entries w path entries None) (\<lambda>err.
     case err of Some e \<Rightarrow> throw e | None \<Rightarrow> env_sys (sys_rmdir (rw_sys w) path))))"

definition ssdfs_recoverfs_delete_folder :: "'s recover_world \<Rightarrow> string \<Rightarrow> unit env_run" where
  "ssdfs_recoverfs_delete_folder w folder_name =
     attempt_run (env_sys (sys_rmdir (rw_sys w) folder_name)) (\<lambda>r. case r of
       Inr u \<Rightarrow> ret u
     | Inl e \<Rightarrow>
         if e = LIB_CODE ENOTEMPTY_NR \<or> e = LIB_CODE EEXIST_NR then ssdfs_delete_non_empty_folder w folder_name else throw e)"

fun build_folders :: "'s recover_world \<Rightarrow> (string \<times> bool) list \<Rightarrow> (string \<times> bool) list \<Rightarrow> unit env_run" where
  "build_folders w folders [] env = ret () env"
| "build_folders w folders (entry # entries) env =
     (if \<not> is_folder_entry entry then build_folders w folders entries env
      else
        case is_timestamp_inside_range (rw_localtime w) (rw_now w (st_calls (rf_store env))) (rf_timestamp env) (atoll (fst entry)) of
          (inside, timestamp) \<Rightarrow>
            let env = env\<lparr>rf_timestamp := timestamp\<rparr> in
            if inside then
              attempt_run (ssdfs_recoverfs_build_files_in_folder w folders (fst entry)) (\<lambda>_. build_folders w folders entries) env
            else build_folders w folders entries env)"

fun delete_folders :: "'s recover_world \<Rightarrow> (string \<times> bool) list \<Rightarrow> unit env_run" where
  "delete_folders w [] = ret ()"
| "delete_folders w (entry # entries) =
     (if fst entry \<in> {''.'', ''..''} then delete_folders w entries
      else attempt_run (ssdfs_recoverfs_delete_folder w (fst entry)) (\<lambda>_. delete_folders w entries))"

definition ssdfs_recoverfs_synthesize_files :: "'s recover_world \<Rightarrow> unit env_run" where
  "ssdfs_recoverfs_synthesize_files w =
     sbnd (env_sys (sys_scan_output (rw_sys w))) (\<lambda>folders.
     sbnd (build_folders w folders folders) (\<lambda>_.
     delete_folders w folders))"

section \<open>Inline files\<close>

text \<open>The file of the inodes tree is read in pages until a node is found; its node size counts for all nodes.\<close>

abbreviation (input) SSDFS_INODES_BNODE_MAGIC :: u16 where "SSDFS_INODES_BNODE_MAGIC \<equiv> 0x494E"
abbreviation (input) PAGE_CACHE_SIZE :: nat where "PAGE_CACHE_SIZE \<equiv> 4096"

definition is_inodes_node :: "buf \<Rightarrow> bool" where
  "is_inodes_node node \<longleftrightarrow> get32 node 0 = SSDFS_SUPER_MAGIC \<and> get16 node 4 = SSDFS_INODES_BNODE_MAGIC"

definition read_at :: "'s recover_world \<Rightarrow> string \<Rightarrow> u32 \<Rightarrow> nat \<Rightarrow> buf env_run" where
  "read_at w name off n =
     sbnd (env_sys (sys_lseek (rw_sys w) (ucast off))) (\<lambda>_.
     sbnd (env_sys (sys_read_file (rw_sys w) name (unat off) n)) (\<lambda>d.
     sbnd (throw_if (length d \<noteq> n) EIO) (\<lambda>_. ret d)))"

partial_function (option) find_node ::
  "'s recover_world \<Rightarrow> string \<Rightarrow> nat \<Rightarrow> u32 \<Rightarrow> ssdfs_recoverfs_environment \<Rightarrow>
     ((errno + u32 \<times> u32 \<times> u32) \<times> ssdfs_recoverfs_environment) res option" where
  "find_node w name file_size node_offset env =
     (if \<not> unat node_offset < file_size then throw ENOENT
      else
        sbnd (read_at w name node_offset PAGE_CACHE_SIZE) (\<lambda>page.
        if is_inodes_node page then
          sbnd (lift_res (shift_1 (get8 page 0x11))) (\<lambda>node_size.
          sbnd (lift_res (if node_size = 0 then Inl (Errno EIO) else mod_chk node_size (env_page_size (rf_base env)))) (\<lambda>m.
          sbnd (throw_if (m \<noteq> 0) EIO) (\<lambda>_.
          ret (node_size, node_offset, of_nat ((file_size - unat node_offset) div unat node_size)))))
        else find_node w name file_size (node_offset + env_page_size (rf_base env)))) env"

definition ssdfs_recoverfs_find_first_valid_node :: "'s recover_world \<Rightarrow> string \<Rightarrow> (u32 \<times> u32 \<times> u32) env_run" where
  "ssdfs_recoverfs_find_first_valid_node w name =
     sbnd (env_sys (sys_file_size (rw_sys w) name)) (\<lambda>file_size.
     sbnd (throw_if (file_size = 0) ENOENT) (\<lambda>_.
     find_node w name file_size 0))"

text \<open>
  The inodes of a node. A write takes as many bytes behind the inode as its size says; the errors of a write and of a sync
  are printed only.
\<close>

definition write_inline_file :: "'s recover_world \<Rightarrow> buf \<Rightarrow> nat \<Rightarrow> unit env_run" where
  "write_inline_file w node pos =
     sbnd (lift_res (rd64 node (pos + 0x48))) (\<lambda>file_size.
     if file_size = 0 \<or> U64_MAX \<le> file_size then ret ()
     else
       sbnd (lift_res (rd64 node (pos + 0x68))) (\<lambda>ino.
       let name = decimal (unat ino) in
       sbnd (env_sys (sys_open_file (rw_sys w) True name)) (\<lambda>_.
       sbnd (lift_res (rd node (pos + 0x80) (unat file_size))) (\<lambda>d.
       attempt_run (env_sys (sys_write_file (rw_sys w) name 0 d)) (\<lambda>_.
       attempt_run (env_sys (sys_sync (rw_sys w))) (\<lambda>_. ret ()))))))"

definition write_inode :: "'s recover_world \<Rightarrow> buf \<Rightarrow> nat \<Rightarrow> unit env_run" where
  "write_inode w node pos =
     sbnd (lift_res (rd16 node (pos + 0x7A))) (\<lambda>private_flags.
     if private_flags AND 0x40 \<noteq> 0 then write_inline_file w node pos else ret ())"

text \<open>\<open>count\<close> is the number of inodes with \<^verbatim>\<open>cur_offset + item_size < node_size\<close>.\<close>

fun write_inodes :: "'s recover_world \<Rightarrow> buf \<Rightarrow> nat \<Rightarrow> nat \<Rightarrow> nat \<Rightarrow> unit env_run" where
  "write_inodes w node cur_offset item_size 0 = ret ()"
| "write_inodes w node cur_offset item_size (Suc count) =
     sbnd (write_inode w node cur_offset) (\<lambda>_. write_inodes w node (cur_offset + item_size) item_size count)"

definition inodes_of_node :: "nat \<Rightarrow> nat \<Rightarrow> nat \<Rightarrow> nat" where
  "inodes_of_node node_size item_area_offset item_size =
     (if item_area_offset < node_size then (node_size - item_area_offset - 1) div item_size else 0)"

definition ssdfs_recoverfs_node_extract_inline_file :: "'s recover_world \<Rightarrow> string \<Rightarrow> u32 \<Rightarrow> u32 \<Rightarrow> unit env_run" where
  "ssdfs_recoverfs_node_extract_inline_file w name node_offset node_size =
     sbnd (read_at w name node_offset (unat node_size)) (\<lambda>node.
     sbnd (throw_if (\<not> is_inodes_node node) EIO) (\<lambda>_.
     let ty = get8 node 0x13; item_area_offset = get32 node 0x3C; items_capacity = get16 node 0x1E;
         item_size = (node_size - item_area_offset) div ucast items_capacity in
     if ty = 1 \<or> ty = 2 then ret ()
     else
       sbnd (throw_if (ty \<noteq> 3 \<and> ty \<noteq> 4) EIO) (\<lambda>_.
       sbnd (throw_if (node_size \<le> item_area_offset) EIO) (\<lambda>_.
       sbnd (throw_if (items_capacity = 0 \<or> U16_MAX \<le> items_capacity) EIO) (\<lambda>_.
       sbnd (throw_if (item_size = 0) EIO) (\<lambda>_.
       write_inodes w node (unat item_area_offset) (unat item_size)
         (inodes_of_node (unat node_size) (unat item_area_offset) (unat item_size))))))))"

text \<open>The loop counter is an \<^verbatim>\<open>int\<close> and is compared as unsigned. The error of the last node is the result.\<close>

fun extract_nodes :: "'s recover_world \<Rightarrow> string \<Rightarrow> u32 \<Rightarrow> nat \<Rightarrow> u32 \<Rightarrow> errno option \<Rightarrow> unit env_run" where
  "extract_nodes w name node_size 0 node_offset err = (case err of Some e \<Rightarrow> throw e | None \<Rightarrow> ret ())"
| "extract_nodes w name node_size (Suc count) node_offset err =
     attempt_run (ssdfs_recoverfs_node_extract_inline_file w name node_offset node_size) (\<lambda>r.
     extract_nodes w name node_size count (node_offset + node_size) (case r of Inl e \<Rightarrow> Some e | Inr _ \<Rightarrow> None))"

abbreviation (input) SSDFS_INODES_BTREE_INO :: nat where "SSDFS_INODES_BTREE_INO \<equiv> 9"

definition ssdfs_recoverfs_extract_inline_files :: "'s recover_world \<Rightarrow> unit env_run" where
  "ssdfs_recoverfs_extract_inline_files w =
     (let name = decimal SSDFS_INODES_BTREE_INO in
      sbnd (env_sys (sys_open_file (rw_sys w) False name)) (\<lambda>_.
      attempt_run (ssdfs_recoverfs_find_first_valid_node w name) (\<lambda>r. case r of
        Inl e \<Rightarrow> if e = ENOENT then ret () else throw e
      | Inr (node_size, node_offset, nodes_count) \<Rightarrow>
          if nodes_count = 0 then ret ()
          else
            sbnd (throw_if (U32_MAX \<le> nodes_count) ERANGE) (\<lambda>_.
            sbnd (throw_if (\<not> rw_alloc w 30 (unat node_size)) ENOMEM) (\<lambda>_.
            extract_nodes w name node_size (unat nodes_count) node_offset None)))))"

end
