(* ===== verification/RecoverMain.thy ===== *)
theory RecoverMain
  imports RecoverFiles
begin

text \<open>
  \<^verbatim>\<open>sbin/recoverfs.ssdfs/recoverfs.c\<close> and \<^verbatim>\<open>options.c\<close>: the command line, the output folder, the threads that recover the blocks
  of their PEBs, and the phases behind them. The threads share the folders only; the model runs them in the order of their
  creation, which is one of their interleavings.
\<close>

section \<open>The command line\<close>

definition check_minute :: "int \<Rightarrow> unit parsed" where
  "check_minute minute = usage_if (minute < 0 \<or> 60 < minute)"

definition check_hour :: "int \<Rightarrow> unit parsed" where
  "check_hour hour = usage_if (hour < 0 \<or> 24 < hour)"

definition check_day :: "int \<Rightarrow> unit parsed" where
  "check_day day = usage_if (day \<le> 0 \<or> 31 < day)"

definition check_month :: "int \<Rightarrow> unit parsed" where
  "check_month month = usage_if (month \<le> 0 \<or> 12 < month)"

definition check_year :: "int \<Rightarrow> unit parsed" where
  "check_year year = usage_if (year < 1970)"

definition timestamp_tokens :: "string list" where
  "timestamp_tokens = [''minute'', ''hour'', ''day'', ''month'', ''year'']"

definition timestamp_option :: "nat \<Rightarrow> string option \<Rightarrow> ssdfs_time_range \<Rightarrow> ssdfs_time_range parsed" where
  "timestamp_option i v ts =
     pbnd (numeric v) (\<lambda>n. let x = word_of_int n :: u32 in
     if i = 0 then pbnd (check_minute (sint x)) (\<lambda>_. Inr (ts\<lparr>tr_minute := x\<rparr>))
     else if i = 1 then pbnd (check_hour (sint x)) (\<lambda>_. Inr (ts\<lparr>tr_hour := x\<rparr>))
     else if i = 2 then pbnd (check_day (sint x)) (\<lambda>_. Inr (ts\<lparr>tr_day := x\<rparr>))
     else if i = 3 then pbnd (check_month (sint x)) (\<lambda>_. Inr (ts\<lparr>tr_month := x\<rparr>))
     else pbnd (check_year (sint x)) (\<lambda>_. Inr (ts\<lparr>tr_year := x\<rparr>)))"

definition recoverfs_sopts :: string where
  "recoverfs_sopts = ''dhj:t:qV''"

definition recoverfs_lopts :: "long_opt list" where
  "recoverfs_lopts =
     [(''debug'', False, CHR ''d''), (''help'', False, CHR ''h''), (''threads'', True, CHR ''j''),
      (''timestamp'', True, CHR ''t''), (''quiet'', False, CHR ''q''), (''version'', False, CHR ''V'')]"

definition recoverfs_option :: "getopt_event \<Rightarrow> ssdfs_recoverfs_environment \<Rightarrow> ssdfs_recoverfs_environment parsed" where
  "recoverfs_option ev env =
     (let c = fst ev in
      if c = CHR ''h'' \<or> c = CHR ''V'' then Inl EXIT_SUCCESS
      else if c = CHR ''d'' \<or> c = CHR ''q'' then Inr env
      else if c = CHR ''j'' then pbnd (numeric (snd ev)) (\<lambda>n. Inr (env\<lparr>rf_capacity := word_of_int n\<rparr>))
      else if c = CHR ''t'' then
        pbnd (argument (snd ev)) (\<lambda>p.
        pbnd (suboptions timestamp_tokens timestamp_option p (rf_timestamp env)) (\<lambda>ts. Inr (env\<lparr>rf_timestamp := ts\<rparr>)))
      else Inl EXIT_FAILURE)"

text \<open>The operands are the device and the output folder.\<close>

definition recoverfs_parse_options ::
  "string list \<Rightarrow> ssdfs_recoverfs_environment \<Rightarrow> (ssdfs_recoverfs_environment \<times> string \<times> string) parsed" where
  "recoverfs_parse_options args env =
     (let (events, operands) = getopt_long recoverfs_sopts recoverfs_lopts args in
      pbnd (parse_all recoverfs_option events env) (\<lambda>env.
      pbnd (usage_if (length operands \<noteq> 2)) (\<lambda>_. Inr (env, operands ! 0, operands ! 1))))"

section \<open>The output folder\<close>

text \<open>\<^verbatim>\<open>open\<close> and \<^verbatim>\<open>mkdir\<close> of the output folder itself only fail or not.\<close>

definition ssdfs_recoverfs_open_output_folder :: "'s recover_world \<Rightarrow> unit env_run" where
  "ssdfs_recoverfs_open_output_folder w =
     (let plain_call = env_sys (sys_sync (rw_sys w)) in
      attempt_run plain_call (\<lambda>r.
      sbnd (case r of Inr _ \<Rightarrow> ret () | Inl _ \<Rightarrow> sbnd plain_call (\<lambda>_. plain_call)) (\<lambda>_.
      sbnd (env_sys (sys_scan_output (rw_sys w))) (\<lambda>entries.
      throw_if (SSDFS_EMPTY_FOLDER_DEFAULT_ITEMS_COUNT < length entries) (LIB_CODE (- EEXIST_NR))))))"

section \<open>The threads\<close>

text \<open>The PEBs of a thread one after the other; the error of a PEB is printed only.\<close>

fun process_pebs :: "'s recover_world \<Rightarrow> u64 \<Rightarrow> nat \<Rightarrow> nat \<Rightarrow> unit thread_run" where
  "process_pebs w start_peb_id i 0 = ret ()"
| "process_pebs w start_peb_id i (Suc n) =
     sbnd (modify_peb (\<lambda>peb. peb\<lparr>pe_id := start_peb_id + of_nat i\<rparr>)) (\<lambda>_.
     attempt_run (ssdfs_recoverfs_process_peb w) (\<lambda>_. process_pebs w start_peb_id (Suc i) n))"

definition ssdfs_recoverfs_process_peb_range :: "'s recover_world \<Rightarrow> unit thread_run" where
  "ssdfs_recoverfs_process_peb_range w s = process_pebs w (pe_id (ts_peb s)) 0 (unat (pe_count (ts_peb s))) s"

fun create_threads :: "'s recover_world \<Rightarrow> u64 \<Rightarrow> u64 \<Rightarrow> nat \<Rightarrow> nat \<Rightarrow> unit env_run" where
  "create_threads w pebs_per_thread pebs_count i 0 = ret ()"
| "create_threads w pebs_per_thread pebs_count i (Suc n) =
     sbnd (get_state rf_base) (\<lambda>base.
     sbnd (lift_res (ssdfs_init_thread_state w i base pebs_per_thread pebs_count)) (\<lambda>t.
     sbnd (env_sys (sys_sync (rw_sys w))) (\<lambda>_.
     sbnd (run_thread (ssdfs_recoverfs_process_peb_range w) t) (\<lambda>_.
     create_threads w pebs_per_thread pebs_count (Suc i) n))))"

section \<open>The program\<close>

text \<open>The phases behind the opening of the device; \<open>hdr\<close> is the header that was found.\<close>

definition recoverfs_phases :: "'s recover_world \<Rightarrow> buf \<Rightarrow> unit env_run" where
  "recoverfs_phases w hdr =
     sbnd (lift_res (shift_1 (get8 hdr 0x11))) (\<lambda>erase_size'.
     sbnd (lift_res (shift_1 (get8 hdr 0x10))) (\<lambda>page_size.
     sbnd (modify (\<lambda>env. env\<lparr>rf_base := (rf_base env)\<lparr>erase_size := erase_size', env_page_size := page_size\<rparr>\<rparr>)) (\<lambda>_.
     sbnd (get_state rf_capacity) (\<lambda>capacity.
     sbnd (get_state (\<lambda>env. fs_size (rf_base env))) (\<lambda>fs_size'.
     sbnd (lift_res (div_chk fs_size' (ucast erase_size'))) (\<lambda>pebs_count.
     sbnd (lift_res (div_chk (pebs_count + ucast capacity - 1) (ucast capacity))) (\<lambda>pebs_per_thread.
     sbnd (throw_if (\<not> rw_alloc w 31 (unat capacity)) ENOMEM) (\<lambda>_.
     sbnd (create_threads w pebs_per_thread pebs_count 0 (unat capacity)) (\<lambda>_.
     sbnd (ssdfs_recoverfs_synthesize_files w) (\<lambda>_.
     ssdfs_recoverfs_extract_inline_files w))))))))))"

text \<open>
  The end of a run of the program: its status and what is in the output folder, which is not told for a run that is killed.
  A run may not end.
\<close>

definition recoverfs_main ::
  "nat \<Rightarrow> 's recover_world \<Rightarrow> probe \<Rightarrow> int \<Rightarrow> ssdfs_recoverfs_environment \<Rightarrow> (exit_status \<times> folder_store option) option" where
  "recoverfs_main fuel w pr errnum env =
     (case open_device (rf_base env) pr errnum of
        Inl e \<Rightarrow> Some (exit_of e, Some (rf_store env))
      | Inr base \<Rightarrow>
          (case sbnd (ssdfs_recoverfs_open_output_folder w) (\<lambda>_.
                sbnd (\<lambda>env. case ssdfs_find_any_valid_peb fuel (rw_crc w) (rw_rd w) (rf_base env) of
                              None \<Rightarrow> None | Some hdr \<Rightarrow> lift_res hdr env)
                  (recoverfs_phases w)) (env\<lparr>rf_base := base\<rparr>) of
             None \<Rightarrow> None
           | Some (Inl f) \<Rightarrow> Some (exit_of f, None)
           | Some (Inr (Inl e, env)) \<Rightarrow> Some (EXIT_FAILURE, Some (rf_store env))
           | Some (Inr (Inr _, env)) \<Rightarrow> Some (EXIT_SUCCESS, Some (rf_store env))))"

definition recoverfs_initial_environment :: "folder_store \<Rightarrow> ssdfs_recoverfs_environment" where
  "recoverfs_initial_environment st =
     \<lparr>rf_base = \<lparr>fs_size = 0, erase_size = 0x20000, open_zones = 0, env_page_size = 0x1000,
        env_device_type = SSDFS_DEVICE_TYPE_MAX, env_fd = 0, env_dev_ops = no_ops\<rparr>,
      rf_capacity = 1,
      rf_timestamp = \<lparr>tr_minute = SSDFS_ANY, tr_hour = SSDFS_ANY, tr_day = SSDFS_ANY, tr_month = SSDFS_ANY, tr_year = SSDFS_ANY\<rparr>,
      rf_store = st\<rparr>"

text \<open>From the command line on; \<open>w\<close> and \<open>pr\<close> tell what the device of a name holds and is, \<open>st\<close> what the folder of a name holds.\<close>

definition recoverfs_ssdfs ::
  "nat \<Rightarrow> (string \<Rightarrow> 's recover_world) \<Rightarrow> (string \<Rightarrow> probe) \<Rightarrow> (string \<Rightarrow> folder_store) \<Rightarrow> int \<Rightarrow> string list \<Rightarrow>
   (exit_status \<times> folder_store option) option" where
  "recoverfs_ssdfs fuel w pr st errnum args =
     (case recoverfs_parse_options args (recoverfs_initial_environment \<lparr>st_items = [], st_calls = 0\<rparr>) of
        Inl e \<Rightarrow> Some (e, None)
      | Inr (env, device, folder) \<Rightarrow>
          recoverfs_main fuel (w device) (pr device) errnum (env\<lparr>rf_store := st folder\<rparr>))"

end
