(* ===== verification/RecoverTable.thy ===== *)
theory RecoverTable
  imports RecoverPeb MkfsTables
begin

text \<open>
  The table of block descriptors between the two programs: \<^verbatim>\<open>mkfs.ssdfs\<close> writes it, \<^verbatim>\<open>recoverfs.ssdfs\<close> reads it fragment by
  fragment. The predicate \<open>table_written\<close> states what the first leaves and the second needs.
\<close>

section \<open>The table of mkfs\<close>

definition fragment_written :: "(buf \<Rightarrow> u32) \<Rightarrow> buf \<Rightarrow> nat \<Rightarrow> nat \<Rightarrow> bool" where
  "fragment_written crc mem i n \<longleftrightarrow>
     get32 mem (16 + 16 * i) = of_nat (256 + 3840 * i) \<and> get16 mem (16 + 16 * i + 4) = of_nat (64 * n) \<and>
     get16 mem (16 + 16 * i + 6) = of_nat (64 * n) \<and> get8 mem (16 + 16 * i + 13) = 0x66 \<and>
     get8 mem (16 + 16 * i + 14) = 5 \<and> get8 mem (16 + 16 * i + 15) = 1 \<and>
     get32 mem (16 + 16 * i + 8) = NOT (crc (bytes_at mem (256 + 3840 * i) (64 * n)))"

definition table_written :: "(buf \<Rightarrow> u32) \<Rightarrow> buf \<Rightarrow> nat \<Rightarrow> nat \<Rightarrow> bool" where
  "table_written crc mem F c \<longleftrightarrow>
     length mem = 256 + 64 * c \<and> 0 < F \<and> F \<le> 13 \<and> c \<le> 60 * F \<and> 60 * (F - 1) \<le> c \<and>
     get8 mem 12 = 0x63 \<and> get8 mem 13 = 3 \<and> get16 mem 8 = of_nat F \<and>
     (\<forall>i < F. fragment_written crc mem i (min 60 (c - 60 * i)))"

lemma fragment_written_frame:
  assumes "fragment_written crc m i n" and "bytes_at m' (16 + 16 * i) 16 = bytes_at m (16 + 16 * i) 16"
    and "bytes_at m' (256 + 3840 * i) (64 * n) = bytes_at m (256 + 3840 * i) (64 * n)"
  shows "fragment_written crc m' i n"
  using assms(1,3) get_window[OF assms(2), of 0] get_window[OF assms(2), of 4] get_window[OF assms(2), of 6]
    get_window[OF assms(2), of 8] get_window[OF assms(2), of 13] get_window[OF assms(2), of 14] get_window[OF assms(2), of 15]
  by (simp add: fragment_written_def)

lemma descriptor_fragment_fields:
  assumes run: "prepare_block_descriptor_fragment crc32 i (16 + 16 * i) (256 + 3840 * i) (of_nat (256 + 3840 * i)) start n
      peb ino item ps payload (mem, cur) = Inr (mem', cur')"
    and "i < 14" and n: "unat n \<le> 60" and len: "256 + 3840 * i + 64 * unat n \<le> length mem"
    and loop: "\<And>m1 c1. for_res 0 (unat n) (block_descriptor_step (256 + 3840 * i) start peb ino item ps payload) (mem, cur) =
      Inr (m1, c1) \<Longrightarrow> length m1 = length mem"
  shows "fragment_written (crc32 0) mem' i (unat n)"
proof -
  define f where "f = 16 + 16 * i"
  define a where "a = 256 + 3840 * i"
  let ?b = "64 * ucast n :: u32"
  have b: "unat ?b = 64 * unat n" using n by (simp add: unat_mult_nw unat_ucast_up)
  have b16: "(ucast ?b :: u16) = of_nat (64 * unat n)"
    using n by (intro word_unat_eqI) (simp add: b unat_ucast_small unat_of_nat unat_mult_nw)
  have fa: "f + 16 \<le> a" "a + 64 * unat n \<le> length mem" using assms(2) len by (simp_all add: f_def a_def)
  obtain m1 c1 where m1: "for_res 0 (unat n) (block_descriptor_step a start peb ino item ps payload) (mem, cur) = Inr (m1, c1)"
    using run unfolding prepare_block_descriptor_fragment_def a_def by (auto simp: bnd_eq_Inr)
  have l: "length m1 = length mem" using loop m1 by (simp add: a_def)
  let ?m = "put32 (put16 (put16 (put32 (put8 (put8 (put8 (put8 m1 (f + 13) 0x66) (f + 14) 5) (f + 15) 1) (f + 12) (of_nat i)) f
      (of_nat a)) (f + 4) (ucast ?b)) (f + 6) (ucast ?b)) (f + 8) 0"
  have "mem' = put32 ?m (f + 8) (NOT (crc32 0 (bytes_at ?m a (64 * unat n))))"
    using run m1 b unfolding prepare_block_descriptor_fragment_def f_def[symmetric] a_def[symmetric]
    by (auto simp: bnd_eq_Inr field_eq_Inr ssdfs_crc32_le_def rd_eq_Inr Let_def)
  moreover have "bytes_at ?m a (64 * unat n) = bytes_at m1 a (64 * unat n)"
    using fa l by (simp add: bytes_at_put_disj)
  ultimately have m': "mem' = put32 ?m (f + 8) (NOT (crc32 0 (bytes_at m1 a (64 * unat n))))" by simp
  have data: "bytes_at mem' a (64 * unat n) = bytes_at m1 a (64 * unat n)"
    using fa l unfolding m' by (simp add: bytes_at_put_disj)
  have "fits f 16 m1" using fa l by (simp add: fits_def)
  then have w: "bytes_at mem' f 16 = put32 (put32 (put16 (put16 (put32 (put8 (put8 (put8 (put8 (bytes_at m1 f 16) 13 0x66) 14 5)
      15 1) 12 (of_nat i)) 0 (of_nat a)) 4 (ucast ?b)) 6 (ucast ?b)) 8 0) 8 (NOT (crc32 0 (bytes_at m1 a (64 * unat n))))"
    unfolding m' by (simp only: window_simps)
  have "length (bytes_at m1 f 16) = 16" using fa l by simp
  moreover have "get8 mem' (f + k) = get8 (bytes_at mem' f 16) k" if "k + 1 \<le> 16" for k
    using that by (simp add: get8_def bytes_at_bytes_at)
  moreover have "get16 mem' (f + k) = get16 (bytes_at mem' f 16) k" if "k + 2 \<le> 16" for k
    using that by (simp add: get16_def bytes_at_bytes_at)
  moreover have "get32 mem' (f + k) = get32 (bytes_at mem' f 16) k" if "k + 4 \<le> 16" for k
    using that by (simp add: get32_def bytes_at_bytes_at)
  moreover from this[of 0] have "get32 mem' f = get32 (bytes_at mem' f 16) 0" by simp
  ultimately show ?thesis
    unfolding fragment_written_def f_def[symmetric] a_def[symmetric] data by (simp add: w buf_simps b16)
qed

text \<open>The loop over the fragments, once more, for the descriptors of the fragments.\<close>

lemma fragment_loop_written:
  assumes run: "for_res 0 F (area_fragment_step crc32 0 (of_nat F) valid peb ino item ps payload) (mem, 0, start) = Inr (mem', cur', lb')"
    and F: "0 < F" "F \<le> 13" and c: "c = 60 * (F - 1) + unat valid mod 60" "c \<le> unat valid"
    and len: "length mem = 256 + 64 * c" and "peb < 65535" and "ps \<noteq> 0" and "unat start + unat valid \<le> 65535"
  shows "length mem' = length mem \<and> bytes_at mem' 0 16 = bytes_at mem 0 16 \<and>
    (\<forall>i < F. fragment_written (crc32 0) mem' i (min 60 (c - 60 * i)))"
proof -
  let ?d = "\<lambda>i. min c (60 * i)" and ?w = "\<lambda>m i. fragment_written (crc32 0) m i (min 60 (c - 60 * i))"
  let ?I = "\<lambda>i (m, cur, lb). length m = length mem \<and> lb = start + of_nat (?d i) \<and> bytes_at m 0 16 = bytes_at mem 0 16 \<and>
    (\<forall>j < i. ?w m j)"
  have F16: "unat (of_nat F :: u16) = F" using F(2) by (simp add: unat_of_nat)
  have "?I F (mem', cur', lb')"
  proof (rule for_res_index_inv[OF run, where I = ?I])
    fix i t t' assume i: "0 \<le> i" "i < F" "?I i t"
      and step: "area_fragment_step crc32 0 (of_nat F) valid peb ino item ps payload i t = Inr t'"
    obtain m cur lb where t: "t = (m, cur, lb)" by (cases t)
    have I: "length m = length mem" "lb = start + of_nat (?d i)" "bytes_at m 0 16 = bytes_at mem 0 16" "\<forall>j < i. ?w m j"
      using i(3) t by auto
    let ?n = "if Suc i < F then 60 else valid mod 60"
    have di: "?d i = 60 * i" using c(1) i(2) by simp
    have n: "?d (Suc i) = 60 * i + unat ?n" "unat ?n \<le> 60" "60 * i + unat ?n \<le> c" "unat ?n = min 60 (c - 60 * i)"
      using c(1) i(2) by (auto simp: unat_mod)
    have pages': "lb + of_nat k < ucast U16_MAX" if "k < unat ?n" for k
      using page_below[OF assms(9), of "60 * i + k"] that n(3) c(2) unfolding I(2) di by (simp add: add.assoc)
    have room: "256 + 3840 * i + 64 * unat ?n \<le> length m" using n(3) I(1) len by simp
    obtain m' where frag: "prepare_block_descriptor_fragment crc32 i (16 + 16 * i) (256 + 3840 * i) (of_nat (256 + 3840 * i)) lb ?n
        peb ino item ps payload (m, cur) = Inr (m', cur + of_nat (unat ?n) * item)" "length m' = length m"
      "\<forall>o' l. o' + l \<le> 16 + 16 * i \<or> 16 + 16 * i + 16 \<le> o' \<and> o' + l \<le> 256 + 3840 * i \<or> 256 + 3840 * i + 64 * unat ?n \<le> o'
         \<longrightarrow> bytes_at m' o' l = bytes_at m o' l"
      using descriptor_fragment_ok[of i "16 + 16 * i" "256 + 3840 * i" ?n m peb ps lb crc32 "of_nat (256 + 3840 * i)" ino item
          payload cur, OF _ _ room n(2) assms(7,8) pages'] i(2) F(2) by auto
    have t': "t' = (m', cur + of_nat (unat ?n) * item, lb + ucast ?n)"
      using step frag(1) unfolding t area_fragment_step_def Let_def F16 by (simp add: mult.commute)
    have new: "?w m' i"
    proof -
      have "length m1 = length m" if "for_res 0 (unat ?n) (block_descriptor_step (256 + 3840 * i) lb peb ino item ps payload)
          (m, cur) = Inr (m1, c1)" for m1 c1
        using block_descriptor_loop_ok[OF room assms(7,8), of lb ino item payload cur] pages' that by (auto dest: same_outside_length)
      then show ?thesis
        using descriptor_fragment_fields[OF frag(1) _ n(2) room] i(2) F(2) n(4) by simp
    qed
    have old: "?w m' j" if j: "j < i" for j
    proof (rule fragment_written_frame[OF I(4)[rule_format, OF j]])
      show "bytes_at m' (16 + 16 * j) 16 = bytes_at m (16 + 16 * j) 16" using frag(3) j i(2) F(2) by auto
      have "256 + 3840 * j + 64 * min 60 (c - 60 * j) \<le> 256 + 3840 * i" using j by simp
      then show "bytes_at m' (256 + 3840 * j) (64 * min 60 (c - 60 * j)) = bytes_at m (256 + 3840 * j) (64 * min 60 (c - 60 * j))"
        using frag(3) i(2) F(2) by auto
    qed
    have "(ucast ?n :: u32) = of_nat (unat ?n)" by (rule word_unat_eqI) (simp add: unat_of_nat unat_ucast_up)
    then have "lb + ucast ?n = start + of_nat (?d (Suc i))" unfolding n(1) I(2) di by (simp add: add.assoc)
    moreover have "bytes_at m' 0 16 = bytes_at mem 0 16" using frag(3) I(3) by simp
    ultimately show "?I (Suc i) t'" using new old I(1) frag(2) less_Suc_eq unfolding t' by auto
  qed (simp_all add: F(1))
  then show ?thesis by auto
qed

text \<open>The table of a log of at most 780 blocks, as \<^verbatim>\<open>pre_commit_block_descriptors\<close> fills it.\<close>

lemma area_block_table_written:
  assumes v: "0 < unat valid" "unat valid \<le> 780" and F: "unat F = (unat valid + 59) div 60"
    and len: "length mem = 256 + 64 * written_descs (unat valid)" and "peb < 65535" and "ps \<noteq> 0"
    and "unat start + unat valid \<le> 65535"
  shows "\<exists>mem' cur. prepare_area_block_table crc32 0 0 F False start valid peb ino item ps payload (mem, 0) = Inr (mem', cur) \<and>
    table_written (crc32 0) mem' (unat F) (written_descs (unat valid)) \<and>
    (\<forall>k < written_descs (unat valid). blk_desc mem' (256 + 64 * k) = blk_desc_of start peb ino item ps payload k)"
proof -
  let ?c = "written_descs (unat valid)"
  have f: "0 < unat F" "unat F \<le> 13" "\<not> 14 < F" using v F by (simp_all add: word_less_nat_alt)
  have c: "?c = 60 * (unat F - 1) + unat valid mod 60" "?c \<le> unat valid" "unat valid mod 60 < 60"
    using written_descs_eq[OF v(1)] F by (simp_all add: written_descs_def)
  let ?b = "256 + ucast valid * 64 :: u32"
  let ?m = "put32 (put32 (put16 (put16 (put16 (put8 (put8 mem 12 0x63) 13 3) 14 0) 8 F) 10 16) 0 ?b) 4 ?b"
  have l: "length ?m = 256 + 64 * ?c" using len by simp
  obtain mem' cur lb where m: "for_res 0 (unat F) (area_fragment_step crc32 0 F valid peb ino item ps payload) (?m, 0, start) =
      Inr (mem', cur, lb)" "length mem' = length ?m"
    "\<forall>k < ?c. blk_desc mem' (256 + 64 * k) = blk_desc_of start peb ino item ps payload k"
    using area_fragment_loop_ok[OF v F refl l assms(5-7)] by blast
  have run: "prepare_area_block_table crc32 0 0 F False start valid peb ino item ps payload (mem, 0) = Inr (mem', cur)"
    using m(1) f(3) len by (simp add: prepare_area_block_table_def Let_def)
  have w: "bytes_at mem' 0 16 = bytes_at ?m 0 16" "\<forall>i < unat F. fragment_written (crc32 0) mem' i (min 60 (?c - 60 * i))"
    using fragment_loop_written[OF _ f(1,2) c(1,2) l assms(5-7)] m(1) by auto
  have "get8 mem' 12 = get8 ?m 12" "get8 mem' 13 = get8 ?m 13" "get16 mem' 8 = get16 ?m 8"
    using get_window(1)[OF w(1), of 12] get_window(1)[OF w(1), of 13] get_window(2)[OF w(1), of 8] by simp_all
  then have "get8 mem' 12 = 0x63" "get8 mem' 13 = 3" "get16 mem' 8 = of_nat (unat F)"
    using len by (simp_all add: buf_simps)
  moreover have "?c \<le> 60 * unat F" "60 * (unat F - 1) \<le> ?c" using c(1,3) f(1) by linarith+
  moreover have "length mem' = 256 + 64 * ?c" using m(2) l by simp
  ultimately have "table_written (crc32 0) mem' (unat F) ?c"
    using w(2) f(1,2) unfolding table_written_def by simp
  then show ?thesis using run m(3) by blast
qed

section \<open>Reading the table\<close>

text \<open>The memory of a buffer has its size, and a fragment is at its front.\<close>

definition buffer_wf :: "ssdfs_raw_buffer \<Rightarrow> bool" where
  "buffer_wf rb \<longleftrightarrow> (case rb_ptr rb of None \<Rightarrow> True | Some mem \<Rightarrow> length mem = unat (rb_size rb))"

lemma prepare_raw_buffer_ok:
  assumes "buffer_wf rb" and "rw_alloc w place (unat n)"
  shows "\<exists>rb'. ssdfs_recoverfs_prepare_raw_buffer w place n rb = ret () rb' \<and>
    rb_ptr rb' = Some (replicate (unat (rb_size rb')) 0) \<and> n \<le> rb_size rb' \<and> (rb_ptr rb \<noteq> None \<longrightarrow> rb_size rb \<le> rb_size rb')"
proof (cases "rb_ptr rb")
  case None
  then show ?thesis using assms by (auto simp: ssdfs_recoverfs_prepare_raw_buffer_def intro!: exI)
next
  case (Some old)
  then have l: "length old = unat (rb_size rb)" using assms(1) by (simp add: buffer_wf_def)
  show ?thesis
  proof (cases "rb_size rb < n")
    case True
    then show ?thesis using assms Some by (auto simp: ssdfs_recoverfs_prepare_raw_buffer_def intro!: exI)
  next
    case False
    then show ?thesis using assms Some l
      by (auto simp: ssdfs_recoverfs_prepare_raw_buffer_def memset_def overwrite_whole not_less intro!: exI)
  qed
qed

lemma fill_buffer_ok:
  assumes "rb_ptr rb = Some mem" and "off + length d \<le> length mem"
  shows "fill_buffer off d rb = ret () (rb\<lparr>rb_ptr := Some (overwrite mem off d)\<rparr>)"
  using assms by (simp add: fill_buffer_def memory_of_def)

lemma content_buffer_ok:
  "m (ar_uncompressed (ae_area e)) = ret x b \<Longrightarrow>
     content_buffer m e = ret x (e\<lparr>ae_area := (ae_area e)\<lparr>ar_uncompressed := b\<rparr>\<rparr>)"
  by (simp add: content_buffer_def zoom_def ret_def)

lemma bytes_at_front: "off + n \<le> length xs \<Longrightarrow> bytes_at (xs @ ys) off n = bytes_at xs off n"
  by (simp add: bytes_at_def)

text \<open>The environment of the area once a table is in its buffer and its header has been read.\<close>

definition table_env :: "'s recover_world \<Rightarrow> buf \<Rightarrow> ssdfs_raw_area_environment \<Rightarrow> bool" where
  "table_env w mem e \<longleftrightarrow>
     (\<exists>pad. rb_ptr (ae_buffer e) = Some (mem @ pad)) \<and> of_nat (length mem) \<le> rb_size (ae_buffer e) \<and>
     length (ar_metadata (ae_area e)) = 256 \<and>
     buffer_wf (ar_uncompressed (ae_area e)) \<and> (\<forall>n. rw_alloc w 2 n)"

definition fragment_env :: "buf \<Rightarrow> nat \<Rightarrow> nat \<Rightarrow> ssdfs_raw_area_environment \<Rightarrow> ssdfs_raw_area_environment \<Rightarrow> bool" where
  "fragment_env mem i n e e' \<longleftrightarrow> (\<exists>b k.
     e' = e\<lparr>ae_area := (ae_area e)\<lparr>ar_uncompressed := b,
              ar_iter := SSDFS_INIT_CONTENT_ITERATOR 256 (get32 mem 4) (int i) (of_nat (64 * n)) 0 64\<rparr>\<rparr> \<and>
     rb_ptr b = Some (bytes_at mem (256 + 3840 * i) (64 * n) @ replicate k 0) \<and> unat (rb_size b) = 64 * n + k \<and>
     (rb_ptr (ar_uncompressed (ae_area e)) \<noteq> None \<longrightarrow> rb_size (ar_uncompressed (ae_area e)) \<le> rb_size b))"

lemma copy_fragment_ok:
  assumes e: "table_env w mem e" and m: "ar_metadata (ae_area e) = bytes_at mem 0 256"
    and t: "table_written (rw_crc w) mem F c" and i: "i < F"
  shows "\<exists>e'. ssdfs_copy_blk_desc_fragment w i e = ret () e' \<and> fragment_env mem i (min 60 (c - 60 * i)) e e'"
proof -
  define n where "n = min 60 (c - 60 * i)"
  have f: "fragment_written (rw_crc w) mem i n" and F: "F \<le> 13" and c: "c \<le> 780" "length mem = 256 + 64 * c"
    using t i by (auto simp: table_written_def n_def)
  have n: "n \<le> 60" "256 + 3840 * i + 64 * n \<le> length mem"
    using i t c(2) by (auto simp: n_def table_written_def)
  let ?d = "16 + 16 * i" and ?a = "256 + 3840 * i"
  have i': "i < 13" using i F by simp
  have g: "get8 (bytes_at mem 0 256) k = get8 mem k" if "k + 1 \<le> 256" for k
    using that by (simp add: get8_def bytes_at_bytes_at)
  have g16: "get16 (bytes_at mem 0 256) k = get16 mem k" if "k + 2 \<le> 256" for k
    using that by (simp add: get16_def bytes_at_bytes_at)
  have g32: "get32 (bytes_at mem 0 256) k = get32 mem k" if "k + 4 \<le> 256" for k
    using that by (simp add: get32_def bytes_at_bytes_at)
  have small: "unat (of_nat x :: u16) = x" if "x < 65536" for x using that by (simp add: unat_of_nat)
  have small32: "unat (of_nat x :: u32) = x" if "x < 65536" for x using that by (simp add: unat_of_nat)
  have sz: "unat (of_nat (64 * n) :: u16) = 64 * n" "unat (of_nat ?a :: u32) = ?a" "unat (of_nat (length mem) :: u32) = length mem"
    using n i' c by (simp_all only: small small32)
  have usz: "(ucast (of_nat (64 * n) :: u16) :: u32) = of_nat (64 * n)" "unat (of_nat (64 * n) :: u32) = 64 * n"
    using n small32[of "64 * n"] sz(1) by (auto intro!: word_unat_eqI simp: unat_ucast_up simp del: of_nat_mult)
  have "unat (of_nat ?a + of_nat (64 * n) :: u32) = ?a + 64 * n"
    using sz(2) usz(2) n i' by (subst unat_add_nw) (simp_all del: of_nat_mult of_nat_add)
  moreover have "length mem \<le> unat (rb_size (ae_buffer e))"
    using e sz(3) by (simp add: table_env_def word_le_nat_alt)
  ultimately have room: "\<not> rb_size (ae_buffer e) < of_nat ?a + of_nat (64 * n)"
    using n by (simp add: word_less_nat_alt del: of_nat_mult of_nat_add)
  have wf: "buffer_wf (ar_uncompressed (ae_area e))" "rw_alloc w 2 (64 * n)" using e by (simp_all add: table_env_def)
  obtain pad where ptr: "rb_ptr (ae_buffer e) = Some (mem @ pad)" using e by (auto simp: table_env_def)
  obtain b where b: "ssdfs_recoverfs_prepare_raw_buffer w 2 (of_nat (64 * n)) (ar_uncompressed (ae_area e)) = ret () b"
    "rb_ptr b = Some (replicate (unat (rb_size b)) 0)" "of_nat (64 * n) \<le> rb_size b"
    "rb_ptr (ar_uncompressed (ae_area e)) \<noteq> None \<longrightarrow> rb_size (ar_uncompressed (ae_area e)) \<le> rb_size b"
    using prepare_raw_buffer_ok[OF wf(1), of w 2 "of_nat (64 * n)"] wf(2) usz by auto
  have bs: "64 * n \<le> unat (rb_size b)" using b(3) usz by (simp add: word_le_nat_alt)
  define data where "data = bytes_at mem ?a (64 * n)"
  have ld: "length data = 64 * n" using n by (simp add: data_def)
  define rest :: buf where "rest = replicate (unat (rb_size b) - 64 * n) 0"
  have ov: "overwrite (replicate (unat (rb_size b)) 0) 0 data = data @ rest"
    using ld by (simp add: overwrite_def rest_def)
  have unpack: "unpack_fragment w None (mem @ pad) ?a (of_nat (64 * n)) (of_nat (64 * n)) (64 * n) b = ret () (b\<lparr>rb_ptr := Some (data @ rest)\<rparr>)"
    using n b(2) bs ld ov fill_buffer_ok[of b _ 0 data] bytes_at_front[of ?a "64 * n" mem pad]
    by (simp add: unpack_fragment_def data_def[symmetric])
  have csum: "check_fragment_csum w 1 (NOT (rw_crc w data)) (of_nat (64 * n)) (b\<lparr>rb_ptr := Some (data @ rest)\<rparr>) =
      ret () (b\<lparr>rb_ptr := Some (data @ rest)\<rparr>)"
    using ld usz by (simp add: check_fragment_csum_def memory_of_def ssdfs_crc32_le_def bytes_at_def srun)
  let ?e1 = "e\<lparr>ae_area := (ae_area e)\<lparr>ar_uncompressed := b\<rparr>\<rparr>"
  let ?e2 = "e\<lparr>ae_area := (ae_area e)\<lparr>ar_uncompressed := b\<lparr>rb_ptr := Some (data @ rest)\<rparr>\<rparr>\<rparr>"
  have s1: "content_buffer (ssdfs_recoverfs_prepare_raw_buffer w 2 (of_nat (64 * n))) e = ret () ?e1"
    using content_buffer_ok[of "ssdfs_recoverfs_prepare_raw_buffer w 2 (of_nat (64 * n))" e] b(1) by blast
  have s2: "content_buffer (unpack_fragment w None (mem @ pad) ?a (of_nat (64 * n)) (of_nat (64 * n)) (64 * n)) ?e1 = ret () ?e2"
    using content_buffer_ok[of "unpack_fragment w None (mem @ pad) ?a (of_nat (64 * n)) (of_nat (64 * n)) (64 * n)" ?e1] unpack by simp
  have s3: "content_buffer (check_fragment_csum w 1 (NOT (rw_crc w data)) (of_nat (64 * n))) ?e2 = ret () ?e2"
    using content_buffer_ok[of "check_fragment_csum w 1 (NOT (rw_crc w data)) (of_nat (64 * n))" ?e2] csum by simp
  note k1 = sbnd_run[where m = "content_buffer (ssdfs_recoverfs_prepare_raw_buffer w 2 (of_nat (64 * n)))", OF s1]
    and k2 = sbnd_run[where m = "content_buffer (unpack_fragment w None (mem @ pad) ?a (of_nat (64 * n)) (of_nat (64 * n)) (64 * n))", OF s2]
    and k3 = sbnd_run[where m = "content_buffer (check_fragment_csum w 1 (NOT (rw_crc w data)) (of_nat (64 * n)))", OF s3]
  have tbl: "get8 mem 12 = 0x63" "get8 mem 13 = 3" "get32 mem ?d = of_nat ?a" "get16 mem (?d + 4) = of_nat (64 * n)"
    "get16 mem (?d + 6) = of_nat (64 * n)" "get8 mem (?d + 13) = 0x66" "get8 mem (?d + 14) = 5" "get8 mem (?d + 15) = 1"
    "get32 mem (?d + 8) = NOT (rw_crc w data)"
    using f t by (simp_all add: fragment_written_def table_written_def data_def)
  have "ssdfs_copy_blk_desc_fragment w i e = ret () (?e2\<lparr>ae_area := (ae_area ?e2)\<lparr>ar_iter :=
      SSDFS_INIT_CONTENT_ITERATOR 256 (get32 mem 4) (int i) (of_nat (64 * n)) 0 64\<rparr>\<rparr>)"
    using i' room s1 s2 s3 tbl
    unfolding ssdfs_copy_blk_desc_fragment_def Let_def m
    by (simp add: g g16 g32 usz sz srun memory_of_def blk_desc_codec_def ptr k1 k2 k3 modify_def del: of_nat_mult of_nat_add)
  moreover have "fragment_env mem i n e (?e2\<lparr>ae_area := (ae_area ?e2)\<lparr>ar_iter :=
      SSDFS_INIT_CONTENT_ITERATOR 256 (get32 mem 4) (int i) (of_nat (64 * n)) 0 64\<rparr>\<rparr>)"
    unfolding fragment_env_def data_def[symmetric]
    by (intro exI[of _ "b\<lparr>rb_ptr := Some (data @ rest)\<rparr>"] exI[of _ "unat (rb_size b) - 64 * n"])
      (use b(4) in \<open>simp add: rest_def bs\<close>)
  ultimately show ?thesis unfolding n_def[symmetric] by blast
qed

text \<open>The environment while \<open>off\<close> descriptors of fragment \<open>i\<close>, which has \<open>n\<close>, have been read.\<close>

definition at_item :: "buf \<Rightarrow> nat \<Rightarrow> nat \<Rightarrow> nat \<Rightarrow> ssdfs_raw_area_environment \<Rightarrow> bool" where
  "at_item mem i n off e \<longleftrightarrow>
     ar_metadata (ae_area e) = bytes_at mem 0 256 \<and>
     ar_iter (ae_area e) = \<lparr>it_state = (if off < n then CONTENT_ITERATOR_INITIALIZED else CONTENT_PROCESSED),
        it_portion_offset = 256, it_portion_size = get32 mem 4, it_fragment_index = int i,
        it_fragment_size = of_nat (64 * n), it_item_offset = of_nat (64 * off), it_item_size = 64\<rparr> \<and>
     (\<exists>rest. rb_ptr (ar_uncompressed (ae_area e)) = Some (bytes_at mem (256 + 3840 * i) (64 * n) @ rest) \<and>
       unat (rb_size (ar_uncompressed (ae_area e))) = 64 * n + length rest)"

lemma current_item:
  assumes e: "table_env w mem e" "at_item mem i n off e" and off: "off < n" "n \<le> 60"
    and len: "256 + 3840 * i + 64 * n \<le> length mem"
  shows "\<exists>e'. current_blk_desc e = ret (bytes_at mem (256 + 3840 * i + 64 * off) 64) e' \<and> table_env w mem e' \<and>
    at_item mem i n (Suc off) e'"
proof -
  let ?a = "256 + 3840 * i"
  define it where "it = ar_iter (ae_area e)"
  have small32: "unat (of_nat x :: u32) = x" if "x < 65536" for x using that by (simp add: unat_of_nat)
  have it: "it = \<lparr>it_state = CONTENT_ITERATOR_INITIALIZED, it_portion_offset = 256, it_portion_size = get32 mem 4,
      it_fragment_index = int i, it_fragment_size = of_nat (64 * n), it_item_offset = of_nat (64 * off), it_item_size = 64\<rparr>"
    using e(2) off(1) by (simp add: at_item_def it_def)
  obtain rest where r: "rb_ptr (ar_uncompressed (ae_area e)) = Some (bytes_at mem ?a (64 * n) @ rest)"
    "unat (rb_size (ar_uncompressed (ae_area e))) = 64 * n + length rest" using e(2) by (auto simp: at_item_def)
  have o: "unat (of_nat (64 * off) :: u32) = 64 * off" "unat (of_nat (64 * n) :: u32) = 64 * n"
    using off by (simp_all only: small32)
  have next': "of_nat (64 * off) + 64 = (of_nat (64 * Suc off) :: u32)" by (simp add: algebra_simps)
  have o': "unat (of_nat (64 * Suc off) :: u32) = 64 * Suc off" by (rule small32) (use off in simp)
  have fits: "\<not> rb_size (ar_uncompressed (ae_area e)) < of_nat (64 * off) + 64"
    unfolding next' word_less_nat_alt o' using r(2) off(1) by simp
  have "\<not> (of_nat (64 * n) :: u32) < of_nat (64 * Suc off)"
    unfolding word_less_nat_alt o' o(2) using off(1) by simp
  moreover have "(of_nat (64 * n) :: u32) \<le> of_nat (64 * Suc off) \<longleftrightarrow> \<not> Suc off < n"
    unfolding word_le_nat_alt o' o(2) by auto
  ultimately have inc: "snd (SSDFS_CONTENT_ITERATOR_INCREMENT it) = it\<lparr>it_item_offset := of_nat (64 * Suc off),
      it_state := (if Suc off < n then CONTENT_ITERATOR_INITIALIZED else CONTENT_PROCESSED)\<rparr>"
    unfolding it SSDFS_CONTENT_ITERATOR_INCREMENT_def by (simp add: next' Let_def del: of_nat_mult of_nat_Suc)
  have "64 * off + 64 \<le> length (bytes_at mem ?a (64 * n))" using off(1) len by simp
  then have item: "rd (bytes_at mem ?a (64 * n) @ rest) (64 * off) 64 = Inr (bytes_at mem (?a + 64 * off) 64)"
    using bytes_at_front[of "64 * off" 64 "bytes_at mem ?a (64 * n)" rest] bytes_at_bytes_at[of "64 * off" 64 "64 * n" mem ?a]
      off(1) by (simp add: rd_def)
  define e' where "e' = e\<lparr>ae_area := (ae_area e)\<lparr>ar_iter := snd (SSDFS_CONTENT_ITERATOR_INCREMENT it)\<rparr>\<rparr>"
  have "current_blk_desc e = ret (bytes_at mem (?a + 64 * off) 64) e'"
    using r(1) fits item o(1) unfolding current_blk_desc_def it_def[symmetric] Let_def
    by (simp add: it srun memory_of_def e'_def del: of_nat_mult)
  moreover have "table_env w mem e'" using e(1) by (simp add: table_env_def e'_def)
  moreover have "at_item mem i n (Suc off) e'"
    using e(2) r unfolding at_item_def e'_def inc by (simp add: it del: of_nat_mult of_nat_Suc)
  ultimately show ?thesis by blast
qed

lemma fragment_env_at_item:
  assumes "fragment_env mem i n e e'" and "0 < n" and "ar_metadata (ae_area e) = bytes_at mem 0 256"
    and "256 + 3840 * i + 64 * n \<le> length mem"
  shows "at_item mem i n 0 e'"
  using assms by (auto intro!: exI[of _ "replicate k 0" for k] simp: fragment_env_def at_item_def SSDFS_INIT_CONTENT_ITERATOR_def)

lemma fragment_env_table_env:
  assumes "fragment_env mem i n e e'" and "table_env w mem e" and "256 + 3840 * i + 64 * n \<le> length mem"
  shows "table_env w mem e'"
  using assms by (auto simp: fragment_env_def table_env_def buffer_wf_def)

lemma table_env_ptr: "table_env w mem e \<Longrightarrow> rb_ptr (ae_buffer e) \<noteq> None"
  by (auto simp: table_env_def)

text \<open>
  The table as a sequence of descriptors: \<open>p\<close> of them have been read. Before the first read the iterator is not in use.
\<close>

definition read_so_far :: "'s recover_world \<Rightarrow> buf \<Rightarrow> nat \<Rightarrow> nat \<Rightarrow> nat \<Rightarrow> ssdfs_raw_area_environment \<Rightarrow> bool" where
  "read_so_far w mem F c p e \<longleftrightarrow>
     table_env w mem e \<and> table_written (rw_crc w) mem F c \<and> p \<le> c \<and>
     (if p = 0 then it_state (ar_iter (ae_area e)) = CONTENT_UNKNOWN_STATE
      else \<exists>i off. p = 60 * i + off \<and> 0 < off \<and> off \<le> min 60 (c - 60 * i) \<and> i < F \<and> at_item mem i (min 60 (c - 60 * i)) off e)"

lemma extract_fragment_ok:
  assumes e: "table_env w mem e" and m: "ar_metadata (ae_area e) = bytes_at mem 0 256"
    and t: "table_written (rw_crc w) mem F c" and i: "i < F"
  shows "\<exists>e'. ssdfs_extract_valid_blk_desc_fragment w i e = ret () e' \<and> fragment_env mem i (min 60 (c - 60 * i)) e e'"
proof -
  obtain e' where e': "ssdfs_copy_blk_desc_fragment w i e = ret () e'" "fragment_env mem i (min 60 (c - 60 * i)) e e'"
    using copy_fragment_ok[OF assms] by blast
  have hdr: "get8 (ar_metadata (ae_area e)) 12 = 0x63" "get16 (ar_metadata (ae_area e)) 8 = of_nat F" "F \<le> 13" "256 \<le> length mem"
    using t m by (simp_all add: table_written_def get8_def get16_def bytes_at_bytes_at)
  have F: "unat (of_nat F :: u16) = F" using hdr(3) by (simp add: unat_of_nat)
  then have "(of_nat F :: u16) \<noteq> 0" "unat (min (of_nat F :: u16) 14) = F"
    using hdr(3) i by (auto simp: unat_min dest: arg_cong[of _ _ unat])
  then have "ssdfs_extract_valid_blk_desc_fragment w i e = extract_fragment_from w [i..<F] e"
    using hdr(1,2) by (simp add: ssdfs_extract_valid_blk_desc_fragment_def Let_def srun)
  also have "\<dots> = ret () e'"
    using i by (simp add: upt_conv_Cons attempt_run_def e'(1)[unfolded ret_def])
  finally show ?thesis using e'(2) by blast
qed

lemma portion_header_ok:
  assumes "table_env w mem e" and "256 \<le> length mem"
  shows "ssdfs_read_portion_header 0 e = ret () (e\<lparr>ae_area := (ae_area e)\<lparr>ar_metadata := bytes_at mem 0 256\<rparr>\<rparr>)"
  using assms by (auto simp: ssdfs_read_portion_header_def table_env_def memory_of_def overwrite_whole srun modify_def bytes_at_front)

text \<open>
  An empty fragment behind the descriptors: the reader takes the cleared memory of the last fragment for a descriptor, and
  stays there, because the iterator cannot move inside an empty fragment and its error is not looked at.
\<close>

definition empty_item :: "ssdfs_raw_area_environment \<Rightarrow> bool" where
  "empty_item e \<longleftrightarrow>
     it_state (ar_iter (ae_area e)) = CONTENT_ITERATOR_INITIALIZED \<and> it_fragment_size (ar_iter (ae_area e)) = 0 \<and>
     it_item_offset (ar_iter (ae_area e)) = 0 \<and> it_item_size (ar_iter (ae_area e)) = 64 \<and>
     64 \<le> rb_size (ar_uncompressed (ae_area e)) \<and>
     (\<exists>rest. rb_ptr (ar_uncompressed (ae_area e)) = Some (replicate 64 0 @ rest))"

lemma current_empty_item:
  assumes "empty_item e"
  shows "current_blk_desc e = ret (replicate 64 0) e"
proof -
  obtain rest where "rb_ptr (ar_uncompressed (ae_area e)) = Some (replicate 64 0 @ rest)" using assms by (auto simp: empty_item_def)
  moreover have "\<not> rb_size (ar_uncompressed (ae_area e)) < 64" using assms by (simp add: empty_item_def not_less)
  ultimately show ?thesis
    using assms by (simp add: empty_item_def current_blk_desc_def Let_def srun memory_of_def SSDFS_CONTENT_ITERATOR_INCREMENT_def bytes_at_def)
qed

lemma next_empty_item:
  assumes "empty_item e"
  shows "ssdfs_recoverfs_get_next_blk_desc w e = ret (replicate 64 0) e"
proof -
  have "next_content_buffer w e = ret () e"
    using assms by (simp add: empty_item_def next_content_buffer_def is_ssdfs_recoverfs_content_buffer_ready_def
        is_ssdfs_recoverfs_content_buffer_processed_def)
  then show ?thesis using current_empty_item[OF assms]
    by (simp add: ssdfs_recoverfs_get_next_blk_desc_def sbnd_run[where m = "next_content_buffer w"])
qed

text \<open>In a fragment that is read to its end, the next fragment is the next content.\<close>

lemma next_fragment:
  assumes e: "table_env w mem e" "at_item mem i n n e" and t: "table_written (rw_crc w) mem F c" and i: "Suc i < F"
  shows "\<exists>e'. next_content_buffer w e = ret () e' \<and> fragment_env mem (Suc i) (min 60 (c - 60 * Suc i)) e e'"
proof -
  have F13: "F \<le> 13" and m: "ar_metadata (ae_area e) = bytes_at mem 0 256" and fi: "it_fragment_index (ar_iter (ae_area e)) = int i"
    using e(2) t by (auto simp: table_written_def at_item_def)
  have hdr: "get8 (bytes_at mem 0 256) 12 = 0x63" "get16 (bytes_at mem 0 256) 8 = of_nat F"
    using t by (simp_all add: table_written_def get8_def get16_def bytes_at_bytes_at)
  have small: "unat (of_nat x :: u16) = x" if "x < 100" for x using that by (simp add: unat_of_nat)
  have w: "(word_of_int (int i) :: u16) = of_nat i" by simp
  have u: "unat (of_nat i + 1 :: u16) = Suc i" using i F13 small[of "Suc i"] by (simp add: add.commute)
  have "\<not> (of_nat F :: u16) \<le> of_nat i" "(of_nat i + 1 :: u16) \<noteq> of_nat F"
    using i F13 small[of i] small[of F] u by (auto simp: word_le_nat_alt dest: arg_cong[of _ _ unat])
  moreover obtain e1 where e1: "ssdfs_extract_valid_blk_desc_fragment w (Suc i) e = ret () e1"
    "fragment_env mem (Suc i) (min 60 (c - 60 * Suc i)) e e1"
    using extract_fragment_ok[OF e(1) m t i] by blast
  ultimately have "ssdfs_recoverfs_prepare_next_content_buffer w e = ret () e1"
    using e(1) hdr u unfolding ssdfs_recoverfs_prepare_next_content_buffer_def Let_def m fi w
    by (simp add: srun table_env_ptr attempt_run_def e1(1)[unfolded ret_def]) (simp add: ret_def)
  then have "next_content_buffer w e = ret () e1"
    using e(2) by (auto simp: next_content_buffer_def is_ssdfs_recoverfs_content_buffer_ready_def
        is_ssdfs_recoverfs_content_buffer_processed_def at_item_def)
  then show ?thesis using e1(2) by blast
qed

lemma next_descriptor:
  assumes r: "read_so_far w mem F c p e" and p: "p < c"
  shows "\<exists>e'. ssdfs_recoverfs_get_next_blk_desc w e = ret (bytes_at mem (256 + 64 * p) 64) e' \<and> read_so_far w mem F c (Suc p) e'"
proof -
  have e: "table_env w mem e" "table_written (rw_crc w) mem F c" using r by (auto simp: read_so_far_def)
  have t: "length mem = 256 + 64 * c" "0 < F" "c \<le> 60 * F" using e(2) by (auto simp: table_written_def)
  have "\<exists>e1 i off. next_content_buffer w e = ret () e1 \<and> table_env w mem e1 \<and> p = 60 * i + off \<and> i < F \<and>
      off < min 60 (c - 60 * i) \<and> at_item mem i (min 60 (c - 60 * i)) off e1"
  proof (cases "p = 0")
    case True
    let ?e = "e\<lparr>ae_area := (ae_area e)\<lparr>ar_metadata := bytes_at mem 0 256\<rparr>\<rparr>"
    have e0: "table_env w mem ?e" using e(1) t by (simp add: table_env_def)
    obtain e1 where e1: "ssdfs_extract_valid_blk_desc_fragment w 0 ?e = ret () e1" "fragment_env mem 0 (min 60 c) ?e e1"
      using extract_fragment_ok[OF e0 _ e(2) t(2)] by auto
    have "next_content_buffer w e = ret () e1"
      using r True e(1) portion_header_ok[OF e(1)] t(1) e1(1)
      by (simp add: next_content_buffer_def is_ssdfs_recoverfs_content_buffer_ready_def read_so_far_def
          ssdfs_recoverfs_prepare_first_content_buffer_def srun table_env_ptr sbnd_run[where m = "ssdfs_read_portion_header 0"])
    moreover have "at_item mem 0 (min 60 c) 0 e1" "table_env w mem e1"
      using fragment_env_at_item[OF e1(2)] fragment_env_table_env[OF e1(2) e0] p t(1) by auto
    ultimately show ?thesis using True p t(2) by (intro exI[of _ e1] exI[of _ 0]) auto
  next
    case False
    then obtain i off where io: "p = 60 * i + off" "0 < off" "off \<le> min 60 (c - 60 * i)" "i < F"
      "at_item mem i (min 60 (c - 60 * i)) off e" using r by (auto simp: read_so_far_def)
    have ready: "is_ssdfs_recoverfs_content_buffer_ready e"
      using io(5) by (auto simp: is_ssdfs_recoverfs_content_buffer_ready_def at_item_def)
    show ?thesis
    proof (cases "off < min 60 (c - 60 * i)")
      case True
      then have "next_content_buffer w e = ret () e"
        using ready io(5) by (simp add: next_content_buffer_def is_ssdfs_recoverfs_content_buffer_processed_def at_item_def)
      then show ?thesis using e(1) io True by (intro exI[of _ e] exI[of _ i] exI[of _ off]) auto
    next
      case False
      then have off: "off = min 60 (c - 60 * i)" "off = 60" using io(1,3) p by auto
      then have c: "60 * Suc i < c" using io(1) p by simp
      then have i: "Suc i < F" using t(3) by simp
      have m: "ar_metadata (ae_area e) = bytes_at mem 0 256" using io(5) by (simp add: at_item_def)
      obtain e1 where e1: "next_content_buffer w e = ret () e1" "fragment_env mem (Suc i) (min 60 (c - 60 * Suc i)) e e1"
        using next_fragment[OF e(1) _ e(2) i] io(5) off by metis
      moreover have "at_item mem (Suc i) (min 60 (c - 60 * Suc i)) 0 e1" "table_env w mem e1"
        using fragment_env_at_item[OF e1(2) _ m] fragment_env_table_env[OF e1(2) e(1)] c t(1) by auto
      ultimately show ?thesis using e1(1) io(1) off(2) c i by (intro exI[of _ e1] exI[of _ "Suc i"] exI[of _ 0]) auto
    qed
  qed
  then obtain e1 i off where e1: "next_content_buffer w e = ret () e1" "table_env w mem e1" "p = 60 * i + off" "i < F"
    "off < min 60 (c - 60 * i)" "at_item mem i (min 60 (c - 60 * i)) off e1" by blast
  have "256 + 3840 * i + 64 * min 60 (c - 60 * i) \<le> length mem" using t(1) e1(5) by (auto simp: min_def)
  then obtain e2 where e2: "current_blk_desc e1 = ret (bytes_at mem (256 + 3840 * i + 64 * off) 64) e2" "table_env w mem e2"
    "at_item mem i (min 60 (c - 60 * i)) (Suc off) e2" using current_item[OF e1(2,6,5)] by auto
  have "ssdfs_recoverfs_get_next_blk_desc w e = ret (bytes_at mem (256 + 64 * p) 64) e2"
    using e1(1,3) e2(1) by (simp add: ssdfs_recoverfs_get_next_blk_desc_def sbnd_run[where m = "next_content_buffer w"] algebra_simps)
  moreover have "read_so_far w mem F c (Suc p) e2"
    unfolding read_so_far_def using e(2) e2(2,3) e1(3-5) p
    by (simp, intro exI[of _ i] exI[of _ "Suc off"]) simp
  ultimately show ?thesis by blast
qed

lemma no_more_descriptors:
  assumes r: "read_so_far w mem F c c e" and last: "60 * (F - 1) < c"
  shows "ssdfs_recoverfs_get_next_blk_desc w e = throw ENODATA e"
proof -
  have e: "table_env w mem e" "table_written (rw_crc w) mem F c" "0 < c" using r last by (auto simp: read_so_far_def)
  have t: "length mem = 256 + 64 * c" "0 < F" "c \<le> 60 * F" "F \<le> 13" using e(2) by (auto simp: table_written_def)
  obtain i off where io: "c = 60 * i + off" "0 < off" "off \<le> min 60 (c - 60 * i)" "i < F"
    "at_item mem i (min 60 (c - 60 * i)) off e" using r e(3) by (auto simp: read_so_far_def)
  then have F: "F = Suc i" and off: "\<not> off < min 60 (c - 60 * i)" using last by auto
  have m: "ar_metadata (ae_area e) = bytes_at mem 0 256" and fi: "it_fragment_index (ar_iter (ae_area e)) = int i"
    using io(5) by (auto simp: at_item_def)
  have hdr: "get8 (bytes_at mem 0 256) 12 = 0x63" "get16 (bytes_at mem 0 256) 8 = of_nat F"
    using e(2) t(1) by (simp_all add: table_written_def get8_def get16_def bytes_at_bytes_at)
  have "unat (of_nat i :: u16) = i" "unat (of_nat (Suc i) :: u16) = Suc i" using t(4) F by (simp_all only: unat_of_nat) auto
  then have "\<not> (of_nat (Suc i) :: u16) \<le> of_nat i" by (simp only: word_le_nat_alt)
  then have "ssdfs_recoverfs_prepare_next_content_buffer w e = throw ENODATA e"
    using e(1) hdr unfolding ssdfs_recoverfs_prepare_next_content_buffer_def Let_def m fi F
    by (auto simp: srun table_env_def add.commute)
  then have "next_content_buffer w e = throw ENODATA e"
    using io(5) off by (auto simp: next_content_buffer_def is_ssdfs_recoverfs_content_buffer_ready_def
        is_ssdfs_recoverfs_content_buffer_processed_def at_item_def)
  then show ?thesis by (simp add: ssdfs_recoverfs_get_next_blk_desc_def sbnd_def throw_def)
qed

lemma empty_fragment:
  assumes r: "read_so_far w mem F c c e" and c: "c = 60 * (F - 1)" "1 < F"
  shows "\<exists>e'. ssdfs_recoverfs_get_next_blk_desc w e = ret (replicate 64 0) e' \<and> empty_item e'"
proof -
  have e: "table_env w mem e" "table_written (rw_crc w) mem F c" "0 < c" using r c by (auto simp: read_so_far_def)
  obtain i off where io: "c = 60 * i + off" "0 < off" "off \<le> min 60 (c - 60 * i)" "i < F"
    "at_item mem i (min 60 (c - 60 * i)) off e" using r e(3) by (auto simp: read_so_far_def)
  then have "off \<le> 60" "60 * (F - 1) = 60 * i + off" using c(1) by auto
  then have "off \<le> 60" "off = 60 * (F - 1 - i)" by (simp_all add: diff_mult_distrib2)
  then have "off = 60" using io(2) by (cases "F - 1 - i") auto
  then have F: "F = Suc (Suc i)" and off: "off = 60" "c - 60 * i = 60" using c io(1) by auto
  have at: "at_item mem i 60 60 e" using io(5) off by simp
  obtain e' where e': "next_content_buffer w e = ret () e'" "fragment_env mem (Suc i) 0 e e'"
    using next_fragment[OF e(1) at e(2)] F off(2) by auto
  have "3840 \<le> unat (rb_size (ar_uncompressed (ae_area e)))" "rb_ptr (ar_uncompressed (ae_area e)) \<noteq> None"
    using at by (auto simp: at_item_def)
  then obtain k where k: "rb_ptr (ar_uncompressed (ae_area e')) = Some (replicate k 0)"
    "unat (rb_size (ar_uncompressed (ae_area e'))) = k" "3840 \<le> k"
    using e'(2) by (auto simp: fragment_env_def word_le_nat_alt bytes_at_def)
  have "replicate k (0 :: u8) = replicate 64 0 @ replicate (k - 64) 0"
    using replicate_add[of 64 "k - 64" "0 :: u8"] k(3) by simp
  then have "empty_item e'"
    using e'(2) k by (auto simp: fragment_env_def empty_item_def SSDFS_INIT_CONTENT_ITERATOR_def word_le_nat_alt)
  moreover from this have "ssdfs_recoverfs_get_next_blk_desc w e = ret (replicate 64 0) e'"
    using e'(1) current_empty_item by (simp add: ssdfs_recoverfs_get_next_blk_desc_def sbnd_run[where m = "next_content_buffer w"])
  ultimately show ?thesis by blast
qed

end
