(* ===== verification/RecoverBlocks.thy ===== *)
theory RecoverBlocks
  imports RecoverTable
begin

text \<open>
  The recovery of the blocks of a log: for a log that \<^verbatim>\<open>mkfs.ssdfs\<close> wrote, \<^verbatim>\<open>recoverfs.ssdfs\<close> copies every block of the main
  area to a file, or, when the number of blocks is a multiple of 60, does not come to an end.
\<close>

section \<open>One block\<close>

text \<open>What the thread relies on: allocations succeed, and the device gives as many bytes as it is asked for, or an error.\<close>

definition well_behaved :: "'s recover_world \<Rightarrow> bool" where
  "well_behaved w \<longleftrightarrow> (\<forall>place n. rw_alloc w place n) \<and>
     (\<forall>off n. case rw_rd w off n of Inr d \<Rightarrow> length d = unat n | Inl f \<Rightarrow> (\<exists>e. f = Errno e))"

definition thread_wf :: "ssdfs_thread_state \<Rightarrow> bool" where
  "thread_wf s \<longleftrightarrow> length (dump_desc (ts_dump s)) = 9 \<and> buffer_wf (dump_content (ts_dump s)) \<and>
     is_pagesize_valid (env_page_size (ts_base s)) \<and>
     (\<forall>i < 9. buffer_wf (ae_buffer (area_env i s)) \<and>
        unat (ar_offset (ae_area (area_env i s))) + unat (ar_size (ae_area (area_env i s))) < 2 ^ 32)"

text \<open>The recovery of a block changes the buffers and the folders only.\<close>

definition same_areas :: "ssdfs_thread_state \<Rightarrow> ssdfs_thread_state \<Rightarrow> bool" where
  "same_areas s s' \<longleftrightarrow> ts_base s' = ts_base s \<and> ts_peb s' = ts_peb s \<and> ts_checkpoint s' = ts_checkpoint s \<and>
     length (dump_desc (ts_dump s')) = length (dump_desc (ts_dump s)) \<and>
     (\<forall>i < 9. ae_area (area_env i s') = ae_area (area_env i s))"

lemma same_areas_refl [simp]: "same_areas s s"
  by (simp add: same_areas_def)

lemma same_areas_trans: "same_areas s t \<Longrightarrow> same_areas t u \<Longrightarrow> same_areas s u"
  by (simp add: same_areas_def)

lemma area_env_put [simp]:
  "i < length (dump_desc (ts_dump s)) \<Longrightarrow> area_env j (put_area_env i e s) = (if j = i then e else area_env j s)"
  by (simp add: area_env_def put_area_env_def)

lemma put_area_env_simps [simp]:
  "put_area_env i e (put_area_env i e' s) = put_area_env i e s"
  "ts_base (put_area_env i e s) = ts_base s" "ts_peb (put_area_env i e s) = ts_peb s"
  "ts_checkpoint (put_area_env i e s) = ts_checkpoint s" "ts_store (put_area_env i e s) = ts_store s"
  "dump_content (ts_dump (put_area_env i e s)) = dump_content (ts_dump s)"
  "length (dump_desc (ts_dump (put_area_env i e s))) = length (dump_desc (ts_dump s))"
  by (simp_all add: put_area_env_def)

text \<open>A step on the buffer of an area, and on the buffer of the data.\<close>

lemma area_buffer_ok:
  assumes "m (ae_buffer (area_env i s)) = ret x b"
  shows "area_buffer i m s = ret x (put_area_env i ((area_env i s)\<lparr>ae_buffer := b\<rparr>) s)"
  using assms by (simp add: area_buffer_def zoom_def ret_def)

lemma dump_data_ok:
  assumes "m (dump_content (ts_dump s)) = ret x b"
  shows "dump_data m s = ret x (s\<lparr>ts_dump := (ts_dump s)\<lparr>dump_content := b\<rparr>\<rparr>)"
  using assms by (simp add: dump_data_def zoom_def ret_def)

lemma thread_wf_put_buffer:
  assumes "thread_wf s" and "i < 9" and "buffer_wf b"
  shows "thread_wf (put_area_env i ((area_env i s)\<lparr>ae_buffer := b\<rparr>) s)"
    and "same_areas s (put_area_env i ((area_env i s)\<lparr>ae_buffer := b\<rparr>) s)"
  using assms by (auto simp: thread_wf_def same_areas_def)

lemma thread_wf_put_content:
  assumes "thread_wf s" and "buffer_wf b"
  shows "thread_wf (s\<lparr>ts_dump := (ts_dump s)\<lparr>dump_content := b\<rparr>\<rparr>)"
    and "same_areas s (s\<lparr>ts_dump := (ts_dump s)\<lparr>dump_content := b\<rparr>\<rparr>)"
  using assms by (auto simp: thread_wf_def same_areas_def area_env_def)

lemma prepared_buffer:
  assumes "buffer_wf rb" and "well_behaved w"
  obtains rb' where "ssdfs_recoverfs_prepare_raw_buffer w place n rb = ret () rb'" "buffer_wf rb'"
    "rb_ptr rb' = Some (replicate (unat (rb_size rb')) 0)" "n \<le> rb_size rb'" "rb_ptr rb \<noteq> None \<longrightarrow> rb_size rb \<le> rb_size rb'"
  using prepare_raw_buffer_ok[OF assms(1), of w place n] assms(2) by (auto simp: well_behaved_def buffer_wf_def)

lemma area_read:
  assumes "well_behaved w"
  shows "ssdfs_read_area_content (rw_rd w) id' sz off n = Inr d \<Longrightarrow> length d = unat n"
    and "ssdfs_read_area_content (rw_rd w) id' sz off n = Inl f \<Longrightarrow> \<exists>e. f = Errno e"
proof -
  let ?r = "rw_rd w (id' * ucast sz + ucast off) (ucast n)"
  have "case ?r of Inr d \<Rightarrow> length d = unat (ucast n :: u64) | Inl f \<Rightarrow> \<exists>e. f = Errno e"
    using assms unfolding well_behaved_def by blast
  then show "ssdfs_read_area_content (rw_rd w) id' sz off n = Inr d \<Longrightarrow> length d = unat n"
    "ssdfs_read_area_content (rw_rd w) id' sz off n = Inl f \<Longrightarrow> \<exists>e. f = Errno e"
    by (auto simp: ssdfs_read_area_content_def unat_ucast_up)
qed

text \<open>The raw state of a block is in the buffer of its area, or the device gave an error.\<close>

lemma read_raw_block_state_ok:
  assumes wf: "thread_wf s" "well_behaved w" and area: "SSDFS_AREA_TYPE2INDEX (get8 bs 2) = Inr i"
    and inside: "unat (get32 bs 4) < unat (ar_size (ae_area (area_env i s)))"
  defines "off \<equiv> ucast (ar_offset (ae_area (area_env i s)) + ucast (get32 bs 4)) :: u32"
  shows "\<exists>b. buffer_wf b \<and> env_page_size (ts_base s) \<le> rb_size b \<and>
    (let s' = put_area_env i ((area_env i s)\<lparr>ae_buffer := b\<rparr>) s in
     case ssdfs_read_area_content (rw_rd w) (pe_id (ts_peb s)) (erase_size (ts_base s)) off (env_page_size (ts_base s)) of
       Inr d \<Rightarrow> ssdfs_recoverfs_read_raw_block_state w bs s = ret () s' \<and>
         (\<exists>rest. rb_ptr b = Some (d @ rest))
     | Inl _ \<Rightarrow> \<exists>e. ssdfs_recoverfs_read_raw_block_state w bs s = throw e s')"
proof -
  have i: "i < 9" using area by (auto simp: SSDFS_AREA_TYPE2INDEX_def split: if_splits)
  let ?a = "ae_area (area_env i s)" and ?ps = "env_page_size (ts_base s)"
  have bnds: "unat (ar_offset ?a) + unat (ar_size ?a) < 2 ^ 32" "buffer_wf (ae_buffer (area_env i s))" "is_pagesize_valid ?ps"
    "length (dump_desc (ts_dump s)) = 9"
    using wf(1) i by (auto simp: thread_wf_def)
  have sum: "unat (ar_offset ?a + ucast (get32 bs 4)) = unat (ar_offset ?a) + unat (get32 bs 4)"
    "unat (ar_offset ?a + ucast (ar_size ?a)) = unat (ar_offset ?a) + unat (ar_size ?a)"
    using bnds(1) inside by (simp_all add: unat_add_nw unat_ucast_up)
  have chk: "\<not> U64_MAX \<le> ar_offset ?a" "\<not> ar_offset ?a + ucast (ar_size ?a) \<le> ar_offset ?a + ucast (get32 bs 4)"
    "\<not> ucast U32_MAX \<le> ar_offset ?a + ucast (get32 bs 4)"
    using bnds(1) inside sum by (simp_all add: word_le_nat_alt unat_minus_one_eq ucast_max)
  obtain b where b: "ssdfs_recoverfs_prepare_raw_buffer w 3 ?ps (ae_buffer (area_env i s)) = ret () b" "buffer_wf b"
    "rb_ptr b = Some (replicate (unat (rb_size b)) 0)" "?ps \<le> rb_size b"
    using prepared_buffer[OF bnds(2) wf(2)] by blast
  let ?s = "put_area_env i ((area_env i s)\<lparr>ae_buffer := b\<rparr>) s"
  have step: "area_buffer i (ssdfs_recoverfs_prepare_raw_buffer w 3 ?ps) s = ret () ?s"
    using area_buffer_ok[of "ssdfs_recoverfs_prepare_raw_buffer w 3 ?ps"] b(1) by blast
  have run: "ssdfs_recoverfs_read_raw_block_state w bs s =
      sbnd (lift_res (ssdfs_read_area_content (rw_rd w) (pe_id (ts_peb s)) (erase_size (ts_base s)) off ?ps))
        (\<lambda>d. area_buffer i (fill_buffer 0 d)) ?s"
    using area chk bnds(3) unfolding ssdfs_recoverfs_read_raw_block_state_def off_def
    by (simp add: srun Let_def sbnd_run[where m = "area_buffer i (ssdfs_recoverfs_prepare_raw_buffer w 3 ?ps)", OF step])
  show ?thesis
  proof (cases "ssdfs_read_area_content (rw_rd w) (pe_id (ts_peb s)) (erase_size (ts_base s)) off ?ps")
    case (Inl f)
    then obtain e where "f = Errno e" using area_read(2)[OF wf(2)] by blast
    then show ?thesis using Inl run b(2,4) by (intro exI[of _ b]) (auto simp: srun)
  next
    case (Inr d)
    then have l: "length d = unat ?ps" by (rule area_read(1)[OF wf(2)])
    have fit: "length d \<le> unat (rb_size b)" using l b(4) by (simp add: word_le_nat_alt)
    let ?b = "b\<lparr>rb_ptr := Some (overwrite (replicate (unat (rb_size b)) 0) 0 d)\<rparr>"
    have "area_buffer i (fill_buffer 0 d) ?s = ret () (put_area_env i ((area_env i s)\<lparr>ae_buffer := ?b\<rparr>) s)"
      using area_buffer_ok[of "fill_buffer 0 d" i ?s] fill_buffer_ok[OF b(3), of 0 d] fit i bnds(4)
      by simp
    moreover have "overwrite (replicate (unat (rb_size b)) 0) 0 d = d @ replicate (unat (rb_size b) - length d) 0"
      by (simp add: overwrite_def)
    ultimately show ?thesis using Inr run b(2,4) fit
      by (intro exI[of _ ?b]) (auto simp: srun buffer_wf_def)
  qed
qed

text \<open>A block of the main area: its bytes are in the buffer of the data.\<close>

lemma main_block_ok:
  assumes wf: "thread_wf s" "well_behaved w" and main: "get8 bs 2 = 1"
    and inside: "unat (get32 bs 4) < unat (ar_size (ae_area (area_env 3 s)))"
  defines "off \<equiv> ucast (ar_offset (ae_area (area_env 3 s)) + ucast (get32 bs 4)) :: u32"
  shows "\<exists>r s'. ssdfs_recoverfs_read_block_state w 0 bs s = Some (Inr (r, s')) \<and> thread_wf s' \<and> same_areas s s' \<and>
    ts_store s' = ts_store s \<and> (\<forall>i. i \<noteq> 3 \<longrightarrow> ae_buffer (area_env i s') = ae_buffer (area_env i s)) \<and>
    (r = Inr () \<longrightarrow> rb_ptr (dump_content (ts_dump s')) \<noteq> None) \<and>
    (case ssdfs_read_area_content (rw_rd w) (pe_id (ts_peb s)) (erase_size (ts_base s)) off (env_page_size (ts_base s)) of
       Inl _ \<Rightarrow> True
     | Inr d \<Rightarrow> r = Inr () \<and> (\<exists>k. rb_ptr (dump_content (ts_dump s')) = Some (d @ replicate k 0) \<and>
         (rb_ptr (dump_content (ts_dump s)) = None \<or> rb_size (dump_content (ts_dump s)) = env_page_size (ts_base s) \<longrightarrow>
            k = 0 \<and> rb_size (dump_content (ts_dump s')) = env_page_size (ts_base s))))"
proof -
  let ?ps = "env_page_size (ts_base s)"
  let ?r = "ssdfs_read_area_content (rw_rd w) (pe_id (ts_peb s)) (erase_size (ts_base s)) off ?ps"
  have idx: "SSDFS_AREA_TYPE2INDEX (get8 bs 2) = Inr 3" using main by (simp add: SSDFS_AREA_TYPE2INDEX_def)
  have ps: "is_pagesize_valid ?ps" and len: "length (dump_desc (ts_dump s)) = 9" using wf(1) by (simp_all add: thread_wf_def)
  obtain b where b: "buffer_wf b" "?ps \<le> rb_size b"
    "case ?r of Inr d \<Rightarrow> ssdfs_recoverfs_read_raw_block_state w bs s = ret () (put_area_env 3 ((area_env 3 s)\<lparr>ae_buffer := b\<rparr>) s) \<and>
         (\<exists>rest. rb_ptr b = Some (d @ rest))
     | Inl _ \<Rightarrow> \<exists>e. ssdfs_recoverfs_read_raw_block_state w bs s = throw e (put_area_env 3 ((area_env 3 s)\<lparr>ae_buffer := b\<rparr>) s)"
    using read_raw_block_state_ok[OF wf idx inside] unfolding off_def Let_def by blast
  let ?s1 = "put_area_env 3 ((area_env 3 s)\<lparr>ae_buffer := b\<rparr>) s"
  have s1: "thread_wf ?s1" "same_areas s ?s1" by (rule thread_wf_put_buffer[OF wf(1) _ b(1)], simp)+
  show ?thesis
  proof (cases ?r)
    case (Inl f)
    then show ?thesis using b(3) s1 len
      by (auto simp: ssdfs_recoverfs_read_block_state_def sbnd_throw_at throw_def intro!: exI[of _ ?s1])
  next
    case (Inr d)
    then obtain rest where rest: "rb_ptr b = Some (d @ rest)" and raw: "ssdfs_recoverfs_read_raw_block_state w bs s = ret () ?s1"
      using b(3) by auto
    have ld: "length d = unat ?ps" using area_read(1)[OF wf(2) Inr] .
    have cw: "buffer_wf (dump_content (ts_dump s))" using wf(1) by (simp add: thread_wf_def)
    obtain c where c: "ssdfs_recoverfs_prepare_raw_buffer w 5 ?ps (dump_content (ts_dump s)) = ret () c" "buffer_wf c"
      "rb_ptr c = Some (replicate (unat (rb_size c)) 0)" "?ps \<le> rb_size c"
      using prepared_buffer[OF cw wf(2)] by blast
    have csz: "rb_size c = ?ps" if "rb_ptr (dump_content (ts_dump s)) = None \<or> rb_size (dump_content (ts_dump s)) = ?ps"
      using c(1) that by (auto simp: ssdfs_recoverfs_prepare_raw_buffer_def Let_def ret_def throw_def split: option.splits sum.splits if_splits)
    have fit: "length d \<le> unat (rb_size c)" using ld c(4) by (simp add: word_le_nat_alt)
    let ?s2 = "?s1\<lparr>ts_dump := (ts_dump ?s1)\<lparr>dump_content := c\<rparr>\<rparr>"
    let ?c = "c\<lparr>rb_ptr := Some (d @ replicate (unat (rb_size c) - length d) 0)\<rparr>"
    let ?s3 = "?s1\<lparr>ts_dump := (ts_dump ?s1)\<lparr>dump_content := ?c\<rparr>\<rparr>"
    have st2: "dump_data (ssdfs_recoverfs_prepare_raw_buffer w 5 ?ps) ?s1 = ret () ?s2"
      using dump_data_ok[of "ssdfs_recoverfs_prepare_raw_buffer w 5 ?ps" ?s1] c(1) by simp
    have "overwrite (replicate (unat (rb_size c)) 0) 0 d = d @ replicate (unat (rb_size c) - length d) 0"
      by (simp add: overwrite_def)
    then have st3: "dump_data (fill_buffer 0 d) ?s2 = ret () ?s3"
      using dump_data_ok[of "fill_buffer 0 d" ?s2] fill_buffer_ok[OF c(3), of 0 d] fit by simp
    have mem: "rb_ptr (ae_buffer (area_env 3 ?s2)) = Some (d @ rest)" using rest len by (simp add: area_env_def put_area_env_def)
    have "bytes_at (d @ rest) 0 (unat ?ps) = d" using ld by (simp add: bytes_at_def)
    then have "ssdfs_recoverfs_parse_and_decompress_block_state w bs ?s1 = ret () ?s3"
      using idx ps main mem ld unfolding ssdfs_recoverfs_parse_and_decompress_block_state_def
      by (simp add: srun Let_def sbnd_run[where m = "dump_data (ssdfs_recoverfs_prepare_raw_buffer w 5 ?ps)", OF st2] st3 sbnd_assoc)
    then have run: "ssdfs_recoverfs_read_block_state w 0 bs s = ret () ?s3"
      by (simp add: ssdfs_recoverfs_read_block_state_def sbnd_run[where m = "ssdfs_recoverfs_read_raw_block_state w bs", OF raw])
    have "buffer_wf ?c" using fit by (simp add: buffer_wf_def)
    then have s3: "thread_wf ?s3" "same_areas s ?s3"
      using thread_wf_put_content[OF s1(1)] same_areas_trans[OF s1(2)] by blast+
    have o: "\<forall>i. i \<noteq> 3 \<longrightarrow> ae_buffer (area_env i ?s3) = ae_buffer (area_env i s)"
      using len by (simp add: area_env_def put_area_env_def)
    show ?thesis
    proof (intro exI conjI)
      show "ssdfs_recoverfs_read_block_state w 0 bs s = Some (Inr (Inr (), ?s3))" using run by (simp add: ret_def)
      show "case ?r of Inl _ \<Rightarrow> True | Inr d \<Rightarrow> Inr () = Inr () \<and> (\<exists>k. rb_ptr (dump_content (ts_dump ?s3)) = Some (d @ replicate k 0) \<and>
         (rb_ptr (dump_content (ts_dump s)) = None \<or> rb_size (dump_content (ts_dump s)) = ?ps \<longrightarrow>
            k = 0 \<and> rb_size (dump_content (ts_dump ?s3)) = ?ps))"
        using Inr csz ld by auto
    qed (use s3 o in simp_all)
  qed
qed

text \<open>A descriptor of zeros names the area of the descriptors, and the recovery of its state fails.\<close>

lemma zero_block_fails:
  assumes wf: "thread_wf s" "well_behaved w" and zero: "get8 bs 2 = 0" "get32 bs 4 = 0"
    and "ar_size (ae_area (area_env 6 s)) \<noteq> 0"
  shows "\<exists>e s'. ssdfs_recoverfs_read_block_state w 0 bs s = throw e s' \<and> thread_wf s' \<and> same_areas s s' \<and> ts_store s' = ts_store s"
proof -
  let ?ps = "env_page_size (ts_base s)"
  have idx: "SSDFS_AREA_TYPE2INDEX (get8 bs 2) = Inr 6" using zero by (simp add: SSDFS_AREA_TYPE2INDEX_def)
  have inside: "unat (get32 bs 4) < unat (ar_size (ae_area (area_env 6 s)))" using assms(5) zero(2) by (simp add: unat_gt_0)
  have ps: "is_pagesize_valid ?ps" and len: "length (dump_desc (ts_dump s)) = 9" using wf(1) by (simp_all add: thread_wf_def)
  obtain b where b: "buffer_wf b"
    "case ssdfs_read_area_content (rw_rd w) (pe_id (ts_peb s)) (erase_size (ts_base s))
        (ucast (ar_offset (ae_area (area_env 6 s)) + ucast (get32 bs 4))) ?ps of
       Inr d \<Rightarrow> ssdfs_recoverfs_read_raw_block_state w bs s = ret () (put_area_env 6 ((area_env 6 s)\<lparr>ae_buffer := b\<rparr>) s) \<and>
         (\<exists>rest. rb_ptr b = Some (d @ rest))
     | Inl _ \<Rightarrow> \<exists>e. ssdfs_recoverfs_read_raw_block_state w bs s = throw e (put_area_env 6 ((area_env 6 s)\<lparr>ae_buffer := b\<rparr>) s)"
    using read_raw_block_state_ok[OF wf idx inside] unfolding Let_def by blast
  let ?s1 = "put_area_env 6 ((area_env 6 s)\<lparr>ae_buffer := b\<rparr>) s"
  have s1: "thread_wf ?s1" "same_areas s ?s1" by (rule thread_wf_put_buffer[OF wf(1) _ b(1)], simp)+
  have "buffer_wf (dump_content (ts_dump ?s1))" using s1(1) by (simp add: thread_wf_def)
  then obtain c where c: "ssdfs_recoverfs_prepare_raw_buffer w 5 ?ps (dump_content (ts_dump ?s1)) = ret () c" "buffer_wf c"
    using prepared_buffer[OF _ wf(2)] by blast
  let ?s2 = "?s1\<lparr>ts_dump := (ts_dump ?s1)\<lparr>dump_content := c\<rparr>\<rparr>"
  have st2: "dump_data (ssdfs_recoverfs_prepare_raw_buffer w 5 ?ps) ?s1 = ret () ?s2"
    using dump_data_ok[of "ssdfs_recoverfs_prepare_raw_buffer w 5 ?ps" ?s1] c(1) by simp
  have s2: "thread_wf ?s2" "same_areas s ?s2" "ts_store ?s2 = ts_store s"
    using thread_wf_put_content[OF s1(1) c(2)] same_areas_trans[OF s1(2)] by (blast, blast, simp)
  have parse: "ssdfs_recoverfs_parse_and_decompress_block_state w bs ?s1 = throw ERANGE ?s2"
    using idx ps zero(1) unfolding ssdfs_recoverfs_parse_and_decompress_block_state_def
    by (simp add: srun Let_def sbnd_run[where m = "dump_data (ssdfs_recoverfs_prepare_raw_buffer w 5 ?ps)", OF st2])
  show ?thesis
  proof (cases "\<exists>e. ssdfs_recoverfs_read_raw_block_state w bs s = throw e ?s1")
    case True
    then obtain e where "ssdfs_recoverfs_read_raw_block_state w bs s = throw e ?s1" by blast
    then have "ssdfs_recoverfs_read_block_state w 0 bs s = throw e ?s1"
      by (simp add: ssdfs_recoverfs_read_block_state_def sbnd_def throw_def)
    then show ?thesis using s1 by (intro exI[of _ e] exI[of _ ?s1]) simp
  next
    case False
    then have "ssdfs_recoverfs_read_raw_block_state w bs s = ret () ?s1" using b(2) by (auto split: sum.splits)
    then have "ssdfs_recoverfs_read_block_state w 0 bs s = throw ERANGE ?s2"
      using parse by (simp add: ssdfs_recoverfs_read_block_state_def sbnd_run[where m = "ssdfs_recoverfs_read_raw_block_state w bs"])
    then show ?thesis using s2 by blast
  qed
qed

text \<open>The file of a block: whatever the calls of the system do, only the folders change.\<close>

definition only_store :: "'a thread_run \<Rightarrow> ssdfs_thread_state \<Rightarrow> bool" where
  "only_store m s \<longleftrightarrow> (\<exists>r st. m s = Some (Inr (r, s\<lparr>ts_store := st\<rparr>)))"

lemma only_store_sys: "only_store (sys_run m) s"
  by (auto simp: only_store_def sys_run_def ret_def throw_def split: prod.split sum.split)

lemma only_store_sbnd:
  assumes "only_store m s" and "\<And>x st. only_store (f x) (s\<lparr>ts_store := st\<rparr>)"
  shows "only_store (sbnd m f) s"
proof -
  obtain r st where m: "m s = Some (Inr (r, s\<lparr>ts_store := st\<rparr>))" using assms(1) by (auto simp: only_store_def)
  show ?thesis
  proof (cases r)
    case (Inl e)
    then show ?thesis using m by (auto simp: only_store_def sbnd_def throw_def)
  next
    case (Inr x)
    obtain r' st' where "f x (s\<lparr>ts_store := st\<rparr>) = Some (Inr (r', (s\<lparr>ts_store := st\<rparr>)\<lparr>ts_store := st'\<rparr>))"
      using assms(2)[of x st] by (auto simp: only_store_def)
    then show ?thesis using m Inr by (auto simp: only_store_def sbnd_def)
  qed
qed

lemma only_store_attempt:
  assumes "only_store m s" and "\<And>r st. only_store (f r) (s\<lparr>ts_store := st\<rparr>)"
  shows "only_store (attempt_run m f) s"
proof -
  obtain r st where m: "m s = Some (Inr (r, s\<lparr>ts_store := st\<rparr>))" using assms(1) by (auto simp: only_store_def)
  obtain r' st' where "f r (s\<lparr>ts_store := st\<rparr>) = Some (Inr (r', (s\<lparr>ts_store := st\<rparr>)\<lparr>ts_store := st'\<rparr>))"
    using assms(2)[of r st] by (auto simp: only_store_def)
  then show ?thesis using m by (auto simp: only_store_def attempt_run_def)
qed

lemma only_store_ret: "only_store (ret x) s"
  unfolding only_store_def ret_def by (rule exI[of _ "Inr x"], rule exI[of _ "ts_store s"]) simp

lemma only_store_get: "only_store (f (g s)) s \<Longrightarrow> only_store (sbnd (get_state g) f) s"
  by (simp add: only_store_def srun)

lemma copy_block_only_store:
  assumes "thread_wf s" and "rb_ptr (dump_content (ts_dump s)) \<noteq> None"
  shows "only_store (ssdfs_recoverfs_copy_block_state w d) s"
proof -
  obtain mem where mem: "rb_ptr (dump_content (ts_dump s)) = Some mem" using assms(2) by auto
  then have l: "length mem = unat (rb_size (dump_content (ts_dump s)))"
    using assms(1) by (simp add: thread_wf_def buffer_wf_def)
  let ?sys = "rw_sys w" and ?n = "block_file_name d" and ?fd = "ts_checkpoint s"
  have tail: "only_store (sbnd (get_state (\<lambda>s. dump_content (ts_dump s))) (\<lambda>content.
      sbnd (lift_res (BUG_ON (rb_ptr content = None))) (\<lambda>_.
      sbnd (lift_res (bnd (memory_of content) (\<lambda>mem. rd mem 0 (unat (rb_size content))))) (\<lambda>d.
      sbnd (sys_run (sys_write ?sys ?fd ?n 0 d)) (\<lambda>_. sys_run (sys_sync ?sys)))))) (s\<lparr>ts_store := st\<rparr>)" for st
  proof -
    have "only_store (sbnd (sys_run (sys_write ?sys ?fd ?n 0 mem)) (\<lambda>_. sys_run (sys_sync ?sys))) (s\<lparr>ts_store := st\<rparr>)"
      by (rule only_store_sbnd[OF only_store_sys only_store_sys])
    then show ?thesis using mem l by (simp add: only_store_def srun memory_of_def bytes_at_def)
  qed
  have "only_store (attempt_run (sys_run (sys_openat ?sys False ?fd ?n)) (\<lambda>r.
      sbnd (case r of Inr _ \<Rightarrow> ret () | Inl _ \<Rightarrow> sys_run (sys_openat ?sys True ?fd ?n)) (\<lambda>_.
      sbnd (get_state (\<lambda>s. dump_content (ts_dump s))) (\<lambda>content.
      sbnd (lift_res (BUG_ON (rb_ptr content = None))) (\<lambda>_.
      sbnd (lift_res (bnd (memory_of content) (\<lambda>mem. rd mem 0 (unat (rb_size content))))) (\<lambda>d.
      sbnd (sys_run (sys_write ?sys ?fd ?n 0 d)) (\<lambda>_. sys_run (sys_sync ?sys)))))))) s"
  proof (rule only_store_attempt[OF only_store_sys], rule only_store_sbnd, goal_cases)
    case (1 r st)
    then show ?case by (cases r) (simp_all add: only_store_sys only_store_ret)
  next
    case (2 r st x st')
    then show ?case using tail[of st'] by simp
  qed
  then show ?thesis by (simp add: ssdfs_recoverfs_copy_block_state_def only_store_def Let_def)
qed

end
