(* ===== verification/RecoverLog.thy ===== *)
theory RecoverLog
  imports RecoverBlocks
begin

text \<open>
  The recovery of a log as a whole: the descriptors of the table one after the other, the state of every block, and its file.
\<close>

section \<open>The reader of the table leaves the area as it is\<close>

definition same_area :: "ssdfs_raw_area_environment \<Rightarrow> ssdfs_raw_area_environment \<Rightarrow> bool" where
  "same_area e e' \<longleftrightarrow> ae_buffer e' = ae_buffer e \<and> ar_offset (ae_area e') = ar_offset (ae_area e) \<and>
     ar_size (ae_area e') = ar_size (ae_area e)"

definition area_kept ::
  "ssdfs_raw_area_environment \<Rightarrow> ((errno + 'a) \<times> ssdfs_raw_area_environment) res option \<Rightarrow> bool" where
  "area_kept e out \<longleftrightarrow> (\<forall>r e'. out = Some (Inr (r, e')) \<longrightarrow> same_area e e')"

named_theorems kept \<open>steps that keep the area\<close>

lemma area_kept_basic [kept]:
  "same_area e s \<Longrightarrow> area_kept e (ret x s)" "same_area e s \<Longrightarrow> area_kept e (throw err s)"
  "same_area e s \<Longrightarrow> area_kept e (get_state g s)" "same_area e s \<Longrightarrow> area_kept e (lift_res y s)"
  "same_area e (h s) \<Longrightarrow> area_kept e (modify h s)"
  by (auto simp: area_kept_def ret_def throw_def get_state_def lift_res_def modify_def split: sum.splits fault.splits)

lemma area_kept_throw_if [kept]: "same_area e s \<Longrightarrow> area_kept e (throw_if c err s)"
  by (simp add: throw_if_def area_kept_basic)

lemma area_kept_content_buffer [kept]: "same_area e s \<Longrightarrow> area_kept e (content_buffer m s)"
  by (auto simp: area_kept_def same_area_def content_buffer_def zoom_def obnd_def split: option.splits sum.splits)

lemma area_kept_sbnd [kept]:
  "area_kept e (m s) \<Longrightarrow> (\<And>x s'. same_area e s' \<Longrightarrow> area_kept e (f x s')) \<Longrightarrow> area_kept e (sbnd m f s)"
  by (auto simp: area_kept_def sbnd_def obnd_def throw_def split: option.splits sum.splits)

lemma area_kept_attempt [kept]:
  "area_kept e (m s) \<Longrightarrow> (\<And>r s'. same_area e s' \<Longrightarrow> area_kept e (f r s')) \<Longrightarrow> area_kept e (attempt_run m f s)"
  by (auto simp: area_kept_def attempt_run_def obnd_def split: option.splits sum.splits)

lemma area_kept_cases [kept]:
  "(c \<Longrightarrow> area_kept e (f s)) \<Longrightarrow> (\<not> c \<Longrightarrow> area_kept e (g s)) \<Longrightarrow> area_kept e ((if c then f else g) s)"
  "(\<And>x. r = Inl x \<Longrightarrow> area_kept e (fl x s)) \<Longrightarrow> (\<And>x. r = Inr x \<Longrightarrow> area_kept e (fr x s)) \<Longrightarrow>
     area_kept e ((case r of Inl x \<Rightarrow> fl x | Inr x \<Rightarrow> fr x) s)"
  by (auto split: sum.splits)

lemma area_kept_if [kept]: "(c \<Longrightarrow> area_kept e x) \<Longrightarrow> (\<not> c \<Longrightarrow> area_kept e y) \<Longrightarrow> area_kept e (if c then x else y)"
  by auto

lemma same_area_update [simp]:
  "same_area e (s\<lparr>ae_area := (ae_area s)\<lparr>ar_metadata := m\<rparr>\<rparr>) = same_area e s"
  "same_area e (s\<lparr>ae_area := (ae_area s)\<lparr>ar_iter := it\<rparr>\<rparr>) = same_area e s" "same_area e e"
  by (simp_all add: same_area_def)

lemma portion_header_kept [kept]: "same_area e s \<Longrightarrow> area_kept e (ssdfs_read_portion_header off s)"
  unfolding ssdfs_read_portion_header_def by (intro kept) simp_all

lemma copy_fragment_kept [kept]: "same_area e s \<Longrightarrow> area_kept e (ssdfs_copy_blk_desc_fragment w i s)"
  unfolding ssdfs_copy_blk_desc_fragment_def Let_def by (intro kept) simp_all

lemma extract_from_kept [kept]: "same_area e s \<Longrightarrow> area_kept e (extract_fragment_from w is s)"
proof (induction "is" arbitrary: s)
  case Nil
  then show ?case by (simp add: area_kept_basic)
next
  case (Cons i "is")
  show ?case unfolding extract_fragment_from.simps by (intro kept Cons) assumption+
qed

lemma extract_fragment_kept [kept]: "same_area e s \<Longrightarrow> area_kept e (ssdfs_extract_valid_blk_desc_fragment w i s)"
  unfolding ssdfs_extract_valid_blk_desc_fragment_def Let_def by (intro kept) simp_all

lemma next_content_kept [kept]: "same_area e s \<Longrightarrow> area_kept e (next_content_buffer w s)"
  unfolding next_content_buffer_def ssdfs_recoverfs_prepare_first_content_buffer_def
    ssdfs_recoverfs_prepare_next_content_buffer_def Let_def by (intro kept) simp_all

lemma current_desc_kept [kept]: "same_area e s \<Longrightarrow> area_kept e (current_blk_desc s)"
  unfolding current_blk_desc_def Let_def by (intro kept) simp_all

lemma next_desc_kept: "area_kept e (ssdfs_recoverfs_get_next_blk_desc w e)"
  unfolding ssdfs_recoverfs_get_next_blk_desc_def by (intro kept) simp_all

lemma next_blk_desc_run:
  assumes "ssdfs_recoverfs_get_next_blk_desc w (area_env 6 s) = ret d e'" and wf: "thread_wf s"
  shows "next_blk_desc w s = ret d (put_area_env 6 e' s)" and "thread_wf (put_area_env 6 e' s)"
    and "ae_buffer e' = ae_buffer (area_env 6 s)"
proof -
  have "same_area (area_env 6 s) e'"
    using assms(1) next_desc_kept[of "area_env 6 s" w] by (simp add: area_kept_def ret_def)
  then show "ae_buffer e' = ae_buffer (area_env 6 s)" "thread_wf (put_area_env 6 e' s)"
    using wf by (auto simp: same_area_def thread_wf_def)
  show "next_blk_desc w s = ret d (put_area_env 6 e' s)" using assms(1) by (simp add: next_blk_desc_def zoom_def ret_def)
qed

section \<open>The blocks of the main area\<close>

text \<open>The descriptor of a block in the main area, with its byte offset, as \<^verbatim>\<open>mkfs.ssdfs\<close> writes it.\<close>

definition main_block :: "buf \<Rightarrow> u32 \<Rightarrow> bool" where
  "main_block d off \<longleftrightarrow> length d = 64 \<and> get16 d 16 = 0 \<and> get8 d 18 = 1 \<and> get8 d 19 = 1 \<and> get32 d 20 = off \<and> get16 d 24 = U16_MAX"

lemma blk_state_fields:
  "get16 (bytes_at d o' 8) 0 = get16 d o'" "get8 (bytes_at d o' 8) 2 = get8 d (o' + 2)"
  "get8 (bytes_at d o' 8) 3 = get8 d (o' + 3)" "get32 (bytes_at d o' 8) 4 = get32 d (o' + 4)"
  by (simp_all add: get8_def get16_def get32_def bytes_at_bytes_at)

lemma sbnd_ret_unit: "sbnd m (\<lambda>_. ret ()) = m"
  by (rule ext) (auto simp: sbnd_def obnd_def ret_def throw_def split: option.splits sum.splits)

lemma extract_main_block:
  assumes "main_block d off" and "off < U32_MAX"
  shows "ssdfs_recoverfs_extract_block_state w d s = ssdfs_recoverfs_read_block_state w 0 (bytes_at d 16 8) s"
proof -
  have v: "\<not> IS_BLK_STATE_INVALID (bytes_at d 16 8)" "IS_BLK_STATE_INVALID (bytes_at d 24 8)"
    using assms by (simp_all add: IS_BLK_STATE_INVALID_def blk_state_fields main_block_def not_le word_less_nat_alt unat_minus_one_eq)
  have "read_block_states w d True (1 # is) = ret ()" for "is" using v(2) by (simp add: Let_def srun)
  moreover have "[0..<6] = 0 # 1 # [2..<6 :: nat]" by (simp add: upt_rec)
  ultimately show ?thesis
    using v(1) sbnd_ret_unit[of "ssdfs_recoverfs_read_block_state w 0 (bytes_at d 16 8)"]
    by (simp add: ssdfs_recoverfs_extract_block_state_def del: upt_Suc read_block_states.simps(2))
      (simp add: Let_def)
qed

lemma only_store_wf:
  "thread_wf (s\<lparr>ts_store := st\<rparr>) = thread_wf s" "same_areas s (s'\<lparr>ts_store := st\<rparr>) = same_areas s s'"
  "area_env i (s\<lparr>ts_store := st\<rparr>) = area_env i s"
  by (simp_all add: thread_wf_def same_areas_def area_env_def)

text \<open>Whatever the device and the system do, the recovery of a block returns, and leaves the areas as they are.\<close>

lemma recover_main_block:
  assumes wf: "thread_wf s" "well_behaved w" and d: "main_block d off"
    and inside: "unat off < unat (ar_size (ae_area (area_env 3 s)))"
  shows "\<exists>r s'. recover_block w d s = Some (Inr (r, s')) \<and> thread_wf s' \<and> same_areas s s' \<and>
    ae_buffer (area_env 6 s') = ae_buffer (area_env 6 s)"
proof -
  let ?bs = "bytes_at d 16 8"
  have bs: "get8 ?bs 2 = 1" "get32 ?bs 4 = off" using d by (simp_all add: blk_state_fields main_block_def)
  have lim: "unat (ar_offset (ae_area (area_env 3 s))) + unat (ar_size (ae_area (area_env 3 s))) < 2 ^ 32"
    using wf(1) by (simp add: thread_wf_def)
  then have off: "off < U32_MAX" using inside by (simp add: word_less_nat_alt unat_minus_one_eq)
  obtain r s1 where s1: "ssdfs_recoverfs_read_block_state w 0 ?bs s = Some (Inr (r, s1))" "thread_wf s1" "same_areas s s1"
    "ae_buffer (area_env 6 s1) = ae_buffer (area_env 6 s)" "r = Inr () \<longrightarrow> rb_ptr (dump_content (ts_dump s1)) \<noteq> None"
    using main_block_ok[OF wf bs(1), unfolded bs(2), OF inside] by auto
  note run = extract_main_block[OF d off, of w s, unfolded s1(1)]
  show ?thesis
  proof (cases r)
    case (Inl e)
    then have "recover_block w d s = throw e s1" using run by (simp add: recover_block_def sbnd_throw_at)
    then show ?thesis using s1 by (auto simp: throw_def)
  next
    case (Inr u)
    then have "recover_block w d s = ssdfs_recoverfs_copy_block_state w d s1" using run by (simp add: recover_block_def sbnd_at)
    moreover have "only_store (ssdfs_recoverfs_copy_block_state w d) s1"
      using copy_block_only_store[OF s1(2)] s1(5) Inr by simp
    ultimately show ?thesis using s1 by (auto simp: only_store_def only_store_wf)
  qed
qed

text \<open>The recovery of the descriptor of zeros fails, and leaves the areas as they are.\<close>

lemma recover_zero_block:
  assumes wf: "thread_wf s" "well_behaved w" and "ar_size (ae_area (area_env 6 s)) \<noteq> 0"
  shows "\<exists>e s'. recover_block w (replicate 64 0) s = throw e s' \<and> thread_wf s' \<and> same_areas s s'"
proof -
  let ?d = "replicate 64 (0 :: u8)" and ?z = "replicate 8 (0 :: u8)"
  have z: "bytes_at ?d 16 8 = ?z" by (simp add: bytes_at_def)
  have f: "get8 ?z 2 = 0" "get32 ?z 4 = 0" "get16 ?z 0 = 0" "get8 ?z 3 = 0" by code_simp+
  have v: "\<not> IS_BLK_STATE_INVALID ?z" using f by (simp add: IS_BLK_STATE_INVALID_def)
  obtain e s' where r: "ssdfs_recoverfs_read_block_state w 0 ?z s = throw e s'" "thread_wf s'" "same_areas s s'"
    using zero_block_fails[OF wf f(1,2) assms(3)] by blast
  then have "ssdfs_recoverfs_extract_block_state w ?d s = throw e s'"
    using v z by (simp add: ssdfs_recoverfs_extract_block_state_def upt_conv_Cons Let_def sbnd_def throw_def)
  then show ?thesis using r by (auto simp: recover_block_def sbnd_def throw_def)
qed

section \<open>The loop over the descriptors\<close>

text \<open>One turn of the loop.\<close>

lemma recover_blocks_turn:
  assumes "next_blk_desc w s = ret d s1" and "recover_block w d s1 = Some (Inr (r, s2))"
  shows "recover_blocks w err s = recover_blocks w (case r of Inl e \<Rightarrow> Some e | Inr _ \<Rightarrow> None) s2"
  using assms by (simp add: recover_blocks.simps[of w err s] attempt_run_def ret_def split: sum.splits)

text \<open>The blocks of a table: all of them lie in the main area.\<close>

definition main_blocks :: "buf \<Rightarrow> nat \<Rightarrow> ssdfs_thread_state \<Rightarrow> bool" where
  "main_blocks mem c s \<longleftrightarrow> (\<forall>k < c. main_block (bytes_at mem (256 + 64 * k) 64) (get32 mem (256 + 64 * k + 20)) \<and>
     unat (get32 mem (256 + 64 * k + 20)) < unat (ar_size (ae_area (area_env 3 s))))"

text \<open>One block of a table, as long as there is one: the loop goes on behind it.\<close>

lemma recover_blocks_step:
  assumes wf: "thread_wf s" "well_behaved w" and r: "read_so_far w mem F c p (area_env 6 s)" and p: "p < c"
    and b: "main_blocks mem c s"
  obtains d s1 r s2 where "next_blk_desc w s = ret d s1" "recover_block w d s1 = Some (Inr (r, s2))"
    "thread_wf s2" "read_so_far w mem F c (Suc p) (area_env 6 s2)" "main_blocks mem c s2"
    "ar_size (ae_area (area_env 6 s2)) = ar_size (ae_area (area_env 6 s))"
proof -
  let ?d = "bytes_at mem (256 + 64 * p) 64" and ?off = "get32 mem (256 + 64 * p + 20)"
  have l: "length (dump_desc (ts_dump s)) = 9" using wf(1) by (simp add: thread_wf_def)
  obtain e where e: "ssdfs_recoverfs_get_next_blk_desc w (area_env 6 s) = ret ?d e" "read_so_far w mem F c (Suc p) e"
    using next_descriptor[OF r p] by blast
  note n = next_blk_desc_run[OF e(1) wf(1)]
  let ?s1 = "put_area_env 6 e s"
  have "main_block ?d ?off" "unat ?off < unat (ar_size (ae_area (area_env 3 ?s1)))"
    using b p l by (simp_all add: main_blocks_def)
  then obtain r s2 where s2: "recover_block w ?d ?s1 = Some (Inr (r, s2))" "thread_wf s2" "same_areas ?s1 s2"
    "ae_buffer (area_env 6 s2) = ae_buffer (area_env 6 ?s1)"
    using recover_main_block[OF n(2) wf(2)] by blast
  have a: "ae_area (area_env 6 s2) = ae_area e" "ae_area (area_env 3 s2) = ae_area (area_env 3 s)"
    using s2(3) l by (auto simp: same_areas_def)
  have "area_env 6 s2 = e" using a(1) s2(4) l by simp
  moreover have "same_area (area_env 6 s) e"
    using e(1) next_desc_kept[of "area_env 6 s" w] by (simp add: area_kept_def ret_def)
  ultimately show ?thesis using that[OF n(1) s2(1,2)] e(2) b a by (simp add: main_blocks_def same_area_def)
qed

text \<open>When the last fragment is empty, the loop does not end.\<close>

definition before_empty_fragment :: "'s recover_world \<Rightarrow> buf \<Rightarrow> nat \<Rightarrow> nat \<Rightarrow> ssdfs_thread_state \<Rightarrow> bool" where
  "before_empty_fragment w mem F c s \<longleftrightarrow> thread_wf s \<and> ar_size (ae_area (area_env 6 s)) \<noteq> 0 \<and>
     (empty_item (area_env 6 s) \<or> (\<exists>p \<le> c. read_so_far w mem F c p (area_env 6 s) \<and> main_blocks mem c s))"

lemma before_empty_fragment_turn:
  assumes wf: "well_behaved w" and c: "c = 60 * (F - 1)" "1 < F" and I: "before_empty_fragment w mem F c s"
  obtains d s1 r s2 where "next_blk_desc w s = ret d s1" "recover_block w d s1 = Some (Inr (r, s2))"
    "before_empty_fragment w mem F c s2"
proof -
  have s: "thread_wf s" "ar_size (ae_area (area_env 6 s)) \<noteq> 0" using I by (simp_all add: before_empty_fragment_def)
  have l: "length (dump_desc (ts_dump s)) = 9" using s(1) by (simp add: thread_wf_def)
  note turn = that
  have stuck: thesis if e: "ssdfs_recoverfs_get_next_blk_desc w (area_env 6 s) = ret (replicate 64 0) e" "empty_item e" for e
  proof -
    note n = next_blk_desc_run[OF e(1) s(1)]
    have "same_area (area_env 6 s) e"
      using e(1) next_desc_kept[of "area_env 6 s" w] by (simp add: area_kept_def ret_def)
    then have sz: "ar_size (ae_area (area_env 6 (put_area_env 6 e s))) \<noteq> 0" using s(2) l by (simp add: same_area_def)
    obtain err s2 where s2: "recover_block w (replicate 64 0) (put_area_env 6 e s) = throw err s2" "thread_wf s2"
      "same_areas (put_area_env 6 e s) s2" using recover_zero_block[OF n(2) wf sz] by blast
    have "ae_area (area_env 6 s2) = ae_area e" using s2(3) l by (simp add: same_areas_def)
    then have "before_empty_fragment w mem F c s2"
      using e(2) s2(2) sz l by (simp add: before_empty_fragment_def empty_item_def)
    then show thesis using turn[OF n(1)] s2(1) by (simp add: throw_def)
  qed
  show thesis
  proof (cases "empty_item (area_env 6 s)")
    case True
    then show ?thesis using stuck next_empty_item by blast
  next
    case False
    then obtain p where p: "p \<le> c" "read_so_far w mem F c p (area_env 6 s)" "main_blocks mem c s"
      using I by (auto simp: before_empty_fragment_def)
    show ?thesis
    proof (cases "p = c")
      case True
      then show ?thesis using stuck empty_fragment[OF p(2)[unfolded True] c] by blast
    next
      case False
      then have lt: "p < c" using p(1) by simp
      show ?thesis
      proof (rule recover_blocks_step[OF s(1) wf p(2) lt p(3)])
        fix d s1 r s2
        assume st: "next_blk_desc w s = ret d s1" "recover_block w d s1 = Some (Inr (r, s2))" "thread_wf s2"
          "read_so_far w mem F c (Suc p) (area_env 6 s2)" "main_blocks mem c s2"
          "ar_size (ae_area (area_env 6 s2)) = ar_size (ae_area (area_env 6 s))"
        have "before_empty_fragment w mem F c s2"
          unfolding before_empty_fragment_def using st(3-6) s(2) lt by (auto intro: exI[of _ "Suc p"])
        then show ?thesis using turn st(1,2) by blast
      qed
    qed
  qed
qed

lemma recover_blocks_hang:
  assumes wf: "well_behaved w" and c: "c = 60 * (F - 1)" "1 < F" and I: "before_empty_fragment w mem F c s"
  shows "recover_blocks w err s = None"
proof (rule ccontr)
  assume "recover_blocks w err s \<noteq> None"
  then obtain y where y: "recover_blocks w err s = Some y" by blast
  have "w = w \<longrightarrow> \<not> before_empty_fragment w mem F c s"
  proof (rule recover_blocks.raw_induct[where P = "\<lambda>w' _ s _. w' = w \<longrightarrow> \<not> before_empty_fragment w mem F c s", OF _ y], intro impI notI)
    fix f w' err s y
    assume IH: "\<And>w' err s y. f w' err s = Some y \<Longrightarrow> w' = w \<longrightarrow> \<not> before_empty_fragment w mem F c s"
      and run: "attempt_run (next_blk_desc w') (\<lambda>r. case r of
         Inl _ \<Rightarrow> (case err of None \<Rightarrow> ret () | Some e \<Rightarrow> throw e)
       | Inr bd \<Rightarrow> attempt_run (recover_block w' bd) (\<lambda>r. f w' (case r of Inl e \<Rightarrow> Some e | Inr _ \<Rightarrow> None))) s = Some y"
      and w: "w' = w" and now: "before_empty_fragment w mem F c s"
    obtain d s1 r s2 where st: "next_blk_desc w s = ret d s1" "recover_block w d s1 = Some (Inr (r, s2))"
      "before_empty_fragment w mem F c s2" by (rule before_empty_fragment_turn[OF wf c now])
    have "f w (case r of Inl e \<Rightarrow> Some e | Inr _ \<Rightarrow> None) s2 = Some y"
      using run st(1,2) w by (simp add: attempt_run_def ret_def)
    then show False using IH st(3) by blast
  qed
  then show False using I by simp
qed

section \<open>The files of a log\<close>

text \<open>
  When no call fails, the file of a block gets the contents of the buffer. The names in a folder are distinct, and \<open>rest\<close> is
  what else is in the output folder.
\<close>

definition open_folder ::
  "string \<Rightarrow> (string \<rightharpoonup> node) \<Rightarrow> ssdfs_thread_state \<Rightarrow> (string \<times> buf) list \<Rightarrow> bool" where
  "open_folder fd rest s files \<longleftrightarrow> ts_checkpoint s = Some fd \<and> distinct (map fst files) \<and>
     map_of (st_items (ts_store s)) = rest(fd \<mapsto> Folder files)"

lemma file_write_new [simp]: "file_write [] 0 d = d"
  by (simp add: file_write_def overwrite_whole)

lemma copy_block_exact:
  assumes works: "rw_sys w = (\<lambda>_. Works)" and o: "open_folder fd rest s files" "map_of files (block_file_name d) = None"
    and mem: "rb_ptr (dump_content (ts_dump s)) = Some page" "unat (rb_size (dump_content (ts_dump s))) = length page"
  shows "\<exists>st files'. ssdfs_recoverfs_copy_block_state w d s = ret () (s\<lparr>ts_store := st\<rparr>) \<and>
    open_folder fd rest (s\<lparr>ts_store := st\<rparr>) files' \<and> map_of files' = (map_of files)(block_file_name d \<mapsto> page)"
proof -
  let ?n = "block_file_name d"
  have fd: "ts_checkpoint s = Some fd" "map_of (st_items (ts_store s)) fd = Some (Folder files)"
    using o(1) by (simp_all add: open_folder_def)
  have content: "bytes_at page 0 (length page) = page" by (simp add: bytes_at_def)
  let ?files = "AList.update ?n page (AList.update ?n [] files)"
  let ?st = "(ts_store s)\<lparr>st_items := AList.update fd (Folder ?files) (st_items (ts_store s)), st_calls := st_calls (ts_store s) + 4\<rparr>"
  have "ssdfs_recoverfs_copy_block_state w d s = ret () (s\<lparr>ts_store := ?st\<rparr>)"
    unfolding ssdfs_recoverfs_copy_block_state_def Let_def
    using fd o(2) works mem content
    by (simp add: attempt_run_def sbnd_def sys_run_def sys_openat_def sys_write_def sys_sync_def sys_call_def on_files_def
        folder_files_def put_item_def update_conv' transferred_def Let_def ret_def throw_def get_state_def lift_res_def memory_of_def)
  moreover have "open_folder fd rest (s\<lparr>ts_store := ?st\<rparr>) ?files"
    using o(1) by (simp add: open_folder_def update_conv' distinct_update)
  ultimately show ?thesis by (intro exI[of _ ?st] exI[of _ ?files]) (simp add: update_conv')
qed

lemma recover_block_exact:
  assumes wf: "thread_wf s" "well_behaved w" and d: "main_block d off"
    and inside: "unat off < unat (ar_size (ae_area (area_env 3 s)))"
    and page: "ssdfs_read_area_content (rw_rd w) (pe_id (ts_peb s)) (erase_size (ts_base s))
        (ucast (ar_offset (ae_area (area_env 3 s)) + ucast off)) (env_page_size (ts_base s)) = Inr page"
    and content: "rb_ptr (dump_content (ts_dump s)) = None \<or> rb_size (dump_content (ts_dump s)) = env_page_size (ts_base s)"
    and works: "rw_sys w = (\<lambda>_. Works)" and o: "open_folder fd rest s files" "map_of files (block_file_name d) = None"
  shows "\<exists>s' files'. recover_block w d s = ret () s' \<and> thread_wf s' \<and> same_areas s s' \<and>
    ae_buffer (area_env 6 s') = ae_buffer (area_env 6 s) \<and> rb_size (dump_content (ts_dump s')) = env_page_size (ts_base s') \<and>
    open_folder fd rest s' files' \<and> map_of files' = (map_of files)(block_file_name d \<mapsto> page)"
proof -
  let ?bs = "bytes_at d 16 8" and ?ps = "env_page_size (ts_base s)"
  have bs: "get8 ?bs 2 = 1" "get32 ?bs 4 = off" using d by (simp_all add: blk_state_fields main_block_def)
  have "unat (ar_offset (ae_area (area_env 3 s))) + unat (ar_size (ae_area (area_env 3 s))) < 2 ^ 32"
    using wf(1) by (simp add: thread_wf_def)
  then have off: "off < U32_MAX" using inside by (simp add: word_less_nat_alt unat_minus_one_eq)
  obtain s1 where s1: "ssdfs_recoverfs_read_block_state w 0 ?bs s = Some (Inr (Inr (), s1))" "thread_wf s1" "same_areas s s1"
    "ts_store s1 = ts_store s" "ae_buffer (area_env 6 s1) = ae_buffer (area_env 6 s)"
    "rb_ptr (dump_content (ts_dump s1)) = Some page" "rb_size (dump_content (ts_dump s1)) = ?ps"
    using main_block_ok[OF wf bs(1), unfolded bs(2), OF inside] page content by auto
  have "unat (rb_size (dump_content (ts_dump s1))) = length page"
    using s1(2,6) by (simp add: thread_wf_def buffer_wf_def)
  moreover have "open_folder fd rest s1 files" using o(1) s1(3,4) by (simp add: open_folder_def same_areas_def)
  ultimately obtain st files' where c: "ssdfs_recoverfs_copy_block_state w d s1 = ret () (s1\<lparr>ts_store := st\<rparr>)"
    "open_folder fd rest (s1\<lparr>ts_store := st\<rparr>) files'" "map_of files' = (map_of files)(block_file_name d \<mapsto> page)"
    using copy_block_exact[OF works _ o(2) s1(6)] by blast
  have "recover_block w d s = ret () (s1\<lparr>ts_store := st\<rparr>)"
    using extract_main_block[OF d off, of w s, unfolded s1(1)] c(1) by (simp add: recover_block_def sbnd_at)
  moreover have "ts_base s1 = ts_base s" using s1(3) by (simp add: same_areas_def)
  ultimately show ?thesis using s1 c(2,3)
    by (intro exI[of _ "s1\<lparr>ts_store := st\<rparr>"] exI[of _ files']) (simp add: only_store_wf)
qed

text \<open>All blocks of a table, from the p-th on.\<close>

definition block_name :: "buf \<Rightarrow> nat \<Rightarrow> string" where
  "block_name mem k = block_file_name (bytes_at mem (256 + 64 * k) 64)"

definition page_of :: "'s recover_world \<Rightarrow> buf \<Rightarrow> ssdfs_thread_state \<Rightarrow> nat \<Rightarrow> buf res" where
  "page_of w mem s k =
     ssdfs_read_area_content (rw_rd w) (pe_id (ts_peb s)) (erase_size (ts_base s))
       (ucast (ar_offset (ae_area (area_env 3 s)) + ucast (get32 mem (256 + 64 * k + 20)))) (env_page_size (ts_base s))"

lemma page_of_cong: "same_areas s s' \<Longrightarrow> page_of w mem s' k = page_of w mem s k"
  by (simp add: page_of_def same_areas_def)

lemma recover_blocks_exact:
  assumes "well_behaved w" and works: "rw_sys w = (\<lambda>_. Works)" and last: "60 * (F - 1) < c"
    and inj: "inj_on (block_name mem) {..<c}"
    and "thread_wf s" "p \<le> c" "read_so_far w mem F c p (area_env 6 s)" "main_blocks mem c s"
    and "rb_ptr (dump_content (ts_dump s)) = None \<or> rb_size (dump_content (ts_dump s)) = env_page_size (ts_base s)"
    and "open_folder fd rest s files" "\<forall>k \<in> {p..<c}. map_of files (block_name mem k) = None"
    and "\<forall>k < c. page_of w mem s k = Inr (page k)"
  shows "\<exists>s' files'. recover_blocks w None s = ret () s' \<and> open_folder fd rest s' files' \<and>
    (\<forall>k \<in> {p..<c}. map_of files' (block_name mem k) = Some (page k)) \<and>
    (\<forall>n. n \<notin> block_name mem ` {p..<c} \<longrightarrow> map_of files' n = map_of files n)"
  using assms(5-)
proof (induction "c - p" arbitrary: p s files)
  case 0
  then have "p = c" by simp
  then have "read_so_far w mem F c c (area_env 6 s)" using 0 by simp
  then have e: "ssdfs_recoverfs_get_next_blk_desc w (area_env 6 s) = throw ENODATA (area_env 6 s)"
    by (rule no_more_descriptors[OF _ last])
  have "put_area_env 6 (area_env 6 s) s = s" by (simp add: put_area_env_def area_env_def)
  then have "recover_blocks w None s = ret () s"
    using e by (simp add: recover_blocks.simps[of w None s] next_blk_desc_def zoom_def attempt_run_def throw_def)
  then show ?case using 0 \<open>p = c\<close> by auto
next
  case (Suc n)
  let ?d = "bytes_at mem (256 + 64 * p) 64" and ?off = "get32 mem (256 + 64 * p + 20)"
  have p: "p < c" using Suc(2) by simp
  have l: "length (dump_desc (ts_dump s)) = 9" using Suc.prems(1) by (simp add: thread_wf_def)
  obtain e where e: "ssdfs_recoverfs_get_next_blk_desc w (area_env 6 s) = ret ?d e" "read_so_far w mem F c (Suc p) e"
    using next_descriptor[OF Suc.prems(3) p] by blast
  note nx = next_blk_desc_run[OF e(1) Suc.prems(1)]
  let ?s1 = "put_area_env 6 e s"
  have a3: "area_env 3 ?s1 = area_env 3 s" using l by simp
  have d: "main_block ?d ?off" "unat ?off < unat (ar_size (ae_area (area_env 3 ?s1)))"
    using Suc.prems(4) p a3 by (simp_all add: main_blocks_def)
  have pg: "ssdfs_read_area_content (rw_rd w) (pe_id (ts_peb ?s1)) (erase_size (ts_base ?s1))
      (ucast (ar_offset (ae_area (area_env 3 ?s1)) + ucast ?off)) (env_page_size (ts_base ?s1)) = Inr (page p)"
    using Suc.prems(8) p a3 by (simp add: page_of_def)
  have fresh: "map_of files (block_file_name ?d) = None" using Suc.prems(7) p by (simp add: block_name_def)
  have o1: "open_folder fd rest ?s1 files" using Suc.prems(6) by (simp add: open_folder_def)
  obtain s2 files2 where s2: "recover_block w ?d ?s1 = ret () s2" "thread_wf s2" "same_areas ?s1 s2"
    "ae_buffer (area_env 6 s2) = ae_buffer (area_env 6 ?s1)" "rb_size (dump_content (ts_dump s2)) = env_page_size (ts_base s2)"
    "open_folder fd rest s2 files2" "map_of files2 = (map_of files)(block_name mem p \<mapsto> page p)"
    using recover_block_exact[OF nx(2) assms(1) d pg _ works o1 fresh] Suc.prems(5) unfolding block_name_def by auto
  have area: "area_env 6 s2 = e" using s2(3,4) l by (simp add: same_areas_def)
  have size3: "ar_size (ae_area (area_env 3 s2)) = ar_size (ae_area (area_env 3 s))" using s2(3) a3 by (simp add: same_areas_def)
  have pages: "page_of w mem s2 k = page_of w mem s k" for k
    using page_of_cong[OF s2(3)] a3 by (simp add: page_of_def)
  have notin: "block_name mem p \<noteq> block_name mem k" if "k \<in> {Suc p..<c}" for k
    using inj_onD[OF inj, of p k] that p by auto
  have turn: "recover_blocks w None s = recover_blocks w None s2"
    using recover_blocks_turn[OF nx(1), of "Inr ()" s2 None] s2(1) by (simp add: ret_def)
  have "\<exists>s' files'. recover_blocks w None s2 = ret () s' \<and> open_folder fd rest s' files' \<and>
      (\<forall>k \<in> {Suc p..<c}. map_of files' (block_name mem k) = Some (page k)) \<and>
      (\<forall>n. n \<notin> block_name mem ` {Suc p..<c} \<longrightarrow> map_of files' n = map_of files2 n)"
  proof (rule Suc(1))
    show "\<forall>k \<in> {Suc p..<c}. map_of files2 (block_name mem k) = None"
      using s2(7) Suc.prems(7) notin[THEN not_sym] by simp
  qed (use Suc(2) p s2(2,5,6) e(2) area Suc.prems(4,8) size3 pages in \<open>simp_all add: main_blocks_def\<close>)
  then obtain s' files' where f: "recover_blocks w None s2 = ret () s'" "open_folder fd rest s' files'"
    "\<forall>k \<in> {Suc p..<c}. map_of files' (block_name mem k) = Some (page k)"
    "\<forall>n. n \<notin> block_name mem ` {Suc p..<c} \<longrightarrow> map_of files' n = map_of files2 n" by blast
  have "block_name mem p \<notin> block_name mem ` {Suc p..<c}" using notin by blast
  then have "map_of files' (block_name mem p) = Some (page p)" using f(4) s2(7) by simp
  moreover have "{p..<c} = insert p {Suc p..<c}" using p by auto
  ultimately show ?case using f turn s2(7) by (intro exI[of _ s'] exI[of _ files']) auto
qed

section \<open>The logs of mkfs.ssdfs\<close>

text \<open>The table is read to the buffer of its area.\<close>

lemma prefetch_ok:
  assumes wf: "thread_wf s" "well_behaved w" and hdr: "rb_ptr (ae_buffer (seg_hdr_env s)) = Some hdr"
    and desc: "blk_desc_area hdr = Inr (log_size, off, sz)"
    and mem: "ssdfs_read_blk_desc_array (rw_rd w) (pe_id (ts_peb s)) (pe_size (ts_peb s)) off sz = Inr mem"
  shows "\<exists>b pad. ssdfs_recoverfs_prefetch_blk_desc_table w s =
      ret () (put_area_env 6 ((area_env 6 s)\<lparr>ae_buffer := b\<rparr>) (s\<lparr>ts_peb := (ts_peb s)\<lparr>pe_log_size := log_size\<rparr>\<rparr>)) \<and>
    buffer_wf b \<and> sz \<le> rb_size b \<and> rb_ptr b = Some (mem @ pad)"
proof -
  let ?s0 = "s\<lparr>ts_peb := (ts_peb s)\<lparr>pe_log_size := log_size\<rparr>\<rparr>"
  have a: "area_env i ?s0 = area_env i s" for i by (simp add: area_env_def)
  have bw: "buffer_wf (ae_buffer (area_env 6 s))" "length (dump_desc (ts_dump s)) = 9" using wf(1) by (simp_all add: thread_wf_def)
  obtain b where b: "ssdfs_recoverfs_prepare_raw_buffer w 1 sz (ae_buffer (area_env 6 s)) = ret () b" "buffer_wf b"
    "rb_ptr b = Some (replicate (unat (rb_size b)) 0)" "sz \<le> rb_size b"
    using prepared_buffer[OF bw(1) wf(2)] by blast
  let ?s1 = "put_area_env 6 ((area_env 6 s)\<lparr>ae_buffer := b\<rparr>) ?s0"
  have step: "area_buffer 6 (ssdfs_recoverfs_prepare_raw_buffer w 1 sz) ?s0 = ret () ?s1"
    using area_buffer_ok[of "ssdfs_recoverfs_prepare_raw_buffer w 1 sz" 6 ?s0] b(1) a by simp
  have l: "length mem = unat sz" using area_read(1)[OF wf(2)] mem by (simp add: ssdfs_read_blk_desc_array_def)
  then have fit: "length mem \<le> unat (rb_size b)" using b(4) by (simp add: word_le_nat_alt)
  let ?b = "b\<lparr>rb_ptr := Some (overwrite (replicate (unat (rb_size b)) 0) 0 mem)\<rparr>"
  have "area_buffer 6 (fill_buffer 0 mem) ?s1 = ret () (put_area_env 6 ((area_env 6 s)\<lparr>ae_buffer := ?b\<rparr>) ?s0)"
    using area_buffer_ok[of "fill_buffer 0 mem" 6 ?s1] fill_buffer_ok[OF b(3), of 0 mem] fit bw(2) by simp
  then have "ssdfs_recoverfs_prefetch_blk_desc_table w s = ret () (put_area_env 6 ((area_env 6 s)\<lparr>ae_buffer := ?b\<rparr>) ?s0)"
    using hdr desc mem unfolding ssdfs_recoverfs_prefetch_blk_desc_table_def
    by (simp add: srun sbnd_assoc memory_of_def modify_peb_def sbnd_run[where m = "area_buffer 6 (ssdfs_recoverfs_prepare_raw_buffer w 1 sz)", OF step] del: One_nat_def)
  moreover have "overwrite (replicate (unat (rb_size b)) 0) 0 mem = mem @ replicate (unat (rb_size b) - length mem) 0"
    by (simp add: overwrite_def)
  ultimately show ?thesis using b(2,4) fit
    by (intro exI[of _ ?b] exI[of _ "replicate (unat (rb_size b) - length mem) 0"]) (simp add: buffer_wf_def)
qed

text \<open>
  The state of a thread in front of a log whose table of block descriptors is \<open>mem\<close>: its header is in memory, the areas are
  those of the header, the device holds the table.
\<close>

definition log_ready :: "'s recover_world \<Rightarrow> buf \<Rightarrow> ssdfs_thread_state \<Rightarrow> bool" where
  "log_ready w mem s \<longleftrightarrow> thread_wf s \<and>
     (let area = ae_area (area_env 6 s) in
      length (ar_metadata area) = 256 \<and> buffer_wf (ar_uncompressed area) \<and> it_state (ar_iter area) = CONTENT_UNKNOWN_STATE \<and>
      ar_size area \<noteq> 0 \<and> ar_offset area < ucast (pe_size (ts_peb s))) \<and>
     (case rb_ptr (ae_buffer (seg_hdr_env s)) of None \<Rightarrow> False | Some hdr \<Rightarrow>
        (case blk_desc_area hdr of
           Inl _ \<Rightarrow> False
         | Inr (_, off, sz) \<Rightarrow>
             ssdfs_read_blk_desc_array (rw_rd w) (pe_id (ts_peb s)) (pe_size (ts_peb s)) off sz = Inr mem))"

lemma log_ready_run:
  assumes r: "log_ready w mem s" and wf: "well_behaved w" and t: "table_written (rw_crc w) mem F c"
  obtains s1 where "recover_log_blocks w s = recover_blocks w None s1" "thread_wf s1" "read_so_far w mem F c 0 (area_env 6 s1)"
    "ae_area (area_env 6 s1) = ae_area (area_env 6 s)" "area_env 3 s1 = area_env 3 s" "ts_base s1 = ts_base s"
    "pe_id (ts_peb s1) = pe_id (ts_peb s)" "dump_content (ts_dump s1) = dump_content (ts_dump s)"
    "ts_checkpoint s1 = ts_checkpoint s" "ts_store s1 = ts_store s"
proof -
  have s: "thread_wf s" using r by (simp add: log_ready_def)
  obtain hdr log_size off sz where h: "rb_ptr (ae_buffer (seg_hdr_env s)) = Some hdr" "blk_desc_area hdr = Inr (log_size, off, sz)"
    "ssdfs_read_blk_desc_array (rw_rd w) (pe_id (ts_peb s)) (pe_size (ts_peb s)) off sz = Inr mem"
    using r by (auto simp: log_ready_def split: option.splits sum.splits)
  obtain b pad where b: "ssdfs_recoverfs_prefetch_blk_desc_table w s =
      ret () (put_area_env 6 ((area_env 6 s)\<lparr>ae_buffer := b\<rparr>) (s\<lparr>ts_peb := (ts_peb s)\<lparr>pe_log_size := log_size\<rparr>\<rparr>))"
    "buffer_wf b" "sz \<le> rb_size b" "rb_ptr b = Some (mem @ pad)" using prefetch_ok[OF s wf h] by blast
  let ?s0 = "s\<lparr>ts_peb := (ts_peb s)\<lparr>pe_log_size := log_size\<rparr>\<rparr>"
  let ?s1 = "put_area_env 6 ((area_env 6 s)\<lparr>ae_buffer := b\<rparr>) ?s0"
  have l: "length (dump_desc (ts_dump s)) = 9" using s by (simp add: thread_wf_def)
  have a: "area_env i ?s0 = area_env i s" for i by (simp add: area_env_def)
  have "thread_wf ?s0" using s by (simp add: thread_wf_def a)
  then have w1: "thread_wf ?s1" using thread_wf_put_buffer(1)[of ?s0 6 b] b(2) a by simp
  have len: "length mem = unat sz" using area_read(1)[OF wf] h(3) by (simp add: ssdfs_read_blk_desc_array_def)
  have "table_env w mem (area_env 6 ?s1)"
    using r l b(3,4) wf len by (simp add: table_env_def log_ready_def well_behaved_def Let_def)
  then have so_far: "read_so_far w mem F c 0 (area_env 6 ?s1)"
    using r l t by (simp add: read_so_far_def log_ready_def Let_def)
  have "\<not> ucast (pe_size (ts_peb s)) \<le> ar_offset (ae_area (area_env 6 s))" "ar_size (ae_area (area_env 6 s)) \<noteq> 0"
    using r by (simp_all add: log_ready_def Let_def not_le)
  then have "recover_log_blocks w s = recover_blocks w None ?s1"
    using b(1) by (simp add: recover_log_blocks_def Let_def srun
        sbnd_run[where m = "ssdfs_recoverfs_prefetch_blk_desc_table w"])
  then show ?thesis by (rule that[OF _ w1 so_far]) (simp_all add: l a)
qed

text \<open>The table of a log with \<open>valid\<close> blocks of one page, as \<^verbatim>\<open>mkfs.ssdfs\<close> writes it.\<close>

definition written_by_mkfs ::
  "(u32 \<Rightarrow> buf \<Rightarrow> u32) \<Rightarrow> u32 \<Rightarrow> u16 \<Rightarrow> int \<Rightarrow> u64 \<Rightarrow> u32 \<Rightarrow> u32 \<Rightarrow> buf \<Rightarrow> bool" where
  "written_by_mkfs crc32 start valid peb ino ps payload mem \<longleftrightarrow>
     0 < unat valid \<and> unat valid \<le> 780 \<and> ps \<noteq> 0 \<and> peb < 65535 \<and> unat start + unat valid \<le> 65535 \<and>
     (\<exists>mem0 cur. length mem0 = 256 + 64 * written_descs (unat valid) \<and>
        prepare_area_block_table crc32 0 0 (of_nat ((unat valid + 59) div 60)) False start valid peb ino ps ps payload (mem0, 0) =
          Inr (mem, cur))"

lemma written_by_mkfs_table:
  assumes "written_by_mkfs crc32 start valid peb ino ps payload mem"
  shows "table_written (crc32 0) mem ((unat valid + 59) div 60) (written_descs (unat valid))"
    and "k < written_descs (unat valid) \<Longrightarrow> blk_desc mem (256 + 64 * k) = blk_desc_of start peb ino ps ps payload k"
proof -
  have v: "0 < unat valid" "unat valid \<le> 780" "ps \<noteq> 0" "peb < 65535" "unat start + unat valid \<le> 65535"
    using assms by (simp_all add: written_by_mkfs_def)
  obtain mem0 cur where m: "length mem0 = 256 + 64 * written_descs (unat valid)"
    "prepare_area_block_table crc32 0 0 (of_nat ((unat valid + 59) div 60)) False start valid peb ino ps ps payload (mem0, 0) = Inr (mem, cur)"
    using assms by (auto simp: written_by_mkfs_def)
  let ?F = "of_nat ((unat valid + 59) div 60) :: u16"
  have F: "unat ?F = (unat valid + 59) div 60" using v(2) by (simp add: unat_of_nat)
  show "table_written (crc32 0) mem ((unat valid + 59) div 60) (written_descs (unat valid))"
    "k < written_descs (unat valid) \<Longrightarrow> blk_desc mem (256 + 64 * k) = blk_desc_of start peb ino ps ps payload k"
    using area_block_table_written[OF v(1,2) F m(1) v(4,3,5), of crc32 ino ps payload] m(2) F by auto
qed

lemma mkfs_block_fields:
  assumes "blk_desc mem (256 + 64 * k) = blk_desc_of start peb ino ps ps payload k" and "256 + 64 * k + 64 \<le> length mem"
  shows "main_block (bytes_at mem (256 + 64 * k) 64) (of_nat k * ps)" and "get32 mem (256 + 64 * k + 20) = of_nat k * ps"
    and "block_name mem k = decimal (unat ino) @ ''-'' @ decimal (unat ((payload + of_nat k * ps) div ps))"
proof -
  let ?d = "bytes_at mem (256 + 64 * k) 64"
  have d: "blk_desc ?d 0 = blk_desc_of start peb ino ps ps payload k" using assms(1) blk_desc_window0 by simp
  have f: "get64 ?d 0 = ino" "get32 ?d 8 = (payload + of_nat k * ps) div ps" "get16 ?d 16 = 0" "get8 ?d 18 = 1" "get8 ?d 19 = 1"
    "get32 ?d 20 = of_nat k * ps" "get16 ?d 24 = U16_MAX"
    using d unfolding blk_desc_def blk_desc_of_def prod.inject add_0 by (simp_all only: order_refl if_True)
  have "length ?d = 64" using assms(2) by simp
  then show "main_block ?d (of_nat k * ps)" unfolding main_block_def using f(3-) by (intro conjI)
  show "get32 mem (256 + 64 * k + 20) = of_nat k * ps"
    using assms(1) unfolding blk_desc_def blk_desc_of_def prod.inject by (elim conjE)
  show "block_name mem k = decimal (unat ino) @ ''-'' @ decimal (unat ((payload + of_nat k * ps) div ps))"
    unfolding block_name_def block_file_name_def f ..
qed

lemma decimal_inject: "decimal m = decimal n \<Longrightarrow> m = n"
  by (metis foldl_decimal of_nat_eq_iff)

lemma mkfs_main_blocks:
  assumes t: "written_by_mkfs crc32 start valid peb ino ps payload mem"
    and fit: "unat valid * unat ps \<le> unat (ar_size (ae_area (area_env 3 s)))"
  shows "main_blocks mem (written_descs (unat valid)) s"
proof -
  let ?c = "written_descs (unat valid)"
  have v: "0 < unat valid" "ps \<noteq> 0" using t by (simp_all add: written_by_mkfs_def)
  have c: "?c \<le> unat valid" using written_descs_eq[OF v(1)] by simp
  have l: "length mem = 256 + 64 * ?c" using written_by_mkfs_table(1)[OF t] by (simp add: table_written_def)
  show ?thesis unfolding main_blocks_def
  proof (intro allI impI conjI)
    fix k assume k: "k < ?c"
    note b = mkfs_block_fields[OF written_by_mkfs_table(2)[OF t k]]
    have room: "256 + 64 * k + 64 \<le> length mem" using k l by simp
    show "main_block (bytes_at mem (256 + 64 * k) 64) (get32 mem (256 + 64 * k + 20))" using b room by simp
    have lt: "k * unat ps < unat valid * unat ps" using k c v(2) by (simp add: unat_gt_0)
    moreover have "unat valid * unat ps < 2 ^ 32"
      by (rule le_less_trans[OF fit]) (use unat_width[of "ar_size (ae_area (area_env 3 s))"] in simp)
    ultimately have "k * unat ps < 2 ^ 32" by (rule less_trans)
    then have "unat (of_nat k * ps) = k * unat ps" by (simp add: unat_word_ariths unat_of_nat mod_mult_left_eq)
    then show "unat (get32 mem (256 + 64 * k + 20)) < unat (ar_size (ae_area (area_env 3 s)))"
      using b(2)[OF room] less_le_trans[OF lt fit] by simp
  qed
qed

subsection \<open>A thread in front of a log\<close>

definition sample_area :: "u32 \<Rightarrow> nat \<Rightarrow> ssdfs_raw_area_environment" where
  "sample_area table_size i =
     \<lparr>ae_area = \<lparr>ar_offset = (if i = 3 then 0x10000 else if i = 6 then 0x1000 else 0),
        ar_size = (if i = 3 then 491520 else if i = 6 then table_size else 0), ar_iter = SSDFS_CREATE_CONTENT_ITERATOR,
        ar_metadata = replicate 256 0, ar_uncompressed = empty_buffer, ar_delta = empty_buffer\<rparr>,
      ae_buffer = empty_buffer\<rparr>"

definition sample_log_header :: "u32 \<Rightarrow> buf" where
  "sample_log_header table_size =
     put32 (put32 (put16 (put32 (replicate 512 0) 0 SSDFS_SUPER_MAGIC) 4 SSDFS_PARTIAL_LOG_HDR_MAGIC) 0x90 0x1000) 0x94 table_size"

definition sample_thread :: "u32 \<Rightarrow> ssdfs_thread_state" where
  "sample_thread table_size =
     \<lparr>ts_base = \<lparr>fs_size = 0x800000, erase_size = 0x100000, open_zones = 0, env_page_size = 4096, env_device_type = SSDFS_MTD_DEVICE,
        env_fd = 3, env_dev_ops = mtd_ops\<rparr>,
      ts_peb = \<lparr>pe_id = 2, pe_count = 8, pe_size = 0x100000, pe_log_offset = 0, pe_log_size = 4096, pe_log_index = 0, pe_logs_count = 256\<rparr>,
      ts_dump = \<lparr>dump_peb_offset = 0,
        dump_seg_hdr = (sample_area 0 0)\<lparr>ae_buffer := \<lparr>rb_ptr = Some (sample_log_header table_size), rb_size = 512\<rparr>\<rparr>,
        dump_desc = map (sample_area table_size) [0..<9], dump_content = empty_buffer\<rparr>,
      ts_checkpoint = Some ''7'', ts_inode = 0, ts_content = None,
      ts_store = \<lparr>st_items = [(''7'', Folder [])], st_calls = 0\<rparr>\<rparr>"

definition sample_recover_world :: "buf \<Rightarrow> (nat \<Rightarrow> sys_out) \<Rightarrow> buf recover_world" where
  "sample_recover_world mem sys =
     \<lparr>rw_rd = \<lambda>off n. if n = of_nat (length mem) then Inr mem else Inr (replicate (unat n) 7),
      rw_crc = \<lambda>_. 0, rw_libs = run_libs, rw_fresh = \<lambda>_. 0, rw_alloc = \<lambda>_ _. True, rw_sys = sys,
      rw_localtime = \<lambda>_. \<lparr>tm_min = 0, tm_hour = 0, tm_mday = 1, tm_mon = 0, tm_year = 70\<rparr>, rw_now = \<lambda>_. 0\<rparr>"

lemma sample_area_env: "i < 9 \<Longrightarrow> area_env i (sample_thread table_size) = sample_area table_size i"
  by (simp add: area_env_def sample_thread_def del: upt_Suc)

lemma sample_thread_wf:
  assumes "unat table_size < 100000"
  shows "thread_wf (sample_thread table_size)"
proof -
  have "\<forall>i < 9. buffer_wf (ae_buffer (sample_area table_size i)) \<and>
      unat (ar_offset (ae_area (sample_area table_size i))) + unat (ar_size (ae_area (sample_area table_size i))) < 2 ^ 32"
    using assms by (simp add: sample_area_def empty_buffer_def buffer_wf_def)
  then have "\<forall>i < 9. buffer_wf (ae_buffer (area_env i (sample_thread table_size))) \<and>
      unat (ar_offset (ae_area (area_env i (sample_thread table_size)))) +
      unat (ar_size (ae_area (area_env i (sample_thread table_size)))) < 2 ^ 32"
    by (simp add: sample_area_env)
  then show ?thesis
    unfolding thread_wf_def by (simp add: sample_thread_def is_pagesize_valid_def empty_buffer_def buffer_wf_def)
qed

lemma sample_thread_ready:
  assumes "0 < length mem" "length mem < 100000"
  shows "log_ready (sample_recover_world mem sys) mem (sample_thread (of_nat (length mem)))"
    and "well_behaved (sample_recover_world mem sys)"
proof -
  let ?sz = "of_nat (length mem) :: u32"
  have sz: "unat ?sz = length mem" using assms(2) by (simp add: unat_of_nat)
  then have nz: "?sz \<noteq> 0" using assms(1) by (metis less_irrefl unat_0)
  have sz64: "unat (of_nat (length mem) :: u64) = length mem" using assms(2) by (simp add: unat_of_nat)
  have u: "(ucast ?sz :: u64) = of_nat (length mem)" by (rule word_unat_eqI) (simp add: unat_ucast_up sz sz64)
  have l: "length (put32 (put16 (put32 (replicate 512 0) 0 SSDFS_SUPER_MAGIC) 4 SSDFS_PARTIAL_LOG_HDR_MAGIC) 0x90 0x1000) = 512" by simp
  have hdr: "blk_desc_area (sample_log_header ?sz) = Inr (get32 (sample_log_header ?sz) 0x28, 0x1000, ?sz)"
    unfolding blk_desc_area_def sample_log_header_def is_ssdfs_segment_header_def is_ssdfs_partial_log_header_def area_desc_def
    by (simp add: buf_simps)
  have "rb_ptr (ae_buffer (seg_hdr_env (sample_thread ?sz))) = Some (sample_log_header ?sz)"
    by (simp add: seg_hdr_env_def sample_thread_def)
  moreover have "ssdfs_read_blk_desc_array (rw_rd (sample_recover_world mem sys)) i z off ?sz = Inr mem" for i z off
    by (simp add: ssdfs_read_blk_desc_array_def ssdfs_read_area_content_def sample_recover_world_def u)
  moreover have "thread_wf (sample_thread ?sz)" by (rule sample_thread_wf) (simp add: sz assms(2))
  moreover have "ar_offset (ae_area (sample_area ?sz 6)) < ucast (pe_size (ts_peb (sample_thread ?sz)))"
    by (simp add: sample_area_def sample_thread_def)
  ultimately show "log_ready (sample_recover_world mem sys) mem (sample_thread ?sz)"
    unfolding log_ready_def Let_def using hdr nz
    by (simp add: sample_area_env) (simp add: sample_area_def empty_buffer_def buffer_wf_def SSDFS_CREATE_CONTENT_ITERATOR_def)
  show "well_behaved (sample_recover_world mem sys)"
    using sz64 by (simp add: well_behaved_def sample_recover_world_def)
qed

lemma sample_table:
  assumes "0 < unat valid" "unat valid \<le> 780"
  shows "\<exists>mem. written_by_mkfs (\<lambda>_ _. 0) 0 valid 0 5 4096 0 mem \<and> length mem = 256 + 64 * written_descs (unat valid)"
proof -
  let ?F = "of_nat ((unat valid + 59) div 60) :: u16" and ?mem0 = "replicate (256 + 64 * written_descs (unat valid)) 0 :: buf"
  have F: "unat ?F = (unat valid + 59) div 60" using assms(2) by (simp add: unat_of_nat)
  obtain mem cur where m: "prepare_area_block_table (\<lambda>_ _. 0) 0 0 ?F False 0 valid 0 5 4096 4096 0 (?mem0, 0) = Inr (mem, cur)"
    "table_written ((\<lambda>_ _. 0) (0 :: u32)) mem (unat ?F) (written_descs (unat valid))"
    using area_block_table_written[OF assms F length_replicate[of _ "0 :: u8"], of 0 4096 0 "\<lambda>_ _. 0" 5 4096 0] assms(2) by auto
  then have "written_by_mkfs (\<lambda>_ _. 0) 0 valid 0 5 4096 0 mem"
    unfolding written_by_mkfs_def using assms by (auto intro!: exI[of _ ?mem0])
  then show ?thesis using m(2) by (auto simp: table_written_def)
qed

lemma ucast_add_down: "(ucast (a + ucast b) :: u32) = ucast a + b" for a :: u64 and b :: u32
  by (rule word_unat_eqI) (simp add: unat_word_ariths unsigned_ucast_eq take_bit_eq_mod mod_simps mod_mod_cancel)

text \<open>The name of the file of the k-th block.\<close>

definition recovered_name :: "u64 \<Rightarrow> u32 \<Rightarrow> u32 \<Rightarrow> nat \<Rightarrow> string" where
  "recovered_name ino payload ps k = decimal (unat ino) @ ''-'' @ decimal (unat payload div unat ps + k)"

lemma recovered_name_inject: "recovered_name ino payload ps k = recovered_name ino payload ps j \<Longrightarrow> k = j"
  by (auto simp: recovered_name_def dest: decimal_inject)

lemma mkfs_log_files:
  assumes t: "written_by_mkfs crc32 start valid peb ino ps payload mem" and v: "unat valid mod 60 \<noteq> 0"
    and payload: "unat payload + unat valid * unat ps < 2 ^ 32"
    and w: "well_behaved w" "rw_crc w = crc32 0" "rw_sys w = (\<lambda>_. Works)"
    and s: "log_ready w mem s" "env_page_size (ts_base s) = ps" "unat valid * unat ps \<le> unat (ar_size (ae_area (area_env 3 s)))"
    and content: "rb_ptr (dump_content (ts_dump s)) = None \<or> rb_size (dump_content (ts_dump s)) = ps"
    and o: "open_folder fd rest s files" "\<forall>k < unat valid. map_of files (recovered_name ino payload ps k) = None"
    and pages: "\<forall>k < unat valid. ssdfs_read_area_content (rw_rd w) (pe_id (ts_peb s)) (erase_size (ts_base s))
        (ucast (ar_offset (ae_area (area_env 3 s))) + of_nat k * ps) ps = Inr (page k)"
  shows "\<exists>s' files'. recover_log_blocks w s = ret () s' \<and> open_folder fd rest s' files' \<and>
    (\<forall>k < unat valid. map_of files' (recovered_name ino payload ps k) = Some (page k)) \<and>
    (\<forall>n. (\<forall>k < unat valid. n \<noteq> recovered_name ino payload ps k) \<longrightarrow>
       map_of files' n = map_of files n)"
proof -
  let ?c = "written_descs (unat valid)" and ?F = "(unat valid + 59) div 60"
  let ?name = "recovered_name ino payload ps"
  have v0: "0 < unat valid" "0 < unat ps" using t by (simp_all add: written_by_mkfs_def unat_gt_0)
  have c: "?c = unat valid" using written_descs_eq[OF v0(1)] v by simp
  have last: "60 * (?F - 1) < ?c" using v by (simp add: written_descs_def)
  have tw: "table_written (rw_crc w) mem ?F ?c" using written_by_mkfs_table(1)[OF t] w(2) by simp
  have l: "length mem = 256 + 64 * ?c" using tw by (simp add: table_written_def)
  have small: "unat (payload + of_nat k * ps) = unat payload + k * unat ps" if "k < ?c" for k
  proof -
    have "k * unat ps \<le> unat valid * unat ps" using that c by simp
    then have k: "unat payload + k * unat ps < 2 ^ 32" using payload by linarith
    then have "unat (of_nat k * ps) = k * unat ps" by (simp add: unat_word_ariths unat_of_nat mod_mult_left_eq)
    then show ?thesis using k by (simp add: unat_add_nw)
  qed
  have name: "block_name mem k = ?name k" if k: "k < ?c" for k
    using mkfs_block_fields(3)[OF written_by_mkfs_table(2)[OF t k]] small[OF k] k l v0(2) by (simp add: unat_div_distrib add.commute recovered_name_def)
  obtain s1 where s1: "recover_log_blocks w s = recover_blocks w None s1" "thread_wf s1" "read_so_far w mem ?F ?c 0 (area_env 6 s1)"
    "ae_area (area_env 6 s1) = ae_area (area_env 6 s)" "area_env 3 s1 = area_env 3 s" "ts_base s1 = ts_base s"
    "pe_id (ts_peb s1) = pe_id (ts_peb s)" "dump_content (ts_dump s1) = dump_content (ts_dump s)"
    "ts_checkpoint s1 = ts_checkpoint s" "ts_store s1 = ts_store s"
    by (rule log_ready_run[OF s(1) w(1) tw])
  have pg: "\<forall>k < ?c. page_of w mem s1 k = Inr (page k)"
  proof (intro allI impI)
    fix k assume k: "k < ?c"
    have "(ucast (ar_offset (ae_area (area_env 3 s)) + ucast (of_nat k * ps)) :: u32) =
        ucast (ar_offset (ae_area (area_env 3 s))) + of_nat k * ps"
      by (rule ucast_add_down)
    then show "page_of w mem s1 k = Inr (page k)"
      using pages k c s(2) s1(5-7) mkfs_block_fields(2)[OF written_by_mkfs_table(2)[OF t k]] l by (simp add: page_of_def)
  qed
  have "\<exists>s' files'. recover_blocks w None s1 = ret () s' \<and> open_folder fd rest s' files' \<and>
      (\<forall>k \<in> {0..<?c}. map_of files' (block_name mem k) = Some (page k)) \<and>
      (\<forall>n. n \<notin> block_name mem ` {0..<?c} \<longrightarrow> map_of files' n = map_of files n)"
  proof (rule recover_blocks_exact[OF w(1,3) last _ s1(2) _ s1(3) _ _ _ _ pg])
    show "inj_on (block_name mem) {..<?c}"
      by (rule inj_onI) (use name recovered_name_inject in \<open>force\<close>)
    show "main_blocks mem ?c s1" by (rule mkfs_main_blocks[OF t]) (simp add: s s1(5))
    show "open_folder fd rest s1 files" using o(1) s1(9,10) by (simp add: open_folder_def)
    show "\<forall>k \<in> {0..<?c}. map_of files (block_name mem k) = None" using o(2) name c by simp
  qed (use content s(2) s1(6,8) in simp_all)
  then obtain s' files' where f: "recover_blocks w None s1 = ret () s'" "open_folder fd rest s' files'"
    "\<forall>k \<in> {0..<?c}. map_of files' (block_name mem k) = Some (page k)"
    "\<forall>n. n \<notin> block_name mem ` {0..<?c} \<longrightarrow> map_of files' n = map_of files n" by blast
  have img: "block_name mem ` {0..<?c} = ?name ` {0..<unat valid}" using name c by (intro image_cong) simp_all
  have other: "map_of files' n = map_of files n" if "\<forall>k < unat valid. n \<noteq> ?name k" for n
  proof (rule f(4)[rule_format])
    show "n \<notin> block_name mem ` {0..<?c}" unfolding img using that by auto
  qed
  show ?thesis
    by (intro exI[of _ s'] exI[of _ files'] conjI allI impI other) (use f(1-3) s1(1) name c in auto)
qed

text \<open>
  C5. A round trip through the device: the blocks of a log that \<^verbatim>\<open>mkfs.ssdfs\<close> wrote are recovered. The log has up to 780
  blocks of one page in its main area, not a multiple of 60; no call of the system fails, and the device holds the table and
  the pages. Then \<^verbatim>\<open>ssdfs_recoverfs_parse_full_log\<close> and its sibling for partial logs return without an error from the loop
  over the descriptors, the file of every block holds its page, and the other files of the folder and what else is in the output
  folder are as they were.
\<close>

theorem mkfs_log_recovered:
  assumes t: "written_by_mkfs crc32 start valid peb ino ps payload mem" and v: "unat valid mod 60 \<noteq> 0"
    and payload: "unat payload + unat valid * unat ps < 2 ^ 32"
    and w: "well_behaved w" "rw_crc w = crc32 0" "rw_sys w = (\<lambda>_. Works)"
    and s: "log_ready w mem s" "env_page_size (ts_base s) = ps" "unat valid * unat ps \<le> unat (ar_size (ae_area (area_env 3 s)))"
    and content: "rb_ptr (dump_content (ts_dump s)) = None \<or> rb_size (dump_content (ts_dump s)) = ps"
    and o: "open_folder fd rest s files" "\<forall>k < unat valid. map_of files (recovered_name ino payload ps k) = None"
    and pages: "\<forall>k < unat valid. ssdfs_read_area_content (rw_rd w) (pe_id (ts_peb s)) (erase_size (ts_base s))
        (ucast (ar_offset (ae_area (area_env 3 s))) + of_nat k * ps) ps = Inr (page k)"
  shows "\<exists>s' files'. recover_log_blocks w s = ret () s' \<and> open_folder fd rest s' files' \<and>
    (\<forall>k < unat valid. map_of files' (recovered_name ino payload ps k) = Some (page k)) \<and>
    (\<forall>n. (\<forall>k < unat valid. n \<noteq> recovered_name ino payload ps k) \<longrightarrow>
       map_of files' n = map_of files n)"
  using assms by (rule mkfs_log_files)

theorem mkfs_log_recovered_witness:
  "\<exists>mem s' files'. recover_log_blocks (sample_recover_world mem (\<lambda>_. Works)) (sample_thread 320) = ret () s' \<and>
     open_folder ''7'' Map.empty s' files' \<and> map_of files' ''5-0'' = Some (replicate 4096 7)"
proof -
  obtain mem where m: "written_by_mkfs (\<lambda>_ _. 0) 0 1 0 5 4096 0 mem" "length mem = 320"
    using sample_table[of 1] by (auto simp: written_descs_def)
  let ?w = "sample_recover_world mem (\<lambda>_. Works)" and ?s = "sample_thread 320"
  have n: "recovered_name 5 0 4096 0 = ''5-0''" by code_simp
  have ready: "log_ready ?w mem ?s" "well_behaved ?w" using sample_thread_ready[of mem "\<lambda>_. Works"] m(2) by simp_all
  have page: "\<forall>k < unat (1 :: u16). ssdfs_read_area_content (rw_rd ?w) (pe_id (ts_peb ?s)) (erase_size (ts_base ?s))
      (ucast (ar_offset (ae_area (area_env 3 ?s))) + of_nat k * 4096) 4096 = Inr (replicate 4096 7)"
    using m(2) by (simp add: ssdfs_read_area_content_def sample_recover_world_def)
  have "open_folder ''7'' Map.empty ?s []" by (simp add: open_folder_def sample_thread_def)
  then have "\<exists>s' files'. recover_log_blocks ?w ?s = ret () s' \<and> open_folder ''7'' Map.empty s' files' \<and>
      (\<forall>k < unat (1 :: u16). map_of files' (recovered_name 5 0 4096 k) = Some (replicate 4096 7)) \<and>
      (\<forall>n. (\<forall>k < unat (1 :: u16). n \<noteq> recovered_name 5 0 4096 k) \<longrightarrow> map_of files' n = map_of [] n)"
    by (intro mkfs_log_recovered[OF m(1) _ _ ready(2) _ _ ready(1) _ _ _ _ _ page])
      (simp_all add: sample_recover_world_def sample_area_env, simp_all add: sample_area_def sample_thread_def empty_buffer_def)
  then show ?thesis using n by auto
qed


text \<open>
  C27. The recovery of a log of 120, 180, ..., 780 blocks does not return: the fragment that \<^verbatim>\<open>mkfs.ssdfs\<close> leaves empty behind
  the others gives the same descriptor for ever, whatever the device answers and whatever calls of the system fail.
\<close>

theorem mkfs_log_recovery_hangs:
  assumes t: "written_by_mkfs crc32 start valid peb ino ps payload mem" and v: "unat valid mod 60 = 0" "60 < unat valid"
    and w: "well_behaved w" "rw_crc w = crc32 0"
    and s: "log_ready w mem s" "unat valid * unat ps \<le> unat (ar_size (ae_area (area_env 3 s)))"
  shows "recover_log_blocks w s = None"
proof -
  let ?c = "written_descs (unat valid)" and ?F = "(unat valid + 59) div 60"
  have F: "?c = 60 * (?F - 1)" using v(1) by (simp add: written_descs_def)
  have F1: "1 < ?F" using div_le_mono[of 120 "unat valid + 59" 60] v(2) by simp
  have tw: "table_written (rw_crc w) mem ?F ?c" using written_by_mkfs_table(1)[OF t] w(2) by simp
  obtain s1 where s1: "recover_log_blocks w s = recover_blocks w None s1" "thread_wf s1" "read_so_far w mem ?F ?c 0 (area_env 6 s1)"
    "ae_area (area_env 6 s1) = ae_area (area_env 6 s)" "area_env 3 s1 = area_env 3 s"
    by (rule log_ready_run[OF s(1) w(1) tw])
  have "main_blocks mem ?c s1" by (rule mkfs_main_blocks[OF t]) (simp add: s s1(5))
  moreover have "ar_size (ae_area (area_env 6 s1)) \<noteq> 0" using s(1) s1(4) by (simp add: log_ready_def Let_def)
  ultimately have "before_empty_fragment w mem ?F ?c s1"
    unfolding before_empty_fragment_def using s1(2,3) by (auto intro!: exI[of _ 0])
  then show ?thesis using s1(1) recover_blocks_hang[OF w(1) F F1] by simp
qed


theorem mkfs_log_recovery_hangs_witness:
  "\<exists>mem. written_by_mkfs (\<lambda>_ _. 0) 0 120 0 5 4096 0 mem \<and>
     recover_log_blocks (sample_recover_world mem (\<lambda>_. Works)) (sample_thread 4096) = None"
proof -
  obtain mem where m: "written_by_mkfs (\<lambda>_ _. 0) 0 120 0 5 4096 0 mem" "length mem = 4096"
    using sample_table[of 120] by (auto simp: written_descs_def)
  let ?w = "sample_recover_world mem (\<lambda>_. Works)" and ?s = "sample_thread 4096"
  have ready: "log_ready ?w mem ?s" "well_behaved ?w" using sample_thread_ready[of mem "\<lambda>_. Works"] m(2) by simp_all
  have "recover_log_blocks ?w ?s = None"
    by (rule mkfs_log_recovery_hangs[OF m(1) _ _ ready(2) _ ready(1)])
      (simp_all add: sample_recover_world_def sample_area_env, simp add: sample_area_def)
  then show ?thesis using m(1) by blast
qed

end
