(* ===== verification/RecoverStore.thy ===== *)
theory RecoverStore
  imports RecoverMain RecoverLog "HOL-Library.Multiset"
begin

text \<open>
  What the synthesis of files does to the folders when no call of the system fails: the contents of the blocks of an inode
  go to the file of the inode, each at its offset, and the files of the blocks are deleted. With the recovery of a log this
  gives the way from the log of \<^verbatim>\<open>mkfs.ssdfs\<close> to the file.
\<close>

section \<open>A folder and the file of an inode\<close>

text \<open>The files of a folder, and the contents of a file of the output folder.\<close>

definition store_holds :: "folder_store \<Rightarrow> string \<Rightarrow> (string \<times> buf) list \<Rightarrow> string \<Rightarrow> buf \<Rightarrow> bool" where
  "store_holds st folder files data_file content \<longleftrightarrow>
     map_of (st_items st) folder = Some (Folder files) \<and> map_of (st_items st) data_file = Some (File content)"

text \<open>The calls of the system that the synthesis makes, when they work.\<close>

lemma sys_ok_calls:
  assumes "store_holds st folder files data_file content" and "folder \<noteq> data_file"
  shows "\<exists>st'. sys_openat (\<lambda>_. Works) False (Some folder) name st =
      (if map_of files name = None then Inl ENOENT_NR else Inr (), st') \<and> store_holds st' folder files data_file content"
    and "\<exists>st'. sys_stat_size (\<lambda>_. Works) (Some folder) name st =
      (case map_of files name of None \<Rightarrow> Inl EBADF_NR | Some b \<Rightarrow> Inr (length b), st') \<and> store_holds st' folder files data_file content"
    and "\<exists>st'. sys_read (\<lambda>_. Works) (Some folder) name n st =
      (case map_of files name of None \<Rightarrow> Inl EBADF_NR | Some b \<Rightarrow> Inr (take n b), st') \<and> store_holds st' folder files data_file content"
    and "\<exists>st'. sys_unlink (\<lambda>_. Works) (Some folder) name st =
      (if map_of files name = None then Inl ENOENT_NR else Inr (), st') \<and>
      store_holds st' folder (if map_of files name = None then files else AList.delete name files) data_file content"
    and "\<exists>st'. sys_write_file (\<lambda>_. Works) data_file off d st = (Inr (length d), st') \<and>
      store_holds st' folder files data_file (file_write content off d)"
    and "0 \<le> sint pos \<Longrightarrow> \<exists>st'. sys_lseek (\<lambda>_. Works) pos st = (Inr (), st') \<and> store_holds st' folder files data_file content"
    and "\<exists>st'. sys_sync (\<lambda>_. Works) st = (Inr (), st') \<and> store_holds st' folder files data_file content"
    and "\<exists>st'. sys_open_folder (\<lambda>_. Works) folder st = (Inr folder, st') \<and> store_holds st' folder files data_file content"
    and "\<exists>st'. sys_scan_folder (\<lambda>_. Works) folder st = (Inr (dirents (map (\<lambda>(n, _). (n, False)) files)), st') \<and>
      store_holds st' folder files data_file content"
    and "\<exists>st'. sys_open_file (\<lambda>_. Works) create data_file st = (Inr (), st') \<and> store_holds st' folder files data_file content"
  using assms
  by (auto simp: store_holds_def sys_openat_def sys_stat_size_def sys_read_def sys_unlink_def sys_write_file_def sys_lseek_def
      sys_sync_def sys_open_folder_def sys_scan_folder_def sys_open_file_def sys_call_def on_files_def folder_files_def put_item_def
      update_conv' transferred_def Let_def min_def split: option.splits)

lemma sys_run_ok: "m (ts_store s) = (Inr x, st) \<Longrightarrow> sys_run m s = ret x (s\<lparr>ts_store := st\<rparr>)"
  by (simp add: sys_run_def)

lemma content_store_commute [simp]: "s\<lparr>ts_content := c, ts_store := st\<rparr> = s\<lparr>ts_store := st, ts_content := c\<rparr>"
  by (cases s) simp

section \<open>One block\<close>

lemma prepare_file_buffer_ok:
  assumes "\<forall>place n. rw_alloc w place n"
  shows "\<exists>c. ssdfs_recoverfs_prepare_file_buffer w n s = ret () (s\<lparr>ts_content := Some c\<rparr>) \<and> unat n \<le> length c"
proof (cases "ts_content s")
  case None
  then show ?thesis using assms by (simp add: ssdfs_recoverfs_prepare_file_buffer_def modify_def) (metis length_replicate order_refl)
next
  case (Some old)
  then show ?thesis
    using assms unfolding ssdfs_recoverfs_prepare_file_buffer_def
    by (cases "length old < unat n") (simp_all add: modify_def, (metis length_replicate order_refl not_less)+)
qed

lemma move_block_exact:
  assumes w: "rw_sys w = (\<lambda>_. Works)" "\<forall>place n. rw_alloc w place n"
    and h: "store_holds (ts_store s) folder files data_file content" "folder \<noteq> data_file"
    and d: "map_of files name = Some d" "d \<noteq> []" "length d < 2 ^ 32"
  shows "\<exists>st c. move_block w folder name data_file off s = ret () (s\<lparr>ts_store := st, ts_content := Some c\<rparr>) \<and>
    store_holds st folder files data_file (file_write content (unat off) d)"
proof -
  obtain st1 where st1: "sys_stat_size (\<lambda>_. Works) (Some folder) name (ts_store s) = (Inr (length d), st1)"
    "store_holds st1 folder files data_file content" using sys_ok_calls(2)[OF h, of name] d(1) by auto
  obtain c where c: "ssdfs_recoverfs_prepare_file_buffer w (of_nat (length d)) (s\<lparr>ts_store := st1\<rparr>) =
      ret () (s\<lparr>ts_store := st1, ts_content := Some c\<rparr>)" "length d \<le> length c"
    using prepare_file_buffer_ok[OF w(2), of "of_nat (length d)" "s\<lparr>ts_store := st1\<rparr>"] d(3) by (auto simp: unat_of_nat)
  obtain st2 where st2: "sys_read (\<lambda>_. Works) (Some folder) name (length d) st1 = (Inr d, st2)"
    "store_holds st2 folder files data_file content" using sys_ok_calls(3)[OF st1(2) h(2), of name "length d"] d(1) by auto
  obtain st3 where st3: "sys_write_file (\<lambda>_. Works) data_file (unat off) d st2 = (Inr (length d), st3)"
    "store_holds st3 folder files data_file (file_write content (unat off) d)" using sys_ok_calls(5)[OF st2(2) h(2)] by blast
  let ?c = "overwrite c 0 d"
  have r: "bytes_at ?c 0 (length d) = d" "length d \<le> length ?c" using c(2) by (simp_all add: bytes_at_def overwrite_def)
  have run: "sys_run (sys_stat_size (\<lambda>_. Works) (Some folder) name) s = ret (length d) (s\<lparr>ts_store := st1\<rparr>)"
    "sys_run (sys_read (\<lambda>_. Works) (Some folder) name (length d)) (s\<lparr>ts_store := st1, ts_content := Some c\<rparr>) =
      ret d (s\<lparr>ts_store := st2, ts_content := Some c\<rparr>)"
    "sys_run (sys_write_file (\<lambda>_. Works) data_file (unat off) d) (s\<lparr>ts_store := st2, ts_content := Some ?c\<rparr>) =
      ret (length d) (s\<lparr>ts_store := st3, ts_content := Some ?c\<rparr>)"
    using st1(1) st2(1) st3(1) by (simp_all add: sys_run_def)
  note k1 = sbnd_run[where m = "sys_run (sys_stat_size (\<lambda>_. Works) (Some folder) name)", OF run(1)]
    and k2 = sbnd_run[where m = "ssdfs_recoverfs_prepare_file_buffer w (of_nat (length d))", OF c(1)]
    and k3 = sbnd_run[where m = "sys_run (sys_read (\<lambda>_. Works) (Some folder) name (length d))", OF run(2)]
    and k4 = sbnd_run[where m = "sys_run (sys_write_file (\<lambda>_. Works) data_file (unat off) d)", OF run(3)]
  have "move_block w folder name data_file off s = ret () (s\<lparr>ts_store := st3, ts_content := Some ?c\<rparr>)"
    using d(2) c(2) r unfolding move_block_def w(1)
    by (simp add: srun k1 k2 k3 k4 sbnd_assoc)
  then show ?thesis using st3(2) by blast
qed

text \<open>The blocks of an inode that the synthesis takes: their offset is one that \<^verbatim>\<open>lseek\<close> takes.\<close>

definition block_of :: "ssdfs_thread_state \<Rightarrow> string \<Rightarrow> bool" where
  "block_of s name \<longleftrightarrow> ssdfs_recoverfs_extract_inode_id name = ts_inode s"

definition block_offset :: "ssdfs_thread_state \<Rightarrow> string \<Rightarrow> u64" where
  "block_offset s name = ssdfs_recoverfs_extract_offset (env_page_size (ts_base s)) name"

lemma synthesize_other:
  "\<not> block_of s name \<Longrightarrow> synthesize_block w folder data_file name err s = ret (True, err) s"
  by (simp add: synthesize_block_def block_of_def)

lemma synthesize_block_exact:
  assumes w: "rw_sys w = (\<lambda>_. Works)" "\<forall>place n. rw_alloc w place n"
    and h: "store_holds (ts_store s) folder files data_file content" "folder \<noteq> data_file"
    and d: "map_of files name = Some d" "d \<noteq> []" "length d < 2 ^ 32"
    and name: "block_of s name" "ts_inode s \<noteq> U64_MAX" "0 \<le> sint (block_offset s name)"
  shows "\<exists>st c. synthesize_block w folder data_file name err s = ret (True, None) (s\<lparr>ts_store := st, ts_content := c\<rparr>) \<and>
    store_holds st folder (AList.delete name files) data_file (file_write content (unat (block_offset s name)) d)"
proof -
  have ino: "\<not> U64_MAX \<le> ts_inode s" using name(2) word_order.extremum_unique[of "ts_inode s"] by auto
  have "sint (U64_MAX :: u64) = -1" by simp
  then have off: "\<not> U64_MAX \<le> block_offset s name" using name(3) word_order.extremum_unique[of "block_offset s name"] by auto
  obtain st1 where st1: "sys_lseek (\<lambda>_. Works) (block_offset s name) (ts_store s) = (Inr (), st1)"
    "store_holds st1 folder files data_file content" using sys_ok_calls(6)[OF h name(3)] by blast
  obtain st2 where st2: "sys_openat (\<lambda>_. Works) False (Some folder) name st1 = (Inr (), st2)"
    "store_holds st2 folder files data_file content" using sys_ok_calls(1)[OF st1(2) h(2), of name] d(1) by auto
  obtain st3 c where st3: "move_block w folder name data_file (block_offset s name) (s\<lparr>ts_store := st2\<rparr>) =
      ret () (s\<lparr>ts_store := st3, ts_content := Some c\<rparr>)"
    "store_holds st3 folder files data_file (file_write content (unat (block_offset s name)) d)"
    using move_block_exact[OF w _ h(2) d, of "s\<lparr>ts_store := st2\<rparr>" content "block_offset s name"] st2(2) by auto
  obtain st4 where st4: "sys_unlink (\<lambda>_. Works) (Some folder) name st3 = (Inr (), st4)"
    "store_holds st4 folder (AList.delete name files) data_file (file_write content (unat (block_offset s name)) d)"
    using sys_ok_calls(4)[OF st3(2) h(2), of name] d(1) by auto
  note run = sys_run_ok[where m = "sys_lseek (\<lambda>_. Works) (block_offset s name)", OF st1(1)]
    sys_run_ok[where m = "sys_openat (\<lambda>_. Works) False (Some folder) name" and s = "s\<lparr>ts_store := st1\<rparr>", simplified, OF st2(1)]
    sys_run_ok[where m = "sys_unlink (\<lambda>_. Works) (Some folder) name" and s = "s\<lparr>ts_store := st3, ts_content := Some c\<rparr>", simplified, OF st4(1)]
  have "synthesize_block w folder data_file name err s = ret (True, None) (s\<lparr>ts_store := st4, ts_content := Some c\<rparr>)"
    using name(1) ino off unfolding synthesize_block_def w(1) Let_def block_of_def block_offset_def[symmetric]
    by (simp add: attempt_run_def run[unfolded ret_def] st3(1)[unfolded ret_def])
  then show ?thesis using st4(2) by blast
qed

section \<open>All blocks of an inode\<close>

definition inode_blocks :: "ssdfs_thread_state \<Rightarrow> (string \<times> bool) list \<Rightarrow> string list" where
  "inode_blocks s entries = map fst (filter (\<lambda>(name, is_dir). \<not> is_dir \<and> block_of s name) entries)"

definition put_blocks :: "ssdfs_thread_state \<Rightarrow> (string \<rightharpoonup> buf) \<Rightarrow> string list \<Rightarrow> buf \<Rightarrow> buf" where
  "put_blocks s files names content =
     fold (\<lambda>name b. file_write b (unat (block_offset s name)) (the (files name))) names content"

lemma thread_update_blocks [simp]:
  "inode_blocks (s\<lparr>ts_store := st, ts_content := c\<rparr>) = inode_blocks s"
  "put_blocks (s\<lparr>ts_store := st, ts_content := c\<rparr>) = put_blocks s"
  "block_of (s\<lparr>ts_store := st, ts_content := c\<rparr>) = block_of s"
  "block_offset (s\<lparr>ts_store := st, ts_content := c\<rparr>) = block_offset s"
  by (simp_all add: inode_blocks_def[abs_def] put_blocks_def[abs_def] block_of_def[abs_def] block_offset_def[abs_def] fun_eq_iff)

lemma put_blocks_cong: "(\<And>n. n \<in> set names \<Longrightarrow> f n = g n) \<Longrightarrow> put_blocks s f names content = put_blocks s g names content"
  unfolding put_blocks_def by (rule fold_cong) simp_all

text \<open>The blocks that can be moved: they are not empty, and their offset is one of a file.\<close>

definition good_blocks :: "ssdfs_thread_state \<Rightarrow> (string \<rightharpoonup> buf) \<Rightarrow> bool" where
  "good_blocks s files \<longleftrightarrow> (\<forall>name d. files name = Some d \<and> block_of s name \<longrightarrow>
     d \<noteq> [] \<and> length d < 2 ^ 32 \<and> 0 \<le> sint (block_offset s name))"

lemma synthesize_entries_exact:
  assumes w: "rw_sys w = (\<lambda>_. Works)" "\<forall>place n. rw_alloc w place n" and "folder \<noteq> data_file" and "ts_inode s \<noteq> U64_MAX"
    and "store_holds (ts_store s) folder files data_file content" and "good_blocks s (map_of files)"
    and "distinct (map fst entries)" and "\<forall>(name, is_dir) \<in> set entries. \<not> is_dir \<longrightarrow> map_of files name \<noteq> None"
  shows "\<exists>st c files'. synthesize_entries w folder data_file entries None s = ret None (s\<lparr>ts_store := st, ts_content := c\<rparr>) \<and>
    store_holds st folder files' data_file (put_blocks s (map_of files) (inode_blocks s entries) content) \<and>
    map_of files' = map_of files |` (- set (inode_blocks s entries))"
  using assms(3-)
proof (induction entries arbitrary: s files content)
  case Nil
  then show ?case by (auto simp: inode_blocks_def put_blocks_def intro!: exI[of _ "ts_store s"] exI[of _ "ts_content s"])
next
  case (Cons entry entries)
  obtain name is_dir where e: "entry = (name, is_dir)" by (cases entry)
  show ?case
  proof (cases "\<not> is_dir \<and> block_of s name")
    case False
    have "synthesize_entries w folder data_file (entry # entries) None s = synthesize_entries w folder data_file entries None s"
    proof (cases is_dir)
      case dir: False
      then have "\<not> block_of s name" using False by simp
      note other = sbnd_run[where m = "synthesize_block w folder data_file name None", OF synthesize_other[OF this]]
      show ?thesis using dir by (simp add: e other)
    qed (simp add: e)
    moreover have "inode_blocks s (entry # entries) = inode_blocks s entries" using False by (auto simp: inode_blocks_def e)
    ultimately show ?thesis using Cons.IH[OF Cons.prems(1-4)] Cons.prems(5,6) by simp
  next
    case True
    obtain d where d: "map_of files name = Some d" using Cons.prems(6) True by (auto simp: e)
    have g: "d \<noteq> []" "length d < 2 ^ 32" "0 \<le> sint (block_offset s name)"
      using Cons.prems(4) d True by (auto simp: good_blocks_def)
    obtain st c where st: "synthesize_block w folder data_file name None s = ret (True, None) (s\<lparr>ts_store := st, ts_content := c\<rparr>)"
      "store_holds st folder (AList.delete name files) data_file (file_write content (unat (block_offset s name)) d)"
      using synthesize_block_exact[OF w Cons.prems(3,1) d g(1,2) _ Cons.prems(2) g(3)] True by blast
    let ?s = "s\<lparr>ts_store := st, ts_content := c\<rparr>" and ?files = "AList.delete name files"
    have del: "map_of ?files = (map_of files)(name := None)" by (simp add: delete_conv')
    have notin: "name \<notin> fst ` set entries" using Cons.prems(5) by (simp add: e)
    have "good_blocks ?s (map_of ?files)" using Cons.prems(4) unfolding del by (simp add: good_blocks_def)
    moreover have "\<forall>(n, is_dir) \<in> set entries. \<not> is_dir \<longrightarrow> map_of ?files n \<noteq> None"
      using Cons.prems(6) notin unfolding del by force
    ultimately obtain st' c' files' where r: "synthesize_entries w folder data_file entries None ?s =
        ret None (s\<lparr>ts_store := st', ts_content := c'\<rparr>)"
      "store_holds st' folder files' data_file (put_blocks s (map_of ?files) (inode_blocks s entries)
         (file_write content (unat (block_offset s name)) d))"
      "map_of files' = map_of ?files |` (- set (inode_blocks s entries))"
      using Cons.IH[of ?s ?files "file_write content (unat (block_offset s name)) d"] Cons.prems(1,2,5) st(2) by auto
    have names: "inode_blocks s (entry # entries) = name # inode_blocks s entries" using True by (simp add: inode_blocks_def e)
    have "name \<notin> set (inode_blocks s entries)" using notin by (auto simp: inode_blocks_def)
    then have "put_blocks s (map_of ?files) (inode_blocks s entries) b = put_blocks s (map_of files) (inode_blocks s entries) b" for b
      unfolding del by (intro put_blocks_cong) auto
    moreover have "put_blocks s (map_of files) (name # ns) content =
        put_blocks s (map_of files) ns (file_write content (unat (block_offset s name)) d)" for ns
      using d by (simp add: put_blocks_def)
    ultimately have "store_holds st' folder files' data_file (put_blocks s (map_of files) (inode_blocks s (entry # entries)) content)"
      using r(2) names by simp
    moreover have "map_of files' = map_of files |` (- set (inode_blocks s (entry # entries)))"
      unfolding r(3) names del by (auto simp: restrict_map_def fun_eq_iff)
    moreover have "synthesize_entries w folder data_file (entry # entries) None s = ret None (s\<lparr>ts_store := st', ts_content := c'\<rparr>)"
      using True r(1) by (simp add: e sbnd_run[where m = "synthesize_block w folder data_file name None", OF st(1)])
    ultimately show ?thesis by blast
  qed
qed

text \<open>Blocks that do not overlap can be read back from the file.\<close>

definition blocks_apart :: "ssdfs_thread_state \<Rightarrow> (string \<rightharpoonup> buf) \<Rightarrow> bool" where
  "blocks_apart s files \<longleftrightarrow> (\<forall>n m d d'. n \<noteq> m \<and> files n = Some d \<and> files m = Some d' \<and> block_of s n \<and> block_of s m \<longrightarrow>
     unat (block_offset s n) + length d \<le> unat (block_offset s m) \<or> unat (block_offset s m) + length d' \<le> unat (block_offset s n))"

lemma put_blocks_read_back:
  assumes "blocks_apart s files" and "distinct names" and "\<forall>n \<in> set names. block_of s n \<and> (\<exists>d. files n = Some d \<and> d \<noteq> [])"
  shows "\<forall>n \<in> set names. unat (block_offset s n) + length (the (files n)) \<le> length (put_blocks s files names content) \<and>
    bytes_at (put_blocks s files names content) (unat (block_offset s n)) (length (the (files n))) = the (files n)"
  using assms(2,3)
proof (induction names rule: rev_induct)
  case Nil
  then show ?case by simp
next
  case (snoc m names)
  let ?f = "put_blocks s files names content"
  obtain d where d: "files m = Some d" "d \<noteq> []" using snoc.prems(2) by auto
  have last: "put_blocks s files (names @ [m]) content = file_write ?f (unat (block_offset s m)) d"
    using d(1) by (simp add: put_blocks_def)
  have len: "length (file_write ?f (unat (block_offset s m)) d) = max (length ?f) (unat (block_offset s m) + length d)"
    by (rule length_file_write[OF d(2)])
  show ?case
  proof
    fix n assume n: "n \<in> set (names @ [m])"
    show "unat (block_offset s n) + length (the (files n)) \<le> length (put_blocks s files (names @ [m]) content) \<and>
      bytes_at (put_blocks s files (names @ [m]) content) (unat (block_offset s n)) (length (the (files n))) = the (files n)"
    proof (cases "n = m")
      case True
      then show ?thesis using d(1) len bytes_at_file_write[of ?f "unat (block_offset s m)" d] unfolding last by simp
    next
      case False
      then have old: "unat (block_offset s n) + length (the (files n)) \<le> length ?f"
        "bytes_at ?f (unat (block_offset s n)) (length (the (files n))) = the (files n)" and n': "n \<in> set names"
        using snoc n by auto
      obtain d' where "files n = Some d'" "block_of s n" "block_of s m" using snoc.prems(2) n' by auto
      then have "unat (block_offset s n) + length (the (files n)) \<le> unat (block_offset s m) \<or>
          unat (block_offset s m) + length d \<le> unat (block_offset s n)"
        using assms(1) False d(1) unfolding blocks_apart_def by (metis option.sel)
      then show ?thesis using old len bytes_at_file_write_other[of "unat (block_offset s n)" _ "unat (block_offset s m)" d ?f]
        unfolding last by simp
    qed
  qed
qed

lemma folder_entries:
  assumes "distinct (map fst files)" and "''.'' \<notin> fst ` set files" "''..'' \<notin> fst ` set files"
  defines "entries \<equiv> dirents (map (\<lambda>(n, _). (n, False)) files)"
  shows "distinct (map fst entries)" and "\<forall>(n, is_dir) \<in> set entries. \<not> is_dir \<longrightarrow> map_of files n \<noteq> None"
    and "set (inode_blocks s entries) = {n. block_of s n \<and> map_of files n \<noteq> None}"
    and "distinct (inode_blocks s entries)"
proof -
  let ?all = "(''.'', True) # (''..'', True) # map (\<lambda>(n, _). (n, False)) files"
  have m: "mset entries = mset ?all" unfolding entries_def dirents_def by (rule mset_sort)
  then have set: "set entries = set ?all" by (rule mset_eq_setD)
  have fst_all: "map fst ?all = ''.'' # ''..'' # map fst files" by (simp add: case_prod_unfold)
  have "mset (map fst entries) = mset (map fst ?all)" unfolding mset_map m ..
  moreover have "distinct (map fst ?all)" unfolding fst_all using assms(1-3) by simp
  ultimately show d: "distinct (map fst entries)" using mset_eq_imp_distinct_iff by blast
  show "\<forall>(n, is_dir) \<in> set entries. \<not> is_dir \<longrightarrow> map_of files n \<noteq> None"
    unfolding set by (auto simp: map_of_eq_None_iff) (metis fst_conv image_eqI)
  show "set (inode_blocks s entries) = {n. block_of s n \<and> map_of files n \<noteq> None}"
    unfolding inode_blocks_def set_map set_filter set by (force simp: map_of_eq_None_iff image_iff)
  show "distinct (inode_blocks s entries)"
    unfolding inode_blocks_def using d by (simp add: distinct_map_filter)
qed

lemma folder_blocks_moved:
  fixes s :: ssdfs_thread_state
  defines "data_file \<equiv> decimal (unat (ts_inode s))"
  assumes w: "rw_sys w = (\<lambda>_. Works)" "\<forall>place n. rw_alloc w place n"
    and folder: "map_of (st_items (ts_store s)) folder = Some (Folder files)" "folder \<noteq> data_file"
    and names: "distinct (map fst files)" "''.'' \<notin> fst ` set files" "''..'' \<notin> fst ` set files"
    and data: "map_of (st_items (ts_store s)) data_file \<in> {None, Some (File content)}" "ts_inode s \<noteq> U64_MAX"
    and blocks: "good_blocks s (map_of files)" "blocks_apart s (map_of files)"
  shows "\<exists>s' files' content'. ssdfs_recoverfs_synthesize_blocks w folder s = ret () s' \<and>
    store_holds (ts_store s') folder files' data_file content' \<and>
    map_of files' = map_of files |` (- {n. block_of s n}) \<and>
    (\<forall>n d. map_of files n = Some d \<and> block_of s n \<longrightarrow> bytes_at content' (unat (block_offset s n)) (length d) = d)"
proof -
  let ?entries = "dirents (map (\<lambda>(n, _). (n, False)) files)"
  note entries = folder_entries[OF names]
  obtain st1 content1 where st1: "ssdfs_recoverfs_create_data_file w s = ret data_file (s\<lparr>ts_store := st1\<rparr>)"
    "store_holds st1 folder files data_file content1"
  proof (cases "map_of (st_items (ts_store s)) data_file")
    case None
    then have "\<exists>st. ssdfs_recoverfs_create_data_file w s = ret data_file (s\<lparr>ts_store := st\<rparr>) \<and> store_holds st folder files data_file []"
      using folder w(1) by (auto simp: ssdfs_recoverfs_create_data_file_def data_file_def[symmetric] Let_def attempt_run_def sbnd_def
          sys_run_def sys_open_file_def sys_call_def put_item_def update_conv' store_holds_def ret_def throw_def)
    then show ?thesis using that by blast
  next
    case (Some x)
    then have "store_holds (ts_store s) folder files data_file content" using data(1) folder(1) by (simp add: store_holds_def)
    then obtain st where "sys_open_file (\<lambda>_. Works) False data_file (ts_store s) = (Inr (), st)"
      "store_holds st folder files data_file content" using sys_ok_calls(10)[OF _ folder(2)] by blast
    then show ?thesis using that[of st content] w(1)
      by (simp add: ssdfs_recoverfs_create_data_file_def data_file_def[symmetric] Let_def attempt_run_def sbnd_def sys_run_def ret_def)
  qed
  obtain st2 where st2: "sys_open_folder (\<lambda>_. Works) folder st1 = (Inr folder, st2)" "store_holds st2 folder files data_file content1"
    using sys_ok_calls(8)[OF st1(2) folder(2)] by blast
  obtain st3 where st3: "sys_scan_folder (\<lambda>_. Works) folder st2 = (Inr ?entries, st3)" "store_holds st3 folder files data_file content1"
    using sys_ok_calls(9)[OF st2(2) folder(2)] by blast
  have same: "block_of (s\<lparr>ts_store := st\<rparr>) = block_of s" "block_offset (s\<lparr>ts_store := st\<rparr>) = block_offset s"
    "inode_blocks (s\<lparr>ts_store := st\<rparr>) = inode_blocks s" "put_blocks (s\<lparr>ts_store := st\<rparr>) = put_blocks s"
    "good_blocks (s\<lparr>ts_store := st\<rparr>) = good_blocks s" for st
    by (simp_all add: block_of_def[abs_def] block_offset_def[abs_def] inode_blocks_def[abs_def] put_blocks_def[abs_def]
        good_blocks_def[abs_def] fun_eq_iff)
  obtain st4 c files' where st4: "synthesize_entries w folder data_file ?entries None (s\<lparr>ts_store := st3\<rparr>) =
      ret None (s\<lparr>ts_store := st4, ts_content := c\<rparr>)"
    "store_holds st4 folder files' data_file (put_blocks s (map_of files) (inode_blocks s ?entries) content1)"
    "map_of files' = map_of files |` (- set (inode_blocks s ?entries))"
    using synthesize_entries_exact[OF w folder(2), of "s\<lparr>ts_store := st3\<rparr>" files content1 ?entries] st3(2) data(2) blocks(1) entries(1,2)
    unfolding same by auto
  obtain st5 where st5: "sys_sync (\<lambda>_. Works) st4 = (Inr (), st5)"
    "store_holds st5 folder files' data_file (put_blocks s (map_of files) (inode_blocks s ?entries) content1)"
    using sys_ok_calls(7)[OF st4(2) folder(2)] by blast
  let ?s' = "s\<lparr>ts_store := st5, ts_content := c\<rparr>" and ?content = "put_blocks s (map_of files) (inode_blocks s ?entries) content1"
  have run: "sys_run (sys_open_folder (\<lambda>_. Works) folder) (s\<lparr>ts_store := st1\<rparr>) = ret folder (s\<lparr>ts_store := st2\<rparr>)"
    "sys_run (sys_scan_folder (\<lambda>_. Works) folder) (s\<lparr>ts_store := st2\<rparr>) = ret ?entries (s\<lparr>ts_store := st3\<rparr>)"
    "sys_run (sys_sync (\<lambda>_. Works)) (s\<lparr>ts_store := st4, ts_content := c\<rparr>) = ret () ?s'"
    using st2(1) st3(1) st5(1) by (simp_all add: sys_run_def)
  have "ssdfs_recoverfs_synthesize_blocks w folder s = ret () ?s'"
    unfolding ssdfs_recoverfs_synthesize_blocks_def w(1)
    by (simp add: sbnd_run[where m = "ssdfs_recoverfs_create_data_file w", OF st1(1)]
        sbnd_run[where m = "sys_run (sys_open_folder (\<lambda>_. Works) folder)", OF run(1)]
        sbnd_run[where m = "sys_run (sys_scan_folder (\<lambda>_. Works) folder)", OF run(2)]
        sbnd_run[where m = "synthesize_entries w folder data_file ?entries None", OF st4(1)]
        sbnd_run[where m = "sys_run (sys_sync (\<lambda>_. Works))", OF run(3)])
  moreover have "map_of files' = map_of files |` (- {n. block_of s n})"
    unfolding st4(3) entries(3) by (auto simp: restrict_map_def fun_eq_iff)
  moreover have "bytes_at ?content (unat (block_offset s n)) (length d) = d" if n: "map_of files n = Some d" "block_of s n" for n d
  proof -
    have "\<forall>n \<in> set (inode_blocks s ?entries). block_of s n \<and> (\<exists>d. map_of files n = Some d \<and> d \<noteq> [])"
      unfolding entries(3) using blocks(1) by (auto simp: good_blocks_def)
    moreover have "n \<in> set (inode_blocks s ?entries)" unfolding entries(3) using n by simp
    ultimately show ?thesis using put_blocks_read_back[OF blocks(2) entries(4)] n(1) by fastforce
  qed
  ultimately show ?thesis using st5(2) by (intro exI[of _ ?s'] exI[of _ files'] exI[of _ ?content]) simp
qed

text \<open>
  C6. What the synthesis of a folder does when no call of the system fails: the file of the inode gets the contents of all its
  blocks, each at its offset, and blocks that do not overlap can be read back there; exactly the files of these blocks
  disappear from the folder.
\<close>

theorem folder_synthesized:
  fixes s :: ssdfs_thread_state
  defines "data_file \<equiv> decimal (unat (ts_inode s))"
  assumes w: "rw_sys w = (\<lambda>_. Works)" "\<forall>place n. rw_alloc w place n"
    and folder: "map_of (st_items (ts_store s)) folder = Some (Folder files)" "folder \<noteq> data_file"
    and names: "distinct (map fst files)" "''.'' \<notin> fst ` set files" "''..'' \<notin> fst ` set files"
    and data: "map_of (st_items (ts_store s)) data_file \<in> {None, Some (File content)}" "ts_inode s \<noteq> U64_MAX"
    and blocks: "good_blocks s (map_of files)" "blocks_apart s (map_of files)"
  shows "\<exists>s' files' content'. ssdfs_recoverfs_synthesize_blocks w folder s = ret () s' \<and>
    store_holds (ts_store s') folder files' data_file content' \<and>
    map_of files' = map_of files |` (- {n. block_of s n}) \<and>
    (\<forall>n d. map_of files n = Some d \<and> block_of s n \<longrightarrow> bytes_at content' (unat (block_offset s n)) (length d) = d)"
  unfolding data_file_def by (rule folder_blocks_moved[OF assms(2-)[unfolded data_file_def]])

definition sample_blocks :: "(string \<times> buf) list" where
  "sample_blocks = [(''5-0'', [1, 2]), (''6-0'', [9]), (''5-1'', [3])]"

definition sample_synthesis :: ssdfs_thread_state where
  "sample_synthesis = (sample_thread 320)\<lparr>ts_inode := 5, ts_store := \<lparr>st_items = [(''7'', Folder sample_blocks)], st_calls = 0\<rparr>\<rparr>"

lemma sample_block_names:
  "block_of sample_synthesis ''5-0''" "block_of sample_synthesis ''5-1''" "\<not> block_of sample_synthesis ''6-0''"
  "block_offset sample_synthesis ''5-0'' = 0" "block_offset sample_synthesis ''5-1'' = 4096"
proof -
  have "ssdfs_recoverfs_extract_inode_id ''5-0'' = 5" "ssdfs_recoverfs_extract_inode_id ''5-1'' = 5"
    "ssdfs_recoverfs_extract_inode_id ''6-0'' = 6" "ssdfs_recoverfs_extract_offset 4096 ''5-0'' = 0"
    "ssdfs_recoverfs_extract_offset 4096 ''5-1'' = 4096" by code_simp+
  then show "block_of sample_synthesis ''5-0''" "block_of sample_synthesis ''5-1''" "\<not> block_of sample_synthesis ''6-0''"
    "block_offset sample_synthesis ''5-0'' = 0" "block_offset sample_synthesis ''5-1'' = 4096"
    by (simp_all add: block_of_def block_offset_def sample_synthesis_def sample_thread_def)
qed

theorem folder_synthesized_witness:
  "\<exists>s' files' content'. ssdfs_recoverfs_synthesize_blocks (sample_recover_world [] (\<lambda>_. Works)) ''7'' sample_synthesis = ret () s' \<and>
     store_holds (ts_store s') ''7'' files' ''5'' content' \<and> map_of files' ''5-0'' = None \<and> map_of files' ''6-0'' = Some [9] \<and>
     bytes_at content' 0 2 = [1, 2] \<and> bytes_at content' 4096 1 = [3]"
proof -
  let ?w = "sample_recover_world [] (\<lambda>_. Works)" and ?s = sample_synthesis
  have name: "decimal (unat (ts_inode ?s)) = ''5''" unfolding sample_synthesis_def by simp code_simp
  have good: "good_blocks ?s (map_of sample_blocks)"
    unfolding good_blocks_def sample_blocks_def by (auto simp: sample_block_names split: if_splits)
  have apart: "blocks_apart ?s (map_of sample_blocks)"
    unfolding blocks_apart_def sample_blocks_def by (auto simp: sample_block_names split: if_splits)
  have "\<exists>s' files' content'. ssdfs_recoverfs_synthesize_blocks ?w ''7'' ?s = ret () s' \<and>
      store_holds (ts_store s') ''7'' files' (decimal (unat (ts_inode ?s))) content' \<and>
      map_of files' = map_of sample_blocks |` (- {n. block_of ?s n}) \<and>
      (\<forall>n d. map_of sample_blocks n = Some d \<and> block_of ?s n \<longrightarrow> bytes_at content' (unat (block_offset ?s n)) (length d) = d)"
    by (rule folder_synthesized[OF _ _ _ _ _ _ _ _ _ good apart])
      (simp_all add: name, simp_all add: sample_recover_world_def sample_synthesis_def sample_blocks_def)
  then obtain s' files' content' where r: "ssdfs_recoverfs_synthesize_blocks ?w ''7'' ?s = ret () s'"
    "store_holds (ts_store s') ''7'' files' ''5'' content'" "map_of files' = map_of sample_blocks |` (- {n. block_of ?s n})"
    "\<forall>n d. map_of sample_blocks n = Some d \<and> block_of ?s n \<longrightarrow> bytes_at content' (unat (block_offset ?s n)) (length d) = d"
    unfolding name by blast
  have "bytes_at content' 0 2 = [1, 2]" using r(4)[rule_format, of "''5-0''" "[1, 2]"]
    by (simp add: sample_block_names sample_blocks_def numeral_2_eq_2)
  moreover have "bytes_at content' 4096 1 = [3]" using r(4)[rule_format, of "''5-1''" "[3]"]
    by (simp add: sample_block_names sample_blocks_def)
  moreover have "map_of files' ''5-0'' = None" "map_of files' ''6-0'' = Some [9]"
    unfolding r(3) by (simp_all add: sample_block_names sample_blocks_def)
  ultimately show ?thesis using r(1,2) by blast
qed

section \<open>From the log of mkfs.ssdfs to the file\<close>





end
